(* ===== verification/Prelude.thy ===== *)
theory Prelude
  imports Main "HOL-Library.Word"
begin

text \<open>
  Machine types, the bit helpers of \<open>stable/utils.h\<close> and the outcome type shared by the
  components. The C types \<open>m_uint8_t\<close> \dots \<open>m_uint64_t\<close> are words of that width, so addition
  wraps; a signed shift is \<open>signed_drop_bit\<close>. A C function that may leave by \<open>longjmp\<close> or may
  hit a host trap returns an \<open>outcome\<close>.
\<close>

unbundle bit_operations_syntax

type_synonym u8 = "8 word"
type_synonym u16 = "16 word"
type_synonym u32 = "32 word"
type_synonym u64 = "64 word"

named_theorems outcome_simps \<open>evaluation of outcome sequencing\<close>
named_theorems bits_simps \<open>bounds and normal forms of the bit-field helpers\<close>
named_theorems frame_simps \<open>fields an operation leaves unchanged\<close>

section \<open>Outcomes of C functions\<close>

text \<open>
  \<open>Ok r s\<close>: the function returned \<open>r\<close> in state \<open>s\<close>. \<open>LongJmp s\<close>: it left through
  \<open>cpu_exec_loop_enter\<close>. \<open>HostFault\<close>: the host program trapped (division by zero, null
  dereference, failed assertion). \<open>OutOfFuel\<close>: the recursion budget of the model ended.
\<close>

datatype ('a, 's) outcome = Ok 'a 's | LongJmp 's | HostFault | OutOfFuel

definition obind :: "('a, 's) outcome \<Rightarrow> ('a \<Rightarrow> 's \<Rightarrow> ('b, 's) outcome) \<Rightarrow> ('b, 's) outcome" where
  "obind r f = (case r of Ok a s \<Rightarrow> f a s | LongJmp s \<Rightarrow> LongJmp s
                        | HostFault \<Rightarrow> HostFault | OutOfFuel \<Rightarrow> OutOfFuel)"

lemma obind_simps [simp, outcome_simps]:
  "obind (Ok a s) f = f a s"
  "obind (LongJmp s) f = LongJmp s"
  "obind HostFault f = HostFault"
  "obind OutOfFuel f = OutOfFuel"
  by (simp_all add: obind_def)

lemma obind_Ok_iff:
  "obind r f = Ok b t \<longleftrightarrow> (\<exists>a s. r = Ok a s \<and> f a s = Ok b t)"
  by (cases r) auto

lemma obind_LongJmp_iff:
  "obind r f = LongJmp t \<longleftrightarrow> r = LongJmp t \<or> (\<exists>a s. r = Ok a s \<and> f a s = LongJmp t)"
  by (cases r) auto

lemma obind_OutOfFuel_iff:
  "obind r f = OutOfFuel \<longleftrightarrow> r = OutOfFuel \<or> (\<exists>a s. r = Ok a s \<and> f a s = OutOfFuel)"
  by (cases r) auto

lemma obind_HostFault_iff:
  "obind r f = HostFault \<longleftrightarrow> r = HostFault \<or> (\<exists>a s. r = Ok a s \<and> f a s = HostFault)"
  by (cases r) auto

lemmas obind_iffs = obind_Ok_iff obind_LongJmp_iff obind_OutOfFuel_iff obind_HostFault_iff

text \<open>\<open>outcome_all P r\<close>: every state the outcome carries satisfies \<open>P\<close>.\<close>

definition outcome_all :: "('s \<Rightarrow> bool) \<Rightarrow> ('a, 's) outcome \<Rightarrow> bool" where
  "outcome_all P r = (case r of Ok a s \<Rightarrow> P s | LongJmp s \<Rightarrow> P s | HostFault \<Rightarrow> True | OutOfFuel \<Rightarrow> True)"

lemma outcome_all_simps [simp, outcome_simps]:
  "outcome_all P (Ok a s) = P s"
  "outcome_all P (LongJmp s) = P s"
  "outcome_all P HostFault"
  "outcome_all P OutOfFuel"
  by (simp_all add: outcome_all_def)

lemma outcome_all_bind:
  assumes "outcome_all P r" and "\<And>a s. P s \<Longrightarrow> outcome_all P (f a s)"
  shows "outcome_all P (obind r f)"
  using assms by (cases r) auto

lemma outcome_all_weaken:
  assumes "outcome_all P r" and "\<And>s. P s \<Longrightarrow> Q s"
  shows "outcome_all Q r"
  using assms by (cases r) auto

section \<open>Counting loops\<close>

text \<open>\<open>for_each f xs s\<close> runs the loop body \<open>f\<close> for each index of \<open>xs\<close> in turn; a body that
  stops with \<open>None\<close> (a failed assertion) stops the loop. The rule below is the invariant rule
  for \<open>for (i = 0; i < n; i++)\<close>, which is \<open>for_each f [0..<n]\<close>.\<close>

fun for_each :: "('i \<Rightarrow> 's \<Rightarrow> 's option) \<Rightarrow> 'i list \<Rightarrow> 's \<Rightarrow> 's option" where
  "for_each f [] s = Some s"
| "for_each f (i # is) s = (case f i s of None \<Rightarrow> None | Some s' \<Rightarrow> for_each f is s')"

lemma for_each_upt_inv:
  assumes "m \<le> n" and "I m s"
    and "\<And>i s. m \<le> i \<Longrightarrow> i < n \<Longrightarrow> I i s \<Longrightarrow> \<exists>s'. f i s = Some s' \<and> I (Suc i) s'"
  shows "\<exists>s'. for_each f [m..<n] s = Some s' \<and> I n s'"
  using assms
proof (induction "n - m" arbitrary: m s)
  case 0
  then show ?case by simp
next
  case (Suc k)
  then have "m < n" by simp
  with Suc.prems obtain s' where s': "f m s = Some s'" "I (Suc m) s'" by blast
  have "k = n - Suc m" "Suc m \<le> n" using Suc.hyps(2) \<open>m < n\<close> by simp_all
  from Suc.hyps(1) [OF this s'(2)] Suc.prems(3)
  obtain s'' where "for_each f [Suc m..<n] s' = Some s''" "I n s''" by force
  with s'(1) \<open>m < n\<close> show ?case by (simp add: upt_conv_Cons)
qed

lemma fold_upt_inv:
  assumes "m \<le> n" and "I m s"
    and "\<And>i s. m \<le> i \<Longrightarrow> i < n \<Longrightarrow> I i s \<Longrightarrow> I (Suc i) (f i s)"
  shows "I n (fold f [m..<n] s)"
  using assms
proof (induction "n - m" arbitrary: m s)
  case 0
  then show ?case by simp
next
  case (Suc k)
  then have "m < n" by simp
  with Suc show ?case by (simp add: upt_conv_Cons)
qed

section \<open>Bit helpers of utils.h\<close>

text \<open>\<open>bits(val,start,end)\<close>: the bit field \<open>start..end\<close> of a 32-bit value.\<close>

definition bits :: "u32 \<Rightarrow> nat \<Rightarrow> nat \<Rightarrow> u32" where
  "bits val start end = drop_bit start val AND (push_bit (end - start + 1) 1 - 1)"

text \<open>The same field used as an array index.\<close>

definition fld :: "u32 \<Rightarrow> nat \<Rightarrow> nat \<Rightarrow> nat" where
  "fld val start end = unat (bits val start end)"

text \<open>\<open>sign_extend(x,len)\<close>: shift left by \<open>64-len\<close>, then arithmetically right.\<close>

definition sign_extend :: "u64 \<Rightarrow> nat \<Rightarrow> u64" where
  "sign_extend x len = (let l = 64 - len in signed_drop_bit l (push_bit l x))"

definition sign_extend_32 :: "u32 \<Rightarrow> nat \<Rightarrow> u32" where
  "sign_extend_32 x len = (let l = 32 - len in signed_drop_bit l (push_bit l x))"

text \<open>\<open>check_bit(old,new,bit)\<close>: 1 when the bit goes down, 2 when it goes up, 0 otherwise.\<close>

definition check_bit :: "u32 \<Rightarrow> u32 \<Rightarrow> nat \<Rightarrow> nat" where
  "check_bit old new_value b =
     (let mask = push_bit b (1::u32) in
      if old AND mask \<noteq> 0 \<and> \<not> (new_value AND mask \<noteq> 0) then 1
      else if \<not> (old AND mask \<noteq> 0) \<and> new_value AND mask \<noteq> 0 then 2
      else 0)"

text \<open>\<open>normalize_size(val,nb,shift)\<close>: round up to a multiple of \<open>nb\<close>, then divide by \<open>2^shift\<close>.\<close>

definition normalize_size :: "u32 \<Rightarrow> u32 \<Rightarrow> nat \<Rightarrow> u32" where
  "normalize_size val nb shift = drop_bit shift ((val + nb - 1) AND NOT (nb - 1))"

definition swap16 :: "u16 \<Rightarrow> u16" where
  "swap16 value = drop_bit 8 value OR push_bit 8 (value AND 0xFF)"

definition swap32 :: "u32 \<Rightarrow> u32" where
  "swap32 value =
     (let r = drop_bit 24 value;
          r = r OR push_bit 8 (drop_bit 16 value AND 0xff);
          r = r OR push_bit 16 (drop_bit 8 value AND 0xff)
      in r OR push_bit 24 (value AND 0xff))"

definition swap64 :: "u64 \<Rightarrow> u64" where
  "swap64 value =
     (let r = push_bit 32 (ucast (swap32 (ucast (value AND 0xffffffff))) :: u64)
      in r OR ucast (swap32 (ucast (drop_bit 32 value))))"

text \<open>Big-endian accessors on unaligned byte arrays (\<open>m_ntoh16\<close>, \<open>m_ntoh32\<close>, \<open>m_hton16\<close>,
  \<open>m_hton32\<close>): the array is the byte list, the writer returns the bytes it stores.\<close>

definition m_ntoh16 :: "u8 \<Rightarrow> u8 \<Rightarrow> u16" where
  "m_ntoh16 b0 b1 = push_bit 8 (ucast b0) OR ucast b1"

definition m_ntoh32 :: "u8 \<Rightarrow> u8 \<Rightarrow> u8 \<Rightarrow> u8 \<Rightarrow> u32" where
  "m_ntoh32 b0 b1 b2 b3 =
     push_bit 24 (ucast b0) OR push_bit 16 (ucast b1) OR push_bit 8 (ucast b2) OR ucast b3"

definition m_hton16 :: "u16 \<Rightarrow> u8 list" where
  "m_hton16 val = [ucast (drop_bit 8 val), ucast val]"

definition m_hton32 :: "u32 \<Rightarrow> u8 list" where
  "m_hton32 val = [ucast (drop_bit 24 val), ucast (drop_bit 16 val), ucast (drop_bit 8 val), ucast val]"

subsection \<open>Bounds and normal forms\<close>

lemma push_bit_one_minus_one: "push_bit n (1 :: 'a::len word) - 1 = mask n"
  by (simp add: mask_eq_exp_minus_1 push_bit_eq_mult)

lemma bits_eq_take_bit: "bits v s e = take_bit (e - s + 1) (drop_bit s v)"
  unfolding bits_def push_bit_one_minus_one by (simp only: take_bit_eq_mask)

lemma unat_take_bit_less: "unat (take_bit n (w :: 'a::len word)) < 2 ^ n"
  by (simp add: unsigned_take_bit_eq)

lemma take_bit_self_of_less: "unat (w :: 'a::len word) < 2 ^ k \<Longrightarrow> take_bit k w = w"
  by (simp add: word_eq_iff_unsigned [where ?'a = nat] unsigned_take_bit_eq take_bit_nat_eq_self)

lemma bit_less_pow2: "unat (w :: 'a::len word) < 2 ^ k \<Longrightarrow> bit w n \<Longrightarrow> n < k"
  by (metis bit_take_bit_iff take_bit_self_of_less)

lemma ntoh_hton16 [simp]: "m_ntoh16 (ucast (drop_bit 8 v)) (ucast v) = v"
  by (rule bit_word_eqI) (auto simp: m_ntoh16_def bit_simps not_less dest: bit_imp_le_length)

lemma ntoh_hton32:
  "m_ntoh32 (ucast (drop_bit 24 h)) (ucast (drop_bit 16 h)) (ucast (drop_bit 8 h)) (ucast h) = h"
proof (rule bit_word_eqI)
  fix n assume "n < LENGTH(32)"
  then consider "n < 8" | "8 \<le> n" "n < 16" | "16 \<le> n" "n < 24" | "24 \<le> n" "n < 32" by fastforce
  then show "bit (m_ntoh32 (ucast (drop_bit 24 h)) (ucast (drop_bit 16 h)) (ucast (drop_bit 8 h)) (ucast h)) n = bit h n"
    by cases (auto simp: m_ntoh32_def bit_simps)
qed

lemma unat_u32_less [bits_simps]: "unat (w :: u32) < 4294967296"
proof -
  have "unat w < 2 ^ LENGTH(32)" by (rule unsigned_less)
  then show ?thesis by simp
qed

lemma unat_hi16_less [bits_simps]: "unat (drop_bit 16 (w :: u32)) < 65536"
  using unat_u32_less [of w] by (simp add: drop_bit_eq_div unat_div)

lemma unat_lo16_less [bits_simps]: "unat (w AND 0xFFFF :: u32) < 65536"
  using unat_take_bit_less [of 16 w] by (simp add: take_bit_eq_mask mask_eq_exp_minus_1)

lemma page_mask_is_not_mask: "(0xfffffffffffff000 :: u64) = NOT (mask 12)" "(0xfff :: u64) = mask 12"
  by (simp_all add: mask_eq_exp_minus_1)

lemma fld_bound: "fld v s e < 2 ^ (e - s + 1)"
  unfolding fld_def bits_eq_take_bit by (rule unat_take_bit_less)

lemma reg_field_bound [simp, bits_simps]:
  "fld v 21 25 < 32" "fld v 16 20 < 32" "fld v 11 15 < 32" "fld v 6 10 < 32"
  using fld_bound [of v 21 25] fld_bound [of v 16 20] fld_bound [of v 11 15] fld_bound [of v 6 10]
  by simp_all

lemma bit_sign_extend:
  assumes "0 < n" "n \<le> 64"
  shows "bit (sign_extend x n) k \<longleftrightarrow> k < 64 \<and> bit x (min k (n - 1))"
proof -
  have "bit (signed_drop_bit (64 - n) (push_bit (64 - n) x)) k \<longleftrightarrow>
      k < 64 \<and> bit (push_bit (64 - n) x) (if 64 - (64 - n) \<le> k then 63 else (64 - n) + k)"
    by (auto simp: bit_signed_drop_bit_iff dest: bit_imp_le_length)
  then show ?thesis
    using assms by (auto simp: sign_extend_def Let_def bit_push_bit_iff min_def)
qed

lemma sign_extend_signed_take_bit:
  assumes "0 < n" "n \<le> 64"
  shows "sign_extend x n = signed_take_bit (n - 1) x"
  by (rule bit_word_eqI) (use assms in \<open>auto simp: bit_sign_extend bit_signed_take_bit_iff bit_imp_le_length min.commute\<close>)

lemma sign_extend_ucast_32: "sign_extend (ucast (w :: u32)) 32 = scast w"
  by (rule bit_word_eqI)
    (auto simp: bit_sign_extend bit_simps min_def)

lemma sint_sign_extend_16: "sint (sign_extend (ucast (w :: u16)) 16) = sint w"
proof -
  have "sign_extend (ucast w) 16 = (scast w :: u64)"
    by (rule bit_word_eqI) (auto simp: bit_sign_extend bit_simps min_def)
  then show ?thesis by (simp add: sint_up_scast is_up)
qed

end
