(* ===== verification/Memory.thy ===== *)
theory Memory
  imports Prelude
begin

text \<open>
  What the memory systems of the two processors share: the entry of the MTS translation cache and its
  flags (\<open>stable/memory.h\<close>, \<open>mts32_entry_t\<close> and \<open>mts64_entry_t\<close>), the result \<open>mts_map_t\<close> of an address
  translation, and big-endian accesses to host memory. Two interfaces: \<open>host_cell\<close>, the contract of
  one access width, interpreted for the four widths, and \<open>translation_cache\<close>, what a direct-mapped
  cache of translations needs to be transparent, interpreted on the caches of both processors.
\<close>

section \<open>Entries and mappings\<close>

text \<open>An entry of the MTS cache (\<open>mts32_entry_t\<close>, \<open>mts64_entry_t\<close>).\<close>

record mts_entry =
  gvpa :: u64
  gppa :: u64
  hpa :: u64
  mts_flags :: u32

text \<open>\<open>mts_map_t\<close>; \<open>map_cached\<close> is its flag \<open>cached\<close> and \<open>len\<close> is never read.\<close>

record mts_map =
  map_vaddr :: u64
  map_paddr :: u64
  map_cached :: bool
  map_tlb_index :: u32
  map_offset :: u32

abbreviation (input) MTS_FLAG_DEV :: u32 where "MTS_FLAG_DEV \<equiv> 0x1"
abbreviation (input) MTS_FLAG_COW :: u32 where "MTS_FLAG_COW \<equiv> 0x2"

section \<open>Host memory\<close>

text \<open>Guest memory is big-endian: \<open>vmtohNN\<close> and \<open>htovmNN\<close> on the bytes at a host address.\<close>

definition host_read8 :: "(u64 \<Rightarrow> u8) \<Rightarrow> u64 \<Rightarrow> u64" where
  "host_read8 m a = ucast (m a)"

definition host_read16 :: "(u64 \<Rightarrow> u8) \<Rightarrow> u64 \<Rightarrow> u64" where
  "host_read16 m a = ucast (m_ntoh16 (m a) (m (a + 1)))"

definition host_read32 :: "(u64 \<Rightarrow> u8) \<Rightarrow> u64 \<Rightarrow> u64" where
  "host_read32 m a = ucast (m_ntoh32 (m a) (m (a + 1)) (m (a + 2)) (m (a + 3)))"

definition host_read64 :: "(u64 \<Rightarrow> u8) \<Rightarrow> u64 \<Rightarrow> u64" where
  "host_read64 m a = push_bit 32 (host_read32 m a) OR host_read32 m (a + 4)"

definition host_write8 :: "u64 \<Rightarrow> u64 \<Rightarrow> (u64 \<Rightarrow> u8) \<Rightarrow> (u64 \<Rightarrow> u8)" where
  "host_write8 a v m = m(a := ucast v)"

definition host_write16 :: "u64 \<Rightarrow> u64 \<Rightarrow> (u64 \<Rightarrow> u8) \<Rightarrow> (u64 \<Rightarrow> u8)" where
  "host_write16 a v m = m(a := ucast (drop_bit 8 v), a + 1 := ucast v)"

definition host_write32 :: "u64 \<Rightarrow> u64 \<Rightarrow> (u64 \<Rightarrow> u8) \<Rightarrow> (u64 \<Rightarrow> u8)" where
  "host_write32 a v m = m(a := ucast (drop_bit 24 v), a + 1 := ucast (drop_bit 16 v),
     a + 2 := ucast (drop_bit 8 v), a + 3 := ucast v)"

definition host_write64 :: "u64 \<Rightarrow> u64 \<Rightarrow> (u64 \<Rightarrow> u8) \<Rightarrow> (u64 \<Rightarrow> u8)" where
  "host_write64 a v m = host_write32 (a + 4) v (host_write32 a (drop_bit 32 v) m)"

section \<open>Host cells\<close>

text \<open>The contract of one access width: a store followed by a load at the same address gives back the
  low bytes of the value, and a store touches only its own bytes.\<close>

locale host_cell =
  fixes rd :: "(u64 \<Rightarrow> u8) \<Rightarrow> u64 \<Rightarrow> u64" and wr :: "u64 \<Rightarrow> u64 \<Rightarrow> (u64 \<Rightarrow> u8) \<Rightarrow> (u64 \<Rightarrow> u8)" and n :: nat
  assumes rd_wr: "rd (wr a v m) a = take_bit (8 * n) v"
    and wr_frame: "b \<notin> (\<lambda>i. a + of_nat i) ` {..<n} \<Longrightarrow> wr a v m b = m b"
begin

lemma rd_wr_mask: "v = take_bit (8 * n) v \<Longrightarrow> rd (wr a v m) a = v"
  using rd_wr by metis

lemma wr_frame_neq: "\<forall>i<n. b \<noteq> a + of_nat i \<Longrightarrow> wr a v m b = m b"
  by (rule wr_frame) auto

end

lemma m_ntoh32_parts:
  "m_ntoh32 (ucast (drop_bit 24 v)) (ucast (drop_bit 16 v)) (ucast (drop_bit 8 v)) (ucast v)
     = (ucast (v :: u64) :: u32)"
proof (rule bit_word_eqI)
  fix k assume "k < LENGTH(32)"
  then consider "k < 8" | "8 \<le> k" "k < 16" | "16 \<le> k" "k < 24" | "24 \<le> k" "k < 32" by force
  then show "bit (m_ntoh32 (ucast (drop_bit 24 v)) (ucast (drop_bit 16 v)) (ucast (drop_bit 8 v)) (ucast v)) k
      = bit (ucast v :: u32) k"
    by cases (auto simp: m_ntoh32_def bit_simps)
qed

lemma host_read32_write32: "host_read32 (host_write32 a v m) a = take_bit 32 v"
proof -
  have "a + k \<noteq> a" if "k \<in> {1, 2, 3}" for k using that by auto
  then have "host_read32 (host_write32 a v m) a = ucast (m_ntoh32 (ucast (drop_bit 24 v))
      (ucast (drop_bit 16 v)) (ucast (drop_bit 8 v)) (ucast v))"
    by (simp add: host_read32_def host_write32_def)
  also have "\<dots> = ucast (ucast v :: u32)" by (simp only: m_ntoh32_parts)
  also have "\<dots> = take_bit 32 v" by (rule bit_word_eqI) (auto simp: bit_simps)
  finally show ?thesis .
qed

lemma host_write32_frame:
  "b \<notin> (\<lambda>i. a + of_nat i) ` {..<4} \<Longrightarrow> host_write32 a v m b = m b"
  by (auto simp: host_write32_def numeral_eq_Suc lessThan_Suc)

lemma word_offsets_4: "(\<lambda>i. a + of_nat i :: u64) ` {..<4} = {a, a + 1, a + 2, a + 3}"
  by (auto simp: numeral_eq_Suc lessThan_Suc add.assoc)

interpretation cell8: host_cell host_read8 host_write8 1
proof
  show "host_read8 (host_write8 a v m) a = take_bit (8 * 1) v" for a v m
    by (rule bit_word_eqI) (auto simp: host_read8_def host_write8_def bit_simps)
qed (auto simp: host_write8_def)

interpretation cell16: host_cell host_read16 host_write16 2
proof
  fix a v :: u64 and m :: "u64 \<Rightarrow> u8"
  have "host_read16 (host_write16 a v m) a = ucast (m_ntoh16 (ucast (drop_bit 8 v)) (ucast v))"
    by (simp add: host_read16_def host_write16_def)
  also have "\<dots> = take_bit (8 * 2) v"
    by (rule bit_word_eqI) (auto simp: m_ntoh16_def bit_simps)
  finally show "host_read16 (host_write16 a v m) a = take_bit (8 * 2) v" .
next
  fix a b v :: u64 and m :: "u64 \<Rightarrow> u8"
  assume "b \<notin> (\<lambda>i. a + of_nat i) ` {..<2}"
  then show "host_write16 a v m b = m b"
    by (auto simp: host_write16_def numeral_eq_Suc lessThan_Suc)
qed

interpretation cell32: host_cell host_read32 host_write32 4
  by unfold_locales (simp_all add: host_read32_write32 host_write32_frame)

interpretation cell64: host_cell host_read64 host_write64 8
proof
  fix a v :: u64 and m :: "u64 \<Rightarrow> u8"
  have d: "(\<lambda>i. a + 4 + of_nat i :: u64) ` {..<4} = {a + 4, a + 5, a + 6, a + 7}"
    unfolding word_offsets_4 by (simp add: add.assoc)
  have same: "host_write64 a v m b = host_write32 a (drop_bit 32 v) m b" if "b \<in> {a, a+1, a+2, a+3}" for b
    unfolding host_write64_def by (rule host_write32_frame) (use that in \<open>unfold d, auto\<close>)
  have "host_read32 (host_write64 a v m) a = host_read32 (host_write32 a (drop_bit 32 v) m) a"
    by (simp add: host_read32_def same)
  moreover have "host_read32 (host_write64 a v m) (a + 4) = take_bit 32 v"
    by (simp add: host_write64_def host_read32_write32)
  ultimately have "host_read64 (host_write64 a v m) a = push_bit 32 (take_bit 32 (drop_bit 32 v)) OR take_bit 32 v"
    by (simp add: host_read64_def host_read32_write32)
  also have "\<dots> = take_bit (8 * 8) v"
    by (rule bit_word_eqI) (auto simp: bit_simps)
  finally show "host_read64 (host_write64 a v m) a = take_bit (8 * 8) v" .
next
  fix a b v :: u64 and m :: "u64 \<Rightarrow> u8"
  assume b: "b \<notin> (\<lambda>i. a + of_nat i) ` {..<8}"
  have "b \<noteq> a + 4 + of_nat i" if "i < 4" for i :: nat
  proof
    assume "b = a + 4 + of_nat i"
    then have "b = a + of_nat (i + 4)" by (simp add: ac_simps)
    then have "b \<in> (\<lambda>i. a + of_nat i) ` {..<8}" by (rule image_eqI) (use that in simp)
    with b show False by (rule notE)
  qed
  then have "b \<notin> (\<lambda>i. a + 4 + of_nat i) ` {..<4}" by blast
  moreover have "b \<notin> (\<lambda>i. a + of_nat i) ` {..<4}"
    using b image_mono [of "{..<4}" "{..<8}" "\<lambda>i. a + of_nat i"] by (auto simp del: image_eqI)
  ultimately show "host_write64 a v m b = m b"
    by (simp add: host_write64_def host_write32_frame)
qed

section \<open>Direct-mapped translation caches\<close>

definition cache_coherent ::
    "('a \<Rightarrow> nat) \<Rightarrow> ('a \<Rightarrow> 't) \<Rightarrow> ('e \<Rightarrow> 't) \<Rightarrow> ('a \<Rightarrow> bool) \<Rightarrow> ('a \<Rightarrow> 'e option) \<Rightarrow> (nat \<Rightarrow> 'e) \<Rightarrow> bool" where
  "cache_coherent bucket tag etag ok spec cache \<longleftrightarrow>
     (\<forall>a. ok a \<longrightarrow> etag (cache (bucket a)) = tag a \<longrightarrow> spec a = Some (cache (bucket a)))"

locale translation_cache =
  fixes bucket :: "'a \<Rightarrow> nat" and tag :: "'a \<Rightarrow> 't" and etag :: "'e \<Rightarrow> 't"
    and ok :: "'a \<Rightarrow> bool" and spec :: "'a \<Rightarrow> 'e option"
  assumes same_page: "ok a \<Longrightarrow> ok b \<Longrightarrow> tag a = tag b \<Longrightarrow> bucket a = bucket b \<and> spec a = spec b"
    and spec_tag: "ok a \<Longrightarrow> spec a = Some e \<Longrightarrow> etag e = tag a"
begin

lemma hit_correct:
  "cache_coherent bucket tag etag ok spec cache \<Longrightarrow> ok a \<Longrightarrow> etag (cache (bucket a)) = tag a \<Longrightarrow>
   spec a = Some (cache (bucket a))"
  by (simp add: cache_coherent_def)

lemma no_entry_misses:
  "cache_coherent bucket tag etag ok spec cache \<Longrightarrow> ok a \<Longrightarrow> spec a = None \<Longrightarrow>
   etag (cache (bucket a)) \<noteq> tag a"
  by (auto simp: cache_coherent_def)

lemma fill_coherent:
  assumes "cache_coherent bucket tag etag ok spec cache" "ok a" "spec a = Some e"
  shows "cache_coherent bucket tag etag ok spec (cache(bucket a := e))"
  unfolding cache_coherent_def
proof (intro allI impI)
  fix b assume b: "ok b" "etag ((cache(bucket a := e)) (bucket b)) = tag b"
  show "spec b = Some ((cache(bucket a := e)) (bucket b))"
  proof (cases "bucket b = bucket a")
    case True
    then have "tag a = tag b" using b spec_tag [OF assms(2,3)] by simp
    then show ?thesis using same_page [OF assms(2) b(1)] assms(3) True by simp
  next
    case False
    then show ?thesis using assms(1) b by (simp add: cache_coherent_def)
  qed
qed

lemma flush_coherent:
  "(\<And>a. ok a \<Longrightarrow> tag a \<noteq> etag e) \<Longrightarrow> cache_coherent bucket tag etag ok spec (\<lambda>_. e)"
  by (fastforce simp: cache_coherent_def)

end

end
