(* ===== verification/InsnLookup.thy ===== *)
theory InsnLookup
  imports Prelude
begin

text \<open>
  The instruction lookup table (\<open>common/insn_lookup.c\<close>, \<open>insn_lookup.h\<close>): decoding by recursive
  flow classification. A class bitmap (CBM) holds one bit per instruction of the table, in
  32-bit entries; two phase-0 arrays map each half of the opcode to the class of the
  instructions that match that half; the phase-1 array crosses the classes and, after
  postprocessing, holds the first matching instruction. An array element that C leaves as a null
  pointer is \<open>None\<close>; a failed \<open>assert\<close> makes the operation \<open>None\<close>. The table that finds a CBM's
  class (\<open>cbm_hash\<close>, keyed by CBM content) is a map. The disk cache of compiled tables and
  allocation failure are not modelled.

  The result: compiling never fails an assertion, and looking an opcode up gives the first
  instruction of the table that matches both halves, or -1.
\<close>

section \<open>Class bitmaps\<close>

type_synonym cbm_array = "u32 list"

text \<open>Entry and bit of a rule: \<open>rule_id >> CBM_SHIFT\<close> and \<open>rule_id & (CBM_SIZE - 1)\<close>.\<close>

definition cbm_set_rule :: "cbm_array \<Rightarrow> nat \<Rightarrow> cbm_array" where
  "cbm_set_rule cbm rule_id =
     cbm[rule_id div 32 := (cbm ! (rule_id div 32)) OR push_bit (rule_id mod 32) 1]"

definition cbm_unset_rule :: "cbm_array \<Rightarrow> nat \<Rightarrow> cbm_array" where
  "cbm_unset_rule cbm rule_id =
     cbm[rule_id div 32 := (cbm ! (rule_id div 32)) AND NOT (push_bit (rule_id mod 32) 1)]"

definition cbm_check_rule :: "cbm_array \<Rightarrow> nat \<Rightarrow> bool" where
  "cbm_check_rule cbm rule_id \<longleftrightarrow>
     (cbm ! (rule_id div 32)) AND push_bit (rule_id mod 32) 1 \<noteq> 0"

definition cbm_bitwise_and :: "cbm_array \<Rightarrow> cbm_array \<Rightarrow> cbm_array \<Rightarrow> cbm_array" where
  "cbm_bitwise_and result a1 a2 =
     fold (\<lambda>i r. r[i := (a1 ! i) AND (a2 ! i)]) [0..<length a1] result"

section \<open>The lookup table\<close>

text \<open>An RFC array: \<open>id2cbm\<close> and \<open>eqID\<close> are the C arrays of \<open>nr_elements\<close> entries.\<close>

record rfc_array =
  nr_elements :: nat
  nr_eqid :: nat
  cbm_hash :: "cbm_array \<rightharpoonup> nat"
  id2cbm :: "cbm_array option list"
  eqID :: "int list"

text \<open>The callbacks: \<open>chk i v\<close> tells whether instruction \<open>i\<close> matches the half-word \<open>v\<close>.\<close>

type_synonym ilt_check_cbk = "nat \<Rightarrow> nat \<Rightarrow> bool"

record insn_lookup =
  nr_insn :: nat
  cbm_size :: nat
  chk_lo :: ilt_check_cbk
  chk_hi :: ilt_check_cbk
  rfct :: "rfc_array list"

definition RFC_ARRAY_MAXSIZE :: nat where
  "RFC_ARRAY_MAXSIZE = 65536"

definition cbm_first_match :: "insn_lookup \<Rightarrow> cbm_array \<Rightarrow> int" where
  "cbm_first_match ilt cbm =
     (case find (cbm_check_rule cbm) [0..<nr_insn ilt] of None \<Rightarrow> -1 | Some i \<Rightarrow> int i)"

definition cbm_create :: "insn_lookup \<Rightarrow> cbm_array" where
  "cbm_create ilt = replicate (cbm_size ilt) 0"

text \<open>The class of a bitmap, created when the bitmap is new; the assertion is
  \<open>nr_eqid < nr_elements\<close>.\<close>

definition cbm_get_eqclass :: "rfc_array \<Rightarrow> cbm_array \<Rightarrow> (nat \<times> rfc_array) option" where
  "cbm_get_eqclass r cbm =
     (case cbm_hash r cbm of
        Some e \<Rightarrow> Some (e, r)
      | None \<Rightarrow>
          (if nr_eqid r < nr_elements r then
             let e = nr_eqid r in
             Some (e, r\<lparr>nr_eqid := e + 1, id2cbm := (id2cbm r)[e := Some cbm],
                        cbm_hash := (cbm_hash r)(cbm \<mapsto> e)\<rparr>)
           else None))"

definition rfc_alloc_array :: "nat \<Rightarrow> rfc_array" where
  "rfc_alloc_array n =
     \<lparr>nr_elements = n, nr_eqid = 0, cbm_hash = Map.empty, id2cbm = replicate n None,
      eqID = replicate n 0\<rparr>"

definition rfc_check_insn :: "insn_lookup \<Rightarrow> cbm_array \<Rightarrow> ilt_check_cbk \<Rightarrow> nat \<Rightarrow> cbm_array" where
  "rfc_check_insn ilt cbm pcheck v =
     fold (\<lambda>i c. if pcheck i v then cbm_set_rule c i else cbm_unset_rule c i)
       [0..<nr_insn ilt] cbm"

definition rfc_phase_0_body ::
    "insn_lookup \<Rightarrow> ilt_check_cbk \<Rightarrow> nat \<Rightarrow> cbm_array \<times> rfc_array \<Rightarrow> (cbm_array \<times> rfc_array) option" where
  "rfc_phase_0_body ilt pcheck i = (\<lambda>(bmp, r).
     let bmp = rfc_check_insn ilt bmp pcheck i in
     case cbm_get_eqclass r bmp of
       None \<Rightarrow> None
     | Some (e, r) \<Rightarrow> Some (bmp, r\<lparr>eqID := (eqID r)[i := int e]\<rparr>))"

definition rfc_phase_0 :: "insn_lookup \<Rightarrow> ilt_check_cbk \<Rightarrow> rfc_array option" where
  "rfc_phase_0 ilt pcheck =
     map_option snd
       (for_each (rfc_phase_0_body ilt pcheck) [0..<RFC_ARRAY_MAXSIZE]
         (cbm_create ilt, rfc_alloc_array RFC_ARRAY_MAXSIZE))"

text \<open>One step of the cross product: \<open>i\<close> and \<open>j\<close> are the class indices of the two loops, the
  running \<open>index\<close> is part of the loop state.\<close>

definition rfc_phase_j_body ::
    "rfc_array \<Rightarrow> rfc_array \<Rightarrow> nat \<times> nat \<Rightarrow> cbm_array \<times> rfc_array \<times> nat
     \<Rightarrow> (cbm_array \<times> rfc_array \<times> nat) option" where
  "rfc_phase_j_body p0 p1 = (\<lambda>(i, j) (bmp, r, index).
     (case (id2cbm p0 ! i, id2cbm p1 ! j) of
        (Some c0, Some c1) \<Rightarrow>
          (let bmp = cbm_bitwise_and bmp c0 c1 in
           case cbm_get_eqclass r bmp of
             None \<Rightarrow> None
           | Some (e, r) \<Rightarrow> Some (bmp, r\<lparr>eqID := (eqID r)[index := int e]\<rparr>, index + 1))
      | _ \<Rightarrow> None))"

definition rfc_phase_j :: "insn_lookup \<Rightarrow> rfc_array \<Rightarrow> rfc_array \<Rightarrow> rfc_array option" where
  "rfc_phase_j ilt p0 p1 =
     map_option (\<lambda>(bmp, r, index). r)
       (for_each (rfc_phase_j_body p0 p1)
         (List.product [0..<nr_eqid p0] [0..<nr_eqid p1])
         (cbm_create ilt, rfc_alloc_array (nr_eqid p0 * nr_eqid p1), 0))"

definition ilt_postprocessing :: "insn_lookup \<Rightarrow> rfc_array \<Rightarrow> rfc_array option" where
  "ilt_postprocessing ilt r =
     for_each (\<lambda>i r. case id2cbm r ! nat (eqID r ! i) of
                  None \<Rightarrow> None
                | Some c \<Rightarrow> Some (r\<lparr>eqID := (eqID r)[i := cbm_first_match ilt c]\<rparr>))
       [0..<nr_elements r] r"

definition ilt_compile :: "insn_lookup \<Rightarrow> insn_lookup option" where
  "ilt_compile ilt =
     (case rfc_phase_0 ilt (chk_hi ilt) of None \<Rightarrow> None | Some r0 \<Rightarrow>
      case rfc_phase_0 ilt (chk_lo ilt) of None \<Rightarrow> None | Some r1 \<Rightarrow>
      case rfc_phase_j ilt r0 r1 of None \<Rightarrow> None | Some r2 \<Rightarrow>
      case ilt_postprocessing ilt r2 of None \<Rightarrow> None | Some r2 \<Rightarrow>
      Some (ilt\<lparr>rfct := [r0, r1, r2]\<rparr>))"

definition ilt_create :: "nat \<Rightarrow> ilt_check_cbk \<Rightarrow> ilt_check_cbk \<Rightarrow> insn_lookup option" where
  "ilt_create n lo hi =
     ilt_compile \<lparr>nr_insn = n, cbm_size = unat (normalize_size (of_nat n) 32 5),
                  chk_lo = lo, chk_hi = hi, rfct = []\<rparr>"

definition ilt_get_index :: "rfc_array \<Rightarrow> rfc_array \<Rightarrow> nat \<Rightarrow> nat \<Rightarrow> int" where
  "ilt_get_index a1 a2 i1 i2 = (eqID a1 ! i1) * int (nr_eqid a2) + eqID a2 ! i2"

definition ilt_get_idx :: "insn_lookup \<Rightarrow> nat \<Rightarrow> nat \<Rightarrow> nat \<Rightarrow> nat \<Rightarrow> int" where
  "ilt_get_idx ilt a1 a2 i1 i2 = ilt_get_index (rfct ilt ! a1) (rfct ilt ! a2) i1 i2"

definition ilt_lookup :: "insn_lookup \<Rightarrow> u32 \<Rightarrow> int" where
  "ilt_lookup ilt insn =
     (let id_i = ilt_get_idx ilt 0 1 (unat (drop_bit 16 insn)) (unat (insn AND 0xFFFF))
      in eqID (rfct ilt ! 2) ! nat id_i)"


section \<open>Properties of class bitmaps\<close>

lemma cbm_check_rule_bit: "cbm_check_rule c i \<longleftrightarrow> bit (c ! (i div 32)) (i mod 32)"
  by (simp add: cbm_check_rule_def push_bit_of_1 and_exp_eq_0_iff_not_bit)

lemma length_cbm_set_rule [simp]: "length (cbm_set_rule c i) = length c"
  and length_cbm_unset_rule [simp]: "length (cbm_unset_rule c i) = length c"
  by (simp_all add: cbm_set_rule_def cbm_unset_rule_def)

lemma rule_position_inj: "i div 32 = j div 32 \<Longrightarrow> i mod 32 = j mod 32 \<Longrightarrow> i = (j :: nat)"
  by (metis div_mult_mod_eq)

lemma cbm_check_set_rule:
  assumes "i div 32 < length c"
  shows "cbm_check_rule (cbm_set_rule c i) j \<longleftrightarrow> j = i \<or> cbm_check_rule c j"
proof (cases "j div 32 = i div 32")
  case True
  then have "i mod 32 = j mod 32 \<longleftrightarrow> j = i" using rule_position_inj by metis
  with True assms show ?thesis
    by (auto simp: cbm_check_rule_bit cbm_set_rule_def bit_simps)
next
  case False
  then show ?thesis by (auto simp: cbm_check_rule_bit cbm_set_rule_def)
qed

lemma cbm_check_unset_rule:
  assumes "i div 32 < length c"
  shows "cbm_check_rule (cbm_unset_rule c i) j \<longleftrightarrow> j \<noteq> i \<and> cbm_check_rule c j"
proof (cases "j div 32 = i div 32")
  case True
  then have "i mod 32 = j mod 32 \<longleftrightarrow> j = i" using rule_position_inj by metis
  with True assms show ?thesis
    by (auto simp: cbm_check_rule_bit cbm_unset_rule_def bit_simps)
next
  case False
  then show ?thesis by (auto simp: cbm_check_rule_bit cbm_unset_rule_def)
qed

lemma rfc_check_insn_spec:
  assumes "nr_insn ilt \<le> 32 * length c"
  shows "length (rfc_check_insn ilt c chk v) = length c \<and>
         (\<forall>i<nr_insn ilt. cbm_check_rule (rfc_check_insn ilt c chk v) i \<longleftrightarrow> chk i v)"
  unfolding rfc_check_insn_def
proof (rule fold_upt_inv [where I = "\<lambda>k c'. length c' = length c \<and>
          (\<forall>i<k. cbm_check_rule c' i \<longleftrightarrow> chk i v)"])
  fix k c'
  assume k: "k < nr_insn ilt" and I: "length c' = length c \<and> (\<forall>i<k. cbm_check_rule c' i \<longleftrightarrow> chk i v)"
  from k assms have "k div 32 < length c" by (simp add: less_mult_imp_div_less mult.commute)
  with I show "length (if chk k v then cbm_set_rule c' k else cbm_unset_rule c' k) = length c \<and>
      (\<forall>i<Suc k. cbm_check_rule (if chk k v then cbm_set_rule c' k else cbm_unset_rule c' k) i
        \<longleftrightarrow> chk i v)"
    by (auto simp: cbm_check_set_rule cbm_check_unset_rule less_Suc_eq)
qed simp_all

lemma cbm_bitwise_and_spec:
  assumes "length r = length a" "length b = length a"
  shows "length (cbm_bitwise_and r a b) = length a \<and>
         (\<forall>i<32 * length a. cbm_check_rule (cbm_bitwise_and r a b) i
            \<longleftrightarrow> cbm_check_rule a i \<and> cbm_check_rule b i)"
proof -
  have "length (cbm_bitwise_and r a b) = length a \<and>
        (\<forall>i<length a. cbm_bitwise_and r a b ! i = (a ! i) AND (b ! i))"
    unfolding cbm_bitwise_and_def
    by (rule fold_upt_inv [where I = "\<lambda>k r. length r = length a \<and>
          (\<forall>i<k. r ! i = (a ! i) AND (b ! i))"])
      (use assms in \<open>auto simp: less_Suc_eq nth_list_update\<close>)
  then show ?thesis
    by (auto simp: cbm_check_rule_bit bit_and_iff less_mult_imp_div_less mult.commute)
qed

section \<open>The class table\<close>

text \<open>The invariant of an RFC array under construction: class numbers and bitmaps correspond one
  to one, and all bitmaps have \<open>sz\<close> entries.\<close>

definition rfc_wf :: "nat \<Rightarrow> rfc_array \<Rightarrow> bool" where
  "rfc_wf sz r \<longleftrightarrow>
     length (id2cbm r) = nr_elements r \<and> length (eqID r) = nr_elements r \<and>
     nr_eqid r \<le> nr_elements r \<and>
     (\<forall>k<nr_eqid r. \<exists>c. id2cbm r ! k = Some c \<and> cbm_hash r c = Some k \<and> length c = sz) \<and>
     (\<forall>c k. cbm_hash r c = Some k \<longrightarrow> k < nr_eqid r \<and> id2cbm r ! k = Some c)"

lemma rfc_wf_alloc [simp]: "rfc_wf sz (rfc_alloc_array n)"
  by (simp add: rfc_wf_def rfc_alloc_array_def)

lemma rfc_wf_eqID [simp]: "rfc_wf sz (r\<lparr>eqID := (eqID r)[i := v]\<rparr>) \<longleftrightarrow> rfc_wf sz r"
  by (simp add: rfc_wf_def)

text \<open>Asking for a class succeeds below capacity, keeps the invariant and all classes given out
  before, and returns the class of exactly this bitmap.\<close>

lemma cbm_get_eqclass_spec:
  assumes wf: "rfc_wf sz r" and sz: "length c = sz" and room: "nr_eqid r < nr_elements r"
  shows "\<exists>e r'. cbm_get_eqclass r c = Some (e, r') \<and> rfc_wf sz r' \<and> e < nr_eqid r' \<and>
           id2cbm r' ! e = Some c \<and> nr_eqid r' \<le> Suc (nr_eqid r) \<and> nr_eqid r \<le> nr_eqid r' \<and>
           nr_elements r' = nr_elements r \<and> eqID r' = eqID r \<and>
           (\<forall>k<nr_eqid r. id2cbm r' ! k = id2cbm r ! k)"
proof (cases "cbm_hash r c")
  case (Some e)
  with wf have "e < nr_eqid r" "id2cbm r ! e = Some c" by (auto simp: rfc_wf_def)
  with Some wf show ?thesis by (auto simp: cbm_get_eqclass_def)
next
  case None
  have new: "id2cbm r ! k \<noteq> Some c" if "k < nr_eqid r" for k
    using wf None that by (fastforce simp: rfc_wf_def)
  let ?r = "r\<lparr>nr_eqid := Suc (nr_eqid r), id2cbm := (id2cbm r)[nr_eqid r := Some c],
              cbm_hash := (cbm_hash r)(c \<mapsto> nr_eqid r)\<rparr>"
  have len: "length (id2cbm r) = nr_elements r" using wf by (simp add: rfc_wf_def)
  have "rfc_wf sz ?r"
    using wf sz room new by (fastforce simp: rfc_wf_def less_Suc_eq nth_list_update)
  moreover have "cbm_get_eqclass r c = Some (nr_eqid r, ?r)"
    using None room by (simp add: cbm_get_eqclass_def Let_def)
  ultimately show ?thesis
    using len room by (intro exI [of _ "nr_eqid r"] exI [of _ ?r]) simp
qed

text \<open>What phase 0 guarantees of its array for the first \<open>m\<close> values.\<close>

definition class_of :: "rfc_array \<Rightarrow> nat \<Rightarrow> cbm_array \<Rightarrow> bool" where
  "class_of r v c \<longleftrightarrow>
     (\<exists>k. eqID r ! v = int k \<and> k < nr_eqid r \<and> id2cbm r ! k = Some c)"

lemma class_of_extend:
  assumes "class_of r v c" "nr_eqid r \<le> nr_eqid r'" "eqID r' ! v = eqID r ! v"
    and "\<forall>k<nr_eqid r. id2cbm r' ! k = id2cbm r ! k"
  shows "class_of r' v c"
  using assms unfolding class_of_def by (metis order_less_le_trans)

text \<open>\<open>classified sz n P r v\<close>: element \<open>v\<close> of \<open>r\<close> has a class whose bitmap holds exactly the
  rules below \<open>n\<close> that satisfy \<open>P\<close>.\<close>

definition classified :: "nat \<Rightarrow> nat \<Rightarrow> (nat \<Rightarrow> bool) \<Rightarrow> rfc_array \<Rightarrow> nat \<Rightarrow> bool" where
  "classified sz n P r v \<longleftrightarrow>
     (\<exists>c. class_of r v c \<and> length c = sz \<and> (\<forall>i<n. cbm_check_rule c i \<longleftrightarrow> P i))"

lemma classified_extend:
  assumes "classified sz n P r v" "nr_eqid r \<le> nr_eqid r'" "eqID r' ! v = eqID r ! v"
    and "\<forall>k<nr_eqid r. id2cbm r' ! k = id2cbm r ! k"
  shows "classified sz n P r' v"
  using assms class_of_extend unfolding classified_def by blast

text \<open>Storing the class of a bitmap at index \<open>v\<close>: the step both phases share.\<close>

lemma store_class:
  assumes wf: "rfc_wf sz r" and sz: "length c = sz" and room: "nr_eqid r \<le> v" "v < nr_elements r"
    and bits: "\<forall>i<n. cbm_check_rule c i \<longleftrightarrow> P v i"
    and old: "\<forall>u<v. classified sz n (P u) r u"
  shows "\<exists>e r'. cbm_get_eqclass r c = Some (e, r') \<and>
     (let r'' = r'\<lparr>eqID := (eqID r')[v := int e]\<rparr> in
      rfc_wf sz r'' \<and> nr_elements r'' = nr_elements r \<and> nr_eqid r'' \<le> Suc v \<and>
      (\<forall>u<Suc v. classified sz n (P u) r'' u))"
proof -
  from room have "nr_eqid r < nr_elements r" by simp
  from cbm_get_eqclass_spec [OF wf sz this] obtain e r' where
    e: "cbm_get_eqclass r c = Some (e, r')" and wf': "rfc_wf sz r'" and lt: "e < nr_eqid r'"
    and id: "id2cbm r' ! e = Some c" and grow: "nr_eqid r' \<le> Suc (nr_eqid r)" "nr_eqid r \<le> nr_eqid r'"
    and el: "nr_elements r' = nr_elements r" and eq: "eqID r' = eqID r"
    and keep: "\<forall>k<nr_eqid r. id2cbm r' ! k = id2cbm r ! k"
    by blast
  let ?r = "r'\<lparr>eqID := (eqID r')[v := int e]\<rparr>"
  have len: "v < length (eqID r')" using wf room el eq by (simp add: rfc_wf_def)
  have "classified sz n (P u) ?r u" if "u < Suc v" for u
  proof (cases "u = v")
    case True
    then show ?thesis
      unfolding classified_def class_of_def using len lt id sz bits by (intro exI [of _ c]) auto
  next
    case False
    with that old have "classified sz n (P u) r u" by simp
    then show ?thesis by (rule classified_extend) (use False grow eq keep in auto)
  qed
  then show ?thesis using e wf' grow room el by (auto simp: Let_def)
qed

lemma rfc_phase_0_spec:
  assumes n: "nr_insn ilt \<le> 32 * cbm_size ilt"
  shows "\<exists>r. rfc_phase_0 ilt chk = Some r \<and> rfc_wf (cbm_size ilt) r \<and>
             (\<forall>v<RFC_ARRAY_MAXSIZE. classified (cbm_size ilt) (nr_insn ilt) (\<lambda>i. chk i v) r v)"
proof -
  let ?sz = "cbm_size ilt" and ?n = "nr_insn ilt"
  let ?I = "\<lambda>v (bmp, r). length bmp = ?sz \<and> rfc_wf ?sz r \<and> nr_elements r = RFC_ARRAY_MAXSIZE \<and>
      nr_eqid r \<le> v \<and> (\<forall>u<v. classified ?sz ?n (\<lambda>i. chk i u) r u)"
  have "\<exists>s. for_each (rfc_phase_0_body ilt chk) [0..<RFC_ARRAY_MAXSIZE]
          (cbm_create ilt, rfc_alloc_array RFC_ARRAY_MAXSIZE) = Some s \<and> ?I RFC_ARRAY_MAXSIZE s"
  proof (rule for_each_upt_inv [where I = ?I])
    show "?I 0 (cbm_create ilt, rfc_alloc_array RFC_ARRAY_MAXSIZE)"
      by (simp add: cbm_create_def) (simp add: rfc_alloc_array_def)
    fix v and s :: "cbm_array \<times> rfc_array"
    assume v: "v < RFC_ARRAY_MAXSIZE" and I: "?I v s"
    obtain bmp r where s: "s = (bmp, r)" by (cases s)
    let ?b = "rfc_check_insn ilt bmp chk v"
    have b: "length ?b = ?sz" "\<forall>i<?n. cbm_check_rule ?b i \<longleftrightarrow> chk i v"
      using rfc_check_insn_spec [of ilt bmp chk v] n I s by simp_all
    from store_class [of ?sz r ?b v ?n "\<lambda>v i. chk i v"] b I s v
    show "\<exists>s'. rfc_phase_0_body ilt chk v s = Some s' \<and> ?I (Suc v) s'"
      by (force simp: rfc_phase_0_body_def Let_def)
  qed simp
  then show ?thesis by (auto simp: rfc_phase_0_def)
qed

lemma product_Nil_right: "List.product xs [] = []"
  by (induction xs) auto

lemma rfc_phase_j_spec:
  assumes wf0: "rfc_wf sz p0" and wf1: "rfc_wf sz p1" and sz: "cbm_size ilt = sz" "n \<le> 32 * sz"
  shows "\<exists>r. rfc_phase_j ilt p0 p1 = Some r \<and> rfc_wf sz r \<and>
     nr_elements r = nr_eqid p0 * nr_eqid p1 \<and>
     (\<forall>v<nr_elements r. classified sz n
        (\<lambda>i. cbm_check_rule (the (id2cbm p0 ! (v div nr_eqid p1))) i \<and>
             cbm_check_rule (the (id2cbm p1 ! (v mod nr_eqid p1))) i) r v)"
proof -
  let ?N = "nr_eqid p0 * nr_eqid p1"
  let ?P = "\<lambda>v i. cbm_check_rule (the (id2cbm p0 ! (v div nr_eqid p1))) i \<and>
             cbm_check_rule (the (id2cbm p1 ! (v mod nr_eqid p1))) i"
  let ?I = "\<lambda>v (bmp, r, index). index = v \<and> length bmp = sz \<and> rfc_wf sz r \<and> nr_elements r = ?N \<and>
      nr_eqid r \<le> v \<and> (\<forall>u<v. classified sz n (?P u) r u)"
  have prod: "List.product [0..<nr_eqid p0] [0..<nr_eqid p1] =
      map (\<lambda>v. (v div nr_eqid p1, v mod nr_eqid p1)) [0..<?N]"
  proof (cases "nr_eqid p1 = 0")
    case False
    then show ?thesis
      by (intro nth_equalityI) (auto simp: product_nth less_mult_imp_div_less)
  qed (simp add: product_Nil_right)
  have map_loop: "for_each f (map g xs) s = for_each (\<lambda>x. f (g x)) xs s"
    for f g and xs :: "nat list" and s :: "cbm_array \<times> rfc_array \<times> nat"
    by (induction xs arbitrary: s) (auto split: option.splits)
  have "\<exists>s. for_each (\<lambda>v. rfc_phase_j_body p0 p1 (v div nr_eqid p1, v mod nr_eqid p1)) [0..<?N]
          (cbm_create ilt, rfc_alloc_array ?N, 0) = Some s \<and> ?I ?N s"
  proof (rule for_each_upt_inv [where I = ?I])
    show "?I 0 (cbm_create ilt, rfc_alloc_array ?N, 0)"
      by (simp add: cbm_create_def sz) (simp add: rfc_alloc_array_def)
    fix v and s :: "cbm_array \<times> rfc_array \<times> nat"
    assume v: "v < ?N" and I: "?I v s"
    obtain bmp r index where s: "s = (bmp, r, index)" by (cases s)
    have "0 < nr_eqid p1" using v by (cases "nr_eqid p1 = 0") auto
    then have "v div nr_eqid p1 < nr_eqid p0" "v mod nr_eqid p1 < nr_eqid p1"
      using v by (auto simp: less_mult_imp_div_less)
    then obtain c0 c1 where
      c0: "id2cbm p0 ! (v div nr_eqid p1) = Some c0" "length c0 = sz" and
      c1: "id2cbm p1 ! (v mod nr_eqid p1) = Some c1" "length c1 = sz"
      using wf0 wf1 unfolding rfc_wf_def by meson
    let ?b = "cbm_bitwise_and bmp c0 c1"
    have b: "length ?b = sz" "\<forall>i<n. cbm_check_rule ?b i \<longleftrightarrow> ?P v i"
      using cbm_bitwise_and_spec [of bmp c0 c1] c0 c1 I s sz by auto
    from store_class [of sz r ?b v n ?P] b I s v
    show "\<exists>s'. rfc_phase_j_body p0 p1 (v div nr_eqid p1, v mod nr_eqid p1) s = Some s' \<and> ?I (Suc v) s'"
      by (force simp: rfc_phase_j_body_def Let_def c0 c1)
  qed simp
  then show ?thesis by (auto simp: rfc_phase_j_def prod map_loop)
qed

lemma ilt_postprocessing_spec:
  assumes wf: "rfc_wf sz r"
    and cl: "\<forall>v<nr_elements r. classified sz (nr_insn ilt) (P v) r v"
  shows "\<exists>r'. ilt_postprocessing ilt r = Some r' \<and>
     (\<forall>v<nr_elements r. eqID r' ! v =
        (case find (P v) [0..<nr_insn ilt] of None \<Rightarrow> -1 | Some i \<Rightarrow> int i))"
proof -
  let ?first = "\<lambda>v. (case find (P v) [0..<nr_insn ilt] of None \<Rightarrow> -1 | Some i \<Rightarrow> int i)"
  let ?f = "\<lambda>i r. case id2cbm r ! nat (eqID r ! i) of None \<Rightarrow> None
               | Some c \<Rightarrow> Some (r\<lparr>eqID := (eqID r)[i := cbm_first_match ilt c]\<rparr>)"
  let ?I = "\<lambda>v r'. id2cbm r' = id2cbm r \<and> length (eqID r') = nr_elements r \<and>
      (\<forall>u. v \<le> u \<longrightarrow> eqID r' ! u = eqID r ! u) \<and> (\<forall>u<v. eqID r' ! u = ?first u)"
  have "\<exists>r'. for_each ?f [0..<nr_elements r] r = Some r' \<and> ?I (nr_elements r) r'"
  proof (rule for_each_upt_inv [where I = ?I])
    show "?I 0 r" using wf by (simp add: rfc_wf_def)
    fix v r'
    assume v: "v < nr_elements r" and I: "?I v r'"
    from cl v obtain c k where c: "eqID r ! v = int k" "id2cbm r ! k = Some c"
      "\<forall>i<nr_insn ilt. cbm_check_rule c i \<longleftrightarrow> P v i"
      unfolding classified_def class_of_def by blast
    from c(3) have "find (cbm_check_rule c) [0..<nr_insn ilt] = find (P v) [0..<nr_insn ilt]"
      by (intro find_cong) auto
    then have "cbm_first_match ilt c = ?first v" by (simp add: cbm_first_match_def)
    then show "\<exists>r''. ?f v r' = Some r'' \<and> ?I (Suc v) r''"
      using I c v by (auto simp: less_Suc_eq nth_list_update)
  qed simp
  then show ?thesis by (auto simp: ilt_postprocessing_def)
qed

section \<open>Correctness of the compiled table\<close>

text \<open>The reference: the first instruction whose two halves both match.\<close>

definition first_match :: "nat \<Rightarrow> (nat \<Rightarrow> bool) \<Rightarrow> int" where
  "first_match n P = (case find P [0..<n] of None \<Rightarrow> -1 | Some i \<Rightarrow> int i)"

lemma ilt_compile_spec:
  assumes n: "nr_insn ilt \<le> 32 * cbm_size ilt"
  shows "\<exists>t. ilt_compile ilt = Some t \<and>
     (\<forall>insn. ilt_lookup t insn = first_match (nr_insn ilt)
        (\<lambda>i. chk_hi ilt i (unat (drop_bit 16 insn)) \<and> chk_lo ilt i (unat (insn AND 0xFFFF))))"
proof -
  let ?sz = "cbm_size ilt" and ?n = "nr_insn ilt"
  from rfc_phase_0_spec [OF n] obtain r0 where r0: "rfc_phase_0 ilt (chk_hi ilt) = Some r0"
    "rfc_wf ?sz r0" "\<forall>v<RFC_ARRAY_MAXSIZE. classified ?sz ?n (\<lambda>i. chk_hi ilt i v) r0 v" by blast
  from rfc_phase_0_spec [OF n] obtain r1 where r1: "rfc_phase_0 ilt (chk_lo ilt) = Some r1"
    "rfc_wf ?sz r1" "\<forall>v<RFC_ARRAY_MAXSIZE. classified ?sz ?n (\<lambda>i. chk_lo ilt i v) r1 v" by blast
  let ?P = "\<lambda>v i. cbm_check_rule (the (id2cbm r0 ! (v div nr_eqid r1))) i \<and>
             cbm_check_rule (the (id2cbm r1 ! (v mod nr_eqid r1))) i"
  from rfc_phase_j_spec [OF r0(2) r1(2) refl n] obtain r2 where r2: "rfc_phase_j ilt r0 r1 = Some r2"
    "rfc_wf ?sz r2" "nr_elements r2 = nr_eqid r0 * nr_eqid r1"
    "\<forall>v<nr_elements r2. classified ?sz ?n (?P v) r2 v" by blast
  from ilt_postprocessing_spec [OF r2(2,4)] obtain r3 where r3: "ilt_postprocessing ilt r2 = Some r3"
    "\<forall>v<nr_elements r2. eqID r3 ! v = first_match ?n (?P v)"
    unfolding first_match_def by blast
  have "eqID r3 ! nat (ilt_get_index r0 r1 (unat (drop_bit 16 insn)) (unat (insn AND 0xFFFF))) =
      first_match ?n (\<lambda>i. chk_hi ilt i (unat (drop_bit 16 insn)) \<and> chk_lo ilt i (unat (insn AND 0xFFFF)))"
    for insn :: u32
  proof -
    let ?h = "unat (drop_bit 16 insn)" and ?l = "unat (insn AND 0xFFFF)"
    have "?h < 65536" "?l < 65536" by (simp_all add: bits_simps del: unat_drop_bit_eq)
    then obtain ch cl where ch: "class_of r0 ?h ch" "\<forall>i<?n. cbm_check_rule ch i \<longleftrightarrow> chk_hi ilt i ?h"
      and cl: "class_of r1 ?l cl" "\<forall>i<?n. cbm_check_rule cl i \<longleftrightarrow> chk_lo ilt i ?l"
      using r0(3) r1(3) unfolding classified_def RFC_ARRAY_MAXSIZE_def by metis
    obtain a where a: "eqID r0 ! ?h = int a" "a < nr_eqid r0" "id2cbm r0 ! a = Some ch"
      using ch(1) unfolding class_of_def by blast
    obtain b where b: "eqID r1 ! ?l = int b" "b < nr_eqid r1" "id2cbm r1 ! b = Some cl"
      using cl(1) unfolding class_of_def by blast
    let ?v = "a * nr_eqid r1 + b"
    have v: "nat (ilt_get_index r0 r1 ?h ?l) = ?v"
      using a(1) b(1) by (simp add: ilt_get_index_def nat_int_add flip: of_nat_mult of_nat_add)
    have "?v < nr_elements r2"
    proof -
      have "?v < Suc a * nr_eqid r1" using b(2) by simp
      also have "\<dots> \<le> nr_eqid r0 * nr_eqid r1" using a(2) by (intro mult_le_mono1) simp
      finally show ?thesis by (simp add: r2(3))
    qed
    then have "eqID r3 ! ?v = first_match ?n (?P ?v)" using r3(2) by blast
    also have "\<dots> = first_match ?n (\<lambda>i. chk_hi ilt i ?h \<and> chk_lo ilt i ?l)"
      unfolding first_match_def
      by (rule arg_cong [where f = "case_option _ _"], rule find_cong)
        (use a b ch(2) cl(2) in auto)
    finally show ?thesis by (simp add: v)
  qed
  then show ?thesis using r0(1) r1(1) r2(1) r3(1)
    by (auto simp: ilt_compile_def ilt_lookup_def ilt_get_idx_def Let_def)
qed


lemma normalize_size_covers:
  assumes "n + 31 < 2 ^ 32"
  shows "n \<le> 32 * unat (normalize_size (of_nat n) 32 5)"
proof -
  let ?w = "of_nat n + 31 :: u32"
  have "drop_bit 5 (?w AND NOT (mask 5)) = drop_bit 5 ?w"
    by (rule bit_word_eqI) (auto simp: bit_simps dest: bit_imp_le_length)
  moreover have "of_nat n + 32 - 1 = ?w" "32 - 1 = (mask 5 :: u32)"
    by (simp_all add: mask_eq_exp_minus_1)
  ultimately have "normalize_size (of_nat n) 32 5 = drop_bit 5 ?w"
    by (simp only: normalize_size_def)
  moreover have "unat ?w = n + 31"
    using assms by (simp add: unat_word_ariths unsigned_of_nat take_bit_eq_mod)
  ultimately have "unat (normalize_size (of_nat n) 32 5) = (n + 31) div 32"
    by (simp add: drop_bit_eq_div unat_div)
  then show ?thesis by simp
qed



text \<open>The tables check the two halves of an opcode apart; together they are one masked comparison.\<close>

lemma halves_match:
  fixes x m v :: u32
  shows "(drop_bit 16 x AND drop_bit 16 m = drop_bit 16 v \<and> (x AND mask 16) AND m = v AND mask 16)
    \<longleftrightarrow> x AND m = v" (is "?h \<and> ?l \<longleftrightarrow> _")
proof
  assume h: "?h \<and> ?l"
  show "x AND m = v"
  proof (rule bit_word_eqI)
    fix k assume k: "k < LENGTH(32)"
    show "bit (x AND m) k = bit v k"
    proof (cases "k < 16")
      case True
      have "bit ((x AND mask 16) AND m) k = bit (v AND mask 16) k" using h by simp
      with True show ?thesis by (simp add: bit_simps)
    next
      case False
      have "bit (drop_bit 16 x AND drop_bit 16 m) (k - 16) = bit (drop_bit 16 v) (k - 16)" using h by simp
      with False show ?thesis by (simp add: bit_simps)
    qed
  qed
next
  assume "x AND m = v"
  then show "?h \<and> ?l" by (auto intro!: bit_word_eqI simp: bit_simps)
qed

section \<open>The interface the interpreters use\<close>

text \<open>An instruction decoder over a table of \<open>n\<close> masks: a lookup that returns the first match.\<close>

locale insn_decoder =
  fixes n :: nat and matches :: "nat \<Rightarrow> u32 \<Rightarrow> bool" and lookup :: "u32 \<Rightarrow> int"
  assumes lookup_first: "lookup insn = first_match n (\<lambda>i. matches i insn)"
begin

lemma lookup_eqI:
  assumes "i < n" "matches i insn" "\<And>j. j < i \<Longrightarrow> \<not> matches j insn"
  shows "lookup insn = int i"
proof -
  have "find (\<lambda>i. matches i insn) [0..<n] = Some i"
    using assms by (auto simp: find_Some_iff)
  then show ?thesis by (simp add: lookup_first first_match_def)
qed

lemma lookup_matches:
  assumes "lookup insn = int i"
  shows "i < n \<and> matches i insn \<and> (\<forall>j<i. \<not> matches j insn)"
proof -
  from assms have "find (\<lambda>i. matches i insn) [0..<n] = Some i"
    by (auto simp: lookup_first first_match_def split: option.splits)
  then show ?thesis by (auto simp: find_Some_iff)
qed

lemma lookup_total:
  assumes "i < n" "matches i insn"
  shows "\<exists>j. lookup insn = int j \<and> j \<le> i"
proof -
  have "find (\<lambda>i. matches i insn) [0..<n] \<noteq> None"
    using assms by (auto simp: find_None_iff)
  then obtain j where j: "lookup insn = int j"
    by (auto simp: lookup_first first_match_def)
  then have "j \<le> i" using lookup_matches assms(2) not_less by blast
  with j show ?thesis by blast
qed

end

end
