(* ===== verification/Mips64Cpu.thy ===== *)
theory Mips64Cpu
  imports Memory
begin

text \<open>
  The MIPS64 CPU of \<open>stable/mips64.h\<close> and \<open>stable/mips64.c\<close>: its state, reset, the exception and
  interrupt machinery, the FPU move instructions and the virtual breakpoints, with
  \<open>mips64_set_irq\<close> and \<open>mips64_clear_irq\<close> as \<open>stable/mips64_nojit_trans.c\<close> defines them.

  The record \<open>cpu_mips\<close> has the fields of \<open>struct cpu_mips\<close> that the interpreter uses, the CP0
  and CP1 sub-structures flattened; \<open>cpu_state\<close> is \<open>gen->state\<close> and \<open>clock_divisor\<close> is
  \<open>vm->clock_divisor\<close>. Register files are functions from the register number. The operations
  are polymorphic in the record extension, so the virtual machine with its memory
  (\<open>Mips64Mem\<close>) uses them as they are. Printing, logging, locks and the JIT structures are not
  modelled.
\<close>

section \<open>State\<close>

record tlb_entry =
  te_mask :: u64
  te_hi :: u64
  te_lo0 :: u64
  te_lo1 :: u64

record cpu_mips =
  pc :: u64
  gpr :: "nat \<Rightarrow> u64"
  reg_lo :: u64
  reg_hi :: u64
  ll_bit :: u32
  irq_pending :: u32
  irq_cause :: u32
  irq_disable :: u32
  irq_count :: u64
  irq_fp_count :: u64
  timer_irq_count :: u64
  timer_irq_pending :: u32
  cp0_virt_cnt_reg :: u32
  cp0_virt_cmp_reg :: u32
  clock_divisor :: u32
  cp0_reg :: "nat \<Rightarrow> u64"
  cp0_tlb :: "nat \<Rightarrow> tlb_entry"
  tlb_entries :: u32
  ipl_lo :: u32
  ipl_hi :: u32
  int_ctl :: u32
  derraddr0 :: u32
  derraddr1 :: u32
  fpu_reg :: "nat \<Rightarrow> u64"
  addr_bus_mask :: u64
  addr_mode :: u32
  mts_cache :: "nat \<Rightarrow> mts_entry"
  breakpoints :: "u64 list"
  breakpoints_enabled :: bool
  cpu_state :: u32

abbreviation set_gpr :: "nat \<Rightarrow> u64 \<Rightarrow> 'z cpu_mips_scheme \<Rightarrow> 'z cpu_mips_scheme" where
  "set_gpr i v c \<equiv> c\<lparr>gpr := (gpr c)(i := v)\<rparr>"

abbreviation set_cp0 :: "nat \<Rightarrow> u64 \<Rightarrow> 'z cpu_mips_scheme \<Rightarrow> 'z cpu_mips_scheme" where
  "set_cp0 i v c \<equiv> c\<lparr>cp0_reg := (cp0_reg c)(i := v)\<rparr>"

subsection \<open>Register numbers and masks of mips64.h\<close>

abbreviation (input) MIPS_GPR_SP :: nat where "MIPS_GPR_SP \<equiv> 29"
abbreviation (input) MIPS_GPR_RA :: nat where "MIPS_GPR_RA \<equiv> 31"

abbreviation (input) MIPS_CP0_INDEX :: nat where "MIPS_CP0_INDEX \<equiv> 0"
abbreviation (input) MIPS_CP0_RANDOM :: nat where "MIPS_CP0_RANDOM \<equiv> 1"
abbreviation (input) MIPS_CP0_TLB_LO_0 :: nat where "MIPS_CP0_TLB_LO_0 \<equiv> 2"
abbreviation (input) MIPS_CP0_TLB_LO_1 :: nat where "MIPS_CP0_TLB_LO_1 \<equiv> 3"
abbreviation (input) MIPS_CP0_PAGEMASK :: nat where "MIPS_CP0_PAGEMASK \<equiv> 5"
abbreviation (input) MIPS_CP0_WIRED :: nat where "MIPS_CP0_WIRED \<equiv> 6"
abbreviation (input) MIPS_CP0_INFO :: nat where "MIPS_CP0_INFO \<equiv> 7"
abbreviation (input) MIPS_CP0_BADVADDR :: nat where "MIPS_CP0_BADVADDR \<equiv> 8"
abbreviation (input) MIPS_CP0_COUNT :: nat where "MIPS_CP0_COUNT \<equiv> 9"
abbreviation (input) MIPS_CP0_TLB_HI :: nat where "MIPS_CP0_TLB_HI \<equiv> 10"
abbreviation (input) MIPS_CP0_COMPARE :: nat where "MIPS_CP0_COMPARE \<equiv> 11"
abbreviation (input) MIPS_CP0_STATUS :: nat where "MIPS_CP0_STATUS \<equiv> 12"
abbreviation (input) MIPS_CP0_CAUSE :: nat where "MIPS_CP0_CAUSE \<equiv> 13"
abbreviation (input) MIPS_CP0_EPC :: nat where "MIPS_CP0_EPC \<equiv> 14"
abbreviation (input) MIPS_CP0_PRID :: nat where "MIPS_CP0_PRID \<equiv> 15"
abbreviation (input) MIPS_CP0_CONFIG :: nat where "MIPS_CP0_CONFIG \<equiv> 16"
abbreviation (input) MIPS_CP0_ERR_EPC :: nat where "MIPS_CP0_ERR_EPC \<equiv> 30"

abbreviation (input) MIPS_CP0_STATUS_BEV :: u64 where "MIPS_CP0_STATUS_BEV \<equiv> 0x00400000"
abbreviation (input) MIPS_CP0_STATUS_ERL :: u64 where "MIPS_CP0_STATUS_ERL \<equiv> 0x00000004"
abbreviation (input) MIPS_CP0_STATUS_EXL :: u64 where "MIPS_CP0_STATUS_EXL \<equiv> 0x00000002"
abbreviation (input) MIPS_CP0_STATUS_IE :: u64 where "MIPS_CP0_STATUS_IE \<equiv> 0x00000001"
abbreviation (input) MIPS_CP0_STATUS_IMASK :: u64 where "MIPS_CP0_STATUS_IMASK \<equiv> 0x0000FF00"
abbreviation (input) MIPS_CP0_CAUSE_IMASK :: u64 where "MIPS_CP0_CAUSE_IMASK \<equiv> 0x0000FF00"
abbreviation (input) MIPS_CP0_CAUSE_BD_SLOT :: u64 where "MIPS_CP0_CAUSE_BD_SLOT \<equiv> 0x80000000"

abbreviation (input) MIPS_CP0_CAUSE_INTERRUPT :: u32 where "MIPS_CP0_CAUSE_INTERRUPT \<equiv> 0"
abbreviation (input) MIPS_CP0_CAUSE_TLB_LOAD :: u32 where "MIPS_CP0_CAUSE_TLB_LOAD \<equiv> 2"
abbreviation (input) MIPS_CP0_CAUSE_TLB_SAVE :: u32 where "MIPS_CP0_CAUSE_TLB_SAVE \<equiv> 3"
abbreviation (input) MIPS_CP0_CAUSE_ADDR_LOAD :: u32 where "MIPS_CP0_CAUSE_ADDR_LOAD \<equiv> 4"
abbreviation (input) MIPS_CP0_CAUSE_ADDR_SAVE :: u32 where "MIPS_CP0_CAUSE_ADDR_SAVE \<equiv> 5"
abbreviation (input) MIPS_CP0_CAUSE_SYSCALL :: u32 where "MIPS_CP0_CAUSE_SYSCALL \<equiv> 8"
abbreviation (input) MIPS_CP0_CAUSE_BP :: u32 where "MIPS_CP0_CAUSE_BP \<equiv> 9"
abbreviation (input) MIPS_CP0_CAUSE_ILLOP :: u32 where "MIPS_CP0_CAUSE_ILLOP \<equiv> 10"
abbreviation (input) MIPS_CP0_CAUSE_TRAP :: u32 where "MIPS_CP0_CAUSE_TRAP \<equiv> 13"

section \<open>Reset\<close>

definition cca_cache_status :: "bool list" where
  "cca_cache_status = [True, True, False, True, False, True, False, False]"

definition mips64_cca_cached :: "u32 \<Rightarrow> bool" where
  "mips64_cca_cached val = cca_cache_status ! unat (val AND 0x03)"

text \<open>The MTS cache filled with \<open>0xFF\<close> bytes: in 32-bit mode \<open>gvpa\<close> and \<open>gppa\<close> are 32 bits wide.\<close>

definition mts_invalid_entry :: "u32 \<Rightarrow> mts_entry" where
  "mts_invalid_entry mode =
     (if mode = 64 then \<lparr>gvpa = -1, gppa = -1, hpa = -1, mts_flags = -1\<rparr>
      else \<lparr>gvpa = 0xFFFFFFFF, gppa = 0xFFFFFFFF, hpa = -1, mts_flags = -1\<rparr>)"

definition mts_invalidate_cache :: "'z cpu_mips_scheme \<Rightarrow> 'z cpu_mips_scheme" where
  "mts_invalidate_cache c = c\<lparr>mts_cache := (\<lambda>_. mts_invalid_entry (addr_mode c))\<rparr>"

text \<open>\<open>mips64_set_addr_mode\<close>: a change of mode frees the cache and creates an empty one; any mode
  but 32 and 64 ends the host program.\<close>

definition mips64_set_addr_mode ::
    "u32 \<Rightarrow> 'z cpu_mips_scheme \<Rightarrow> (unit, 'z cpu_mips_scheme) outcome" where
  "mips64_set_addr_mode mode c =
     (if addr_mode c \<noteq> mode then
        if mode = 32 \<or> mode = 64 then
          Ok () (mts_invalidate_cache (c\<lparr>addr_mode := mode\<rparr>))
        else HostFault
      else Ok () c)"

definition mips64_reset :: "'z cpu_mips_scheme \<Rightarrow> (unit, 'z cpu_mips_scheme) outcome" where
  "mips64_reset c =
     (let c = c\<lparr>pc := 0xffffffffbfc00000\<rparr>;
          c = set_gpr MIPS_GPR_SP 0xffffffff80004000 c;
          c = set_cp0 MIPS_CP0_STATUS MIPS_CP0_STATUS_BEV c;
          c = set_cp0 MIPS_CP0_CAUSE 0 c;
          c = set_cp0 MIPS_CP0_CONFIG 0x00c08ff0 c;
          c = c\<lparr>cp0_tlb := (\<lambda>_. \<lparr>te_mask = 0, te_hi = 0, te_lo0 = 0, te_lo1 = 0\<rparr>)\<rparr>
      in obind (mips64_set_addr_mode 32 c) (\<lambda>_ c. Ok () (mts_invalidate_cache c)))"

definition mips64_set_prid :: "u32 \<Rightarrow> 'z cpu_mips_scheme \<Rightarrow> 'z cpu_mips_scheme" where
  "mips64_set_prid prid c =
     (let c = set_cp0 MIPS_CP0_PRID (ucast prid) c in
      if prid = 0x00002721 \<or> prid = 0x00040102 then c\<lparr>tlb_entries := 64\<rparr> else c)"

section \<open>Interrupts and exceptions\<close>

definition mips64_set_irq :: "u8 \<Rightarrow> 'z cpu_mips_scheme \<Rightarrow> 'z cpu_mips_scheme" where
  "mips64_set_irq irq c =
     (let m = push_bit (unat irq + 8) 1 AND 0x0000FF00 in c\<lparr>irq_cause := irq_cause c OR m\<rparr>)"

definition mips64_clear_irq :: "u8 \<Rightarrow> 'z cpu_mips_scheme \<Rightarrow> 'z cpu_mips_scheme" where
  "mips64_clear_irq irq c =
     (let m = push_bit (unat irq + 8) 1 AND 0x0000FF00;
          c = c\<lparr>irq_cause := irq_cause c AND NOT m\<rparr>
      in if irq_cause c = 0 then c\<lparr>irq_pending := 0\<rparr> else c)"

text \<open>The result of \<open>mips64_update_irq_flag_fast\<close> is whether an interrupt is to be taken.\<close>

definition mips64_update_irq_flag_fast :: "'z cpu_mips_scheme \<Rightarrow> bool \<times> 'z cpu_mips_scheme" where
  "mips64_update_irq_flag_fast c =
     (let c = c\<lparr>irq_pending := 0\<rparr>;
          cause = (ucast (cp0_reg c MIPS_CP0_CAUSE AND NOT MIPS_CP0_CAUSE_IMASK) :: u32);
          c = set_cp0 MIPS_CP0_CAUSE (ucast (cause OR irq_cause c)) c;
          sreg_mask = MIPS_CP0_STATUS_IE OR MIPS_CP0_STATUS_EXL OR MIPS_CP0_STATUS_ERL
      in if cp0_reg c MIPS_CP0_STATUS AND sreg_mask = MIPS_CP0_STATUS_IE then
           let imask = (ucast (cp0_reg c MIPS_CP0_STATUS AND MIPS_CP0_STATUS_IMASK) :: u32) in
           if cp0_reg c MIPS_CP0_CAUSE AND ucast imask \<noteq> 0 then (True, c\<lparr>irq_pending := 1\<rparr>)
           else (False, c)
         else (False, c))"

definition mips64_update_irq_flag :: "'z cpu_mips_scheme \<Rightarrow> 'z cpu_mips_scheme" where
  "mips64_update_irq_flag c = snd (mips64_update_irq_flag_fast c)"

definition mips64_trigger_exception :: "u32 \<Rightarrow> bool \<Rightarrow> 'z cpu_mips_scheme \<Rightarrow> 'z cpu_mips_scheme" where
  "mips64_trigger_exception exc_code bd_slot c =
     (let (c, vector) =
        (if cp0_reg c MIPS_CP0_STATUS AND MIPS_CP0_STATUS_EXL = 0 then
           let c = set_cp0 MIPS_CP0_EPC (pc c) c;
               cause = cp0_reg c MIPS_CP0_CAUSE AND MIPS_CP0_CAUSE_IMASK;
               cause = (if bd_slot then cause OR MIPS_CP0_CAUSE_BD_SLOT
                        else cause AND 0x7FFFFFFF);
               cause = cause OR ucast (push_bit 2 exc_code)
           in (set_cp0 MIPS_CP0_CAUSE cause c, 0x180)
         else
           let cause = cp0_reg c MIPS_CP0_CAUSE AND MIPS_CP0_CAUSE_IMASK;
               cause = cause OR ucast (push_bit 2 exc_code)
           in (set_cp0 MIPS_CP0_CAUSE cause c, 0x180));
        c = set_cp0 MIPS_CP0_STATUS (cp0_reg c MIPS_CP0_STATUS OR MIPS_CP0_STATUS_EXL) c;
        c = (if cp0_reg c MIPS_CP0_STATUS AND MIPS_CP0_STATUS_BEV \<noteq> 0
             then c\<lparr>pc := 0xffffffffbfc00200 + vector\<rparr>
             else c\<lparr>pc := 0xffffffff80000000 + vector\<rparr>)
      in c\<lparr>irq_pending := 0\<rparr>)"

definition mips64_exec_inc_cp0_cnt :: "'z cpu_mips_scheme \<Rightarrow> 'z cpu_mips_scheme" where
  "mips64_exec_inc_cp0_cnt c = c\<lparr>cp0_virt_cnt_reg := cp0_virt_cnt_reg c + 1\<rparr>"

definition mips64_trigger_timer_irq :: "'z cpu_mips_scheme \<Rightarrow> 'z cpu_mips_scheme" where
  "mips64_trigger_timer_irq c =
     (let c = c\<lparr>timer_irq_count := timer_irq_count c + 1\<rparr>;
          c = set_cp0 MIPS_CP0_COUNT (ucast (ucast (cp0_reg c MIPS_CP0_COMPARE) :: u32)) c;
          c = mips64_set_irq 7 c
      in snd (mips64_update_irq_flag_fast c))"

definition mips64_exec_eret :: "'z cpu_mips_scheme \<Rightarrow> 'z cpu_mips_scheme" where
  "mips64_exec_eret c =
     (let c = (if cp0_reg c MIPS_CP0_STATUS AND MIPS_CP0_STATUS_ERL \<noteq> 0 then
                 let c = set_cp0 MIPS_CP0_STATUS
                           (cp0_reg c MIPS_CP0_STATUS AND NOT MIPS_CP0_STATUS_ERL) c
                 in c\<lparr>pc := cp0_reg c MIPS_CP0_ERR_EPC\<rparr>
               else
                 let c = set_cp0 MIPS_CP0_STATUS
                           (cp0_reg c MIPS_CP0_STATUS AND NOT MIPS_CP0_STATUS_EXL) c
                 in c\<lparr>pc := cp0_reg c MIPS_CP0_EPC\<rparr>);
          c = c\<lparr>ll_bit := 0\<rparr>
      in snd (mips64_update_irq_flag_fast c))"

definition mips64_exec_syscall :: "'z cpu_mips_scheme \<Rightarrow> 'z cpu_mips_scheme" where
  "mips64_exec_syscall c = mips64_trigger_exception MIPS_CP0_CAUSE_SYSCALL False c"

definition mips64_trigger_trap_exception :: "'z cpu_mips_scheme \<Rightarrow> 'z cpu_mips_scheme" where
  "mips64_trigger_trap_exception c = mips64_trigger_exception MIPS_CP0_CAUSE_TRAP False c"

definition mips64_trigger_irq :: "'z cpu_mips_scheme \<Rightarrow> 'z cpu_mips_scheme" where
  "mips64_trigger_irq c =
     (if irq_disable c \<noteq> 0 then c\<lparr>irq_pending := 0\<rparr>
      else
        let c = c\<lparr>irq_count := irq_count c + 1\<rparr>;
            (taken, c) = mips64_update_irq_flag_fast c
        in if taken then mips64_trigger_exception MIPS_CP0_CAUSE_INTERRUPT False c
           else c\<lparr>irq_fp_count := irq_fp_count c + 1\<rparr>)"

section \<open>FPU moves, breakpoints, register access\<close>

definition mips64_exec_dmfc1 :: "nat \<Rightarrow> nat \<Rightarrow> 'z cpu_mips_scheme \<Rightarrow> 'z cpu_mips_scheme" where
  "mips64_exec_dmfc1 gp_reg cp1_reg c = set_gpr gp_reg (fpu_reg c cp1_reg) c"

definition mips64_exec_dmtc1 :: "nat \<Rightarrow> nat \<Rightarrow> 'z cpu_mips_scheme \<Rightarrow> 'z cpu_mips_scheme" where
  "mips64_exec_dmtc1 gp_reg cp1_reg c = c\<lparr>fpu_reg := (fpu_reg c)(cp1_reg := gpr c gp_reg)\<rparr>"

definition mips64_exec_mfc1 :: "nat \<Rightarrow> nat \<Rightarrow> 'z cpu_mips_scheme \<Rightarrow> 'z cpu_mips_scheme" where
  "mips64_exec_mfc1 gp_reg cp1_reg c =
     (let val = fpu_reg c cp1_reg AND 0xffffffff in set_gpr gp_reg (sign_extend val 32) c)"

definition mips64_exec_mtc1 :: "nat \<Rightarrow> nat \<Rightarrow> 'z cpu_mips_scheme \<Rightarrow> 'z cpu_mips_scheme" where
  "mips64_exec_mtc1 gp_reg cp1_reg c =
     c\<lparr>fpu_reg := (fpu_reg c)(cp1_reg := gpr c gp_reg AND 0xffffffff)\<rparr>"

text \<open>\<open>breakpoints\<close> is the array of \<open>MIPS64_MAX_BREAKPOINTS\<close> = 8 entries, 0 for a free slot.\<close>

definition mips64_add_breakpoint :: "u64 \<Rightarrow> 'z cpu_mips_scheme \<Rightarrow> int \<times> 'z cpu_mips_scheme" where
  "mips64_add_breakpoint addr c =
     (case find (\<lambda>i. breakpoints c ! i = 0) [0..<8] of
        None \<Rightarrow> (-1, c)
      | Some i \<Rightarrow> (0, c\<lparr>breakpoints := (breakpoints c)[i := addr], breakpoints_enabled := True\<rparr>))"

text \<open>One round of the removal loop: at a match, shift the later entries down and clear the last.\<close>

definition mips64_remove_breakpoint_round :: "u64 \<Rightarrow> nat \<Rightarrow> u64 list \<Rightarrow> u64 list" where
  "mips64_remove_breakpoint_round addr i bps =
     (if bps ! i = addr then
        (fold (\<lambda>j b. b[j := b ! (j + 1)]) [i..<7] bps)[7 := 0]
      else bps)"

definition mips64_remove_breakpoint :: "u64 \<Rightarrow> 'z cpu_mips_scheme \<Rightarrow> 'z cpu_mips_scheme" where
  "mips64_remove_breakpoint addr c =
     (let c = c\<lparr>breakpoints := fold (mips64_remove_breakpoint_round addr) [0..<8] (breakpoints c)\<rparr>
      in if \<exists>i\<in>set [0..<8]. breakpoints c ! i \<noteq> 0 then c
         else c\<lparr>breakpoints_enabled := False\<rparr>)"

definition mips64_reg_set :: "nat \<Rightarrow> u64 \<Rightarrow> 'z cpu_mips_scheme \<Rightarrow> 'z cpu_mips_scheme" where
  "mips64_reg_set reg val c = (if reg < 32 then set_gpr reg val c else c)"


section \<open>Properties of exceptions and interrupts\<close>

text \<open>The two halves of the status test of the interrupt logic.\<close>

abbreviation exl_set :: "'z cpu_mips_scheme \<Rightarrow> bool" where
  "exl_set c \<equiv> bit (cp0_reg c MIPS_CP0_STATUS) 1"

abbreviation erl_set :: "'z cpu_mips_scheme \<Rightarrow> bool" where
  "erl_set c \<equiv> bit (cp0_reg c MIPS_CP0_STATUS) 2"

abbreviation bev_set :: "'z cpu_mips_scheme \<Rightarrow> bool" where
  "bev_set c \<equiv> bit (cp0_reg c MIPS_CP0_STATUS) 22"

abbreviation ie_set :: "'z cpu_mips_scheme \<Rightarrow> bool" where
  "ie_set c \<equiv> bit (cp0_reg c MIPS_CP0_STATUS) 0"

lemma and_pow2_zero: "x AND push_bit n 1 = 0 \<longleftrightarrow> \<not> bit (x :: 'a::len word) n"
  by (simp add: push_bit_of_1 and_exp_eq_0_iff_not_bit)

lemma status_bit_tests [simp]:
  "x AND (2 :: u64) = 0 \<longleftrightarrow> \<not> bit x 1"
  "x AND (4 :: u64) = 0 \<longleftrightarrow> \<not> bit x 2"
  "x AND (0x400000 :: u64) = 0 \<longleftrightarrow> \<not> bit x 22"
  "x AND (0x1000 :: u64) = 0 \<longleftrightarrow> \<not> bit x 12"
  using and_pow2_zero [of x 1] and_pow2_zero [of x 2] and_pow2_zero [of x 22] and_pow2_zero [of x 12]
  by simp_all

lemma irq_status_test [simp]: "x AND (7 :: u64) = 1 \<longleftrightarrow> bit x 0 \<and> \<not> bit x 1 \<and> \<not> bit x 2"
proof
  assume "x AND 7 = (1 :: u64)"
  then have "bit (x AND 7) n = bit (1 :: u64) n" for n by simp
  from this [of 0] this [of 1] this [of 2]
  show "bit x 0 \<and> \<not> bit x 1 \<and> \<not> bit x 2" by (simp add: bit_simps)
next
  assume a: "bit x 0 \<and> \<not> bit x 1 \<and> \<not> bit x 2"
  have "bit (7 :: u64) n \<longleftrightarrow> n = 0 \<or> n = 1 \<or> n = 2" for n
    using bit_mask_iff [of 3 n, where 'a = "64 word"] by (auto simp: mask_eq_exp_minus_1)
  with a show "x AND 7 = (1 :: u64)"
    by (intro bit_word_eqI) (auto simp: bit_and_iff bit_1_iff)
qed

lemma bit_FF00: "bit (0xFF00 :: u64) n \<longleftrightarrow> 8 \<le> n \<and> n < 16"
proof -
  have "(0xFF00 :: u64) = push_bit 8 (mask 8)" by (simp add: mask_eq_exp_minus_1 push_bit_eq_mult)
  then show ?thesis
    by (simp only: bit_push_bit_iff bit_mask_iff) auto
qed

lemma irq_cause_masked:
  "(ucast (ucast (r AND - 65281 :: u64) OR (ic :: u32)) :: u64) AND ucast (ucast (st AND 0xFF00 :: u64) :: u32)
     = ucast ic AND (st AND 0xFF00)"
proof (rule bit_word_eqI)
  fix n assume "n < LENGTH(64)"
  have m: "- 65281 = NOT (0xFF00 :: u64)" by simp
  show "bit (ucast (ucast (r AND - 65281) OR ic :: u32) AND (ucast (ucast (st AND 0xFF00) :: u32) :: u64)) n
      = bit (ucast ic AND (st AND 0xFF00)) n"
    unfolding m bit_and_iff bit_or_iff bit_not_iff bit_ucast_iff bit_FF00
    by (auto dest: bit_imp_le_length)
qed

lemma update_irq_flag_fst:
  "fst (mips64_update_irq_flag_fast c) \<longleftrightarrow>
     ie_set c \<and> \<not> exl_set c \<and> \<not> erl_set c \<and>
     (ucast (irq_cause c) :: u64) AND (cp0_reg c MIPS_CP0_STATUS AND MIPS_CP0_STATUS_IMASK) \<noteq> 0"
  by (simp add: mips64_update_irq_flag_fast_def Let_def irq_cause_masked)

lemma update_irq_flag_frame [simp, frame_simps]:
  "pc (snd (mips64_update_irq_flag_fast c)) = pc c"
  "gpr (snd (mips64_update_irq_flag_fast c)) = gpr c"
  "cp0_reg (snd (mips64_update_irq_flag_fast c)) 12 = cp0_reg c 12"
  "cp0_reg (snd (mips64_update_irq_flag_fast c)) 14 = cp0_reg c 14"
  "irq_cause (snd (mips64_update_irq_flag_fast c)) = irq_cause c"
  "irq_disable (snd (mips64_update_irq_flag_fast c)) = irq_disable c"
  "mts_cache (snd (mips64_update_irq_flag_fast c)) = mts_cache c"
  "cp0_tlb (snd (mips64_update_irq_flag_fast c)) = cp0_tlb c"
  by (simp_all add: mips64_update_irq_flag_fast_def Let_def)

lemma update_irq_flag_pending:
  "irq_pending (snd (mips64_update_irq_flag_fast c)) = of_bool (fst (mips64_update_irq_flag_fast c))"
  by (simp add: mips64_update_irq_flag_fast_def Let_def)

lemma trigger_exception_frame [simp, frame_simps]:
  "gpr (mips64_trigger_exception code bd c) = gpr c"
  "irq_pending (mips64_trigger_exception code bd c) = 0"
  "irq_cause (mips64_trigger_exception code bd c) = irq_cause c"
  "mts_cache (mips64_trigger_exception code bd c) = mts_cache c"
  "cp0_tlb (mips64_trigger_exception code bd c) = cp0_tlb c"
  by (simp_all add: mips64_trigger_exception_def Let_def)

lemma trigger_exception_status [simp]:
  "cp0_reg (mips64_trigger_exception code bd c) 12 = cp0_reg c 12 OR 2"
  by (simp add: mips64_trigger_exception_def Let_def)

lemma trigger_exception_epc [simp]:
  "cp0_reg (mips64_trigger_exception code bd c) 14 = (if exl_set c then cp0_reg c 14 else pc c)"
  by (simp add: mips64_trigger_exception_def Let_def)

lemma trigger_exception_pc [simp]:
  "pc (mips64_trigger_exception code bd c) =
     (if bev_set c then 0xffffffffbfc00380 else 0xffffffff80000180)"
  by (simp add: mips64_trigger_exception_def Let_def bit_or_iff)


lemma trigger_exception_cause:
  "cp0_reg (mips64_trigger_exception code bd c) 13 =
     (cp0_reg c 13 AND 0xFF00) OR (if bd \<and> \<not> exl_set c then 0x80000000 else 0)
       OR ucast (push_bit 2 code)"
  by (simp add: mips64_trigger_exception_def Let_def and.assoc or.assoc or.commute or.left_commute)

lemma exc_code_of_cause:
  assumes "unat (code :: u32) < 32" and "bd = 0x80000000 \<or> bd = (0 :: u64)"
  shows "drop_bit 2 ((x AND 0xFF00) OR bd OR ucast (push_bit 2 code)) AND mask 5 = (ucast code :: u64)"
proof (rule bit_word_eqI)
  fix n assume "n < LENGTH(64)"
  have "bit code n \<Longrightarrow> n < 5" using assms(1) by (intro bit_less_pow2 [of code 5]) simp_all
  moreover have "bit bd k \<Longrightarrow> k = 31" for k
  proof -
    have "(0x80000000 :: u64) = push_bit 31 1" by (simp add: push_bit_of_1)
    moreover have "bit (push_bit 31 (1 :: u64)) k \<Longrightarrow> k = 31"
      by (simp only: bit_push_bit_iff bit_1_iff) simp
    ultimately show "bit bd k \<Longrightarrow> k = 31" using assms(2) by (elim disjE) (simp_all only: bit_0_eq bot_apply bot_bool_def)
  qed
  ultimately show "bit (drop_bit 2 ((x AND 0xFF00) OR bd OR ucast (push_bit 2 code)) AND mask 5) n
      = bit (ucast code :: u64) n"
    unfolding bit_and_iff bit_or_iff bit_drop_bit_eq o_apply bit_ucast_iff bit_push_bit_iff bit_mask_iff bit_FF00
    by fastforce
qed

text \<open>entering an exception saves the pc in EPC unless EXL was already set, sets EXL, keeps the
  other status bits, the interrupt-pending bits and the general registers, reports the
  exception code and (only at the outer level) the delay-slot flag in Cause, clears the pending
  flag, and continues at the general vector that BEV selects.\<close>

theorem exception_entry:
  assumes "unat code < 32"
  shows "pc (mips64_trigger_exception code bd c) =
           (if bev_set c then 0xffffffffbfc00380 else 0xffffffff80000180) \<and>
         cp0_reg (mips64_trigger_exception code bd c) MIPS_CP0_EPC =
           (if exl_set c then cp0_reg c MIPS_CP0_EPC else pc c) \<and>
         cp0_reg (mips64_trigger_exception code bd c) MIPS_CP0_STATUS =
           cp0_reg c MIPS_CP0_STATUS OR MIPS_CP0_STATUS_EXL \<and>
         drop_bit 2 (cp0_reg (mips64_trigger_exception code bd c) MIPS_CP0_CAUSE) AND mask 5
           = ucast code \<and>
         gpr (mips64_trigger_exception code bd c) = gpr c \<and>
         irq_pending (mips64_trigger_exception code bd c) = 0"
proof -
  have "drop_bit 2 (cp0_reg (mips64_trigger_exception code bd c) 13) AND mask 5 = ucast code"
    unfolding trigger_exception_cause using assms by (intro exc_code_of_cause) auto
  then show ?thesis by simp
qed

theorem exception_entry_witness:
  "pc (mips64_trigger_exception 8 False ((undefined :: cpu_mips)\<lparr>pc := 0x80001000, cp0_reg := (\<lambda>_. 0)\<rparr>))
     = 0xffffffff80000180"
  using exception_entry [of 8 False "(undefined :: cpu_mips)\<lparr>pc := 0x80001000, cp0_reg := (\<lambda>_. 0)\<rparr>"]
  by simp

lemma exec_eret_pc:
  "pc (mips64_exec_eret c) = (if erl_set c then cp0_reg c 30 else cp0_reg c 14)"
  by (simp add: mips64_exec_eret_def Let_def)

lemma exec_eret_status:
  "cp0_reg (mips64_exec_eret c) 12 =
     (if erl_set c then cp0_reg c 12 AND NOT 4 else cp0_reg c 12 AND NOT 2)"
  by (simp add: mips64_exec_eret_def Let_def)

lemma exec_eret_gpr [simp]: "gpr (mips64_exec_eret c) = gpr c"
  by (simp add: mips64_exec_eret_def Let_def)

lemma clear_exl_again:
  assumes "\<not> bit (x :: u64) 1" shows "(x OR 2) AND - 3 = x"
proof (rule bit_word_eqI)
  fix n
  have m: "- 3 = NOT (2 :: u64)" by simp
  have two: "bit (2 :: u64) n \<longleftrightarrow> n = 1"
    using bit_push_bit_iff [of 1 "1 :: u64" n] by (auto simp: bit_1_iff)
  show "bit ((x OR 2) AND - 3) n = bit x n" if "n < LENGTH(64)"
    unfolding m bit_and_iff bit_or_iff bit_not_iff two using assms that by auto
qed

text \<open>returning with ERET from an exception taken at the base level (EXL and ERL clear) resumes
  at the interrupted pc with the interrupted status and registers, and breaks any load-linked
  reservation.\<close>

theorem exception_eret_roundtrip:
  assumes "\<not> exl_set c" and "\<not> erl_set c"
  shows "pc (mips64_exec_eret (mips64_trigger_exception code bd c)) = pc c \<and>
         cp0_reg (mips64_exec_eret (mips64_trigger_exception code bd c)) MIPS_CP0_STATUS
           = cp0_reg c MIPS_CP0_STATUS \<and>
         gpr (mips64_exec_eret (mips64_trigger_exception code bd c)) = gpr c \<and>
         ll_bit (mips64_exec_eret (mips64_trigger_exception code bd c)) = 0"
proof -
  have "ll_bit (mips64_exec_eret d) = 0" for d :: "'a cpu_mips_scheme"
    by (simp add: mips64_exec_eret_def mips64_update_irq_flag_fast_def Let_def)
  moreover have "\<not> bit (2 :: u64) 2"
    using bit_push_bit_iff [of 1 "1 :: u64" 2] by (simp add: bit_1_iff)
  ultimately show ?thesis
    using assms by (simp add: exec_eret_pc exec_eret_status bit_or_iff clear_exl_again)
qed

theorem exception_eret_roundtrip_witness:
  "pc (mips64_exec_eret (mips64_trigger_exception 2 False
        ((undefined :: cpu_mips)\<lparr>pc := 0x80001000, cp0_reg := (\<lambda>_. 1)\<rparr>))) = 0x80001000"
  using exception_eret_roundtrip
    [of "(undefined :: cpu_mips)\<lparr>pc := 0x80001000, cp0_reg := (\<lambda>_. 1)\<rparr>" 2 False]
  by (simp add: bit_1_iff)

definition irq_deliverable :: "'z cpu_mips_scheme \<Rightarrow> bool" where
  "irq_deliverable c \<longleftrightarrow> ie_set c \<and> \<not> exl_set c \<and> \<not> erl_set c \<and>
     (ucast (irq_cause c) :: u64) AND (cp0_reg c MIPS_CP0_STATUS AND MIPS_CP0_STATUS_IMASK) \<noteq> 0"

lemma trigger_irq_cases:
  assumes "irq_disable c = 0"
  shows "mips64_trigger_irq c =
    (let d = snd (mips64_update_irq_flag_fast (c\<lparr>irq_count := irq_count c + 1\<rparr>)) in
     if irq_deliverable c then mips64_trigger_exception 0 False d
     else d\<lparr>irq_fp_count := irq_fp_count d + 1\<rparr>)"
  using update_irq_flag_fst [of "c\<lparr>irq_count := irq_count c + 1\<rparr>"] assms
  by (auto simp: mips64_trigger_irq_def irq_deliverable_def Let_def split: prod.splits)

text \<open>C37: with interrupts not disabled by the host, \<open>mips64_trigger_irq\<close> takes the interrupt exactly
  when IE is set, neither EXL nor ERL is set and an unmasked interrupt line is up; then it
  enters the exception at the current pc, and otherwise it leaves pc, status and EPC alone, so
  interrupts never nest at exception level.\<close>

theorem irq_taken_iff_deliverable:
  assumes "irq_disable c = 0"
  shows "(irq_deliverable c \<longrightarrow>
            pc (mips64_trigger_irq c) = (if bev_set c then 0xffffffffbfc00380 else 0xffffffff80000180) \<and>
            cp0_reg (mips64_trigger_irq c) MIPS_CP0_EPC = pc c \<and>
            exl_set (mips64_trigger_irq c) \<and> \<not> irq_deliverable (mips64_trigger_irq c)) \<and>
         (\<not> irq_deliverable c \<longrightarrow>
            pc (mips64_trigger_irq c) = pc c \<and>
            cp0_reg (mips64_trigger_irq c) MIPS_CP0_STATUS = cp0_reg c MIPS_CP0_STATUS \<and>
            cp0_reg (mips64_trigger_irq c) MIPS_CP0_EPC = cp0_reg c MIPS_CP0_EPC)"
proof (cases "irq_deliverable c")
  case True
  have "bit (2 :: u64) 1"
    using bit_push_bit_iff [of 1 "1 :: u64" 1] by simp
  with True show ?thesis
    unfolding trigger_irq_cases [OF assms] Let_def
    by (simp add: bit_or_iff irq_deliverable_def)
next
  case False
  then show ?thesis unfolding trigger_irq_cases [OF assms] Let_def by simp
qed

theorem irq_taken_iff_deliverable_witness:
  "pc (mips64_trigger_irq ((undefined :: cpu_mips)\<lparr>pc := 0x80001000, irq_disable := 0,
        irq_cause := 0x400, cp0_reg := (\<lambda>_. 0x401)\<rparr>)) = 0xffffffff80000180"
proof -
  let ?c = "(undefined :: cpu_mips)\<lparr>pc := 0x80001000, irq_disable := 0,
        irq_cause := 0x400, cp0_reg := (\<lambda>_. 0x401)\<rparr>"
  have "(0x401 :: u64) = push_bit 10 1 OR 1" by (simp add: push_bit_of_1)
  then have "bit (0x401 :: u64) k \<longleftrightarrow> k = 10 \<or> k = 0" for k
    by (simp only: bit_or_iff bit_push_bit_iff bit_1_iff) auto
  then have "irq_deliverable ?c" "\<not> bev_set ?c" by (simp_all add: irq_deliverable_def)
  then show ?thesis using irq_taken_iff_deliverable [of ?c] by simp
qed

section \<open>Breakpoints\<close>

text \<open>The slots hold eight addresses, 0 for a free one; a set slot implies the enabled flag.\<close>

definition breakpoints_ok :: "'z cpu_mips_scheme \<Rightarrow> bool" where
  "breakpoints_ok c \<longleftrightarrow> length (breakpoints c) = 8 \<and>
     ((\<exists>a\<in>set (breakpoints c). a \<noteq> 0) \<longrightarrow> breakpoints_enabled c)"

lemma list8_cases:
  assumes "length xs = 8"
  obtains a b c d e f g h where "xs = [a, b, c, d, e, f, g, h]"
  using assms by (auto simp: numeral_eq_Suc length_Suc_conv)

lemma upt8: "[0..<8] = [0, 1, 2, 3, 4, 5, 6, 7::nat]"
  by (simp add: upt_rec)

lemma find_free_slot:
  assumes "length xs = 8"
  shows "find (\<lambda>i. xs ! i = (0 :: u64)) [0..<8] = None \<longleftrightarrow> 0 \<notin> set xs"
    and "find (\<lambda>i. xs ! i = (0 :: u64)) [0..<8] = Some i \<Longrightarrow>
           i < 8 \<and> xs ! i = 0 \<and> (\<forall>j<i. xs ! j \<noteq> 0)"
proof -
  have "(\<forall>i<8. xs ! i \<noteq> 0) \<longleftrightarrow> 0 \<notin> set xs" using assms by (metis in_set_conv_nth)
  then show "find (\<lambda>i. xs ! i = 0) [0..<8] = None \<longleftrightarrow> 0 \<notin> set xs"
    by (auto simp: find_None_iff)
  assume "find (\<lambda>i. xs ! i = 0) [0..<8] = Some i"
  then obtain k where "k < 8" "xs ! k = 0" "i = k" "\<forall>j<k. xs ! j \<noteq> 0"
    by (auto simp: find_Some_iff)
  then show "i < 8 \<and> xs ! i = 0 \<and> (\<forall>j<i. xs ! j \<noteq> 0)" by simp
qed

text \<open>adding a breakpoint fails exactly when all eight slots are in use and then changes
  nothing; otherwise the first free slot, and only that slot, takes the address, the address is
  among the breakpoints, and the slots remain well-formed.\<close>

theorem add_breakpoint_correct:
  assumes "breakpoints_ok c"
  shows "(fst (mips64_add_breakpoint addr c) = -1 \<longleftrightarrow> 0 \<notin> set (breakpoints c)) \<and>
         (0 \<notin> set (breakpoints c) \<longrightarrow> snd (mips64_add_breakpoint addr c) = c) \<and>
         (0 \<in> set (breakpoints c) \<longrightarrow>
            addr \<in> set (breakpoints (snd (mips64_add_breakpoint addr c))) \<and>
            (\<exists>i<8. breakpoints c ! i = 0 \<and> (\<forall>j<i. breakpoints c ! j \<noteq> 0) \<and>
               breakpoints (snd (mips64_add_breakpoint addr c)) = (breakpoints c)[i := addr])) \<and>
         breakpoints_ok (snd (mips64_add_breakpoint addr c))"
proof -
  have l: "length (breakpoints c) = 8" using assms by (simp add: breakpoints_ok_def)
  show ?thesis
  proof (cases "find (\<lambda>i. breakpoints c ! i = 0) [0..<8]")
    case None
    with find_free_slot(1) [OF l] assms show ?thesis by (simp add: mips64_add_breakpoint_def)
  next
    case (Some i)
    note f = find_free_slot(2) [OF l Some]
    then have "0 \<in> set (breakpoints c)" using l by (metis nth_mem)
    with f have i: "i < 8" "breakpoints c ! i = 0"
      "\<forall>j<i. breakpoints c ! j \<noteq> 0" "0 \<in> set (breakpoints c)" by simp_all
    let ?c = "c\<lparr>breakpoints := (breakpoints c)[i := addr], breakpoints_enabled := True\<rparr>"
    have e: "mips64_add_breakpoint addr c = (0, ?c)" using Some by (simp add: mips64_add_breakpoint_def)
    have m: "addr \<in> set ((breakpoints c)[i := addr])" using i l by (simp add: set_update_memI)
    have "\<exists>i<8. breakpoints c ! i = 0 \<and> (\<forall>j<i. breakpoints c ! j \<noteq> 0) \<and>
        breakpoints ?c = (breakpoints c)[i := addr]" using i by auto
    moreover have "breakpoints_ok ?c" using l by (simp add: breakpoints_ok_def)
    ultimately show ?thesis unfolding e fst_conv snd_conv using i(4) m by simp
  qed
qed

theorem add_breakpoint_correct_witness:
  "0x80001000 \<in> set (breakpoints (snd (mips64_add_breakpoint 0x80001000
      ((undefined :: cpu_mips)\<lparr>breakpoints := [0x80000000, 0, 0, 0, 0, 0, 0, 0],
        breakpoints_enabled := True\<rparr>))))"
  using add_breakpoint_correct [of "(undefined :: cpu_mips)\<lparr>breakpoints :=
      [0x80000000, 0, 0, 0, 0, 0, 0, 0], breakpoints_enabled := True\<rparr>" "0x80001000"]
  by (simp add: breakpoints_ok_def)

lemma remove_round_upt:
  "mips64_remove_breakpoint_round addr 0 [a, b, c, d, e, f, g, h] =
     (if a = addr then [b, c, d, e, f, g, h, 0] else [a, b, c, d, e, f, g, h])"
  "mips64_remove_breakpoint_round addr (Suc 0) [a, b, c, d, e, f, g, h] =
     (if b = addr then [a, c, d, e, f, g, h, 0] else [a, b, c, d, e, f, g, h])"
  "mips64_remove_breakpoint_round addr 2 [a, b, c, d, e, f, g, h] =
     (if c = addr then [a, b, d, e, f, g, h, 0] else [a, b, c, d, e, f, g, h])"
  "mips64_remove_breakpoint_round addr 3 [a, b, c, d, e, f, g, h] =
     (if d = addr then [a, b, c, e, f, g, h, 0] else [a, b, c, d, e, f, g, h])"
  "mips64_remove_breakpoint_round addr 4 [a, b, c, d, e, f, g, h] =
     (if e = addr then [a, b, c, d, f, g, h, 0] else [a, b, c, d, e, f, g, h])"
  "mips64_remove_breakpoint_round addr 5 [a, b, c, d, e, f, g, h] =
     (if f = addr then [a, b, c, d, e, g, h, 0] else [a, b, c, d, e, f, g, h])"
  "mips64_remove_breakpoint_round addr 6 [a, b, c, d, e, f, g, h] =
     (if g = addr then [a, b, c, d, e, f, h, 0] else [a, b, c, d, e, f, g, h])"
  "mips64_remove_breakpoint_round addr 7 [a, b, c, d, e, f, g, h] =
     (if h = addr then [a, b, c, d, e, f, g, 0] else [a, b, c, d, e, f, g, h])"
  by (simp_all add: mips64_remove_breakpoint_round_def upt_rec numeral_eq_Suc)

lemma remove_rounds:
  assumes "length xs = 8" and "addr \<noteq> 0" and "addr \<notin> set (remove1 addr xs)"
  shows "fold (mips64_remove_breakpoint_round addr) [0..<8] xs =
           (if addr \<in> set xs then remove1 addr xs @ [0] else xs)"
proof -
  obtain a b c d e f g h where xs: "xs = [a, b, c, d, e, f, g, h]" using list8_cases assms(1) .
  consider "addr \<notin> set xs" | "a = addr" | "a \<noteq> addr" "b = addr" | "a \<noteq> addr" "b \<noteq> addr" "c = addr"
    | "a \<noteq> addr" "b \<noteq> addr" "c \<noteq> addr" "d = addr"
    | "a \<noteq> addr" "b \<noteq> addr" "c \<noteq> addr" "d \<noteq> addr" "e = addr"
    | "a \<noteq> addr" "b \<noteq> addr" "c \<noteq> addr" "d \<noteq> addr" "e \<noteq> addr" "f = addr"
    | "a \<noteq> addr" "b \<noteq> addr" "c \<noteq> addr" "d \<noteq> addr" "e \<noteq> addr" "f \<noteq> addr" "g = addr"
    | "a \<noteq> addr" "b \<noteq> addr" "c \<noteq> addr" "d \<noteq> addr" "e \<noteq> addr" "f \<noteq> addr" "g \<noteq> addr" "h = addr"
    by (auto simp: xs)
  then show ?thesis
    using assms(2,3) unfolding xs upt8
    by cases (auto simp: remove_round_upt)
qed

lemma remove_rounds_length:
  "length (fold (mips64_remove_breakpoint_round addr) is xs) = length xs"
proof -
  have "length (fold (\<lambda>j b. b[j := b ! (j + 1)]) js ys) = length ys" for js and ys :: "u64 list"
    by (induction js arbitrary: ys) simp_all
  then have "length (mips64_remove_breakpoint_round addr i ys) = length ys" for i ys
    by (simp add: mips64_remove_breakpoint_round_def)
  then show ?thesis by (induction "is" arbitrary: xs) simp_all
qed

lemma ex_slot_iff: "length xs = 8 \<Longrightarrow> (\<exists>i\<in>set [0..<8]. xs ! i \<noteq> (0 :: u64)) \<longleftrightarrow> (\<exists>a\<in>set xs. a \<noteq> 0)"
  by (auto simp: in_set_conv_nth Bex_def)

text \<open>removing an address set in at most one slot deletes exactly that entry, keeps the order
  of the others and frees the last slot; if no breakpoint is left the check in the run loop
  is switched off, and the slots remain well-formed.\<close>

theorem remove_breakpoint_correct:
  assumes "breakpoints_ok c" and "addr \<noteq> 0" and "addr \<notin> set (remove1 addr (breakpoints c))"
  shows "breakpoints (mips64_remove_breakpoint addr c) =
           (if addr \<in> set (breakpoints c) then remove1 addr (breakpoints c) @ [0] else breakpoints c) \<and>
         addr \<notin> set (breakpoints (mips64_remove_breakpoint addr c)) \<and>
         ((\<forall>a\<in>set (breakpoints (mips64_remove_breakpoint addr c)). a = 0) \<longrightarrow>
            \<not> breakpoints_enabled (mips64_remove_breakpoint addr c)) \<and>
         breakpoints_ok (mips64_remove_breakpoint addr c)"
proof -
  let ?xs = "if addr \<in> set (breakpoints c) then remove1 addr (breakpoints c) @ [0] else breakpoints c"
  have l: "length (breakpoints c) = 8" using assms(1) by (simp add: breakpoints_ok_def)
  note r = remove_rounds [OF l assms(2,3)]
  define ys where "ys = ?xs"
  note r = r [folded ys_def]
  have lx: "length ys = 8" using l by (auto simp: ys_def length_remove1)
  have n: "addr \<notin> set ys" using assms(2,3) by (auto simp: ys_def)
  have en: "\<exists>a\<in>set ys. a \<noteq> 0 \<Longrightarrow> breakpoints_enabled c"
    using assms(1) set_remove1_subset [of addr "breakpoints c"]
    by (auto simp: breakpoints_ok_def ys_def split: if_splits)
  have e: "mips64_remove_breakpoint addr c =
      (if \<exists>a\<in>set ys. a \<noteq> 0 then c\<lparr>breakpoints := ys\<rparr>
       else c\<lparr>breakpoints := ys, breakpoints_enabled := False\<rparr>)"
    using ex_slot_iff [OF lx] by (simp add: mips64_remove_breakpoint_def r)
  have b: "breakpoints (mips64_remove_breakpoint addr c) = ys" by (simp add: e)
  have en': "breakpoints_enabled (mips64_remove_breakpoint addr c) \<longleftrightarrow> (\<exists>a\<in>set ys. a \<noteq> 0)"
    using en by (auto simp: e)
  show ?thesis
    unfolding breakpoints_ok_def b en' using lx n by (auto simp: ys_def)
qed

theorem remove_breakpoint_correct_witness:
  "breakpoints (mips64_remove_breakpoint 0x80001000
      ((undefined :: cpu_mips)\<lparr>breakpoints := [0x80000000, 0x80001000, 0x80002000, 0, 0, 0, 0, 0],
        breakpoints_enabled := True\<rparr>)) = [0x80000000, 0x80002000, 0, 0, 0, 0, 0, 0]"
  using remove_breakpoint_correct [of "(undefined :: cpu_mips)\<lparr>breakpoints :=
      [0x80000000, 0x80001000, 0x80002000, 0, 0, 0, 0, 0], breakpoints_enabled := True\<rparr>" "0x80001000"]
  by (simp add: breakpoints_ok_def)

text \<open>The removal loop steps over the entry it has just moved down: of two equal neighbours one
  stays armed.\<close>

lemma remove_breakpoint_duplicate:
  "breakpoints (mips64_remove_breakpoint 0x80001000
      ((undefined :: cpu_mips)\<lparr>breakpoints := [0x80001000, 0x80001000, 0, 0, 0, 0, 0, 0]\<rparr>))
   = [0x80001000, 0, 0, 0, 0, 0, 0, 0]"
  by (simp add: mips64_remove_breakpoint_def upt8 remove_round_upt Let_def)

end
