(* ===== verification/Mips64Cp0.thy ===== *)
theory Mips64Cp0
  imports Mips64Cpu
begin

text \<open>
  The system coprocessor of \<open>stable/mips64_cp0.c\<close>: reading and writing CP0 registers with the
  virtual counter, the R7000 set-1 registers, the move instructions, and the TLB: lookup, probe,
  read and write. The MTS hooks \<open>mts_map\<close> and \<open>mts_unmap\<close> that the TLB writes call are those
  \<open>mips_mts.c\<close> installs. A division by the clock divisor and the modulo of the random register
  are host faults when the divisor is 0. The dump functions only print and are not modelled.
\<close>

section \<open>Masks of mips64.h\<close>

abbreviation (input) MIPS_TLB_PAGE_MASK :: u64 where "MIPS_TLB_PAGE_MASK \<equiv> 0x01ffe000"
abbreviation (input) MIPS_TLB_VPN2_MASK_32 :: u64 where "MIPS_TLB_VPN2_MASK_32 \<equiv> 0xffffe000"
abbreviation (input) MIPS_TLB_VPN2_MASK_64 :: u64 where "MIPS_TLB_VPN2_MASK_64 \<equiv> 0xc00000ffffffe000"
abbreviation (input) MIPS_TLB_PFN_MASK :: u64 where "MIPS_TLB_PFN_MASK \<equiv> 0x3fffffc0"
abbreviation (input) MIPS_TLB_ASID_MASK :: u64 where "MIPS_TLB_ASID_MASK \<equiv> 0x000000ff"
abbreviation (input) MIPS_TLB_G_MASK :: u64 where "MIPS_TLB_G_MASK \<equiv> 0x00001000"
abbreviation (input) MIPS_TLB_V_MASK :: u64 where "MIPS_TLB_V_MASK \<equiv> 0x2"
abbreviation (input) MIPS_TLB_C_MASK :: u64 where "MIPS_TLB_C_MASK \<equiv> 0x38"
abbreviation (input) MIPS_CP0_LO_G_MASK :: u64 where "MIPS_CP0_LO_G_MASK \<equiv> 0x00000001"
abbreviation (input) MIPS_CP0_HI_SAFE_MASK :: u64 where "MIPS_CP0_HI_SAFE_MASK \<equiv> 0xffffe0ff"
abbreviation (input) MIPS_CP0_LO_SAFE_MASK :: u64 where "MIPS_CP0_LO_SAFE_MASK \<equiv> 0x7fffffff"
abbreviation (input) MIPS64_TLB_IDX_MASK :: u64 where "MIPS64_TLB_IDX_MASK \<equiv> 0x3f"
abbreviation (input) MIPS_MIN_PAGE_MASK :: u64 where "MIPS_MIN_PAGE_MASK \<equiv> 0xfffffffffffff000"
abbreviation (input) MIPS_MIN_PAGE_IMASK :: u64 where "MIPS_MIN_PAGE_IMASK \<equiv> 0xfff"

section \<open>Modes and registers\<close>

definition mips64_cp0_reg_names :: "string list" where
  "mips64_cp0_reg_names =
     [''index'', ''random'', ''entry_lo0'', ''entry_lo1'', ''context'', ''pagemask'',
      ''wired'', ''info'', ''badvaddr'', ''count'', ''entry_hi'', ''compare'',
      ''status'', ''cause'', ''epc'', ''prid'', ''config'', ''ll_addr'',
      ''watch_lo'', ''watch_hi'', ''xcontext'', ''cp0_r21'', ''cp0_r22'', ''cp0_r23'',
      ''cp0_r24'', ''cp0_r25'', ''ecc'', ''cache_err'', ''tag_lo'', ''tag_hi'',
      ''err_epc'', ''cp0_r31'']"

definition mips64_cp0_get_reg_index :: "string \<Rightarrow> int" where
  "mips64_cp0_get_reg_index name =
     (case find (\<lambda>i. mips64_cp0_reg_names ! i = name) [0..<32] of None \<Rightarrow> -1 | Some i \<Rightarrow> int i)"

definition mips64_cp0_get_mode :: "'z cpu_mips_scheme \<Rightarrow> u32" where
  "mips64_cp0_get_mode c = ucast (drop_bit 3 (cp0_reg c MIPS_CP0_STATUS)) AND 0x03"

definition mips64_cp0_check_kernel_mode :: "'z cpu_mips_scheme \<Rightarrow> bool \<times> 'z cpu_mips_scheme" where
  "mips64_cp0_check_kernel_mode c =
     (if mips64_cp0_get_mode c \<noteq> 0x00 then
        (True, mips64_trigger_exception MIPS_CP0_CAUSE_ILLOP False c)
      else (False, c))"

text \<open>\<open>None\<close>: the modulo by zero when \<open>Wired\<close> equals the number of TLB entries.\<close>

definition mips64_cp0_get_random_reg :: "'z cpu_mips_scheme \<Rightarrow> u32 option" where
  "mips64_cp0_get_random_reg c =
     (let wired = (ucast (cp0_reg c MIPS_CP0_WIRED) :: u32);
          n = tlb_entries c - wired
      in if n = 0 then None else Some (wired + (cp0_virt_cnt_reg c mod n)))"

definition mips64_cp0_get_reg_fast :: "nat \<Rightarrow> 'z cpu_mips_scheme \<Rightarrow> u64 option" where
  "mips64_cp0_get_reg_fast r c =
     (if r = MIPS_CP0_COUNT then
        (let delta = cp0_virt_cmp_reg c - cp0_virt_cnt_reg c;
             res = (ucast (cp0_reg c MIPS_CP0_COMPARE) :: u32);
             res = res - clock_divisor c * delta
         in Some (sign_extend (ucast res) 32))
      else if r = MIPS_CP0_COMPARE then Some (sign_extend (cp0_reg c MIPS_CP0_COMPARE) 32)
      else if r = MIPS_CP0_INFO then Some 0x20000000
      else if r = MIPS_CP0_RANDOM then map_option ucast (mips64_cp0_get_random_reg c)
      else Some (cp0_reg c r))"

definition mips64_cp0_get_reg :: "nat \<Rightarrow> 'z cpu_mips_scheme \<Rightarrow> u64 option" where
  "mips64_cp0_get_reg r c = mips64_cp0_get_reg_fast r c"

text \<open>The counter reload shared by the writes of Count and Compare.\<close>

definition reload_virt_counter ::
    "u32 \<Rightarrow> 'z cpu_mips_scheme \<Rightarrow> (unit, 'z cpu_mips_scheme) outcome" where
  "reload_virt_counter delta c =
     (let c = c\<lparr>cp0_virt_cnt_reg := 0\<rparr> in
      if clock_divisor c = 0 then HostFault
      else Ok () (c\<lparr>cp0_virt_cmp_reg := delta div clock_divisor c\<rparr>))"

definition mips64_cp0_set_reg ::
    "nat \<Rightarrow> u64 \<Rightarrow> 'z cpu_mips_scheme \<Rightarrow> (unit, 'z cpu_mips_scheme) outcome" where
  "mips64_cp0_set_reg r val c =
     (if r = MIPS_CP0_STATUS \<or> r = MIPS_CP0_CAUSE then
        Ok () (mips64_update_irq_flag (set_cp0 r val c))
      else if r = MIPS_CP0_PAGEMASK then Ok () (set_cp0 r (val AND MIPS_TLB_PAGE_MASK) c)
      else if r = MIPS_CP0_COMPARE then
        (let c = mips64_clear_irq 7 c;
             c = mips64_update_irq_flag c;
             c = set_cp0 r val c
         in reload_virt_counter (ucast (val - cp0_reg c MIPS_CP0_COUNT)) c)
      else if r = MIPS_CP0_COUNT then
        (let c = set_cp0 r val c
         in reload_virt_counter (ucast (cp0_reg c MIPS_CP0_COMPARE - val)) c)
      else if r = MIPS_CP0_TLB_HI then Ok () (set_cp0 r (val AND MIPS_CP0_HI_SAFE_MASK) c)
      else if r = MIPS_CP0_TLB_LO_0 \<or> r = MIPS_CP0_TLB_LO_1 then
        Ok () (set_cp0 r (val AND MIPS_CP0_LO_SAFE_MASK) c)
      else if r = MIPS_CP0_RANDOM \<or> r = MIPS_CP0_PRID \<or> r = MIPS_CP0_CONFIG then Ok () c
      else if r = MIPS_CP0_WIRED then Ok () (set_cp0 r (val AND MIPS64_TLB_IDX_MASK) c)
      else Ok () (set_cp0 r val c))"

text \<open>R7000 set 1: \<open>0x7F << 25\<close> is a negative \<open>int\<close>, sign-extended to 64 bits.\<close>

definition mips64_cp0_s1_get_reg :: "nat \<Rightarrow> 'z cpu_mips_scheme \<Rightarrow> u64" where
  "mips64_cp0_s1_get_reg r c =
     (if r = 16 then 0xfffffffffe000000
      else if r = 18 then ucast (ipl_lo c)
      else if r = 19 then ucast (ipl_hi c)
      else if r = 20 then ucast (int_ctl c)
      else if r = 26 then ucast (derraddr0 c)
      else if r = 27 then ucast (derraddr1 c)
      else 0)"

definition mips64_cp0_s1_set_reg :: "nat \<Rightarrow> u64 \<Rightarrow> 'z cpu_mips_scheme \<Rightarrow> 'z cpu_mips_scheme" where
  "mips64_cp0_s1_set_reg r val c =
     (if r = 18 then c\<lparr>ipl_lo := ucast val\<rparr>
      else if r = 19 then c\<lparr>ipl_hi := ucast val\<rparr>
      else if r = 20 then c\<lparr>int_ctl := ucast val\<rparr>
      else if r = 26 then c\<lparr>derraddr0 := ucast val\<rparr>
      else if r = 27 then c\<lparr>derraddr1 := ucast val\<rparr>
      else c)"

definition mips64_cp0_exec_dmfc0 ::
    "nat \<Rightarrow> nat \<Rightarrow> 'z cpu_mips_scheme \<Rightarrow> (unit, 'z cpu_mips_scheme) outcome" where
  "mips64_cp0_exec_dmfc0 gp_reg r c =
     (case mips64_cp0_get_reg_fast r c of None \<Rightarrow> HostFault | Some v \<Rightarrow> Ok () (set_gpr gp_reg v c))"

definition mips64_cp0_exec_dmtc0 ::
    "nat \<Rightarrow> nat \<Rightarrow> 'z cpu_mips_scheme \<Rightarrow> (unit, 'z cpu_mips_scheme) outcome" where
  "mips64_cp0_exec_dmtc0 gp_reg r c = mips64_cp0_set_reg r (gpr c gp_reg) c"

definition mips64_cp0_exec_mfc0 ::
    "nat \<Rightarrow> nat \<Rightarrow> 'z cpu_mips_scheme \<Rightarrow> (unit, 'z cpu_mips_scheme) outcome" where
  "mips64_cp0_exec_mfc0 gp_reg r c =
     (case mips64_cp0_get_reg_fast r c of None \<Rightarrow> HostFault
      | Some v \<Rightarrow> Ok () (set_gpr gp_reg (sign_extend v 32) c))"

definition mips64_cp0_exec_mtc0 ::
    "nat \<Rightarrow> nat \<Rightarrow> 'z cpu_mips_scheme \<Rightarrow> (unit, 'z cpu_mips_scheme) outcome" where
  "mips64_cp0_exec_mtc0 gp_reg r c = mips64_cp0_set_reg r (gpr c gp_reg AND 0xffffffff) c"

definition mips64_cp0_exec_cfc0 :: "nat \<Rightarrow> nat \<Rightarrow> 'z cpu_mips_scheme \<Rightarrow> 'z cpu_mips_scheme" where
  "mips64_cp0_exec_cfc0 gp_reg r c = set_gpr gp_reg (sign_extend (mips64_cp0_s1_get_reg r c) 32) c"

definition mips64_cp0_exec_ctc0 :: "nat \<Rightarrow> nat \<Rightarrow> 'z cpu_mips_scheme \<Rightarrow> 'z cpu_mips_scheme" where
  "mips64_cp0_exec_ctc0 gp_reg r c = mips64_cp0_s1_set_reg r (gpr c gp_reg AND 0xffffffff) c"

section \<open>The TLB\<close>

definition get_page_size :: "u32 \<Rightarrow> u32" where
  "get_page_size page_mask = drop_bit 1 (page_mask + 0x2000)"

definition mips64_cp0_get_vpn2_mask :: "'z cpu_mips_scheme \<Rightarrow> u64" where
  "mips64_cp0_get_vpn2_mask c =
     (if addr_mode c = 64 then MIPS_TLB_VPN2_MASK_64 else MIPS_TLB_VPN2_MASK_32)"

text \<open>The match of one TLB entry: virtual page (the entry's own mask applied) and ASID or G bit.\<close>

definition tlb_entry_matches :: "u64 \<Rightarrow> u64 \<Rightarrow> u64 \<Rightarrow> tlb_entry \<Rightarrow> bool" where
  "tlb_entry_matches vpn2_mask vpn_addr asid entry =
     (let page_mask = NOT (te_mask entry + 0x1FFF);
          hi_addr = te_hi entry AND vpn2_mask
      in vpn_addr AND page_mask = hi_addr \<and>
         (te_hi entry AND MIPS_TLB_G_MASK \<noteq> 0 \<or> te_hi entry AND MIPS_TLB_ASID_MASK = asid))"

text \<open>The translation through one half (even or odd page) of a matching entry.\<close>

definition tlb_map_half :: "u64 \<Rightarrow> u64 \<Rightarrow> u32 \<Rightarrow> u64 \<Rightarrow> nat \<Rightarrow> mts_map option" where
  "tlb_map_half vaddr bus_mask page_size lo i =
     (if lo AND MIPS_TLB_V_MASK \<noteq> 0 then
        (let va = vaddr AND MIPS_MIN_PAGE_MASK;
             pa = push_bit 6 (lo AND MIPS_TLB_PFN_MASK);
             pa = pa + (va AND ucast (page_size - 1));
             pa = pa AND bus_mask;
             pca = (ucast (lo AND MIPS_TLB_C_MASK) :: u32);
             pca = drop_bit 3 pca
         in Some \<lparr>map_vaddr = va, map_paddr = pa, map_cached = mips64_cca_cached pca,
                  map_tlb_index = of_nat i, map_offset = ucast (vaddr AND MIPS_MIN_PAGE_IMASK)\<rparr>)
      else None)"

definition mips64_cp0_tlb_lookup :: "u64 \<Rightarrow> 'z cpu_mips_scheme \<Rightarrow> mts_map option" where
  "mips64_cp0_tlb_lookup vaddr c =
     (let vpn2_mask = mips64_cp0_get_vpn2_mask c;
          vpn_addr = vaddr AND vpn2_mask;
          asid = cp0_reg c MIPS_CP0_TLB_HI AND MIPS_TLB_ASID_MASK
      in case find (\<lambda>i. tlb_entry_matches vpn2_mask vpn_addr asid (cp0_tlb c i))
                [0..<unat (tlb_entries c)] of
           None \<Rightarrow> None
         | Some i \<Rightarrow>
             (let entry = cp0_tlb c i;
                  page_size = get_page_size (ucast (te_mask entry))
              in if vaddr AND ucast page_size = 0
                 then tlb_map_half vaddr (addr_bus_mask c) page_size (te_lo0 entry) i
                 else tlb_map_half vaddr (addr_bus_mask c) page_size (te_lo1 entry) i))"

text \<open>The MTS hooks as \<open>mips_mts.c\<close> defines them: mapping does nothing (the cache is filled on
  demand), unmapping invalidates the whole cache.\<close>

definition mts_api_map :: "'z cpu_mips_scheme \<Rightarrow> 'z cpu_mips_scheme" where
  "mts_api_map c = c"

definition mts_api_unmap :: "'z cpu_mips_scheme \<Rightarrow> 'z cpu_mips_scheme" where
  "mts_api_unmap c = mts_invalidate_cache c"

definition mips64_cp0_map_tlb_to_mts :: "nat \<Rightarrow> 'z cpu_mips_scheme \<Rightarrow> 'z cpu_mips_scheme" where
  "mips64_cp0_map_tlb_to_mts index c =
     (let c = (if te_lo0 (cp0_tlb c index) AND MIPS_TLB_V_MASK \<noteq> 0 then mts_api_map c else c)
      in if te_lo1 (cp0_tlb c index) AND MIPS_TLB_V_MASK \<noteq> 0 then mts_api_map c else c)"

definition mips64_cp0_unmap_tlb_to_mts :: "nat \<Rightarrow> 'z cpu_mips_scheme \<Rightarrow> 'z cpu_mips_scheme" where
  "mips64_cp0_unmap_tlb_to_mts index c =
     (let c = (if te_lo0 (cp0_tlb c index) AND MIPS_TLB_V_MASK \<noteq> 0 then mts_api_unmap c else c)
      in if te_lo1 (cp0_tlb c index) AND MIPS_TLB_V_MASK \<noteq> 0 then mts_api_unmap c else c)"

definition mips64_cp0_map_all_tlb_to_mts :: "'z cpu_mips_scheme \<Rightarrow> 'z cpu_mips_scheme" where
  "mips64_cp0_map_all_tlb_to_mts c =
     fold mips64_cp0_map_tlb_to_mts [0..<unat (tlb_entries c)] c"

text \<open>TLBP scans the whole TLB: the last matching entry is reported.\<close>

definition mips64_cp0_exec_tlbp :: "'z cpu_mips_scheme \<Rightarrow> 'z cpu_mips_scheme" where
  "mips64_cp0_exec_tlbp c =
     (let vpn2_mask = mips64_cp0_get_vpn2_mask c;
          hi_reg = cp0_reg c MIPS_CP0_TLB_HI;
          asid = hi_reg AND MIPS_TLB_ASID_MASK;
          vpn2 = hi_reg AND vpn2_mask;
          c = set_cp0 MIPS_CP0_INDEX 0xffffffff80000000 c
      in fold (\<lambda>i c.
           (let entry = cp0_tlb c i in
            if te_hi entry AND vpn2_mask = vpn2 \<and>
               (te_hi entry AND MIPS_TLB_G_MASK \<noteq> 0 \<or> te_hi entry AND MIPS_TLB_ASID_MASK = asid)
            then set_cp0 MIPS_CP0_INDEX (of_nat i) c else c))
         [0..<unat (tlb_entries c)] c)"

definition mips64_cp0_exec_tlbr :: "'z cpu_mips_scheme \<Rightarrow> 'z cpu_mips_scheme" where
  "mips64_cp0_exec_tlbr c =
     (let index = (ucast (cp0_reg c MIPS_CP0_INDEX) :: u32) in
      if index < tlb_entries c then
        (let entry = cp0_tlb c (unat index);
             c = set_cp0 MIPS_CP0_PAGEMASK (te_mask entry) c;
             c = set_cp0 MIPS_CP0_TLB_HI (te_hi entry) c;
             c = set_cp0 MIPS_CP0_TLB_LO_0 (te_lo0 entry) c;
             c = set_cp0 MIPS_CP0_TLB_LO_1 (te_lo1 entry) c
         in if te_hi entry AND MIPS_TLB_G_MASK \<noteq> 0 then
              (let c = set_cp0 MIPS_CP0_TLB_LO_0 (cp0_reg c MIPS_CP0_TLB_LO_0 OR MIPS_CP0_LO_G_MASK) c;
                   c = set_cp0 MIPS_CP0_TLB_LO_1 (cp0_reg c MIPS_CP0_TLB_LO_1 OR MIPS_CP0_LO_G_MASK) c
               in set_cp0 MIPS_CP0_TLB_HI (cp0_reg c MIPS_CP0_TLB_HI AND NOT MIPS_TLB_G_MASK) c)
            else c)
      else c)"

text \<open>The entry TLBW builds from the PageMask, EntryHi, EntryLo0 and EntryLo1 registers.\<close>

definition tlbw_entry :: "'z cpu_mips_scheme \<Rightarrow> tlb_entry" where
  "tlbw_entry c =
     (let m = cp0_reg c MIPS_CP0_PAGEMASK AND MIPS_TLB_PAGE_MASK;
          hi = cp0_reg c MIPS_CP0_TLB_HI AND NOT m;
          hi = hi AND MIPS_CP0_HI_SAFE_MASK;
          lo0 = cp0_reg c MIPS_CP0_TLB_LO_0;
          lo1 = cp0_reg c MIPS_CP0_TLB_LO_1;
          hi = (if (lo0 AND lo1) AND MIPS_CP0_LO_G_MASK \<noteq> 0 then hi OR MIPS_TLB_G_MASK else hi);
          lo0 = lo0 AND NOT MIPS_CP0_LO_G_MASK;
          lo1 = lo1 AND NOT MIPS_CP0_LO_G_MASK
      in \<lparr>te_mask = m, te_hi = hi, te_lo0 = lo0, te_lo1 = lo1\<rparr>)"

definition mips64_cp0_exec_tlbw :: "u32 \<Rightarrow> 'z cpu_mips_scheme \<Rightarrow> 'z cpu_mips_scheme" where
  "mips64_cp0_exec_tlbw index c =
     (if index < tlb_entries c then
        (let c = mips64_cp0_unmap_tlb_to_mts (unat index) c;
             c = c\<lparr>cp0_tlb := (cp0_tlb c)(unat index := tlbw_entry c)\<rparr>
         in mips64_cp0_map_tlb_to_mts (unat index) c)
      else c)"

definition mips64_cp0_exec_tlbwi :: "'z cpu_mips_scheme \<Rightarrow> 'z cpu_mips_scheme" where
  "mips64_cp0_exec_tlbwi c = mips64_cp0_exec_tlbw (ucast (cp0_reg c MIPS_CP0_INDEX)) c"

definition mips64_cp0_exec_tlbwr ::
    "'z cpu_mips_scheme \<Rightarrow> (unit, 'z cpu_mips_scheme) outcome" where
  "mips64_cp0_exec_tlbwr c =
     (case mips64_cp0_get_random_reg c of None \<Rightarrow> HostFault
      | Some r \<Rightarrow> Ok () (mips64_cp0_exec_tlbw r c))"

section \<open>Counter and random register\<close>

lemma ucast_diff_32: "(ucast (a - b :: u64) :: u32) = ucast a - ucast b"
proof -
  have "word_of_int (x mod 18446744073709551616) = (word_of_int x :: u32)" for x :: int
    unfolding word_of_int_eq_iff take_bit_eq_mod by (simp add: mod_mod_cancel)
  then show ?thesis by (simp only: ucast_eq uint_word_ariths wi_hom_sub) (simp add: wi_hom_sub)
qed

lemma word_div_mult_mod: "d * (x div d) + x mod d = (x :: u32)"
  by (rule mult_div_mod_eq)

definition count_ticks :: "nat \<Rightarrow> 'z cpu_mips_scheme \<Rightarrow> 'z cpu_mips_scheme" where
  "count_ticks k c = (mips64_exec_inc_cp0_cnt ^^ k) c"

lemma count_ticks_eq: "count_ticks k c = c\<lparr>cp0_virt_cnt_reg := cp0_virt_cnt_reg c + of_nat k\<rparr>"
  by (induction k) (simp_all add: count_ticks_def mips64_exec_inc_cp0_cnt_def ac_simps)

text \<open>C33: after a write of Count with a clock divisor \<open>d > 0\<close>, reading Count \<open>k\<close> instructions later
  gives the sign-extended value written plus \<open>d k\<close> plus the remainder that the division of the
  distance to Compare by \<open>d\<close> leaves: Count advances by exactly \<open>d\<close> per instruction and starts
  less than \<open>d\<close> above the value written.\<close>

theorem count_write_read:
  assumes "clock_divisor c \<noteq> 0"
  shows "\<exists>c'. mips64_cp0_set_reg MIPS_CP0_COUNT val c = Ok () c' \<and>
     mips64_cp0_get_reg MIPS_CP0_COUNT (count_ticks k c') =
       Some (sign_extend (ucast ((ucast val :: u32)
         + (ucast (cp0_reg c MIPS_CP0_COMPARE) - ucast val) mod clock_divisor c
         + clock_divisor c * of_nat k)) 32) \<and>
     (ucast (cp0_reg c MIPS_CP0_COMPARE) - (ucast val :: u32)) mod clock_divisor c < clock_divisor c"
proof -
  let ?d = "clock_divisor c" and ?cmp = "ucast (cp0_reg c 11) :: u32" and ?v = "ucast val :: u32"
  have eq: "?cmp - ?d * ((?cmp - ?v) div ?d - of_nat k) = ?v + (?cmp - ?v) mod ?d + ?d * of_nat k"
  proof -
    have "?d * ((?cmp - ?v) div ?d) + (?cmp - ?v) mod ?d = ?cmp - ?v" by (rule word_div_mult_mod)
    then show ?thesis by (simp add: algebra_simps)
  qed
  have "(?cmp - ?v) mod ?d < ?d"
    using assms by (simp add: word_less_nat_alt unat_mod unat_gt_0)
  then show ?thesis
    using assms eq
    by (simp add: mips64_cp0_set_reg_def reload_virt_counter_def mips64_cp0_get_reg_def
      mips64_cp0_get_reg_fast_def Let_def count_ticks_eq ucast_diff_32)
qed

theorem count_write_read_witness:
  "\<exists>c'. mips64_cp0_set_reg MIPS_CP0_COUNT 100
      ((undefined :: cpu_mips)\<lparr>cp0_reg := (\<lambda>_. 0)(11 := 1000), clock_divisor := 4\<rparr>) = Ok () c' \<and>
    mips64_cp0_get_reg MIPS_CP0_COUNT (count_ticks 5 c') = Some (sign_extend 120 32)"
  using count_write_read [of "(undefined :: cpu_mips)\<lparr>cp0_reg := (\<lambda>_. 0)(11 := 1000), clock_divisor := 4\<rparr>" 100 5]
  by (auto simp: sign_extend_ucast_32)

text \<open>the random register is defined exactly when Wired differs from the number of TLB entries,
  and when Wired is below it, it stays between Wired and the last entry, so TLBWR never replaces a
  wired entry.\<close>

theorem random_reg_bounds:
  "(mips64_cp0_get_random_reg c = None \<longleftrightarrow> (ucast (cp0_reg c MIPS_CP0_WIRED) :: u32) = tlb_entries c) \<and>
   ((ucast (cp0_reg c MIPS_CP0_WIRED) :: u32) < tlb_entries c \<longrightarrow>
      (\<exists>r. mips64_cp0_get_random_reg c = Some r \<and>
           ucast (cp0_reg c MIPS_CP0_WIRED) \<le> r \<and> r < tlb_entries c))"
proof -
  let ?w = "ucast (cp0_reg c 6) :: u32" and ?n = "tlb_entries c" and ?x = "cp0_virt_cnt_reg c"
  have none: "mips64_cp0_get_random_reg c = None \<longleftrightarrow> ?w = ?n"
    by (auto simp: mips64_cp0_get_random_reg_def Let_def)
  have "?w \<le> ?w + ?x mod (?n - ?w) \<and> ?w + ?x mod (?n - ?w) < ?n" if "?w < ?n"
  proof -
    from that have "unat (?n - ?w) = unat ?n - unat ?w" by (simp add: unat_sub order_less_imp_le)
    moreover from that have lt: "unat ?w < unat ?n" by (simp add: word_less_nat_alt)
    ultimately have m: "unat (?x mod (?n - ?w)) < unat ?n - unat ?w"
      by (simp add: unat_mod)
    moreover have "unat ?n < 2 ^ 32" using unat_u32_less [of ?n] by simp
    ultimately have "unat (?w + ?x mod (?n - ?w)) = unat ?w + unat (?x mod (?n - ?w))"
      by (intro unat_add_lem [THEN iffD1]) simp
    then show ?thesis using m lt by (simp add: word_less_nat_alt word_le_nat_alt)
  qed
  with none show ?thesis by (auto simp: mips64_cp0_get_random_reg_def Let_def)
qed

theorem random_reg_bounds_witness:
  "mips64_cp0_get_random_reg ((undefined :: cpu_mips)\<lparr>cp0_reg := (\<lambda>_. 8), tlb_entries := 48,
      cp0_virt_cnt_reg := 1000\<rparr>) \<noteq> None"
  using random_reg_bounds [of "(undefined :: cpu_mips)\<lparr>cp0_reg := (\<lambda>_. 8), tlb_entries := 48,
      cp0_virt_cnt_reg := 1000\<rparr>"] by simp

section \<open>The TLB\<close>

lemma unmap_tlb_frame [simp, frame_simps]:
  "cp0_reg (mips64_cp0_unmap_tlb_to_mts i c) = cp0_reg c"
  "cp0_tlb (mips64_cp0_unmap_tlb_to_mts i c) = cp0_tlb c"
  "tlb_entries (mips64_cp0_unmap_tlb_to_mts i c) = tlb_entries c"
  "addr_mode (mips64_cp0_unmap_tlb_to_mts i c) = addr_mode c"
  "addr_bus_mask (mips64_cp0_unmap_tlb_to_mts i c) = addr_bus_mask c"
  by (simp_all add: mips64_cp0_unmap_tlb_to_mts_def mts_api_unmap_def mts_invalidate_cache_def Let_def)

lemma map_tlb_id [simp]: "mips64_cp0_map_tlb_to_mts i c = c"
  by (simp add: mips64_cp0_map_tlb_to_mts_def mts_api_map_def)

lemma tlbw_entry_cong:
  "cp0_reg c' = cp0_reg c \<Longrightarrow> tlbw_entry c' = tlbw_entry c"
  by (simp add: tlbw_entry_def)

lemma tlbw_frame [simp, frame_simps]:
  "cp0_reg (mips64_cp0_exec_tlbw i c) = cp0_reg c"
  "tlb_entries (mips64_cp0_exec_tlbw i c) = tlb_entries c"
  "addr_mode (mips64_cp0_exec_tlbw i c) = addr_mode c"
  "addr_bus_mask (mips64_cp0_exec_tlbw i c) = addr_bus_mask c"
  by (simp_all add: mips64_cp0_exec_tlbw_def Let_def)

lemma tlbw_tlb:
  "cp0_tlb (mips64_cp0_exec_tlbw i c) =
     (if i < tlb_entries c then (cp0_tlb c)(unat i := tlbw_entry c) else cp0_tlb c)"
  by (simp add: mips64_cp0_exec_tlbw_def Let_def tlbw_entry_cong [of "mips64_cp0_unmap_tlb_to_mts (unat i) c" c])

lemma or_and_not_clear:
  assumes "x AND g = (0 :: u64)"
  shows "(x OR g) AND NOT g = x" and "x AND NOT g = x"
proof -
  have d: "\<not> (bit x n \<and> bit g n)" for n
  proof -
    from assms have "bit (x AND g) n = bit (0 :: u64) n" by simp
    then show ?thesis by (simp add: bit_and_iff)
  qed
  show "(x OR g) AND NOT g = x"
    by (rule bit_word_eqI) (use d in \<open>auto simp: bit_and_iff bit_or_iff bit_not_iff\<close>)
  show "x AND NOT g = x"
    by (rule bit_word_eqI) (use d in \<open>auto simp: bit_and_iff bit_not_iff\<close>)
qed

text \<open>The entry TLBW writes, field by field.\<close>

abbreviation tlb_global :: "'z cpu_mips_scheme \<Rightarrow> bool" where
  "tlb_global c \<equiv> bit (cp0_reg c MIPS_CP0_TLB_LO_0) 0 \<and> bit (cp0_reg c MIPS_CP0_TLB_LO_1) 0"

lemma and_one_zero: "x AND 1 = 0 \<longleftrightarrow> \<not> bit (x :: u64) 0"
  using and_pow2_zero [of x 0] by simp

lemma and_and_one_zero: "x AND y AND 1 = 0 \<longleftrightarrow> \<not> (bit (x :: u64) 0 \<and> bit y 0)"
  using and_one_zero [of "x AND y"] by (simp add: bit_and_iff and.assoc)

lemma bit_1000: "bit (0x1000 :: u64) n \<longleftrightarrow> n = 12"
  using bit_push_bit_iff [of 12 "1 :: u64" n] by (auto simp: bit_1_iff)

lemma bit_FFFFE0FF: "bit (0xffffe0ff :: u64) n \<longleftrightarrow> n < 8 \<or> (13 \<le> n \<and> n < 32)"
proof -
  have "(0xffffe0ff :: u64) = push_bit 13 (mask 19) OR mask 8"
    by (simp add: mask_eq_exp_minus_1 push_bit_eq_mult)
  then show ?thesis by (simp only: bit_or_iff bit_push_bit_iff bit_mask_iff) auto
qed

lemma tlbw_entry_fields:
  "te_mask (tlbw_entry c) = cp0_reg c 5 AND 0x01ffe000"
  "te_hi (tlbw_entry c) =
     (cp0_reg c 10 AND NOT (cp0_reg c 5 AND 0x01ffe000) AND 0xffffe0ff) OR (if tlb_global c then 0x1000 else 0)"
  "te_lo0 (tlbw_entry c) = cp0_reg c 2 AND NOT 1"
  "te_lo1 (tlbw_entry c) = cp0_reg c 3 AND NOT 1"
  by (simp_all add: tlbw_entry_def Let_def and_and_one_zero bit_and_iff and.assoc)

lemma tlbw_entry_global [simp]:
  "bit (te_hi (tlbw_entry c)) 12 \<longleftrightarrow> tlb_global c"
  by (simp add: tlbw_entry_fields(2) bit_or_iff bit_and_iff bit_1000 bit_FFFFE0FF)

lemma tlbr_regs:
  assumes "ucast (cp0_reg c 0) < tlb_entries c" and "e = cp0_tlb c (unat (ucast (cp0_reg c 0) :: u32))"
  shows "cp0_reg (mips64_cp0_exec_tlbr c) 5 = te_mask e"
    and "cp0_reg (mips64_cp0_exec_tlbr c) 10 =
           (if bit (te_hi e) 12 then te_hi e AND NOT MIPS_TLB_G_MASK else te_hi e)"
    and "cp0_reg (mips64_cp0_exec_tlbr c) 2 = te_lo0 e OR of_bool (bit (te_hi e) 12)"
    and "cp0_reg (mips64_cp0_exec_tlbr c) 3 = te_lo1 e OR of_bool (bit (te_hi e) 12)"
  using assms by (simp_all add: mips64_cp0_exec_tlbr_def Let_def)

text \<open>TLBWI followed by TLBR gives back what the registers held, within the bits the TLB
  stores: PageMask within the mask field, EntryHi without the masked address bits and the
  reserved bits, and EntryLo0 and EntryLo1 with the G bit of both set only if it was set in
  both.\<close>

theorem tlbwi_tlbr_roundtrip:
  assumes "ucast (cp0_reg c MIPS_CP0_INDEX) < tlb_entries c"
  shows "cp0_reg (mips64_cp0_exec_tlbr (mips64_cp0_exec_tlbwi c)) MIPS_CP0_PAGEMASK
           = cp0_reg c MIPS_CP0_PAGEMASK AND MIPS_TLB_PAGE_MASK \<and>
         cp0_reg (mips64_cp0_exec_tlbr (mips64_cp0_exec_tlbwi c)) MIPS_CP0_TLB_HI
           = cp0_reg c MIPS_CP0_TLB_HI AND NOT (cp0_reg c MIPS_CP0_PAGEMASK AND MIPS_TLB_PAGE_MASK)
               AND MIPS_CP0_HI_SAFE_MASK \<and>
         cp0_reg (mips64_cp0_exec_tlbr (mips64_cp0_exec_tlbwi c)) MIPS_CP0_TLB_LO_0
           = (cp0_reg c MIPS_CP0_TLB_LO_0 AND NOT 1) OR of_bool (tlb_global c) \<and>
         cp0_reg (mips64_cp0_exec_tlbr (mips64_cp0_exec_tlbwi c)) MIPS_CP0_TLB_LO_1
           = (cp0_reg c MIPS_CP0_TLB_LO_1 AND NOT 1) OR of_bool (tlb_global c)"
proof -
  let ?e = "tlbw_entry c"
  let ?hi = "cp0_reg c 10 AND NOT (cp0_reg c 5 AND 0x01ffe000) AND 0xffffe0ff"
  have clear: "te_hi ?e AND NOT 0x1000 = ?hi"
  proof (cases "tlb_global c")
    case True
    then have "te_hi ?e = ?hi OR 0x1000" by (simp only: tlbw_entry_fields(2)) simp
    moreover have "?hi AND 0x1000 = 0" by (simp add: and.assoc)
    ultimately show ?thesis by (metis or_and_not_clear(1))
  next
    case False
    then have "te_hi ?e = ?hi" by (simp only: tlbw_entry_fields(2)) simp
    moreover have "?hi AND 0x1000 = 0" by (simp add: and.assoc)
    ultimately show ?thesis by (metis or_and_not_clear(2))
  qed
  have keep: "te_hi ?e = ?hi" if "\<not> tlb_global c"
    using that by (auto simp: tlbw_entry_fields(2))
  let ?c = "mips64_cp0_exec_tlbwi c"
  have i: "ucast (cp0_reg ?c 0) < tlb_entries ?c"
    and e: "?e = cp0_tlb ?c (unat (ucast (cp0_reg ?c 0) :: u32))"
    using assms by (simp_all add: mips64_cp0_exec_tlbwi_def tlbw_tlb)
  have "cp0_reg (mips64_cp0_exec_tlbr ?c) 10 = ?hi"
    unfolding tlbr_regs(2) [OF i e] tlbw_entry_global using clear keep
    by (cases "tlb_global c") (simp_all only: if_True if_False simp_thms)
  then show ?thesis
    unfolding tlbr_regs(1,3,4) [OF i e] tlbw_entry_global
    by (simp only: tlbw_entry_fields(1,3,4) simp_thms)
qed

theorem tlbwi_tlbr_roundtrip_witness:
  "cp0_reg (mips64_cp0_exec_tlbr (mips64_cp0_exec_tlbwi
     ((undefined :: cpu_mips)\<lparr>cp0_reg := (\<lambda>_. 0)(10 := 0x12345042, 2 := 0x17, 3 := 0x56), tlb_entries := 48\<rparr>)))
     MIPS_CP0_TLB_HI = 0x12344042"
  using tlbwi_tlbr_roundtrip [of "(undefined :: cpu_mips)\<lparr>cp0_reg := (\<lambda>_. 0)(10 := 0x12345042, 2 := 0x17, 3 := 0x56), tlb_entries := 48\<rparr>"]
  by simp

text \<open>The match TLBP uses: EntryHi against the entry, address field and ASID or G.\<close>

abbreviation tlbp_match :: "'z cpu_mips_scheme \<Rightarrow> nat \<Rightarrow> bool" where
  "tlbp_match c i \<equiv>
     te_hi (cp0_tlb c i) AND mips64_cp0_get_vpn2_mask c = cp0_reg c MIPS_CP0_TLB_HI AND mips64_cp0_get_vpn2_mask c \<and>
     (te_hi (cp0_tlb c i) AND MIPS_TLB_G_MASK \<noteq> 0 \<or>
      te_hi (cp0_tlb c i) AND MIPS_TLB_ASID_MASK = cp0_reg c MIPS_CP0_TLB_HI AND MIPS_TLB_ASID_MASK)"

lemma tlbp_fold:
  fixes c :: "'z cpu_mips_scheme"
  assumes "f = (\<lambda>i c. if P i (cp0_tlb c) then set_cp0 0 (of_nat i) c else c)"
  shows "fold f is c
     = (case find (\<lambda>i. P i (cp0_tlb c)) (rev is) of None \<Rightarrow> c | Some i \<Rightarrow> set_cp0 0 (of_nat i) c)"
proof (induction "is" rule: rev_induct)
  case (snoc i "is")
  have t: "cp0_tlb (case x of None \<Rightarrow> c | Some i \<Rightarrow> set_cp0 0 (of_nat i) c) = cp0_tlb c" for x
    by (cases x) simp_all
  have "fold f (is @ [i]) c = f i (fold f is c)" by simp
  also have "\<dots> = (if P i (cp0_tlb c) then set_cp0 0 (of_nat i) (fold f is c) else fold f is c)"
    unfolding snoc.IH by (simp add: assms t)
  also have "set_cp0 0 (of_nat i) (fold f is c) = set_cp0 0 (of_nat i) c"
    unfolding snoc.IH by (simp split: option.split)
  finally show ?case by (simp add: snoc.IH)
qed simp

lemma exec_tlbp_eq:
  "mips64_cp0_exec_tlbp c = set_cp0 0
     (case find (tlbp_match c) (rev [0..<unat (tlb_entries c)]) of
        None \<Rightarrow> 0xffffffff80000000 | Some i \<Rightarrow> of_nat i) c"
proof -
  let ?m = "mips64_cp0_get_vpn2_mask c" and ?c = "set_cp0 0 0xffffffff80000000 c"
  let ?P = "\<lambda>i tlb. te_hi (tlb i) AND ?m = cp0_reg c 10 AND ?m \<and>
     (te_hi (tlb i) AND 0x1000 \<noteq> 0 \<or> te_hi (tlb i) AND 0xff = cp0_reg c 10 AND 0xff)"
  show ?thesis
    using tlbp_fold [OF refl, of ?P "[0..<unat (tlb_entries c)]" ?c]
    by (simp add: mips64_cp0_exec_tlbp_def Let_def split: option.split)
qed

text \<open>TLBP leaves 0xffffffff80000000 in Index exactly when no entry matches EntryHi; otherwise
  Index is the last entry that matches, and only Index changes.\<close>

theorem tlbp_reports_last_match:
  "(\<exists>v. mips64_cp0_exec_tlbp c = set_cp0 MIPS_CP0_INDEX v c) \<and>
   ((\<forall>i < unat (tlb_entries c). \<not> tlbp_match c i) \<longrightarrow>
      cp0_reg (mips64_cp0_exec_tlbp c) MIPS_CP0_INDEX = 0xffffffff80000000) \<and>
   (\<forall>i < unat (tlb_entries c). tlbp_match c i \<and> (\<forall>j. i < j \<and> j < unat (tlb_entries c) \<longrightarrow> \<not> tlbp_match c j) \<longrightarrow>
      cp0_reg (mips64_cp0_exec_tlbp c) MIPS_CP0_INDEX = of_nat i)"
proof -
  let ?n = "unat (tlb_entries c)"
  have none: "find (tlbp_match c) (rev [0..<?n]) = None" if "\<forall>i < ?n. \<not> tlbp_match c i"
    using that by (auto simp: find_None_iff)
  have some: "find (tlbp_match c) (rev [0..<?n]) = Some i"
    if "i < ?n" "tlbp_match c i" "\<forall>j. i < j \<and> j < ?n \<longrightarrow> \<not> tlbp_match c j" for i
    unfolding find_Some_iff
    using that by (intro exI [of _ "?n - Suc i"]) (auto simp: rev_nth)
  show ?thesis
    unfolding exec_tlbp_eq using none some by auto
qed

theorem tlbp_reports_last_match_witness:
  "cp0_reg (mips64_cp0_exec_tlbp ((undefined :: cpu_mips)\<lparr>cp0_reg := (\<lambda>_. 0)(10 := 0x4000), addr_mode := 32,
      tlb_entries := 3,
      cp0_tlb := (\<lambda>_. \<lparr>te_mask = 0, te_hi = 0x8000, te_lo0 = 0, te_lo1 = 0\<rparr>)
        (1 := \<lparr>te_mask = 0, te_hi = 0x4000, te_lo0 = 0, te_lo1 = 0\<rparr>)\<rparr>)) MIPS_CP0_INDEX = 1"
proof -
  let ?c = "(undefined :: cpu_mips)\<lparr>cp0_reg := (\<lambda>_. 0)(10 := 0x4000), addr_mode := 32,
      tlb_entries := 3,
      cp0_tlb := (\<lambda>_. \<lparr>te_mask = 0, te_hi = 0x8000, te_lo0 = 0, te_lo1 = 0\<rparr>)
        (1 := \<lparr>te_mask = 0, te_hi = 0x4000, te_lo0 = 0, te_lo1 = 0\<rparr>)\<rparr>"
  have "tlbp_match ?c 1" "\<forall>j. 1 < j \<and> j < unat (tlb_entries ?c) \<longrightarrow> \<not> tlbp_match ?c j"
    by (simp_all add: mips64_cp0_get_vpn2_mask_def)
  then have "cp0_reg (mips64_cp0_exec_tlbp ?c) 0 = of_nat 1"
    by (intro tlbp_reports_last_match [of ?c, THEN conjunct2, THEN conjunct2, rule_format]) simp_all
  then show ?thesis by simp
qed

lemma tlb_lookup_no_match:
  assumes "\<And>i. \<not> tlb_entry_matches (mips64_cp0_get_vpn2_mask c) (vaddr AND mips64_cp0_get_vpn2_mask c)
      (cp0_reg c MIPS_CP0_TLB_HI AND MIPS_TLB_ASID_MASK) (cp0_tlb c i)"
  shows "mips64_cp0_tlb_lookup vaddr c = None"
proof -
  have "find (\<lambda>i. tlb_entry_matches (mips64_cp0_get_vpn2_mask c) (vaddr AND mips64_cp0_get_vpn2_mask c)
      (cp0_reg c 10 AND 0xff) (cp0_tlb c i)) is = None" for "is"
    using assms by (simp add: find_None_iff)
  then show ?thesis by (simp add: mips64_cp0_tlb_lookup_def Let_def)
qed

lemma tlbw_entry_asid: "te_hi (tlbw_entry c) AND 0xff = cp0_reg c 10 AND 0xff"
proof (rule bit_word_eqI)
  fix n
  have "(0x01ffe000 :: u64) = push_bit 13 (mask 12)" "(0xff :: u64) = mask 8"
    by (simp_all add: mask_eq_exp_minus_1 push_bit_eq_mult)
  then have b: "bit (0x01ffe000 :: u64) n \<Longrightarrow> 13 \<le> n" "bit (0xff :: u64) n \<Longrightarrow> n < 8"
    by (simp_all only: bit_push_bit_iff bit_mask_iff)
  have "bit (if tlb_global c then 0x1000 else 0 :: u64) n \<Longrightarrow> n = 12"
    by (simp only: bit_1000 bit_0_eq bot_apply bot_bool_def split: if_split_asm)
  with b show "bit (te_hi (tlbw_entry c) AND 0xff) n = bit (cp0_reg c 10 AND 0xff) n"
    unfolding tlbw_entry_fields(2) bit_and_iff bit_or_iff bit_not_iff bit_FFFFE0FF
    by fastforce
qed

text \<open>after TLBWI, a lookup of an address that falls into the pair of pages just written, and
  that no entry of lower index matches, translates through that entry: the even or the odd page
  according to the address bit of the page size.\<close>

theorem tlbwi_then_lookup:
  assumes "ucast (cp0_reg c MIPS_CP0_INDEX) < tlb_entries c"
    and "\<forall>j < unat (ucast (cp0_reg c MIPS_CP0_INDEX) :: u32).
           \<not> tlb_entry_matches (mips64_cp0_get_vpn2_mask c) (vaddr AND mips64_cp0_get_vpn2_mask c)
               (cp0_reg c MIPS_CP0_TLB_HI AND MIPS_TLB_ASID_MASK) (cp0_tlb c j)"
    and "vaddr AND mips64_cp0_get_vpn2_mask c AND NOT ((cp0_reg c MIPS_CP0_PAGEMASK AND MIPS_TLB_PAGE_MASK) + 0x1FFF)
           = te_hi (tlbw_entry c) AND mips64_cp0_get_vpn2_mask c"
  shows "mips64_cp0_tlb_lookup vaddr (mips64_cp0_exec_tlbwi c) =
     (let ps = get_page_size (ucast (cp0_reg c MIPS_CP0_PAGEMASK AND MIPS_TLB_PAGE_MASK));
          lo = (if vaddr AND ucast ps = 0 then cp0_reg c MIPS_CP0_TLB_LO_0 else cp0_reg c MIPS_CP0_TLB_LO_1)
      in tlb_map_half vaddr (addr_bus_mask c) ps (lo AND NOT MIPS_CP0_LO_G_MASK)
           (unat (ucast (cp0_reg c MIPS_CP0_INDEX) :: u32)))"
proof -
  let ?i = "unat (ucast (cp0_reg c 0) :: u32)" and ?c = "mips64_cp0_exec_tlbwi c"
  let ?vm = "mips64_cp0_get_vpn2_mask c"
  have vm: "mips64_cp0_get_vpn2_mask ?c = ?vm"
    by (simp add: mips64_cp0_get_vpn2_mask_def mips64_cp0_exec_tlbwi_def)
  have tlb: "cp0_tlb ?c = (cp0_tlb c)(?i := tlbw_entry c)"
    using assms(1) by (simp add: mips64_cp0_exec_tlbwi_def tlbw_tlb)
  have n: "?i < unat (tlb_entries ?c)"
    using assms(1) by (simp add: mips64_cp0_exec_tlbwi_def word_less_nat_alt)
  have m: "tlb_entry_matches ?vm (vaddr AND ?vm) (cp0_reg c 10 AND 0xff) (tlbw_entry c)"
    unfolding tlb_entry_matches_def Let_def tlbw_entry_asid tlbw_entry_fields(1)
    using assms(3) by (simp only: and.assoc simp_thms)
  have "find (\<lambda>i. tlb_entry_matches ?vm (vaddr AND ?vm) (cp0_reg c 10 AND 0xff) (cp0_tlb ?c i))
          [0..<unat (tlb_entries ?c)] = Some ?i"
    unfolding find_Some_iff using n m assms(2) by (intro exI [of _ ?i]) (auto simp: tlb)
  moreover have "cp0_reg ?c = cp0_reg c" "addr_bus_mask ?c = addr_bus_mask c"
    by (simp_all add: mips64_cp0_exec_tlbwi_def)
  ultimately show ?thesis
    unfolding mips64_cp0_tlb_lookup_def vm
    by (simp add: Let_def tlb tlbw_entry_fields(1,3,4))
qed

theorem tlbwi_then_lookup_witness:
  "mips64_cp0_tlb_lookup 0x5123 (mips64_cp0_exec_tlbwi
     ((undefined :: cpu_mips)\<lparr>cp0_reg := (\<lambda>_. 0)(10 := 0x4001, 2 := 0x17, 3 := 0x46), tlb_entries := 48,
        addr_mode := 32, addr_bus_mask := -1\<rparr>)) \<noteq> None"
proof -
  let ?c = "(undefined :: cpu_mips)\<lparr>cp0_reg := (\<lambda>_. 0)(10 := 0x4001, 2 := 0x17, 3 := 0x46), tlb_entries := 48,
        addr_mode := 32, addr_bus_mask := -1\<rparr>"
  have "0x5123 AND mips64_cp0_get_vpn2_mask ?c AND NOT ((cp0_reg ?c 5 AND 0x01ffe000) + 0x1FFF)
           = te_hi (tlbw_entry ?c) AND mips64_cp0_get_vpn2_mask ?c"
    by (simp add: mips64_cp0_get_vpn2_mask_def tlbw_entry_fields)
  with tlbwi_then_lookup [of ?c "0x5123"]
  show ?thesis by (simp add: get_page_size_def Let_def tlb_map_half_def)
qed

lemma page_offset_split:
  assumes "12 \<le> k" "k \<le> 32"
  shows "(vaddr AND 0xfffffffffffff000 AND ucast (push_bit k 1 - 1 :: u32)) + (vaddr AND 0xfff)
     = (take_bit k vaddr :: u64)"
proof -
  have m: "(ucast (push_bit k 1 - 1 :: u32) :: u64) = mask k"
    unfolding push_bit_one_minus_one
    by (rule bit_word_eqI) (use assms in \<open>auto simp: bit_simps\<close>)
  have "(vaddr AND NOT (mask 12) AND mask k) AND (vaddr AND mask 12) = 0"
    by (rule bit_word_eqI) (auto simp: bit_simps)
  then have "(vaddr AND NOT (mask 12) AND mask k) + (vaddr AND mask 12)
      = (vaddr AND NOT (mask 12) AND mask k) OR (vaddr AND mask 12)"
    by (rule disjunctive_add_eq_or)
  also have "\<dots> = take_bit k vaddr"
    by (rule bit_word_eqI) (use assms in \<open>auto simp: bit_simps\<close>)
  finally show ?thesis unfolding m page_mask_is_not_mask .
qed

text \<open>C16: with the full address bus, translating through a valid page of size \<open>2^k\<close> (4 KB to 16 MB)
  replaces the page number and keeps the offset in the page: the physical page address plus the
  4 KB offset is the page frame address plus the low \<open>k\<close> bits of the virtual address.\<close>

theorem tlb_translation_keeps_offset:
  assumes "bit lo 1" and "12 \<le> k" and "k \<le> 24" and "addr_bus_mask c = -1"
  shows "\<exists>m. tlb_map_half vaddr (addr_bus_mask c) (get_page_size (push_bit (k + 1) 1 - 0x2000)) lo i = Some m \<and>
     map_paddr m + ucast (map_offset m) = push_bit 6 (lo AND MIPS_TLB_PFN_MASK) + take_bit k vaddr \<and>
     map_vaddr m = vaddr AND MIPS_MIN_PAGE_MASK"
proof -
  have ps: "get_page_size (push_bit (k + 1) 1 - 0x2000) = push_bit k 1"
  proof -
    have "drop_bit 1 (push_bit (k + 1) (1 :: u32)) = push_bit k 1"
      by (rule bit_word_eqI) (use assms in \<open>auto simp: bit_simps\<close>)
    then show ?thesis by (simp add: get_page_size_def)
  qed
  have off: "ucast (ucast (vaddr AND 0xfff) :: u32) = vaddr AND 0xfff"
    unfolding page_mask_is_not_mask(2) by (rule bit_word_eqI) (auto simp: bit_simps)
  show ?thesis
    using assms page_offset_split [of k vaddr]
    unfolding tlb_map_half_def Let_def ps by (simp add: off add.assoc and.assoc)
qed

theorem tlb_translation_keeps_offset_witness:
  "\<exists>m. tlb_map_half 0x5123 (addr_bus_mask ((undefined :: cpu_mips)\<lparr>addr_bus_mask := -1\<rparr>))
     (get_page_size (push_bit (12 + 1) 1 - 0x2000)) 2 0 = Some m \<and>
     map_paddr m + ucast (map_offset m) = push_bit 6 (2 AND MIPS_TLB_PFN_MASK) + take_bit 12 0x5123 \<and>
     map_vaddr m = 0x5123 AND MIPS_MIN_PAGE_MASK"
proof (rule tlb_translation_keeps_offset)
  show "bit (2 :: u64) 1" using bit_push_bit_iff [of 1 "1 :: u64" 1] by simp
qed simp_all

end
