(* ===== verification/Device.thy ===== *)
theory Device
  imports Prelude
begin

text \<open>
  Virtual devices and host memory: \<open>common/device.c\<close> with the device binding, the page allocator
  and the instance status of \<open>stable/vm.c\<close>.

  A \<open>struct vdevice\<close> is a record held at an address in \<open>vdevs\<close>, so that the device list and the
  device array of the instance share it as the C pointers do. The linked list is the list of the
  addresses in order and \<open>dev_bound\<close> is \<open>pprev != NULL\<close>. The page tables of sparse devices are
  arrays at an address too, since an alias of a device shares its table. Host memory maps host
  addresses to bytes; \<open>host_areas\<close> are the addresses the host allocator is going to return, 0
  for a failure. \<open>dev_state\<close> is the private state of the devices, on which the handlers act;
  the handlers themselves are arguments of the operations that call them. Files and mapped
  memory are not modelled.
\<close>

section \<open>State\<close>

type_synonym dev_ptr = nat

record vdevice =
  dev_name :: string
  dev_id :: u32
  phys_addr :: u64
  phys_len :: u32
  host_addr :: u64
  dev_flags :: u32
  dev_fd :: int
  dev_handler :: nat
  sparse_map :: u64
  dev_bound :: bool

record vm_chunk =
  chunk_area :: u64
  page_alloc :: nat
  page_total :: nat

record 'd vm_instance =
  vdevs :: "dev_ptr \<Rightarrow> vdevice"
  dev_list :: "dev_ptr list"
  dev_array :: "nat \<Rightarrow> dev_ptr option"
  sparse_maps :: "u64 \<Rightarrow> nat \<Rightarrow> u64"
  host_mem :: "u64 \<Rightarrow> u8"
  vm_chunks :: "vm_chunk list"
  host_areas :: "u64 list"
  vm_status :: u32
  dev_state :: 'd

abbreviation (input) VDEVICE_FLAG_NO_MTS_MMAP :: u32 where "VDEVICE_FLAG_NO_MTS_MMAP \<equiv> 0x01"
abbreviation (input) VDEVICE_FLAG_CACHING :: u32 where "VDEVICE_FLAG_CACHING \<equiv> 0x02"
abbreviation (input) VDEVICE_FLAG_REMAP :: u32 where "VDEVICE_FLAG_REMAP \<equiv> 0x04"
abbreviation (input) VDEVICE_FLAG_SPARSE :: u32 where "VDEVICE_FLAG_SPARSE \<equiv> 0x10"
abbreviation (input) VDEVICE_PTE_DIRTY :: u64 where "VDEVICE_PTE_DIRTY \<equiv> 0x01"
abbreviation (input) VM_DEVICE_MAX :: nat where "VM_DEVICE_MAX \<equiv> 64"
abbreviation (input) VM_PAGE_SHIFT :: nat where "VM_PAGE_SHIFT \<equiv> 12"
abbreviation (input) VM_PAGE_SIZE :: u32 where "VM_PAGE_SIZE \<equiv> 4096"
abbreviation (input) VM_PAGE_MASK :: u64 where "VM_PAGE_MASK \<equiv> 0xfffffffffffff000"
abbreviation (input) VM_CHUNK_AREA_SIZE :: nat where "VM_CHUNK_AREA_SIZE \<equiv> 256"
abbreviation (input) VM_STATUS_HALTED :: u32 where "VM_STATUS_HALTED \<equiv> 0"
abbreviation (input) VM_STATUS_SHUTDOWN :: u32 where "VM_STATUS_SHUTDOWN \<equiv> 1"
abbreviation (input) VM_STATUS_RUNNING :: u32 where "VM_STATUS_RUNNING \<equiv> 2"
abbreviation (input) VM_STATUS_SUSPENDED :: u32 where "VM_STATUS_SUSPENDED \<equiv> 3"

datatype mts_op = MTS_READ | MTS_WRITE

abbreviation set_vdev :: "dev_ptr \<Rightarrow> vdevice \<Rightarrow> 'd vm_instance \<Rightarrow> 'd vm_instance" where
  "set_vdev p d vm \<equiv> vm\<lparr>vdevs := (vdevs vm)(p := d)\<rparr>"

section \<open>Looking up devices\<close>

definition dev_get_by_id :: "nat \<Rightarrow> 'd vm_instance \<Rightarrow> dev_ptr option" where
  "dev_get_by_id i vm = (if VM_DEVICE_MAX \<le> i then None else dev_array vm i)"

definition dev_get_by_name :: "string \<Rightarrow> 'd vm_instance \<Rightarrow> dev_ptr option" where
  "dev_get_by_name name vm = find (\<lambda>p. dev_name (vdevs vm p) = name) (dev_list vm)"

text \<open>The test of \<open>dev_lookup\<close> on one device; a cached access skips devices without the
  caching flag.\<close>

definition dev_accepts :: "u64 \<Rightarrow> bool \<Rightarrow> vdevice \<Rightarrow> bool" where
  "dev_accepts addr cached d \<longleftrightarrow>
     \<not> (cached \<and> dev_flags d AND VDEVICE_FLAG_CACHING = 0) \<and>
     phys_addr d \<le> addr \<and> addr - phys_addr d < ucast (phys_len d)"

definition dev_lookup :: "u64 \<Rightarrow> bool \<Rightarrow> 'd vm_instance \<Rightarrow> dev_ptr option" where
  "dev_lookup addr cached vm = find (\<lambda>p. dev_accepts addr cached (vdevs vm p)) (dev_list vm)"

text \<open>\<open>dev_start\<close> is \<open>Some\<close> a device of the list: the scan starts there.\<close>

definition dev_lookup_next ::
    "u64 \<Rightarrow> dev_ptr option \<Rightarrow> bool \<Rightarrow> 'd vm_instance \<Rightarrow> dev_ptr option" where
  "dev_lookup_next addr dev_start cached vm =
     (let ds = (case dev_start of None \<Rightarrow> dev_list vm
                | Some p \<Rightarrow> dropWhile (\<lambda>q. q \<noteq> p) (dev_list vm))
      in find (\<lambda>p. \<not> (cached \<and> dev_flags (vdevs vm p) AND VDEVICE_FLAG_CACHING = 0) \<and>
                   addr < phys_addr (vdevs vm p)) ds)"

section \<open>Creating and binding devices\<close>

definition dev_init :: vdevice where
  "dev_init = \<lparr>dev_name = [], dev_id = 0, phys_addr = 0, phys_len = 0, host_addr = 0,
     dev_flags = 0, dev_fd = -1, dev_handler = 0, sparse_map = 0, dev_bound = False\<rparr>"

definition dev_create :: "string \<Rightarrow> vdevice" where
  "dev_create name = dev_init\<lparr>dev_name := name\<rparr>"

definition dev_remap :: "string \<Rightarrow> vdevice \<Rightarrow> u64 \<Rightarrow> u32 \<Rightarrow> vdevice" where
  "dev_remap name orig paddr len =
     (dev_create name)\<lparr>phys_addr := paddr, phys_len := len,
        dev_flags := dev_flags orig OR VDEVICE_FLAG_REMAP, dev_fd := dev_fd orig,
        host_addr := host_addr orig, dev_handler := dev_handler orig,
        sparse_map := sparse_map orig\<rparr>"

text \<open>The insertion loop over the list: before the first device at a higher address.\<close>

fun dev_list_insert :: "(dev_ptr \<Rightarrow> vdevice) \<Rightarrow> dev_ptr \<Rightarrow> dev_ptr list \<Rightarrow> dev_ptr list" where
  "dev_list_insert vd p [] = [p]"
| "dev_list_insert vd p (q # qs) =
     (if phys_addr (vd p) < phys_addr (vd q) then p # q # qs else q # dev_list_insert vd p qs)"

definition vm_bind_device :: "dev_ptr \<Rightarrow> 'd vm_instance \<Rightarrow> int \<times> 'd vm_instance" where
  "vm_bind_device p vm =
     (case find (\<lambda>i. dev_array vm i = None) [0..<VM_DEVICE_MAX] of
        None \<Rightarrow> (-1, vm)
      | Some i \<Rightarrow>
          (let vm = vm\<lparr>dev_array := (dev_array vm)(i := Some p)\<rparr>;
               vm = set_vdev p ((vdevs vm p)\<lparr>dev_id := of_nat i\<rparr>) vm;
               vm = vm\<lparr>dev_list := dev_list_insert (vdevs vm) p (dev_list vm)\<rparr>;
               vm = set_vdev p ((vdevs vm p)\<lparr>dev_bound := True\<rparr>) vm
           in (0, vm)))"

definition vm_unbind_device :: "dev_ptr \<Rightarrow> 'd vm_instance \<Rightarrow> int \<times> 'd vm_instance" where
  "vm_unbind_device p vm =
     (if \<not> dev_bound (vdevs vm p) then (-1, vm)
      else
        (let vm = vm\<lparr>dev_list := remove1 p (dev_list vm)\<rparr>;
             vm = (case find (\<lambda>i. dev_array vm i = Some p) [0..<VM_DEVICE_MAX] of
                     None \<Rightarrow> vm
                   | Some i \<Rightarrow> vm\<lparr>dev_array := (dev_array vm)(i := None)\<rparr>);
             vm = set_vdev p ((vdevs vm p)\<lparr>dev_bound := False\<rparr>) vm
         in (0, vm)))"

text \<open>\<open>p\<close> is the address \<open>malloc\<close> gave the new device, \<open>None\<close> when it failed.\<close>

definition dev_create_ram_alias ::
    "dev_ptr option \<Rightarrow> string \<Rightarrow> string \<Rightarrow> u64 \<Rightarrow> u32 \<Rightarrow> 'd vm_instance \<Rightarrow> dev_ptr option \<times> 'd vm_instance" where
  "dev_create_ram_alias p name orig paddr len vm =
     (case dev_get_by_name orig vm of
        None \<Rightarrow> (None, vm)
      | Some q \<Rightarrow>
          (case p of None \<Rightarrow> (None, vm)
           | Some p \<Rightarrow>
               (let vm = set_vdev p (dev_remap name (vdevs vm q) paddr len) vm
                in (Some p, snd (vm_bind_device p vm)))))"

section \<open>Host pages and sparse devices\<close>

definition vm_chunk_create :: "'d vm_instance \<Rightarrow> vm_chunk option \<times> 'd vm_instance" where
  "vm_chunk_create vm =
     (case host_areas vm of
        [] \<Rightarrow> (None, vm)
      | a # as \<Rightarrow>
          (let vm = vm\<lparr>host_areas := as\<rparr> in
           if a = 0 then (None, vm)
           else
             (let chunk = \<lparr>chunk_area = a, page_alloc = 0, page_total = VM_CHUNK_AREA_SIZE\<rparr>
              in (Some chunk, vm\<lparr>vm_chunks := chunk # vm_chunks vm\<rparr>))))"

text \<open>The result is the host address of the page, 0 for \<open>NULL\<close>. The chunk served is the head of
  the list, whether it was there or has just been created.\<close>

definition vm_alloc_host_page :: "'d vm_instance \<Rightarrow> u64 \<times> 'd vm_instance" where
  "vm_alloc_host_page vm =
     (let (chunk, vm) =
        (case vm_chunks vm of
           [] \<Rightarrow> vm_chunk_create vm
         | ch # _ \<Rightarrow> if page_alloc ch = page_total ch then vm_chunk_create vm else (Some ch, vm))
      in case chunk of
           None \<Rightarrow> (0, vm)
         | Some ch \<Rightarrow>
             (chunk_area ch + of_nat (page_alloc ch * 4096),
              vm\<lparr>vm_chunks := ch\<lparr>page_alloc := page_alloc ch + 1\<rparr> # tl (vm_chunks vm)\<rparr>))"

text \<open>\<open>m\<close> is the address \<open>malloc\<close> gave the page table, 0 when it failed.\<close>

definition dev_sparse_init :: "u64 \<Rightarrow> dev_ptr \<Rightarrow> 'd vm_instance \<Rightarrow> int \<times> 'd vm_instance" where
  "dev_sparse_init m p vm =
     (let vm = set_vdev p ((vdevs vm p)\<lparr>sparse_map := m\<rparr>) vm in
      if m = 0 then (-1, vm)
      else
        (let d = vdevs vm p;
             nr_pages = unat (normalize_size (phys_len d) VM_PAGE_SIZE VM_PAGE_SHIFT);
             f = (\<lambda>i. if i < nr_pages then
                        if host_addr d = 0 then 0 else host_addr d + ucast (push_bit 12 (of_nat i :: u32))
                      else sparse_maps vm m i);
             vm = vm\<lparr>sparse_maps := (sparse_maps vm)(m := f)\<rparr>
         in (0, set_vdev p (d\<lparr>dev_flags := dev_flags d OR VDEVICE_FLAG_SPARSE\<rparr>) vm)))"

definition dev_sparse_shutdown :: "dev_ptr \<Rightarrow> 'd vm_instance \<Rightarrow> int \<times> 'd vm_instance" where
  "dev_sparse_shutdown p vm =
     (if dev_flags (vdevs vm p) AND VDEVICE_FLAG_SPARSE = 0 then (-1, vm)
      else (0, set_vdev p ((vdevs vm p)\<lparr>sparse_map := 0\<rparr>) vm))"

text \<open>\<open>memcpy\<close> of one page; the failed assertion on a missing page ends the host program.\<close>

definition copy_page :: "u64 \<Rightarrow> u64 \<Rightarrow> (u64 \<Rightarrow> u8) \<Rightarrow> (u64 \<Rightarrow> u8)" where
  "copy_page dst src mem = (\<lambda>a. if a - dst < 4096 then mem (src + (a - dst)) else mem a)"

definition set_sparse :: "u64 \<Rightarrow> nat \<Rightarrow> u64 \<Rightarrow> 'd vm_instance \<Rightarrow> 'd vm_instance" where
  "set_sparse m i v vm = vm\<lparr>sparse_maps := (sparse_maps vm)(m := (sparse_maps vm m)(i := v))\<rparr>"

text \<open>The result is the host page and the copy-on-write flag.\<close>

definition dev_sparse_get_host_addr ::
    "dev_ptr \<Rightarrow> u64 \<Rightarrow> mts_op \<Rightarrow> 'd vm_instance \<Rightarrow> (u64 \<times> bool, 'd vm_instance) outcome" where
  "dev_sparse_get_host_addr p paddr op_type vm =
     (let dev = vdevs vm p;
          offset = unat (ucast (drop_bit VM_PAGE_SHIFT (paddr - phys_addr dev)) :: u32);
          ptr = sparse_maps vm (sparse_map dev) offset
      in if sparse_map dev = 0 then HostFault
         else if host_addr dev = 0 then
           if ptr AND VDEVICE_PTE_DIRTY = 0 then
             (let (page, vm) = vm_alloc_host_page vm in
              if page = 0 then HostFault
              else Ok (page, False) (set_sparse (sparse_map dev) offset (page OR VDEVICE_PTE_DIRTY) vm))
           else Ok (ptr AND VM_PAGE_MASK, False) vm
         else if ptr AND VDEVICE_PTE_DIRTY \<noteq> 0 then Ok (ptr AND VM_PAGE_MASK, False) vm
         else if op_type = MTS_READ then Ok (ptr AND VM_PAGE_MASK, True) vm
         else
           (let (page, vm) = vm_alloc_host_page vm in
            if page = 0 then HostFault
            else
              (let vm = vm\<lparr>host_mem := copy_page page (ptr AND VM_PAGE_MASK) (host_mem vm)\<rparr>
               in Ok (page, False) (set_sparse (sparse_map dev) offset (page OR VDEVICE_PTE_DIRTY) vm))))"

definition dev_sparse_dirty_pages :: "dev_ptr \<Rightarrow> 'd vm_instance \<Rightarrow> nat" where
  "dev_sparse_dirty_pages p vm =
     (let d = vdevs vm p;
          nr_pages = unat (normalize_size (phys_len d) VM_PAGE_SIZE VM_PAGE_SHIFT)
      in length (filter (\<lambda>i. sparse_maps vm (sparse_map d) i AND VDEVICE_PTE_DIRTY \<noteq> 0) [0..<nr_pages]))"

definition dev_get_vspace_size :: "vdevice \<Rightarrow> u64" where
  "dev_get_vspace_size d =
     (if dev_flags d AND VDEVICE_FLAG_REMAP \<noteq> 0 then 0
      else if host_addr d \<noteq> 0 \<or> dev_flags d AND VDEVICE_FLAG_SPARSE \<noteq> 0
      then ucast (drop_bit 10 (phys_len d))
      else 0)"

section \<open>The device list and the device array\<close>

text \<open>The list is ordered by address without repetition; list, array and identifiers agree.\<close>

definition vm_devices_ok :: "'d vm_instance \<Rightarrow> bool" where
  "vm_devices_ok vm \<longleftrightarrow>
     distinct (dev_list vm) \<and>
     sorted (map (\<lambda>p. phys_addr (vdevs vm p)) (dev_list vm)) \<and>
     (\<forall>p. dev_bound (vdevs vm p) \<longleftrightarrow> p \<in> set (dev_list vm)) \<and>
     (\<forall>p\<in>set (dev_list vm). unat (dev_id (vdevs vm p)) < 64 \<and>
        dev_array vm (unat (dev_id (vdevs vm p))) = Some p) \<and>
     (\<forall>i<64. \<forall>p. dev_array vm i = Some p \<longrightarrow> p \<in> set (dev_list vm) \<and> unat (dev_id (vdevs vm p)) = i)"

lemma set_dev_list_insert [simp]: "set (dev_list_insert vd p ps) = insert p (set ps)"
  by (induction ps) auto

lemma distinct_dev_list_insert [simp]:
  "distinct (dev_list_insert vd p ps) \<longleftrightarrow> p \<notin> set ps \<and> distinct ps"
  by (induction ps) auto

lemma remove1_dev_list_insert [simp]: "p \<notin> set ps \<Longrightarrow> remove1 p (dev_list_insert vd p ps) = ps"
  by (induction ps) auto

lemma sorted_dev_list_insert:
  "sorted (map (\<lambda>q. phys_addr (vd q)) ps) \<Longrightarrow>
   sorted (map (\<lambda>q. phys_addr (vd q)) (dev_list_insert vd p ps))"
proof (induction ps)
  case (Cons q qs)
  then show ?case by (auto simp: not_less intro: order_trans)
qed simp

lemma dev_list_insert_cong:
  "(\<And>q. phys_addr (vd q) = phys_addr (vd' q)) \<Longrightarrow> dev_list_insert vd p ps = dev_list_insert vd' p ps"
  by (induction ps) simp_all

lemma find_slot:
  "find P [0..<64] = Some i \<longleftrightarrow> i < 64 \<and> P i \<and> (\<forall>j<i. \<not> P (j :: nat))"
  by (auto simp: find_Some_iff)

lemma find_no_slot: "find P [0..<64] = None \<longleftrightarrow> (\<forall>i<64. \<not> P (i :: nat))"
  by (auto simp: find_None_iff)

text \<open>A successful bind, spelled out.\<close>

lemma vm_bind_device_Some:
  assumes "find (\<lambda>i. dev_array vm i = None) [0..<64] = Some i"
  shows "vm_bind_device p vm =
     (0, vm\<lparr>dev_array := (dev_array vm)(i := Some p),
            vdevs := (vdevs vm)(p := (vdevs vm p)\<lparr>dev_id := of_nat i, dev_bound := True\<rparr>),
            dev_list := dev_list_insert (vdevs vm) p (dev_list vm)\<rparr>)"
proof -
  have "dev_list_insert ((vdevs vm)(p := (vdevs vm p)\<lparr>dev_id := of_nat i\<rparr>)) p ps
      = dev_list_insert (vdevs vm) p ps" for ps
    by (rule dev_list_insert_cong) simp
  then show ?thesis using assms by (simp add: vm_bind_device_def Let_def)
qed

lemma vm_bind_device_None:
  assumes "find (\<lambda>i. dev_array vm i = None) [0..<64] = None"
  shows "vm_bind_device p vm = (-1, vm)"
  using assms by (simp add: vm_bind_device_def)

text \<open>binding an unbound device fails, changing nothing, exactly when all 64 slots of the
  device array are in use; otherwise the device joins the list, which stays ordered by physical
  address, and its identifier is its slot in the array.\<close>

theorem bind_device_correct:
  assumes "vm_devices_ok vm" and "p \<notin> set (dev_list vm)"
  shows "(fst (vm_bind_device p vm) = -1 \<longleftrightarrow> (\<forall>i<64. dev_array vm i \<noteq> None)) \<and>
         (fst (vm_bind_device p vm) = -1 \<longrightarrow> snd (vm_bind_device p vm) = vm) \<and>
         (fst (vm_bind_device p vm) \<noteq> -1 \<longrightarrow>
            set (dev_list (snd (vm_bind_device p vm))) = insert p (set (dev_list vm))) \<and>
         vm_devices_ok (snd (vm_bind_device p vm))"
proof (cases "find (\<lambda>i. dev_array vm i = None) [0..<64]")
  case None
  note b = vm_bind_device_None [OF None]
  from None have "\<forall>i<64. dev_array vm i \<noteq> None" by (simp only: find_no_slot)
  then show ?thesis using assms(1) by (simp add: b)
next
  case (Some i)
  then have i: "i < 64" "dev_array vm i = None" by (simp_all add: find_slot)
  let ?vm = "snd (vm_bind_device p vm)"
  note b = vm_bind_device_Some [OF Some]
  have id: "unat (of_nat i :: u32) = i" using i(1) by (simp add: unsigned_of_nat take_bit_eq_mod)
  have sl: "\<forall>q\<in>set (dev_list vm). unat (dev_id (vdevs vm q)) \<noteq> i"
    using assms(1) i(2) unfolding vm_devices_ok_def by force
  have s: "sorted (map (\<lambda>q. phys_addr (vdevs ?vm q)) (dev_list ?vm))"
  proof -
    have "(\<lambda>q. phys_addr (vdevs ?vm q)) = (\<lambda>q. phys_addr (vdevs vm q))" by (auto simp: b)
    then show ?thesis using assms(1) by (simp add: b sorted_dev_list_insert vm_devices_ok_def)
  qed
  have "vm_devices_ok ?vm"
    unfolding vm_devices_ok_def
  proof (intro conjI s allI ballI impI)
    show "distinct (dev_list ?vm)" using assms by (simp add: b vm_devices_ok_def)
    show "dev_bound (vdevs ?vm q) = (q \<in> set (dev_list ?vm))" for q
      using assms by (simp add: b vm_devices_ok_def)
    fix q assume q: "q \<in> set (dev_list ?vm)"
    show "unat (dev_id (vdevs ?vm q)) < 64"
      using q assms i(1) by (simp add: b vm_devices_ok_def id) blast
    show "dev_array ?vm (unat (dev_id (vdevs ?vm q))) = Some q"
      using q assms sl by (simp add: b vm_devices_ok_def id) blast
  next
    fix j q assume j: "j < 64" "dev_array ?vm j = Some q"
    have *: "j = i \<and> q = p \<or> j \<noteq> i \<and> dev_array vm j = Some q"
      using j(2) by (auto simp: b split: if_splits)
    then have "q \<in> insert p (set (dev_list vm)) \<and> (q = p \<longrightarrow> j = i)"
      using assms j(1) by (auto simp: vm_devices_ok_def)
    with * show "q \<in> set (dev_list ?vm)" "unat (dev_id (vdevs ?vm q)) = j"
      using assms j(1) by (auto simp: b id vm_devices_ok_def)
  qed
  then show ?thesis using i by (auto simp: b)
qed

text \<open>An instance without devices.\<close>

definition empty_vm :: "unit vm_instance" where
  "empty_vm = \<lparr>vdevs = (\<lambda>_. dev_init), dev_list = [], dev_array = (\<lambda>_. None),
     sparse_maps = (\<lambda>_ _. 0), host_mem = (\<lambda>_. 0), vm_chunks = [], host_areas = [],
     vm_status = 0, dev_state = ()\<rparr>"

lemma empty_vm_ok: "vm_devices_ok empty_vm"
  by (simp add: vm_devices_ok_def empty_vm_def dev_init_def)

theorem bind_device_correct_witness:
  "set (dev_list (snd (vm_bind_device 5 empty_vm))) = {5}"
  using bind_device_correct [OF empty_vm_ok, of 5]
  by (auto simp: empty_vm_def dest!: spec [of _ 0])

text \<open>unbinding a device that was just bound restores the device list and the device array, and
  marks the device unbound again.\<close>

theorem unbind_bind_roundtrip:
  assumes "vm_devices_ok vm" and "p \<notin> set (dev_list vm)" and "fst (vm_bind_device p vm) = 0"
  shows "fst (vm_unbind_device p (snd (vm_bind_device p vm))) = 0 \<and>
         dev_list (snd (vm_unbind_device p (snd (vm_bind_device p vm)))) = dev_list vm \<and>
         dev_array (snd (vm_unbind_device p (snd (vm_bind_device p vm)))) = dev_array vm \<and>
         \<not> dev_bound (vdevs (snd (vm_unbind_device p (snd (vm_bind_device p vm)))) p)"
proof -
  obtain i where i: "find (\<lambda>i. dev_array vm i = None) [0..<64] = Some i"
    using assms(3) by (cases "find (\<lambda>i. dev_array vm i = None) [0..<64]")
      (auto simp: vm_bind_device_def)
  then have "i < 64" "dev_array vm i = None" by (simp_all add: find_slot)
  moreover have "\<forall>j<64. dev_array vm j \<noteq> Some p" using assms(1,2) by (auto simp: vm_devices_ok_def)
  ultimately have "find (\<lambda>j. ((dev_array vm)(i := Some p)) j = Some p) [0..<64] = Some i"
    by (auto simp: find_slot)
  moreover have "(dev_array vm)(i := None) = dev_array vm" using \<open>dev_array vm i = None\<close> by auto
  ultimately show ?thesis
    using assms(2) by (simp add: vm_bind_device_Some [OF i] vm_unbind_device_def Let_def)
qed

theorem unbind_bind_roundtrip_witness:
  "dev_list (snd (vm_unbind_device 5 (snd (vm_bind_device 5 empty_vm)))) = []"
proof -
  have "fst (vm_bind_device 5 empty_vm) = 0"
    by (simp add: vm_bind_device_def empty_vm_def Let_def upt_rec)
  with unbind_bind_roundtrip [OF empty_vm_ok, of 5] show ?thesis by (simp add: empty_vm_def)
qed

lemma find_dev_list_insert:
  assumes "p \<notin> set ps" and "\<forall>q\<in>set ps. \<not> (P q \<and> P p)"
  shows "find P (dev_list_insert vd p ps) = (if P p then Some p else find P ps)"
  using assms by (induction ps) auto

text \<open>binding a device whose address range meets no bound device adds exactly its range to what
  the lookup finds: addresses it accepts now give the new device, all others give what they gave
  before.\<close>

theorem bind_then_lookup:
  assumes "vm_devices_ok vm" and "p \<notin> set (dev_list vm)" and "fst (vm_bind_device p vm) = 0"
    and "\<forall>q\<in>set (dev_list vm). \<not> (dev_accepts addr cached (vdevs vm q) \<and> dev_accepts addr cached (vdevs vm p))"
  shows "dev_lookup addr cached (snd (vm_bind_device p vm)) =
     (if dev_accepts addr cached (vdevs vm p) then Some p else dev_lookup addr cached vm)"
proof -
  obtain i where i: "find (\<lambda>i. dev_array vm i = None) [0..<64] = Some i"
    using assms(3) by (cases "find (\<lambda>i. dev_array vm i = None) [0..<64]")
      (auto simp: vm_bind_device_def)
  have "dev_accepts addr cached (vdevs (snd (vm_bind_device p vm)) q) = dev_accepts addr cached (vdevs vm q)" for q
    by (simp add: vm_bind_device_Some [OF i] dev_accepts_def)
  then show ?thesis
    using assms(2,4) find_dev_list_insert [of p "dev_list vm" "\<lambda>q. dev_accepts addr cached (vdevs vm q)" "vdevs vm"]
    by (simp add: dev_lookup_def vm_bind_device_Some [OF i])
qed

theorem bind_then_lookup_witness:
  "dev_lookup 0x1F000010 True (snd (vm_bind_device 5
      (empty_vm\<lparr>vdevs := (\<lambda>_. dev_init\<lparr>phys_addr := 0x1F000000, phys_len := 0x1000, dev_flags := 2\<rparr>)\<rparr>))) = Some 5"
proof -
  let ?vm = "empty_vm\<lparr>vdevs := (\<lambda>_. dev_init\<lparr>phys_addr := 0x1F000000, phys_len := 0x1000, dev_flags := 2\<rparr>)\<rparr>"
  have "vm_devices_ok ?vm" "fst (vm_bind_device 5 ?vm) = 0"
    by (simp_all add: vm_devices_ok_def vm_bind_device_def empty_vm_def dev_init_def Let_def upt_rec)
  with bind_then_lookup [of ?vm 5 "0x1F000010" True] show ?thesis
    by (simp add: empty_vm_def dev_accepts_def dev_init_def)
qed

section \<open>Host pages\<close>

text \<open>The pages handed out so far, and the areas of the host allocator: chunks of 256 pages, those in
  use and those still to come pairwise disjoint.\<close>

definition allocated_pages :: "'d vm_instance \<Rightarrow> u64 set" where
  "allocated_pages vm = (\<Union>ch\<in>set (vm_chunks vm). (\<lambda>i. chunk_area ch + of_nat (i * 4096)) ` {..<page_alloc ch})"

definition vm_areas :: "'d vm_instance \<Rightarrow> u64 list" where
  "vm_areas vm = map chunk_area (vm_chunks vm) @ filter (\<lambda>a. a \<noteq> 0) (host_areas vm)"

definition chunks_ok :: "'d vm_instance \<Rightarrow> bool" where
  "chunks_ok vm \<longleftrightarrow>
     (\<forall>ch\<in>set (vm_chunks vm). page_total ch = 256 \<and> page_alloc ch \<le> 256) \<and>
     distinct (vm_areas vm) \<and>
     (\<forall>a\<in>set (vm_areas vm). \<forall>b\<in>set (vm_areas vm). a \<noteq> b \<longrightarrow>
        (\<forall>i<256. \<forall>j<256. a + of_nat (i * 4096) \<noteq> b + of_nat (j * 4096)))"

lemma page_offset_inj:
  assumes "i < 256" "j < 256" "a + of_nat (i * 4096) = a + (of_nat (j * 4096) :: u64)"
  shows "i = j"
proof -
  have "unat (of_nat (i * 4096) :: u64) = i * 4096" "unat (of_nat (j * 4096) :: u64) = j * 4096"
    using assms(1,2) by (simp_all only: unsigned_of_nat take_bit_eq_mod) (simp_all add: mod_less)
  moreover have "of_nat (i * 4096) = (of_nat (j * 4096) :: u64)" using assms(3) by (simp only: add_left_cancel)
  ultimately show ?thesis by (metis mult_cancel2 zero_neq_numeral)
qed

lemma vm_alloc_frame:
  "vdevs (snd (vm_alloc_host_page vm)) = vdevs vm"
  "sparse_maps (snd (vm_alloc_host_page vm)) = sparse_maps vm"
  "host_mem (snd (vm_alloc_host_page vm)) = host_mem vm"
  "dev_list (snd (vm_alloc_host_page vm)) = dev_list vm"
  "dev_array (snd (vm_alloc_host_page vm)) = dev_array vm"
  by (auto simp: vm_alloc_host_page_def vm_chunk_create_def Let_def split: list.split option.split)

text \<open>The two ways an allocation succeeds.\<close>

lemma vm_alloc_cases:
  assumes "vm_alloc_host_page vm = (page, vm')" and "page \<noteq> 0"
    and "\<forall>ch\<in>set (vm_chunks vm). page_total ch = 256 \<and> page_alloc ch \<le> 256"
  obtains (old) ch cs where "vm_chunks vm = ch # cs" "page_alloc ch < 256"
      "page = chunk_area ch + of_nat (page_alloc ch * 4096)"
      "vm' = vm\<lparr>vm_chunks := ch\<lparr>page_alloc := page_alloc ch + 1\<rparr> # cs\<rparr>"
    | (new) a as where "host_areas vm = a # as" "a \<noteq> 0" "page = a"
      "vm' = vm\<lparr>host_areas := as,
         vm_chunks := \<lparr>chunk_area = a, page_alloc = 1, page_total = 256\<rparr> # vm_chunks vm\<rparr>"
proof (cases "\<exists>ch cs. vm_chunks vm = ch # cs \<and> page_alloc ch \<noteq> page_total ch")
  case True
  then obtain ch cs where ch: "vm_chunks vm = ch # cs" "page_alloc ch \<noteq> page_total ch" by blast
  with assms(3) have "page_alloc ch < 256" by auto
  then show ?thesis using old ch assms(1) by (simp add: vm_alloc_host_page_def Let_def)
next
  case False
  have create: "vm_alloc_host_page vm =
      (case vm_chunk_create vm of (None, vm) \<Rightarrow> (0, vm)
       | (Some ch, vm) \<Rightarrow> (chunk_area ch + of_nat (page_alloc ch * 4096),
                          vm\<lparr>vm_chunks := ch\<lparr>page_alloc := page_alloc ch + 1\<rparr> # tl (vm_chunks vm)\<rparr>))"
    using False by (auto simp: vm_alloc_host_page_def Let_def split: list.split option.split prod.split)
  show ?thesis
  proof (cases "host_areas vm")
    case Nil
    then show ?thesis using assms(1,2) by (simp add: create vm_chunk_create_def)
  next
    case (Cons a as)
    then show ?thesis
      using new [of a as] assms(1,2) by (cases "a = 0") (auto simp: create vm_chunk_create_def Let_def)
  qed
qed

text \<open>C32: every host page \<open>vm_alloc_host_page\<close> hands out is new: it is none of the pages handed out
  before, whether it comes from the current chunk or from a new one, and exactly this page is
  added to them.\<close>

theorem alloc_host_page_fresh:
  assumes "chunks_ok vm" and "vm_alloc_host_page vm = (page, vm')" and "page \<noteq> 0"
  shows "page \<notin> allocated_pages vm \<and> allocated_pages vm' = insert page (allocated_pages vm) \<and> chunks_ok vm'"
proof -
  have t: "\<forall>ch\<in>set (vm_chunks vm). page_total ch = 256 \<and> page_alloc ch \<le> 256"
    using assms(1) by (simp add: chunks_ok_def)
  have dj: "a + of_nat (i * 4096) \<noteq> b + (of_nat (j * 4096) :: u64)"
    if "a \<in> set (vm_areas vm)" "b \<in> set (vm_areas vm)" "a \<noteq> b" "i < 256" "j < 256" for a b i j
    using assms(1) that unfolding chunks_ok_def by blast
  from assms(2,3) t show ?thesis
  proof (cases rule: vm_alloc_cases)
    case (old ch cs)
    have area: "chunk_area ch \<in> set (vm_areas vm)" using old(1) by (simp add: vm_areas_def)
    have "page \<noteq> chunk_area c + of_nat (i * 4096)" if c: "c \<in> set (vm_chunks vm)" "i < page_alloc c" for c i
    proof (cases "chunk_area c = chunk_area ch")
      case True
      have "c = ch"
      proof (rule ccontr)
        assume "c \<noteq> ch"
        then have "chunk_area c \<in> chunk_area ` set cs" using c(1) old(1) by auto
        then show False using assms(1) True old(1) by (auto simp: chunks_ok_def vm_areas_def)
      qed
      with c(2) old(2) show ?thesis
        using page_offset_inj [of "page_alloc ch" i "chunk_area ch"] by (auto simp: old(3))
    next
      case False
      have "chunk_area c \<in> set (vm_areas vm)" using c(1) by (auto simp: vm_areas_def)
      moreover have "i < 256" using c t by fastforce
      ultimately show ?thesis using dj [OF area _ _ old(2)] False by (auto simp: old(3))
    qed
    then have "page \<notin> allocated_pages vm" by (auto simp: allocated_pages_def)
    moreover have "allocated_pages vm' = insert page (allocated_pages vm)"
      by (auto simp: allocated_pages_def old lessThan_Suc)
    moreover have "vm_areas vm' = vm_areas vm" by (simp add: vm_areas_def old)
    then have "chunks_ok vm'" using assms(1) old(2) by (simp add: chunks_ok_def old(1,4))
    ultimately show ?thesis by blast
  next
    case (new a as)
    have area: "a \<in> set (vm_areas vm)" using new by (simp add: vm_areas_def)
    have "a \<notin> chunk_area ` set (vm_chunks vm)" using assms(1) new by (auto simp: chunks_ok_def vm_areas_def)
    then have "page \<noteq> chunk_area c + of_nat (i * 4096)" if "c \<in> set (vm_chunks vm)" "i < page_alloc c" for c i
      using dj [of a "chunk_area c" 0 i] that t area new(3) by (force simp: vm_areas_def)
    then have "page \<notin> allocated_pages vm" by (auto simp: allocated_pages_def)
    moreover have "allocated_pages vm' = insert page (allocated_pages vm)"
      by (auto simp: allocated_pages_def new)
    moreover have "set (vm_areas vm') = set (vm_areas vm)" "distinct (vm_areas vm')"
      using assms(1) new by (auto simp: chunks_ok_def vm_areas_def)
    then have "chunks_ok vm'" using assms(1) by (simp add: chunks_ok_def) (simp add: new)
    ultimately show ?thesis by blast
  qed
qed

theorem alloc_host_page_fresh_witness:
  "fst (vm_alloc_host_page (empty_vm\<lparr>host_areas := [0x7f0000000000]\<rparr>))
     \<notin> allocated_pages (empty_vm\<lparr>host_areas := [0x7f0000000000]\<rparr>)"
proof -
  let ?vm = "empty_vm\<lparr>host_areas := [0x7f0000000000]\<rparr>"
  have "chunks_ok ?vm" by (simp add: chunks_ok_def vm_areas_def empty_vm_def)
  moreover have a: "vm_alloc_host_page ?vm = (0x7f0000000000, snd (vm_alloc_host_page ?vm))"
    by (simp add: vm_alloc_host_page_def vm_chunk_create_def empty_vm_def Let_def)
  ultimately have "0x7f0000000000 \<notin> allocated_pages ?vm"
    using alloc_host_page_fresh [OF _ a] by simp
  then show ?thesis by (subst a) simp
qed

section \<open>Copy on write\<close>

lemma dirty_page_bits:
  assumes "page AND 0xfff = (0 :: u64)"
  shows "(page OR 1) AND VM_PAGE_MASK = page" and "(page OR 1) AND 1 \<noteq> 0"
proof -
  have p: "\<not> (bit page n \<and> n < 12)" for n
  proof -
    have "bit (page AND mask 12) n = bit (0 :: u64) n" using assms by (simp add: mask_eq_exp_minus_1)
    then show ?thesis by (auto simp: bit_and_iff bit_mask_iff dest: bit_imp_le_length)
  qed
  have "(page OR 1) AND NOT (mask 12) = page"
    by (rule bit_word_eqI) (use p in \<open>auto simp: bit_simps\<close>)
  then show "(page OR 1) AND VM_PAGE_MASK = page" by (simp only: page_mask_is_not_mask)
  have "bit ((page OR 1) AND 1) 0" by (simp add: bit_simps)
  then show "(page OR 1) AND 1 \<noteq> 0" by (metis bit_0_eq bot_apply bot_bool_def)
qed

text \<open>copy on write of a ghost page. Reading a clean page serves the ghost page, flagged
  copy-on-write, and changes nothing. The first write request moves the page to a fresh host page
  with the same content, leaves the ghost page and every other page-table entry as they were,
  and from then on both reads and writes get the private page, no longer flagged.\<close>

theorem sparse_copy_on_write:
  fixes vm :: "'d vm_instance" and p :: dev_ptr and paddr :: u64
  defines "m \<equiv> sparse_map (vdevs vm p)"
    and "off \<equiv> unat (ucast (drop_bit 12 (paddr - phys_addr (vdevs vm p))) :: u32)"
  defines "ghost \<equiv> sparse_maps vm m off AND VM_PAGE_MASK"
  assumes "m \<noteq> 0" and "host_addr (vdevs vm p) \<noteq> 0" and "sparse_maps vm m off AND VDEVICE_PTE_DIRTY = 0"
    and "vm_alloc_host_page vm = (page, vm1)" and "page \<noteq> 0" and "page AND 0xfff = 0"
    and "\<forall>k. k < 4096 \<longrightarrow> \<not> (ghost + k) - page < 4096"
  shows "dev_sparse_get_host_addr p paddr MTS_READ vm = Ok (ghost, True) vm \<and>
    (\<exists>vm'. dev_sparse_get_host_addr p paddr MTS_WRITE vm = Ok (page, False) vm' \<and>
      (\<forall>k<4096. host_mem vm' (page + k) = host_mem vm (ghost + k)) \<and>
      (\<forall>k<4096. host_mem vm' (ghost + k) = host_mem vm (ghost + k)) \<and>
      (\<forall>op. dev_sparse_get_host_addr p paddr op vm' = Ok (page, False) vm') \<and>
      (\<forall>o2. o2 \<noteq> off \<longrightarrow> sparse_maps vm' m o2 = sparse_maps vm m o2))"
proof -
  have fr: "vdevs vm1 = vdevs vm" "sparse_maps vm1 = sparse_maps vm" "host_mem vm1 = host_mem vm"
    using vm_alloc_frame [of vm] assms(7) by simp_all
  let ?vm' = "set_sparse m off (page OR 1) (vm1\<lparr>host_mem := copy_page page ghost (host_mem vm)\<rparr>)"
  have r: "dev_sparse_get_host_addr p paddr MTS_READ vm = Ok (ghost, True) vm"
    using assms(4-6) by (simp add: dev_sparse_get_host_addr_def Let_def m_def off_def ghost_def)
  have w: "dev_sparse_get_host_addr p paddr MTS_WRITE vm = Ok (page, False) ?vm'"
    using assms(4-8) by (simp add: dev_sparse_get_host_addr_def Let_def m_def off_def ghost_def fr)
  have d: "vdevs ?vm' = vdevs vm" "sparse_maps ?vm' m off = page OR 1"
    by (simp_all add: set_sparse_def fr)
  have again: "dev_sparse_get_host_addr p paddr op ?vm' = Ok (page, False) ?vm'" for op
    using assms(4,5) dirty_page_bits [OF assms(9)] d
    unfolding dev_sparse_get_host_addr_def Let_def d(1) m_def [symmetric] off_def [symmetric] d(2)
    by simp
  have c1: "host_mem ?vm' (page + k) = host_mem vm (ghost + k)" if "k < 4096" for k
    using that by (simp add: set_sparse_def copy_page_def)
  have c2: "host_mem ?vm' (ghost + k) = host_mem vm (ghost + k)" if "k < 4096" for k
    using that assms(10) by (simp add: set_sparse_def copy_page_def)
  have o: "sparse_maps ?vm' m o2 = sparse_maps vm m o2" if "o2 \<noteq> off" for o2
    using that by (simp add: set_sparse_def fr)
  show ?thesis using r w again c1 c2 o by blast
qed

theorem sparse_copy_on_write_witness:
  "\<exists>vm'. dev_sparse_get_host_addr 5 0x2000 MTS_WRITE
     (empty_vm\<lparr>vdevs := (\<lambda>_. dev_init\<lparr>phys_len := 0x8000, host_addr := 0x10000, sparse_map := 0x900\<rparr>),
        sparse_maps := (\<lambda>_ i. 0x10000 + of_nat (i * 4096)), host_areas := [0x80000]\<rparr>)
     = Ok (0x80000, False) vm'"
proof -
  let ?vm = "empty_vm\<lparr>vdevs := (\<lambda>_. dev_init\<lparr>phys_len := 0x8000, host_addr := 0x10000, sparse_map := 0x900\<rparr>),
        sparse_maps := (\<lambda>_ i. 0x10000 + of_nat (i * 4096)), host_areas := [0x80000]\<rparr>"
  have a: "vm_alloc_host_page ?vm = (0x80000, snd (vm_alloc_host_page ?vm))"
    by (simp add: vm_alloc_host_page_def vm_chunk_create_def empty_vm_def Let_def)
  have "\<not> (0x12000 + k) - 0x80000 < (4096 :: u64)" if "k < 4096" for k
  proof -
    have "unat k < 4096" using that by (simp add: word_less_nat_alt)
    then have "unat (k + 0xFFFFFFFFFFF92000) = unat k + 0xFFFFFFFFFFF92000"
      by (simp add: unat_word_ariths)
    then have "\<not> k + 0xFFFFFFFFFFF92000 < 4096" by (simp add: word_less_nat_alt)
    moreover have "(0x12000 + k) - 0x80000 = k + (0xFFFFFFFFFFF92000 :: u64)" by simp
    ultimately show ?thesis by (simp only:) simp
  qed
  then have "\<forall>k. k < 4096 \<longrightarrow> \<not> ((0x12000 :: u64) + k) - 0x80000 < 4096" by blast
  with a sparse_copy_on_write [of ?vm 5 "0x2000" "0x80000" "snd (vm_alloc_host_page ?vm)"]
  show ?thesis by (auto simp: dev_init_def drop_bit_eq_div)
qed

end
