(* ===== verification/Mips64Mem.thy ===== *)
theory Mips64Mem
  imports Mips64Cp0 Device
begin

text \<open>
  Memory accesses of the MIPS64 CPU: \<open>stable/mips64_mem.c\<close> with the template \<open>stable/mips_mts.c\<close>
  it includes twice, once for 64-bit and once for 32-bit addresses. One definition models both
  expansions of a template function; its first argument \<open>asz\<close> is \<open>MTS_ADDR_SIZE\<close>, 64 or 32.

  The state \<open>mips_vm\<close> extends the CPU with the virtual machine it belongs to (one CPU per
  instance). A host pointer is its address, 0 for \<open>NULL\<close>. What lies outside the modelled code is
  in \<open>mem_env\<close>: the device handlers, the handler of undefined addresses, the value an
  uninitialised local variable has, and the result of a shift by the full width of its operand,
  which C leaves undefined. An access returns the host pointer together with the
  variable \<open>data\<close> that the C code passes by reference.
\<close>

section \<open>State and environment\<close>

record 'd mips_vm = cpu_mips +
  vm_inst :: "'d vm_instance"
  njm_exec_page :: u64
  njm_exec_ptr :: u64
  prev_state :: u32
  idle_pc :: u64
  idle_count :: u32
  idle_max :: u32
  timer_irq_check_itv :: u32
  timer_irq_freq :: u32
  timer_drift :: u32

abbreviation update_vm ::
    "('d vm_instance \<Rightarrow> 'd vm_instance) \<Rightarrow> ('d, 'z) mips_vm_scheme \<Rightarrow> ('d, 'z) mips_vm_scheme" where
  "update_vm f s \<equiv> s\<lparr>vm_inst := f (vm_inst s)\<rparr>"

record 'd mem_env =
  env_handler :: "nat \<Rightarrow> dev_ptr \<Rightarrow> u32 \<Rightarrow> nat \<Rightarrow> mts_op \<Rightarrow> u64 \<Rightarrow> 'd mips_vm
                  \<Rightarrow> (u64 \<times> u64, 'd mips_vm) outcome"
  env_undef :: "(u64 \<Rightarrow> nat \<Rightarrow> mts_op \<Rightarrow> u64 \<Rightarrow> 'd mips_vm \<Rightarrow> (bool \<times> u64, 'd mips_vm) outcome) option"
  env_uninit :: "'d mips_vm \<Rightarrow> u64"
  env_ub_shl :: "u64 \<Rightarrow> nat \<Rightarrow> u64"
  env_ub_shr :: "u64 \<Rightarrow> nat \<Rightarrow> u64"

datatype mips_memop = MIPS_MEMOP_LOOKUP
  | MIPS_MEMOP_LB | MIPS_MEMOP_LBU | MIPS_MEMOP_LH | MIPS_MEMOP_LHU | MIPS_MEMOP_LW
  | MIPS_MEMOP_LWU | MIPS_MEMOP_LD | MIPS_MEMOP_SB | MIPS_MEMOP_SH | MIPS_MEMOP_SW | MIPS_MEMOP_SD
  | MIPS_MEMOP_LWL | MIPS_MEMOP_LWR | MIPS_MEMOP_LDL | MIPS_MEMOP_LDR
  | MIPS_MEMOP_SWL | MIPS_MEMOP_SWR | MIPS_MEMOP_SDL | MIPS_MEMOP_SDR
  | MIPS_MEMOP_LL | MIPS_MEMOP_SC | MIPS_MEMOP_LDC1 | MIPS_MEMOP_SDC1 | MIPS_MEMOP_CACHE

datatype mts_acc = MTS_ACC_AE | MTS_ACC_T | MTS_ACC_U

abbreviation (input) MTS_DEVID_MASK :: u64 where "MTS_DEVID_MASK \<equiv> 0xfc000000"
abbreviation (input) MTS_DEVID_SHIFT :: nat where "MTS_DEVID_SHIFT \<equiv> 26"
abbreviation (input) MTS_DEVOFF_MASK :: u64 where "MTS_DEVOFF_MASK \<equiv> 0x03ffffff"
abbreviation (input) CPU_STATE_RUNNING :: u32 where "CPU_STATE_RUNNING \<equiv> 0"
abbreviation (input) CPU_STATE_HALTED :: u32 where "CPU_STATE_HALTED \<equiv> 1"
abbreviation (input) CPU_STATE_SUSPENDED :: u32 where "CPU_STATE_SUSPENDED \<equiv> 2"

section \<open>Instance status (vm.c, cpu.c)\<close>

definition vm_stop :: "'d mips_vm \<Rightarrow> 'd mips_vm" where
  "vm_stop s = update_vm (vm_status_update (\<lambda>_. VM_STATUS_SHUTDOWN)) (s\<lparr>cpu_state := CPU_STATE_HALTED\<rparr>)"

definition vm_suspend :: "'d mips_vm \<Rightarrow> 'd mips_vm" where
  "vm_suspend s =
     (if vm_status (vm_inst s) = VM_STATUS_RUNNING then
        (let s = s\<lparr>prev_state := cpu_state s\<rparr>;
             s = s\<lparr>cpu_state := CPU_STATE_SUSPENDED\<rparr>
         in update_vm (vm_status_update (\<lambda>_. VM_STATUS_SUSPENDED)) s)
      else s)"

definition vm_resume :: "'d mips_vm \<Rightarrow> 'd mips_vm" where
  "vm_resume s =
     (if vm_status (vm_inst s) = VM_STATUS_SUSPENDED then
        (let s = s\<lparr>cpu_state := prev_state s\<rparr>
         in update_vm (vm_status_update (\<lambda>_. VM_STATUS_RUNNING)) s)
      else s)"

text \<open>\<open>mts_rebuild\<close> of the CPU is the invalidation of its MTS cache.\<close>

definition vm_map_device :: "dev_ptr \<Rightarrow> u64 \<Rightarrow> 'd mips_vm \<Rightarrow> 'd mips_vm" where
  "vm_map_device p base_addr s =
     (let s = update_vm (\<lambda>vm. snd (vm_unbind_device p vm)) s;
          s = update_vm (\<lambda>vm. set_vdev p ((vdevs vm p)\<lparr>phys_addr := base_addr\<rparr>) vm) s;
          s = update_vm (\<lambda>vm. snd (vm_bind_device p vm)) s
      in mts_invalidate_cache s)"

abbreviation write_host ::
    "((u64 \<Rightarrow> u8) \<Rightarrow> (u64 \<Rightarrow> u8)) \<Rightarrow> 'd mips_vm \<Rightarrow> 'd mips_vm" where
  "write_host f s \<equiv> update_vm (host_mem_update f) s"

section \<open>Special accesses\<close>

text \<open>The result is the new value of \<open>*data\<close>.\<close>

definition mips64_access_special ::
    "'d mem_env \<Rightarrow> u64 \<Rightarrow> mts_acc \<Rightarrow> mips_memop \<Rightarrow> mts_op \<Rightarrow> nat \<Rightarrow> u64 \<Rightarrow> 'd mips_vm
     \<Rightarrow> (u64, 'd mips_vm) outcome" where
  "mips64_access_special env vaddr acc op_code op_type op_size data s =
     (case acc of
        MTS_ACC_U \<Rightarrow>
          (let data = (if op_type = MTS_READ then 0 else data) in
           case env_undef env of
             None \<Rightarrow> Ok data s
           | Some h \<Rightarrow> obind (h vaddr op_size op_type data s) (\<lambda>(_, data) s. Ok data s))
      | MTS_ACC_T \<Rightarrow>
          if op_code \<noteq> MIPS_MEMOP_LOOKUP then
            (let s = (if vaddr = 0 then vm_stop s else s);
                 s = set_cp0 MIPS_CP0_BADVADDR vaddr s;
                 s = (if op_type = MTS_READ
                      then mips64_trigger_exception MIPS_CP0_CAUSE_TLB_LOAD False s
                      else mips64_trigger_exception MIPS_CP0_CAUSE_TLB_SAVE False s)
             in LongJmp s)
          else Ok data s
      | MTS_ACC_AE \<Rightarrow>
          if op_code \<noteq> MIPS_MEMOP_LOOKUP then
            (let s = set_cp0 MIPS_CP0_BADVADDR vaddr s;
                 s = (if op_type = MTS_READ
                      then mips64_trigger_exception MIPS_CP0_CAUSE_ADDR_LOAD False s
                      else mips64_trigger_exception MIPS_CP0_CAUSE_ADDR_SAVE False s)
             in LongJmp s)
          else Ok data s)"

section \<open>The MTS cache\<close>

definition mts_hash :: "u64 \<Rightarrow> nat" where
  "mts_hash vaddr = unat (drop_bit 12 vaddr AND 0x3fff)"

text \<open>\<open>gvpa\<close> and \<open>gppa\<close> are 32 bits wide in \<open>mts32_entry_t\<close>.\<close>

definition mts_trunc :: "u32 \<Rightarrow> u64 \<Rightarrow> u64" where
  "mts_trunc asz a = (if asz = 64 then a else ucast (ucast a :: u32))"

definition set_mts_entry :: "nat \<Rightarrow> mts_entry \<Rightarrow> 'z cpu_mips_scheme \<Rightarrow> 'z cpu_mips_scheme" where
  "set_mts_entry b e c = c\<lparr>mts_cache := (mts_cache c)(b := e)\<rparr>"

text \<open>\<open>mts_map\<close>: fill the cache entry \<open>b\<close> for host memory, or describe a device access in
  \<open>alt_entry\<close>, whose \<open>gvpa\<close> and \<open>gppa\<close> are never set.\<close>

definition mts_map_entry ::
    "u32 \<Rightarrow> 'd mem_env \<Rightarrow> mts_op \<Rightarrow> mts_map \<Rightarrow> nat \<Rightarrow> 'd mips_vm \<Rightarrow> (mts_entry option, 'd mips_vm) outcome" where
  "mts_map_entry asz env op_type m b s =
     (case dev_lookup (map_paddr m) (map_cached m) (vm_inst s) of
        None \<Rightarrow> Ok None s
      | Some p \<Rightarrow>
          (let dev = vdevs (vm_inst s) p in
           if dev_flags dev AND VDEVICE_FLAG_SPARSE \<noteq> 0 then
             (case dev_sparse_get_host_addr p (map_paddr m) op_type (vm_inst s) of
                Ok (host_ptr, cow) vm \<Rightarrow>
                  (let e = \<lparr>gvpa = mts_trunc asz (map_vaddr m), gppa = mts_trunc asz (map_paddr m),
                            hpa = host_ptr, mts_flags = (if cow then MTS_FLAG_COW else 0)\<rparr>
                   in Ok (Some e) (set_mts_entry b e (s\<lparr>vm_inst := vm\<rparr>)))
              | LongJmp vm \<Rightarrow> LongJmp (s\<lparr>vm_inst := vm\<rparr>)
              | HostFault \<Rightarrow> HostFault
              | OutOfFuel \<Rightarrow> OutOfFuel)
           else if host_addr dev = 0 \<or> dev_flags dev AND VDEVICE_FLAG_NO_MTS_MMAP \<noteq> 0 then
             (let offset = (ucast ((map_paddr m + ucast (map_offset m)) - phys_addr dev) :: u32)
              in Ok (Some \<lparr>gvpa = env_uninit env s, gppa = env_uninit env s,
                           hpa = ucast (push_bit MTS_DEVID_SHIFT (dev_id dev) + offset),
                           mts_flags = MTS_FLAG_DEV\<rparr>) s)
           else
             (let e = \<lparr>gvpa = mts_trunc asz (map_vaddr m), gppa = mts_trunc asz (map_paddr m),
                       hpa = host_addr dev + (map_paddr m - phys_addr dev), mts_flags = 0\<rparr>
              in Ok (Some e) (set_mts_entry b e s))))"

text \<open>Where an address goes before the device lookup: a mapping, an address error or a TLB miss.\<close>

datatype mts_zone = Zone_map mts_map | Zone_AE | Zone_T

definition direct_map :: "u64 \<Rightarrow> u64 \<Rightarrow> bool \<Rightarrow> mts_map" where
  "direct_map vaddr base cached =
     (let va = vaddr AND MIPS_MIN_PAGE_MASK in
      \<lparr>map_vaddr = va, map_paddr = va - base, map_cached = cached, map_tlb_index = -1,
       map_offset = ucast (vaddr AND MIPS_MIN_PAGE_IMASK)\<rparr>)"

definition tlb_zone :: "u64 \<Rightarrow> 'z cpu_mips_scheme \<Rightarrow> mts_zone" where
  "tlb_zone vaddr c = (case mips64_cp0_tlb_lookup vaddr c of None \<Rightarrow> Zone_T | Some m \<Rightarrow> Zone_map m)"

definition mts32_zone :: "u64 \<Rightarrow> 'z cpu_mips_scheme \<Rightarrow> mts_zone" where
  "mts32_zone vaddr c =
     (let zone = (ucast (drop_bit 29 vaddr AND 0x7) :: u32) in
      if zone \<le> 0x03 then tlb_zone vaddr c
      else if zone = 0x04 then Zone_map (direct_map vaddr 0xFFFFFFFF80000000 True)
      else if zone = 0x05 then Zone_map (direct_map vaddr 0xFFFFFFFFA0000000 False)
      else tlb_zone vaddr c)"

definition mts64_zone :: "u64 \<Rightarrow> 'z cpu_mips_scheme \<Rightarrow> mts_zone" where
  "mts64_zone vaddr c =
     (let zone = (ucast (drop_bit 40 vaddr) :: u32) in
      if zone = 0x000000 \<or> zone = 0x400000 \<or> zone = 0xc00000 then tlb_zone vaddr c
      else if zone = 0xffffff then
        (let sub_zone = (ucast (drop_bit 29 vaddr AND 0x7FF) :: u32) in
         if sub_zone = 0x7fc then Zone_map (direct_map vaddr 0xFFFFFFFF80000000 True)
         else if sub_zone = 0x7fd then Zone_map (direct_map vaddr 0xFFFFFFFFA0000000 False)
         else if sub_zone = 0x7fe \<or> sub_zone = 0x7ff then tlb_zone vaddr c
         else Zone_AE)
      else if zone \<in> {0x800000, 0x880000, 0x900000, 0x980000, 0xa00000, 0xa80000, 0xb00000, 0xb80000} then
        (let cca = (ucast (drop_bit 59 vaddr) :: u32) AND 0x03 in
         Zone_map \<lparr>map_vaddr = vaddr AND MIPS_MIN_PAGE_MASK,
                   map_paddr = (vaddr AND 0xfffffffff) AND MIPS_MIN_PAGE_MASK,
                   map_cached = mips64_cca_cached cca, map_tlb_index = -1,
                   map_offset = ucast (vaddr AND MIPS_MIN_PAGE_IMASK)\<rparr>)
      else Zone_AE)"

definition mts_zone_of :: "u32 \<Rightarrow> u64 \<Rightarrow> 'z cpu_mips_scheme \<Rightarrow> mts_zone" where
  "mts_zone_of asz vaddr c = (if asz = 64 then mts64_zone vaddr c else mts32_zone vaddr c)"

text \<open>\<open>slow_lookup\<close>: the entry and the new \<open>*data\<close>.\<close>

definition mts_slow_lookup ::
    "u32 \<Rightarrow> 'd mem_env \<Rightarrow> u64 \<Rightarrow> mips_memop \<Rightarrow> nat \<Rightarrow> mts_op \<Rightarrow> u64 \<Rightarrow> 'd mips_vm
     \<Rightarrow> (mts_entry option \<times> u64, 'd mips_vm) outcome" where
  "mts_slow_lookup asz env vaddr op_code op_size op_type data s =
     (let b = mts_hash vaddr;
          special = (\<lambda>acc s. obind (mips64_access_special env vaddr acc op_code op_type op_size data s)
                                (\<lambda>data s. Ok (None, data) s))
      in case mts_zone_of asz vaddr s of
           Zone_T \<Rightarrow> special MTS_ACC_T s
         | Zone_AE \<Rightarrow> special MTS_ACC_AE s
         | Zone_map m \<Rightarrow>
             obind (mts_map_entry asz env op_type m b s)
               (\<lambda>e s. case e of None \<Rightarrow> special MTS_ACC_U s | Some e \<Rightarrow> Ok (Some e, data) s))"

text \<open>The virtual page address the access compares with \<open>gvpa\<close>.\<close>

definition mts_vpage :: "u32 \<Rightarrow> u64 \<Rightarrow> u64" where
  "mts_vpage asz vaddr = mts_trunc asz vaddr AND MIPS_MIN_PAGE_MASK"

definition dev_access_fast ::
    "'d mem_env \<Rightarrow> nat \<Rightarrow> u32 \<Rightarrow> nat \<Rightarrow> mts_op \<Rightarrow> u64 \<Rightarrow> 'd mips_vm \<Rightarrow> (u64 \<times> u64, 'd mips_vm) outcome" where
  "dev_access_fast env i offset op_size op_type data s =
     (case dev_array (vm_inst s) i of
        None \<Rightarrow> Ok (0, data) s
      | Some p \<Rightarrow> env_handler env (dev_handler (vdevs (vm_inst s) p)) p offset op_size op_type data s)"

definition mts_access ::
    "u32 \<Rightarrow> 'd mem_env \<Rightarrow> u64 \<Rightarrow> mips_memop \<Rightarrow> nat \<Rightarrow> mts_op \<Rightarrow> u64 \<Rightarrow> 'd mips_vm
     \<Rightarrow> (u64 \<times> u64, 'd mips_vm) outcome" where
  "mts_access asz env vaddr op_code op_size op_type data s =
     (let entry = mts_cache s (mts_hash vaddr);
          cow = (op_type = MTS_WRITE \<and> mts_flags entry AND MTS_FLAG_COW \<noteq> 0);
          raw = (\<lambda>e data s. Ok (hpa e + (vaddr AND MIPS_MIN_PAGE_IMASK), data) s)
      in if mts_vpage asz vaddr \<noteq> gvpa entry \<or> cow then
           obind (mts_slow_lookup asz env vaddr op_code op_size op_type data s)
             (\<lambda>(e, data) s.
                case e of
                  None \<Rightarrow> Ok (0, data) s
                | Some e \<Rightarrow>
                    if mts_flags e AND MTS_FLAG_DEV \<noteq> 0 then
                      dev_access_fast env (unat (drop_bit MTS_DEVID_SHIFT (hpa e AND MTS_DEVID_MASK)))
                        (ucast (hpa e AND MTS_DEVOFF_MASK)) op_size op_type data s
                    else raw e data s)
         else raw entry data s)"

text \<open>The result is the physical page, \<open>None\<close> for the return value -1.\<close>

definition mts_translate ::
    "u32 \<Rightarrow> 'd mem_env \<Rightarrow> u64 \<Rightarrow> 'd mips_vm \<Rightarrow> (u32 option, 'd mips_vm) outcome" where
  "mts_translate asz env vaddr s =
     (let entry = mts_cache s (mts_hash vaddr);
          page = (\<lambda>e. Some (ucast (drop_bit 12 (gppa e))))
      in if mts_vpage asz vaddr \<noteq> gvpa entry then
           obind (mts_slow_lookup asz env vaddr MIPS_MEMOP_LOOKUP 4 MTS_READ 0 s)
             (\<lambda>(e, _) s. Ok (case e of None \<Rightarrow> None | Some e \<Rightarrow> page e) s)
         else Ok (page entry) s)"

definition mts_lookup :: "u32 \<Rightarrow> 'd mem_env \<Rightarrow> u64 \<Rightarrow> 'd mips_vm \<Rightarrow> (u64, 'd mips_vm) outcome" where
  "mts_lookup asz env vaddr s =
     obind (mts_access asz env vaddr MIPS_MEMOP_LOOKUP 4 MTS_READ (env_uninit env s) s)
       (\<lambda>(haddr, _) s. Ok haddr s)"

section \<open>Memory operations\<close>

text \<open>The access and host read (write) that every load (store) begins (ends) with.\<close>

definition mts_read ::
    "u32 \<Rightarrow> 'd mem_env \<Rightarrow> ((u64 \<Rightarrow> u8) \<Rightarrow> u64 \<Rightarrow> u64) \<Rightarrow> u64 \<Rightarrow> mips_memop \<Rightarrow> nat \<Rightarrow> 'd mips_vm
     \<Rightarrow> (u64, 'd mips_vm) outcome" where
  "mts_read asz env rd vaddr op_code op_size s =
     obind (mts_access asz env vaddr op_code op_size MTS_READ (env_uninit env s) s)
       (\<lambda>(haddr, data) s. Ok (if haddr \<noteq> 0 then rd (host_mem (vm_inst s)) haddr else data) s)"

definition mts_write ::
    "u32 \<Rightarrow> 'd mem_env \<Rightarrow> (u64 \<Rightarrow> u64 \<Rightarrow> (u64 \<Rightarrow> u8) \<Rightarrow> (u64 \<Rightarrow> u8)) \<Rightarrow> u64 \<Rightarrow> mips_memop \<Rightarrow> nat \<Rightarrow> u64
     \<Rightarrow> 'd mips_vm \<Rightarrow> (unit, 'd mips_vm) outcome" where
  "mts_write asz env wr vaddr op_code op_size data s =
     obind (mts_access asz env vaddr op_code op_size MTS_WRITE data s)
       (\<lambda>(haddr, data) s. Ok () (if haddr \<noteq> 0 then write_host (wr haddr data) s else s))"

type_synonym 'd memop_fn = "u32 \<Rightarrow> 'd mem_env \<Rightarrow> u64 \<Rightarrow> nat \<Rightarrow> 'd mips_vm \<Rightarrow> (unit, 'd mips_vm) outcome"

subsection \<open>Aligned loads and stores\<close>

definition mts_lb :: "'d memop_fn" where
  "mts_lb asz env vaddr reg s =
     obind (mts_read asz env host_read8 vaddr MIPS_MEMOP_LB 1 s)
       (\<lambda>data s. Ok () (set_gpr reg (sign_extend data 8) s))"

definition mts_lbu :: "'d memop_fn" where
  "mts_lbu asz env vaddr reg s =
     obind (mts_read asz env host_read8 vaddr MIPS_MEMOP_LBU 1 s)
       (\<lambda>data s. Ok () (set_gpr reg (data AND 0xff) s))"

definition mts_lh :: "'d memop_fn" where
  "mts_lh asz env vaddr reg s =
     obind (mts_read asz env host_read16 vaddr MIPS_MEMOP_LH 2 s)
       (\<lambda>data s. Ok () (set_gpr reg (sign_extend data 16) s))"

definition mts_lhu :: "'d memop_fn" where
  "mts_lhu asz env vaddr reg s =
     obind (mts_read asz env host_read16 vaddr MIPS_MEMOP_LHU 2 s)
       (\<lambda>data s. Ok () (set_gpr reg (data AND 0xffff) s))"

definition mts_lw :: "'d memop_fn" where
  "mts_lw asz env vaddr reg s =
     obind (mts_read asz env host_read32 vaddr MIPS_MEMOP_LW 4 s)
       (\<lambda>data s. Ok () (set_gpr reg (sign_extend data 32) s))"

definition mts_lwu :: "'d memop_fn" where
  "mts_lwu asz env vaddr reg s =
     obind (mts_read asz env host_read32 vaddr MIPS_MEMOP_LWU 4 s)
       (\<lambda>data s. Ok () (set_gpr reg (data AND 0xffffffff) s))"

definition mts_ld :: "'d memop_fn" where
  "mts_ld asz env vaddr reg s =
     obind (mts_read asz env host_read64 vaddr MIPS_MEMOP_LD 8 s)
       (\<lambda>data s. Ok () (set_gpr reg data s))"

definition mts_sb :: "'d memop_fn" where
  "mts_sb asz env vaddr reg s =
     mts_write asz env host_write8 vaddr MIPS_MEMOP_SB 1 (gpr s reg AND 0xff) s"

definition mts_sh :: "'d memop_fn" where
  "mts_sh asz env vaddr reg s =
     mts_write asz env host_write16 vaddr MIPS_MEMOP_SH 2 (gpr s reg AND 0xffff) s"

definition mts_sw :: "'d memop_fn" where
  "mts_sw asz env vaddr reg s =
     mts_write asz env host_write32 vaddr MIPS_MEMOP_SW 4 (gpr s reg AND 0xffffffff) s"

definition mts_sd :: "'d memop_fn" where
  "mts_sd asz env vaddr reg s =
     mts_write asz env host_write64 vaddr MIPS_MEMOP_SD 8 (gpr s reg) s"

definition mts_ldc1 :: "'d memop_fn" where
  "mts_ldc1 asz env vaddr reg s =
     obind (mts_read asz env host_read64 vaddr MIPS_MEMOP_LDC1 8 s)
       (\<lambda>data s. Ok () (s\<lparr>fpu_reg := (fpu_reg s)(reg := data)\<rparr>))"

definition mts_sdc1 :: "'d memop_fn" where
  "mts_sdc1 asz env vaddr reg s =
     mts_write asz env host_write64 vaddr MIPS_MEMOP_SDC1 8 (fpu_reg s reg) s"

subsection \<open>Unaligned loads and stores\<close>

text \<open>The masks and merges of the unaligned operations. A shift by the full width is undefined in
  C; \<open>env_ub_shl\<close> and \<open>env_ub_shr\<close> give what the host computes for it.\<close>

definition shl64 :: "'d mem_env \<Rightarrow> u64 \<Rightarrow> nat \<Rightarrow> u64" where
  "shl64 env x n = (if n < 64 then push_bit n x else env_ub_shl env x n)"

definition shr64 :: "'d mem_env \<Rightarrow> u64 \<Rightarrow> nat \<Rightarrow> u64" where
  "shr64 env x n = (if n < 64 then drop_bit n x else env_ub_shr env x n)"

definition shr32 :: "'d mem_env \<Rightarrow> u32 \<Rightarrow> nat \<Rightarrow> u32" where
  "shr32 env x n = (if n < 32 then drop_bit n x else ucast (env_ub_shr env (ucast x) n))"

definition lwl_merge :: "u64 \<Rightarrow> u64 \<Rightarrow> u64 \<Rightarrow> u64" where
  "lwl_merge vaddr data r =
     (let m_shift = unat (vaddr AND 0x03) * 8;
          r_mask = push_bit m_shift 1 - 1;
          data = push_bit m_shift data
      in sign_extend ((r AND r_mask) OR data) 32)"

definition lwr_merge :: "u64 \<Rightarrow> u64 \<Rightarrow> u64 \<Rightarrow> u64" where
  "lwr_merge vaddr data r =
     (let m_shift = (unat (vaddr AND 0x03) + 1) * 8;
          r_mask = push_bit m_shift 1 - 1;
          data = sign_extend (drop_bit (32 - m_shift) data) 32;
          r_mask = sign_extend r_mask 32
      in (r AND NOT r_mask) OR data)"

definition ldl_merge :: "u64 \<Rightarrow> u64 \<Rightarrow> u64 \<Rightarrow> u64" where
  "ldl_merge vaddr data r =
     (let m_shift = unat (vaddr AND 0x07) * 8;
          r_mask = push_bit m_shift 1 - 1;
          data = push_bit m_shift data
      in (r AND r_mask) OR data)"

definition ldr_merge :: "'d mem_env \<Rightarrow> u64 \<Rightarrow> u64 \<Rightarrow> u64 \<Rightarrow> u64" where
  "ldr_merge env vaddr data r =
     (let m_shift = (unat (vaddr AND 0x07) + 1) * 8;
          r_mask = shl64 env 1 m_shift - 1;
          data = drop_bit (64 - m_shift) data
      in (r AND NOT r_mask) OR data)"

definition swl_merge :: "u64 \<Rightarrow> u64 \<Rightarrow> u64 \<Rightarrow> u64" where
  "swl_merge vaddr data r =
     (let r_shift = unat (vaddr AND 0x03) * 8;
          d_mask = ucast (drop_bit r_shift (0xffffffff :: u32))
      in (data AND NOT d_mask) OR drop_bit r_shift (r AND 0xffffffff))"

definition swr_merge :: "'d mem_env \<Rightarrow> u64 \<Rightarrow> u64 \<Rightarrow> u64 \<Rightarrow> u64" where
  "swr_merge env vaddr data r =
     (let r_shift = (unat (vaddr AND 0x03) + 1) * 8;
          d_mask = ucast (shr32 env 0xffffffff r_shift)
      in (data AND d_mask) OR (push_bit (32 - r_shift) r AND 0xffffffff))"

definition sdl_merge :: "u64 \<Rightarrow> u64 \<Rightarrow> u64 \<Rightarrow> u64" where
  "sdl_merge vaddr data r =
     (let r_shift = unat (vaddr AND 0x07) * 8;
          d_mask = drop_bit r_shift 0xffffffffffffffff
      in (data AND NOT d_mask) OR drop_bit r_shift r)"

definition sdr_merge :: "'d mem_env \<Rightarrow> u64 \<Rightarrow> u64 \<Rightarrow> u64 \<Rightarrow> u64" where
  "sdr_merge env vaddr data r =
     (let r_shift = (unat (vaddr AND 0x07) + 1) * 8;
          d_mask = shr64 env 0xffffffffffffffff r_shift
      in (data AND d_mask) OR push_bit (64 - r_shift) r)"

definition mts_lwl :: "'d memop_fn" where
  "mts_lwl asz env vaddr reg s =
     obind (mts_read asz env host_read32 (vaddr AND NOT 0x03) MIPS_MEMOP_LWL 4 s)
       (\<lambda>data s. Ok () (set_gpr reg (lwl_merge vaddr data (gpr s reg)) s))"

definition mts_lwr :: "'d memop_fn" where
  "mts_lwr asz env vaddr reg s =
     obind (mts_read asz env host_read32 (vaddr AND NOT 0x03) MIPS_MEMOP_LWR 4 s)
       (\<lambda>data s. Ok () (set_gpr reg (lwr_merge vaddr data (gpr s reg)) s))"

definition mts_ldl :: "'d memop_fn" where
  "mts_ldl asz env vaddr reg s =
     obind (mts_read asz env host_read64 (vaddr AND NOT 0x07) MIPS_MEMOP_LDL 8 s)
       (\<lambda>data s. Ok () (set_gpr reg (ldl_merge vaddr data (gpr s reg)) s))"

definition mts_ldr :: "'d memop_fn" where
  "mts_ldr asz env vaddr reg s =
     obind (mts_read asz env host_read64 (vaddr AND NOT 0x07) MIPS_MEMOP_LDR 8 s)
       (\<lambda>data s. Ok () (set_gpr reg (ldr_merge env vaddr data (gpr s reg)) s))"

definition mts_swl :: "'d memop_fn" where
  "mts_swl asz env vaddr reg s =
     obind (mts_read asz env host_read32 (vaddr AND NOT 0x03) MIPS_MEMOP_SWL 4 s)
       (\<lambda>data s. mts_write asz env host_write32 (vaddr AND NOT 0x03) MIPS_MEMOP_SWL 4
                   (swl_merge vaddr data (gpr s reg)) s)"

definition mts_swr :: "'d memop_fn" where
  "mts_swr asz env vaddr reg s =
     obind (mts_read asz env host_read32 (vaddr AND NOT 0x03) MIPS_MEMOP_SWR 4 s)
       (\<lambda>data s. mts_write asz env host_write32 (vaddr AND NOT 0x03) MIPS_MEMOP_SWR 4
                   (swr_merge env vaddr data (gpr s reg)) s)"

definition mts_sdl :: "'d memop_fn" where
  "mts_sdl asz env vaddr reg s =
     obind (mts_read asz env host_read64 (vaddr AND NOT 0x07) MIPS_MEMOP_SDL 8 s)
       (\<lambda>data s. mts_write asz env host_write64 (vaddr AND NOT 0x07) MIPS_MEMOP_SDL 8
                   (sdl_merge vaddr data (gpr s reg)) s)"

definition mts_sdr :: "'d memop_fn" where
  "mts_sdr asz env vaddr reg s =
     obind (mts_read asz env host_read64 (vaddr AND NOT 0x07) MIPS_MEMOP_SDR 8 s)
       (\<lambda>data s. mts_write asz env host_write64 (vaddr AND NOT 0x07) MIPS_MEMOP_SDR 8
                   (sdr_merge env vaddr data (gpr s reg)) s)"

subsection \<open>Load linked, store conditional, cache\<close>

definition mts_ll :: "'d memop_fn" where
  "mts_ll asz env vaddr reg s =
     obind (mts_read asz env host_read32 vaddr MIPS_MEMOP_LL 4 s)
       (\<lambda>data s. Ok () ((set_gpr reg (sign_extend data 32) s)\<lparr>ll_bit := 1\<rparr>))"

definition mts_sc :: "'d memop_fn" where
  "mts_sc asz env vaddr reg s =
     obind (if ll_bit s \<noteq> 0
            then mts_write asz env host_write32 vaddr MIPS_MEMOP_SC 4 (gpr s reg AND 0xffffffff) s
            else Ok () s)
       (\<lambda>_ s. Ok () (set_gpr reg (ucast (ll_bit s)) s))"

text \<open>The CACHE operation only drops a translated block of the JIT; without the JIT
  (\<open>exec_blk_map == NULL\<close>) it does nothing.\<close>

definition mts_cache_op :: "'d memop_fn" where
  "mts_cache_op asz env vaddr reg s = Ok () s"

text \<open>The vector \<open>mem_op_fn\<close> that \<open>init_memop_vectors\<close> installs for the address mode; the slot of
  \<open>MIPS_MEMOP_LOOKUP\<close> stays \<open>NULL\<close>.\<close>

definition mem_op_fn :: "mips_memop \<Rightarrow> 'd memop_fn option" where
  "mem_op_fn op =
     (case op of
        MIPS_MEMOP_LOOKUP \<Rightarrow> None
      | MIPS_MEMOP_LB \<Rightarrow> Some mts_lb | MIPS_MEMOP_LBU \<Rightarrow> Some mts_lbu
      | MIPS_MEMOP_LH \<Rightarrow> Some mts_lh | MIPS_MEMOP_LHU \<Rightarrow> Some mts_lhu
      | MIPS_MEMOP_LW \<Rightarrow> Some mts_lw | MIPS_MEMOP_LWU \<Rightarrow> Some mts_lwu
      | MIPS_MEMOP_LD \<Rightarrow> Some mts_ld
      | MIPS_MEMOP_SB \<Rightarrow> Some mts_sb | MIPS_MEMOP_SH \<Rightarrow> Some mts_sh
      | MIPS_MEMOP_SW \<Rightarrow> Some mts_sw | MIPS_MEMOP_SD \<Rightarrow> Some mts_sd
      | MIPS_MEMOP_LWL \<Rightarrow> Some mts_lwl | MIPS_MEMOP_LWR \<Rightarrow> Some mts_lwr
      | MIPS_MEMOP_LDL \<Rightarrow> Some mts_ldl | MIPS_MEMOP_LDR \<Rightarrow> Some mts_ldr
      | MIPS_MEMOP_SWL \<Rightarrow> Some mts_swl | MIPS_MEMOP_SWR \<Rightarrow> Some mts_swr
      | MIPS_MEMOP_SDL \<Rightarrow> Some mts_sdl | MIPS_MEMOP_SDR \<Rightarrow> Some mts_sdr
      | MIPS_MEMOP_LL \<Rightarrow> Some mts_ll | MIPS_MEMOP_SC \<Rightarrow> Some mts_sc
      | MIPS_MEMOP_LDC1 \<Rightarrow> Some mts_ldc1 | MIPS_MEMOP_SDC1 \<Rightarrow> Some mts_sdc1
      | MIPS_MEMOP_CACHE \<Rightarrow> Some mts_cache_op)"

definition mem_op :: "'d mem_env \<Rightarrow> mips_memop \<Rightarrow> u64 \<Rightarrow> nat \<Rightarrow> 'd mips_vm \<Rightarrow> (unit, 'd mips_vm) outcome" where
  "mem_op env op vaddr reg s =
     (case mem_op_fn op of None \<Rightarrow> HostFault | Some f \<Rightarrow> f (addr_mode s) env vaddr reg s)"

definition mem_op_lookup :: "'d mem_env \<Rightarrow> u64 \<Rightarrow> 'd mips_vm \<Rightarrow> (u64, 'd mips_vm) outcome" where
  "mem_op_lookup env vaddr s = mts_lookup (addr_mode s) env vaddr s"

section \<open>Accesses that hit the cache\<close>

text \<open>\<open>mts_hit asz vaddr h s\<close>: the cache maps \<open>vaddr\<close> to the host address \<open>h\<close>, not copy-on-write.\<close>

definition mts_hit :: "u32 \<Rightarrow> u64 \<Rightarrow> u64 \<Rightarrow> ('d, 'z) mips_vm_scheme \<Rightarrow> bool" where
  "mts_hit asz vaddr h s \<longleftrightarrow>
     (let e = mts_cache s (mts_hash vaddr) in
      mts_vpage asz vaddr = gvpa e \<and> mts_flags e AND MTS_FLAG_COW = 0 \<and>
      h = hpa e + (vaddr AND MIPS_MIN_PAGE_IMASK) \<and> h \<noteq> 0)"

lemma mts_hit_cong: "mts_cache s' = mts_cache s \<Longrightarrow> mts_hit asz vaddr h s' = mts_hit asz vaddr h s"
  by (simp add: mts_hit_def)

lemma mts_hit_frame [simp]:
  "mts_hit asz vaddr h (s\<lparr>gpr := g\<rparr>) = mts_hit asz vaddr h s"
  "mts_hit asz vaddr h (s\<lparr>ll_bit := l\<rparr>) = mts_hit asz vaddr h s"
  "mts_hit asz vaddr h (update_vm f s) = mts_hit asz vaddr h s"
  by (simp_all add: mts_hit_def)

lemma mts_access_hit:
  "mts_hit asz vaddr h s \<Longrightarrow> mts_access asz env vaddr op n ty data s = Ok (h, data) s"
  by (auto simp: mts_access_def mts_hit_def Let_def)

lemma mts_hit_nz: "mts_hit asz vaddr h s \<Longrightarrow> h \<noteq> 0"
  unfolding mts_hit_def Let_def by blast

lemma mts_read_hit [simp]:
  "mts_hit asz vaddr h s \<Longrightarrow> mts_read asz env rd vaddr op n s = Ok (rd (host_mem (vm_inst s)) h) s"
  by (simp add: mts_read_def mts_access_hit mts_hit_nz)

lemma mts_write_hit [simp]:
  "mts_hit asz vaddr h s \<Longrightarrow> mts_write asz env wr vaddr op n data s = Ok () (write_host (wr h data) s)"
  by (simp add: mts_write_def mts_access_hit mts_hit_nz)

lemma mask_take_bit: "(x AND 0xff :: u64) = take_bit 8 x" "(x AND 0xffff :: u64) = take_bit 16 x"
  "(x AND 0xffffffff :: u64) = take_bit 32 x"
  by (simp_all add: take_bit_eq_mask mask_eq_exp_minus_1)

text \<open>A small machine for the examples: page 0x1000 is cached, at host address 0x700000.\<close>

definition example_vm :: "unit mips_vm" where
  "example_vm = (undefined :: unit mips_vm)\<lparr>pc := 0x80001000, gpr := (\<lambda>_. 0)(4 := 0x89abcdef), ll_bit := 0,
     cp0_reg := (\<lambda>_. 0), tlb_entries := 48, addr_mode := 32, addr_bus_mask := -1,
     cp0_tlb := (\<lambda>_. \<lparr>te_mask = 0, te_hi = 0, te_lo0 = 0, te_lo1 = 0\<rparr>),
     mts_cache := (\<lambda>_. \<lparr>gvpa = 0x1000, gppa = 0x1000, hpa = 0x700000, mts_flags = 0\<rparr>),
     cpu_state := 0, vm_inst := empty_vm, njm_exec_page := 0, njm_exec_ptr := 0\<rparr>"

definition example_env :: "unit mem_env" where
  "example_env = \<lparr>env_handler = (\<lambda>_ _ _ _ _ d s. Ok (0, d) s), env_undef = None, env_uninit = (\<lambda>_. 0),
     env_ub_shl = (\<lambda>x n. push_bit (n mod 64) x), env_ub_shr = (\<lambda>x n. x)\<rparr>"

lemma example_vm_hit: "mts_hit (addr_mode example_vm) 0x1010 0x700010 example_vm"
  by (simp add: mts_hit_def example_vm_def Let_def mts_vpage_def mts_trunc_def)

text \<open>a word stored with SW and loaded back with LW at the same mapped address comes back as the
  sign extension of the low 32 bits of the source register; only the four bytes at the host
  address change, and no register but the target.\<close>

theorem sw_lw_roundtrip:
  assumes "mts_hit (addr_mode s) vaddr h s"
  shows "\<exists>s'. obind (mem_op env MIPS_MEMOP_SW vaddr src s) (\<lambda>_. mem_op env MIPS_MEMOP_LW vaddr dst) = Ok () s' \<and>
     gpr s' = (gpr s)(dst := sign_extend (take_bit 32 (gpr s src)) 32) \<and>
     (\<forall>b. b \<notin> {h, h + 1, h + 2, h + 3} \<longrightarrow> host_mem (vm_inst s') b = host_mem (vm_inst s) b) \<and>
     pc s' = pc s \<and> cp0_reg s' = cp0_reg s"
  using assms cell32.wr_frame [of _ h]
  by (simp add: mem_op_def mem_op_fn_def mts_sw_def mts_lw_def mask_take_bit host_read32_write32
    word_offsets_4 take_bit_take_bit)

theorem sw_lw_roundtrip_witness:
  "\<exists>s'. obind (mem_op example_env MIPS_MEMOP_SW 0x1010 4 example_vm) (\<lambda>_. mem_op example_env MIPS_MEMOP_LW 0x1010 5)
       = Ok () s' \<and> gpr s' 5 = sign_extend 0x89abcdef 32"
  using sw_lw_roundtrip [OF example_vm_hit, of example_env 4 5]
  by (auto simp: example_vm_def)

text \<open>likewise for 64-bit words: SD then LD at the same mapped address moves the register
  unchanged.\<close>

theorem sd_ld_roundtrip:
  assumes "mts_hit (addr_mode s) vaddr h s"
  shows "\<exists>s'. obind (mem_op env MIPS_MEMOP_SD vaddr src s) (\<lambda>_. mem_op env MIPS_MEMOP_LD vaddr dst) = Ok () s' \<and>
     gpr s' = (gpr s)(dst := gpr s src) \<and>
     (\<forall>b. (\<forall>i<8. b \<noteq> h + of_nat i) \<longrightarrow> host_mem (vm_inst s') b = host_mem (vm_inst s) b)"
proof -
  have "take_bit 64 v = v" for v :: u64 by (rule bit_word_eqI) (simp add: bit_simps)
  then show ?thesis
    using assms cell64.rd_wr [of h] cell64.wr_frame_neq [of _ h]
    by (simp add: mem_op_def mem_op_fn_def mts_sd_def mts_ld_def)
qed

theorem sd_ld_roundtrip_witness:
  "\<exists>s'. obind (mem_op example_env MIPS_MEMOP_SD 0x1010 4 example_vm) (\<lambda>_. mem_op example_env MIPS_MEMOP_LD 0x1010 5)
       = Ok () s' \<and> gpr s' 5 = 0x89abcdef"
  using sd_ld_roundtrip [OF example_vm_hit, of example_env 4 5]
  by (auto simp: example_vm_def)

text \<open>a load-linked word can be stored conditionally as long as the reservation stands: LL sets
  it, SC with it stores the word and reports 1, and SC without it (for example after ERET)
  leaves memory alone and reports 0.\<close>

theorem ll_sc_reservation:
  assumes "mts_hit (addr_mode s) vaddr h s"
  shows "(\<exists>s'. mem_op env MIPS_MEMOP_LL vaddr r s = Ok () s' \<and> ll_bit s' = 1 \<and>
           gpr s' r = sign_extend (host_read32 (host_mem (vm_inst s)) h) 32) \<and>
         (ll_bit s \<noteq> 0 \<longrightarrow> (\<exists>s'. mem_op env MIPS_MEMOP_SC vaddr r s = Ok () s' \<and> gpr s' r = ucast (ll_bit s) \<and>
           host_read32 (host_mem (vm_inst s')) h = take_bit 32 (gpr s r))) \<and>
         (ll_bit s = 0 \<longrightarrow> mem_op env MIPS_MEMOP_SC vaddr r s = Ok () (set_gpr r 0 s))"
  using assms
  by (simp_all add: mem_op_def mem_op_fn_def mts_ll_def mts_sc_def host_read32_write32 mask_take_bit take_bit_take_bit)

theorem ll_sc_reservation_witness:
  "\<exists>s'. mem_op example_env MIPS_MEMOP_LL 0x1010 5 example_vm = Ok () s' \<and> ll_bit s' = 1"
  using ll_sc_reservation [OF example_vm_hit, of example_env 5] by blast

section \<open>Misses\<close>

lemma mts_access_miss:
  "mts_vpage asz vaddr \<noteq> gvpa (mts_cache s (mts_hash vaddr)) \<Longrightarrow> mts_zone_of asz vaddr s = Zone_T \<Longrightarrow>
   op \<noteq> MIPS_MEMOP_LOOKUP \<Longrightarrow>
   mts_access asz env vaddr op n ty data s =
     (let s = (if vaddr = 0 then vm_stop s else s);
          s = set_cp0 MIPS_CP0_BADVADDR vaddr s
      in LongJmp (mips64_trigger_exception
            (if ty = MTS_READ then MIPS_CP0_CAUSE_TLB_LOAD else MIPS_CP0_CAUSE_TLB_SAVE) False s))"
  by (simp add: mts_access_def mts_slow_lookup_def mips64_access_special_def Let_def)

text \<open>C39: an access that misses the cache and finds no valid TLB entry leaves through \<open>longjmp\<close> with a
  TLB exception: BadVAddr holds the address, EPC the pc of the access (at base level), Cause
  the load or store code, the pc is the exception vector, and registers, memory and TLB are
  unchanged.\<close>

theorem tlb_miss_exception:
  assumes "mts_vpage asz vaddr \<noteq> gvpa (mts_cache s (mts_hash vaddr))" and "mts_zone_of asz vaddr s = Zone_T"
    and "op \<noteq> MIPS_MEMOP_LOOKUP"
  shows "\<exists>s'. mts_access asz env vaddr op n ty data s = LongJmp s' \<and>
     cp0_reg s' MIPS_CP0_BADVADDR = vaddr \<and>
     cp0_reg s' MIPS_CP0_EPC = (if exl_set s then cp0_reg s MIPS_CP0_EPC else pc s) \<and>
     drop_bit 2 (cp0_reg s' MIPS_CP0_CAUSE) AND mask 5 = (if ty = MTS_READ then 2 else 3) \<and>
     pc s' = (if bev_set s then 0xffffffffbfc00380 else 0xffffffff80000180) \<and>
     gpr s' = gpr s \<and> cp0_tlb s' = cp0_tlb s \<and> host_mem (vm_inst s') = host_mem (vm_inst s) \<and>
     (vaddr = 0 \<longrightarrow> cpu_state s' = CPU_STATE_HALTED \<and> vm_status (vm_inst s') = VM_STATUS_SHUTDOWN)"
proof -
  let ?s = "set_cp0 8 vaddr (if vaddr = 0 then vm_stop s else s)"
  let ?code = "if ty = MTS_READ then 2 else 3 :: u32"
  have st: "gpr (vm_stop s) = gpr s" "pc (vm_stop s) = pc s" "cp0_reg (vm_stop s) = cp0_reg s"
    "cp0_tlb (vm_stop s) = cp0_tlb s" "host_mem (vm_inst (vm_stop s)) = host_mem (vm_inst s)"
    by (simp_all add: vm_stop_def)
  have f: "cp0_reg ?s = (cp0_reg s)(8 := vaddr)" "pc ?s = pc s" "gpr ?s = gpr s" "cp0_tlb ?s = cp0_tlb s"
    "host_mem (vm_inst ?s) = host_mem (vm_inst s)"
    by (simp_all add: st)
  have inst: "vm_inst (mips64_trigger_exception c bd t) = vm_inst t"
    "cpu_state (mips64_trigger_exception c bd t) = cpu_state t" for c bd and t :: "'a mips_vm"
    by (simp_all add: mips64_trigger_exception_def Let_def)
  have bad: "cp0_reg (mips64_trigger_exception c bd t) 8 = cp0_reg t 8" for c bd and t :: "'a mips_vm"
    by (simp add: mips64_trigger_exception_def Let_def)
  have code: "drop_bit 2 (cp0_reg (mips64_trigger_exception ?code False ?s) 13) AND mask 5 = ucast ?code"
    unfolding trigger_exception_cause by (rule exc_code_of_cause) auto
  have stop: "vaddr = 0 \<longrightarrow> cpu_state ?s = 1 \<and> vm_status (vm_inst ?s) = 1"
    by (simp add: vm_stop_def)
  show ?thesis
    unfolding mts_access_miss [OF assms] Let_def
    using code stop by (simp add: st inst bad if_distrib [of ucast])
qed

theorem tlb_miss_exception_witness:
  "\<exists>s'. mts_access 32 example_env 0x5008 MIPS_MEMOP_LW 4 MTS_READ 0 example_vm = LongJmp s' \<and>
     cp0_reg s' MIPS_CP0_BADVADDR = 0x5008"
proof -
  have "mts_vpage 32 0x5008 \<noteq> gvpa (mts_cache example_vm (mts_hash 0x5008))"
    by (simp add: example_vm_def mts_vpage_def mts_trunc_def)
  moreover have "mips64_cp0_tlb_lookup 0x5008 example_vm = None"
    by (rule tlb_lookup_no_match)
      (simp add: example_vm_def mips64_cp0_get_vpn2_mask_def tlb_entry_matches_def)
  then have "mts_zone_of 32 0x5008 example_vm = Zone_T"
    by (simp add: mts_zone_of_def mts32_zone_def Let_def tlb_zone_def drop_bit_eq_div)
  ultimately show ?thesis
    using tlb_miss_exception [of 32 "0x5008" example_vm MIPS_MEMOP_LW example_env 4 MTS_READ 0] by auto
qed

section \<open>Unaligned words\<close>

text \<open>A big-endian word at any guest address of a byte memory \<open>g\<close>.\<close>

lemma host_read32_bits:
  "bit (host_read32 g a) k \<longleftrightarrow>
     (if k < 8 then bit (g (a + 3)) k else if k < 16 then bit (g (a + 2)) (k - 8)
      else if k < 24 then bit (g (a + 1)) (k - 16) else if k < 32 then bit (g a) (k - 24) else False)"
  by (auto simp: host_read32_def m_ntoh32_def bit_simps dest: bit_imp_le_length)

lemma and_not_mask_minus: "x AND NOT (mask n) = x - take_bit n (x :: u64)"
proof -
  have "(x AND NOT (mask n)) AND take_bit n x = 0" by (rule bit_word_eqI) (auto simp: bit_simps)
  then have "(x AND NOT (mask n)) + take_bit n x = (x AND NOT (mask n)) OR take_bit n x"
    by (rule disjunctive_add_eq_or)
  also have "\<dots> = x" by (rule bit_word_eqI) (auto simp: bit_simps)
  finally show ?thesis by (metis add_diff_cancel_right')
qed

lemma word_align: "x AND NOT 0x03 = x - take_bit 2 (x :: u64)" "x AND 0x03 = take_bit 2 (x :: u64)"
  "x AND NOT 0x07 = x - take_bit 3 (x :: u64)" "x AND 0x07 = take_bit 3 (x :: u64)"
proof -
  have m: "(0x03 :: u64) = mask 2" "(0x07 :: u64) = mask 3" by (simp_all add: mask_eq_exp_minus_1)
  show "x AND NOT 0x03 = x - take_bit 2 x" "x AND NOT 0x07 = x - take_bit 3 x"
    unfolding m by (rule and_not_mask_minus)+
  show "x AND 0x03 = take_bit 2 x" "x AND 0x07 = take_bit 3 x"
    unfolding m by (simp_all only: take_bit_eq_mask)
qed

lemma take_bit_add_aligned:
  assumes "take_bit n a = 0" "n \<le> 64" shows "take_bit n (a + k) = take_bit n (k :: u64)"
proof -
  have "take_bit n (unat a) = 0"
    using arg_cong [OF assms(1), of unat] by (simp only: unsigned_take_bit_eq unsigned_0)
  then have z: "unat a mod 2 ^ n = 0" by (simp only: take_bit_eq_mod)
  have u: "unat (take_bit n w) = unat w mod 2 ^ n" for w :: u64
    by (simp only: unsigned_take_bit_eq) (simp only: take_bit_eq_mod)
  have "unat (take_bit n (a + k)) = ((unat a + unat k) mod 2 ^ 64) mod 2 ^ n"
    by (simp add: u unat_word_ariths)
  also have "\<dots> = (unat a + unat k) mod 2 ^ n"
    by (rule mod_mod_cancel) (rule le_imp_power_dvd [OF assms(2)])
  also have "\<dots> = unat k mod 2 ^ n" by (metis z add_0 mod_add_left_eq)
  also have "\<dots> = unat (take_bit n k)" by (simp only: u)
  finally show ?thesis by (simp only: word_unat_eq_iff)
qed

lemma unaligned_cases:
  obtains a i where "va = a + of_nat i" "take_bit n a = (0 :: u64)" "i < 2 ^ n"
proof
  show "va = (va - take_bit n va) + of_nat (unat (take_bit n va))" by simp
  have "take_bit n (va AND NOT (mask n)) = 0" by (rule bit_word_eqI) (auto simp: bit_simps)
  then show "take_bit n (va - take_bit n va) = 0" by (simp only: and_not_mask_minus)
  show "unat (take_bit n va) < 2 ^ n" by (rule unat_take_bit_less)
qed

lemma less4_cases: "i < 2 ^ 2 \<Longrightarrow> i = 0 \<or> i = 1 \<or> i = 2 \<or> i = (3 :: nat)"
  by auto

lemmas unaligned_simps = word_align take_bit_add_aligned add.assoc

lemma lwl_lwr_merge:
  "lwr_merge (va + 3) (host_read32 g ((va + 3) AND NOT 0x03))
     (lwl_merge va (host_read32 g (va AND NOT 0x03)) r) = sign_extend (host_read32 g va) 32"
proof -
  obtain a i where va: "va = a + of_nat i" "take_bit 2 a = 0" "i < 2 ^ 2" by (rule unaligned_cases)
  have t: "take_bit 2 (a + k) = take_bit 2 k" for k using va(2) by (rule take_bit_add_aligned) simp
  from less4_cases [OF va(3)] show ?thesis
  proof (elim disjE)
    assume "i = 0"
    then show ?thesis unfolding va(1) lwr_merge_def lwl_merge_def Let_def word_align push_bit_one_minus_one
      by (simp add: t va(2) add.assoc)
  next
    assume "i = 1"
    then show ?thesis unfolding va(1) lwr_merge_def lwl_merge_def Let_def word_align push_bit_one_minus_one
      by (simp add: t va(2) add.assoc) (rule bit_word_eqI, auto simp: bit_simps bit_sign_extend host_read32_bits min_def ac_simps)
  next
    assume "i = 2"
    then show ?thesis unfolding va(1) lwr_merge_def lwl_merge_def Let_def word_align push_bit_one_minus_one
      by (simp add: t va(2) add.assoc) (rule bit_word_eqI, auto simp: bit_simps bit_sign_extend host_read32_bits min_def ac_simps)
  next
    assume "i = 3"
    then show ?thesis unfolding va(1) lwr_merge_def lwl_merge_def Let_def word_align push_bit_one_minus_one
      by (simp add: t va(2) add.assoc) (rule bit_word_eqI, auto simp: bit_simps bit_sign_extend host_read32_bits min_def ac_simps)
  qed
qed

lemma mask32: "(0xffffffff :: u32) = mask 32" "(0xffffffff :: u64) = mask 32"
  "(0xffffffffffffffff :: u64) = mask 64"
  by (simp_all add: mask_eq_exp_minus_1)

lemma swl_merge_bits:
  "bit (swl_merge va data r) k \<longleftrightarrow>
     (let i = unat (take_bit 2 va) * 8 in
      if k < 32 - i then bit r (i + k) \<and> i + k < 32 else bit data k)"
proof -
  have "unat (take_bit 2 va) < 4" using unat_take_bit_less [of 2 va] by simp
  then show ?thesis
    unfolding swl_merge_def Let_def word_align mask32
    by (auto simp: bit_simps add.commute dest: bit_imp_le_length)
qed

lemma swr_merge_bits:
  assumes "data = take_bit 32 data"
  shows "bit (swr_merge env va data r) k \<longleftrightarrow>
     (let s = 32 - (unat (take_bit 2 va) + 1) * 8 in
      if s = 0 then k < 32 \<and> bit r k \<or> bit data k \<and> bit (ucast (env_ub_shr env 0xffffffff 32) :: u32) k
      else if k < s then bit data k else k < 32 \<and> bit r (k - s))"
proof -
  have l: "unat (take_bit 2 va) < 4" using unat_take_bit_less [of 2 va] by simp
  have d: "\<not> bit data k" if "32 \<le> k" using assms that by (metis bit_take_bit_iff not_less)
  have e: "(ucast (mask 32 :: u32) :: u64) = mask 32" by (rule bit_word_eqI) (auto simp: bit_simps)
  show ?thesis
  proof (cases "unat (take_bit 2 va) = 3")
    case True
    then show ?thesis
      unfolding swr_merge_def Let_def word_align mask32 shr32_def
      using d by (auto simp: bit_simps e)
  next
    case False
    with l have "unat (take_bit 2 va) < 3" by simp
    then show ?thesis
      unfolding swr_merge_def Let_def word_align mask32 shr32_def
      using d by (auto simp: bit_simps)
  qed
qed

lemma byte_eqI: "(\<And>k. k < 8 \<Longrightarrow> bit (x :: u8) k = bit y k) \<Longrightarrow> x = y"
  by (rule bit_word_eqI) simp

lemma host_write32_at:
  "host_write32 a v m a = ucast (drop_bit 24 v)" "host_write32 a v m (a + 1) = ucast (drop_bit 16 v)"
  "host_write32 a v m (a + 2) = ucast (drop_bit 8 v)" "host_write32 a v m (a + 3) = ucast v"
  by (simp_all add: host_write32_def)

lemma host_read32_short: "take_bit 32 (host_read32 g a) = host_read32 g a"
  by (rule bit_word_eqI) (auto simp: bit_simps host_read32_bits)

text \<open>What the pair stores, as a memory: the register's bytes at \<open>va .. va+3\<close>.\<close>

lemma swl_swr_merge:
  fixes g :: "u64 \<Rightarrow> u8" and va r :: u64 and env :: "'d mem_env"
  defines "g1 \<equiv> host_write32 (va AND NOT 0x03) (swl_merge va (host_read32 g (va AND NOT 0x03)) r) g"
  defines "g2 \<equiv> host_write32 ((va + 3) AND NOT 0x03)
             (swr_merge env (va + 3) (host_read32 g1 ((va + 3) AND NOT 0x03)) r) g1"
  shows "g2 = host_write32 va r g"
proof -
  obtain a i where va: "va = a + of_nat i" "take_bit 2 a = 0" "i < 2 ^ 2" by (rule unaligned_cases)
  have t: "take_bit 2 (a + k) = take_bit 2 k" for k using va(2) by (rule take_bit_add_aligned) simp
  note defs = g2_def g1_def va(1) word_align
  note bits = swl_merge_bits swr_merge_bits [OF host_read32_short [symmetric]] Let_def host_read32_bits bit_simps
  from less4_cases [OF va(3)] show ?thesis
  proof (elim disjE)
    assume "i = 0"
    then show ?thesis unfolding defs
      by (intro ext) (auto simp: t va(2) host_write32_def add.assoc bits intro!: byte_eqI)
  next
    assume "i = 1"
    then show ?thesis unfolding defs
      by (intro ext) (auto simp: t va(2) host_write32_def add.assoc bits intro!: byte_eqI)
  next
    assume "i = 2"
    then show ?thesis unfolding defs
      by (intro ext) (auto simp: t va(2) host_write32_def add.assoc bits intro!: byte_eqI)
  next
    assume "i = 3"
    then show ?thesis unfolding defs
      by (intro ext) (auto simp: t va(2) host_write32_def add.assoc bits intro!: byte_eqI)
  qed
qed

text \<open>C24: for every address, aligned or not, LWL at \<open>va\<close> followed by LWR at \<open>va + 3\<close> loads the
  big-endian word of the guest bytes \<open>va .. va + 3\<close>, sign-extended; the two aligned words it spans
  may lie in different pages.\<close>

theorem lwl_lwr_unaligned_load:
  assumes "mts_hit (addr_mode s) (va AND NOT 0x03) h0 s" and "mts_hit (addr_mode s) ((va + 3) AND NOT 0x03) h1 s"
    and "\<forall>k<4. g ((va AND NOT 0x03) + of_nat k) = host_mem (vm_inst s) (h0 + of_nat k)"
    and "\<forall>k<4. g (((va + 3) AND NOT 0x03) + of_nat k) = host_mem (vm_inst s) (h1 + of_nat k)"
  shows "obind (mem_op env MIPS_MEMOP_LWL va r s) (\<lambda>_. mem_op env MIPS_MEMOP_LWR (va + 3) r)
     = Ok () (set_gpr r (sign_extend (host_read32 g va) 32) s)"
proof -
  have rd: "host_read32 m h = host_read32 g a" if "\<forall>k<4. g (a + of_nat k) = m (h + of_nat k)" for m :: "u64 \<Rightarrow> u8" and h a
    using that [rule_format, of 0] that [rule_format, of 1] that [rule_format, of 2] that [rule_format, of 3]
    by (simp add: host_read32_def)
  have 0: "mts_read (addr_mode s) env host_read32 (va AND NOT 0x03) MIPS_MEMOP_LWL 4 s
      = Ok (host_read32 g (va AND NOT 0x03)) s"
    unfolding mts_read_hit [OF assms(1)] rd [OF assms(3)] ..
  have 1: "mts_read (addr_mode s) env host_read32 ((va + 3) AND NOT 0x03) MIPS_MEMOP_LWR 4 (set_gpr r v s)
      = Ok (host_read32 g ((va + 3) AND NOT 0x03)) (set_gpr r v s)" for v
    using assms(2) rd [OF assms(4)] by (subst mts_read_hit) simp_all
  show ?thesis
    unfolding mem_op_def mem_op_fn_def mips_memop.case option.case mts_lwl_def 0 obind_simps
      cpu_mips.select_convs cpu_mips.simps mts_lwr_def
    using 1 lwl_lwr_merge [of va g "gpr s r"] by simp
qed

theorem lwl_lwr_unaligned_load_witness:
  "obind (mem_op example_env MIPS_MEMOP_LWL 0x1011 5 example_vm) (\<lambda>_. mem_op example_env MIPS_MEMOP_LWR (0x1011 + 3) 5)
     = Ok () (set_gpr 5 (sign_extend (host_read32 (\<lambda>_. 0) 0x1011) 32) example_vm)"
proof (rule lwl_lwr_unaligned_load)
  show "mts_hit (addr_mode example_vm) (0x1011 AND NOT 0x03) 0x700010 example_vm"
    "mts_hit (addr_mode example_vm) ((0x1011 + 3) AND NOT 0x03) 0x700014 example_vm"
    by (simp_all add: mts_hit_def example_vm_def Let_def mts_vpage_def mts_trunc_def)
qed (simp_all add: example_vm_def empty_vm_def)

lemma add_diff_inverse_u64: "d + (y - d) = (y :: u64)"
  by simp

lemma host_write32_shift:
  "host_write32 (d + a) v m (d + x) = host_write32 a v (\<lambda>x. m (d + x)) x"
  by (simp add: host_write32_def add.assoc)

text \<open>C28: for every address, aligned or not, SWL at \<open>va\<close> followed by SWR at \<open>va + 3\<close> stores the low
  word of the register big-endian at exactly the bytes \<open>va .. va + 3\<close>, for any result the host
  gives for the full-width shift of SWR. The guest addresses map to host addresses at the
  distance \<open>d\<close>.\<close>

theorem swl_swr_unaligned_store:
  assumes "mts_hit (addr_mode s) (va AND NOT 0x03) (d + (va AND NOT 0x03)) s"
    and "mts_hit (addr_mode s) ((va + 3) AND NOT 0x03) (d + ((va + 3) AND NOT 0x03)) s"
  shows "obind (mem_op env MIPS_MEMOP_SWL va r s) (\<lambda>_. mem_op env MIPS_MEMOP_SWR (va + 3) r)
     = Ok () (write_host (host_write32 (d + va) (gpr s r)) s)"
proof -
  let ?m = "host_mem (vm_inst s)" and ?a0 = "va AND NOT 0x03" and ?a1 = "(va + 3) AND NOT 0x03"
  let ?g = "\<lambda>x. ?m (d + x)" and ?r = "gpr s r"
  let ?m1 = "host_write32 (d + ?a0) (swl_merge va (host_read32 ?m (d + ?a0)) ?r) ?m"
  let ?g1 = "host_write32 ?a0 (swl_merge va (host_read32 ?g ?a0) ?r) ?g"
  let ?m2 = "host_write32 (d + ?a1) (swr_merge env (va + 3) (host_read32 ?m1 (d + ?a1)) ?r) ?m1"
  have rd: "host_read32 m (d + a) = host_read32 (\<lambda>x. m (d + x)) a" for m a
    by (simp add: host_read32_def add.assoc)
  have g1: "(\<lambda>x. ?m1 (d + x)) = ?g1" unfolding host_write32_shift rd ..
  have r1: "host_read32 ?m1 (d + ?a1) = host_read32 ?g1 ?a1" unfolding rd [of ?m1] g1 ..
  have "?m2 (d + x) = host_write32 ?a1 (swr_merge env (va + 3) (host_read32 ?m1 (d + ?a1)) ?r)
      (\<lambda>x. ?m1 (d + x)) x" for x by (rule host_write32_shift)
  then have "?m2 (d + x) = host_write32 ?a1 (swr_merge env (va + 3) (host_read32 ?g1 ?a1) ?r) ?g1 x" for x
    unfolding r1 g1 .
  then have "?m2 (d + x) = host_write32 va ?r ?g x" for x by (simp only: swl_swr_merge)
  then have shifted: "?m2 (d + x) = host_write32 (d + va) ?r ?m (d + x)" for x
    by (simp only: host_write32_shift)
  have "?m2 y = host_write32 (d + va) ?r ?m y" for y
    using shifted [of "y - d"] by (simp only: add_diff_inverse_u64)
  then have m2: "?m2 = host_write32 (d + va) ?r ?m" by blast
  let ?s1 = "write_host (host_write32 (d + ?a0) (swl_merge va (host_read32 ?m (d + ?a0)) ?r)) s"
  have h1: "mts_hit (addr_mode s) ?a1 (d + ?a1) ?s1" using assms(2) by simp
  have 1: "mem_op env MIPS_MEMOP_SWL va r s = Ok () ?s1"
    unfolding mem_op_def mem_op_fn_def mips_memop.case option.case mts_swl_def
      mts_read_hit [OF assms(1)] obind_simps mts_write_hit [OF assms(1)] ..
  have am: "addr_mode ?s1 = addr_mode s" and gr: "gpr ?s1 = gpr s" and hm: "host_mem (vm_inst ?s1) = ?m1" by simp_all
  have 2: "mem_op env MIPS_MEMOP_SWR (va + 3) r ?s1 = Ok () (write_host (host_write32 (d + ?a1)
      (swr_merge env (va + 3) (host_read32 ?m1 (d + ?a1)) ?r)) ?s1)"
    unfolding mem_op_def mem_op_fn_def mips_memop.case option.case am mts_swr_def
      mts_read_hit [OF h1] obind_simps mts_write_hit [OF h1] gr hm ..
  show ?thesis unfolding 1 obind_simps 2 using m2 by simp
qed

theorem swl_swr_unaligned_store_witness:
  "obind (mem_op example_env MIPS_MEMOP_SWL 0x1011 4 example_vm) (\<lambda>_. mem_op example_env MIPS_MEMOP_SWR (0x1011 + 3) 4)
     = Ok () (write_host (host_write32 (0x6ff000 + 0x1011) (gpr example_vm 4)) example_vm)"
proof (rule swl_swr_unaligned_store)
  show "mts_hit (addr_mode example_vm) (0x1011 AND NOT 0x03) (0x6ff000 + (0x1011 AND NOT 0x03)) example_vm"
    "mts_hit (addr_mode example_vm) ((0x1011 + 3) AND NOT 0x03) (0x6ff000 + ((0x1011 + 3) AND NOT 0x03)) example_vm"
    by (simp_all add: mts_hit_def example_vm_def Let_def mts_vpage_def mts_trunc_def)
qed

text \<open>The full-width shift of SWR on a host that takes shift counts modulo 32 (x86): storing the whole
  word leaves the old bits or-ed in.\<close>

lemma swr_full_word_or:
  assumes "va AND 0x03 = 3" and "data = take_bit 32 data" and "env_ub_shr env 0xffffffff 32 = 0xffffffff"
  shows "swr_merge env va data r = data OR take_bit 32 r"
proof (rule bit_word_eqI)
  fix k assume "k < LENGTH(64)"
  have t: "take_bit 2 va = 3" using assms(1) by (simp only: word_align)
  have u: "(ucast (env_ub_shr env 0xffffffff 32) :: u32) = mask 32"
    unfolding assms(3) by (simp add: mask_eq_exp_minus_1)
  have "bit data k \<Longrightarrow> k < 32" using assms(2) by (metis bit_take_bit_iff)
  then show "bit (swr_merge env va data r) k = bit (data OR take_bit 32 r) k"
    unfolding swr_merge_bits [OF assms(2)] Let_def t u by (auto simp: bit_simps)
qed

end
