(* ===== verification/Mips64Mts.thy ===== *)
theory Mips64Mts
  imports Mips64Mem
begin

text \<open>
  Correctness of the MTS translation cache of \<open>mips64_mem.c\<close> and \<open>mips_mts.c\<close>: what a cached entry
  must be (\<open>ram_entry\<close>, the translation recomputed from the TLB, the segments and the device
  list), that a coherent cache is transparent, and which operations keep it coherent. The
  argument is made once for any direct-mapped cache in the locale \<open>translation_cache\<close>, and
  interpreted on the model's hash, tag and entry for both address sizes.
\<close>

section \<open>What an entry must be\<close>

definition ram_entry :: "u32 \<Rightarrow> 'd mips_vm \<Rightarrow> u64 \<Rightarrow> mts_entry option" where
  "ram_entry asz s vaddr =
     (case mts_zone_of asz vaddr s of
        Zone_map m \<Rightarrow>
          (case dev_lookup (map_paddr m) (map_cached m) (vm_inst s) of
             None \<Rightarrow> None
           | Some p \<Rightarrow>
               (let dev = vdevs (vm_inst s) p in
                if host_addr dev = 0 \<or> dev_flags dev AND VDEVICE_FLAG_NO_MTS_MMAP \<noteq> 0 then None
                else Some \<lparr>gvpa = mts_trunc asz (map_vaddr m), gppa = mts_trunc asz (map_paddr m),
                           hpa = host_addr dev + (map_paddr m - phys_addr dev), mts_flags = 0\<rparr>))
      | _ \<Rightarrow> None)"

text \<open>The addresses a program in the address mode can form, and TLB page masks in units of 8 KB.\<close>

definition canonical :: "u32 \<Rightarrow> u64 \<Rightarrow> bool" where
  "canonical asz vaddr \<longleftrightarrow> asz = 64 \<or> asz = 32 \<and> vaddr = sign_extend vaddr 32"

definition tlb_masks_ok :: "'z cpu_mips_scheme \<Rightarrow> bool" where
  "tlb_masks_ok c \<longleftrightarrow> (\<forall>i. te_mask (cp0_tlb c i) AND 0x1fff = 0)"

definition no_sparse :: "'d vm_instance \<Rightarrow> bool" where
  "no_sparse vm \<longleftrightarrow> (\<forall>p\<in>set (dev_list vm). dev_flags (vdevs vm p) AND VDEVICE_FLAG_SPARSE = 0)"

definition mts_coherent :: "u32 \<Rightarrow> 'd mips_vm \<Rightarrow> bool" where
  "mts_coherent asz s \<longleftrightarrow>
     cache_coherent mts_hash (mts_vpage asz) gvpa (\<lambda>a. canonical asz a \<and> tlb_masks_ok s) (ram_entry asz s) (mts_cache s)"

section \<open>Addresses of the same page\<close>

definition same_page :: "u64 \<Rightarrow> u64 \<Rightarrow> bool" where
  "same_page a b \<longleftrightarrow> (\<forall>n\<ge>12. bit a n = bit b n)"

lemma same_page_drop: "same_page a b \<Longrightarrow> 12 \<le> k \<Longrightarrow> drop_bit k a = drop_bit k b"
  by (rule bit_word_eqI) (simp add: same_page_def bit_simps)

lemma same_page_and:
  assumes "same_page a b" "m AND mask 12 = 0" shows "a AND m = b AND m"
proof (rule bit_word_eqI)
  fix n
  have "\<not> (bit m n \<and> n < 12)" if "n < LENGTH(64)"
  proof -
    have "bit (m AND mask 12) n = bit (0 :: u64) n" using assms(2) by simp
    with that show ?thesis by (simp add: bit_and_iff bit_mask_iff)
  qed
  moreover assume "n < LENGTH(64)"
  ultimately show "bit (a AND m) n = bit (b AND m) n"
    using assms(1) unfolding same_page_def bit_and_iff by (metis not_less)
qed

lemma same_page_numerals:
  assumes "same_page a b"
  shows "a AND 0xfffffffffffff000 = b AND 0xfffffffffffff000"
    and "a AND 0xffffe000 = b AND 0xffffe000" and "a AND 0xc00000ffffffe000 = b AND 0xc00000ffffffe000"
    and "(a AND 0xfffffffff) AND 0xfffffffffffff000 = (b AND 0xfffffffff) AND 0xfffffffffffff000"
  using same_page_and [OF assms, of "0xfffffffffffff000"] same_page_and [OF assms, of "0xffffe000"]
    same_page_and [OF assms, of "0xc00000ffffffe000"] same_page_and [OF assms, of "0xffffff000"]
  by (simp_all add: mask_eq_exp_minus_1 and.assoc)

lemma vpage_same_page:
  assumes "canonical asz a" "canonical asz b" "mts_vpage asz a = mts_vpage asz b"
  shows "same_page a b"
proof -
  have v: "bit (mts_vpage asz x) n \<longleftrightarrow> 12 \<le> n \<and> bit x n \<and> (asz = 64 \<or> n < 32)" for x n
    unfolding mts_vpage_def mts_trunc_def page_mask_is_not_mask
    by (auto simp: bit_simps dest: bit_imp_le_length)
  have eq: "bit a n = bit b n" if "12 \<le> n" "asz = 64 \<or> n < 32" for n
    using v [of a n] v [of b n] assms(3) that by simp
  show ?thesis
  proof (cases "asz = 64")
    case True
    then show ?thesis using eq by (simp add: same_page_def)
  next
    case False
    then have c: "a = sign_extend a 32" "b = sign_extend b 32" using assms(1,2) by (auto simp: canonical_def)
    have "bit a n = bit b n" if "12 \<le> n" for n
    proof -
      have "bit a n \<longleftrightarrow> n < 64 \<and> bit a (min n 31)" "bit b n \<longleftrightarrow> n < 64 \<and> bit b (min n 31)"
        using bit_sign_extend [of 32 a n] bit_sign_extend [of 32 b n] c by simp_all
      moreover have "bit a (min n 31) = bit b (min n 31)" using that by (intro eq) auto
      ultimately show ?thesis by simp
    qed
    then show ?thesis by (simp add: same_page_def)
  qed
qed

lemma page_size_low_zero:
  assumes "te_mask e AND 0x1fff = (0 :: u64)"
  shows "ucast (get_page_size (ucast (te_mask e))) AND mask 12 = (0 :: u64)"
proof -
  let ?m = "ucast (te_mask e) :: u32"
  have lo: "take_bit 13 ?m = 0"
  proof (rule bit_word_eqI)
    fix n
    have "bit (te_mask e AND mask 13) n = bit (0 :: u64) n" using assms by (simp add: mask_eq_exp_minus_1)
    then show "bit (take_bit 13 ?m) n = bit (0 :: u32) n"
      by (auto simp: bit_simps dest: bit_imp_le_length)
  qed
  have "unat (take_bit 13 w) = unat w mod 2 ^ 13" for w :: u32
    by (simp only: unsigned_take_bit_eq) (simp only: take_bit_eq_mod)
  note u = this
  have "unat ?m mod 8192 = 0" using u [of ?m] lo by simp
  then have "unat (take_bit 13 (?m + 0x2000)) = 0"
    unfolding u unat_word_ariths by (simp add: mod_mod_cancel mod_add_left_eq [symmetric, of "unat ?m"])
  then have "take_bit 13 (?m + 0x2000) = 0" by (simp only: unat_eq_0)
  then have b: "\<not> bit (?m + 0x2000) n" if "n < 13" for n
  proof -
    have "bit (take_bit 13 (?m + 0x2000)) n = bit (0 :: u32) n" using \<open>take_bit 13 (?m + 0x2000) = 0\<close> by (simp only:)
    with that show ?thesis by (simp add: bit_take_bit_iff)
  qed
  show ?thesis
    by (rule bit_word_eqI) (auto simp: get_page_size_def bit_simps b)
qed

section \<open>The entry depends on the page only\<close>

text \<open>A zone without the offset of the access in its page.\<close>

definition zone_page :: "mts_zone \<Rightarrow> mts_zone" where
  "zone_page z = (case z of Zone_map m \<Rightarrow> Zone_map (m\<lparr>map_offset := 0\<rparr>) | _ \<Rightarrow> z)"

lemma direct_map_page:
  "same_page a b \<Longrightarrow> (direct_map a base cached)\<lparr>map_offset := 0\<rparr> = (direct_map b base cached)\<lparr>map_offset := 0\<rparr>"
  using same_page_numerals(1) [of a b] by (simp add: direct_map_def Let_def)

lemma tlb_map_half_page:
  "same_page a b \<Longrightarrow>
   map_option (\<lambda>m. m\<lparr>map_offset := 0\<rparr>) (tlb_map_half a bus ps lo i) =
   map_option (\<lambda>m. m\<lparr>map_offset := 0\<rparr>) (tlb_map_half b bus ps lo i)"
  using same_page_numerals(1) [of a b] by (simp add: tlb_map_half_def Let_def)

lemma tlb_lookup_page:
  assumes "same_page a b" "tlb_masks_ok c"
  shows "map_option (\<lambda>m. m\<lparr>map_offset := 0\<rparr>) (mips64_cp0_tlb_lookup a c) =
         map_option (\<lambda>m. m\<lparr>map_offset := 0\<rparr>) (mips64_cp0_tlb_lookup b c)"
proof -
  have vpn: "a AND mips64_cp0_get_vpn2_mask c = b AND mips64_cp0_get_vpn2_mask c"
    using same_page_numerals(2,3) [OF assms(1)] by (simp add: mips64_cp0_get_vpn2_mask_def)
  have ps: "a AND ucast (get_page_size (ucast (te_mask (cp0_tlb c i))))
          = b AND ucast (get_page_size (ucast (te_mask (cp0_tlb c i))))" for i
    using assms(2) by (intro same_page_and [OF assms(1)] page_size_low_zero) (simp add: tlb_masks_ok_def)
  show ?thesis
    unfolding mips64_cp0_tlb_lookup_def Let_def vpn
    using tlb_map_half_page [OF assms(1)] by (simp add: ps split: option.split)
qed

lemma tlb_zone_page:
  assumes "same_page a b" "tlb_masks_ok c" shows "zone_page (tlb_zone a c) = zone_page (tlb_zone b c)"
  using tlb_lookup_page [OF assms]
  by (cases "mips64_cp0_tlb_lookup a c"; cases "mips64_cp0_tlb_lookup b c")
    (auto simp: tlb_zone_def zone_page_def)

lemma mts_zone_page:
  assumes "same_page a b" "tlb_masks_ok c"
  shows "zone_page (mts_zone_of asz a c) = zone_page (mts_zone_of asz b c)"
proof -
  note d = same_page_drop [OF assms(1)]
  have "zone_page (mts32_zone a c) = zone_page (mts32_zone b c)"
    unfolding mts32_zone_def Let_def d [of 29, simplified]
    using tlb_zone_page [OF assms] direct_map_page [OF assms(1)] by (simp add: zone_page_def)
  moreover have "zone_page (mts64_zone a c) = zone_page (mts64_zone b c)"
    unfolding mts64_zone_def Let_def d [of 29, simplified] d [of 40, simplified] d [of 59, simplified]
      same_page_numerals(1,4) [OF assms(1)]
    using tlb_zone_page [OF assms] direct_map_page [OF assms(1)] by (simp add: zone_page_def)
  ultimately show ?thesis by (simp add: mts_zone_of_def)
qed

text \<open>The entry as a function of the zone.\<close>

definition zone_entry :: "u32 \<Rightarrow> 'd vm_instance \<Rightarrow> mts_zone \<Rightarrow> mts_entry option" where
  "zone_entry asz vm z =
     (case z of
        Zone_map m \<Rightarrow>
          (case dev_lookup (map_paddr m) (map_cached m) vm of
             None \<Rightarrow> None
           | Some p \<Rightarrow>
               if host_addr (vdevs vm p) = 0 \<or> dev_flags (vdevs vm p) AND VDEVICE_FLAG_NO_MTS_MMAP \<noteq> 0 then None
               else Some \<lparr>gvpa = mts_trunc asz (map_vaddr m), gppa = mts_trunc asz (map_paddr m),
                      hpa = host_addr (vdevs vm p) + (map_paddr m - phys_addr (vdevs vm p)), mts_flags = 0\<rparr>)
      | _ \<Rightarrow> None)"

lemma ram_entry_zone: "ram_entry asz s vaddr = zone_entry asz (vm_inst s) (mts_zone_of asz vaddr s)"
  by (simp add: ram_entry_def zone_entry_def Let_def split: mts_zone.split option.split)

lemma zone_entry_page: "zone_entry asz vm (zone_page z) = zone_entry asz vm z"
  by (simp add: zone_entry_def zone_page_def split: mts_zone.split option.split)

lemma zone_map_vaddr:
  "mts_zone_of asz vaddr c = Zone_map m \<Longrightarrow> map_vaddr m = vaddr AND 0xfffffffffffff000"
  by (auto simp: mts_zone_of_def mts64_zone_def mts32_zone_def Let_def tlb_zone_def direct_map_def
      mips64_cp0_tlb_lookup_def tlb_map_half_def split: if_splits option.splits)

lemma mts_trunc_page: "mts_trunc asz (a AND 0xfffffffffffff000) = mts_vpage asz a"
  unfolding mts_vpage_def mts_trunc_def page_mask_is_not_mask
  by (rule bit_word_eqI) (auto simp: bit_simps)

lemma ram_entry_gvpa: "ram_entry asz s vaddr = Some e \<Longrightarrow> gvpa e = mts_vpage asz vaddr"
  using zone_map_vaddr [of asz vaddr s]
  by (auto simp: ram_entry_def Let_def mts_trunc_page split: mts_zone.splits option.splits if_splits)

interpretation mts: translation_cache mts_hash "mts_vpage asz" gvpa
  "\<lambda>a. canonical asz a \<and> tlb_masks_ok s" "ram_entry asz s" for asz s
proof
  fix a b
  assume a: "canonical asz a \<and> tlb_masks_ok s" and b: "canonical asz b \<and> tlb_masks_ok s"
    and t: "mts_vpage asz a = mts_vpage asz b"
  then have p: "same_page a b" by (blast intro: vpage_same_page)
  have "mts_hash a = mts_hash b" by (simp add: mts_hash_def same_page_drop [OF p])
  moreover have "ram_entry asz s a = ram_entry asz s b"
    using mts_zone_page [OF p] a by (metis ram_entry_zone zone_entry_page)
  ultimately show "mts_hash a = mts_hash b \<and> ram_entry asz s a = ram_entry asz s b" by blast
next
  fix a e
  assume "canonical asz a \<and> tlb_masks_ok s" "ram_entry asz s a = Some e"
  then show "gvpa e = mts_vpage asz a" by (blast intro: ram_entry_gvpa)
qed

section \<open>Transparency\<close>

lemma tlb_lookup_cong:
  assumes "cp0_reg s' = cp0_reg s" "cp0_tlb s' = cp0_tlb s" "tlb_entries s' = tlb_entries s"
    "addr_mode s' = addr_mode s" "addr_bus_mask s' = addr_bus_mask s"
  shows "mips64_cp0_tlb_lookup a s' = mips64_cp0_tlb_lookup a s"
  unfolding mips64_cp0_tlb_lookup_def mips64_cp0_get_vpn2_mask_def assms ..

lemma mts_zone_cong:
  assumes "\<And>a. mips64_cp0_tlb_lookup a s' = mips64_cp0_tlb_lookup a s"
  shows "mts_zone_of asz a s' = mts_zone_of asz a s"
  unfolding mts_zone_of_def mts64_zone_def mts32_zone_def tlb_zone_def assms ..

lemma ram_entry_cong:
  assumes "cp0_reg s' = cp0_reg s" "cp0_tlb s' = cp0_tlb s" "tlb_entries s' = tlb_entries s"
    "addr_mode s' = addr_mode s" "addr_bus_mask s' = addr_bus_mask s" "vm_inst s' = vm_inst s"
  shows "ram_entry asz s' = ram_entry asz s"
  unfolding ram_entry_zone assms(6) mts_zone_cong [OF tlb_lookup_cong [OF assms(1-5)]] ..

lemma ram_entry_set_mts [simp]: "ram_entry asz (set_mts_entry b e s) = ram_entry asz s"
  by (rule ram_entry_cong) (simp_all add: set_mts_entry_def)

lemma slow_lookup_ram:
  assumes "ram_entry asz s vaddr = Some e" "no_sparse (vm_inst s)"
  shows "mts_slow_lookup asz env vaddr op n ty data s = Ok (Some e, data) (set_mts_entry (mts_hash vaddr) e s)"
proof -
  obtain m p where z: "mts_zone_of asz vaddr s = Zone_map m"
    and p: "dev_lookup (map_paddr m) (map_cached m) (vm_inst s) = Some p"
    and d: "host_addr (vdevs (vm_inst s) p) \<noteq> 0" "dev_flags (vdevs (vm_inst s) p) AND 1 = 0"
    and e: "e = \<lparr>gvpa = mts_trunc asz (map_vaddr m), gppa = mts_trunc asz (map_paddr m),
              hpa = host_addr (vdevs (vm_inst s) p) + (map_paddr m - phys_addr (vdevs (vm_inst s) p)), mts_flags = 0\<rparr>"
    using assms(1) by (auto simp: ram_entry_def Let_def split: mts_zone.splits option.splits if_splits)
  have "p \<in> set (dev_list (vm_inst s))"
    using p by (auto simp: dev_lookup_def find_Some_iff)
  then have "dev_flags (vdevs (vm_inst s) p) AND 0x10 = 0" using assms(2) by (simp add: no_sparse_def)
  then show ?thesis using z p d by (simp add: mts_slow_lookup_def mts_map_entry_def e Let_def)
qed

text \<open>C1: the translation cache is transparent. With a coherent cache and no sparse device, an access
  to an address that translates to RAM gives the host address of the current translation
  (segments, TLB and device list), whether it hits or misses; nothing but the cache changes and it
  stays coherent. An address that does not translate to RAM never hits.\<close>

theorem mts_cache_transparent:
  assumes "mts_coherent asz s" and "canonical asz vaddr" and "tlb_masks_ok s" and "no_sparse (vm_inst s)"
  shows "(\<forall>e. ram_entry asz s vaddr = Some e \<longrightarrow>
            (\<exists>cache. mts_access asz env vaddr op n ty data s
                 = Ok (hpa e + (vaddr AND MIPS_MIN_PAGE_IMASK), data) (s\<lparr>mts_cache := cache\<rparr>) \<and>
               mts_coherent asz (s\<lparr>mts_cache := cache\<rparr>))) \<and>
         (ram_entry asz s vaddr = None \<longrightarrow> mts_vpage asz vaddr \<noteq> gvpa (mts_cache s (mts_hash vaddr)))"
proof (intro conjI allI impI)
  note coh = assms(1) [unfolded mts_coherent_def] and ok = conjI [OF assms(2,3)]
  fix e assume e: "ram_entry asz s vaddr = Some e"
  have fl: "mts_flags e = 0" using e by (auto simp: ram_entry_def Let_def split: mts_zone.splits option.splits if_splits)
  let ?b = "mts_hash vaddr"
  show "\<exists>cache. mts_access asz env vaddr op n ty data s = Ok (hpa e + (vaddr AND 0xfff), data) (s\<lparr>mts_cache := cache\<rparr>) \<and>
               mts_coherent asz (s\<lparr>mts_cache := cache\<rparr>)"
  proof (cases "gvpa (mts_cache s ?b) = mts_vpage asz vaddr")
    case True
    with mts.hit_correct [OF coh ok] e have "mts_cache s ?b = e" by simp
    then have "mts_access asz env vaddr op n ty data s = Ok (hpa e + (vaddr AND 0xfff), data) s"
      using True fl by (simp add: mts_access_def Let_def)
    moreover have "s\<lparr>mts_cache := mts_cache s\<rparr> = s" by simp
    ultimately show ?thesis using assms(1) by metis
  next
    case False
    then have "mts_access asz env vaddr op n ty data s
        = Ok (hpa e + (vaddr AND 0xfff), data) (s\<lparr>mts_cache := (mts_cache s)(?b := e)\<rparr>)"
      using slow_lookup_ram [OF e assms(4)] fl by (simp add: mts_access_def Let_def set_mts_entry_def)
    moreover have "mts_coherent asz (s\<lparr>mts_cache := (mts_cache s)(?b := e)\<rparr>)"
      using mts.fill_coherent [OF coh ok e] ram_entry_set_mts [of asz ?b e s]
      by (simp add: mts_coherent_def set_mts_entry_def tlb_masks_ok_def)
    ultimately show ?thesis by blast
  qed
next
  assume "ram_entry asz s vaddr = None"
  then show "mts_vpage asz vaddr \<noteq> gvpa (mts_cache s (mts_hash vaddr))"
    using mts.no_entry_misses [OF assms(1) [unfolded mts_coherent_def] conjI [OF assms(2,3)]] by metis
qed

section \<open>Establishing and keeping coherence\<close>

lemma sign_extend_scast_32: "sign_extend (scast (w :: u32)) 32 = scast w"
  by (rule bit_word_eqI) (auto simp: bit_sign_extend bit_simps min_def)

lemma flushed_coherent: "mts_coherent asz (mts_invalidate_cache s)"
proof -
  have low: "\<not> bit (mts_vpage asz a) 0" for a
    unfolding mts_vpage_def page_mask_is_not_mask by (simp add: bit_simps)
  have inv: "bit (gvpa (mts_invalid_entry m)) 0" for m by (simp add: mts_invalid_entry_def bit_simps)
  have "mts_vpage asz a \<noteq> gvpa (mts_invalid_entry m)" for a m using low inv by metis
  then have "cache_coherent mts_hash (mts_vpage asz) gvpa (\<lambda>a. canonical asz a \<and> tlb_masks_ok t)
      (ram_entry asz t) (\<lambda>_. mts_invalid_entry (addr_mode s))" for t :: "'a mips_vm"
    by (intro mts.flush_coherent)
  then show ?thesis by (simp add: mts_coherent_def mts_invalidate_cache_def)
qed

lemma set_addr_mode_32: "\<exists>c'. mips64_set_addr_mode 32 c = Ok () c' \<and> addr_mode c' = 32"
  by (auto simp: mips64_set_addr_mode_def mts_invalidate_cache_def)

text \<open>C5: invalidating the cache makes it coherent, whatever it held; so do the operations that end
  with an invalidation: a CPU reset and the move of a device to another physical address.\<close>

theorem invalidation_makes_coherent:
  "(addr_mode s = 32 \<or> addr_mode s = 64 \<longrightarrow> mts_coherent (addr_mode s) (mts_invalidate_cache s)) \<and>
   (\<exists>s'. mips64_reset s = Ok () s' \<and> addr_mode s' = 32 \<and> mts_coherent 32 s') \<and>
   (addr_mode s = 32 \<or> addr_mode s = 64 \<longrightarrow> mts_coherent (addr_mode s) (vm_map_device p base s))"
proof -
  have "\<exists>s'. mips64_reset s = Ok () (mts_invalidate_cache s') \<and> addr_mode s' = 32"
    unfolding mips64_reset_def Let_def by (metis obind_simps(1) set_addr_mode_32)
  moreover have "addr_mode (mts_invalidate_cache t) = addr_mode t" for t :: "'a mips_vm"
    by (simp add: mts_invalidate_cache_def)
  ultimately have "\<exists>s'. mips64_reset s = Ok () s' \<and> addr_mode s' = 32 \<and> mts_coherent 32 s'"
    using flushed_coherent by metis
  then show ?thesis by (auto simp: vm_map_device_def Let_def flushed_coherent)
qed

text \<open>A machine with 256 MB of RAM at physical address 0, at host address 0x700000.\<close>

definition ram_vm :: "unit mips_vm" where
  "ram_vm = mts_invalidate_cache (example_vm\<lparr>vm_inst := empty_vm\<lparr>
     vdevs := (\<lambda>_. dev_init\<lparr>phys_len := 0x10000000, host_addr := 0x700000, dev_flags := 2\<rparr>),
     dev_list := [5]\<rparr>\<rparr>)"

lemma ram_vm_coherent: "mts_coherent 32 ram_vm"
  unfolding ram_vm_def by (rule flushed_coherent)

theorem invalidation_makes_coherent_witness:
  "mts_coherent (addr_mode example_vm) (mts_invalidate_cache example_vm)"
  using invalidation_makes_coherent [of example_vm] by (simp add: example_vm_def)

lemma ram_vm_entry:
  "ram_entry 32 ram_vm 0xffffffff80001004 = Some \<lparr>gvpa = 0x80001000, gppa = 0x1000, hpa = 0x701000, mts_flags = 0\<rparr>"
  by (simp add: ram_entry_def mts_zone_of_def mts32_zone_def direct_map_def Let_def drop_bit_eq_div ram_vm_def
    example_vm_def mts_invalidate_cache_def dev_lookup_def dev_accepts_def dev_init_def mts_trunc_def)

theorem mts_cache_transparent_witness:
  "\<exists>cache. mts_access 32 example_env 0xffffffff80001004 MIPS_MEMOP_LW 4 MTS_READ 0 ram_vm
     = Ok (0x701004, 0) (ram_vm\<lparr>mts_cache := cache\<rparr>)"
proof -
  have "canonical 32 0xffffffff80001004"
  proof -
    have "(0xffffffff80001004 :: u64) = scast (0x80001004 :: u32)" by simp
    then show ?thesis unfolding canonical_def by (metis sign_extend_scast_32)
  qed
  moreover have "tlb_masks_ok ram_vm" "no_sparse (vm_inst ram_vm)"
    by (simp_all add: tlb_masks_ok_def no_sparse_def ram_vm_def mts_invalidate_cache_def example_vm_def dev_init_def)
  ultimately show ?thesis
    using mts_cache_transparent [OF ram_vm_coherent, of "0xffffffff80001004" example_env MIPS_MEMOP_LW 4 MTS_READ 0]
      ram_vm_entry by force
qed

lemma mts_zone_mono:
  assumes "\<And>m. mips64_cp0_tlb_lookup a s = Some m \<Longrightarrow> mips64_cp0_tlb_lookup a t = Some m"
    and "mts_zone_of asz a s = Zone_map m"
  shows "mts_zone_of asz a t = Zone_map m"
proof -
  have "tlb_zone a t = Zone_map m" if "tlb_zone a s = Zone_map m" for m
    using that assms(1) by (auto simp: tlb_zone_def split: option.splits)
  then show ?thesis
    using assms(2) by (auto simp: mts_zone_of_def mts64_zone_def mts32_zone_def Let_def split: if_splits)
qed

lemma ram_entry_mono:
  assumes "\<And>m. mips64_cp0_tlb_lookup a s = Some m \<Longrightarrow> mips64_cp0_tlb_lookup a t = Some m"
    and "vm_inst t = vm_inst s" and "ram_entry asz s a = Some e"
  shows "ram_entry asz t a = Some e"
proof -
  obtain m where "mts_zone_of asz a s = Zone_map m"
    using assms(3) by (auto simp: ram_entry_def split: mts_zone.splits)
  with mts_zone_mono [of a s t asz m] assms show ?thesis by (simp add: ram_entry_zone)
qed

text \<open>Replacing an entry without valid pages loses no translation.\<close>

lemma tlb_lookup_replace_invalid:
  assumes lk: "mips64_cp0_tlb_lookup a c = Some m"
    and inv: "te_lo0 (cp0_tlb c k) AND 2 = 0" "te_lo1 (cp0_tlb c k) AND 2 = 0"
    and d: "cp0_reg d = cp0_reg c" "cp0_tlb d = (cp0_tlb c)(k := e)" "tlb_entries d = tlb_entries c"
      "addr_mode d = addr_mode c" "addr_bus_mask d = addr_bus_mask c"
    and uniq: "\<And>i j. i < unat (tlb_entries c) \<Longrightarrow> j < unat (tlb_entries c) \<Longrightarrow>
           tlb_entry_matches (mips64_cp0_get_vpn2_mask c) (a AND mips64_cp0_get_vpn2_mask c)
             (cp0_reg c 10 AND 0xff) (cp0_tlb d i) \<Longrightarrow>
           tlb_entry_matches (mips64_cp0_get_vpn2_mask c) (a AND mips64_cp0_get_vpn2_mask c)
             (cp0_reg c 10 AND 0xff) (cp0_tlb d j) \<Longrightarrow> i = j"
  shows "mips64_cp0_tlb_lookup a d = Some m"
proof -
  let ?M = "tlb_entry_matches (mips64_cp0_get_vpn2_mask c) (a AND mips64_cp0_get_vpn2_mask c) (cp0_reg c 10 AND 0xff)"
  let ?n = "unat (tlb_entries c)"
  obtain j where j: "find (\<lambda>i. ?M (cp0_tlb c i)) [0..<?n] = Some j"
    using lk by (auto simp: mips64_cp0_tlb_lookup_def Let_def split: option.splits)
  then have jn: "j < ?n" "?M (cp0_tlb c j)" by (auto simp: find_Some_iff)
  have "j \<noteq> k"
    using lk inv j by (auto simp: mips64_cp0_tlb_lookup_def Let_def tlb_map_half_def split: if_splits)
  then have dj: "cp0_tlb d j = cp0_tlb c j" by (simp add: d(2))
  have "find (\<lambda>i. ?M (cp0_tlb d i)) [0..<?n] = Some j"
  proof -
    have "i = j" if "i < ?n" "?M (cp0_tlb d i)" for i using uniq [of i j] jn dj that by simp
    then have "\<forall>i<j. \<not> ?M (cp0_tlb d i)" using jn(1) by (metis less_irrefl less_trans)
    with jn dj show ?thesis by (auto simp: find_Some_iff intro!: exI [of _ j])
  qed
  moreover have "mips64_cp0_get_vpn2_mask d = mips64_cp0_get_vpn2_mask c"
    by (simp add: mips64_cp0_get_vpn2_mask_def d)
  ultimately show ?thesis
    using lk j dj by (auto simp: mips64_cp0_tlb_lookup_def Let_def d(1,3,4,5))
qed

text \<open>C6: writing a TLB entry keeps the cache coherent as long as no address matches two entries of
  the new TLB: if the old entry held a valid page the whole cache is invalidated, and otherwise no
  cached translation went through it.\<close>

theorem tlb_write_keeps_coherence:
  assumes "mts_coherent asz s" and "tlb_masks_ok s"
    and "\<And>vaddr i j. i < unat (tlb_entries s) \<Longrightarrow> j < unat (tlb_entries s) \<Longrightarrow>
           tlb_entry_matches (mips64_cp0_get_vpn2_mask s) (vaddr AND mips64_cp0_get_vpn2_mask s)
             (cp0_reg s MIPS_CP0_TLB_HI AND MIPS_TLB_ASID_MASK) (cp0_tlb (mips64_cp0_exec_tlbw index s) i) \<Longrightarrow>
           tlb_entry_matches (mips64_cp0_get_vpn2_mask s) (vaddr AND mips64_cp0_get_vpn2_mask s)
             (cp0_reg s MIPS_CP0_TLB_HI AND MIPS_TLB_ASID_MASK) (cp0_tlb (mips64_cp0_exec_tlbw index s) j) \<Longrightarrow> i = j"
  shows "mts_coherent asz (mips64_cp0_exec_tlbw index s)"
proof (cases "index < tlb_entries s \<and> (te_lo0 (cp0_tlb s (unat index)) AND 2 \<noteq> 0 \<or> te_lo1 (cp0_tlb s (unat index)) AND 2 \<noteq> 0)")
  case True
  then have "mips64_cp0_exec_tlbw index s = mts_invalidate_cache
      (s\<lparr>cp0_tlb := (cp0_tlb s)(unat index := tlbw_entry s)\<rparr>)"
    by (auto simp: mips64_cp0_exec_tlbw_def Let_def mips64_cp0_unmap_tlb_to_mts_def mts_api_unmap_def
      mts_invalidate_cache_def tlbw_entry_def)
  then show ?thesis by (simp add: flushed_coherent)
next
  case False
  let ?t = "mips64_cp0_exec_tlbw index s"
  show ?thesis
  proof (cases "index < tlb_entries s")
    case True
    with False have inv: "te_lo0 (cp0_tlb s (unat index)) AND 2 = 0" "te_lo1 (cp0_tlb s (unat index)) AND 2 = 0"
      by simp_all
    have same: "mts_cache ?t = mts_cache s" "vm_inst ?t = vm_inst s"
      using inv by (simp_all add: mips64_cp0_exec_tlbw_def mips64_cp0_unmap_tlb_to_mts_def Let_def True)
    have "ram_entry asz ?t a = Some (mts_cache ?t (mts_hash a))"
      if a: "canonical asz a" "gvpa (mts_cache ?t (mts_hash a)) = mts_vpage asz a" for a
    proof -
      have "ram_entry asz s a = Some (mts_cache s (mts_hash a))"
        using mts.hit_correct [OF assms(1) [unfolded mts_coherent_def] conjI [OF a(1) assms(2)]] a(2) by (simp add: same)
      moreover have "mips64_cp0_tlb_lookup a ?t = Some m" if lk: "mips64_cp0_tlb_lookup a s = Some m" for m
      proof -
        have tlb: "cp0_tlb ?t = (cp0_tlb s)(unat index := tlbw_entry s)" by (simp add: tlbw_tlb True)
        have "cp0_reg ?t = cp0_reg s" "tlb_entries ?t = tlb_entries s" "addr_mode ?t = addr_mode s"
          "addr_bus_mask ?t = addr_bus_mask s"
          using inv by (simp_all add: mips64_cp0_exec_tlbw_def mips64_cp0_unmap_tlb_to_mts_def Let_def True)
        from tlb_lookup_replace_invalid [OF lk inv this(1) tlb this(2-4)] assms(3) show ?thesis by blast
      qed
      ultimately show ?thesis unfolding same(1) using ram_entry_mono [of a s ?t asz] same(2) by blast
    qed
    then show ?thesis by (simp add: mts_coherent_def cache_coherent_def)
  next
    case False
    then show ?thesis using assms(1) by (simp add: mips64_cp0_exec_tlbw_def)
  qed
qed

theorem tlb_write_keeps_coherence_witness:
  "mts_coherent 32 (mips64_cp0_exec_tlbw 0 (mts_invalidate_cache (example_vm\<lparr>tlb_entries := 1\<rparr>)))"
  by (rule tlb_write_keeps_coherence [OF flushed_coherent])
    (simp_all add: tlb_masks_ok_def mts_invalidate_cache_def example_vm_def)

end
