(* ===== verification/Mips64Exec.thy ===== *)
theory Mips64Exec
  imports InsnLookup Mips64Mem "HOL-Library.Signed_Division"
begin

text \<open>
  The MIPS64 interpreter of \<open>stable/mips64_exec.c\<close>: one definition per \<open>mips64_exec_<INSN>\<close>, the
  instruction table, the decoder built from it by the lookup compiler of \<open>InsnLookup\<close>, the
  instruction fetch with its page cache, delay slots, and the run loop.

  An instruction function takes the execution of the delay slot, the environment and the opcode;
  it returns the C result (\<open>True\<close> for 1: the pc has been set) and the new state. A branch that
  stands in a delay slot executes the slot again, without bound in the C code: the interpreter
  therefore recurses on fuel, and \<open>OutOfFuel\<close> is a recursion deeper than the fuel. Overflow
  of the signed 32-bit product of MUL wraps around.
\<close>

type_synonym 'd insn_fn =
  "('d mips_vm \<Rightarrow> (unit, 'd mips_vm) outcome) \<Rightarrow> 'd mem_env \<Rightarrow> u32 \<Rightarrow> 'd mips_vm \<Rightarrow> (bool, 'd mips_vm) outcome"

section \<open>Instructions\<close>

subsection \<open>Arithmetic and logic\<close>

definition mips64_exec_ADD :: "'d insn_fn" where
  "mips64_exec_ADD _ _ insn c =
     (let rs = fld insn 21 25;
          rt = fld insn 16 20;
          rd = fld insn 11 15;
          res = (ucast ((ucast (gpr c rs) :: u32) + ucast (gpr c rt)) :: u64)
      in Ok False (set_gpr rd (sign_extend res 32) c))"

definition mips64_exec_ADDI :: "'d insn_fn" where
  "mips64_exec_ADDI _ _ insn c =
     (let rs = fld insn 21 25;
          rt = fld insn 16 20;
          imm = (ucast (bits insn 0 15) :: u64);
          val = (ucast (sign_extend imm 16) :: u32);
          res = ucast (gpr c rs) + val
      in Ok False (set_gpr rt (sign_extend (ucast res) 32) c))"

definition mips64_exec_ADDIU :: "'d insn_fn" where
  "mips64_exec_ADDIU _ _ insn c =
     (let rs = fld insn 21 25;
          rt = fld insn 16 20;
          imm = (ucast (bits insn 0 15) :: u64);
          val = (ucast (sign_extend imm 16) :: u32);
          res = ucast (gpr c rs) + val
      in Ok False (set_gpr rt (sign_extend (ucast res) 32) c))"

definition mips64_exec_ADDU :: "'d insn_fn" where
  "mips64_exec_ADDU _ _ insn c =
     (let rs = fld insn 21 25;
          rt = fld insn 16 20;
          rd = fld insn 11 15;
          res = (ucast (gpr c rs) :: u32) + ucast (gpr c rt)
      in Ok False (set_gpr rd (sign_extend (ucast res) 32) c))"

definition mips64_exec_AND :: "'d insn_fn" where
  "mips64_exec_AND _ _ insn c =
     (let rs = fld insn 21 25;
          rt = fld insn 16 20;
          rd = fld insn 11 15
      in Ok False (set_gpr rd (gpr c rs AND gpr c rt) c))"

definition mips64_exec_ANDI :: "'d insn_fn" where
  "mips64_exec_ANDI _ _ insn c =
     (let rs = fld insn 21 25;
          rt = fld insn 16 20;
          imm = (ucast (bits insn 0 15) :: u64)
      in Ok False (set_gpr rt (gpr c rs AND imm) c))"

definition mips64_exec_DADDIU :: "'d insn_fn" where
  "mips64_exec_DADDIU _ _ insn c =
     (let rs = fld insn 21 25;
          rt = fld insn 16 20;
          imm = (ucast (bits insn 0 15) :: u64);
          val = sign_extend imm 16
      in Ok False (set_gpr rt (gpr c rs + val) c))"

definition mips64_exec_DADDU :: "'d insn_fn" where
  "mips64_exec_DADDU _ _ insn c =
     (let rs = fld insn 21 25;
          rt = fld insn 16 20;
          rd = fld insn 11 15
      in Ok False (set_gpr rd (gpr c rs + gpr c rt) c))"

definition mips64_exec_DSUBU :: "'d insn_fn" where
  "mips64_exec_DSUBU _ _ insn c =
     (let rs = fld insn 21 25;
          rt = fld insn 16 20;
          rd = fld insn 11 15
      in Ok False (set_gpr rd (gpr c rs - gpr c rt) c))"

definition mips64_exec_NOR :: "'d insn_fn" where
  "mips64_exec_NOR _ _ insn c =
     (let rs = fld insn 21 25;
          rt = fld insn 16 20;
          rd = fld insn 11 15
      in Ok False (set_gpr rd (NOT (gpr c rs OR gpr c rt)) c))"

definition mips64_exec_OR :: "'d insn_fn" where
  "mips64_exec_OR _ _ insn c =
     (let rs = fld insn 21 25;
          rt = fld insn 16 20;
          rd = fld insn 11 15
      in Ok False (set_gpr rd (gpr c rs OR gpr c rt) c))"

definition mips64_exec_ORI :: "'d insn_fn" where
  "mips64_exec_ORI _ _ insn c =
     (let rs = fld insn 21 25;
          rt = fld insn 16 20;
          imm = (ucast (bits insn 0 15) :: u64)
      in Ok False (set_gpr rt (gpr c rs OR imm) c))"

definition mips64_exec_XOR :: "'d insn_fn" where
  "mips64_exec_XOR _ _ insn c =
     (let rs = fld insn 21 25;
          rt = fld insn 16 20;
          rd = fld insn 11 15
      in Ok False (set_gpr rd (gpr c rs XOR gpr c rt) c))"

definition mips64_exec_XORI :: "'d insn_fn" where
  "mips64_exec_XORI _ _ insn c =
     (let rs = fld insn 21 25;
          rt = fld insn 16 20;
          imm = (ucast (bits insn 0 15) :: u64)
      in Ok False (set_gpr rt (gpr c rs XOR imm) c))"

definition mips64_exec_SUB :: "'d insn_fn" where
  "mips64_exec_SUB _ _ insn c =
     (let rs = fld insn 21 25;
          rt = fld insn 16 20;
          rd = fld insn 11 15;
          res = (ucast (gpr c rs) :: u32) - ucast (gpr c rt)
      in Ok False (set_gpr rd (sign_extend (ucast res) 32) c))"

definition mips64_exec_SUBU :: "'d insn_fn" where
  "mips64_exec_SUBU _ _ insn c =
     (let rs = fld insn 21 25;
          rt = fld insn 16 20;
          rd = fld insn 11 15;
          res = (ucast (gpr c rs) :: u32) - ucast (gpr c rt)
      in Ok False (set_gpr rd (sign_extend (ucast res) 32) c))"

definition mips64_exec_LI :: "'d insn_fn" where
  "mips64_exec_LI _ _ insn c =
     (let rt = fld insn 16 20;
          imm = (ucast (bits insn 0 15) :: u64)
      in Ok False (set_gpr rt (sign_extend imm 16) c))"

definition mips64_exec_LUI :: "'d insn_fn" where
  "mips64_exec_LUI _ _ insn c =
     (let rt = fld insn 16 20;
          imm = (ucast (bits insn 0 15) :: u64)
      in Ok False (set_gpr rt (push_bit 16 (sign_extend imm 16)) c))"

definition mips64_exec_MOVE :: "'d insn_fn" where
  "mips64_exec_MOVE _ _ insn c =
     (let rs = fld insn 21 25;
          rd = fld insn 11 15
      in Ok False (set_gpr rd (sign_extend (gpr c rs) 32) c))"

definition mips64_exec_SLT :: "'d insn_fn" where
  "mips64_exec_SLT _ _ insn c =
     (let rs = fld insn 21 25;
          rt = fld insn 16 20;
          rd = fld insn 11 15
      in Ok False (set_gpr rd (if sint (gpr c rs) < sint (gpr c rt) then 1 else 0) c))"

definition mips64_exec_SLTI :: "'d insn_fn" where
  "mips64_exec_SLTI _ _ insn c =
     (let rs = fld insn 21 25;
          rt = fld insn 16 20;
          imm = (ucast (bits insn 0 15) :: u64);
          val = sign_extend imm 16
      in Ok False (set_gpr rt (if sint (gpr c rs) < sint val then 1 else 0) c))"

definition mips64_exec_SLTIU :: "'d insn_fn" where
  "mips64_exec_SLTIU _ _ insn c =
     (let rs = fld insn 21 25;
          rt = fld insn 16 20;
          imm = (ucast (bits insn 0 15) :: u64);
          val = sign_extend imm 16
      in Ok False (set_gpr rt (if gpr c rs < val then 1 else 0) c))"

definition mips64_exec_SLTU :: "'d insn_fn" where
  "mips64_exec_SLTU _ _ insn c =
     (let rs = fld insn 21 25;
          rt = fld insn 16 20;
          rd = fld insn 11 15
      in Ok False (set_gpr rd (if gpr c rs < gpr c rt then 1 else 0) c))"

subsection \<open>Shifts\<close>

definition mips64_exec_DSLL :: "'d insn_fn" where
  "mips64_exec_DSLL _ _ insn c =
     (let rt = fld insn 16 20;
          rd = fld insn 11 15;
          sa = fld insn 6 10
      in Ok False (set_gpr rd (push_bit sa (gpr c rt)) c))"

definition mips64_exec_DSLL32 :: "'d insn_fn" where
  "mips64_exec_DSLL32 _ _ insn c =
     (let rt = fld insn 16 20;
          rd = fld insn 11 15;
          sa = fld insn 6 10
      in Ok False (set_gpr rd (push_bit (32 + sa) (gpr c rt)) c))"

definition mips64_exec_DSLLV :: "'d insn_fn" where
  "mips64_exec_DSLLV _ _ insn c =
     (let rs = fld insn 21 25;
          rt = fld insn 16 20;
          rd = fld insn 11 15;
          n = unat (gpr c rs AND 0x3f)
      in Ok False (set_gpr rd (push_bit n (gpr c rt)) c))"

definition mips64_exec_DSRA :: "'d insn_fn" where
  "mips64_exec_DSRA _ _ insn c =
     (let rt = fld insn 16 20;
          rd = fld insn 11 15;
          sa = fld insn 6 10
      in Ok False (set_gpr rd (signed_drop_bit sa (gpr c rt)) c))"

definition mips64_exec_DSRA32 :: "'d insn_fn" where
  "mips64_exec_DSRA32 _ _ insn c =
     (let rt = fld insn 16 20;
          rd = fld insn 11 15;
          sa = fld insn 6 10
      in Ok False (set_gpr rd (signed_drop_bit (32 + sa) (gpr c rt)) c))"

definition mips64_exec_DSRAV :: "'d insn_fn" where
  "mips64_exec_DSRAV _ _ insn c =
     (let rs = fld insn 21 25;
          rt = fld insn 16 20;
          rd = fld insn 11 15;
          n = unat (gpr c rs AND 0x3f)
      in Ok False (set_gpr rd (signed_drop_bit n (gpr c rt)) c))"

definition mips64_exec_DSRL :: "'d insn_fn" where
  "mips64_exec_DSRL _ _ insn c =
     (let rt = fld insn 16 20;
          rd = fld insn 11 15;
          sa = fld insn 6 10
      in Ok False (set_gpr rd (drop_bit sa (gpr c rt)) c))"

definition mips64_exec_DSRL32 :: "'d insn_fn" where
  "mips64_exec_DSRL32 _ _ insn c =
     (let rt = fld insn 16 20;
          rd = fld insn 11 15;
          sa = fld insn 6 10
      in Ok False (set_gpr rd (drop_bit (32 + sa) (gpr c rt)) c))"

definition mips64_exec_DSRLV :: "'d insn_fn" where
  "mips64_exec_DSRLV _ _ insn c =
     (let rs = fld insn 21 25;
          rt = fld insn 16 20;
          rd = fld insn 11 15;
          n = unat (gpr c rs AND 0x3f)
      in Ok False (set_gpr rd (drop_bit n (gpr c rt)) c))"

definition mips64_exec_SLL :: "'d insn_fn" where
  "mips64_exec_SLL _ _ insn c =
     (let rt = fld insn 16 20;
          rd = fld insn 11 15;
          sa = fld insn 6 10;
          res = push_bit sa (ucast (gpr c rt) :: u32)
      in Ok False (set_gpr rd (sign_extend (ucast res) 32) c))"

definition mips64_exec_SLLV :: "'d insn_fn" where
  "mips64_exec_SLLV _ _ insn c =
     (let rs = fld insn 21 25;
          rt = fld insn 16 20;
          rd = fld insn 11 15;
          n = unat (gpr c rs AND 0x1f);
          res = push_bit n (ucast (gpr c rt) :: u32)
      in Ok False (set_gpr rd (sign_extend (ucast res) 32) c))"

definition mips64_exec_SRA :: "'d insn_fn" where
  "mips64_exec_SRA _ _ insn c =
     (let rt = fld insn 16 20;
          rd = fld insn 11 15;
          sa = fld insn 6 10;
          res = signed_drop_bit sa (ucast (gpr c rt) :: u32)
      in Ok False (set_gpr rd (sign_extend (scast res) 32) c))"

definition mips64_exec_SRAV :: "'d insn_fn" where
  "mips64_exec_SRAV _ _ insn c =
     (let rs = fld insn 21 25;
          rt = fld insn 16 20;
          rd = fld insn 11 15;
          n = unat (gpr c rs AND 0x1f);
          res = signed_drop_bit n (ucast (gpr c rt) :: u32)
      in Ok False (set_gpr rd (sign_extend (scast res) 32) c))"

definition mips64_exec_SRL :: "'d insn_fn" where
  "mips64_exec_SRL _ _ insn c =
     (let rt = fld insn 16 20;
          rd = fld insn 11 15;
          sa = fld insn 6 10;
          res = drop_bit sa (ucast (gpr c rt) :: u32)
      in Ok False (set_gpr rd (sign_extend (ucast res) 32) c))"

definition mips64_exec_SRLV :: "'d insn_fn" where
  "mips64_exec_SRLV _ _ insn c =
     (let rs = fld insn 21 25;
          rt = fld insn 16 20;
          rd = fld insn 11 15;
          n = unat (gpr c rs AND 0x1f);
          res = drop_bit n (ucast (gpr c rt) :: u32)
      in Ok False (set_gpr rd (sign_extend (ucast res) 32) c))"

subsection \<open>Multiplication and division\<close>

text \<open>The host traps on a division by zero and on \<open>INT_MIN / -1\<close>.\<close>

definition mips64_exec_DIV :: "'d insn_fn" where
  "mips64_exec_DIV _ _ insn c =
     (let rs = fld insn 21 25;
          rt = fld insn 16 20;
          a = (ucast (gpr c rs) :: u32);
          b = (ucast (gpr c rt) :: u32)
      in if b = 0 \<or> a = 0x80000000 \<and> b = -1 then HostFault
         else
           (let c = c\<lparr>reg_lo := word_of_int (sint a sdiv sint b)\<rparr>;
                c = c\<lparr>reg_hi := word_of_int (sint a smod sint b)\<rparr>;
                c = c\<lparr>reg_lo := sign_extend (reg_lo c) 32\<rparr>
            in Ok False (c\<lparr>reg_hi := sign_extend (reg_hi c) 32\<rparr>)))"

text \<open>The guard looks at the 64-bit register, the division at its low half.\<close>

definition mips64_exec_DIVU :: "'d insn_fn" where
  "mips64_exec_DIVU _ _ insn c =
     (let rs = fld insn 21 25;
          rt = fld insn 16 20;
          a = (ucast (gpr c rs) :: u32);
          b = (ucast (gpr c rt) :: u32)
      in if gpr c rt = 0 then Ok False c
         else if b = 0 then HostFault
         else
           (let c = c\<lparr>reg_lo := ucast (a div b)\<rparr>;
                c = c\<lparr>reg_hi := ucast (a mod b)\<rparr>;
                c = c\<lparr>reg_lo := sign_extend (reg_lo c) 32\<rparr>
            in Ok False (c\<lparr>reg_hi := sign_extend (reg_hi c) 32\<rparr>)))"

definition mips64_exec_MFHI :: "'d insn_fn" where
  "mips64_exec_MFHI _ _ insn c =
     (let rd = fld insn 11 15
      in Ok False (if rd \<noteq> 0 then set_gpr rd (reg_hi c) c else c))"

definition mips64_exec_MFLO :: "'d insn_fn" where
  "mips64_exec_MFLO _ _ insn c =
     (let rd = fld insn 11 15
      in Ok False (if rd \<noteq> 0 then set_gpr rd (reg_lo c) c else c))"

definition mips64_exec_MTHI :: "'d insn_fn" where
  "mips64_exec_MTHI _ _ insn c =
     (let rs = fld insn 21 25
      in Ok False (c\<lparr>reg_hi := gpr c rs\<rparr>))"

definition mips64_exec_MTLO :: "'d insn_fn" where
  "mips64_exec_MTLO _ _ insn c =
     (let rs = fld insn 21 25
      in Ok False (c\<lparr>reg_lo := gpr c rs\<rparr>))"

definition mips64_exec_MUL :: "'d insn_fn" where
  "mips64_exec_MUL _ _ insn c =
     (let rs = fld insn 21 25;
          rt = fld insn 16 20;
          rd = fld insn 11 15;
          val = (ucast (gpr c rs) :: u32) * ucast (gpr c rt)
      in Ok False (set_gpr rd (sign_extend (scast val) 32) c))"

definition mips64_exec_MULT :: "'d insn_fn" where
  "mips64_exec_MULT _ _ insn c =
     (let rs = fld insn 21 25;
          rt = fld insn 16 20;
          val = (scast (ucast (gpr c rs) :: u32) :: u64) * scast (ucast (gpr c rt) :: u32);
          c = c\<lparr>reg_lo := sign_extend val 32\<rparr>
      in Ok False (c\<lparr>reg_hi := sign_extend (signed_drop_bit 32 val) 32\<rparr>))"

definition mips64_exec_MULTU :: "'d insn_fn" where
  "mips64_exec_MULTU _ _ insn c =
     (let rs = fld insn 21 25;
          rt = fld insn 16 20;
          val = (ucast (ucast (gpr c rs) :: u32) :: u64) * ucast (ucast (gpr c rt) :: u32);
          c = c\<lparr>reg_lo := sign_extend val 32\<rparr>
      in Ok False (c\<lparr>reg_hi := sign_extend (drop_bit 32 val) 32\<rparr>))"

subsection \<open>Branches and jumps\<close>

text \<open>The target of a PC-relative branch; then the two ways a branch ends, with the delay slot
  always executed or (likely) only when the branch is taken.\<close>

definition branch_target :: "u32 \<Rightarrow> 'd mips_vm \<Rightarrow> u64" where
  "branch_target insn c =
     (let offset = bits insn 0 15 in (pc c + 4) + sign_extend (ucast (push_bit 2 offset)) 18)"

definition exec_branch ::
    "('d mips_vm \<Rightarrow> (unit, 'd mips_vm) outcome) \<Rightarrow> bool \<Rightarrow> u64 \<Rightarrow> 'd mips_vm \<Rightarrow> (bool, 'd mips_vm) outcome" where
  "exec_branch bd res new_pc c =
     obind (bd c) (\<lambda>_ c. if res then Ok True (c\<lparr>pc := new_pc\<rparr>) else Ok True (c\<lparr>pc := pc c + 8\<rparr>))"

definition exec_branch_likely ::
    "('d mips_vm \<Rightarrow> (unit, 'd mips_vm) outcome) \<Rightarrow> bool \<Rightarrow> u64 \<Rightarrow> 'd mips_vm \<Rightarrow> (bool, 'd mips_vm) outcome" where
  "exec_branch_likely bd res new_pc c =
     (if res then obind (bd c) (\<lambda>_ c. Ok True (c\<lparr>pc := new_pc\<rparr>)) else Ok True (c\<lparr>pc := pc c + 8\<rparr>))"

definition mips64_exec_B :: "'d insn_fn" where
  "mips64_exec_B bd _ insn c =
     (let new_pc = branch_target insn c
      in obind (bd c) (\<lambda>_ c. Ok True (c\<lparr>pc := new_pc\<rparr>)))"

definition mips64_exec_BAL :: "'d insn_fn" where
  "mips64_exec_BAL bd _ insn c =
     (let new_pc = branch_target insn c;
          c = set_gpr MIPS_GPR_RA (pc c + 8) c
      in obind (bd c) (\<lambda>_ c. Ok True (c\<lparr>pc := new_pc\<rparr>)))"

definition mips64_exec_BEQ :: "'d insn_fn" where
  "mips64_exec_BEQ bd _ insn c =
     (let rs = fld insn 21 25;
          rt = fld insn 16 20;
          new_pc = branch_target insn c;
          res = (gpr c rs = gpr c rt)
      in exec_branch bd res new_pc c)"

definition mips64_exec_BEQL :: "'d insn_fn" where
  "mips64_exec_BEQL bd _ insn c =
     (let rs = fld insn 21 25;
          rt = fld insn 16 20;
          new_pc = branch_target insn c;
          res = (gpr c rs = gpr c rt)
      in exec_branch_likely bd res new_pc c)"

definition mips64_exec_BEQZ :: "'d insn_fn" where
  "mips64_exec_BEQZ bd _ insn c =
     (let rs = fld insn 21 25;
          new_pc = branch_target insn c;
          res = (gpr c rs = 0)
      in exec_branch bd res new_pc c)"

definition mips64_exec_BNEZ :: "'d insn_fn" where
  "mips64_exec_BNEZ bd _ insn c =
     (let rs = fld insn 21 25;
          new_pc = branch_target insn c;
          res = (gpr c rs \<noteq> 0)
      in exec_branch bd res new_pc c)"

definition mips64_exec_BGEZ :: "'d insn_fn" where
  "mips64_exec_BGEZ bd _ insn c =
     (let rs = fld insn 21 25;
          new_pc = branch_target insn c;
          res = (0 \<le> sint (gpr c rs))
      in exec_branch bd res new_pc c)"

definition mips64_exec_BGEZAL :: "'d insn_fn" where
  "mips64_exec_BGEZAL bd _ insn c =
     (let rs = fld insn 21 25;
          new_pc = branch_target insn c;
          c = set_gpr MIPS_GPR_RA (pc c + 8) c;
          res = (0 \<le> sint (gpr c rs))
      in exec_branch bd res new_pc c)"

definition mips64_exec_BGEZALL :: "'d insn_fn" where
  "mips64_exec_BGEZALL bd _ insn c =
     (let rs = fld insn 21 25;
          new_pc = branch_target insn c;
          c = set_gpr MIPS_GPR_RA (pc c + 8) c;
          res = (0 \<le> sint (gpr c rs))
      in exec_branch_likely bd res new_pc c)"

definition mips64_exec_BGEZL :: "'d insn_fn" where
  "mips64_exec_BGEZL bd _ insn c =
     (let rs = fld insn 21 25;
          new_pc = branch_target insn c;
          res = (0 \<le> sint (gpr c rs))
      in exec_branch_likely bd res new_pc c)"

definition mips64_exec_BGTZ :: "'d insn_fn" where
  "mips64_exec_BGTZ bd _ insn c =
     (let rs = fld insn 21 25;
          new_pc = branch_target insn c;
          res = (0 < sint (gpr c rs))
      in exec_branch bd res new_pc c)"

definition mips64_exec_BGTZL :: "'d insn_fn" where
  "mips64_exec_BGTZL bd _ insn c =
     (let rs = fld insn 21 25;
          new_pc = branch_target insn c;
          res = (0 < sint (gpr c rs))
      in exec_branch_likely bd res new_pc c)"

definition mips64_exec_BLEZ :: "'d insn_fn" where
  "mips64_exec_BLEZ bd _ insn c =
     (let rs = fld insn 21 25;
          new_pc = branch_target insn c;
          res = (sint (gpr c rs) \<le> 0)
      in exec_branch bd res new_pc c)"

definition mips64_exec_BLEZL :: "'d insn_fn" where
  "mips64_exec_BLEZL bd _ insn c =
     (let rs = fld insn 21 25;
          new_pc = branch_target insn c;
          res = (sint (gpr c rs) \<le> 0)
      in exec_branch_likely bd res new_pc c)"

definition mips64_exec_BLTZ :: "'d insn_fn" where
  "mips64_exec_BLTZ bd _ insn c =
     (let rs = fld insn 21 25;
          new_pc = branch_target insn c;
          res = (sint (gpr c rs) < 0)
      in exec_branch bd res new_pc c)"

definition mips64_exec_BLTZAL :: "'d insn_fn" where
  "mips64_exec_BLTZAL bd _ insn c =
     (let rs = fld insn 21 25;
          new_pc = branch_target insn c;
          c = set_gpr MIPS_GPR_RA (pc c + 8) c;
          res = (sint (gpr c rs) < 0)
      in exec_branch bd res new_pc c)"

definition mips64_exec_BLTZALL :: "'d insn_fn" where
  "mips64_exec_BLTZALL bd _ insn c =
     (let rs = fld insn 21 25;
          new_pc = branch_target insn c;
          c = set_gpr MIPS_GPR_RA (pc c + 8) c;
          res = (sint (gpr c rs) < 0)
      in exec_branch_likely bd res new_pc c)"

definition mips64_exec_BLTZL :: "'d insn_fn" where
  "mips64_exec_BLTZL bd _ insn c =
     (let rs = fld insn 21 25;
          new_pc = branch_target insn c;
          res = (sint (gpr c rs) < 0)
      in exec_branch_likely bd res new_pc c)"

definition mips64_exec_BNE :: "'d insn_fn" where
  "mips64_exec_BNE bd _ insn c =
     (let rs = fld insn 21 25;
          rt = fld insn 16 20;
          new_pc = branch_target insn c;
          res = (gpr c rs \<noteq> gpr c rt)
      in exec_branch bd res new_pc c)"

definition mips64_exec_BNEL :: "'d insn_fn" where
  "mips64_exec_BNEL bd _ insn c =
     (let rs = fld insn 21 25;
          rt = fld insn 16 20;
          new_pc = branch_target insn c;
          res = (gpr c rs \<noteq> gpr c rt)
      in exec_branch_likely bd res new_pc c)"

definition mips64_exec_J :: "'d insn_fn" where
  "mips64_exec_J bd _ insn c =
     (let instr_index = bits insn 0 25;
          new_pc = pc c AND 0xfffffffff0000000;
          new_pc = new_pc OR ucast (push_bit 2 instr_index)
      in obind (bd c) (\<lambda>_ c. Ok True (c\<lparr>pc := new_pc\<rparr>)))"

definition mips64_exec_JAL :: "'d insn_fn" where
  "mips64_exec_JAL bd _ insn c =
     (let instr_index = bits insn 0 25;
          new_pc = pc c AND 0xfffffffff0000000;
          new_pc = new_pc OR ucast (push_bit 2 instr_index);
          c = set_gpr MIPS_GPR_RA (pc c + 8) c
      in obind (bd c) (\<lambda>_ c. Ok True (c\<lparr>pc := new_pc\<rparr>)))"

definition mips64_exec_JALR :: "'d insn_fn" where
  "mips64_exec_JALR bd _ insn c =
     (let rs = fld insn 21 25;
          rd = fld insn 11 15;
          c = set_gpr rd (pc c + 8) c;
          new_pc = gpr c rs
      in obind (bd c) (\<lambda>_ c. Ok True (c\<lparr>pc := new_pc\<rparr>)))"

definition mips64_exec_JR :: "'d insn_fn" where
  "mips64_exec_JR bd _ insn c =
     (let rs = fld insn 21 25;
          new_pc = gpr c rs
      in obind (bd c) (\<lambda>_ c. Ok True (c\<lparr>pc := new_pc\<rparr>)))"

subsection \<open>Loads, stores and cache\<close>

definition mips64_exec_memop2 ::
    "'d mem_env \<Rightarrow> mips_memop \<Rightarrow> nat \<Rightarrow> u64 \<Rightarrow> nat \<Rightarrow> bool \<Rightarrow> 'd mips_vm \<Rightarrow> (bool, 'd mips_vm) outcome" where
  "mips64_exec_memop2 env memop base offset dst_reg keep_ll_bit c =
     (let vaddr = gpr c base + sign_extend offset 16;
          c = (if \<not> keep_ll_bit then c\<lparr>ll_bit := 0\<rparr> else c)
      in obind (mem_op env memop vaddr dst_reg c) (\<lambda>_ c. Ok False c))"

definition mips64_exec_LB :: "'d insn_fn" where
  "mips64_exec_LB _ env insn c =
     (let base = fld insn 21 25;
          rt = fld insn 16 20;
          offset = (ucast (bits insn 0 15) :: u64)
      in mips64_exec_memop2 env MIPS_MEMOP_LB base offset rt True c)"

definition mips64_exec_LBU :: "'d insn_fn" where
  "mips64_exec_LBU _ env insn c =
     (let base = fld insn 21 25;
          rt = fld insn 16 20;
          offset = (ucast (bits insn 0 15) :: u64)
      in mips64_exec_memop2 env MIPS_MEMOP_LBU base offset rt True c)"

definition mips64_exec_LD :: "'d insn_fn" where
  "mips64_exec_LD _ env insn c =
     (let base = fld insn 21 25;
          rt = fld insn 16 20;
          offset = (ucast (bits insn 0 15) :: u64)
      in mips64_exec_memop2 env MIPS_MEMOP_LD base offset rt True c)"

definition mips64_exec_LDL :: "'d insn_fn" where
  "mips64_exec_LDL _ env insn c =
     (let base = fld insn 21 25;
          rt = fld insn 16 20;
          offset = (ucast (bits insn 0 15) :: u64)
      in mips64_exec_memop2 env MIPS_MEMOP_LDL base offset rt True c)"

definition mips64_exec_LDR :: "'d insn_fn" where
  "mips64_exec_LDR _ env insn c =
     (let base = fld insn 21 25;
          rt = fld insn 16 20;
          offset = (ucast (bits insn 0 15) :: u64)
      in mips64_exec_memop2 env MIPS_MEMOP_LDR base offset rt True c)"

definition mips64_exec_LH :: "'d insn_fn" where
  "mips64_exec_LH _ env insn c =
     (let base = fld insn 21 25;
          rt = fld insn 16 20;
          offset = (ucast (bits insn 0 15) :: u64)
      in mips64_exec_memop2 env MIPS_MEMOP_LH base offset rt True c)"

definition mips64_exec_LHU :: "'d insn_fn" where
  "mips64_exec_LHU _ env insn c =
     (let base = fld insn 21 25;
          rt = fld insn 16 20;
          offset = (ucast (bits insn 0 15) :: u64)
      in mips64_exec_memop2 env MIPS_MEMOP_LHU base offset rt True c)"

definition mips64_exec_LL :: "'d insn_fn" where
  "mips64_exec_LL _ env insn c =
     (let base = fld insn 21 25;
          rt = fld insn 16 20;
          offset = (ucast (bits insn 0 15) :: u64)
      in mips64_exec_memop2 env MIPS_MEMOP_LL base offset rt True c)"

definition mips64_exec_LW :: "'d insn_fn" where
  "mips64_exec_LW _ env insn c =
     (let base = fld insn 21 25;
          rt = fld insn 16 20;
          offset = (ucast (bits insn 0 15) :: u64)
      in mips64_exec_memop2 env MIPS_MEMOP_LW base offset rt True c)"

definition mips64_exec_LWL :: "'d insn_fn" where
  "mips64_exec_LWL _ env insn c =
     (let base = fld insn 21 25;
          rt = fld insn 16 20;
          offset = (ucast (bits insn 0 15) :: u64)
      in mips64_exec_memop2 env MIPS_MEMOP_LWL base offset rt True c)"

definition mips64_exec_LWR :: "'d insn_fn" where
  "mips64_exec_LWR _ env insn c =
     (let base = fld insn 21 25;
          rt = fld insn 16 20;
          offset = (ucast (bits insn 0 15) :: u64)
      in mips64_exec_memop2 env MIPS_MEMOP_LWR base offset rt True c)"

definition mips64_exec_LWU :: "'d insn_fn" where
  "mips64_exec_LWU _ env insn c =
     (let base = fld insn 21 25;
          rt = fld insn 16 20;
          offset = (ucast (bits insn 0 15) :: u64)
      in mips64_exec_memop2 env MIPS_MEMOP_LWU base offset rt True c)"

definition mips64_exec_SC :: "'d insn_fn" where
  "mips64_exec_SC _ env insn c =
     (let base = fld insn 21 25;
          rt = fld insn 16 20;
          offset = (ucast (bits insn 0 15) :: u64)
      in mips64_exec_memop2 env MIPS_MEMOP_SC base offset rt True c)"

definition mips64_exec_LDC1 :: "'d insn_fn" where
  "mips64_exec_LDC1 _ env insn c =
     (let base = fld insn 21 25;
          ft = fld insn 16 20;
          offset = (ucast (bits insn 0 15) :: u64)
      in mips64_exec_memop2 env MIPS_MEMOP_LDC1 base offset ft True c)"

definition mips64_exec_SB :: "'d insn_fn" where
  "mips64_exec_SB _ env insn c =
     (let base = fld insn 21 25;
          rt = fld insn 16 20;
          offset = (ucast (bits insn 0 15) :: u64)
      in mips64_exec_memop2 env MIPS_MEMOP_SB base offset rt False c)"

definition mips64_exec_SD :: "'d insn_fn" where
  "mips64_exec_SD _ env insn c =
     (let base = fld insn 21 25;
          rt = fld insn 16 20;
          offset = (ucast (bits insn 0 15) :: u64)
      in mips64_exec_memop2 env MIPS_MEMOP_SD base offset rt False c)"

definition mips64_exec_SDL :: "'d insn_fn" where
  "mips64_exec_SDL _ env insn c =
     (let base = fld insn 21 25;
          rt = fld insn 16 20;
          offset = (ucast (bits insn 0 15) :: u64)
      in mips64_exec_memop2 env MIPS_MEMOP_SDL base offset rt False c)"

definition mips64_exec_SDR :: "'d insn_fn" where
  "mips64_exec_SDR _ env insn c =
     (let base = fld insn 21 25;
          rt = fld insn 16 20;
          offset = (ucast (bits insn 0 15) :: u64)
      in mips64_exec_memop2 env MIPS_MEMOP_SDR base offset rt False c)"

definition mips64_exec_SH :: "'d insn_fn" where
  "mips64_exec_SH _ env insn c =
     (let base = fld insn 21 25;
          rt = fld insn 16 20;
          offset = (ucast (bits insn 0 15) :: u64)
      in mips64_exec_memop2 env MIPS_MEMOP_SH base offset rt False c)"

definition mips64_exec_SW :: "'d insn_fn" where
  "mips64_exec_SW _ env insn c =
     (let base = fld insn 21 25;
          rt = fld insn 16 20;
          offset = (ucast (bits insn 0 15) :: u64)
      in mips64_exec_memop2 env MIPS_MEMOP_SW base offset rt False c)"

definition mips64_exec_SWL :: "'d insn_fn" where
  "mips64_exec_SWL _ env insn c =
     (let base = fld insn 21 25;
          rt = fld insn 16 20;
          offset = (ucast (bits insn 0 15) :: u64)
      in mips64_exec_memop2 env MIPS_MEMOP_SWL base offset rt False c)"

definition mips64_exec_SWR :: "'d insn_fn" where
  "mips64_exec_SWR _ env insn c =
     (let base = fld insn 21 25;
          rt = fld insn 16 20;
          offset = (ucast (bits insn 0 15) :: u64)
      in mips64_exec_memop2 env MIPS_MEMOP_SWR base offset rt False c)"

definition mips64_exec_SDC1 :: "'d insn_fn" where
  "mips64_exec_SDC1 _ env insn c =
     (let base = fld insn 21 25;
          ft = fld insn 16 20;
          offset = (ucast (bits insn 0 15) :: u64)
      in mips64_exec_memop2 env MIPS_MEMOP_SDC1 base offset ft False c)"

definition mips64_exec_CACHE :: "'d insn_fn" where
  "mips64_exec_CACHE _ env insn c =
     (let base = fld insn 21 25;
          op = fld insn 16 20;
          offset = (ucast (bits insn 0 15) :: u64)
      in mips64_exec_memop2 env MIPS_MEMOP_CACHE base offset op False c)"

definition mips64_exec_NOP :: "'d insn_fn" where
  "mips64_exec_NOP _ _ _ c =
     Ok False c"

definition mips64_exec_PREF :: "'d insn_fn" where
  "mips64_exec_PREF _ _ _ c =
     Ok False c"

definition mips64_exec_PREFI :: "'d insn_fn" where
  "mips64_exec_PREFI _ _ _ c =
     Ok False c"

definition mips64_exec_SYNC :: "'d insn_fn" where
  "mips64_exec_SYNC _ _ _ c =
     Ok False c"

subsection \<open>Coprocessors\<close>

definition mips64_exec_CFC0 :: "'d insn_fn" where
  "mips64_exec_CFC0 _ _ insn c =
     (let rt = fld insn 16 20;
          rd = fld insn 11 15
      in Ok False (mips64_cp0_exec_cfc0 rt rd c))"

definition mips64_exec_CTC0 :: "'d insn_fn" where
  "mips64_exec_CTC0 _ _ insn c =
     (let rt = fld insn 16 20;
          rd = fld insn 11 15
      in Ok False (mips64_cp0_exec_ctc0 rt rd c))"

definition mips64_exec_DMFC0 :: "'d insn_fn" where
  "mips64_exec_DMFC0 _ _ insn c =
     (let rt = fld insn 16 20;
          rd = fld insn 11 15
      in obind (mips64_cp0_exec_dmfc0 rt rd c) (\<lambda>_ c. Ok False c))"

definition mips64_exec_DMTC0 :: "'d insn_fn" where
  "mips64_exec_DMTC0 _ _ insn c =
     (let rt = fld insn 16 20;
          rd = fld insn 11 15
      in obind (mips64_cp0_exec_dmtc0 rt rd c) (\<lambda>_ c. Ok False c))"

definition mips64_exec_MFC0 :: "'d insn_fn" where
  "mips64_exec_MFC0 _ _ insn c =
     (let rt = fld insn 16 20;
          rd = fld insn 11 15
      in obind (mips64_cp0_exec_mfc0 rt rd c) (\<lambda>_ c. Ok False c))"

definition mips64_exec_MTC0 :: "'d insn_fn" where
  "mips64_exec_MTC0 _ _ insn c =
     (let rt = fld insn 16 20;
          rd = fld insn 11 15
      in obind (mips64_cp0_exec_mtc0 rt rd c) (\<lambda>_ c. Ok False c))"

definition mips64_exec_DMFC1 :: "'d insn_fn" where
  "mips64_exec_DMFC1 _ _ insn c =
     (let rt = fld insn 16 20;
          rd = fld insn 11 15
      in Ok False (mips64_exec_dmfc1 rt rd c))"

definition mips64_exec_DMTC1 :: "'d insn_fn" where
  "mips64_exec_DMTC1 _ _ insn c =
     (let rt = fld insn 16 20;
          rd = fld insn 11 15
      in Ok False (mips64_exec_dmtc1 rt rd c))"

definition mips64_exec_MFC1 :: "'d insn_fn" where
  "mips64_exec_MFC1 _ _ insn c =
     (let rt = fld insn 16 20;
          rd = fld insn 11 15
      in Ok False (mips64_exec_mfc1 rt rd c))"

definition mips64_exec_MTC1 :: "'d insn_fn" where
  "mips64_exec_MTC1 _ _ insn c =
     (let rt = fld insn 16 20;
          rd = fld insn 11 15
      in Ok False (mips64_exec_mtc1 rt rd c))"

definition mips64_exec_TLBP :: "'d insn_fn" where
  "mips64_exec_TLBP _ _ _ c =
     Ok False (mips64_cp0_exec_tlbp c)"

definition mips64_exec_TLBR :: "'d insn_fn" where
  "mips64_exec_TLBR _ _ _ c =
     Ok False (mips64_cp0_exec_tlbr c)"

definition mips64_exec_TLBWI :: "'d insn_fn" where
  "mips64_exec_TLBWI _ _ _ c =
     Ok False (mips64_cp0_exec_tlbwi c)"

definition mips64_exec_TLBWR :: "'d insn_fn" where
  "mips64_exec_TLBWR _ _ _ c =
     obind (mips64_cp0_exec_tlbwr c) (\<lambda>_ c. Ok False c)"

subsection \<open>System\<close>

text \<open>\<open>mips64_dump_regs\<close> prints; its effects are the lookup of the current instruction and the
  read of every CP0 register, of which only the random register may trap.\<close>

definition mips64_dump_regs :: "'d mem_env \<Rightarrow> 'd mips_vm \<Rightarrow> (unit, 'd mips_vm) outcome" where
  "mips64_dump_regs env c =
     obind (mem_op_lookup env (pc c) c)
       (\<lambda>_ c. if list_all (\<lambda>i. mips64_cp0_get_reg i c \<noteq> None) [0..<32] then Ok () c else HostFault)"

definition mips64_exec_break :: "'d mem_env \<Rightarrow> u32 \<Rightarrow> 'd mips_vm \<Rightarrow> (unit, 'd mips_vm) outcome" where
  "mips64_exec_break env code c =
     obind (mips64_dump_regs env c) (\<lambda>_ c. Ok () (mips64_trigger_exception MIPS_CP0_CAUSE_BP False c))"

definition mips64_exec_BREAK :: "'d insn_fn" where
  "mips64_exec_BREAK _ env insn c =
     (let code = bits insn 6 25
      in obind (mips64_exec_break env code c) (\<lambda>_ c. Ok True c))"

definition mips64_exec_ERET :: "'d insn_fn" where
  "mips64_exec_ERET _ _ _ c =
     Ok True (mips64_exec_eret c)"

definition mips64_exec_SYSCALL :: "'d insn_fn" where
  "mips64_exec_SYSCALL _ _ _ c =
     Ok True (mips64_exec_syscall c)"

definition mips64_exec_TEQ :: "'d insn_fn" where
  "mips64_exec_TEQ _ _ insn c =
     (let rs = fld insn 21 25;
          rt = fld insn 16 20
      in if gpr c rs = gpr c rt then Ok True (mips64_trigger_trap_exception c) else Ok False c)"

definition mips64_exec_TEQI :: "'d insn_fn" where
  "mips64_exec_TEQI _ _ insn c =
     (let rs = fld insn 21 25;
          imm = (ucast (bits insn 0 15) :: u64);
          val = sign_extend imm 16
      in if gpr c rs = val then Ok True (mips64_trigger_trap_exception c) else Ok False c)"

definition mips64_exec_unknown :: "'d insn_fn" where
  "mips64_exec_unknown _ env _ c =
     obind (mips64_dump_regs env c) (\<lambda>_ c. Ok False c)"

section \<open>The instruction table\<close>

text \<open>\<open>mips64_exec_tags\<close>, in the order of the source: the first match wins, so the virtual
  instructions come first and the catch-all \<open>unknown\<close> is last.\<close>

record 'd mips64_insn_exec_tag =
  tag_name :: string
  tag_exec :: "'d insn_fn"
  tag_mask :: u32
  tag_value :: u32
  delay_slot :: bool
  instr_type :: nat

definition mk_tag :: "string \<Rightarrow> 'd insn_fn \<Rightarrow> u32 \<Rightarrow> u32 \<Rightarrow> nat \<Rightarrow> nat \<Rightarrow> 'd mips64_insn_exec_tag" where
  "mk_tag n e m v ds ty = \<lparr>tag_name = n, tag_exec = e, tag_mask = m, tag_value = v,
     delay_slot = (ds = 1), instr_type = ty\<rparr>"

definition mips64_exec_tags :: "'d mips64_insn_exec_tag list" where
  "mips64_exec_tags =
     [mk_tag ''li'' mips64_exec_LI 0xffe00000 0x24000000 1 16,
      mk_tag ''move'' mips64_exec_MOVE 0xfc1f07ff 0x00000021 1 15,
      mk_tag ''b'' mips64_exec_B 0xffff0000 0x10000000 0 10,
      mk_tag ''bal'' mips64_exec_BAL 0xffff0000 0x04110000 0 10,
      mk_tag ''beqz'' mips64_exec_BEQZ 0xfc1f0000 0x10000000 0 9,
      mk_tag ''bnez'' mips64_exec_BNEZ 0xfc1f0000 0x14000000 0 9,
      mk_tag ''add'' mips64_exec_ADD 0xfc0007ff 0x00000020 1 3,
      mk_tag ''addi'' mips64_exec_ADDI 0xfc000000 0x20000000 1 6,
      mk_tag ''addiu'' mips64_exec_ADDIU 0xfc000000 0x24000000 1 6,
      mk_tag ''addu'' mips64_exec_ADDU 0xfc0007ff 0x00000021 1 3,
      mk_tag ''and'' mips64_exec_AND 0xfc0007ff 0x00000024 1 3,
      mk_tag ''andi'' mips64_exec_ANDI 0xfc000000 0x30000000 1 5,
      mk_tag ''beq'' mips64_exec_BEQ 0xfc000000 0x10000000 0 8,
      mk_tag ''beql'' mips64_exec_BEQL 0xfc000000 0x50000000 0 8,
      mk_tag ''bgez'' mips64_exec_BGEZ 0xfc1f0000 0x04010000 0 9,
      mk_tag ''bgezal'' mips64_exec_BGEZAL 0xfc1f0000 0x04110000 0 9,
      mk_tag ''bgezall'' mips64_exec_BGEZALL 0xfc1f0000 0x04130000 0 9,
      mk_tag ''bgezl'' mips64_exec_BGEZL 0xfc1f0000 0x04030000 0 9,
      mk_tag ''bgtz'' mips64_exec_BGTZ 0xfc1f0000 0x1c000000 0 9,
      mk_tag ''bgtzl'' mips64_exec_BGTZL 0xfc1f0000 0x5c000000 0 9,
      mk_tag ''blez'' mips64_exec_BLEZ 0xfc1f0000 0x18000000 0 9,
      mk_tag ''blezl'' mips64_exec_BLEZL 0xfc1f0000 0x58000000 0 9,
      mk_tag ''bltz'' mips64_exec_BLTZ 0xfc1f0000 0x04000000 0 9,
      mk_tag ''bltzal'' mips64_exec_BLTZAL 0xfc1f0000 0x04100000 0 9,
      mk_tag ''bltzall'' mips64_exec_BLTZALL 0xfc1f0000 0x04120000 0 9,
      mk_tag ''bltzl'' mips64_exec_BLTZL 0xfc1f0000 0x04020000 0 9,
      mk_tag ''bne'' mips64_exec_BNE 0xfc000000 0x14000000 0 8,
      mk_tag ''bnel'' mips64_exec_BNEL 0xfc000000 0x54000000 0 8,
      mk_tag ''break'' mips64_exec_BREAK 0xfc00003f 0x0000000d 1 0,
      mk_tag ''cache'' mips64_exec_CACHE 0xfc000000 0xbc000000 1 2,
      mk_tag ''cfc0'' mips64_exec_CFC0 0xffe007ff 0x40400000 1 18,
      mk_tag ''ctc0'' mips64_exec_CTC0 0xffe007ff 0x40600000 1 18,
      mk_tag ''daddiu'' mips64_exec_DADDIU 0xfc000000 0x64000000 1 5,
      mk_tag ''daddu'' mips64_exec_DADDU 0xfc0007ff 0x0000002d 1 3,
      mk_tag ''div'' mips64_exec_DIV 0xfc00ffff 0x0000001a 1 17,
      mk_tag ''divu'' mips64_exec_DIVU 0xfc00ffff 0x0000001b 1 17,
      mk_tag ''dmfc0'' mips64_exec_DMFC0 0xffe007f8 0x40200000 1 18,
      mk_tag ''dmfc1'' mips64_exec_DMFC1 0xffe007ff 0x44200000 1 19,
      mk_tag ''dmtc0'' mips64_exec_DMTC0 0xffe007f8 0x40a00000 1 18,
      mk_tag ''dmtc1'' mips64_exec_DMTC1 0xffe007ff 0x44a00000 1 19,
      mk_tag ''dsll'' mips64_exec_DSLL 0xffe0003f 0x00000038 1 7,
      mk_tag ''dsll32'' mips64_exec_DSLL32 0xffe0003f 0x0000003c 1 7,
      mk_tag ''dsllv'' mips64_exec_DSLLV 0xfc0007ff 0x00000014 1 4,
      mk_tag ''dsra'' mips64_exec_DSRA 0xffe0003f 0x0000003b 1 7,
      mk_tag ''dsra32'' mips64_exec_DSRA32 0xffe0003f 0x0000003f 1 7,
      mk_tag ''dsrav'' mips64_exec_DSRAV 0xfc0007ff 0x00000017 1 4,
      mk_tag ''dsrl'' mips64_exec_DSRL 0xffe0003f 0x0000003a 1 7,
      mk_tag ''dsrl32'' mips64_exec_DSRL32 0xffe0003f 0x0000003e 1 7,
      mk_tag ''dsrlv'' mips64_exec_DSRLV 0xfc0007ff 0x00000016 1 4,
      mk_tag ''dsubu'' mips64_exec_DSUBU 0xfc0007ff 0x0000002f 1 3,
      mk_tag ''eret'' mips64_exec_ERET 0xffffffff 0x42000018 0 1,
      mk_tag ''j'' mips64_exec_J 0xfc000000 0x08000000 0 11,
      mk_tag ''jal'' mips64_exec_JAL 0xfc000000 0x0c000000 0 11,
      mk_tag ''jalr'' mips64_exec_JALR 0xfc1f003f 0x00000009 0 15,
      mk_tag ''jr'' mips64_exec_JR 0xfc1ff83f 0x00000008 0 13,
      mk_tag ''lb'' mips64_exec_LB 0xfc000000 0x80000000 1 2,
      mk_tag ''lbu'' mips64_exec_LBU 0xfc000000 0x90000000 1 2,
      mk_tag ''ld'' mips64_exec_LD 0xfc000000 0xdc000000 1 2,
      mk_tag ''ldc1'' mips64_exec_LDC1 0xfc000000 0xd4000000 1 3,
      mk_tag ''ldl'' mips64_exec_LDL 0xfc000000 0x68000000 1 2,
      mk_tag ''ldr'' mips64_exec_LDR 0xfc000000 0x6c000000 1 2,
      mk_tag ''lh'' mips64_exec_LH 0xfc000000 0x84000000 1 2,
      mk_tag ''lhu'' mips64_exec_LHU 0xfc000000 0x94000000 1 2,
      mk_tag ''ll'' mips64_exec_LL 0xfc000000 0xc0000000 1 2,
      mk_tag ''lui'' mips64_exec_LUI 0xffe00000 0x3c000000 1 16,
      mk_tag ''lw'' mips64_exec_LW 0xfc000000 0x8c000000 1 2,
      mk_tag ''lwl'' mips64_exec_LWL 0xfc000000 0x88000000 1 2,
      mk_tag ''lwr'' mips64_exec_LWR 0xfc000000 0x98000000 1 2,
      mk_tag ''lwu'' mips64_exec_LWU 0xfc000000 0x9c000000 1 2,
      mk_tag ''mfc0'' mips64_exec_MFC0 0xffe007ff 0x40000000 1 18,
      mk_tag ''mfc0_1'' mips64_exec_CFC0 0xffe007ff 0x40000001 1 19,
      mk_tag ''mfc1'' mips64_exec_MFC1 0xffe007ff 0x44000000 1 19,
      mk_tag ''mfhi'' mips64_exec_MFHI 0xffff07ff 0x00000010 1 14,
      mk_tag ''mflo'' mips64_exec_MFLO 0xffff07ff 0x00000012 1 14,
      mk_tag ''mtc0'' mips64_exec_MTC0 0xffe007ff 0x40800000 1 18,
      mk_tag ''mtc1'' mips64_exec_MTC1 0xffe007ff 0x44800000 1 19,
      mk_tag ''mthi'' mips64_exec_MTHI 0xfc1fffff 0x00000011 1 13,
      mk_tag ''mtlo'' mips64_exec_MTLO 0xfc1fffff 0x00000013 1 13,
      mk_tag ''mul'' mips64_exec_MUL 0xfc0007ff 0x70000002 1 4,
      mk_tag ''mult'' mips64_exec_MULT 0xfc00ffff 0x00000018 1 17,
      mk_tag ''multu'' mips64_exec_MULTU 0xfc00ffff 0x00000019 1 17,
      mk_tag ''nop'' mips64_exec_NOP 0xffffffff 0x00000000 1 1,
      mk_tag ''nor'' mips64_exec_NOR 0xfc0007ff 0x00000027 1 3,
      mk_tag ''or'' mips64_exec_OR 0xfc0007ff 0x00000025 1 3,
      mk_tag ''ori'' mips64_exec_ORI 0xfc000000 0x34000000 1 5,
      mk_tag ''pref'' mips64_exec_PREF 0xfc000000 0xcc000000 1 0,
      mk_tag ''prefi'' mips64_exec_PREFI 0xfc0007ff 0x4c00000f 1 0,
      mk_tag ''sb'' mips64_exec_SB 0xfc000000 0xa0000000 1 2,
      mk_tag ''sc'' mips64_exec_SC 0xfc000000 0xe0000000 1 2,
      mk_tag ''sd'' mips64_exec_SD 0xfc000000 0xfc000000 1 2,
      mk_tag ''sdc1'' mips64_exec_SDC1 0xfc000000 0xf4000000 1 3,
      mk_tag ''sdl'' mips64_exec_SDL 0xfc000000 0xb0000000 1 2,
      mk_tag ''sdr'' mips64_exec_SDR 0xfc000000 0xb4000000 1 2,
      mk_tag ''sh'' mips64_exec_SH 0xfc000000 0xa4000000 1 2,
      mk_tag ''sll'' mips64_exec_SLL 0xffe0003f 0x00000000 1 7,
      mk_tag ''sllv'' mips64_exec_SLLV 0xfc0007ff 0x00000004 1 4,
      mk_tag ''slt'' mips64_exec_SLT 0xfc0007ff 0x0000002a 1 3,
      mk_tag ''slti'' mips64_exec_SLTI 0xfc000000 0x28000000 1 5,
      mk_tag ''sltiu'' mips64_exec_SLTIU 0xfc000000 0x2c000000 1 5,
      mk_tag ''sltu'' mips64_exec_SLTU 0xfc0007ff 0x0000002b 1 3,
      mk_tag ''sra'' mips64_exec_SRA 0xffe0003f 0x00000003 1 7,
      mk_tag ''srav'' mips64_exec_SRAV 0xfc0007ff 0x00000007 1 4,
      mk_tag ''srl'' mips64_exec_SRL 0xffe0003f 0x00000002 1 7,
      mk_tag ''srlv'' mips64_exec_SRLV 0xfc0007ff 0x00000006 1 4,
      mk_tag ''sub'' mips64_exec_SUB 0xfc0007ff 0x00000022 1 3,
      mk_tag ''subu'' mips64_exec_SUBU 0xfc0007ff 0x00000023 1 3,
      mk_tag ''sw'' mips64_exec_SW 0xfc000000 0xac000000 1 2,
      mk_tag ''swl'' mips64_exec_SWL 0xfc000000 0xa8000000 1 2,
      mk_tag ''swr'' mips64_exec_SWR 0xfc000000 0xb8000000 1 2,
      mk_tag ''sync'' mips64_exec_SYNC 0xfffff83f 0x0000000f 1 1,
      mk_tag ''syscall'' mips64_exec_SYSCALL 0xfc00003f 0x0000000c 1 1,
      mk_tag ''teq'' mips64_exec_TEQ 0xfc00003f 0x00000034 1 17,
      mk_tag ''teqi'' mips64_exec_TEQI 0xfc1f0000 0x040c0000 1 20,
      mk_tag ''tlbp'' mips64_exec_TLBP 0xffffffff 0x42000008 1 1,
      mk_tag ''tlbr'' mips64_exec_TLBR 0xffffffff 0x42000001 1 1,
      mk_tag ''tlbwi'' mips64_exec_TLBWI 0xffffffff 0x42000002 1 1,
      mk_tag ''tlbwr'' mips64_exec_TLBWR 0xffffffff 0x42000006 1 1,
      mk_tag ''xor'' mips64_exec_XOR 0xfc0007ff 0x00000026 1 3,
      mk_tag ''xori'' mips64_exec_XORI 0xfc000000 0x38000000 1 5,
      mk_tag ''unknown'' mips64_exec_unknown 0x00000000 0x00000000 1 0]"

section \<open>Decoding\<close>

definition mips64_exec_chk_lo :: "'d mips64_insn_exec_tag \<Rightarrow> nat \<Rightarrow> bool" where
  "mips64_exec_chk_lo tag value = (of_nat value AND tag_mask tag = tag_value tag AND 0xFFFF)"

definition mips64_exec_chk_hi :: "'d mips64_insn_exec_tag \<Rightarrow> nat \<Rightarrow> bool" where
  "mips64_exec_chk_hi tag value =
     (of_nat value AND drop_bit 16 (tag_mask tag) = drop_bit 16 (tag_value tag))"

definition mips64_exec_create_ilt :: "'d mips64_insn_exec_tag list \<Rightarrow> insn_lookup option" where
  "mips64_exec_create_ilt tags =
     ilt_create (length tags) (\<lambda>i. mips64_exec_chk_lo (tags ! i)) (\<lambda>i. mips64_exec_chk_hi (tags ! i))"

text \<open>\<open>&mips64_exec_tags[ilt_lookup(ilt,insn)]\<close>; \<open>None\<close> outside the table.\<close>

definition mips64_exec_get_tag :: "u32 \<Rightarrow> 'd mips64_insn_exec_tag option" where
  "mips64_exec_get_tag insn =
     (case mips64_exec_create_ilt (mips64_exec_tags :: 'd mips64_insn_exec_tag list) of
        None \<Rightarrow> None
      | Some ilt \<Rightarrow>
          (let index = ilt_lookup ilt insn in
           if 0 \<le> index \<and> nat index < length (mips64_exec_tags :: 'd mips64_insn_exec_tag list)
           then Some (mips64_exec_tags ! nat index) else None))"

section \<open>Fetch and execution\<close>

text \<open>The page cache of the fetch. The page pointer of an unmapped page is \<open>NULL\<close>, and reading
  through it ends the host program.\<close>

definition mips64_exec_fetch :: "'d mem_env \<Rightarrow> u64 \<Rightarrow> 'd mips_vm \<Rightarrow> (u32, 'd mips_vm) outcome" where
  "mips64_exec_fetch env addr s =
     (let exec_page = addr AND NOT 0xfff in
      obind (if exec_page \<noteq> njm_exec_page s then
               (let s = s\<lparr>njm_exec_page := exec_page\<rparr> in
                obind (mem_op_lookup env exec_page s) (\<lambda>h s. Ok () (s\<lparr>njm_exec_ptr := h\<rparr>)))
             else Ok () s)
        (\<lambda>_ s.
           let offset = drop_bit 2 (addr AND 0xfff) in
           if njm_exec_ptr s = 0 then HostFault
           else Ok (ucast (host_read32 (host_mem (vm_inst s)) (njm_exec_ptr s + push_bit 2 offset))) s))"

definition mips64_exec_bdslot ::
    "(u32 \<Rightarrow> 'd mips_vm \<Rightarrow> (bool, 'd mips_vm) outcome) \<Rightarrow> 'd mem_env \<Rightarrow> 'd mips_vm \<Rightarrow> (unit, 'd mips_vm) outcome" where
  "mips64_exec_bdslot exec env s =
     obind (mips64_exec_fetch env (pc s + 4) s)
       (\<lambda>insn s. obind (exec insn s) (\<lambda>_ s. Ok () s))"

fun mips64_exec_single_instruction ::
    "nat \<Rightarrow> 'd mem_env \<Rightarrow> u32 \<Rightarrow> 'd mips_vm \<Rightarrow> (bool, 'd mips_vm) outcome" where
  "mips64_exec_single_instruction 0 env insn s = OutOfFuel"
| "mips64_exec_single_instruction (Suc n) env insn s =
     (let s = mips64_exec_inc_cp0_cnt s in
      case mips64_exec_get_tag insn of
        None \<Rightarrow> HostFault
      | Some tag \<Rightarrow>
          tag_exec tag (mips64_exec_bdslot (mips64_exec_single_instruction n env) env) env insn s)"

definition mips64_exec_single_step :: "nat \<Rightarrow> 'd mem_env \<Rightarrow> u32 \<Rightarrow> 'd mips_vm \<Rightarrow> (unit, 'd mips_vm) outcome" where
  "mips64_exec_single_step n env insn s =
     obind (mips64_exec_single_instruction n env insn s)
       (\<lambda>res s. Ok () (if \<not> res then s\<lparr>pc := pc s + 4\<rparr> else s))"

section \<open>The run loop\<close>

text \<open>The timer check of one iteration; \<open>tc\<close> is the local \<open>timer_irq_check\<close>.\<close>

definition mips64_exec_check_timer :: "u32 \<Rightarrow> 'd mips_vm \<Rightarrow> u32 \<times> 'd mips_vm" where
  "mips64_exec_check_timer tc s =
     (let tc = tc + 1 in
      if tc = timer_irq_check_itv s then
        (if timer_irq_pending s \<noteq> 0 \<and> irq_disable s = 0 then
           (let s = mips64_trigger_timer_irq s;
                s = mips64_trigger_irq s
            in (0, s\<lparr>timer_irq_pending := timer_irq_pending s - 1\<rparr>))
         else (0, s))
      else (tc, s))"

text \<open>The virtual idle loop sleeps when the pc is the idle pc; of it only the counter is modelled.\<close>

definition mips64_exec_idle :: "'d mips_vm \<Rightarrow> 'd mips_vm" where
  "mips64_exec_idle s =
     (if pc s = idle_pc s then
        (let s = s\<lparr>idle_count := idle_count s + 1\<rparr> in
         if idle_count s = idle_max s then s\<lparr>idle_count := 0\<rparr> else s)
      else s)"

text \<open>One iteration of \<open>for (;;)\<close> for a running CPU.\<close>

definition mips64_exec_iteration :: "nat \<Rightarrow> 'd mem_env \<Rightarrow> u32 \<Rightarrow> 'd mips_vm \<Rightarrow> (u32, 'd mips_vm) outcome" where
  "mips64_exec_iteration n env tc s =
     (let s = mips64_exec_idle s;
          (tc, s) = mips64_exec_check_timer tc s;
          s = set_gpr 0 0 s
      in if irq_pending s \<noteq> 0 then Ok tc (mips64_trigger_irq s)
         else
           obind (mips64_exec_fetch env (pc s) s)
             (\<lambda>insn s. obind (mips64_exec_single_instruction n env insn s)
                (\<lambda>res s. Ok tc (if \<not> res then s\<lparr>pc := pc s + 4\<rparr> else s))))"

text \<open>One tick of the timer thread; its \<open>threshold\<close> is ten seconds of ticks.\<close>

definition mips64_timer_irq_tick :: "'d mips_vm \<Rightarrow> 'd mips_vm" where
  "mips64_timer_irq_tick s =
     (let threshold = timer_irq_freq s * 10 in
      if irq_disable s = 0 \<and> cpu_state s = CPU_STATE_RUNNING then
        (let s = s\<lparr>timer_irq_pending := timer_irq_pending s + 1\<rparr> in
         if threshold < timer_irq_pending s then s\<lparr>timer_irq_pending := 0, timer_drift := timer_drift s + 1\<rparr>
         else s)
      else s)"

text \<open>\<open>m\<close> iterations at most; a \<open>longjmp\<close> returns to \<open>start_cpu\<close>. The loop ends when the CPU is
  no longer running, and a pc of 0 then halts it.\<close>

fun mips64_exec_run_cpu :: "nat \<Rightarrow> nat \<Rightarrow> 'd mem_env \<Rightarrow> u32 \<Rightarrow> 'd mips_vm \<Rightarrow> (unit, 'd mips_vm) outcome" where
  "mips64_exec_run_cpu 0 n env tc s = OutOfFuel"
| "mips64_exec_run_cpu (Suc m) n env tc s =
     (if cpu_state s \<noteq> CPU_STATE_RUNNING then
        Ok () (if pc s = 0 then s\<lparr>cpu_state := CPU_STATE_HALTED\<rparr> else s)
      else
        (case mips64_exec_iteration n env tc s of
           Ok tc s \<Rightarrow> mips64_exec_run_cpu m n env tc s
         | LongJmp s \<Rightarrow> mips64_exec_run_cpu m n env tc (s\<lparr>idle_count := 0\<rparr>)
         | HostFault \<Rightarrow> HostFault
         | OutOfFuel \<Rightarrow> OutOfFuel))"

end
