(* ===== verification/Mips64Decode.thy ===== *)
theory Mips64Decode
  imports Mips64Exec
begin

text \<open>
  Decoding of the MIPS64 interpreter: the compiled lookup table of \<open>InsnLookup\<close> gives, for the
  instruction table of \<open>mips64_exec.c\<close>, the first entry that matches the opcode (the interface
  \<open>insn_decoder\<close>, interpreted here on the table), some entry always matches, and no entry is hidden
  by the ones before it.
\<close>

section \<open>Decoding\<close>

abbreviation tag_matches :: "u32 \<Rightarrow> 'd mips64_insn_exec_tag \<Rightarrow> bool" where
  "tag_matches insn tag \<equiv> insn AND tag_mask tag = tag_value tag"

lemma chk_halves:
  "mips64_exec_chk_hi tag (unat (drop_bit 16 insn)) \<and> mips64_exec_chk_lo tag (unat (insn AND 0xFFFF))
     \<longleftrightarrow> tag_matches insn tag"
proof -
  have m: "(0xFFFF :: u32) = mask 16" by (simp add: mask_eq_exp_minus_1)
  show ?thesis
    unfolding mips64_exec_chk_hi_def mips64_exec_chk_lo_def of_nat_unat ucast_id m by (rule halves_match)
qed

lemma length_tags: "length (mips64_exec_tags :: 'd mips64_insn_exec_tag list) = 120"
  by (simp add: mips64_exec_tags_def)

lemma create_ilt_spec:
  assumes "length tags + 31 < 2 ^ 32"
  shows "\<exists>t. mips64_exec_create_ilt tags = Some t \<and>
     (\<forall>insn. ilt_lookup t insn = first_match (length tags) (\<lambda>i. tag_matches insn (tags ! i)))"
  using ilt_compile_spec [of "\<lparr>nr_insn = length tags, cbm_size = unat (normalize_size (of_nat (length tags)) 32 5),
      chk_lo = (\<lambda>i. mips64_exec_chk_lo (tags ! i)), chk_hi = (\<lambda>i. mips64_exec_chk_hi (tags ! i)), rfct = []\<rparr>"]
    normalize_size_covers [OF assms]
  by (simp add: mips64_exec_create_ilt_def ilt_create_def chk_halves)

definition mips64_ilt :: "'d mips64_insn_exec_tag list \<Rightarrow> u32 \<Rightarrow> int" where
  "mips64_ilt tags insn = ilt_lookup (the (mips64_exec_create_ilt tags)) insn"

interpretation mips_decoder: insn_decoder
  "length (mips64_exec_tags :: 'd mips64_insn_exec_tag list)"
  "\<lambda>i insn. tag_matches insn (mips64_exec_tags ! i :: 'd mips64_insn_exec_tag)"
  "mips64_ilt (mips64_exec_tags :: 'd mips64_insn_exec_tag list)"
proof
  have len: "length (mips64_exec_tags :: 'd mips64_insn_exec_tag list) + 31 < 2 ^ 32"
    by (simp add: length_tags)
  obtain t where "mips64_exec_create_ilt (mips64_exec_tags :: 'd mips64_insn_exec_tag list) = Some t"
    "\<forall>insn. ilt_lookup t insn = first_match (length (mips64_exec_tags :: 'd mips64_insn_exec_tag list))
       (\<lambda>i. tag_matches insn (mips64_exec_tags ! i :: 'd mips64_insn_exec_tag))"
    using create_ilt_spec [OF len] by blast
  then show "mips64_ilt (mips64_exec_tags :: 'd mips64_insn_exec_tag list) insn =
     first_match (length (mips64_exec_tags :: 'd mips64_insn_exec_tag list))
       (\<lambda>i. tag_matches insn (mips64_exec_tags ! i :: 'd mips64_insn_exec_tag))" for insn
    by (simp add: mips64_ilt_def)
qed

lemma get_tag_ilt:
  "(mips64_exec_get_tag insn :: 'd mips64_insn_exec_tag option) =
     (let index = mips64_ilt (mips64_exec_tags :: 'd mips64_insn_exec_tag list) insn in
      if 0 \<le> index \<and> nat index < length (mips64_exec_tags :: 'd mips64_insn_exec_tag list)
      then Some (mips64_exec_tags ! nat index) else None)"
proof -
  have "length (mips64_exec_tags :: 'd mips64_insn_exec_tag list) + 31 < 2 ^ 32" by (simp add: length_tags)
  from create_ilt_spec [OF this]
  obtain t where "mips64_exec_create_ilt (mips64_exec_tags :: 'd mips64_insn_exec_tag list) = Some t" by blast
  then show ?thesis by (simp add: mips64_exec_get_tag_def mips64_ilt_def)
qed

text \<open>The catch-all entry makes the decoder total.\<close>

lemma unknown_last:
  "tag_matches insn ((mips64_exec_tags :: 'd mips64_insn_exec_tag list) ! 119)"
  by (simp add: mips64_exec_tags_def mk_tag_def)

lemma get_tag_index:
  "\<exists>i<120. mips64_exec_get_tag insn = Some ((mips64_exec_tags :: 'd mips64_insn_exec_tag list) ! i) \<and>
     tag_matches insn ((mips64_exec_tags :: 'd mips64_insn_exec_tag list) ! i) \<and>
     (\<forall>j<i. \<not> tag_matches insn ((mips64_exec_tags :: 'd mips64_insn_exec_tag list) ! j))"
proof -
  have "(119::nat) < length (mips64_exec_tags :: 'd mips64_insn_exec_tag list)" by (simp add: length_tags)
  from mips_decoder.lookup_total [OF this unknown_last]
  obtain i where i: "mips64_ilt (mips64_exec_tags :: 'd mips64_insn_exec_tag list) insn = int i" "i \<le> 119" by blast
  then have "mips64_exec_get_tag insn = Some ((mips64_exec_tags :: 'd mips64_insn_exec_tag list) ! i)"
    by (simp add: get_tag_ilt length_tags)
  with i mips_decoder.lookup_matches [OF i(1)] show ?thesis by (intro exI [of _ i]) simp
qed

lemma get_tag_in_table:
  "\<exists>tag \<in> set mips64_exec_tags. mips64_exec_get_tag insn = Some (tag :: 'd mips64_insn_exec_tag)"
  using get_tag_index [of insn] by (metis length_tags nth_mem)

lemma get_tag_mem:
  "mips64_exec_get_tag insn = Some (tag :: 'd mips64_insn_exec_tag) \<Longrightarrow> tag \<in> set mips64_exec_tags"
  using get_tag_in_table [of insn, where 'd = 'd] by auto

lemma get_tag_Some: "\<exists>tag. mips64_exec_get_tag insn = Some (tag :: 'd mips64_insn_exec_tag)"
  using get_tag_in_table [of insn, where 'd = 'd] by auto

lemma get_tagI:
  assumes "i < 120" "tag_matches insn ((mips64_exec_tags :: 'd mips64_insn_exec_tag list) ! i)"
    "\<And>j. j < i \<Longrightarrow> \<not> tag_matches insn ((mips64_exec_tags :: 'd mips64_insn_exec_tag list) ! j)"
  shows "mips64_exec_get_tag insn = Some ((mips64_exec_tags :: 'd mips64_insn_exec_tag list) ! i)"
proof -
  have "mips64_ilt (mips64_exec_tags :: 'd mips64_insn_exec_tag list) insn = int i"
    by (rule mips_decoder.lookup_eqI) (use assms in \<open>auto simp: length_tags\<close>)
  then show ?thesis using assms(1) by (simp add: get_tag_ilt length_tags)
qed

text \<open>C7: decoding an opcode never fails and gives the first entry of the instruction table whose
  masked bits agree with it.\<close>

theorem decode_first_match:
  "mips64_exec_get_tag insn =
     find (\<lambda>tag. insn AND tag_mask tag = tag_value tag) (mips64_exec_tags :: 'd mips64_insn_exec_tag list) \<and>
   mips64_exec_get_tag insn \<noteq> (None :: 'd mips64_insn_exec_tag option)"
proof -
  obtain i where i: "i < 120" "mips64_exec_get_tag insn = Some ((mips64_exec_tags :: 'd mips64_insn_exec_tag list) ! i)"
    "tag_matches insn ((mips64_exec_tags :: 'd mips64_insn_exec_tag list) ! i)"
    "\<And>j. j < i \<Longrightarrow> \<not> tag_matches insn ((mips64_exec_tags :: 'd mips64_insn_exec_tag list) ! j)"
    using get_tag_index [of insn] by blast
  then have "find (\<lambda>tag. tag_matches insn tag) (mips64_exec_tags :: 'd mips64_insn_exec_tag list) =
      Some (mips64_exec_tags ! i)"
    by (auto simp: find_Some_iff length_tags intro!: exI [of _ i])
  with i(2) show ?thesis by simp
qed

section \<open>No entry is shadowed\<close>

text \<open>No entry of the table is shadowed by an earlier one. The check runs on integers, and compares
  an opcode only with the earlier entries of the same major opcode (bits 31 to 26), which every mask
  but the last covers.\<close>

definition major :: "int \<Rightarrow> int" where
  "major x = x AND 0xfc000000"

fun unshadowed :: "(int \<times> int \<times> int) list \<Rightarrow> (int \<times> int) list \<Rightarrow> int list \<Rightarrow> bool" where
  "unshadowed before [] xs \<longleftrightarrow> xs = []"
| "unshadowed before (e # es) [] \<longleftrightarrow> False"
| "unshadowed before ((m, v) # es) (x # xs) \<longleftrightarrow>
     x AND m = v \<and> (es = [] \<or> major m = 0xfc000000) \<and>
     (let k = major x in list_all (\<lambda>(k', m', v'). k' = k \<longrightarrow> x AND m' \<noteq> v') before) \<and>
     unshadowed ((major v, m, v) # before) es xs"

definition table_masks :: "(int \<times> int) list" where
  "table_masks = map (\<lambda>t. (uint (tag_mask t), uint (tag_value t))) (mips64_exec_tags :: unit mips64_insn_exec_tag list)"

definition table_opcodes :: "int list" where
  "table_opcodes = map (\<lambda>(m, v). v + (0xffffffff - m)) (butlast table_masks) @ [0x7fffffff]"

lemmas table_masks_eval = table_masks_def [unfolded mips64_exec_tags_def mk_tag_def list.map
    mips64_insn_exec_tag.select_convs, simplified]

lemma opcodes_unshadowed: "unshadowed [] table_masks table_opcodes"
  unfolding table_opcodes_def table_masks_eval by code_simp

lemma major_of_match:
  assumes "major m = 0xfc000000" "x AND m = v" shows "major v = major x"
proof -
  have "major v = x AND major m" unfolding major_def assms(2) [symmetric] by (simp add: and.assoc)
  then show ?thesis using assms(1) by (simp only: major_def [of x])
qed

lemma unshadowed_correct:
  assumes "unshadowed before es xs" "\<forall>(k, m, v) \<in> set before. k = major v \<and> major m = 0xfc000000"
  shows "length xs = length es \<and> (\<forall>i<length es. xs ! i AND fst (es ! i) = snd (es ! i) \<and>
     (\<forall>(k, m, v) \<in> set before. xs ! i AND m \<noteq> v) \<and> (\<forall>j<i. xs ! i AND fst (es ! j) \<noteq> snd (es ! j)))"
  using assms
proof (induction before es xs rule: unshadowed.induct)
  case (3 before m v es x xs)
  have first: "x AND m' \<noteq> v'" if "(k', m', v') \<in> set before" for k' m' v'
  proof
    assume "x AND m' = v'"
    moreover have "k' = major v'" "major m' = 0xfc000000" using 3(3) that by auto
    ultimately have "k' = major x" using major_of_match by metis
    with \<open>x AND m' = v'\<close> 3(2) that show False by (auto simp: list_all_iff Let_def)
  qed
  show ?case
  proof (cases "es = []")
    case True
    with 3(2) first show ?thesis by (cases xs) auto
  next
    case False
    with 3(2,3) have "length xs = length es \<and> (\<forall>i<length es. xs ! i AND fst (es ! i) = snd (es ! i) \<and>
      (\<forall>(k, m, v) \<in> set ((major v, m, v) # before). xs ! i AND m \<noteq> v) \<and>
      (\<forall>j<i. xs ! i AND fst (es ! j) \<noteq> snd (es ! j)))"
      by (intro 3(1)) auto
    with first 3(2) show ?thesis by (auto simp: nth_Cons split: nat.splits)
  qed
qed auto

lemma table_masks_any:
  "table_masks = map (\<lambda>t. (uint (tag_mask t), uint (tag_value t))) (mips64_exec_tags :: 'd mips64_insn_exec_tag list)"
  by (simp add: table_masks_def mips64_exec_tags_def mk_tag_def)

lemma tag_opcode:
  assumes "i < 120"
  shows "\<exists>insn. tag_matches insn ((mips64_exec_tags :: 'd mips64_insn_exec_tag list) ! i) \<and>
     (\<forall>j<i. \<not> tag_matches insn ((mips64_exec_tags :: 'd mips64_insn_exec_tag list) ! j))"
proof -
  let ?x = "table_opcodes ! i" and ?tags = "mips64_exec_tags :: 'd mips64_insn_exec_tag list"
  have masks: "table_masks ! j = (uint (tag_mask (?tags ! j)), uint (tag_value (?tags ! j)))" if "j < 120" for j
    unfolding table_masks_any [where 'd = 'd] using that by (simp add: length_tags)
  have len: "length table_masks = 120" by (simp add: table_masks_any [where 'd = 'd] length_tags)
  have match: "tag_matches (word_of_int ?x) (?tags ! j) \<longleftrightarrow>
      ?x AND uint (tag_mask (?tags ! j)) = uint (tag_value (?tags ! j))" for j
  proof -
    have "uint (word_of_int ?x AND tag_mask (?tags ! j)) = ?x AND uint (tag_mask (?tags ! j))"
      by (rule bit_eqI) (auto simp: bit_simps unsigned_and_eq dest: bit_imp_le_length)
    then show ?thesis by (simp only: word_uint_eq_iff)
  qed
  from unshadowed_correct [OF opcodes_unshadowed] assms
  have "?x AND fst (table_masks ! i) = snd (table_masks ! i)"
    "\<forall>j<i. ?x AND fst (table_masks ! j) \<noteq> snd (table_masks ! j)" by (simp_all add: len)
  with assms show ?thesis by (intro exI [of _ "word_of_int ?x"]) (auto simp: masks match)
qed

text \<open>every entry of the instruction table is the decoding of some opcode: none is shadowed by
  the entries before it.\<close>

theorem every_instruction_decodes:
  assumes "i < length (mips64_exec_tags :: 'd mips64_insn_exec_tag list)"
  shows "\<exists>insn. mips64_exec_get_tag insn = Some ((mips64_exec_tags :: 'd mips64_insn_exec_tag list) ! i)"
  using tag_opcode [of i, where 'd = 'd] get_tagI [of i, where 'd = 'd] assms unfolding length_tags by blast

theorem every_instruction_decodes_witness:
  "\<exists>insn. mips64_exec_get_tag insn = Some ((mips64_exec_tags :: unit mips64_insn_exec_tag list) ! 53)"
  using every_instruction_decodes [of 53, where 'd = unit] by (simp add: length_tags)

end
