(* ===== verification/Mips64Arith.thy ===== *)
theory Mips64Arith
  imports Mips64Exec
begin

text \<open>
  What the arithmetic and branch instructions of \<open>mips64_exec.c\<close> compute, stated over the integers:
  32-bit results, products, signed division and branch targets.
\<close>

section \<open>Signed values\<close>

lemma sint_low32: "sint (ucast (x :: u64) :: u32) = signed_take_bit 31 (sint x)"
  by (rule bit_eqI) (auto simp: bit_simps min_def)

lemma sint_scast_u32: "sint (scast (w :: u32) :: u64) = sint w"
  by (simp add: sint_up_scast is_up)

lemma sint_sign_extend_32: "sint (sign_extend x 32) = signed_take_bit 31 (sint x)"
  by (rule bit_eqI) (auto simp: bit_sign_extend bit_sint_iff bit_signed_take_bit_iff min_def)

lemma sign_extend_32_of_int:
  assumes "- (2 ^ 31) \<le> q" "q < 2 ^ 31"
  shows "sint (sign_extend (word_of_int q) 32) = q"
proof -
  have "sint (word_of_int q :: u64) = q"
    using assms by (simp add: signed_of_int signed_take_bit_int_eq_self)
  then show ?thesis using assms by (simp add: sint_sign_extend_32 signed_take_bit_int_eq_self)
qed

lemma sint_u32_range: "- (2 ^ 31) \<le> sint (w :: u32)" "sint (w :: u32) < 2 ^ 31"
  using sint_ge [of w] sint_lt [of w] by simp_all

lemma sint_u32_self: "signed_take_bit 31 (sint (w :: u32)) = sint w"
  using sint_u32_range by (simp only: signed_take_bit_int_eq_self)

lemma alu32_simps:
  fixes a b :: u32 and x y :: u64
  shows "sint (a + b) = signed_take_bit 31 (sint a + sint b)"
    "sint (a - b) = signed_take_bit 31 (sint a - sint b)"
    "sint (a * b) = signed_take_bit 31 (sint a * sint b)"
    "signed_take_bit 31 (signed_take_bit 31 m + signed_take_bit 31 n) = signed_take_bit 31 (m + n)"
    "signed_take_bit 31 (signed_take_bit 31 m - signed_take_bit 31 n) = signed_take_bit 31 (m - n)"
    "signed_take_bit 31 (signed_take_bit 31 m * signed_take_bit 31 n) = signed_take_bit 31 (m * n)"
    "signed_take_bit 31 (signed_take_bit 31 m + sint (h :: u16)) = signed_take_bit 31 (m + sint h)"
proof -
  have h: "signed_take_bit 31 (sint h) = sint h"
    using sint_ge [of h] sint_lt [of h] by (intro signed_take_bit_int_eq_self) auto
  show "signed_take_bit 31 (signed_take_bit 31 m + sint h) = signed_take_bit 31 (m + sint h)"
    using signed_take_bit_add [of 31 m "sint h"] by (simp only: h)
qed (simp_all add: sint_word_add sint_word_diff sint_word_mult signed_take_bit_add signed_take_bit_mult signed_take_bit_diff)

text \<open>the 32-bit arithmetic instructions write the sign-extended low word of the result over the
  integers, whatever the high words of their operands hold.\<close>

theorem alu32_results:
  "let x = sint (gpr c (fld insn 21 25)); y = sint (gpr c (fld insn 16 20)); rd = fld insn 11 15;
       imm = sint (ucast insn :: u16); writes = (\<lambda>f r k. \<exists>v. f bd env insn c = Ok False (set_gpr r v c) \<and>
         sint v = signed_take_bit 31 k)
   in writes mips64_exec_ADD rd (x + y) \<and> writes mips64_exec_ADDU rd (x + y) \<and>
      writes mips64_exec_SUB rd (x - y) \<and> writes mips64_exec_SUBU rd (x - y) \<and>
      writes mips64_exec_ADDI (fld insn 16 20) (x + imm) \<and> writes mips64_exec_ADDIU (fld insn 16 20) (x + imm) \<and>
      writes mips64_exec_MUL rd (x * y) \<and> writes mips64_exec_MOVE rd x \<and>
      writes mips64_exec_SLL rd (y * 2 ^ fld insn 6 10) \<and>
      writes mips64_exec_SRA rd (signed_take_bit 31 y div 2 ^ fld insn 6 10)"
proof -
  have imm: "sint (ucast (sign_extend (ucast (bits insn 0 15)) 16) :: u32) = sint (ucast insn :: u16)"
    by (rule bit_eqI) (auto simp: bits_eq_take_bit bit_sign_extend bit_simps min_def)
  have sll: "sint (push_bit n (ucast a :: u32)) = signed_take_bit 31 (sint a * 2 ^ n)" for a :: u64 and n
    unfolding push_bit_eq_mult [symmetric] by (rule bit_eqI) (auto simp: bit_simps min_def)
  have mul: "sint (sign_extend (scast (w :: u32)) 32) = sint w" for w
    by (rule bit_eqI) (auto simp: bit_sign_extend bit_simps min_def)
  have sra: "sint (sign_extend (scast (signed_drop_bit n (ucast a :: u32))) 32)
      = signed_take_bit 31 (signed_take_bit 31 (sint a) div 2 ^ n)" for a :: u64 and n
  proof -
    have "signed_take_bit 31 (sint (signed_drop_bit n (ucast a :: u32))) = sint (signed_drop_bit n (ucast a :: u32))"
      by (rule sint_u32_self)
    then show ?thesis unfolding mul by (simp only: sint_signed_drop_bit_eq sint_low32 drop_bit_eq_div)
  qed
  show ?thesis
    unfolding Let_def mips64_exec_ADD_def mips64_exec_ADDU_def mips64_exec_SUB_def mips64_exec_SUBU_def
      mips64_exec_ADDI_def mips64_exec_ADDIU_def mips64_exec_MUL_def mips64_exec_MOVE_def mips64_exec_SLL_def
      mips64_exec_SRA_def
    apply (intro conjI exI refl)
    apply (simp_all only: sign_extend_ucast_32)
    apply (unfold sint_scast_u32)
    apply (simp_all only: alu32_simps(1-3) imm sll mul sra [unfolded mul])
    apply (simp_all only: sint_sign_extend_32 sint_low32 alu32_simps(4-7))
    done
qed


lemma scast_halves:
  fixes val :: u64
  shows "sint (sign_extend (signed_drop_bit 32 val) 32) * 2 ^ 32 + uint (ucast (sign_extend val 32) :: u32) = sint val"
proof -
  have lo: "(ucast (sign_extend val 32) :: u32) = ucast val"
    by (rule bit_word_eqI) (auto simp: bit_sign_extend bit_simps min_def)
  have "signed_take_bit 31 (sint val div 2 ^ 32) = sint val div 2 ^ 32"
  proof (rule signed_take_bit_int_eq_self)
    have "- (2 ^ 63) \<le> sint val" "sint val < 2 ^ 63" using sint_ge [of val] sint_lt [of val] by simp_all
    then show "- (2 ^ 31) \<le> sint val div 2 ^ 32" and "sint val div 2 ^ 32 < 2 ^ 31" by simp_all
  qed
  moreover have "uint (ucast val :: u32) = sint val mod 2 ^ 32"
    unfolding take_bit_eq_mod [symmetric] by (rule bit_eqI) (auto simp: bit_simps)
  ultimately show ?thesis
    unfolding lo by (simp only: sint_sign_extend_32 sint_signed_drop_bit_eq drop_bit_eq_div div_mult_mod_eq)
qed

text \<open>MULT leaves the signed 64-bit product of the low words in HI and LO, MULTU the unsigned one;
  each half is sign-extended.\<close>

theorem mult_correct:
  "let a = (ucast (gpr c (fld insn 21 25)) :: u32); b = (ucast (gpr c (fld insn 16 20)) :: u32) in
   (\<exists>hi lo. mips64_exec_MULT bd env insn c = Ok False (c\<lparr>reg_lo := sign_extend lo 32, reg_hi := sign_extend hi 32\<rparr>) \<and>
      sint (sign_extend hi 32) * 2 ^ 32 + uint (ucast (sign_extend lo 32) :: u32) = sint a * sint b) \<and>
   (\<exists>hi lo. mips64_exec_MULTU bd env insn c = Ok False (c\<lparr>reg_lo := sign_extend lo 32, reg_hi := sign_extend hi 32\<rparr>) \<and>
      uint (ucast (sign_extend hi 32) :: u32) * 2 ^ 32 + uint (ucast (sign_extend lo 32) :: u32) = uint a * uint b)"
proof -
  have sgn: "sint ((scast a :: u64) * scast b) = sint a * sint b" for a b :: u32
  proof -
    have "\<bar>sint a * sint b\<bar> \<le> 2 ^ 31 * 2 ^ 31"
      unfolding abs_mult using sint_u32_range [of a] sint_u32_range [of b] by (intro mult_mono) auto
    then have "signed_take_bit 63 (sint a * sint b) = sint a * sint b"
      by (intro signed_take_bit_int_eq_self) auto
    then show ?thesis by (simp add: sint_word_mult sint_scast_u32)
  qed
  have uns: "uint ((ucast a :: u64) * ucast b) = uint a * uint b" for a b :: u32
  proof -
    have "uint a < 2 ^ 32" "uint b < 2 ^ 32" using uint_bounded [of a] uint_bounded [of b] by simp_all
    then have "uint a * uint b \<le> (2 ^ 32 - 1) * (2 ^ 32 - 1)" by (intro mult_mono) auto
    then show ?thesis
      using \<open>uint a < 2 ^ 32\<close> \<open>uint b < 2 ^ 32\<close>
      by (simp add: uint_word_ariths unsigned_ucast_eq take_bit_int_eq_self)
  qed
  have low: "(ucast (sign_extend x 32) :: u32) = ucast x" for x
    by (rule bit_word_eqI) (auto simp: bit_sign_extend bit_simps min_def)
  have halves: "uint (ucast (drop_bit 32 val) :: u32) * 2 ^ 32 + uint (ucast val :: u32) = uint val" for val :: u64
  proof -
    have "uint (ucast (drop_bit 32 val) :: u32) = uint val div 2 ^ 32"
      unfolding drop_bit_eq_div [symmetric] by (rule bit_eqI) (auto simp: bit_simps dest: bit_imp_le_length)
    moreover have "uint (ucast val :: u32) = uint val mod 2 ^ 32"
      unfolding take_bit_eq_mod [symmetric] by (rule bit_eqI) (auto simp: bit_simps dest: bit_imp_le_length)
    ultimately show ?thesis by (simp only: div_mult_mod_eq)
  qed
  show ?thesis
    unfolding Let_def mips64_exec_MULT_def mips64_exec_MULTU_def
    by (intro conjI exI) (rule refl, simp only: scast_halves sgn, rule refl, simp only: low halves uns)
qed

text \<open>C40: DIV divides the low words as signed integers, rounding towards zero, and traps on the host
  exactly when the divisor is 0 or the quotient does not fit.\<close>

theorem div_correct:
  "let a = (ucast (gpr c (fld insn 21 25)) :: u32); b = (ucast (gpr c (fld insn 16 20)) :: u32) in
   if b = 0 \<or> sint a = - (2 ^ 31) \<and> sint b = -1 then mips64_exec_DIV bd env insn c = HostFault
   else \<exists>q r. mips64_exec_DIV bd env insn c = Ok False (c\<lparr>reg_lo := q, reg_hi := r\<rparr>) \<and>
          sint a = sint q * sint b + sint r \<and> \<bar>sint r\<bar> < \<bar>sint b\<bar> \<and> (sint r = 0 \<or> sgn (sint r) = sgn (sint a))"
proof -
  define a b where ab: "a = (ucast (gpr c (fld insn 21 25)) :: u32)" "b = (ucast (gpr c (fld insn 16 20)) :: u32)"
  have min: "a = 0x80000000 \<longleftrightarrow> sint a = - (2 ^ 31)" "b = -1 \<longleftrightarrow> sint b = -1"
    by (auto simp: signed_word_eqI dest: arg_cong [where f = sint] intro: signed_word_eqI)
  show ?thesis
  proof (cases "b = 0 \<or> sint a = - (2 ^ 31) \<and> sint b = -1")
    case True
    then show ?thesis by (auto simp: mips64_exec_DIV_def Let_def min simp flip: ab)
  next
    case False
    then have b0: "sint b \<noteq> 0" by (simp add: signed_eq_0_iff)
    have range: "- (2 ^ 31) \<le> sint a sdiv sint b \<and> sint a sdiv sint b < 2 ^ 31"
    proof (cases "sint a = - (2 ^ 31) \<and> sint b < 0")
      case True
      with False have "sint b \<le> - 2" by simp
      then have "2 ^ 31 div \<bar>sint b\<bar> \<le> 2 ^ 31 div 2" by (intro zdiv_mono2) auto
      moreover have "0 \<le> 2 ^ 31 div \<bar>sint b\<bar>" by (simp add: pos_imp_zdiv_nonneg_iff b0)
      ultimately show ?thesis using True by (simp add: signed_divide_int_def)
    next
      case ne: False
      show ?thesis
      proof (cases "sint a = - (2 ^ 31)")
        case True
        with ne b0 have "0 < sint b" by simp
        then have "sint a sdiv sint b \<le> 0" using True by (simp add: signed_divide_int_def pos_imp_zdiv_nonneg_iff)
        with sdiv_int_range [of "sint a" "sint b"] True show ?thesis by simp
      next
        case False
        then show ?thesis using sdiv_int_range [of "sint a" "sint b"] sint_u32_range [of a] by auto
      qed
    qed
    have bound: "\<bar>sint a smod sint b\<bar> < \<bar>sint b\<bar>"
      using smod_int_range [OF b0, of "sint a"] by auto
    then have range': "- (2 ^ 31) \<le> sint a smod sint b \<and> sint a smod sint b < 2 ^ 31"
      using sint_u32_range [of b] by auto
    let ?q = "sign_extend (word_of_int (sint a sdiv sint b)) 32" and ?r = "sign_extend (word_of_int (sint a smod sint b)) 32"
    have qr: "sint ?q = sint a sdiv sint b" "sint ?r = sint a smod sint b"
      using range range' by (simp_all add: sign_extend_32_of_int)
    have "mips64_exec_DIV bd env insn c = Ok False (c\<lparr>reg_lo := ?q, reg_hi := ?r\<rparr>)"
      using False by (simp add: mips64_exec_DIV_def Let_def min flip: ab)
    moreover have "sint a = sint ?q * sint b + sint ?r" by (simp only: qr sdiv_mult_smod_eq)
    moreover have "sint ?r = 0 \<or> sgn (sint ?r) = sgn (sint a)"
    proof (cases "\<bar>sint a\<bar> mod \<bar>sint b\<bar> = 0")
      case True
      then show ?thesis unfolding qr by (simp add: signed_modulo_int_def)
    next
      case False
      moreover have "0 \<le> \<bar>sint a\<bar> mod \<bar>sint b\<bar>" using b0 by (intro pos_mod_sign) simp
      ultimately have "sgn (\<bar>sint a\<bar> mod \<bar>sint b\<bar>) = 1" by simp
      then have "sgn (sint a smod sint b) = sgn (sint a)" by (simp only: signed_modulo_int_def sgn_mult sgn_sgn mult_1_right)
      then show ?thesis by (intro disjI2) (simp only: qr)
    qed
    ultimately show ?thesis using False bound qr(2) by (simp flip: ab) metis
  qed
qed

lemma branch_target_eq:
  "branch_target insn c = pc c + 4 + 4 * scast (ucast insn :: u16)"
proof -
  have "sign_extend (ucast (push_bit 2 (bits insn 0 15))) 18 = push_bit 2 (scast (ucast insn :: u16))"
  proof (rule bit_word_eqI)
    show "bit (sign_extend (ucast (push_bit 2 (bits insn 0 15))) 18) n = bit (push_bit 2 (scast (ucast insn :: u16)) :: u64) n"
      if "n < LENGTH(64)" for n
      using that by (cases "n = 17") (auto simp: bits_eq_take_bit bit_sign_extend bit_simps min_def)
  qed
  then show ?thesis by (simp add: branch_target_def Let_def push_bit_eq_mult)
qed

text \<open>a PC-relative branch goes to the instruction after the branch plus four times the signed
  16-bit offset; a conditional one goes there exactly when its condition holds, and to the
  instruction after the delay slot otherwise, when the delay slot leaves the pc alone.\<close>

theorem branch_semantics:
  assumes slot: "\<And>c. \<exists>t. bd c = Ok () t \<and> pc t = pc c"
  shows "let x = gpr c (fld insn 21 25); y = gpr c (fld insn 16 20);
             target = pc c + 4 + 4 * scast (ucast insn :: u16);
             goes = (\<lambda>f cond. \<exists>t. f bd env insn c = Ok True t \<and> pc t = (if cond then target else pc c + 8))
         in goes mips64_exec_BEQ (x = y) \<and> goes mips64_exec_BNE (x \<noteq> y) \<and>
            goes mips64_exec_BEQL (x = y) \<and> goes mips64_exec_BNEL (x \<noteq> y) \<and>
            goes mips64_exec_BLEZ (sint x \<le> 0) \<and> goes mips64_exec_BGTZ (0 < sint x) \<and>
            goes mips64_exec_BLTZ (sint x < 0) \<and> goes mips64_exec_BGEZ (0 \<le> sint x) \<and>
            goes mips64_exec_BLEZL (sint x \<le> 0) \<and> goes mips64_exec_BGTZL (0 < sint x) \<and>
            goes mips64_exec_BLTZL (sint x < 0) \<and> goes mips64_exec_BGEZL (0 \<le> sint x) \<and>
            goes mips64_exec_B True"
proof -
  obtain t where t: "bd c = Ok () t" "pc t = pc c" using slot by blast
  have br: "\<exists>u. exec_branch bd cond target c = Ok True u \<and> pc u = (if cond then target else pc c + 8)"
    and brl: "\<exists>u. exec_branch_likely bd cond target c = Ok True u \<and> pc u = (if cond then target else pc c + 8)" for cond target
    by (simp_all add: exec_branch_def exec_branch_likely_def t)
  show ?thesis
    unfolding Let_def mips64_exec_BEQ_def mips64_exec_BNE_def mips64_exec_BEQL_def mips64_exec_BNEL_def
      mips64_exec_BLEZ_def mips64_exec_BGTZ_def mips64_exec_BLTZ_def mips64_exec_BGEZ_def mips64_exec_BLEZL_def
      mips64_exec_BGTZL_def mips64_exec_BLTZL_def mips64_exec_BGEZL_def mips64_exec_B_def branch_target_eq
    by (intro conjI br brl) (simp add: t)
qed

theorem branch_semantics_witness:
  "\<exists>t. mips64_exec_BEQ (\<lambda>c. Ok () c) example_env 0x10000004 example_vm = Ok True t \<and> pc t = 0x80001014"
  using branch_semantics [where bd = "\<lambda>c. Ok () c" and c = example_vm and insn = "0x10000004" and env = example_env]
  by (simp add: example_vm_def fld_def bits_def drop_bit_eq_div)

end
