(* ===== verification/Mips64Run.thy ===== *)
theory Mips64Run
  imports Mips64Decode
begin

text \<open>
  The MIPS64 interpreter as a whole: which instructions run a delay slot, how deep the recursion
  through delay slots goes, what every instruction leaves alone, and the CPU as a transition system
  with the invariant of its TLB.
\<close>

section \<open>The two kinds of instructions\<close>

lemmas branch_defs =
  mips64_exec_B_def mips64_exec_BAL_def mips64_exec_BEQ_def mips64_exec_BEQL_def
  mips64_exec_BEQZ_def mips64_exec_BNEZ_def mips64_exec_BGEZ_def mips64_exec_BGEZAL_def
  mips64_exec_BGEZALL_def mips64_exec_BGEZL_def mips64_exec_BGTZ_def mips64_exec_BGTZL_def
  mips64_exec_BLEZ_def mips64_exec_BLEZL_def mips64_exec_BLTZ_def mips64_exec_BLTZAL_def
  mips64_exec_BLTZALL_def mips64_exec_BLTZL_def mips64_exec_BNE_def mips64_exec_BNEL_def
  mips64_exec_J_def mips64_exec_JAL_def mips64_exec_JALR_def mips64_exec_JR_def

lemmas plain_defs =
  mips64_exec_ADD_def mips64_exec_ADDI_def mips64_exec_ADDIU_def mips64_exec_ADDU_def
  mips64_exec_AND_def mips64_exec_ANDI_def mips64_exec_DADDIU_def mips64_exec_DADDU_def
  mips64_exec_DSUBU_def mips64_exec_NOR_def mips64_exec_OR_def mips64_exec_ORI_def
  mips64_exec_XOR_def mips64_exec_XORI_def mips64_exec_SUB_def mips64_exec_SUBU_def
  mips64_exec_LI_def mips64_exec_LUI_def mips64_exec_MOVE_def mips64_exec_SLT_def
  mips64_exec_SLTI_def mips64_exec_SLTIU_def mips64_exec_SLTU_def mips64_exec_DSLL_def
  mips64_exec_DSLL32_def mips64_exec_DSLLV_def mips64_exec_DSRA_def mips64_exec_DSRA32_def
  mips64_exec_DSRAV_def mips64_exec_DSRL_def mips64_exec_DSRL32_def mips64_exec_DSRLV_def
  mips64_exec_SLL_def mips64_exec_SLLV_def mips64_exec_SRA_def mips64_exec_SRAV_def
  mips64_exec_SRL_def mips64_exec_SRLV_def mips64_exec_DIV_def mips64_exec_DIVU_def
  mips64_exec_MFHI_def mips64_exec_MFLO_def mips64_exec_MTHI_def mips64_exec_MTLO_def
  mips64_exec_MUL_def mips64_exec_MULT_def mips64_exec_MULTU_def mips64_exec_LB_def
  mips64_exec_LBU_def mips64_exec_LD_def mips64_exec_LDL_def mips64_exec_LDR_def
  mips64_exec_LH_def mips64_exec_LHU_def mips64_exec_LL_def mips64_exec_LW_def
  mips64_exec_LWL_def mips64_exec_LWR_def mips64_exec_LWU_def mips64_exec_SC_def
  mips64_exec_LDC1_def mips64_exec_SB_def mips64_exec_SD_def mips64_exec_SDL_def
  mips64_exec_SDR_def mips64_exec_SH_def mips64_exec_SW_def mips64_exec_SWL_def
  mips64_exec_SWR_def mips64_exec_SDC1_def mips64_exec_CACHE_def mips64_exec_NOP_def
  mips64_exec_PREF_def mips64_exec_PREFI_def mips64_exec_SYNC_def mips64_exec_CFC0_def
  mips64_exec_CTC0_def mips64_exec_DMFC0_def mips64_exec_DMTC0_def mips64_exec_MFC0_def
  mips64_exec_MTC0_def mips64_exec_DMFC1_def mips64_exec_DMTC1_def mips64_exec_MFC1_def
  mips64_exec_MTC1_def mips64_exec_TLBP_def mips64_exec_TLBR_def mips64_exec_TLBWI_def
  mips64_exec_TLBWR_def mips64_exec_BREAK_def mips64_exec_ERET_def mips64_exec_SYSCALL_def
  mips64_exec_TEQ_def mips64_exec_TEQI_def mips64_exec_unknown_def

lemma plain_exec:
  assumes "tag \<in> set mips64_exec_tags" and "delay_slot tag"
  shows "tag_exec tag bd env insn s = tag_exec tag bd' env insn s"
  using assms unfolding mips64_exec_tags_def mk_tag_def list.set
  by (auto simp only: insert_iff empty_iff mips64_insn_exec_tag.select_convs plain_defs)

section \<open>What the instructions leave alone\<close>

text \<open>The configuration of the CPU that only TLB writes (and a reset) change. \<open>keeps_config s r\<close>: the
  outcome \<open>r\<close> is not an exhausted recursion, and its state has the configuration of \<open>s\<close>.\<close>

definition cpu_config :: "'z cpu_mips_scheme \<Rightarrow> (nat \<Rightarrow> tlb_entry) \<times> u32 \<times> u32 \<times> u64" where
  "cpu_config s = (cp0_tlb s, tlb_entries s, addr_mode s, addr_bus_mask s)"

definition keeps_config :: "'d mips_vm \<Rightarrow> ('a, 'd mips_vm) outcome \<Rightarrow> bool" where
  "keeps_config s r \<longleftrightarrow> r \<noteq> OutOfFuel \<and> outcome_all (\<lambda>t. cpu_config t = cpu_config s) r"

text \<open>Device handlers, and the handler of undefined addresses, see the CPU but do not change its
  configuration.\<close>

definition handlers_keep_config :: "'d mem_env \<Rightarrow> bool" where
  "handlers_keep_config env \<longleftrightarrow>
     (\<forall>h p offset op_size op_type data s. keeps_config s (env_handler env h p offset op_size op_type data s)) \<and>
     (\<forall>h. env_undef env = Some h \<longrightarrow> (\<forall>va op_size op_type data s. keeps_config s (h va op_size op_type data s)))"

named_theorems keeps_rules \<open>outcomes that keep the configuration\<close>

lemma keeps_config_simps [simp]:
  "keeps_config s (Ok a t) \<longleftrightarrow> cpu_config t = cpu_config s"
  "keeps_config s (LongJmp t) \<longleftrightarrow> cpu_config t = cpu_config s"
  "keeps_config s HostFault"
  "\<not> keeps_config s OutOfFuel"
  by (simp_all add: keeps_config_def)

lemma keeps_config_bind [keeps_rules]:
  assumes "keeps_config s r" and "\<And>a t. cpu_config t = cpu_config s \<Longrightarrow> keeps_config t (f a t)"
  shows "keeps_config s (obind r f)"
  using assms by (cases r) (fastforce simp: keeps_config_def)+

lemma keeps_other: "keeps_config t r \<Longrightarrow> cpu_config t = cpu_config s \<Longrightarrow> keeps_config s r"
  by (simp add: keeps_config_def)

lemma cpu_config_frame [simp]:
  "cpu_config (set_gpr i v s) = cpu_config s"
  "cpu_config (set_cp0 i v s) = cpu_config s"
  "cpu_config (s\<lparr>pc := a\<rparr>) = cpu_config s"
  "cpu_config (s\<lparr>reg_lo := v\<rparr>) = cpu_config s"
  "cpu_config (s\<lparr>reg_hi := v\<rparr>) = cpu_config s"
  "cpu_config (s\<lparr>ll_bit := l\<rparr>) = cpu_config s"
  "cpu_config (s\<lparr>fpu_reg := fr\<rparr>) = cpu_config s"
  "cpu_config (s\<lparr>irq_pending := q\<rparr>) = cpu_config s"
  "cpu_config (s\<lparr>irq_cause := q\<rparr>) = cpu_config s"
  "cpu_config (s\<lparr>irq_count := n\<rparr>) = cpu_config s"
  "cpu_config (s\<lparr>irq_fp_count := n\<rparr>) = cpu_config s"
  "cpu_config (s\<lparr>timer_irq_count := n\<rparr>) = cpu_config s"
  "cpu_config (s\<lparr>timer_irq_pending := q\<rparr>) = cpu_config s"
  "cpu_config (s\<lparr>cp0_virt_cnt_reg := q\<rparr>) = cpu_config s"
  "cpu_config (s\<lparr>cp0_virt_cmp_reg := q\<rparr>) = cpu_config s"
  "cpu_config (s\<lparr>cpu_state := q\<rparr>) = cpu_config s"
  "cpu_config (s\<lparr>mts_cache := m\<rparr>) = cpu_config s"
  by (simp_all add: cpu_config_def)

lemma cpu_config_vm_frame [simp]:
  "cpu_config ((v :: 'd mips_vm)\<lparr>vm_inst := i\<rparr>) = cpu_config v"
  "cpu_config (v\<lparr>njm_exec_page := a\<rparr>) = cpu_config v"
  "cpu_config (v\<lparr>njm_exec_ptr := a\<rparr>) = cpu_config v"
  "cpu_config (v\<lparr>idle_count := q\<rparr>) = cpu_config v"
  by (simp_all add: cpu_config_def)

lemma cpu_config_exceptions [simp]:
  "cpu_config (mips64_trigger_exception code bd s) = cpu_config s"
  "cpu_config (snd (mips64_update_irq_flag_fast s)) = cpu_config s"
  "cpu_config (mips64_update_irq_flag s) = cpu_config s"
  "cpu_config (mips64_exec_eret s) = cpu_config s"
  "cpu_config (mips64_trigger_irq s) = cpu_config s"
  "cpu_config (mips64_set_irq irq s) = cpu_config s"
  "cpu_config (mips64_clear_irq irq s) = cpu_config s"
  "cpu_config (mips64_trigger_timer_irq s) = cpu_config s"
  "cpu_config (mips64_exec_inc_cp0_cnt s) = cpu_config s"
  by (simp_all add: cpu_config_def mips64_trigger_exception_def mips64_update_irq_flag_fast_def
    mips64_exec_eret_def mips64_update_irq_flag_def mips64_trigger_irq_def mips64_set_irq_def mips64_clear_irq_def
    mips64_trigger_timer_irq_def mips64_exec_inc_cp0_cnt_def Let_def split_def)

lemma cpu_config_vm_ops [simp]:
  "cpu_config (vm_stop v) = cpu_config v"
  "cpu_config (set_mts_entry b e v) = cpu_config v"
  by (simp_all add: cpu_config_def vm_stop_def set_mts_entry_def)

lemma keeps_special:
  assumes "handlers_keep_config env"
  shows "keeps_config s (mips64_access_special env vaddr acc op_code op_type op_size data s)"
  using assms
  by (auto simp: mips64_access_special_def handlers_keep_config_def Let_def intro!: keeps_rules
    split: mts_acc.split option.split)

lemmas [keeps_rules] = keeps_special [THEN keeps_other]

lemma sparse_fueled: "dev_sparse_get_host_addr p a op vm \<noteq> OutOfFuel"
  by (simp add: dev_sparse_get_host_addr_def Let_def split_def)

lemma keeps_map_entry: "keeps_config s (mts_map_entry asz env op_type m b s)"
  by (auto simp: mts_map_entry_def Let_def sparse_fueled split: option.split outcome.split)

lemmas [keeps_rules] = keeps_map_entry [THEN keeps_other]

lemma keeps_access:
  assumes "handlers_keep_config env"
  shows "keeps_config s (mts_access asz env vaddr op_code op_size op_type data s)"
  using assms
  by (auto simp: mts_access_def mts_slow_lookup_def dev_access_fast_def Let_def handlers_keep_config_def
    intro!: keeps_rules split: mts_zone.split option.split)

lemmas [keeps_rules] = keeps_access [THEN keeps_other]

lemma keeps_lookup:
  "handlers_keep_config env \<Longrightarrow> keeps_config s (mem_op_lookup env vaddr s)"
  by (auto simp: mem_op_lookup_def mts_lookup_def intro!: keeps_rules)

lemmas [keeps_rules] = keeps_lookup [THEN keeps_other]

lemma keeps_read:
  "handlers_keep_config env \<Longrightarrow> keeps_config s (mts_read asz env rd vaddr op_code op_size s)"
  by (auto simp: mts_read_def intro!: keeps_rules)

lemmas [keeps_rules] = keeps_read [THEN keeps_other]

lemma keeps_write:
  "handlers_keep_config env \<Longrightarrow> keeps_config s (mts_write asz env wr vaddr op_code op_size data s)"
  by (auto simp: mts_write_def intro!: keeps_rules)

lemmas [keeps_rules] = keeps_write [THEN keeps_other]

lemmas mts_op_defs = mts_lb_def mts_lbu_def mts_lh_def mts_lhu_def mts_lw_def mts_lwu_def mts_ld_def
  mts_sb_def mts_sh_def mts_sw_def mts_sd_def mts_ldc1_def mts_sdc1_def mts_lwl_def mts_lwr_def
  mts_ldl_def mts_ldr_def mts_swl_def mts_swr_def mts_sdl_def mts_sdr_def mts_ll_def mts_sc_def
  mts_cache_op_def

lemma keeps_mem_op:
  assumes "handlers_keep_config env"
  shows "keeps_config s (mem_op env op vaddr reg s)"
  using assms by (cases op) (auto simp: mem_op_def mem_op_fn_def mts_op_defs intro!: keeps_rules)

lemmas [keeps_rules] = keeps_mem_op [THEN keeps_other]

lemma keeps_dump_regs:
  "handlers_keep_config env \<Longrightarrow> keeps_config s (mips64_dump_regs env s)"
  by (auto simp: mips64_dump_regs_def intro!: keeps_rules)

lemmas [keeps_rules] = keeps_dump_regs [THEN keeps_other]


lemma keeps_break:
  "handlers_keep_config env \<Longrightarrow> keeps_config s (mips64_exec_break env code s)"
  by (auto simp: mips64_exec_break_def intro!: keeps_rules)

lemmas [keeps_rules] = keeps_break [THEN keeps_other]

lemma keeps_memop2:
  "handlers_keep_config env \<Longrightarrow> keeps_config s (mips64_exec_memop2 env op base off reg k s)"
  by (auto simp: mips64_exec_memop2_def Let_def intro!: keeps_rules)

lemmas [keeps_rules] = keeps_memop2 [THEN keeps_other]

lemma keeps_cp0 [simp]:
  "cpu_config (mips64_cp0_exec_cfc0 rt rd s) = cpu_config s"
  "cpu_config (mips64_cp0_exec_ctc0 rt rd s) = cpu_config s"
  "cpu_config (mips64_cp0_exec_tlbr s) = cpu_config s"
  "cpu_config (mips64_exec_dmfc1 rt rd s) = cpu_config s"
  "cpu_config (mips64_exec_dmtc1 rt rd s) = cpu_config s"
  "cpu_config (mips64_exec_mfc1 rt rd s) = cpu_config s"
  "cpu_config (mips64_exec_mtc1 rt rd s) = cpu_config s"
  by (simp_all add: cpu_config_def mips64_cp0_exec_cfc0_def mips64_cp0_exec_ctc0_def 
    mips64_cp0_exec_tlbr_def mips64_cp0_s1_set_reg_def mips64_exec_dmfc1_def mips64_exec_dmtc1_def
    mips64_exec_mfc1_def mips64_exec_mtc1_def Let_def split: option.split)

lemma keeps_tlbp [simp]: "cpu_config (mips64_cp0_exec_tlbp s) = cpu_config s"
  unfolding mips64_cp0_exec_tlbp_def Let_def
  by (rule fold_upt_inv [where I = "\<lambda>_ c. cpu_config c = cpu_config s"]) simp_all

lemma keeps_reload [keeps_rules]:
  "cpu_config t = cpu_config s \<Longrightarrow> keeps_config s (reload_virt_counter delta t)"
  by (simp add: reload_virt_counter_def Let_def)

lemma keeps_cp0_moves:
  "keeps_config s (mips64_cp0_exec_dmfc0 rt rd s)" "keeps_config s (mips64_cp0_exec_mfc0 rt rd s)"
  "keeps_config s (mips64_cp0_exec_dmtc0 rt rd s)" "keeps_config s (mips64_cp0_exec_mtc0 rt rd s)"
  by (auto simp: mips64_cp0_exec_dmfc0_def mips64_cp0_exec_mfc0_def mips64_cp0_exec_dmtc0_def
    mips64_cp0_exec_mtc0_def mips64_cp0_set_reg_def Let_def intro!: keeps_rules split: option.split)

lemmas [keeps_rules] = keeps_cp0_moves [THEN keeps_other]

lemma plain_keeps_config:
  assumes "tag \<in> set mips64_exec_tags" "delay_slot tag" "tag_name tag \<notin> {''tlbwi'', ''tlbwr''}"
    and env: "handlers_keep_config env"
  shows "keeps_config s (tag_exec tag bd env insn s)"
  using assms(1-3) unfolding mips64_exec_tags_def mk_tag_def list.set
  by (elim insertE) (simp_all add: plain_defs Let_def keeps_rules env mips64_exec_syscall_def
    mips64_trigger_trap_exception_def del: list.set)

text \<open>A branch runs its delay slot at most once, on the state it started in up to a link register,
  and then sets the pc.\<close>

lemma set_gpr_same: "set_gpr i (gpr s i) s = s" by simp

definition branch_shape :: "'d insn_fn \<Rightarrow> bool" where
  "branch_shape f \<longleftrightarrow> (\<forall>env insn s.
     (\<exists>t. cpu_config t = cpu_config s \<and> (\<forall>bd. f bd env insn s = Ok True t)) \<or>
     (\<exists>r v k. (\<forall>c. cpu_config (k c) = cpu_config c) \<and>
        (\<forall>bd. f bd env insn s = obind (bd (set_gpr r v s)) (\<lambda>_ c. Ok True (k c)))))"

lemma shape_exec_branch:
  "\<exists>r v k. (\<forall>c. cpu_config (k c) = cpu_config c) \<and>
     (\<forall>bd. obind (bd (set_gpr i x s)) (\<lambda>_ c. Ok True (c\<lparr>pc := new_pc\<rparr>))
         = obind (bd (set_gpr r v s)) (\<lambda>_ c. Ok True (k c)))"
  "\<exists>r v k. (\<forall>c. cpu_config (k c) = cpu_config c) \<and>
     (\<forall>bd. exec_branch bd res new_pc (set_gpr i x s) = obind (bd (set_gpr r v s)) (\<lambda>_ c. Ok True (k c)))"
proof -
  show "\<exists>r v k. (\<forall>c. cpu_config (k c) = cpu_config c) \<and>
     (\<forall>bd. obind (bd (set_gpr i x s)) (\<lambda>_ c. Ok True (c\<lparr>pc := new_pc\<rparr>))
         = obind (bd (set_gpr r v s)) (\<lambda>_ c. Ok True (k c)))"
    by (rule exI [of _ i], rule exI [of _ x], rule exI [of _ "\<lambda>c. c\<lparr>pc := new_pc\<rparr>"]) simp
  show "\<exists>r v k. (\<forall>c. cpu_config (k c) = cpu_config c) \<and>
     (\<forall>bd. exec_branch bd res new_pc (set_gpr i x s) = obind (bd (set_gpr r v s)) (\<lambda>_ c. Ok True (k c)))"
    by (rule exI [of _ i], rule exI [of _ x],
        rule exI [of _ "\<lambda>c. if res then c\<lparr>pc := new_pc\<rparr> else c\<lparr>pc := pc c + 8\<rparr>"])
      (simp add: exec_branch_def if_distrib)
qed

lemmas shape_exec_branch0 = shape_exec_branch [where i = 0 and x = "gpr s 0" and s = s for s, unfolded set_gpr_same]

lemma shape_exec_branch_likely:
  "(\<exists>t. cpu_config t = cpu_config s \<and> (\<forall>bd. exec_branch_likely bd res new_pc (set_gpr i x s) = Ok True t)) \<or>
   (\<exists>r v k. (\<forall>c. cpu_config (k c) = cpu_config c) \<and>
     (\<forall>bd. exec_branch_likely bd res new_pc (set_gpr i x s) = obind (bd (set_gpr r v s)) (\<lambda>_ c. Ok True (k c))))"
proof (cases res)
  case True
  then show ?thesis by (simp only: exec_branch_likely_def if_True shape_exec_branch(1) disjI2)
next
  case False
  then show ?thesis by (intro disjI1) (simp add: exec_branch_likely_def)
qed

lemmas shape_exec_branch_likely0 = shape_exec_branch_likely [where i = 0 and x = "gpr s 0" and s = s for s, unfolded set_gpr_same]

lemma branch_shapes:
  assumes "tag \<in> set mips64_exec_tags" "\<not> delay_slot tag"
  shows "branch_shape (tag_exec tag)"
  using assms unfolding mips64_exec_tags_def mk_tag_def list.set
  by (elim insertE) (simp_all add: branch_shape_def branch_defs Let_def shape_exec_branch shape_exec_branch0
    shape_exec_branch_likely shape_exec_branch_likely0 mips64_exec_ERET_def disjI1 disjI2)

section \<open>Delay slots and fuel\<close>

lemma keeps_fetch: "handlers_keep_config env \<Longrightarrow> keeps_config s (mips64_exec_fetch env a s)"
  by (auto simp: mips64_exec_fetch_def Let_def intro!: keeps_rules)

lemma single_instruction_Suc:
  assumes "mips64_exec_get_tag insn = Some tag"
  shows "mips64_exec_single_instruction (Suc n) env insn s =
     tag_exec tag (mips64_exec_bdslot (mips64_exec_single_instruction n env) env) env insn (mips64_exec_inc_cp0_cnt s)"
  using assms by (simp add: Let_def)

declare mips64_exec_single_instruction.simps(2) [simp del]

lemma plain_single_instruction:
  assumes "mips64_exec_get_tag insn = Some tag" "delay_slot tag"
  shows "mips64_exec_single_instruction (Suc n) env insn s =
     tag_exec tag (\<lambda>s. Ok () s) env insn (mips64_exec_inc_cp0_cnt s)"
proof -
  have "tag \<in> set mips64_exec_tags" by (rule get_tag_mem [OF assms(1)])
  then show ?thesis using assms by (simp only: single_instruction_Suc) (rule plain_exec)
qed

lemma branch_cases [consumes 2, case_names skipped slot]:
  assumes "tag \<in> set mips64_exec_tags" "\<not> delay_slot tag"
  obtains t where "cpu_config t = cpu_config s" "\<And>bd. tag_exec tag bd env insn s = Ok True t"
  | r v k where "\<And>c. cpu_config (k c) = cpu_config c"
      "\<And>bd. tag_exec tag bd env insn s = obind (bd (set_gpr r v s)) (\<lambda>_ c. Ok True (k c))"
  using branch_shapes [OF assms, unfolded branch_shape_def, THEN spec, THEN spec, THEN spec, of s env insn]
  by (elim disjE exE conjE) (use that in blast)+

lemma branch_fueled:
  assumes "tag \<in> set mips64_exec_tags" "\<not> delay_slot tag" "\<And>r v. bd (set_gpr r v s) \<noteq> OutOfFuel"
  shows "tag_exec tag bd env insn s \<noteq> OutOfFuel"
  using assms(1,2) by (cases rule: branch_cases [of tag s env insn]) (auto simp: obind_OutOfFuel_iff assms(3))

text \<open>A larger recursion budget does not change a result.\<close>

lemma single_instruction_more_fuel:
  assumes "mips64_exec_single_instruction n env insn (s :: 'd mips_vm) \<noteq> OutOfFuel" "n \<le> m"
  shows "mips64_exec_single_instruction m env insn s = mips64_exec_single_instruction n env insn s"
  using assms
proof (induction n arbitrary: m insn s)
  case (Suc n)
  obtain m' where m: "m = Suc m'" "n \<le> m'" using Suc.prems(2) by (cases m) auto
  let ?s = "mips64_exec_inc_cp0_cnt s"
    and ?bd = "\<lambda>n. mips64_exec_bdslot (mips64_exec_single_instruction n env) env"
  obtain tag where tag: "tag \<in> set mips64_exec_tags" "mips64_exec_get_tag insn = Some (tag :: 'd mips64_insn_exec_tag)"
    using get_tag_in_table [of insn, where 'd = 'd] by blast
  have bd: "?bd m' c = ?bd n c" if "?bd n c \<noteq> OutOfFuel" for c
    using that Suc.IH [OF _ m(2)]
    by (cases "mips64_exec_fetch env (pc c + 4) c") (auto simp: mips64_exec_bdslot_def obind_OutOfFuel_iff)
  show ?case
  proof (cases "delay_slot tag")
    case True
    then show ?thesis using tag(2) m by (simp add: plain_single_instruction)
  next
    case False
    with tag(1) show ?thesis
    proof (cases rule: branch_cases [of tag ?s env insn])
      case (skipped t)
      then show ?thesis by (simp add: single_instruction_Suc [OF tag(2)] m)
    next
      case (slot r v k)
      with Suc.prems(1) have "?bd n (set_gpr r v ?s) \<noteq> OutOfFuel"
        by (auto simp: single_instruction_Suc [OF tag(2)])
      with slot bd show ?thesis by (simp add: single_instruction_Suc [OF tag(2)] m)
    qed
  qed
qed simp

lemma tlbwr_outcome: "mips64_cp0_exec_tlbwr s \<noteq> OutOfFuel"
  by (simp add: mips64_cp0_exec_tlbwr_def split: option.split)

lemma plain_fueled:
  assumes tag: "mips64_exec_get_tag insn = Some (tag :: 'd mips64_insn_exec_tag)" "delay_slot tag"
    and env: "handlers_keep_config env"
  shows "mips64_exec_single_instruction (Suc n) env insn (s :: 'd mips_vm) \<noteq> OutOfFuel"
proof -
  have mem: "tag \<in> set mips64_exec_tags" by (rule get_tag_mem [OF tag(1)])
  let ?r = "tag_exec tag (\<lambda>s. Ok () s) env insn (mips64_exec_inc_cp0_cnt s)"
  have "?r \<noteq> OutOfFuel"
  proof (cases "tag_name tag \<in> {''tlbwi'', ''tlbwr''}")
    case True
    with mem have "tag_exec tag = mips64_exec_TLBWI \<or> tag_exec tag = mips64_exec_TLBWR"
      unfolding mips64_exec_tags_def mk_tag_def list.set by (elim insertE) simp_all
    then show ?thesis by (auto simp: mips64_exec_TLBWI_def mips64_exec_TLBWR_def obind_OutOfFuel_iff tlbwr_outcome)
  next
    case False
    from plain_keeps_config [OF mem tag(2) this env] show ?thesis by (auto simp: keeps_config_def)
  qed
  then show ?thesis by (simp add: plain_single_instruction [OF tag])
qed

text \<open>C11: an instruction that may stand in a delay slot needs one level of recursion; any other
  needs two when the instruction in its delay slot may stand there. From there on the result does
  not depend on the fuel.\<close>

theorem interpreter_terminates:
  assumes env: "handlers_keep_config env"
    and slot: "\<And>r v insn' c. mips64_exec_fetch env (pc s + 4) (set_gpr r v (mips64_exec_inc_cp0_cnt s)) = Ok insn' c \<Longrightarrow>
           \<exists>tag. mips64_exec_get_tag insn' = Some (tag :: 'd mips64_insn_exec_tag) \<and> delay_slot tag"
  shows "\<exists>r. r \<noteq> OutOfFuel \<and> (\<forall>n\<ge>2. mips64_exec_single_instruction n env insn (s :: 'd mips_vm) = r)"
proof -
  let ?s = "mips64_exec_inc_cp0_cnt s" and ?bd = "mips64_exec_bdslot (mips64_exec_single_instruction 1 env) env"
  obtain tag where tag: "tag \<in> set mips64_exec_tags" "mips64_exec_get_tag insn = Some (tag :: 'd mips64_insn_exec_tag)"
    using get_tag_in_table [of insn, where 'd = 'd] by blast
  have bd: "?bd (set_gpr r v ?s) \<noteq> OutOfFuel" for r v
  proof -
    have "mips64_exec_fetch env (pc s + 4) (set_gpr r v ?s) \<noteq> OutOfFuel"
      using keeps_fetch [OF env] by (auto simp: keeps_config_def)
    moreover have "mips64_exec_single_instruction 1 env insn' c \<noteq> OutOfFuel"
      if "mips64_exec_fetch env (pc s + 4) (set_gpr r v ?s) = Ok insn' c" for insn' c
      using slot [OF that] plain_fueled [OF _ _ env, of insn' _ 0 c] by auto
    ultimately show ?thesis
      by (auto simp: mips64_exec_bdslot_def obind_OutOfFuel_iff mips64_exec_inc_cp0_cnt_def)
  qed
  have "mips64_exec_single_instruction 2 env insn s \<noteq> OutOfFuel"
  proof (cases "delay_slot tag")
    case True
    then show ?thesis using plain_fueled [OF tag(2) _ env, of 1] by (simp add: numeral_2_eq_2)
  next
    case False
    show ?thesis
      unfolding numeral_2_eq_2 single_instruction_Suc [OF tag(2)]
      by (rule branch_fueled [OF tag(1) False]) (rule bd [unfolded One_nat_def])
  qed
  with single_instruction_more_fuel [OF this] show ?thesis
    by (intro exI [of _ "mips64_exec_single_instruction 2 env insn s"] conjI allI impI)
qed

text \<open>A machine about to execute the page at host address 0x900000; its second word is \<open>w\<close>.\<close>

definition code_vm :: "u64 \<Rightarrow> unit mips_vm" where
  "code_vm w = example_vm\<lparr>pc := 0xffffffff80001000, njm_exec_page := 0xffffffff80001000,
     njm_exec_ptr := 0x900000, vm_inst := empty_vm\<lparr>host_mem := host_write32 0x900004 w (\<lambda>_. 0)\<rparr>\<rparr>"

lemma fetch_hot:
  assumes "njm_exec_page s = addr AND NOT 0xfff" "njm_exec_ptr s \<noteq> 0"
  shows "mips64_exec_fetch env addr s =
     Ok (ucast (host_read32 (host_mem (vm_inst s)) (njm_exec_ptr s + push_bit 2 (drop_bit 2 (addr AND 0xfff))))) s"
  using assms by (simp add: mips64_exec_fetch_def Let_def)

lemma code_vm_fetch:
  assumes "c = set_gpr r v (mips64_exec_inc_cp0_cnt (code_vm w))"
  shows "mips64_exec_fetch env (0xffffffff80001000 + 4) c = Ok (ucast w) c"
proof -
  have "host_read32 (host_write32 0x900004 w (\<lambda>_. 0)) 0x900004 = take_bit 32 w" by (rule host_read32_write32)
  moreover have "(ucast (take_bit 32 w) :: u32) = ucast w"
    by (rule bit_word_eqI) (auto simp: bit_simps)
  ultimately show ?thesis
    unfolding assms
    by (subst fetch_hot) (simp_all add: code_vm_def mips64_exec_inc_cp0_cnt_def drop_bit_eq_div push_bit_eq_mult)
qed

lemma decode_nop:
  "mips64_exec_get_tag 0 = Some ((mips64_exec_tags :: 'd mips64_insn_exec_tag list) ! 81)"
proof (rule get_tagI)
  let ?tags = "mips64_exec_tags :: 'd mips64_insn_exec_tag list"
  show "tag_matches 0 (?tags ! 81)" by (simp add: mips64_exec_tags_def mk_tag_def)
  have "list_all (\<lambda>t. tag_value t \<noteq> 0) (take 81 ?tags)" by (simp add: mips64_exec_tags_def mk_tag_def)
  then show "\<not> tag_matches 0 (?tags ! j)" if "j < 81" for j
    using that by (auto simp: list_all_length length_tags)
qed simp

lemma example_env_ok: "handlers_keep_config example_env"
  by (simp add: handlers_keep_config_def example_env_def)

theorem interpreter_terminates_witness:
  "\<exists>r. r \<noteq> OutOfFuel \<and> (\<forall>n\<ge>2. mips64_exec_single_instruction n example_env 0x10000004 (code_vm 0) = r)"
proof (rule interpreter_terminates [OF example_env_ok])
  fix r v insn' c
  assume "mips64_exec_fetch example_env (pc (code_vm 0) + 4) (set_gpr r v (mips64_exec_inc_cp0_cnt (code_vm 0))) = Ok insn' c"
  then have "insn' = 0" using code_vm_fetch [OF refl] by (simp add: code_vm_def)
  then show "\<exists>tag. mips64_exec_get_tag insn' = Some (tag :: unit mips64_insn_exec_tag) \<and> delay_slot tag"
    using decode_nop [where 'd = unit] by (auto simp: mips64_exec_tags_def mk_tag_def)
qed


lemma decode_B:
  assumes "insn AND 0xffff0000 = 0x10000000"
  shows "mips64_exec_get_tag insn = Some ((mips64_exec_tags :: 'd mips64_insn_exec_tag list) ! 2)"
proof (rule get_tagI)
  let ?tags = "mips64_exec_tags :: 'd mips64_insn_exec_tag list"
  show "tag_matches insn (?tags ! 2)" using assms by (simp add: mips64_exec_tags_def mk_tag_def)
  have sub: "insn AND m = v \<Longrightarrow> m AND m' = m'' \<Longrightarrow> insn AND m'' = v AND m'" for m v m' m''
    by (metis and.assoc)
  have "insn AND 0xffe00000 = 0x10000000 AND 0xffe00000" by (rule sub [OF assms]) simp
  moreover have "insn AND 0xfc1f0000 = 0x10000000 AND 0xfc1f0000" by (rule sub [OF assms]) simp
  moreover have "insn AND 0xfc1f0000 = 0x21 AND 0xfc1f0000" if "insn AND 0xfc1f07ff = 0x21"
    by (rule sub [OF that]) simp
  ultimately show "\<not> tag_matches insn (?tags ! j)" if "j < 2" for j
    using that by (auto simp: mips64_exec_tags_def mk_tag_def less_2_cases_iff)
qed simp

lemma single_B:
  assumes "insn AND 0xffff0000 = 0x10000000"
  shows "mips64_exec_single_instruction (Suc n) env insn s =
    mips64_exec_B (mips64_exec_bdslot (mips64_exec_single_instruction n env) env) env insn (mips64_exec_inc_cp0_cnt s)"
  using single_instruction_Suc [OF decode_B [OF assms]] by (simp add: mips64_exec_tags_def mk_tag_def)

text \<open>a branch in its own delay slot makes the interpreter recurse without end: when both the
  instruction and the next word are unconditional branches, no amount of fuel gives a result.\<close>

theorem branch_in_delay_slot_diverges:
  assumes "insn AND 0xffff0000 = 0x10000000"
    and "njm_exec_page s = (pc s + 4) AND NOT 0xfff" "njm_exec_ptr s \<noteq> 0"
    and "ucast (host_read32 (host_mem (vm_inst s))
           (njm_exec_ptr s + push_bit 2 (drop_bit 2 ((pc s + 4) AND 0xfff)))) = insn"
  shows "mips64_exec_single_instruction n env insn s = OutOfFuel"
  using assms(2-4)
proof (induction n arbitrary: s)
  case (Suc n)
  let ?s = "mips64_exec_inc_cp0_cnt s"
  have "mips64_exec_fetch env (pc ?s + 4) ?s = Ok insn ?s"
    using Suc.prems by (subst fetch_hot) (simp_all add: mips64_exec_inc_cp0_cnt_def)
  moreover have "mips64_exec_single_instruction n env insn ?s = OutOfFuel"
    by (rule Suc.IH) (use Suc.prems in \<open>simp_all add: mips64_exec_inc_cp0_cnt_def\<close>)
  ultimately show ?case
    by (simp add: single_B [OF assms(1)] mips64_exec_B_def mips64_exec_bdslot_def)
qed simp

theorem branch_in_delay_slot_diverges_witness:
  "\<forall>n. mips64_exec_single_instruction n example_env 0x1000ffff (code_vm 0x1000ffff) = OutOfFuel"
proof
  fix n
  have "host_read32 (host_write32 0x900004 0x1000ffff (\<lambda>_. 0)) 0x900004 = take_bit 32 0x1000ffff"
    by (rule host_read32_write32)
  then show "mips64_exec_single_instruction n example_env 0x1000ffff (code_vm 0x1000ffff) = OutOfFuel"
    by (intro branch_in_delay_slot_diverges) (simp_all add: code_vm_def drop_bit_eq_div push_bit_eq_mult)
qed

section \<open>The TLB over a whole run\<close>

text \<open>What every entry of the TLB satisfies: a legal page mask, a virtual page number without the bits
  of the page mask, and no global bit in the low halves (it is kept in the high half).\<close>

definition tlb_entry_wf :: "tlb_entry \<Rightarrow> bool" where
  "tlb_entry_wf e \<longleftrightarrow> te_mask e AND NOT MIPS_TLB_PAGE_MASK = 0 \<and> te_hi e AND te_mask e = 0 \<and>
     te_lo0 e AND MIPS_CP0_LO_G_MASK = 0 \<and> te_lo1 e AND MIPS_CP0_LO_G_MASK = 0"

definition tlb_wf :: "'z cpu_mips_scheme \<Rightarrow> bool" where
  "tlb_wf c \<longleftrightarrow> (\<forall>i. tlb_entry_wf (cp0_tlb c i))"

lemma and_notI: "(x AND m) AND NOT m = (0 :: u64)" "(x AND NOT m) AND m = (0 :: u64)"
  by (simp_all add: and.assoc)

lemma tlbw_entry_wf: "tlb_entry_wf (tlbw_entry c)"
proof -
  let ?m = "cp0_reg c MIPS_CP0_PAGEMASK AND MIPS_TLB_PAGE_MASK"
  have hi: "((x AND NOT ?m) AND y) AND ?m = 0" for x y :: u64
    by (rule bit_word_eqI) (auto simp: bit_simps)
  have g: "MIPS_TLB_G_MASK AND ?m = 0" by (subst and.left_commute) simp
  have "tlb_entry_wf \<lparr>te_mask = ?m, te_hi = h, te_lo0 = l0 AND NOT MIPS_CP0_LO_G_MASK, te_lo1 = l1 AND NOT MIPS_CP0_LO_G_MASK\<rparr>"
    if "h AND ?m = 0" for h l0 l1
    unfolding tlb_entry_wf_def tlb_entry.select_convs by (intro conjI and_notI that)
  moreover have "(((x AND NOT ?m) AND y) OR MIPS_TLB_G_MASK) AND ?m = 0" for x y
    using hi [of x y] g by (simp only: bit.conj_disj_distrib2) simp
  ultimately show ?thesis
    unfolding tlbw_entry_def Let_def using hi by presburger
qed

lemma tlb_wf_config: "cpu_config t = cpu_config s \<Longrightarrow> tlb_wf s \<Longrightarrow> tlb_wf t"
  by (simp add: cpu_config_def tlb_wf_def)

lemma tlb_wf_keeps: "keeps_config s r \<Longrightarrow> tlb_wf s \<Longrightarrow> outcome_all tlb_wf r"
  by (auto simp: keeps_config_def intro: outcome_all_weaken tlb_wf_config)

lemma tlb_wf_tlbw: "tlb_wf s \<Longrightarrow> tlb_wf (mips64_cp0_exec_tlbw index s)"
  by (simp add: tlb_wf_def tlbw_tlb tlbw_entry_wf)

lemma tlb_wf_plain:
  assumes "tag \<in> set mips64_exec_tags" "delay_slot tag" "handlers_keep_config env" "tlb_wf s"
  shows "outcome_all tlb_wf (tag_exec tag bd env insn s)"
proof (cases "tag_name tag \<in> {''tlbwi'', ''tlbwr''}")
  case True
  with assms(1) have "tag_exec tag = mips64_exec_TLBWI \<or> tag_exec tag = mips64_exec_TLBWR"
    unfolding mips64_exec_tags_def mk_tag_def list.set by (elim insertE) simp_all
  then show ?thesis using assms(4)
    by (auto simp: mips64_exec_TLBWI_def mips64_exec_TLBWR_def mips64_cp0_exec_tlbwi_def
      mips64_cp0_exec_tlbwr_def tlb_wf_tlbw Let_def split: option.split)
next
  case False
  with plain_keeps_config [OF assms(1,2) _ assms(3)] assms(4) show ?thesis by (blast intro: tlb_wf_keeps)
qed

lemma tlb_wf_single_instruction:
  assumes "handlers_keep_config env" "tlb_wf (s :: 'd mips_vm)"
  shows "outcome_all tlb_wf (mips64_exec_single_instruction n env insn s)"
  using assms(2)
proof (induction n arbitrary: insn s)
  case (Suc n)
  let ?s = "mips64_exec_inc_cp0_cnt s"
  have wf: "tlb_wf ?s" using Suc.prems by (rule tlb_wf_config [rotated]) simp
  obtain tag where tag: "tag \<in> set mips64_exec_tags" "mips64_exec_get_tag insn = Some (tag :: 'd mips64_insn_exec_tag)"
    using get_tag_in_table [of insn, where 'd = 'd] by blast
  have bd: "outcome_all tlb_wf (mips64_exec_bdslot (mips64_exec_single_instruction n env) env c)" if "tlb_wf c" for c
    unfolding mips64_exec_bdslot_def
    by (intro outcome_all_bind tlb_wf_keeps [OF keeps_fetch [OF assms(1)] that] Suc.IH) simp_all
  show ?case
  proof (cases "delay_slot tag")
    case True
    with tag wf assms(1) show ?thesis by (simp only: single_instruction_Suc tlb_wf_plain)
  next
    case False
    with tag(1) show ?thesis
    proof (cases rule: branch_cases [of tag ?s env insn])
      case (skipped t)
      show ?thesis by (simp only: single_instruction_Suc [OF tag(2)] skipped(2) outcome_all_simps
          tlb_wf_config [OF skipped(1) wf])
    next
      case (slot r v k)
      have "tlb_wf (set_gpr r v ?s)" by (rule tlb_wf_config [OF _ wf]) simp
      then show ?thesis unfolding single_instruction_Suc [OF tag(2)] slot(2)
        by (intro outcome_all_bind [OF bd]) (auto intro: tlb_wf_config [OF slot(1)])
    qed
  qed
qed simp

section \<open>The machine as a transition system\<close>

text \<open>The CPU thread runs iterations of its loop; between two of them, devices raise and lower interrupt
  lines and the timer thread asks for a tick.\<close>

inductive vm_step :: "nat \<Rightarrow> 'd mem_env \<Rightarrow> u32 \<times> 'd mips_vm \<Rightarrow> u32 \<times> 'd mips_vm \<Rightarrow> bool" for n env where
  iterate: "cpu_state s = CPU_STATE_RUNNING \<Longrightarrow> mips64_exec_iteration n env tc s = Ok tc' s' \<Longrightarrow>
     vm_step n env (tc, s) (tc', s')"
| restart: "cpu_state s = CPU_STATE_RUNNING \<Longrightarrow> mips64_exec_iteration n env tc s = LongJmp s' \<Longrightarrow>
     vm_step n env (tc, s) (tc, s'\<lparr>idle_count := 0\<rparr>)"
| raise_irq: "vm_step n env (tc, s) (tc, mips64_set_irq irq s)"
| lower_irq: "vm_step n env (tc, s) (tc, mips64_clear_irq irq s)"
| timer_tick: "vm_step n env (tc, s) (tc, mips64_timer_irq_tick s)"

inductive_cases vm_stepE: "vm_step n env (tc, s) (tc', s')"

lemma cpu_config_check_timer: "cpu_config (snd (mips64_exec_check_timer tc s)) = cpu_config s"
  by (simp add: mips64_exec_check_timer_def Let_def)

lemma cpu_config_idle [simp]: "cpu_config (mips64_exec_idle s) = cpu_config s"
  by (simp add: mips64_exec_idle_def Let_def)

lemma cpu_config_timer_tick [simp]: "cpu_config (mips64_timer_irq_tick s) = cpu_config s"
  by (simp add: mips64_timer_irq_tick_def Let_def) (simp add: cpu_config_def)

lemma tlb_wf_iteration:
  assumes "handlers_keep_config env" "tlb_wf s"
  shows "outcome_all tlb_wf (mips64_exec_iteration n env tc s)"
proof -
  obtain tc1 s1 where c: "mips64_exec_check_timer tc (mips64_exec_idle s) = (tc1, s1)" by (metis surj_pair)
  let ?s = "set_gpr 0 0 s1"
  have "cpu_config s1 = cpu_config s"
    using cpu_config_check_timer [of tc "mips64_exec_idle s"] by (simp add: c)
  then have "cpu_config ?s = cpu_config s" by simp
  then have wf: "tlb_wf ?s" using assms(2) by (rule tlb_wf_config)
  have fin: "outcome_all tlb_wf (Ok tc' (if b then t\<lparr>pc := a\<rparr> else t))" if "tlb_wf t" for b a t and tc' :: u32
    using that by (auto intro: tlb_wf_config [OF _ that])
  show ?thesis
  proof (cases "irq_pending ?s \<noteq> 0")
    case True
    have "tlb_wf (mips64_trigger_irq ?s)" by (rule tlb_wf_config [OF _ wf]) simp
    then show ?thesis by (simp add: mips64_exec_iteration_def c Let_def True [simplified])
  next
    case False
    then have it: "mips64_exec_iteration n env tc s =
        obind (mips64_exec_fetch env (pc ?s) ?s)
             (\<lambda>insn s. obind (mips64_exec_single_instruction n env insn s)
                (\<lambda>res s. Ok tc1 (if \<not> res then s\<lparr>pc := pc s + 4\<rparr> else s)))"
      by (simp add: mips64_exec_iteration_def c Let_def)
    show ?thesis unfolding it
      by (intro outcome_all_bind tlb_wf_keeps [OF keeps_fetch [OF assms(1)] wf]
        tlb_wf_single_instruction [OF assms(1)] fin)
  qed
qed

text \<open>C10: from a machine with a well-formed TLB (after a reset, for instance), every machine reached by
  running instructions, taking exceptions, interrupts and timer ticks has a well-formed TLB.\<close>

theorem tlb_wf_reachable:
  assumes "(vm_step n env)\<^sup>*\<^sup>* (tc, s) (tc', s')" and "handlers_keep_config env" and "tlb_wf s"
  shows "tlb_wf s'"
  using assms(1,3)
proof (induction rule: rtranclp_induct2)
  case (step tc1 s1 tc2 s2)
  then have wf: "tlb_wf s1" by simp
  have it: "outcome_all tlb_wf (mips64_exec_iteration n env tc1 s1)"
    by (rule tlb_wf_iteration [OF assms(2) wf])
  have reset_idle: "tlb_wf (t\<lparr>idle_count := 0\<rparr>)" if "tlb_wf t" for t :: "'a mips_vm"
    by (rule tlb_wf_config [OF _ that]) simp
  show ?case using step.hyps(2)
    by (rule vm_stepE) (use it in \<open>auto intro: reset_idle tlb_wf_config [OF _ wf]\<close>)
qed

theorem tlb_wf_reachable_witness: "tlb_wf (mips64_set_irq 3 example_vm)"
proof (rule tlb_wf_reachable [OF _ example_env_ok])
  show "(vm_step 2 example_env)\<^sup>*\<^sup>* (0, example_vm) (0, mips64_set_irq 3 example_vm)"
    by (rule r_into_rtranclp) (rule vm_step.raise_irq)
  show "tlb_wf example_vm" by (simp add: tlb_wf_def tlb_entry_wf_def example_vm_def)
qed

lemma run_cpu_Suc:
  "mips64_exec_run_cpu (Suc m) n env tc s = Ok () t \<Longrightarrow> cpu_state s = CPU_STATE_RUNNING \<Longrightarrow>
   \<exists>tc' s'. vm_step n env (tc, s) (tc', s') \<and> mips64_exec_run_cpu m n env tc' s' = Ok () t"
  by (auto split: outcome.splits intro: vm_step.iterate vm_step.restart)



end
