(* ===== verification/Eeprom.thy ===== *)
theory Eeprom
  imports Prelude
begin

text \<open>
  Cisco EEPROMs (\<open>common/cisco_eeprom.c\<close>): lists of 16-bit words that hold the identity of a board.

  The data of an EEPROM are a word list, \<open>None\<close> for a null data pointer; the C return values 0 and -1 are
  kept. Sizes and offsets are natural numbers, loops over bytes recurse on the byte count. The dumps
  only print and are not modelled; a failing \<open>malloc\<close> is not either.

  The results: an EEPROM is an array of bytes (\<open>ee_bytes\<close>), regions written are read back, and the field
  search of the version 4 format finds the first field of a type in any well-formed image.
\<close>

section \<open>EEPROM contents (cisco_eeprom.c)\<close>

record cisco_eeprom =
  ee_name :: string
  ee_data :: "u16 list option"
  ee_len :: nat

text \<open>The array ends with an entry without a name: the list holds the entries before it.\<close>

definition cisco_eeprom_find :: "cisco_eeprom list \<Rightarrow> string \<Rightarrow> cisco_eeprom option" where
  "cisco_eeprom_find eeproms name = find (\<lambda>e. ee_name e = name) eeproms"

definition cisco_eeprom_free :: "cisco_eeprom \<Rightarrow> cisco_eeprom" where
  "cisco_eeprom_free e = (if ee_data e \<noteq> None then e\<lparr>ee_data := None, ee_len := 0\<rparr> else e)"

text \<open>The pointers \<open>dst\<close> and \<open>src\<close> may be null.\<close>

definition cisco_eeprom_copy :: "cisco_eeprom option \<Rightarrow> cisco_eeprom option \<Rightarrow> int \<times> cisco_eeprom option" where
  "cisco_eeprom_copy dst src =
     (case (dst, src) of
        (Some d, Some s) \<Rightarrow>
          (let d = cisco_eeprom_free d
           in (0, Some (d\<lparr>ee_name := ee_name s, ee_data := Some (take (ee_len s) (case ee_data s of None \<Rightarrow> [] | Some w \<Rightarrow> w)),
                          ee_len := ee_len s\<rparr>)))
      | _ \<Rightarrow> (-1, dst))"

definition cisco_eeprom_valid :: "cisco_eeprom option \<Rightarrow> bool" where
  "cisco_eeprom_valid e = (case e of None \<Rightarrow> False | Some e \<Rightarrow> ee_data e \<noteq> None)"

text \<open>The word at an index; the callers have checked the bound.\<close>

abbreviation ee_word :: "cisco_eeprom \<Rightarrow> nat \<Rightarrow> u16" where
  "ee_word e i \<equiv> the (ee_data e) ! i"

definition cisco_eeprom_get_byte :: "cisco_eeprom \<Rightarrow> nat \<Rightarrow> int \<times> u8" where
  "cisco_eeprom_get_byte e offset =
     (if ee_len e * 2 \<le> offset then (-1, 0xFF)
      else
        (let tmp = ee_word e (offset div 2);
             tmp = (if even offset then drop_bit 8 tmp else tmp)
         in (0, ucast (tmp AND 0xFF))))"

definition cisco_eeprom_set_byte :: "cisco_eeprom \<Rightarrow> nat \<Rightarrow> u8 \<Rightarrow> int \<times> cisco_eeprom" where
  "cisco_eeprom_set_byte e offset val =
     (if ee_len e * 2 \<le> offset then (-1, e)
      else
        (let tmp = ee_word e (offset div 2);
             tmp = (if odd offset then (tmp AND 0xFF00) OR ucast val
                    else (tmp AND 0x00FF) OR push_bit 8 (ucast val))
         in (0, e\<lparr>ee_data := map_option (\<lambda>d. d[offset div 2 := tmp]) (ee_data e)\<rparr>)))"

text \<open>The bytes that were stored into the caller's array, up to and including a failing one.\<close>

fun cisco_eeprom_get_region :: "cisco_eeprom \<Rightarrow> nat \<Rightarrow> nat \<Rightarrow> int \<times> u8 list" where
  "cisco_eeprom_get_region e offset 0 = (0, [])"
| "cisco_eeprom_get_region e offset (Suc n) =
     (let (r, b) = cisco_eeprom_get_byte e offset in
      if r = -1 then (-1, [b])
      else let (r, bs) = cisco_eeprom_get_region e (offset + 1) n in (r, b # bs))"

fun cisco_eeprom_set_region :: "cisco_eeprom \<Rightarrow> nat \<Rightarrow> u8 list \<Rightarrow> int \<times> cisco_eeprom" where
  "cisco_eeprom_set_region e offset [] = (0, e)"
| "cisco_eeprom_set_region e offset (b # bs) =
     (let (r, e) = cisco_eeprom_set_byte e offset b in
      if r = -1 then (-1, e) else cisco_eeprom_set_region e (offset + 1) bs)"

text \<open>The result, the new \<open>*type\<close>, \<open>*len\<close> and \<open>*offset\<close>.\<close>

definition cisco_eeprom_v4_get_field :: "cisco_eeprom \<Rightarrow> u8 \<Rightarrow> nat \<Rightarrow> int \<times> u8 \<times> u8 \<times> nat" where
  "cisco_eeprom_v4_get_field e len offset =
     (let (r, type) = cisco_eeprom_get_byte e offset; offset = offset + 1 in
      if r = -1 then (-1, type, len, offset)
      else if type = 0xFF then (0, type, len, offset)
      else
        (let tmp = drop_bit 6 type AND 0x03 in
         if tmp = 0x03 then
           (let (r, tmp) = cisco_eeprom_get_byte e offset; offset = offset + 1 in
            if r = -1 then (-1, type, len, offset) else (1, type, tmp AND 0x0F, offset))
         else (1, type, push_bit (unat tmp) 1, offset)))"

lemma v4_get_field_advances: "cisco_eeprom_v4_get_field e len offset = (r, t, l, offset') \<Longrightarrow> offset < offset'"
  by (auto simp: cisco_eeprom_v4_get_field_def Let_def split: if_splits prod.splits)

text \<open>The loop of \<open>cisco_eeprom_v4_find_field\<close> from an offset; the result is the return value and
  \<open>*field_offset\<close>.\<close>

function v4_find_from :: "cisco_eeprom \<Rightarrow> u8 \<Rightarrow> u8 \<Rightarrow> nat \<Rightarrow> nat option" where
  "v4_find_from e field_type len offset =
     (case cisco_eeprom_v4_get_field e len offset of
        (r, type, len, offset') \<Rightarrow>
          if r < 1 then None
          else if type = field_type then Some offset'
          else if offset' + unat len < ee_len e * 2 then v4_find_from e field_type len (offset' + unat len)
          else None)"
  by pat_completeness auto
termination
  by (relation "measure (\<lambda>(e, _, _, offset). ee_len e * 2 - offset)")
    (auto dest!: v4_get_field_advances [OF sym])

declare v4_find_from.simps [simp del]

definition cisco_eeprom_v4_find_field :: "cisco_eeprom \<Rightarrow> u8 \<Rightarrow> nat option" where
  "cisco_eeprom_v4_find_field e field_type = v4_find_from e field_type 0 2"

section \<open>An EEPROM is an array of bytes\<close>

definition eeprom_wf :: "cisco_eeprom \<Rightarrow> bool" where
  "eeprom_wf e \<longleftrightarrow> ee_len e = (case ee_data e of None \<Rightarrow> 0 | Some d \<Rightarrow> length d)"

text \<open>The bytes in the order of their offsets: the high byte of a word comes first.\<close>

definition word_bytes :: "u16 \<Rightarrow> u8 list" where
  "word_bytes w = [ucast (drop_bit 8 w), ucast w]"

definition ee_bytes :: "cisco_eeprom \<Rightarrow> u8 list" where
  "ee_bytes e = concat (map word_bytes (case ee_data e of None \<Rightarrow> [] | Some d \<Rightarrow> d))"

lemma length_word_bytes [simp]: "length (word_bytes w) = 2"
  by (simp add: word_bytes_def)

lemma concat_words:
  "length (concat (map word_bytes d)) = length d * 2"
  "o' < length d * 2 \<Longrightarrow> concat (map word_bytes d) ! o' = word_bytes (d ! (o' div 2)) ! (o' mod 2)"
proof (induction d arbitrary: o')
  case (Cons w d)
  { case 1 show ?case using Cons.IH(1) by simp }
  { case 2
    show ?case
    proof (cases "o' < 2")
      case True
      then show ?thesis by (simp add: nth_append)
    next
      case False
      then obtain k where "o' = Suc (Suc k)" by (metis Suc_1 Suc_le_D le_add_diff_inverse not_less add_2_eq_Suc)
      with 2 Cons.IH(2) [of k] show ?thesis by (simp add: nth_append)
    qed }
qed simp_all

lemma concat_words_update:
  assumes "i < length d * 2" "word_bytes w = (word_bytes (d ! (i div 2)))[i mod 2 := v]"
  shows "concat (map word_bytes (d[i div 2 := w])) = (concat (map word_bytes d))[i := v]"
proof (rule nth_equalityI)
  show "length (concat (map word_bytes (d[i div 2 := w]))) = length ((concat (map word_bytes d))[i := v])"
    by (simp add: concat_words)
  fix j assume "j < length (concat (map word_bytes (d[i div 2 := w])))"
  then have j: "j < length d * 2" by (simp add: concat_words)
  have "i div 2 < length d" using assms(1) by simp
  moreover have "i = j \<longleftrightarrow> i div 2 = j div 2 \<and> i mod 2 = j mod 2" by (metis div_mult_mod_eq)
  ultimately show "concat (map word_bytes (d[i div 2 := w])) ! j = (concat (map word_bytes d))[i := v] ! j"
    using j assms by (auto simp: concat_words nth_list_update)
qed

lemma length_ee_bytes: "eeprom_wf e \<Longrightarrow> length (ee_bytes e) = ee_len e * 2"
  by (simp add: ee_bytes_def eeprom_wf_def concat_words split: option.splits)

lemma word_byte_cases: "(n :: nat) mod 2 = (if even n then 0 else 1)"
  by (simp add: odd_iff_mod_2_eq_one)

lemma get_byte_bytes:
  assumes "eeprom_wf e"
  shows "cisco_eeprom_get_byte e i = (if i < length (ee_bytes e) then (0, ee_bytes e ! i) else (-1, 0xFF))"
proof (cases "i < ee_len e * 2")
  case True
  then obtain d where d: "ee_data e = Some d" "length d = ee_len e"
    using assms by (auto simp: eeprom_wf_def split: option.splits)
  have m: "(ucast (w AND 0xFF) :: u8) = ucast w" for w :: u16
  proof -
    have "(0xFF :: u16) = mask 8" by (simp add: mask_eq_exp_minus_1)
    show ?thesis unfolding \<open>(0xFF :: u16) = mask 8\<close> by (rule bit_word_eqI) (auto simp: bit_simps)
  qed
  have "ee_bytes e ! i = word_bytes (d ! (i div 2)) ! (i mod 2)"
    using True d by (simp add: ee_bytes_def concat_words)
  then show ?thesis
    using True d by (simp add: cisco_eeprom_get_byte_def Let_def m length_ee_bytes [OF assms] word_byte_cases word_bytes_def)
qed (simp add: cisco_eeprom_get_byte_def length_ee_bytes [OF assms])

lemma set_byte_bytes:
  assumes "eeprom_wf e"
  shows "\<exists>e'. cisco_eeprom_set_byte e i v = (if i < length (ee_bytes e) then 0 else -1, e') \<and> eeprom_wf e' \<and>
           ee_bytes e' = (if i < length (ee_bytes e) then (ee_bytes e)[i := v] else ee_bytes e)"
proof (cases "i < ee_len e * 2")
  case True
  then obtain d where d: "ee_data e = Some d" "length d = ee_len e"
    using assms by (auto simp: eeprom_wf_def split: option.splits)
  let ?w = "d ! (i div 2)"
  let ?t = "if odd i then (?w AND 0xFF00) OR ucast v else (?w AND 0x00FF) OR push_bit 8 (ucast v)"
  have masks: "(0xFF00 :: u16) = push_bit 8 (mask 8)" "(0x00FF :: u16) = mask 8"
    by (simp_all add: mask_eq_exp_minus_1 push_bit_eq_mult)
  have "word_bytes ?t = (word_bytes ?w)[i mod 2 := v]"
  proof (cases "odd i")
    case True
    then show ?thesis
      unfolding masks word_bytes_def by (auto simp: word_byte_cases bit_eq_iff bit_simps dest: bit_imp_le_length)
  next
    case False
    then show ?thesis
      unfolding masks word_bytes_def by (auto simp: word_byte_cases bit_eq_iff bit_simps dest: bit_imp_le_length)
  qed
  with True d have "concat (map word_bytes (d[i div 2 := ?t])) = (concat (map word_bytes d))[i := v]"
    by (intro concat_words_update) auto
  then show ?thesis
    using True d by (auto simp: cisco_eeprom_set_byte_def Let_def length_ee_bytes [OF assms] eeprom_wf_def ee_bytes_def
      concat_words)
qed (simp add: cisco_eeprom_set_byte_def length_ee_bytes [OF assms] assms)

lemma set_region_bytes:
  assumes "eeprom_wf e" "i + length bs \<le> length (ee_bytes e)"
  shows "\<exists>e'. cisco_eeprom_set_region e i bs = (0, e') \<and> eeprom_wf e' \<and>
           ee_bytes e' = take i (ee_bytes e) @ bs @ drop (i + length bs) (ee_bytes e)"
  using assms
proof (induction bs arbitrary: e i)
  case (Cons b bs)
  obtain e1 where e1: "cisco_eeprom_set_byte e i b = (0, e1)" "eeprom_wf e1" "ee_bytes e1 = (ee_bytes e)[i := b]"
    using set_byte_bytes [OF Cons.prems(1), of i b] Cons.prems(2) by auto
  obtain e' where e': "cisco_eeprom_set_region e1 (i + 1) bs = (0, e')" "eeprom_wf e'"
    "ee_bytes e' = take (i + 1) (ee_bytes e1) @ bs @ drop (i + 1 + length bs) (ee_bytes e1)"
    using Cons.IH [OF e1(2), of "i + 1"] Cons.prems(2) e1(3) by auto
  have "take (i + 1) (ee_bytes e1) = take i (ee_bytes e) @ [b]"
    using Cons.prems(2) by (simp add: e1(3) take_Suc_conv_app_nth)
  then show ?case using e1(1) e' by (auto simp: e1(3))
qed auto

lemma get_region_bytes:
  assumes "eeprom_wf e" "i + n \<le> length (ee_bytes e)"
  shows "cisco_eeprom_get_region e i n = (0, take n (drop i (ee_bytes e)))"
  using assms
proof (induction n arbitrary: i)
  case (Suc n)
  then have "drop i (ee_bytes e) = ee_bytes e ! i # drop (Suc i) (ee_bytes e)"
    by (simp add: Cons_nth_drop_Suc)
  with Suc.IH [of "Suc i"] Suc.prems show ?case by (simp add: get_byte_bytes)
qed simp

text \<open>an EEPROM is an array of bytes: a region inside it that is written reads back, and every byte
  outside the region keeps its value.\<close>

theorem eeprom_region_roundtrip:
  assumes "eeprom_wf e" "offset + length bs \<le> ee_len e * 2"
  shows "\<exists>e'. cisco_eeprom_set_region e offset bs = (0, e') \<and> eeprom_wf e' \<and>
           cisco_eeprom_get_region e' offset (length bs) = (0, bs) \<and>
           (\<forall>i. i < offset \<or> offset + length bs \<le> i \<longrightarrow> cisco_eeprom_get_byte e' i = cisco_eeprom_get_byte e i)"
proof -
  have len: "offset + length bs \<le> length (ee_bytes e)" using assms by (simp add: length_ee_bytes)
  from set_region_bytes [OF assms(1) len] obtain e' where e': "cisco_eeprom_set_region e offset bs = (0, e')"
    "eeprom_wf e'" "ee_bytes e' = take offset (ee_bytes e) @ bs @ drop (offset + length bs) (ee_bytes e)" by blast
  have "length (ee_bytes e') = length (ee_bytes e)" using len by (simp add: e'(3))
  moreover have "ee_bytes e' ! i = ee_bytes e ! i" if "i < length (ee_bytes e)" "i < offset \<or> offset + length bs \<le> i" for i
    using that len by (auto simp: e'(3) nth_append)
  ultimately have "cisco_eeprom_get_byte e' i = cisco_eeprom_get_byte e i" if "i < offset \<or> offset + length bs \<le> i" for i
    using that by (simp add: get_byte_bytes [OF e'(2)] get_byte_bytes [OF assms(1)])
  moreover have "cisco_eeprom_get_region e' offset (length bs) = (0, bs)"
    using len by (simp add: get_region_bytes [OF e'(2)] e'(3))
  ultimately show ?thesis using e'(1,2) by blast
qed

definition sample_eeprom :: cisco_eeprom where
  "sample_eeprom = \<lparr>ee_name = ''NM'', ee_data = Some [0x04FF, 0x4100, 0x01C2, 0x0241, 0x42FF], ee_len = 5\<rparr>"

theorem eeprom_region_roundtrip_witness:
  "\<exists>e'. cisco_eeprom_set_region sample_eeprom 3 [0xAA, 0xBB] = (0, e') \<and>
     cisco_eeprom_get_region e' 3 2 = (0, [0xAA, 0xBB]) \<and> cisco_eeprom_get_byte e' 5 = (0, 0xC2)"
proof -
  have "eeprom_wf sample_eeprom" "3 + length [0xAA, 0xBB :: u8] \<le> ee_len sample_eeprom * 2"
    by (simp_all add: sample_eeprom_def eeprom_wf_def)
  from eeprom_region_roundtrip [OF this] obtain e' where
    e': "cisco_eeprom_set_region sample_eeprom 3 [0xAA, 0xBB] = (0, e')"
      "cisco_eeprom_get_region e' 3 (length [0xAA, 0xBB :: u8]) = (0, [0xAA, 0xBB])"
    and rest: "\<And>i. i < 3 \<or> 3 + length [0xAA, 0xBB :: u8] \<le> i \<Longrightarrow>
      cisco_eeprom_get_byte e' i = cisco_eeprom_get_byte sample_eeprom i" by blast
  have "cisco_eeprom_get_byte e' 5 = cisco_eeprom_get_byte sample_eeprom 5" by (rule rest) simp
  also have "\<dots> = (0, 0xC2)" by (simp add: sample_eeprom_def cisco_eeprom_get_byte_def)
  finally show ?thesis using e' by (auto simp: numeral_2_eq_2)
qed

section \<open>The fields of the version 4 format\<close>

text \<open>A field: its type, whose two top bits give the length 1, 2 or 4, or announce a length byte.\<close>

definition v4_field_ok :: "u8 \<times> u8 list \<Rightarrow> bool" where
  "v4_field_ok = (\<lambda>(t, bs). t \<noteq> 0xFF \<and>
     (if drop_bit 6 t AND 0x03 = 0x03 then length bs < 16 else length bs = 2 ^ unat (drop_bit 6 t AND 0x03)))"

definition v4_header :: "u8 \<times> u8 list \<Rightarrow> u8 list" where
  "v4_header = (\<lambda>(t, bs). if drop_bit 6 t AND 0x03 = 0x03 then [t, of_nat (length bs)] else [t])"

definition v4_encode :: "u8 \<times> u8 list \<Rightarrow> u8 list" where
  "v4_encode f = v4_header f @ snd f"

lemma v4_get_field:
  assumes wf: "eeprom_wf e" and ok: "v4_field_ok f"
    and at: "drop offset (ee_bytes e) = v4_encode f @ rest"
  shows "\<exists>l. cisco_eeprom_v4_get_field e len offset = (1, fst f, l, offset + length (v4_header f)) \<and> unat l = length (snd f)"
proof -
  obtain t bs where f: "f = (t, bs)" by (cases f)
  have ne: "drop offset (ee_bytes e) = t # tl (drop offset (ee_bytes e))"
    using at by (auto simp: f v4_encode_def v4_header_def)
  have "drop offset (ee_bytes e) \<noteq> []" by (subst ne) simp
  then have "offset < length (ee_bytes e)" by simp
  moreover have "drop offset (ee_bytes e) ! 0 = t" by (subst ne) simp
  ultimately have b0: "offset < length (ee_bytes e)" "ee_bytes e ! offset = t" by simp_all
  show ?thesis
  proof (cases "drop_bit 6 t AND 0x03 = 0x03")
    case True
    then have d: "drop offset (ee_bytes e) = t # of_nat (length bs) # bs @ rest"
      using at by (simp add: f v4_encode_def v4_header_def)
    then have b1: "offset + 1 < length (ee_bytes e)" "ee_bytes e ! (offset + 1) = of_nat (length bs)"
    proof -
      have "length (drop offset (ee_bytes e)) \<ge> 2" using d by simp
      then show "offset + 1 < length (ee_bytes e)" by simp
      have "ee_bytes e ! (offset + 1) = drop offset (ee_bytes e) ! 1" using b0 by simp
      then show "ee_bytes e ! (offset + 1) = of_nat (length bs)" using d by simp
    qed
    have l: "length bs < 16" "t \<noteq> 0xFF" using ok True by (simp_all add: f v4_field_ok_def)
    have "(of_nat (length bs) :: u8) AND 0x0F = of_nat (length bs)"
    proof -
      have "(0x0F :: u8) = mask 4" by (simp add: mask_eq_exp_minus_1)
      moreover have "take_bit 4 (of_nat (length bs) :: u8) = of_nat (length bs)"
        using l by (intro take_bit_self_of_less) (simp add: unsigned_of_nat take_bit_nat_eq_self)
      ultimately show ?thesis by (simp only: take_bit_eq_mask)
    qed
    moreover have "unat (of_nat (length bs) :: u8) = length bs"
      using l by (simp add: unsigned_of_nat take_bit_nat_eq_self)
    ultimately show ?thesis
      using b0 b1 l True by (simp add: cisco_eeprom_v4_get_field_def Let_def get_byte_bytes [OF wf] f v4_header_def)
  next
    case False
    let ?k = "unat (drop_bit 6 t AND 0x03)"
    have k: "length bs = 2 ^ ?k" "t \<noteq> 0xFF" using ok False by (simp_all add: f v4_field_ok_def)
    have "drop_bit 6 t AND 0x03 \<le> 0x03" by (rule word_and_le1)
    then have "?k \<le> 3" by (simp add: word_le_nat_alt)
    then have "?k = 0 \<or> ?k = 1 \<or> ?k = 2 \<or> ?k = 3" by linarith
    then have "unat (push_bit ?k (1 :: u8)) = 2 ^ ?k" by (elim disjE) (simp_all add: push_bit_eq_mult)
    then show ?thesis
      using b0 k False by (simp add: cisco_eeprom_v4_get_field_def Let_def get_byte_bytes [OF wf] f v4_header_def)
  qed
qed

section \<open>The search for a field\<close>

lemma length_v4_encode: "length (v4_encode f) = length (v4_header f) + length (snd f)"
  by (simp add: v4_encode_def)

text \<open>An image of the format: two header bytes, the fields, then the end of the EEPROM or a 0xFF.\<close>

definition v4_image :: "cisco_eeprom \<Rightarrow> (u8 \<times> u8 list) list \<Rightarrow> bool" where
  "v4_image e fs \<longleftrightarrow> eeprom_wf e \<and> list_all v4_field_ok fs \<and>
     (\<exists>h1 h2 tl. ee_bytes e = [h1, h2] @ concat (map v4_encode fs) @ tl \<and> (tl = [] \<or> hd tl = 0xFF))"

lemma v4_get_field_end:
  assumes wf: "eeprom_wf e" and at: "drop offset (ee_bytes e) = rest" and tl: "rest = [] \<or> hd rest = 0xFF"
  shows "fst (cisco_eeprom_v4_get_field e len offset) < 1"
proof (cases rest)
  case Nil
  with at have "\<not> offset < length (ee_bytes e)" by simp
  then show ?thesis by (simp add: cisco_eeprom_v4_get_field_def get_byte_bytes [OF wf])
next
  case (Cons b bs)
  with at tl have d: "drop offset (ee_bytes e) = 0xFF # bs" by simp
  then have "drop offset (ee_bytes e) \<noteq> []" by simp
  then have "offset < length (ee_bytes e)" by simp
  moreover have "drop offset (ee_bytes e) ! 0 = 0xFF" by (simp add: d)
  ultimately show ?thesis by (simp add: cisco_eeprom_v4_get_field_def get_byte_bytes [OF wf])
qed

lemma v4_find_from_found:
  assumes "eeprom_wf e" "list_all v4_field_ok (pre @ [f])" "t \<notin> fst ` set pre" "fst f = t"
    "drop offset (ee_bytes e) = concat (map v4_encode pre) @ v4_encode f @ rest"
  shows "v4_find_from e t len offset = Some (offset + length (concat (map v4_encode pre)) + length (v4_header f))"
  using assms
proof (induction pre arbitrary: offset len)
  case Nil
  then obtain l where "cisco_eeprom_v4_get_field e len offset = (1, fst f, l, offset + length (v4_header f))"
    using v4_get_field [OF Nil.prems(1), of f offset rest len] by auto
  with Nil show ?case by (simp add: v4_find_from.simps [of e t len offset])
next
  case (Cons p pre)
  obtain l where l: "cisco_eeprom_v4_get_field e len offset = (1, fst p, l, offset + length (v4_header p))"
    "unat l = length (snd p)"
    using v4_get_field [OF Cons.prems(1), of p offset "concat (map v4_encode pre) @ v4_encode f @ rest" len] Cons.prems
    by auto
  let ?o = "offset + length (v4_encode p)"
  have d: "drop ?o (ee_bytes e) = concat (map v4_encode pre) @ v4_encode f @ rest"
    using Cons.prems(5) by (simp flip: drop_drop add: add.commute [of offset])
  moreover have "v4_encode f \<noteq> []" by (cases f) (simp add: v4_encode_def v4_header_def)
  ultimately have "drop ?o (ee_bytes e) \<noteq> []" by simp
  then have "?o < ee_len e * 2" by (simp add: length_ee_bytes [OF Cons.prems(1)])
  moreover have "v4_find_from e t l ?o = Some (?o + length (concat (map v4_encode pre)) + length (v4_header f))"
    using Cons.IH [OF Cons.prems(1)] Cons.prems d by simp
  ultimately show ?case using Cons.prems l
    by (auto simp: v4_find_from.simps [of e t len offset] length_v4_encode add.assoc)
qed

lemma v4_find_from_absent:
  assumes "eeprom_wf e" "list_all v4_field_ok fs" "t \<notin> fst ` set fs"
    "drop offset (ee_bytes e) = concat (map v4_encode fs) @ rest" "rest = [] \<or> hd rest = 0xFF"
  shows "v4_find_from e t len offset = None"
  using assms
proof (induction fs arbitrary: offset len)
  case Nil
  then show ?case using v4_get_field_end [of e offset rest len]
    by (auto simp: v4_find_from.simps [of e t len offset] split: prod.splits)
next
  case (Cons p fs)
  obtain l where l: "cisco_eeprom_v4_get_field e len offset = (1, fst p, l, offset + length (v4_header p))"
    "unat l = length (snd p)"
    using v4_get_field [OF Cons.prems(1), of p offset "concat (map v4_encode fs) @ rest" len] Cons.prems by auto
  have "drop (offset + length (v4_encode p)) (ee_bytes e) = concat (map v4_encode fs) @ rest"
    using Cons.prems(4) by (simp flip: drop_drop add: add.commute [of offset])
  with Cons.IH [OF Cons.prems(1)] Cons.prems
  have "v4_find_from e t l (offset + length (v4_encode p)) = None" by simp
  with Cons.prems l show ?case by (auto simp: v4_find_from.simps [of e t len offset] length_v4_encode add.assoc)
qed

text \<open>the field search of the version 4 format, on every well-formed image: the first field of the
  type is found and the reported offset is where its contents are read; a type that no field has is not
  found.\<close>

theorem v4_find_field_correct:
  assumes "v4_image e fs"
  shows "(\<forall>pre bs post. fs = pre @ (t, bs) # post \<and> t \<notin> fst ` set pre \<longrightarrow>
           (\<exists>offset. cisco_eeprom_v4_find_field e t = Some offset \<and>
                     cisco_eeprom_get_region e offset (length bs) = (0, bs))) \<and>
         (t \<notin> fst ` set fs \<longrightarrow> cisco_eeprom_v4_find_field e t = None)"
proof -
  from assms obtain h1 h2 tl where wf: "eeprom_wf e" and ok: "list_all v4_field_ok fs"
    and bytes: "ee_bytes e = [h1, h2] @ concat (map v4_encode fs) @ tl" and tl: "tl = [] \<or> hd tl = 0xFF"
    by (auto simp: v4_image_def)
  have found: "\<exists>offset. cisco_eeprom_v4_find_field e t = Some offset \<and>
      cisco_eeprom_get_region e offset (length bs) = (0, bs)"
    if "fs = pre @ (t, bs) # post \<and> t \<notin> fst ` set pre" for pre bs post
  proof -
    from that have fs: "fs = pre @ (t, bs) # post" and new: "t \<notin> fst ` set pre" by auto
    let ?o = "2 + length (concat (map v4_encode pre)) + length (v4_header (t, bs))"
    have "drop 2 (ee_bytes e) = concat (map v4_encode pre) @ v4_encode (t, bs) @ concat (map v4_encode post) @ tl"
      by (simp add: bytes fs)
    from v4_find_from_found [OF wf _ new _ this] have "cisco_eeprom_v4_find_field e t = Some ?o"
      using ok by (simp add: cisco_eeprom_v4_find_field_def fs)
    moreover have "ee_bytes e = ([h1, h2] @ concat (map v4_encode pre) @ v4_header (t, bs)) @ bs @ concat (map v4_encode post) @ tl"
      by (simp add: bytes fs v4_encode_def)
    then have "cisco_eeprom_get_region e ?o (length bs) = (0, bs)"
      by (subst get_region_bytes [OF wf]) simp_all
    ultimately show ?thesis by blast
  qed
  moreover have "cisco_eeprom_v4_find_field e t = None" if "t \<notin> fst ` set fs"
    using v4_find_from_absent [OF wf ok that, of 2 tl] tl by (simp add: cisco_eeprom_v4_find_field_def bytes)
  ultimately show ?thesis by blast
qed

lemma sample_image: "v4_image sample_eeprom [(0x41, [0x00, 0x01]), (0xC2, [0x41, 0x42])]"
  by (simp add: v4_image_def sample_eeprom_def eeprom_wf_def ee_bytes_def word_bytes_def v4_encode_def v4_header_def
      v4_field_ok_def)

theorem v4_find_field_correct_witness:
  "(\<exists>offset. cisco_eeprom_v4_find_field sample_eeprom 0xC2 = Some offset \<and>
      cisco_eeprom_get_region sample_eeprom offset 2 = (0, [0x41, 0x42])) \<and>
   cisco_eeprom_v4_find_field sample_eeprom 0x43 = None"
proof
  have "\<exists>offset. cisco_eeprom_v4_find_field sample_eeprom 0xC2 = Some offset \<and>
      cisco_eeprom_get_region sample_eeprom offset (length [0x41, 0x42 :: u8]) = (0, [0x41, 0x42])"
    by (rule v4_find_field_correct [OF sample_image, THEN conjunct1, rule_format,
        of "[(0x41, [0x00, 0x01])]" "0xC2" "[0x41, 0x42]" "[]"]) simp
  then show "\<exists>offset. cisco_eeprom_v4_find_field sample_eeprom 0xC2 = Some offset \<and>
      cisco_eeprom_get_region sample_eeprom offset 2 = (0, [0x41, 0x42])" by (simp add: numeral_2_eq_2)
  show "cisco_eeprom_v4_find_field sample_eeprom 0x43 = None"
    by (rule v4_find_field_correct [OF sample_image, THEN conjunct2, rule_format]) simp
qed

end
