(* ===== verification/Nmc93cX6.thy ===== *)
theory Nmc93cX6
  imports Eeprom
begin

text \<open>
  The Microwire serial EEPROM that hands a Cisco EEPROM to the guest (\<open>common/nmc93cX6.c\<close>). A guest drives
  a register whose bits are the clock, chip select and data lines of up to 16 EEPROMs; each has its own
  little state machine: wait for a command of 9 or 11 bits, then shift out the 16 bits of the addressed
  word.

  A group is a record; its arrays of pointers are functions of the index, an EEPROM that is not there is
  \<open>None\<close>. The debug output is not modelled.

  The results: the group acts on each EEPROM separately (\<open>write_group\<close>), and a guest that follows the
  Microwire protocol reads exactly the addressed word.
\<close>

section \<open>The serial EEPROM (nmc93cX6.c)\<close>

datatype eeprom_type = EEPROM_TYPE_NMC93C46 | EEPROM_TYPE_NMC93C56
datatype eeprom_fsm = EEPROM_STATE_INACTIVE | EEPROM_STATE_WAIT_CMD | EEPROM_STATE_DATAOUT

record nmc93cX6_eeprom_def =
  clock_bit :: nat
  select_bit :: nat
  din_bit :: nat
  dout_bit :: nat

record nmc93cX6_eeprom_state =
  cmd_len :: nat
  cmd_val :: u32
  fsm :: eeprom_fsm
  dataout_pos :: nat
  dataout_val :: u32

record nmc93cX6_group =
  eeprom_type :: eeprom_type
  nr_eeprom :: nat
  eeprom_reg :: u32
  reverse_data :: bool
  dout_high :: bool
  ee_def :: "nat \<Rightarrow> nmc93cX6_eeprom_def"
  ee_state :: "nat \<Rightarrow> nmc93cX6_eeprom_state"
  ee_chip :: "nat \<Rightarrow> cisco_eeprom option"

definition m_reverse_u8 :: "u8 \<Rightarrow> u8" where
  "m_reverse_u8 val =
     fold (\<lambda>i res. if val AND push_bit i 1 \<noteq> 0 then res OR push_bit (7 - i) 1 else res) [0..<8] 0"

definition nmc94cX6_get_cmd_len :: "eeprom_type \<Rightarrow> nat" where
  "nmc94cX6_get_cmd_len t = (case t of EEPROM_TYPE_NMC93C46 \<Rightarrow> 9 | EEPROM_TYPE_NMC93C56 \<Rightarrow> 11)"

definition nmc94cX6_get_addr :: "eeprom_type \<Rightarrow> u32 \<Rightarrow> nat" where
  "nmc94cX6_get_addr t cmd =
     (case t of
        EEPROM_TYPE_NMC93C46 \<Rightarrow> unat (drop_bit 3 cmd AND 0x3f)
      | EEPROM_TYPE_NMC93C56 \<Rightarrow> unat (m_reverse_u8 (ucast (drop_bit 3 cmd AND 0xff))))"

text \<open>The chip select test for one EEPROM, then the loop over the group.\<close>

definition check_cs_state :: "nmc93cX6_group \<Rightarrow> u32 \<Rightarrow> u32 \<Rightarrow> nat \<Rightarrow> nmc93cX6_eeprom_state" where
  "check_cs_state g old new i =
     (let s = ee_state g i;
          s = (if dout_high g then s\<lparr>dataout_val := 1\<rparr> else s);
          res = check_bit old new (select_bit (ee_def g i))
      in if res \<noteq> 0 then
           (let s = s\<lparr>cmd_len := 0, cmd_val := 0\<rparr>
            in if res = 2 then s\<lparr>fsm := EEPROM_STATE_WAIT_CMD\<rparr> else s\<lparr>fsm := EEPROM_STATE_INACTIVE\<rparr>)
         else s)"

definition nmc93cX6_check_cs :: "nmc93cX6_group \<Rightarrow> u32 \<Rightarrow> u32 \<Rightarrow> nmc93cX6_group" where
  "nmc93cX6_check_cs g old new =
     fold (\<lambda>i g. g\<lparr>ee_state := (ee_state g)(i := check_cs_state g old new i)\<rparr>) [0..<nr_eeprom g] g"

text \<open>What an EEPROM does when its clock rises: the switch on its state.\<close>

definition clk_edge :: "nmc93cX6_group \<Rightarrow> nat \<Rightarrow> bool \<Rightarrow> nmc93cX6_eeprom_state \<Rightarrow> nmc93cX6_eeprom_state" where
  "clk_edge g i din s =
     (case fsm s of
        EEPROM_STATE_WAIT_CMD \<Rightarrow>
          if cmd_len s = 0 \<and> \<not> din then s
          else
            (let s = (if din then s\<lparr>cmd_val := cmd_val s OR push_bit (cmd_len s) 1\<rparr> else s);
                 s = s\<lparr>cmd_len := cmd_len s + 1\<rparr>
             in if cmd_len s = nmc94cX6_get_cmd_len (eeprom_type g) then
                  (let s = s\<lparr>cmd_len := 0\<rparr> in
                   if cmd_val s AND 0x7 = 3 then s\<lparr>fsm := EEPROM_STATE_DATAOUT, dataout_pos := 0\<rparr>
                   else s)
                else s)
      | EEPROM_STATE_DATAOUT \<Rightarrow>
          (let addr = nmc94cX6_get_addr (eeprom_type g) (cmd_val s);
               pos = dataout_pos s;
               s = s\<lparr>dataout_pos := dataout_pos s + 1\<rparr>;
               pos = (if reverse_data g then 15 - pos else pos);
               s = (case ee_chip g i of
                      Some e \<Rightarrow>
                        if ee_data e \<noteq> None \<and> addr < ee_len e
                        then s\<lparr>dataout_val := ucast (ee_word e addr) AND push_bit pos 1\<rparr>
                        else s\<lparr>dataout_val := push_bit pos 1\<rparr>
                    | None \<Rightarrow> s\<lparr>dataout_val := push_bit pos 1\<rparr>)
           in if dataout_pos s = 16 then s\<lparr>fsm := EEPROM_STATE_INACTIVE, dataout_pos := 0\<rparr> else s)
      | EEPROM_STATE_INACTIVE \<Rightarrow> s)"

definition nmc93cX6_check_clk_group :: "nmc93cX6_group \<Rightarrow> nat \<Rightarrow> u32 \<Rightarrow> u32 \<Rightarrow> nmc93cX6_group" where
  "nmc93cX6_check_clk_group g i old new =
     (if check_bit old new (clock_bit (ee_def g i)) \<noteq> 2 then g
      else g\<lparr>ee_state := (ee_state g)(i := clk_edge g i (new AND push_bit (din_bit (ee_def g i)) 1 \<noteq> 0) (ee_state g i))\<rparr>)"

definition nmc93cX6_check_clk :: "nmc93cX6_group \<Rightarrow> u32 \<Rightarrow> u32 \<Rightarrow> nmc93cX6_group" where
  "nmc93cX6_check_clk g old new = fold (\<lambda>i g. nmc93cX6_check_clk_group g i old new) [0..<nr_eeprom g] g"

definition nmc93cX6_write :: "nmc93cX6_group \<Rightarrow> u32 \<Rightarrow> nmc93cX6_group" where
  "nmc93cX6_write g data =
     (let new = data;
          old = eeprom_reg g;
          g = nmc93cX6_check_cs g old new;
          g = nmc93cX6_check_clk g old new
      in g\<lparr>eeprom_reg := new\<rparr>)"

definition nmc93cX6_is_active :: "nmc93cX6_group \<Rightarrow> nat \<Rightarrow> u32" where
  "nmc93cX6_is_active g i = eeprom_reg g AND push_bit (select_bit (ee_def g i)) 1"

definition nmc93cX6_get_dout :: "nmc93cX6_group \<Rightarrow> nat \<Rightarrow> u32" where
  "nmc93cX6_get_dout g i =
     (if dataout_val (ee_state g i) \<noteq> 0 then push_bit (dout_bit (ee_def g i)) 1 else 0)"

definition nmc93cX6_read :: "nmc93cX6_group \<Rightarrow> u32" where
  "nmc93cX6_read g =
     fold (\<lambda>i res.
        if eeprom_reg g AND push_bit (select_bit (ee_def g i)) 1 = 0 then res
        else if dataout_val (ee_state g i) \<noteq> 0 then res OR push_bit (dout_bit (ee_def g i)) 1
        else res AND NOT (push_bit (dout_bit (ee_def g i)) 1))
       [0..<nr_eeprom g] (eeprom_reg g)"

section \<open>The Microwire protocol\<close>

text \<open>The group acts on each of its EEPROMs separately.\<close>

definition write_state :: "nmc93cX6_group \<Rightarrow> u32 \<Rightarrow> nat \<Rightarrow> nmc93cX6_eeprom_state" where
  "write_state g new i =
     (let s = check_cs_state g (eeprom_reg g) new i in
      if check_bit (eeprom_reg g) new (clock_bit (ee_def g i)) = 2
      then clk_edge g i (bit new (din_bit (ee_def g i))) s else s)"

lemma and_push_bit_1: "(x AND push_bit n (1 :: 'a::len word) \<noteq> 0) = bit x n"
  by (simp only: bit_iff_and_push_bit_not_eq_0)

lemma check_bit_bits:
  "check_bit old new n = (if bit old n \<and> \<not> bit new n then 1 else if \<not> bit old n \<and> bit new n then 2 else 0)"
  unfolding check_bit_def Let_def and_push_bit_1 by auto

lemma clk_edge_state_irrelevant [simp]: "clk_edge (g\<lparr>ee_state := f\<rparr>) = clk_edge g" "clk_edge (g\<lparr>eeprom_reg := r\<rparr>) = clk_edge g"
  by (intro ext, simp add: clk_edge_def Let_def split: eeprom_fsm.split option.split)+

lemma check_cs_fold:
  "distinct is \<Longrightarrow> fold (\<lambda>i g. g\<lparr>ee_state := (ee_state g)(i := check_cs_state g old new i)\<rparr>) is g =
     g\<lparr>ee_state := \<lambda>i. if i \<in> set is then check_cs_state g old new i else ee_state g i\<rparr>"
  by (induction "is" arbitrary: g) (auto simp: check_cs_state_def Let_def fun_eq_iff intro!: nmc93cX6_group.equality)

lemma check_clk_fold:
  "distinct is \<Longrightarrow> fold (\<lambda>i g. nmc93cX6_check_clk_group g i old new) is g =
     g\<lparr>ee_state := \<lambda>i. if i \<in> set is \<and> check_bit old new (clock_bit (ee_def g i)) = 2
        then clk_edge g i (bit new (din_bit (ee_def g i))) (ee_state g i) else ee_state g i\<rparr>"
  by (induction "is" arbitrary: g)
    (auto simp: nmc93cX6_check_clk_group_def and_push_bit_1 [simplified push_bit_of_1] fun_eq_iff intro!: nmc93cX6_group.equality)

lemma write_group:
  "nmc93cX6_write g new =
     g\<lparr>ee_state := \<lambda>i. if i < nr_eeprom g then write_state g new i else ee_state g i, eeprom_reg := new\<rparr>"
  by (auto simp: nmc93cX6_write_def nmc93cX6_check_cs_def nmc93cX6_check_clk_def check_cs_fold check_clk_fold
      write_state_def Let_def fun_eq_iff intro!: nmc93cX6_group.equality)

text \<open>What a guest does: it raises the chip select with the clock low, then clocks bits in, each with a low
  and a high clock; the data bit is read while the clock is high.\<close>

definition mw_reg :: "nmc93cX6_eeprom_def \<Rightarrow> bool \<Rightarrow> bool \<Rightarrow> u32" where
  "mw_reg d din clk =
     push_bit (select_bit d) 1 OR (if din then push_bit (din_bit d) 1 else 0) OR (if clk then push_bit (clock_bit d) 1 else 0)"

definition mw_select :: "nat \<Rightarrow> nmc93cX6_group \<Rightarrow> nmc93cX6_group" where
  "mw_select i g = nmc93cX6_write g (mw_reg (ee_def g i) False False)"

definition mw_clock_in :: "nat \<Rightarrow> bool \<Rightarrow> nmc93cX6_group \<Rightarrow> nmc93cX6_group" where
  "mw_clock_in i b g =
     (let g = nmc93cX6_write g (mw_reg (ee_def g i) b False) in nmc93cX6_write g (mw_reg (ee_def g i) b True))"

text \<open>Clock \<open>n\<close> bits out; the guest looks at the DOUT line in the register it reads.\<close>

fun mw_shift_out :: "nat \<Rightarrow> nat \<Rightarrow> nmc93cX6_group \<Rightarrow> bool list \<times> nmc93cX6_group" where
  "mw_shift_out i 0 g = ([], g)"
| "mw_shift_out i (Suc n) g =
     (let g = mw_clock_in i False g;
          b = bit (nmc93cX6_read g) (dout_bit (ee_def g i));
          (bs, g) = mw_shift_out i n g
      in (b # bs, g))"

definition mw_address :: "eeprom_type \<Rightarrow> nat \<Rightarrow> bool list" where
  "mw_address t addr =
     (case t of EEPROM_TYPE_NMC93C46 \<Rightarrow> map (bit addr) [0..<6]
              | EEPROM_TYPE_NMC93C56 \<Rightarrow> map (\<lambda>k. bit addr (7 - k)) [0..<8])"

definition mw_command :: "eeprom_type \<Rightarrow> nat \<Rightarrow> bool list" where
  "mw_command t addr = [True, True, False] @ mw_address t addr"

text \<open>The lines of an EEPROM are different bits of the register, and no other EEPROM is selected by them.\<close>

definition mw_lines_ok :: "nmc93cX6_group \<Rightarrow> nat \<Rightarrow> bool" where
  "mw_lines_ok g i \<longleftrightarrow> i < nr_eeprom g \<and>
     (let d = ee_def g i in distinct [select_bit d, din_bit d, clock_bit d] \<and>
        select_bit d < 32 \<and> din_bit d < 32 \<and> clock_bit d < 32 \<and> dout_bit d < 32 \<and>
        (\<forall>j < nr_eeprom g. j \<noteq> i \<longrightarrow> select_bit (ee_def g j) \<notin> {select_bit d, din_bit d, clock_bit d}))"

text \<open>Nothing but the states and the register changes; \<open>sel\<close> says that the EEPROM stays selected.\<close>

definition same_group :: "nmc93cX6_group \<Rightarrow> nmc93cX6_group \<Rightarrow> bool" where
  "same_group g g' \<longleftrightarrow> g' = g\<lparr>ee_state := ee_state g', eeprom_reg := eeprom_reg g'\<rparr>"

lemma same_group_fields:
  "same_group g g' \<Longrightarrow> eeprom_type g' = eeprom_type g \<and> nr_eeprom g' = nr_eeprom g \<and> reverse_data g' = reverse_data g \<and>
     dout_high g' = dout_high g \<and> ee_def g' = ee_def g \<and> ee_chip g' = ee_chip g \<and> clk_edge g' = clk_edge g \<and>
     mw_lines_ok g' = mw_lines_ok g"
  by (unfold same_group_def, erule ssubst) (simp add: mw_lines_ok_def)

lemma same_group_trans: "same_group a b \<Longrightarrow> same_group b c \<Longrightarrow> same_group a c"
  by (cases a; cases b; cases c) (simp add: same_group_def)

lemma same_group_write: "same_group g (nmc93cX6_write g v)"
  by (auto simp: same_group_def write_group)

lemma bit_mw_reg:
  "n < 32 \<Longrightarrow> bit (mw_reg d din clk) n \<longleftrightarrow> n = select_bit d \<or> n = din_bit d \<and> din \<or> n = clock_bit d \<and> clk"
  by (auto simp: mw_reg_def bit_simps)

definition dout_idle :: "nmc93cX6_group \<Rightarrow> nmc93cX6_eeprom_state \<Rightarrow> nmc93cX6_eeprom_state" where
  "dout_idle g s = (if dout_high g then s\<lparr>dataout_val := 1\<rparr> else s)"

lemma mw_select_state:
  assumes "mw_lines_ok g i" "\<not> bit (eeprom_reg g) (select_bit (ee_def g i))"
  shows "ee_state (mw_select i g) i =
           (dout_idle g (ee_state g i))\<lparr>cmd_len := 0, cmd_val := 0, fsm := EEPROM_STATE_WAIT_CMD\<rparr>"
    and "same_group g (mw_select i g)" "bit (eeprom_reg (mw_select i g)) (select_bit (ee_def g i))"
  using assms
  by (auto simp: mw_select_def write_group write_state_def check_cs_state_def check_bit_bits bit_mw_reg mw_lines_ok_def
      Let_def dout_idle_def same_group_def)

lemma mw_clock_in_state:
  assumes "mw_lines_ok g i" "bit (eeprom_reg g) (select_bit (ee_def g i))"
  shows "ee_state (mw_clock_in i b g) i = clk_edge g i b (dout_idle g (ee_state g i))"
    and "same_group g (mw_clock_in i b g)" "eeprom_reg (mw_clock_in i b g) = mw_reg (ee_def g i) b True"
proof -
  let ?d = "ee_def g i"
  let ?g1 = "nmc93cX6_write g (mw_reg ?d b False)"
  have lines: "i < nr_eeprom g" "select_bit ?d \<noteq> clock_bit ?d" "din_bit ?d \<noteq> clock_bit ?d" "select_bit ?d \<noteq> din_bit ?d"
    "select_bit ?d < 32" "din_bit ?d < 32" "clock_bit ?d < 32"
    using assms(1) by (auto simp: mw_lines_ok_def Let_def)
  have 1: "ee_state ?g1 i = dout_idle g (ee_state g i)" "same_group g ?g1" "eeprom_reg ?g1 = mw_reg ?d b False"
    using assms(2) lines
    by (auto simp: write_group write_state_def check_cs_state_def check_bit_bits bit_mw_reg Let_def dout_idle_def same_group_def)
  note same = same_group_fields [OF 1(2)]
  have c: "mw_clock_in i b g = nmc93cX6_write ?g1 (mw_reg ?d b True)"
    using same by (simp add: mw_clock_in_def Let_def)
  show "eeprom_reg (mw_clock_in i b g) = mw_reg ?d b True" by (simp add: c write_group)
  show "same_group g (mw_clock_in i b g)" unfolding c by (rule same_group_trans [OF 1(2) same_group_write])
  have "dout_idle g (dout_idle g s) = dout_idle g s" for s by (simp add: dout_idle_def)
  then show "ee_state (mw_clock_in i b g) i = clk_edge g i b (dout_idle g (ee_state g i))"
    unfolding c using lines 1 same
    by (simp add: write_group write_state_def check_cs_state_def check_bit_bits bit_mw_reg Let_def dout_idle_def)
qed

definition received :: "nmc93cX6_eeprom_state \<Rightarrow> bool list \<Rightarrow> bool" where
  "received s bs \<longleftrightarrow> cmd_len s = length bs \<and> fsm s = EEPROM_STATE_WAIT_CMD \<and>
     (\<forall>n. bit (cmd_val s) n \<longleftrightarrow> n < length bs \<and> bs ! n)"

lemma dout_idle_fields [simp]:
  "cmd_len (dout_idle g s) = cmd_len s" "cmd_val (dout_idle g s) = cmd_val s" "fsm (dout_idle g s) = fsm s"
  "dataout_pos (dout_idle g s) = dataout_pos s"
  by (simp_all add: dout_idle_def)

lemma cmd_val_step:
  assumes "received s bs" "length bs < 32"
  shows "bit (if b then cmd_val s OR push_bit (length bs) 1 else cmd_val s) n \<longleftrightarrow> n < length (bs @ [b]) \<and> (bs @ [b]) ! n"
proof -
  have c: "bit (cmd_val s) n \<longleftrightarrow> n < length bs \<and> bs ! n" using assms(1) by (simp add: received_def)
  have "bit (push_bit (length bs) 1 :: u32) n \<longleftrightarrow> n = length bs" using assms(2) by (auto simp: bit_simps)
  then have "bit (if b then cmd_val s OR push_bit (length bs) 1 else cmd_val s) n \<longleftrightarrow>
      n < length bs \<and> bs ! n \<or> b \<and> n = length bs" by (simp add: bit_or_iff c)
  then show ?thesis by (auto simp: nth_append less_Suc_eq)
qed

lemma clk_edge_command:
  assumes "received s bs" "bs \<noteq> [] \<or> b"
  shows "clk_edge g i b (dout_idle g s) =
    (let v = (if b then cmd_val s OR push_bit (length bs) 1 else cmd_val s);
         s' = (dout_idle g s)\<lparr>cmd_val := v, cmd_len := Suc (length bs)\<rparr>
     in if Suc (length bs) = nmc94cX6_get_cmd_len (eeprom_type g) then
          (if v AND 0x7 = 3 then s'\<lparr>cmd_len := 0, fsm := EEPROM_STATE_DATAOUT, dataout_pos := 0\<rparr> else s'\<lparr>cmd_len := 0\<rparr>)
        else s')"
  using assms by (cases "dout_high g") (auto simp: received_def clk_edge_def Let_def dout_idle_def intro!: nmc93cX6_eeprom_state.equality)

lemma received_step:
  assumes "received s bs" "bs \<noteq> [] \<or> b" "Suc (length bs) < nmc94cX6_get_cmd_len (eeprom_type g)"
  shows "received (clk_edge g i b (dout_idle g s)) (bs @ [b])"
proof -
  have l: "length bs < 32" using assms(3) by (simp add: nmc94cX6_get_cmd_len_def split: eeprom_type.splits)
  show ?thesis
    unfolding received_def clk_edge_command [OF assms(1,2)] Let_def
    using assms(1,3) cmd_val_step [OF assms(1) l, of b] by (simp add: received_def)
qed

lemma command_complete:
  assumes "received s bs" "bs \<noteq> []" "Suc (length bs) = nmc94cX6_get_cmd_len (eeprom_type g)"
    "take 3 (bs @ [b]) = [True, True, False]"
  shows "let s' = clk_edge g i b (dout_idle g s) in
    fsm s' = EEPROM_STATE_DATAOUT \<and> dataout_pos s' = 0 \<and>
    (\<forall>n. bit (cmd_val s') n \<longleftrightarrow> n < length (bs @ [b]) \<and> (bs @ [b]) ! n)"
proof -
  define v where "v = (if b then cmd_val s OR push_bit (length bs) 1 else cmd_val s)"
  have l: "length bs < 32" "length (bs @ [b]) \<ge> 3"
    using assms(3) by (simp_all add: nmc94cX6_get_cmd_len_def split: eeprom_type.splits)
  have v: "bit v n \<longleftrightarrow> n < length (bs @ [b]) \<and> (bs @ [b]) ! n" for n
    unfolding v_def by (rule cmd_val_step [OF assms(1) l(1)])
  have bits: "(bs @ [b]) ! k = [True, True, False] ! k" if "k < 3" for k
    using that by (metis assms(4) nth_take)
  have op: "v AND 0x7 = 3"
  proof -
    have "(0x7 :: u32) = mask 3" by (simp add: mask_eq_exp_minus_1)
    have three: "(3 :: u32) = mask 2" by (simp add: mask_eq_exp_minus_1)
    have "bit (3 :: u32) n \<longleftrightarrow> n < 2" for n unfolding three by (auto simp: bit_simps)
    moreover have "bit (v AND mask 3) n \<longleftrightarrow> n < 3 \<and> [True, True, False] ! n" for n
      using v [of n] bits [of n] l(2) by (auto simp: bit_simps)
    moreover have "n < 3 \<and> [True, True, False] ! n \<longleftrightarrow> n < 2" for n
      by (auto simp: less_Suc_eq numeral_3_eq_3 numeral_2_eq_2)
    ultimately show ?thesis unfolding \<open>(0x7 :: u32) = mask 3\<close> by (intro bit_word_eqI) (simp only:)
  qed
  have "clk_edge g i b (dout_idle g s) = (dout_idle g s)\<lparr>cmd_val := v, cmd_len := Suc (length bs),
      cmd_len := 0, fsm := EEPROM_STATE_DATAOUT, dataout_pos := 0\<rparr>"
    unfolding clk_edge_command [OF assms(1) disjI1 [OF assms(2)]] v_def [symmetric] Let_def
    by (simp only: assms(3) op if_True simp_thms)
  then show ?thesis using v by simp
qed

definition mw_send :: "nat \<Rightarrow> bool list \<Rightarrow> nmc93cX6_group \<Rightarrow> nmc93cX6_group" where
  "mw_send i bs g = fold (mw_clock_in i) bs g"

text \<open>\<open>mw_ready\<close>: the lines are good and the EEPROM is selected; clocking keeps it.\<close>

definition mw_ready :: "nmc93cX6_group \<Rightarrow> nat \<Rightarrow> bool" where
  "mw_ready g i \<longleftrightarrow> mw_lines_ok g i \<and> bit (eeprom_reg g) (select_bit (ee_def g i))"

lemma mw_ready_clock:
  assumes "mw_ready g i" shows "mw_ready (mw_clock_in i b g) i"
  using assms mw_clock_in_state [of g i b] same_group_fields [of g "mw_clock_in i b g"]
  by (auto simp: mw_ready_def bit_mw_reg mw_lines_ok_def Let_def)

lemma mw_send_received:
  assumes "mw_ready g i" "received (ee_state g i) []" "bs \<noteq> [] \<Longrightarrow> hd bs"
    "length bs < nmc94cX6_get_cmd_len (eeprom_type g)"
  shows "mw_ready (mw_send i bs g) i \<and> same_group g (mw_send i bs g) \<and> received (ee_state (mw_send i bs g) i) bs"
  using assms
proof (induction bs rule: rev_induct)
  case Nil
  then show ?case by (simp add: mw_send_def same_group_def)
next
  case (snoc b bs)
  let ?g = "mw_send i bs g"
  have IH: "mw_ready ?g i" "same_group g ?g" "received (ee_state ?g i) bs"
    using snoc by (auto simp: hd_append split: if_splits)
  have send: "mw_send i (bs @ [b]) g = mw_clock_in i b ?g" by (simp add: mw_send_def)
  from IH(1) have lines: "mw_lines_ok ?g i" "bit (eeprom_reg ?g) (select_bit (ee_def ?g i))" by (simp_all add: mw_ready_def)
  have "received (clk_edge ?g i b (dout_idle ?g (ee_state ?g i))) (bs @ [b])"
    using snoc.prems same_group_fields [OF IH(2)] by (intro received_step [OF IH(3)]) (auto simp: hd_append split: if_splits)
  then show ?case
    unfolding send using mw_ready_clock [OF IH(1)] same_group_trans [OF IH(2) mw_clock_in_state(2) [OF lines]]
    by (simp add: mw_clock_in_state(1) [OF lines])
qed

text \<open>The data bits come out one by one.\<close>

definition sending :: "nmc93cX6_group \<Rightarrow> nat \<Rightarrow> u16 \<Rightarrow> nat \<Rightarrow> bool" where
  "sending g i w pos \<longleftrightarrow> fsm (ee_state g i) = EEPROM_STATE_DATAOUT \<and> dataout_pos (ee_state g i) = pos \<and>
     (\<exists>e. ee_chip g i = Some e \<and> ee_data e \<noteq> None \<and>
        nmc94cX6_get_addr (eeprom_type g) (cmd_val (ee_state g i)) < ee_len e \<and>
        ee_word e (nmc94cX6_get_addr (eeprom_type g) (cmd_val (ee_state g i))) = w)"

definition data_bit :: "nmc93cX6_group \<Rightarrow> u16 \<Rightarrow> nat \<Rightarrow> bool" where
  "data_bit g w k = bit w (if reverse_data g then 15 - k else k)"

lemma fold_single:
  assumes "distinct js" "\<And>j. j \<in> set js \<Longrightarrow> P j \<longleftrightarrow> j = i"
  shows "fold (\<lambda>j res. if \<not> P j then res else F j res) js res = (if i \<in> set js then F i res else res)"
  using assms
proof (induction js arbitrary: res)
  case (Cons j js)
  then show ?case by (cases "j = i") auto
qed simp

lemma read_single:
  assumes "mw_lines_ok g i" "eeprom_reg g = mw_reg (ee_def g i) b c"
  shows "bit (nmc93cX6_read g) (dout_bit (ee_def g i)) \<longleftrightarrow> dataout_val (ee_state g i) \<noteq> 0"
proof -
  let ?d = "ee_def g i"
  have sel: "bit (eeprom_reg g) (select_bit (ee_def g j)) \<longleftrightarrow> j = i" if "j < nr_eeprom g" for j
  proof (cases "select_bit (ee_def g j) < 32")
    case True
    then show ?thesis using that assms by (auto simp: bit_mw_reg mw_lines_ok_def Let_def)
  next
    case False
    then show ?thesis using assms by (auto simp: mw_lines_ok_def Let_def dest: bit_imp_le_length)
  qed
  have "nmc93cX6_read g = fold (\<lambda>j res. if \<not> bit (eeprom_reg g) (select_bit (ee_def g j)) then res
      else (if dataout_val (ee_state g j) \<noteq> 0 then res OR push_bit (dout_bit (ee_def g j)) 1
            else res AND NOT (push_bit (dout_bit (ee_def g j)) 1))) [0..<nr_eeprom g] (eeprom_reg g)"
    unfolding nmc93cX6_read_def bit_iff_and_push_bit_not_eq_0 by simp
  also have "\<dots> = (if dataout_val (ee_state g i) \<noteq> 0 then eeprom_reg g OR push_bit (dout_bit ?d) 1
            else eeprom_reg g AND NOT (push_bit (dout_bit ?d) 1))"
    using assms(1) sel by (subst fold_single) (auto simp: mw_lines_ok_def Let_def)
  finally show ?thesis using assms(1) by (simp add: mw_lines_ok_def Let_def bit_simps)
qed

lemma clk_edge_sending:
  assumes "sending g i w pos" "pos < 16"
  shows "let s = clk_edge g i b (dout_idle g (ee_state g i)) in
     (dataout_val s \<noteq> 0 \<longleftrightarrow> data_bit g w pos) \<and> cmd_val s = cmd_val (ee_state g i) \<and>
     (if pos = 15 then fsm s = EEPROM_STATE_INACTIVE else fsm s = EEPROM_STATE_DATAOUT \<and> dataout_pos s = pos + 1)"
proof -
  obtain e where e: "ee_chip g i = Some e" "ee_data e \<noteq> None"
      "nmc94cX6_get_addr (eeprom_type g) (cmd_val (ee_state g i)) < ee_len e"
      "ee_word e (nmc94cX6_get_addr (eeprom_type g) (cmd_val (ee_state g i))) = w"
    and s: "fsm (ee_state g i) = EEPROM_STATE_DATAOUT" "dataout_pos (ee_state g i) = pos"
    using assms(1) by (auto simp: sending_def)
  let ?k = "if reverse_data g then 15 - pos else pos"
  have "(ucast w :: u32) AND push_bit ?k 1 \<noteq> 0 \<longleftrightarrow> bit w ?k"
    unfolding and_push_bit_1 using assms(2) by (auto simp: bit_simps dest: bit_imp_le_length)
  moreover have "clk_edge g i b (dout_idle g (ee_state g i)) =
    (let s = (ee_state g i)\<lparr>dataout_pos := pos + 1, dataout_val := ucast w AND push_bit ?k 1\<rparr>
     in if pos = 15 then s\<lparr>fsm := EEPROM_STATE_INACTIVE, dataout_pos := 0\<rparr> else s)"
    using e s by (auto simp: clk_edge_def Let_def dout_idle_def)
  ultimately show ?thesis using s by (auto simp: data_bit_def Let_def)
qed

lemma fold_or_bits:
  "bit (fold (\<lambda>i res. if P i then res OR push_bit (7 - i) 1 else res) is r :: u8) n \<longleftrightarrow>
     bit r n \<or> n < 8 \<and> (\<exists>i\<in>set is. P i \<and> n = 7 - i)"
  by (induction "is" arbitrary: r) (auto simp: bit_simps)

lemma m_reverse_u8_bits: "bit (m_reverse_u8 v) n \<longleftrightarrow> n < 8 \<and> bit v (7 - n)"
proof -
  have "bit (m_reverse_u8 v) n \<longleftrightarrow> n < 8 \<and> (\<exists>i\<in>set [0..<8]. bit v i \<and> n = 7 - i)"
    unfolding m_reverse_u8_def bit_iff_and_push_bit_not_eq_0 [symmetric] by (simp add: fold_or_bits)
  also have "\<dots> \<longleftrightarrow> n < 8 \<and> bit v (7 - n)" by (auto intro!: bexI [of _ "7 - n"])
  finally show ?thesis .
qed

lemma bit_nat_bound: "a < 2 ^ k \<Longrightarrow> bit (a :: nat) n \<Longrightarrow> n < k"
  by (metis bit_take_bit_iff take_bit_nat_eq_self)

lemma get_addr_command:
  assumes "addr < (case t of EEPROM_TYPE_NMC93C46 \<Rightarrow> 64 | EEPROM_TYPE_NMC93C56 \<Rightarrow> 256)"
    and v: "\<And>n. bit v n \<longleftrightarrow> n < length (mw_command t addr) \<and> mw_command t addr ! n"
  shows "nmc94cX6_get_addr t v = addr"
proof (cases t)
  case EEPROM_TYPE_NMC93C46
  have m: "(0x3f :: u32) = mask 6" by (simp add: mask_eq_exp_minus_1)
  have "bit (unat (drop_bit 3 v AND mask 6)) n \<longleftrightarrow> bit addr n" for n
  proof -
    have "bit addr n \<Longrightarrow> n < 6"
      using assms(1) EEPROM_TYPE_NMC93C46 by (intro bit_nat_bound [of addr 6]) auto
    then show ?thesis using v [of "3 + n"]
      by (auto simp: bit_simps mw_command_def mw_address_def EEPROM_TYPE_NMC93C46 nth_append)
  qed
  then show ?thesis
    unfolding nmc94cX6_get_addr_def EEPROM_TYPE_NMC93C46 eeprom_type.case m by (intro bit_eqI)
next
  case EEPROM_TYPE_NMC93C56
  have m: "(0xff :: u32) = mask 8" by (simp add: mask_eq_exp_minus_1)
  have "bit (unat (m_reverse_u8 (ucast (drop_bit 3 v AND mask 8)))) n \<longleftrightarrow> bit addr n" for n
  proof -
    have "bit addr n \<Longrightarrow> n < 8"
      using assms(1) EEPROM_TYPE_NMC93C56 by (intro bit_nat_bound [of addr 8]) auto
    then show ?thesis using v [of "3 + (7 - n)"]
      by (auto simp: bit_simps m_reverse_u8_bits mw_command_def mw_address_def EEPROM_TYPE_NMC93C56 nth_append)
  qed
  then show ?thesis
    unfolding nmc94cX6_get_addr_def EEPROM_TYPE_NMC93C56 eeprom_type.case m by (intro bit_eqI)
qed

lemma shift_out:
  assumes "mw_ready g i" "sending g i w pos" "n + pos \<le> 16"
  shows "fst (mw_shift_out i n g) = map (data_bit g w) [pos..<pos + n] \<and>
     same_group g (snd (mw_shift_out i n g)) \<and>
     (n \<noteq> 0 \<and> n + pos = 16 \<longrightarrow> fsm (ee_state (snd (mw_shift_out i n g)) i) = EEPROM_STATE_INACTIVE)"
  using assms
proof (induction n arbitrary: g pos)
  case 0
  then show ?case by (simp add: same_group_def)
next
  case (Suc n)
  let ?g = "mw_clock_in i False g"
  have lines: "mw_lines_ok g i" "bit (eeprom_reg g) (select_bit (ee_def g i))"
    using Suc.prems(1) by (simp_all add: mw_ready_def)
  note clk = mw_clock_in_state [OF lines, of False]
  note same = same_group_fields [OF clk(2)]
  have pos: "pos < 16" using Suc.prems(3) by simp
  note edge = clk_edge_sending [OF Suc.prems(2) pos, of False, folded clk(1), unfolded Let_def]
  have b: "bit (nmc93cX6_read ?g) (dout_bit (ee_def ?g i)) \<longleftrightarrow> data_bit g w pos"
    using read_single [of ?g i False True] lines(1) same clk(3) edge by simp
  have bits: "data_bit ?g w = data_bit g w" by (rule ext) (simp add: data_bit_def same)
  show ?case
  proof (cases "pos = 15")
    case True
    with Suc.prems have "n = 0" by simp
    with True b edge clk(2) show ?thesis by (simp add: Let_def)
  next
    case False
    have "sending ?g i w (pos + 1)" using Suc.prems(2) edge False same by (simp add: sending_def)
    from Suc.IH [OF mw_ready_clock [OF Suc.prems(1)] this] Suc.prems(3)
    have IH: "fst (mw_shift_out i n ?g) = map (data_bit g w) [pos + 1..<pos + 1 + n]"
      "same_group ?g (snd (mw_shift_out i n ?g))"
      "n \<noteq> 0 \<and> n + pos + 1 = 16 \<longrightarrow> fsm (ee_state (snd (mw_shift_out i n ?g)) i) = EEPROM_STATE_INACTIVE"
      by (simp_all add: bits)
    have "[pos..<pos + Suc n] = pos # [pos + 1..<pos + 1 + n]" by (simp add: upt_conv_Cons)
    with IH b same_group_trans [OF clk(2) IH(2)] False Suc.prems(3) show ?thesis
      by (auto simp: Let_def split_beta)
  qed
qed

text \<open>C17: the Microwire read: a guest that raises the chip select, clocks in the start bit, the READ opcode
  and the address, and then clocks sixteen times, reads from the DOUT line of the register exactly the bits
  of the addressed word, after which the EEPROM is inactive; neither the other EEPROMs on the register nor
  its earlier state matter.\<close>

theorem microwire_read:
  assumes "mw_lines_ok g i" "\<not> bit (eeprom_reg g) (select_bit (ee_def g i))"
    and "ee_chip g i = Some e" "ee_data e = Some d" "addr < ee_len e"
    and "addr < (case eeprom_type g of EEPROM_TYPE_NMC93C46 \<Rightarrow> 64 | EEPROM_TYPE_NMC93C56 \<Rightarrow> 256)"
  shows "let (bits, g') = mw_shift_out i 16 (mw_send i (mw_command (eeprom_type g) addr) (mw_select i g)) in
     bits = map (\<lambda>k. bit (d ! addr) (if reverse_data g then 15 - k else k)) [0..<16] \<and>
     fsm (ee_state g' i) = EEPROM_STATE_INACTIVE"
proof -
  let ?t = "eeprom_type g" let ?g0 = "mw_select i g"
  note sel = mw_select_state [OF assms(1,2)]
  have cmd: "length (mw_command ?t addr) = nmc94cX6_get_cmd_len ?t" "take 3 (mw_command ?t addr) = [True, True, False]"
    by (simp_all add: mw_command_def mw_address_def nmc94cX6_get_cmd_len_def split: eeprom_type.split)
  then obtain bs b where bs: "mw_command ?t addr = bs @ [b]" by (metis rev_exhaust take_Nil neq_Nil_conv)
  have len: "Suc (length bs) = nmc94cX6_get_cmd_len ?t" using cmd(1) bs by simp
  then have ne: "bs \<noteq> []" "hd bs"
    using cmd(2) by (auto simp: bs nmc94cX6_get_cmd_len_def split: eeprom_type.splits) (cases bs; simp)+
  have "received (ee_state ?g0 i) []" by (simp add: sel received_def)
  moreover have "mw_ready ?g0 i" using assms(1) sel same_group_fields [OF sel(2)] by (simp add: mw_ready_def)
  ultimately have s1: "mw_ready (mw_send i bs ?g0) i" "same_group ?g0 (mw_send i bs ?g0)" "received (ee_state (mw_send i bs ?g0) i) bs"
    using mw_send_received [of ?g0 i bs] len same_group_fields [OF sel(2)] ne by auto
  let ?g1 = "mw_send i bs ?g0" let ?g2 = "mw_clock_in i b ?g1"
  have g1: "same_group g ?g1" by (rule same_group_trans [OF sel(2) s1(2)])
  have lines: "mw_lines_ok ?g1 i" "bit (eeprom_reg ?g1) (select_bit (ee_def ?g1 i))" using s1(1) by (simp_all add: mw_ready_def)
  note clk = mw_clock_in_state [OF lines, of b]
  have g2: "same_group g ?g2" by (rule same_group_trans [OF g1 clk(2)])
  note f1 = same_group_fields [OF g1] and f2 = same_group_fields [OF g2]
  from command_complete [OF s1(3) ne(1), of ?g1 b i] len cmd(2) bs f1
  have cs: "fsm (ee_state ?g2 i) = EEPROM_STATE_DATAOUT" "dataout_pos (ee_state ?g2 i) = 0"
    "\<And>n. bit (cmd_val (ee_state ?g2 i)) n \<longleftrightarrow> n < length (mw_command ?t addr) \<and> mw_command ?t addr ! n"
    by (simp_all add: Let_def clk(1))
  have "sending ?g2 i (d ! addr) 0"
    using cs(1,2) assms(3-5) f2 get_addr_command [OF assms(6) cs(3)] by (simp add: sending_def)
  from shift_out [OF mw_ready_clock [OF s1(1)] this, of 16]
  have "fst (mw_shift_out i 16 ?g2) = map (data_bit g (d ! addr)) [0..<16] \<and>
      fsm (ee_state (snd (mw_shift_out i 16 ?g2)) i) = EEPROM_STATE_INACTIVE"
    by (simp add: data_bit_def f2)
  moreover have "mw_send i (mw_command ?t addr) ?g0 = ?g2" by (simp add: mw_send_def bs)
  ultimately show ?thesis by (simp add: split_beta data_bit_def)
qed

definition sample_group :: nmc93cX6_group where
  "sample_group = \<lparr>eeprom_type = EEPROM_TYPE_NMC93C56, nr_eeprom = 2, eeprom_reg = 0x10, reverse_data = True, dout_high = True,
     ee_def = (\<lambda>i. \<lparr>clock_bit = 0, select_bit = (if i = 0 then 1 else 4), din_bit = 2, dout_bit = 3\<rparr>),
     ee_state = (\<lambda>i. \<lparr>cmd_len = 5, cmd_val = 7, fsm = EEPROM_STATE_INACTIVE, dataout_pos = 0, dataout_val = 0\<rparr>),
     ee_chip = (\<lambda>i. if i = 0 then Some sample_eeprom else None)\<rparr>"

theorem microwire_read_witness:
  "let (bits, g') = mw_shift_out 0 16 (mw_send 0 (mw_command EEPROM_TYPE_NMC93C56 2) (mw_select 0 sample_group)) in
     bits = map (\<lambda>k. bit (0x01C2 :: u16) (15 - k)) [0..<16] \<and> fsm (ee_state g' 0) = EEPROM_STATE_INACTIVE"
  using microwire_read [of sample_group 0 sample_eeprom "[0x04FF, 0x4100, 0x01C2, 0x0241, 0x42FF]" 2]
  by (simp add: sample_group_def sample_eeprom_def mw_lines_ok_def less_Suc_eq)

end
