(* ===== verification/NetIo.thy ===== *)
theory NetIo
  imports Prelude "HOL-Library.Sublist"
begin

text \<open>
  Network I/O descriptors (\<open>common/net_io.c\<close>) and packet filters (\<open>common/net_io_filter.c\<close>), as far as the
  virtual switches depend on them: names and reference counts, receive listeners, filters, statistics and
  the bandwidth window. The sockets and host interfaces behind a descriptor are outside the program: what
  \<open>nio->send\<close> returns is the parameter \<open>tx_result\<close>, and \<open>sent\<close> logs what was handed to it.

  A pointer to a descriptor is a number, its memory is \<open>nio_tab\<close>; of the registry only the entries of the
  type NIO are kept, by name. The listener list is its reference counts, 0 for a descriptor that is not
  listed; the threads that serve it are not modelled, nor are failing allocations. The filter "capture"
  exists only in builds with \<open>GEN_ETH\<close> and is left out. A signed 32-bit counter wraps.
\<close>

section \<open>Descriptors\<close>

type_synonym nio = nat

datatype ethsw_port_type =
  ETHSW_PORT_TYPE_NONE | ETHSW_PORT_TYPE_ACCESS | ETHSW_PORT_TYPE_DOT1Q | ETHSW_PORT_TYPE_QINQ | ETHSW_PORT_TYPE_ISL

datatype ethsw_input_vector = IV_NULL | IV_ACCESS | IV_DOT1Q | IV_QINQ

datatype netio_filter_action =
  NETIO_FILTER_ACTION_DROP | NETIO_FILTER_ACTION_PASS | NETIO_FILTER_ACTION_ALTER | NETIO_FILTER_ACTION_DUPLICATE

datatype netio_pktfilter = PF_FREQDROP_DEF

record pf_freqdrop_data =
  frequency :: u32
  current :: u32

record netio_desc =
  nio_name :: string
  fr_lmi_seq :: u8
  fr_conn_list :: "nat list"
  vlan_port_type :: ethsw_port_type
  vlan_id :: u16
  vlan_input_vector :: ethsw_input_vector
  ethertype :: u16
  bandwidth :: u32
  bw_cnt :: "u64 list"
  bw_cnt_total :: u64
  bw_pos :: nat
  bw_ptask_cnt :: nat
  rx_filter :: "netio_pktfilter option"
  tx_filter :: "netio_pktfilter option"
  both_filter :: "netio_pktfilter option"
  rx_filter_data :: "pf_freqdrop_data option"
  tx_filter_data :: "pf_freqdrop_data option"
  both_filter_data :: "pf_freqdrop_data option"
  stats_pkts_in :: u64
  stats_pkts_out :: u64
  stats_bytes_in :: u64
  stats_bytes_out :: u64

record net =
  nio_tab :: "nio \<Rightarrow> netio_desc"
  nio_reg :: "string \<Rightarrow> nio option"
  nio_refs :: "nio \<Rightarrow> int"
  rxl_refs :: "nio \<Rightarrow> nat"
  tx_result :: "nio \<Rightarrow> u8 list \<Rightarrow> int"
  sent :: "(nio \<times> u8 list) list"

abbreviation upd_nio :: "nio \<Rightarrow> (netio_desc \<Rightarrow> netio_desc) \<Rightarrow> net \<Rightarrow> net" where
  "upd_nio p f n \<equiv> n\<lparr>nio_tab := (nio_tab n)(p := f (nio_tab n p))\<rparr>"

text \<open>A new descriptor: everything zero but the name.\<close>

definition netio_create :: "string \<Rightarrow> netio_desc" where
  "netio_create name =
     \<lparr>nio_name = name, fr_lmi_seq = 0, fr_conn_list = [], vlan_port_type = ETHSW_PORT_TYPE_NONE, vlan_id = 0,
      vlan_input_vector = IV_NULL, ethertype = 0, bandwidth = 0, bw_cnt = replicate 10 0, bw_cnt_total = 0, bw_pos = 0,
      bw_ptask_cnt = 0, rx_filter = None, tx_filter = None, both_filter = None, rx_filter_data = None,
      tx_filter_data = None, both_filter_data = None, stats_pkts_in = 0, stats_pkts_out = 0, stats_bytes_in = 0,
      stats_bytes_out = 0\<rparr>"

text \<open>The registry: \<open>registry_find\<close> takes a reference, \<open>registry_exists\<close> does not.\<close>

definition netio_exists :: "net \<Rightarrow> string \<Rightarrow> nio option" where
  "netio_exists n name = nio_reg n name"

definition netio_acquire :: "net \<Rightarrow> string \<Rightarrow> nio option \<times> net" where
  "netio_acquire n name =
     (case nio_reg n name of
        None \<Rightarrow> (None, n)
      | Some p \<Rightarrow> (Some p, n\<lparr>nio_refs := (nio_refs n)(p := nio_refs n p + 1)\<rparr>))"

definition netio_release :: "net \<Rightarrow> string \<Rightarrow> int \<times> net" where
  "netio_release n name =
     (case nio_reg n name of
        None \<Rightarrow> (-1, n)
      | Some p \<Rightarrow> (if nio_refs n p - 1 < 0 then -1 else 0, n\<lparr>nio_refs := (nio_refs n)(p := nio_refs n p - 1)\<rparr>))"

section \<open>Packet filters (net_io_filter.c)\<close>

definition pf_name :: "netio_pktfilter \<Rightarrow> string" where
  "pf_name pf = (case pf of PF_FREQDROP_DEF \<Rightarrow> ''freq_drop'')"

text \<open>The list of the filters, the latest first.\<close>

definition netio_filter_find :: "netio_pktfilter list \<Rightarrow> string \<Rightarrow> netio_pktfilter option" where
  "netio_filter_find pf_list name = find (\<lambda>pf. pf_name pf = name) pf_list"

definition netio_filter_add :: "netio_pktfilter list \<Rightarrow> netio_pktfilter \<Rightarrow> int \<times> netio_pktfilter list" where
  "netio_filter_add pf_list pf =
     (if netio_filter_find pf_list (pf_name pf) \<noteq> None then (-1, pf_list) else (0, pf # pf_list))"

definition netio_filter_load_all :: "netio_pktfilter list \<Rightarrow> netio_pktfilter list" where
  "netio_filter_load_all pf_list = snd (netio_filter_add pf_list PF_FREQDROP_DEF)"

datatype filter_dir = NETIO_FILTER_DIR_RX | NETIO_FILTER_DIR_TX | NETIO_FILTER_DIR_BOTH

definition netio_filter_bind :: "netio_pktfilter list \<Rightarrow> netio_desc \<Rightarrow> filter_dir \<Rightarrow> string \<Rightarrow> int \<times> netio_desc" where
  "netio_filter_bind pf_list d dir name =
     (case netio_filter_find pf_list name of
        None \<Rightarrow> (-1, d)
      | Some pf \<Rightarrow>
          (0, case dir of
                NETIO_FILTER_DIR_RX \<Rightarrow> d\<lparr>rx_filter_data := None, rx_filter := Some pf\<rparr>
              | NETIO_FILTER_DIR_TX \<Rightarrow> d\<lparr>tx_filter_data := None, tx_filter := Some pf\<rparr>
              | NETIO_FILTER_DIR_BOTH \<Rightarrow> d\<lparr>both_filter_data := None, both_filter := Some pf\<rparr>))"

text \<open>The filter and the data of a direction, and the data put back.\<close>

definition filter_of :: "netio_desc \<Rightarrow> filter_dir \<Rightarrow> netio_pktfilter option" where
  "filter_of d dir = (case dir of NETIO_FILTER_DIR_RX \<Rightarrow> rx_filter d | NETIO_FILTER_DIR_TX \<Rightarrow> tx_filter d
                                | NETIO_FILTER_DIR_BOTH \<Rightarrow> both_filter d)"

definition filter_opt :: "netio_desc \<Rightarrow> filter_dir \<Rightarrow> pf_freqdrop_data option" where
  "filter_opt d dir = (case dir of NETIO_FILTER_DIR_RX \<Rightarrow> rx_filter_data d | NETIO_FILTER_DIR_TX \<Rightarrow> tx_filter_data d
                                 | NETIO_FILTER_DIR_BOTH \<Rightarrow> both_filter_data d)"

definition set_filter_opt :: "netio_desc \<Rightarrow> filter_dir \<Rightarrow> pf_freqdrop_data option \<Rightarrow> netio_desc" where
  "set_filter_opt d dir x = (case dir of NETIO_FILTER_DIR_RX \<Rightarrow> d\<lparr>rx_filter_data := x\<rparr>
     | NETIO_FILTER_DIR_TX \<Rightarrow> d\<lparr>tx_filter_data := x\<rparr> | NETIO_FILTER_DIR_BOTH \<Rightarrow> d\<lparr>both_filter_data := x\<rparr>)"

text \<open>\<open>atoi\<close> of the C library: blanks, a sign, digits.\<close>

definition is_digit :: "char \<Rightarrow> bool" where
  "is_digit c \<longleftrightarrow> 48 \<le> (of_char c :: nat) \<and> (of_char c :: nat) \<le> 57"

definition is_blank :: "char \<Rightarrow> bool" where
  "is_blank c \<longleftrightarrow> (of_char c :: nat) = 32 \<or> 9 \<le> (of_char c :: nat) \<and> (of_char c :: nat) \<le> 13"

definition digits_value :: "string \<Rightarrow> int" where
  "digits_value s = fold (\<lambda>c v. v * 10 + (of_char c - 48)) (takeWhile is_digit s) 0"

definition atoi :: "string \<Rightarrow> u32" where
  "atoi s =
     (case dropWhile is_blank s of
        c # cs \<Rightarrow> if (of_char c :: nat) = 45 then of_int (- digits_value cs)
                  else if (of_char c :: nat) = 43 then of_int (digits_value cs)
                  else of_int (digits_value (c # cs))
      | [] \<Rightarrow> 0)"

text \<open>The frequency filter.\<close>

definition pf_freqdrop_setup :: "pf_freqdrop_data option \<Rightarrow> string list \<Rightarrow> int \<times> pf_freqdrop_data option" where
  "pf_freqdrop_setup opt argv =
     (case argv of
        [arg] \<Rightarrow> (0, Some \<lparr>frequency = atoi arg, current = 0\<rparr>)
      | _ \<Rightarrow> (-1, opt))"

definition pf_freqdrop_free :: "pf_freqdrop_data option \<Rightarrow> pf_freqdrop_data option" where
  "pf_freqdrop_free opt = None"

definition pf_freqdrop_pkt_handler :: "pf_freqdrop_data option \<Rightarrow> netio_filter_action \<times> pf_freqdrop_data option" where
  "pf_freqdrop_pkt_handler opt =
     (case opt of
        None \<Rightarrow> (NETIO_FILTER_ACTION_PASS, None)
      | Some data \<Rightarrow>
          if frequency data = -1 then (NETIO_FILTER_ACTION_DROP, opt)
          else if frequency data = 0 then (NETIO_FILTER_ACTION_PASS, opt)
          else
            (let data = data\<lparr>current := current data + 1\<rparr> in
             if current data = frequency data then (NETIO_FILTER_ACTION_DROP, Some (data\<lparr>current := 0\<rparr>))
             else (NETIO_FILTER_ACTION_PASS, Some data)))"

definition netio_filter_unbind :: "netio_desc \<Rightarrow> filter_dir \<Rightarrow> int \<times> netio_desc" where
  "netio_filter_unbind d dir =
     (case filter_of d dir of
        None \<Rightarrow> (-1, d)
      | Some PF_FREQDROP_DEF \<Rightarrow> (0, set_filter_opt d dir (pf_freqdrop_free (filter_opt d dir))))"

definition netio_filter_setup :: "netio_desc \<Rightarrow> filter_dir \<Rightarrow> string list \<Rightarrow> int \<times> netio_desc" where
  "netio_filter_setup d dir argv =
     (case filter_of d dir of
        None \<Rightarrow> (-1, d)
      | Some PF_FREQDROP_DEF \<Rightarrow>
          (let (r, x) = pf_freqdrop_setup (filter_opt d dir) argv in (r, set_filter_opt d dir x)))"

text \<open>The packet handler of the filter of a direction; without a filter the packet passes.\<close>

definition apply_filter :: "filter_dir \<Rightarrow> netio_desc \<Rightarrow> netio_filter_action \<times> netio_desc" where
  "apply_filter dir d =
     (case filter_of d dir of
        None \<Rightarrow> (NETIO_FILTER_ACTION_PASS, d)
      | Some PF_FREQDROP_DEF \<Rightarrow>
          (let (r, x) = pf_freqdrop_pkt_handler (filter_opt d dir) in (r, set_filter_opt d dir x)))"

section \<open>Bandwidth window (net_io.c)\<close>

definition NETIO_BW_SAMPLES :: nat where "NETIO_BW_SAMPLES = 10"
definition NETIO_BW_SAMPLE_ITV :: nat where "NETIO_BW_SAMPLE_ITV = 30"

definition netio_update_bw_stat :: "u64 \<Rightarrow> netio_desc \<Rightarrow> netio_desc" where
  "netio_update_bw_stat bytes d =
     d\<lparr>bw_cnt := (bw_cnt d)[bw_pos d := bw_cnt d ! bw_pos d + bytes], bw_cnt_total := bw_cnt_total d + bytes\<rparr>"

definition netio_clear_bw_stat :: "nat \<Rightarrow> netio_desc \<Rightarrow> netio_desc" where
  "netio_clear_bw_stat ptask_sleep_time d =
     (let d = d\<lparr>bw_ptask_cnt := bw_ptask_cnt d + 1\<rparr> in
      if bw_ptask_cnt d = NETIO_BW_SAMPLE_ITV div ptask_sleep_time then
        (let d = d\<lparr>bw_ptask_cnt := 0, bw_pos := bw_pos d + 1\<rparr>;
             d = (if bw_pos d = NETIO_BW_SAMPLES then d\<lparr>bw_pos := 0\<rparr> else d);
             d = d\<lparr>bw_cnt_total := bw_cnt_total d - bw_cnt d ! bw_pos d\<rparr>
         in d\<lparr>bw_cnt := (bw_cnt d)[bw_pos d := 0]\<rparr>)
      else d)"

definition netio_set_bandwidth :: "u32 \<Rightarrow> netio_desc \<Rightarrow> netio_desc" where
  "netio_set_bandwidth b d = d\<lparr>bandwidth := b\<rparr>"

section \<open>Sending and receiving\<close>

text \<open>\<open>tx_admit\<close> is \<open>netio_send\<close> up to the call of \<open>nio->send\<close>: whether the packet is sent at all.\<close>

definition tx_admit :: "u8 list \<Rightarrow> netio_desc \<Rightarrow> bool \<times> netio_desc" where
  "tx_admit pkt d =
     (let (r, d) = apply_filter NETIO_FILTER_DIR_TX d in
      if r = NETIO_FILTER_ACTION_DROP then (False, d)
      else
        (let (r, d) = apply_filter NETIO_FILTER_DIR_BOTH d in
         if r = NETIO_FILTER_ACTION_DROP then (False, d)
         else (True, netio_update_bw_stat (of_nat (length pkt))
                (d\<lparr>stats_pkts_out := stats_pkts_out d + 1, stats_bytes_out := stats_bytes_out d + of_nat (length pkt)\<rparr>))))"

definition netio_send :: "nio option \<Rightarrow> u8 list \<Rightarrow> net \<Rightarrow> int \<times> net" where
  "netio_send p pkt n =
     (case p of
        None \<Rightarrow> (-1, n)
      | Some p \<Rightarrow>
          (let (admitted, d) = tx_admit pkt (nio_tab n p); n = upd_nio p (\<lambda>_. d) n in
           if admitted then (tx_result n p pkt, n\<lparr>sent := sent n @ [(p, pkt)]\<rparr>) else (-1, n)))"

text \<open>\<open>None\<close> for the result -1, otherwise the length of the packet.\<close>

definition netio_receive_dispatch :: "u8 list \<Rightarrow> netio_desc \<Rightarrow> nat option \<times> netio_desc" where
  "netio_receive_dispatch pkt d =
     (let (r, d) = apply_filter NETIO_FILTER_DIR_RX d in
      if r = NETIO_FILTER_ACTION_DROP then (None, d)
      else
        (let (r, d) = apply_filter NETIO_FILTER_DIR_BOTH d in
         if r = NETIO_FILTER_ACTION_DROP then (None, d)
         else (Some (length pkt), d\<lparr>stats_pkts_in := stats_pkts_in d + 1,
                                    stats_bytes_in := stats_bytes_in d + of_nat (length pkt)\<rparr>)))"

section \<open>Receive listeners\<close>

definition netio_rxl_add :: "nio \<Rightarrow> net \<Rightarrow> net" where
  "netio_rxl_add p n = n\<lparr>rxl_refs := (rxl_refs n)(p := rxl_refs n p + 1)\<rparr>"

definition netio_rxl_remove :: "nio \<Rightarrow> net \<Rightarrow> net" where
  "netio_rxl_remove p n =
     (if rxl_refs n p = 0 then n else n\<lparr>rxl_refs := (rxl_refs n)(p := rxl_refs n p - 1)\<rparr>)"

section \<open>What a send changes\<close>

text \<open>The configuration of a descriptor: everything but counters and filter state.\<close>

definition same_config :: "netio_desc \<Rightarrow> netio_desc \<Rightarrow> bool" where
  "same_config d d' \<longleftrightarrow> nio_name d' = nio_name d \<and> fr_lmi_seq d' = fr_lmi_seq d \<and> fr_conn_list d' = fr_conn_list d \<and>
     vlan_port_type d' = vlan_port_type d \<and> vlan_id d' = vlan_id d \<and> vlan_input_vector d' = vlan_input_vector d \<and>
     ethertype d' = ethertype d \<and> rx_filter d' = rx_filter d \<and> tx_filter d' = tx_filter d \<and> both_filter d' = both_filter d"

definition same_net :: "net \<Rightarrow> net \<Rightarrow> bool" where
  "same_net n n' \<longleftrightarrow> (\<forall>p. same_config (nio_tab n p) (nio_tab n' p)) \<and> nio_reg n' = nio_reg n \<and>
     nio_refs n' = nio_refs n \<and> rxl_refs n' = rxl_refs n \<and> tx_result n' = tx_result n"

lemma same_config_refl [simp]: "same_config d d"
  by (simp add: same_config_def)

lemma same_config_trans: "same_config a b \<Longrightarrow> same_config b c \<Longrightarrow> same_config a c"
  by (simp add: same_config_def)

lemma same_net_refl [simp]: "same_net n n"
  by (simp add: same_net_def)

lemma same_net_trans: "same_net a b \<Longrightarrow> same_net b c \<Longrightarrow> same_net a c"
  by (auto simp: same_net_def intro: same_config_trans)

lemma set_filter_opt_config: "same_config d (set_filter_opt d dir x)"
  by (simp add: same_config_def set_filter_opt_def split: filter_dir.split)

lemma apply_filter_config: "same_config d (snd (apply_filter dir d))"
  using set_filter_opt_config [of d dir]
  by (auto simp: apply_filter_def split: option.splits netio_pktfilter.splits prod.splits)

lemma apply_no_filter: "filter_of d dir = None \<Longrightarrow> apply_filter dir d = (NETIO_FILTER_ACTION_PASS, d)"
  by (simp add: apply_filter_def)

lemma tx_admit_config: "same_config d (snd (tx_admit pkt d))"
proof -
  obtain r1 d1 where 1: "apply_filter NETIO_FILTER_DIR_TX d = (r1, d1)" by fastforce
  obtain r2 d2 where 2: "apply_filter NETIO_FILTER_DIR_BOTH d1 = (r2, d2)" by fastforce
  have "same_config d d1" "same_config d1 d2"
    using apply_filter_config [of d NETIO_FILTER_DIR_TX] apply_filter_config [of d1 NETIO_FILTER_DIR_BOTH] 1 2 by simp_all
  then show ?thesis by (auto simp: tx_admit_def 1 2 same_config_def netio_update_bw_stat_def)
qed

lemma netio_send_net: "same_net n (snd (netio_send p pkt n))"
  by (auto simp: netio_send_def same_net_def Let_def split_beta tx_admit_config split: option.split)

text \<open>A descriptor without filters on its way out admits every packet.\<close>

definition unfiltered :: "net \<Rightarrow> nio \<Rightarrow> bool" where
  "unfiltered n p \<longleftrightarrow> tx_filter (nio_tab n p) = None \<and> both_filter (nio_tab n p) = None"

lemma tx_admit_unfiltered: "tx_filter d = None \<Longrightarrow> both_filter d = None \<Longrightarrow> fst (tx_admit pkt d)"
  by (simp add: tx_admit_def apply_no_filter filter_of_def)

lemma netio_send_sent:
  "sent (snd (netio_send (Some p) pkt n)) = sent n @ (if fst (tx_admit pkt (nio_tab n p)) then [(p, pkt)] else [])"
  by (simp add: netio_send_def split_beta Let_def)

lemma netio_send_unfiltered:
  "unfiltered n p \<Longrightarrow> sent (snd (netio_send (Some p) pkt n)) = sent n @ [(p, pkt)]"
  by (simp add: netio_send_sent tx_admit_unfiltered unfiltered_def)

section \<open>An interface for the switches: sending to ports\<close>

text \<open>
  What the switches rely on: a send appends at most the packet it was given to the log, under the port it
  was given, and leaves the configuration of the ports as it is.
\<close>

locale packet_sender =
  fixes send :: "'p \<Rightarrow> 'm \<Rightarrow> 'w \<Rightarrow> 'w"
    and log :: "'w \<Rightarrow> ('p \<times> 'm) list"
    and same :: "'w \<Rightarrow> 'w \<Rightarrow> bool"
    and admits :: "'w \<Rightarrow> 'p \<Rightarrow> bool"
  assumes send_log: "log (send p m w) = log w \<or> log (send p m w) = log w @ [(p, m)]"
    and send_admitted: "admits w p \<Longrightarrow> log (send p m w) = log w @ [(p, m)]"
    and send_same: "same w (send p m w)"
    and same_trans: "same u v \<Longrightarrow> same v w \<Longrightarrow> same u w"
    and same_refl: "same w w"
    and same_admits: "same v w \<Longrightarrow> admits w p = admits v p"
begin

definition send_all :: "('p \<times> 'm) list \<Rightarrow> 'w \<Rightarrow> 'w" where
  "send_all xs = fold (\<lambda>(p, m). send p m) xs"

lemma send_all_simps [simp]:
  "send_all [] w = w"
  "send_all (x # xs) w = send_all xs (send (fst x) (snd x) w)"
  "send_all (xs @ ys) w = send_all ys (send_all xs w)"
  by (simp_all add: send_all_def split_beta)

lemma send_all_same: "same w (send_all xs w)"
  by (induction xs arbitrary: w) (auto intro: same_refl same_trans send_same)

lemma send_all_log: "\<exists>ys. log (send_all xs w) = log w @ ys \<and> subseq ys xs"
proof (induction xs arbitrary: w)
  case (Cons x xs)
  obtain ys where ys: "log (send_all xs (send (fst x) (snd x) w)) = log (send (fst x) (snd x) w) @ ys" "subseq ys xs"
    using Cons.IH by blast
  with send_log [of "fst x" "snd x" w] show ?case by auto
qed simp

lemma send_all_admitted:
  "(\<And>p m. (p, m) \<in> set xs \<Longrightarrow> admits w p) \<Longrightarrow> log (send_all xs w) = log w @ xs"
proof (induction xs arbitrary: w)
  case (Cons x xs)
  have "admits w (fst x)" using Cons.prems [of "fst x" "snd x"] by simp
  moreover have "log (send_all xs (send (fst x) (snd x) w)) = log (send (fst x) (snd x) w) @ xs"
    using Cons.prems same_admits [OF send_same] by (intro Cons.IH) auto
  ultimately show ?case by (simp add: send_admitted)
qed simp

end

abbreviation net_send :: "nio \<Rightarrow> u8 list \<Rightarrow> net \<Rightarrow> net" where
  "net_send p pkt n \<equiv> snd (netio_send (Some p) pkt n)"

interpretation nio_ports: packet_sender net_send sent same_net unfiltered
proof
  show "sent (net_send p m w) = sent w \<or> sent (net_send p m w) = sent w @ [(p, m)]" for p m w
    by (simp add: netio_send_sent)
  show "unfiltered w p = unfiltered v p" if "same_net v w" for v w p
    using that by (simp add: unfiltered_def same_net_def same_config_def)
qed (auto simp: netio_send_unfiltered netio_send_net intro: same_net_trans)

section \<open>The frequency filter drops every n-th packet\<close>

fun freqdrop_run :: "pf_freqdrop_data option \<Rightarrow> nat \<Rightarrow> netio_filter_action list" where
  "freqdrop_run opt 0 = []"
| "freqdrop_run opt (Suc k) = (let (r, opt) = pf_freqdrop_pkt_handler opt in r # freqdrop_run opt k)"

lemma freqdrop_run_from:
  assumes "unat f > 0" "f \<noteq> -1" "unat c < unat f"
  shows "freqdrop_run (Some \<lparr>frequency = f, current = c\<rparr>) k =
     map (\<lambda>i. if (unat c + i + 1) mod unat f = 0 then NETIO_FILTER_ACTION_DROP else NETIO_FILTER_ACTION_PASS) [0..<k]"
  using assms(3)
proof (induction k arbitrary: c)
  case (Suc k)
  have f: "f \<noteq> 0" using assms(1) by (auto simp: unat_gt_0)
  have c1: "unat (c + 1) = unat c + 1"
    using Suc.prems unat_u32_less [of f] unat_add_lem [of c 1] by simp
  have step: "map g [0..<Suc k] = g 0 # map (\<lambda>i. g (Suc i)) [0..<k]" for g :: "nat \<Rightarrow> netio_filter_action"
    by (simp add: upt_conv_Cons map_Suc_upt [symmetric] del: upt_Suc)
  show ?case
  proof (cases "c + 1 = f")
    case True
    then have "unat c + 1 = unat f" using c1 by simp
    moreover have "(unat c + (Suc i) + 1) mod unat f = (i + 1) mod unat f" for i
      using \<open>unat c + 1 = unat f\<close> by (metis add.commute add.assoc add_Suc_right mod_add_self1 plus_1_eq_Suc)
    ultimately show ?thesis using True f assms(1,2) Suc.IH [of 0]
      unfolding step by (simp add: pf_freqdrop_pkt_handler_def Let_def)
  next
    case False
    then have "unat c + 1 < unat f" using c1 Suc.prems by (metis Suc_eq_plus1 Suc_leI le_neq_implies_less unsigned_word_eqI)
    then show ?thesis using False f assms(2) Suc.IH [of "c + 1"]
      unfolding step by (simp add: pf_freqdrop_pkt_handler_def Let_def c1)
  qed
qed simp

text \<open>the filter "freq_drop" set up with the frequency n drops exactly the packets number n, 2n, 3n and so
  on of those it sees and passes the others.\<close>

theorem freqdrop_drops_every_nth:
  assumes "pf_freqdrop_setup opt [arg] = (0, opt')" "atoi arg = of_nat f" "0 < f" "f < 2 ^ 31"
  shows "freqdrop_run opt' k =
     map (\<lambda>i. if (i + 1) mod f = 0 then NETIO_FILTER_ACTION_DROP else NETIO_FILTER_ACTION_PASS) [0..<k]"
proof -
  have f: "unat (of_nat f :: u32) = f" using assms(4) by (simp add: unsigned_of_nat take_bit_nat_eq_self)
  have "(of_nat f :: u32) \<noteq> -1"
  proof
    assume "(of_nat f :: u32) = -1"
    then have "unat (of_nat f :: u32) = unat (- 1 :: u32)" by simp
    then show False using f assms(4) by (simp add: unsigned_minus_1_eq_mask mask_eq_exp_minus_1)
  qed
  moreover have "opt' = Some \<lparr>frequency = of_nat f, current = 0\<rparr>"
    using assms(1,2) by (simp add: pf_freqdrop_setup_def)
  ultimately show ?thesis using freqdrop_run_from [of "of_nat f" 0 k] f assms(3) by simp
qed

theorem freqdrop_drops_every_nth_witness:
  "freqdrop_run (Some \<lparr>frequency = 3, current = 0\<rparr>) 5 =
     [NETIO_FILTER_ACTION_PASS, NETIO_FILTER_ACTION_PASS, NETIO_FILTER_ACTION_DROP, NETIO_FILTER_ACTION_PASS, NETIO_FILTER_ACTION_PASS]"
proof -
  have "freqdrop_run (Some \<lparr>frequency = 3, current = 0\<rparr>) 5 =
     map (\<lambda>i. if (i + 1) mod 3 = 0 then NETIO_FILTER_ACTION_DROP else NETIO_FILTER_ACTION_PASS) [0..<5]"
    by (rule freqdrop_drops_every_nth [of None "'' 3''"])
      (simp_all add: pf_freqdrop_setup_def atoi_def digits_value_def is_blank_def is_digit_def)
  also have "[0..<5::nat] = [0, 1, 2, 3, 4]" by (simp add: upt_rec)
  finally show ?thesis by simp
qed

section \<open>The bandwidth window\<close>

definition bw_wf :: "netio_desc \<Rightarrow> bool" where
  "bw_wf d \<longleftrightarrow> length (bw_cnt d) = NETIO_BW_SAMPLES \<and> bw_pos d < NETIO_BW_SAMPLES \<and> bw_cnt_total d = sum_list (bw_cnt d)"

lemma sum_list_update_word:
  "i < length xs \<Longrightarrow> sum_list (xs[i := x :: 'a::len word]) = sum_list xs - xs ! i + x"
  by (induction xs arbitrary: i) (auto split: nat.splits simp: algebra_simps)

inductive bw_step :: "nat \<Rightarrow> netio_desc \<Rightarrow> netio_desc \<Rightarrow> bool" for sleep_time where
  account: "bw_step sleep_time d (netio_update_bw_stat bytes d)"
| tick: "bw_step sleep_time d (netio_clear_bw_stat sleep_time d)"

inductive_simps bw_step_iff: "bw_step sleep_time d d'"

lemma bw_reach:
  "(bw_step t)\<^sup>*\<^sup>* d d' \<Longrightarrow> (bw_step t)\<^sup>*\<^sup>* d (netio_update_bw_stat b d')"
  "(bw_step t)\<^sup>*\<^sup>* d d' \<Longrightarrow> (bw_step t)\<^sup>*\<^sup>* d (netio_clear_bw_stat t d')"
  by (erule rtranclp.rtrancl_into_rtrancl, rule bw_step.intros)+

text \<open>in every state of a descriptor that accounting and the periodic task can reach, the total of the bandwidth window is
  the sum of its samples (modulo 2^64) and the position is inside the window.\<close>

theorem bandwidth_total_is_window_sum:
  assumes "(bw_step sleep_time)\<^sup>*\<^sup>* (netio_create name) d"
  shows "bw_cnt_total d = sum_list (bw_cnt d) \<and> bw_pos d < NETIO_BW_SAMPLES"
proof -
  have "bw_wf d" using assms
  proof (induction rule: rtranclp_induct)
    case base
    show ?case by (simp add: bw_wf_def netio_create_def NETIO_BW_SAMPLES_def sum_list_replicate)
  next
    case (step d' d'')
    then have wf: "bw_wf d'" by simp
    have "bw_wf (netio_update_bw_stat b d')" for b
      using wf by (auto simp: bw_wf_def netio_update_bw_stat_def sum_list_update_word)
    moreover have "bw_wf (netio_clear_bw_stat sleep_time d')"
      using wf by (auto simp: bw_wf_def netio_clear_bw_stat_def Let_def sum_list_update_word NETIO_BW_SAMPLES_def)
    ultimately show ?case using step.hyps(2) by (auto simp: bw_step_iff)
  qed
  then show ?thesis by (simp add: bw_wf_def)
qed

theorem bandwidth_total_is_window_sum_witness:
  "let d = netio_clear_bw_stat 15 (netio_clear_bw_stat 15 (netio_update_bw_stat 100 (netio_create ''a'')))
   in bw_cnt_total d = sum_list (bw_cnt d) \<and> bw_pos d < NETIO_BW_SAMPLES"
  unfolding Let_def
  by (rule bandwidth_total_is_window_sum [of 15 "''a''"]) (intro bw_reach rtranclp.rtrancl_refl)

end
