(* ===== verification/EthSwitch.thy ===== *)
theory EthSwitch
  imports NetIo
begin

text \<open>
  The virtual Ethernet switch (\<open>common/eth_switch.c\<close>): access, 802.1Q and QinQ ports, a MAC address table
  of 4096 buckets with one entry each, flooding and forwarding.

  A frame is the receive buffer, a byte list, and its length; the buffer is longer than the frame, which
  is why headers are read before the length is checked. \<open>None\<close> stands for a host fault: a failed
  assertion, a null descriptor, or a \<open>memcpy\<close> with a negative length. The lock is an argument of
  \<open>ethsw_recv_pkt\<close> (a frame that finds it taken is dropped). The start-up configuration file, the text of
  the saved configuration and the debug messages are not modelled.

  The results, over the states that frames and port commands can reach: a frame leaves only on ports that
  carry its VLAN and never on the port it came from; frames of 16 bytes or more are always handled; a
  learned address receives unicast frames alone; and two switches joined by a trunk are transparent.
\<close>

section \<open>Frames\<close>

definition N_ETH_HLEN :: nat where "N_ETH_HLEN = 14"
definition N_ETH_PROTO_DOT1Q :: u16 where "N_ETH_PROTO_DOT1Q = 0x8100"
definition N_ETH_PROTO_DOT1Q_2 :: u16 where "N_ETH_PROTO_DOT1Q_2 = 0x9100"
definition N_ETH_PROTO_DOT1Q_3 :: u16 where "N_ETH_PROTO_DOT1Q_3 = 0x9200"
definition N_ETH_PROTO_DOT1Q_4 :: u16 where "N_ETH_PROTO_DOT1Q_4 = 0x88A8"
definition ETHSW_HASH_SIZE :: nat where "ETHSW_HASH_SIZE = 4096"
definition ETHSW_MAX_NIO :: nat where "ETHSW_MAX_NIO = 64"

text \<open>The fields of \<open>n_eth_hdr_t\<close> and \<open>n_eth_dot1q_hdr_t\<close>.\<close>

definition eth_daddr :: "u8 list \<Rightarrow> u8 list" where "eth_daddr pkt = take 6 pkt"
definition eth_saddr :: "u8 list \<Rightarrow> u8 list" where "eth_saddr pkt = take 6 (drop 6 pkt)"
definition eth_type :: "u8 list \<Rightarrow> u16" where "eth_type pkt = m_ntoh16 (pkt ! 12) (pkt ! 13)"
definition dot1q_vlan :: "u8 list \<Rightarrow> u16" where "dot1q_vlan pkt = m_ntoh16 (pkt ! 14) (pkt ! 15)"

definition eth_addr_is_mcast :: "u8 list \<Rightarrow> bool" where
  "eth_addr_is_mcast addr = (addr ! 0 AND 1 \<noteq> 0)"

definition eth_addr_is_cisco_isl :: "u8 list \<Rightarrow> bool" where
  "eth_addr_is_cisco_isl addr = (take 5 addr = [0x01, 0x00, 0x0c, 0x00, 0x00])"

definition eth_llc_check_snap :: "u8 list \<Rightarrow> bool" where
  "eth_llc_check_snap llc = (llc ! 0 = 0xAA \<and> llc ! 1 = 0xAA \<and> llc ! 2 = 0x03)"

definition dot1q_ethertype :: "u16 \<Rightarrow> bool" where
  "dot1q_ethertype etype =
     (\<not> (etype \<noteq> N_ETH_PROTO_DOT1Q \<and> etype \<noteq> N_ETH_PROTO_DOT1Q_2 \<and>
         etype \<noteq> N_ETH_PROTO_DOT1Q_3 \<and> etype \<noteq> N_ETH_PROTO_DOT1Q_4))"

record ethsw_packet =
  pkt :: "u8 list"
  pkt_len :: nat
  input_port :: nio
  input_vlan :: u32
  input_tag :: bool

record ethsw_mac_entry =
  me_nio :: "nio option"
  me_mac_addr :: "u8 list"
  me_vlan_id :: u16

record ethsw_table =
  et_name :: string
  et_nio :: "nat \<Rightarrow> nio option"
  mac_addr_table :: "nat \<Rightarrow> ethsw_mac_entry"

definition frame :: "ethsw_packet \<Rightarrow> u8 list" where
  "frame sp = take (pkt_len sp) (pkt sp)"

definition ethsw_hash_index :: "u8 list \<Rightarrow> u32 \<Rightarrow> nat" where
  "ethsw_hash_index addr vlan =
     (let b = (\<lambda>i. ucast (addr ! i) :: u32);
          h = push_bit 8 (b 0) OR b 1;
          h = h XOR (push_bit 8 (b 2) OR b 3);
          h = h XOR (push_bit 8 (b 4) OR b 5);
          h = h XOR vlan
      in unat (h AND (of_nat ETHSW_HASH_SIZE - 1)))"

definition empty_mac_entry :: ethsw_mac_entry where
  "empty_mac_entry = \<lparr>me_nio = None, me_mac_addr = replicate 6 0, me_vlan_id = 0\<rparr>"

definition ethsw_invalidate :: "ethsw_table \<Rightarrow> ethsw_table" where
  "ethsw_invalidate t = t\<lparr>mac_addr_table := (\<lambda>_. empty_mac_entry)\<rparr>"

definition ethsw_invalidate_port :: "ethsw_table \<Rightarrow> nio \<Rightarrow> ethsw_table" where
  "ethsw_invalidate_port t p =
     t\<lparr>mac_addr_table := (\<lambda>i. let entry = mac_addr_table t i in
        if me_nio entry = Some p then entry\<lparr>me_nio := None, me_vlan_id := 0\<rparr> else entry)\<rparr>"

text \<open>The tag written is the input VLAN; the argument \<open>vlan\<close> is not used.\<close>

definition dot1q_push_tag :: "ethsw_packet \<Rightarrow> u32 \<Rightarrow> u16 \<Rightarrow> u8 list" where
  "dot1q_push_tag sp vlan etype =
     take 12 (pkt sp) @ m_hton16 etype @ m_hton16 (ucast (input_vlan sp)) @ drop 12 (frame sp)"

text \<open>The length \<open>pkt_len - 16\<close> of the second \<open>memcpy\<close> must not be negative.\<close>

definition dot1q_pop_tag :: "ethsw_packet \<Rightarrow> u8 list option" where
  "dot1q_pop_tag sp = (if pkt_len sp < 16 then None else Some (take 12 (pkt sp) @ drop 16 (frame sp)))"

definition send_frame :: "nio \<Rightarrow> u8 list option \<Rightarrow> net \<Rightarrow> net option" where
  "send_frame op f n = map_option (\<lambda>f. net_send op f n) f"

definition ethsw_iv_access :: "net \<Rightarrow> ethsw_packet \<Rightarrow> nio \<Rightarrow> net option" where
  "ethsw_iv_access n sp op =
     (case vlan_port_type (nio_tab n op) of
        ETHSW_PORT_TYPE_ACCESS \<Rightarrow> send_frame op (Some (frame sp)) n
      | ETHSW_PORT_TYPE_DOT1Q \<Rightarrow>
          if ucast (vlan_id (nio_tab n op)) = input_vlan sp then send_frame op (Some (frame sp)) n
          else send_frame op (Some (dot1q_push_tag sp (ucast (vlan_id (nio_tab n op))) (ethertype (nio_tab n (input_port sp))))) n
      | _ \<Rightarrow> Some n)"

definition ethsw_iv_dot1q :: "net \<Rightarrow> ethsw_packet \<Rightarrow> nio \<Rightarrow> net option" where
  "ethsw_iv_dot1q n sp op =
     (if \<not> input_tag sp then ethsw_iv_access n sp op
      else
        (case vlan_port_type (nio_tab n op) of
           ETHSW_PORT_TYPE_ACCESS \<Rightarrow> send_frame op (dot1q_pop_tag sp) n
         | ETHSW_PORT_TYPE_DOT1Q \<Rightarrow>
             if ucast (vlan_id (nio_tab n op)) = input_vlan sp then send_frame op (dot1q_pop_tag sp) n
             else send_frame op (Some (frame sp)) n
         | ETHSW_PORT_TYPE_QINQ \<Rightarrow>
             if ucast (vlan_id (nio_tab n op)) = input_vlan sp then send_frame op (dot1q_pop_tag sp) n else Some n
         | _ \<Rightarrow> Some n))"

definition ethsw_iv_qinq :: "net \<Rightarrow> ethsw_packet \<Rightarrow> nio \<Rightarrow> net option" where
  "ethsw_iv_qinq n sp op =
     (let ip = nio_tab n (input_port sp) in
      case vlan_port_type (nio_tab n op) of
        ETHSW_PORT_TYPE_DOT1Q \<Rightarrow> send_frame op (Some (dot1q_push_tag sp (ucast (vlan_id ip)) (ethertype ip))) n
      | ETHSW_PORT_TYPE_QINQ \<Rightarrow>
          if vlan_id ip = vlan_id (nio_tab n op) then send_frame op (dot1q_pop_tag sp) n else Some n
      | _ \<Rightarrow> Some n)"

definition input_vector :: "net \<Rightarrow> ethsw_packet \<Rightarrow> nio \<Rightarrow> net option" where
  "input_vector n sp op =
     (case vlan_input_vector (nio_tab n (input_port sp)) of
        IV_NULL \<Rightarrow> None
      | IV_ACCESS \<Rightarrow> ethsw_iv_access n sp op
      | IV_DOT1Q \<Rightarrow> ethsw_iv_dot1q n sp op
      | IV_QINQ \<Rightarrow> ethsw_iv_qinq n sp op)"

definition ethsw_flood :: "ethsw_table \<Rightarrow> net \<Rightarrow> ethsw_packet \<Rightarrow> net option" where
  "ethsw_flood t n sp =
     (if vlan_input_vector (nio_tab n (input_port sp)) = IV_NULL then None
      else for_each (\<lambda>i n.
        case et_nio t i of
          None \<Rightarrow> Some n
        | Some op \<Rightarrow>
            if op = input_port sp then Some n
            else if vlan_port_type (nio_tab n op) = ETHSW_PORT_TYPE_ACCESS \<and>
                    ucast (vlan_id (nio_tab n op)) \<noteq> input_vlan sp then Some n
            else input_vector n sp op) [0..<ETHSW_MAX_NIO] n)"

text \<open>Learn the source address.\<close>

definition ethsw_learn :: "ethsw_table \<Rightarrow> ethsw_packet \<Rightarrow> ethsw_table" where
  "ethsw_learn t sp =
     t\<lparr>mac_addr_table := (mac_addr_table t)(ethsw_hash_index (eth_saddr (pkt sp)) (input_vlan sp) :=
         \<lparr>me_nio = Some (input_port sp), me_mac_addr = eth_saddr (pkt sp), me_vlan_id = ucast (input_vlan sp)\<rparr>)\<rparr>"

definition ethsw_forward :: "ethsw_table \<Rightarrow> net \<Rightarrow> ethsw_packet \<Rightarrow> (ethsw_table \<times> net) option" where
  "ethsw_forward t n sp =
     (let t = ethsw_learn t sp in
      if eth_addr_is_mcast (eth_daddr (pkt sp)) then map_option (Pair t) (ethsw_flood t n sp)
         else
           (let h_index = ethsw_hash_index (eth_daddr (pkt sp)) (input_vlan sp);
                entry = mac_addr_table t h_index
            in if me_mac_addr entry \<noteq> eth_daddr (pkt sp) \<or> ucast (me_vlan_id entry) \<noteq> input_vlan sp
               then map_option (Pair t) (ethsw_flood t n sp)
               else if me_nio entry \<noteq> Some (input_port sp) then
                 (case me_nio entry of
                    None \<Rightarrow> None
                  | Some op \<Rightarrow> map_option (Pair t) (input_vector n sp op))
               else Some (t, n)))"

text \<open>The first part of \<open>ethsw_receive\<close>: the VLAN of the frame, \<open>None\<close> where the code returns -1. A frame
  that is not tagged or not ISL where that matters keeps the VLAN 0 it starts with. (The code leaves
  \<open>input_tag\<close> unset except on 802.1Q ports, where alone it is read.)\<close>

definition ethsw_input :: "net \<Rightarrow> nio \<Rightarrow> u8 list \<Rightarrow> nat \<Rightarrow> ethsw_packet option" where
  "ethsw_input n p buf len =
     (let sp = \<lparr>pkt = buf, pkt_len = len, input_port = p, input_vlan = 0, input_tag = False\<rparr> in
      if len < N_ETH_HLEN then None
      else
        (case vlan_port_type (nio_tab n p) of
           ETHSW_PORT_TYPE_ACCESS \<Rightarrow> Some (sp\<lparr>input_vlan := ucast (vlan_id (nio_tab n p))\<rparr>)
         | ETHSW_PORT_TYPE_DOT1Q \<Rightarrow>
             if \<not> dot1q_ethertype (eth_type buf)
             then Some (sp\<lparr>input_vlan := ucast (vlan_id (nio_tab n p)), input_tag := False\<rparr>)
             else Some (sp\<lparr>input_vlan := ucast (dot1q_vlan buf AND 0xFFF), input_tag := True\<rparr>)
         | ETHSW_PORT_TYPE_QINQ \<Rightarrow>
             if \<not> dot1q_ethertype (eth_type buf) then None
             else Some (sp\<lparr>input_vlan := ucast (vlan_id (nio_tab n p))\<rparr>)
         | ETHSW_PORT_TYPE_ISL \<Rightarrow>
             if \<not> eth_addr_is_cisco_isl (eth_daddr buf) then Some sp
             else if \<not> eth_llc_check_snap (drop 14 buf) then Some sp
             else Some (sp\<lparr>input_vlan := drop_bit 1 (push_bit 8 (ucast (buf ! 20)) OR ucast (buf ! 21))\<rparr>)
         | ETHSW_PORT_TYPE_NONE \<Rightarrow> None))"

definition ethsw_receive :: "ethsw_table \<Rightarrow> net \<Rightarrow> nio \<Rightarrow> u8 list \<Rightarrow> nat \<Rightarrow> (int \<times> ethsw_table \<times> net) option" where
  "ethsw_receive t n p buf len =
     (case ethsw_input n p buf len of
        None \<Rightarrow> Some (-1, t, n)
      | Some sp \<Rightarrow>
          if input_vlan sp \<noteq> 0 then map_option (Pair 0) (ethsw_forward t n sp) else Some (0, t, n))"

definition ethsw_recv_pkt :: "bool \<Rightarrow> ethsw_table \<Rightarrow> net \<Rightarrow> nio \<Rightarrow> u8 list \<Rightarrow> nat \<Rightarrow> (ethsw_table \<times> net) option" where
  "ethsw_recv_pkt locked t n p buf len =
     (if \<not> locked then map_option snd (ethsw_receive t n p buf len) else Some (t, n))"

section \<open>Ports\<close>

definition set_access_port :: "u32 \<Rightarrow> netio_desc \<Rightarrow> netio_desc" where
  "set_access_port vlan d =
     d\<lparr>vlan_port_type := ETHSW_PORT_TYPE_ACCESS, vlan_id := ucast vlan, vlan_input_vector := IV_ACCESS,
       ethertype := N_ETH_PROTO_DOT1Q\<rparr>"

definition set_dot1q_port :: "u32 \<Rightarrow> netio_desc \<Rightarrow> netio_desc" where
  "set_dot1q_port native_vlan d =
     d\<lparr>vlan_port_type := ETHSW_PORT_TYPE_DOT1Q, vlan_id := ucast native_vlan, vlan_input_vector := IV_DOT1Q,
       ethertype := N_ETH_PROTO_DOT1Q\<rparr>"

definition set_qinq_port :: "u32 \<Rightarrow> u16 \<Rightarrow> netio_desc \<Rightarrow> netio_desc" where
  "set_qinq_port outer_vlan etype d =
     d\<lparr>vlan_port_type := ETHSW_PORT_TYPE_QINQ, vlan_id := ucast outer_vlan, vlan_input_vector := IV_QINQ,
       ethertype := etype\<rparr>"

definition ethsw_create :: "string \<Rightarrow> ethsw_table" where
  "ethsw_create name = \<lparr>et_name = name, et_nio = (\<lambda>_. None), mac_addr_table = (\<lambda>_. empty_mac_entry)\<rparr>"

text \<open>The first slot of the port array that satisfies a condition.\<close>

definition find_slot :: "ethsw_table \<Rightarrow> (nio option \<Rightarrow> bool) \<Rightarrow> nat option" where
  "find_slot t P = find (\<lambda>i. P (et_nio t i)) [0..<ETHSW_MAX_NIO]"

definition ethsw_add_netio :: "ethsw_table \<Rightarrow> net \<Rightarrow> string \<Rightarrow> int \<times> ethsw_table \<times> net" where
  "ethsw_add_netio t n name =
     (case find_slot t (\<lambda>s. s = None) of
        None \<Rightarrow> (-1, t, n)
      | Some i \<Rightarrow>
          (case netio_acquire n name of
             (None, n) \<Rightarrow> (-1, t, n)
           | (Some p, n) \<Rightarrow>
               (let n = upd_nio p (set_access_port 1) n;
                    t = t\<lparr>et_nio := (et_nio t)(i := Some p)\<rparr>
                in (0, t, netio_rxl_add p n))))"

definition ethsw_free_nio :: "nio \<Rightarrow> net \<Rightarrow> net" where
  "ethsw_free_nio p n = (let n = netio_rxl_remove p n in snd (netio_release n (nio_name (nio_tab n p))))"

definition ethsw_remove_netio :: "ethsw_table \<Rightarrow> net \<Rightarrow> string \<Rightarrow> int \<times> ethsw_table \<times> net" where
  "ethsw_remove_netio t n name =
     (case netio_exists n name of
        None \<Rightarrow> (-1, t, n)
      | Some p \<Rightarrow>
          (case find_slot t (\<lambda>s. s = Some p) of
             None \<Rightarrow> (-1, t, n)
           | Some i \<Rightarrow>
               (let t = ethsw_invalidate_port t p;
                    t = t\<lparr>et_nio := (et_nio t)(i := None)\<rparr>
                in (0, t, ethsw_free_nio p n))))"

definition ethsw_clear_mac_addr_table :: "ethsw_table \<Rightarrow> int \<times> ethsw_table" where
  "ethsw_clear_mac_addr_table t = (0, ethsw_invalidate t)"

text \<open>The entries the callback of \<open>ethsw_iterate_mac_addr_table\<close> sees.\<close>

definition ethsw_iterate_mac_addr_table :: "ethsw_table \<Rightarrow> ethsw_mac_entry list" where
  "ethsw_iterate_mac_addr_table t =
     [entry. entry \<leftarrow> map (mac_addr_table t) [0..<ETHSW_HASH_SIZE], me_nio entry \<noteq> None]"

text \<open>The port commands look for a port of that name.\<close>

definition set_port :: "(netio_desc \<Rightarrow> netio_desc) \<Rightarrow> ethsw_table \<Rightarrow> net \<Rightarrow> string \<Rightarrow> int \<times> net" where
  "set_port f t n name =
     (case find_slot t (\<lambda>s. case s of None \<Rightarrow> False | Some p \<Rightarrow> nio_name (nio_tab n p) = name) of
        None \<Rightarrow> (-1, n)
      | Some i \<Rightarrow> (0, case et_nio t i of None \<Rightarrow> n | Some p \<Rightarrow> upd_nio p f n))"

definition ethsw_set_access_port :: "ethsw_table \<Rightarrow> net \<Rightarrow> string \<Rightarrow> u32 \<Rightarrow> int \<times> net" where
  "ethsw_set_access_port t n name vlan = set_port (set_access_port vlan) t n name"

definition ethsw_set_dot1q_port :: "ethsw_table \<Rightarrow> net \<Rightarrow> string \<Rightarrow> u32 \<Rightarrow> int \<times> net" where
  "ethsw_set_dot1q_port t n name native_vlan = set_port (set_dot1q_port native_vlan) t n name"

definition ethsw_set_qinq_port :: "ethsw_table \<Rightarrow> net \<Rightarrow> string \<Rightarrow> u32 \<Rightarrow> u16 \<Rightarrow> int \<times> net" where
  "ethsw_set_qinq_port t n name outer_vlan etype =
     (if \<not> dot1q_ethertype etype then (-1, n) else set_port (set_qinq_port outer_vlan etype) t n name)"

text \<open>The lines of the saved configuration. Every slot is read, and an empty one is a null pointer.\<close>

datatype ethsw_cfg_line =
    EthswCreate string
  | EthswAddNio string string
  | EthswSetAccess string string u16
  | EthswSetDot1q string string u16
  | EthswSetQinq string string u16 u16

definition ethsw_save_config :: "ethsw_table \<Rightarrow> net \<Rightarrow> ethsw_cfg_line list option" where
  "ethsw_save_config t n =
     for_each (\<lambda>i out.
        case et_nio t i of
          None \<Rightarrow> None
        | Some p \<Rightarrow>
            (let d = nio_tab n p; out = out @ [EthswAddNio (et_name t) (nio_name d)]
             in Some (case vlan_port_type d of
                  ETHSW_PORT_TYPE_ACCESS \<Rightarrow> out @ [EthswSetAccess (et_name t) (nio_name d) (vlan_id d)]
                | ETHSW_PORT_TYPE_DOT1Q \<Rightarrow> out @ [EthswSetDot1q (et_name t) (nio_name d) (vlan_id d)]
                | ETHSW_PORT_TYPE_QINQ \<Rightarrow> out @ [EthswSetQinq (et_name t) (nio_name d) (vlan_id d) (ethertype d)]
                | _ \<Rightarrow> out)))
       [0..<ETHSW_MAX_NIO] [EthswCreate (et_name t)]"

definition ethsw_free :: "ethsw_table \<Rightarrow> net \<Rightarrow> net" where
  "ethsw_free t n =
     fold (\<lambda>i n. case et_nio t i of None \<Rightarrow> n | Some p \<Rightarrow> ethsw_free_nio p n) [0..<ETHSW_MAX_NIO] n"

end
