(* ===== verification/EthSwitchProps.thy ===== *)
theory EthSwitchProps
  imports EthSwitch
begin

text \<open>
  Properties of the virtual Ethernet switch: the invariant of its address table and ports, over every state
  that frames and port commands reach; VLAN isolation, absence of faults, learning, and the transparency
  of a trunk between two switches. The faults the code does have are lemmas: a stale entry after a port
  is configured (\<open>stale_entry_leaks\<close>), short tagged frames (\<open>short_tagged_frame_faults\<close>), saving a switch with
  free slots (\<open>save_config_needs_full_switch\<close>).
\<close>

section \<open>What the input vectors send\<close>

lemma for_each_inv:
  assumes "for_each f is s = Some s'" "I s" "\<And>i s s'. i \<in> set is \<Longrightarrow> I s \<Longrightarrow> f i s = Some s' \<Longrightarrow> I s'"
  shows "I s'"
  using assms
proof (induction "is" arbitrary: s)
  case (Cons i "is")
  then obtain t where t: "f i s = Some t" "for_each f is t = Some s'" by (auto split: option.splits)
  have "I t" using Cons.prems t(1) by (meson list.set_intros(1))
  with Cons t(2) show ?case by (meson list.set_intros(2))
qed simp

lemma for_each_total:
  assumes "I s" "\<And>i s. i \<in> set is \<Longrightarrow> I s \<Longrightarrow> \<exists>s'. f i s = Some s' \<and> I s'"
  shows "\<exists>s'. for_each f is s = Some s'"
  using assms
proof (induction "is" arbitrary: s)
  case (Cons i "is")
  then obtain s' where "f i s = Some s'" "I s'" by (meson list.set_intros(1))
  moreover have "\<exists>s''. for_each f is s' = Some s''" using Cons \<open>I s'\<close> by simp
  ultimately show ?case by simp
qed simp

definition is_port :: "ethsw_table \<Rightarrow> nio \<Rightarrow> bool" where
  "is_port t p \<longleftrightarrow> (\<exists>i < ETHSW_MAX_NIO. et_nio t i = Some p)"

text \<open>An access or tunnel port carries one VLAN only.\<close>

definition single_vlan :: "netio_desc \<Rightarrow> bool" where
  "single_vlan d \<longleftrightarrow> vlan_port_type d = ETHSW_PORT_TYPE_ACCESS \<or> vlan_port_type d = ETHSW_PORT_TYPE_QINQ"

definition carries :: "net \<Rightarrow> u32 \<Rightarrow> nio \<Rightarrow> bool" where
  "carries n vlan p \<longleftrightarrow> (single_vlan (nio_tab n p) \<longrightarrow> ucast (vlan_id (nio_tab n p)) = vlan)"

definition port_ok :: "netio_desc \<Rightarrow> bool" where
  "port_ok d \<longleftrightarrow> (vlan_port_type d, vlan_input_vector d) \<in>
     {(ETHSW_PORT_TYPE_ACCESS, IV_ACCESS), (ETHSW_PORT_TYPE_DOT1Q, IV_DOT1Q), (ETHSW_PORT_TYPE_QINQ, IV_QINQ)}"

text \<open>A packet as \<open>ethsw_input\<close> makes it on a port that is configured.\<close>

definition packet_ok :: "net \<Rightarrow> ethsw_packet \<Rightarrow> bool" where
  "packet_ok n sp \<longleftrightarrow> port_ok (nio_tab n (input_port sp)) \<and> N_ETH_HLEN \<le> pkt_len sp \<and>
     (\<exists>v :: u16. input_vlan sp = ucast v) \<and>
     (single_vlan (nio_tab n (input_port sp)) \<longrightarrow> input_vlan sp = ucast (vlan_id (nio_tab n (input_port sp))))"

lemma same_net_desc:
  assumes "same_net n n'"
  shows "vlan_port_type (nio_tab n' p) = vlan_port_type (nio_tab n p)" "vlan_id (nio_tab n' p) = vlan_id (nio_tab n p)"
    "vlan_input_vector (nio_tab n' p) = vlan_input_vector (nio_tab n p)" "ethertype (nio_tab n' p) = ethertype (nio_tab n p)"
    "nio_name (nio_tab n' p) = nio_name (nio_tab n p)"
  using assms by (auto simp: same_net_def same_config_def)

lemma same_net_ok:
  assumes "same_net n n'"
  shows "carries n' v p = carries n v p" "port_ok (nio_tab n' p) = port_ok (nio_tab n p)" "packet_ok n' sp = packet_ok n sp"
    "single_vlan (nio_tab n' p) = single_vlan (nio_tab n p)"
  using same_net_desc [OF assms] by (simp_all add: carries_def port_ok_def packet_ok_def single_vlan_def)

lemma send_frame_iff: "send_frame op f n = Some n' \<longleftrightarrow> (\<exists>m. f = Some m \<and> n' = net_send op m n)"
  by (auto simp: send_frame_def)

lemma ucast_u16_u32 [simp]: "(ucast (ucast (v :: u16) :: u32) :: u16) = v"
  by (rule bit_word_eqI) (auto simp: bit_simps)

lemma u32_of_u16_eq [simp]: "(ucast (v :: u16) :: u32) = ucast w \<longleftrightarrow> v = w"
  by (metis ucast_u16_u32)

lemma u32_of_u16_0 [simp]: "(ucast (v :: u16) :: u32) = 0 \<longleftrightarrow> v = 0"
  using u32_of_u16_eq [of v 0] by simp

text \<open>Whatever the input vector, at most one frame goes to the output port, and a tunnel port only gets it in
  its own VLAN; for access ports the callers see to that.\<close>

lemma input_vector_sends:
  assumes "input_vector n sp op = Some n'" "packet_ok n sp"
    and "vlan_port_type (nio_tab n op) = ETHSW_PORT_TYPE_ACCESS \<Longrightarrow> carries n (input_vlan sp) op"
  shows "n' = n \<or> (carries n (input_vlan sp) op \<and> (\<exists>m. n' = net_send op m n))"
proof -
  have acc: ?thesis if "ethsw_iv_access n sp op = Some n'"
    using that assms(3)
    by (auto simp: ethsw_iv_access_def send_frame_iff carries_def single_vlan_def split: ethsw_port_type.splits if_splits)
  have dot: ?thesis if "ethsw_iv_dot1q n sp op = Some n'"
    using that assms(3) acc
    by (auto simp: ethsw_iv_dot1q_def send_frame_iff carries_def single_vlan_def split: ethsw_port_type.splits if_splits)
  have qinq: ?thesis if "ethsw_iv_qinq n sp op = Some n'" "vlan_port_type (nio_tab n (input_port sp)) = ETHSW_PORT_TYPE_QINQ"
    using that assms(2)
    by (auto simp: ethsw_iv_qinq_def send_frame_iff carries_def single_vlan_def packet_ok_def Let_def
      split: ethsw_port_type.splits if_splits)
  show ?thesis
    using assms(1,2) acc dot qinq
    by (auto simp: input_vector_def packet_ok_def port_ok_def split: ethsw_input_vector.splits)
qed

lemma input_vector_total:
  assumes "packet_ok n sp" "16 \<le> pkt_len sp"
  shows "\<exists>n'. input_vector n sp op = Some n'"
  using assms
  by (auto simp: input_vector_def packet_ok_def port_ok_def ethsw_iv_access_def ethsw_iv_dot1q_def ethsw_iv_qinq_def
    send_frame_def dot1q_pop_tag_def Let_def split: ethsw_input_vector.split ethsw_port_type.split)

definition goes_to :: "ethsw_table \<Rightarrow> net \<Rightarrow> ethsw_packet \<Rightarrow> nio \<Rightarrow> bool" where
  "goes_to t n sp q \<longleftrightarrow> is_port t q \<and> q \<noteq> input_port sp \<and> carries n (input_vlan sp) q"

lemma goes_to_same: "same_net n n' \<Longrightarrow> goes_to t n' sp q = goes_to t n sp q"
  by (simp add: goes_to_def same_net_ok)

text \<open>\<open>sends_to P n n'\<close>: the new state is the old one after sends to ports that satisfy \<open>P\<close>.\<close>

definition sends_to :: "(nio \<Rightarrow> bool) \<Rightarrow> net \<Rightarrow> net \<Rightarrow> bool" where
  "sends_to P n n' \<longleftrightarrow> (\<exists>xs. n' = nio_ports.send_all xs n \<and> (\<forall>x\<in>set xs. P (fst x)))"

lemma sends_to_refl [simp]: "sends_to P n n"
  unfolding sends_to_def by (rule exI [of _ "[]"]) simp

lemma sends_to_send: "sends_to P n n' \<Longrightarrow> P q \<Longrightarrow> sends_to P n (net_send q m n')"
  unfolding sends_to_def by (elim exE, rule_tac x = "xs @ [(q, m)]" in exI) auto

lemma sends_to_same: "sends_to P n n' \<Longrightarrow> same_net n n'"
  by (auto simp: sends_to_def nio_ports.send_all_same)

lemma sends_to_log:
  assumes "sends_to P n n'"
  obtains ys where "sent n' = sent n @ ys" "\<And>q m. (q, m) \<in> set ys \<Longrightarrow> P q"
proof -
  from assms obtain xs where xs: "n' = nio_ports.send_all xs n" "\<forall>x\<in>set xs. P (fst x)" by (auto simp: sends_to_def)
  obtain ys where "sent n' = sent n @ ys" "subseq ys xs" using nio_ports.send_all_log [of xs n] xs(1) by blast
  moreover from \<open>subseq ys xs\<close> xs(2) have "P q" if "(q, m) \<in> set ys" for q m
  proof -
    from list_emb_set [OF \<open>subseq ys xs\<close> that] have "(q, m) \<in> set xs" by blast
    with xs(2) show "P q" by auto
  qed
  ultimately show thesis using that [of ys] by blast
qed

lemma flood_sends:
  assumes "ethsw_flood t n sp = Some n'" "packet_ok n sp"
  shows "sends_to (goes_to t n sp) n n'"
proof -
  have fe: "for_each (\<lambda>i n. case et_nio t i of None \<Rightarrow> Some n
        | Some op \<Rightarrow>
            if op = input_port sp then Some n
            else if vlan_port_type (nio_tab n op) = ETHSW_PORT_TYPE_ACCESS \<and>
                    ucast (vlan_id (nio_tab n op)) \<noteq> input_vlan sp then Some n
            else input_vector n sp op) [0..<ETHSW_MAX_NIO] n = Some n'"
    using assms(1) by (simp add: ethsw_flood_def split: if_splits)
  show ?thesis
  proof (rule for_each_inv [OF fe, where I = "sends_to (goes_to t n sp) n"])
    fix i s s'
    assume i: "i \<in> set [0..<ETHSW_MAX_NIO]" and s: "sends_to (goes_to t n sp) n s"
      and step: "(case et_nio t i of None \<Rightarrow> Some s
        | Some op \<Rightarrow>
            if op = input_port sp then Some s
            else if vlan_port_type (nio_tab s op) = ETHSW_PORT_TYPE_ACCESS \<and>
                    ucast (vlan_id (nio_tab s op)) \<noteq> input_vlan sp then Some s
            else input_vector s sp op) = Some s'"
    note same = sends_to_same [OF s]
    show "sends_to (goes_to t n sp) n s'"
    proof (cases "s' = s")
      case False
      then obtain op where op: "et_nio t i = Some op" "op \<noteq> input_port sp" "input_vector s sp op = Some s'"
        "vlan_port_type (nio_tab s op) = ETHSW_PORT_TYPE_ACCESS \<longrightarrow> ucast (vlan_id (nio_tab s op)) = input_vlan sp"
        using step by (auto split: option.splits if_splits)
      have "packet_ok s sp" using assms(2) same_net_ok [OF same] by simp
      from input_vector_sends [OF op(3) this] op(4) False obtain m where
        m: "carries s (input_vlan sp) op" "s' = net_send op m s" by (auto simp: carries_def)
      have "is_port t op" using i op(1) by (auto simp: is_port_def)
      then have "goes_to t n sp op" using m(1) op(2) same_net_ok [OF same] by (simp add: goes_to_def)
      with s m(2) show ?thesis by (simp add: sends_to_send)
    qed (use s in simp)
  qed simp
qed

lemma flood_total:
  assumes "packet_ok n sp" "16 \<le> pkt_len sp"
  shows "\<exists>n'. ethsw_flood t n sp = Some n'"
proof -
  have "\<exists>n'. for_each (\<lambda>i n. case et_nio t i of None \<Rightarrow> Some n
        | Some op \<Rightarrow>
            if op = input_port sp then Some n
            else if vlan_port_type (nio_tab n op) = ETHSW_PORT_TYPE_ACCESS \<and>
                    ucast (vlan_id (nio_tab n op)) \<noteq> input_vlan sp then Some n
            else input_vector n sp op) [0..<ETHSW_MAX_NIO] n = Some n'"
  proof (rule for_each_total [where I = "same_net n"])
    fix i s assume same: "same_net n s"
    have ok: "packet_ok s sp" using assms(1) same_net_ok [OF same] by simp
    have iv: "\<exists>s'. input_vector s sp op = Some s' \<and> same_net n s'"
      if "vlan_port_type (nio_tab s op) = ETHSW_PORT_TYPE_ACCESS \<longrightarrow> ucast (vlan_id (nio_tab s op)) = input_vlan sp" for op
      using input_vector_total [OF ok assms(2), of op] input_vector_sends [OF _ ok, of op] that
      by (metis carries_def netio_send_net same same_net_trans)
    then show "\<exists>s'. (case et_nio t i of None \<Rightarrow> Some s
        | Some op \<Rightarrow>
            if op = input_port sp then Some s
            else if vlan_port_type (nio_tab s op) = ETHSW_PORT_TYPE_ACCESS \<and>
                    ucast (vlan_id (nio_tab s op)) \<noteq> input_vlan sp then Some s
            else input_vector s sp op) = Some s' \<and> same_net n s'"
      using same by (auto split: option.split)
  qed simp
  then show ?thesis using assms(1) by (auto simp: ethsw_flood_def packet_ok_def port_ok_def)
qed

section \<open>The invariant of the switch\<close>

definition ports_ok :: "ethsw_table \<Rightarrow> net \<Rightarrow> bool" where
  "ports_ok t n \<longleftrightarrow> (\<forall>p. is_port t p \<longrightarrow> port_ok (nio_tab n p))"

definition entry_ok :: "ethsw_table \<Rightarrow> net \<Rightarrow> ethsw_mac_entry \<Rightarrow> bool" where
  "entry_ok t n e \<longleftrightarrow> (me_vlan_id e \<noteq> 0 \<longrightarrow>
     (\<exists>p. me_nio e = Some p \<and> is_port t p \<and> carries n (ucast (me_vlan_id e)) p))"

definition ethsw_inv :: "ethsw_table \<Rightarrow> net \<Rightarrow> bool" where
  "ethsw_inv t n \<longleftrightarrow> ports_ok t n \<and> (\<forall>h. entry_ok t n (mac_addr_table t h))"

text \<open>No address is learned on a port, as after \<open>ethsw_clear_mac_addr_table\<close>.\<close>

definition unlearned :: "ethsw_table \<Rightarrow> nio \<Rightarrow> bool" where
  "unlearned t p \<longleftrightarrow> (\<forall>h. me_nio (mac_addr_table t h) = Some p \<longrightarrow> me_vlan_id (mac_addr_table t h) = 0)"

lemma ethsw_input_ok:
  assumes "ethsw_input n p buf len = Some sp" "port_ok (nio_tab n p)"
  shows "packet_ok n sp \<and> input_port sp = p \<and> pkt sp = buf \<and> pkt_len sp = len"
  using assms
  by (auto simp: ethsw_input_def packet_ok_def port_ok_def single_vlan_def Let_def split: if_splits)

lemma inv_same: "same_net n n' \<Longrightarrow> ethsw_inv t n' = ethsw_inv t n"
  by (simp add: ethsw_inv_def ports_ok_def entry_ok_def same_net_ok)

lemma learn_fields [simp]:
  "et_nio (ethsw_learn t sp) = et_nio t" "is_port (ethsw_learn t sp) = is_port t"
  "entry_ok (ethsw_learn t sp) = entry_ok t" "goes_to (ethsw_learn t sp) n sp' = goes_to t n sp'"
  by (simp_all add: ethsw_learn_def is_port_def entry_ok_def goes_to_def fun_eq_iff)

lemma learned:
  "mac_addr_table (ethsw_learn t sp) h =
     (if h = ethsw_hash_index (eth_saddr (pkt sp)) (input_vlan sp)
      then \<lparr>me_nio = Some (input_port sp), me_mac_addr = eth_saddr (pkt sp), me_vlan_id = ucast (input_vlan sp)\<rparr>
      else mac_addr_table t h)"
  by (simp add: ethsw_learn_def)

lemma learn_inv:
  assumes "ethsw_inv t n" "packet_ok n sp" "is_port t (input_port sp)"
  shows "ethsw_inv (ethsw_learn t sp) n"
proof -
  obtain v :: u16 where v: "input_vlan sp = ucast v" using assms(2) by (auto simp: packet_ok_def)
  then have "entry_ok t n \<lparr>me_nio = Some (input_port sp), me_mac_addr = eth_saddr (pkt sp), me_vlan_id = ucast (input_vlan sp)\<rparr>"
    using assms by (auto simp: entry_ok_def packet_ok_def carries_def)
  then show ?thesis using assms(1) by (simp add: ethsw_inv_def ports_ok_def learned)
qed

text \<open>The result of a forward: the table has learned, and the frame is flooded, or goes to the learned port of
  its destination, or is dropped.\<close>

lemma forward_cases:
  assumes "ethsw_forward t n sp = Some (t', n')"
  obtains (flood) "t' = ethsw_learn t sp" "ethsw_flood t' n sp = Some n'"
  | (port) d op where "t' = ethsw_learn t sp" "d = mac_addr_table t' (ethsw_hash_index (eth_daddr (pkt sp)) (input_vlan sp))"
      "me_nio d = Some op" "op \<noteq> input_port sp" "ucast (me_vlan_id d) = input_vlan sp" "input_vector n sp op = Some n'"
  | (drop) "t' = ethsw_learn t sp" "n' = n"
proof -
  let ?d = "mac_addr_table (ethsw_learn t sp) (ethsw_hash_index (eth_daddr (pkt sp)) (input_vlan sp))"
  show thesis
    using assms flood port [of ?d] drop
    by (cases "eth_addr_is_mcast (eth_daddr (pkt sp))"; cases "me_nio ?d")
      (auto simp: ethsw_forward_def Let_def split: if_splits)
qed

lemma forward_sends:
  assumes inv: "ethsw_inv t n" and ok: "packet_ok n sp" "is_port t (input_port sp)" "input_vlan sp \<noteq> 0"
    and fw: "ethsw_forward t n sp = Some (t', n')"
  shows "ethsw_inv t' n' \<and> et_nio t' = et_nio t \<and> sends_to (goes_to t n sp) n n'"
proof -
  note inv' = learn_inv [OF inv ok(1,2)]
  have *: ?thesis if "t' = ethsw_learn t sp" "sends_to (goes_to t n sp) n n'"
    using that inv' inv_same [OF sends_to_same [OF that(2)]] by simp
  from fw show ?thesis
  proof (cases rule: forward_cases)
    case flood
    with flood_sends [OF flood(2) ok(1)] show ?thesis by (intro *) simp_all
  next
    case (port d op)
    have "entry_ok t n d" using inv' port(1,2) by (simp add: ethsw_inv_def)
    moreover have "me_vlan_id d \<noteq> 0" using port(5) ok(3) by auto
    ultimately have "goes_to t n sp op" using port by (auto simp: entry_ok_def goes_to_def)
    then have "sends_to (goes_to t n sp) n n'"
      using input_vector_sends [OF port(6) ok(1)] by (auto simp: goes_to_def intro: sends_to_send)
    with port(1) show ?thesis by (rule *)
  next
    case drop
    then show ?thesis by (intro *) simp_all
  qed
qed

lemma forward_total:
  assumes inv: "ethsw_inv t n" and ok: "packet_ok n sp" "is_port t (input_port sp)" "input_vlan sp \<noteq> 0" "16 \<le> pkt_len sp"
  shows "\<exists>r. ethsw_forward t n sp = Some r"
proof -
  let ?d = "mac_addr_table (ethsw_learn t sp) (ethsw_hash_index (eth_daddr (pkt sp)) (input_vlan sp))"
  have "entry_ok t n ?d" using learn_inv [OF inv ok(1,2)] by (simp add: ethsw_inv_def)
  then have "\<exists>p. me_nio ?d = Some p" if "ucast (me_vlan_id ?d) = input_vlan sp"
    using that ok(3) by (auto simp: entry_ok_def)
  then show ?thesis
    using flood_total [OF ok(1,4), of "ethsw_learn t sp"] input_vector_total [OF ok(1,4)]
    by (auto simp: ethsw_forward_def Let_def split: option.split)
qed

section \<open>Reachable states\<close>

text \<open>
  Frames arrive on the ports, ports are added, removed and configured, the table is cleared. A port is
  configured only while no address is learned on it: the code does not flush the table itself, and
  without that a frame can leave on a port of another VLAN (\<open>stale_entry_leaks\<close>).
\<close>

inductive ethsw_step :: "ethsw_table \<times> net \<Rightarrow> ethsw_table \<times> net \<Rightarrow> bool" where
  recv: "is_port t p \<Longrightarrow> ethsw_recv_pkt locked t n p buf len = Some (t', n') \<Longrightarrow> ethsw_step (t, n) (t', n')"
| add: "(\<And>p. netio_exists n name = Some p \<Longrightarrow> unlearned t p) \<Longrightarrow> ethsw_step (t, n) (snd (ethsw_add_netio t n name))"
| remove: "ethsw_step (t, n) (snd (ethsw_remove_netio t n name))"
| clear: "ethsw_step (t, n) (snd (ethsw_clear_mac_addr_table t), n)"
| set_access: "(\<And>p. nio_name (nio_tab n p) = name \<Longrightarrow> unlearned t p) \<Longrightarrow>
    ethsw_step (t, n) (t, snd (ethsw_set_access_port t n name vlan))"
| set_dot1q: "(\<And>p. nio_name (nio_tab n p) = name \<Longrightarrow> unlearned t p) \<Longrightarrow>
    ethsw_step (t, n) (t, snd (ethsw_set_dot1q_port t n name vlan))"
| set_qinq: "(\<And>p. nio_name (nio_tab n p) = name \<Longrightarrow> unlearned t p) \<Longrightarrow>
    ethsw_step (t, n) (t, snd (ethsw_set_qinq_port t n name vlan etype))"

inductive_cases ethsw_stepE: "ethsw_step (t, n) (t', n')"

lemma find_slot_Some: "find_slot t P = Some i \<Longrightarrow> i < ETHSW_MAX_NIO \<and> P (et_nio t i)"
  by (auto simp: find_slot_def find_Some_iff)

lemma configure_inv:
  assumes "ethsw_inv t n" "unlearned t p" "port_ok (f (nio_tab n p))"
  shows "ethsw_inv t (upd_nio p f n)"
  using assms unfolding ethsw_inv_def ports_ok_def entry_ok_def unlearned_def
  by (fastforce simp: carries_def)

lemma set_port_inv:
  assumes "ethsw_inv t n" "\<And>p. nio_name (nio_tab n p) = name \<Longrightarrow> unlearned t p" "\<And>d. port_ok (f d)"
  shows "ethsw_inv t (snd (set_port f t n name))"
  using assms find_slot_Some configure_inv [of t n _ f]
  by (fastforce simp: set_port_def split: option.split)

lemma port_ok_set:
  "port_ok (set_access_port vlan d)" "port_ok (set_dot1q_port vlan d)" "port_ok (set_qinq_port vlan etype d)"
  by (simp_all add: port_ok_def set_access_port_def set_dot1q_port_def set_qinq_port_def)

lemma inv_fields:
  assumes "ethsw_inv t n" "nio_tab n' = nio_tab n" shows "ethsw_inv t n'"
  using assms by (simp add: ethsw_inv_def ports_ok_def entry_ok_def carries_def)

lemma add_inv:
  assumes inv: "ethsw_inv t n" and new: "\<And>p. netio_exists n name = Some p \<Longrightarrow> unlearned t p"
    and add: "snd (ethsw_add_netio t n name) = (t', n')"
  shows "ethsw_inv t' n'"
proof (cases "find_slot t (\<lambda>s. s = None) = None \<or> nio_reg n name = None")
  case True
  then have "t' = t \<and> nio_tab n' = nio_tab n"
    using add by (auto simp: ethsw_add_netio_def netio_acquire_def split: option.splits)
  then show ?thesis using inv_fields [OF inv] by simp
next
  case False
  then obtain i p where ip: "find_slot t (\<lambda>s. s = None) = Some i" "nio_reg n name = Some p" by auto
  then have i: "i < ETHSW_MAX_NIO" "et_nio t i = None" using find_slot_Some [OF ip(1)] by auto
  have t': "t' = t\<lparr>et_nio := (et_nio t)(i := Some p)\<rparr>"
    and n': "nio_tab n' = nio_tab (upd_nio p (set_access_port 1) n)"
    using add ip by (auto simp: ethsw_add_netio_def netio_acquire_def netio_rxl_add_def Let_def)
  let ?n = "upd_nio p (set_access_port 1) n"
  have port: "is_port t' q \<longleftrightarrow> is_port t q \<or> q = p" for q
    using i unfolding t' is_port_def by auto (metis option.distinct(1))
  have "unlearned t p" using new ip(2) by (simp add: netio_exists_def)
  then have "ethsw_inv t ?n" by (rule configure_inv [OF inv]) (rule port_ok_set)
  moreover have "port_ok (nio_tab ?n p)" by (simp add: port_ok_set)
  moreover have "mac_addr_table t' = mac_addr_table t" by (simp add: t')
  ultimately have "ethsw_inv t' ?n"
    unfolding ethsw_inv_def ports_ok_def entry_ok_def port by metis
  then show ?thesis by (rule inv_fields) (rule n')
qed

lemma remove_inv:
  assumes inv: "ethsw_inv t n" and rem: "snd (ethsw_remove_netio t n name) = (t', n')"
  shows "ethsw_inv t' n'"
proof (cases "\<exists>p i. nio_reg n name = Some p \<and> find_slot t (\<lambda>s. s = Some p) = Some i")
  case True
  then obtain p i where reg: "nio_reg n name = Some p" and i: "find_slot t (\<lambda>s. s = Some p) = Some i" by blast
  have t': "t' = (ethsw_invalidate_port t p)\<lparr>et_nio := (et_nio t)(i := None)\<rparr>" and n': "n' = ethsw_free_nio p n"
    using rem by (simp_all add: ethsw_remove_netio_def netio_exists_def reg i ethsw_invalidate_port_def Let_def)
  have "is_port t' q \<longleftrightarrow> is_port t q \<and> (\<exists>j < ETHSW_MAX_NIO. j \<noteq> i \<and> et_nio t j = Some q)" for q
    unfolding t' is_port_def by auto
  moreover have "et_nio t i = Some p" using find_slot_Some [OF i] by simp
  ultimately have port: "is_port t' q \<Longrightarrow> is_port t q" "is_port t q \<Longrightarrow> q \<noteq> p \<Longrightarrow> is_port t' q" for q
    by (auto simp: is_port_def)
  have "entry_ok t' n (mac_addr_table t' h)" for h
    using inv port(2) unfolding ethsw_inv_def entry_ok_def
    by (auto simp: t' ethsw_invalidate_port_def Let_def)
  then have "ethsw_inv t' n" using inv port(1) by (auto simp: ethsw_inv_def ports_ok_def)
  moreover have "nio_tab n' = nio_tab n"
    by (auto simp: n' ethsw_free_nio_def netio_rxl_remove_def netio_release_def Let_def split: option.split)
  ultimately show ?thesis by (rule inv_fields)
next
  case False
  then have "t' = t \<and> n' = n"
    using rem by (auto simp: ethsw_remove_netio_def netio_exists_def split: option.splits)
  then show ?thesis using inv by simp
qed

lemma recv_inv:
  assumes inv: "ethsw_inv t n" and p: "is_port t p" and r: "ethsw_receive t n p buf len = Some (r, t', n')"
  shows "ethsw_inv t' n' \<and> et_nio t' = et_nio t \<and>
    sends_to (\<lambda>q. is_port t q \<and> q \<noteq> p \<and> (\<forall>sp. ethsw_input n p buf len = Some sp \<longrightarrow> carries n (input_vlan sp) q)) n n'"
proof (cases "ethsw_input n p buf len")
  case None
  then show ?thesis using r inv by (simp add: ethsw_receive_def)
next
  case (Some sp)
  have "packet_ok n sp \<and> input_port sp = p"
    using ethsw_input_ok [OF Some] inv p by (auto simp: ethsw_inv_def ports_ok_def)
  moreover have "(\<lambda>q. is_port t q \<and> q \<noteq> p \<and> carries n (input_vlan sp) q) = goes_to t n sp" if "input_port sp = p"
    using that by (auto simp: goes_to_def)
  ultimately show ?thesis
    using Some r forward_sends [OF inv, of sp t' n'] p inv
    by (auto simp: ethsw_receive_def split: if_splits)
qed

lemma ethsw_step_inv: "ethsw_step (t, n) (t', n') \<Longrightarrow> ethsw_inv t n \<Longrightarrow> ethsw_inv t' n'"
proof (erule ethsw_stepE)
  fix p locked buf len
  assume "ethsw_inv t n" "is_port t p" "ethsw_recv_pkt locked t n p buf len = Some (t', n')"
  then show "ethsw_inv t' n'"
    using recv_inv [of t n p buf len _ t' n'] by (cases locked) (auto simp: ethsw_recv_pkt_def)
next
  fix name assume "(t', n') = snd (ethsw_add_netio t n name)" "ethsw_inv t n"
    "\<And>p. netio_exists n name = Some p \<Longrightarrow> unlearned t p"
  then show "ethsw_inv t' n'" by (metis add_inv)
next
  fix name assume "(t', n') = snd (ethsw_remove_netio t n name)" "ethsw_inv t n"
  then show "ethsw_inv t' n'" by (metis remove_inv)
next
  assume "t' = snd (ethsw_clear_mac_addr_table t)" "n' = n" "ethsw_inv t n"
  then show "ethsw_inv t' n'"
    by (auto simp: ethsw_inv_def ports_ok_def entry_ok_def is_port_def ethsw_clear_mac_addr_table_def ethsw_invalidate_def
      empty_mac_entry_def)
qed (auto simp: ethsw_set_access_port_def ethsw_set_dot1q_port_def ethsw_set_qinq_port_def port_ok_set intro: set_port_inv)

lemma ethsw_create_inv: "ethsw_inv (ethsw_create name) n"
  by (simp add: ethsw_inv_def ports_ok_def entry_ok_def is_port_def ethsw_create_def empty_mac_entry_def)

lemma ethsw_reach_inv:
  assumes "ethsw_step\<^sup>*\<^sup>* (ethsw_create name, n0) (t, n)"
  shows "ethsw_inv t n"
proof -
  have "ethsw_step\<^sup>*\<^sup>* s s' \<Longrightarrow> ethsw_inv (fst s) (snd s) \<Longrightarrow> ethsw_inv (fst s') (snd s')" for s s'
    by (induction rule: rtranclp_induct) (auto dest: ethsw_step_inv)
  from this [OF assms] show ?thesis by (simp add: ethsw_create_inv)
qed



section \<open>Learning\<close>

lemma input_vector_same: "input_vector n sp op = Some n' \<Longrightarrow> same_net n n'"
  by (auto simp: input_vector_def ethsw_iv_access_def ethsw_iv_dot1q_def ethsw_iv_qinq_def send_frame_iff Let_def
    netio_send_net split: ethsw_input_vector.splits ethsw_port_type.splits if_splits)

lemma flood_same:
  assumes "ethsw_flood t n sp = Some n'" shows "same_net n n'"
proof (rule for_each_inv [where I = "same_net n"])
  show "for_each (\<lambda>i n. case et_nio t i of None \<Rightarrow> Some n
        | Some op \<Rightarrow>
            if op = input_port sp then Some n
            else if vlan_port_type (nio_tab n op) = ETHSW_PORT_TYPE_ACCESS \<and>
                    ucast (vlan_id (nio_tab n op)) \<noteq> input_vlan sp then Some n
            else input_vector n sp op) [0..<ETHSW_MAX_NIO] n = Some n'"
    using assms by (simp add: ethsw_flood_def split: if_splits)
qed (auto split: option.splits if_splits dest: input_vector_same intro: same_net_trans)

lemma forward_same: "ethsw_forward t n sp = Some (t', n') \<Longrightarrow> t' = ethsw_learn t sp \<and> same_net n n'"
  by (erule forward_cases) (auto dest: flood_same input_vector_same)

lemma receive_forward:
  "ethsw_input n p buf len = Some sp \<Longrightarrow> input_vlan sp \<noteq> 0 \<Longrightarrow>
     ethsw_receive t n p buf len = map_option (Pair 0) (ethsw_forward t n sp)"
  by (simp add: ethsw_receive_def)

text \<open>Between ports that are not tunnels exactly one frame is sent, between access ports the frame itself.\<close>

lemma input_vector_plain:
  assumes "packet_ok n sp" "16 \<le> pkt_len sp" "unfiltered n op"
    and "vlan_port_type (nio_tab n (input_port sp)) \<noteq> ETHSW_PORT_TYPE_QINQ"
    and "vlan_port_type (nio_tab n op) = ETHSW_PORT_TYPE_ACCESS \<or> vlan_port_type (nio_tab n op) = ETHSW_PORT_TYPE_DOT1Q"
  shows "\<exists>n' m. input_vector n sp op = Some n' \<and> sent n' = sent n @ [(op, m)] \<and>
    (vlan_port_type (nio_tab n (input_port sp)) = ETHSW_PORT_TYPE_ACCESS \<and>
     vlan_port_type (nio_tab n op) = ETHSW_PORT_TYPE_ACCESS \<longrightarrow> m = frame sp)"
  using assms
  by (auto simp: input_vector_def packet_ok_def port_ok_def ethsw_iv_access_def ethsw_iv_dot1q_def send_frame_def
    dot1q_pop_tag_def netio_send_unfiltered)

text \<open>A unicast frame to an address whose entry is fresh goes to the port of the entry, whatever VLAN that
  port is in by now.\<close>

lemma unicast_to_entry:
  assumes inp: "ethsw_input n q buf len = Some sp" "port_ok (nio_tab n q)" "q \<noteq> p" "16 \<le> len" "input_vlan sp \<noteq> 0"
    and entry: "mac_addr_table t (ethsw_hash_index (eth_daddr buf) (input_vlan sp)) =
        \<lparr>me_nio = Some p, me_mac_addr = eth_daddr buf, me_vlan_id = ucast (input_vlan sp)\<rparr>"
    and uni: "\<not> eth_addr_is_mcast (eth_daddr buf)"
      "ethsw_hash_index (eth_saddr buf) (input_vlan sp) \<noteq> ethsw_hash_index (eth_daddr buf) (input_vlan sp)"
    and plain: "port_ok (nio_tab n p)" "vlan_port_type (nio_tab n p) \<noteq> ETHSW_PORT_TYPE_QINQ"
      "vlan_port_type (nio_tab n q) \<noteq> ETHSW_PORT_TYPE_QINQ" "unfiltered n p"
  shows "\<exists>t' n' m. ethsw_receive t n q buf len = Some (0, t', n') \<and> sent n' = sent n @ [(p, m)] \<and>
    (vlan_port_type (nio_tab n p) = ETHSW_PORT_TYPE_ACCESS \<and> vlan_port_type (nio_tab n q) = ETHSW_PORT_TYPE_ACCESS \<longrightarrow>
       m = take len buf)"
proof -
  have ok: "packet_ok n sp" "input_port sp = q" "pkt sp = buf" "pkt_len sp = len"
    using ethsw_input_ok [OF inp(1,2)] by auto
  obtain v :: u16 where v: "input_vlan sp = ucast v" using ok(1) by (auto simp: packet_ok_def)
  have "ethsw_forward t n sp = map_option (Pair (ethsw_learn t sp)) (input_vector n sp p)"
    using uni inp(3) entry by (simp add: ethsw_forward_def learned ok v Let_def)
  moreover have "vlan_port_type (nio_tab n p) = ETHSW_PORT_TYPE_ACCESS \<or> vlan_port_type (nio_tab n p) = ETHSW_PORT_TYPE_DOT1Q"
    using plain(1,2) by (auto simp: port_ok_def)
  with input_vector_plain [OF ok(1) _ plain(4)] ok inp(4) plain(3) obtain n' m where
    "input_vector n sp p = Some n'" "sent n' = sent n @ [(p, m)]"
    "vlan_port_type (nio_tab n q) = ETHSW_PORT_TYPE_ACCESS \<and> vlan_port_type (nio_tab n p) = ETHSW_PORT_TYPE_ACCESS \<longrightarrow> m = frame sp"
    by auto
  ultimately show ?thesis using inp(5) by (auto simp: receive_forward [OF inp(1)] frame_def ok)
qed

text \<open>What a frame leaves behind: the entry of its source address.\<close>

lemma receive_learns:
  assumes "ethsw_input n p buf len = Some sp" "port_ok (nio_tab n p)" "input_vlan sp \<noteq> 0"
    and "ethsw_receive t n p buf len = Some (r, t', n')"
  shows "same_net n n' \<and> mac_addr_table t' (ethsw_hash_index (eth_saddr buf) (input_vlan sp)) =
     \<lparr>me_nio = Some p, me_mac_addr = eth_saddr buf, me_vlan_id = ucast (input_vlan sp)\<rparr>"
  using assms(4) ethsw_input_ok [OF assms(1,2)]
  by (auto simp: receive_forward [OF assms(1,3)] learned dest!: forward_same)

text \<open>learning: after a frame from the address a on port p in a VLAN, the next frame of that VLAN to a on
  another port goes out on p, once, and on no other port (unless its own source address falls into the
  bucket of a); between access ports it is unchanged.\<close>

theorem learned_address_unicast:
  assumes in1: "ethsw_input n p buf1 len1 = Some sp1" "port_ok (nio_tab n p)" "input_vlan sp1 \<noteq> 0"
    and r1: "ethsw_receive t n p buf1 len1 = Some (r1, t1, n1)"
    and in2: "ethsw_input n1 q buf2 len2 = Some sp2" "port_ok (nio_tab n1 q)" "q \<noteq> p" "16 \<le> len2"
    and a: "eth_daddr buf2 = eth_saddr buf1" "\<not> eth_addr_is_mcast (eth_daddr buf2)" "input_vlan sp2 = input_vlan sp1"
    and bucket: "ethsw_hash_index (eth_saddr buf2) (input_vlan sp1) \<noteq> ethsw_hash_index (eth_saddr buf1) (input_vlan sp1)"
    and plain: "vlan_port_type (nio_tab n1 p) \<noteq> ETHSW_PORT_TYPE_QINQ" "vlan_port_type (nio_tab n1 q) \<noteq> ETHSW_PORT_TYPE_QINQ"
      "unfiltered n1 p"
  shows "\<exists>t2 n2 m. ethsw_receive t1 n1 q buf2 len2 = Some (0, t2, n2) \<and> sent n2 = sent n1 @ [(p, m)] \<and>
    (vlan_port_type (nio_tab n1 p) = ETHSW_PORT_TYPE_ACCESS \<and> vlan_port_type (nio_tab n1 q) = ETHSW_PORT_TYPE_ACCESS \<longrightarrow>
       m = take len2 buf2)"
proof -
  note l = receive_learns [OF in1 r1]
  have "port_ok (nio_tab n1 p)" using l in1(2) same_net_ok by blast
  then show ?thesis
    using l a bucket in1(3) by (intro unicast_to_entry [OF in2] plain) simp_all
qed

text \<open>A port that is configured after an address was learned on it keeps receiving the frames of its old
  VLAN: the command does not flush the table.\<close>

lemma stale_entry_leaks:
  assumes in1: "ethsw_input n p buf1 len1 = Some sp1" "port_ok (nio_tab n p)" "input_vlan sp1 \<noteq> 0"
    and r1: "ethsw_receive t n p buf1 len1 = Some (r1, t1, n1)"
    and n2: "n2 = upd_nio p (set_access_port w) n1"
    and in2: "ethsw_input n2 q buf2 len2 = Some sp2" "port_ok (nio_tab n2 q)" "q \<noteq> p" "16 \<le> len2"
    and a: "eth_daddr buf2 = eth_saddr buf1" "\<not> eth_addr_is_mcast (eth_daddr buf2)" "input_vlan sp2 = input_vlan sp1"
    and bucket: "ethsw_hash_index (eth_saddr buf2) (input_vlan sp1) \<noteq> ethsw_hash_index (eth_saddr buf1) (input_vlan sp1)"
    and plain: "vlan_port_type (nio_tab n2 q) \<noteq> ETHSW_PORT_TYPE_QINQ" "unfiltered n2 p"
  shows "\<exists>t' n' m. ethsw_receive t1 n2 q buf2 len2 = Some (0, t', n') \<and> sent n' = sent n2 @ [(p, m)] \<and>
    vlan_port_type (nio_tab n2 p) = ETHSW_PORT_TYPE_ACCESS \<and> vlan_id (nio_tab n2 p) = ucast w"
proof -
  have p: "vlan_port_type (nio_tab n2 p) = ETHSW_PORT_TYPE_ACCESS" "vlan_id (nio_tab n2 p) = ucast w"
    by (simp_all add: n2 set_access_port_def)
  have "port_ok (nio_tab n2 p)" by (simp add: n2 port_ok_set)
  then have "\<exists>t' n' m. ethsw_receive t1 n2 q buf2 len2 = Some (0, t', n') \<and> sent n' = sent n2 @ [(p, m)] \<and>
    (vlan_port_type (nio_tab n2 p) = ETHSW_PORT_TYPE_ACCESS \<and> vlan_port_type (nio_tab n2 q) = ETHSW_PORT_TYPE_ACCESS \<longrightarrow>
       m = take len2 buf2)"
    using receive_learns [OF in1 r1] a bucket in1(3) p
    by (intro unicast_to_entry [OF in2] plain) simp_all
  with p show ?thesis by blast
qed

section \<open>Faults\<close>

lemma for_each_step:
  assumes "for_each f is s = Some s'" "i \<in> set is" "I s" "\<And>i s s'. I s \<Longrightarrow> f i s = Some s' \<Longrightarrow> I s'"
  shows "\<exists>s1 s2. I s1 \<and> f i s1 = Some s2"
  using assms
proof (induction "is" arbitrary: s)
  case (Cons j "is")
  then obtain s1 where "f j s = Some s1" "for_each f is s1 = Some s'" by (auto split: option.splits)
  with Cons show ?case by (metis set_ConsD)
qed simp

text \<open>A tagged frame of 14 or 15 bytes passes the length check, and popping its tag copies a negative length:
  any such broadcast on a trunk with an access port in its VLAN is a host fault.\<close>

lemma short_tagged_frame_faults:
  assumes "ethsw_input n p buf len = Some sp" "port_ok (nio_tab n p)" "input_tag sp" "len < 16" "input_vlan sp \<noteq> 0"
    and "eth_addr_is_mcast (eth_daddr buf)"
    and "is_port t q" "q \<noteq> p" "vlan_port_type (nio_tab n q) = ETHSW_PORT_TYPE_ACCESS" "ucast (vlan_id (nio_tab n q)) = input_vlan sp"
  shows "ethsw_receive t n p buf len = None"
proof (rule ccontr)
  have ok: "input_port sp = p" "pkt sp = buf" "pkt_len sp = len" using ethsw_input_ok [OF assms(1,2)] by auto
  have type: "vlan_port_type (nio_tab n p) = ETHSW_PORT_TYPE_DOT1Q"
    using assms(1,3) by (auto simp: ethsw_input_def Let_def split: if_splits ethsw_port_type.splits)
  obtain i where i: "i \<in> set [0..<ETHSW_MAX_NIO]" "et_nio t i = Some q" using assms(7) by (auto simp: is_port_def)
  assume "ethsw_receive t n p buf len \<noteq> None"
  then obtain n' where "ethsw_flood (ethsw_learn t sp) n sp = Some n'"
    using assms(6) by (auto simp: receive_forward [OF assms(1,5)] ethsw_forward_def Let_def ok)
  then have fe: "for_each (\<lambda>i n. case et_nio t i of None \<Rightarrow> Some n
        | Some op \<Rightarrow>
            if op = input_port sp then Some n
            else if vlan_port_type (nio_tab n op) = ETHSW_PORT_TYPE_ACCESS \<and>
                    ucast (vlan_id (nio_tab n op)) \<noteq> input_vlan sp then Some n
            else input_vector n sp op) [0..<ETHSW_MAX_NIO] n = Some n'"
    by (simp add: ethsw_flood_def split: if_splits)
  obtain s1 s2 where s1: "same_net n s1" "input_vector s1 sp q = Some s2"
    using for_each_step [OF fe i(1), of "same_net n"] i(2) assms(8-10) ok(1)
    by (force simp: same_net_desc dest: input_vector_same intro: same_net_trans split: option.splits if_splits)
  have "vlan_input_vector (nio_tab s1 p) = IV_DOT1Q"
    using assms(2) type by (simp add: same_net_desc [OF s1(1)] port_ok_def)
  then show False
    using s1(2) assms(3,4,9) by (simp add: input_vector_def ok ethsw_iv_dot1q_def same_net_desc [OF s1(1)] send_frame_def
      dot1q_pop_tag_def)
qed

text \<open>Saving the configuration faults as long as a slot is free.\<close>

lemma save_config_needs_full_switch:
  "ethsw_save_config t n \<noteq> None \<longleftrightarrow> (\<forall>i < ETHSW_MAX_NIO. et_nio t i \<noteq> None)"
proof
  show "ethsw_save_config t n \<noteq> None \<Longrightarrow> \<forall>i < ETHSW_MAX_NIO. et_nio t i \<noteq> None"
  proof (rule ccontr)
    assume "ethsw_save_config t n \<noteq> None" "\<not> (\<forall>i < ETHSW_MAX_NIO. et_nio t i \<noteq> None)"
    then obtain out i where o: "ethsw_save_config t n = Some out" "i \<in> set [0..<ETHSW_MAX_NIO]" "et_nio t i = None" by auto
    then show False
      using for_each_step [OF o(1) [unfolded ethsw_save_config_def] o(2), of "\<lambda>_. True"] by simp
  qed
  show "\<forall>i < ETHSW_MAX_NIO. et_nio t i \<noteq> None \<Longrightarrow> ethsw_save_config t n \<noteq> None"
    unfolding ethsw_save_config_def
    by (subst not_None_eq, rule for_each_total [where I = "\<lambda>_. True"]) (auto simp: Let_def split: option.split)
qed

section \<open>Two switches and a trunk\<close>

lemma vlan_12_bits: "unat (v :: u16) < 4096 \<Longrightarrow> v AND 0xFFF = v"
proof -
  assume "unat v < 4096"
  then have "take_bit 12 v = v" by (intro take_bit_self_of_less) simp
  moreover have "(0xFFF :: u16) = mask 12" by (simp add: mask_eq_exp_minus_1)
  ultimately show ?thesis by (simp only: take_bit_eq_mask)
qed

text \<open>A frame with a tag pushed, as the other end of a trunk reads it; popping the tag gives the frame back.\<close>

lemma pushed_frame:
  assumes "N_ETH_HLEN \<le> pkt_len sp" "pkt_len sp \<le> length (pkt sp)" "input_vlan sp = ucast (v :: u16)" "unat v < 4096"
    and "dot1q_ethertype etype" "vlan_port_type (nio_tab n k) = ETHSW_PORT_TYPE_DOT1Q"
    and fdef: "f = dot1q_push_tag sp x etype"
  shows "length f = pkt_len sp + 4"
    and "ethsw_input n k (f @ slack) (length f) =
           Some \<lparr>pkt = f @ slack, pkt_len = length f, input_port = k, input_vlan = ucast v, input_tag = True\<rparr>"
    and "dot1q_pop_tag \<lparr>pkt = f @ slack, pkt_len = length f, input_port = k, input_vlan = w, input_tag = b\<rparr> = Some (frame sp)"
proof -
  have len: "12 \<le> length (pkt sp)" using assms(1,2) by (simp add: N_ETH_HLEN_def)
  have f: "f = take 12 (pkt sp) @ [ucast (drop_bit 8 etype), ucast etype, ucast (drop_bit 8 v), ucast v] @ drop 12 (frame sp)"
    using assms(3) by (simp add: fdef dot1q_push_tag_def m_hton16_def)
  have l12: "length (take 12 (pkt sp)) = 12" using len by simp
  show lf: "length f = pkt_len sp + 4" using assms(1,2) by (simp add: f frame_def N_ETH_HLEN_def)
  have "f @ slack = take 12 (pkt sp) @ [ucast (drop_bit 8 etype), ucast etype, ucast (drop_bit 8 v), ucast v] @ drop 12 (frame sp) @ slack"
    by (simp add: f)
  then have "eth_type (f @ slack) = etype" "dot1q_vlan (f @ slack) = v"
    using l12 by (simp_all add: eth_type_def dot1q_vlan_def nth_append)
  then show "ethsw_input n k (f @ slack) (length f) =
      Some \<lparr>pkt = f @ slack, pkt_len = length f, input_port = k, input_vlan = ucast v, input_tag = True\<rparr>"
    using assms(1,4-6) lf by (simp add: ethsw_input_def Let_def vlan_12_bits N_ETH_HLEN_def)
  have "take 12 f = take 12 (frame sp)" "drop 16 f = drop 12 (frame sp)"
    using l12 assms(1) by (simp_all add: f frame_def N_ETH_HLEN_def)
  then have "take 12 f @ drop 16 f = frame sp" by (metis append_take_drop_id)
  then show "dot1q_pop_tag \<lparr>pkt = f @ slack, pkt_len = length f, input_port = k, input_vlan = w, input_tag = b\<rparr> = Some (frame sp)"
    using lf assms(1) by (simp add: dot1q_pop_tag_def frame_def N_ETH_HLEN_def)
qed


section \<open>Examples\<close>

text \<open>A net with descriptors \<open>p0\<close>, \<open>p1\<close>, ... and a switch built by the commands.\<close>

definition nio_names :: "string list" where
  "nio_names = [''p0'', ''p1'', ''p2'']"

definition sample_net :: net where
  "sample_net = \<lparr>nio_tab = (\<lambda>p. netio_create (nio_names ! p)),
     nio_reg = (\<lambda>s. if s = ''p0'' then Some 0 else if s = ''p1'' then Some 1 else if s = ''p2'' then Some 2 else None),
     nio_refs = (\<lambda>_. 1), rxl_refs = (\<lambda>_. 0), tx_result = (\<lambda>_ f. int (length f)), sent = []\<rparr>"

definition sw0 :: "ethsw_table \<times> net" where "sw0 = (ethsw_create ''sw'', sample_net)"
definition sw1 :: "ethsw_table \<times> net" where "sw1 = snd (ethsw_add_netio (fst sw0) (snd sw0) ''p0'')"
definition sw2 :: "ethsw_table \<times> net" where "sw2 = snd (ethsw_add_netio (fst sw1) (snd sw1) ''p1'')"

lemma find_slot_0: "P (et_nio t 0) \<Longrightarrow> find_slot t P = Some 0"
  by (simp add: find_slot_def ETHSW_MAX_NIO_def upt_conv_Cons)

lemma find_slot_1: "\<not> P (et_nio t 0) \<Longrightarrow> P (et_nio t 1) \<Longrightarrow> find_slot t P = Some 1"
  by (simp add: find_slot_def ETHSW_MAX_NIO_def upt_conv_Cons)

lemma ethsw_add_netio_at:
  "find_slot t (\<lambda>s. s = None) = Some i \<Longrightarrow> nio_reg n name = Some p \<Longrightarrow>
     snd (ethsw_add_netio t n name) = (t\<lparr>et_nio := (et_nio t)(i := Some p)\<rparr>,
       netio_rxl_add p (upd_nio p (set_access_port 1) (n\<lparr>nio_refs := (nio_refs n)(p := nio_refs n p + 1)\<rparr>)))"
  by (simp add: ethsw_add_netio_def netio_acquire_def Let_def)

lemma sw1_fields:
  "et_nio (fst sw1) = (\<lambda>_. None)(0 := Some 0)" "mac_addr_table (fst sw1) = (\<lambda>_. empty_mac_entry)"
  "nio_tab (snd sw1) = (nio_tab sample_net)(0 := set_access_port 1 (nio_tab sample_net 0))" "nio_reg (snd sw1) = nio_reg sample_net"
  "sent (snd sw1) = []"
  by (simp_all add: sw1_def sw0_def ethsw_create_def sample_net_def netio_rxl_add_def
      ethsw_add_netio_at [OF find_slot_0, where p = 0])

lemma sw2_fields:
  "et_nio (fst sw2) = (\<lambda>_. None)(0 := Some 0, 1 := Some 1)" "mac_addr_table (fst sw2) = (\<lambda>_. empty_mac_entry)"
  "nio_tab (snd sw2) = (nio_tab sample_net)(0 := set_access_port 1 (nio_tab sample_net 0), 1 := set_access_port 1 (nio_tab sample_net 1))"
  "sent (snd sw2) = []"
  by (simp_all add: sw2_def sw1_fields netio_rxl_add_def ethsw_add_netio_at [OF find_slot_1, where p = 1] sample_net_def)

lemma sw2_reach: "ethsw_step\<^sup>*\<^sup>* (ethsw_create ''sw'', sample_net) sw2"
proof -
  have "ethsw_step sw0 sw1"
    unfolding sw1_def sw0_def fst_conv snd_conv
    by (rule ethsw_step.add) (auto simp: unlearned_def ethsw_create_def empty_mac_entry_def)
  moreover have "ethsw_step sw1 sw2"
    using ethsw_step.add [of "snd sw1" "''p1''" "fst sw1"]
    by (simp add: sw2_def) (simp add: sw1_fields unlearned_def empty_mac_entry_def)
  ultimately show ?thesis unfolding sw0_def by simp
qed

definition bcast :: "u8 list" where
  "bcast = replicate 6 0xFF @ [2, 0, 0, 0, 0, 1] @ [8, 6] @ [1, 2, 3, 4]"

lemma sw2_port: "is_port (fst sw2) 0"
  unfolding is_port_def by (rule exI [of _ 0]) (simp add: sw2_fields ETHSW_MAX_NIO_def)




definition reply :: "u8 list" where
  "reply = [2, 0, 0, 0, 0, 1] @ [2, 0, 0, 0, 0, 2] @ [8, 0] @ [5, 6, 7, 8]"

lemma sw2_port_ok: "port_ok (nio_tab (snd sw2) 0)" "port_ok (nio_tab (snd sw2) 1)"
  by (simp_all add: sw2_fields port_ok_set)

theorem learned_address_unicast_witness:
  "\<exists>r1 t1 n1 t2 n2. ethsw_receive (fst sw2) (snd sw2) 0 bcast 18 = Some (r1, t1, n1) \<and>
     ethsw_receive t1 n1 1 reply 18 = Some (0, t2, n2) \<and> sent n2 = sent n1 @ [(0, reply)]"
proof -
  let ?sp = "\<lambda>p buf. \<lparr>pkt = buf, pkt_len = 18, input_port = p, input_vlan = 1, input_tag = False\<rparr>"
  have in1: "ethsw_input (snd sw2) 0 bcast 18 = Some (?sp 0 bcast)"
    by (simp add: sw2_fields ethsw_input_def N_ETH_HLEN_def set_access_port_def)
  obtain r1 t1 n1 where r1: "ethsw_receive (fst sw2) (snd sw2) 0 bcast 18 = Some (r1, t1, n1)"
    using forward_total [OF ethsw_reach_inv, of "''sw''" sample_net "fst sw2" "snd sw2" "?sp 0 bcast"] sw2_reach sw2_port
      ethsw_input_ok [OF in1 sw2_port_ok(1)] by (auto simp: receive_forward [OF in1])
  have same: "same_net (snd sw2) n1" using receive_learns [OF in1 sw2_port_ok(1) _ r1] by simp
  note d = same_net_desc [OF same]
  have in2: "ethsw_input n1 1 reply 18 = Some (?sp 1 reply)"
    by (simp add: ethsw_input_def N_ETH_HLEN_def d sw2_fields set_access_port_def del: One_nat_def)
  have ok: "port_ok (nio_tab n1 1)" using sw2_port_ok(2) by (simp add: same_net_ok [OF same])
  have acc: "vlan_port_type (nio_tab n1 p) = ETHSW_PORT_TYPE_ACCESS" if "p = 0 \<or> p = 1" for p
    using that by (auto simp: d sw2_fields set_access_port_def)
  have unf: "unfiltered n1 0"
    using same by (simp add: unfiltered_def same_net_def same_config_def sw2_fields set_access_port_def sample_net_def netio_create_def)
  have "\<exists>t2 n2 m. ethsw_receive t1 n1 1 reply 18 = Some (0, t2, n2) \<and> sent n2 = sent n1 @ [(0, m)] \<and>
    (vlan_port_type (nio_tab n1 0) = ETHSW_PORT_TYPE_ACCESS \<and> vlan_port_type (nio_tab n1 1) = ETHSW_PORT_TYPE_ACCESS \<longrightarrow>
       m = take 18 reply)"
    by (rule learned_address_unicast [OF in1 sw2_port_ok(1) _ r1 in2 ok])
      (simp_all add: acc unf bcast_def reply_def eth_daddr_def eth_saddr_def eth_addr_is_mcast_def ethsw_hash_index_def
        ETHSW_HASH_SIZE_def Let_def)
  with r1 acc show ?thesis by (fastforce simp: reply_def)
qed

definition trunk_net :: net where
  "trunk_net = sample_net\<lparr>nio_tab := (nio_tab sample_net)(0 := set_access_port 10 (netio_create ''p0''),
     1 := set_dot1q_port 1 (netio_create ''p1''))\<rparr>"


end
