(* ===== verification/ConnTable.thy ===== *)
theory ConnTable
  imports NetIo
begin

text \<open>
  The hash tables of connections that the Frame Relay and ATM switches keep: arrays of singly linked
  chains, searched for a key, extended at the head, and unlinked at the first element that matches. The
  interface \<open>conn_table\<close> states what the switches rely on; under it any sequence of create and delete
  commands acts on the lookup function as on a map.
\<close>

section \<open>Chains\<close>

fun unlink_first :: "('v \<Rightarrow> bool) \<Rightarrow> 'v list \<Rightarrow> 'v list" where
  "unlink_first P [] = []"
| "unlink_first P (v # vs) = (if P v then vs else v # unlink_first P vs)"

fun update_first :: "('v \<Rightarrow> bool) \<Rightarrow> ('v \<Rightarrow> 'v) \<Rightarrow> 'v list \<Rightarrow> 'v list" where
  "update_first P f [] = []"
| "update_first P f (v # vs) = (if P v then f v # vs else v # update_first P f vs)"

lemma set_unlink_first: "set (unlink_first P vs) \<subseteq> set vs"
  by (induction vs) auto

lemma map_unlink_first_distinct: "distinct (map g vs) \<Longrightarrow> distinct (map g (unlink_first P vs))"
  using set_unlink_first [of P] by (induction vs) fastforce+

lemma unlink_first_none: "(\<And>v. v \<in> set vs \<Longrightarrow> \<not> P v) \<Longrightarrow> unlink_first P vs = vs"
  by (induction vs) auto

lemma map_update_first:
  "(\<And>v. P v \<Longrightarrow> g (f v) = g v) \<Longrightarrow> map g (update_first P f vs) = map g vs"
  by (induction vs) auto

lemma find_key_unlink:
  assumes "distinct (map key vs)" "\<And>v. P v \<Longrightarrow> key v = k0"
  shows "find (\<lambda>v. key v = k) (unlink_first P vs) =
    (case find (\<lambda>v. key v = k) vs of Some v \<Rightarrow> if P v then None else Some v | None \<Rightarrow> None)"
  using assms
proof (induction vs)
  case (Cons v vs)
  show ?case
  proof (cases "P v")
    case True
    have "\<not> P v' \<and> key v' \<noteq> key v" if "v' \<in> set vs" for v'
      using Cons.prems(1) Cons.prems(2) [OF True] Cons.prems(2) [of v'] that by (metis distinct.simps(2) image_eqI list.set_map list.simps(9))
    then show ?thesis using True
      by (auto simp: find_None_iff find_Some_iff split: option.split)
  next
    case False
    with Cons show ?thesis by (simp split: option.split)
  qed
qed simp

lemma find_key_update:
  assumes "\<And>v. key (f v) = key v"
  shows "find (\<lambda>v. key v = k) (update_first (\<lambda>v. key v = k0) f vs) =
    (if k = k0 then map_option f (find (\<lambda>v. key v = k) vs) else find (\<lambda>v. key v = k) vs)"
  using assms by (induction vs) auto

section \<open>Tables of chains\<close>

type_synonym 'v chains = "nat \<Rightarrow> 'v list"

definition chains_lookup :: "('k \<Rightarrow> nat) \<Rightarrow> ('v \<Rightarrow> 'k) \<Rightarrow> 'v chains \<Rightarrow> 'k \<Rightarrow> 'v option" where
  "chains_lookup hash key t k = find (\<lambda>v. key v = k) (t (hash k))"

definition chains_add :: "('k \<Rightarrow> nat) \<Rightarrow> ('v \<Rightarrow> 'k) \<Rightarrow> 'v \<Rightarrow> 'v chains \<Rightarrow> 'v chains" where
  "chains_add hash key v t = t(hash (key v) := v # t (hash (key v)))"

definition chains_del :: "('k \<Rightarrow> nat) \<Rightarrow> ('v \<Rightarrow> 'k) \<Rightarrow> ('v \<Rightarrow> 'v \<Rightarrow> bool) \<Rightarrow> 'v \<Rightarrow> 'v chains \<Rightarrow> 'v chains" where
  "chains_del hash key same v t = t(hash (key v) := unlink_first (same v) (t (hash (key v))))"

definition chains_update :: "('k \<Rightarrow> nat) \<Rightarrow> ('v \<Rightarrow> 'k) \<Rightarrow> 'k \<Rightarrow> ('v \<Rightarrow> 'v) \<Rightarrow> 'v chains \<Rightarrow> 'v chains" where
  "chains_update hash key k f t = t(hash k := update_first (\<lambda>v. key v = k) f (t (hash k)))"

text \<open>Every connection is in the chain of its key, and no key occurs twice.\<close>

definition chains_ok :: "('k \<Rightarrow> nat) \<Rightarrow> ('v \<Rightarrow> 'k) \<Rightarrow> 'v chains \<Rightarrow> bool" where
  "chains_ok hash key t \<longleftrightarrow> (\<forall>h. (\<forall>v\<in>set (t h). hash (key v) = h) \<and> distinct (map key (t h)))"

lemma chains_lookup_key: "chains_lookup hash key t k = Some v \<Longrightarrow> key v = k"
  by (auto simp: chains_lookup_def find_Some_iff)

lemma chains_lookup_empty: "chains_lookup hash key (\<lambda>_. []) = (\<lambda>_. None)" "chains_ok hash key (\<lambda>_. [])"
  by (simp_all add: chains_lookup_def chains_ok_def fun_eq_iff)

lemma chains_lookup_add:
  "chains_lookup hash key (chains_add hash key v t) = (chains_lookup hash key t)(key v \<mapsto> v)"
proof
  show "chains_lookup hash key (chains_add hash key v t) k = ((chains_lookup hash key t)(key v \<mapsto> v)) k" for k
    by (cases "k = key v") (simp_all add: chains_lookup_def chains_add_def)
qed

lemma chains_ok_add:
  "chains_ok hash key t \<Longrightarrow> chains_lookup hash key t (key v) = None \<Longrightarrow> chains_ok hash key (chains_add hash key v t)"
  unfolding chains_ok_def
proof (intro allI)
  fix h
  assume ok: "\<forall>h. (\<forall>v\<in>set (t h). hash (key v) = h) \<and> distinct (map key (t h))"
    and new: "chains_lookup hash key t (key v) = None"
  have "key v \<notin> key ` set (t (hash (key v)))" using new by (auto simp: chains_lookup_def find_None_iff)
  with ok show "(\<forall>v'\<in>set (chains_add hash key v t h). hash (key v') = h) \<and> distinct (map key (chains_add hash key v t h))"
    by (cases "h = hash (key v)") (simp_all add: chains_add_def)
qed

lemma chains_lookup_del:
  assumes "chains_ok hash key t" "\<And>v'. same v v' \<Longrightarrow> key v' = key v"
  shows "chains_lookup hash key (chains_del hash key same v t) =
    (case chains_lookup hash key t (key v) of
       Some v' \<Rightarrow> if same v v' then (chains_lookup hash key t)(key v := None) else chains_lookup hash key t
     | None \<Rightarrow> chains_lookup hash key t)"
proof
  fix k
  have d: "distinct (map key (t (hash (key v))))" using assms(1) by (simp add: chains_ok_def)
  have s: "\<not> same v v'" if "find (\<lambda>u. key u = k) vs = Some v'" "k \<noteq> key v" for v' vs
    using that assms(2) by (auto simp: find_Some_iff)
  have f: "find (\<lambda>u. key u = k) (unlink_first (same v) (t (hash (key v)))) =
      (case find (\<lambda>u. key u = k) (t (hash (key v))) of Some v' \<Rightarrow> if same v v' then None else Some v' | None \<Rightarrow> None)"
    by (rule find_key_unlink [OF d assms(2)])
  show "chains_lookup hash key (chains_del hash key same v t) k =
    (case chains_lookup hash key t (key v) of
       Some v' \<Rightarrow> if same v v' then (chains_lookup hash key t)(key v := None) else chains_lookup hash key t
     | None \<Rightarrow> chains_lookup hash key t) k"
  proof (cases "hash k = hash (key v)")
    case False
    then have "k \<noteq> key v" by auto
    with False show ?thesis by (simp add: chains_lookup_def chains_del_def split: option.split)
  next
    case True
    then have l: "chains_lookup hash key (chains_del hash key same v t) k =
        (case chains_lookup hash key t k of Some v' \<Rightarrow> if same v v' then None else Some v' | None \<Rightarrow> None)"
      by (simp add: chains_lookup_def chains_del_def f)
    show ?thesis
    proof (cases "k = key v")
      case True
      then show ?thesis unfolding l by (simp split: option.split)
    next
      case False
      have "\<not> same v v'" if "chains_lookup hash key t k = Some v'" for v'
        using s False that by (simp add: chains_lookup_def)
      with False show ?thesis unfolding l by (simp split: option.split)
    qed
  qed
qed

lemma chains_ok_del: "chains_ok hash key t \<Longrightarrow> chains_ok hash key (chains_del hash key same v t)"
  using set_unlink_first [of "same v"] map_unlink_first_distinct [of key]
  by (fastforce simp: chains_ok_def chains_del_def)

lemma chains_lookup_update:
  assumes "\<And>v. key (f v) = key v"
  shows "chains_lookup hash key (chains_update hash key k f t) =
    (chains_lookup hash key t)(k := map_option f (chains_lookup hash key t k))"
  using find_key_update [of key f, OF assms] by (auto simp: chains_lookup_def chains_update_def fun_eq_iff)

lemma chains_ok_update:
  assumes "\<And>v. key (f v) = key v" "chains_ok hash key t"
  shows "chains_ok hash key (chains_update hash key k f t)"
proof -
  have m: "map key (update_first P f vs) = map key vs" for P vs
    by (rule map_update_first) (rule assms(1))
  have "key ` set (update_first P f vs) = key ` set vs" for P vs
    using m [of P vs] by (metis list.set_map)
  then have "(\<forall>v\<in>set (update_first P f vs). hash (key v) = h) \<longleftrightarrow> (\<forall>v\<in>set vs. hash (key v) = h)" for P vs h
    by (metis (no_types, lifting) image_iff)
  with m assms(2) show ?thesis by (simp add: chains_ok_def chains_update_def)
qed

section \<open>The interface\<close>

datatype 'v conn_op = Create 'v | Delete 'v

locale conn_table =
  fixes lookup :: "'t \<Rightarrow> 'k \<Rightarrow> 'v option"
    and add :: "'v \<Rightarrow> 't \<Rightarrow> 't"
    and del :: "'v \<Rightarrow> 't \<Rightarrow> 't"
    and key :: "'v \<Rightarrow> 'k"
    and same :: "'v \<Rightarrow> 'v \<Rightarrow> bool"
    and invar :: "'t \<Rightarrow> bool"
  assumes lookup_add: "invar t \<Longrightarrow> lookup t (key v) = None \<Longrightarrow> lookup (add v t) = (lookup t)(key v \<mapsto> v)"
    and invar_add: "invar t \<Longrightarrow> lookup t (key v) = None \<Longrightarrow> invar (add v t)"
    and lookup_del: "invar t \<Longrightarrow> lookup (del v t) =
          (case lookup t (key v) of
             Some v' \<Rightarrow> if same v v' then (lookup t)(key v := None) else lookup t
           | None \<Rightarrow> lookup t)"
    and invar_del: "invar t \<Longrightarrow> invar (del v t)"
begin

definition run_op :: "'v conn_op \<Rightarrow> 't \<Rightarrow> 't" where
  "run_op c t = (case c of
     Create v \<Rightarrow> if lookup t (key v) = None then add v t else t
   | Delete v \<Rightarrow> del v t)"

definition map_op :: "'v conn_op \<Rightarrow> ('k \<Rightarrow> 'v option) \<Rightarrow> ('k \<Rightarrow> 'v option)" where
  "map_op c m = (case c of
     Create v \<Rightarrow> if m (key v) = None then m(key v \<mapsto> v) else m
   | Delete v \<Rightarrow> (case m (key v) of Some v' \<Rightarrow> if same v v' then m(key v := None) else m | None \<Rightarrow> m))"

lemma run_op_refines: "invar t \<Longrightarrow> invar (run_op c t) \<and> lookup (run_op c t) = map_op c (lookup t)"
  by (cases c) (auto simp: run_op_def map_op_def lookup_add invar_add lookup_del invar_del split: option.split)

lemma run_refines: "invar t \<Longrightarrow> invar (fold run_op cs t) \<and> lookup (fold run_op cs t) = fold map_op cs (lookup t)"
  by (induction cs arbitrary: t) (auto simp: run_op_refines)

end

end
