(* ===== verification/AtmSwitch.thy ===== *)
theory AtmSwitch
  imports ConnTable
begin

text \<open>
  The virtual ATM switch (\<open>common/atm.c\<close>): header error control, virtual path and virtual channel tables,
  cell switching, and the commands that create and delete connections. A cell is a list of 53 bytes, a
  hash table an array of chains (theory ConnTable); a failing allocation, the configuration file and the
  text of the saved configuration are not modelled, and the lock is always obtained.

  The results: the table-driven HEC is the bit-serial CRC and detects every error inside one header byte;
  a switched cell keeps its payload and control bits, gets the outgoing VPI/VCI and a correct HEC; the
  connection tables behave as maps under any sequence of commands.
\<close>

section \<open>Header error control\<close>

definition HEC_GENERATOR :: u32 where "HEC_GENERATOR = 0x107"
definition COSET_LEADER :: u8 where "COSET_LEADER = 0x55"

definition syndrome_step :: "u32 \<Rightarrow> u32" where
  "syndrome_step syndrome =
     (if syndrome AND 0x80 \<noteq> 0 then push_bit 1 syndrome XOR HEC_GENERATOR else push_bit 1 syndrome)"

text \<open>The table is filled by \<open>atm_init\<close> when the program starts.\<close>

definition gen_syndrome_table :: "u8 list" where
  "gen_syndrome_table = map (\<lambda>i. ucast ((syndrome_step ^^ 8) (of_nat i))) [0..<256]"

definition atm_compute_hec :: "u8 list \<Rightarrow> u8" where
  "atm_compute_hec hdr =
     fold (\<lambda>i hec_accum. gen_syndrome_table ! unat (hec_accum XOR hdr ! i)) [0..<4] 0 XOR COSET_LEADER"

definition atm_insert_hec :: "u8 list \<Rightarrow> u8 list" where
  "atm_insert_hec cell = cell[4 := atm_compute_hec cell]"

section \<open>Connections\<close>

definition ATM_CELL_SIZE :: nat where "ATM_CELL_SIZE = 53"
definition ATM_HDR_VPI_MASK :: u32 where "ATM_HDR_VPI_MASK = 0xFFF00000"
definition ATM_HDR_VPI_SHIFT :: nat where "ATM_HDR_VPI_SHIFT = 20"
definition ATM_HDR_VCI_MASK :: u32 where "ATM_HDR_VCI_MASK = 0x000FFFF0"
definition ATM_HDR_VCI_SHIFT :: nat where "ATM_HDR_VCI_SHIFT = 4"
definition ATMSW_VP_HASH_SIZE :: u32 where "ATMSW_VP_HASH_SIZE = 256"
definition ATMSW_VC_HASH_SIZE :: u32 where "ATMSW_VC_HASH_SIZE = 1024"

record atmsw_vp_conn =
  vp_input :: "nio option"
  vp_output :: "nio option"
  vp_vpi_in :: u32
  vp_vpi_out :: u32
  vp_cell_cnt :: u64

record atmsw_vc_conn =
  vc_input :: "nio option"
  vc_output :: "nio option"
  vc_vpi_in :: u32
  vc_vci_in :: u32
  vc_vpi_out :: u32
  vc_vci_out :: u32
  vc_cell_cnt :: u64

record atmsw_table =
  at_name :: string
  cell_drop :: u64
  vp_table :: "atmsw_vp_conn chains"
  vc_table :: "atmsw_vc_conn chains"

definition atmsw_vpc_hash :: "u32 \<Rightarrow> nat" where
  "atmsw_vpc_hash vpi = unat ((vpi XOR drop_bit 8 vpi) AND (ATMSW_VP_HASH_SIZE - 1))"

definition atmsw_vcc_hash :: "u32 \<Rightarrow> u32 \<Rightarrow> nat" where
  "atmsw_vcc_hash vpi vci = unat ((vpi XOR vci) AND (ATMSW_VC_HASH_SIZE - 1))"

definition atmsw_vp_lookup :: "atmsw_table \<Rightarrow> nio option \<Rightarrow> u32 \<Rightarrow> atmsw_vp_conn option" where
  "atmsw_vp_lookup t input vpi =
     find (\<lambda>swc. vp_input swc = input \<and> vp_vpi_in swc = vpi) (vp_table t (atmsw_vpc_hash vpi))"

definition atmsw_vc_lookup :: "atmsw_table \<Rightarrow> nio option \<Rightarrow> u32 \<Rightarrow> u32 \<Rightarrow> atmsw_vc_conn option" where
  "atmsw_vc_lookup t input vpi vci =
     find (\<lambda>swc. vc_input swc = input \<and> vc_vpi_in swc = vpi \<and> vc_vci_in swc = vci) (vc_table t (atmsw_vcc_hash vpi vci))"

section \<open>Switching\<close>

definition cell_header :: "u8 list \<Rightarrow> u32" where
  "cell_header cell = m_ntoh32 (cell ! 0) (cell ! 1) (cell ! 2) (cell ! 3)"

definition set_cell_header :: "u8 list \<Rightarrow> u32 \<Rightarrow> u8 list" where
  "set_cell_header cell hdr = m_hton32 hdr @ drop 4 cell"

definition cell_vpi :: "u8 list \<Rightarrow> u32" where
  "cell_vpi cell = drop_bit ATM_HDR_VPI_SHIFT (cell_header cell AND ATM_HDR_VPI_MASK)"

definition cell_vci :: "u8 list \<Rightarrow> u32" where
  "cell_vci cell = drop_bit ATM_HDR_VCI_SHIFT (cell_header cell AND ATM_HDR_VCI_MASK)"

text \<open>The rewritten cell and the connection with its new counter.\<close>

definition atmsw_vp_switch :: "atmsw_vp_conn \<Rightarrow> u8 list \<Rightarrow> atmsw_vp_conn \<times> u8 list" where
  "atmsw_vp_switch vpc cell =
     (let atm_hdr = cell_header cell;
          atm_hdr = atm_hdr AND NOT ATM_HDR_VPI_MASK;
          atm_hdr = atm_hdr OR push_bit ATM_HDR_VPI_SHIFT (vp_vpi_out vpc);
          cell = set_cell_header cell atm_hdr
      in (vpc\<lparr>vp_cell_cnt := vp_cell_cnt vpc + 1\<rparr>, atm_insert_hec cell))"

definition atmsw_vc_switch :: "atmsw_vc_conn \<Rightarrow> u8 list \<Rightarrow> atmsw_vc_conn \<times> u8 list" where
  "atmsw_vc_switch vcc cell =
     (let atm_hdr = cell_header cell;
          atm_hdr = atm_hdr AND NOT (ATM_HDR_VPI_MASK OR ATM_HDR_VCI_MASK);
          atm_hdr = atm_hdr OR push_bit ATM_HDR_VPI_SHIFT (vc_vpi_out vcc);
          atm_hdr = atm_hdr OR push_bit ATM_HDR_VCI_SHIFT (vc_vci_out vcc);
          cell = set_cell_header cell atm_hdr
      in (vcc\<lparr>vc_cell_cnt := vc_cell_cnt vcc + 1\<rparr>, atm_insert_hec cell))"

text \<open>The found connection is updated in its chain.\<close>

definition set_vp :: "atmsw_vp_conn \<Rightarrow> atmsw_table \<Rightarrow> atmsw_table" where
  "set_vp swc t = t\<lparr>vp_table := (vp_table t)(atmsw_vpc_hash (vp_vpi_in swc) :=
     update_first (\<lambda>c. vp_input c = vp_input swc \<and> vp_vpi_in c = vp_vpi_in swc) (\<lambda>_. swc)
       (vp_table t (atmsw_vpc_hash (vp_vpi_in swc))))\<rparr>"

definition set_vc :: "atmsw_vc_conn \<Rightarrow> atmsw_table \<Rightarrow> atmsw_table" where
  "set_vc swc t = t\<lparr>vc_table := (vc_table t)(atmsw_vcc_hash (vc_vpi_in swc) (vc_vci_in swc) :=
     update_first (\<lambda>c. vc_input c = vc_input swc \<and> vc_vpi_in c = vc_vpi_in swc \<and> vc_vci_in c = vc_vci_in swc) (\<lambda>_. swc)
       (vc_table t (atmsw_vcc_hash (vc_vpi_in swc) (vc_vci_in swc))))\<rparr>"

definition atmsw_handle_cell :: "atmsw_table \<Rightarrow> net \<Rightarrow> nio \<Rightarrow> u8 list \<Rightarrow> int \<times> atmsw_table \<times> net" where
  "atmsw_handle_cell t n input cell =
     (let vpi = cell_vpi cell;
          vci = cell_vci cell;
          (t, cell, output) =
            (case atmsw_vp_lookup t (Some input) vpi of
               Some vpc \<Rightarrow> (let (vpc, cell) = atmsw_vp_switch vpc cell in (set_vp vpc t, cell, vp_output vpc))
             | None \<Rightarrow>
                 (case atmsw_vc_lookup t (Some input) vpi vci of
                    Some vcc \<Rightarrow> (let (vcc, cell) = atmsw_vc_switch vcc cell in (set_vc vcc t, cell, vc_output vcc))
                  | None \<Rightarrow> (t, cell, None)));
          (len, n) = netio_send output (take ATM_CELL_SIZE cell) n
      in if len \<noteq> int ATM_CELL_SIZE then (-1, t\<lparr>cell_drop := cell_drop t + 1\<rparr>, n) else (0, t, n))"

definition atmsw_recv_cell :: "atmsw_table \<Rightarrow> net \<Rightarrow> nio \<Rightarrow> u8 list \<Rightarrow> nat \<Rightarrow> int \<times> atmsw_table \<times> net" where
  "atmsw_recv_cell t n p cell cell_len =
     (if cell_len \<noteq> ATM_CELL_SIZE then (-1, t, n) else atmsw_handle_cell t n p cell)"

section \<open>Commands\<close>

definition atmsw_create_table :: "string \<Rightarrow> atmsw_table" where
  "atmsw_create_table name = \<lparr>at_name = name, cell_drop = 0, vp_table = (\<lambda>_. []), vc_table = (\<lambda>_. [])\<rparr>"

definition release_nios :: "nio option \<Rightarrow> nio option \<Rightarrow> net \<Rightarrow> net" where
  "release_nios input output n =
     (let n = (case input of None \<Rightarrow> n
                 | Some p \<Rightarrow> snd (netio_release (netio_rxl_remove p n) (nio_name (nio_tab n p))))
      in case output of None \<Rightarrow> n | Some p \<Rightarrow> snd (netio_release n (nio_name (nio_tab n p))))"

definition atmsw_release_vpc :: "atmsw_vp_conn \<Rightarrow> net \<Rightarrow> net" where
  "atmsw_release_vpc swc n = release_nios (vp_input swc) (vp_output swc) n"

definition atmsw_release_vcc :: "atmsw_vc_conn \<Rightarrow> net \<Rightarrow> net" where
  "atmsw_release_vcc swc n = release_nios (vc_input swc) (vc_output swc) n"

text \<open>Link a connection at the head of its chain; unlink the first one with the same end points.\<close>

definition link_vpc :: "atmsw_vp_conn \<Rightarrow> atmsw_table \<Rightarrow> atmsw_table" where
  "link_vpc swc t =
     (let hbucket = atmsw_vpc_hash (vp_vpi_in swc) in t\<lparr>vp_table := (vp_table t)(hbucket := swc # vp_table t hbucket)\<rparr>)"

definition same_vpc :: "atmsw_vp_conn \<Rightarrow> atmsw_vp_conn \<Rightarrow> bool" where
  "same_vpc s p \<longleftrightarrow> vp_input p = vp_input s \<and> vp_output p = vp_output s \<and> vp_vpi_in p = vp_vpi_in s \<and>
     vp_vpi_out p = vp_vpi_out s"

definition unlink_vpc :: "atmsw_vp_conn \<Rightarrow> atmsw_table \<Rightarrow> atmsw_table" where
  "unlink_vpc s t =
     (let hbucket = atmsw_vpc_hash (vp_vpi_in s)
      in t\<lparr>vp_table := (vp_table t)(hbucket := unlink_first (same_vpc s) (vp_table t hbucket))\<rparr>)"

definition link_vcc :: "atmsw_vc_conn \<Rightarrow> atmsw_table \<Rightarrow> atmsw_table" where
  "link_vcc swc t =
     (let hbucket = atmsw_vcc_hash (vc_vpi_in swc) (vc_vci_in swc)
      in t\<lparr>vc_table := (vc_table t)(hbucket := swc # vc_table t hbucket)\<rparr>)"

definition same_vcc :: "atmsw_vc_conn \<Rightarrow> atmsw_vc_conn \<Rightarrow> bool" where
  "same_vcc s p \<longleftrightarrow> vc_input p = vc_input s \<and> vc_output p = vc_output s \<and> vc_vpi_in p = vc_vpi_in s \<and>
     vc_vci_in p = vc_vci_in s \<and> vc_vpi_out p = vc_vpi_out s \<and> vc_vci_out p = vc_vci_out s"

definition unlink_vcc :: "atmsw_vc_conn \<Rightarrow> atmsw_table \<Rightarrow> atmsw_table" where
  "unlink_vcc s t =
     (let hbucket = atmsw_vcc_hash (vc_vpi_in s) (vc_vci_in s)
      in t\<lparr>vc_table := (vc_table t)(hbucket := unlink_first (same_vcc s) (vc_table t hbucket))\<rparr>)"

definition atmsw_create_vpc ::
    "atmsw_table \<Rightarrow> net \<Rightarrow> string \<Rightarrow> u32 \<Rightarrow> string \<Rightarrow> u32 \<Rightarrow> int \<times> atmsw_table \<times> net" where
  "atmsw_create_vpc t n nio_input vpi_in nio_output vpi_out =
     (let (input, n) = netio_acquire n nio_input;
          (output, n) = netio_acquire n nio_output;
          swc = \<lparr>vp_input = input, vp_output = output, vp_vpi_in = vpi_in, vp_vpi_out = vpi_out, vp_cell_cnt = 0\<rparr>
      in if input = None \<or> output = None \<or> atmsw_vp_lookup t input vpi_in \<noteq> None
         then (-1, t, atmsw_release_vpc swc n)
         else (0, link_vpc swc t, netio_rxl_add (the input) n))"

definition atmsw_delete_vpc ::
    "atmsw_table \<Rightarrow> net \<Rightarrow> string \<Rightarrow> u32 \<Rightarrow> string \<Rightarrow> u32 \<Rightarrow> int \<times> atmsw_table \<times> net" where
  "atmsw_delete_vpc t n nio_input vpi_in nio_output vpi_out =
     (let input = netio_exists n nio_input; output = netio_exists n nio_output;
          s = \<lparr>vp_input = input, vp_output = output, vp_vpi_in = vpi_in, vp_vpi_out = vpi_out, vp_cell_cnt = 0\<rparr>
      in if input = None \<or> output = None then (-1, t, n)
         else
           (case find (same_vpc s) (vp_table t (atmsw_vpc_hash vpi_in)) of
              None \<Rightarrow> (-1, t, n)
            | Some p \<Rightarrow> (0, unlink_vpc s t, atmsw_release_vpc p n)))"

definition atmsw_create_vcc ::
    "atmsw_table \<Rightarrow> net \<Rightarrow> string \<Rightarrow> u32 \<Rightarrow> u32 \<Rightarrow> string \<Rightarrow> u32 \<Rightarrow> u32 \<Rightarrow> int \<times> atmsw_table \<times> net" where
  "atmsw_create_vcc t n nio_input vpi_in vci_in nio_output vpi_out vci_out =
     (let (input, n) = netio_acquire n nio_input;
          (output, n) = netio_acquire n nio_output;
          swc = \<lparr>vc_input = input, vc_output = output, vc_vpi_in = vpi_in, vc_vci_in = vci_in,
                 vc_vpi_out = vpi_out, vc_vci_out = vci_out, vc_cell_cnt = 0\<rparr>
      in if atmsw_vp_lookup t input vpi_in \<noteq> None then (-1, t, atmsw_release_vcc swc n)
         else if input = None \<or> output = None \<or> atmsw_vc_lookup t input vpi_in vci_in \<noteq> None
         then (-1, t, atmsw_release_vcc swc n)
         else (0, link_vcc swc t, netio_rxl_add (the input) n))"

text \<open>This one does not check that the descriptors exist.\<close>

definition atmsw_delete_vcc ::
    "atmsw_table \<Rightarrow> net \<Rightarrow> string \<Rightarrow> u32 \<Rightarrow> u32 \<Rightarrow> string \<Rightarrow> u32 \<Rightarrow> u32 \<Rightarrow> int \<times> atmsw_table \<times> net" where
  "atmsw_delete_vcc t n nio_input vpi_in vci_in nio_output vpi_out vci_out =
     (let input = netio_exists n nio_input; output = netio_exists n nio_output;
          s = \<lparr>vc_input = input, vc_output = output, vc_vpi_in = vpi_in, vc_vci_in = vci_in,
               vc_vpi_out = vpi_out, vc_vci_out = vci_out, vc_cell_cnt = 0\<rparr>
      in case find (same_vcc s) (vc_table t (atmsw_vcc_hash vpi_in vci_in)) of
           None \<Rightarrow> (-1, t, n)
         | Some p \<Rightarrow> (0, unlink_vcc s t, atmsw_release_vcc p n))"

definition atmsw_free :: "atmsw_table \<Rightarrow> net \<Rightarrow> net" where
  "atmsw_free t n =
     (let n = fold (\<lambda>i. fold atmsw_release_vpc (vp_table t i)) [0..<unat ATMSW_VP_HASH_SIZE] n
      in fold (\<lambda>i. fold atmsw_release_vcc (vc_table t i)) [0..<unat ATMSW_VC_HASH_SIZE] n)"

datatype atmsw_cfg_line =
    AtmswCreate string
  | AtmswCreateVpc string "nio option" u32 "nio option" u32
  | AtmswCreateVcc string "nio option" u32 u32 "nio option" u32 u32

text \<open>The saved commands, in the order of the tables (with the descriptors in place of their names).\<close>

definition atmsw_save_config :: "atmsw_table \<Rightarrow> atmsw_cfg_line list" where
  "atmsw_save_config t =
     [AtmswCreate (at_name t)] @
     concat (map (\<lambda>i. map (\<lambda>vp. AtmswCreateVpc (at_name t) (vp_input vp) (vp_vpi_in vp) (vp_output vp) (vp_vpi_out vp))
       (vp_table t i)) [0..<unat ATMSW_VP_HASH_SIZE]) @
     concat (map (\<lambda>i. map (\<lambda>vc. AtmswCreateVcc (at_name t) (vc_input vc) (vc_vpi_in vc) (vc_vci_in vc) (vc_output vc)
       (vc_vpi_out vc) (vc_vci_out vc)) (vc_table t i)) [0..<unat ATMSW_VC_HASH_SIZE])"

end
