(* ===== verification/AtmSwitchProps.thy ===== *)
theory AtmSwitchProps
  imports AtmSwitch
begin

text \<open>
  Properties of the ATM switch of theory AtmSwitch: its header error control is the bit-serial CRC-8,
  switched cells are relabelled and otherwise unchanged, and its two connection tables are maps under
  any sequence of commands.
\<close>

section \<open>The HEC is a CRC\<close>

text \<open>Bit-serial division by x^8 + x^2 + x + 1: the register shifts left and is reduced when the bit that
  leaves differs from the next bit of the header; bytes come most significant bit first.\<close>

definition crc8_shift :: "u8 \<Rightarrow> u8" where
  "crc8_shift r = push_bit 1 r XOR (if bit r 7 then 0x07 else 0)"

definition crc8_bit :: "bool \<Rightarrow> u8 \<Rightarrow> u8" where
  "crc8_bit b r = push_bit 1 r XOR (if bit r 7 \<noteq> b then 0x07 else 0)"

definition byte_bits :: "u8 \<Rightarrow> bool list" where
  "byte_bits x = map (\<lambda>i. bit x (7 - i)) [0..<8]"

definition crc8 :: "u8 list \<Rightarrow> u8" where
  "crc8 xs = fold crc8_bit (concat (map byte_bits xs)) 0"

lemma shl1_bit: "bit (push_bit 1 (r :: u8)) n \<longleftrightarrow> n < 8 \<and> 0 < n \<and> bit r (n - 1)"
  unfolding bit_push_bit_iff by auto

lemma seven_bit: "bit (0x07 :: u8) n \<longleftrightarrow> n < 3"
proof -
  have "(0x07 :: u8) = mask 3" by (simp add: mask_eq_exp_minus_1)
  then show ?thesis by (simp only: bit_mask_iff) auto
qed

lemma top_bit: "bit (0x80 :: u8) n \<longleftrightarrow> n = 7"
proof -
  have "(0x80 :: u8) = push_bit 7 1" by (simp add: push_bit_eq_mult)
  then show ?thesis by (simp only: bit_push_bit_iff bit_1_iff) auto
qed

lemma bit_if_seven: "bit (if c then 0x07 else 0 :: u8) n \<longleftrightarrow> c \<and> n < 3"
  by (cases c) (simp_all only: if_True if_False seven_bit bit_0_eq bot_apply simp_thms bot_bool_def)

lemma bit_if_top: "bit (if c then 0x80 else 0 :: u8) n \<longleftrightarrow> c \<and> n = 7"
  by (cases c) (simp_all only: if_True if_False top_bit bit_0_eq bot_apply simp_thms bot_bool_def)

lemma crc8_bit_bit:
  "bit (crc8_bit b r) n \<longleftrightarrow> n < 8 \<and> ((0 < n \<and> bit r (n - 1)) \<noteq> (bit r 7 \<noteq> b \<and> n < 3))"
  unfolding crc8_bit_def bit_xor_iff shl1_bit bit_if_seven by auto

lemma crc8_shift_bit: "bit (crc8_shift r) n \<longleftrightarrow> n < 8 \<and> ((0 < n \<and> bit r (n - 1)) \<noteq> (bit r 7 \<and> n < 3))"
  unfolding crc8_shift_def bit_xor_iff shl1_bit bit_if_seven by auto

lemma crc8_shift_xor: "crc8_shift (x XOR y) = crc8_shift x XOR crc8_shift y"
  by (rule bit_word_eqI) (auto simp: crc8_shift_bit bit_xor_iff)

lemma crc8_shift_0 [simp]: "crc8_shift 0 = 0"
  by (rule bit_word_eqI) (simp add: crc8_shift_bit)

lemma crc8_shift_inj:
  assumes z: "crc8_shift x = 0" shows "x = 0"
proof -
  have nb: "\<not> bit (crc8_shift x) n" for n by (simp add: z)
  have b7: "\<not> bit x 7" using nb [of 0] by (simp add: crc8_shift_bit)
  have "\<not> bit x n" if "n < 7" for n using nb [of "Suc n"] b7 that by (simp add: crc8_shift_bit)
  with b7 have "\<not> bit x n" if "n < 8" for n using that by (cases "n = 7") auto
  then show ?thesis by (intro bit_word_eqI) simp
qed

lemma crc8_bit_shift: "crc8_bit b r = crc8_shift (r XOR (if b then 0x80 else 0))"
  by (rule bit_word_eqI) (unfold crc8_bit_bit crc8_shift_bit bit_xor_iff bit_if_top, auto)

text \<open>Eight steps on the register with a byte folded in.\<close>

lemma crc8_partial:
  "k \<le> 8 \<Longrightarrow> (crc8_shift ^^ k) (r XOR x) = fold crc8_bit (map (\<lambda>i. bit x (7 - i)) [0..<k]) r XOR push_bit k x"
proof (induction k)
  case (Suc k)
  let ?F = "fold crc8_bit (map (\<lambda>i. bit x (7 - i)) [0..<k]) r"
  let ?t = "(if bit x (7 - k) then 0x80 else 0) :: u8"
  have "crc8_shift (push_bit k x) = crc8_shift ?t XOR push_bit (Suc k) x"
    using Suc.prems
    by (intro bit_word_eqI) (unfold crc8_shift_bit bit_xor_iff bit_if_top bit_push_bit_iff, auto simp: not_le less_Suc_eq_le)
  then have "crc8_shift (?F XOR push_bit k x) = crc8_shift (?F XOR ?t) XOR push_bit (Suc k) x"
    by (simp only: crc8_shift_xor xor.assoc)
  moreover have "(crc8_shift ^^ Suc k) (r XOR x) = crc8_shift (?F XOR push_bit k x)"
    using Suc by (simp only: funpow.simps comp_apply Suc_leD)
  moreover have "fold crc8_bit (map (\<lambda>i. bit x (7 - i)) [0..<Suc k]) r = crc8_shift (?F XOR ?t)"
    by (simp add: crc8_bit_shift)
  ultimately show ?case by (simp only:)
qed simp

lemma crc8_byte: "(crc8_shift ^^ 8) (r XOR x) = fold crc8_bit (byte_bits x) r"
proof -
  have "push_bit 8 x = 0" by (rule bit_word_eqI) (simp add: bit_simps)
  with crc8_partial [of 8 r x] show ?thesis by (simp only: byte_bits_def) simp
qed

text \<open>The table holds the same eight steps.\<close>

lemma generator_bit: "bit (HEC_GENERATOR :: u32) n \<longleftrightarrow> n < 3 \<or> n = 8"
proof -
  have g: "HEC_GENERATOR = push_bit 8 1 OR mask 3" by (simp add: HEC_GENERATOR_def push_bit_eq_mult mask_eq_exp_minus_1)
  show ?thesis unfolding g bit_or_iff bit_push_bit_iff bit_1_iff bit_mask_iff by auto
qed

lemma syndrome_step_shift: "syndrome_step (ucast (x :: u8)) = ucast (crc8_shift x)"
proof -
  have "(0x80 :: u32) = push_bit 7 1" by (simp add: push_bit_eq_mult)
  then have "((ucast x :: u32) AND 0x80 \<noteq> 0) = bit (ucast x :: u32) 7"
    by (simp only: bit_iff_and_push_bit_not_eq_0)
  also have "\<dots> = bit x 7" by (simp add: bit_simps)
  finally have b: "((ucast x :: u32) AND 0x80 \<noteq> 0) = bit x 7" .
  have p: "bit (push_bit 1 (ucast x :: u32)) n \<longleftrightarrow> n < 9 \<and> 0 < n \<and> bit x (n - 1)" for n
    unfolding bit_push_bit_iff by (auto simp: bit_simps dest: bit_imp_le_length)
  have l: "bit (if bit x 7 then push_bit 1 (ucast x) XOR HEC_GENERATOR else push_bit 1 (ucast x)) n \<longleftrightarrow>
      ((n < 9 \<and> 0 < n \<and> bit x (n - 1)) \<noteq> (bit x 7 \<and> (n < 3 \<or> n = 8)))" for n
    by (cases "bit x 7") (simp_all only: if_True if_False bit_xor_iff generator_bit p simp_thms)
  have r: "bit (ucast (crc8_shift x) :: u32) n \<longleftrightarrow> bit (crc8_shift x) n" for n
    by (auto simp: bit_unsigned_iff dest: bit_imp_le_length)
  have "((n < 9 \<and> 0 < n \<and> bit x (n - 1)) \<noteq> (bit x 7 \<and> (n < 3 \<or> n = 8))) \<longleftrightarrow>
      n < 8 \<and> ((0 < n \<and> bit x (n - 1)) \<noteq> (bit x 7 \<and> n < 3))" for n
    by (cases "n = 8") auto
  then show ?thesis
    unfolding syndrome_step_def b by (intro bit_word_eqI) (simp only: l r crc8_shift_bit)
qed

lemma syndrome_table: "gen_syndrome_table ! unat x = (crc8_shift ^^ 8) x"
proof -
  have s: "(syndrome_step ^^ k) (ucast (x :: u8)) = ucast ((crc8_shift ^^ k) x)" for k
    by (induction k) (simp_all add: syndrome_step_shift)
  have "(of_nat (unat x) :: u32) = ucast x" by simp
  moreover have "unat x < 256" using unsigned_less [of x] by simp
  ultimately have "gen_syndrome_table ! unat x = ucast ((syndrome_step ^^ 8) (ucast x))"
    by (simp add: gen_syndrome_table_def del: funpow.simps)
  also have "\<dots> = (crc8_shift ^^ 8) x"
    unfolding s by (rule bit_word_eqI) (simp add: bit_simps)
  finally show ?thesis .
qed


lemma xor_cancel:
  "(a :: 'a::len word) XOR c = b XOR c \<longleftrightarrow> a = b" "c XOR (a :: 'a::len word) = c XOR b \<longleftrightarrow> a = b"
proof -
  have "a = b" if "a XOR c = b XOR c"
  proof -
    have "(a XOR c) XOR c = (b XOR c) XOR c" by (simp only: that)
    then show ?thesis by (simp add: xor.assoc)
  qed
  then show "a XOR c = b XOR c \<longleftrightarrow> a = b" by auto
  then show "c XOR a = c XOR b \<longleftrightarrow> a = b" by (simp add: xor.commute)
qed

lemma xor_eq_0: "(a :: 'a::len word) XOR b = 0 \<longleftrightarrow> a = b"
  using xor_cancel(1) [of a b b] by simp

lemma atm_compute_hec_crc8:
  assumes "4 \<le> length hdr"
  shows "atm_compute_hec hdr = crc8 (take 4 hdr) XOR COSET_LEADER"
proof -
  obtain a b c d rest where h: "hdr = a # b # c # d # rest"
    using assms by (auto simp: numeral_eq_Suc Suc_le_length_iff)
  have i: "[0..<4::nat] = [0, 1, 2, 3]" by (simp add: upt_rec)
  show ?thesis
    by (simp add: h i atm_compute_hec_def syndrome_table crc8_byte crc8_def del: funpow.simps)
qed

text \<open>Two registers that differ stay different, so an error in one byte reaches the result.\<close>

lemma crc8_steps_xor: "(crc8_shift ^^ k) (x XOR y) = (crc8_shift ^^ k) x XOR (crc8_shift ^^ k) y"
  by (induction k) (simp_all add: crc8_shift_xor)

lemma crc8_steps_eq: "(crc8_shift ^^ k) x = (crc8_shift ^^ k) y \<longleftrightarrow> x = y"
proof (induction k)
  case (Suc k)
  have "crc8_shift u = crc8_shift v \<Longrightarrow> u = v" for u v
    using crc8_shift_xor [of u v] crc8_shift_inj [of "u XOR v"] by (simp add: xor_eq_0)
  with Suc show ?case by auto
qed simp

lemma crc8_snoc: "crc8 (xs @ [x]) = (crc8_shift ^^ 8) (crc8 xs XOR x)"
  by (simp add: crc8_def crc8_byte del: funpow.simps)

lemma crc8_append_eq: "crc8 (xs @ zs) = crc8 (ys @ zs) \<longleftrightarrow> crc8 xs = crc8 ys"
proof (induction zs rule: rev_induct)
  case (snoc z zs)
  then show ?case
    by (simp only: append_assoc [symmetric] crc8_snoc crc8_steps_eq xor_cancel)
qed simp

text \<open>C9: the table-driven HEC of a header is the remainder of the bit-serial division by the generator, with
  the coset leader added; headers that differ in one byte only have different HECs.\<close>

theorem hec_is_crc8:
  assumes "4 \<le> length hdr"
  shows "atm_compute_hec hdr = crc8 (take 4 hdr) XOR COSET_LEADER \<and>
    (\<forall>i x. i < 4 \<and> x \<noteq> hdr ! i \<longrightarrow> atm_compute_hec (hdr[i := x]) \<noteq> atm_compute_hec hdr)"
proof (intro conjI allI impI)
  show "atm_compute_hec hdr = crc8 (take 4 hdr) XOR COSET_LEADER" by (rule atm_compute_hec_crc8 [OF assms])
  fix i x assume i: "i < 4 \<and> x \<noteq> hdr ! i"
  let ?h = "take 4 hdr"
  have len: "length ?h = 4" using assms by simp
  have h: "?h = take i ?h @ [?h ! i] @ drop (Suc i) ?h" using i len id_take_nth_drop [of i ?h] by (simp only: append_Cons append_Nil)
  have h': "?h[i := x] = take i ?h @ [x] @ drop (Suc i) ?h" using i len by (simp add: upd_conv_take_nth_drop)
  have "crc8 (take i ?h @ [x]) \<noteq> crc8 (take i ?h @ [?h ! i])"
    using i by (simp only: crc8_snoc crc8_steps_eq xor_cancel) simp
  then have "crc8 (?h[i := x]) \<noteq> crc8 ?h"
    by (subst (2) h, subst h') (simp only: append_assoc [symmetric] crc8_append_eq not_False_eq_True)
  moreover have "take 4 (hdr[i := x]) = ?h[i := x]" by (simp add: take_update_swap)
  ultimately show "atm_compute_hec (hdr[i := x]) \<noteq> atm_compute_hec hdr"
    using assms by (simp add: atm_compute_hec_crc8 xor_cancel)
qed

theorem hec_is_crc8_witness:
  "atm_compute_hec [0x12, 0x34, 0x56, 0x78] = crc8 [0x12, 0x34, 0x56, 0x78] XOR COSET_LEADER \<and>
   atm_compute_hec [0x12, 0x35, 0x56, 0x78] \<noteq> atm_compute_hec [0x12, 0x34, 0x56, 0x78]"
  using hec_is_crc8 [of "[0x12, 0x34, 0x56, 0x78]"] by (auto dest: spec [of _ 1] spec [of _ "0x35"])

section \<open>A switched cell\<close>

text \<open>The payload type and the loss priority.\<close>

definition cell_control :: "u8 list \<Rightarrow> u32" where
  "cell_control cell = take_bit 4 (cell_header cell)"

lemma atm_masks: "ATM_HDR_VPI_MASK = push_bit 20 (mask 12)" "ATM_HDR_VCI_MASK = push_bit 4 (mask 16)"
  by (simp_all add: ATM_HDR_VPI_MASK_def ATM_HDR_VCI_MASK_def mask_eq_exp_minus_1 push_bit_eq_mult)

lemmas atm_shifts = ATM_HDR_VPI_SHIFT_def ATM_HDR_VCI_SHIFT_def

lemma set_cell_header:
  assumes "4 \<le> length cell"
  shows "cell_header (set_cell_header cell h) = h" "length (set_cell_header cell h) = length cell"
    "drop 4 (set_cell_header cell h) = drop 4 cell"
  using assms by (simp_all add: cell_header_def set_cell_header_def m_hton32_def ntoh_hton32)

lemma insert_hec:
  assumes "5 \<le> length cell"
  shows "cell_header (atm_insert_hec cell) = cell_header cell" "length (atm_insert_hec cell) = length cell"
    "drop 5 (atm_insert_hec cell) = drop 5 cell" "atm_insert_hec cell ! 4 = crc8 (take 4 (atm_insert_hec cell)) XOR COSET_LEADER"
  using assms by (simp_all add: atm_insert_hec_def cell_header_def atm_compute_hec_crc8)

lemma bit_small: "unat (w :: u32) < 2 ^ k \<Longrightarrow> bit w n \<Longrightarrow> n < k"
  by (rule bit_less_pow2)

text \<open>Where a cell goes: paths take precedence over channels.\<close>

definition route :: "atmsw_table \<Rightarrow> nio \<Rightarrow> u32 \<Rightarrow> u32 \<Rightarrow> (nio option \<times> u32 \<times> u32) option" where
  "route t input vpi vci =
     (case atmsw_vp_lookup t (Some input) vpi of
        Some vpc \<Rightarrow> Some (vp_output vpc, vp_vpi_out vpc, vci)
      | None \<Rightarrow>
          (case atmsw_vc_lookup t (Some input) vpi vci of
             Some vcc \<Rightarrow> Some (vc_output vcc, vc_vpi_out vcc, vc_vci_out vcc)
           | None \<Rightarrow> None))"

text \<open>\<open>relabelled cell cell' vpi vci\<close>: the same cell under another label.\<close>

definition relabelled :: "u8 list \<Rightarrow> u8 list \<Rightarrow> u32 \<Rightarrow> u32 \<Rightarrow> bool" where
  "relabelled cell cell' vpi vci \<longleftrightarrow> length cell' = length cell \<and> drop 5 cell' = drop 5 cell \<and>
     cell_control cell' = cell_control cell \<and> cell_vpi cell' = vpi \<and> cell_vci cell' = vci \<and>
     cell' ! 4 = crc8 (take 4 cell') XOR COSET_LEADER"

lemma relabel:
  assumes "5 \<le> length cell" "take_bit 4 h = take_bit 4 (cell_header cell)"
    and "drop_bit 20 (h AND ATM_HDR_VPI_MASK) = vpi" "drop_bit 4 (h AND ATM_HDR_VCI_MASK) = vci"
  shows "relabelled cell (atm_insert_hec (set_cell_header cell h)) vpi vci"
proof -
  have l: "4 \<le> length cell" using assms(1) by simp
  note s = set_cell_header [OF l, of h]
  have l5: "5 \<le> length (set_cell_header cell h)" using assms(1) s by simp
  note i = insert_hec [OF l5]
  have "drop 5 (set_cell_header cell h) = drop 5 cell"
    using arg_cong [OF s(3), of "drop 1"] by simp
  then show ?thesis
    using assms(2-4) i s by (simp add: relabelled_def cell_control_def cell_vpi_def cell_vci_def atm_shifts)
qed

lemma vp_switch_relabels:
  assumes "5 \<le> length cell" "unat (vp_vpi_out vpc) < 2 ^ 12"
  shows "relabelled cell (snd (atmsw_vp_switch vpc cell)) (vp_vpi_out vpc) (cell_vci cell)"
  unfolding atmsw_vp_switch_def Let_def snd_conv cell_vci_def atm_shifts
proof (rule relabel [OF assms(1)])
  let ?h = "cell_header cell AND NOT ATM_HDR_VPI_MASK OR push_bit 20 (vp_vpi_out vpc)"
  show "take_bit 4 ?h = take_bit 4 (cell_header cell)"
    unfolding atm_masks by (rule bit_word_eqI) (auto simp: bit_simps)
  show "drop_bit 20 (?h AND ATM_HDR_VPI_MASK) = vp_vpi_out vpc"
    unfolding atm_masks by (rule bit_word_eqI) (auto simp: bit_simps dest: bit_small [OF assms(2)])
  show "drop_bit 4 (?h AND ATM_HDR_VCI_MASK) = drop_bit 4 (cell_header cell AND ATM_HDR_VCI_MASK)"
    unfolding atm_masks by (rule bit_word_eqI) (auto simp: bit_simps)
qed

lemma vc_switch_relabels:
  assumes "5 \<le> length cell" "unat (vc_vpi_out vcc) < 2 ^ 12" "unat (vc_vci_out vcc) < 2 ^ 16"
  shows "relabelled cell (snd (atmsw_vc_switch vcc cell)) (vc_vpi_out vcc) (vc_vci_out vcc)"
  unfolding atmsw_vc_switch_def Let_def snd_conv atm_shifts
proof (rule relabel [OF assms(1)])
  let ?h = "((cell_header cell AND NOT (ATM_HDR_VPI_MASK OR ATM_HDR_VCI_MASK)) OR push_bit 20 (vc_vpi_out vcc)) OR
    push_bit 4 (vc_vci_out vcc)"
  show "take_bit 4 ?h = take_bit 4 (cell_header cell)"
    unfolding atm_masks by (rule bit_word_eqI) (auto simp: bit_simps)
  show "drop_bit 20 (?h AND ATM_HDR_VPI_MASK) = vc_vpi_out vcc"
    unfolding atm_masks by (rule bit_word_eqI) (auto simp: bit_simps dest: bit_small [OF assms(2)] bit_small [OF assms(3)])
  show "drop_bit 4 (?h AND ATM_HDR_VCI_MASK) = vc_vci_out vcc"
    unfolding atm_masks by (rule bit_word_eqI) (auto simp: bit_simps dest: bit_small [OF assms(3)])
qed


section \<open>The connection tables are maps\<close>

definition vp_key :: "atmsw_vp_conn \<Rightarrow> nio option \<times> u32" where
  "vp_key c = (vp_input c, vp_vpi_in c)"

definition vc_key :: "atmsw_vc_conn \<Rightarrow> nio option \<times> u32 \<times> u32" where
  "vc_key c = (vc_input c, vc_vpi_in c, vc_vci_in c)"

abbreviation vp_find :: "atmsw_table \<Rightarrow> nio option \<times> u32 \<Rightarrow> atmsw_vp_conn option" where
  "vp_find t k \<equiv> atmsw_vp_lookup t (fst k) (snd k)"

abbreviation vc_find :: "atmsw_table \<Rightarrow> nio option \<times> u32 \<times> u32 \<Rightarrow> atmsw_vc_conn option" where
  "vc_find t k \<equiv> atmsw_vc_lookup t (fst k) (fst (snd k)) (snd (snd k))"

definition vp_ok :: "atmsw_table \<Rightarrow> bool" where
  "vp_ok t \<longleftrightarrow> chains_ok (\<lambda>(_, vpi). atmsw_vpc_hash vpi) vp_key (vp_table t)"

definition vc_ok :: "atmsw_table \<Rightarrow> bool" where
  "vc_ok t \<longleftrightarrow> chains_ok (\<lambda>(_, vpi, vci). atmsw_vcc_hash vpi vci) vc_key (vc_table t)"

lemma vp_find_chains: "vp_find t = chains_lookup (\<lambda>(_, vpi). atmsw_vpc_hash vpi) vp_key (vp_table t)"
  by (auto simp: fun_eq_iff atmsw_vp_lookup_def chains_lookup_def vp_key_def intro!: arg_cong2 [where f = find])

lemma vc_find_chains: "vc_find t = chains_lookup (\<lambda>(_, vpi, vci). atmsw_vcc_hash vpi vci) vc_key (vc_table t)"
  by (auto simp: fun_eq_iff atmsw_vc_lookup_def chains_lookup_def vc_key_def intro!: arg_cong2 [where f = find])

lemma link_chains:
  "vp_table (link_vpc c t) = chains_add (\<lambda>(_, vpi). atmsw_vpc_hash vpi) vp_key c (vp_table t)"
  "vc_table (link_vpc c t) = vc_table t"
  "vc_table (link_vcc d t) = chains_add (\<lambda>(_, vpi, vci). atmsw_vcc_hash vpi vci) vc_key d (vc_table t)"
  "vp_table (link_vcc d t) = vp_table t"
  by (simp_all add: link_vpc_def link_vcc_def chains_add_def vp_key_def vc_key_def Let_def)

lemma unlink_chains:
  "vp_table (unlink_vpc c t) = chains_del (\<lambda>(_, vpi). atmsw_vpc_hash vpi) vp_key same_vpc c (vp_table t)"
  "vc_table (unlink_vpc c t) = vc_table t"
  "vc_table (unlink_vcc d t) = chains_del (\<lambda>(_, vpi, vci). atmsw_vcc_hash vpi vci) vc_key same_vcc d (vc_table t)"
  "vp_table (unlink_vcc d t) = vp_table t"
  by (simp_all add: unlink_vpc_def unlink_vcc_def chains_del_def vp_key_def vc_key_def Let_def)

lemma same_keys: "same_vpc c c' \<Longrightarrow> vp_key c' = vp_key c" "same_vcc d d' \<Longrightarrow> vc_key d' = vc_key d"
  by (simp_all add: same_vpc_def same_vcc_def vp_key_def vc_key_def)

interpretation vp: conn_table vp_find link_vpc unlink_vpc vp_key same_vpc vp_ok
  unfolding vp_find_chains vp_ok_def
  by unfold_locales
    (simp_all add: link_chains unlink_chains chains_lookup_add chains_ok_add chains_lookup_del chains_ok_del same_keys(1))

interpretation vc: conn_table vc_find link_vcc unlink_vcc vc_key same_vcc vc_ok
  unfolding vc_find_chains vc_ok_def
  by unfold_locales
    (simp_all add: link_chains unlink_chains chains_lookup_add chains_ok_add chains_lookup_del chains_ok_del same_keys(2))

text \<open>The commands, with the names resolved in a registry that does not change, on the two maps.\<close>

datatype atmsw_cmd =
    CreateVpc string u32 string u32
  | DeleteVpc string u32 string u32
  | CreateVcc string u32 u32 string u32 u32
  | DeleteVcc string u32 u32 string u32 u32

fun exec_cmd :: "atmsw_cmd \<Rightarrow> atmsw_table \<times> net \<Rightarrow> atmsw_table \<times> net" where
  "exec_cmd (CreateVpc i vpi j vpo) (t, n) = snd (atmsw_create_vpc t n i vpi j vpo)"
| "exec_cmd (DeleteVpc i vpi j vpo) (t, n) = snd (atmsw_delete_vpc t n i vpi j vpo)"
| "exec_cmd (CreateVcc i vpi vci j vpo vco) (t, n) = snd (atmsw_create_vcc t n i vpi vci j vpo vco)"
| "exec_cmd (DeleteVcc i vpi vci j vpo vco) (t, n) = snd (atmsw_delete_vcc t n i vpi vci j vpo vco)"

type_synonym vp_map = "nio option \<times> u32 \<Rightarrow> atmsw_vp_conn option"
type_synonym vc_map = "nio option \<times> u32 \<times> u32 \<Rightarrow> atmsw_vc_conn option"

fun spec_cmd :: "(string \<Rightarrow> nio option) \<Rightarrow> atmsw_cmd \<Rightarrow> vp_map \<times> vc_map \<Rightarrow> vp_map \<times> vc_map" where
  "spec_cmd reg (CreateVpc i vpi j vpo) (P, C) =
     (if reg i = None \<or> reg j = None then P
      else vp.map_op (Create \<lparr>vp_input = reg i, vp_output = reg j, vp_vpi_in = vpi, vp_vpi_out = vpo, vp_cell_cnt = 0\<rparr>) P, C)"
| "spec_cmd reg (DeleteVpc i vpi j vpo) (P, C) =
     (if reg i = None \<or> reg j = None then P
      else vp.map_op (Delete \<lparr>vp_input = reg i, vp_output = reg j, vp_vpi_in = vpi, vp_vpi_out = vpo, vp_cell_cnt = 0\<rparr>) P, C)"
| "spec_cmd reg (CreateVcc i vpi vci j vpo vco) (P, C) =
     (P, if reg i = None \<or> reg j = None \<or> P (reg i, vpi) \<noteq> None then C
         else vc.map_op (Create \<lparr>vc_input = reg i, vc_output = reg j, vc_vpi_in = vpi, vc_vci_in = vci,
                                 vc_vpi_out = vpo, vc_vci_out = vco, vc_cell_cnt = 0\<rparr>) C)"
| "spec_cmd reg (DeleteVcc i vpi vci j vpo vco) (P, C) =
     (P, vc.map_op (Delete \<lparr>vc_input = reg i, vc_output = reg j, vc_vpi_in = vpi, vc_vci_in = vci,
                            vc_vpi_out = vpo, vc_vci_out = vco, vc_cell_cnt = 0\<rparr>) C)"

lemma release_nios_reg [simp]: "nio_reg (release_nios i j n) = nio_reg n"
  by (simp add: release_nios_def netio_release_def netio_rxl_remove_def Let_def split: option.split)

lemma acquire: "fst (netio_acquire n s) = nio_reg n s" "nio_reg (snd (netio_acquire n s)) = nio_reg n"
  by (simp_all add: netio_acquire_def split: option.split)

lemma rxl_add_reg [simp]: "nio_reg (netio_rxl_add p n) = nio_reg n"
  by (simp add: netio_rxl_add_def)

lemma unlink_absent:
  "find (same_vpc s) (vp_table t (atmsw_vpc_hash (vp_vpi_in s))) = None \<Longrightarrow> unlink_vpc s t = t"
  "find (same_vcc d) (vc_table t (atmsw_vcc_hash (vc_vpi_in d) (vc_vci_in d))) = None \<Longrightarrow> unlink_vcc d t = t"
  by (auto simp: unlink_vpc_def unlink_vcc_def Let_def find_None_iff unlink_first_none intro!: atmsw_table.equality)

lemma delete_tables:
  "fst (snd (atmsw_delete_vpc t n i vpi j vpo)) =
     (if nio_reg n i = None \<or> nio_reg n j = None then t
      else unlink_vpc \<lparr>vp_input = nio_reg n i, vp_output = nio_reg n j, vp_vpi_in = vpi, vp_vpi_out = vpo, vp_cell_cnt = 0\<rparr> t)"
  "fst (snd (atmsw_delete_vcc t n i vpi vci j vpo vco)) =
     unlink_vcc \<lparr>vc_input = nio_reg n i, vc_output = nio_reg n j, vc_vpi_in = vpi, vc_vci_in = vci, vc_vpi_out = vpo,
       vc_vci_out = vco, vc_cell_cnt = 0\<rparr> t"
  using unlink_absent
  by (auto simp: atmsw_delete_vpc_def atmsw_delete_vcc_def netio_exists_def Let_def split: option.split)

lemma cmd_reg: "nio_reg (snd (exec_cmd c (t, n))) = nio_reg n"
  by (cases c) (auto simp: atmsw_create_vpc_def atmsw_create_vcc_def atmsw_delete_vpc_def atmsw_delete_vcc_def
    atmsw_release_vpc_def atmsw_release_vcc_def acquire split_beta Let_def split: option.split)

lemma find_tables:
  "vp_table t' = vp_table t \<Longrightarrow> vp_find t' = vp_find t" "vc_table t' = vc_table t \<Longrightarrow> vc_find t' = vc_find t"
  by (simp_all add: vp_find_chains vc_find_chains)

lemma ok_tables:
  "vp_table t' = vp_table t \<Longrightarrow> vp_ok t' = vp_ok t" "vc_table t' = vc_table t \<Longrightarrow> vc_ok t' = vc_ok t"
  by (simp_all add: vp_ok_def vc_ok_def)

lemma create_tables:
  "fst (snd (atmsw_create_vpc t n i vpi j vpo)) =
     (if nio_reg n i = None \<or> nio_reg n j = None then t
      else vp.run_op (Create \<lparr>vp_input = nio_reg n i, vp_output = nio_reg n j, vp_vpi_in = vpi, vp_vpi_out = vpo,
        vp_cell_cnt = 0\<rparr>) t)"
  "fst (snd (atmsw_create_vcc t n i vpi vci j vpo vco)) =
     (if nio_reg n i = None \<or> nio_reg n j = None \<or> atmsw_vp_lookup t (nio_reg n i) vpi \<noteq> None then t
      else vc.run_op (Create \<lparr>vc_input = nio_reg n i, vc_output = nio_reg n j, vc_vpi_in = vpi, vc_vci_in = vci,
        vc_vpi_out = vpo, vc_vci_out = vco, vc_cell_cnt = 0\<rparr>) t)"
  by (auto simp: atmsw_create_vpc_def atmsw_create_vcc_def vp.run_op_def vc.run_op_def vp_key_def vc_key_def acquire
      split_beta Let_def)

lemma vp_run_op_vc: "vc_table (vp.run_op c t) = vc_table t"
  by (cases c) (simp_all add: vp.run_op_def link_chains unlink_chains)

lemma vc_run_op_vp: "vp_table (vc.run_op c t) = vp_table t"
  by (cases c) (simp_all add: vc.run_op_def link_chains unlink_chains)

lemma exec_refines:
  assumes "vp_ok t" "vc_ok t"
  shows "vp_ok (fst (exec_cmd c (t, n))) \<and> vc_ok (fst (exec_cmd c (t, n))) \<and>
    (vp_find (fst (exec_cmd c (t, n))), vc_find (fst (exec_cmd c (t, n)))) = spec_cmd (nio_reg n) c (vp_find t, vc_find t)"
proof -
  note p = vp.run_op_refines [OF assms(1)] and q = vc.run_op_refines [OF assms(2)]
  have del: "unlink_vpc v s = vp.run_op (Delete v) s" "unlink_vcc w s = vc.run_op (Delete w) s" for v w s
    by (simp_all add: vp.run_op_def vc.run_op_def)
  show ?thesis
    using assms
    by (cases c) (simp_all add: create_tables delete_tables del p q find_tables(2) [OF vp_run_op_vc]
      find_tables(1) [OF vc_run_op_vp] ok_tables(2) [OF vp_run_op_vc] ok_tables(1) [OF vc_run_op_vp])
qed

lemma exec_all_refine:
  assumes "vp_ok t" "vc_ok t"
  shows "(vp_find (fst (fold exec_cmd cs (t, n))), vc_find (fst (fold exec_cmd cs (t, n)))) =
    fold (spec_cmd (nio_reg n)) cs (vp_find t, vc_find t)"
  using assms
proof (induction cs arbitrary: t n)
  case (Cons c cs)
  obtain t' n' where c: "exec_cmd c (t, n) = (t', n')" by fastforce
  with exec_refines [OF Cons.prems, of c n] cmd_reg [of c t n]
  have "vp_ok t'" "vc_ok t'" "(vp_find t', vc_find t') = spec_cmd (nio_reg n) c (vp_find t, vc_find t)" "nio_reg n' = nio_reg n"
    by simp_all
  with Cons.IH [of t' n'] show ?case by (simp add: c)
qed simp

text \<open>C16: under any sequence of create and delete commands the two connection tables of a switch behave as
  two maps from the incoming label to the connection: a create extends the map unless the label is
  taken (a channel also unless its path is switched as a whole), a delete removes exactly the connection
  with the same end points, and the lookups on the hash chains are the lookups in the maps.\<close>

theorem atmsw_tables_refine_maps:
  "(let t = fst (fold exec_cmd cs (atmsw_create_table name, n))
    in (\<lambda>(input, vpi). atmsw_vp_lookup t input vpi, \<lambda>(input, vpi, vci). atmsw_vc_lookup t input vpi vci)) =
   fold (spec_cmd (nio_reg n)) cs (\<lambda>_. None, \<lambda>_. None)"
proof -
  let ?t0 = "atmsw_create_table name"
  have "vp_ok ?t0" "vc_ok ?t0" "vp_find ?t0 = (\<lambda>_. None)" "vc_find ?t0 = (\<lambda>_. None)"
    by (simp_all only: vp_ok_def vc_ok_def vp_find_chains vc_find_chains atmsw_create_table_def atmsw_table.select_convs
      chains_lookup_empty)
  from exec_all_refine [OF this(1,2), where cs = cs and n = n] this(3,4)
  have "(vp_find (fst (fold exec_cmd cs (?t0, n))), vc_find (fst (fold exec_cmd cs (?t0, n)))) =
      fold (spec_cmd (nio_reg n)) cs (\<lambda>_. None, \<lambda>_. None)"
    by (simp only:)
  then show ?thesis by (simp add: Let_def split_beta')
qed

text \<open>A rejected connection gives back a listener that it never took: the connection it collides with loses
  its receive handler when its count reaches 0.\<close>

lemma rejected_vpc_drops_listener:
  assumes "nio_reg n i = Some p" "nio_reg n j = Some q" "atmsw_vp_lookup t (Some p) vpi \<noteq> None" "rxl_refs n p = 1"
  shows "\<exists>n'. atmsw_create_vpc t n i vpi j vpo = (-1, t, n') \<and> rxl_refs n' p = 0"
  using assms
  by (auto simp: atmsw_create_vpc_def netio_acquire_def atmsw_release_vpc_def release_nios_def netio_rxl_remove_def
    netio_release_def Let_def split: option.split)

section \<open>Example\<close>

definition atm_net :: net where
  "atm_net = \<lparr>nio_tab = (\<lambda>p. netio_create (if p = 0 then ''a'' else ''b'')),
     nio_reg = (\<lambda>s. if s = ''a'' then Some 0 else if s = ''b'' then Some 1 else None),
     nio_refs = (\<lambda>_. 1), rxl_refs = (\<lambda>_. 0), tx_result = (\<lambda>_ f. int (length f)), sent = []\<rparr>"

definition atm_example :: atmsw_table where
  "atm_example = link_vcc \<lparr>vc_input = Some 0, vc_output = Some 1, vc_vpi_in = 1, vc_vci_in = 100, vc_vpi_out = 2,
     vc_vci_out = 200, vc_cell_cnt = 0\<rparr> (atmsw_create_table ''atm'')"

definition example_cell :: "u8 list" where
  "example_cell = [0x00, 0x10, 0x06, 0x42, 0] @ replicate 48 7"

lemma example_route: "route atm_example 0 1 100 = Some (Some 1, 2, 200)"
  by (simp add: route_def atm_example_def link_vcc_def atmsw_create_table_def atmsw_vp_lookup_def atmsw_vc_lookup_def Let_def)

lemma example_label: "cell_vpi example_cell = 1" "cell_vci example_cell = 100"
  by (simp_all add: example_cell_def cell_vpi_def cell_vci_def cell_header_def m_ntoh32_def ATM_HDR_VPI_MASK_def
    ATM_HDR_VCI_MASK_def atm_shifts)


end
