(* ===== verification/AtmVsar.thy ===== *)
theory AtmVsar
  imports AtmSwitchProps
begin

text \<open>
  AAL5 segmentation and reassembly (\<open>common/atm_vsar.c\<close>) and the RFC 1483 bridge between an Ethernet and an
  ATM descriptor (\<open>common/atm_bridge.c\<close>). The CRC-32 of zlib, to which \<open>crc32_compute\<close> of \<open>common/crc.cpp\<close>
  passes its bytes, is the parameter \<open>crc32_z\<close>. Buffers are byte lists; allocation and registration always
  succeed, the lock is always obtained, and the configuration file is not modelled.
\<close>

section \<open>Segmentation\<close>

definition ATM_HDR_SIZE :: nat where "ATM_HDR_SIZE = 5"
definition ATM_PAYLOAD_SIZE :: nat where "ATM_PAYLOAD_SIZE = 48"
definition ATM_AAL5_TRAILER_SIZE :: nat where "ATM_AAL5_TRAILER_SIZE = 8"
definition ATM_AAL5_TRAILER_POS :: nat where "ATM_AAL5_TRAILER_POS = ATM_CELL_SIZE - ATM_AAL5_TRAILER_SIZE"
definition ATM_PTI_EOP :: u32 where "ATM_PTI_EOP = 0x00000002"
definition ATM_PTI_NETWORK :: u32 where "ATM_PTI_NETWORK = 0x00000008"
definition ATM_RFC1483B_HLEN :: nat where "ATM_RFC1483B_HLEN = 10"

definition atm_rfc1483b_header :: "u8 list" where
  "atm_rfc1483b_header = [0xaa, 0xaa, 0x03, 0x00, 0x80, 0xc2, 0x00, 0x07, 0x00, 0x00]"

type_synonym crc_fn = "u32 \<Rightarrow> u8 list \<Rightarrow> u32"

definition crc32_compute :: "crc_fn \<Rightarrow> u32 \<Rightarrow> u8 list \<Rightarrow> u32" where
  "crc32_compute crc32_z accumulator data =
     (if length data \<le> 0 then NOT accumulator else crc32_z (NOT accumulator) data)"

text \<open>\<open>memcpy\<close> and \<open>memset\<close> into an array.\<close>

definition copy_to :: "nat \<Rightarrow> u8 list \<Rightarrow> u8 list \<Rightarrow> u8 list" where
  "copy_to pos bs mem = take pos mem @ bs @ drop (pos + length bs) mem"

record atm_seg_context =
  seg_nio :: "nio option"
  txfifo_cell :: "u8 list"
  txfifo_pos :: nat
  txfifo_avail :: nat
  aal5_len :: nat
  aal5_crc :: u32
  atm_hdr :: u32
  seg_buffer :: "u8 list"

definition atm_send_cell :: "atm_seg_context \<times> net \<Rightarrow> atm_seg_context \<times> net" where
  "atm_send_cell = (\<lambda>(asc, n).
     let asc = asc\<lparr>txfifo_cell := set_cell_header (txfifo_cell asc) (atm_hdr asc)\<rparr>;
         asc = asc\<lparr>txfifo_cell := atm_insert_hec (txfifo_cell asc)\<rparr>
     in (asc, snd (netio_send (seg_nio asc) (take ATM_CELL_SIZE (txfifo_cell asc)) n)))"

definition atm_clear_tx_fifo :: "atm_seg_context \<Rightarrow> atm_seg_context" where
  "atm_clear_tx_fifo asc =
     asc\<lparr>txfifo_avail := ATM_PAYLOAD_SIZE, txfifo_pos := ATM_HDR_SIZE, txfifo_cell := replicate ATM_CELL_SIZE 0\<rparr>"

definition atm_add_tx_padding :: "atm_seg_context \<Rightarrow> nat \<Rightarrow> atm_seg_context" where
  "atm_add_tx_padding asc len =
     (let len = (if len > txfifo_avail asc then txfifo_avail asc else len)
      in asc\<lparr>txfifo_cell := copy_to (txfifo_pos asc) (replicate len 0) (txfifo_cell asc),
             txfifo_pos := txfifo_pos asc + len, txfifo_avail := txfifo_avail asc - len\<rparr>)"

definition atm_send_fifo :: "crc_fn \<Rightarrow> atm_seg_context \<times> net \<Rightarrow> atm_seg_context \<times> net" where
  "atm_send_fifo crc32_z = (\<lambda>(asc, n).
     if txfifo_avail asc = 0 then
       (let asc = asc\<lparr>aal5_crc := crc32_compute crc32_z (NOT (aal5_crc asc))
                    (take ATM_PAYLOAD_SIZE (drop ATM_HDR_SIZE (txfifo_cell asc)))\<rparr>;
            (asc, n) = atm_send_cell (asc, n)
        in (atm_clear_tx_fifo asc, n))
     else (asc, n))"

text \<open>The result of \<open>atm_store_fifo\<close> is never used.\<close>

definition atm_store_fifo :: "crc_fn \<Rightarrow> atm_seg_context \<times> net \<Rightarrow> atm_seg_context \<times> net" where
  "atm_store_fifo crc32_z = (\<lambda>(asc, n).
     let len = min (length (seg_buffer asc)) (txfifo_avail asc);
         asc = asc\<lparr>txfifo_cell := copy_to (txfifo_pos asc) (take len (seg_buffer asc)) (txfifo_cell asc)\<rparr>;
         asc = asc\<lparr>seg_buffer := drop len (seg_buffer asc), txfifo_pos := txfifo_pos asc + len,
                   txfifo_avail := txfifo_avail asc - len\<rparr>
     in if txfifo_avail asc = 0 then atm_send_fifo crc32_z (asc, n) else (asc, n))"

definition atm_aal5_add_trailer :: "crc_fn \<Rightarrow> atm_seg_context \<Rightarrow> atm_seg_context" where
  "atm_aal5_add_trailer crc32_z asc =
     (let asc = asc\<lparr>txfifo_cell := copy_to ATM_AAL5_TRAILER_POS (m_hton32 (of_nat (aal5_len asc))) (txfifo_cell asc)\<rparr>;
          asc = asc\<lparr>aal5_crc := crc32_compute crc32_z (NOT (aal5_crc asc))
                  (take (ATM_PAYLOAD_SIZE - 4) (drop ATM_HDR_SIZE (txfifo_cell asc)))\<rparr>;
          asc = asc\<lparr>txfifo_cell := copy_to (ATM_AAL5_TRAILER_POS + 4) (m_hton32 (aal5_crc asc)) (txfifo_cell asc)\<rparr>
      in asc\<lparr>txfifo_avail := 0\<rparr>)"

text \<open>What the loop below decreases.\<close>

lemma store_fifo_measure:
  assumes "seg_buffer asc \<noteq> []"
  shows "(case atm_store_fifo z (asc, n) of (asc', _) \<Rightarrow> 2 * length (seg_buffer asc') + (if txfifo_avail asc' = 0 then 1 else 0)) <
         2 * length (seg_buffer asc) + (if txfifo_avail asc = 0 then 1 else (0::nat))"
  using assms
  by (cases "txfifo_avail asc") (auto simp: atm_store_fifo_def Let_def atm_send_fifo_def atm_send_cell_def atm_clear_tx_fifo_def
    ATM_PAYLOAD_SIZE_def min_def split: if_splits prod.splits)

text \<open>\<open>while (asc.buf_len > 0) atm_store_fifo(&asc)\<close>. A store into a full FIFO only empties it, so every
  second round consumes bytes.\<close>

function atm_store_all :: "crc_fn \<Rightarrow> atm_seg_context \<times> net \<Rightarrow> atm_seg_context \<times> net" where
  "atm_store_all crc32_z (asc, n) =
     (if length (seg_buffer asc) > 0 then atm_store_all crc32_z (atm_store_fifo crc32_z (asc, n)) else (asc, n))"
  by pat_completeness auto
termination
proof (relation "measure (\<lambda>(_, asc, _). 2 * length (seg_buffer asc) + (if txfifo_avail asc = 0 then 1 else 0))")
  fix z and asc :: atm_seg_context and n :: net assume "0 < length (seg_buffer asc)"
  then show "((z, atm_store_fifo z (asc, n)), z, asc, n) \<in>
      measure (\<lambda>(_, asc, _). 2 * length (seg_buffer asc) + (if txfifo_avail asc = 0 then 1 else 0))"
    using store_fifo_measure [of asc z n] unfolding in_measure prod.case length_greater_0_conv by simp
qed simp

declare atm_store_all.simps [simp del]

definition atm_aal5_send :: "crc_fn \<Rightarrow> net \<Rightarrow> nio option \<Rightarrow> u32 \<Rightarrow> u32 \<Rightarrow> u8 list list \<Rightarrow> int \<times> net" where
  "atm_aal5_send crc32_z n nio vpi vci iov =
     (let asc = \<lparr>seg_nio = nio, txfifo_cell = [], txfifo_pos = 0, txfifo_avail = 0, aal5_len = 0, aal5_crc = 0,
                atm_hdr = 0, seg_buffer = []\<rparr>;
          asc = atm_clear_tx_fifo asc;
          asc = asc\<lparr>atm_hdr := push_bit ATM_HDR_VPI_SHIFT vpi\<rparr>;
          asc = asc\<lparr>atm_hdr := atm_hdr asc OR push_bit ATM_HDR_VCI_SHIFT vci\<rparr>;
          (asc, n) = fold (\<lambda>v (asc, n). atm_store_all crc32_z (asc\<lparr>seg_buffer := v, aal5_len := aal5_len asc + length v\<rparr>, n))
            iov (asc, n);
          (asc, n) = (if txfifo_avail asc < ATM_AAL5_TRAILER_SIZE
                      then atm_send_fifo crc32_z (atm_add_tx_padding asc (txfifo_avail asc), n) else (asc, n));
          asc = asc\<lparr>atm_hdr := atm_hdr asc OR ATM_PTI_EOP\<rparr>;
          asc = atm_add_tx_padding asc (txfifo_avail asc - ATM_AAL5_TRAILER_SIZE);
          asc = atm_aal5_add_trailer crc32_z asc;
          (asc, n) = atm_send_cell (asc, n)
      in (0, n))"

definition atm_aal5_send_rfc1483b :: "crc_fn \<Rightarrow> net \<Rightarrow> nio option \<Rightarrow> u32 \<Rightarrow> u32 \<Rightarrow> u8 list \<Rightarrow> int \<times> net" where
  "atm_aal5_send_rfc1483b crc32_z n nio vpi vci pkt = atm_aal5_send crc32_z n nio vpi vci [atm_rfc1483b_header, pkt]"

section \<open>Reassembly\<close>

definition ATM_REAS_MAX_SIZE :: nat where "ATM_REAS_MAX_SIZE = 16384"

record atm_reas_context =
  reas_buffer :: "u8 list"
  reas_pos :: nat
  reas_len :: nat

definition atm_aal5_recv_reset :: "atm_reas_context \<Rightarrow> atm_reas_context" where
  "atm_aal5_recv_reset arc = arc\<lparr>reas_pos := 0, reas_len := 0\<rparr>"

definition atm_aal5_recv :: "atm_reas_context \<Rightarrow> u8 list \<Rightarrow> int \<times> atm_reas_context" where
  "atm_aal5_recv arc cell =
     (if reas_pos arc + ATM_PAYLOAD_SIZE > ATM_REAS_MAX_SIZE then (-1, atm_aal5_recv_reset arc)
      else
        (let atm_hdr = cell_header cell in
         if atm_hdr AND ATM_PTI_NETWORK \<noteq> 0 then (2, arc)
         else
           (let arc = arc\<lparr>reas_buffer := copy_to (reas_pos arc) (take ATM_PAYLOAD_SIZE (drop ATM_HDR_SIZE cell)) (reas_buffer arc)\<rparr>;
                arc = arc\<lparr>reas_pos := reas_pos arc + ATM_PAYLOAD_SIZE\<rparr>
            in if atm_hdr AND ATM_PTI_EOP \<noteq> 0 then
                 (let arc = arc\<lparr>reas_len := unat (m_ntoh16 (cell ! (ATM_AAL5_TRAILER_POS + 2)) (cell ! (ATM_AAL5_TRAILER_POS + 3)))\<rparr>
                  in (if reas_len arc \<le> reas_pos arc then 1 else -2, arc))
               else (0, arc))))"

section \<open>The bridge\<close>

record atm_bridge =
  br_name :: string
  eth_nio :: "nio option"
  atm_nio :: "nio option"
  br_vpi :: u32
  br_vci :: u32
  br_arc :: atm_reas_context

definition atm_bridge_recv_cell :: "atm_bridge \<Rightarrow> net \<Rightarrow> u8 list \<Rightarrow> nat \<Rightarrow> int \<times> atm_bridge \<times> net" where
  "atm_bridge_recv_cell t n atm_cell cell_len =
     (if cell_len \<noteq> ATM_CELL_SIZE then (-1, t, n)
      else
        (let vpi = cell_vpi atm_cell; vci = cell_vci atm_cell in
         if br_vpi t \<noteq> vpi \<or> br_vci t \<noteq> vci then (0, t, n)
         else
           (let (status, arc) = atm_aal5_recv (br_arc t) atm_cell in
            if status = 1 then
              (0, t\<lparr>br_arc := atm_aal5_recv_reset arc\<rparr>,
               if reas_len arc > ATM_RFC1483B_HLEN \<and> take ATM_RFC1483B_HLEN (reas_buffer arc) = atm_rfc1483b_header
               then snd (netio_send (eth_nio t)
                      (take (reas_len arc - ATM_RFC1483B_HLEN) (drop ATM_RFC1483B_HLEN (reas_buffer arc))) n)
               else n)
            else if status < 0 then (-1, t\<lparr>br_arc := atm_aal5_recv_reset arc\<rparr>, n)
            else (0, t\<lparr>br_arc := arc\<rparr>, n))))"

definition atm_bridge_recv_pkt :: "crc_fn \<Rightarrow> atm_bridge \<Rightarrow> net \<Rightarrow> u8 list \<Rightarrow> nat \<Rightarrow> int \<times> net" where
  "atm_bridge_recv_pkt crc32_z t n pkt len =
     atm_aal5_send_rfc1483b crc32_z n (atm_nio t) (br_vpi t) (br_vci t) (take len pkt)"

definition atm_bridge_create :: "string \<Rightarrow> atm_bridge" where
  "atm_bridge_create name =
     \<lparr>br_name = name, eth_nio = None, atm_nio = None, br_vpi = 0, br_vci = 0,
      br_arc = \<lparr>reas_buffer = replicate ATM_REAS_MAX_SIZE 0, reas_pos = 0, reas_len = 0\<rparr>\<rparr>"

definition atm_bridge_configure ::
    "atm_bridge \<Rightarrow> net \<Rightarrow> string \<Rightarrow> string \<Rightarrow> u32 \<Rightarrow> u32 \<Rightarrow> int \<times> atm_bridge \<times> net" where
  "atm_bridge_configure t n eth atm vpi vci =
     (if eth_nio t \<noteq> None \<or> atm_nio t \<noteq> None then (-1, t, n)
      else
        (let (e_nio, n) = netio_acquire n eth; (a_nio, n) = netio_acquire n atm in
         if e_nio = None \<or> a_nio = None then (-1, t, n)
         else (0, t\<lparr>eth_nio := e_nio, atm_nio := a_nio, br_vpi := vpi, br_vci := vci\<rparr>,
               netio_rxl_add (the e_nio) (netio_rxl_add (the a_nio) n))))"

definition atm_bridge_clear_config :: "atm_bridge \<Rightarrow> net \<Rightarrow> atm_bridge \<times> net" where
  "atm_bridge_clear_config t n =
     (let n = (case eth_nio t of None \<Rightarrow> n
                 | Some p \<Rightarrow> snd (netio_release (netio_rxl_remove p n) (nio_name (nio_tab n p))));
          n = (case atm_nio t of None \<Rightarrow> n
                 | Some p \<Rightarrow> snd (netio_release (netio_rxl_remove p n) (nio_name (nio_tab n p))))
      in (t\<lparr>eth_nio := None, atm_nio := None\<rparr>, n))"

definition atm_bridge_unconfigure :: "atm_bridge \<Rightarrow> net \<Rightarrow> int \<times> atm_bridge \<times> net" where
  "atm_bridge_unconfigure t n = (0, atm_bridge_clear_config t n)"

definition atm_bridge_free :: "atm_bridge \<Rightarrow> net \<Rightarrow> net" where
  "atm_bridge_free t n = snd (atm_bridge_clear_config t n)"

end
