(* ===== verification/AtmVsarProps.thy ===== *)
theory AtmVsarProps
  imports AtmVsar
begin

text \<open>
  Properties of AAL5 and of the RFC 1483 bridge of theory AtmVsar: what segmentation sends, what
  reassembly makes of cells that arrive in order, and the round trip of a frame between two bridges with
  any switches between them. The receiver checks neither CRC (\<open>recv_ignores_crc\<close>).
\<close>

section \<open>Bytes as cells\<close>

fun cell_chunks :: "u8 list \<Rightarrow> u8 list list" where
  "cell_chunks xs = (if length xs < 48 then [] else take 48 xs # cell_chunks (drop 48 xs))"

fun cell_rest :: "u8 list \<Rightarrow> u8 list" where
  "cell_rest xs = (if length xs < 48 then xs else cell_rest (drop 48 xs))"

declare cell_chunks.simps [simp del] cell_rest.simps [simp del]

lemma cell_rest_length: "length (cell_rest xs) = length xs mod 48"
  by (induction xs rule: cell_rest.induct) (subst cell_rest.simps, auto simp: le_mod_geq not_less)

lemma chunks_rest: "concat (cell_chunks xs) @ cell_rest xs = xs"
  by (induction xs rule: cell_rest.induct) (subst cell_rest.simps, subst cell_chunks.simps, auto)

lemma chunks_small: "length xs < 48 \<Longrightarrow> cell_chunks xs = [] \<and> cell_rest xs = xs"
  by (simp add: cell_chunks.simps cell_rest.simps)

lemma chunks_step:
  "48 \<le> length xs \<Longrightarrow> cell_chunks xs = take 48 xs # cell_chunks (drop 48 xs) \<and> cell_rest xs = cell_rest (drop 48 xs)"
  using cell_chunks.simps [of xs] cell_rest.simps [of xs] by simp

lemma chunks_append:
  "length (cell_rest xs) + length ys < 48 \<Longrightarrow> cell_chunks (xs @ ys) = cell_chunks xs \<and> cell_rest (xs @ ys) = cell_rest xs @ ys"
  "length (cell_rest xs) + length ys = 48 \<Longrightarrow>
     cell_chunks (xs @ ys) = cell_chunks xs @ [cell_rest xs @ ys] \<and> cell_rest (xs @ ys) = []"
proof (induction xs rule: cell_rest.induct)
  case (1 xs)
  { case 1
    show ?case
    proof (cases "length xs < 48")
      case True with 1 show ?thesis by (simp add: chunks_small)
    next
      case False with "1.IH"(1) [OF False] 1 show ?thesis
        using chunks_step [of xs] chunks_step [of "xs @ ys"] by simp
    qed
  next
    case 2
    show ?case
    proof (cases "length xs < 48")
      case True
      with 2 have "length (xs @ ys) = 48" by (simp add: chunks_small)
      with True show ?thesis using chunks_step [of "xs @ ys"] by (simp add: chunks_small)
    next
      case False with "1.IH"(2) [OF False] 2 show ?thesis
        using chunks_step [of xs] chunks_step [of "xs @ ys"] by simp
    qed }
qed

lemma chunk_length: "c \<in> set (cell_chunks xs) \<Longrightarrow> length c = 48"
  by (induction xs rule: cell_chunks.induct) (subst (asm) (2) cell_chunks.simps, auto split: if_splits)

lemma chunk_count: "length (cell_chunks xs) = length xs div 48"
  by (induction xs rule: cell_chunks.induct) (subst cell_chunks.simps, auto simp: not_less le_div_geq)

section \<open>What segmentation sends\<close>

definition seg_cell :: "u32 \<Rightarrow> u8 list \<Rightarrow> u8 list" where
  "seg_cell hdr payload = atm_insert_hec (m_hton32 hdr @ 0 # payload)"

definition fifo :: "atm_seg_context \<Rightarrow> u8 list \<Rightarrow> bool" where
  "fifo asc f \<longleftrightarrow> (\<exists>h r. txfifo_cell asc = h @ f @ r \<and> length h = 5 \<and> length f + length r = 48) \<and>
     txfifo_pos asc = 5 + length f \<and> txfifo_avail asc = 48 - length f"

lemmas atm_sizes = ATM_CELL_SIZE_def ATM_PAYLOAD_SIZE_def ATM_HDR_SIZE_def ATM_AAL5_TRAILER_SIZE_def ATM_AAL5_TRAILER_POS_def

lemma copy_to_split: "length a = pos \<Longrightarrow> copy_to pos bs (a @ r) = a @ bs @ drop (length bs) r"
  by (simp add: copy_to_def)

lemma fifo_store:
  assumes "fifo asc f" "length f + length bs \<le> 48"
  shows "fifo (asc\<lparr>txfifo_cell := copy_to (txfifo_pos asc) bs (txfifo_cell asc), txfifo_pos := txfifo_pos asc + length bs,
    txfifo_avail := txfifo_avail asc - length bs\<rparr>) (f @ bs)"
proof -
  obtain h r where h: "txfifo_cell asc = h @ f @ r" "length h = 5" "length f + length r = 48"
    "txfifo_pos asc = 5 + length f" "txfifo_avail asc = 48 - length f"
    using assms(1) by (auto simp: fifo_def)
  have "copy_to (5 + length f) bs ((h @ f) @ r) = (h @ f) @ bs @ drop (length bs) r"
    by (rule copy_to_split) (simp add: h)
  then have "copy_to (5 + length f) bs (h @ f @ r) = h @ (f @ bs) @ drop (length bs) r" by simp
  moreover have "length (f @ bs) + length (drop (length bs) r) = 48" using h assms(2) by simp
  ultimately show ?thesis using h(2,4,5) unfolding fifo_def h(1) by fastforce
qed

lemma fifo_clear: "fifo (atm_clear_tx_fifo asc) []"
proof -
  have "replicate 53 (0 :: u8) = replicate 5 0 @ [] @ replicate 48 0" by (simp flip: replicate_add)
  then show ?thesis unfolding fifo_def atm_clear_tx_fifo_def atm_sizes by force
qed

lemma fifo_full: "fifo asc f \<Longrightarrow> length f = 48 \<Longrightarrow> take 48 (drop 5 (txfifo_cell asc)) = f"
  by (auto simp: fifo_def)

lemma seg_cell_header:
  assumes "length h = 5" "length f = 48"
  shows "take ATM_CELL_SIZE (atm_insert_hec (set_cell_header (h @ f) hdr)) = seg_cell hdr f"
proof -
  obtain a b c d e where "h = [a, b, c, d, e]" using assms(1) by (auto simp: length_Suc_conv eval_nat_numeral)
  then show ?thesis
    by (simp add: seg_cell_def atm_insert_hec_def set_cell_header_def m_hton32_def atm_compute_hec_def atm_sizes assms(2)
      upt_rec)
qed

lemma seg_cell_sent:
  assumes "fifo asc f" "length f = 48"
  shows "take ATM_CELL_SIZE (atm_insert_hec (set_cell_header (txfifo_cell asc) hdr)) = seg_cell hdr f"
  using assms seg_cell_header [of _ f hdr] by (auto simp: fifo_def)

abbreviation crc_chunks :: "crc_fn \<Rightarrow> u8 list list \<Rightarrow> u32 \<Rightarrow> u32" where
  "crc_chunks z cs \<equiv> fold (\<lambda>c r. z r c) cs"

text \<open>The state after the bytes \<open>d\<close>: their full cells are sent, the rest is in the FIFO.\<close>

definition seg_inv :: "crc_fn \<Rightarrow> net \<Rightarrow> nio \<Rightarrow> u32 \<Rightarrow> u8 list \<Rightarrow> atm_seg_context \<times> net \<Rightarrow> bool" where
  "seg_inv z n0 p hdr d = (\<lambda>(asc, n). fifo asc (cell_rest d) \<and> seg_nio asc = Some p \<and> atm_hdr asc = hdr \<and>
     aal5_crc asc = crc_chunks z (cell_chunks d) 0 \<and> same_net n0 n \<and>
     sent n = sent n0 @ map (\<lambda>c. (p, seg_cell hdr c)) (cell_chunks d))"

lemma send_unfiltered: "unfiltered n0 p \<Longrightarrow> same_net n0 n \<Longrightarrow> sent (net_send p m n) = sent n @ [(p, m)]"
  using nio_ports.same_admits by (intro netio_send_unfiltered) blast

lemma crc32_compute_chunk: "length c = Suc k \<Longrightarrow> crc32_compute z (NOT r) c = z r c"
  by (simp add: crc32_compute_def)

lemma seg_inv_send:
  assumes "unfiltered n0 p" "same_net n0 n" "fifo asc (cell_rest d @ x)" "length (cell_rest d @ x) = 48" "seg_nio asc = Some p"
    "atm_hdr asc = hdr" "aal5_crc asc = crc_chunks z (cell_chunks d) 0"
    "sent n = sent n0 @ map (\<lambda>c. (p, seg_cell hdr c)) (cell_chunks d)"
  shows "seg_inv z n0 p hdr (d @ x) (atm_send_fifo z (asc, n)) \<and>
    seg_buffer (fst (atm_send_fifo z (asc, n))) = seg_buffer asc \<and> aal5_len (fst (atm_send_fifo z (asc, n))) = aal5_len asc"
proof -
  have avail: "txfifo_avail asc = 0" using assms(3,4) by (simp add: fifo_def)
  have pay: "take 48 (drop 5 (txfifo_cell asc)) = cell_rest d @ x" by (rule fifo_full [OF assms(3,4)])
  have crc: "crc32_compute z (NOT (aal5_crc asc)) (cell_rest d @ x) = z (aal5_crc asc) (cell_rest d @ x)"
    using assms(4) by (intro crc32_compute_chunk [where k = 47]) simp
  have same: "same_net n0 (net_send p m n)" for m
    using assms(2) netio_send_net same_net_trans by blast
  note c = chunks_append(2) [of d x] assms(4)
  show ?thesis
    using c assms(5-8) pay crc same fifo_clear seg_cell_sent [OF assms(3,4), of hdr] send_unfiltered [OF assms(1,2)]
    by (auto simp: seg_inv_def atm_send_fifo_def avail Let_def atm_send_cell_def atm_clear_tx_fifo_def ATM_PAYLOAD_SIZE_def
      ATM_HDR_SIZE_def fifo_def split: prod.splits)
qed

lemma fifo_cong:
  "fifo a f \<Longrightarrow> txfifo_cell b = txfifo_cell a \<Longrightarrow> txfifo_pos b = txfifo_pos a \<Longrightarrow> txfifo_avail b = txfifo_avail a \<Longrightarrow> fifo b f"
  by (simp only: fifo_def)

lemma store_fifo_inv:
  assumes "unfiltered n0 p" "seg_inv z n0 p hdr d (asc, n)" "k = min (length (seg_buffer asc)) (48 - length (cell_rest d))"
    "0 < k"
  shows "seg_inv z n0 p hdr (d @ take k (seg_buffer asc)) (atm_store_fifo z (asc, n)) \<and>
    seg_buffer (fst (atm_store_fifo z (asc, n))) = drop k (seg_buffer asc) \<and>
    aal5_len (fst (atm_store_fifo z (asc, n))) = aal5_len asc"
proof -
  let ?x = "take k (seg_buffer asc)"
  let ?asc = "asc\<lparr>txfifo_cell := copy_to (txfifo_pos asc) ?x (txfifo_cell asc), seg_buffer := drop k (seg_buffer asc),
     txfifo_pos := txfifo_pos asc + k, txfifo_avail := txfifo_avail asc - k\<rparr>"
  have inv: "fifo asc (cell_rest d)" "seg_nio asc = Some p" "atm_hdr asc = hdr" "aal5_crc asc = crc_chunks z (cell_chunks d) 0"
    "same_net n0 n" "sent n = sent n0 @ map (\<lambda>c. (p, seg_cell hdr c)) (cell_chunks d)"
    using assms(2) by (simp_all add: seg_inv_def)
  have avail: "txfifo_avail asc = 48 - length (cell_rest d)" "length (cell_rest d) \<le> 48" using inv(1) by (auto simp: fifo_def)
  have lx: "length ?x = k" "length (cell_rest d) + length ?x \<le> 48" using assms(3) avail(2) by auto
  have f: "fifo ?asc (cell_rest d @ ?x)"
    using fifo_store [OF inv(1) lx(2), unfolded lx(1)] by (rule fifo_cong) simp_all
  have mk: "min (length (seg_buffer asc)) (txfifo_avail asc) = k" by (simp only: assms(3) avail(1))
  have st: "atm_store_fifo z (asc, n) = (if txfifo_avail ?asc = 0 then atm_send_fifo z (?asc, n) else (?asc, n))"
    unfolding atm_store_fifo_def Let_def prod.case mk by simp
  show ?thesis
  proof (cases "length (cell_rest d @ ?x) = 48")
    case True
    then have "txfifo_avail ?asc = 0" using f by (simp add: fifo_def)
    with seg_inv_send [OF assms(1) inv(5) f True, of hdr z] inv show ?thesis by (simp add: st)
  next
    case False
    with lx have c: "length (cell_rest d) + length ?x < 48" by simp
    then have "txfifo_avail ?asc \<noteq> 0" using lx avail by simp
    with c f inv chunks_append(1) [OF c] show ?thesis by (simp add: st seg_inv_def)
  qed
qed

lemma store_all_inv:
  assumes "unfiltered n0 p" "seg_inv z n0 p hdr d (asc, n)"
  shows "seg_inv z n0 p hdr (d @ seg_buffer asc) (atm_store_all z (asc, n)) \<and>
    aal5_len (fst (atm_store_all z (asc, n))) = aal5_len asc"
  using assms(2)
proof (induction "length (seg_buffer asc)" arbitrary: d asc n rule: less_induct)
  case less
  show ?case
  proof (cases "seg_buffer asc = []")
    case True
    then show ?thesis using less.prems by (simp add: atm_store_all.simps)
  next
    case False
    let ?k = "min (length (seg_buffer asc)) (48 - length (cell_rest d))"
    have k: "0 < ?k" using False by (simp add: cell_rest_length)
    obtain asc' n' where s: "atm_store_fifo z (asc, n) = (asc', n')" by fastforce
    from store_fifo_inv [OF assms(1) less.prems refl k]
    have a: "seg_inv z n0 p hdr (d @ take ?k (seg_buffer asc)) (asc', n')" "seg_buffer asc' = drop ?k (seg_buffer asc)"
      "aal5_len asc' = aal5_len asc" by (simp_all add: s)
    have "length (seg_buffer asc') < length (seg_buffer asc)" using a(2) k by simp
    from less.hyps [OF this a(1)] a(2,3)
    have "seg_inv z n0 p hdr (d @ seg_buffer asc) (atm_store_all z (asc', n')) \<and>
        aal5_len (fst (atm_store_all z (asc', n'))) = aal5_len asc" by simp
    then show ?thesis using False by (simp add: atm_store_all.simps [of z asc n] s)
  qed
qed

lemma store_iov_inv:
  assumes "unfiltered n0 p" "seg_inv z n0 p hdr d (asc, n)" "aal5_len asc = length d"
  shows "case fold (\<lambda>v (asc, n). atm_store_all z (asc\<lparr>seg_buffer := v, aal5_len := aal5_len asc + length v\<rparr>, n)) iov (asc, n) of
    (asc', n') \<Rightarrow> seg_inv z n0 p hdr (d @ concat iov) (asc', n') \<and> aal5_len asc' = length (d @ concat iov)"
  using assms(2,3)
proof (induction iov arbitrary: d asc n)
  case (Cons v iov)
  let ?a = "asc\<lparr>seg_buffer := v, aal5_len := aal5_len asc + length v\<rparr>"
  have "seg_inv z n0 p hdr d (?a, n)" using Cons.prems by (simp add: seg_inv_def fifo_def)
  from store_all_inv [OF assms(1) this] obtain a' n' where s: "atm_store_all z (?a, n) = (a', n')"
    "seg_inv z n0 p hdr (d @ v) (a', n')" "aal5_len a' = length (d @ v)"
    using Cons.prems(2) by (cases "atm_store_all z (?a, n)") simp
  from Cons.IH [OF s(2,3)] show ?case by (simp add: s(1))
qed simp

text \<open>The PDU: the data, padding, the length and the CRC, a whole number of cells.\<close>

definition aal5_pad :: "nat \<Rightarrow> nat" where
  "aal5_pad len = (48 - (len + 8) mod 48) mod 48"

definition aal5_pdu :: "crc_fn \<Rightarrow> u8 list \<Rightarrow> u8 list" where
  "aal5_pdu z d =
     (let body = d @ replicate (aal5_pad (length d)) 0 @ m_hton32 (of_nat (length d)) in body @ m_hton32 (z 0 body))"

definition aal5_cells :: "u32 \<Rightarrow> u8 list \<Rightarrow> u8 list list" where
  "aal5_cells hdr pdu = map (seg_cell hdr) (butlast (cell_chunks pdu)) @ [seg_cell (hdr OR ATM_PTI_EOP) (last (cell_chunks pdu))]"

lemma pad_zeros: "fifo asc f \<Longrightarrow> length f + k \<le> 48 \<Longrightarrow> fifo (atm_add_tx_padding asc k) (f @ replicate k 0)"
  using fifo_store [of asc f "replicate k 0"] by (simp add: atm_add_tx_padding_def fifo_def)

lemma aal5_pad_mod: "aal5_pad len = (if len mod 48 \<le> 40 then 40 - len mod 48 else 88 - len mod 48)"
proof -
  have "(len + 8) mod 48 = (if len mod 48 < 40 then len mod 48 + 8 else len mod 48 - 40)"
    using mod_less_divisor [of 48 len] by (subst mod_add_eq [symmetric], cases "len mod 48 < 40") (simp_all add: le_mod_geq)
  then show ?thesis using mod_less_divisor [of 48 len] unfolding aal5_pad_def by auto
qed

lemma crc_concat:
  assumes "\<And>r a b. z (z r a) b = z r (a @ b)"
  shows "z (crc_chunks z cs r) x = z r (concat cs @ x)"
  by (induction cs arbitrary: r) (simp_all add: assms)

lemma trailer_txfifo:
  "txfifo_cell (atm_aal5_add_trailer z a) =
     copy_to (ATM_AAL5_TRAILER_POS + 4)
       (m_hton32 (crc32_compute z (NOT (aal5_crc a)) (take (ATM_PAYLOAD_SIZE - 4) (drop ATM_HDR_SIZE
          (copy_to ATM_AAL5_TRAILER_POS (m_hton32 (of_nat (aal5_len a))) (txfifo_cell a))))))
       (copy_to ATM_AAL5_TRAILER_POS (m_hton32 (of_nat (aal5_len a))) (txfifo_cell a))"
  by (simp add: atm_aal5_add_trailer_def Let_def)

lemma trailer_cell:
  assumes "fifo a f" "length f = 40"
  shows "\<exists>h. length h = 5 \<and>
    txfifo_cell (atm_aal5_add_trailer z a) = h @ f @ m_hton32 (of_nat (aal5_len a)) @
      m_hton32 (z (aal5_crc a) (f @ m_hton32 (of_nat (aal5_len a))))"
proof -
  let ?l = "m_hton32 (of_nat (aal5_len a))"
  obtain h r where h: "txfifo_cell a = h @ f @ r" "length h = 5" "length r = 8" using assms by (auto simp: fifo_def)
  have l: "length (m_hton32 w) = 4" for w by (simp add: m_hton32_def)
  have 1: "copy_to ATM_AAL5_TRAILER_POS ?l (txfifo_cell a) = (h @ f) @ ?l @ drop 4 r"
    using copy_to_split [of "h @ f" ATM_AAL5_TRAILER_POS ?l r] h assms(2) by (simp add: atm_sizes l)
  have 2: "copy_to (ATM_AAL5_TRAILER_POS + 4) (m_hton32 w) ((h @ f) @ ?l @ drop 4 r) = h @ f @ ?l @ m_hton32 w" for w
    using copy_to_split [of "h @ f @ ?l" "ATM_AAL5_TRAILER_POS + 4" "m_hton32 w" "drop 4 r"] h assms(2) by (simp add: atm_sizes l)
  have p: "take (ATM_PAYLOAD_SIZE - 4) (drop ATM_HDR_SIZE ((h @ f) @ ?l @ drop 4 r)) = f @ ?l"
    using h assms(2) by (simp add: atm_sizes l)
  have c: "crc32_compute z (NOT r) (f @ ?l) = z r (f @ ?l)" for r
    by (rule crc32_compute_chunk [where k = 43]) (simp add: l assms(2))
  show ?thesis
    by (rule exI [of _ h]) (simp only: trailer_txfifo 1 2 p c h(2) simp_thms)
qed

lemma flush_inv:
  assumes "unfiltered n0 p" "seg_inv z n0 p hdr d (asc, n)" "40 < length (cell_rest d)"
  shows "seg_inv z n0 p hdr (d @ replicate (48 - length (cell_rest d)) 0)
      (atm_send_fifo z (atm_add_tx_padding asc (txfifo_avail asc), n)) \<and>
    aal5_len (fst (atm_send_fifo z (atm_add_tx_padding asc (txfifo_avail asc), n))) = aal5_len asc"
proof -
  let ?k = "48 - length (cell_rest d)" let ?a = "atm_add_tx_padding asc (txfifo_avail asc)"
  have l: "length (cell_rest d) < 48" by (simp add: cell_rest_length)
  have inv: "fifo asc (cell_rest d)" "seg_nio asc = Some p" "atm_hdr asc = hdr" "aal5_crc asc = crc_chunks z (cell_chunks d) 0"
    "same_net n0 n" "sent n = sent n0 @ map (\<lambda>c. (p, seg_cell hdr c)) (cell_chunks d)" "txfifo_avail asc = ?k"
    using assms(2) by (simp_all add: seg_inv_def fifo_def)
  have "fifo ?a (cell_rest d @ replicate ?k 0)"
    unfolding inv(7) using l by (intro pad_zeros [OF inv(1)]) simp
  with inv l have "seg_inv z n0 p hdr (d @ replicate ?k 0) (atm_send_fifo z (?a, n)) \<and>
      seg_buffer (fst (atm_send_fifo z (?a, n))) = seg_buffer ?a \<and> aal5_len (fst (atm_send_fifo z (?a, n))) = aal5_len ?a"
    by (intro seg_inv_send [OF assms(1) inv(5)]) (simp_all add: atm_add_tx_padding_def Let_def)
  then show ?thesis by (simp add: atm_add_tx_padding_def Let_def)
qed

lemma final_cell:
  assumes "unfiltered n0 p" "seg_inv z n0 p hdr d (asc, n)" "length (cell_rest d) \<le> 40"
  shows "let a = atm_add_tx_padding (asc\<lparr>atm_hdr := hdr OR ATM_PTI_EOP\<rparr>) (txfifo_avail asc - ATM_AAL5_TRAILER_SIZE);
      g = cell_rest d @ replicate (40 - length (cell_rest d)) 0 @ m_hton32 (of_nat (aal5_len asc));
      (a, n') = atm_send_cell (atm_aal5_add_trailer z a, n)
    in sent n' = sent n0 @ map (\<lambda>c. (p, seg_cell hdr c)) (cell_chunks d) @
      [(p, seg_cell (hdr OR ATM_PTI_EOP) (g @ m_hton32 (z (crc_chunks z (cell_chunks d) 0) g)))] \<and> same_net n0 n'"
proof -
  let ?b = "asc\<lparr>atm_hdr := hdr OR ATM_PTI_EOP\<rparr>"
  let ?k = "40 - length (cell_rest d)"
  have inv: "fifo asc (cell_rest d)" "seg_nio asc = Some p" "aal5_crc asc = crc_chunks z (cell_chunks d) 0"
    "same_net n0 n" "sent n = sent n0 @ map (\<lambda>c. (p, seg_cell hdr c)) (cell_chunks d)"
    "txfifo_avail asc - ATM_AAL5_TRAILER_SIZE = ?k"
    using assms(2) by (simp_all add: seg_inv_def fifo_def ATM_AAL5_TRAILER_SIZE_def)
  let ?a = "atm_add_tx_padding ?b ?k"
  have "fifo ?b (cell_rest d)" by (rule fifo_cong [OF inv(1)]) simp_all
  then have f: "fifo ?a (cell_rest d @ replicate ?k 0)" using assms(3) by (intro pad_zeros) simp_all
  have fields: "aal5_len ?a = aal5_len asc" "aal5_crc ?a = aal5_crc asc" "seg_nio ?a = Some p" "atm_hdr ?a = hdr OR ATM_PTI_EOP"
    using inv by (simp_all add: atm_add_tx_padding_def Let_def)
  let ?t = "atm_aal5_add_trailer z ?a"
  let ?g = "cell_rest d @ replicate ?k 0 @ m_hton32 (of_nat (aal5_len asc))"
  let ?f = "?g @ m_hton32 (z (crc_chunks z (cell_chunks d) 0) ?g)"
  obtain h where h: "length h = 5" "txfifo_cell ?t = h @ ?f"
    using trailer_cell [OF f, of z] assms(3) by (auto simp: fields inv(3))
  have tf: "seg_nio ?t = Some p" "atm_hdr ?t = hdr OR ATM_PTI_EOP"
    using fields by (simp_all add: atm_aal5_add_trailer_def Let_def)
  have lf: "length ?f = 48" using assms(3) by (simp add: m_hton32_def)
  have "snd (atm_send_cell (?t, n)) = net_send p (seg_cell (hdr OR ATM_PTI_EOP) ?f) n"
    using seg_cell_header [OF h(1) lf] by (simp add: atm_send_cell_def Let_def tf h(2))
  moreover have "same_net n0 (net_send p m n)" for m using inv(4) netio_send_net same_net_trans by blast
  ultimately show ?thesis
    by (simp add: Let_def split_beta inv(5,6) send_unfiltered [OF assms(1) inv(4)])
qed

lemma cells_of_pdu:
  assumes "d' = d @ replicate k 0" "length (cell_rest d') \<le> 40" "k + (40 - length (cell_rest d')) = aal5_pad (length d)"
    and crc: "c = z 0 (d @ replicate (aal5_pad (length d)) 0 @ m_hton32 (of_nat (length d)))"
  shows "aal5_cells hdr (aal5_pdu z d) = map (seg_cell hdr) (cell_chunks d') @
     [seg_cell (hdr OR ATM_PTI_EOP) ((cell_rest d' @ replicate (40 - length (cell_rest d')) 0 @ m_hton32 (of_nat (length d))) @
        m_hton32 c)]"
proof -
  let ?x = "(replicate (40 - length (cell_rest d')) 0 @ m_hton32 (of_nat (length d))) @ m_hton32 c"
  have "replicate (aal5_pad (length d)) (0 :: u8) = replicate k 0 @ replicate (40 - length (cell_rest d')) 0"
    by (simp flip: replicate_add add: assms(3))
  then have "aal5_pdu z d = d' @ ?x" by (simp add: aal5_pdu_def Let_def crc assms(1))
  moreover have "length (cell_rest d') + length ?x = 48" using assms(2) by (simp add: m_hton32_def)
  ultimately show ?thesis using chunks_append(2) [of d' ?x] by (simp add: aal5_cells_def)
qed

definition cell_label :: "u32 \<Rightarrow> u32 \<Rightarrow> u32" where
  "cell_label vpi vci = push_bit ATM_HDR_VPI_SHIFT vpi OR push_bit ATM_HDR_VCI_SHIFT vci"

text \<open>The CRC in the trailer, whatever \<open>crc32_z\<close> is: it runs over the cells and the first 44 bytes of the last one.\<close>

lemma aal5_send_raw:
  fixes hdr :: u32 and d :: "u8 list" and z :: crc_fn
  defines "k \<equiv> if 40 < length (cell_rest d) then 48 - length (cell_rest d) else 0"
  defines "d' \<equiv> d @ replicate k 0"
  defines "g \<equiv> cell_rest d' @ replicate (40 - length (cell_rest d')) 0 @ m_hton32 (of_nat (length d))"
  assumes "unfiltered n p" "d = concat iov" "hdr = cell_label vpi vci"
  shows "\<exists>n'. atm_aal5_send z n (Some p) vpi vci iov = (0, n') \<and> same_net n n' \<and>
    sent n' = sent n @ map (\<lambda>c. (p, c)) (map (seg_cell hdr) (cell_chunks d') @
      [seg_cell (hdr OR ATM_PTI_EOP) (g @ m_hton32 (z (crc_chunks z (cell_chunks d') 0) g))])"
proof -
  let ?i = "\<lparr>seg_nio = Some p, txfifo_cell = replicate ATM_CELL_SIZE 0, txfifo_pos = ATM_HDR_SIZE,
    txfifo_avail = ATM_PAYLOAD_SIZE, aal5_len = 0, aal5_crc = 0, atm_hdr = hdr, seg_buffer = []\<rparr>"
  have init: "atm_clear_tx_fifo \<lparr>seg_nio = Some p, txfifo_cell = [], txfifo_pos = 0, txfifo_avail = 0, aal5_len = 0,
      aal5_crc = 0, atm_hdr = 0, seg_buffer = []\<rparr> = ?i\<lparr>atm_hdr := 0\<rparr>"
    by (simp add: atm_clear_tx_fifo_def)
  have "seg_inv z n p hdr [] (?i, n)"
    using fifo_cong [OF fifo_clear, of ?i] by (simp add: seg_inv_def chunks_small atm_clear_tx_fifo_def)
  moreover have "aal5_len ?i = length []" by simp
  ultimately obtain a1 n1 where s1: "fold (\<lambda>v (asc, n). atm_store_all z (asc\<lparr>seg_buffer := v, aal5_len := aal5_len asc + length v\<rparr>, n))
      iov (?i, n) = (a1, n1)" and i1: "seg_inv z n p hdr d (a1, n1)" "aal5_len a1 = length d"
    using store_iov_inv [OF assms(4), of z hdr "[]" ?i n iov] assms(5)
    by (auto split: prod.splits)
  have avail: "txfifo_avail a1 < ATM_AAL5_TRAILER_SIZE \<longleftrightarrow> 40 < length (cell_rest d)"
    using i1(1) cell_rest_length [of d] by (auto simp: seg_inv_def fifo_def ATM_AAL5_TRAILER_SIZE_def)
  obtain a2 n2 where s2: "(if txfifo_avail a1 < ATM_AAL5_TRAILER_SIZE
      then atm_send_fifo z (atm_add_tx_padding a1 (txfifo_avail a1), n1) else (a1, n1)) = (a2, n2)"
    and i2: "seg_inv z n p hdr d' (a2, n2)" "aal5_len a2 = length d"
  proof (cases "40 < length (cell_rest d)")
    case True
    with flush_inv [OF assms(4) i1(1) True] show ?thesis
      by (intro that [of "fst (atm_send_fifo z (atm_add_tx_padding a1 (txfifo_avail a1), n1))"
        "snd (atm_send_fifo z (atm_add_tx_padding a1 (txfifo_avail a1), n1))"]) (simp_all add: avail i1(2) d'_def k_def)
  qed (use that [of a1 n1] i1 in \<open>simp add: avail d'_def k_def\<close>)
  have l40: "length (cell_rest d') \<le> 40"
    using chunks_append(2) [of d "replicate k 0"] cell_rest_length [of d]
    by (cases "40 < length (cell_rest d)") (simp_all add: d'_def k_def)
  have hdr: "atm_hdr a2 = hdr" using i2(1) by (simp add: seg_inv_def)
  let ?t = "atm_send_cell (atm_aal5_add_trailer z
      (atm_add_tx_padding (a2\<lparr>atm_hdr := hdr OR ATM_PTI_EOP\<rparr>) (txfifo_avail a2 - ATM_AAL5_TRAILER_SIZE)), n2)"
  obtain a3 n3 where s3: "?t = (a3, n3)" by fastforce
  have "atm_aal5_send z n (Some p) vpi vci iov = (0, n3)"
    by (simp add: atm_aal5_send_def Let_def init s1 s2 hdr s3 flip: assms(6) [unfolded cell_label_def] split del: if_split)
  with final_cell [OF assms(4) i2(1) l40] show ?thesis
    by (simp add: Let_def s3 i2(2) g_def)
qed

lemma seg_cell:
  assumes "length c = 48"
  shows "length (seg_cell hdr c) = ATM_CELL_SIZE" "drop ATM_HDR_SIZE (seg_cell hdr c) = c" "cell_header (seg_cell hdr c) = hdr"
    "seg_cell hdr c ! 4 = crc8 (take 4 (seg_cell hdr c)) XOR COSET_LEADER"
proof -
  have "length (m_hton32 hdr @ 0 # c) = 53" using assms by (simp add: m_hton32_def)
  moreover have "cell_header (m_hton32 hdr @ 0 # c) = hdr" by (simp add: cell_header_def m_hton32_def ntoh_hton32)
  moreover have "drop 5 (m_hton32 hdr @ 0 # c) = c" by (simp add: m_hton32_def)
  ultimately show "length (seg_cell hdr c) = ATM_CELL_SIZE" "drop ATM_HDR_SIZE (seg_cell hdr c) = c"
    "cell_header (seg_cell hdr c) = hdr" "seg_cell hdr c ! 4 = crc8 (take 4 (seg_cell hdr c)) XOR COSET_LEADER"
    using insert_hec [of "m_hton32 hdr @ 0 # c"] by (simp_all add: seg_cell_def atm_sizes)
qed

lemma eop_bit: "(h AND ATM_PTI_EOP \<noteq> 0) = bit h 1" "(h AND ATM_PTI_NETWORK \<noteq> 0) = bit h 3"
proof -
  have "ATM_PTI_EOP = push_bit 1 1" "ATM_PTI_NETWORK = push_bit 3 1" by (simp_all add: ATM_PTI_EOP_def ATM_PTI_NETWORK_def)
  then show "(h AND ATM_PTI_EOP \<noteq> 0) = bit h 1" "(h AND ATM_PTI_NETWORK \<noteq> 0) = bit h 3"
    by (simp_all only: bit_iff_and_push_bit_not_eq_0)
qed

lemma label_bits:
  assumes "unat vpi < 2 ^ 12" "unat vci < 2 ^ 16" "hdr = cell_label vpi vci \<or> hdr = cell_label vpi vci OR ATM_PTI_EOP"
    "cell_header c = hdr"
  shows "cell_vpi c = vpi" "cell_vci c = vci"
proof -
  have e: "ATM_PTI_EOP = push_bit 1 1" by (simp add: ATM_PTI_EOP_def)
  show "cell_vpi c = vpi" using assms(3)
    unfolding cell_vpi_def assms(4) cell_label_def atm_shifts atm_masks e
    by (intro bit_word_eqI) (auto simp: bit_simps dest: bit_small [OF assms(1)] bit_small [OF assms(2)])
  show "cell_vci c = vci" using assms(3)
    unfolding cell_vci_def assms(4) cell_label_def atm_shifts atm_masks e
    by (intro bit_word_eqI) (auto simp: bit_simps dest: bit_small [OF assms(1)], (drule bit_small [OF assms(2)], simp)+)
qed

lemma label_control:
  "\<not> bit (cell_label vpi vci) 1" "\<not> bit (cell_label vpi vci) 3" "bit (cell_label vpi vci OR ATM_PTI_EOP) 1"
  "\<not> bit (cell_label vpi vci OR ATM_PTI_EOP) 3"
proof -
  have e: "ATM_PTI_EOP = push_bit 1 1" by (simp add: ATM_PTI_EOP_def)
  show "\<not> bit (cell_label vpi vci) 1" "\<not> bit (cell_label vpi vci) 3" "bit (cell_label vpi vci OR ATM_PTI_EOP) 1"
    "\<not> bit (cell_label vpi vci OR ATM_PTI_EOP) 3"
    unfolding cell_label_def atm_shifts e by (simp_all only: bit_or_iff bit_push_bit_iff) simp_all
qed

lemma pdu_chunks:
  "length (aal5_pdu z d) mod 48 = 0" "cell_chunks (aal5_pdu z d) \<noteq> []" "concat (cell_chunks (aal5_pdu z d)) = aal5_pdu z d"
  "length (aal5_pdu z d) = length d + aal5_pad (length d) + 8"
proof -
  show l: "length (aal5_pdu z d) = length d + aal5_pad (length d) + 8" by (simp add: aal5_pdu_def Let_def m_hton32_def)
  show m: "length (aal5_pdu z d) mod 48 = 0"
    unfolding l aal5_pad_mod using mod_less_divisor [of 48 "length d"] by presburger
  have "cell_rest (aal5_pdu z d) = []" using cell_rest_length [of "aal5_pdu z d"] m by simp
  then show "concat (cell_chunks (aal5_pdu z d)) = aal5_pdu z d" using chunks_rest [of "aal5_pdu z d"] by simp
  then show "cell_chunks (aal5_pdu z d) \<noteq> []" using l by auto
qed

lemma aal5_send_cells:
  assumes "unfiltered n p" "\<And>r a b. z (z r a) b = z r (a @ b)"
  shows "\<exists>n'. atm_aal5_send z n (Some p) vpi vci iov = (0, n') \<and>
    sent n' = sent n @ map (Pair p) (aal5_cells (cell_label vpi vci) (aal5_pdu z (concat iov)))"
proof -
  let ?d = "concat iov" let ?k = "if 40 < length (cell_rest ?d) then 48 - length (cell_rest ?d) else 0"
  let ?d' = "?d @ replicate ?k 0" let ?r = "cell_rest ?d'"
  let ?g = "?r @ replicate (40 - length ?r) 0 @ m_hton32 (of_nat (length ?d))"
  let ?c = "z (crc_chunks z (cell_chunks ?d') 0) ?g"
  have r: "length ?r = (if 40 < length (cell_rest ?d) then 0 else length (cell_rest ?d))"
    using chunks_append(2) [of ?d "replicate ?k 0"] cell_rest_length [of ?d] by (cases "40 < length (cell_rest ?d)") simp_all
  then have pad: "?k + (40 - length ?r) = aal5_pad (length ?d)"
    using cell_rest_length [of ?d] mod_less_divisor [of 48 "length ?d"] by (simp add: aal5_pad_mod)
  have "?c = z 0 (concat (cell_chunks ?d') @ ?g)" by (rule crc_concat) (rule assms(2))
  also have "concat (cell_chunks ?d') @ ?g = ?d' @ replicate (40 - length ?r) 0 @ m_hton32 (of_nat (length ?d))"
    using chunks_rest [of ?d'] by (metis append.assoc)
  also have "\<dots> = ?d @ replicate (aal5_pad (length ?d)) 0 @ m_hton32 (of_nat (length ?d))"
    unfolding pad [symmetric] by (simp add: replicate_add)
  finally have c: "?c = z 0 \<dots>" .
  have r40: "length ?r \<le> 40" by (simp add: r)
  have "aal5_cells (cell_label vpi vci) (aal5_pdu z ?d) = map (seg_cell (cell_label vpi vci)) (cell_chunks ?d') @
      [seg_cell (cell_label vpi vci OR ATM_PTI_EOP) (?g @ m_hton32 ?c)]"
    using cells_of_pdu [where d = ?d and k = ?k and z = z and d' = ?d', OF refl r40 pad c] by simp
  with aal5_send_raw [OF assms(1) refl refl, of z vpi vci iov]
  show ?thesis by auto
qed


section \<open>Reassembly\<close>

lemma control_header: "k < 4 \<Longrightarrow> bit (cell_control c) k = bit (cell_header c) k"
  by (simp add: cell_control_def bit_take_bit_iff)

text \<open>The cells of a stream reach a bridge one after the other.\<close>

definition bridge_recv_all :: "atm_bridge \<Rightarrow> net \<Rightarrow> u8 list list \<Rightarrow> atm_bridge \<times> net" where
  "bridge_recv_all t n cells = fold (\<lambda>c (t, n). snd (atm_bridge_recv_cell t n c (length c))) cells (t, n)"

lemma bridge_recv_all_simps:
  "bridge_recv_all t n [] = (t, n)"
  "bridge_recv_all t n (c # cs) = (let (r, t, n) = atm_bridge_recv_cell t n c (length c) in bridge_recv_all t n cs)"
  by (simp_all add: bridge_recv_all_def split_beta)

definition user_cell :: "atm_bridge \<Rightarrow> u8 list \<Rightarrow> bool" where
  "user_cell t c \<longleftrightarrow> length c = ATM_CELL_SIZE \<and> cell_vpi c = br_vpi t \<and> cell_vci c = br_vci t \<and> \<not> bit (cell_control c) 3"

lemma take_copy:
  "pos + length bs \<le> length mem \<Longrightarrow> take (pos + length bs) (copy_to pos bs mem) = take pos mem @ bs \<and>
    length (copy_to pos bs mem) = length mem"
  by (simp add: copy_to_def)

lemma recv_middle:
  assumes "user_cell t c" "\<not> bit (cell_control c) 1" "reas_pos (br_arc t) + 48 \<le> ATM_REAS_MAX_SIZE"
    "length (reas_buffer (br_arc t)) = ATM_REAS_MAX_SIZE"
  shows "\<exists>arc. atm_bridge_recv_cell t n c (length c) = (0, t\<lparr>br_arc := arc\<rparr>, n) \<and> reas_pos arc = reas_pos (br_arc t) + 48 \<and>
    length (reas_buffer arc) = ATM_REAS_MAX_SIZE \<and>
    take (reas_pos arc) (reas_buffer arc) = take (reas_pos (br_arc t)) (reas_buffer (br_arc t)) @ drop 5 c"
proof -
  have c: "take 48 (drop 5 c) = drop 5 c" "length (drop 5 c) = 48" using assms(1) by (simp_all add: user_cell_def atm_sizes)
  show ?thesis
    using assms take_copy [of "reas_pos (br_arc t)" "drop 5 c" "reas_buffer (br_arc t)"] c
    by (intro exI [of _ "(br_arc t)\<lparr>reas_buffer := copy_to (reas_pos (br_arc t)) (drop 5 c) (reas_buffer (br_arc t)),
        reas_pos := reas_pos (br_arc t) + 48\<rparr>"])
      (simp add: atm_bridge_recv_cell_def user_cell_def atm_aal5_recv_def ATM_PAYLOAD_SIZE_def ATM_HDR_SIZE_def eop_bit
        control_header Let_def)
qed

lemma recv_run:
  assumes "list_all (\<lambda>c. user_cell t c \<and> \<not> bit (cell_control c) 1) cs" "reas_pos (br_arc t) + 48 * length cs \<le> ATM_REAS_MAX_SIZE"
    "length (reas_buffer (br_arc t)) = ATM_REAS_MAX_SIZE"
  shows "\<exists>arc. bridge_recv_all t n cs = (t\<lparr>br_arc := arc\<rparr>, n) \<and> reas_pos arc = reas_pos (br_arc t) + 48 * length cs \<and>
    length (reas_buffer arc) = ATM_REAS_MAX_SIZE \<and>
    take (reas_pos arc) (reas_buffer arc) = take (reas_pos (br_arc t)) (reas_buffer (br_arc t)) @ concat (map (drop 5) cs)"
  using assms
proof (induction cs arbitrary: t)
  case (Cons c cs)
  obtain arc where arc: "atm_bridge_recv_cell t n c (length c) = (0, t\<lparr>br_arc := arc\<rparr>, n)" "reas_pos arc = reas_pos (br_arc t) + 48"
    "length (reas_buffer arc) = ATM_REAS_MAX_SIZE"
    "take (reas_pos arc) (reas_buffer arc) = take (reas_pos (br_arc t)) (reas_buffer (br_arc t)) @ drop 5 c"
    using recv_middle [of t c n] Cons.prems by auto
  have "list_all (\<lambda>c. user_cell (t\<lparr>br_arc := arc\<rparr>) c \<and> \<not> bit (cell_control c) 1) cs"
    using Cons.prems(1) by (simp add: user_cell_def)
  with Cons.IH [of "t\<lparr>br_arc := arc\<rparr>"] Cons.prems arc show ?case
    by (fastforce simp: bridge_recv_all_simps)
next
  case Nil
  then show ?case by (intro exI [of _ "br_arc t"]) (simp add: bridge_recv_all_simps)
qed

lemma recv_last:
  assumes "user_cell t c" "bit (cell_control c) 1" "reas_pos (br_arc t) + 48 \<le> ATM_REAS_MAX_SIZE"
    "length (reas_buffer (br_arc t)) = ATM_REAS_MAX_SIZE"
    and p: "p = take (reas_pos (br_arc t)) (reas_buffer (br_arc t)) @ drop 5 c"
    and len: "len = unat (m_ntoh16 (p ! (length p - 6)) (p ! (length p - 5)))" "len \<le> length p"
  shows "\<exists>arc. atm_bridge_recv_cell t n c (length c) = (0, t\<lparr>br_arc := arc\<rparr>,
      if len > 10 \<and> take 10 p = atm_rfc1483b_header then snd (netio_send (eth_nio t) (take (len - 10) (drop 10 p)) n) else n) \<and>
    reas_pos arc = 0 \<and> length (reas_buffer arc) = ATM_REAS_MAX_SIZE"
proof -
  let ?pos = "reas_pos (br_arc t)" let ?b = "copy_to ?pos (drop 5 c) (reas_buffer (br_arc t))"
  have c: "take 48 (drop 5 c) = drop 5 c" "length (drop 5 c) = 48" "length c = 53" using assms(1) by (simp_all add: user_cell_def atm_sizes)
  have b: "take (?pos + 48) ?b = p" "length ?b = ATM_REAS_MAX_SIZE"
    using take_copy [of ?pos "drop 5 c" "reas_buffer (br_arc t)"] assms(3,4) c by (simp_all add: p)
  have lp: "length p = ?pos + 48" using assms(3,4) c by (simp add: p)
  have "p ! (length p - 6) = c ! 47" "p ! (length p - 5) = c ! 48"
    using assms(3,4) c by (simp_all add: p nth_append)
  then have l: "unat (m_ntoh16 (c ! (ATM_AAL5_TRAILER_POS + 2)) (c ! (ATM_AAL5_TRAILER_POS + 3))) = len"
    by (simp add: len(1) atm_sizes)
  have t10: "take 10 ?b = take 10 p" using b(1) unfolding b(1) [symmetric] by simp
  have d10: "take (len - 10) (drop 10 ?b) = take (len - 10) (drop 10 p)" if "len \<le> ?pos + 48"
    using that unfolding b(1) [symmetric] by (simp add: drop_take)
  show ?thesis
    using assms(1-4) c(1) l lp len(2) b(2) d10 t10
    by (intro exI [of _ "(br_arc t)\<lparr>reas_buffer := ?b, reas_pos := 0, reas_len := 0\<rparr>"]) (simp add: atm_bridge_recv_cell_def user_cell_def atm_aal5_recv_def ATM_PAYLOAD_SIZE_def ATM_HDR_SIZE_def eop_bit
      control_header Let_def atm_aal5_recv_reset_def ATM_RFC1483B_HLEN_def)
qed

lemma low16_hton32: "m_ntoh16 (m_hton32 v ! 2) (m_hton32 v ! 3) = ucast v"
  unfolding m_hton32_def m_ntoh16_def by (simp, rule bit_word_eqI) (auto simp: bit_simps not_less dest: bit_imp_le_length)

lemma pdu_length_field:
  assumes "length d < 2 ^ 16" "p = aal5_pdu z d"
  shows "unat (m_ntoh16 (p ! (length p - 6)) (p ! (length p - 5))) = length d"
proof -
  let ?a = "d @ replicate (aal5_pad (length d)) 0" let ?l = "m_hton32 (of_nat (length d))"
  obtain c where p: "p = ?a @ ?l @ m_hton32 c" using assms(2) by (simp add: aal5_pdu_def Let_def)
  have l: "length (m_hton32 w) = 4" for w by (simp add: m_hton32_def)
  have i: "length p - 6 = length ?a + 2" "length p - 5 = length ?a + 3" unfolding p by (simp_all add: l)
  have "p ! (length ?a + k) = ?l ! k" if "k < 4" for k
    unfolding p by (subst nth_append_length_plus) (simp add: nth_append l that)
  from this [of 2] this [of 3] have "m_ntoh16 (p ! (length p - 6)) (p ! (length p - 5)) = ucast (of_nat (length d) :: u32)"
    using low16_hton32 [of "of_nat (length d)"] unfolding i by simp
  then show ?thesis using assms(1)
    by (simp add: unsigned_of_nat unsigned_ucast_eq take_bit_nat_eq_self)
qed

text \<open>What the receiving bridge makes of a PDU whose cells arrive under its label.\<close>

lemma bridge_reassembles:
  assumes sent: "cells = map (seg_cell h) (butlast (cell_chunks p)) @ [seg_cell (h OR ATM_PTI_EOP) (last (cell_chunks p))]"
    and h: "h = cell_label vpi vci" and p: "p = aal5_pdu z d" and d: "length d + 18 \<le> 16368"
    and arr: "list_all2 (\<lambda>c c'. relabelled c c' (br_vpi t) (br_vci t)) cells cells'"
    and t: "reas_pos (br_arc t) = 0" "length (reas_buffer (br_arc t)) = ATM_REAS_MAX_SIZE"
  shows "\<exists>arc. bridge_recv_all t n cells' = (t\<lparr>br_arc := arc\<rparr>,
      if length d > 10 \<and> take 10 d = atm_rfc1483b_header then snd (netio_send (eth_nio t) (drop 10 d) n) else n) \<and>
    reas_pos arc = 0 \<and> length (reas_buffer arc) = ATM_REAS_MAX_SIZE"
proof -
  let ?ch = "cell_chunks p"
  have ch: "?ch \<noteq> []" "concat ?ch = p" and c48: "\<And>c. c \<in> set ?ch \<Longrightarrow> length c = 48"
    using pdu_chunks(2,3) chunk_length p by auto
  obtain xs y where xy: "cells' = xs @ [y]" and
    xs: "list_all2 (\<lambda>c c'. relabelled (seg_cell h c) c' (br_vpi t) (br_vci t)) (butlast ?ch) xs" and
    y: "relabelled (seg_cell (h OR ATM_PTI_EOP) (last ?ch)) y (br_vpi t) (br_vci t)"
    using arr unfolding sent by (auto simp: list_all2_append1 list_all2_Cons1 list_all2_map1)
  have mid: "user_cell t c' \<and> \<not> bit (cell_control c') 1 \<and> drop 5 c' = c"
    if "length c = 48" "relabelled (seg_cell h c) c' (br_vpi t) (br_vci t)" for c c'
    using that seg_cell [OF that(1), of h] label_control(1,2) [of vpi vci]
    by (auto simp: relabelled_def user_cell_def ATM_HDR_SIZE_def control_header h)
  have lst: "user_cell t y \<and> bit (cell_control y) 1 \<and> drop 5 y = last ?ch"
    using y seg_cell [OF c48, of "last ?ch" "h OR ATM_PTI_EOP"] ch(1) label_control(3,4) [of vpi vci]
    by (auto simp: relabelled_def user_cell_def ATM_HDR_SIZE_def control_header h)
  have "list_all (\<lambda>c. user_cell t c \<and> \<not> bit (cell_control c) 1) xs" "map (drop 5) xs = butlast ?ch"
  proof -
    have "c \<in> set (butlast ?ch) \<Longrightarrow> length c = 48" for c using c48 in_set_butlastD by fast
    with xs mid show "list_all (\<lambda>c. user_cell t c \<and> \<not> bit (cell_control c) 1) xs" "map (drop 5) xs = butlast ?ch"
      by (induction rule: list_all2_induct) auto
  qed
  moreover have lx: "length xs = length ?ch - 1" using list_all2_lengthD [OF xs] by simp
  moreover have count: "48 * length ?ch = length p"
    using chunk_count [of p] pdu_chunks(1) p by (simp add: minus_mod_eq_mult_div [symmetric])
  moreover have plen: "length p \<le> ATM_REAS_MAX_SIZE" "length d \<le> length p"
  proof -
    have pad: "aal5_pad (length d) < 48" by (simp add: aal5_pad_def)
    obtain q where q: "length p = 48 * q" using pdu_chunks(1) [of z d] p by (auto simp: mod_eq_0_iff_dvd elim: dvdE)
    have l: "length p = length d + aal5_pad (length d) + 8" using pdu_chunks(4) p by simp
    have "q < 342" using pad q l d by linarith
    then show "length p \<le> ATM_REAS_MAX_SIZE" unfolding q ATM_REAS_MAX_SIZE_def by linarith
    show "length d \<le> length p" unfolding l by simp
  qed
  moreover have "48 * length xs \<le> ATM_REAS_MAX_SIZE"
    unfolding lx diff_mult_distrib2 count using plen(1) by simp
  ultimately obtain arc where arc: "bridge_recv_all t n xs = (t\<lparr>br_arc := arc\<rparr>, n)" "reas_pos arc = 48 * length xs"
    "length (reas_buffer arc) = ATM_REAS_MAX_SIZE" "take (reas_pos arc) (reas_buffer arc) = concat (butlast ?ch)"
    using recv_run [of t xs n] t by auto
  have pe: "p = take (reas_pos arc) (reas_buffer arc) @ drop 5 y"
    using ch lst arc(4) by (metis append_butlast_last_id concat.simps(1,2) concat_append append_Nil2)
  have room: "reas_pos arc + 48 \<le> ATM_REAS_MAX_SIZE"
    using arc(2) lx count plen(1) ch(1) by (cases ?ch) simp_all
  have len: "unat (m_ntoh16 (p ! (length p - 6)) (p ! (length p - 5))) = length d"
    by (rule pdu_length_field [OF _ p]) (use d in simp)
  have pd: "take 10 p = take 10 d" "take (length d - 10) (drop 10 p) = drop 10 d" if "10 < length d"
    using that by (simp_all add: p aal5_pdu_def Let_def)
  let ?t = "t\<lparr>br_arc := arc\<rparr>"
  have uc: "user_cell ?t y" using lst by (simp add: user_cell_def)
  have "\<exists>arc'. atm_bridge_recv_cell ?t n y (length y) = (0, ?t\<lparr>br_arc := arc'\<rparr>,
      if length d > 10 \<and> take 10 p = atm_rfc1483b_header
      then snd (netio_send (eth_nio ?t) (take (length d - 10) (drop 10 p)) n) else n) \<and>
    reas_pos arc' = 0 \<and> length (reas_buffer arc') = ATM_REAS_MAX_SIZE"
    by (rule recv_last [OF uc]) (use lst room arc(3) pe len plen(2) in simp_all)
  then obtain arc' where arc': "atm_bridge_recv_cell ?t n y (length y) = (0, t\<lparr>br_arc := arc'\<rparr>,
      if length d > 10 \<and> take 10 p = atm_rfc1483b_header
      then snd (netio_send (eth_nio t) (take (length d - 10) (drop 10 p)) n) else n)"
    "reas_pos arc' = 0" "length (reas_buffer arc') = ATM_REAS_MAX_SIZE" by auto
  have "bridge_recv_all t n cells' = snd (atm_bridge_recv_cell ?t n y (length y))"
    using arc(1) by (simp add: xy bridge_recv_all_def)
  with arc' pd show ?thesis by (intro exI [of _ arc']) (cases "10 < length d"; simp)
qed

text \<open>C21: a frame that enters a bridge leaves the bridge at the other end of its connection unchanged, when
  its cells arrive in order, relabelled by any switches on the way and with their payload and control
  bits kept; the receiving bridge is then ready for the next frame. The empty frame is lost. A directly
  connected peer with the same label receives the cells as they are.\<close>

theorem rfc1483_bridge_roundtrip:
  assumes "atm_nio a = Some p" "unfiltered n p" "length pkt \<le> 16340"
    and b: "reas_pos (br_arc b) = 0" "length (reas_buffer (br_arc b)) = ATM_REAS_MAX_SIZE"
  shows "\<exists>n' cells. atm_bridge_recv_pkt crc32_z a n pkt (length pkt) = (0, n') \<and> sent n' = sent n @ map (Pair p) cells \<and>
    (unat (br_vpi a) < 2 ^ 12 \<and> unat (br_vci a) < 2 ^ 16 \<longrightarrow> list_all (\<lambda>c. relabelled c c (br_vpi a) (br_vci a)) cells) \<and>
    (\<forall>cells' m e. list_all2 (\<lambda>c c'. relabelled c c' (br_vpi b) (br_vci b)) cells cells' \<and> eth_nio b = Some e \<and>
       unfiltered m e \<longrightarrow>
       (\<exists>b' m'. bridge_recv_all b m cells' = (b', m') \<and> sent m' = sent m @ (if pkt = [] then [] else [(e, pkt)]) \<and>
          reas_pos (br_arc b') = 0))"
proof -
  let ?d = "atm_rfc1483b_header @ pkt" let ?h = "cell_label (br_vpi a) (br_vci a)"
  let ?k = "if 40 < length (cell_rest ?d) then 48 - length (cell_rest ?d) else 0"
  let ?d' = "?d @ replicate ?k 0" let ?r = "cell_rest ?d'"
  let ?g = "?r @ replicate (40 - length ?r) 0 @ m_hton32 (of_nat (length ?d))"
  let ?c = "crc32_z (crc_chunks crc32_z (cell_chunks ?d') 0) ?g" let ?z = "\<lambda>_ _. ?c"
  let ?cells = "aal5_cells ?h (aal5_pdu ?z ?d)" let ?ch = "cell_chunks (aal5_pdu ?z ?d)"
  have r: "length ?r = (if 40 < length (cell_rest ?d) then 0 else length (cell_rest ?d))"
    using chunks_append(2) [of ?d "replicate ?k 0"] cell_rest_length [of ?d] by (cases "40 < length (cell_rest ?d)") simp_all
  then have pad: "?k + (40 - length ?r) = aal5_pad (length ?d)" and r40: "length ?r \<le> 40"
    using cell_rest_length [of ?d] mod_less_divisor [of 48 "length ?d"] by (simp_all add: aal5_pad_mod)
  have "?cells = map (seg_cell ?h) (cell_chunks ?d') @ [seg_cell (?h OR ATM_PTI_EOP) (?g @ m_hton32 ?c)]"
    using cells_of_pdu [where d = ?d and k = ?k and z = ?z and d' = ?d', OF refl r40 pad refl] by simp
  with aal5_send_raw [OF assms(2) _ refl, of ?d "[atm_rfc1483b_header, pkt]" crc32_z "br_vpi a" "br_vci a"]
  obtain n' where n': "atm_bridge_recv_pkt crc32_z a n pkt (length pkt) = (0, n')" "sent n' = sent n @ map (Pair p) ?cells"
    by (auto simp: atm_bridge_recv_pkt_def atm_aal5_send_rfc1483b_def assms(1))
  have self: "relabelled (seg_cell h c) (seg_cell h c) (br_vpi a) (br_vci a)"
    if "length c = 48" "h = ?h \<or> h = ?h OR ATM_PTI_EOP" "unat (br_vpi a) < 2 ^ 12" "unat (br_vci a) < 2 ^ 16" for h c
    using seg_cell [OF that(1), of h] label_bits [OF that(3,4,2), of "seg_cell h c"] by (simp add: relabelled_def)
  have c48: "c \<in> set ?ch \<Longrightarrow> length c = 48" for c by (rule chunk_length)
  have "list_all (\<lambda>c. relabelled c c (br_vpi a) (br_vci a)) ?cells"
    if "unat (br_vpi a) < 2 ^ 12" "unat (br_vci a) < 2 ^ 16"
  proof -
    have "relabelled (seg_cell ?h c) (seg_cell ?h c) (br_vpi a) (br_vci a)" if "c \<in> set (butlast ?ch)" for c
      by (rule self [OF c48 [OF in_set_butlastD [OF that]] disjI1 [OF refl] \<open>unat (br_vpi a) < 2 ^ 12\<close> \<open>unat (br_vci a) < 2 ^ 16\<close>])
    moreover have "last ?ch \<in> set ?ch" using pdu_chunks(2) by simp
    ultimately show ?thesis using self [OF c48 disjI2 [OF refl] that] by (auto simp: aal5_cells_def list_all_iff)
  qed
  moreover have "\<exists>b' m'. bridge_recv_all b m cells' = (b', m') \<and> sent m' = sent m @ (if pkt = [] then [] else [(e, pkt)]) \<and>
      reas_pos (br_arc b') = 0"
    if "list_all2 (\<lambda>c c'. relabelled c c' (br_vpi b) (br_vci b)) ?cells cells'" "eth_nio b = Some e" "unfiltered m e"
    for cells' m e
  proof -
    have "length ?d + 18 \<le> 16368" using assms(3) by (simp add: atm_rfc1483b_header_def)
    from bridge_reassembles [OF aal5_cells_def refl refl this that(1) b, of m]
    show ?thesis using netio_send_unfiltered [OF that(3), of pkt]
      by (auto simp: that(2) atm_rfc1483b_header_def)
  qed
  ultimately show ?thesis using n' by (intro exI [of _ n'] exI [of _ ?cells]) simp
qed

section \<open>What the receiver does not check\<close>

text \<open>The CRC of a PDU is not looked at: whatever the last four bytes are, the frame is delivered.\<close>

lemma recv_ignores_crc:
  assumes "length c = ATM_CELL_SIZE" "length crc = 4"
  shows "fst (atm_aal5_recv arc (take 49 c @ crc)) = fst (atm_aal5_recv arc c)"
    "reas_len (snd (atm_aal5_recv arc (take 49 c @ crc))) = reas_len (snd (atm_aal5_recv arc c))"
proof -
  have n: "(take 49 c @ crc) ! i = c ! i" if "i < 49" for i using that assms by (simp add: nth_append atm_sizes)
  have h: "cell_header (take 49 c @ crc) = cell_header c" by (simp add: cell_header_def n)
  show "fst (atm_aal5_recv arc (take 49 c @ crc)) = fst (atm_aal5_recv arc c)"
    "reas_len (snd (atm_aal5_recv arc (take 49 c @ crc))) = reas_len (snd (atm_aal5_recv arc c))"
    by (simp_all add: atm_aal5_recv_def h n atm_sizes Let_def)
qed

text \<open>A failed configuration keeps the reference to the descriptor that did exist.\<close>

lemma configure_leaks_reference:
  assumes "eth_nio t = None" "atm_nio t = None" "nio_reg n eth = Some p" "nio_reg n atm = None"
  shows "\<exists>n'. atm_bridge_configure t n eth atm vpi vci = (-1, t, n') \<and> nio_refs n' p = nio_refs n p + 1"
  using assms by (simp add: atm_bridge_configure_def netio_acquire_def)

section \<open>Examples\<close>

text \<open>The CRC-32 of zlib, bit by bit.\<close>

definition crc32_bit :: "u32 \<Rightarrow> u32" where
  "crc32_bit c = (if bit c 0 then 0xEDB88320 XOR drop_bit 1 c else drop_bit 1 c)"

definition crc32_bytes :: crc_fn where
  "crc32_bytes r bs = NOT (fold (\<lambda>b c. (crc32_bit ^^ 8) (c XOR ucast b)) bs (NOT r))"

lemma crc32_bytes_append: "crc32_bytes (crc32_bytes r a) b = crc32_bytes r (a @ b)"
  by (simp add: crc32_bytes_def)


definition example_bridge :: "nio \<Rightarrow> nio \<Rightarrow> atm_bridge" where
  "example_bridge eth atm = (atm_bridge_create ''br'')\<lparr>eth_nio := Some eth, atm_nio := Some atm, br_vpi := 1, br_vci := 100\<rparr>"

theorem rfc1483_bridge_roundtrip_witness:
  "\<exists>n' cells b' m'. atm_bridge_recv_pkt crc32_bytes (example_bridge 0 2) atm_net [7, 8, 9] 3 = (0, n') \<and>
     sent n' = map (Pair 2) cells \<and> bridge_recv_all (example_bridge 0 2) atm_net cells = (b', m') \<and>
     sent m' = [(0, [7, 8, 9])]"
proof -
  have u: "unfiltered atm_net p" for p by (simp add: unfiltered_def atm_net_def netio_create_def)
  have s: "sent atm_net = []" by (simp add: atm_net_def)
  have f: "atm_nio (example_bridge 0 2) = Some 2" "eth_nio (example_bridge 0 2) = Some 0" "reas_pos (br_arc (example_bridge 0 2)) = 0"
    "length (reas_buffer (br_arc (example_bridge 0 2))) = ATM_REAS_MAX_SIZE" "br_vpi (example_bridge 0 2) = 1"
    "br_vci (example_bridge 0 2) = 100"
    by (simp_all add: example_bridge_def atm_bridge_create_def)
  obtain n' cells where c: "atm_bridge_recv_pkt crc32_bytes (example_bridge 0 2) atm_net [7, 8, 9] 3 = (0, n')"
      "sent n' = map (Pair 2) cells" "list_all (\<lambda>c. relabelled c c 1 100) cells"
    and r: "\<forall>cells' m e. list_all2 (\<lambda>c c'. relabelled c c' 1 100) cells cells' \<and> Some 0 = Some e \<and> unfiltered m e \<longrightarrow>
       (\<exists>b' m'. bridge_recv_all (example_bridge 0 2) m cells' = (b', m') \<and> sent m' = sent m @ [(e, [7, 8, 9])] \<and> reas_pos (br_arc b') = 0)"
    using rfc1483_bridge_roundtrip [OF f(1) u _ f(3,4), of "[7, 8, 9]" crc32_bytes] unfolding f s by (auto simp: numeral_3_eq_3)
  have "list_all2 (\<lambda>c c'. relabelled c c' 1 100) cells cells"
    using c(3) by (simp add: list_all2_same list_all_iff)
  with r u s have "\<exists>b' m'. bridge_recv_all (example_bridge 0 2) atm_net cells = (b', m') \<and> sent m' = [(0, [7, 8, 9])]"
    by fastforce
  with c(1,2) show ?thesis by blast
qed

end
