(* ===== verification/FrameRelay.thy ===== *)
theory FrameRelay
  imports ConnTable
begin

text \<open>
  The virtual Frame Relay switch (\<open>common/frame_relay.c\<close>): the table of virtual circuits, DLCI switching, the
  ANSI LMI and the commands. A pointer to a circuit is a number, its memory is \<open>fr_vc\<close>, shared by all
  switches; a hash table is an array of chains of such numbers, and the list a descriptor keeps of its
  circuits (\<open>next\<close>, \<open>pprev\<close>) is the field \<open>fr_conn_list\<close> of theory NetIo. The lock is always obtained and an
  allocation never fails; the configuration file is not modelled. A packet is a buffer and a length; the
  buffer holds at least that many bytes, and at least two. \<open>None\<close> is a write past the response buffer.
\<close>

section \<open>Circuits\<close>

definition FR_DLCI_LMI_ANSI :: u32 where "FR_DLCI_LMI_ANSI = 0"
definition FR_LMI_ANSI_STATUS_OFFSET :: nat where "FR_LMI_ANSI_STATUS_OFFSET = 5"
definition FR_LMI_ANSI_STATUS :: u8 where "FR_LMI_ANSI_STATUS = 0x7d"
definition FR_MAX_PKT_SIZE :: nat where "FR_MAX_PKT_SIZE = 2048"
definition FRSW_HASH_SIZE :: u32 where "FRSW_HASH_SIZE = 256"

definition lmi_ansi_hdr :: "u8 list" where
  "lmi_ansi_hdr = [0x00, 0x01, 0x03, 0x08, 0x00, 0x75, 0x95]"

record frsw_conn =
  fr_input :: "nio option"
  fr_output :: "nio option"
  dlci_in :: u32
  dlci_out :: u32
  fr_count :: u64

record frsw_table =
  fr_name :: string
  fr_drop :: u64
  dlci_table :: "nat \<Rightarrow> nat list"

record frsw_heap =
  fr_vc :: "nat \<Rightarrow> frsw_conn"
  fr_fresh :: nat

definition frsw_dlci_hash :: "u32 \<Rightarrow> nat" where
  "frsw_dlci_hash dlci = unat ((dlci XOR drop_bit 8 dlci) AND (FRSW_HASH_SIZE - 1))"

definition frsw_dlci_lookup :: "frsw_heap \<Rightarrow> frsw_table \<Rightarrow> nio option \<Rightarrow> u32 \<Rightarrow> nat option" where
  "frsw_dlci_lookup h t input dlci =
     find (\<lambda>vc. fr_input (fr_vc h vc) = input \<and> dlci_in (fr_vc h vc) = dlci) (dlci_table t (frsw_dlci_hash dlci))"

section \<open>The local management interface\<close>

text \<open>The items of a request: the result -1, the end of the loop with the report type, whether a sequence
  item was seen and the response, or a write past the response buffer. \<open>lmi_seq\<close> is \<open>fr_lmi_seq\<close>.\<close>

datatype lmi_result = LmiError u8 | LmiDone int bool u8 "u8 list" | LmiFault

definition lmi_next_seq :: "u8 \<Rightarrow> u8 \<Rightarrow> u8" where
  "lmi_next_seq lmi_seq rx =
     (let lmi_seq = (if lmi_seq \<noteq> rx then rx else lmi_seq);
          lmi_seq = lmi_seq + 1
      in if lmi_seq = 0 then lmi_seq + 1 else lmi_seq)"

function lmi_items :: "u8 list \<Rightarrow> int \<Rightarrow> bool \<Rightarrow> u8 \<Rightarrow> u8 list \<Rightarrow> lmi_result" where
  "lmi_items preq msg_type seq_ok lmi_seq resp =
     (if 2 < length preq then
        (let itype = preq ! 0; isize = unat (preq ! 1) in
         if isize + 2 > length preq then LmiError lmi_seq
         else if itype = 0x01 then
           (if isize \<noteq> 1 then LmiError lmi_seq
            else if preq ! 2 > 1 then LmiError lmi_seq
            else if length resp + 3 > FR_MAX_PKT_SIZE then LmiFault
            else lmi_items (drop (isize + 2) preq) (uint (preq ! 2)) seq_ok lmi_seq (resp @ [0x01, 0x01, preq ! 2]))
         else if itype = 0x03 then
           (if isize \<noteq> 2 then LmiError lmi_seq
            else if length resp + 4 > FR_MAX_PKT_SIZE then LmiFault
            else (let lmi_seq = lmi_next_seq lmi_seq (preq ! 3)
                  in lmi_items (drop (isize + 2) preq) msg_type True lmi_seq (resp @ [0x03, 0x02, lmi_seq, preq ! 2])))
         else LmiDone msg_type seq_ok lmi_seq resp)
      else LmiDone msg_type seq_ok lmi_seq resp)"
  by pat_completeness auto

termination
  by (relation "measure (\<lambda>(preq, _). length preq)") auto

declare lmi_items.simps [simp del]

text \<open>The advertisement of a circuit in a full status.\<close>

definition lmi_adv :: "u32 \<Rightarrow> u8 list" where
  "lmi_adv dlci = [0x07, 0x03, ucast (drop_bit 4 dlci), 0x80 OR ucast (push_bit 3 (dlci AND 0x0f)), 0x82]"

fun lmi_advs :: "u32 list \<Rightarrow> u8 list \<Rightarrow> u8 list option" where
  "lmi_advs [] resp = Some resp"
| "lmi_advs (d # ds) resp = (if length resp + 5 > FR_MAX_PKT_SIZE then None else lmi_advs ds (resp @ lmi_adv d))"

definition frsw_handle_lmi_ansi_pkt ::
    "frsw_heap \<Rightarrow> net \<Rightarrow> nio \<Rightarrow> u8 list \<Rightarrow> nat \<Rightarrow> (int \<times> net) option" where
  "frsw_handle_lmi_ansi_pkt h n input pkt len =
     (if len \<le> length lmi_ansi_hdr \<or> take (length lmi_ansi_hdr) pkt \<noteq> lmi_ansi_hdr then Some (-1, n)
      else
        (let resp = lmi_ansi_hdr[FR_LMI_ANSI_STATUS_OFFSET := FR_LMI_ANSI_STATUS];
             preq = drop (length lmi_ansi_hdr) (take len pkt)
         in case lmi_items preq (-1) False (fr_lmi_seq (nio_tab n input)) resp of
              LmiFault \<Rightarrow> None
            | LmiError lmi_seq \<Rightarrow> Some (-1, upd_nio input (fr_lmi_seq_update (\<lambda>_. lmi_seq)) n)
            | LmiDone msg_type seq_ok lmi_seq resp \<Rightarrow>
                (let n = upd_nio input (fr_lmi_seq_update (\<lambda>_. lmi_seq)) n in
                 if msg_type = -1 \<or> \<not> seq_ok then Some (-1, n)
                 else
                   (let dlcis = (if msg_type = 0 then map (\<lambda>sc. dlci_in (fr_vc h sc)) (fr_conn_list (nio_tab n input)) else [])
                    in case lmi_advs dlcis resp of
                         None \<Rightarrow> None
                       | Some resp \<Rightarrow> Some (0, snd (netio_send (Some input) resp n))))))"

section \<open>Switching\<close>

definition frsw_dlci_switch :: "frsw_conn \<Rightarrow> u8 list \<Rightarrow> frsw_conn \<times> u8 list" where
  "frsw_dlci_switch vc pkt =
     (let pkt = pkt[0 := (pkt ! 0 AND 0x03) OR ucast (push_bit 2 (drop_bit 4 (dlci_out vc)))];
          pkt = pkt[1 := (pkt ! 1 AND 0x0f) OR ucast (push_bit 4 (dlci_out vc AND 0x0f))]
      in (vc\<lparr>fr_count := fr_count vc + 1\<rparr>, pkt))"

definition pkt_dlci :: "u8 list \<Rightarrow> u32" where
  "pkt_dlci pkt = push_bit 4 (drop_bit 2 (ucast (pkt ! 0) AND 0xfc)) OR drop_bit 4 (ucast (pkt ! 1) AND 0xf0)"

definition frsw_handle_pkt ::
    "frsw_heap \<Rightarrow> frsw_table \<Rightarrow> net \<Rightarrow> nio \<Rightarrow> u8 list \<Rightarrow> nat \<Rightarrow> (int \<times> frsw_heap \<times> frsw_table \<times> net) option" where
  "frsw_handle_pkt h t n input pkt len =
     (let dlci = pkt_dlci pkt in
      if dlci = FR_DLCI_LMI_ANSI then
        (case frsw_handle_lmi_ansi_pkt h n input pkt len of None \<Rightarrow> None | Some (r, n) \<Rightarrow> Some (r, h, t, n))
      else
        (let (h, pkt, output) =
           (case frsw_dlci_lookup h t (Some input) dlci of
              Some vc \<Rightarrow>
                (let (c, pkt) = frsw_dlci_switch (fr_vc h vc) pkt in (h\<lparr>fr_vc := (fr_vc h)(vc := c)\<rparr>, pkt, fr_output c))
            | None \<Rightarrow> (h, pkt, None));
             (slen, n) = netio_send output (take len pkt) n
         in if int len \<noteq> slen then Some (-1, h, t\<lparr>fr_drop := fr_drop t + 1\<rparr>, n) else Some (0, h, t, n)))"

definition frsw_recv_pkt ::
    "frsw_heap \<Rightarrow> frsw_table \<Rightarrow> net \<Rightarrow> nio \<Rightarrow> u8 list \<Rightarrow> nat \<Rightarrow> (int \<times> frsw_heap \<times> frsw_table \<times> net) option" where
  "frsw_recv_pkt h t n nio pkt pkt_len = frsw_handle_pkt h t n nio pkt pkt_len"

section \<open>Commands\<close>

definition frsw_create_table :: "string \<Rightarrow> frsw_table" where
  "frsw_create_table name = \<lparr>fr_name = name, fr_drop = 0, dlci_table = (\<lambda>_. [])\<rparr>"

text \<open>Out of the list of its input descriptor.\<close>

definition frsw_unlink_vc :: "frsw_heap \<Rightarrow> nat \<Rightarrow> net \<Rightarrow> net" where
  "frsw_unlink_vc h vc n =
     (case fr_input (fr_vc h vc) of
        None \<Rightarrow> n
      | Some p \<Rightarrow> upd_nio p (fr_conn_list_update (remove1 vc)) n)"

definition frsw_release_vc :: "frsw_conn \<Rightarrow> net \<Rightarrow> net" where
  "frsw_release_vc vc n =
     (let n = (case fr_input vc of None \<Rightarrow> n
                 | Some p \<Rightarrow> snd (netio_release (netio_rxl_remove p n) (nio_name (nio_tab n p))))
      in case fr_output vc of None \<Rightarrow> n | Some p \<Rightarrow> snd (netio_release n (nio_name (nio_tab n p))))"

definition frsw_free :: "frsw_heap \<Rightarrow> frsw_table \<Rightarrow> net \<Rightarrow> net" where
  "frsw_free h t n = fold (\<lambda>i. fold (\<lambda>vc. frsw_release_vc (fr_vc h vc)) (dlci_table t i)) [0..<unat FRSW_HASH_SIZE] n"

text \<open>The new circuit in memory and at the head of its chain.\<close>

definition frsw_link_hash :: "frsw_conn \<Rightarrow> frsw_heap \<times> frsw_table \<Rightarrow> frsw_heap \<times> frsw_table" where
  "frsw_link_hash c = (\<lambda>(h, t).
     let vc = fr_fresh h; hbucket = frsw_dlci_hash (dlci_in c)
     in (h\<lparr>fr_vc := (fr_vc h)(vc := c), fr_fresh := Suc vc\<rparr>,
         t\<lparr>dlci_table := (dlci_table t)(hbucket := vc # dlci_table t hbucket)\<rparr>))"

text \<open>Before the first circuit with a larger DLCI.\<close>

fun conn_insert :: "frsw_heap \<Rightarrow> u32 \<Rightarrow> nat \<Rightarrow> nat list \<Rightarrow> nat list" where
  "conn_insert h dlci vc [] = [vc]"
| "conn_insert h dlci vc (p # ps) = (if dlci_in (fr_vc h p) > dlci then vc # p # ps else p # conn_insert h dlci vc ps)"

definition frsw_create_vc ::
    "frsw_heap \<Rightarrow> frsw_table \<Rightarrow> net \<Rightarrow> string \<Rightarrow> u32 \<Rightarrow> string \<Rightarrow> u32 \<Rightarrow> int \<times> frsw_heap \<times> frsw_table \<times> net" where
  "frsw_create_vc h t n nio_input d_in nio_output d_out =
     (let (input, n) = netio_acquire n nio_input;
          (output, n) = netio_acquire n nio_output;
          c = \<lparr>fr_input = input, fr_output = output, dlci_in = d_in, dlci_out = d_out, fr_count = 0\<rparr>
      in if input = None \<or> output = None then (-1, h, t, frsw_release_vc c n)
         else if frsw_dlci_lookup h t input d_in \<noteq> None then (-1, h, t, frsw_release_vc c n)
         else
           (let n = netio_rxl_add (the input) n;
                vc = fr_fresh h;
                (h, t) = frsw_link_hash c (h, t);
                n = upd_nio (the input) (fr_conn_list_update (conn_insert h d_in vc)) n
            in (0, h, t, n)))"

definition same_vc :: "frsw_conn \<Rightarrow> frsw_conn \<Rightarrow> bool" where
  "same_vc s p \<longleftrightarrow> fr_input p = fr_input s \<and> fr_output p = fr_output s \<and> dlci_in p = dlci_in s \<and> dlci_out p = dlci_out s"

definition frsw_unlink_hash :: "frsw_conn \<Rightarrow> frsw_heap \<times> frsw_table \<Rightarrow> frsw_heap \<times> frsw_table" where
  "frsw_unlink_hash s = (\<lambda>(h, t).
     let hbucket = frsw_dlci_hash (dlci_in s)
     in (h, t\<lparr>dlci_table := (dlci_table t)(hbucket := unlink_first (\<lambda>p. same_vc s (fr_vc h p)) (dlci_table t hbucket))\<rparr>))"

definition frsw_delete_vc ::
    "frsw_heap \<Rightarrow> frsw_table \<Rightarrow> net \<Rightarrow> string \<Rightarrow> u32 \<Rightarrow> string \<Rightarrow> u32 \<Rightarrow> int \<times> frsw_heap \<times> frsw_table \<times> net" where
  "frsw_delete_vc h t n nio_input d_in nio_output d_out =
     (let input = netio_exists n nio_input; output = netio_exists n nio_output;
          s = \<lparr>fr_input = input, fr_output = output, dlci_in = d_in, dlci_out = d_out, fr_count = 0\<rparr>
      in if input = None \<or> output = None then (-1, h, t, n)
         else
           (case find (\<lambda>p. same_vc s (fr_vc h p)) (dlci_table t (frsw_dlci_hash d_in)) of
              None \<Rightarrow> (-1, h, t, n)
            | Some p \<Rightarrow>
                (let (h, t) = frsw_unlink_hash s (h, t)
                 in (0, h, t, frsw_release_vc (fr_vc h p) (frsw_unlink_vc h p n)))))"

datatype frsw_cfg_line = FrswCreate string | FrswCreateVc string "nio option" u32 "nio option" u32

text \<open>The loop over a chain follows \<open>next\<close>, the list of the input descriptor, from the head of the chain.\<close>

definition frsw_save_config :: "frsw_heap \<Rightarrow> frsw_table \<Rightarrow> net \<Rightarrow> frsw_cfg_line list" where
  "frsw_save_config h t n =
     [FrswCreate (fr_name t)] @
     concat (map (\<lambda>i.
       case dlci_table t i of
         [] \<Rightarrow> []
       | vc # _ \<Rightarrow>
           (let chain = (case fr_input (fr_vc h vc) of None \<Rightarrow> [vc]
                           | Some p \<Rightarrow> dropWhile (\<lambda>v. v \<noteq> vc) (fr_conn_list (nio_tab n p)))
            in map (\<lambda>v. let c = fr_vc h v in FrswCreateVc (fr_name t) (fr_input c) (dlci_in c) (fr_output c) (dlci_out c)) chain))
       [0..<unat FRSW_HASH_SIZE])"

end
