(* ===== verification/FrameRelayProps.thy ===== *)
theory FrameRelayProps
  imports FrameRelay
begin

text \<open>
  Properties of the Frame Relay switch of theory FrameRelay: its table is a map (the interface
  \<open>conn_table\<close>, here with circuits in a shared memory), the lists of the descriptors are the sorted
  circuits of the table in every reachable state, and so the LMI reports exactly them; switched packets are
  relabelled and otherwise unchanged. The errors of the code are lemmas: \<open>free_keeps_lists\<close>,
  \<open>rejected_vc_drops_listener\<close>, \<open>save_config_misses\<close>.
\<close>

section \<open>The table is a map\<close>

definition fr_key :: "frsw_conn \<Rightarrow> nio option \<times> u32" where
  "fr_key c = (fr_input c, dlci_in c)"

definition fr_chains :: "frsw_heap \<times> frsw_table \<Rightarrow> frsw_conn chains" where
  "fr_chains = (\<lambda>(h, t) b. map (fr_vc h) (dlci_table t b))"

definition fr_find :: "frsw_heap \<times> frsw_table \<Rightarrow> nio option \<times> u32 \<Rightarrow> frsw_conn option" where
  "fr_find = (\<lambda>(h, t) (input, dlci). map_option (fr_vc h) (frsw_dlci_lookup h t input dlci))"

abbreviation fr_hash :: "nio option \<times> u32 \<Rightarrow> nat" where
  "fr_hash \<equiv> \<lambda>(_, dlci). frsw_dlci_hash dlci"

definition fr_tab_ok :: "frsw_heap \<times> frsw_table \<Rightarrow> bool" where
  "fr_tab_ok s \<longleftrightarrow> chains_ok fr_hash fr_key (fr_chains s) \<and> (\<forall>b. \<forall>v\<in>set (dlci_table (snd s) b). v < fr_fresh (fst s))"

lemma find_map_option: "find P (map f xs) = map_option f (find (\<lambda>x. P (f x)) xs)"
  by (induction xs) auto

lemma fr_find_chains: "fr_find s = chains_lookup fr_hash fr_key (fr_chains s)"
  by (auto simp: fun_eq_iff fr_find_def frsw_dlci_lookup_def chains_lookup_def fr_key_def fr_chains_def find_map_option
    split_beta intro!: arg_cong [where f = "map_option _"] arg_cong2 [where f = find])

lemma map_unlink_first: "map f (unlink_first (\<lambda>x. P (f x)) xs) = unlink_first P (map f xs)"
  by (induction xs) auto

lemma fr_link_chains:
  assumes "\<forall>b. \<forall>v\<in>set (dlci_table (snd s) b). v < fr_fresh (fst s)"
  shows "fr_chains (frsw_link_hash c s) = chains_add fr_hash fr_key c (fr_chains s)"
    "\<forall>b. \<forall>v\<in>set (dlci_table (snd (frsw_link_hash c s)) b). v < fr_fresh (fst (frsw_link_hash c s))"
proof -
  obtain h t where s: "s = (h, t)" by fastforce
  have "map ((fr_vc h)(fr_fresh h := c)) (dlci_table t b) = map (fr_vc h) (dlci_table t b)" for b
    using assms by (force simp: s)
  then show "fr_chains (frsw_link_hash c s) = chains_add fr_hash fr_key c (fr_chains s)"
    by (simp add: s fr_chains_def frsw_link_hash_def chains_add_def fr_key_def Let_def fun_eq_iff)
  show "\<forall>b. \<forall>v\<in>set (dlci_table (snd (frsw_link_hash c s)) b). v < fr_fresh (fst (frsw_link_hash c s))"
    using assms by (auto simp: s frsw_link_hash_def Let_def less_Suc_eq)
qed

lemma fr_unlink_chains:
  "fr_chains (frsw_unlink_hash c s) = chains_del fr_hash fr_key same_vc c (fr_chains s)"
  "fst (frsw_unlink_hash c s) = fst s"
  by (simp_all add: frsw_unlink_hash_def fr_chains_def chains_del_def fr_key_def Let_def split_beta map_unlink_first fun_eq_iff)

lemma fr_unlink_below:
  "\<forall>b. \<forall>v\<in>set (dlci_table (snd s) b). v < fr_fresh (fst s) \<Longrightarrow>
   \<forall>b. \<forall>v\<in>set (dlci_table (snd (frsw_unlink_hash c s)) b). v < fr_fresh (fst (frsw_unlink_hash c s))"
  by (auto simp: frsw_unlink_hash_def Let_def split_beta dest!: subsetD [OF set_unlink_first])

lemma same_vc_key: "same_vc c c' \<Longrightarrow> fr_key c' = fr_key c"
  by (simp add: same_vc_def fr_key_def)

interpretation frsw: conn_table fr_find frsw_link_hash frsw_unlink_hash fr_key same_vc fr_tab_ok
  unfolding fr_find_chains fr_tab_ok_def
  by unfold_locales
    (simp_all add: fr_link_chains fr_unlink_chains(1) fr_unlink_below chains_lookup_add chains_ok_add chains_lookup_del
      chains_ok_del same_vc_key)

section \<open>The list of a descriptor\<close>

definition fr_members :: "frsw_heap \<times> frsw_table \<Rightarrow> nio \<Rightarrow> nat set" where
  "fr_members s p = {v. (\<exists>b. v \<in> set (dlci_table (snd s) b)) \<and> fr_input (fr_vc (fst s) v) = Some p}"

definition fr_list_ok :: "frsw_heap \<Rightarrow> nat list \<Rightarrow> bool" where
  "fr_list_ok h vs \<longleftrightarrow> sorted_wrt (\<lambda>a b. dlci_in (fr_vc h a) < dlci_in (fr_vc h b)) vs"

definition fr_ok :: "frsw_heap \<times> frsw_table \<times> net \<Rightarrow> bool" where
  "fr_ok = (\<lambda>(h, t, n). fr_tab_ok (h, t) \<and>
     (\<forall>p. fr_list_ok h (fr_conn_list (nio_tab n p)) \<and> set (fr_conn_list (nio_tab n p)) = fr_members (h, t) p))"

lemma conn_insert_set: "set (conn_insert h d v vs) = insert v (set vs)"
  by (induction vs) auto

lemma conn_insert_sorted:
  assumes "fr_list_ok h vs" "d \<notin> (\<lambda>v. dlci_in (fr_vc h v)) ` set vs" "dlci_in (fr_vc h v) = d"
  shows "fr_list_ok h (conn_insert h d v vs)"
  using assms
  by (induction vs) (force simp: fr_list_ok_def conn_insert_set)+

text \<open>Only keys matter: the order is the same on a heap that agrees on the list.\<close>

lemma conn_insert_cong: "(\<And>v. v \<in> set vs \<Longrightarrow> dlci_in (fr_vc h v) = dlci_in (fr_vc h' v)) \<Longrightarrow>
    conn_insert h d v vs = conn_insert h' d v vs"
  by (induction vs) auto

lemma fr_list_ok_cong: "(\<And>v. v \<in> set vs \<Longrightarrow> dlci_in (fr_vc h v) = dlci_in (fr_vc h' v)) \<Longrightarrow> fr_list_ok h vs = fr_list_ok h' vs"
  by (induction vs) (auto simp: fr_list_ok_def)

lemma fr_list_distinct: "fr_list_ok h vs \<Longrightarrow> distinct vs"
  by (induction vs) (auto simp: fr_list_ok_def)

lemma fr_list_remove: "fr_list_ok h vs \<Longrightarrow> fr_list_ok h (remove1 v vs)"
proof (induction vs)
  case (Cons w vs)
  then show ?case using set_remove1_subset [of v vs] by (auto simp: fr_list_ok_def)
qed (simp add: fr_list_ok_def)

lemma unlink_first_found:
  "distinct vs \<Longrightarrow> find P vs = Some v \<Longrightarrow> set (unlink_first P vs) = set vs - {v}"
  by (induction vs) (auto simp: find_Some_iff split: if_splits)

lemma fr_chain_distinct: "fr_tab_ok (h, t) \<Longrightarrow> distinct (dlci_table t b)"
  by (auto simp: fr_tab_ok_def chains_ok_def fr_chains_def distinct_map)

lemma fr_bucket: "fr_tab_ok (h, t) \<Longrightarrow> v \<in> set (dlci_table t b) \<Longrightarrow> b = frsw_dlci_hash (dlci_in (fr_vc h v))"
  by (force simp: fr_tab_ok_def chains_ok_def fr_chains_def fr_key_def)

lemma fr_lookup_none:
  assumes "fr_tab_ok (h, t)" "frsw_dlci_lookup h t (Some p) d = None"
  shows "d \<notin> (\<lambda>v. dlci_in (fr_vc h v)) ` fr_members (h, t) p"
  using assms fr_bucket [OF assms(1)] by (fastforce simp: fr_members_def frsw_dlci_lookup_def find_None_iff)

text \<open>What the commands leave of the descriptors.\<close>

lemma acquire_tab: "nio_tab (snd (netio_acquire n name)) = nio_tab n" "nio_reg (snd (netio_acquire n name)) = nio_reg n"
  "fst (netio_acquire n name) = nio_reg n name"
  by (simp_all add: netio_acquire_def split: option.split)

lemma release_vc_tab: "nio_tab (frsw_release_vc c n) = nio_tab n"
  by (simp add: frsw_release_vc_def netio_release_def netio_rxl_remove_def Let_def split: option.split)

lemma create_vc_cases:
  "frsw_create_vc h t n i d j d' =
    (let c = \<lparr>fr_input = nio_reg n i, fr_output = nio_reg n j, dlci_in = d, dlci_out = d', fr_count = 0\<rparr>;
         n1 = snd (netio_acquire (snd (netio_acquire n i)) j)
     in if nio_reg n i = None \<or> nio_reg n j = None \<or> frsw_dlci_lookup h t (nio_reg n i) d \<noteq> None
        then (-1, h, t, frsw_release_vc c n1)
        else (0, fst (frsw_link_hash c (h, t)), snd (frsw_link_hash c (h, t)),
              upd_nio (the (nio_reg n i)) (fr_conn_list_update (conn_insert (fst (frsw_link_hash c (h, t))) d (fr_fresh h)))
                (netio_rxl_add (the (nio_reg n i)) n1)))"
  using acquire_tab(3) [of n i] acquire_tab(2) [of n i] acquire_tab(3) [of "snd (netio_acquire n i)" j]
  by (cases "netio_acquire n i"; cases "netio_acquire (snd (netio_acquire n i)) j")
    (auto simp: frsw_create_vc_def Let_def split_beta)

lemma fr_ok_create:
  assumes "fr_ok (h, t, n)"
  shows "fr_ok (snd (frsw_create_vc h t n i d j d'))"
proof -
  let ?c = "\<lparr>fr_input = nio_reg n i, fr_output = nio_reg n j, dlci_in = d, dlci_out = d', fr_count = 0\<rparr>"
  let ?n1 = "snd (netio_acquire (snd (netio_acquire n i)) j)"
  have tab: "nio_tab ?n1 = nio_tab n" by (simp add: acquire_tab)
  show ?thesis
  proof (cases "nio_reg n i = None \<or> nio_reg n j = None \<or> frsw_dlci_lookup h t (nio_reg n i) d \<noteq> None")
    case True
    then show ?thesis using assms by (simp add: create_vc_cases Let_def fr_ok_def release_vc_tab tab)
  next
    case False
    then obtain p where p: "nio_reg n i = Some p" and new: "frsw_dlci_lookup h t (Some p) d = None" by auto
    let ?v = "fr_fresh h" let ?h = "h\<lparr>fr_vc := (fr_vc h)(?v := ?c), fr_fresh := Suc ?v\<rparr>"
    let ?t = "t\<lparr>dlci_table := (dlci_table t)(frsw_dlci_hash d := ?v # dlci_table t (frsw_dlci_hash d))\<rparr>"
    let ?l = "\<lambda>q. fr_conn_list (nio_tab n q)"
    have link: "frsw_link_hash ?c (h, t) = (?h, ?t)" by (simp add: frsw_link_hash_def Let_def)
    have ok: "fr_tab_ok (h, t)" "\<And>q. fr_list_ok h (?l q)" "\<And>q. set (?l q) = fr_members (h, t) q"
      using assms by (simp_all add: fr_ok_def)
    have old: "v < ?v" if "v \<in> set (dlci_table t b)" for v b using ok(1) that by (auto simp: fr_tab_ok_def)
    have lookup: "fr_find (h, t) (fr_key ?c) = None" using new by (simp add: fr_find_def fr_key_def p)
    have tab': "fr_tab_ok (?h, ?t)" using frsw.invar_add [OF ok(1) lookup] by (simp add: link)
    have mem: "fr_members (?h, ?t) q = (if q = p then insert ?v (fr_members (h, t) q) else fr_members (h, t) q)" for q
    proof (intro set_eqI)
      show "w \<in> fr_members (?h, ?t) q \<longleftrightarrow> w \<in> (if q = p then insert ?v (fr_members (h, t) q) else fr_members (h, t) q)" for w
      proof -
        have "w \<in> set (dlci_table ?t b) \<longleftrightarrow> w = ?v \<and> b = frsw_dlci_hash d \<or> w \<in> set (dlci_table t b)" for b by simp
        then have e: "(\<exists>b. w \<in> set (dlci_table ?t b)) \<longleftrightarrow> w = ?v \<or> (\<exists>b. w \<in> set (dlci_table t b))" by blast
        show ?thesis using old [of w] unfolding fr_members_def fst_conv snd_conv mem_Collect_eq e by (cases "w = ?v") (auto simp: p)
      qed
    qed
    have same: "dlci_in (fr_vc ?h v) = dlci_in (fr_vc h v)" if "v \<in> set (?l q)" for v q
      using that old by (auto simp: ok(3) fr_members_def)
    have keep: "fr_list_ok ?h (?l q)" for q using ok(2) fr_list_ok_cong [of "?l q" ?h h] same by blast
    have "d \<notin> (\<lambda>v. dlci_in (fr_vc ?h v)) ` set (?l p)"
      using fr_lookup_none [OF ok(1) new] same [of _ p] by (auto simp: ok(3) image_iff)
    then have ins: "fr_list_ok ?h (conn_insert ?h d ?v (?l p))" by (intro conn_insert_sorted keep) simp_all
    have "snd (frsw_create_vc h t n i d j d') =
        (?h, ?t, upd_nio p (fr_conn_list_update (conn_insert ?h d ?v)) (netio_rxl_add p ?n1))"
      unfolding create_vc_cases Let_def link using False by (auto simp: p)
    then show ?thesis
      using tab' ins keep mem by (simp add: fr_ok_def netio_rxl_add_def tab conn_insert_set ok(3))
  qed
qed

lemma fr_ok_delete:
  assumes "fr_ok (h, t, n)"
  shows "fr_ok (snd (frsw_delete_vc h t n i d j d'))"
proof -
  let ?s = "\<lparr>fr_input = nio_reg n i, fr_output = nio_reg n j, dlci_in = d, dlci_out = d', fr_count = 0\<rparr>"
  let ?b = "frsw_dlci_hash d" let ?l = "\<lambda>q. fr_conn_list (nio_tab n q)"
  show ?thesis
  proof (cases "nio_reg n i = None \<or> nio_reg n j = None \<or> find (\<lambda>p. same_vc ?s (fr_vc h p)) (dlci_table t ?b) = None")
    case True
    then show ?thesis using assms by (auto simp: frsw_delete_vc_def netio_exists_def Let_def)
  next
    case False
    then obtain q r v where q: "nio_reg n i = Some q" and r: "nio_reg n j = Some r" and v: "find (\<lambda>p. same_vc ?s (fr_vc h p)) (dlci_table t ?b) = Some v" by auto
    have ok: "fr_tab_ok (h, t)" "\<And>q. fr_list_ok h (?l q)" "\<And>q. set (?l q) = fr_members (h, t) q"
      using assms by (simp_all add: fr_ok_def)
    have vb: "v \<in> set (dlci_table t ?b)" "same_vc ?s (fr_vc h v)" using v by (auto simp: find_Some_iff)
    then have inp: "fr_input (fr_vc h v) = Some q" by (simp add: same_vc_def q)
    let ?t = "snd (frsw_unlink_hash ?s (h, t))"
    have t': "dlci_table ?t = (dlci_table t)(?b := unlink_first (\<lambda>p. same_vc ?s (fr_vc h p)) (dlci_table t ?b))"
      by (simp add: frsw_unlink_hash_def Let_def)
    have tab': "fr_tab_ok (h, ?t)" using frsw.invar_del [OF ok(1), of ?s] fr_unlink_chains(2) [of ?s "(h, t)"]
      by (metis fst_conv prod.collapse)
    have set_t: "v' \<in> set (dlci_table ?t b) \<longleftrightarrow> v' \<in> set (dlci_table t b) \<and> v' \<noteq> v" for v' b
      using unlink_first_found [OF fr_chain_distinct [OF ok(1)] v] fr_bucket [OF ok(1) vb(1)] fr_bucket [OF ok(1), of v b]
      by (cases "b = ?b") (auto simp: t')
    have mem: "fr_members (h, ?t) p = fr_members (h, t) p - (if p = q then {v} else {})" for p
      using inp by (auto simp: fr_members_def set_t)
    have "set (remove1 v (?l q)) = fr_members (h, t) q - {v}"
      using fr_list_distinct [OF ok(2)] by (simp add: ok(3))
    moreover have "snd (frsw_delete_vc h t n i d j d') =
        (h, ?t, frsw_release_vc (fr_vc h v) (upd_nio q (fr_conn_list_update (remove1 v)) n))"
      unfolding frsw_delete_vc_def netio_exists_def Let_def v option.case split_beta fr_unlink_chains(2)
      by (simp add: frsw_unlink_vc_def inp q r)
    ultimately show ?thesis
      using tab' mem ok(2,3) fr_list_remove [OF ok(2)] by (simp add: fr_ok_def release_vc_tab)
  qed
qed

text \<open>Switching changes counters only.\<close>

lemma fr_ok_keys:
  assumes "fr_ok (h, t, n)" "fr_fresh h' = fr_fresh h" "dlci_table t' = dlci_table t"
    and keys: "\<And>v. fr_input (fr_vc h' v) = fr_input (fr_vc h v)" "\<And>v. dlci_in (fr_vc h' v) = dlci_in (fr_vc h v)"
    and lists: "\<And>p. fr_conn_list (nio_tab n' p) = fr_conn_list (nio_tab n p)"
  shows "fr_ok (h', t', n')"
proof -
  have "fr_list_ok h' vs = fr_list_ok h vs" for vs by (rule fr_list_ok_cong) (simp add: keys)
  moreover have "fr_members (h', t') p = fr_members (h, t) p" for p by (simp add: fr_members_def keys assms(3))
  moreover have k: "fr_key (fr_vc h' v) = fr_key (fr_vc h v)" for v by (simp add: fr_key_def keys)
  have "fr_tab_ok (h', t') = fr_tab_ok (h, t)"
    by (simp add: fr_tab_ok_def chains_ok_def fr_chains_def assms(2,3) k comp_def)
  ultimately show ?thesis using assms(1) lists by (simp add: fr_ok_def)
qed

lemma send_conn_list: "fr_conn_list (nio_tab (snd (netio_send q m n)) p) = fr_conn_list (nio_tab n p)"
  using netio_send_net [of n q m] by (simp add: same_net_def same_config_def)

lemma lmi_conn_list:
  "frsw_handle_lmi_ansi_pkt h n i pkt len = Some (r, n') \<Longrightarrow> fr_conn_list (nio_tab n' p) = fr_conn_list (nio_tab n p)"
  by (auto simp: frsw_handle_lmi_ansi_pkt_def Let_def send_conn_list split: if_splits lmi_result.splits option.splits)

lemma fr_ok_recv:
  assumes "fr_ok (h, t, n)" "frsw_recv_pkt h t n p pkt len = Some (r, s')"
  shows "fr_ok s'"
proof (cases "pkt_dlci pkt = FR_DLCI_LMI_ANSI")
  case True
  then obtain n' where "s' = (h, t, n')" "frsw_handle_lmi_ansi_pkt h n p pkt len = Some (r, n')"
    using assms(2) by (auto simp: frsw_recv_pkt_def frsw_handle_pkt_def split: option.splits)
  then show ?thesis using lmi_conn_list by (auto intro!: fr_ok_keys [OF assms(1)])
next
  case False
  then show ?thesis
    using assms(2)
    by (auto simp: frsw_recv_pkt_def frsw_handle_pkt_def Let_def split_beta frsw_dlci_switch_def send_conn_list
      intro!: fr_ok_keys [OF assms(1)] split: option.splits if_splits)
qed

text \<open>The states of a switch: packets arrive, circuits are created and deleted.\<close>

inductive frsw_step :: "frsw_heap \<times> frsw_table \<times> net \<Rightarrow> frsw_heap \<times> frsw_table \<times> net \<Rightarrow> bool" where
  recv: "frsw_recv_pkt h t n p pkt len = Some (r, s') \<Longrightarrow> frsw_step (h, t, n) s'"
| create: "frsw_step (h, t, n) (snd (frsw_create_vc h t n i d j d'))"
| delete: "frsw_step (h, t, n) (snd (frsw_delete_vc h t n i d j d'))"

inductive_cases frsw_stepE: "frsw_step (h, t, n) s'"

lemma fr_ok_reach:
  assumes "frsw_step\<^sup>*\<^sup>* (h0, frsw_create_table name, n0) s" "\<And>p. fr_conn_list (nio_tab n0 p) = []"
  shows "fr_ok s"
  using assms(1)
proof (induction rule: rtranclp_induct)
  case base
  show ?case using assms(2)
    by (simp add: fr_ok_def fr_tab_ok_def chains_ok_def fr_chains_def frsw_create_table_def fr_list_ok_def fr_members_def)
next
  case (step s s')
  obtain h t n where s: "s = (h, t, n)" by (cases s)
  from step.hyps(2) [unfolded s] step.IH [unfolded s] show ?case
    by (elim frsw_stepE) (auto intro: fr_ok_recv fr_ok_create fr_ok_delete)
qed

section \<open>Full status\<close>

lemma lmi_advs_eq:
  "lmi_advs ds resp = (if ds = [] \<or> length resp + 5 * length ds \<le> FR_MAX_PKT_SIZE then Some (resp @ concat (map lmi_adv ds)) else None)"
proof (induction ds arbitrary: resp)
  case (Cons d ds)
  have "length (lmi_adv d) = 5" by (simp add: lmi_adv_def)
  then show ?case using Cons.IH [of "resp @ lmi_adv d"] by (cases ds) auto
qed simp

lemma lmi_items_request:
  "length resp = 7 \<Longrightarrow> lmi_items [1, 1, r, 3, 2, tx, rx] m ok s resp =
     (if r > 1 then LmiError s
      else LmiDone (uint r) True (lmi_next_seq s rx) (resp @ [1, 1, r, 3, 2, lmi_next_seq s rx, tx]))"
  by (simp add: lmi_items.simps FR_MAX_PKT_SIZE_def Let_def)

lemma lmi_next_seq_rx: "lmi_next_seq s rx = (if rx = 255 then 1 else rx + 1)"
proof -
  have "rx + 1 = 0 \<longleftrightarrow> rx = -1" by (simp add: add_eq_0_iff2)
  moreover have "(255 :: u8) = -1" by simp
  ultimately show ?thesis by (auto simp: lmi_next_seq_def Let_def)
qed

text \<open>The circuits of a descriptor, by increasing DLCI.\<close>

definition fr_dlcis :: "frsw_heap \<times> frsw_table \<Rightarrow> nio \<Rightarrow> u32 list" where
  "fr_dlcis s p = sorted_list_of_set {d. fr_find s (Some p, d) \<noteq> None}"

lemma conn_list_dlcis:
  assumes "fr_ok (h, t, n)"
  shows "map (\<lambda>v. dlci_in (fr_vc h v)) (fr_conn_list (nio_tab n p)) = fr_dlcis (h, t) p"
proof -
  let ?f = "\<lambda>v. dlci_in (fr_vc h v)" let ?l = "fr_conn_list (nio_tab n p)"
  have ok: "fr_tab_ok (h, t)" "fr_list_ok h ?l" "set ?l = fr_members (h, t) p" using assms by (simp_all add: fr_ok_def)
  have "sorted_wrt (<) (map ?f ?l)" using ok(2) by (simp add: fr_list_ok_def sorted_wrt_map)
  moreover have "?f ` fr_members (h, t) p = {d. fr_find (h, t) (Some p, d) \<noteq> None}"
  proof (intro equalityI subsetI)
    fix d assume "d \<in> ?f ` fr_members (h, t) p"
    with fr_lookup_none [OF ok(1)] show "d \<in> {d. fr_find (h, t) (Some p, d) \<noteq> None}"
      by (cases "frsw_dlci_lookup h t (Some p) d") (auto simp: fr_find_def)
  next
    fix d assume "d \<in> {d. fr_find (h, t) (Some p, d) \<noteq> None}"
    then obtain v where "frsw_dlci_lookup h t (Some p) d = Some v" by (auto simp: fr_find_def)
    then have "v \<in> set (dlci_table t (frsw_dlci_hash d)) \<and> fr_input (fr_vc h v) = Some p \<and> dlci_in (fr_vc h v) = d"
      by (auto simp: frsw_dlci_lookup_def find_Some_iff)
    then show "d \<in> ?f ` fr_members (h, t) p" by (auto simp: fr_members_def)
  qed
  ultimately show ?thesis
    unfolding fr_dlcis_def using ok(3) by (intro strict_sorted_equal) simp_all
qed

text \<open>C19: in every reachable state, a full status enquiry on a descriptor is answered there, once, with the
  DLCIs of exactly the circuits that enter there, in increasing order, the received sequence number
  plus one (never 0) and the number of the sender echoed. With more than 406 circuits the answer does
  not fit the response buffer, and the code writes past its end.\<close>

theorem frsw_lmi_full_status:
  assumes "frsw_step\<^sup>*\<^sup>* (h0, frsw_create_table name, n0) (h, t, n)" "\<And>q. fr_conn_list (nio_tab n0 q) = []" "unfiltered n p"
  shows "let request = lmi_ansi_hdr @ [1, 1, 0, 3, 2, tx, rx]; reply = frsw_recv_pkt h t n p (request @ slack) (length request)
    in if length (fr_dlcis (h, t) p) \<le> 406
       then \<exists>n'. reply = Some (0, h, t, n') \<and>
         sent n' = sent n @ [(p, [0x00, 0x01, 0x03, 0x08, 0x00, 0x7d, 0x95, 1, 1, 0, 3, 2, if rx = 255 then 1 else rx + 1, tx] @
           concat (map lmi_adv (fr_dlcis (h, t) p)))]
       else reply = None"
proof -
  let ?req = "lmi_ansi_hdr @ [1, 1, 0, 3, 2, tx, rx]" let ?s = "lmi_next_seq (fr_lmi_seq (nio_tab n p)) rx"
  let ?n = "upd_nio p (fr_lmi_seq_update (\<lambda>_. ?s)) n"
  let ?resp = "lmi_ansi_hdr[FR_LMI_ANSI_STATUS_OFFSET := FR_LMI_ANSI_STATUS] @ [1, 1, 0, 3, 2, ?s, tx]"
  have list: "map (\<lambda>v. dlci_in (fr_vc h v)) (fr_conn_list (nio_tab ?n p)) = fr_dlcis (h, t) p"
    using conn_list_dlcis [OF fr_ok_reach [OF assms(1,2)], of p] by simp
  have uf: "unfiltered ?n p" using assms(3) by (simp add: unfiltered_def)
  have dlci: "pkt_dlci (?req @ slack) = FR_DLCI_LMI_ANSI" by (simp add: pkt_dlci_def lmi_ansi_hdr_def FR_DLCI_LMI_ANSI_def)
  have items: "lmi_items (drop (length lmi_ansi_hdr) (take (length ?req) (?req @ slack))) (-1) False (fr_lmi_seq (nio_tab n p))
      (lmi_ansi_hdr[FR_LMI_ANSI_STATUS_OFFSET := FR_LMI_ANSI_STATUS]) = LmiDone 0 True ?s ?resp"
  proof -
    have "length (lmi_ansi_hdr[FR_LMI_ANSI_STATUS_OFFSET := FR_LMI_ANSI_STATUS]) = 7"
      by (simp only: length_list_update) (simp add: lmi_ansi_hdr_def)
    moreover have "drop (length lmi_ansi_hdr) (take (length ?req) (?req @ slack)) = [1, 1, 0, 3, 2, tx, rx]" by simp
    ultimately show ?thesis by (simp add: lmi_items_request)
  qed
  have "frsw_recv_pkt h t n p (?req @ slack) (length ?req) =
      (case lmi_advs (fr_dlcis (h, t) p) ?resp of None \<Rightarrow> None | Some r \<Rightarrow> Some (0, h, t, snd (netio_send (Some p) r ?n)))"
    unfolding frsw_recv_pkt_def frsw_handle_pkt_def dlci Let_def frsw_handle_lmi_ansi_pkt_def items
    by (simp add: list [simplified] split: option.split)
  moreover have "length ?resp = 14" by (simp only: length_append length_list_update) (simp add: lmi_ansi_hdr_def)
  moreover have "?resp = [0x00, 0x01, 0x03, 0x08, 0x00, 0x7d, 0x95, 1, 1, 0, 3, 2, if rx = 255 then 1 else rx + 1, tx]"
    by (simp add: lmi_ansi_hdr_def FR_LMI_ANSI_STATUS_OFFSET_def FR_LMI_ANSI_STATUS_def lmi_next_seq_rx)
  ultimately show ?thesis
    using netio_send_unfiltered [OF uf] unfolding Let_def lmi_advs_eq FR_MAX_PKT_SIZE_def by auto
qed

section \<open>Switching\<close>

lemma pkt_dlci_bits: "pkt_dlci pkt = push_bit 4 (ucast (drop_bit 2 (pkt ! 0))) OR ucast (drop_bit 4 (pkt ! 1))"
proof -
  have m: "(0xfc :: u32) = push_bit 2 (mask 6)" "(0xf0 :: u32) = push_bit 4 (mask 4)"
    by (simp_all add: mask_eq_exp_minus_1 push_bit_eq_mult)
  show ?thesis unfolding pkt_dlci_def m
    by (rule bit_word_eqI) (auto simp: bit_simps dest: bit_imp_le_length)
qed

lemma dlci_switch:
  assumes "2 \<le> length pkt" "unat (dlci_out vc) < 2 ^ 10" "snd (frsw_dlci_switch vc pkt) = pkt'"
  shows "pkt_dlci pkt' = dlci_out vc" "length pkt' = length pkt" "drop 2 pkt' = drop 2 pkt"
    "take_bit 2 (pkt' ! 0) = take_bit 2 (pkt ! 0)" "take_bit 4 (pkt' ! 1) = take_bit 4 (pkt ! 1)"
proof -
  have m: "(0x03 :: u8) = mask 2" "(0x0f :: u8) = mask 4" "(0x0f :: u32) = mask 4" by (simp_all add: mask_eq_exp_minus_1)
  have p: "pkt' ! 0 = (pkt ! 0 AND mask 2) OR ucast (push_bit 2 (drop_bit 4 (dlci_out vc)))"
    "pkt' ! 1 = (pkt ! 1 AND mask 4) OR ucast (push_bit 4 (dlci_out vc AND mask 4))"
  proof -
    obtain a b r where "pkt = a # b # r" using assms(1) by (cases pkt; cases "tl pkt") auto
    then show "pkt' ! 0 = (pkt ! 0 AND mask 2) OR ucast (push_bit 2 (drop_bit 4 (dlci_out vc)))"
      "pkt' ! 1 = (pkt ! 1 AND mask 4) OR ucast (push_bit 4 (dlci_out vc AND mask 4))"
      using assms(3) by (auto simp: frsw_dlci_switch_def Let_def m)
  qed
  show "length pkt' = length pkt" "drop 2 pkt' = drop 2 pkt" using assms(3) by (auto simp: frsw_dlci_switch_def Let_def)
  show "take_bit 2 (pkt' ! 0) = take_bit 2 (pkt ! 0)" unfolding p by (rule bit_word_eqI) (auto simp: bit_simps)
  show "take_bit 4 (pkt' ! 1) = take_bit 4 (pkt ! 1)" unfolding p by (rule bit_word_eqI) (auto simp: bit_simps)
  have o: "bit (dlci_out vc) n \<Longrightarrow> n < 10" for n by (rule bit_less_pow2 [OF assms(2)])
  show "pkt_dlci pkt' = dlci_out vc"
    unfolding pkt_dlci_bits p
  proof (rule bit_word_eqI)
    fix n assume "n < LENGTH(32)"
    have "10 \<le> n \<Longrightarrow> \<not> bit (dlci_out vc) n" using o [of n] by auto
    then show "bit (push_bit 4 (ucast (drop_bit 2 ((pkt ! 0 AND mask 2) OR ucast (push_bit 2 (drop_bit 4 (dlci_out vc)))))) OR
        ucast (drop_bit 4 ((pkt ! 1 AND mask 4) OR ucast (push_bit 4 (dlci_out vc AND mask 4)))) :: u32) n = bit (dlci_out vc) n"
      using \<open>n < LENGTH(32)\<close> by (cases "n < 4"; cases "n < 10") (auto simp: bit_simps)
  qed
qed

text \<open>a packet whose DLCI has a circuit is sent once, on the output of the circuit, with the outgoing DLCI,
  its other header bits and its payload unchanged, and is counted; a packet without a circuit is dropped and
  counted. Packets on DLCI 0 belong to the LMI.\<close>

theorem frsw_switches:
  assumes "pkt_dlci pkt \<noteq> FR_DLCI_LMI_ANSI" "2 \<le> len" "len \<le> length pkt"
  shows "(case fr_find (h, t) (Some p, pkt_dlci pkt) of
     None \<Rightarrow> frsw_recv_pkt h t n p pkt len = Some (-1, h, t\<lparr>fr_drop := fr_drop t + 1\<rparr>, n)
   | Some c \<Rightarrow>
       \<forall>q. fr_output c = Some q \<and> unfiltered n q \<and> (\<forall>m. tx_result n q m = int (length m)) \<and> unat (dlci_out c) < 2 ^ 10 \<longrightarrow>
         (\<exists>h' n' pkt'. frsw_recv_pkt h t n p pkt len = Some (0, h', t, n') \<and> sent n' = sent n @ [(q, pkt')] \<and>
            length pkt' = len \<and> pkt_dlci pkt' = dlci_out c \<and> drop 2 pkt' = drop 2 (take len pkt) \<and>
            take_bit 2 (pkt' ! 0) = take_bit 2 (pkt ! 0) \<and> take_bit 4 (pkt' ! 1) = take_bit 4 (pkt ! 1) \<and>
            fr_find (h', t) (Some p, pkt_dlci pkt) = Some (c\<lparr>fr_count := fr_count c + 1\<rparr>)))"
proof (cases "frsw_dlci_lookup h t (Some p) (pkt_dlci pkt)")
  case None
  then show ?thesis using assms by (simp add: fr_find_def frsw_recv_pkt_def frsw_handle_pkt_def netio_send_def)
next
  case (Some v)
  let ?c = "fr_vc h v" let ?c' = "?c\<lparr>fr_count := fr_count ?c + 1\<rparr>"
  let ?h = "h\<lparr>fr_vc := (fr_vc h)(v := ?c')\<rparr>"
  have find: "fr_find (h, t) (Some p, pkt_dlci pkt) = Some ?c" using Some by (simp add: fr_find_def)
  have "frsw_dlci_lookup ?h t (Some p) (pkt_dlci pkt) = frsw_dlci_lookup h t (Some p) (pkt_dlci pkt)"
    unfolding frsw_dlci_lookup_def by (rule arg_cong2 [where f = find]) (auto simp: fun_eq_iff)
  with Some have "frsw_dlci_lookup ?h t (Some p) (pkt_dlci pkt) = Some v" by simp
  then have find': "fr_find (?h, t) (Some p, pkt_dlci pkt) = Some ?c'" by (simp add: fr_find_def)
  have "\<exists>h' n' pkt'. frsw_recv_pkt h t n p pkt len = Some (0, h', t, n') \<and> sent n' = sent n @ [(q, pkt')] \<and>
      length pkt' = len \<and> pkt_dlci pkt' = dlci_out ?c \<and> drop 2 pkt' = drop 2 (take len pkt) \<and>
      take_bit 2 (pkt' ! 0) = take_bit 2 (pkt ! 0) \<and> take_bit 4 (pkt' ! 1) = take_bit 4 (pkt ! 1) \<and>
      fr_find (h', t) (Some p, pkt_dlci pkt) = Some ?c'"
    if q: "fr_output ?c = Some q" "unfiltered n q" "\<forall>m. tx_result n q m = int (length m)" "unat (dlci_out ?c) < 2 ^ 10" for q
  proof -
    obtain pkt1 where p1: "snd (frsw_dlci_switch ?c pkt) = pkt1" by simp
    have l2: "2 \<le> length pkt" using assms(2,3) by simp
    note s = dlci_switch [OF l2 q(4) p1]
    let ?m = "take len pkt1"
    have head: "?m ! 0 = pkt1 ! 0" "?m ! 1 = pkt1 ! 1" "length ?m = len" using assms(2,3) s(2) by simp_all
    have "pkt_dlci ?m = dlci_out ?c" using s(1) by (simp add: pkt_dlci_def head(1) head(2) [simplified])
    moreover have "drop 2 ?m = drop 2 (take len pkt)" using s(3) by (simp add: drop_take)
    moreover have "fst (netio_send (Some q) ?m n) = int len"
      using q(2,3) head(3) tx_admit_unfiltered [of "nio_tab n q" ?m] by (simp add: netio_send_def unfiltered_def split_beta Let_def)
    moreover have "frsw_dlci_switch ?c pkt = (?c', pkt1)" using p1 by (auto simp: frsw_dlci_switch_def Let_def)
    ultimately show ?thesis
      using assms(1) Some q(1) find' s(4,5) head netio_send_unfiltered [OF q(2), of ?m]
      by (intro exI [of _ ?h] exI [of _ "snd (netio_send (Some q) ?m n)"] exI [of _ ?m])
        (simp add: frsw_recv_pkt_def frsw_handle_pkt_def Let_def split_beta)
  qed
  then show ?thesis unfolding find option.case by blast
qed

section \<open>The commands on the map\<close>

lemma create_vc_map:
  assumes "fr_tab_ok (h, t)" "frsw_create_vc h t n i d j d' = (r, h', t', n')"
  shows "fr_tab_ok (h', t')" and "fr_find (h', t') = (if nio_reg n i = None \<or> nio_reg n j = None then fr_find (h, t)
    else frsw.map_op (Create \<lparr>fr_input = nio_reg n i, fr_output = nio_reg n j, dlci_in = d, dlci_out = d', fr_count = 0\<rparr>) (fr_find (h, t)))"
proof -
  let ?c = "\<lparr>fr_input = nio_reg n i, fr_output = nio_reg n j, dlci_in = d, dlci_out = d', fr_count = 0\<rparr>"
  have find: "fr_find (h, t) (fr_key ?c) = None \<longleftrightarrow> frsw_dlci_lookup h t (nio_reg n i) d = None"
    by (simp add: fr_find_def fr_key_def)
  have "(h', t') = (if nio_reg n i = None \<or> nio_reg n j = None then (h, t) else frsw.run_op (Create ?c) (h, t))"
    using assms(2) unfolding create_vc_cases frsw.run_op_def Let_def conn_op.case find by (auto split: if_splits)
  with frsw.run_op_refines [OF assms(1), of "Create ?c"] assms(1)
  show "fr_tab_ok (h', t')" "fr_find (h', t') = (if nio_reg n i = None \<or> nio_reg n j = None then fr_find (h, t)
      else frsw.map_op (Create ?c) (fr_find (h, t)))"
    by (simp_all split: if_splits)
qed

section \<open>Errors of the code\<close>

text \<open>Deleting a switch leaves its circuits in the lists of the descriptors, which the LMI follows.\<close>

lemma free_keeps_lists: "nio_tab (frsw_free h t n) = nio_tab n"
proof -
  have "nio_tab (fold (\<lambda>vc. frsw_release_vc (fr_vc h vc)) vs n) = nio_tab n" for vs n
    by (induction vs arbitrary: n) (simp_all add: release_vc_tab)
  then have "nio_tab (fold (\<lambda>i. fold (\<lambda>vc. frsw_release_vc (fr_vc h vc)) (dlci_table t i)) is n) = nio_tab n" for "is"
    by (induction "is" arbitrary: n) simp_all
  then show ?thesis by (simp add: frsw_free_def)
qed

lemma rejected_vc_drops_listener:
  assumes "nio_reg n i = Some p" "nio_reg n j = Some q" "frsw_dlci_lookup h t (Some p) d \<noteq> None" "rxl_refs n p = 1"
  shows "\<exists>n'. frsw_create_vc h t n i d j d' = (-1, h, t, n') \<and> rxl_refs n' p = 0"
  using assms
  by (auto simp: create_vc_cases Let_def frsw_release_vc_def netio_rxl_remove_def netio_release_def netio_acquire_def
    split: option.split)

section \<open>Examples\<close>

definition fr_net :: net where
  "fr_net = \<lparr>nio_tab = (\<lambda>p. netio_create (if p = 0 then ''a'' else ''b'')),
     nio_reg = (\<lambda>s. if s = ''a'' then Some 0 else if s = ''b'' then Some 2 else None),
     nio_refs = (\<lambda>_. 1), rxl_refs = (\<lambda>_. 0), tx_result = (\<lambda>_ f. int (length f)), sent = []\<rparr>"

definition fr_heap0 :: frsw_heap where
  "fr_heap0 = \<lparr>fr_vc = (\<lambda>_. \<lparr>fr_input = None, fr_output = None, dlci_in = 0, dlci_out = 0, fr_count = 0\<rparr>), fr_fresh = 0\<rparr>"

definition fr_state1 :: "frsw_heap \<times> frsw_table \<times> net" where
  "fr_state1 = snd (frsw_create_vc fr_heap0 (frsw_create_table ''fr'') fr_net ''a'' 100 ''b'' 200)"

definition fr_state2 :: "frsw_heap \<times> frsw_table \<times> net" where
  "fr_state2 = (case fr_state1 of (h, t, n) \<Rightarrow> snd (frsw_create_vc h t n ''b'' 100 ''a'' 300))"

lemma fr_lookup_empty: "frsw_dlci_lookup h (frsw_create_table name) p d = None"
  by (simp add: frsw_dlci_lookup_def frsw_create_table_def)

lemma fr_hash_100: "frsw_dlci_hash 100 = 100"
  by (simp add: frsw_dlci_hash_def FRSW_HASH_SIZE_def)

lemma fr_net_regs: "nio_reg fr_net ''a'' = Some 0" "nio_reg fr_net ''b'' = Some 2"
  by (simp_all add: fr_net_def)

lemma fr_net_tab: "fr_conn_list (nio_tab fr_net p) = []" "tx_filter (nio_tab fr_net p) = None" "both_filter (nio_tab fr_net p) = None"
    "sent fr_net = []" "tx_result fr_net = (\<lambda>_ f. int (length f))"
  by (simp_all add: fr_net_def netio_create_def)

lemma fr_state1:
  "fr_vc (fst fr_state1) = (fr_vc fr_heap0)(0 := \<lparr>fr_input = Some 0, fr_output = Some 2, dlci_in = 100, dlci_out = 200, fr_count = 0\<rparr>)"
  "fr_fresh (fst fr_state1) = 1" "dlci_table (fst (snd fr_state1)) = (\<lambda>_. [])(100 := [0])" "fr_name (fst (snd fr_state1)) = ''fr''"
  "fr_conn_list (nio_tab (snd (snd fr_state1)) p) = (if p = 0 then [0] else [])" "nio_reg (snd (snd fr_state1)) = nio_reg fr_net"
  "unfiltered (snd (snd fr_state1)) p" "sent (snd (snd fr_state1)) = []"
  "tx_result (snd (snd fr_state1)) = (\<lambda>_ f. int (length f))"
proof -
  have eq: "fr_state1 = (fst (frsw_link_hash \<lparr>fr_input = Some 0, fr_output = Some 2, dlci_in = 100, dlci_out = 200, fr_count = 0\<rparr>
        (fr_heap0, frsw_create_table ''fr'')),
      snd (frsw_link_hash \<lparr>fr_input = Some 0, fr_output = Some 2, dlci_in = 100, dlci_out = 200, fr_count = 0\<rparr>
        (fr_heap0, frsw_create_table ''fr'')),
      upd_nio 0 (fr_conn_list_update (conn_insert (fst (frsw_link_hash \<lparr>fr_input = Some 0, fr_output = Some 2, dlci_in = 100,
        dlci_out = 200, fr_count = 0\<rparr> (fr_heap0, frsw_create_table ''fr''))) 100 0)) (netio_rxl_add 0 (snd (netio_acquire (snd (netio_acquire fr_net ''a'')) ''b''))))"
    unfolding fr_state1_def create_vc_cases Let_def fr_net_regs fr_lookup_empty
    by (simp add: acquire_tab netio_rxl_add_def fr_net_tab fr_heap0_def)
  show "fr_vc (fst fr_state1) = (fr_vc fr_heap0)(0 := \<lparr>fr_input = Some 0, fr_output = Some 2, dlci_in = 100, dlci_out = 200, fr_count = 0\<rparr>)"
    "fr_fresh (fst fr_state1) = 1" "dlci_table (fst (snd fr_state1)) = (\<lambda>_. [])(100 := [0])" "fr_name (fst (snd fr_state1)) = ''fr''"
    "fr_conn_list (nio_tab (snd (snd fr_state1)) p) = (if p = 0 then [0] else [])" "nio_reg (snd (snd fr_state1)) = nio_reg fr_net"
    "unfiltered (snd (snd fr_state1)) p" "sent (snd (snd fr_state1)) = []"
    "tx_result (snd (snd fr_state1)) = (\<lambda>_ f. int (length f))"
    unfolding eq by (simp_all add: frsw_link_hash_def Let_def fr_hash_100 fr_heap0_def frsw_create_table_def netio_rxl_add_def acquire_tab
      fr_net_tab unfiltered_def netio_acquire_def fr_net_regs)
qed

lemma fr_state2:
  "fr_vc (fst fr_state2) = (fr_vc (fst fr_state1))(1 := \<lparr>fr_input = Some 2, fr_output = Some 0, dlci_in = 100, dlci_out = 300, fr_count = 0\<rparr>)"
  "dlci_table (fst (snd fr_state2)) = (\<lambda>_. [])(100 := [1, 0])" "fr_name (fst (snd fr_state2)) = ''fr''"
  "fr_conn_list (nio_tab (snd (snd fr_state2)) 2) = [1]"
proof -
  have "frsw_dlci_lookup (fst fr_state1) (fst (snd fr_state1)) (Some 2) 100 = None"
    by (simp add: frsw_dlci_lookup_def fr_state1 fr_hash_100)
  then show "fr_vc (fst fr_state2) = (fr_vc (fst fr_state1))(1 := \<lparr>fr_input = Some 2, fr_output = Some 0, dlci_in = 100, dlci_out = 300, fr_count = 0\<rparr>)"
    "dlci_table (fst (snd fr_state2)) = (\<lambda>_. [])(100 := [1, 0])" "fr_name (fst (snd fr_state2)) = ''fr''"
    "fr_conn_list (nio_tab (snd (snd fr_state2)) 2) = [1]"
    unfolding fr_state2_def split_beta create_vc_cases
    by (simp_all add: Let_def fr_state1 frsw_link_hash_def fr_hash_100 netio_rxl_add_def acquire_tab fr_net_regs)
qed

lemma concat_map_single: "x < n \<Longrightarrow> (\<And>i. i \<noteq> x \<Longrightarrow> f i = []) \<Longrightarrow> concat (map f [0..<n]) = f x"
proof (induction n)
  case (Suc n)
  then show ?case
  proof (cases "x = n")
    case True
    have "concat (map f [0..<n]) = []" using Suc.prems(2) True by auto
    then show ?thesis using True by simp
  qed simp
qed simp

text \<open>Both circuits are in one chain, but the saved configuration has only the second.\<close>

lemma save_config_misses:
  "frsw_save_config (fst fr_state2) (fst (snd fr_state2)) (snd (snd fr_state2)) =
     [FrswCreate ''fr'', FrswCreateVc ''fr'' (Some 2) 100 (Some 0) 300]"
  unfolding frsw_save_config_def by (subst concat_map_single [where x = 100]) (auto simp: fr_state2 FRSW_HASH_SIZE_def Let_def)

lemma fr_find_state1: "fr_find (fst fr_state1, fst (snd fr_state1)) (Some 0, d) \<noteq> None \<longleftrightarrow> d = 100"
  by (auto simp: fr_find_def frsw_dlci_lookup_def fr_state1 fr_hash_100)

theorem frsw_lmi_full_status_witness:
  "\<exists>n'. frsw_recv_pkt (fst fr_state1) (fst (snd fr_state1)) (snd (snd fr_state1)) 0
       (lmi_ansi_hdr @ [1, 1, 0, 3, 2, 5, 4]) 14 = Some (0, fst fr_state1, fst (snd fr_state1), n') \<and>
     sent n' = [(0, [0x00, 0x01, 0x03, 0x08, 0x00, 0x7d, 0x95, 1, 1, 0, 3, 2, 5, 5, 7, 3, 6, 0xA0, 0x82])]"
proof -
  have r: "frsw_step\<^sup>*\<^sup>* (fr_heap0, frsw_create_table ''fr'', fr_net) (fst fr_state1, fst (snd fr_state1), snd (snd fr_state1))"
    unfolding prod.collapse fr_state1_def by (rule r_into_rtranclp) (rule frsw_step.create)
  have l: "fr_conn_list (nio_tab fr_net q) = []" for q by (simp add: fr_net_tab)
  have "fr_dlcis (fst fr_state1, fst (snd fr_state1)) 0 = [100]" unfolding fr_dlcis_def fr_find_state1 by simp
  moreover have "length (lmi_ansi_hdr @ [1, 1, 0, 3, 2, 5, 4]) = 14" by (simp add: lmi_ansi_hdr_def)
  ultimately show ?thesis
    using frsw_lmi_full_status [OF r l fr_state1(7), where p = 0 and tx = 5 and rx = 4 and slack = "[]"] by (simp add: Let_def fr_state1(8) lmi_adv_def)
qed

theorem frsw_switches_witness:
  "\<exists>h' n' pkt'. frsw_recv_pkt (fst fr_state1) (fst (snd fr_state1)) (snd (snd fr_state1)) 0 [0x18, 0x41, 9] 3 =
       Some (0, h', fst (snd fr_state1), n') \<and> sent n' = [(2, pkt')] \<and> pkt_dlci pkt' = 200 \<and> drop 2 pkt' = [9]"
proof -
  have d: "pkt_dlci [0x18, 0x41, 9] = 100" by (simp add: pkt_dlci_def)
  have f: "fr_find (fst fr_state1, fst (snd fr_state1)) (Some 0, 100) =
      Some \<lparr>fr_input = Some 0, fr_output = Some 2, dlci_in = 100, dlci_out = 200, fr_count = 0\<rparr>"
    by (simp add: fr_find_def frsw_dlci_lookup_def fr_state1 fr_hash_100)
  show ?thesis
    using frsw_switches [where pkt = "[0x18, 0x41, 9]" and len = 3 and h = "fst fr_state1" and t = "fst (snd fr_state1)"
      and p = 0 and n = "snd (snd fr_state1)"]
    by (simp add: d f FR_DLCI_LMI_ANSI_def fr_state1(7,8,9)) blast
qed

end
