(* ===== verification/NioBridge.thy ===== *)
theory NioBridge
  imports NetIo
begin

text \<open>
  The bridge of network descriptors (\<open>common/net_io_bridge.c\<close>): an array of 32 slots; a packet received on a
  descriptor is sent on every other one. The lock is always obtained; the parser of the configuration file
  and the registration of the bridge are not modelled. The proofs rest on the interface \<open>packet_sender\<close>.
\<close>

section \<open>The bridge\<close>

definition NETIO_BRIDGE_MAX_NIO :: nat where "NETIO_BRIDGE_MAX_NIO = 32"

record netio_bridge =
  nb_name :: string
  nb_nio :: "nat \<Rightarrow> nio option"

definition netio_bridge_recv_pkt :: "netio_bridge \<Rightarrow> net \<Rightarrow> nio \<Rightarrow> u8 list \<Rightarrow> int \<times> net" where
  "netio_bridge_recv_pkt t n nio pkt =
     (0, fold (\<lambda>i n. if nb_nio t i \<noteq> None \<and> nb_nio t i \<noteq> Some nio then snd (netio_send (nb_nio t i) pkt n) else n)
           [0..<NETIO_BRIDGE_MAX_NIO] n)"

definition netio_bridge_create :: "string \<Rightarrow> netio_bridge" where
  "netio_bridge_create name = \<lparr>nb_name = name, nb_nio = (\<lambda>_. None)\<rparr>"

definition netio_bridge_add_netio :: "netio_bridge \<Rightarrow> net \<Rightarrow> string \<Rightarrow> int \<times> netio_bridge \<times> net" where
  "netio_bridge_add_netio t n name =
     (case find (\<lambda>i. nb_nio t i = None) [0..<NETIO_BRIDGE_MAX_NIO] of
        None \<Rightarrow> (-1, t, n)
      | Some i \<Rightarrow>
          (case netio_acquire n name of
             (None, n) \<Rightarrow> (-1, t, n)
           | (Some nio, n) \<Rightarrow> (0, t\<lparr>nb_nio := (nb_nio t)(i := Some nio)\<rparr>, netio_rxl_add nio n)))"

definition netio_bridge_free_nio :: "nio \<Rightarrow> net \<Rightarrow> net" where
  "netio_bridge_free_nio nio n =
     (let n = netio_rxl_remove nio n in snd (netio_release n (nio_name (nio_tab n nio))))"

definition netio_bridge_remove_netio :: "netio_bridge \<Rightarrow> net \<Rightarrow> string \<Rightarrow> int \<times> netio_bridge \<times> net" where
  "netio_bridge_remove_netio t n name =
     (case netio_exists n name of
        None \<Rightarrow> (-1, t, n)
      | Some nio \<Rightarrow>
          (case find (\<lambda>i. nb_nio t i = Some nio) [0..<NETIO_BRIDGE_MAX_NIO] of
             None \<Rightarrow> (-1, t, n)
           | Some i \<Rightarrow> (0, t\<lparr>nb_nio := (nb_nio t)(i := None)\<rparr>, netio_bridge_free_nio nio n)))"

datatype nio_bridge_cfg_line = NioBridgeCreate string | NioBridgeAddNio string nio

definition netio_bridge_save_config :: "netio_bridge \<Rightarrow> nio_bridge_cfg_line list" where
  "netio_bridge_save_config t =
     NioBridgeCreate (nb_name t) #
     concat (map (\<lambda>i. case nb_nio t i of None \<Rightarrow> [] | Some p \<Rightarrow> [NioBridgeAddNio (nb_name t) p]) [0..<NETIO_BRIDGE_MAX_NIO])"

definition netio_bridge_free :: "netio_bridge \<Rightarrow> net \<Rightarrow> net" where
  "netio_bridge_free t n =
     fold (\<lambda>i n. case nb_nio t i of None \<Rightarrow> n | Some p \<Rightarrow> netio_bridge_free_nio p n) [0..<NETIO_BRIDGE_MAX_NIO] n"

section \<open>Flooding\<close>

text \<open>The descriptors in the slots, in their order.\<close>

definition members :: "netio_bridge \<Rightarrow> nio list" where
  "members t = List.map_filter (nb_nio t) [0..<NETIO_BRIDGE_MAX_NIO]"

lemma recv_send_all:
  "fold (\<lambda>i n. if f i \<noteq> None \<and> f i \<noteq> Some p then snd (netio_send (f i) pkt n) else n) is n =
   nio_ports.send_all (map (\<lambda>q. (q, pkt)) (filter (\<lambda>q. q \<noteq> p) (List.map_filter f is))) n"
  by (induction "is" arbitrary: n) (auto simp: map_filter_simps split: option.split)

text \<open>a packet received on one descriptor of a bridge is sent unchanged, once per slot and in their order, on
  every descriptor but that one, when no filter drops it; with filters the bridge sends a part of that. The
  configuration of the descriptors stays.\<close>

theorem bridge_floods:
  "\<exists>n' ys. netio_bridge_recv_pkt t n p pkt = (0, n') \<and> sent n' = sent n @ ys \<and> same_net n n' \<and>
     subseq ys (map (\<lambda>q. (q, pkt)) (filter (\<lambda>q. q \<noteq> p) (members t))) \<and>
     ((\<forall>q\<in>set (members t). unfiltered n q) \<longrightarrow> ys = map (\<lambda>q. (q, pkt)) (filter (\<lambda>q. q \<noteq> p) (members t)))"
proof -
  let ?xs = "map (\<lambda>q. (q, pkt)) (filter (\<lambda>q. q \<noteq> p) (members t))" let ?n = "nio_ports.send_all ?xs n"
  have "netio_bridge_recv_pkt t n p pkt = (0, ?n)" 
    unfolding netio_bridge_recv_pkt_def recv_send_all members_def ..
  moreover obtain ys where "sent ?n = sent n @ ys" "subseq ys ?xs" using nio_ports.send_all_log by blast
  moreover have "sent ?n = sent n @ ?xs" if "\<forall>q\<in>set (members t). unfiltered n q"
    using that by (intro nio_ports.send_all_admitted) auto
  ultimately show ?thesis using nio_ports.send_all_same [of n ?xs] by auto
qed

definition nb_net :: net where
  "nb_net = \<lparr>nio_tab = (\<lambda>_. netio_create ''x''), nio_reg = (\<lambda>_. None), nio_refs = (\<lambda>_. 0), rxl_refs = (\<lambda>_. 0),
     tx_result = (\<lambda>_ f. int (length f)), sent = []\<rparr>"

definition nb_example :: netio_bridge where
  "nb_example = (netio_bridge_create ''nb'')\<lparr>nb_nio := (\<lambda>_. None)(0 := Some 5, 1 := Some 6, 2 := Some 7)\<rparr>"

theorem bridge_floods_witness:
  "\<exists>n'. netio_bridge_recv_pkt nb_example nb_net 6 [1, 2] = (0, n') \<and> sent n' = [(5, [1, 2]), (7, [1, 2])]"
proof -
  have m: "members nb_example = [5, 6, 7]"
    by (simp add: members_def NETIO_BRIDGE_MAX_NIO_def nb_example_def upt_rec List.map_filter_def)
  have u: "unfiltered nb_net q" "sent nb_net = []" for q by (simp_all add: unfiltered_def nb_net_def netio_create_def)
  show ?thesis using bridge_floods [of nb_example nb_net 6 "[1, 2]"] by (auto simp: m u)
qed

section \<open>References\<close>

text \<open>Removing the descriptor that was just added restores its reference and listener counts and the slots.\<close>

lemma add_then_remove:
  assumes "nio_reg n name = Some p" "nio_name (nio_tab n p) = name" "p \<notin> set (members t)"
    "netio_bridge_add_netio t n name = (0, t', n')"
  shows "\<exists>n''. netio_bridge_remove_netio t' n' name = (0, t, n'') \<and> nio_refs n'' = nio_refs n \<and> rxl_refs n'' = rxl_refs n"
proof -
  obtain i where i: "find (\<lambda>i. nb_nio t i = None) [0..<NETIO_BRIDGE_MAX_NIO] = Some i"
    using assms(4) by (auto simp: netio_bridge_add_netio_def split: option.splits)
  then have free: "nb_nio t i = None" "i \<in> set [0..<NETIO_BRIDGE_MAX_NIO]" by (auto simp: find_Some_iff)
  have acq: "netio_acquire n name = (Some p, n\<lparr>nio_refs := (nio_refs n)(p := nio_refs n p + 1)\<rparr>)"
    by (simp add: netio_acquire_def assms(1))
  have t': "t' = t\<lparr>nb_nio := (nb_nio t)(i := Some p)\<rparr>"
    and n': "n' = netio_rxl_add p (n\<lparr>nio_refs := (nio_refs n)(p := nio_refs n p + 1)\<rparr>)"
    using assms(4) by (simp_all add: netio_bridge_add_netio_def i acq)
  have "nb_nio t j \<noteq> Some p" if "j < NETIO_BRIDGE_MAX_NIO" for j
    using assms(3) that by (force simp: members_def List.map_filter_def)
  then have "find (\<lambda>j. nb_nio t' j = Some p) [0..<NETIO_BRIDGE_MAX_NIO] = Some i"
    unfolding find_Some_iff t' using free(2) by (intro exI [of _ i]) (auto simp: less_imp_neq)
  moreover have "t\<lparr>nb_nio := (nb_nio t)(i := None)\<rparr> = t" using free(1) by (simp add: fun_upd_idem)
  ultimately show ?thesis using assms(1,2)
    by (simp add: netio_bridge_remove_netio_def netio_exists_def n' netio_rxl_add_def netio_bridge_free_nio_def
      netio_rxl_remove_def netio_release_def Let_def t')
qed

end
