(* ===== verification/FsNvram.thy ===== *)
theory FsNvram
  imports Prelude
begin

text \<open>
  The Cisco NVRAM file system, \<open>common/fs_nvram.c\<close>. The host buffer is a byte list and every access
  outside it is \<open>None\<close>, as is every access outside a buffer the code allocates. \<open>size_t\<close> values, which
  are sizes of host objects, are natural numbers; \<open>u_int\<close> and \<open>m_uint32_t\<close> are 32-bit words. Memory
  allocation succeeds; the size it is asked for is computed as the code does.
\<close>

section \<open>Constants\<close>

definition FS_NVRAM_SECTOR_SIZE :: nat where "FS_NVRAM_SECTOR_SIZE = 0x400"
definition FS_NVRAM_MAGIC_FILESYSTEM :: u16 where "FS_NVRAM_MAGIC_FILESYSTEM = 0xF0A5"
definition FS_NVRAM_MAGIC_STARTUP_CONFIG :: u16 where "FS_NVRAM_MAGIC_STARTUP_CONFIG = 0xABCD"
definition FS_NVRAM_MAGIC_PRIVATE_CONFIG :: u16 where "FS_NVRAM_MAGIC_PRIVATE_CONFIG = 0xFEDC"
definition FS_NVRAM_FORMAT_RAW :: u16 where "FS_NVRAM_FORMAT_RAW = 1"
definition FS_NVRAM_FORMAT_LZC :: u16 where "FS_NVRAM_FORMAT_LZC = 2"
definition FS_NVRAM_NORMAL_FILESYSTEM_BLOCK1 :: nat where "FS_NVRAM_NORMAL_FILESYSTEM_BLOCK1 = 0x20000"
definition FS_NVRAM_BACKUP_FILESYSTEM_BLOCK1 :: nat where "FS_NVRAM_BACKUP_FILESYSTEM_BLOCK1 = 0x1C000"

definition FS_NVRAM_FLAG_OPEN_CREATE :: u32 where "FS_NVRAM_FLAG_OPEN_CREATE = 0x0001"
definition FS_NVRAM_FLAG_SCALE_4 :: u32 where "FS_NVRAM_FLAG_SCALE_4 = 0x0020"
definition FS_NVRAM_FLAG_ALIGN_4_PAD_4 :: u32 where "FS_NVRAM_FLAG_ALIGN_4_PAD_4 = 0x0080"
definition FS_NVRAM_FLAG_WITH_BACKUP :: u32 where "FS_NVRAM_FLAG_WITH_BACKUP = 0x0100"
definition FS_NVRAM_FLAG_ADDR_ABSOLUTE :: u32 where "FS_NVRAM_FLAG_ADDR_ABSOLUTE = 0x0400"
definition FS_NVRAM_FLAGS_UNK1_0C03 :: u32 where "FS_NVRAM_FLAGS_UNK1_0C03 = 0x1000"
definition FS_NVRAM_FLAGS_UNK1_0C01 :: u32 where "FS_NVRAM_FLAGS_UNK1_0C01 = 0x2000"
definition FS_NVRAM_FORMAT_MASK :: u32 where "FS_NVRAM_FORMAT_MASK = 0x3FF0"
definition FS_NVRAM_VERIFY_BACKUP :: u32 where "FS_NVRAM_VERIFY_BACKUP = 0x01"
definition FS_NVRAM_VERIFY_CONFIG :: u32 where "FS_NVRAM_VERIFY_CONFIG = 0x02"

text \<open>The error codes: the \<open>errno\<close> values and the three codes of \<open>fs_nvram.h\<close>, and the \<open>-1\<close> of bad
  compressed data.\<close>

datatype nv_error = NV_EINVAL | NV_ENOSPC | NV_ENOTSUP | NV_ENOMEM | FS_NVRAM_ERR_NO_MAGIC
  | FS_NVRAM_ERR_BACKUP_MISSMATCH | FS_NVRAM_ERR_INVALID_ADDRESS | NV_BAD_DATA

section \<open>Data\<close>

record fs_nvram =
  nv_base :: "u8 list"
  nv_len :: nat
  nv_addr :: u32
  nv_flags :: u32
  nv_shift :: nat
  nv_padding :: u32
  nv_backup :: nat

record startup_head =
  sh_magic :: u16
  sh_format :: u16
  sh_checksum :: u16
  sh_unk1 :: u16
  sh_start :: u32
  sh_end :: u32
  sh_len :: u32
  sh_unk2 :: u32
  sh_unk3 :: u32
  sh_unk4 :: u16
  sh_unk5 :: u16
  sh_uncompressed_len :: u32

record private_head =
  ph_magic :: u16
  ph_format :: u16
  ph_start :: u32
  ph_end :: u32
  ph_len :: u32

text \<open>\<open>sizeof\<close> of the three packed headers and the offset of the checksum in the second.\<close>

definition NV_HEADER_SIZE :: nat where "NV_HEADER_SIZE = 8"
definition NV_STARTUP_SIZE :: nat where "NV_STARTUP_SIZE = 36"
definition NV_PRIVATE_SIZE :: nat where "NV_PRIVATE_SIZE = 16"

section \<open>Byte order\<close>

text \<open>A packed header in memory is its bytes; the conversions to big endian produce them and the
  conversions from big endian read them.\<close>

definition native_to_be_header_startup :: "startup_head \<Rightarrow> u8 list" where
  "native_to_be_header_startup h =
     m_hton16 (sh_magic h) @ m_hton16 (sh_format h) @ m_hton16 (sh_checksum h) @ m_hton16 (sh_unk1 h)
     @ m_hton32 (sh_start h) @ m_hton32 (sh_end h) @ m_hton32 (sh_len h) @ m_hton32 (sh_unk2 h)
     @ m_hton32 (sh_unk3 h) @ m_hton16 (sh_unk4 h) @ m_hton16 (sh_unk5 h)
     @ m_hton32 (sh_uncompressed_len h)"

definition native_to_be_header_private :: "private_head \<Rightarrow> u8 list" where
  "native_to_be_header_private h =
     m_hton16 (ph_magic h) @ m_hton16 (ph_format h)
     @ m_hton32 (ph_start h) @ m_hton32 (ph_end h) @ m_hton32 (ph_len h)"

definition be16_at :: "u8 list \<Rightarrow> nat \<Rightarrow> u16" where
  "be16_at b i = m_ntoh16 (b ! i) (b ! (i + 1))"

definition be32_at :: "u8 list \<Rightarrow> nat \<Rightarrow> u32" where
  "be32_at b i = m_ntoh32 (b ! i) (b ! (i + 1)) (b ! (i + 2)) (b ! (i + 3))"

definition be_to_native_header_startup :: "u8 list \<Rightarrow> startup_head" where
  "be_to_native_header_startup b =
     \<lparr> sh_magic = be16_at b 0, sh_format = be16_at b 2, sh_checksum = be16_at b 4, sh_unk1 = be16_at b 6,
       sh_start = be32_at b 8, sh_end = be32_at b 12, sh_len = be32_at b 16, sh_unk2 = be32_at b 20,
       sh_unk3 = be32_at b 24, sh_unk4 = be16_at b 28, sh_unk5 = be16_at b 30,
       sh_uncompressed_len = be32_at b 32 \<rparr>"

definition be_to_native_header_private :: "u8 list \<Rightarrow> private_head" where
  "be_to_native_header_private b =
     \<lparr> ph_magic = be16_at b 0, ph_format = be16_at b 2, ph_start = be32_at b 4,
       ph_end = be32_at b 8, ph_len = be32_at b 12 \<rparr>"

section \<open>Bytes of the file system\<close>

definition host_get :: "u8 list \<Rightarrow> nat \<Rightarrow> u8 option" where
  "host_get b i = (if i < length b then Some (b ! i) else None)"

definition host_put :: "u8 list \<Rightarrow> nat \<Rightarrow> u8 \<Rightarrow> u8 list option" where
  "host_put b i v = (if i < length b then Some (b[i := v]) else None)"

definition fs_nvram_read_byte :: "fs_nvram \<Rightarrow> u32 \<Rightarrow> u8 option" where
  "fs_nvram_read_byte fs offset = host_get (nv_base fs) (unat (push_bit (nv_shift fs) offset))"

definition fs_nvram_write_byte :: "fs_nvram \<Rightarrow> u32 \<Rightarrow> u8 \<Rightarrow> fs_nvram option" where
  "fs_nvram_write_byte fs offset v =
     map_option (\<lambda>b. fs\<lparr>nv_base := b\<rparr>) (host_put (nv_base fs) (unat (push_bit (nv_shift fs) offset)) v)"

definition fs_nvram_offset1_with_backup :: "fs_nvram \<Rightarrow> u32 \<Rightarrow> u32" where
  "fs_nvram_offset1_with_backup fs offset =
     (if unat offset < FS_NVRAM_NORMAL_FILESYSTEM_BLOCK1 then push_bit (nv_shift fs) offset
      else push_bit (nv_shift fs) (of_nat FS_NVRAM_BACKUP_FILESYSTEM_BLOCK1 + offset))"

definition fs_nvram_offset2_with_backup :: "fs_nvram \<Rightarrow> u32 \<Rightarrow> u32" where
  "fs_nvram_offset2_with_backup fs offset =
     (if unat offset < FS_NVRAM_BACKUP_FILESYSTEM_BLOCK1
      then push_bit (nv_shift fs) (of_nat (nv_backup fs) + offset)
      else push_bit (nv_shift fs) (of_nat (nv_len fs) + offset))"

definition fs_nvram_read_byte_with_backup :: "fs_nvram \<Rightarrow> u32 \<Rightarrow> u8 option" where
  "fs_nvram_read_byte_with_backup fs offset =
     host_get (nv_base fs) (unat (fs_nvram_offset1_with_backup fs offset))"

definition fs_nvram_write_byte_with_backup :: "fs_nvram \<Rightarrow> u32 \<Rightarrow> u8 \<Rightarrow> fs_nvram option" where
  "fs_nvram_write_byte_with_backup fs offset v =
     (case host_put (nv_base fs) (unat (fs_nvram_offset1_with_backup fs offset)) v of
        None \<Rightarrow> None
      | Some b \<Rightarrow> map_option (\<lambda>b. fs\<lparr>nv_base := b\<rparr>)
                     (host_put b (unat (fs_nvram_offset2_with_backup fs offset)) v))"

text \<open>The function pointers \<open>fs->read_byte\<close> and \<open>fs->write_byte\<close>, which \<open>fs_nvram_open\<close> sets from
  the flags it also stores.\<close>

definition nv_with_backup :: "fs_nvram \<Rightarrow> bool" where
  "nv_with_backup fs = (nv_flags fs AND FS_NVRAM_FLAG_WITH_BACKUP \<noteq> 0)"

definition nv_read :: "fs_nvram \<Rightarrow> u32 \<Rightarrow> u8 option" where
  "nv_read fs = (if nv_with_backup fs then fs_nvram_read_byte_with_backup fs else fs_nvram_read_byte fs)"

definition nv_put :: "fs_nvram \<Rightarrow> u32 \<Rightarrow> u8 \<Rightarrow> fs_nvram option" where
  "nv_put fs = (if nv_with_backup fs then fs_nvram_write_byte_with_backup fs else fs_nvram_write_byte fs)"

section \<open>Blocks of bytes\<close>

fun read_bytes :: "('s \<Rightarrow> u32 \<Rightarrow> u8 option) \<Rightarrow> 's \<Rightarrow> u32 \<Rightarrow> nat \<Rightarrow> u8 list option" where
  "read_bytes rd s offset 0 = Some []"
| "read_bytes rd s offset (Suc n) =
     (case rd s offset of None \<Rightarrow> None | Some b \<Rightarrow> map_option ((#) b) (read_bytes rd s (offset + 1) n))"

fun write_bytes :: "('s \<Rightarrow> u32 \<Rightarrow> u8 \<Rightarrow> 's option) \<Rightarrow> u32 \<Rightarrow> u8 list \<Rightarrow> 's \<Rightarrow> 's option" where
  "write_bytes wr offset [] s = Some s"
| "write_bytes wr offset (b # bs) s =
     (case wr s offset b of None \<Rightarrow> None | Some s' \<Rightarrow> write_bytes wr (offset + 1) bs s')"

definition fs_nvram_memcpy_from :: "fs_nvram \<Rightarrow> u32 \<Rightarrow> u32 \<Rightarrow> u8 list option" where
  "fs_nvram_memcpy_from fs offset len = read_bytes nv_read fs offset (unat len)"

text \<open>\<open>data\<close> is the caller's buffer; reading past its end is undefined.\<close>

definition fs_nvram_memcpy_to :: "u32 \<Rightarrow> u8 list \<Rightarrow> u32 \<Rightarrow> fs_nvram \<Rightarrow> fs_nvram option" where
  "fs_nvram_memcpy_to offset data len fs =
     (if unat len \<le> length data then write_bytes nv_put offset (take (unat len) data) fs else None)"

definition fs_nvram_clear :: "u32 \<Rightarrow> u32 \<Rightarrow> fs_nvram \<Rightarrow> fs_nvram option" where
  "fs_nvram_clear offset len fs = write_bytes nv_put offset (replicate (unat len) 0) fs"

definition fs_nvram_read16 :: "fs_nvram \<Rightarrow> u32 \<Rightarrow> u16 option" where
  "fs_nvram_read16 fs offset =
     (case nv_read fs offset of None \<Rightarrow> None
      | Some a \<Rightarrow> map_option (m_ntoh16 a) (nv_read fs (offset + 1)))"

definition fs_nvram_write16 :: "u32 \<Rightarrow> u16 \<Rightarrow> fs_nvram \<Rightarrow> fs_nvram option" where
  "fs_nvram_write16 offset v fs = write_bytes nv_put offset (m_hton16 v) fs"

definition fs_nvram_read32 :: "fs_nvram \<Rightarrow> u32 \<Rightarrow> u32 option" where
  "fs_nvram_read32 fs offset =
     map_option (\<lambda>b. be32_at b 0) (read_bytes nv_read fs offset 4)"

definition fs_nvram_write32 :: "u32 \<Rightarrow> u32 \<Rightarrow> fs_nvram \<Rightarrow> fs_nvram option" where
  "fs_nvram_write32 offset v fs = write_bytes nv_put offset (m_hton32 v) fs"

text \<open>\<open>malloc(len + 1)\<close> wraps to zero for the largest length; the first byte copied is then outside
  the block.\<close>

definition fs_nvram_read_data :: "fs_nvram \<Rightarrow> u32 \<Rightarrow> u32 \<Rightarrow> u8 list option" where
  "fs_nvram_read_data fs offset len =
     (if len + 1 = 0 then None
      else map_option (\<lambda>b. b @ [0]) (fs_nvram_memcpy_from fs offset len))"

section \<open>Addresses and padding\<close>

definition fs_nvram_address_of :: "fs_nvram \<Rightarrow> u32 \<Rightarrow> u32" where
  "fs_nvram_address_of fs offset =
     (if nv_flags fs AND FS_NVRAM_FLAG_ADDR_ABSOLUTE \<noteq> 0 then nv_addr fs + offset else offset - 8)"

definition fs_nvram_offset_of :: "fs_nvram \<Rightarrow> u32 \<Rightarrow> u32" where
  "fs_nvram_offset_of fs address =
     (if nv_flags fs AND FS_NVRAM_FLAG_ADDR_ABSOLUTE \<noteq> 0 then address - nv_addr fs else address + 8)"

definition fs_nvram_padding_at :: "fs_nvram \<Rightarrow> u32 \<Rightarrow> u32" where
  "fs_nvram_padding_at fs offset = (if offset mod 4 \<noteq> 0 then nv_padding fs - offset mod 4 else 0)"

section \<open>Checksum\<close>

text \<open>The offset of the checksum field: \<open>sizeof(fs_nvram_header) + offsetof(checksum)\<close>.\<close>

definition NV_CHECKSUM_OFFSET :: u32 where "NV_CHECKSUM_OFFSET = 12"

fun nv_sum :: "fs_nvram \<Rightarrow> u32 \<Rightarrow> nat \<Rightarrow> u32 \<Rightarrow> u32 option" where
  "nv_sum fs offset (Suc (Suc n)) acc =
     (case fs_nvram_read16 fs offset of None \<Rightarrow> None
      | Some v \<Rightarrow> nv_sum fs (offset + 2) n (acc + ucast v))"
| "nv_sum fs offset (Suc 0) acc =
     (case nv_read fs offset of None \<Rightarrow> None | Some b \<Rightarrow> Some (acc + push_bit 8 (ucast b)))"
| "nv_sum fs offset 0 acc = Some acc"

text \<open>One round of \<open>(sum & 0xffff) + (sum >> 16)\<close> over the integers.\<close>

lemma nv_fold_round:
  fixes x :: u32
  shows "unat ((x AND 0xffff) + drop_bit 16 x) = unat x mod 65536 + unat x div 65536"
proof -
  have a: "unat (x AND 0xffff) = unat x mod 65536"
    using arg_cong [OF take_bit_eq_mask [of 16 x], of unat]
    by (simp add: unsigned_take_bit_eq take_bit_eq_mod mask_eq_exp_minus_1 unat_mod)
  have b: "unat (drop_bit 16 x) = unat x div 65536"
    by (simp add: drop_bit_eq_div unat_div)
  have "unat x < 2 ^ LENGTH(32)" by (rule unsigned_less)
  then have "unat x mod 65536 + unat x div 65536 < 2 ^ 32" by simp
  then show ?thesis by (simp add: unat_word_ariths a b)
qed

lemma nv_fold_decreases:
  fixes x :: u32
  assumes "drop_bit 16 x \<noteq> 0"
  shows "unat ((x AND 0xffff) + drop_bit 16 x) < unat x"
proof -
  have "unat (drop_bit 16 x) = unat x div 65536"
    by (simp add: drop_bit_eq_div unat_div)
  with assms have "0 < unat x div 65536"
    by (metis gr_zeroI unat_eq_zero)
  then have "unat x mod 65536 + unat x div 65536 < unat x"
    using div_mult_mod_eq [of "unat x" 65536] by linarith
  then show ?thesis by (simp only: nv_fold_round)
qed

function nv_fold :: "u32 \<Rightarrow> u32" where
  "nv_fold x = (if drop_bit 16 x = 0 then x else nv_fold ((x AND 0xffff) + drop_bit 16 x))"
  by pat_completeness auto
termination
  by (relation "measure unat") (simp_all only: in_measure wf_measure nv_fold_decreases not_False_eq_True)

declare nv_fold.simps [simp del]

definition fs_nvram_update_checksum :: "fs_nvram \<Rightarrow> fs_nvram option" where
  "fs_nvram_update_checksum fs =
     (case fs_nvram_write16 NV_CHECKSUM_OFFSET 0 fs of None \<Rightarrow> None
      | Some fs \<Rightarrow>
          (case nv_sum fs 8 (unat (of_nat (nv_len fs) - 8 :: u32)) 0 of None \<Rightarrow> None
           | Some acc \<Rightarrow> fs_nvram_write16 NV_CHECKSUM_OFFSET (ucast (NOT (nv_fold acc))) fs))"

section \<open>Opening\<close>

definition fs_nvram_create :: "fs_nvram \<Rightarrow> fs_nvram option" where
  "fs_nvram_create fs =
     (case fs_nvram_clear 0 (of_nat (nv_len fs)) fs of None \<Rightarrow> None
      | Some fs \<Rightarrow>
          (case fs_nvram_write16 6 FS_NVRAM_MAGIC_FILESYSTEM fs of None \<Rightarrow> None
           | Some fs \<Rightarrow> fs_nvram_write16 NV_CHECKSUM_OFFSET 0xFFFF fs))"

definition nv_len_div :: "u32 \<Rightarrow> nat" where
  "nv_len_div flags = (if flags AND FS_NVRAM_FLAG_SCALE_4 \<noteq> 0 then 4 else 1)
                      * (if flags AND FS_NVRAM_FLAG_WITH_BACKUP \<noteq> 0 then 2 else 1)"

definition nv_init :: "u8 list \<Rightarrow> nat \<Rightarrow> u32 \<Rightarrow> u32 \<Rightarrow> fs_nvram" where
  "nv_init base len addr flags =
     \<lparr> nv_base = base, nv_len = len div nv_len_div flags, nv_addr = addr, nv_flags = flags,
       nv_shift = (if flags AND FS_NVRAM_FLAG_SCALE_4 \<noteq> 0 then 2 else 0),
       nv_padding = (if flags AND FS_NVRAM_FLAG_ALIGN_4_PAD_4 \<noteq> 0 then 4 else 8),
       nv_backup = (if flags AND FS_NVRAM_FLAG_WITH_BACKUP \<noteq> 0
                    then min (len div nv_len_div flags) FS_NVRAM_NORMAL_FILESYSTEM_BLOCK1 else 0) \<rparr>"

text \<open>\<open>base\<close> is \<open>None\<close> for a null pointer. \<open>None\<close> is undefined behaviour, \<open>Inl\<close> the value of
  \<open>errno\<close>.\<close>

definition fs_nvram_open :: "u8 list option \<Rightarrow> nat \<Rightarrow> u32 \<Rightarrow> u32 \<Rightarrow> (nv_error + fs_nvram) option" where
  "fs_nvram_open base len addr flags =
     (case base of None \<Rightarrow> Some (Inl NV_EINVAL)
      | Some b \<Rightarrow>
          if len < NV_HEADER_SIZE * nv_len_div flags \<or> len mod (FS_NVRAM_SECTOR_SIZE * nv_len_div flags) \<noteq> 0
          then Some (Inl NV_EINVAL)
          else let fs = nv_init b len addr flags in
            (case fs_nvram_read16 fs 6 of None \<Rightarrow> None
             | Some magic \<Rightarrow>
                 if magic \<noteq> FS_NVRAM_MAGIC_FILESYSTEM then
                   if flags AND FS_NVRAM_FLAG_OPEN_CREATE = 0 then Some (Inl FS_NVRAM_ERR_NO_MAGIC)
                   else map_option Inr (fs_nvram_create fs)
                 else Some (Inr fs)))"

definition fs_nvram_num_sectors :: "fs_nvram option \<Rightarrow> nat" where
  "fs_nvram_num_sectors fs = (case fs of None \<Rightarrow> 0 | Some fs \<Rightarrow> nv_len fs div FS_NVRAM_SECTOR_SIZE)"

section \<open>Compressed configurations\<close>

text \<open>\<open>uncompress_LZC\<close>. The two buffers are never null at the only call. The output is the bytes
  written so far (their number is \<open>out_pos\<close>); the stack is a list with its top first; \<open>ui_\<close> fields are
  what uninitialised memory holds.\<close>

record uninit =
  ui_parents :: "nat \<Rightarrow> u16"
  ui_suffixes :: "nat \<Rightarrow> u8"
  ui_buf :: "nat \<Rightarrow> u8"
  ui_out :: "nat \<Rightarrow> u8"

record lz_state =
  lz_parents :: "nat \<Rightarrow> u16"
  lz_suffixes :: "nat \<Rightarrow> u8"
  lz_buf :: "nat \<Rightarrow> u8"
  lz_in_pos :: nat
  lz_out :: "u8 list"
  lz_numBits :: nat
  lz_head :: nat
  lz_needPrev :: bool
  lz_bitPos :: nat
  lz_numBufBits :: nat

datatype lz_result = LzMore lz_state | LzOk "u8 list" | LzErr nv_error | LzFault

definition LZC_NUM_BITS_MIN :: nat where "LZC_NUM_BITS_MIN = 9"
definition LZC_NUM_BITS_MAX :: nat where "LZC_NUM_BITS_MAX = 16"

definition lz_refill :: "u8 list \<Rightarrow> lz_state \<Rightarrow> lz_state" where
  "lz_refill in_data st =
     (if lz_numBufBits st = lz_bitPos st then
        let len = min (length in_data - lz_in_pos st) (lz_numBits st) in
        st\<lparr>lz_buf := (\<lambda>i. if i < len then in_data ! (lz_in_pos st + i) else lz_buf st i),
           lz_numBufBits := 8 * len, lz_bitPos := 0, lz_in_pos := lz_in_pos st + len\<rparr>
      else st)"

definition lz_symbol :: "lz_state \<Rightarrow> u32" where
  "lz_symbol st =
     (let bytePos = lz_bitPos st div 8;
          v = ucast (lz_buf st bytePos) OR push_bit 8 (ucast (lz_buf st (bytePos + 1)))
              OR push_bit 16 (ucast (lz_buf st (bytePos + 2)))
      in drop_bit (lz_bitPos st mod 8) v AND (push_bit (lz_numBits st) 1 - 1))"

text \<open>\<open>while (cur >= 256)\<close>, which pushes the suffixes of a string, and the push after it.\<close>

function lz_walk :: "nat \<Rightarrow> lz_state \<Rightarrow> nat \<Rightarrow> u8 list \<Rightarrow> u8 list option" where
  "lz_walk numItems st cur stack =
     (if numItems \<le> length stack then None
      else if cur < 256 then Some (of_nat cur # stack)
      else if numItems \<le> cur then None
      else lz_walk numItems st (unat (lz_parents st cur)) (lz_suffixes st cur # stack))"
  by pat_completeness auto
termination by (relation "measure (\<lambda>(numItems, st, cur, stack). numItems - length stack)") auto

declare lz_walk.simps [simp del]

fun lz_emit :: "nat \<Rightarrow> u8 list \<Rightarrow> u8 list \<Rightarrow> u8 list" where
  "lz_emit out_len out [] = out"
| "lz_emit out_len out (b # stack) =
     (if length out < out_len then lz_emit out_len (out @ [b]) stack else out)"

definition lz_grow :: "nat \<Rightarrow> nat \<Rightarrow> nat \<Rightarrow> lz_state \<Rightarrow> lz_state" where
  "lz_grow maxbits numItems symbol st =
     (if lz_head st < numItems then
        let st = st\<lparr>lz_needPrev := True, lz_parents := (lz_parents st)(lz_head st := of_nat symbol),
                    lz_head := lz_head st + 1\<rparr>
        in if 2 ^ lz_numBits st < lz_head st \<and> lz_numBits st < maxbits
           then st\<lparr>lz_numBufBits := 0, lz_bitPos := 0, lz_numBits := lz_numBits st + 1\<rparr>
           else st
      else st\<lparr>lz_needPrev := False\<rparr>)"

text \<open>The part of the loop body that handles one symbol of the dictionary.\<close>

definition lz_put_symbol :: "nat \<Rightarrow> nat \<Rightarrow> nat \<Rightarrow> nat \<Rightarrow> lz_state \<Rightarrow> lz_result" where
  "lz_put_symbol maxbits numItems out_len symbol st =
     (case lz_walk numItems st symbol [] of
        None \<Rightarrow> LzFault
      | Some stack \<Rightarrow>
          if lz_needPrev st \<and> numItems < lz_head st then LzFault
          else
            let cur = hd stack;
                st = (if lz_needPrev st
                      then st\<lparr>lz_suffixes := (lz_suffixes st)(lz_head st - 1 := cur)\<rparr> else st);
                stack = (if lz_needPrev st \<and> symbol = lz_head st - 1
                         then butlast stack @ [cur] else stack)
            in LzMore (lz_grow maxbits numItems symbol
                         (st\<lparr>lz_out := lz_emit out_len (lz_out st) stack\<rparr>)))"

definition lz_step :: "bool \<Rightarrow> nat \<Rightarrow> nat \<Rightarrow> u8 list \<Rightarrow> nat \<Rightarrow> lz_state \<Rightarrow> lz_result" where
  "lz_step blockMode maxbits numItems in_data out_len st =
     (let st = lz_refill in_data st;
          symbol = unat (lz_symbol st);
          st = st\<lparr>lz_bitPos := lz_bitPos st + lz_numBits st\<rparr>
      in if lz_numBufBits st < lz_bitPos st then LzOk (lz_out st)
         else if lz_head st \<le> symbol then LzErr NV_BAD_DATA
         else if blockMode \<and> symbol = 256 then
           LzMore (st\<lparr>lz_numBufBits := 0, lz_bitPos := 0, lz_numBits := LZC_NUM_BITS_MIN,
                      lz_head := 257, lz_needPrev := False\<rparr>)
         else lz_put_symbol maxbits numItems out_len symbol st)"

fun lz_loop :: "nat \<Rightarrow> (lz_state \<Rightarrow> lz_result) \<Rightarrow> lz_state \<Rightarrow> lz_result" where
  "lz_loop 0 step st = LzMore st"
| "lz_loop (Suc n) step st = (case step st of LzMore st' \<Rightarrow> lz_loop n step st' | r \<Rightarrow> r)"

definition lz_init :: "uninit \<Rightarrow> bool \<Rightarrow> lz_state" where
  "lz_init ui blockMode =
     \<lparr> lz_parents = (ui_parents ui)(256 := 0), lz_suffixes = (ui_suffixes ui)(256 := 0),
       lz_buf = ui_buf ui, lz_in_pos = 3, lz_out = [], lz_numBits = LZC_NUM_BITS_MIN,
       lz_head = (if blockMode then 257 else 256), lz_needPrev = False, lz_bitPos = 0, lz_numBufBits = 0 \<rparr>"

text \<open>The fuel: every round but the last uses up at least one bit of the input, counted in \<open>LzcProps\<close>.\<close>

definition uncompress_LZC :: "uninit \<Rightarrow> u8 list \<Rightarrow> nat \<Rightarrow> lz_result" where
  "uncompress_LZC ui in_data out_len =
     (if length in_data < 3 then LzErr NV_EINVAL
      else if in_data ! 0 \<noteq> 0x1F \<or> in_data ! 1 \<noteq> 0x9D then LzErr NV_ENOTSUP
      else let maxbits = unat (in_data ! 2 AND 0x1F); blockMode = (in_data ! 2 AND 0x80 \<noteq> 0) in
        if maxbits < LZC_NUM_BITS_MIN \<or> LZC_NUM_BITS_MAX < maxbits then LzErr NV_ENOTSUP
        else lz_loop (8 * length in_data) (lz_step blockMode maxbits (2 ^ maxbits) in_data out_len)
               (lz_init ui blockMode))"

section \<open>Reading the configurations\<close>

text \<open>The four output parameters. A buffer the caller does not ask for stays \<open>None\<close>; the pointers to
  the lengths are never null at the calls. On an error the code frees the buffers and clears the
  lengths.\<close>

record nv_config =
  rc_startup :: "u8 list option"
  rc_startup_len :: nat
  rc_private :: "u8 list option"
  rc_private_len :: nat

definition nv_no_config :: nv_config where
  "nv_no_config = \<lparr> rc_startup = None, rc_startup_len = 0, rc_private = None, rc_private_len = 0 \<rparr>"

definition nv_read_startup_head :: "fs_nvram \<Rightarrow> startup_head option" where
  "nv_read_startup_head fs =
     map_option be_to_native_header_startup (fs_nvram_memcpy_from fs 8 (of_nat NV_STARTUP_SIZE))"

definition nv_read_private_head :: "fs_nvram \<Rightarrow> u32 \<Rightarrow> private_head option" where
  "nv_read_private_head fs off =
     map_option be_to_native_header_private (fs_nvram_memcpy_from fs off (of_nat NV_PRIVATE_SIZE))"

definition nv_read_lzc :: "uninit \<Rightarrow> fs_nvram \<Rightarrow> startup_head \<Rightarrow> (nv_error + u8 list) option" where
  "nv_read_lzc ui fs h =
     (case fs_nvram_read_data fs (fs_nvram_offset_of fs (sh_start h)) (sh_len h) of
        None \<Rightarrow> None
      | Some buf \<Rightarrow>
          if sh_uncompressed_len h + 1 = 0 then None
          else (case uncompress_LZC ui (butlast buf) (unat (sh_uncompressed_len h)) of
                  LzOk out \<Rightarrow>
                    Some (Inr (out @ map (ui_out ui) [length out..<unat (sh_uncompressed_len h)] @ [0]))
                | LzErr e \<Rightarrow> Some (Inl e)
                | _ \<Rightarrow> None))"

definition nv_read_startup ::
  "uninit \<Rightarrow> fs_nvram \<Rightarrow> bool \<Rightarrow> startup_head \<Rightarrow> (nv_error + u8 list option \<times> nat) option" where
  "nv_read_startup ui fs want h =
     (if sh_format h = FS_NVRAM_FORMAT_RAW then
        if want then map_option (\<lambda>b. Inr (Some b, unat (sh_len h)))
                       (fs_nvram_read_data fs (fs_nvram_offset_of fs (sh_start h)) (sh_len h))
        else Some (Inr (None, unat (sh_len h)))
      else if sh_format h = FS_NVRAM_FORMAT_LZC then
        if want then map_option (\<lambda>r. case r of Inl e \<Rightarrow> Inl e
                                             | Inr b \<Rightarrow> Inr (Some b, unat (sh_uncompressed_len h)))
                       (nv_read_lzc ui fs h)
        else Some (Inr (None, unat (sh_uncompressed_len h)))
      else Some (Inl NV_ENOTSUP))"

definition nv_read_private ::
  "fs_nvram \<Rightarrow> bool \<Rightarrow> private_head \<Rightarrow> (nv_error + u8 list option \<times> nat) option" where
  "nv_read_private fs want h =
     (if nv_len fs < unat (fs_nvram_offset_of fs (ph_start h + ph_len h))
         \<or> ph_magic h \<noteq> FS_NVRAM_MAGIC_PRIVATE_CONFIG then Some (Inr (None, 0))
      else if ph_format h = FS_NVRAM_FORMAT_RAW then
        if want then map_option (\<lambda>b. Inr (Some b, unat (ph_len h)))
                       (fs_nvram_read_data fs (fs_nvram_offset_of fs (ph_start h)) (ph_len h))
        else Some (Inr (None, unat (ph_len h)))
      else Some (Inl NV_ENOTSUP))"

definition fs_nvram_read_config ::
  "uninit \<Rightarrow> fs_nvram option \<Rightarrow> bool \<Rightarrow> bool \<Rightarrow> (nv_error + nv_config) option" where
  "fs_nvram_read_config ui fso want_startup want_private =
     (case fso of None \<Rightarrow> Some (Inl NV_EINVAL)
      | Some fs \<Rightarrow>
     (case nv_read_startup_head fs of None \<Rightarrow> None
      | Some sh \<Rightarrow>
          if sh_magic sh \<noteq> FS_NVRAM_MAGIC_STARTUP_CONFIG then Some (Inr nv_no_config)
          else let off0 = fs_nvram_offset_of fs (sh_start sh + sh_len sh);
                   off = unat off0 + unat (fs_nvram_padding_at fs off0) in
            if nv_len fs < off + NV_PRIVATE_SIZE then Some (Inl NV_ENOMEM)
            else (case nv_read_private_head fs (of_nat off) of None \<Rightarrow> None
              | Some ph \<Rightarrow>
                  (case nv_read_startup ui fs want_startup sh of None \<Rightarrow> None
                   | Some (Inl e) \<Rightarrow> Some (Inl e)
                   | Some (Inr (s, slen)) \<Rightarrow>
                       (case nv_read_private fs want_private ph of None \<Rightarrow> None
                        | Some (Inl e) \<Rightarrow> Some (Inl e)
                        | Some (Inr (p, plen)) \<Rightarrow>
                            Some (Inr \<lparr> rc_startup = s, rc_startup_len = slen,
                                        rc_private = p, rc_private_len = plen \<rparr>))))))"

section \<open>Writing the configurations\<close>

definition nv_padding_for :: "fs_nvram \<Rightarrow> nat \<Rightarrow> nat" where
  "nv_padding_for fs startup_len =
     unat (fs_nvram_padding_at fs (of_nat (NV_HEADER_SIZE + NV_STARTUP_SIZE + startup_len)))"

definition nv_needed :: "fs_nvram \<Rightarrow> nat \<Rightarrow> nat \<Rightarrow> nat" where
  "nv_needed fs startup_len private_len =
     NV_HEADER_SIZE + NV_STARTUP_SIZE + startup_len + nv_padding_for fs startup_len
     + NV_PRIVATE_SIZE + private_len"

text \<open>The length of what the buffer holds, rounded to whole sectors.\<close>

definition nv_old_content :: "fs_nvram \<Rightarrow> nat option" where
  "nv_old_content fs =
     (case fs_nvram_read16 fs 8 of None \<Rightarrow> None
      | Some magic \<Rightarrow>
          if magic = FS_NVRAM_MAGIC_STARTUP_CONFIG then
            (case fs_nvram_read32 fs 24 of None \<Rightarrow> None
             | Some l \<Rightarrow>
                 let len = NV_HEADER_SIZE + unat l;
                     len = (if len mod 4 \<noteq> 0 then len + (8 - len mod 4) else len) in
                 (case fs_nvram_read16 fs (of_nat len) of None \<Rightarrow> None
                  | Some magic \<Rightarrow>
                      if magic = FS_NVRAM_MAGIC_PRIVATE_CONFIG
                      then map_option (\<lambda>l. len + unat l) (fs_nvram_read32 fs (of_nat (len + 12)))
                      else Some len))
          else Some NV_HEADER_SIZE)"

definition nv_old_length :: "fs_nvram \<Rightarrow> nat option" where
  "nv_old_length fs =
     map_option (\<lambda>len. let len = (if len mod FS_NVRAM_SECTOR_SIZE \<noteq> 0
                                  then len + (FS_NVRAM_SECTOR_SIZE - len mod FS_NVRAM_SECTOR_SIZE) else len)
                       in if nv_len fs < len then nv_len fs else len)
       (nv_old_content fs)"

definition nv_unk1 :: "fs_nvram \<Rightarrow> u16" where
  "nv_unk1 fs = (if nv_flags fs AND FS_NVRAM_FLAGS_UNK1_0C01 \<noteq> 0 then 0x0C01
                 else if nv_flags fs AND FS_NVRAM_FLAGS_UNK1_0C03 \<noteq> 0 then 0x0C03 else 0x0C04)"

definition nv_startup_head_for :: "fs_nvram \<Rightarrow> nat \<Rightarrow> startup_head" where
  "nv_startup_head_for fs startup_len =
     (let start = fs_nvram_address_of fs (of_nat (NV_HEADER_SIZE + NV_STARTUP_SIZE)) in
      \<lparr> sh_magic = FS_NVRAM_MAGIC_STARTUP_CONFIG, sh_format = FS_NVRAM_FORMAT_RAW, sh_checksum = 0,
        sh_unk1 = nv_unk1 fs, sh_start = start, sh_end = start + of_nat startup_len,
        sh_len = of_nat startup_len, sh_unk2 = 0, sh_unk3 = 0, sh_unk4 = 0, sh_unk5 = 0,
        sh_uncompressed_len = 0 \<rparr>)"

definition nv_private_head_for :: "fs_nvram \<Rightarrow> nat \<Rightarrow> nat \<Rightarrow> private_head" where
  "nv_private_head_for fs startup_len private_len =
     (let start = sh_end (nv_startup_head_for fs startup_len)
                  + of_nat (nv_padding_for fs startup_len) + of_nat NV_PRIVATE_SIZE in
      \<lparr> ph_magic = FS_NVRAM_MAGIC_PRIVATE_CONFIG, ph_format = FS_NVRAM_FORMAT_RAW, ph_start = start,
        ph_end = start + of_nat private_len, ph_len = of_nat private_len \<rparr>)"

text \<open>A null pointer is \<open>None\<close>; the code copies no byte from it.\<close>

definition nv_data :: "u8 list option \<Rightarrow> u8 list" where
  "nv_data d = (case d of None \<Rightarrow> [] | Some b \<Rightarrow> b)"

definition nv_bind :: "fs_nvram option \<Rightarrow> (fs_nvram \<Rightarrow> fs_nvram option) \<Rightarrow> fs_nvram option" where
  "nv_bind r f = (case r of None \<Rightarrow> None | Some fs \<Rightarrow> f fs)"

definition nv_store ::
  "nat \<Rightarrow> u8 list \<Rightarrow> nat \<Rightarrow> u8 list \<Rightarrow> nat \<Rightarrow> fs_nvram \<Rightarrow> fs_nvram option" where
  "nv_store old_len startup startup_len priv private_len fs =
     (let padding = nv_padding_for fs startup_len;
          sh = native_to_be_header_startup (nv_startup_head_for fs startup_len);
          ph = native_to_be_header_private (nv_private_head_for fs startup_len private_len);
          off1 = NV_HEADER_SIZE + NV_STARTUP_SIZE; off2 = off1 + startup_len; off3 = off2 + padding;
          off4 = off3 + NV_PRIVATE_SIZE; off5 = off4 + private_len in
      nv_bind (fs_nvram_memcpy_to (of_nat NV_HEADER_SIZE) sh (of_nat NV_STARTUP_SIZE) fs) (\<lambda>fs.
      nv_bind (fs_nvram_memcpy_to (of_nat off1) startup (of_nat startup_len) fs) (\<lambda>fs.
      nv_bind (fs_nvram_clear (of_nat off2) (of_nat padding) fs) (\<lambda>fs.
      nv_bind (fs_nvram_memcpy_to (of_nat off3) ph (of_nat NV_PRIVATE_SIZE) fs) (\<lambda>fs.
      nv_bind (fs_nvram_memcpy_to (of_nat off4) priv (of_nat private_len) fs) (\<lambda>fs.
      if off5 < old_len then fs_nvram_clear (of_nat off5) (of_nat (old_len - off5)) fs
      else Some fs))))))"

definition fs_nvram_write_config ::
  "fs_nvram option \<Rightarrow> u8 list option \<Rightarrow> nat \<Rightarrow> u8 list option \<Rightarrow> nat
     \<Rightarrow> (nv_error + fs_nvram) option" where
  "fs_nvram_write_config fso startup startup_len priv private_len =
     (case fso of None \<Rightarrow> Some (Inl NV_EINVAL)
      | Some fs \<Rightarrow>
          if startup = None \<and> 0 < startup_len \<or> priv = None \<and> 0 < private_len
          then Some (Inl NV_EINVAL)
          else if nv_len fs < nv_needed fs startup_len private_len then Some (Inl NV_ENOSPC)
          else (case nv_old_length fs of None \<Rightarrow> None
                | Some old \<Rightarrow>
                    map_option Inr
                      (nv_bind (nv_store old (nv_data startup) startup_len (nv_data priv) private_len fs)
                               fs_nvram_update_checksum)))"

section \<open>Verification\<close>

definition nv_mirrored_at :: "fs_nvram \<Rightarrow> nat \<Rightarrow> bool option" where
  "nv_mirrored_at fs offset =
     (case host_get (nv_base fs) (unat (fs_nvram_offset1_with_backup fs (of_nat offset))) of
        None \<Rightarrow> None
      | Some b1 \<Rightarrow> map_option (\<lambda>b2. b1 = b2)
                     (host_get (nv_base fs) (unat (fs_nvram_offset2_with_backup fs (of_nat offset)))))"

fun nv_verify_backup :: "fs_nvram \<Rightarrow> nat list \<Rightarrow> nv_error option option" where
  "nv_verify_backup fs [] = Some None"
| "nv_verify_backup fs (i # is) =
     (case nv_mirrored_at fs i of None \<Rightarrow> None
      | Some ok \<Rightarrow> if ok then nv_verify_backup fs is else Some (Some FS_NVRAM_ERR_BACKUP_MISSMATCH))"

text \<open>The tests on the addresses of one header, the same for both.\<close>

definition nv_bad_span :: "fs_nvram \<Rightarrow> u32 \<Rightarrow> u32 \<Rightarrow> u32 \<Rightarrow> bool" where
  "nv_bad_span fs start end_addr len =
     (end_addr \<noteq> start + len \<or> nv_len fs < unat len \<or> start < nv_addr fs
      \<or> unat (nv_addr fs) + nv_len fs < unat end_addr)"

definition nv_verify_config :: "fs_nvram \<Rightarrow> nv_error option option" where
  "nv_verify_config fs =
     (case nv_read_startup_head fs of None \<Rightarrow> None
      | Some sh \<Rightarrow>
          if sh_magic sh \<noteq> FS_NVRAM_MAGIC_STARTUP_CONFIG then Some None
          else if nv_bad_span fs (sh_start sh) (sh_end sh) (sh_len sh)
          then Some (Some FS_NVRAM_ERR_INVALID_ADDRESS)
          else let off0 = fs_nvram_offset_of fs (sh_end sh);
                   offset = unat off0 + unat (fs_nvram_padding_at fs off0) in
            if nv_len fs < offset + NV_PRIVATE_SIZE then Some (Some FS_NVRAM_ERR_INVALID_ADDRESS)
            else (case nv_read_private_head fs (of_nat offset) of None \<Rightarrow> None
                  | Some ph \<Rightarrow>
                      if ph_magic ph \<noteq> FS_NVRAM_MAGIC_PRIVATE_CONFIG then Some None
                      else if nv_bad_span fs (ph_start ph) (ph_end ph) (ph_len ph)
                      then Some (Some FS_NVRAM_ERR_INVALID_ADDRESS) else Some None))"

definition fs_nvram_verify :: "fs_nvram option \<Rightarrow> u32 \<Rightarrow> nv_error option option" where
  "fs_nvram_verify fso what =
     (case fso of None \<Rightarrow> Some (Some NV_EINVAL)
      | Some fs \<Rightarrow>
          (case (if what AND FS_NVRAM_VERIFY_BACKUP \<noteq> 0 \<and> nv_with_backup fs
                 then nv_verify_backup fs [0..<nv_len fs] else Some None) of
             None \<Rightarrow> None
           | Some (Some e) \<Rightarrow> Some (Some e)
           | Some None \<Rightarrow>
               if what AND FS_NVRAM_VERIFY_CONFIG \<noteq> 0 then nv_verify_config fs else Some None))"

end
