(* ===== verification/FsNvramProps.thy ===== *)
theory FsNvramProps
  imports FsNvram
begin

text \<open>
  Properties of the NVRAM file system. The locale \<open>byte_store\<close> is what the operations rely on of the
  two function pointers \<open>read_byte\<close> and \<open>write_byte\<close>: the file system behaves as the list of its bytes.
  It is interpreted on the model's accessors, which covers the plain layout, the scaled one and the
  one with a backup; in the last case the interpretation also carries the agreement of both copies.
\<close>

section \<open>Stores of bytes\<close>

locale byte_store =
  fixes rd :: "'s \<Rightarrow> u32 \<Rightarrow> u8 option"
    and wr :: "'s \<Rightarrow> u32 \<Rightarrow> u8 \<Rightarrow> 's option"
    and wf :: "'s \<Rightarrow> bool"
    and view :: "'s \<Rightarrow> u8 list"
    and frame :: "'s \<Rightarrow> 's \<Rightarrow> bool"
  assumes rd: "wf s \<Longrightarrow> unat a < length (view s) \<Longrightarrow> rd s a = Some (view s ! unat a)"
    and wr: "wf s \<Longrightarrow> unat a < length (view s)
             \<Longrightarrow> \<exists>s'. wr s a b = Some s' \<and> wf s' \<and> frame s s' \<and> view s' = (view s)[unat a := b]"
    and size: "wf s \<Longrightarrow> length (view s) < 2 ^ 32"
    and frame_refl: "frame s s"
    and frame_trans: "frame s t \<Longrightarrow> frame t u \<Longrightarrow> frame s u"
begin

lemma next_addr:
  fixes a :: u32
  assumes "wf s" "unat a < length (view s)"
  shows "unat (a + 1) = unat a + 1"
proof -
  have "unat a + 1 < 2 ^ 32" using size [OF assms(1)] assms(2) by simp
  then show ?thesis by (simp add: unat_word_ariths)
qed

lemma read_block:
  assumes "wf s" "unat a + n \<le> length (view s)"
  shows "read_bytes rd s a n = Some (take n (drop (unat a) (view s)))"
  using assms(2)
proof (induction n arbitrary: a)
  case 0
  then show ?case by simp
next
  case (Suc n)
  then have lt: "unat a < length (view s)" by simp
  with Suc.IH [of "a + 1"] Suc.prems
  have "read_bytes rd s (a + 1) n = Some (take n (drop (unat a + 1) (view s)))"
    by (simp add: next_addr [OF assms(1)])
  with lt show ?case
    by (simp add: rd [OF assms(1)] Cons_nth_drop_Suc [symmetric])
qed

lemma write_block:
  assumes "wf s" "view s = p @ r" "unat a = length p" "length bs \<le> length r"
  shows "\<exists>s'. write_bytes wr a bs s = Some s' \<and> wf s' \<and> frame s s'
              \<and> view s' = (p @ bs) @ drop (length bs) r"
  using assms
proof (induction bs arbitrary: s p r a)
  case Nil
  then show ?case by (auto intro: frame_refl)
next
  case (Cons b bs)
  then obtain x r' where r: "r = x # r'" by (cases r) auto
  have lt: "unat a < length (view s)" using Cons.prems r by simp
  from wr [OF Cons.prems(1) lt, of b] obtain s1 where
    s1: "wr s a b = Some s1" "wf s1" "frame s s1" "view s1 = (p @ [b]) @ r'"
    using Cons.prems(2,3) r by (auto simp: list_update_append)
  have "\<exists>s'. write_bytes wr (a + 1) bs s1 = Some s' \<and> wf s' \<and> frame s1 s'
             \<and> view s' = ((p @ [b]) @ bs) @ drop (length bs) r'"
    by (rule Cons.IH) (use s1 Cons.prems r next_addr [OF Cons.prems(1) lt] in auto)
  with s1 r show ?case by (auto intro: frame_trans)
qed

text \<open>The same with the block given by its position only.\<close>

lemma write_block_at:
  assumes "wf s" "unat a + length bs \<le> length (view s)"
  shows "\<exists>s'. write_bytes wr a bs s = Some s' \<and> wf s' \<and> frame s s'
              \<and> view s' = take (unat a) (view s) @ bs @ drop (unat a + length bs) (view s)"
proof -
  have "\<exists>s'. write_bytes wr a bs s = Some s' \<and> wf s' \<and> frame s s'
             \<and> view s' = (take (unat a) (view s) @ bs) @ drop (length bs) (drop (unat a) (view s))"
    by (rule write_block) (use assms in auto)
  then show ?thesis by (simp add: add.commute)
qed

text \<open>What is read back is what was written, and every other byte is as before.\<close>

lemma read_after_write:
  assumes "wf s" "unat a + length bs \<le> length (view s)"
  shows "\<exists>s'. write_bytes wr a bs s = Some s' \<and> read_bytes rd s' a (length bs) = Some bs"
proof -
  from write_block_at [OF assms] obtain s' where
    s': "write_bytes wr a bs s = Some s'" "wf s'"
        "view s' = take (unat a) (view s) @ bs @ drop (unat a + length bs) (view s)" by blast
  have "read_bytes rd s' a (length bs) = Some (take (length bs) (drop (unat a) (view s')))"
    by (rule read_block) (use s' assms in auto)
  with s' assms show ?thesis by simp
qed

end

section \<open>The layouts of the file system\<close>

text \<open>Where a byte of the file system lies, and where its copy does.\<close>

definition nv_pos1 :: "fs_nvram \<Rightarrow> nat \<Rightarrow> nat" where
  "nv_pos1 fs i = (if nv_with_backup fs \<and> 0x20000 \<le> i then 0x1C000 + i else i) * 2 ^ nv_shift fs"

definition nv_pos2 :: "fs_nvram \<Rightarrow> nat \<Rightarrow> nat" where
  "nv_pos2 fs i = (if i < 0x1C000 then nv_backup fs + i else nv_len fs + i) * 2 ^ nv_shift fs"

definition nv_view :: "fs_nvram \<Rightarrow> u8 list" where
  "nv_view fs = map (\<lambda>i. nv_base fs ! nv_pos1 fs i) [0..<nv_len fs]"

definition nv_mirror :: "fs_nvram \<Rightarrow> bool" where
  "nv_mirror fs \<longleftrightarrow> (nv_with_backup fs \<longrightarrow>
     (\<forall>i<nv_len fs. nv_base fs ! nv_pos1 fs i = nv_base fs ! nv_pos2 fs i))"

text \<open>An open file system. With \<open>M\<close> the invariant includes the agreement of the two copies.\<close>

definition nv_wf :: "bool \<Rightarrow> fs_nvram \<Rightarrow> bool" where
  "nv_wf M fs \<longleftrightarrow>
     nv_len fs * (if nv_with_backup fs then 2 else 1) * 2 ^ nv_shift fs \<le> length (nv_base fs)
     \<and> length (nv_base fs) < 2 ^ 32
     \<and> nv_backup fs = (if nv_with_backup fs then min (nv_len fs) 0x20000 else 0)
     \<and> (nv_padding fs = 4 \<or> nv_padding fs = 8) \<and> FS_NVRAM_SECTOR_SIZE dvd nv_len fs
     \<and> 0 < nv_len fs \<and> (M \<longrightarrow> nv_mirror fs)"

definition nv_frame :: "fs_nvram \<Rightarrow> fs_nvram \<Rightarrow> bool" where
  "nv_frame fs fs' \<longleftrightarrow> (\<exists>b. length b = length (nv_base fs) \<and> fs' = fs\<lparr>nv_base := b\<rparr>)"

lemma length_nv_view [simp]: "length (nv_view fs) = nv_len fs"
  by (simp add: nv_view_def)

lemma nv_with_backup_base [simp]: "nv_with_backup (fs\<lparr>nv_base := b\<rparr>) = nv_with_backup fs"
  by (simp add: nv_with_backup_def)

lemma nv_pos_base [simp]:
  "nv_pos1 (fs\<lparr>nv_base := b\<rparr>) i = nv_pos1 fs i" "nv_pos2 (fs\<lparr>nv_base := b\<rparr>) i = nv_pos2 fs i"
  by (simp_all add: nv_pos1_def nv_pos2_def)

lemma scaled_less: "a < b \<Longrightarrow> a * 2 ^ k < b * (2 :: nat) ^ k"
  by simp

lemma nv_pos_less:
  assumes "nv_wf M fs" "i < nv_len fs"
  shows "nv_pos1 fs i < length (nv_base fs)"
    and "nv_with_backup fs \<Longrightarrow> nv_pos2 fs i < length (nv_base fs)"
proof -
  have l: "nv_len fs * (if nv_with_backup fs then 2 else 1) * 2 ^ nv_shift fs \<le> length (nv_base fs)"
    using assms(1) by (simp add: nv_wf_def)
  have "nv_pos1 fs i < nv_len fs * (if nv_with_backup fs then 2 else 1) * 2 ^ nv_shift fs"
    using assms(2) unfolding nv_pos1_def by (auto intro!: scaled_less)
  with l show "nv_pos1 fs i < length (nv_base fs)" by (rule order.strict_trans2 [rotated])
  show "nv_pos2 fs i < length (nv_base fs)" if "nv_with_backup fs"
  proof -
    have "nv_pos2 fs i < nv_len fs * (if nv_with_backup fs then 2 else 1) * 2 ^ nv_shift fs"
      using assms that unfolding nv_wf_def nv_pos2_def by (auto intro!: scaled_less)
    with l show ?thesis by (rule order.strict_trans2 [rotated])
  qed
qed

text \<open>No two bytes share a place: the four blocks of the layout are disjoint.\<close>

lemma nv_pos1_inj: "nv_pos1 fs i = nv_pos1 fs j \<longleftrightarrow> i = j"
  by (auto simp: nv_pos1_def split: if_splits)

lemma nv_pos2_inj:
  assumes "nv_wf M fs" "nv_with_backup fs" "i < nv_len fs" "j < nv_len fs"
  shows "nv_pos2 fs i = nv_pos2 fs j \<longleftrightarrow> i = j"
  using assms by (auto simp: nv_pos2_def nv_wf_def min_def split: if_splits)

lemma nv_pos_disjoint:
  assumes "nv_wf M fs" "nv_with_backup fs" "i < nv_len fs" "j < nv_len fs"
  shows "nv_pos1 fs i \<noteq> nv_pos2 fs j"
  using assms by (auto simp: nv_pos1_def nv_pos2_def nv_wf_def min_def split: if_splits)

lemma unat_push_bit_u32:
  fixes w :: u32
  assumes "unat w * 2 ^ k < 2 ^ 32"
  shows "unat (push_bit k w) = unat w * 2 ^ k"
proof -
  have "unat (push_bit k w) = take_bit LENGTH(32) (push_bit k (unat w))" by (rule unsigned_push_bit_eq)
  also have "\<dots> = unat w * 2 ^ k" using assms by (simp add: push_bit_eq_mult take_bit_nat_eq_self)
  finally show ?thesis .
qed

lemma unat_of_nat_add_u32:
  fixes w :: u32
  assumes "n + unat w < 2 ^ 32"
  shows "unat (of_nat n + w) = n + unat w"
  using assms by (simp add: unat_word_ariths unat_of_nat mod_simps)

lemma shift_bound: "n * 2 ^ k < (2::nat) ^ 32 \<Longrightarrow> n < 2 ^ 32"
  using le_less_trans [of n "n * 2 ^ k"] by simp

lemma nv_offset1:
  fixes a :: u32
  assumes "nv_wf M fs" "unat a < nv_len fs" "nv_with_backup fs"
  shows "unat (fs_nvram_offset1_with_backup fs a) = nv_pos1 fs (unat a)"
proof -
  have b: "nv_pos1 fs (unat a) < 2 ^ 32"
    using nv_pos_less(1) [OF assms(1,2)] assms(1) unfolding nv_wf_def by linarith
  show ?thesis
  proof (cases "unat a < 0x20000")
    case True
    with b assms(3) have p: "unat a * 2 ^ nv_shift fs < 2 ^ 32" by (simp add: nv_pos1_def)
    from True assms(3) unat_push_bit_u32 [OF p] show ?thesis
      by (simp add: fs_nvram_offset1_with_backup_def FS_NVRAM_NORMAL_FILESYSTEM_BLOCK1_def nv_pos1_def
          del: push_bit_eq_mult)
  next
    case False
    with b assms(3) have p: "(0x1C000 + unat a) * 2 ^ nv_shift fs < 2 ^ 32"
      and q: "nv_pos1 fs (unat a) = (0x1C000 + unat a) * 2 ^ nv_shift fs" by (simp_all add: nv_pos1_def)
    have s: "unat (of_nat 0x1C000 + a) = 0x1C000 + unat a"
      by (rule unat_of_nat_add_u32) (rule shift_bound [OF p])
    have "unat (push_bit (nv_shift fs) (of_nat 0x1C000 + a)) = (0x1C000 + unat a) * 2 ^ nv_shift fs"
      using p s by (simp only: unat_push_bit_u32)
    with False q show ?thesis
      by (simp only: fs_nvram_offset1_with_backup_def FS_NVRAM_NORMAL_FILESYSTEM_BLOCK1_def
          FS_NVRAM_BACKUP_FILESYSTEM_BLOCK1_def if_False)
  qed
qed

lemma nv_offset2:
  fixes a :: u32
  assumes "nv_wf M fs" "unat a < nv_len fs" "nv_with_backup fs"
  shows "unat (fs_nvram_offset2_with_backup fs a) = nv_pos2 fs (unat a)"
proof -
  define n where "n = (if unat a < 0x1C000 then nv_backup fs else nv_len fs)"
  have q: "nv_pos2 fs (unat a) = (n + unat a) * 2 ^ nv_shift fs" by (simp add: nv_pos2_def n_def)
  have p: "(n + unat a) * 2 ^ nv_shift fs < 2 ^ 32"
    using nv_pos_less(2) [OF assms] assms(1) unfolding nv_wf_def q by linarith
  have s: "unat (of_nat n + a) = n + unat a"
    by (rule unat_of_nat_add_u32) (rule shift_bound [OF p])
  have "unat (push_bit (nv_shift fs) (of_nat n + a)) = (n + unat a) * 2 ^ nv_shift fs"
    using p s by (simp only: unat_push_bit_u32)
  then show ?thesis
    unfolding q by (simp add: fs_nvram_offset2_with_backup_def FS_NVRAM_BACKUP_FILESYSTEM_BLOCK1_def n_def
        split: if_splits)
qed

lemma nv_plain_pos:
  fixes a :: u32
  assumes "nv_wf M fs" "unat a < nv_len fs" "\<not> nv_with_backup fs"
  shows "unat (push_bit (nv_shift fs) a) = nv_pos1 fs (unat a)"
proof -
  have "nv_pos1 fs (unat a) < 2 ^ 32"
    using nv_pos_less(1) [OF assms(1,2)] assms(1) unfolding nv_wf_def by linarith
  with assms(3) have p: "unat a * 2 ^ nv_shift fs < 2 ^ 32" by (simp add: nv_pos1_def)
  show ?thesis unfolding unat_push_bit_u32 [OF p] using assms(3) by (simp add: nv_pos1_def)
qed

lemma nv_read_view:
  fixes a :: u32
  assumes "nv_wf M fs" "unat a < nv_len fs"
  shows "nv_read fs a = Some (nv_view fs ! unat a)"
  using nv_pos_less(1) [OF assms] assms
  by (auto simp: nv_read_def fs_nvram_read_byte_with_backup_def fs_nvram_read_byte_def host_get_def
      nv_offset1 nv_plain_pos nv_view_def)

lemma nv_view_write:
  assumes "nv_wf M fs" "i < nv_len fs" "length b = length (nv_base fs)"
    and "\<And>j. j < nv_len fs \<Longrightarrow> b ! nv_pos1 fs j = (if j = i then v else nv_base fs ! nv_pos1 fs j)"
  shows "nv_view (fs\<lparr>nv_base := b\<rparr>) = (nv_view fs)[i := v]"
  using assms by (auto simp: nv_view_def list_eq_iff_nth_eq nth_list_update)

lemma nv_put_view:
  fixes a :: u32
  assumes "nv_wf M fs" "unat a < nv_len fs"
  shows "\<exists>fs'. nv_put fs a v = Some fs' \<and> nv_wf M fs' \<and> nv_frame fs fs'
               \<and> nv_view fs' = (nv_view fs)[unat a := v]"
proof (cases "nv_with_backup fs")
  case True
  note less = nv_pos_less(1) [OF assms] nv_pos_less(2) [OF assms True]
  define b where "b = (nv_base fs)[nv_pos1 fs (unat a) := v, nv_pos2 fs (unat a) := v]"
  have put: "nv_put fs a v = Some (fs\<lparr>nv_base := b\<rparr>)"
    using less True
    by (simp add: nv_put_def fs_nvram_write_byte_with_backup_def host_put_def nv_offset1 [OF assms True]
        nv_offset2 [OF assms True] b_def)
  have b1: "b ! nv_pos1 fs j = (if j = unat a then v else nv_base fs ! nv_pos1 fs j)"
    if "j < nv_len fs" for j
    using that less nv_pos_disjoint [OF assms(1) True that assms(2)] nv_pos_disjoint [OF assms(1) True assms(2)]
    by (auto simp: b_def nth_list_update nv_pos1_inj)
  have b2: "b ! nv_pos2 fs j = (if j = unat a then v else nv_base fs ! nv_pos2 fs j)"
    if "j < nv_len fs" for j
    using that less nv_pos_disjoint [OF assms(1) True assms(2) that] nv_pos2_inj [OF assms(1) True that
        assms(2)]
    by (auto simp: b_def nth_list_update)
  have len: "length b = length (nv_base fs)" by (simp add: b_def)
  have "nv_mirror (fs\<lparr>nv_base := b\<rparr>)" if "nv_mirror fs"
    using that by (simp add: nv_mirror_def b1 b2)
  then have "nv_wf M (fs\<lparr>nv_base := b\<rparr>)" using assms(1) len by (simp add: nv_wf_def)
  with put nv_view_write [OF assms(1,2) len b1] len show ?thesis by (auto simp: nv_frame_def)
next
  case False
  note less = nv_pos_less(1) [OF assms]
  define b where "b = (nv_base fs)[nv_pos1 fs (unat a) := v]"
  have put: "nv_put fs a v = Some (fs\<lparr>nv_base := b\<rparr>)"
    using less False by (simp add: nv_put_def fs_nvram_write_byte_def host_put_def nv_plain_pos [OF assms]
        b_def)
  have len: "length b = length (nv_base fs)" by (simp add: b_def)
  have "nv_view (fs\<lparr>nv_base := b\<rparr>) = (nv_view fs)[unat a := v]"
    by (rule nv_view_write [OF assms len]) (use less in \<open>auto simp: b_def nth_list_update nv_pos1_inj\<close>)
  moreover have "nv_wf M (fs\<lparr>nv_base := b\<rparr>)" using assms(1) len False by (simp add: nv_wf_def nv_mirror_def)
  ultimately show ?thesis using put len by (auto simp: nv_frame_def)
qed

lemma nv_len_less: "nv_wf M fs \<Longrightarrow> nv_len fs < 2 ^ 32"
proof -
  assume "nv_wf M fs"
  then have "nv_len fs * (if nv_with_backup fs then 2 else 1) * 2 ^ nv_shift fs < 2 ^ 32"
    unfolding nv_wf_def by linarith
  moreover have "nv_len fs \<le> nv_len fs * (if nv_with_backup fs then 2 else 1)" by simp
  ultimately show ?thesis using shift_bound by (meson le_less_trans)
qed

interpretation nv: byte_store nv_read nv_put "nv_wf M" nv_view nv_frame for M
proof
  fix s t u :: fs_nvram and a :: u32 and b
  assume "nv_wf M s" "unat a < length (nv_view s)"
  then show "nv_read s a = Some (nv_view s ! unat a)"
    and "\<exists>s'. nv_put s a b = Some s' \<and> nv_wf M s' \<and> nv_frame s s' \<and> nv_view s' = (nv_view s)[unat a := b]"
    by (simp_all add: nv_read_view nv_put_view)
next
  show "nv_wf M s \<Longrightarrow> length (nv_view s) < 2 ^ 32" for s by (simp only: nv_len_less length_nv_view)
  show "nv_frame s s" for s unfolding nv_frame_def by (rule exI [of _ "nv_base s"]) simp
  show "nv_frame s t \<Longrightarrow> nv_frame t u \<Longrightarrow> nv_frame s u" for s t u by (auto simp: nv_frame_def)
qed


section \<open>Blocks of the file system\<close>

lemma nv_frame_fields:
  assumes "nv_frame fs fs'"
  shows "nv_len fs' = nv_len fs" "nv_addr fs' = nv_addr fs" "nv_flags fs' = nv_flags fs"
    "nv_padding fs' = nv_padding fs" "nv_backup fs' = nv_backup fs" "nv_shift fs' = nv_shift fs"
  using assms by (auto simp: nv_frame_def)

lemma nv_frame_operations:
  assumes "nv_frame fs fs'"
  shows "fs_nvram_offset_of fs' = fs_nvram_offset_of fs" "fs_nvram_padding_at fs' = fs_nvram_padding_at fs"
    "nv_with_backup fs' = nv_with_backup fs"
  using assms by (auto simp: nv_frame_def fs_nvram_offset_of_def fs_nvram_padding_at_def nv_with_backup_def
      fun_eq_iff)

lemma unat_u32_of_nat: "n < 2 ^ 32 \<Longrightarrow> unat (of_nat n :: u32) = n"
  by (simp add: unat_of_nat)

lemma be_at_take_drop:
  "a + 2 \<le> length v \<Longrightarrow> be16_at (take 2 (drop a v)) 0 = be16_at v a"
  "a + 4 \<le> length v \<Longrightarrow> be32_at (take 4 (drop a v)) 0 = be32_at v a"
  by (simp_all add: be16_at_def be32_at_def)

lemma nv_memcpy_from_view:
  assumes "nv_wf M fs" "unat a + unat n \<le> nv_len fs"
  shows "fs_nvram_memcpy_from fs a n = Some (take (unat n) (drop (unat a) (nv_view fs)))"
  unfolding fs_nvram_memcpy_from_def using assms by (simp add: nv.read_block)

lemma nv_read16_view:
  assumes "nv_wf M fs" "unat a + 2 \<le> nv_len fs"
  shows "fs_nvram_read16 fs a = Some (be16_at (nv_view fs) (unat a))"
proof -
  have n: "unat (a + 1) = unat a + 1" by (rule nv.next_addr [OF assms(1)]) (use assms(2) in simp)
  show ?thesis
    using assms nv_read_view [OF assms(1), of a] nv_read_view [OF assms(1), of "a + 1"]
    by (simp add: fs_nvram_read16_def be16_at_def n)
qed

lemma nv_read32_view:
  assumes "nv_wf M fs" "unat a + 4 \<le> nv_len fs"
  shows "fs_nvram_read32 fs a = Some (be32_at (nv_view fs) (unat a))"
  unfolding fs_nvram_read32_def using assms be_at_take_drop(2) [of "unat a" "nv_view fs"]
  by (simp add: nv.read_block)

lemma nv_write16_view:
  assumes "nv_wf M fs" "unat a + 2 \<le> nv_len fs"
  shows "\<exists>fs'. fs_nvram_write16 a v fs = Some fs' \<and> nv_wf M fs' \<and> nv_frame fs fs'
               \<and> nv_view fs' = take (unat a) (nv_view fs) @ m_hton16 v @ drop (unat a + 2) (nv_view fs)"
  unfolding fs_nvram_write16_def
  using nv.write_block_at [OF assms(1), of a "m_hton16 v"] assms(2) by (simp add: m_hton16_def)

lemma nv_copy_block:
  assumes "nv_wf M fs" "nv_view fs = p @ r" "unat a = length p"
    "unat n \<le> length data" "unat n \<le> length r"
  shows "\<exists>fs'. fs_nvram_memcpy_to a data n fs = Some fs' \<and> nv_wf M fs' \<and> nv_frame fs fs'
               \<and> nv_view fs' = (p @ take (unat n) data) @ drop (unat n) r"
proof -
  have l: "length (take (unat n) data) = unat n" using assms(4) by simp
  show ?thesis
    unfolding fs_nvram_memcpy_to_def
    using nv.write_block [OF assms(1-3), of "take (unat n) data"] assms(4,5) unfolding l by simp
qed

lemma nv_clear_block:
  assumes "nv_wf M fs" "nv_view fs = p @ r" "unat a = length p" "unat n \<le> length r"
  shows "\<exists>fs'. fs_nvram_clear a n fs = Some fs' \<and> nv_wf M fs' \<and> nv_frame fs fs'
               \<and> nv_view fs' = (p @ replicate (unat n) 0) @ drop (unat n) r"
  unfolding fs_nvram_clear_def
  using nv.write_block [OF assms(1-3), of "replicate (unat n) 0"] assms(4) by simp

section \<open>Headers\<close>

lemma length_headers [simp]:
  "length (native_to_be_header_startup h) = 36" "length (native_to_be_header_private k) = 16"
  by (simp_all add: native_to_be_header_startup_def native_to_be_header_private_def m_hton16_def m_hton32_def)

lemma startup_header_roundtrip: "be_to_native_header_startup (native_to_be_header_startup h) = h"
  by (simp add: be_to_native_header_startup_def native_to_be_header_startup_def m_hton16_def m_hton32_def
      be16_at_def be32_at_def ntoh_hton32)

lemma private_header_roundtrip: "be_to_native_header_private (native_to_be_header_private h) = h"
  by (simp add: be_to_native_header_private_def native_to_be_header_private_def m_hton16_def m_hton32_def
      be16_at_def be32_at_def ntoh_hton32)

lemma startup_header_checksum:
  "take 4 (native_to_be_header_startup h) @ m_hton16 c @ drop 6 (native_to_be_header_startup h)
     = native_to_be_header_startup (h\<lparr>sh_checksum := c\<rparr>)"
  by (simp add: native_to_be_header_startup_def m_hton16_def m_hton32_def)

section \<open>The checksum\<close>

text \<open>The sum the format defines: big-endian 16-bit words, a last odd byte in the high half.\<close>

fun be_words :: "u8 list \<Rightarrow> nat" where
  "be_words (a # b # xs) = 256 * unat a + unat b + be_words xs"
| "be_words [a] = 256 * unat a"
| "be_words [] = 0"

lemma be_words_append: "even (length xs) \<Longrightarrow> be_words (xs @ ys) = be_words xs + be_words ys"
  by (induction xs rule: be_words.induct) auto

lemma unat_u8_less: "unat (b :: u8) < 256"
proof -
  have "unat b < 2 ^ LENGTH(8)" by (rule unsigned_less)
  then show ?thesis by simp
qed

lemma be_words_bound: "be_words xs \<le> 65535 * ((length xs + 1) div 2)"
proof (induction xs rule: be_words.induct)
  case (1 a b xs)
  then show ?case using unat_u8_less [of a] unat_u8_less [of b] by simp
next
  case (2 a)
  then show ?case using unat_u8_less [of a] by simp
qed simp

lemma unat_ntoh16: "unat (m_ntoh16 a b) = 256 * unat a + unat b"
proof -
  have "m_ntoh16 a b = push_bit 8 (ucast a) + ucast b"
    unfolding m_ntoh16_def by (rule disjunctive_add_eq_or [symmetric]) (auto
        simp: bit_eq_iff bit_simps dest: bit_imp_le_length)
  then have "m_ntoh16 a b = of_nat (256 * unat a + unat b)" by (simp add: push_bit_eq_mult mult.commute)
  moreover have "256 * unat a + unat b < 2 ^ 16" using unat_u8_less [of a] unat_u8_less [of b] by simp
  ultimately show ?thesis by (simp only: unat_of_nat len_bit1 mod_less) simp
qed

lemma nv_sum_words:
  assumes "nv_wf M fs" "unat a + n \<le> nv_len fs"
  shows "nv_sum fs a n acc = Some (acc + of_nat (be_words (take n (drop (unat a) (nv_view fs)))))"
  using assms(2)
proof (induction n arbitrary: a acc rule: less_induct)
  case (less n)
  consider "n = 0" | "n = 1" | m where "n = Suc (Suc m)" by (metis One_nat_def old.nat.exhaust)
  then show ?case
  proof cases
    case 2
    with less.prems have lt: "unat a < nv_len fs" by simp
    then have "drop (unat a) (nv_view fs) = nv_view fs ! unat a # drop (unat a + 1) (nv_view fs)"
      by (simp add: Cons_nth_drop_Suc)
    with 2 lt show ?thesis
      by (simp add: nv_read_view [OF assms(1)] push_bit_eq_mult mult.commute)
  next
    case 3
    with less.prems have lt: "unat a + 2 \<le> nv_len fs" by simp
    have n1: "unat (a + 1) = unat a + 1" by (rule nv.next_addr [OF assms(1)]) (use lt in simp)
    have "unat a + 2 < 2 ^ 32" using lt nv_len_less [OF assms(1)] by simp
    then have n2: "unat (a + 2) = unat a + 2" by (simp add: unat_word_ariths)
    have dr: "drop (unat a) (nv_view fs)
        = nv_view fs ! unat a # nv_view fs ! (unat a + 1) # drop (unat a + 2) (nv_view fs)"
      using lt by (simp add: Cons_nth_drop_Suc)
    have w: "ucast (be16_at (nv_view fs) (unat a))
        = (of_nat (256 * unat (nv_view fs ! unat a) + unat (nv_view fs ! (unat a + 1))) :: u32)"
      by (metis be16_at_def of_nat_unat unat_ntoh16)
    show ?thesis
      using less.IH [of m "a + 2"] 3 less.prems
      by (simp add: nv_read16_view [OF assms(1) lt] n2 dr w)
  qed simp
qed

text \<open>Folding the carries keeps the sum modulo \<open>0xFFFF\<close> and reaches zero only from zero.\<close>

lemma nv_fold_sum:
  "unat (nv_fold x) < 65536 \<and> unat (nv_fold x) mod 65535 = unat x mod 65535 \<and> (nv_fold x = 0 \<longleftrightarrow> x = 0)"
proof (induction x rule: nv_fold.induct)
  case (1 x)
  show ?case
  proof (cases "drop_bit 16 x = 0")
    case True
    have "unat (drop_bit 16 x) = unat x div 65536" by (simp add: drop_bit_eq_div unat_div)
    with True have "unat x < 65536" by simp
    with True show ?thesis by (simp add: nv_fold.simps [of x])
  next
    case False
    let ?y = "(x AND 0xffff) + drop_bit 16 x"
    have y: "unat ?y = unat x mod 65536 + unat x div 65536" by (rule nv_fold_round)
    have m: "unat ?y mod 65535 = unat x mod 65535"
    proof -
      have "unat x = unat x div 65536 * 65536 + unat x mod 65536" by simp
      also have "\<dots> = unat ?y + 65535 * (unat x div 65536)" unfolding y by simp
      finally have "unat x mod 65535 = (unat ?y + 65535 * (unat x div 65536)) mod 65535" by metis
      then show ?thesis by simp
    qed
    have z: "?y \<noteq> 0"
    proof
      assume "?y = 0"
      then have "unat x mod 65536 + unat x div 65536 = 0" using y by simp
      then have "unat x = 0" using div_mult_mod_eq [of "unat x" 65536] by simp
      then have "x = 0" by (simp add: unat_eq_zero)
      with False show False by simp
    qed
    from False have "x \<noteq> 0" by auto
    with 1 [OF False] m z False show ?thesis by (simp add: nv_fold.simps [of x])
  qed
qed

text \<open>The words after the magic of the file system add up to \<open>0xFFFF\<close> in one's complement.\<close>

definition nv_checksum_ok :: "fs_nvram \<Rightarrow> bool" where
  "nv_checksum_ok fs \<longleftrightarrow> (let n = be_words (drop 8 (nv_view fs)) in 0 < n \<and> n mod 65535 = 0)"

lemma checksum_complement:
  assumes "n < 2 ^ 32"
  defines "c \<equiv> unat (ucast (NOT (nv_fold (of_nat n))) :: u16)"
  shows "0 < n + c \<and> (n + c) mod 65535 = 0"
proof -
  let ?f = "nv_fold (of_nat n)"
  have u: "unat (of_nat n :: u32) = n" by (rule unat_u32_of_nat [OF assms(1)])
  note f = nv_fold_sum [of "of_nat n"]
  then have lt: "unat ?f < 65536" by blast
  have c: "c = 65535 - unat ?f"
  proof -
    have "(ucast (NOT ?f) :: u16) = NOT (ucast ?f)" by (rule bit_word_eqI) (simp add: bit_simps)
    moreover have "unat (ucast ?f :: u16) = unat ?f"
      using lt by (simp add: unsigned_ucast_eq take_bit_nat_eq_self)
    moreover have "unat (NOT (w :: u16)) = 65535 - unat w" for w
    proof -
      have "NOT w = - 1 - w" by (simp add: not_eq_complement)
      then have "unat (NOT w) = unat (- 1 :: u16) - unat w" by (simp only: unat_sub [OF word_n1_ge])
      moreover have "unat (- 1 :: u16) = 65535" by (simp add: unsigned_minus_1_eq_mask mask_eq_exp_minus_1)
      ultimately show ?thesis by simp
    qed
    ultimately show ?thesis unfolding c_def by simp
  qed
  have "0 < n + c"
  proof (cases "n = 0")
    case True
    with f have "?f = 0" by simp
    with c show ?thesis by simp
  qed simp
  moreover have "(n + c) mod 65535 = 0"
  proof -
    have "(unat ?f + c) mod 65535 = 0" using c lt by simp
    moreover have "unat ?f mod 65535 = n mod 65535" using f u by simp
    ultimately show ?thesis by (metis mod_add_left_eq)
  qed
  ultimately show ?thesis by blast
qed

lemma update_checksum_view:
  assumes wf: "nv_wf M fs"
  shows "\<exists>fs' c. fs_nvram_update_checksum fs = Some fs' \<and> nv_wf M fs' \<and> nv_frame fs fs'
           \<and> nv_view fs' = take 12 (nv_view fs) @ m_hton16 c @ drop 14 (nv_view fs)
           \<and> (nv_len fs \<le> 0x20000 \<longrightarrow> nv_checksum_ok fs')"
proof -
  let ?V = "nv_view fs"
  have len: "1024 \<le> nv_len fs"
    using wf by (auto simp: nv_wf_def FS_NVRAM_SECTOR_SIZE_def dest: dvd_imp_le)
  have less: "nv_len fs < 2 ^ 32" by (rule nv_len_less [OF wf])
  have o: "unat NV_CHECKSUM_OFFSET = 12" by (simp add: NV_CHECKSUM_OFFSET_def)
  from nv_write16_view [OF wf, of NV_CHECKSUM_OFFSET 0] len obtain fs1 where
    fs1: "fs_nvram_write16 NV_CHECKSUM_OFFSET 0 fs = Some fs1" "nv_wf M fs1" "nv_frame fs fs1"
         "nv_view fs1 = take 12 ?V @ m_hton16 0 @ drop 14 ?V"
    unfolding o by auto
  have l1: "nv_len fs1 = nv_len fs" by (rule nv_frame_fields [OF fs1(3)])
  have n: "unat (of_nat (nv_len fs1) - 8 :: u32) = nv_len fs1 - 8"
    using len less l1 by (subst unat_sub) (simp_all add: word_le_nat_alt unat_u32_of_nat)
  define z where "z = be_words (drop 8 (nv_view fs1))"
  have "nv_sum fs1 8 (nv_len fs1 - 8) 0 = Some (0 + of_nat (be_words (take (nv_len fs1 - 8) (drop (unat (8
      :: u32)) (nv_view fs1)))))"
    by (rule nv_sum_words [OF fs1(2)]) (use len l1 in simp)
  then have s: "nv_sum fs1 8 (nv_len fs1 - 8) 0 = Some (of_nat z)" by (simp add: z_def)
  define c :: u16 where "c = ucast (NOT (nv_fold (of_nat z)))"
  from nv_write16_view [OF fs1(2), of NV_CHECKSUM_OFFSET c] len l1 obtain fs2 where
    fs2: "fs_nvram_write16 NV_CHECKSUM_OFFSET c fs1 = Some fs2" "nv_wf M fs2" "nv_frame fs1 fs2"
         "nv_view fs2 = take 12 (nv_view fs1) @ m_hton16 c @ drop 14 (nv_view fs1)"
    unfolding o by auto
  have view2: "nv_view fs2 = take 12 ?V @ m_hton16 c @ drop 14 ?V"
    using fs2(4) fs1(4) len by (simp add: m_hton16_def)
  have ok: "nv_checksum_ok fs2" if le: "nv_len fs \<le> 0x20000"
  proof -
    define a where "a = drop 8 (take 12 ?V)"
    define b where "b = drop 14 ?V"
    have la: "length a = 4" using len by (simp add: a_def)
    have v1: "drop 8 (nv_view fs1) = a @ m_hton16 0 @ b" using len by (simp add: fs1(4) a_def b_def)
    have v2: "drop 8 (nv_view fs2) = a @ m_hton16 c @ b" using len by (simp add: view2 a_def b_def)
    have z: "z = be_words a + be_words b"
      by (simp add: z_def v1 be_words_append la) (simp add: m_hton16_def)
    have h: "256 * unat (ucast (drop_bit 8 c) :: u8) + unat (ucast c :: u8) = unat c"
      using unat_ntoh16 [of "ucast (drop_bit 8 c)" "ucast c"] by simp
    have t: "be_words (drop 8 (nv_view fs2)) = z + unat c"
      by (simp add: v2 be_words_append la z) (simp add: m_hton16_def h)
    have "z \<le> 65535 * ((nv_len fs - 8 + 1) div 2)"
      using be_words_bound [of "drop 8 (nv_view fs1)"] l1 by (simp add: z_def)
    also have "\<dots> < 2 ^ 32" using le by simp
    finally have "0 < z + unat c \<and> (z + unat c) mod 65535 = 0"
      unfolding c_def by (rule checksum_complement)
    then show ?thesis by (simp add: nv_checksum_ok_def t)
  qed
  have "fs_nvram_update_checksum fs = Some fs2"
    by (simp add: fs_nvram_update_checksum_def fs1(1) n s fs2(1) c_def [symmetric])
  moreover have "nv_frame fs fs2" by (rule nv.frame_trans [OF fs1(3) fs2(3)])
  ultimately show ?thesis using fs2(2) view2 ok by blast
qed

end
