(* ===== verification/FsNvramConfig.thy ===== *)
theory FsNvramConfig
  imports FsNvramProps
begin

text \<open>
  The configurations in the NVRAM file system: what \<open>fs_nvram_write_config\<close> leaves in the buffer, and
  that \<open>fs_nvram_read_config\<close> and \<open>fs_nvram_verify\<close> accept it.
\<close>

section \<open>The image a write leaves\<close>

definition nv_image :: "fs_nvram \<Rightarrow> u8 list \<Rightarrow> u8 list \<Rightarrow> u16 \<Rightarrow> u8 list" where
  "nv_image fs s p c =
     native_to_be_header_startup ((nv_startup_head_for fs (length s))\<lparr>sh_checksum := c\<rparr>) @ s
     @ replicate (nv_padding_for fs (length s)) 0
     @ native_to_be_header_private (nv_private_head_for fs (length s) (length p)) @ p"

lemma length_nv_image:
  "8 + length (nv_image fs s p c) = nv_needed fs (length s) (length p)"
  by (simp add: nv_image_def nv_needed_def NV_HEADER_SIZE_def NV_STARTUP_SIZE_def NV_PRIVATE_SIZE_def)

lemma nv_bind_Some:
  assumes "\<exists>t. r = Some t \<and> P t" and "\<And>t. P t \<Longrightarrow> \<exists>u. f t = Some u \<and> Q u"
  shows "\<exists>u. nv_bind r f = Some u \<and> Q u"
  using assms by (auto simp: nv_bind_def)

lemma nv_store_view:
  assumes wf: "nv_wf M fs" and old: "old \<le> nv_len fs"
    and need: "nv_needed fs (length s) (length p) \<le> nv_len fs"
  shows "\<exists>fs'. nv_store old s (length s) p (length p) fs = Some fs' \<and> nv_wf M fs' \<and> nv_frame fs fs'
           \<and> take (nv_needed fs (length s) (length p)) (nv_view fs') = take 8 (nv_view fs) @ nv_image fs s p 0"
proof -
  let ?V = "nv_view fs" and ?pad = "nv_padding_for fs (length s)"
  let ?sh = "native_to_be_header_startup (nv_startup_head_for fs (length s))"
  let ?ph = "native_to_be_header_private (nv_private_head_for fs (length s) (length p))"
  let ?need = "nv_needed fs (length s) (length p)"
  have less: "nv_len fs < 2 ^ 32" by (rule nv_len_less [OF wf])
  have sizes: "?need = 44 + length s + ?pad + 16 + length p"
    by (simp add: nv_needed_def NV_HEADER_SIZE_def NV_STARTUP_SIZE_def NV_PRIVATE_SIZE_def)
  note fits = need [unfolded sizes]
  have u: "unat (of_nat n :: u32) = n" if "n \<le> nv_len fs" for n
    using that less by (intro unat_u32_of_nat) simp
  define I where "I t q \<longleftrightarrow> nv_wf M t \<and> nv_frame fs t
      \<and> (\<exists>r. nv_view t = q @ r \<and> length q + length r = nv_len fs)" for t q
  have copy: "\<exists>t'. fs_nvram_memcpy_to (of_nat (length q)) d (of_nat (length d)) t = Some t' \<and> I t' (q @ d)"
    if "I t q" "length q + length d \<le> nv_len fs" for t q d
  proof -
    from that(1) obtain r where r: "nv_wf M t" "nv_frame fs t" "nv_view t = q @ r" "length q + length r =
        nv_len fs"
      by (auto simp: I_def)
    from nv_copy_block [OF r(1,3), of "of_nat (length q)" "of_nat (length d)" d] r(2,4) that(2) u
    show ?thesis by (auto simp: I_def intro: nv.frame_trans)
  qed
  have clear: "\<exists>t'. fs_nvram_clear (of_nat (length q)) (of_nat n) t = Some t' \<and> I t' (q @ replicate n 0)"
    if "I t q" "length q + n \<le> nv_len fs" for t q n
  proof -
    from that(1) obtain r where r: "nv_wf M t" "nv_frame fs t" "nv_view t = q @ r" "length q + length r =
        nv_len fs"
      by (auto simp: I_def)
    from nv_clear_block [OF r(1,3), of "of_nat (length q)" "of_nat n"] r(2,4) that(2) u
    show ?thesis by (auto simp: I_def intro: nv.frame_trans)
  qed
  let ?q1 = "take 8 ?V @ ?sh" let ?q2 = "?q1 @ s" let ?q3 = "?q2 @ replicate ?pad 0"
  let ?q4 = "?q3 @ ?ph" let ?q5 = "?q4 @ p"
  have l8: "length (take 8 ?V) = 8" using fits by simp
  have I0: "I fs (take 8 ?V)"
    unfolding I_def using wf fits by (auto simp: nv.frame_refl intro!: exI [of _ "drop 8 ?V"])
  have c1: "\<exists>t'. fs_nvram_memcpy_to (of_nat NV_HEADER_SIZE) ?sh (of_nat NV_STARTUP_SIZE) fs = Some t' \<and>
      I t' ?q1"
    using copy [OF I0, of ?sh] fits l8 by (simp add: NV_HEADER_SIZE_def NV_STARTUP_SIZE_def)
  have c2: "\<exists>t'. fs_nvram_memcpy_to (of_nat 44) s (of_nat (length s)) t = Some t' \<and> I t' ?q2" if "I t ?q1" for t
    using copy [OF that, of s] fits l8 by simp
  have c3: "\<exists>t'. fs_nvram_clear (of_nat (44 + length s)) (of_nat ?pad) t = Some t' \<and> I t' ?q3" if "I t ?q2"
      for t
    using clear [OF that, of ?pad] fits l8 by simp
  have c4: "\<exists>t'. fs_nvram_memcpy_to (of_nat (44 + length s + ?pad)) ?ph (of_nat NV_PRIVATE_SIZE) t = Some t'
      \<and> I t' ?q4"
    if "I t ?q3" for t
    using copy [OF that, of ?ph] fits l8 by (simp add: NV_PRIVATE_SIZE_def add.assoc)
  have c5: "\<exists>t'. fs_nvram_memcpy_to (of_nat (60 + length s + ?pad)) p (of_nat (length p)) t = Some t' \<and>
      I t' ?q5"
    if "I t ?q4" for t
    using copy [OF that, of p] fits l8 by (simp add: add.assoc)
  have c6: "\<exists>t'. (if ?need < old then fs_nvram_clear (of_nat ?need) (of_nat (old - ?need)) t
      else Some t) = Some t'
              \<and> nv_wf M t' \<and> nv_frame fs t' \<and> take ?need (nv_view t') = take 8 ?V @ nv_image fs s p 0"
    if "I t ?q5" for t
  proof -
    have q5: "?q5 = take 8 ?V @ nv_image fs s p 0"
      by (simp add: nv_image_def nv_startup_head_for_def Let_def)
    have l5: "length ?q5 = ?need" unfolding q5 using length_nv_image [of fs s p 0] l8 by simp
    have fin: "I t' (?q5 @ d) \<Longrightarrow> nv_wf M t' \<and> nv_frame fs t' \<and>
        take ?need (nv_view t') = take 8 ?V @ nv_image fs s p 0"
      for t' d
      using l5 q5 by (auto simp: I_def)
    show ?thesis
    proof (cases "?need < old")
      case True
      have "length ?q5 + (old - ?need) \<le> nv_len fs" unfolding l5 using old True by simp
      from clear [OF that this] obtain t' where
        t': "fs_nvram_clear (of_nat ?need) (of_nat (old - ?need)) t = Some t'"
            "I t' (?q5 @ replicate (old - ?need) 0)" unfolding l5 by blast
      from True t'(1) fin [OF t'(2)] show ?thesis by (simp only: if_True) blast
    next
      case False
      with that fin [of t "[]"] show ?thesis by simp
    qed
  qed
  have off1: "NV_HEADER_SIZE + NV_STARTUP_SIZE = 44"
    and off4: "44 + length s + ?pad + NV_PRIVATE_SIZE = 60 + length s + ?pad"
    by (simp_all add: NV_HEADER_SIZE_def NV_STARTUP_SIZE_def NV_PRIVATE_SIZE_def)
  have "nv_store old s (length s) p (length p) fs =
      nv_bind (fs_nvram_memcpy_to (of_nat NV_HEADER_SIZE) ?sh (of_nat NV_STARTUP_SIZE) fs) (\<lambda>t.
      nv_bind (fs_nvram_memcpy_to (of_nat 44) s (of_nat (length s)) t) (\<lambda>t.
      nv_bind (fs_nvram_clear (of_nat (44 + length s)) (of_nat ?pad) t) (\<lambda>t.
      nv_bind (fs_nvram_memcpy_to (of_nat (44 + length s + ?pad)) ?ph (of_nat NV_PRIVATE_SIZE) t) (\<lambda>t.
      nv_bind (fs_nvram_memcpy_to (of_nat (60 + length s + ?pad)) p (of_nat (length p)) t) (\<lambda>t.
      if ?need < old then fs_nvram_clear (of_nat ?need) (of_nat (old - ?need)) t else Some t)))))"
    unfolding nv_store_def Let_def nv_needed_def [symmetric] by (simp only: off1 off4)
  then show ?thesis
    by (simp only:) (rule nv_bind_Some [OF c1 nv_bind_Some [OF c2 nv_bind_Some [OF c3
       nv_bind_Some [OF c4 nv_bind_Some [OF c5 c6]]]]])
qed


lemma nv_old_length_bound: "nv_old_length fs = Some old \<Longrightarrow> old \<le> nv_len fs"
  by (auto simp: nv_old_length_def Let_def split: if_splits)

lemma nv_image_checksum:
  "take 4 (nv_image fs s p c) @ m_hton16 d @ drop 6 (nv_image fs s p c) = nv_image fs s p d"
proof -
  define h where "h = (nv_startup_head_for fs (length s))\<lparr>sh_checksum := c\<rparr>"
  have d: "(nv_startup_head_for fs (length s))\<lparr>sh_checksum := d\<rparr> = h\<lparr>sh_checksum := d\<rparr>" by (simp add: h_def)
  have "take 4 (native_to_be_header_startup h @ r) @ m_hton16 d @ drop 6 (native_to_be_header_startup h @ r)
      = (take 4 (native_to_be_header_startup h) @ m_hton16 d @ drop 6 (native_to_be_header_startup h)) @ r"
          for r
    by simp
  then show ?thesis unfolding nv_image_def h_def [symmetric] d startup_header_checksum by blast
qed

lemma nv_frame_image:
  assumes "nv_frame fs fs'"
  shows "nv_image fs' = nv_image fs" "nv_needed fs' = nv_needed fs" "nv_padding_for fs' = nv_padding_for fs"
proof -
  from assms obtain b where fs': "fs' = fs\<lparr>nv_base := b\<rparr>" unfolding nv_frame_def by blast
  show pad: "nv_padding_for fs' = nv_padding_for fs"
    by (rule ext) (simp add: fs' nv_padding_for_def fs_nvram_padding_at_def)
  show "nv_needed fs' = nv_needed fs" by (intro ext) (simp only: nv_needed_def pad)
  have sh: "nv_startup_head_for fs' = nv_startup_head_for fs"
    by (rule ext) (simp add: fs' nv_startup_head_for_def nv_unk1_def fs_nvram_address_of_def)
  then have "nv_private_head_for fs' = nv_private_head_for fs"
    by (intro ext) (simp only: nv_private_head_for_def pad)
  with sh show "nv_image fs' = nv_image fs" by (intro ext) (simp only: nv_image_def pad)
qed

lemma write_config_image:
  fixes so po
  defines "s \<equiv> nv_data so" and "p \<equiv> nv_data po"
  assumes wf: "nv_wf M fs" and old: "nv_old_content fs \<noteq> None"
    and need: "nv_needed fs (length s) (length p) \<le> nv_len fs"
  shows "\<exists>fs' c. fs_nvram_write_config (Some fs) so (length s) po (length p) = Some (Inr fs')
           \<and> nv_wf M fs' \<and> nv_frame fs fs'
           \<and> take (nv_needed fs (length s) (length p)) (nv_view fs') = take 8 (nv_view fs) @ nv_image fs s p c
           \<and> (nv_len fs \<le> 0x20000 \<longrightarrow> nv_checksum_ok fs')"
proof -
  let ?need = "nv_needed fs (length s) (length p)"
  from old obtain l where l: "nv_old_length fs = Some l" by (auto simp: nv_old_length_def)
  from nv_store_view [OF wf nv_old_length_bound [OF l] need] obtain fs1 where
    fs1: "nv_store l s (length s) p (length p) fs = Some fs1" "nv_wf M fs1" "nv_frame fs fs1"
         "take ?need (nv_view fs1) = take 8 (nv_view fs) @ nv_image fs s p 0" by blast
  from update_checksum_view [OF fs1(2)] obtain fs2 c where
    fs2: "fs_nvram_update_checksum fs1 = Some fs2" "nv_wf M fs2" "nv_frame fs1 fs2"
         "nv_view fs2 = take 12 (nv_view fs1) @ m_hton16 c @ drop 14 (nv_view fs1)"
         "nv_len fs1 \<le> 0x20000 \<longrightarrow> nv_checksum_ok fs2" by blast
  have large: "14 \<le> ?need"
    by (simp add: nv_needed_def NV_HEADER_SIZE_def NV_STARTUP_SIZE_def)
  have l8: "length (take 8 (nv_view fs)) = 8" using need large by simp
  have t1: "take 12 (nv_view fs1) = take 8 (nv_view fs) @ take 4 (nv_image fs s p 0)"
  proof -
    have "take 12 (nv_view fs1) = take 12 (take ?need (nv_view fs1))" using large by (simp add: min_absorb1)
    then show ?thesis using l8 by (simp add: fs1(4))
  qed
  have t2: "take (?need - 14) (drop 14 (nv_view fs1)) = drop 6 (nv_image fs s p 0)"
  proof -
    have "take (?need - 14) (drop 14 (nv_view fs1)) = drop 14 (take ?need (nv_view fs1))"
      using large by (simp add: take_drop)
    then show ?thesis using l8 by (simp add: fs1(4))
  qed
  have "length (nv_view fs1) = nv_len fs" using nv_frame_fields(1) [OF fs1(3)] by simp
  moreover from large obtain k where "?need = 14 + k" using le_Suc_ex by blast
  ultimately have "take ?need (nv_view fs2) = take 12 (nv_view fs1) @ m_hton16 c @ take (?need - 14) (drop
      14 (nv_view fs1))"
    using need unfolding fs2(4) by (simp add: m_hton16_def)
  then have "take ?need (nv_view fs2) = take 8 (nv_view fs) @ nv_image fs s p c"
    unfolding t1 t2 by (simp add: nv_image_checksum)
  moreover have "fs_nvram_write_config (Some fs) so (length s) po (length p) = Some (Inr fs2)"
    using need l fs1(1) fs2(1)
    by (auto simp: fs_nvram_write_config_def nv_bind_def s_def p_def nv_data_def split: option.splits)
  moreover have "nv_frame fs fs2" by (rule nv.frame_trans [OF fs1(3) fs2(3)])
  ultimately show ?thesis using fs2(2,5) nv_frame_fields(1) [OF fs1(3)] by auto
qed

section \<open>Reading it back\<close>

lemma nv_address_offset: "fs_nvram_offset_of fs (fs_nvram_address_of fs a + b) = a + b"
  by (simp add: fs_nvram_offset_of_def fs_nvram_address_of_def)

text \<open>A file system that holds the image of two configurations.\<close>

definition nv_holds :: "fs_nvram \<Rightarrow> u8 list \<Rightarrow> u8 list \<Rightarrow> u16 \<Rightarrow> bool" where
  "nv_holds fs s p c \<longleftrightarrow> nv_wf False fs \<and> nv_needed fs (length s) (length p) \<le> nv_len fs
     \<and> drop 8 (take (nv_needed fs (length s) (length p)) (nv_view fs)) = nv_image fs s p c"

lemma nv_holdsD:
  assumes "nv_holds fs s p c"
  shows "nv_wf False fs" "nv_needed fs (length s) (length p) \<le> nv_len fs"
    "drop 8 (take (nv_needed fs (length s) (length p)) (nv_view fs)) = nv_image fs s p c"
    "nv_len fs < 2 ^ 32"
  using assms nv_len_less by (auto simp: nv_holds_def)


lemma nv_wf_weaken: "nv_wf M fs \<Longrightarrow> nv_wf False fs"
  by (simp add: nv_wf_def)

lemma nv_needed_sum: "nv_needed fs n m = 44 + n + nv_padding_for fs n + 16 + m"
  by (simp add: nv_needed_def NV_HEADER_SIZE_def NV_STARTUP_SIZE_def NV_PRIVATE_SIZE_def)

lemma holds_unat:
  assumes "nv_holds fs s p c" "n \<le> nv_len fs"
  shows "unat (of_nat n :: u32) = n"
  using nv_holdsD(4) [OF assms(1)] assms(2) by (intro unat_u32_of_nat) simp

lemma holds_memcpy_from:
  assumes "nv_holds fs s p c" "8 \<le> a" "a + n \<le> nv_needed fs (length s) (length p)"
  shows "fs_nvram_memcpy_from fs (of_nat a) (of_nat n) = Some (take n (drop (a - 8) (nv_image fs s p c)))"
proof -
  note H = nv_holdsD [OF assms(1)]
  have "take n (drop a (nv_view fs))
      = take n (drop (a - 8) (drop 8 (take (nv_needed fs (length s) (length p)) (nv_view fs))))"
    using assms by (simp add: take_drop min_absorb1)
  moreover have "fs_nvram_memcpy_from fs (of_nat a) (of_nat n) = Some (take n (drop a (nv_view fs)))"
    using nv_memcpy_from_view [OF H(1), of "of_nat a" "of_nat n"] assms H(2)
    by (simp add: holds_unat [OF assms(1)])
  ultimately show ?thesis by (simp add: H(3))
qed

lemma holds_startup_head:
  "nv_holds fs s p c \<Longrightarrow>
     nv_read_startup_head fs = Some ((nv_startup_head_for fs (length s))\<lparr>sh_checksum := c\<rparr>)"
  using holds_memcpy_from [of fs s p c 8 36]
  by (simp add: nv_read_startup_head_def NV_STARTUP_SIZE_def nv_needed_sum nv_image_def
      startup_header_roundtrip)

lemma holds_private_head:
  "nv_holds fs s p c \<Longrightarrow>
     nv_read_private_head fs (of_nat (44 + length s + nv_padding_for fs (length s)))
       = Some (nv_private_head_for fs (length s) (length p))"
  using holds_memcpy_from [of fs s p c "44 + length s + nv_padding_for fs (length s)" 16]
  by (simp add: nv_read_private_head_def NV_PRIVATE_SIZE_def nv_needed_sum nv_image_def
      private_header_roundtrip)

lemma holds_data:
  assumes "nv_holds fs s p c" "8 \<le> a" "a + n \<le> nv_needed fs (length s) (length p)"
  shows "fs_nvram_read_data fs (of_nat a) (of_nat n) = Some (take n (drop (a - 8) (nv_image fs s p c)) @ [0])"
proof -
  have "unat (of_nat (n + 1) :: u32) = n + 1"
    by (rule holds_unat [OF assms(1)]) (use assms nv_holdsD(2) [OF assms(1)] in simp)
  then have "of_nat (n + 1) \<noteq> (0 :: u32)" by (metis unsigned_0 add_is_0 one_neq_zero)
  then have "of_nat n + 1 \<noteq> (0 :: u32)" by (simp add: add.commute)
  then show ?thesis by (simp add: fs_nvram_read_data_def holds_memcpy_from [OF assms])
qed

lemma holds_startup_data:
  "nv_holds fs s p c \<Longrightarrow> fs_nvram_read_data fs 44 (of_nat (length s)) = Some (s @ [0])"
  using holds_data [of fs s p c 44 "length s"] by (simp add: nv_needed_sum nv_image_def)

lemma holds_private_data:
  "nv_holds fs s p c \<Longrightarrow>
     fs_nvram_read_data fs (of_nat (60 + length s + nv_padding_for fs (length s))) (of_nat (length p)) =
         Some (p @ [0])"
  using holds_data [of fs s p c "60 + length s + nv_padding_for fs (length s)" "length p"]
  by (simp add: nv_needed_sum nv_image_def)

lemma holds_offsets:
  assumes "nv_holds fs s p c"
  shows "unat (44 + of_nat (length s) :: u32) = 44 + length s"
    and "unat (fs_nvram_padding_at fs (44 + of_nat (length s))) = nv_padding_for fs (length s)"
    and "\<not> nv_len fs < 44 + length s + nv_padding_for fs (length s) + NV_PRIVATE_SIZE"
  using holds_unat [OF assms, of "44 + length s"] nv_holdsD(2) [OF assms]
  by (simp_all add: nv_needed_sum nv_padding_for_def NV_HEADER_SIZE_def NV_STARTUP_SIZE_def NV_PRIVATE_SIZE_def)

lemma startup_head_for_fields [simp]:
  "sh_magic (nv_startup_head_for fs n) = FS_NVRAM_MAGIC_STARTUP_CONFIG"
  "sh_format (nv_startup_head_for fs n) = FS_NVRAM_FORMAT_RAW"
  "sh_len (nv_startup_head_for fs n) = of_nat n"
  "sh_end (nv_startup_head_for fs n) = sh_start (nv_startup_head_for fs n) + of_nat n"
  by (simp_all add: nv_startup_head_for_def Let_def)

lemma private_head_for_fields [simp]:
  "ph_magic (nv_private_head_for fs n m) = FS_NVRAM_MAGIC_PRIVATE_CONFIG"
  "ph_format (nv_private_head_for fs n m) = FS_NVRAM_FORMAT_RAW"
  "ph_len (nv_private_head_for fs n m) = of_nat m"
  "ph_end (nv_private_head_for fs n m) = ph_start (nv_private_head_for fs n m) + of_nat m"
  by (simp_all add: nv_private_head_for_def Let_def)

lemma startup_span:
  "fs_nvram_offset_of fs (sh_start (nv_startup_head_for fs n)) = 44"
  "fs_nvram_offset_of fs (sh_start (nv_startup_head_for fs n) + of_nat n) = 44 + of_nat n"
  using nv_address_offset [of fs 44 0]
  by (simp_all add: nv_startup_head_for_def Let_def NV_HEADER_SIZE_def NV_STARTUP_SIZE_def nv_address_offset)

lemma private_span:
  "fs_nvram_offset_of fs (ph_start (nv_private_head_for fs n m)) = of_nat (60 + n + nv_padding_for fs n)"
  "fs_nvram_offset_of fs (ph_start (nv_private_head_for fs n m) + of_nat m)
     = of_nat (60 + n + nv_padding_for fs n + m)"
  by (simp_all add: nv_private_head_for_def nv_startup_head_for_def Let_def NV_HEADER_SIZE_def
      NV_STARTUP_SIZE_def NV_PRIVATE_SIZE_def nv_address_offset add.assoc)

lemma holds_read_startup:
  assumes "nv_holds fs s p c"
  shows "nv_read_startup ui fs ws ((nv_startup_head_for fs (length s))\<lparr>sh_checksum := c\<rparr>)
           = Some (Inr (if ws then Some (s @ [0]) else None, length s))"
proof -
  have "unat (of_nat (length s) :: u32) = length s"
    by (rule holds_unat [OF assms]) (use nv_holdsD(2) [OF assms] in \<open>simp add: nv_needed_sum\<close>)
  then show ?thesis by (simp add: nv_read_startup_def startup_span holds_startup_data [OF assms])
qed

lemma holds_read_private:
  assumes "nv_holds fs s p c"
  shows "nv_read_private fs wp (nv_private_head_for fs (length s) (length p))
           = Some (Inr (if wp then Some (p @ [0]) else None, length p))"
proof -
  have l: "unat (of_nat (length p) :: u32) = length p"
    by (rule holds_unat [OF assms]) (use nv_holdsD(2) [OF assms] in \<open>simp add: nv_needed_sum\<close>)
  have e: "unat (of_nat (60 + length s + nv_padding_for fs (length s) + length p) :: u32)
      = 60 + length s + nv_padding_for fs (length s) + length p"
    by (rule holds_unat [OF assms]) (use nv_holdsD(2) [OF assms] in \<open>simp add: nv_needed_sum\<close>)
  have "\<not> nv_len fs < 60 + length s + nv_padding_for fs (length s) + length p"
    using nv_holdsD(2) [OF assms] by (simp add: nv_needed_sum)
  then show ?thesis
    unfolding nv_read_private_def private_head_for_fields private_span e l holds_private_data [OF assms]
    by simp
qed

lemma holds_read_config:
  assumes "nv_holds fs s p c"
  shows "fs_nvram_read_config ui (Some fs) ws wp
     = Some (Inr \<lparr> rc_startup = if ws then Some (s @ [0]) else None, rc_startup_len = length s,
                   rc_private = if wp then Some (p @ [0]) else None, rc_private_len = length p \<rparr>)"
proof -
  have off: "fs_nvram_offset_of fs (sh_start ((nv_startup_head_for fs (length s))\<lparr>sh_checksum := c\<rparr>)
      + sh_len ((nv_startup_head_for fs (length s))\<lparr>sh_checksum := c\<rparr>)) = 44 + of_nat (length s)"
    using startup_span(2) by simp
  have magic: "sh_magic ((nv_startup_head_for fs (length s))\<lparr>sh_checksum := c\<rparr>) = FS_NVRAM_MAGIC_STARTUP_CONFIG"
    by simp
  show ?thesis
    unfolding fs_nvram_read_config_def holds_startup_head [OF assms] option.case Let_def off
      holds_offsets(1,2) [OF assms] holds_private_head [OF assms] holds_read_startup [OF assms]
      holds_read_private [OF assms] magic
    using holds_offsets(3) [OF assms] by simp
qed


section \<open>Round trip\<close>

lemma write_config_holds:
  fixes so po
  defines "s \<equiv> nv_data so" and "p \<equiv> nv_data po"
  assumes wf: "nv_wf M fs" and old: "nv_old_content fs \<noteq> None"
    and need: "nv_needed fs (length s) (length p) \<le> nv_len fs"
  shows "\<exists>fs' c. fs_nvram_write_config (Some fs) so (length s) po (length p) = Some (Inr fs')
           \<and> nv_wf M fs' \<and> nv_frame fs fs' \<and> nv_holds fs' s p c
           \<and> take 8 (nv_view fs') = take 8 (nv_view fs)
           \<and> (nv_len fs \<le> 0x20000 \<longrightarrow> nv_checksum_ok fs')"
proof -
  from write_config_image [OF wf old] need obtain fs' c where
    fs': "fs_nvram_write_config (Some fs) so (length s) po (length p) = Some (Inr fs')" "nv_wf M fs'"
      "nv_frame fs fs'"
      "take (nv_needed fs (length s) (length p)) (nv_view fs') = take 8 (nv_view fs) @ nv_image fs s p c"
      "nv_len fs \<le> 0x20000 \<longrightarrow> nv_checksum_ok fs'"
    unfolding s_def p_def by blast
  have l8: "length (take 8 (nv_view fs)) = 8" using need by (simp add: nv_needed_sum)
  have "nv_holds fs' s p c"
    unfolding nv_holds_def nv_frame_image [OF fs'(3)] nv_frame_fields [OF fs'(3)] fs'(4)
    using nv_wf_weaken [OF fs'(2)] need l8 by simp
  moreover have "take 8 (nv_view fs') = take 8 (nv_view fs)"
  proof -
    have "take 8 (nv_view fs') = take 8 (take (nv_needed fs (length s) (length p)) (nv_view fs'))"
      by (simp add: nv_needed_sum min_absorb1)
    then show ?thesis using l8 by (simp add: fs'(4))
  qed
  ultimately show ?thesis using fs' by blast
qed

text \<open>A file system that can be written: the scan for the length of the old contents stays inside the
  buffer, and the magic of the file system is there.\<close>

definition nv_ready :: "bool \<Rightarrow> fs_nvram \<Rightarrow> bool" where
  "nv_ready M fs \<longleftrightarrow> nv_wf M fs \<and> nv_old_content fs \<noteq> None
     \<and> be16_at (nv_view fs) 6 = FS_NVRAM_MAGIC_FILESYSTEM"

lemma holds_old_content:
  assumes H: "nv_holds fs s p c"
  shows "nv_old_content fs \<noteq> None"
proof -
  note D = nv_holdsD [OF H]
  have need: "60 + length s + nv_padding_for fs (length s) + length p \<le> nv_len fs"
    using D(2) by (simp add: nv_needed_sum)
  have u: "unat (of_nat n :: u32) = n" if "n \<le> nv_len fs" for n by (rule holds_unat [OF H that])
  have r32: "fs_nvram_read32 fs 24 = Some (of_nat (length s))"
    using holds_memcpy_from [OF H, of 24 4]
    by (simp add: fs_nvram_memcpy_from_def fs_nvram_read32_def nv_needed_sum nv_image_def
        native_to_be_header_startup_def m_hton16_def m_hton32_def be32_at_def ntoh_hton32)
  have in16: "fs_nvram_read16 fs (of_nat n) \<noteq> None" if "n + 2 \<le> nv_len fs" for n
    using nv_read16_view [OF D(1), of "of_nat n"] that by (simp add: u)
  have in32: "fs_nvram_read32 fs (of_nat n) \<noteq> None" if "n + 4 \<le> nv_len fs" for n
    using nv_read32_view [OF D(1), of "of_nat n"] that by (simp add: u)
  define l where "l = (if (8 + length s) mod 4 \<noteq> 0 then 8 + length s + (8 - (8 + length s) mod 4)
      else 8 + length s)"
  have l: "l \<le> length s + 16"
  proof -
    define k where "k = (8 + length s) mod 4"
    have "l = (if k \<noteq> 0 then 8 + length s + (8 - k) else 8 + length s)" by (simp only: l_def k_def)
    then show ?thesis by (simp split: if_splits)
  qed
  have us: "unat (of_nat (length s) :: u32) = length s" by (rule u) (use need in simp)
  obtain m1 where m1: "fs_nvram_read16 fs 8 = Some m1" using in16 [of 8] need by auto
  have "fs_nvram_read16 fs (of_nat l) \<noteq> None" by (rule in16) (use l need in simp)
  then obtain m2 where m2: "fs_nvram_read16 fs (of_nat l) = Some m2" by blast
  have "fs_nvram_read32 fs (of_nat (l + 12)) \<noteq> None" by (rule in32) (use l need in simp)
  then obtain v where v: "fs_nvram_read32 fs (of_nat (l + 12)) = Some v" by blast
  show ?thesis
    unfolding nv_old_content_def r32 m1 option.case Let_def NV_HEADER_SIZE_def us l_def [symmetric] m2 v by simp
qed

lemma nv_ready_write:
  assumes "nv_ready M fs" "nv_needed fs (length (nv_data so)) (length (nv_data po)) \<le> nv_len fs"
  shows "\<exists>fs'. fs_nvram_write_config (Some fs) so (length (nv_data so)) po (length (nv_data po)) = Some (Inr
      fs')
           \<and> nv_ready M fs' \<and> nv_frame fs fs' \<and> (nv_len fs \<le> 0x20000 \<longrightarrow> nv_checksum_ok fs')
           \<and> (\<forall>ui ws wp. fs_nvram_read_config ui (Some fs') ws wp
                = Some (Inr \<lparr> rc_startup = if ws then Some (nv_data so @ [0]) else None,
                              rc_startup_len = length (nv_data so),
                              rc_private = if wp then Some (nv_data po @ [0]) else None,
                              rc_private_len = length (nv_data po) \<rparr>))"
proof -
  from assms(1) have r: "nv_wf M fs" "nv_old_content fs \<noteq> None"
      "be16_at (nv_view fs) 6 = FS_NVRAM_MAGIC_FILESYSTEM" by (auto simp: nv_ready_def)
  from write_config_holds [OF r(1,2) assms(2)] obtain fs' c where
    fs': "fs_nvram_write_config (Some fs) so (length (nv_data so)) po (length (nv_data po)) = Some (Inr fs')"
      "nv_wf M fs'" "nv_frame fs fs'" "nv_holds fs' (nv_data so) (nv_data po) c"
      "take 8 (nv_view fs') = take 8 (nv_view fs)" "nv_len fs \<le> 0x20000 \<longrightarrow> nv_checksum_ok fs'" by blast
  have "be16_at v 6 = be16_at (take 8 v) 6" for v by (simp add: be16_at_def)
  with fs'(5) r(3) have "be16_at (nv_view fs') 6 = FS_NVRAM_MAGIC_FILESYSTEM" by metis
  with fs' holds_old_content [OF fs'(4)] have "nv_ready M fs'" by (simp add: nv_ready_def)
  with fs' holds_read_config [OF fs'(4)] show ?thesis by blast
qed

section \<open>Verification\<close>

lemma nv_verify_backup_iff:
  assumes "\<And>i. i \<in> set xs \<Longrightarrow> nv_mirrored_at fs i = Some (P i)"
  shows "nv_verify_backup fs xs = Some (if \<forall>i\<in>set xs. P i then None else Some FS_NVRAM_ERR_BACKUP_MISSMATCH)"
  using assms by (induction xs) auto

lemma nv_mirrored_at_pos:
  assumes "nv_wf M fs" "nv_with_backup fs" "i < nv_len fs"
  shows "nv_mirrored_at fs i = Some (nv_base fs ! nv_pos1 fs i = nv_base fs ! nv_pos2 fs i)"
proof -
  have u: "unat (of_nat i :: u32) = i" using nv_len_less [OF assms(1)] assms(3) by (intro unat_u32_of_nat) simp
  show ?thesis
    using nv_offset1 [OF assms(1), of "of_nat i"] nv_offset2 [OF assms(1), of "of_nat i"] assms
      nv_pos_less [OF assms(1,3)]
    by (simp add: nv_mirrored_at_def host_get_def u)
qed

lemma nv_verify_backup_result:
  assumes "nv_wf M fs" "nv_with_backup fs"
  shows "nv_verify_backup fs [0..<nv_len fs]
           = Some (if nv_mirror fs then None else Some FS_NVRAM_ERR_BACKUP_MISSMATCH)"
proof -
  have "nv_verify_backup fs [0..<nv_len fs]
      = Some (if \<forall>i\<in>set [0..<nv_len fs]. nv_base fs ! nv_pos1 fs i = nv_base fs ! nv_pos2 fs i
              then None else Some FS_NVRAM_ERR_BACKUP_MISSMATCH)"
    by (rule nv_verify_backup_iff) (use nv_mirrored_at_pos [OF assms] in simp)
  then show ?thesis using assms(2) by (simp add: nv_mirror_def Ball_def)
qed

text \<open>The addresses the format uses are those the verification expects: absolute addresses that do
  not wrap, or relative ones with a file system at address zero.\<close>

definition nv_addr_ok :: "fs_nvram \<Rightarrow> bool" where
  "nv_addr_ok fs \<longleftrightarrow> (if nv_flags fs AND FS_NVRAM_FLAG_ADDR_ABSOLUTE \<noteq> 0
                       then unat (nv_addr fs) + nv_len fs < 2 ^ 32 else nv_addr fs = 0)"

lemma nv_good_span:
  assumes "nv_addr_ok fs" "nv_len fs < 2 ^ 32" "8 \<le> a" "a + n \<le> nv_len fs"
    and "start = fs_nvram_address_of fs (of_nat a)"
  shows "\<not> nv_bad_span fs start (start + of_nat n) (of_nat n)"
proof (cases "nv_flags fs AND FS_NVRAM_FLAG_ADDR_ABSOLUTE \<noteq> 0")
  case True
  with assms have lt: "unat (nv_addr fs) + nv_len fs < 2 ^ 32"
    and s: "start = nv_addr fs + of_nat a" by (simp_all add: nv_addr_ok_def fs_nvram_address_of_def)
  have e: "start = of_nat (unat (nv_addr fs) + a)" "start + of_nat n = of_nat (unat (nv_addr fs) + a + n)"
    by (simp_all add: s)
  have us: "unat start = unat (nv_addr fs) + a" unfolding e(1) using lt assms(4) by (intro unat_u32_of_nat) simp
  have ue: "unat (start + of_nat n) = unat (nv_addr fs) + a + n"
    unfolding e(2) using lt assms(4) by (intro unat_u32_of_nat) simp
  have un: "unat (of_nat n :: u32) = n" using assms(2,4) by (intro unat_u32_of_nat) simp
  show ?thesis
    unfolding nv_bad_span_def word_less_nat_alt us ue un using assms(4) by simp
next
  case False
  with assms have z: "nv_addr fs = 0" and s: "start = of_nat a - 8"
    by (simp_all add: nv_addr_ok_def fs_nvram_address_of_def)
  have "of_nat a - 8 = (of_nat (a - 8) :: u32)" using assms(3) by (simp add: of_nat_diff)
  then have e: "start + of_nat n = of_nat (a - 8 + n)" by (simp add: s)
  have ue: "unat (start + of_nat n) = a - 8 + n" unfolding e using assms(2-4) by (intro unat_u32_of_nat) simp
  have un: "unat (of_nat n :: u32) = n" using assms(2,4) by (intro unat_u32_of_nat) simp
  show ?thesis unfolding nv_bad_span_def z ue un using assms(3,4) by simp
qed

lemma holds_verify_config:
  assumes H: "nv_holds fs s p c" and ok: "nv_addr_ok fs"
  shows "nv_verify_config fs = Some None"
proof -
  note D = nv_holdsD [OF H]
  have need: "60 + length s + nv_padding_for fs (length s) + length p \<le> nv_len fs"
    using D(2) by (simp add: nv_needed_sum)
  have b1: "\<not> nv_bad_span fs (sh_start (nv_startup_head_for fs (length s)))
      (sh_start (nv_startup_head_for fs (length s)) + of_nat (length s)) (of_nat (length s))"
    by (rule nv_good_span [OF ok D(4), of 44])
       (use need in \<open>simp_all add: nv_startup_head_for_def Let_def NV_HEADER_SIZE_def NV_STARTUP_SIZE_def\<close>)
  have b2: "\<not> nv_bad_span fs (ph_start (nv_private_head_for fs (length s) (length p)))
      (ph_start (nv_private_head_for fs (length s) (length p)) + of_nat (length p)) (of_nat (length p))"
    by (rule nv_good_span [OF ok D(4), of "60 + length s + nv_padding_for fs (length s)"])
       (use need in \<open>simp_all add: nv_private_head_for_def nv_startup_head_for_def Let_def NV_HEADER_SIZE_def
          NV_STARTUP_SIZE_def NV_PRIVATE_SIZE_def fs_nvram_address_of_def\<close>)
  have sh: "sh_magic ((nv_startup_head_for fs (length s))\<lparr>sh_checksum := c\<rparr>) = FS_NVRAM_MAGIC_STARTUP_CONFIG"
    "sh_start ((nv_startup_head_for fs (length s))\<lparr>sh_checksum := c\<rparr>) = sh_start (nv_startup_head_for fs
        (length s))"
    "sh_end ((nv_startup_head_for fs (length s))\<lparr>sh_checksum := c\<rparr>)
       = sh_start (nv_startup_head_for fs (length s)) + of_nat (length s)"
    "sh_len ((nv_startup_head_for fs (length s))\<lparr>sh_checksum := c\<rparr>) = of_nat (length s)" by simp_all
  show ?thesis
    unfolding nv_verify_config_def holds_startup_head [OF H] option.case sh startup_span(2) Let_def
      holds_offsets(1,2) [OF H] holds_private_head [OF H] private_head_for_fields
    using b1 b2 holds_offsets(3) [OF H] by simp
qed


section \<open>Opening\<close>

text \<open>A write makes both copies of its byte the same and leaves those of the other bytes.\<close>

lemma nv_put_mirrors:
  fixes a :: u32
  assumes "nv_wf False fs" "unat a < nv_len fs" "nv_with_backup fs" "nv_put fs a v = Some fs'" "j < nv_len fs"
    and "j = unat a \<or> nv_base fs ! nv_pos1 fs j = nv_base fs ! nv_pos2 fs j"
  shows "nv_base fs' ! nv_pos1 fs j = nv_base fs' ! nv_pos2 fs j"
proof -
  note less = nv_pos_less(1) [OF assms(1,2)] nv_pos_less(2) [OF assms(1,2,3)]
    nv_pos_less(1) [OF assms(1,5)] nv_pos_less(2) [OF assms(1,5,3)]
  have b: "nv_base fs' = (nv_base fs)[nv_pos1 fs (unat a) := v, nv_pos2 fs (unat a) := v]"
    using assms(3,4) less
    by (auto simp: nv_put_def fs_nvram_write_byte_with_backup_def host_put_def nv_offset1 [OF assms(1-3)]
        nv_offset2 [OF assms(1-3)])
  show ?thesis
    using assms(6) less nv_pos_disjoint [OF assms(1,3,5,2)] nv_pos_disjoint [OF assms(1,3,2,5)]
      nv_pos1_inj [of fs j "unat a"] nv_pos2_inj [OF assms(1,3,5,2)]
    by (auto simp: b nth_list_update)
qed

lemma nv_write_mirrors:
  assumes "nv_wf False fs" "nv_with_backup fs" "unat a + length bs \<le> nv_len fs"
    and "write_bytes nv_put a bs fs = Some fs'" "j < nv_len fs"
    and "unat a \<le> j \<and> j < unat a + length bs \<or> nv_base fs ! nv_pos1 fs j = nv_base fs ! nv_pos2 fs j"
  shows "nv_base fs' ! nv_pos1 fs j = nv_base fs' ! nv_pos2 fs j"
  using assms
proof (induction bs arbitrary: a fs)
  case Nil
  then show ?case by auto
next
  case (Cons b bs)
  have lt: "unat a < nv_len fs" using Cons.prems(3) by simp
  from nv_put_view [OF Cons.prems(1) lt, of b] obtain fs1 where
    fs1: "nv_put fs a b = Some fs1" "nv_wf False fs1" "nv_frame fs fs1" by blast
  have n: "unat (a + 1) = unat a + 1" by (rule nv.next_addr [OF Cons.prems(1)]) (use lt in simp)
  from fs1(3) have pos: "nv_pos1 fs1 j = nv_pos1 fs j" "nv_pos2 fs1 j = nv_pos2 fs j"
    "nv_with_backup fs1 = nv_with_backup fs" "nv_len fs1 = nv_len fs" by (auto simp: nv_frame_def)
  have m: "nv_base fs1 ! nv_pos1 fs j = nv_base fs1 ! nv_pos2 fs j"
    if "j = unat a \<or> nv_base fs ! nv_pos1 fs j = nv_base fs ! nv_pos2 fs j"
    using nv_put_mirrors [OF Cons.prems(1) lt Cons.prems(2) fs1(1) Cons.prems(5) that] .
  have "nv_base fs' ! nv_pos1 fs1 j = nv_base fs' ! nv_pos2 fs1 j"
  proof (rule Cons.IH [OF fs1(2), of "a + 1"])
    show "unat (a + 1) \<le> j \<and> j < unat (a + 1) + length bs \<or>
        nv_base fs1 ! nv_pos1 fs1 j = nv_base fs1 ! nv_pos2 fs1 j"
    proof (cases "j = unat a \<or> nv_base fs ! nv_pos1 fs j = nv_base fs ! nv_pos2 fs j")
      case True
      from m [OF True] show ?thesis unfolding pos by blast
    next
      case False
      with Cons.prems(6) show ?thesis unfolding n by auto
    qed
  qed (use Cons.prems fs1 n pos in simp_all)
  then show ?case by (simp only: pos)
qed

lemma nv_clear_all:
  assumes "nv_wf False fs"
  shows "\<exists>fs'. fs_nvram_clear 0 (of_nat (nv_len fs)) fs = Some fs' \<and> nv_wf True fs' \<and> nv_frame fs fs'
               \<and> nv_view fs' = replicate (nv_len fs) 0"
proof -
  have u: "unat (of_nat (nv_len fs) :: u32) = nv_len fs"
    by (rule unat_u32_of_nat [OF nv_len_less [OF assms]])
  from nv_clear_block [OF assms, of "[]" "nv_view fs" 0 "of_nat (nv_len fs)"] obtain fs' where
    fs': "fs_nvram_clear 0 (of_nat (nv_len fs)) fs = Some fs'" "nv_wf False fs'" "nv_frame fs fs'"
         "nv_view fs' = replicate (nv_len fs) 0"
    by (auto simp: u)
  have "nv_mirror fs'" unfolding nv_mirror_def
  proof (intro impI allI)
    fix j assume "nv_with_backup fs'" "j < nv_len fs'"
    with fs'(3) have j: "nv_with_backup fs" "j < nv_len fs" and
      pos: "nv_pos1 fs' j = nv_pos1 fs j" "nv_pos2 fs' j = nv_pos2 fs j" by (auto simp: nv_frame_def)
    have "nv_base fs' ! nv_pos1 fs j = nv_base fs' ! nv_pos2 fs j"
      by (rule nv_write_mirrors [OF assms j(1) _ _ j(2), of 0 "replicate (nv_len fs) 0"])
         (use fs'(1) j u in \<open>simp_all add: fs_nvram_clear_def\<close>)
    then show "nv_base fs' ! nv_pos1 fs' j = nv_base fs' ! nv_pos2 fs' j" by (simp only: pos)
  qed
  with fs' show ?thesis by (auto simp: nv_wf_def)
qed

lemma nv_create_ready:
  assumes "nv_wf False fs"
  shows "\<exists>fs'. fs_nvram_create fs = Some fs' \<and> nv_ready True fs' \<and> nv_frame fs fs'
               \<and> (\<forall>ui ws wp. fs_nvram_read_config ui (Some fs') ws wp = Some (Inr nv_no_config))"
proof -
  have len: "1024 \<le> nv_len fs"
    using assms by (auto simp: nv_wf_def FS_NVRAM_SECTOR_SIZE_def dest: dvd_imp_le)
  from nv_clear_all [OF assms] obtain fs1 where
    fs1: "fs_nvram_clear 0 (of_nat (nv_len fs)) fs = Some fs1" "nv_wf True fs1" "nv_frame fs fs1"
         "nv_view fs1 = replicate (nv_len fs) 0" by blast
  note l1 = nv_frame_fields(1) [OF fs1(3)]
  from nv_write16_view [OF fs1(2), of 6 FS_NVRAM_MAGIC_FILESYSTEM] len l1 obtain fs2 where
    fs2: "fs_nvram_write16 6 FS_NVRAM_MAGIC_FILESYSTEM fs1 = Some fs2" "nv_wf True fs2" "nv_frame fs1 fs2"
         "nv_view fs2 = take 6 (nv_view fs1) @ m_hton16 FS_NVRAM_MAGIC_FILESYSTEM @ drop 8 (nv_view fs1)"
             by auto
  note l2 = nv_frame_fields(1) [OF fs2(3)]
  from nv_write16_view [OF fs2(2), of NV_CHECKSUM_OFFSET "0xFFFF"] len l1 l2 obtain fs3 where
    fs3: "fs_nvram_write16 NV_CHECKSUM_OFFSET 0xFFFF fs2 = Some fs3" "nv_wf True fs3" "nv_frame fs2 fs3"
         "nv_view fs3 = take 12 (nv_view fs2) @ m_hton16 0xFFFF @ drop 14 (nv_view fs2)"
    by (auto simp: NV_CHECKSUM_OFFSET_def)
  note l3 = nv_frame_fields(1) [OF fs3(3)]
  have create: "fs_nvram_create fs = Some fs3" by (simp add: fs_nvram_create_def fs1(1) fs2(1) fs3(1))
  have frame: "nv_frame fs fs3" using fs1(3) fs2(3) fs3(3) by (blast intro: nv.frame_trans)
  obtain m where m: "nv_len fs = 44 + m" using len le_Suc_ex [of 44 "nv_len fs"] by auto
  have v: "nv_view fs3 = replicate 6 0 @ m_hton16 FS_NVRAM_MAGIC_FILESYSTEM @ replicate 4 0
             @ m_hton16 0xFFFF @ replicate (30 + m) 0"
    by (simp add: fs3(4) fs2(4) fs1(4) m m_hton16_def)
  have magic: "be16_at (nv_view fs3) 6 = FS_NVRAM_MAGIC_FILESYSTEM"
    by (simp add: v be16_at_def nth_append m_hton16_def)
  have zero: "be16_at (nv_view fs3) 8 = 0"
    by (simp add: v be16_at_def nth_append m_hton16_def m_ntoh16_def)
  have less3: "44 \<le> nv_len fs3" using l1 l2 l3 m by simp
  have r8: "fs_nvram_read16 fs3 8 = Some 0"
    using nv_read16_view [OF fs3(2), of 8] less3 zero by simp
  then have "nv_old_content fs3 \<noteq> None"
    by (simp add: nv_old_content_def FS_NVRAM_MAGIC_STARTUP_CONFIG_def)
  moreover have "fs_nvram_read_config ui (Some fs3) ws wp = Some (Inr nv_no_config)" for ui ws wp
  proof -
    have "nv_read_startup_head fs3 = Some (be_to_native_header_startup (take 36 (drop 8 (nv_view fs3))))"
      using nv_memcpy_from_view [OF fs3(2), of 8 36] less3
      by (simp add: nv_read_startup_head_def NV_STARTUP_SIZE_def)
    moreover have "sh_magic (be_to_native_header_startup (take 36 (drop 8 (nv_view fs3)))) = 0"
      using zero less3 by (simp add: be_to_native_header_startup_def be16_at_def)
    ultimately show ?thesis
      by (simp add: fs_nvram_read_config_def FS_NVRAM_MAGIC_STARTUP_CONFIG_def)
  qed
  ultimately show ?thesis using create frame magic fs3(2) by (auto simp: nv_ready_def)
qed

text \<open>The lengths \<open>fs_nvram_open\<close> accepts.\<close>

definition nv_len_ok :: "u32 \<Rightarrow> nat \<Rightarrow> bool" where
  "nv_len_ok flags len \<longleftrightarrow> 0 < len \<and> FS_NVRAM_SECTOR_SIZE * nv_len_div flags dvd len"

lemma nv_len_div_pos: "0 < nv_len_div flags"
  by (simp add: nv_len_div_def)

lemma nv_init_base: "(nv_init b len addr flags)\<lparr>nv_base := b'\<rparr> = nv_init b' len addr flags"
  by (simp add: nv_init_def)

lemma nv_frame_init:
  assumes "nv_frame (nv_init b len addr flags) fs"
  shows "fs = nv_init (nv_base fs) len addr flags" "length (nv_base fs) = length b"
  using assms by (auto simp: nv_frame_def nv_init_base) (simp_all add: nv_init_def)

lemma nv_len_ok_test:
  "(len < NV_HEADER_SIZE * nv_len_div flags \<or> len mod (FS_NVRAM_SECTOR_SIZE * nv_len_div flags) \<noteq> 0)
     \<longleftrightarrow> \<not> nv_len_ok flags len"
proof -
  have "NV_HEADER_SIZE * nv_len_div flags \<le> len" if "0 < len" "FS_NVRAM_SECTOR_SIZE * nv_len_div flags dvd len"
  proof -
    have "FS_NVRAM_SECTOR_SIZE * nv_len_div flags \<le> len" using that by (rule dvd_imp_le [rotated])
    then show ?thesis by (simp add: FS_NVRAM_SECTOR_SIZE_def NV_HEADER_SIZE_def)
  qed
  moreover have "0 < NV_HEADER_SIZE * nv_len_div flags" using nv_len_div_pos by (simp add: NV_HEADER_SIZE_def)
  ultimately show ?thesis
    unfolding nv_len_ok_def dvd_eq_mod_eq_0 [symmetric] by (metis gr_zeroI leD not_less_zero linorder_not_le)
qed

lemma nv_init_wf:
  assumes "nv_len_ok flags len" "len \<le> length b" "length b < 2 ^ 32"
  shows "nv_wf False (nv_init b len addr flags)"
proof -
  from assms(1) obtain k where k: "len = FS_NVRAM_SECTOR_SIZE * nv_len_div flags * k" and "0 < k"
    by (metis dvdE gr_zeroI mult_0_right nat_less_le nv_len_ok_def)
  then have d: "len div nv_len_div flags = FS_NVRAM_SECTOR_SIZE * k"
    using nv_len_div_pos [of flags] by (simp add: ac_simps)
  have e: "FS_NVRAM_SECTOR_SIZE * k * nv_len_div flags \<le> length b"
    using assms(2) by (simp only: k ac_simps)
  show ?thesis
    unfolding nv_wf_def nv_init_def nv_with_backup_def d using assms(3) e \<open>0 < k\<close>
    by (simp add: nv_len_div_def FS_NVRAM_SECTOR_SIZE_def FS_NVRAM_NORMAL_FILESYSTEM_BLOCK1_def
        split: if_splits)
qed

lemma nv_open_result:
  assumes "len \<le> length b" "length b < 2 ^ 32"
  shows "fs_nvram_open (Some b) len addr flags =
    (if \<not> nv_len_ok flags len then Some (Inl NV_EINVAL)
     else let fs = nv_init b len addr flags in
       if be16_at (nv_view fs) 6 = FS_NVRAM_MAGIC_FILESYSTEM then Some (Inr fs)
       else if flags AND FS_NVRAM_FLAG_OPEN_CREATE = 0 then Some (Inl FS_NVRAM_ERR_NO_MAGIC)
       else map_option Inr (fs_nvram_create fs))"
proof (cases "nv_len_ok flags len")
  case True
  let ?fs = "nv_init b len addr flags"
  have wf: "nv_wf False ?fs" by (rule nv_init_wf [OF True assms])
  have "1024 \<le> nv_len ?fs"
    using wf by (auto simp: nv_wf_def FS_NVRAM_SECTOR_SIZE_def dest: dvd_imp_le)
  then have "fs_nvram_read16 ?fs 6 = Some (be16_at (nv_view ?fs) 6)"
    using nv_read16_view [OF wf, of 6] by simp
  with True show ?thesis unfolding fs_nvram_open_def option.case nv_len_ok_test Let_def by simp
next
  case False
  then show ?thesis unfolding fs_nvram_open_def option.case nv_len_ok_test by simp
qed

text \<open>A buffer longer than its configuration: only the first bytes count.\<close>

lemma memcpy_to_take:
  assumes "n \<le> length d" "n < 2 ^ 32"
  shows "fs_nvram_memcpy_to a d (of_nat n) fs = fs_nvram_memcpy_to a (take n d) (of_nat n) fs"
  using assms unat_u32_of_nat [OF assms(2)] by (simp add: fs_nvram_memcpy_to_def)

lemma write_config_take:
  assumes "sl \<le> length (nv_data so)" "pl \<le> length (nv_data po)" "nv_len fs < 2 ^ 32"
  shows "fs_nvram_write_config (Some fs) so sl po pl
       = fs_nvram_write_config (Some fs) (Some (take sl (nv_data so))) sl (Some (take pl (nv_data po))) pl"
proof (cases "nv_len fs < nv_needed fs sl pl")
  case True
  have "(so = None \<and> 0 < sl \<or> po = None \<and> 0 < pl) = False" using assms(1,2) by (cases so; cases po) (auto
      simp: nv_data_def)
  with True show ?thesis by (simp add: fs_nvram_write_config_def)
next
  case False
  then have s: "sl < 2 ^ 32" "pl < 2 ^ 32" using assms(3) by (simp_all add: nv_needed_sum)
  have n: "(so = None \<and> 0 < sl \<or> po = None \<and> 0 < pl) = False" using assms(1,2) by (cases so; cases po) (auto
      simp: nv_data_def)
  have st: "nv_store old (nv_data so) sl (nv_data po) pl fs
      = nv_store old (take sl (nv_data so)) sl (take pl (nv_data po)) pl fs" for old
    unfolding nv_store_def Let_def memcpy_to_take [OF assms(1) s(1)] memcpy_to_take [OF assms(2) s(2)] ..
  have d: "nv_data (Some x) = x" for x by (simp add: nv_data_def)
  show ?thesis unfolding fs_nvram_write_config_def option.case n d st by simp
qed


section \<open>Properties\<close>

text \<open>A kilobyte of zeros, opened with the default format and the flag that creates.\<close>

lemma nv_example_open:
  "\<exists>fs. fs_nvram_open (Some (replicate 1024 0)) 1024 0 FS_NVRAM_FLAG_OPEN_CREATE = Some (Inr fs)
        \<and> nv_ready True fs \<and> nv_addr_ok fs \<and> nv_needed fs 1 1 \<le> nv_len fs \<and> nv_len fs = 1024
        \<and> (\<forall>ui ws wp. fs_nvram_read_config ui (Some fs) ws wp = Some (Inr nv_no_config))"
proof -
  let ?b = "replicate 1024 (0 :: u8)"
  let ?fs = "nv_init ?b 1024 0 FS_NVRAM_FLAG_OPEN_CREATE"
  have flags: "FS_NVRAM_FLAG_OPEN_CREATE AND FS_NVRAM_FLAG_SCALE_4 = 0"
    "FS_NVRAM_FLAG_OPEN_CREATE AND FS_NVRAM_FLAG_WITH_BACKUP = 0"
    "FS_NVRAM_FLAG_OPEN_CREATE AND FS_NVRAM_FLAG_ALIGN_4_PAD_4 = 0"
    "FS_NVRAM_FLAG_OPEN_CREATE AND FS_NVRAM_FLAG_ADDR_ABSOLUTE = 0"
    by (simp_all add: FS_NVRAM_FLAG_OPEN_CREATE_def FS_NVRAM_FLAG_SCALE_4_def FS_NVRAM_FLAG_WITH_BACKUP_def
        FS_NVRAM_FLAG_ALIGN_4_PAD_4_def FS_NVRAM_FLAG_ADDR_ABSOLUTE_def)
  have ok: "nv_len_ok FS_NVRAM_FLAG_OPEN_CREATE 1024"
    by (simp add: nv_len_ok_def nv_len_div_def flags FS_NVRAM_SECTOR_SIZE_def)
  have init: "nv_len ?fs = 1024" "nv_padding ?fs = 8" "nv_flags ?fs = FS_NVRAM_FLAG_OPEN_CREATE"
    "nv_addr ?fs = 0" "nv_base ?fs = ?b" "nv_shift ?fs = 0"
    by (simp_all add: nv_init_def nv_len_div_def flags)
  have "nv_view ?fs ! i = 0" if "i < 1024" for i
    using that by (simp add: nv_view_def init nv_pos1_def nv_with_backup_def flags)
  then have magic: "be16_at (nv_view ?fs) 6 \<noteq> FS_NVRAM_MAGIC_FILESYSTEM"
    by (simp add: be16_at_def m_ntoh16_def FS_NVRAM_MAGIC_FILESYSTEM_def)
  have wf: "nv_wf False ?fs" by (rule nv_init_wf [OF ok]) simp_all
  from nv_create_ready [OF wf] obtain fs where
    fs: "fs_nvram_create ?fs = Some fs" "nv_ready True fs" "nv_frame ?fs fs"
      "\<forall>ui ws wp. fs_nvram_read_config ui (Some fs) ws wp = Some (Inr nv_no_config)" by blast
  have "FS_NVRAM_FLAG_OPEN_CREATE \<noteq> 0" by (simp add: FS_NVRAM_FLAG_OPEN_CREATE_def)
  then have "fs_nvram_open (Some ?b) 1024 0 FS_NVRAM_FLAG_OPEN_CREATE = Some (Inr fs)"
    using nv_open_result [of 1024 ?b 0 FS_NVRAM_FLAG_OPEN_CREATE] ok magic fs(1) by (simp add: Let_def)
  moreover have "nv_addr_ok fs"
    by (simp add: nv_addr_ok_def nv_frame_fields [OF fs(3)] init flags)
  moreover have "nv_needed fs 1 1 \<le> nv_len fs"
    unfolding nv_frame_image [OF fs(3)] nv_frame_fields [OF fs(3)] init nv_needed_sum
    by (simp add: nv_padding_for_def fs_nvram_padding_at_def init NV_HEADER_SIZE_def NV_STARTUP_SIZE_def
        unat_mod)
  ultimately show ?thesis using fs(2,4) nv_frame_fields(1) [OF fs(3)] init by auto
qed

text \<open>Opening. A length that is not a positive number of sectors (of four or two times their size for
  the scaled and the mirrored layouts) is refused; without the magic the file system is refused, or,
  when creation is asked for, made: it is then ready for writing, holds no configuration, and passes
  the verification of its backup.\<close>

theorem nvram_open_or_create:
  fixes b len addr flags
  assumes "len \<le> length b" "length b < 2 ^ 32"
  defines "magic \<equiv> be16_at (nv_view (nv_init b len addr flags)) 6 = FS_NVRAM_MAGIC_FILESYSTEM"
  shows "(fs_nvram_open (Some b) len addr flags = Some (Inl NV_EINVAL) \<longleftrightarrow> \<not> nv_len_ok flags len)
       \<and> (fs_nvram_open (Some b) len addr flags = Some (Inl FS_NVRAM_ERR_NO_MAGIC)
            \<longleftrightarrow> nv_len_ok flags len \<and> \<not> magic \<and> flags AND FS_NVRAM_FLAG_OPEN_CREATE = 0)
       \<and> (nv_len_ok flags len \<and> \<not> magic \<and> flags AND FS_NVRAM_FLAG_OPEN_CREATE \<noteq> 0 \<longrightarrow>
            (\<exists>fs. fs_nvram_open (Some b) len addr flags = Some (Inr fs) \<and> nv_ready True fs
               \<and> fs_nvram_verify (Some fs) FS_NVRAM_VERIFY_BACKUP = Some None
               \<and> (\<forall>ui ws wp. fs_nvram_read_config ui (Some fs) ws wp = Some (Inr nv_no_config))))"
proof (cases "nv_len_ok flags len")
  case True
  note open_eq = nv_open_result [OF assms(1,2), of addr flags, folded magic_def]
  from nv_create_ready [OF nv_init_wf [OF True assms(1,2), of addr]] obtain fc where
    fc: "fs_nvram_create (nv_init b len addr flags) = Some fc" "nv_ready True fc"
      "\<forall>ui ws wp. fs_nvram_read_config ui (Some fc) ws wp = Some (Inr nv_no_config)" by blast
  have "fs_nvram_verify (Some fc) FS_NVRAM_VERIFY_BACKUP = Some None"
  proof -
    have "nv_verify_backup fc [0..<nv_len fc] = Some None" if "nv_with_backup fc"
      using nv_verify_backup_result [OF _ that] fc(2) unfolding nv_ready_def nv_wf_def by auto
    then show ?thesis
      by (simp add: fs_nvram_verify_def FS_NVRAM_VERIFY_BACKUP_def FS_NVRAM_VERIFY_CONFIG_def)
  qed
  then show ?thesis
    using True fc unfolding open_eq magic_def [symmetric] Let_def by auto
next
  case False
  then show ?thesis by (simp add: nv_open_result [OF assms(1,2)])
qed

theorem nvram_open_or_create_witness:
  "fs_nvram_open (Some (replicate 1023 0)) 1023 0 FS_NVRAM_FLAG_OPEN_CREATE = Some (Inl NV_EINVAL)"
  using nvram_open_or_create [of 1023 "replicate 1023 0" 0 FS_NVRAM_FLAG_OPEN_CREATE]
  by (simp add: nv_len_ok_def nv_len_div_def FS_NVRAM_SECTOR_SIZE_def FS_NVRAM_FLAG_OPEN_CREATE_def
      FS_NVRAM_FLAG_SCALE_4_def FS_NVRAM_FLAG_WITH_BACKUP_def)



text \<open>C24: The verification accepts what the code writes: after a write into a file system whose two
  copies agree and whose addresses do not wrap, the copies agree and both headers are valid.\<close>

theorem nvram_write_verifies:
  assumes "nv_ready True fs" "nv_addr_ok fs"
    and "nv_needed fs (length (nv_data so)) (length (nv_data po)) \<le> nv_len fs"
  shows "\<exists>fs'. fs_nvram_write_config (Some fs) so (length (nv_data so)) po (length (nv_data po)) = Some (Inr
      fs')
               \<and> fs_nvram_verify (Some fs') (FS_NVRAM_VERIFY_BACKUP OR FS_NVRAM_VERIFY_CONFIG) = Some None"
proof -
  from assms(1) have r: "nv_wf True fs" "nv_old_content fs \<noteq> None" by (auto simp: nv_ready_def)
  from write_config_holds [OF r assms(3)] obtain fs' c where
    fs': "fs_nvram_write_config (Some fs) so (length (nv_data so)) po (length (nv_data po)) = Some (Inr fs')"
      "nv_wf True fs'" "nv_frame fs fs'" "nv_holds fs' (nv_data so) (nv_data po) c" by blast
  have ok: "nv_addr_ok fs'" using assms(2) unfolding nv_addr_ok_def nv_frame_fields [OF fs'(3)] .
  have "nv_verify_backup fs' [0..<nv_len fs'] = Some None" if "nv_with_backup fs'"
    using nv_verify_backup_result [OF fs'(2) that] fs'(2) by (simp add: nv_wf_def)
  then have "fs_nvram_verify (Some fs') (FS_NVRAM_VERIFY_BACKUP OR FS_NVRAM_VERIFY_CONFIG) = Some None"
    by (simp add: fs_nvram_verify_def FS_NVRAM_VERIFY_BACKUP_def FS_NVRAM_VERIFY_CONFIG_def
        holds_verify_config [OF fs'(4) ok])
  with fs'(1) show ?thesis by blast
qed

theorem nvram_write_verifies_witness:
  "\<exists>fs fs'. fs_nvram_open (Some (replicate 1024 0)) 1024 0 FS_NVRAM_FLAG_OPEN_CREATE = Some (Inr fs)
     \<and> fs_nvram_write_config (Some fs) (Some [65]) 1 (Some [66]) 1 = Some (Inr fs')
     \<and> fs_nvram_verify (Some fs') (FS_NVRAM_VERIFY_BACKUP OR FS_NVRAM_VERIFY_CONFIG) = Some None"
proof -
  from nv_example_open obtain fs where
    fs: "fs_nvram_open (Some (replicate 1024 0)) 1024 0 FS_NVRAM_FLAG_OPEN_CREATE = Some (Inr fs)"
      "nv_ready True fs" "nv_addr_ok fs" "nv_needed fs 1 1 \<le> nv_len fs" by blast
  from nvram_write_verifies [OF fs(2,3), of "Some [65]" "Some [66]"] fs show ?thesis
    by (auto simp: nv_data_def)
qed

section \<open>What the code does not check\<close>

text \<open>The length of the old startup configuration is read from the buffer and used as an offset without
  a test: a corrupt header makes the write read outside the buffer.\<close>

theorem nvram_corrupt_length_faults:
  assumes wf: "nv_wf M fs" and plain: "\<not> nv_with_backup fs" "nv_shift fs = 0"
    and magic: "be16_at (nv_view fs) 8 = FS_NVRAM_MAGIC_STARTUP_CONFIG"
    and l: "be32_at (nv_view fs) 24 = l" "length (nv_base fs) \<le> 8 + unat l" "unat l < 2 ^ 32 - 16"
    and fit: "nv_needed fs (length (nv_data so)) (length (nv_data po)) \<le> nv_len fs"
  shows "fs_nvram_write_config (Some fs) so (length (nv_data so)) po (length (nv_data po)) = None"
proof -
  have len: "1024 \<le> nv_len fs"
    using wf by (auto simp: nv_wf_def FS_NVRAM_SECTOR_SIZE_def dest: dvd_imp_le)
  have r: "fs_nvram_read16 fs 8 = Some FS_NVRAM_MAGIC_STARTUP_CONFIG" "fs_nvram_read32 fs 24 = Some l"
    using nv_read16_view [OF wf, of 8] nv_read32_view [OF wf, of 24] len magic l(1) by simp_all
  have out: "fs_nvram_read16 fs (of_nat k) = None" if "8 + unat l \<le> k" "k < 2 ^ 32" for k
  proof -
    have "unat (of_nat k :: u32) = k" by (rule unat_u32_of_nat [OF that(2)])
    then have "nv_read fs (of_nat k) = None"
      using plain l(2) that(1) by (simp add: nv_read_def fs_nvram_read_byte_def host_get_def)
    then show ?thesis by (simp add: fs_nvram_read16_def)
  qed
  define k where "k = (if (8 + unat l) mod 4 \<noteq> 0 then 8 + unat l + (8 - (8 + unat l) mod 4) else 8 + unat l)"
  define j where "j = (8 + unat l) mod 4"
  have j: "j < 4" by (simp add: j_def)
  have k: "k = (if j \<noteq> 0 then 8 + unat l + (8 - j) else 8 + unat l)" by (simp only: k_def j_def)
  have "8 + unat l \<le> k" using j unfolding k by (cases "j = 0") simp_all
  moreover have "k < 2 ^ 32" using l(3) j unfolding k by (cases "j = 0") simp_all
  ultimately have "fs_nvram_read16 fs (of_nat k) = None" by (rule out)
  then have "nv_old_content fs = None"
    unfolding nv_old_content_def r option.case Let_def NV_HEADER_SIZE_def k_def [symmetric] by simp
  then have "nv_old_length fs = None" by (simp add: nv_old_length_def)
  moreover have "\<not> (so = None \<and> 0 < length (nv_data so) \<or> po = None \<and> 0 < length (nv_data po))"
    by (cases so; cases po) (auto simp: nv_data_def)
  ultimately show ?thesis using fit unfolding fs_nvram_write_config_def by auto
qed

theorem nvram_corrupt_length_faults_witness:
  "\<exists>fs. nv_len fs = 1024 \<and> fs_nvram_write_config (Some fs) None 0 None 0 = None"
proof -
  define b :: "u8 list" where "b = (replicate 1024 0)[8 := 0xAB, 9 := 0xCD, 24 := 0x7F]"
  let ?fs = "nv_init b 1024 0 0"
  have init: "nv_len ?fs = 1024" "nv_padding ?fs = 8" "nv_flags ?fs = 0" "nv_base ?fs = b" "nv_shift ?fs = 0"
    "\<not> nv_with_backup ?fs"
    by (simp_all add: nv_init_def nv_len_div_def nv_with_backup_def)
  have wf: "nv_wf False ?fs"
    by (rule nv_init_wf) (simp_all add: nv_len_ok_def nv_len_div_def FS_NVRAM_SECTOR_SIZE_def b_def)
  have v: "nv_view ?fs ! i = b ! i" if "i < 1024" for i
    using that by (simp add: nv_view_def init nv_pos1_def)
  have b: "b ! 8 = 0xAB" "b ! 9 = 0xCD" "b ! 24 = 0x7F" "b ! 25 = 0" "b ! 26 = 0" "b ! 27 = 0"
    by (simp_all add: b_def)
  have "fs_nvram_write_config (Some ?fs) None (length (nv_data None)) None (length (nv_data None)) = None"
  proof (rule nvram_corrupt_length_faults [OF wf init(6,5)])
    show "be16_at (nv_view ?fs) 8 = FS_NVRAM_MAGIC_STARTUP_CONFIG"
      by (simp add: be16_at_def v b m_ntoh16_def FS_NVRAM_MAGIC_STARTUP_CONFIG_def)
    show "be32_at (nv_view ?fs) 24 = 0x7F000000"
      by (simp add: be32_at_def v b m_ntoh32_def)
    show "nv_needed ?fs (length (nv_data None)) (length (nv_data None)) \<le> nv_len ?fs"
      by (simp add: nv_needed_sum nv_padding_for_def fs_nvram_padding_at_def init nv_data_def
          NV_HEADER_SIZE_def NV_STARTUP_SIZE_def)
  qed (simp_all only: init, simp_all add: b_def)
  then show ?thesis using init(1) by (auto simp: nv_data_def)
qed

end
