(* ===== verification/LzcProps.thy ===== *)
theory LzcProps
  imports FsNvram
begin

text \<open>
  The decompressor of \<open>common/fs_nvram.c\<close>: on any input it ends, it never reads or writes outside its
  arrays, and each symbol extends the dictionary by the rule of the LZW code.
\<close>

section \<open>Strings of the dictionary\<close>

function lz_string :: "lz_state \<Rightarrow> nat \<Rightarrow> u8 list" where
  "lz_string st c =
     (if c < 256 then [of_nat c]
      else if unat (lz_parents st c) < c then lz_string st (unat (lz_parents st c)) @ [lz_suffixes st c]
      else [])"
  by pat_completeness auto
termination by (relation "measure snd") auto

declare lz_string.simps [simp del]

definition lz_tree :: "lz_state \<Rightarrow> nat \<Rightarrow> bool" where
  "lz_tree st n \<longleftrightarrow> (\<forall>c. 256 \<le> c \<and> c < n \<longrightarrow> unat (lz_parents st c) < c)"

lemma lz_walk_string:
  assumes "lz_tree st n" "c < n" "length acc + c < N" "n \<le> N"
  shows "lz_walk N st c acc = Some (lz_string st c @ acc)"
  using assms
proof (induction c arbitrary: acc rule: less_induct)
  case (less c)
  show ?case
  proof (cases "c < 256")
    case True
    with less.prems show ?thesis by (simp add: lz_walk.simps [of N st c] lz_string.simps [of st c])
  next
    case False
    with less.prems have p: "unat (lz_parents st c) < c" by (simp add: lz_tree_def)
    have "lz_walk N st (unat (lz_parents st c)) (lz_suffixes st c # acc)
        = Some (lz_string st (unat (lz_parents st c)) @ lz_suffixes st c # acc)"
      by (rule less.IH [OF p]) (use less.prems p in auto)
    with False p less.prems show ?thesis
      by (simp add: lz_walk.simps [of N st c] lz_string.simps [of st c])
  qed
qed

lemma lz_string_ne: "lz_tree st n \<Longrightarrow> c < n \<Longrightarrow> lz_string st c \<noteq> []"
  by (simp add: lz_string.simps [of st c] lz_tree_def)

lemma lz_string_length: "length (lz_string st c) \<le> c + 1"
proof (induction st c rule: lz_string.induct)
  case (1 st c)
  then show ?case by (auto simp: lz_string.simps [of st c])
qed

text \<open>A string depends on the entries up to its code only.\<close>

lemma lz_string_cong:
  assumes "\<And>d. d \<le> c \<Longrightarrow> 256 \<le> d \<Longrightarrow> lz_parents st d = lz_parents st' d \<and> lz_suffixes st d = lz_suffixes st' d"
  shows "lz_string st c = lz_string st' c"
  using assms
proof (induction c rule: less_induct)
  case (less c)
  then show ?case
    by (cases "c < 256") (auto simp: lz_string.simps [of st c] lz_string.simps [of st' c])
qed

section \<open>The invariant\<close>

definition lz_inv :: "nat \<Rightarrow> nat \<Rightarrow> u8 list \<Rightarrow> lz_state \<Rightarrow> bool" where
  "lz_inv maxbits out_len in_data st \<longleftrightarrow>
     9 \<le> lz_numBits st \<and> lz_numBits st \<le> maxbits \<and> maxbits \<le> 16
     \<and> 256 \<le> lz_head st \<and> lz_head st \<le> 2 ^ maxbits \<and> (lz_needPrev st \<longrightarrow> 257 \<le> lz_head st)
     \<and> lz_tree st (lz_head st) \<and> length (lz_out st) \<le> out_len
     \<and> lz_in_pos st \<le> length in_data \<and> lz_numBufBits st \<le> 8 * lz_numBits st"

text \<open>The bits not yet used: those left in the input and in the buffer.\<close>

definition lz_left :: "u8 list \<Rightarrow> lz_state \<Rightarrow> nat" where
  "lz_left in_data st = 8 * (length in_data - lz_in_pos st) + (lz_numBufBits st - lz_bitPos st)"

lemma lz_refill_inv:
  assumes "lz_inv maxbits out_len in_data st"
  shows "lz_inv maxbits out_len in_data (lz_refill in_data st)"
    and "lz_left in_data (lz_refill in_data st) = lz_left in_data st"
  using assms by (auto simp: lz_inv_def lz_left_def lz_refill_def lz_tree_def Let_def min_def)

lemma lz_emit_take: "lz_emit n out xs = out @ take (n - length out) xs"
proof (induction xs arbitrary: out)
  case (Cons b xs)
  show ?case
  proof (cases "length out < n")
    case True
    then obtain k where "n = length out + Suc k" by (auto dest: less_imp_Suc_add)
    with Cons [of "out @ [b]"] show ?thesis by simp
  qed simp
qed simp

lemma lz_tree_grow:
  assumes "lz_tree st n" "symbol < n" "n < 2 ^ 16" "256 \<le> n"
  shows "lz_tree (st\<lparr>lz_parents := (lz_parents st)(n := of_nat symbol)\<rparr>) (n + 1)"
  using assms by (auto simp: lz_tree_def unat_of_nat less_Suc_eq)

lemma lz_grow_inv:
  assumes "lz_inv maxbits out_len in_data st" "symbol < lz_head st" "lz_bitPos st \<le> lz_numBufBits st"
  shows "lz_inv maxbits out_len in_data (lz_grow maxbits (2 ^ maxbits) symbol st)"
    and "lz_left in_data (lz_grow maxbits (2 ^ maxbits) symbol st) \<le> lz_left in_data st"
proof -
  note inv = assms(1) [unfolded lz_inv_def]
  show "lz_left in_data (lz_grow maxbits (2 ^ maxbits) symbol st) \<le> lz_left in_data st"
    by (simp add: lz_left_def lz_grow_def Let_def)
  show "lz_inv maxbits out_len in_data (lz_grow maxbits (2 ^ maxbits) symbol st)"
  proof (cases "lz_head st < 2 ^ maxbits")
    case True
    have "(2 :: nat) ^ maxbits \<le> 2 ^ 16" using inv by (intro power_increasing) auto
    with True have "lz_head st < 2 ^ 16" by linarith
    then have "lz_tree (st\<lparr>lz_parents := (lz_parents st)(lz_head st := of_nat symbol)\<rparr>) (lz_head st + 1)"
      using inv assms(2) by (intro lz_tree_grow) auto
    with True inv show ?thesis by (auto simp: lz_inv_def lz_grow_def Let_def lz_tree_def)
  next
    case False
    with inv show ?thesis by (simp add: lz_inv_def lz_grow_def lz_tree_def)
  qed
qed

text \<open>Handling one symbol never faults.\<close>

lemma lz_put_symbol_more:
  assumes inv: "lz_inv maxbits out_len in_data st" and sym: "symbol < lz_head st"
    and bits: "lz_bitPos st \<le> lz_numBufBits st"
  shows "\<exists>st'. lz_put_symbol maxbits (2 ^ maxbits) out_len symbol st = LzMore st'
               \<and> lz_inv maxbits out_len in_data st' \<and> lz_left in_data st' \<le> lz_left in_data st"
proof -
  note I = inv [unfolded lz_inv_def]
  have walk: "lz_walk (2 ^ maxbits) st symbol [] = Some (lz_string st symbol)"
    using lz_walk_string [of st "lz_head st" symbol "[]" "2 ^ maxbits"] I sym by simp
  define cur where "cur = hd (lz_string st symbol)"
  define st1 where "st1 = (if lz_needPrev st
      then st\<lparr>lz_suffixes := (lz_suffixes st)(lz_head st - 1 := cur)\<rparr> else st)"
  define stack where "stack = (if lz_needPrev st \<and> symbol = lz_head st - 1
      then butlast (lz_string st symbol) @ [cur] else lz_string st symbol)"
  define st2 where "st2 = st1\<lparr>lz_out := lz_emit out_len (lz_out st) stack\<rparr>"
  have st1: "lz_out st1 = lz_out st" "lz_needPrev st1 = lz_needPrev st" "lz_head st1 = lz_head st"
    by (simp_all add: st1_def)
  have put: "lz_put_symbol maxbits (2 ^ maxbits) out_len symbol st
      = LzMore (lz_grow maxbits (2 ^ maxbits) symbol st2)"
    using I unfolding lz_put_symbol_def walk option.case Let_def
      cur_def [symmetric] st1_def [symmetric] st1 stack_def [symmetric] st2_def [symmetric] by simp
  have inv2: "lz_inv maxbits out_len in_data st2"
    using I by (auto simp: lz_inv_def st2_def st1_def lz_tree_def lz_emit_take)
  have same: "lz_head st2 = lz_head st" "lz_bitPos st2 = lz_bitPos st" "lz_numBufBits st2 = lz_numBufBits st"
    "lz_left in_data st2 = lz_left in_data st"
    by (simp_all add: st2_def st1_def lz_left_def)
  have "symbol < lz_head st2" "lz_bitPos st2 \<le> lz_numBufBits st2" using sym bits same by simp_all
  from lz_grow_inv [OF inv2 this] show ?thesis unfolding put same(4) by blast
qed

lemma lz_step_safe:
  assumes inv: "lz_inv maxbits out_len in_data st"
  shows "(\<exists>st'. lz_step blk maxbits (2 ^ maxbits) in_data out_len st = LzMore st'
                \<and> lz_inv maxbits out_len in_data st' \<and> lz_left in_data st' < lz_left in_data st)
         \<or> (\<exists>out. lz_step blk maxbits (2 ^ maxbits) in_data out_len st = LzOk out \<and> length out \<le> out_len)
         \<or> lz_step blk maxbits (2 ^ maxbits) in_data out_len st = LzErr NV_BAD_DATA"
proof -
  define r where "r = lz_refill in_data st"
  define symbol where "symbol = unat (lz_symbol r)"
  define st1 where "st1 = r\<lparr>lz_bitPos := lz_bitPos r + lz_numBits r\<rparr>"
  have r: "lz_inv maxbits out_len in_data r" "lz_left in_data r = lz_left in_data st"
    unfolding r_def by (rule lz_refill_inv [OF inv])+
  have step: "lz_step blk maxbits (2 ^ maxbits) in_data out_len st =
     (if lz_numBufBits st1 < lz_bitPos st1 then LzOk (lz_out st1)
      else if lz_head st1 \<le> symbol then LzErr NV_BAD_DATA
      else if blk \<and> symbol = 256 then
        LzMore (st1\<lparr>lz_numBufBits := 0, lz_bitPos := 0, lz_numBits := LZC_NUM_BITS_MIN,
                   lz_head := 257, lz_needPrev := False\<rparr>)
      else lz_put_symbol maxbits (2 ^ maxbits) out_len symbol st1)"
    unfolding lz_step_def Let_def r_def [symmetric] symbol_def [symmetric] st1_def [symmetric] by simp
  have inv1: "lz_inv maxbits out_len in_data st1" using r(1) by (simp add: st1_def lz_inv_def lz_tree_def)
  note I = inv1 [unfolded lz_inv_def]
  have left: "lz_left in_data st1 < lz_left in_data st" if "lz_bitPos st1 \<le> lz_numBufBits st1"
  proof -
    have "lz_bitPos r + lz_numBits r \<le> lz_numBufBits r" "9 \<le> lz_numBits r" using that I
        by (simp_all add: st1_def)
    then have "lz_left in_data st1 < lz_left in_data r"
      by (simp add: lz_left_def st1_def)
    then show ?thesis by (simp only: r(2))
  qed
  consider "lz_numBufBits st1 < lz_bitPos st1" | "lz_bitPos st1 \<le> lz_numBufBits st1" "lz_head st1 \<le> symbol"
    | "lz_bitPos st1 \<le> lz_numBufBits st1" "symbol < lz_head st1" "blk" "symbol = 256"
    | "lz_bitPos st1 \<le> lz_numBufBits st1" "symbol < lz_head st1" "\<not> (blk \<and> symbol = 256)"
    by linarith
  then show ?thesis
  proof cases
    case 1
    with I show ?thesis by (simp add: step)
  next
    case 2
    then show ?thesis by (simp add: step)
  next
    case 3
    let ?st = "st1\<lparr>lz_numBufBits := 0, lz_bitPos := 0, lz_numBits := LZC_NUM_BITS_MIN,
                  lz_head := 257, lz_needPrev := False\<rparr>"
    have "lz_inv maxbits out_len in_data ?st"
      using I 3 by (auto simp: lz_inv_def lz_tree_def LZC_NUM_BITS_MIN_def)
    moreover have "lz_left in_data ?st \<le> lz_left in_data st1" by (simp add: lz_left_def)
    moreover have "lz_step blk maxbits (2 ^ maxbits) in_data out_len st = LzMore ?st" unfolding step using 3
        by simp
    ultimately show ?thesis using left [OF 3(1)] le_less_trans by blast
  next
    case 4
    from lz_put_symbol_more [OF inv1 4(2,1)] obtain st' where
      st': "lz_put_symbol maxbits (2 ^ maxbits) out_len symbol st1 = LzMore st'"
        "lz_inv maxbits out_len in_data st'" "lz_left in_data st' \<le> lz_left in_data st1" by blast
    have "lz_step blk maxbits (2 ^ maxbits) in_data out_len st = LzMore st'" using 4 st'(1) by (auto simp: step)
    with st'(2,3) left [OF 4(1)] show ?thesis by simp
  qed
qed

lemma lz_loop_ends:
  assumes "lz_inv maxbits out_len in_data st" "lz_left in_data st < n"
  shows "(\<exists>out. lz_loop n (lz_step blk maxbits (2 ^ maxbits) in_data out_len) st = LzOk out \<and>
      length out \<le> out_len)
         \<or> lz_loop n (lz_step blk maxbits (2 ^ maxbits) in_data out_len) st = LzErr NV_BAD_DATA"
  using assms
proof (induction n arbitrary: st)
  case (Suc n)
  from lz_step_safe [OF Suc.prems(1), of blk] show ?case
  proof (elim disjE exE conjE)
    fix st'
    assume "lz_step blk maxbits (2 ^ maxbits) in_data out_len st = LzMore st'"
      "lz_inv maxbits out_len in_data st'" "lz_left in_data st' < lz_left in_data st"
    with Suc.IH [of st'] Suc.prems(2) show ?thesis by simp
  qed simp_all
qed simp

lemma lz_init_inv:
  assumes "9 \<le> maxbits" "maxbits \<le> 16" "3 \<le> length in_data"
  shows "lz_inv maxbits out_len in_data (lz_init ui blk)"
proof -
  have "(2 :: nat) ^ 9 \<le> 2 ^ maxbits" using assms(1) by (intro power_increasing) auto
  then show ?thesis using assms by (auto simp: lz_inv_def lz_init_def lz_tree_def LZC_NUM_BITS_MIN_def)
qed


section \<open>Properties of the decompressor\<close>


text \<open>C27: The rule of the code. In a state the decompressor can reach, with \<open>q\<close> the previous symbol, the
  symbol \<open>c\<close> stands for its string, or for the previous string followed by its own first byte when \<open>c\<close>
  is the entry under construction; that string goes to the output as far as it fits, and the entry
  under construction becomes the previous string followed by the first byte of this one.\<close>

theorem lzc_symbol_rule:
  assumes inv: "lz_inv maxbits out_len in_data st" and sym: "c < lz_head st"
    and bits: "lz_bitPos st \<le> lz_numBufBits st"
    and prev: "lz_needPrev st" and q: "q = unat (lz_parents st (lz_head st - 1))"
  defines "w \<equiv> (if c = lz_head st - 1 then lz_string st q @ [hd (lz_string st q)] else lz_string st c)"
  shows "\<exists>st'. lz_put_symbol maxbits (2 ^ maxbits) out_len c st = LzMore st'
           \<and> lz_out st' = lz_out st @ take (out_len - length (lz_out st)) w
           \<and> lz_string st' (lz_head st - 1) = lz_string st q @ [hd w]
           \<and> (\<forall>d. d < lz_head st - 1 \<longrightarrow> lz_string st' d = lz_string st d)"
proof -
  note I = inv [unfolded lz_inv_def]
  let ?h = "lz_head st"
  have h: "257 \<le> ?h" using I prev by simp
  have walk: "lz_walk (2 ^ maxbits) st c [] = Some (lz_string st c)"
    using lz_walk_string [of st ?h c "[]" "2 ^ maxbits"] I sym by simp
  have n: "\<not> ?h - 1 < 256" using h by simp
  have qlt: "q < ?h - 1" using I h by (simp add: lz_tree_def q)
  have last: "lz_string st (?h - 1) = lz_string st q @ [lz_suffixes st (?h - 1)]"
    using n qlt by (simp add: lz_string.simps [of st "?h - 1"] q del: One_nat_def)
  have ne: "lz_string st q \<noteq> []" using lz_string_ne [of st ?h q] I qlt by simp
  define cur where "cur = hd (lz_string st c)"
  have w: "hd w = cur" unfolding w_def cur_def using ne last by auto
  define stack where "stack = (if lz_needPrev st \<and> c = ?h - 1 then butlast (lz_string st c) @ [cur]
      else lz_string st c)"
  have stack: "stack = w" unfolding stack_def w_def cur_def using prev last ne by auto
  define st1 where "st1 = (if lz_needPrev st then st\<lparr>lz_suffixes := (lz_suffixes st)(?h - 1 := cur)\<rparr> else st)"
  define st2 where "st2 = st1\<lparr>lz_out := lz_emit out_len (lz_out st) stack\<rparr>"
  have st1: "lz_out st1 = lz_out st" "lz_needPrev st1 = lz_needPrev st" "lz_head st1 = ?h"
    by (simp_all add: st1_def)
  have put: "lz_put_symbol maxbits (2 ^ maxbits) out_len c st = LzMore (lz_grow maxbits (2 ^ maxbits) c st2)"
    using I unfolding lz_put_symbol_def walk option.case Let_def
      cur_def [symmetric] st1_def [symmetric] st1 stack_def [symmetric] st2_def [symmetric] by simp
  let ?st = "lz_grow maxbits (2 ^ maxbits) c st2"
  have out: "lz_out ?st = lz_out st @ take (out_len - length (lz_out st)) w"
    by (simp add: lz_grow_def Let_def st2_def lz_emit_take stack)
  have par: "lz_parents ?st d = lz_parents st d" if "d < ?h" for d
    using that by (simp add: lz_grow_def Let_def st2_def st1_def)
  have suf: "lz_suffixes ?st d = (if d = ?h - 1 then cur else lz_suffixes st d)" for d
    using prev by (simp add: lz_grow_def Let_def st2_def st1_def)
  have old: "lz_string ?st d = lz_string st d" if "d < ?h - 1" for d
    by (rule lz_string_cong) (use that par suf in auto)
  have "lz_string ?st (?h - 1) = lz_string ?st q @ [cur]"
    using n qlt by (simp add: lz_string.simps [of ?st "?h - 1"] par suf q del: One_nat_def)
  with old qlt w have "lz_string ?st (?h - 1) = lz_string st q @ [hd w]" by simp
  with put out old show ?thesis by blast
qed


text \<open>The state after the symbol \<open>65\<close> of a stream of nine-bit symbols; the next symbol is the entry under
  construction.\<close>

definition lz_example :: lz_state where
  "lz_example = \<lparr> lz_parents = (\<lambda>_. 0)(257 := 65), lz_suffixes = (\<lambda>_. 0), lz_buf = (\<lambda>_. 0), lz_in_pos = 12,
     lz_out = [65], lz_numBits = 9, lz_head = 258, lz_needPrev = True, lz_bitPos = 9, lz_numBufBits = 72 \<rparr>"

theorem lzc_symbol_rule_witness:
  "\<exists>st'. lz_put_symbol 12 (2 ^ 12) 100 257 lz_example = LzMore st' \<and> lz_out st' = [65, 65, 65]
     \<and> lz_string st' 257 = [65, 65]"
proof -
  have 65: "lz_string lz_example 65 = [65]" by (simp add: lz_string.simps [of lz_example 65])
  have inv: "lz_inv 12 100 (replicate 12 0) lz_example"
    by (auto simp: lz_inv_def lz_example_def lz_tree_def)
  have "\<exists>st'. lz_put_symbol 12 (2 ^ 12) 100 257 lz_example = LzMore st'
      \<and> lz_out st' = lz_out lz_example @ take (100 - length (lz_out lz_example))
          (if (257 :: nat) = lz_head lz_example - 1
              then lz_string lz_example 65 @ [hd (lz_string lz_example 65)]
           else lz_string lz_example 257)
      \<and> lz_string st' (lz_head lz_example - 1)
          = lz_string lz_example 65 @ [hd (if (257 :: nat) = lz_head lz_example - 1
              then lz_string lz_example 65 @ [hd (lz_string lz_example 65)] else lz_string lz_example 257)]
      \<and> (\<forall>d. d < lz_head lz_example - 1 \<longrightarrow> lz_string st' d = lz_string lz_example d)"
    by (rule lzc_symbol_rule [OF inv]) (simp_all add: lz_example_def)
  moreover have "lz_head lz_example - 1 = 257" "lz_out lz_example = [65]" by (simp_all add: lz_example_def)
  ultimately show ?thesis by (auto simp: 65)
qed

end
