(* ===== verification/DevNvram.thy ===== *)
theory DevNvram
  imports FsNvramConfig
begin

text \<open>
  The NVRAM device and the configuration files, \<open>common/dev_nvram.c\<close>: the calendar chip behind one byte
  of the NVRAM, the configuration register of an empty NVRAM, and reading and replacing the
  configurations in the file that holds the NVRAM. The host clock is a parameter, as is the mapped
  file: opening it is given by its bytes, or by \<open>None\<close> when it cannot be opened.
\<close>

section \<open>The calendar\<close>

definition u8_to_bcd :: "u8 \<Rightarrow> u8" where
  "u8_to_bcd val = push_bit 4 (val div 10) + val mod 10"

record calendar_time =
  tm_sec :: u8
  tm_min :: u8
  tm_hour :: u8
  tm_wday :: u8
  tm_mday :: u8
  tm_mon :: u8
  tm_year :: u8

definition get_current_time :: "calendar_time \<Rightarrow> u64" where
  "get_current_time t =
     push_bit 8 (ucast (u8_to_bcd (tm_sec t))) + push_bit 16 (ucast (u8_to_bcd (tm_min t)))
     + push_bit 24 (ucast (u8_to_bcd (tm_hour t))) + push_bit 32 (ucast (u8_to_bcd (tm_wday t)))
     + push_bit 40 (ucast (u8_to_bcd (tm_mday t))) + push_bit 48 (ucast (u8_to_bcd (tm_mon t + 1)))
     + push_bit 56 (ucast (u8_to_bcd (tm_year t)))"

definition NVRAM_PATTERN :: u64 where "NVRAM_PATTERN = 0x5ca33ac55ca33ac5"

record nvram_data =
  cal_state :: u32
  cal_read :: u64
  cal_write :: u64

definition nvram_calendar_write :: "calendar_time \<Rightarrow> u64 \<Rightarrow> nvram_data \<Rightarrow> nvram_data" where
  "nvram_calendar_write now data d =
     (let d = d\<lparr>cal_write := drop_bit 1 (cal_write d) OR push_bit 63 data\<rparr> in
      if cal_write d = NVRAM_PATTERN then d\<lparr>cal_state := 1, cal_read := get_current_time now\<rparr>
      else if cal_state d > 0 then
        (if cal_state d = 64 then d\<lparr>cal_state := 0\<rparr> else d\<lparr>cal_state := cal_state d + 1\<rparr>)
      else d)"

text \<open>The access: \<open>None\<close> as the first component is the null pointer the handler returns when it has done
  the access itself, otherwise the offset in the memory of the device.\<close>

definition dev_nvram_access ::
  "calendar_time \<Rightarrow> u32 \<Rightarrow> bool \<Rightarrow> u64 \<Rightarrow> nvram_data \<Rightarrow> u32 option \<times> u64 \<times> nvram_data" where
  "dev_nvram_access now offset is_read data d =
     (if offset = 3 then
        if is_read then (None, cal_read d AND 1, d\<lparr>cal_read := drop_bit 1 (cal_read d)\<rparr>)
        else (None, data, nvram_calendar_write now data d)
      else (Some offset, data, d))"

text \<open>The words of the device memory; an empty NVRAM sets bit 6 of the configuration register.\<close>

fun set_config_register :: "u32 list \<Rightarrow> u32 \<Rightarrow> u32" where
  "set_config_register [] conf_reg = conf_reg OR 0x0040"
| "set_config_register (w # ws) conf_reg = (if w \<noteq> 0 then conf_reg else set_config_register ws conf_reg)"

text \<open>The old checksum, over guest memory read by \<open>physmem_copy_u16_from_vm\<close>.\<close>

fun nvram_sum_old :: "(u64 \<Rightarrow> u16) \<Rightarrow> u64 \<Rightarrow> nat \<Rightarrow> u32 \<Rightarrow> u32" where
  "nvram_sum_old rd addr (Suc (Suc n)) acc = nvram_sum_old rd (addr + 2) n (acc + ucast (rd addr))"
| "nvram_sum_old rd addr (Suc 0) acc = acc + push_bit 8 (ucast (rd addr) AND 0xFF)"
| "nvram_sum_old rd addr 0 acc = acc"

definition nvram_cksum_old :: "(u64 \<Rightarrow> u16) \<Rightarrow> u64 \<Rightarrow> nat \<Rightarrow> u16" where
  "nvram_cksum_old rd addr count = ucast (NOT (nv_fold (nvram_sum_old rd addr count 0)))"

section \<open>Configuration files\<close>

definition nvram_size_for :: "nat \<Rightarrow> nat \<Rightarrow> nat \<Rightarrow> nat" where
  "nvram_size_for file_size offset fsize =
     (if fsize = 0 \<and> offset + FS_NVRAM_SECTOR_SIZE \<le> file_size then file_size - offset else fsize)"

text \<open>The result is the return value with the configurations on success; the outer option is undefined
  behaviour. When the file is too small the function prints an error and still returns 0.\<close>

definition generic_nvram_extract_config ::
  "uninit \<Rightarrow> u8 list option \<Rightarrow> nat \<Rightarrow> nat \<Rightarrow> u32 \<Rightarrow> u32 \<Rightarrow> bool \<Rightarrow> bool \<Rightarrow> (int \<times> nv_config option) option" where
  "generic_nvram_extract_config ui file nvram_offset nvram_size addr format ws wp =
     (case file of None \<Rightarrow> Some (- 1, None)
      | Some base \<Rightarrow>
          let fsize = nvram_size_for (length base) nvram_offset nvram_size in
          if length base < nvram_offset + fsize then Some (0, None)
          else (case fs_nvram_open (Some (drop nvram_offset base)) fsize addr (format AND
              FS_NVRAM_FORMAT_MASK) of
                  None \<Rightarrow> None
                | Some (Inl e) \<Rightarrow> Some (- 1, None)
                | Some (Inr fs) \<Rightarrow>
                    (case fs_nvram_read_config ui (Some fs) ws wp of
                       None \<Rightarrow> None
                     | Some (Inl e) \<Rightarrow> Some (- 1, None)
                     | Some (Inr c) \<Rightarrow> Some (0, Some c))))"

text \<open>\<open>file\<close> is the file after \<open>vm_mmap_create_file\<close>, which makes it \<open>file_size\<close> bytes long.\<close>

definition generic_nvram_push_config ::
  "uninit \<Rightarrow> u8 list option \<Rightarrow> nat \<Rightarrow> nat \<Rightarrow> nat \<Rightarrow> u32 \<Rightarrow> u32 \<Rightarrow> u8 list option \<Rightarrow> nat
     \<Rightarrow> u8 list option \<Rightarrow> nat \<Rightarrow> (int \<times> u8 list option) option" where
  "generic_nvram_push_config ui file file_size nvram_offset nvram_size addr format startup slen priv plen =
     (let fsize = nvram_size_for file_size nvram_offset nvram_size in
      if file_size < nvram_offset + fsize then Some (- 1, file)
      else (case file of None \<Rightarrow> Some (- 1, None)
        | Some base \<Rightarrow>
            (case fs_nvram_open (Some (drop nvram_offset base)) fsize addr
                    (format AND FS_NVRAM_FORMAT_MASK OR FS_NVRAM_FLAG_OPEN_CREATE) of
               None \<Rightarrow> None
             | Some (Inl e) \<Rightarrow> Some (- 1, Some base)
             | Some (Inr fs) \<Rightarrow>
                 (case fs_nvram_read_config ui (Some fs) True True of
                    None \<Rightarrow> None
                  | Some (Inl e) \<Rightarrow> Some (- 1, Some (take nvram_offset base @ nv_base fs))
                  | Some (Inr c) \<Rightarrow>
                      (case fs_nvram_write_config (Some fs)
                              (if startup = None then rc_startup c else startup)
                              (if startup = None then rc_startup_len c else slen)
                              (if priv = None then rc_private c else priv)
                              (if priv = None then rc_private_len c else plen) of
                         None \<Rightarrow> None
                       | Some (Inl e) \<Rightarrow> Some (- 1, Some (take nvram_offset base @ nv_base fs))
                       | Some (Inr fs') \<Rightarrow> Some (0, Some (take nvram_offset base @ nv_base fs')))))))"

section \<open>Properties\<close>

text \<open>Sixty-four writes shift the written bits into the register, least significant first.\<close>

definition calendar_send :: "calendar_time \<Rightarrow> u64 \<Rightarrow> nat \<Rightarrow> nvram_data \<Rightarrow> nvram_data" where
  "calendar_send now w i d = snd (snd (dev_nvram_access now 3 False (of_bool (bit w i)) d))"

fun calendar_receive :: "calendar_time \<Rightarrow> nat \<Rightarrow> nvram_data \<Rightarrow> u64 list" where
  "calendar_receive now 0 d = []"
| "calendar_receive now (Suc n) d =
     (case dev_nvram_access now 3 True 0 d of (_, v, d') \<Rightarrow> v # calendar_receive now n d')"

lemma calendar_write_reg:
  "cal_write (nvram_calendar_write now data d) = drop_bit 1 (cal_write d) OR push_bit 63 data"
  by (simp add: nvram_calendar_write_def Let_def)

lemma calendar_write_pattern:
  "cal_write (nvram_calendar_write now data d) = NVRAM_PATTERN
     \<Longrightarrow> cal_read (nvram_calendar_write now data d) = get_current_time now"
  by (simp add: nvram_calendar_write_def Let_def split: if_splits)

lemma calendar_send_write: "calendar_send now w i d = nvram_calendar_write now (of_bool (bit w i)) d"
  by (simp add: calendar_send_def dev_nvram_access_def)

lemma calendar_send_reg:
  assumes "k \<le> 64"
  shows "cal_write (fold (calendar_send now w) [0..<k] d) =
         drop_bit k (cal_write d) OR push_bit (64 - k) (take_bit k w)"
  using assms
proof (induction k)
  case (Suc k)
  let ?r = "cal_write (fold (calendar_send now w) [0..<k] d)"
  have "cal_write (fold (calendar_send now w) [0..<Suc k] d) = drop_bit 1 ?r OR push_bit 63 (of_bool (bit w k))"
    by (simp add: calendar_send_def dev_nvram_access_def calendar_write_reg)
  also have "\<dots> = drop_bit (Suc k) (cal_write d) OR push_bit (64 - Suc k) (take_bit (Suc k) w)"
  proof (rule bit_word_eqI)
    fix n assume "n < LENGTH(64)"
    with Suc show "bit (drop_bit 1 ?r OR push_bit 63 (of_bool (bit w k))) n
        = bit (drop_bit (Suc k) (cal_write d) OR push_bit (64 - Suc k) (take_bit (Suc k) w)) n"
      by (cases "n = 63") (auto simp: bit_simps not_le le_less_Suc_eq)
  qed
  finally show ?case .
qed simp

lemma calendar_receive_bits:
  "calendar_receive now n d = map (\<lambda>i. of_bool (bit (cal_read d) i)) [0..<n]"
proof (induction n arbitrary: d)
  case (Suc n)
  have "cal_read d AND 1 = of_bool (bit (cal_read d) 0)"
    by (rule bit_word_eqI) (auto simp: bit_simps)
  then show ?case
    by (simp add: dev_nvram_access_def Suc upt_conv_Cons map_Suc_upt [symmetric] bit_simps del: upt_Suc)
qed simp

text \<open>The calendar protocol. After the sixty-four bits of the pattern have been written, least
  significant first, sixty-four reads return the bits of the current time in the same order, whatever
  the state before.\<close>

theorem calendar_protocol:
  "calendar_receive later 64 (fold (calendar_send now NVRAM_PATTERN) [0..<64] d)
     = map (\<lambda>i. of_bool (bit (get_current_time now) i)) [0..<64]"
proof -
  let ?d = "fold (calendar_send now NVRAM_PATTERN) [0..<63] d"
  have last: "fold (calendar_send now NVRAM_PATTERN) [0..<64] d = calendar_send now NVRAM_PATTERN 63 ?d"
    using upt_Suc_append [of 0 63] by simp
  have "cal_write (fold (calendar_send now NVRAM_PATTERN) [0..<64] d) = NVRAM_PATTERN"
    by (simp add: calendar_send_reg take_bit_word_eq_self)
  then have "cal_read (calendar_send now NVRAM_PATTERN 63 ?d) = get_current_time now"
    unfolding last calendar_send_write by (rule calendar_write_pattern)
  then show ?thesis by (simp only: calendar_receive_bits last)
qed


text \<open>The flag that asks for creation is not a flag of the format.\<close>

lemma create_flag_and:
  fixes f :: u32
  shows "(f OR FS_NVRAM_FLAG_OPEN_CREATE) AND FS_NVRAM_FLAG_SCALE_4 = f AND FS_NVRAM_FLAG_SCALE_4"
    "(f OR FS_NVRAM_FLAG_OPEN_CREATE) AND FS_NVRAM_FLAG_WITH_BACKUP = f AND FS_NVRAM_FLAG_WITH_BACKUP"
    "(f OR FS_NVRAM_FLAG_OPEN_CREATE) AND FS_NVRAM_FLAG_ALIGN_4_PAD_4 = f AND FS_NVRAM_FLAG_ALIGN_4_PAD_4"
    "(f OR FS_NVRAM_FLAG_OPEN_CREATE) AND FS_NVRAM_FLAG_ADDR_ABSOLUTE = f AND FS_NVRAM_FLAG_ADDR_ABSOLUTE"
    "(f OR FS_NVRAM_FLAG_OPEN_CREATE) AND FS_NVRAM_FLAGS_UNK1_0C01 = f AND FS_NVRAM_FLAGS_UNK1_0C01"
    "(f OR FS_NVRAM_FLAG_OPEN_CREATE) AND FS_NVRAM_FLAGS_UNK1_0C03 = f AND FS_NVRAM_FLAGS_UNK1_0C03"
  by (simp_all add: word_ao_dist FS_NVRAM_FLAG_OPEN_CREATE_def FS_NVRAM_FLAG_SCALE_4_def
      FS_NVRAM_FLAG_WITH_BACKUP_def FS_NVRAM_FLAG_ALIGN_4_PAD_4_def FS_NVRAM_FLAG_ADDR_ABSOLUTE_def
      FS_NVRAM_FLAGS_UNK1_0C01_def FS_NVRAM_FLAGS_UNK1_0C03_def)

lemma create_flag_init:
  "nv_init b len addr (f OR FS_NVRAM_FLAG_OPEN_CREATE)
     = (nv_init b len addr f)\<lparr>nv_flags := f OR FS_NVRAM_FLAG_OPEN_CREATE\<rparr>"
  by (simp add: nv_init_def nv_len_div_def create_flag_and)

lemma create_flag_holds:
  fixes b :: "u8 list" and len addr f
  defines "fs \<equiv> nv_init b len addr f" and "fc \<equiv> nv_init b len addr (f OR FS_NVRAM_FLAG_OPEN_CREATE)"
  shows "nv_holds fc s p c \<longleftrightarrow> nv_holds fs s p c" and "nv_view fc = nv_view fs" and "nv_len fc = nv_len fs"
    and "nv_needed fc = nv_needed fs"
proof -
  have fc: "fc = fs\<lparr>nv_flags := f OR FS_NVRAM_FLAG_OPEN_CREATE\<rparr>" and f: "nv_flags fs = f"
    unfolding fc_def fs_def by (rule create_flag_init, simp add: nv_init_def)
  have wb: "nv_with_backup fc = nv_with_backup fs" by (simp add: fc f nv_with_backup_def create_flag_and)
  have pos: "nv_pos1 fc = nv_pos1 fs" "nv_pos2 fc = nv_pos2 fs"
    by (simp_all add: fun_eq_iff nv_pos1_def nv_pos2_def wb) (simp_all add: fc)
  show view: "nv_view fc = nv_view fs" by (simp add: nv_view_def pos) (simp add: fc)
  show len: "nv_len fc = nv_len fs" by (simp add: fc)
  have wf: "nv_wf False fc = nv_wf False fs" by (simp add: nv_wf_def wb) (simp add: fc)
  have pad: "nv_padding_for fc = nv_padding_for fs"
    by (simp add: fun_eq_iff nv_padding_for_def fs_nvram_padding_at_def) (simp add: fc)
  show need: "nv_needed fc = nv_needed fs" by (simp add: fun_eq_iff nv_needed_def pad)
  have "nv_startup_head_for fc = nv_startup_head_for fs"
    by (simp add: fun_eq_iff fc f nv_startup_head_for_def nv_unk1_def fs_nvram_address_of_def create_flag_and)
  then have "nv_image fc = nv_image fs"
    by (simp add: fun_eq_iff nv_image_def nv_private_head_for_def pad)
  then show "nv_holds fc s p c \<longleftrightarrow> nv_holds fs s p c" by (simp add: nv_holds_def wf need len view)
qed


lemma nv_open_Inr:
  assumes "fs_nvram_open (Some b) len addr flags = Some (Inr fs)" "len \<le> length b" "length b < 2 ^ 32"
  shows "nv_wf False fs" "nv_frame (nv_init b len addr flags) fs"
    "be16_at (nv_view fs) 6 = FS_NVRAM_MAGIC_FILESYSTEM" "nv_len_ok flags len"
proof -
  let ?fs = "nv_init b len addr flags"
  show ok: "nv_len_ok flags len" using assms by (auto simp: nv_open_result split: if_splits)
  have wf: "nv_wf False ?fs" by (rule nv_init_wf [OF ok assms(2,3)])
  from nv_create_ready [OF wf] obtain fc where fc: "fs_nvram_create ?fs = Some fc" "nv_ready True fc"
      "nv_frame ?fs fc"
    by blast
  have "fs = ?fs \<and> be16_at (nv_view ?fs) 6 = FS_NVRAM_MAGIC_FILESYSTEM \<or> fs = fc"
    using assms(1) ok fc(1) by (auto simp: nv_open_result [OF assms(2,3)] Let_def split: if_splits)
  then have "nv_wf False fs \<and> nv_frame ?fs fs \<and> be16_at (nv_view fs) 6 = FS_NVRAM_MAGIC_FILESYSTEM"
    using wf fc(2,3) nv.frame_refl by (auto simp: nv_ready_def nv_wf_weaken)
  then show "nv_wf False fs" "nv_frame ?fs fs" "be16_at (nv_view fs) 6 = FS_NVRAM_MAGIC_FILESYSTEM" by simp_all
qed

text \<open>What \<open>fs_nvram_read_config\<close> returns has the length it reports.\<close>

lemma read_bytes_length: "read_bytes rd s a n = Some b \<Longrightarrow> length b = n"
  by (induction n arbitrary: a b) (auto split: option.splits)

lemma read_data_length: "fs_nvram_read_data fs a n = Some b \<Longrightarrow> unat n \<le> length b"
  by (auto simp: fs_nvram_read_data_def fs_nvram_memcpy_from_def split: if_splits dest: read_bytes_length)

lemma read_lzc_length: "nv_read_lzc ui fs h = Some (Inr b) \<Longrightarrow> unat (sh_uncompressed_len h) \<le> length b"
  by (auto simp: nv_read_lzc_def split: option.splits if_splits lz_result.splits)

lemma read_startup_length:
  assumes "nv_read_startup ui fs True h = Some (Inr (s, n))"
  shows "n \<le> length (nv_data s)"
proof (cases "nv_read_lzc ui fs h")
  case None
  with assms show ?thesis
    by (auto simp: nv_read_startup_def nv_data_def split: if_splits dest: read_data_length)
next
  case (Some r)
  with assms show ?thesis
    by (cases r) (auto simp: nv_read_startup_def nv_data_def split: if_splits
        dest: read_data_length read_lzc_length)
qed

lemma read_private_length:
  "nv_read_private fs True h = Some (Inr (s, n)) \<Longrightarrow> n \<le> length (nv_data s)"
  by (auto simp: nv_read_private_def nv_data_def split: if_splits dest: read_data_length)

lemma read_config_lengths:
  assumes "fs_nvram_read_config ui (Some fs) True True = Some (Inr c)"
  shows "rc_startup_len c \<le> length (nv_data (rc_startup c))" "rc_private_len c \<le> length (nv_data (rc_private
      c))"
proof -
  have "c = nv_no_config \<or>
    (\<exists>sh ph. nv_read_startup ui fs True sh = Some (Inr (rc_startup c, rc_startup_len c))
           \<and> nv_read_private fs True ph = Some (Inr (rc_private c, rc_private_len c)))"
    using assms
    by (auto simp: fs_nvram_read_config_def Let_def split: option.splits if_splits sum.splits) blast+
  then show "rc_startup_len c \<le> length (nv_data (rc_startup c))" "rc_private_len c \<le> length (nv_data
      (rc_private c))"
    using read_startup_length read_private_length by (auto simp: nv_no_config_def)
qed

text \<open>The configuration a push leaves: the new one, or what was there when none is given.\<close>

definition pushed :: "u8 list option \<Rightarrow> nat \<Rightarrow> u8 list option \<Rightarrow> nat \<Rightarrow> u8 list" where
  "pushed given len prev prev_len =
     (if given = None then take prev_len (nv_data prev) else take len (nv_data given))"



end
