(* ===== verification/Ppc32Cpu.thy ===== *)
theory Ppc32Cpu
  imports Memory
begin

text \<open>
  The 32-bit PowerPC CPU of \<open>stable/ppc32.h\<close> and \<open>stable/ppc32.c\<close>: its state, the condition
  register, reset, exceptions and interrupts, breakpoints and the timer thread, with the
  invalidation of the MTS caches from \<open>stable/ppc32_mem.c\<close>, which reset performs.

  The record \<open>cpu_ppc\<close> has the fields of \<open>struct cpu_ppc\<close> that the interpreter uses. Arrays are
  functions from the index; \<open>bat c t i r\<close> is \<open>bat[t][i].reg[r]\<close> and \<open>mts_cache c cid b\<close> the entry
  \<open>b\<close> of the instruction (\<open>cid\<close> = 0) or data (\<open>cid\<close> = 1) cache. Of the function pointers only
  \<open>mts_slow_lookup\<close> ever has two values, which \<open>slow_lookup_405\<close> tells apart. \<open>cpu_state\<close>,
  \<open>idle_count\<close> and \<open>idle_max\<close> are fields of the generic CPU \<open>gen\<close>. Allocation of the caches does
  not fail here. Without the JIT the list of translated pages is empty and its flush does nothing.
\<close>

section \<open>State\<close>

record ppc405_tlb_entry =
  tlb_hi :: u32
  tlb_lo :: u32
  tid :: u32

record cpu_ppc =
  ia :: u32
  gpr :: "nat \<Rightarrow> u32"
  irq_pending :: u32
  irq_check :: u32
  xer :: u32
  lr :: u32
  ctr :: u32
  reserve :: u32
  xer_ca :: u32
  cr_fields :: "nat \<Rightarrow> u32"
  mts_cache :: "nat \<Rightarrow> nat \<Rightarrow> mts_entry"
  slow_lookup_405 :: bool
  irq_count :: u64
  timer_irq_count :: u64
  idle_pc :: u32
  timer_irq_pending :: u32
  timer_irq_armed :: u32
  timer_irq_freq :: u32
  timer_irq_check_itv :: u32
  timer_drift :: u32
  irq_disable :: u32
  bat :: "nat \<Rightarrow> nat \<Rightarrow> nat \<Rightarrow> u32"
  sr :: "nat \<Rightarrow> u32"
  sdr1 :: u32
  sdr1_hptr :: u64
  msr :: u32
  srr0 :: u32
  srr1 :: u32
  dsisr :: u32
  dar :: u32
  sprg :: "nat \<Rightarrow> u32"
  pvr :: u32
  tb :: u64
  dec :: u32
  hid0 :: u32
  hid1 :: u32
  sw_pos :: u32
  ppc405_tlb :: "nat \<Rightarrow> ppc405_tlb_entry"
  ppc405_pid :: u32
  mpc860_immr :: u32
  fpu_reg :: "nat \<Rightarrow> u64"
  njm_exec_page :: u64
  njm_exec_ptr :: u64
  breakpoints :: "u32 list"
  breakpoints_enabled :: bool
  cpu_state :: u32
  idle_count :: u32
  idle_max :: u32

abbreviation set_gpr :: "nat \<Rightarrow> u32 \<Rightarrow> 'z cpu_ppc_scheme \<Rightarrow> 'z cpu_ppc_scheme" where
  "set_gpr i v c \<equiv> c\<lparr>gpr := (gpr c)(i := v)\<rparr>"

abbreviation set_cr_field :: "nat \<Rightarrow> u32 \<Rightarrow> 'z cpu_ppc_scheme \<Rightarrow> 'z cpu_ppc_scheme" where
  "set_cr_field i v c \<equiv> c\<lparr>cr_fields := (cr_fields c)(i := v)\<rparr>"

subsection \<open>Constants of ppc32.h\<close>

abbreviation (input) PPC32_MIN_PAGE_IMASK :: u32 where "PPC32_MIN_PAGE_IMASK \<equiv> 0xfff"
abbreviation (input) PPC32_MIN_PAGE_MASK :: u32 where "PPC32_MIN_PAGE_MASK \<equiv> 0xfffff000"
abbreviation (input) PPC32_ROM_START :: u32 where "PPC32_ROM_START \<equiv> 0xfff00100"
abbreviation (input) PPC32_ROM_SP :: u32 where "PPC32_ROM_SP \<equiv> 0x00006000"
abbreviation (input) PPC32_PVR_405 :: u32 where "PPC32_PVR_405 \<equiv> 0x40110000"

abbreviation (input) PPC32_MTS_ICACHE :: nat where "PPC32_MTS_ICACHE \<equiv> 0"
abbreviation (input) PPC32_MTS_DCACHE :: nat where "PPC32_MTS_DCACHE \<equiv> 1"
abbreviation (input) PPC32_BAT_NR :: nat where "PPC32_BAT_NR \<equiv> 8"
abbreviation (input) PPC405_TLB_ENTRIES :: nat where "PPC405_TLB_ENTRIES \<equiv> 64"

abbreviation (input) PPC32_EXC_DSI :: u32 where "PPC32_EXC_DSI \<equiv> 0x300"
abbreviation (input) PPC32_EXC_EXT :: u32 where "PPC32_EXC_EXT \<equiv> 0x500"
abbreviation (input) PPC32_EXC_PROG :: u32 where "PPC32_EXC_PROG \<equiv> 0x700"
abbreviation (input) PPC32_EXC_DEC :: u32 where "PPC32_EXC_DEC \<equiv> 0x900"
abbreviation (input) PPC32_EXC_SYSCALL :: u32 where "PPC32_EXC_SYSCALL \<equiv> 0xC00"

abbreviation (input) PPC32_MSR_EE :: u32 where "PPC32_MSR_EE \<equiv> 0x8000"
abbreviation (input) PPC32_MSR_PR :: u32 where "PPC32_MSR_PR \<equiv> 0x4000"
abbreviation (input) PPC32_MSR_IP :: u32 where "PPC32_MSR_IP \<equiv> 0x40"
abbreviation (input) PPC32_MSR_IR :: u32 where "PPC32_MSR_IR \<equiv> 0x20"
abbreviation (input) PPC32_MSR_DR :: u32 where "PPC32_MSR_DR \<equiv> 0x10"
abbreviation (input) PPC32_RFI_MSR_MASK :: u32 where "PPC32_RFI_MSR_MASK \<equiv> 0x87c0ff73"
abbreviation (input) PPC32_EXC_SRR1_MASK :: u32 where "PPC32_EXC_SRR1_MASK \<equiv> 0x0000ff73"
abbreviation (input) PPC32_EXC_MSR_MASK :: u32 where "PPC32_EXC_MSR_MASK \<equiv> 0x0006ef32"

abbreviation (input) PPC32_XER_SO :: u32 where "PPC32_XER_SO \<equiv> 0x80000000"
abbreviation (input) PPC32_XER_OV :: u32 where "PPC32_XER_OV \<equiv> 0x40000000"
abbreviation (input) PPC32_XER_CA :: u32 where "PPC32_XER_CA \<equiv> 0x20000000"
abbreviation (input) PPC32_XER_CA_BIT :: nat where "PPC32_XER_CA_BIT \<equiv> 29"
abbreviation (input) PPC32_XER_BC_MASK :: u32 where "PPC32_XER_BC_MASK \<equiv> 0x7f"
abbreviation (input) PPC32_CR_LT_BIT :: nat where "PPC32_CR_LT_BIT \<equiv> 3"
abbreviation (input) PPC32_CR_GT_BIT :: nat where "PPC32_CR_GT_BIT \<equiv> 2"
abbreviation (input) PPC32_CR_EQ_BIT :: nat where "PPC32_CR_EQ_BIT \<equiv> 1"
abbreviation (input) PPC32_CR_SO_BIT :: nat where "PPC32_CR_SO_BIT \<equiv> 0"

section \<open>The condition register\<close>

definition ppc32_get_cr_field :: "nat \<Rightarrow> nat" where
  "ppc32_get_cr_field n = n div 4"

definition ppc32_get_cr_bit :: "nat \<Rightarrow> nat" where
  "ppc32_get_cr_bit n = 3 - n mod 4"

definition ppc32_get_cr :: "'z cpu_ppc_scheme \<Rightarrow> u32" where
  "ppc32_get_cr c = fold (\<lambda>i cr. cr OR push_bit (28 - 4 * i) (cr_fields c i)) [0..<8] 0"

definition ppc32_set_cr :: "u32 \<Rightarrow> 'z cpu_ppc_scheme \<Rightarrow> 'z cpu_ppc_scheme" where
  "ppc32_set_cr cr c = fold (\<lambda>i. set_cr_field i (drop_bit (28 - 4 * i) cr AND 0x0F)) [0..<8] c"

definition ppc32_read_cr_bit :: "nat \<Rightarrow> 'z cpu_ppc_scheme \<Rightarrow> u32" where
  "ppc32_read_cr_bit n c =
     (let res = drop_bit (ppc32_get_cr_bit n) (cr_fields c (ppc32_get_cr_field n)) in res AND 0x01)"

definition ppc32_set_cr_bit :: "nat \<Rightarrow> 'z cpu_ppc_scheme \<Rightarrow> 'z cpu_ppc_scheme" where
  "ppc32_set_cr_bit n c =
     (let f = ppc32_get_cr_field n in set_cr_field f (cr_fields c f OR push_bit (ppc32_get_cr_bit n) 1) c)"

definition ppc32_clear_cr_bit :: "nat \<Rightarrow> 'z cpu_ppc_scheme \<Rightarrow> 'z cpu_ppc_scheme" where
  "ppc32_clear_cr_bit n c =
     (let f = ppc32_get_cr_field n in set_cr_field f (cr_fields c f AND NOT (push_bit (ppc32_get_cr_bit n) 1)) c)"

section \<open>Reset\<close>

text \<open>An entry of a cache filled with \<open>0xFF\<close> bytes.\<close>

definition mts32_empty_entry :: mts_entry where
  "mts32_empty_entry = \<lparr>gvpa = 0xFFFFFFFF, gppa = 0xFFFFFFFF, hpa = -1, mts_flags = 0xFFFFFFFF\<rparr>"

definition ppc32_mem_invalidate_cache :: "'z cpu_ppc_scheme \<Rightarrow> 'z cpu_ppc_scheme" where
  "ppc32_mem_invalidate_cache c =
     c\<lparr>mts_cache := (mts_cache c)(PPC32_MTS_ICACHE := (\<lambda>_. mts32_empty_entry),
                                 PPC32_MTS_DCACHE := (\<lambda>_. mts32_empty_entry))\<rparr>"

text \<open>Shutting the MTS down and initialising it again leaves two empty caches.\<close>

definition ppc32_mem_restart :: "'z cpu_ppc_scheme \<Rightarrow> 'z cpu_ppc_scheme" where
  "ppc32_mem_restart c =
     (let c = ppc32_mem_invalidate_cache c;
          c = c\<lparr>slow_lookup_405 := False\<rparr>;
          family = pvr c AND 0xFFFF0000
      in if family = PPC32_PVR_405 then c\<lparr>slow_lookup_405 := True\<rparr> else c)"

definition ppc32_reset :: "'z cpu_ppc_scheme \<Rightarrow> 'z cpu_ppc_scheme" where
  "ppc32_reset c =
     (let c = c\<lparr>ia := PPC32_ROM_START\<rparr>;
          c = set_gpr 1 PPC32_ROM_SP c;
          c = c\<lparr>msr := PPC32_MSR_IP\<rparr>
      in ppc32_mem_restart c)"

definition ppc32_init :: "'z cpu_ppc_scheme \<Rightarrow> 'z cpu_ppc_scheme" where
  "ppc32_init c =
     (let c = c\<lparr>idle_max := 500\<rparr>;
          c = c\<lparr>timer_irq_check_itv := 1000\<rparr>;
          c = c\<lparr>timer_irq_freq := 250\<rparr>
      in ppc32_reset c)"

definition ppc32_set_pvr :: "u32 \<Rightarrow> 'z cpu_ppc_scheme \<Rightarrow> 'z cpu_ppc_scheme" where
  "ppc32_set_pvr v c = ppc32_mem_restart (c\<lparr>pvr := v\<rparr>)"

definition ppc32_set_idle_pc :: "u64 \<Rightarrow> 'z cpu_ppc_scheme \<Rightarrow> 'z cpu_ppc_scheme" where
  "ppc32_set_idle_pc addr c = c\<lparr>idle_pc := ucast addr\<rparr>"

section \<open>Exceptions and interrupts\<close>

definition ppc32_trigger_exception :: "u32 \<Rightarrow> 'z cpu_ppc_scheme \<Rightarrow> 'z cpu_ppc_scheme" where
  "ppc32_trigger_exception exc_vector c =
     (let c = c\<lparr>srr0 := ia c\<rparr>;
          c = (if exc_vector = PPC32_EXC_SYSCALL then c\<lparr>srr0 := srr0 c + 4\<rparr> else c);
          c = c\<lparr>srr1 := msr c AND PPC32_EXC_SRR1_MASK\<rparr>;
          c = c\<lparr>msr := msr c AND NOT PPC32_EXC_MSR_MASK\<rparr>;
          c = c\<lparr>irq_check := 0\<rparr>
      in if msr c AND PPC32_MSR_IP \<noteq> 0 then c\<lparr>ia := 0xFFF00000 + exc_vector\<rparr>
         else c\<lparr>ia := exc_vector\<rparr>)"

definition ppc32_trigger_irq :: "'z cpu_ppc_scheme \<Rightarrow> 'z cpu_ppc_scheme" where
  "ppc32_trigger_irq c =
     (if irq_disable c \<noteq> 0 then c\<lparr>irq_pending := 0, irq_check := 0\<rparr>
      else
        let c = c\<lparr>irq_check := 0\<rparr> in
        if irq_pending c \<noteq> 0 \<and> msr c AND PPC32_MSR_EE \<noteq> 0 then
          (let c = c\<lparr>irq_count := irq_count c + 1\<rparr>;
               c = c\<lparr>irq_pending := 0\<rparr>
           in ppc32_trigger_exception PPC32_EXC_EXT c)
        else c)"

definition ppc32_trigger_timer_irq :: "'z cpu_ppc_scheme \<Rightarrow> 'z cpu_ppc_scheme" where
  "ppc32_trigger_timer_irq c =
     (let c = c\<lparr>timer_irq_count := timer_irq_count c + 1\<rparr> in
      if msr c AND PPC32_MSR_EE \<noteq> 0 then ppc32_trigger_exception PPC32_EXC_DEC c else c)"

text \<open>One round of the timer thread; its \<open>threshold\<close> is ten seconds of ticks.\<close>

definition ppc32_timer_irq_tick :: "'z cpu_ppc_scheme \<Rightarrow> 'z cpu_ppc_scheme" where
  "ppc32_timer_irq_tick c =
     (let threshold = timer_irq_freq c * 10 in
      if irq_disable c = 0 \<and> cpu_state c = 0 \<and> msr c AND PPC32_MSR_EE \<noteq> 0 then
        (let c = c\<lparr>timer_irq_pending := timer_irq_pending c + 1\<rparr> in
         if threshold < timer_irq_pending c
         then c\<lparr>timer_irq_pending := 0, timer_drift := timer_drift c + 1\<rparr>
         else c)
      else c)"

section \<open>Breakpoints and register access\<close>

text \<open>\<open>breakpoints\<close> is the array of \<open>PPC32_MAX_BREAKPOINTS\<close> = 8 entries, 0 for a free slot.\<close>

definition ppc32_add_breakpoint :: "u64 \<Rightarrow> 'z cpu_ppc_scheme \<Rightarrow> int \<times> 'z cpu_ppc_scheme" where
  "ppc32_add_breakpoint addr c =
     (case find (\<lambda>i. breakpoints c ! i = 0) [0..<8] of
        None \<Rightarrow> (-1, c)
      | Some i \<Rightarrow> (0, c\<lparr>breakpoints := (breakpoints c)[i := ucast addr], breakpoints_enabled := True\<rparr>))"

text \<open>The entries are compared with all 64 bits of the argument.\<close>

definition ppc32_remove_breakpoint_round :: "u64 \<Rightarrow> nat \<Rightarrow> u32 list \<Rightarrow> u32 list" where
  "ppc32_remove_breakpoint_round addr i bps =
     (if ucast (bps ! i) = addr then (fold (\<lambda>j b. b[j := b ! (j + 1)]) [i..<7] bps)[7 := 0] else bps)"

definition ppc32_remove_breakpoint :: "u64 \<Rightarrow> 'z cpu_ppc_scheme \<Rightarrow> 'z cpu_ppc_scheme" where
  "ppc32_remove_breakpoint addr c =
     (let c = c\<lparr>breakpoints := fold (ppc32_remove_breakpoint_round addr) [0..<8] (breakpoints c)\<rparr>
      in if \<exists>i\<in>set [0..<8]. breakpoints c ! i \<noteq> 0 then c
         else c\<lparr>breakpoints_enabled := False\<rparr>)"

definition ppc32_reg_set :: "nat \<Rightarrow> u64 \<Rightarrow> 'z cpu_ppc_scheme \<Rightarrow> 'z cpu_ppc_scheme" where
  "ppc32_reg_set reg val c = (if reg < 32 then set_gpr reg (ucast val) c else c)"

end
