(* ===== verification/Ppc32Mem.thy ===== *)
theory Ppc32Mem
  imports Ppc32Cpu Device
begin

text \<open>
  Memory accesses of the 32-bit PowerPC CPU: \<open>stable/ppc32_mem.c\<close>. An address is translated, in this
  order, by the real mode of the MSR, the BAT registers and the hashed page table in guest memory; a
  PowerPC 405 uses its TLB instead. The MTS caches hold the results.

  The state \<open>ppc_vm\<close> extends the CPU with the virtual machine it belongs to (one CPU per instance). A
  host pointer is its address, 0 for \<open>NULL\<close>; a page table without host memory (\<open>sdr1_hptr\<close> = 0) is
  read through a bad pointer. What lies outside the modelled code is in \<open>ppc_env\<close>: the device
  handlers, the handler of undefined addresses, the interrupt line of the platform, the value of an
  uninitialised local variable, and the results of 32-bit shifts by 32 or more, which C leaves
  undefined. Without the JIT \<open>exec_phys_map\<close> is \<open>NULL\<close> and no entry has the flag \<open>MTS_FLAG_EXEC\<close>.
\<close>

section \<open>State and environment\<close>

record 'd ppc_vm = cpu_ppc +
  vm_inst :: "'d vm_instance"

abbreviation update_vm ::
    "('d vm_instance \<Rightarrow> 'd vm_instance) \<Rightarrow> ('d, 'z) ppc_vm_scheme \<Rightarrow> ('d, 'z) ppc_vm_scheme" where
  "update_vm f c \<equiv> c\<lparr>vm_inst := f (vm_inst c)\<rparr>"

record 'd ppc_env =
  env_handler :: "nat \<Rightarrow> dev_ptr \<Rightarrow> u32 \<Rightarrow> nat \<Rightarrow> mts_op \<Rightarrow> u64 \<Rightarrow> 'd ppc_vm \<Rightarrow> (u64 \<times> u64, 'd ppc_vm) outcome"
  env_undef :: "(u64 \<Rightarrow> nat \<Rightarrow> mts_op \<Rightarrow> u64 \<Rightarrow> 'd ppc_vm \<Rightarrow> (bool \<times> u64, 'd ppc_vm) outcome) option"
  env_set_irq :: "u32 \<Rightarrow> 'd ppc_vm \<Rightarrow> 'd ppc_vm"
  env_uninit :: "'d ppc_vm \<Rightarrow> u64"
  env_ub_shl :: "u32 \<Rightarrow> u32 \<Rightarrow> u32"
  env_ub_shr :: "u32 \<Rightarrow> u32 \<Rightarrow> u32"
  env_ub_sar :: "u32 \<Rightarrow> u32 \<Rightarrow> u32"

datatype ppc_memop = PPC_MEMOP_LOOKUP | PPC_MEMOP_IFETCH | PPC_MEMOP_LBZ | PPC_MEMOP_LHZ | PPC_MEMOP_LWZ
  | PPC_MEMOP_LHA | PPC_MEMOP_STB | PPC_MEMOP_STH | PPC_MEMOP_STW | PPC_MEMOP_LWBR | PPC_MEMOP_STWBR
  | PPC_MEMOP_LSW | PPC_MEMOP_STSW | PPC_MEMOP_LFD | PPC_MEMOP_STFD | PPC_MEMOP_ICBI

datatype ppc_acc = MTS_ACC_T | MTS_ACC_U

section \<open>Accesses without translation\<close>

text \<open>The result is the new value of \<open>*data\<close>. A data access without translation raises the data
  storage exception; an instruction fetch raises none.\<close>

definition ppc32_access_special ::
    "'d ppc_env \<Rightarrow> u32 \<Rightarrow> nat \<Rightarrow> ppc_acc \<Rightarrow> ppc_memop \<Rightarrow> mts_op \<Rightarrow> nat \<Rightarrow> u64 \<Rightarrow> 'd ppc_vm
     \<Rightarrow> (u64, 'd ppc_vm) outcome" where
  "ppc32_access_special env vaddr cid acc op_code op_type op_size data c =
     (case acc of
        MTS_ACC_T \<Rightarrow>
          if op_code \<noteq> PPC_MEMOP_LOOKUP \<and> cid = PPC32_MTS_DCACHE then
            (let c = c\<lparr>dsisr := 0x40000000\<rparr>;
                 c = (if op_type = MTS_WRITE then c\<lparr>dsisr := dsisr c OR 0x02000000\<rparr> else c);
                 c = c\<lparr>dar := vaddr\<rparr>
             in LongJmp (ppc32_trigger_exception PPC32_EXC_DSI c))
          else Ok data c
      | MTS_ACC_U \<Rightarrow>
          (let data = (if op_type = MTS_READ then 0 else data) in
           case env_undef env of
             None \<Rightarrow> Ok data c
           | Some h \<Rightarrow> obind (h (ucast vaddr) op_size op_type data c) (\<lambda>(_, data) c. Ok data c)))"

section \<open>Entries of the MTS caches\<close>

definition mts32_hash :: "u32 \<Rightarrow> nat" where
  "mts32_hash vaddr = unat (drop_bit 12 vaddr AND 0x3fff)"

definition set_mts :: "nat \<Rightarrow> nat \<Rightarrow> mts_entry \<Rightarrow> 'z cpu_ppc_scheme \<Rightarrow> 'z cpu_ppc_scheme" where
  "set_mts cid b e c = c\<lparr>mts_cache := (mts_cache c)(cid := (mts_cache c cid)(b := e))\<rparr>"

text \<open>The fields \<open>gvpa\<close> and \<open>gppa\<close> of \<open>mts32_entry_t\<close> are 32 bits wide.\<close>

definition low32 :: "u64 \<Rightarrow> u64" where
  "low32 a = ucast (ucast a :: u32)"

text \<open>The entry \<open>b\<close> of the cache is filled for host memory; a device access is described in
  \<open>alt_entry\<close>, whose \<open>gvpa\<close> is never set.\<close>

definition ppc32_mem_map ::
    "'d ppc_env \<Rightarrow> nat \<Rightarrow> mts_op \<Rightarrow> mts_map \<Rightarrow> nat \<Rightarrow> 'd ppc_vm \<Rightarrow> (mts_entry option, 'd ppc_vm) outcome" where
  "ppc32_mem_map env cid op_type m b c =
     (case dev_lookup (map_paddr m + ucast (map_offset m)) (map_cached m) (vm_inst c) of
        None \<Rightarrow> Ok None c
      | Some p \<Rightarrow>
          (let dev = vdevs (vm_inst c) p in
           if dev_flags dev AND VDEVICE_FLAG_SPARSE \<noteq> 0 then
             (case dev_sparse_get_host_addr p (map_paddr m) op_type (vm_inst c) of
                Ok (host_ptr, cow) vm \<Rightarrow>
                  (let e = \<lparr>gvpa = low32 (map_vaddr m), gppa = low32 (map_paddr m), hpa = host_ptr,
                            mts_flags = (if cow then MTS_FLAG_COW else 0)\<rparr>
                   in Ok (Some e) (set_mts cid b e (c\<lparr>vm_inst := vm\<rparr>)))
              | LongJmp vm \<Rightarrow> LongJmp (c\<lparr>vm_inst := vm\<rparr>)
              | HostFault \<Rightarrow> HostFault
              | OutOfFuel \<Rightarrow> OutOfFuel)
           else if host_addr dev = 0 \<or> dev_flags dev AND VDEVICE_FLAG_NO_MTS_MMAP \<noteq> 0 then
             (let offset = (ucast ((map_paddr m + ucast (map_offset m)) - phys_addr dev) :: u32)
              in Ok (Some \<lparr>gvpa = env_uninit env c, gppa = ucast (dev_id dev), hpa = ucast offset,
                           mts_flags = MTS_FLAG_DEV\<rparr>) c)
           else
             (let e = \<lparr>gvpa = low32 (map_vaddr m), gppa = low32 (map_paddr m),
                       hpa = host_addr dev + (map_paddr m - phys_addr dev), mts_flags = 0\<rparr>
              in Ok (Some e) (set_mts cid b e c))))"

section \<open>Address translation\<close>

text \<open>The mapping a lookup fills in; \<open>tlb_index\<close> and \<open>len\<close> are neither set nor read.\<close>

definition ppc_map :: "u64 \<Rightarrow> u64 \<Rightarrow> u32 \<Rightarrow> mts_map" where
  "ppc_map va pa offset = \<lparr>map_vaddr = va, map_paddr = pa, map_cached = False, map_tlb_index = 0, map_offset = offset\<rparr>"

definition ppc_real_mode :: "nat \<Rightarrow> 'z cpu_ppc_scheme \<Rightarrow> bool" where
  "ppc_real_mode cid c \<longleftrightarrow>
     cid = PPC32_MTS_ICACHE \<and> msr c AND PPC32_MSR_IR = 0 \<or>
     cid = PPC32_MTS_DCACHE \<and> msr c AND PPC32_MSR_DR = 0"

definition ppc_real_map :: "u32 \<Rightarrow> mts_map" where
  "ppc_real_map vaddr =
     ppc_map (ucast (vaddr AND PPC32_MIN_PAGE_MASK)) (ucast (vaddr AND PPC32_MIN_PAGE_MASK))
       (vaddr AND PPC32_MIN_PAGE_IMASK)"

text \<open>The protection bits of a BAT that the privilege level selects: 2 in supervisor mode, 1 in user
  mode.\<close>

definition ppc_bat_pr :: "'z cpu_ppc_scheme \<Rightarrow> u32" where
  "ppc_bat_pr c =
     (let pr = drop_bit 14 (msr c AND PPC32_MSR_PR) in (push_bit 1 (NOT pr) OR pr) AND 0x03)"

definition ppc_bat_mask :: "u32 \<Rightarrow> u32" where
  "ppc_bat_mask ubat = push_bit 17 (NOT (drop_bit 2 (ubat AND 0x0001FFFC)))"

definition ppc_bat_matches :: "u32 \<Rightarrow> u32 \<Rightarrow> u32 \<Rightarrow> bool" where
  "ppc_bat_matches pr vaddr ubat \<longleftrightarrow>
     ubat AND pr \<noteq> 0 \<and> ubat AND 0xFFFE0000 = vaddr AND ppc_bat_mask ubat"

definition ppc32_bat_lookup :: "u32 \<Rightarrow> nat \<Rightarrow> 'z cpu_ppc_scheme \<Rightarrow> mts_map option" where
  "ppc32_bat_lookup vaddr cid c =
     (case find (\<lambda>i. ppc_bat_matches (ppc_bat_pr c) vaddr (bat c cid i 0)) [0..<PPC32_BAT_NR] of
        None \<Rightarrow> None
      | Some i \<Rightarrow>
          (let bepi = bat c cid i 0 AND 0xFFFE0000;
               va = (ucast (vaddr AND PPC32_MIN_PAGE_MASK) :: u64);
               pa = ucast (bat c cid i 1 AND 0xFFFE0000) + (va - ucast bepi)
           in Some (ppc_map va pa (vaddr AND PPC32_MIN_PAGE_IMASK))))"

text \<open>The hash of a page in a segment, and the host address of the group of eight page table entries
  it selects. The code computes both in \<open>ppc32_slow_lookup\<close> and in \<open>ppc32_map_page\<close>.\<close>

definition ppc_pt_hash :: "u32 \<Rightarrow> u32 \<Rightarrow> u32" where
  "ppc_pt_hash vsid vaddr = ((drop_bit 12 vaddr AND 0xFFFF) XOR vsid) AND 0x7FFFFF"

definition ppc_pteg :: "u32 \<Rightarrow> 'z cpu_ppc_scheme \<Rightarrow> u64" where
  "ppc_pteg hash c =
     (let tmp = drop_bit 10 hash AND (sdr1 c AND 0x1FFF);
          pteg_offset = push_bit 6 (hash AND 0x3FF);
          pteg_offset = pteg_offset OR push_bit 16 tmp
      in sdr1_hptr c + ucast pteg_offset)"

definition ppc_pte_addr :: "u64 \<Rightarrow> nat \<Rightarrow> u64" where
  "ppc_pte_addr pteg i = pteg + of_nat (8 * i)"

definition ppc_pte_word :: "(u64 \<Rightarrow> u8) \<Rightarrow> u64 \<Rightarrow> u32" where
  "ppc_pte_word m a = ucast (host_read32 m a)"

text \<open>The search for a word in the first halves of the eight entries.\<close>

definition ppc_pteg_find :: "(u64 \<Rightarrow> u8) \<Rightarrow> u64 \<Rightarrow> (u32 \<Rightarrow> bool) \<Rightarrow> u64 option" where
  "ppc_pteg_find m pteg P =
     map_option (ppc_pte_addr pteg) (find (\<lambda>i. P (ppc_pte_word m (ppc_pte_addr pteg i))) [0..<8])"

definition ppc_api :: "u32 \<Rightarrow> u32" where
  "ppc_api vaddr = drop_bit 22 vaddr AND 0x3F"

definition ppc_pte_paddr :: "u32 \<Rightarrow> u64" where
  "ppc_pte_paddr pte2 =
     (let paddr = ucast (pte2 AND 0xFFFFF000) :: u64;
          paddr = paddr OR push_bit (33 - 9) (ucast (pte2 AND 0xC00))
      in paddr OR push_bit (32 - 2) (ucast (pte2 AND 0x4)))"

text \<open>The three ends of a translation.\<close>

datatype ppc_xlate = Xlate mts_map | NoPte | BadTable

definition ppc32_pte_lookup :: "(u64 \<Rightarrow> u8) \<Rightarrow> u32 \<Rightarrow> 'z cpu_ppc_scheme \<Rightarrow> ppc_xlate" where
  "ppc32_pte_lookup m vaddr c =
     (if sdr1 c = 0 then NoPte
      else if sdr1_hptr c = 0 then BadTable
      else
        (let segment = unat (drop_bit 28 vaddr);
             vsid = sr c segment AND 0x00FFFFFF;
             hash = ppc_pt_hash vsid vaddr;
             found = (\<lambda>a. Xlate (ppc_map (ucast (vaddr AND NOT PPC32_MIN_PAGE_IMASK))
                                   (ppc_pte_paddr (ppc_pte_word m (a + 4))) (vaddr AND PPC32_MIN_PAGE_IMASK)));
             pte_key = 0x80000000 OR push_bit 7 vsid;
             pte_key = pte_key OR ppc_api vaddr
         in case ppc_pteg_find m (ppc_pteg hash c) (\<lambda>key. key = pte_key) of
              Some a \<Rightarrow> found a
            | None \<Rightarrow>
                (let hash = NOT hash AND 0x7FFFFF;
                     pte_key = 0x80000040 OR push_bit 7 vsid;
                     pte_key = pte_key OR ppc_api vaddr
                 in case ppc_pteg_find m (ppc_pteg hash c) (\<lambda>key. key = pte_key) of
                      Some a \<Rightarrow> found a
                    | None \<Rightarrow> NoPte)))"

definition ppc32_xlate :: "(u64 \<Rightarrow> u8) \<Rightarrow> u32 \<Rightarrow> nat \<Rightarrow> 'z cpu_ppc_scheme \<Rightarrow> ppc_xlate" where
  "ppc32_xlate m vaddr cid c =
     (if ppc_real_mode cid c then Xlate (ppc_real_map vaddr)
      else (case ppc32_bat_lookup vaddr cid c of
              Some mp \<Rightarrow> Xlate mp
            | None \<Rightarrow> ppc32_pte_lookup m vaddr c))"

text \<open>PowerPC 405: the unified TLB. The offset is \<open>vaddr & !mask\<close>, a logical negation, hence 0.\<close>

definition ppc405_tlb_masks :: "u32 list" where
  "ppc405_tlb_masks = [0xFFFFFC00, 0xFFFFF000, 0xFFFFC000, 0xFFFF0000,
     0xFFFC0000, 0xFFF00000, 0xFFC00000, 0xFF000000]"

definition ppc405_entry_mask :: "ppc405_tlb_entry \<Rightarrow> u32" where
  "ppc405_entry_mask e = ppc405_tlb_masks ! unat (drop_bit 7 (tlb_hi e AND 0x380))"

definition ppc405_entry_matches :: "u32 \<Rightarrow> u32 \<Rightarrow> ppc405_tlb_entry \<Rightarrow> bool" where
  "ppc405_entry_matches pid vaddr e \<longleftrightarrow>
     tlb_hi e AND 0x40 \<noteq> 0 \<and> tid e = pid \<and>
     vaddr AND ppc405_entry_mask e = tlb_hi e AND ppc405_entry_mask e"

definition ppc405_xlate :: "u32 \<Rightarrow> nat \<Rightarrow> 'z cpu_ppc_scheme \<Rightarrow> ppc_xlate" where
  "ppc405_xlate vaddr cid c =
     (if ppc_real_mode cid c then Xlate (ppc_real_map vaddr)
      else (case find (\<lambda>i. ppc405_entry_matches (ppc405_pid c) vaddr (ppc405_tlb c i)) [0..<PPC405_TLB_ENTRIES] of
              None \<Rightarrow> NoPte
            | Some i \<Rightarrow>
                (let e = ppc405_tlb c i; mask = ppc405_entry_mask e;
                     not_mask = (if mask = 0 then 1 else 0)
                 in Xlate (ppc_map (ucast (vaddr AND mask)) (ucast (tlb_lo e AND mask)) (vaddr AND not_mask)))))"

text \<open>What both slow lookups do with a translation; the result is the entry and the new \<open>*data\<close>.\<close>

definition ppc_use_xlate ::
    "'d ppc_env \<Rightarrow> u32 \<Rightarrow> nat \<Rightarrow> ppc_memop \<Rightarrow> nat \<Rightarrow> mts_op \<Rightarrow> u64 \<Rightarrow> ppc_xlate \<Rightarrow> 'd ppc_vm
     \<Rightarrow> (mts_entry option \<times> u64, 'd ppc_vm) outcome" where
  "ppc_use_xlate env vaddr cid op_code op_size op_type data x c =
     (let special = (\<lambda>acc c. obind (ppc32_access_special env vaddr cid acc op_code op_type op_size data c)
                               (\<lambda>data c. Ok (None, data) c))
      in case x of
           BadTable \<Rightarrow> HostFault
         | NoPte \<Rightarrow> special MTS_ACC_T c
         | Xlate m \<Rightarrow>
             obind (ppc32_mem_map env cid op_type m (mts32_hash vaddr) c)
               (\<lambda>e c. case e of None \<Rightarrow> special MTS_ACC_U c | Some e \<Rightarrow> Ok (Some e, data) c))"

definition ppc32_slow_lookup ::
    "'d ppc_env \<Rightarrow> u32 \<Rightarrow> nat \<Rightarrow> ppc_memop \<Rightarrow> nat \<Rightarrow> mts_op \<Rightarrow> u64 \<Rightarrow> 'd ppc_vm
     \<Rightarrow> (mts_entry option \<times> u64, 'd ppc_vm) outcome" where
  "ppc32_slow_lookup env vaddr cid op_code op_size op_type data c =
     ppc_use_xlate env vaddr cid op_code op_size op_type data (ppc32_xlate (host_mem (vm_inst c)) vaddr cid c) c"

definition ppc405_slow_lookup ::
    "'d ppc_env \<Rightarrow> u32 \<Rightarrow> nat \<Rightarrow> ppc_memop \<Rightarrow> nat \<Rightarrow> mts_op \<Rightarrow> u64 \<Rightarrow> 'd ppc_vm
     \<Rightarrow> (mts_entry option \<times> u64, 'd ppc_vm) outcome" where
  "ppc405_slow_lookup env vaddr cid op_code op_size op_type data c =
     ppc_use_xlate env vaddr cid op_code op_size op_type data (ppc405_xlate vaddr cid c) c"

text \<open>The call through the pointer \<open>mts_slow_lookup\<close>.\<close>

definition ppc_mts_slow_lookup ::
    "'d ppc_env \<Rightarrow> u32 \<Rightarrow> nat \<Rightarrow> ppc_memop \<Rightarrow> nat \<Rightarrow> mts_op \<Rightarrow> u64 \<Rightarrow> 'd ppc_vm
     \<Rightarrow> (mts_entry option \<times> u64, 'd ppc_vm) outcome" where
  "ppc_mts_slow_lookup env vaddr cid op_code op_size op_type data c =
     (if slow_lookup_405 c then ppc405_slow_lookup env vaddr cid op_code op_size op_type data c
      else ppc32_slow_lookup env vaddr cid op_code op_size op_type data c)"

section \<open>Accesses through the caches\<close>

definition ppc_dev_access_fast ::
    "'d ppc_env \<Rightarrow> nat \<Rightarrow> u32 \<Rightarrow> nat \<Rightarrow> mts_op \<Rightarrow> u64 \<Rightarrow> 'd ppc_vm \<Rightarrow> (u64 \<times> u64, 'd ppc_vm) outcome" where
  "ppc_dev_access_fast env i offset op_size op_type data c =
     (case dev_array (vm_inst c) i of
        None \<Rightarrow> Ok (0, data) c
      | Some p \<Rightarrow> env_handler env (dev_handler (vdevs (vm_inst c) p)) p offset op_size op_type data c)"

definition ppc32_mem_access ::
    "'d ppc_env \<Rightarrow> u32 \<Rightarrow> nat \<Rightarrow> ppc_memop \<Rightarrow> nat \<Rightarrow> mts_op \<Rightarrow> u64 \<Rightarrow> 'd ppc_vm
     \<Rightarrow> (u64 \<times> u64, 'd ppc_vm) outcome" where
  "ppc32_mem_access env vaddr cid op_code op_size op_type data c =
     (let entry = mts_cache c cid (mts32_hash vaddr);
          cow = (op_type = MTS_WRITE \<and> mts_flags entry AND MTS_FLAG_COW \<noteq> 0);
          raw = (\<lambda>e data c. Ok (hpa e + ucast (vaddr AND PPC32_MIN_PAGE_IMASK), data) c)
      in if ucast (vaddr AND PPC32_MIN_PAGE_MASK) \<noteq> gvpa entry \<or> cow then
           obind (ppc_mts_slow_lookup env vaddr cid op_code op_size op_type data c)
             (\<lambda>(e, data) c.
                case e of
                  None \<Rightarrow> Ok (0, data) c
                | Some e \<Rightarrow>
                    if mts_flags e AND MTS_FLAG_DEV \<noteq> 0
                    then ppc_dev_access_fast env (unat (gppa e)) (ucast (hpa e)) op_size op_type data c
                    else raw e data c)
         else raw entry data c)"

text \<open>The physical page, \<open>None\<close> for the return value -1.\<close>

definition ppc32_translate :: "'d ppc_env \<Rightarrow> u32 \<Rightarrow> nat \<Rightarrow> 'd ppc_vm \<Rightarrow> (u32 option, 'd ppc_vm) outcome" where
  "ppc32_translate env vaddr cid c =
     (let entry = mts_cache c cid (mts32_hash vaddr);
          page = (\<lambda>e. Some (ucast (drop_bit 12 (gppa e)) :: u32))
      in if ucast (vaddr AND PPC32_MIN_PAGE_MASK) \<noteq> gvpa entry then
           obind (ppc_mts_slow_lookup env vaddr cid PPC_MEMOP_LOOKUP 4 MTS_READ 0 c)
             (\<lambda>(e, _) c. Ok (case e of None \<Rightarrow> None | Some e \<Rightarrow> page e) c)
         else Ok (page entry) c)"

definition ppc32_mem_lookup :: "'d ppc_env \<Rightarrow> u32 \<Rightarrow> nat \<Rightarrow> 'd ppc_vm \<Rightarrow> (u64, 'd ppc_vm) outcome" where
  "ppc32_mem_lookup env vaddr cid c =
     obind (ppc32_mem_access env vaddr cid PPC_MEMOP_LOOKUP 4 MTS_READ (env_uninit env c) c)
       (\<lambda>(haddr, _) c. Ok haddr c)"

section \<open>BAT registers and the page table\<close>

text \<open>\<open>struct ppc32_bat_prog\<close>: the register to program; an index of -1 ends an array of them.\<close>

record ppc32_bat_prog =
  bp_type :: int
  bp_index :: int
  bp_hi :: u32
  bp_lo :: u32

definition set_bat_reg :: "nat \<Rightarrow> nat \<Rightarrow> nat \<Rightarrow> u32 \<Rightarrow> 'z cpu_ppc_scheme \<Rightarrow> 'z cpu_ppc_scheme" where
  "set_bat_reg t i r v c = c\<lparr>bat := (bat c)(t := (bat c t)(i := (bat c t i)(r := v)))\<rparr>"

text \<open>A negative index passes the test of the code and writes in front of the array.\<close>

definition ppc32_set_bat :: "ppc32_bat_prog \<Rightarrow> 'z cpu_ppc_scheme \<Rightarrow> (int, 'z cpu_ppc_scheme) outcome" where
  "ppc32_set_bat bp c =
     (if bp_type bp \<noteq> 0 \<and> bp_type bp \<noteq> 1 then Ok (-1) c
      else if int PPC32_BAT_NR \<le> bp_index bp then Ok (-1) c
      else if bp_index bp < 0 then HostFault
      else
        (let c = set_bat_reg (nat (bp_type bp)) (nat (bp_index bp)) 0 (bp_hi bp) c;
             c = set_bat_reg (nat (bp_type bp)) (nat (bp_index bp)) 1 (bp_lo bp) c
         in Ok 0 c))"

text \<open>An array without the end mark is read past its end.\<close>

fun ppc32_load_bat_array :: "ppc32_bat_prog list \<Rightarrow> 'z cpu_ppc_scheme \<Rightarrow> (unit, 'z cpu_ppc_scheme) outcome" where
  "ppc32_load_bat_array [] c = HostFault"
| "ppc32_load_bat_array (bp # bps) c =
     (if bp_index bp \<noteq> -1 then obind (ppc32_set_bat bp c) (\<lambda>_ c. ppc32_load_bat_array bps c) else Ok () c)"

definition ppc32_set_sdr1 :: "u32 \<Rightarrow> 'd ppc_vm \<Rightarrow> int \<times> 'd ppc_vm" where
  "ppc32_set_sdr1 v c =
     (let c = c\<lparr>sdr1 := v\<rparr>;
          pt_addr = (ucast (v AND 0xFFFF0000) :: u64);
          pt_addr = pt_addr OR push_bit 20 (ucast (v AND 0xE000))
      in case dev_lookup pt_addr True (vm_inst c) of
           None \<Rightarrow> (-1, c)
         | Some p \<Rightarrow>
             (let dev = vdevs (vm_inst c) p in (0, c\<lparr>sdr1_hptr := host_addr dev + (pt_addr - phys_addr dev)\<rparr>)))"

text \<open>\<open>memset\<close> of the table to 0.\<close>

definition host_clear :: "u64 \<Rightarrow> u32 \<Rightarrow> (u64 \<Rightarrow> u8) \<Rightarrow> (u64 \<Rightarrow> u8)" where
  "host_clear a sz m = (\<lambda>b. if b - a < ucast sz then 0 else m b)"

definition ppc32_init_page_table :: "'d ppc_vm \<Rightarrow> int \<times> 'd ppc_vm" where
  "ppc32_init_page_table c =
     (if sdr1_hptr c = 0 then (-1, c)
      else
        (let pt_size = push_bit 16 (1 + (sdr1 c AND 0x1FFF))
         in (0, update_vm (host_mem_update (host_clear (sdr1_hptr c) pt_size)) c)))"

definition ppc_pte_free :: "u32 \<Rightarrow> bool" where
  "ppc_pte_free key \<longleftrightarrow> key AND 0x80000000 = 0"

text \<open>The two words of a new entry.\<close>

definition ppc_pte_hi :: "u32 \<Rightarrow> u32 \<Rightarrow> u32 \<Rightarrow> u32" where
  "ppc_pte_hi vsid h vaddr = (0x80000000 OR push_bit 7 vsid OR h) OR ppc_api vaddr"

definition ppc_pte_lo :: "u64 \<Rightarrow> u32 \<Rightarrow> u32 \<Rightarrow> u32" where
  "ppc_pte_lo paddr wimg pp =
     (let tmp = (ucast paddr :: u32) AND 0xFFFFF000;
          tmp = tmp OR (ucast (drop_bit (32 - 2) paddr) AND 0x4);
          tmp = tmp OR (ucast (drop_bit (33 - 9) paddr) AND 0xC00)
      in tmp OR (push_bit 3 wimg + pp))"

definition ppc_write_pte :: "u64 \<Rightarrow> u32 \<Rightarrow> u32 \<Rightarrow> 'd ppc_vm \<Rightarrow> 'd ppc_vm" where
  "ppc_write_pte a hi lo c =
     update_vm (host_mem_update (\<lambda>m. host_write32 (a + 4) (ucast lo) (host_write32 a (ucast hi) m))) c"

definition ppc32_map_page ::
    "u32 \<Rightarrow> u32 \<Rightarrow> u64 \<Rightarrow> u32 \<Rightarrow> u32 \<Rightarrow> 'd ppc_vm \<Rightarrow> (int, 'd ppc_vm) outcome" where
  "ppc32_map_page vsid vaddr paddr wimg pp c =
     (if sdr1_hptr c = 0 then HostFault
      else
        (let m = host_mem (vm_inst c);
             hash = ppc_pt_hash vsid vaddr;
             hash2 = NOT hash AND 0x7FFFFF
         in case ppc_pteg_find m (ppc_pteg hash c) ppc_pte_free of
              Some a \<Rightarrow> Ok 0 (ppc_write_pte a (ppc_pte_hi vsid 0 vaddr) (ppc_pte_lo paddr wimg pp) c)
            | None \<Rightarrow>
                (case ppc_pteg_find m (ppc_pteg hash2 c) ppc_pte_free of
                   Some a \<Rightarrow> Ok 0 (ppc_write_pte a (ppc_pte_hi vsid 0x40 vaddr) (ppc_pte_lo paddr wimg pp) c)
                 | None \<Rightarrow> Ok (-1) c)))"

text \<open>\<open>while (size > 0)\<close> with \<open>size -= 0x1000\<close>: on a size that is not a multiple of the page size the
  counter passes below 0 and wraps around, so the loop need not end; \<open>n\<close> bounds its rounds.\<close>

fun ppc32_map_zone ::
    "nat \<Rightarrow> u32 \<Rightarrow> u32 \<Rightarrow> u64 \<Rightarrow> u32 \<Rightarrow> u32 \<Rightarrow> u32 \<Rightarrow> 'd ppc_vm \<Rightarrow> (int, 'd ppc_vm) outcome" where
  "ppc32_map_zone 0 vsid vaddr paddr sz wimg pp c = OutOfFuel"
| "ppc32_map_zone (Suc n) vsid vaddr paddr sz wimg pp c =
     (if 0 < sz then
        obind (ppc32_map_page vsid vaddr paddr wimg pp c)
          (\<lambda>r c. if r = -1 then Ok (-1) c
                 else ppc32_map_zone n vsid (vaddr + 0x1000) (paddr + 0x1000) (sz - 0x1000) wimg pp c)
      else Ok 0 c)"

section \<open>Memory operations\<close>

text \<open>The access and host read (write) that every load (store) begins (ends) with.\<close>

definition ppc_read ::
    "'d ppc_env \<Rightarrow> ((u64 \<Rightarrow> u8) \<Rightarrow> u64 \<Rightarrow> u64) \<Rightarrow> u32 \<Rightarrow> ppc_memop \<Rightarrow> nat \<Rightarrow> 'd ppc_vm \<Rightarrow> (u64, 'd ppc_vm) outcome" where
  "ppc_read env rd vaddr op_code op_size c =
     obind (ppc32_mem_access env vaddr PPC32_MTS_DCACHE op_code op_size MTS_READ (env_uninit env c) c)
       (\<lambda>(haddr, data) c. Ok (if haddr \<noteq> 0 then rd (host_mem (vm_inst c)) haddr else data) c)"

definition ppc_write ::
    "'d ppc_env \<Rightarrow> (u64 \<Rightarrow> u64 \<Rightarrow> (u64 \<Rightarrow> u8) \<Rightarrow> (u64 \<Rightarrow> u8)) \<Rightarrow> u32 \<Rightarrow> ppc_memop \<Rightarrow> nat \<Rightarrow> u64 \<Rightarrow> 'd ppc_vm
     \<Rightarrow> (unit, 'd ppc_vm) outcome" where
  "ppc_write env wr vaddr op_code op_size data c =
     obind (ppc32_mem_access env vaddr PPC32_MTS_DCACHE op_code op_size MTS_WRITE data c)
       (\<lambda>(haddr, data) c. Ok () (if haddr \<noteq> 0 then update_vm (host_mem_update (wr haddr data)) c else c))"

type_synonym 'd ppc_memop_fn = "'d ppc_env \<Rightarrow> u32 \<Rightarrow> nat \<Rightarrow> 'd ppc_vm \<Rightarrow> (unit, 'd ppc_vm) outcome"

definition ppc32_lbz :: "'d ppc_memop_fn" where
  "ppc32_lbz env vaddr reg c =
     obind (ppc_read env host_read8 vaddr PPC_MEMOP_LBZ 1 c)
       (\<lambda>data c. Ok () (set_gpr reg (ucast (data AND 0xFF)) c))"

definition ppc32_lhz :: "'d ppc_memop_fn" where
  "ppc32_lhz env vaddr reg c =
     obind (ppc_read env host_read16 vaddr PPC_MEMOP_LHZ 2 c)
       (\<lambda>data c. Ok () (set_gpr reg (ucast (data AND 0xFFFF)) c))"

definition ppc32_lwz :: "'d ppc_memop_fn" where
  "ppc32_lwz env vaddr reg c =
     obind (ppc_read env host_read32 vaddr PPC_MEMOP_LWZ 4 c)
       (\<lambda>data c. Ok () (set_gpr reg (ucast data) c))"

definition ppc32_lwbr :: "'d ppc_memop_fn" where
  "ppc32_lwbr env vaddr reg c =
     obind (ppc_read env host_read32 vaddr PPC_MEMOP_LWBR 4 c)
       (\<lambda>data c. Ok () (set_gpr reg (swap32 (ucast data)) c))"

definition ppc32_lha :: "'d ppc_memop_fn" where
  "ppc32_lha env vaddr reg c =
     obind (ppc_read env host_read16 vaddr PPC_MEMOP_LHZ 2 c)
       (\<lambda>data c. Ok () (set_gpr reg (sign_extend_32 (ucast data) 16) c))"

definition ppc32_stb :: "'d ppc_memop_fn" where
  "ppc32_stb env vaddr reg c =
     ppc_write env host_write8 vaddr PPC_MEMOP_STB 1 (ucast (gpr c reg AND 0xff)) c"

definition ppc32_sth :: "'d ppc_memop_fn" where
  "ppc32_sth env vaddr reg c =
     ppc_write env host_write16 vaddr PPC_MEMOP_STH 2 (ucast (gpr c reg AND 0xffff)) c"

definition ppc32_stw :: "'d ppc_memop_fn" where
  "ppc32_stw env vaddr reg c =
     ppc_write env host_write32 vaddr PPC_MEMOP_STW 4 (ucast (gpr c reg)) c"

definition ppc32_stwbr :: "'d ppc_memop_fn" where
  "ppc32_stwbr env vaddr reg c =
     ppc_write env host_write32 vaddr PPC_MEMOP_STWBR 4 (ucast (swap32 (gpr c reg))) c"

text \<open>The string operations move one byte; \<open>sw_pos\<close> is 0, 8, 16 or 24 here.\<close>

definition ppc32_lsw :: "'d ppc_memop_fn" where
  "ppc32_lsw env vaddr reg c =
     obind (ppc_read env host_read8 vaddr PPC_MEMOP_LSW 1 c)
       (\<lambda>data c. Ok () (set_gpr reg (gpr c reg OR ucast (push_bit (unat (24 - sw_pos c)) (data AND 0xFF))) c))"

definition ppc32_stsw :: "'d ppc_memop_fn" where
  "ppc32_stsw env vaddr reg c =
     ppc_write env host_write8 vaddr PPC_MEMOP_STSW 1
       (ucast (drop_bit (unat (24 - sw_pos c)) (gpr c reg) AND 0xFF)) c"

definition ppc32_lfd :: "'d ppc_memop_fn" where
  "ppc32_lfd env vaddr reg c =
     obind (ppc_read env host_read64 vaddr PPC_MEMOP_LWZ 8 c)
       (\<lambda>data c. Ok () (c\<lparr>fpu_reg := (fpu_reg c)(reg := data)\<rparr>))"

definition ppc32_stfd :: "'d ppc_memop_fn" where
  "ppc32_stfd env vaddr reg c =
     ppc_write env host_write64 vaddr PPC_MEMOP_STW 8 (fpu_reg c reg) c"

text \<open>Without the JIT only the translation remains.\<close>

definition ppc32_icbi :: "'d ppc_memop_fn" where
  "ppc32_icbi env vaddr op c =
     obind (ppc32_translate env vaddr PPC32_MTS_ICACHE c) (\<lambda>_ c. Ok () c)"

section \<open>BAT registers as special purpose registers\<close>

text \<open>The register a SPR number selects: type, index, half.\<close>

definition ppc32_get_bat_spr_ptr :: "u32 \<Rightarrow> (nat \<times> nat \<times> nat) option" where
  "ppc32_get_bat_spr_ptr spr =
     (let spr_cat = drop_bit 5 spr in
      if spr_cat \<noteq> 0x10 \<and> spr_cat \<noteq> 0x11 then None
      else
        (let cid = unat (drop_bit 3 spr AND 0x1);
             index = unat (drop_bit 1 spr AND 0x3);
             index = (if spr AND 0x20 \<noteq> 0 then index + 4 else index)
         in Some (cid, index, unat (spr AND 0x1))))"

definition ppc32_get_bat_spr :: "u32 \<Rightarrow> 'z cpu_ppc_scheme \<Rightarrow> u32" where
  "ppc32_get_bat_spr spr c =
     (case ppc32_get_bat_spr_ptr spr of None \<Rightarrow> 0 | Some (cid, index, r) \<Rightarrow> bat c cid index r)"

definition ppc32_set_bat_spr :: "u32 \<Rightarrow> u32 \<Rightarrow> 'z cpu_ppc_scheme \<Rightarrow> 'z cpu_ppc_scheme" where
  "ppc32_set_bat_spr spr val c =
     (case ppc32_get_bat_spr_ptr spr of
        None \<Rightarrow> c
      | Some (cid, index, r) \<Rightarrow> ppc32_mem_invalidate_cache (set_bat_reg cid index r val c))"

text \<open>Mapping a device (\<open>vm_map_device\<close> of \<open>vm.c\<close>) calls \<open>mts_rebuild\<close> of the CPU.\<close>

definition ppc32_mem_rebuild_mts :: "'z cpu_ppc_scheme \<Rightarrow> 'z cpu_ppc_scheme" where
  "ppc32_mem_rebuild_mts c = ppc32_mem_invalidate_cache c"

end
