(* ===== verification/Ppc32Exec.thy ===== *)
theory Ppc32Exec
  imports Ppc32Mem InsnLookup "HOL-Library.Signed_Division"
begin

text \<open>
  The PowerPC interpreter of \<open>stable/ppc32_exec.c\<close>: one definition per \<open>ppc32_exec_<INSN>\<close>, the
  instruction table, the decoder built from it by the lookup compiler of \<open>InsnLookup\<close>, the
  instruction fetch with its page cache, and the run loop.

  An instruction function takes the environment and the opcode; it returns the C result (\<open>True\<close> for 1:
  the instruction address has been set) and the new state. Signed values are read with \<open>sint\<close>. A shift
  by 32 or more, which C leaves undefined, is what the environment says; the rotates shift right by 32
  when they rotate by 0.
\<close>

type_synonym 'd ppc_insn_fn = "'d ppc_env \<Rightarrow> u32 \<Rightarrow> 'd ppc_vm \<Rightarrow> (bool, 'd ppc_vm) outcome"

section \<open>Flags and conditions\<close>

definition ppc_shl32 :: "'d ppc_env \<Rightarrow> u32 \<Rightarrow> u32 \<Rightarrow> u32" where
  "ppc_shl32 env x n = (if n < 32 then push_bit (unat n) x else env_ub_shl env x n)"

definition ppc_shr32 :: "'d ppc_env \<Rightarrow> u32 \<Rightarrow> u32 \<Rightarrow> u32" where
  "ppc_shr32 env x n = (if n < 32 then drop_bit (unat n) x else env_ub_shr env x n)"

definition ppc_sar32 :: "'d ppc_env \<Rightarrow> u32 \<Rightarrow> u32 \<Rightarrow> u32" where
  "ppc_sar32 env x n = (if n < 32 then signed_drop_bit (unat n) x else env_ub_sar env x n)"

definition ppc32_rotate_mask :: "nat \<Rightarrow> nat \<Rightarrow> u32" where
  "ppc32_rotate_mask mb me =
     (let mk = drop_bit mb 0xFFFFFFFF XOR drop_bit 1 (drop_bit me 0xFFFFFFFF) in if me < mb then NOT mk else mk)"

definition ppc32_exec_update_cr0 :: "u32 \<Rightarrow> 'z cpu_ppc_scheme \<Rightarrow> 'z cpu_ppc_scheme" where
  "ppc32_exec_update_cr0 val c =
     (let res = (if val AND 0x80000000 \<noteq> 0 then push_bit PPC32_CR_LT_BIT 1
                 else if 0 < val then push_bit PPC32_CR_GT_BIT 1
                 else push_bit PPC32_CR_EQ_BIT 1);
          res = (if xer c AND PPC32_XER_SO \<noteq> 0 then res OR push_bit PPC32_CR_SO_BIT 1 else res)
      in set_cr_field 0 res c)"

definition ppc32_exec_ov_sum :: "u32 \<Rightarrow> u32 \<Rightarrow> u32 \<Rightarrow> 'z cpu_ppc_scheme \<Rightarrow> 'z cpu_ppc_scheme" where
  "ppc32_exec_ov_sum r a b c =
     (let sc = NOT (a XOR b) AND (a XOR r) AND 0x80000000
      in if sc \<noteq> 0 then c\<lparr>xer := xer c OR (PPC32_XER_SO OR PPC32_XER_OV)\<rparr>
         else c\<lparr>xer := xer c AND NOT PPC32_XER_OV\<rparr>)"

definition ppc32_exec_ov_sub :: "u32 \<Rightarrow> u32 \<Rightarrow> u32 \<Rightarrow> 'z cpu_ppc_scheme \<Rightarrow> 'z cpu_ppc_scheme" where
  "ppc32_exec_ov_sub r a b c =
     (let sc = (a XOR b) AND (a XOR r) AND 0x80000000
      in if sc \<noteq> 0 then c\<lparr>xer := xer c OR (PPC32_XER_SO OR PPC32_XER_OV)\<rparr>
         else c\<lparr>xer := xer c AND NOT PPC32_XER_OV\<rparr>)"

definition ppc32_exec_ca_sum :: "u32 \<Rightarrow> u32 \<Rightarrow> u32 \<Rightarrow> 'z cpu_ppc_scheme \<Rightarrow> 'z cpu_ppc_scheme" where
  "ppc32_exec_ca_sum r a b c = c\<lparr>xer_ca := (if r < a then 1 else 0)\<rparr>"

definition ppc32_exec_ca_sub :: "u32 \<Rightarrow> u32 \<Rightarrow> u32 \<Rightarrow> 'z cpu_ppc_scheme \<Rightarrow> 'z cpu_ppc_scheme" where
  "ppc32_exec_ca_sub r a b c = c\<lparr>xer_ca := (if a < b then 1 else 0)\<rparr>"

text \<open>The branch condition; the count register may be decremented.\<close>

definition ppc32_check_cond :: "u32 \<Rightarrow> nat \<Rightarrow> 'z cpu_ppc_scheme \<Rightarrow> bool \<times> 'z cpu_ppc_scheme" where
  "ppc32_check_cond bo bi c =
     (let (ctr_ok, c) =
            (if bo AND 0x04 = 0 then
               (let c = c\<lparr>ctr := ctr c - 1\<rparr>
                in (of_bool (ctr c \<noteq> 0) XOR (drop_bit 1 bo AND 0x1), c))
             else (1 :: u32, c));
          cr_bit = ppc32_read_cr_bit bi c;
          cond_ok = drop_bit 4 bo OR ((cr_bit XOR drop_bit 3 (NOT bo)) AND 0x1)
      in (ctr_ok AND cond_ok \<noteq> 0, c))"

section \<open>Instructions\<close>

subsection \<open>Moves from and to the link and count registers\<close>

definition ppc32_exec_MFLR :: "'d ppc_insn_fn" where
  "ppc32_exec_MFLR _ insn c =
     (let rd = fld insn 21 25
      in Ok False (set_gpr rd (lr c) c))"

definition ppc32_exec_MTLR :: "'d ppc_insn_fn" where
  "ppc32_exec_MTLR _ insn c =
     (let rs = fld insn 21 25
      in Ok False (c\<lparr>lr := gpr c rs\<rparr>))"

definition ppc32_exec_MFCTR :: "'d ppc_insn_fn" where
  "ppc32_exec_MFCTR _ insn c =
     (let rd = fld insn 21 25
      in Ok False (set_gpr rd (ctr c) c))"

definition ppc32_exec_MTCTR :: "'d ppc_insn_fn" where
  "ppc32_exec_MTCTR _ insn c =
     (let rs = fld insn 21 25
      in Ok False (c\<lparr>ctr := gpr c rs\<rparr>))"

subsection \<open>Addition\<close>

definition ppc32_exec_ADD :: "'d ppc_insn_fn" where
  "ppc32_exec_ADD _ insn c =
     (let rd = fld insn 21 25; ra = fld insn 16 20; rb = fld insn 11 15
      in Ok False (set_gpr rd (gpr c ra + gpr c rb) c))"

definition ppc32_exec_ADD_dot :: "'d ppc_insn_fn" where
  "ppc32_exec_ADD_dot _ insn c =
     (let rd = fld insn 21 25; ra = fld insn 16 20; rb = fld insn 11 15;
          tmp = gpr c ra + gpr c rb;
          c = ppc32_exec_update_cr0 tmp c
      in Ok False (set_gpr rd tmp c))"

definition ppc32_exec_ADDO :: "'d ppc_insn_fn" where
  "ppc32_exec_ADDO _ insn c =
     (let rd = fld insn 21 25; ra = fld insn 16 20; rb = fld insn 11 15;
          a = gpr c ra; b = gpr c rb;
          d = a + b;
          c = ppc32_exec_ov_sum d a b c
      in Ok False (set_gpr rd d c))"

definition ppc32_exec_ADDO_dot :: "'d ppc_insn_fn" where
  "ppc32_exec_ADDO_dot _ insn c =
     (let rd = fld insn 21 25; ra = fld insn 16 20; rb = fld insn 11 15;
          a = gpr c ra; b = gpr c rb;
          d = a + b;
          c = ppc32_exec_ov_sum d a b c;
          c = ppc32_exec_update_cr0 d c
      in Ok False (set_gpr rd d c))"

definition ppc32_exec_ADDC :: "'d ppc_insn_fn" where
  "ppc32_exec_ADDC _ insn c =
     (let rd = fld insn 21 25; ra = fld insn 16 20; rb = fld insn 11 15;
          a = gpr c ra; b = gpr c rb;
          d = a + b;
          c = ppc32_exec_ca_sum d a b c
      in Ok False (set_gpr rd d c))"

definition ppc32_exec_ADDC_dot :: "'d ppc_insn_fn" where
  "ppc32_exec_ADDC_dot _ insn c =
     (let rd = fld insn 21 25; ra = fld insn 16 20; rb = fld insn 11 15;
          a = gpr c ra; b = gpr c rb;
          d = a + b;
          c = ppc32_exec_ca_sum d a b c;
          c = ppc32_exec_update_cr0 d c
      in Ok False (set_gpr rd d c))"

definition ppc32_exec_ADDCO :: "'d ppc_insn_fn" where
  "ppc32_exec_ADDCO _ insn c =
     (let rd = fld insn 21 25; ra = fld insn 16 20; rb = fld insn 11 15;
          a = gpr c ra; b = gpr c rb;
          d = a + b;
          c = ppc32_exec_ca_sum d a b c;
          c = ppc32_exec_ov_sum d a b c
      in Ok False (set_gpr rd d c))"

definition ppc32_exec_ADDCO_dot :: "'d ppc_insn_fn" where
  "ppc32_exec_ADDCO_dot _ insn c =
     (let rd = fld insn 21 25; ra = fld insn 16 20; rb = fld insn 11 15;
          a = gpr c ra; b = gpr c rb;
          d = a + b;
          c = ppc32_exec_ca_sum d a b c;
          c = ppc32_exec_ov_sum d a b c;
          c = ppc32_exec_update_cr0 d c
      in Ok False (set_gpr rd d c))"

definition ppc32_exec_ADDE :: "'d ppc_insn_fn" where
  "ppc32_exec_ADDE _ insn c =
     (let rd = fld insn 21 25; ra = fld insn 16 20; rb = fld insn 11 15;
          carry = xer_ca c;
          c = c\<lparr>xer_ca := 0\<rparr>;
          a = gpr c ra; b = gpr c rb;
          d = a + b + carry;
          c = (if b + carry < b \<or> d < a then c\<lparr>xer_ca := 1\<rparr> else c)
      in Ok False (set_gpr rd d c))"

definition ppc32_exec_ADDE_dot :: "'d ppc_insn_fn" where
  "ppc32_exec_ADDE_dot _ insn c =
     (let rd = fld insn 21 25; ra = fld insn 16 20; rb = fld insn 11 15;
          carry = xer_ca c;
          c = c\<lparr>xer_ca := 0\<rparr>;
          a = gpr c ra; b = gpr c rb;
          d = a + b + carry;
          c = (if b + carry < b \<or> d < a then c\<lparr>xer_ca := 1\<rparr> else c);
          c = ppc32_exec_update_cr0 d c
      in Ok False (set_gpr rd d c))"

definition ppc32_exec_ADDEO :: "'d ppc_insn_fn" where
  "ppc32_exec_ADDEO _ insn c =
     (let rd = fld insn 21 25; ra = fld insn 16 20; rb = fld insn 11 15;
          carry = xer_ca c;
          c = c\<lparr>xer_ca := 0\<rparr>;
          a = gpr c ra; b = gpr c rb;
          d = a + b + carry;
          c = (if b + carry < b \<or> d < a then c\<lparr>xer_ca := 1\<rparr> else c);
          c = ppc32_exec_ov_sum d a b c
      in Ok False (set_gpr rd d c))"

definition ppc32_exec_ADDEO_dot :: "'d ppc_insn_fn" where
  "ppc32_exec_ADDEO_dot _ insn c =
     (let rd = fld insn 21 25; ra = fld insn 16 20; rb = fld insn 11 15;
          carry = xer_ca c;
          c = c\<lparr>xer_ca := 0\<rparr>;
          a = gpr c ra; b = gpr c rb;
          d = a + b + carry;
          c = (if b + carry < b \<or> d < a then c\<lparr>xer_ca := 1\<rparr> else c);
          c = ppc32_exec_ov_sum d a b c;
          c = ppc32_exec_update_cr0 d c
      in Ok False (set_gpr rd d c))"

definition ppc32_exec_ADDI :: "'d ppc_insn_fn" where
  "ppc32_exec_ADDI _ insn c =
     (let rd = fld insn 21 25; ra = fld insn 16 20;
          imm = bits insn 0 15;
          tmp = sign_extend_32 imm 16;
          tmp = (if ra \<noteq> 0 then tmp + gpr c ra else tmp)
      in Ok False (set_gpr rd tmp c))"

definition ppc32_exec_ADDIC :: "'d ppc_insn_fn" where
  "ppc32_exec_ADDIC _ insn c =
     (let rd = fld insn 21 25; ra = fld insn 16 20;
          imm = bits insn 0 15;
          a = gpr c ra;
          d = a + sign_extend_32 imm 16;
          c = ppc32_exec_ca_sum d a 0 c
      in Ok False (set_gpr rd d c))"

definition ppc32_exec_ADDIC_dot :: "'d ppc_insn_fn" where
  "ppc32_exec_ADDIC_dot _ insn c =
     (let rd = fld insn 21 25; ra = fld insn 16 20;
          imm = bits insn 0 15;
          a = gpr c ra;
          d = a + sign_extend_32 imm 16;
          c = ppc32_exec_ca_sum d a 0 c;
          c = ppc32_exec_update_cr0 d c
      in Ok False (set_gpr rd d c))"

definition ppc32_exec_ADDIS :: "'d ppc_insn_fn" where
  "ppc32_exec_ADDIS _ insn c =
     (let rd = fld insn 21 25; ra = fld insn 16 20;
          imm = bits insn 0 15;
          tmp = push_bit 16 imm;
          tmp = (if ra \<noteq> 0 then tmp + gpr c ra else tmp)
      in Ok False (set_gpr rd tmp c))"

definition ppc32_exec_ADDME :: "'d ppc_insn_fn" where
  "ppc32_exec_ADDME _ insn c =
     (let rd = fld insn 21 25; ra = fld insn 16 20;
          carry = xer_ca c;
          c = c\<lparr>xer_ca := 0\<rparr>;
          a = gpr c ra; b = 0xFFFFFFFF;
          d = a + b + carry;
          c = (if b + carry < b \<or> d < a then c\<lparr>xer_ca := 1\<rparr> else c)
      in Ok False (set_gpr rd d c))"

definition ppc32_exec_ADDME_dot :: "'d ppc_insn_fn" where
  "ppc32_exec_ADDME_dot _ insn c =
     (let rd = fld insn 21 25; ra = fld insn 16 20;
          carry = xer_ca c;
          c = c\<lparr>xer_ca := 0\<rparr>;
          a = gpr c ra; b = 0xFFFFFFFF;
          d = a + b + carry;
          c = (if b + carry < b \<or> d < a then c\<lparr>xer_ca := 1\<rparr> else c);
          c = ppc32_exec_update_cr0 d c
      in Ok False (set_gpr rd d c))"

definition ppc32_exec_ADDZE :: "'d ppc_insn_fn" where
  "ppc32_exec_ADDZE _ insn c =
     (let rd = fld insn 21 25; ra = fld insn 16 20;
          carry = xer_ca c;
          c = c\<lparr>xer_ca := 0\<rparr>;
          a = gpr c ra;
          d = a + carry;
          c = (if d < a then c\<lparr>xer_ca := 1\<rparr> else c)
      in Ok False (set_gpr rd d c))"

definition ppc32_exec_ADDZE_dot :: "'d ppc_insn_fn" where
  "ppc32_exec_ADDZE_dot _ insn c =
     (let rd = fld insn 21 25; ra = fld insn 16 20;
          carry = xer_ca c;
          c = c\<lparr>xer_ca := 0\<rparr>;
          a = gpr c ra;
          d = a + carry;
          c = (if d < a then c\<lparr>xer_ca := 1\<rparr> else c);
          c = ppc32_exec_update_cr0 d c
      in Ok False (set_gpr rd d c))"

subsection \<open>Subtraction and negation\<close>

definition ppc32_exec_SUBF :: "'d ppc_insn_fn" where
  "ppc32_exec_SUBF _ insn c =
     (let rd = fld insn 21 25; ra = fld insn 16 20; rb = fld insn 11 15
      in Ok False (set_gpr rd (gpr c rb - gpr c ra) c))"

definition ppc32_exec_SUBF_dot :: "'d ppc_insn_fn" where
  "ppc32_exec_SUBF_dot _ insn c =
     (let rd = fld insn 21 25; ra = fld insn 16 20; rb = fld insn 11 15;
          tmp = gpr c rb - gpr c ra;
          c = ppc32_exec_update_cr0 tmp c
      in Ok False (set_gpr rd tmp c))"

definition ppc32_exec_SUBFO :: "'d ppc_insn_fn" where
  "ppc32_exec_SUBFO _ insn c =
     (let rd = fld insn 21 25; ra = fld insn 16 20; rb = fld insn 11 15;
          a = gpr c ra; b = gpr c rb;
          tmp = b - a;
          c = ppc32_exec_ov_sub tmp b a c
      in Ok False (set_gpr rd tmp c))"

definition ppc32_exec_SUBFO_dot :: "'d ppc_insn_fn" where
  "ppc32_exec_SUBFO_dot _ insn c =
     (let rd = fld insn 21 25; ra = fld insn 16 20; rb = fld insn 11 15;
          a = gpr c ra; b = gpr c rb;
          tmp = b - a;
          c = ppc32_exec_ov_sub tmp b a c;
          c = ppc32_exec_update_cr0 tmp c
      in Ok False (set_gpr rd tmp c))"

definition ppc32_exec_SUBFC :: "'d ppc_insn_fn" where
  "ppc32_exec_SUBFC _ insn c =
     (let rd = fld insn 21 25; ra = fld insn 16 20; rb = fld insn 11 15;
          a = NOT (gpr c ra); b = gpr c rb;
          tmp = a + 1;
          r = b + tmp;
          c = ppc32_exec_ca_sum tmp a 1 c;
          c = (if r < tmp then c\<lparr>xer_ca := 1\<rparr> else c)
      in Ok False (set_gpr rd r c))"

definition ppc32_exec_SUBFC_dot :: "'d ppc_insn_fn" where
  "ppc32_exec_SUBFC_dot _ insn c =
     (let rd = fld insn 21 25; ra = fld insn 16 20; rb = fld insn 11 15;
          a = NOT (gpr c ra); b = gpr c rb;
          tmp = a + 1;
          r = b + tmp;
          c = ppc32_exec_ca_sum tmp a 1 c;
          c = (if r < tmp then c\<lparr>xer_ca := 1\<rparr> else c);
          c = ppc32_exec_update_cr0 r c
      in Ok False (set_gpr rd r c))"

definition ppc32_exec_SUBFCO :: "'d ppc_insn_fn" where
  "ppc32_exec_SUBFCO _ insn c =
     (let rd = fld insn 21 25; ra = fld insn 16 20; rb = fld insn 11 15;
          a = gpr c ra; b = gpr c rb;
          tmp = b - a;
          c = ppc32_exec_ca_sub tmp b a c;
          c = ppc32_exec_ov_sub tmp b a c
      in Ok False (set_gpr rd tmp c))"

definition ppc32_exec_SUBFCO_dot :: "'d ppc_insn_fn" where
  "ppc32_exec_SUBFCO_dot _ insn c =
     (let rd = fld insn 21 25; ra = fld insn 16 20; rb = fld insn 11 15;
          a = gpr c ra; b = gpr c rb;
          tmp = b - a;
          c = ppc32_exec_ca_sub tmp b a c;
          c = ppc32_exec_ov_sub tmp b a c;
          c = ppc32_exec_update_cr0 tmp c
      in Ok False (set_gpr rd tmp c))"

definition ppc32_exec_SUBFE :: "'d ppc_insn_fn" where
  "ppc32_exec_SUBFE _ insn c =
     (let rd = fld insn 21 25; ra = fld insn 16 20; rb = fld insn 11 15;
          carry = xer_ca c;
          a = NOT (gpr c ra); b = gpr c rb;
          tmp = a + carry;
          r = b + tmp;
          c = ppc32_exec_ca_sum tmp a carry c;
          c = (if r < tmp then c\<lparr>xer_ca := 1\<rparr> else c)
      in Ok False (set_gpr rd r c))"

definition ppc32_exec_SUBFIC :: "'d ppc_insn_fn" where
  "ppc32_exec_SUBFIC _ insn c =
     (let rd = fld insn 21 25; ra = fld insn 16 20;
          imm = bits insn 0 15;
          a = NOT (gpr c ra); b = sign_extend_32 imm 16;
          tmp = a + 1;
          r = b + tmp;
          c = ppc32_exec_ca_sum tmp a 1 c;
          c = (if r < tmp then c\<lparr>xer_ca := 1\<rparr> else c)
      in Ok False (set_gpr rd r c))"

definition ppc32_exec_SUBFZE :: "'d ppc_insn_fn" where
  "ppc32_exec_SUBFZE _ insn c =
     (let rd = fld insn 21 25; ra = fld insn 16 20;
          carry = xer_ca c;
          a = NOT (gpr c ra);
          r = a + carry;
          c = (if r < a then c\<lparr>xer_ca := 1\<rparr> else c)
      in Ok False (set_gpr rd r c))"

definition ppc32_exec_SUBFZE_dot :: "'d ppc_insn_fn" where
  "ppc32_exec_SUBFZE_dot _ insn c =
     (let rd = fld insn 21 25; ra = fld insn 16 20;
          carry = xer_ca c;
          a = NOT (gpr c ra);
          r = a + carry;
          c = (if r < a then c\<lparr>xer_ca := 1\<rparr> else c);
          c = ppc32_exec_update_cr0 r c
      in Ok False (set_gpr rd r c))"

definition ppc32_exec_NEG :: "'d ppc_insn_fn" where
  "ppc32_exec_NEG _ insn c =
     (let rd = fld insn 21 25; ra = fld insn 16 20
      in Ok False (set_gpr rd (NOT (gpr c ra) + 1) c))"

definition ppc32_exec_NEG_dot :: "'d ppc_insn_fn" where
  "ppc32_exec_NEG_dot _ insn c =
     (let rd = fld insn 21 25; ra = fld insn 16 20;
          tmp = NOT (gpr c ra) + 1;
          c = ppc32_exec_update_cr0 tmp c
      in Ok False (set_gpr rd tmp c))"

definition ppc32_exec_NEGO :: "'d ppc_insn_fn" where
  "ppc32_exec_NEGO _ insn c =
     (let rd = fld insn 21 25; ra = fld insn 16 20;
          tmp = NOT (gpr c ra) + 1;
          c = set_gpr rd tmp c;
          c = c\<lparr>xer := xer c AND NOT PPC32_XER_OV\<rparr>;
          c = (if tmp = 0x80000000 then c\<lparr>xer := xer c OR (PPC32_XER_OV OR PPC32_XER_SO)\<rparr> else c)
      in Ok False (ppc32_exec_update_cr0 tmp c))"

definition ppc32_exec_NEGO_dot :: "'d ppc_insn_fn" where
  "ppc32_exec_NEGO_dot _ insn c =
     (let rd = fld insn 21 25; ra = fld insn 16 20;
          tmp = NOT (gpr c ra) + 1;
          c = set_gpr rd tmp c;
          c = c\<lparr>xer := xer c AND NOT PPC32_XER_OV\<rparr>;
          c = (if tmp = 0x80000000 then c\<lparr>xer := xer c OR (PPC32_XER_OV OR PPC32_XER_SO)\<rparr> else c)
      in Ok False (ppc32_exec_update_cr0 tmp c))"

subsection \<open>Multiplication and division\<close>

definition ppc32_exec_MULHW :: "'d ppc_insn_fn" where
  "ppc32_exec_MULHW _ insn c =
     (let rd = fld insn 21 25; ra = fld insn 16 20; rb = fld insn 11 15;
          tmp = (scast (gpr c ra) :: u64) * scast (gpr c rb);
          res = ucast (signed_drop_bit 32 tmp)
      in Ok False (set_gpr rd res c))"

definition ppc32_exec_MULHW_dot :: "'d ppc_insn_fn" where
  "ppc32_exec_MULHW_dot _ insn c =
     (let rd = fld insn 21 25; ra = fld insn 16 20; rb = fld insn 11 15;
          tmp = (scast (gpr c ra) :: u64) * scast (gpr c rb);
          res = ucast (signed_drop_bit 32 tmp);
          c = ppc32_exec_update_cr0 res c
      in Ok False (set_gpr rd res c))"

definition ppc32_exec_MULHWU :: "'d ppc_insn_fn" where
  "ppc32_exec_MULHWU _ insn c =
     (let rd = fld insn 21 25; ra = fld insn 16 20; rb = fld insn 11 15;
          tmp = (ucast (gpr c ra) :: u64) * ucast (gpr c rb);
          res = ucast (drop_bit 32 tmp)
      in Ok False (set_gpr rd res c))"

definition ppc32_exec_MULHWU_dot :: "'d ppc_insn_fn" where
  "ppc32_exec_MULHWU_dot _ insn c =
     (let rd = fld insn 21 25; ra = fld insn 16 20; rb = fld insn 11 15;
          tmp = (ucast (gpr c ra) :: u64) * ucast (gpr c rb);
          res = ucast (drop_bit 32 tmp);
          c = ppc32_exec_update_cr0 res c
      in Ok False (set_gpr rd res c))"

definition ppc32_exec_MULLI :: "'d ppc_insn_fn" where
  "ppc32_exec_MULLI _ insn c =
     (let rd = fld insn 21 25; ra = fld insn 16 20;
          imm = bits insn 0 15
      in Ok False (set_gpr rd (gpr c ra * sign_extend_32 imm 16) c))"

definition ppc32_exec_MULLW :: "'d ppc_insn_fn" where
  "ppc32_exec_MULLW _ insn c =
     (let rd = fld insn 21 25; ra = fld insn 16 20; rb = fld insn 11 15;
          tmp = (scast (gpr c ra) :: u64) * scast (gpr c rb)
      in Ok False (set_gpr rd (ucast tmp) c))"

definition ppc32_exec_MULLW_dot :: "'d ppc_insn_fn" where
  "ppc32_exec_MULLW_dot _ insn c =
     (let rd = fld insn 21 25; ra = fld insn 16 20; rb = fld insn 11 15;
          tmp = (scast (gpr c ra) :: u64) * scast (gpr c rb);
          res = ucast tmp;
          c = ppc32_exec_update_cr0 res c
      in Ok False (set_gpr rd res c))"

definition ppc32_exec_MULLWO :: "'d ppc_insn_fn" where
  "ppc32_exec_MULLWO _ insn c =
     (let rd = fld insn 21 25; ra = fld insn 16 20; rb = fld insn 11 15;
          tmp = (scast (gpr c ra) :: u64) * scast (gpr c rb);
          c = c\<lparr>xer := xer c AND NOT PPC32_XER_OV\<rparr>;
          c = (if tmp \<noteq> scast (ucast tmp :: u32) then c\<lparr>xer := xer c OR (PPC32_XER_OV OR PPC32_XER_SO)\<rparr> else c)
      in Ok False (set_gpr rd (ucast tmp) c))"

definition ppc32_exec_MULLWO_dot :: "'d ppc_insn_fn" where
  "ppc32_exec_MULLWO_dot _ insn c =
     (let rd = fld insn 21 25; ra = fld insn 16 20; rb = fld insn 11 15;
          tmp = (scast (gpr c ra) :: u64) * scast (gpr c rb);
          c = c\<lparr>xer := xer c AND NOT PPC32_XER_OV\<rparr>;
          c = (if tmp \<noteq> scast (ucast tmp :: u32) then c\<lparr>xer := xer c OR (PPC32_XER_OV OR PPC32_XER_SO)\<rparr> else c);
          res = ucast tmp;
          c = ppc32_exec_update_cr0 res c
      in Ok False (set_gpr rd res c))"

definition ppc32_exec_DIVW :: "'d ppc_insn_fn" where
  "ppc32_exec_DIVW _ insn c =
     (let rd = fld insn 21 25; ra = fld insn 16 20; rb = fld insn 11 15;
          a = gpr c ra; b = gpr c rb
      in Ok False (if \<not> (b = 0 \<or> gpr c ra = 0x80000000 \<and> b = -1)
                   then set_gpr rd (word_of_int (sint a sdiv sint b)) c else c))"

definition ppc32_exec_DIVW_dot :: "'d ppc_insn_fn" where
  "ppc32_exec_DIVW_dot _ insn c =
     (let rd = fld insn 21 25; ra = fld insn 16 20; rb = fld insn 11 15;
          a = gpr c ra; b = gpr c rb;
          d = (if \<not> (b = 0 \<or> gpr c ra = 0x80000000 \<and> b = -1) then word_of_int (sint a sdiv sint b) else 0);
          c = ppc32_exec_update_cr0 d c
      in Ok False (set_gpr rd d c))"

definition ppc32_exec_DIVWU :: "'d ppc_insn_fn" where
  "ppc32_exec_DIVWU _ insn c =
     (let rd = fld insn 21 25; ra = fld insn 16 20; rb = fld insn 11 15;
          a = gpr c ra; b = gpr c rb
      in Ok False (if b \<noteq> 0 then set_gpr rd (a div b) c else c))"

definition ppc32_exec_DIVWU_dot :: "'d ppc_insn_fn" where
  "ppc32_exec_DIVWU_dot _ insn c =
     (let rd = fld insn 21 25; ra = fld insn 16 20; rb = fld insn 11 15;
          a = gpr c ra; b = gpr c rb;
          d = (if b \<noteq> 0 then a div b else 0);
          c = ppc32_exec_update_cr0 d c
      in Ok False (set_gpr rd d c))"

subsection \<open>Logic\<close>

definition ppc32_exec_AND :: "'d ppc_insn_fn" where
  "ppc32_exec_AND _ insn c =
     (let rs = fld insn 21 25; ra = fld insn 16 20; rb = fld insn 11 15
      in Ok False (set_gpr ra (gpr c rs AND gpr c rb) c))"

definition ppc32_exec_AND_dot :: "'d ppc_insn_fn" where
  "ppc32_exec_AND_dot _ insn c =
     (let rs = fld insn 21 25; ra = fld insn 16 20; rb = fld insn 11 15;
          tmp = gpr c rs AND gpr c rb;
          c = ppc32_exec_update_cr0 tmp c
      in Ok False (set_gpr ra tmp c))"

definition ppc32_exec_ANDC :: "'d ppc_insn_fn" where
  "ppc32_exec_ANDC _ insn c =
     (let rs = fld insn 21 25; ra = fld insn 16 20; rb = fld insn 11 15
      in Ok False (set_gpr ra (gpr c rs AND NOT (gpr c rb)) c))"

definition ppc32_exec_ANDC_dot :: "'d ppc_insn_fn" where
  "ppc32_exec_ANDC_dot _ insn c =
     (let rs = fld insn 21 25; ra = fld insn 16 20; rb = fld insn 11 15;
          tmp = gpr c rs AND NOT (gpr c rb);
          c = ppc32_exec_update_cr0 tmp c
      in Ok False (set_gpr ra tmp c))"

definition ppc32_exec_ANDI_dot :: "'d ppc_insn_fn" where
  "ppc32_exec_ANDI_dot _ insn c =
     (let rs = fld insn 21 25; ra = fld insn 16 20;
          imm = bits insn 0 15;
          tmp = gpr c rs AND imm;
          c = ppc32_exec_update_cr0 tmp c
      in Ok False (set_gpr ra tmp c))"

definition ppc32_exec_ANDIS_dot :: "'d ppc_insn_fn" where
  "ppc32_exec_ANDIS_dot _ insn c =
     (let rs = fld insn 21 25; ra = fld insn 16 20;
          imm = bits insn 0 15;
          tmp = gpr c rs AND push_bit 16 imm;
          c = ppc32_exec_update_cr0 tmp c
      in Ok False (set_gpr ra tmp c))"

definition ppc32_exec_EQV :: "'d ppc_insn_fn" where
  "ppc32_exec_EQV _ insn c =
     (let rs = fld insn 21 25; ra = fld insn 16 20; rb = fld insn 11 15
      in Ok False (set_gpr ra (NOT (gpr c rs XOR gpr c rb)) c))"

definition ppc32_exec_EXTSB :: "'d ppc_insn_fn" where
  "ppc32_exec_EXTSB _ insn c =
     (let rs = fld insn 21 25; ra = fld insn 16 20
      in Ok False (set_gpr ra (sign_extend_32 (gpr c rs) 8) c))"

definition ppc32_exec_EXTSB_dot :: "'d ppc_insn_fn" where
  "ppc32_exec_EXTSB_dot _ insn c =
     (let rs = fld insn 21 25; ra = fld insn 16 20;
          tmp = sign_extend_32 (gpr c rs) 8;
          c = ppc32_exec_update_cr0 tmp c
      in Ok False (set_gpr ra tmp c))"

definition ppc32_exec_EXTSH :: "'d ppc_insn_fn" where
  "ppc32_exec_EXTSH _ insn c =
     (let rs = fld insn 21 25; ra = fld insn 16 20
      in Ok False (set_gpr ra (sign_extend_32 (gpr c rs) 16) c))"

definition ppc32_exec_EXTSH_dot :: "'d ppc_insn_fn" where
  "ppc32_exec_EXTSH_dot _ insn c =
     (let rs = fld insn 21 25; ra = fld insn 16 20;
          tmp = sign_extend_32 (gpr c rs) 16;
          c = ppc32_exec_update_cr0 tmp c
      in Ok False (set_gpr ra tmp c))"

definition ppc32_exec_NAND :: "'d ppc_insn_fn" where
  "ppc32_exec_NAND _ insn c =
     (let rs = fld insn 21 25; ra = fld insn 16 20; rb = fld insn 11 15
      in Ok False (set_gpr ra (NOT (gpr c rs AND gpr c rb)) c))"

definition ppc32_exec_NAND_dot :: "'d ppc_insn_fn" where
  "ppc32_exec_NAND_dot _ insn c =
     (let rs = fld insn 21 25; ra = fld insn 16 20; rb = fld insn 11 15;
          tmp = NOT (gpr c rs AND gpr c rb);
          c = ppc32_exec_update_cr0 tmp c
      in Ok False (set_gpr ra tmp c))"

definition ppc32_exec_NOR :: "'d ppc_insn_fn" where
  "ppc32_exec_NOR _ insn c =
     (let rs = fld insn 21 25; ra = fld insn 16 20; rb = fld insn 11 15
      in Ok False (set_gpr ra (NOT (gpr c rs OR gpr c rb)) c))"

definition ppc32_exec_NOR_dot :: "'d ppc_insn_fn" where
  "ppc32_exec_NOR_dot _ insn c =
     (let rs = fld insn 21 25; ra = fld insn 16 20; rb = fld insn 11 15;
          tmp = NOT (gpr c rs OR gpr c rb);
          c = ppc32_exec_update_cr0 tmp c
      in Ok False (set_gpr ra tmp c))"

definition ppc32_exec_OR :: "'d ppc_insn_fn" where
  "ppc32_exec_OR _ insn c =
     (let rs = fld insn 21 25; ra = fld insn 16 20; rb = fld insn 11 15
      in Ok False (set_gpr ra (gpr c rs OR gpr c rb) c))"

definition ppc32_exec_OR_dot :: "'d ppc_insn_fn" where
  "ppc32_exec_OR_dot _ insn c =
     (let rs = fld insn 21 25; ra = fld insn 16 20; rb = fld insn 11 15;
          tmp = gpr c rs OR gpr c rb;
          c = ppc32_exec_update_cr0 tmp c
      in Ok False (set_gpr ra tmp c))"

definition ppc32_exec_ORC :: "'d ppc_insn_fn" where
  "ppc32_exec_ORC _ insn c =
     (let rs = fld insn 21 25; ra = fld insn 16 20; rb = fld insn 11 15
      in Ok False (set_gpr ra (gpr c rs OR NOT (gpr c rb)) c))"

definition ppc32_exec_ORC_dot :: "'d ppc_insn_fn" where
  "ppc32_exec_ORC_dot _ insn c =
     (let rs = fld insn 21 25; ra = fld insn 16 20; rb = fld insn 11 15;
          tmp = gpr c rs OR NOT (gpr c rb);
          c = ppc32_exec_update_cr0 tmp c
      in Ok False (set_gpr ra tmp c))"

definition ppc32_exec_ORI :: "'d ppc_insn_fn" where
  "ppc32_exec_ORI _ insn c =
     (let rs = fld insn 21 25; ra = fld insn 16 20;
          imm = bits insn 0 15
      in Ok False (set_gpr ra (gpr c rs OR imm) c))"

definition ppc32_exec_XORI :: "'d ppc_insn_fn" where
  "ppc32_exec_XORI _ insn c =
     (let rs = fld insn 21 25; ra = fld insn 16 20;
          imm = bits insn 0 15
      in Ok False (set_gpr ra (gpr c rs XOR imm) c))"

definition ppc32_exec_ORIS :: "'d ppc_insn_fn" where
  "ppc32_exec_ORIS _ insn c =
     (let rs = fld insn 21 25; ra = fld insn 16 20;
          imm = bits insn 0 15
      in Ok False (set_gpr ra (gpr c rs OR push_bit 16 imm) c))"

definition ppc32_exec_XORIS :: "'d ppc_insn_fn" where
  "ppc32_exec_XORIS _ insn c =
     (let rs = fld insn 21 25; ra = fld insn 16 20;
          imm = bits insn 0 15
      in Ok False (set_gpr ra (gpr c rs XOR push_bit 16 imm) c))"

definition ppc32_exec_XOR :: "'d ppc_insn_fn" where
  "ppc32_exec_XOR _ insn c =
     (let rs = fld insn 21 25; ra = fld insn 16 20; rb = fld insn 11 15
      in Ok False (set_gpr ra (gpr c rs XOR gpr c rb) c))"

definition ppc32_exec_XOR_dot :: "'d ppc_insn_fn" where
  "ppc32_exec_XOR_dot _ insn c =
     (let rs = fld insn 21 25; ra = fld insn 16 20; rb = fld insn 11 15;
          tmp = gpr c rs XOR gpr c rb;
          c = ppc32_exec_update_cr0 tmp c
      in Ok False (set_gpr ra tmp c))"

text \<open>The loop of \<open>cntlzw\<close>: \<open>i\<close> grows to 32 while the mask moves right.\<close>

fun ppc_cntlzw :: "nat \<Rightarrow> u32 \<Rightarrow> u32 \<Rightarrow> u32" where
  "ppc_cntlzw 0 val mk = 32"
| "ppc_cntlzw (Suc k) val mk = (if val AND mk \<noteq> 0 then of_nat (32 - Suc k) else ppc_cntlzw k val (drop_bit 1 mk))"


definition ppc32_exec_CNTLZW :: "'d ppc_insn_fn" where
  "ppc32_exec_CNTLZW _ insn c =
     (let rs = fld insn 21 25; ra = fld insn 16 20
      in Ok False (set_gpr ra (ppc_cntlzw 32 (gpr c rs) 0x80000000) c))"

subsection \<open>Rotates and shifts\<close>

definition ppc_rotl :: "'d ppc_env \<Rightarrow> u32 \<Rightarrow> u32 \<Rightarrow> u32" where
  "ppc_rotl env s sh = ppc_shl32 env s sh OR ppc_shr32 env s (32 - sh)"


definition ppc32_exec_RLWIMI :: "'d ppc_insn_fn" where
  "ppc32_exec_RLWIMI env insn c =
     (let rs = fld insn 21 25; ra = fld insn 16 20; mb = fld insn 6 10; me = fld insn 1 5;
          sh = bits insn 11 15;
          r = ppc_rotl env (gpr c rs) sh;
          mk = ppc32_rotate_mask mb me
      in Ok False (set_gpr ra ((r AND mk) OR (gpr c ra AND NOT mk)) c))"

definition ppc32_exec_RLWIMI_dot :: "'d ppc_insn_fn" where
  "ppc32_exec_RLWIMI_dot env insn c =
     (let rs = fld insn 21 25; ra = fld insn 16 20; mb = fld insn 6 10; me = fld insn 1 5;
          sh = bits insn 11 15;
          r = ppc_rotl env (gpr c rs) sh;
          mk = ppc32_rotate_mask mb me;
          tmp = (r AND mk) OR (gpr c ra AND NOT mk);
          c = ppc32_exec_update_cr0 tmp c
      in Ok False (set_gpr ra tmp c))"

definition ppc32_exec_RLWINM :: "'d ppc_insn_fn" where
  "ppc32_exec_RLWINM env insn c =
     (let rs = fld insn 21 25; ra = fld insn 16 20; mb = fld insn 6 10; me = fld insn 1 5;
          sh = bits insn 11 15;
          r = ppc_rotl env (gpr c rs) sh;
          mk = ppc32_rotate_mask mb me
      in Ok False (set_gpr ra (r AND mk) c))"

definition ppc32_exec_RLWINM_dot :: "'d ppc_insn_fn" where
  "ppc32_exec_RLWINM_dot env insn c =
     (let rs = fld insn 21 25; ra = fld insn 16 20; mb = fld insn 6 10; me = fld insn 1 5;
          sh = bits insn 11 15;
          r = ppc_rotl env (gpr c rs) sh;
          mk = ppc32_rotate_mask mb me;
          tmp = r AND mk;
          c = ppc32_exec_update_cr0 tmp c
      in Ok False (set_gpr ra tmp c))"

definition ppc32_exec_RLWNM :: "'d ppc_insn_fn" where
  "ppc32_exec_RLWNM env insn c =
     (let rs = fld insn 21 25; ra = fld insn 16 20; rb = fld insn 11 15; mb = fld insn 6 10;
          me = fld insn 1 5;
          sh = gpr c rb AND 0x1f;
          r = ppc_rotl env (gpr c rs) sh;
          mk = ppc32_rotate_mask mb me
      in Ok False (set_gpr ra (r AND mk) c))"

definition ppc32_exec_RLWNM_dot :: "'d ppc_insn_fn" where
  "ppc32_exec_RLWNM_dot env insn c =
     (let rs = fld insn 21 25; ra = fld insn 16 20; rb = fld insn 11 15; mb = fld insn 6 10;
          me = fld insn 1 5;
          sh = gpr c rb AND 0x1f;
          r = ppc_rotl env (gpr c rs) sh;
          mk = ppc32_rotate_mask mb me;
          tmp = r AND mk;
          c = ppc32_exec_update_cr0 tmp c
      in Ok False (set_gpr ra tmp c))"

definition ppc32_exec_SLW :: "'d ppc_insn_fn" where
  "ppc32_exec_SLW env insn c =
     (let rs = fld insn 21 25; ra = fld insn 16 20; rb = fld insn 11 15;
          s = gpr c rb AND 0x3f
      in Ok False (set_gpr ra (if s AND 0x20 = 0 then ppc_shl32 env (gpr c rs) s else 0) c))"

definition ppc32_exec_SLW_dot :: "'d ppc_insn_fn" where
  "ppc32_exec_SLW_dot env insn c =
     (let rs = fld insn 21 25; ra = fld insn 16 20; rb = fld insn 11 15;
          s = gpr c rb AND 0x3f;
          tmp = (if s AND 0x20 = 0 then ppc_shl32 env (gpr c rs) s else 0);
          c = ppc32_exec_update_cr0 tmp c
      in Ok False (set_gpr ra tmp c))"

definition ppc32_exec_SRW :: "'d ppc_insn_fn" where
  "ppc32_exec_SRW env insn c =
     (let rs = fld insn 21 25; ra = fld insn 16 20; rb = fld insn 11 15;
          s = gpr c rb AND 0x3f
      in Ok False (set_gpr ra (if s AND 0x20 = 0 then ppc_shr32 env (gpr c rs) s else 0) c))"

definition ppc32_exec_SRW_dot :: "'d ppc_insn_fn" where
  "ppc32_exec_SRW_dot env insn c =
     (let rs = fld insn 21 25; ra = fld insn 16 20; rb = fld insn 11 15;
          s = gpr c rb AND 0x3f;
          tmp = (if s AND 0x20 = 0 then ppc_shr32 env (gpr c rs) s else 0);
          c = ppc32_exec_update_cr0 tmp c
      in Ok False (set_gpr ra tmp c))"

definition ppc32_exec_SRAW :: "'d ppc_insn_fn" where
  "ppc32_exec_SRAW env insn c =
     (let rs = fld insn 21 25; ra = fld insn 16 20; rb = fld insn 11 15;
          c = c\<lparr>xer_ca := 0\<rparr>;
          s = gpr c rs; sh = gpr c rb
      in if sh AND 0x20 \<noteq> 0 then
           (let c = set_gpr ra (signed_drop_bit 31 s) c in Ok False (c\<lparr>xer_ca := gpr c ra AND 0x1\<rparr>))
         else
           (let c = set_gpr ra (ppc_sar32 env s sh) c; mk = NOT (ppc_shl32 env 0xFFFFFFFF sh)
            in Ok False (if s AND 0x80000000 \<noteq> 0 \<and> s AND mk \<noteq> 0 then c\<lparr>xer_ca := 1\<rparr> else c)))"

definition ppc32_exec_SRAWI :: "'d ppc_insn_fn" where
  "ppc32_exec_SRAWI env insn c =
     (let rs = fld insn 21 25; ra = fld insn 16 20;
          sh = bits insn 11 15;
          c = c\<lparr>xer_ca := 0\<rparr>;
          s = gpr c rs;
          c = set_gpr ra (ppc_sar32 env s sh) c;
          mk = NOT (ppc_shl32 env 0xFFFFFFFF sh)
      in Ok False (if s AND 0x80000000 \<noteq> 0 \<and> s AND mk \<noteq> 0 then c\<lparr>xer_ca := 1\<rparr> else c))"

definition ppc32_exec_SRAWI_dot :: "'d ppc_insn_fn" where
  "ppc32_exec_SRAWI_dot env insn c =
     (let rs = fld insn 21 25; ra = fld insn 16 20;
          sh = bits insn 11 15;
          c = c\<lparr>xer_ca := 0\<rparr>;
          s = gpr c rs;
          r = ppc_sar32 env s sh; mk = NOT (ppc_shl32 env 0xFFFFFFFF sh);
          c = (if s AND 0x80000000 \<noteq> 0 \<and> s AND mk \<noteq> 0 then c\<lparr>xer_ca := 1\<rparr> else c);
          c = ppc32_exec_update_cr0 r c
      in Ok False (set_gpr ra r c))"

subsection \<open>Branches\<close>

definition ppc32_exec_B :: "'d ppc_insn_fn" where
  "ppc32_exec_B _ insn c =
     (let offset = bits insn 2 25
      in Ok True (c\<lparr>ia := ia c + sign_extend_32 (push_bit 2 offset) 26\<rparr>))"

definition ppc32_exec_BA :: "'d ppc_insn_fn" where
  "ppc32_exec_BA _ insn c =
     (let offset = bits insn 2 25
      in Ok True (c\<lparr>ia := sign_extend_32 (push_bit 2 offset) 26\<rparr>))"

definition ppc32_exec_BL :: "'d ppc_insn_fn" where
  "ppc32_exec_BL _ insn c =
     (let offset = bits insn 2 25;
          c = c\<lparr>lr := ia c + 4\<rparr>
      in Ok True (c\<lparr>ia := ia c + sign_extend_32 (push_bit 2 offset) 26\<rparr>))"

definition ppc32_exec_BLA :: "'d ppc_insn_fn" where
  "ppc32_exec_BLA _ insn c =
     (let offset = bits insn 2 25;
          c = c\<lparr>lr := ia c + 4\<rparr>
      in Ok True (c\<lparr>ia := sign_extend_32 (push_bit 2 offset) 26\<rparr>))"

definition ppc32_exec_BC :: "'d ppc_insn_fn" where
  "ppc32_exec_BC _ insn c =
     (let bo = bits insn 21 25; bi = fld insn 16 20; bd = bits insn 2 15;
          (ok, c) = ppc32_check_cond bo bi c
      in if ok then Ok True (c\<lparr>ia := ia c + sign_extend_32 (push_bit 2 bd) 16\<rparr>) else Ok False c)"

definition ppc32_exec_BCA :: "'d ppc_insn_fn" where
  "ppc32_exec_BCA _ insn c =
     (let bo = bits insn 21 25; bi = fld insn 16 20; bd = bits insn 2 15;
          (ok, c) = ppc32_check_cond bo bi c
      in if ok then Ok True (c\<lparr>ia := sign_extend_32 (push_bit 2 bd) 16\<rparr>) else Ok False c)"

definition ppc32_exec_BCL :: "'d ppc_insn_fn" where
  "ppc32_exec_BCL _ insn c =
     (let bo = bits insn 21 25; bi = fld insn 16 20; bd = bits insn 2 15;
          c = c\<lparr>lr := ia c + 4\<rparr>;
          (ok, c) = ppc32_check_cond bo bi c
      in if ok then Ok True (c\<lparr>ia := ia c + sign_extend_32 (push_bit 2 bd) 16\<rparr>) else Ok False c)"

definition ppc32_exec_BCLA :: "'d ppc_insn_fn" where
  "ppc32_exec_BCLA _ insn c =
     (let bo = bits insn 21 25; bi = fld insn 16 20; bd = bits insn 2 15;
          c = c\<lparr>lr := ia c + 4\<rparr>;
          (ok, c) = ppc32_check_cond bo bi c
      in if ok then Ok True (c\<lparr>ia := sign_extend_32 (push_bit 2 bd) 16\<rparr>) else Ok False c)"

definition ppc32_exec_BCLR :: "'d ppc_insn_fn" where
  "ppc32_exec_BCLR _ insn c =
     (let bo = bits insn 21 25; bi = fld insn 16 20;
          (ok, c) = ppc32_check_cond bo bi c
      in if ok then Ok True (c\<lparr>ia := lr c AND NOT 0x3\<rparr>) else Ok False c)"

definition ppc32_exec_BCLRL :: "'d ppc_insn_fn" where
  "ppc32_exec_BCLRL _ insn c =
     (let bo = bits insn 21 25; bi = fld insn 16 20;
          new_ia = lr c AND NOT 0x03;
          c = c\<lparr>lr := ia c + 4\<rparr>;
          (ok, c) = ppc32_check_cond bo bi c
      in if ok then Ok True (c\<lparr>ia := new_ia\<rparr>) else Ok False c)"

definition ppc32_exec_BCCTR :: "'d ppc_insn_fn" where
  "ppc32_exec_BCCTR _ insn c =
     (let bo = bits insn 21 25; bi = fld insn 16 20;
          (ok, c) = ppc32_check_cond bo bi c
      in if ok then Ok True (c\<lparr>ia := ctr c AND NOT 0x3\<rparr>) else Ok False c)"

definition ppc32_exec_BCCTRL :: "'d ppc_insn_fn" where
  "ppc32_exec_BCCTRL _ insn c =
     (let bo = bits insn 21 25; bi = fld insn 16 20;
          c = c\<lparr>lr := ia c + 4\<rparr>;
          (ok, c) = ppc32_check_cond bo bi c
      in if ok then Ok True (c\<lparr>ia := ctr c AND NOT 0x3\<rparr>) else Ok False c)"

subsection \<open>Comparisons\<close>

text \<open>The four comparisons set a field from "less", "greater" and the summary overflow bit.\<close>

definition ppc_cmp_field :: "bool \<Rightarrow> bool \<Rightarrow> 'z cpu_ppc_scheme \<Rightarrow> u32" where
  "ppc_cmp_field lt gt c =
     (let res = (if lt then 0x08 else if gt then 0x04 else 0x02)
      in if xer c AND PPC32_XER_SO \<noteq> 0 then res OR 0x01 else res)"


definition ppc32_exec_CMP :: "'d ppc_insn_fn" where
  "ppc32_exec_CMP _ insn c =
     (let crd = fld insn 23 25; ra = fld insn 16 20; rb = fld insn 11 15;
          a = gpr c ra; b = gpr c rb
      in Ok False (set_cr_field crd (ppc_cmp_field (sint a < sint b) (sint b < sint a) c) c))"

definition ppc32_exec_CMPI :: "'d ppc_insn_fn" where
  "ppc32_exec_CMPI _ insn c =
     (let crd = fld insn 23 25; ra = fld insn 16 20;
          imm = bits insn 0 15;
          a = gpr c ra; b = sign_extend_32 imm 16
      in Ok False (set_cr_field crd (ppc_cmp_field (sint a < sint b) (sint b < sint a) c) c))"

definition ppc32_exec_CMPL :: "'d ppc_insn_fn" where
  "ppc32_exec_CMPL _ insn c =
     (let crd = fld insn 23 25; ra = fld insn 16 20; rb = fld insn 11 15;
          a = gpr c ra; b = gpr c rb
      in Ok False (set_cr_field crd (ppc_cmp_field (a < b) (b < a) c) c))"

definition ppc32_exec_CMPLI :: "'d ppc_insn_fn" where
  "ppc32_exec_CMPLI _ insn c =
     (let crd = fld insn 23 25; ra = fld insn 16 20;
          imm = bits insn 0 15;
          a = gpr c ra; b = imm
      in Ok False (set_cr_field crd (ppc_cmp_field (a < b) (b < a) c) c))"

subsection \<open>Condition register logic\<close>

definition ppc32_exec_CRAND :: "'d ppc_insn_fn" where
  "ppc32_exec_CRAND _ insn c =
     (let bd = fld insn 21 25; bb = fld insn 16 20; ba = fld insn 11 15;
          tmp = ppc32_read_cr_bit ba c;
          tmp = tmp AND ppc32_read_cr_bit bb c
      in Ok False (if tmp AND 0x1 \<noteq> 0 then ppc32_set_cr_bit bd c else ppc32_clear_cr_bit bd c))"

definition ppc32_exec_CREQV :: "'d ppc_insn_fn" where
  "ppc32_exec_CREQV _ insn c =
     (let bd = fld insn 21 25; bb = fld insn 16 20; ba = fld insn 11 15;
          tmp = ppc32_read_cr_bit ba c;
          tmp = tmp XOR ppc32_read_cr_bit bb c
      in Ok False (if tmp AND 0x1 = 0 then ppc32_set_cr_bit bd c else ppc32_clear_cr_bit bd c))"

definition ppc32_exec_CRANDC :: "'d ppc_insn_fn" where
  "ppc32_exec_CRANDC _ insn c =
     (let bd = fld insn 21 25; bb = fld insn 16 20; ba = fld insn 11 15;
          tmp = ppc32_read_cr_bit ba c;
          tmp = tmp AND NOT (ppc32_read_cr_bit bb c)
      in Ok False (if tmp AND 0x1 \<noteq> 0 then ppc32_set_cr_bit bd c else ppc32_clear_cr_bit bd c))"

definition ppc32_exec_CRNAND :: "'d ppc_insn_fn" where
  "ppc32_exec_CRNAND _ insn c =
     (let bd = fld insn 21 25; bb = fld insn 16 20; ba = fld insn 11 15;
          tmp = ppc32_read_cr_bit ba c;
          tmp = tmp AND ppc32_read_cr_bit bb c
      in Ok False (if tmp AND 0x1 = 0 then ppc32_set_cr_bit bd c else ppc32_clear_cr_bit bd c))"

definition ppc32_exec_CRNOR :: "'d ppc_insn_fn" where
  "ppc32_exec_CRNOR _ insn c =
     (let bd = fld insn 21 25; bb = fld insn 16 20; ba = fld insn 11 15;
          tmp = ppc32_read_cr_bit ba c;
          tmp = tmp OR ppc32_read_cr_bit bb c
      in Ok False (if tmp AND 0x1 = 0 then ppc32_set_cr_bit bd c else ppc32_clear_cr_bit bd c))"

definition ppc32_exec_CROR :: "'d ppc_insn_fn" where
  "ppc32_exec_CROR _ insn c =
     (let bd = fld insn 21 25; bb = fld insn 16 20; ba = fld insn 11 15;
          tmp = ppc32_read_cr_bit ba c;
          tmp = tmp OR ppc32_read_cr_bit bb c
      in Ok False (if tmp AND 0x1 \<noteq> 0 then ppc32_set_cr_bit bd c else ppc32_clear_cr_bit bd c))"

definition ppc32_exec_CRORC :: "'d ppc_insn_fn" where
  "ppc32_exec_CRORC _ insn c =
     (let bd = fld insn 21 25; bb = fld insn 16 20; ba = fld insn 11 15;
          tmp = ppc32_read_cr_bit ba c;
          tmp = tmp OR NOT (ppc32_read_cr_bit bb c)
      in Ok False (if tmp AND 0x1 \<noteq> 0 then ppc32_set_cr_bit bd c else ppc32_clear_cr_bit bd c))"

definition ppc32_exec_CRXOR :: "'d ppc_insn_fn" where
  "ppc32_exec_CRXOR _ insn c =
     (let bd = fld insn 21 25; bb = fld insn 16 20; ba = fld insn 11 15;
          tmp = ppc32_read_cr_bit ba c;
          tmp = tmp XOR ppc32_read_cr_bit bb c
      in Ok False (if tmp AND 0x1 \<noteq> 0 then ppc32_set_cr_bit bd c else ppc32_clear_cr_bit bd c))"

definition ppc32_exec_MCRF :: "'d ppc_insn_fn" where
  "ppc32_exec_MCRF _ insn c =
     (let crd = fld insn 23 25; crs = fld insn 18 20
      in Ok False (set_cr_field crd (cr_fields c crs) c))"

definition ppc32_exec_MFCR :: "'d ppc_insn_fn" where
  "ppc32_exec_MFCR _ insn c =
     (let rd = fld insn 21 25
      in Ok False (set_gpr rd (ppc32_get_cr c) c))"

definition ppc32_exec_MTCRF :: "'d ppc_insn_fn" where
  "ppc32_exec_MTCRF _ insn c =
     (let rs = fld insn 21 25;
          crm = bits insn 12 19
      in Ok False (fold (\<lambda>i c. if crm AND push_bit (7 - i) 1 \<noteq> 0
                          then set_cr_field i (drop_bit (28 - 4 * i) (gpr c rs) AND 0x0F) c else c) [0..<8] c))"

subsection \<open>Cache and synchronisation instructions without effect\<close>

definition ppc32_exec_DCBF :: "'d ppc_insn_fn" where
  "ppc32_exec_DCBF _ _ c =
     Ok False c"

definition ppc32_exec_DCBI :: "'d ppc_insn_fn" where
  "ppc32_exec_DCBI _ _ c =
     Ok False c"

definition ppc32_exec_DCBT :: "'d ppc_insn_fn" where
  "ppc32_exec_DCBT _ _ c =
     Ok False c"

definition ppc32_exec_DCBST :: "'d ppc_insn_fn" where
  "ppc32_exec_DCBST _ _ c =
     Ok False c"

definition ppc32_exec_EIEIO :: "'d ppc_insn_fn" where
  "ppc32_exec_EIEIO _ _ c =
     Ok False c"

definition ppc32_exec_ISYNC :: "'d ppc_insn_fn" where
  "ppc32_exec_ISYNC _ _ c =
     Ok False c"

definition ppc32_exec_SYNC :: "'d ppc_insn_fn" where
  "ppc32_exec_SYNC _ _ c =
     Ok False c"

definition ppc32_exec_TLBSYNC :: "'d ppc_insn_fn" where
  "ppc32_exec_TLBSYNC _ _ c =
     Ok False c"

definition ppc32_exec_DCCCI :: "'d ppc_insn_fn" where
  "ppc32_exec_DCCCI _ _ c =
     Ok False c"

definition ppc32_exec_ICCCI :: "'d ppc_insn_fn" where
  "ppc32_exec_ICCCI _ _ c =
     Ok False c"

definition ppc32_exec_MFDCR :: "'d ppc_insn_fn" where
  "ppc32_exec_MFDCR _ _ c =
     Ok False c"

definition ppc32_exec_MTDCR :: "'d ppc_insn_fn" where
  "ppc32_exec_MTDCR _ _ c =
     Ok False c"

subsection \<open>Loads and stores\<close>

text \<open>The two effective addresses: register (0 for register 0) plus immediate or plus register.\<close>

definition ppc_ea_imm :: "u32 \<Rightarrow> 'z cpu_ppc_scheme \<Rightarrow> u32" where
  "ppc_ea_imm insn c =
     (let ra = fld insn 16 20; imm = bits insn 0 15; vaddr = sign_extend_32 imm 16
      in if ra \<noteq> 0 then vaddr + gpr c ra else vaddr)"

definition ppc_ea_index :: "u32 \<Rightarrow> 'z cpu_ppc_scheme \<Rightarrow> u32" where
  "ppc_ea_index insn c =
     (let ra = fld insn 16 20; rb = fld insn 11 15; vaddr = gpr c rb
      in if ra \<noteq> 0 then vaddr + gpr c ra else vaddr)"


definition ppc32_exec_ICBI :: "'d ppc_insn_fn" where
  "ppc32_exec_ICBI env insn c =
     (let vaddr = ppc_ea_index insn c
      in obind (ppc32_icbi env vaddr 0 c) (\<lambda>_ c. Ok False c))"

definition ppc32_exec_LBZ :: "'d ppc_insn_fn" where
  "ppc32_exec_LBZ env insn c =
     (let rd = fld insn 21 25;
          vaddr = ppc_ea_imm insn c
      in obind (ppc32_lbz env vaddr rd c) (\<lambda>_ c. Ok False c))"

definition ppc32_exec_LBZU :: "'d ppc_insn_fn" where
  "ppc32_exec_LBZU env insn c =
     (let rd = fld insn 21 25; ra = fld insn 16 20;
          imm = bits insn 0 15;
          vaddr = gpr c ra + sign_extend_32 imm 16
      in obind (ppc32_lbz env vaddr rd c) (\<lambda>_ c. Ok False (set_gpr ra vaddr c)))"

definition ppc32_exec_LBZUX :: "'d ppc_insn_fn" where
  "ppc32_exec_LBZUX env insn c =
     (let rd = fld insn 21 25; ra = fld insn 16 20; rb = fld insn 11 15;
          vaddr = gpr c ra + gpr c rb
      in obind (ppc32_lbz env vaddr rd c) (\<lambda>_ c. Ok False (set_gpr ra vaddr c)))"

definition ppc32_exec_LBZX :: "'d ppc_insn_fn" where
  "ppc32_exec_LBZX env insn c =
     (let rd = fld insn 21 25;
          vaddr = ppc_ea_index insn c
      in obind (ppc32_lbz env vaddr rd c) (\<lambda>_ c. Ok False c))"

definition ppc32_exec_LHA :: "'d ppc_insn_fn" where
  "ppc32_exec_LHA env insn c =
     (let rd = fld insn 21 25;
          vaddr = ppc_ea_imm insn c
      in obind (ppc32_lha env vaddr rd c) (\<lambda>_ c. Ok False c))"

definition ppc32_exec_LHAU :: "'d ppc_insn_fn" where
  "ppc32_exec_LHAU env insn c =
     (let rd = fld insn 21 25; ra = fld insn 16 20;
          imm = bits insn 0 15;
          vaddr = gpr c ra + sign_extend_32 imm 16
      in obind (ppc32_lha env vaddr rd c) (\<lambda>_ c. Ok False (set_gpr ra vaddr c)))"

definition ppc32_exec_LHAUX :: "'d ppc_insn_fn" where
  "ppc32_exec_LHAUX env insn c =
     (let rd = fld insn 21 25; ra = fld insn 16 20; rb = fld insn 11 15;
          vaddr = gpr c ra + gpr c rb
      in obind (ppc32_lha env vaddr rd c) (\<lambda>_ c. Ok False (set_gpr ra vaddr c)))"

definition ppc32_exec_LHAX :: "'d ppc_insn_fn" where
  "ppc32_exec_LHAX env insn c =
     (let rd = fld insn 21 25;
          vaddr = ppc_ea_index insn c
      in obind (ppc32_lha env vaddr rd c) (\<lambda>_ c. Ok False c))"

definition ppc32_exec_LHZ :: "'d ppc_insn_fn" where
  "ppc32_exec_LHZ env insn c =
     (let rd = fld insn 21 25;
          vaddr = ppc_ea_imm insn c
      in obind (ppc32_lhz env vaddr rd c) (\<lambda>_ c. Ok False c))"

definition ppc32_exec_LHZU :: "'d ppc_insn_fn" where
  "ppc32_exec_LHZU env insn c =
     (let rd = fld insn 21 25; ra = fld insn 16 20;
          imm = bits insn 0 15;
          vaddr = gpr c ra + sign_extend_32 imm 16
      in obind (ppc32_lhz env vaddr rd c) (\<lambda>_ c. Ok False (set_gpr ra vaddr c)))"

definition ppc32_exec_LHZUX :: "'d ppc_insn_fn" where
  "ppc32_exec_LHZUX env insn c =
     (let rd = fld insn 21 25; ra = fld insn 16 20; rb = fld insn 11 15;
          vaddr = gpr c ra + gpr c rb
      in obind (ppc32_lhz env vaddr rd c) (\<lambda>_ c. Ok False (set_gpr ra vaddr c)))"

definition ppc32_exec_LHZX :: "'d ppc_insn_fn" where
  "ppc32_exec_LHZX env insn c =
     (let rd = fld insn 21 25;
          vaddr = ppc_ea_index insn c
      in obind (ppc32_lhz env vaddr rd c) (\<lambda>_ c. Ok False c))"

definition ppc32_exec_LWZ :: "'d ppc_insn_fn" where
  "ppc32_exec_LWZ env insn c =
     (let rd = fld insn 21 25;
          vaddr = ppc_ea_imm insn c
      in obind (ppc32_lwz env vaddr rd c) (\<lambda>_ c. Ok False c))"

definition ppc32_exec_LWZU :: "'d ppc_insn_fn" where
  "ppc32_exec_LWZU env insn c =
     (let rd = fld insn 21 25; ra = fld insn 16 20;
          imm = bits insn 0 15;
          vaddr = gpr c ra + sign_extend_32 imm 16
      in obind (ppc32_lwz env vaddr rd c) (\<lambda>_ c. Ok False (set_gpr ra vaddr c)))"

definition ppc32_exec_LWZUX :: "'d ppc_insn_fn" where
  "ppc32_exec_LWZUX env insn c =
     (let rd = fld insn 21 25; ra = fld insn 16 20; rb = fld insn 11 15;
          vaddr = gpr c ra + gpr c rb
      in obind (ppc32_lwz env vaddr rd c) (\<lambda>_ c. Ok False (set_gpr ra vaddr c)))"

definition ppc32_exec_LWZX :: "'d ppc_insn_fn" where
  "ppc32_exec_LWZX env insn c =
     (let rd = fld insn 21 25;
          vaddr = ppc_ea_index insn c
      in obind (ppc32_lwz env vaddr rd c) (\<lambda>_ c. Ok False c))"

definition ppc32_exec_LFD :: "'d ppc_insn_fn" where
  "ppc32_exec_LFD env insn c =
     (let rd = fld insn 21 25;
          vaddr = ppc_ea_imm insn c
      in obind (ppc32_lfd env vaddr rd c) (\<lambda>_ c. Ok False c))"

definition ppc32_exec_LFDU :: "'d ppc_insn_fn" where
  "ppc32_exec_LFDU env insn c =
     (let rd = fld insn 21 25; ra = fld insn 16 20;
          imm = bits insn 0 15;
          vaddr = gpr c ra + sign_extend_32 imm 16
      in obind (ppc32_lfd env vaddr rd c) (\<lambda>_ c. Ok False (set_gpr ra vaddr c)))"

definition ppc32_exec_LFDUX :: "'d ppc_insn_fn" where
  "ppc32_exec_LFDUX env insn c =
     (let rd = fld insn 21 25; ra = fld insn 16 20; rb = fld insn 11 15;
          vaddr = gpr c ra + gpr c rb
      in obind (ppc32_lfd env vaddr rd c) (\<lambda>_ c. Ok False (set_gpr ra vaddr c)))"

definition ppc32_exec_LFDX :: "'d ppc_insn_fn" where
  "ppc32_exec_LFDX env insn c =
     (let rd = fld insn 21 25;
          vaddr = ppc_ea_index insn c
      in obind (ppc32_lfd env vaddr rd c) (\<lambda>_ c. Ok False c))"

definition ppc32_exec_STB :: "'d ppc_insn_fn" where
  "ppc32_exec_STB env insn c =
     (let rs = fld insn 21 25;
          vaddr = ppc_ea_imm insn c
      in obind (ppc32_stb env vaddr rs c) (\<lambda>_ c. Ok False c))"

definition ppc32_exec_STBU :: "'d ppc_insn_fn" where
  "ppc32_exec_STBU env insn c =
     (let rs = fld insn 21 25; ra = fld insn 16 20;
          imm = bits insn 0 15;
          vaddr = gpr c ra + sign_extend_32 imm 16
      in obind (ppc32_stb env vaddr rs c) (\<lambda>_ c. Ok False (set_gpr ra vaddr c)))"

definition ppc32_exec_STBUX :: "'d ppc_insn_fn" where
  "ppc32_exec_STBUX env insn c =
     (let rs = fld insn 21 25; ra = fld insn 16 20; rb = fld insn 11 15;
          vaddr = gpr c ra + gpr c rb
      in obind (ppc32_stb env vaddr rs c) (\<lambda>_ c. Ok False (set_gpr ra vaddr c)))"

definition ppc32_exec_STBX :: "'d ppc_insn_fn" where
  "ppc32_exec_STBX env insn c =
     (let rs = fld insn 21 25;
          vaddr = ppc_ea_index insn c
      in obind (ppc32_stb env vaddr rs c) (\<lambda>_ c. Ok False c))"

definition ppc32_exec_STH :: "'d ppc_insn_fn" where
  "ppc32_exec_STH env insn c =
     (let rs = fld insn 21 25;
          vaddr = ppc_ea_imm insn c
      in obind (ppc32_sth env vaddr rs c) (\<lambda>_ c. Ok False c))"

definition ppc32_exec_STHU :: "'d ppc_insn_fn" where
  "ppc32_exec_STHU env insn c =
     (let rs = fld insn 21 25; ra = fld insn 16 20;
          imm = bits insn 0 15;
          vaddr = gpr c ra + sign_extend_32 imm 16
      in obind (ppc32_sth env vaddr rs c) (\<lambda>_ c. Ok False (set_gpr ra vaddr c)))"

definition ppc32_exec_STHUX :: "'d ppc_insn_fn" where
  "ppc32_exec_STHUX env insn c =
     (let rs = fld insn 21 25; ra = fld insn 16 20; rb = fld insn 11 15;
          vaddr = gpr c ra + gpr c rb
      in obind (ppc32_sth env vaddr rs c) (\<lambda>_ c. Ok False (set_gpr ra vaddr c)))"

definition ppc32_exec_STHX :: "'d ppc_insn_fn" where
  "ppc32_exec_STHX env insn c =
     (let rs = fld insn 21 25;
          vaddr = ppc_ea_index insn c
      in obind (ppc32_sth env vaddr rs c) (\<lambda>_ c. Ok False c))"

definition ppc32_exec_STW :: "'d ppc_insn_fn" where
  "ppc32_exec_STW env insn c =
     (let rs = fld insn 21 25;
          vaddr = ppc_ea_imm insn c
      in obind (ppc32_stw env vaddr rs c) (\<lambda>_ c. Ok False c))"

definition ppc32_exec_STWU :: "'d ppc_insn_fn" where
  "ppc32_exec_STWU env insn c =
     (let rs = fld insn 21 25; ra = fld insn 16 20;
          imm = bits insn 0 15;
          vaddr = gpr c ra + sign_extend_32 imm 16
      in obind (ppc32_stw env vaddr rs c) (\<lambda>_ c. Ok False (set_gpr ra vaddr c)))"

definition ppc32_exec_STWUX :: "'d ppc_insn_fn" where
  "ppc32_exec_STWUX env insn c =
     (let rs = fld insn 21 25; ra = fld insn 16 20; rb = fld insn 11 15;
          vaddr = gpr c ra + gpr c rb
      in obind (ppc32_stw env vaddr rs c) (\<lambda>_ c. Ok False (set_gpr ra vaddr c)))"

definition ppc32_exec_STWX :: "'d ppc_insn_fn" where
  "ppc32_exec_STWX env insn c =
     (let rs = fld insn 21 25;
          vaddr = ppc_ea_index insn c
      in obind (ppc32_stw env vaddr rs c) (\<lambda>_ c. Ok False c))"

definition ppc32_exec_STFD :: "'d ppc_insn_fn" where
  "ppc32_exec_STFD env insn c =
     (let rs = fld insn 21 25;
          vaddr = ppc_ea_imm insn c
      in obind (ppc32_stfd env vaddr rs c) (\<lambda>_ c. Ok False c))"

definition ppc32_exec_STFDU :: "'d ppc_insn_fn" where
  "ppc32_exec_STFDU env insn c =
     (let rs = fld insn 21 25; ra = fld insn 16 20;
          imm = bits insn 0 15;
          vaddr = gpr c ra + sign_extend_32 imm 16
      in obind (ppc32_stfd env vaddr rs c) (\<lambda>_ c. Ok False (set_gpr ra vaddr c)))"

definition ppc32_exec_STFDUX :: "'d ppc_insn_fn" where
  "ppc32_exec_STFDUX env insn c =
     (let rs = fld insn 21 25; ra = fld insn 16 20; rb = fld insn 11 15;
          vaddr = gpr c ra + gpr c rb
      in obind (ppc32_stfd env vaddr rs c) (\<lambda>_ c. Ok False (set_gpr ra vaddr c)))"

definition ppc32_exec_STFDX :: "'d ppc_insn_fn" where
  "ppc32_exec_STFDX env insn c =
     (let rs = fld insn 21 25;
          vaddr = ppc_ea_index insn c
      in obind (ppc32_stfd env vaddr rs c) (\<lambda>_ c. Ok False c))"

text \<open>The loops of the multiple-word instructions, over the registers \<open>rs\<close>.\<close>

fun ppc_multiple :: "'d ppc_memop_fn \<Rightarrow> 'd ppc_env \<Rightarrow> nat list \<Rightarrow> u32 \<Rightarrow> 'd ppc_vm \<Rightarrow> (unit, 'd ppc_vm) outcome" where
  "ppc_multiple f env [] vaddr c = Ok () c"
| "ppc_multiple f env (r # rs) vaddr c = obind (f env vaddr r c) (\<lambda>_ c. ppc_multiple f env rs (vaddr + 4) c)"


definition ppc32_exec_LMW :: "'d ppc_insn_fn" where
  "ppc32_exec_LMW env insn c =
     (let rd = fld insn 21 25;
          vaddr = ppc_ea_imm insn c
      in obind (ppc_multiple ppc32_lwz env [rd..<32] vaddr c) (\<lambda>_ c. Ok False c))"

definition ppc32_exec_STMW :: "'d ppc_insn_fn" where
  "ppc32_exec_STMW env insn c =
     (let rs = fld insn 21 25;
          vaddr = ppc_ea_imm insn c
      in obind (ppc_multiple ppc32_stw env [rs..<32] vaddr c) (\<lambda>_ c. Ok False c))"

definition ppc32_exec_LWBRX :: "'d ppc_insn_fn" where
  "ppc32_exec_LWBRX env insn c =
     (let rd = fld insn 21 25;
          vaddr = ppc_ea_index insn c
      in obind (ppc32_lwbr env vaddr rd c) (\<lambda>_ c. Ok False c))"

definition ppc32_exec_STWBRX :: "'d ppc_insn_fn" where
  "ppc32_exec_STWBRX env insn c =
     (let rs = fld insn 21 25;
          vaddr = ppc_ea_index insn c
      in obind (ppc32_stwbr env vaddr rs c) (\<lambda>_ c. Ok False c))"

definition ppc32_exec_LWARX :: "'d ppc_insn_fn" where
  "ppc32_exec_LWARX env insn c =
     (let rd = fld insn 21 25;
          vaddr = ppc_ea_index insn c;
          c = c\<lparr>reserve := 1\<rparr>
      in obind (ppc32_lwz env vaddr rd c) (\<lambda>_ c. Ok False c))"

definition ppc32_exec_STWCX_dot :: "'d ppc_insn_fn" where
  "ppc32_exec_STWCX_dot env insn c =
     (let rs = fld insn 21 25;
          vaddr = ppc_ea_index insn c
      in if reserve c \<noteq> 0 then
           obind (ppc32_stw env vaddr rs c)
             (\<lambda>_ c. let c = set_cr_field 0 (push_bit PPC32_CR_EQ_BIT 1) c;
                        c = (if xer c AND PPC32_XER_SO \<noteq> 0
                             then set_cr_field 0 (cr_fields c 0 OR push_bit PPC32_CR_SO_BIT 1) c else c)
                    in Ok False (c\<lparr>reserve := 0\<rparr>))
         else
           (let c = set_cr_field 0 0 c
            in Ok False (if xer c AND PPC32_XER_SO \<noteq> 0
                         then set_cr_field 0 (cr_fields c 0 OR push_bit PPC32_CR_SO_BIT 1) c else c)))"

text \<open>The loops of the string instructions: \<open>nb\<close> bytes, four per register, from register \<open>r + 1\<close> on. A
  load clears a register before its first byte.\<close>

definition ppc_string_next :: "'d ppc_vm \<Rightarrow> 'd ppc_vm" where
  "ppc_string_next c =
     (let c = c\<lparr>sw_pos := sw_pos c + 8\<rparr> in if sw_pos c = 32 then c\<lparr>sw_pos := 0\<rparr> else c)"

fun ppc_load_string :: "'d ppc_env \<Rightarrow> nat \<Rightarrow> u32 \<Rightarrow> u32 \<Rightarrow> 'd ppc_vm \<Rightarrow> (unit, 'd ppc_vm) outcome" where
  "ppc_load_string env 0 r vaddr c = Ok () c"
| "ppc_load_string env (Suc nb) r vaddr c =
     (let r' = (if sw_pos c = 0 then (r + 1) AND 0x1F else r);
          c = (if sw_pos c = 0 then set_gpr (unat r') 0 c else c)
      in obind (ppc32_lsw env vaddr (unat r') c)
           (\<lambda>_ c. ppc_load_string env nb r' (vaddr + 1) (ppc_string_next c)))"

fun ppc_store_string :: "'d ppc_env \<Rightarrow> nat \<Rightarrow> u32 \<Rightarrow> u32 \<Rightarrow> 'd ppc_vm \<Rightarrow> (unit, 'd ppc_vm) outcome" where
  "ppc_store_string env 0 r vaddr c = Ok () c"
| "ppc_store_string env (Suc nb) r vaddr c =
     (let r' = (if sw_pos c = 0 then (r + 1) AND 0x1F else r)
      in obind (ppc32_stsw env vaddr (unat r') c)
           (\<lambda>_ c. ppc_store_string env nb r' (vaddr + 1) (ppc_string_next c)))"


definition ppc32_exec_LSWI :: "'d ppc_insn_fn" where
  "ppc32_exec_LSWI env insn c =
     (let ra = fld insn 16 20; nb = fld insn 11 15;
          r = bits insn 21 25 - 1;
          vaddr = (if ra \<noteq> 0 then 0 + gpr c ra else 0);
          nb = (if nb = 0 then 32 else nb);
          c = c\<lparr>sw_pos := 0\<rparr>
      in obind (ppc_load_string env nb r vaddr c) (\<lambda>_ c. Ok False c))"

definition ppc32_exec_LSWX :: "'d ppc_insn_fn" where
  "ppc32_exec_LSWX env insn c =
     (let r = bits insn 21 25 - 1;
          vaddr = ppc_ea_index insn c;
          nb = unat (xer c AND PPC32_XER_BC_MASK);
          c = c\<lparr>sw_pos := 0\<rparr>
      in obind (ppc_load_string env nb r vaddr c) (\<lambda>_ c. Ok False c))"

definition ppc32_exec_STSWI :: "'d ppc_insn_fn" where
  "ppc32_exec_STSWI env insn c =
     (let ra = fld insn 16 20; nb = fld insn 11 15;
          r = bits insn 21 25 - 1;
          vaddr = (if ra \<noteq> 0 then 0 + gpr c ra else 0);
          nb = (if nb = 0 then 32 else nb);
          c = c\<lparr>sw_pos := 0\<rparr>
      in obind (ppc_store_string env nb r vaddr c) (\<lambda>_ c. Ok False c))"

definition ppc32_exec_STSWX :: "'d ppc_insn_fn" where
  "ppc32_exec_STSWX env insn c =
     (let r = bits insn 21 25 - 1;
          vaddr = ppc_ea_index insn c;
          nb = unat (xer c AND PPC32_XER_BC_MASK);
          c = c\<lparr>sw_pos := 0\<rparr>
      in obind (ppc_store_string env nb r vaddr c) (\<lambda>_ c. Ok False c))"

subsection \<open>Special registers\<close>

definition ppc32_exec_MFMSR :: "'d ppc_insn_fn" where
  "ppc32_exec_MFMSR _ insn c =
     (let rd = fld insn 21 25
      in Ok False (set_gpr rd (msr c) c))"

definition ppc32_exec_MFTBU :: "'d ppc_insn_fn" where
  "ppc32_exec_MFTBU _ insn c =
     (let rd = fld insn 21 25
      in Ok False (set_gpr rd (ucast (drop_bit 32 (tb c))) c))"

definition ppc32_exec_MFTBL :: "'d ppc_insn_fn" where
  "ppc32_exec_MFTBL _ insn c =
     (let rd = fld insn 21 25;
          c = c\<lparr>tb := tb c + 50\<rparr>
      in Ok False (set_gpr rd (ucast (tb c AND 0xFFFFFFFF)) c))"

text \<open>The \<open>switch\<close> of \<open>mfspr\<close>.\<close>

definition ppc_read_spr :: "u32 \<Rightarrow> 'z cpu_ppc_scheme \<Rightarrow> u32" where
  "ppc_read_spr spr c =
     (if spr = 1 then xer c OR push_bit PPC32_XER_CA_BIT (xer_ca c)
      else if spr = 18 then dsisr c
      else if spr = 19 then dar c
      else if spr = 22 then dec c
      else if spr = 25 then sdr1 c
      else if spr = 26 then srr0 c
      else if spr = 27 then srr1 c
      else if spr = 268 then ucast (tb c AND 0xFFFFFFFF)
      else if spr = 269 then ucast (drop_bit 32 (tb c))
      else if spr = 272 then sprg c 0
      else if spr = 273 then sprg c 1
      else if spr = 274 then sprg c 2
      else if spr = 275 then sprg c 3
      else if spr = 287 then pvr c
      else if spr = 1008 then hid0 c
      else if spr = 1009 then hid1 c
      else if spr = 945 then ppc405_pid c
      else if spr = 638 then mpc860_immr c
      else 0)"


definition ppc32_exec_MFSPR :: "'d ppc_insn_fn" where
  "ppc32_exec_MFSPR _ insn c =
     (let rd = fld insn 21 25;
          spr0 = bits insn 16 20; spr1 = bits insn 11 15;
          spr = push_bit 5 spr1 OR spr0;
          c = set_gpr rd 0 c
      in if spr1 = 0x10 \<or> spr1 = 0x11 then Ok False (set_gpr rd (ppc32_get_bat_spr spr c) c)
         else Ok False (set_gpr rd (ppc_read_spr spr c) c))"

text \<open>The \<open>switch\<close> of \<open>mtspr\<close>. A write of SDR1 leaves \<open>sdr1_hptr\<close> as it is.\<close>

definition ppc_write_spr :: "u32 \<Rightarrow> u32 \<Rightarrow> 'z cpu_ppc_scheme \<Rightarrow> 'z cpu_ppc_scheme" where
  "ppc_write_spr spr v c =
     (if spr = 1 then
        (let c = c\<lparr>xer := v AND NOT PPC32_XER_CA\<rparr> in c\<lparr>xer_ca := drop_bit PPC32_XER_CA_BIT v AND 0x1\<rparr>)
      else if spr = 22 then (let c = c\<lparr>dec := v\<rparr> in c\<lparr>timer_irq_armed := 1\<rparr>)
      else if spr = 25 then ppc32_mem_invalidate_cache (c\<lparr>sdr1 := v\<rparr>)
      else if spr = 26 then c\<lparr>srr0 := v\<rparr>
      else if spr = 27 then c\<lparr>srr1 := v\<rparr>
      else if spr = 272 then c\<lparr>sprg := (sprg c)(0 := v)\<rparr>
      else if spr = 273 then c\<lparr>sprg := (sprg c)(1 := v)\<rparr>
      else if spr = 274 then c\<lparr>sprg := (sprg c)(2 := v)\<rparr>
      else if spr = 275 then c\<lparr>sprg := (sprg c)(3 := v)\<rparr>
      else if spr = 1008 then c\<lparr>hid0 := v\<rparr>
      else if spr = 1009 then c\<lparr>hid1 := v\<rparr>
      else if spr = 945 then c\<lparr>ppc405_pid := v\<rparr>
      else c)"


definition ppc32_exec_MTSPR :: "'d ppc_insn_fn" where
  "ppc32_exec_MTSPR _ insn c =
     (let rd = fld insn 21 25;
          spr0 = bits insn 16 20; spr1 = bits insn 11 15;
          spr = push_bit 5 spr1 OR spr0
      in if spr1 = 0x10 \<or> spr1 = 0x11 then Ok False (ppc32_set_bat_spr spr (gpr c rd) c)
         else Ok False (ppc_write_spr spr (gpr c rd) c))"

definition ppc32_exec_MFSR :: "'d ppc_insn_fn" where
  "ppc32_exec_MFSR _ insn c =
     (let rd = fld insn 21 25;
          srn = fld insn 16 19
      in Ok False (set_gpr rd (sr c srn) c))"

definition ppc32_exec_MFSRIN :: "'d ppc_insn_fn" where
  "ppc32_exec_MFSRIN _ insn c =
     (let rd = fld insn 21 25; rb = fld insn 11 15
      in Ok False (set_gpr rd (sr c (unat (drop_bit 28 (gpr c rb)))) c))"

definition ppc32_exec_MTSR :: "'d ppc_insn_fn" where
  "ppc32_exec_MTSR _ insn c =
     (let rs = fld insn 21 25;
          srn = fld insn 16 19
      in Ok False (ppc32_mem_invalidate_cache (c\<lparr>sr := (sr c)(srn := gpr c rs)\<rparr>)))"

definition ppc32_exec_MTMSR :: "'d ppc_insn_fn" where
  "ppc32_exec_MTMSR _ insn c =
     (let rs = fld insn 21 25;
          c = c\<lparr>msr := gpr c rs\<rparr>
      in Ok False (c\<lparr>irq_check := of_bool (msr c AND PPC32_MSR_EE \<noteq> 0 \<and> irq_pending c \<noteq> 0)\<rparr>))"

subsection \<open>System call, return from interrupt, traps, TLB\<close>

definition ppc32_exec_RFI :: "'d ppc_insn_fn" where
  "ppc32_exec_RFI _ _ c =
     (let c = c\<lparr>msr := msr c AND NOT PPC32_RFI_MSR_MASK\<rparr>;
          c = c\<lparr>msr := msr c OR (srr1 c AND PPC32_RFI_MSR_MASK)\<rparr>;
          c = c\<lparr>msr := msr c AND NOT (push_bit 13 1)\<rparr>;
          c = c\<lparr>ia := srr0 c AND NOT 0x03\<rparr>
      in Ok True (c\<lparr>irq_check := of_bool (msr c AND PPC32_MSR_EE \<noteq> 0 \<and> irq_pending c \<noteq> 0)\<rparr>))"

definition ppc32_exec_SC :: "'d ppc_insn_fn" where
  "ppc32_exec_SC _ _ c =
     Ok True (ppc32_trigger_exception PPC32_EXC_SYSCALL c)"

definition ppc32_exec_TLBIA :: "'d ppc_insn_fn" where
  "ppc32_exec_TLBIA _ _ c =
     Ok False (ppc32_mem_invalidate_cache c)"

definition ppc32_exec_TLBIE :: "'d ppc_insn_fn" where
  "ppc32_exec_TLBIE _ _ c =
     Ok False (ppc32_mem_invalidate_cache c)"

definition ppc_trap_cond :: "u32 \<Rightarrow> u32 \<Rightarrow> u32 \<Rightarrow> bool" where
  "ppc_trap_cond to a b \<longleftrightarrow>
     sint a < sint b \<and> to AND 0x10 \<noteq> 0 \<or> sint b < sint a \<and> to AND 0x08 \<noteq> 0 \<or> a = b \<and> to AND 0x04 \<noteq> 0 \<or>
     a < b \<and> to AND 0x02 \<noteq> 0 \<or> b < a \<and> to AND 0x01 \<noteq> 0"


definition ppc32_exec_TW :: "'d ppc_insn_fn" where
  "ppc32_exec_TW _ insn c =
     (let ra = fld insn 16 20; rb = fld insn 11 15;
          to = bits insn 21 25;
          a = gpr c ra; b = gpr c rb
      in if ppc_trap_cond to a b then
           (let c = ppc32_trigger_exception PPC32_EXC_PROG c in Ok True (c\<lparr>srr1 := srr1 c OR push_bit 17 1\<rparr>))
         else Ok False c)"

definition ppc32_exec_TWI :: "'d ppc_insn_fn" where
  "ppc32_exec_TWI _ insn c =
     (let ra = fld insn 16 20;
          to = bits insn 21 25; imm = bits insn 0 15;
          a = gpr c ra; b = ucast (sign_extend (ucast imm) 16)
      in if ppc_trap_cond to a b then
           (let c = ppc32_trigger_exception PPC32_EXC_PROG c in Ok True (c\<lparr>srr1 := srr1 c OR push_bit 17 1\<rparr>))
         else Ok False c)"

definition ppc32_exec_TLBRE :: "'d ppc_insn_fn" where
  "ppc32_exec_TLBRE _ insn c =
     (let rt = fld insn 21 25; ra = fld insn 16 20; ws = fld insn 11 15;
          index = unat (gpr c ra AND 0x3F)
      in if ws = 1 then Ok False (set_gpr rt (tlb_lo (ppc405_tlb c index)) c)
         else
           (let c = set_gpr rt (tlb_hi (ppc405_tlb c index)) c
            in Ok False (c\<lparr>ppc405_pid := tid (ppc405_tlb c index)\<rparr>)))"

definition ppc32_exec_TLBWE :: "'d ppc_insn_fn" where
  "ppc32_exec_TLBWE _ insn c =
     (let rs = fld insn 21 25; ra = fld insn 16 20; ws = fld insn 11 15;
          index = unat (gpr c ra AND 0x3F)
      in if ws = 1 then
           Ok False (c\<lparr>ppc405_tlb := (ppc405_tlb c)(index := (ppc405_tlb c index)\<lparr>tlb_lo := gpr c rs\<rparr>)\<rparr>)
         else
           (let c = c\<lparr>ppc405_tlb := (ppc405_tlb c)(index := (ppc405_tlb c index)\<lparr>tlb_hi := gpr c rs\<rparr>)\<rparr>
            in Ok False (c\<lparr>ppc405_tlb := (ppc405_tlb c)(index := (ppc405_tlb c index)\<lparr>tid := ppc405_pid c\<rparr>)\<rparr>)))"

definition ppc32_exec_unknown :: "'d ppc_insn_fn" where
  "ppc32_exec_unknown _ _ c =
     Ok False c"

section \<open>The instruction table\<close>

text \<open>\<open>ppc32_exec_tags\<close>, in the order of the source: the first match wins, so the moves of LR and CTR
  come before the general \<open>mfspr\<close> and \<open>mtspr\<close>, and the catch-all \<open>unknown\<close> is last.\<close>

record 'd ppc32_insn_exec_tag =
  tag_name :: string
  tag_exec :: "'d ppc_insn_fn"
  tag_mask :: u32
  tag_value :: u32

definition mk_ppc_tag :: "string \<Rightarrow> 'd ppc_insn_fn \<Rightarrow> u32 \<Rightarrow> u32 \<Rightarrow> 'd ppc32_insn_exec_tag" where
  "mk_ppc_tag n e m v = \<lparr>tag_name = n, tag_exec = e, tag_mask = m, tag_value = v\<rparr>"

definition ppc32_exec_tags :: "'d ppc32_insn_exec_tag list" where
  "ppc32_exec_tags =
     [mk_ppc_tag ''mflr'' ppc32_exec_MFLR 0xfc1fffff 0x7c0802a6,
      mk_ppc_tag ''mtlr'' ppc32_exec_MTLR 0xfc1fffff 0x7c0803a6,
      mk_ppc_tag ''mfctr'' ppc32_exec_MFCTR 0xfc1fffff 0x7c0902a6,
      mk_ppc_tag ''mtctr'' ppc32_exec_MTCTR 0xfc1fffff 0x7c0903a6,
      mk_ppc_tag ''add'' ppc32_exec_ADD 0xfc0007ff 0x7c000214,
      mk_ppc_tag ''add.'' ppc32_exec_ADD_dot 0xfc0007ff 0x7c000215,
      mk_ppc_tag ''addo'' ppc32_exec_ADDO 0xfc0007ff 0x7c000614,
      mk_ppc_tag ''addo.'' ppc32_exec_ADDO_dot 0xfc0007ff 0x7c000615,
      mk_ppc_tag ''addc'' ppc32_exec_ADDC 0xfc0007ff 0x7c000014,
      mk_ppc_tag ''addc.'' ppc32_exec_ADDC_dot 0xfc0007ff 0x7c000015,
      mk_ppc_tag ''addco'' ppc32_exec_ADDCO 0xfc0007ff 0x7c000414,
      mk_ppc_tag ''addco.'' ppc32_exec_ADDCO_dot 0xfc0007ff 0x7c000415,
      mk_ppc_tag ''adde'' ppc32_exec_ADDE 0xfc0007ff 0x7c000114,
      mk_ppc_tag ''adde.'' ppc32_exec_ADDE_dot 0xfc0007ff 0x7c000115,
      mk_ppc_tag ''addeo'' ppc32_exec_ADDEO 0xfc0007ff 0x7c000514,
      mk_ppc_tag ''addeo.'' ppc32_exec_ADDEO_dot 0xfc0007ff 0x7c000515,
      mk_ppc_tag ''addi'' ppc32_exec_ADDI 0xfc000000 0x38000000,
      mk_ppc_tag ''addic'' ppc32_exec_ADDIC 0xfc000000 0x30000000,
      mk_ppc_tag ''addic.'' ppc32_exec_ADDIC_dot 0xfc000000 0x34000000,
      mk_ppc_tag ''addis'' ppc32_exec_ADDIS 0xfc000000 0x3c000000,
      mk_ppc_tag ''addme'' ppc32_exec_ADDME 0xfc00ffff 0x7c0001d4,
      mk_ppc_tag ''addme.'' ppc32_exec_ADDME_dot 0xfc00ffff 0x7c0001d5,
      mk_ppc_tag ''addze'' ppc32_exec_ADDZE 0xfc00ffff 0x7c000194,
      mk_ppc_tag ''addze.'' ppc32_exec_ADDZE_dot 0xfc00ffff 0x7c000195,
      mk_ppc_tag ''and'' ppc32_exec_AND 0xfc0007ff 0x7c000038,
      mk_ppc_tag ''and.'' ppc32_exec_AND_dot 0xfc0007ff 0x7c000039,
      mk_ppc_tag ''andc'' ppc32_exec_ANDC 0xfc0007ff 0x7c000078,
      mk_ppc_tag ''andc.'' ppc32_exec_ANDC_dot 0xfc0007ff 0x7c000079,
      mk_ppc_tag ''andi.'' ppc32_exec_ANDI_dot 0xfc000000 0x70000000,
      mk_ppc_tag ''andis.'' ppc32_exec_ANDIS_dot 0xfc000000 0x74000000,
      mk_ppc_tag ''b'' ppc32_exec_B 0xfc000003 0x48000000,
      mk_ppc_tag ''ba'' ppc32_exec_BA 0xfc000003 0x48000002,
      mk_ppc_tag ''bl'' ppc32_exec_BL 0xfc000003 0x48000001,
      mk_ppc_tag ''bla'' ppc32_exec_BLA 0xfc000003 0x48000003,
      mk_ppc_tag ''bc'' ppc32_exec_BC 0xfc000003 0x40000000,
      mk_ppc_tag ''bca'' ppc32_exec_BCA 0xfc000003 0x40000002,
      mk_ppc_tag ''bcl'' ppc32_exec_BCL 0xfc000003 0x40000001,
      mk_ppc_tag ''bcla'' ppc32_exec_BCLA 0xfc000003 0x40000003,
      mk_ppc_tag ''bclr'' ppc32_exec_BCLR 0xfc00ffff 0x4c000020,
      mk_ppc_tag ''bclrl'' ppc32_exec_BCLRL 0xfc00ffff 0x4c000021,
      mk_ppc_tag ''bcctr'' ppc32_exec_BCCTR 0xfc00ffff 0x4c000420,
      mk_ppc_tag ''bcctrl'' ppc32_exec_BCCTRL 0xfc00ffff 0x4c000421,
      mk_ppc_tag ''cmp'' ppc32_exec_CMP 0xfc6007ff 0x7c000000,
      mk_ppc_tag ''cmpi'' ppc32_exec_CMPI 0xfc600000 0x2c000000,
      mk_ppc_tag ''cmpl'' ppc32_exec_CMPL 0xfc6007ff 0x7c000040,
      mk_ppc_tag ''cmpli'' ppc32_exec_CMPLI 0xfc600000 0x28000000,
      mk_ppc_tag ''cntlzw'' ppc32_exec_CNTLZW 0xfc00ffff 0x7c000034,
      mk_ppc_tag ''crand'' ppc32_exec_CRAND 0xfc0007ff 0x4c000202,
      mk_ppc_tag ''crandc'' ppc32_exec_CRANDC 0xfc0007ff 0x4c000102,
      mk_ppc_tag ''creqv'' ppc32_exec_CREQV 0xfc0007ff 0x4c000242,
      mk_ppc_tag ''crnand'' ppc32_exec_CRNAND 0xfc0007ff 0x4c0001c2,
      mk_ppc_tag ''crnor'' ppc32_exec_CRNOR 0xfc0007ff 0x4c000042,
      mk_ppc_tag ''cror'' ppc32_exec_CROR 0xfc0007ff 0x4c000382,
      mk_ppc_tag ''crorc'' ppc32_exec_CRORC 0xfc0007ff 0x4c000342,
      mk_ppc_tag ''crxor'' ppc32_exec_CRXOR 0xfc0007ff 0x4c000182,
      mk_ppc_tag ''dcbf'' ppc32_exec_DCBF 0xffe007ff 0x7c0000ac,
      mk_ppc_tag ''dcbi'' ppc32_exec_DCBI 0xffe007ff 0x7c0003ac,
      mk_ppc_tag ''dcbt'' ppc32_exec_DCBT 0xffe007ff 0x7c00022c,
      mk_ppc_tag ''dcbst'' ppc32_exec_DCBST 0xffe007ff 0x7c00006c,
      mk_ppc_tag ''divw'' ppc32_exec_DIVW 0xfc0007ff 0x7c0003d6,
      mk_ppc_tag ''divw.'' ppc32_exec_DIVW_dot 0xfc0007ff 0x7c0003d7,
      mk_ppc_tag ''divwu'' ppc32_exec_DIVWU 0xfc0007ff 0x7c000396,
      mk_ppc_tag ''divwu.'' ppc32_exec_DIVWU_dot 0xfc0007ff 0x7c000397,
      mk_ppc_tag ''eieio'' ppc32_exec_EIEIO 0xffffffff 0x7c0006ac,
      mk_ppc_tag ''eqv'' ppc32_exec_EQV 0xfc0007ff 0x7c000238,
      mk_ppc_tag ''extsb'' ppc32_exec_EXTSB 0xfc00ffff 0x7c000774,
      mk_ppc_tag ''extsb.'' ppc32_exec_EXTSB_dot 0xfc00ffff 0x7c000775,
      mk_ppc_tag ''extsh'' ppc32_exec_EXTSH 0xfc00ffff 0x7c000734,
      mk_ppc_tag ''extsh.'' ppc32_exec_EXTSH_dot 0xfc00ffff 0x7c000735,
      mk_ppc_tag ''icbi'' ppc32_exec_ICBI 0xffe007ff 0x7c0007ac,
      mk_ppc_tag ''isync'' ppc32_exec_ISYNC 0xffffffff 0x4c00012c,
      mk_ppc_tag ''lbz'' ppc32_exec_LBZ 0xfc000000 0x88000000,
      mk_ppc_tag ''lbzu'' ppc32_exec_LBZU 0xfc000000 0x8c000000,
      mk_ppc_tag ''lbzux'' ppc32_exec_LBZUX 0xfc0007ff 0x7c0000ee,
      mk_ppc_tag ''lbzx'' ppc32_exec_LBZX 0xfc0007ff 0x7c0000ae,
      mk_ppc_tag ''lha'' ppc32_exec_LHA 0xfc000000 0xa8000000,
      mk_ppc_tag ''lhau'' ppc32_exec_LHAU 0xfc000000 0xac000000,
      mk_ppc_tag ''lhaux'' ppc32_exec_LHAUX 0xfc0007ff 0x7c0002ee,
      mk_ppc_tag ''lhax'' ppc32_exec_LHAX 0xfc0007ff 0x7c0002ae,
      mk_ppc_tag ''lhz'' ppc32_exec_LHZ 0xfc000000 0xa0000000,
      mk_ppc_tag ''lhzu'' ppc32_exec_LHZU 0xfc000000 0xa4000000,
      mk_ppc_tag ''lhzux'' ppc32_exec_LHZUX 0xfc0007ff 0x7c00026e,
      mk_ppc_tag ''lhzx'' ppc32_exec_LHZX 0xfc0007ff 0x7c00022e,
      mk_ppc_tag ''lmw'' ppc32_exec_LMW 0xfc000000 0xb8000000,
      mk_ppc_tag ''lwbrx'' ppc32_exec_LWBRX 0xfc0007ff 0x7c00042c,
      mk_ppc_tag ''lwz'' ppc32_exec_LWZ 0xfc000000 0x80000000,
      mk_ppc_tag ''lwzu'' ppc32_exec_LWZU 0xfc000000 0x84000000,
      mk_ppc_tag ''lwzux'' ppc32_exec_LWZUX 0xfc0007ff 0x7c00006e,
      mk_ppc_tag ''lwzx'' ppc32_exec_LWZX 0xfc0007ff 0x7c00002e,
      mk_ppc_tag ''lwarx'' ppc32_exec_LWARX 0xfc0007ff 0x7c000028,
      mk_ppc_tag ''lfd'' ppc32_exec_LFD 0xfc000000 0xc8000000,
      mk_ppc_tag ''lfdu'' ppc32_exec_LFDU 0xfc000000 0xcc000000,
      mk_ppc_tag ''lfdux'' ppc32_exec_LFDUX 0xfc0007ff 0x7c0004ee,
      mk_ppc_tag ''lfdx'' ppc32_exec_LFDX 0xfc0007ff 0x7c0004ae,
      mk_ppc_tag ''lswi'' ppc32_exec_LSWI 0xfc0007ff 0x7c0004aa,
      mk_ppc_tag ''lswx'' ppc32_exec_LSWX 0xfc0007ff 0x7c00042a,
      mk_ppc_tag ''mcrf'' ppc32_exec_MCRF 0xfc63ffff 0x4c000000,
      mk_ppc_tag ''mfcr'' ppc32_exec_MFCR 0xfc1fffff 0x7c000026,
      mk_ppc_tag ''mfmsr'' ppc32_exec_MFMSR 0xfc1fffff 0x7c0000a6,
      mk_ppc_tag ''mfspr'' ppc32_exec_MFSPR 0xfc0007ff 0x7c0002a6,
      mk_ppc_tag ''mfsr'' ppc32_exec_MFSR 0xfc10ffff 0x7c0004a6,
      mk_ppc_tag ''mfsrin'' ppc32_exec_MFSRIN 0xfc1f07ff 0x7c000526,
      mk_ppc_tag ''mftbl'' ppc32_exec_MFTBL 0xfc1ff7ff 0x7c0c42e6,
      mk_ppc_tag ''mftbu'' ppc32_exec_MFTBU 0xfc1ff7ff 0x7c0d42e6,
      mk_ppc_tag ''mtcrf'' ppc32_exec_MTCRF 0xfc100fff 0x7c000120,
      mk_ppc_tag ''mtmsr'' ppc32_exec_MTMSR 0xfc1fffff 0x7c000124,
      mk_ppc_tag ''mtspr'' ppc32_exec_MTSPR 0xfc0007ff 0x7c0003a6,
      mk_ppc_tag ''mtsr'' ppc32_exec_MTSR 0xfc10ffff 0x7c0001a4,
      mk_ppc_tag ''mulhw'' ppc32_exec_MULHW 0xfc0007ff 0x7c000096,
      mk_ppc_tag ''mulhw.'' ppc32_exec_MULHW_dot 0xfc0007ff 0x7c000097,
      mk_ppc_tag ''mulhwu'' ppc32_exec_MULHWU 0xfc0007ff 0x7c000016,
      mk_ppc_tag ''mulhwu.'' ppc32_exec_MULHWU_dot 0xfc0007ff 0x7c000017,
      mk_ppc_tag ''mulli'' ppc32_exec_MULLI 0xfc000000 0x1c000000,
      mk_ppc_tag ''mullw'' ppc32_exec_MULLW 0xfc0007ff 0x7c0001d6,
      mk_ppc_tag ''mullw.'' ppc32_exec_MULLW_dot 0xfc0007ff 0x7c0001d7,
      mk_ppc_tag ''mullwo'' ppc32_exec_MULLWO 0xfc0007ff 0x7c0005d6,
      mk_ppc_tag ''mullwo.'' ppc32_exec_MULLWO_dot 0xfc0007ff 0x7c0005d7,
      mk_ppc_tag ''nand'' ppc32_exec_NAND 0xfc0007ff 0x7c0003b8,
      mk_ppc_tag ''nand.'' ppc32_exec_NAND_dot 0xfc0007ff 0x7c0003b9,
      mk_ppc_tag ''neg'' ppc32_exec_NEG 0xfc00ffff 0x7c0000d0,
      mk_ppc_tag ''neg.'' ppc32_exec_NEG_dot 0xfc00ffff 0x7c0000d1,
      mk_ppc_tag ''nego'' ppc32_exec_NEGO 0xfc00ffff 0x7c0004d0,
      mk_ppc_tag ''nego.'' ppc32_exec_NEGO_dot 0xfc00ffff 0x7c0004d1,
      mk_ppc_tag ''nor'' ppc32_exec_NOR 0xfc0007ff 0x7c0000f8,
      mk_ppc_tag ''nor.'' ppc32_exec_NOR_dot 0xfc0007ff 0x7c0000f9,
      mk_ppc_tag ''or'' ppc32_exec_OR 0xfc0007ff 0x7c000378,
      mk_ppc_tag ''or.'' ppc32_exec_OR_dot 0xfc0007ff 0x7c000379,
      mk_ppc_tag ''orc'' ppc32_exec_ORC 0xfc0007ff 0x7c000338,
      mk_ppc_tag ''orc.'' ppc32_exec_ORC_dot 0xfc0007ff 0x7c000339,
      mk_ppc_tag ''ori'' ppc32_exec_ORI 0xfc000000 0x60000000,
      mk_ppc_tag ''oris'' ppc32_exec_ORIS 0xfc000000 0x64000000,
      mk_ppc_tag ''rfi'' ppc32_exec_RFI 0xffffffff 0x4c000064,
      mk_ppc_tag ''rlwimi'' ppc32_exec_RLWIMI 0xfc000001 0x50000000,
      mk_ppc_tag ''rlwimi.'' ppc32_exec_RLWIMI_dot 0xfc000001 0x50000001,
      mk_ppc_tag ''rlwinm'' ppc32_exec_RLWINM 0xfc000001 0x54000000,
      mk_ppc_tag ''rlwinm.'' ppc32_exec_RLWINM_dot 0xfc000001 0x54000001,
      mk_ppc_tag ''rlwnm'' ppc32_exec_RLWNM 0xfc000001 0x5c000000,
      mk_ppc_tag ''rlwnm.'' ppc32_exec_RLWNM_dot 0xfc000001 0x5c000001,
      mk_ppc_tag ''sc'' ppc32_exec_SC 0xffffffff 0x44000002,
      mk_ppc_tag ''slw'' ppc32_exec_SLW 0xfc0007ff 0x7c000030,
      mk_ppc_tag ''slw.'' ppc32_exec_SLW_dot 0xfc0007ff 0x7c000031,
      mk_ppc_tag ''sraw'' ppc32_exec_SRAW 0xfc0007ff 0x7c000630,
      mk_ppc_tag ''srawi'' ppc32_exec_SRAWI 0xfc0007ff 0x7c000670,
      mk_ppc_tag ''srawi.'' ppc32_exec_SRAWI_dot 0xfc0007ff 0x7c000671,
      mk_ppc_tag ''srw'' ppc32_exec_SRW 0xfc0007ff 0x7c000430,
      mk_ppc_tag ''srw.'' ppc32_exec_SRW_dot 0xfc0007ff 0x7c000431,
      mk_ppc_tag ''stb'' ppc32_exec_STB 0xfc000000 0x98000000,
      mk_ppc_tag ''stbu'' ppc32_exec_STBU 0xfc000000 0x9c000000,
      mk_ppc_tag ''stbux'' ppc32_exec_STBUX 0xfc0007ff 0x7c0001ee,
      mk_ppc_tag ''stbx'' ppc32_exec_STBX 0xfc0007ff 0x7c0001ae,
      mk_ppc_tag ''sth'' ppc32_exec_STH 0xfc000000 0xb0000000,
      mk_ppc_tag ''sthu'' ppc32_exec_STHU 0xfc000000 0xb4000000,
      mk_ppc_tag ''sthux'' ppc32_exec_STHUX 0xfc0007ff 0x7c00036e,
      mk_ppc_tag ''sthx'' ppc32_exec_STHX 0xfc0007ff 0x7c00032e,
      mk_ppc_tag ''stmw'' ppc32_exec_STMW 0xfc000000 0xbc000000,
      mk_ppc_tag ''stw'' ppc32_exec_STW 0xfc000000 0x90000000,
      mk_ppc_tag ''stwu'' ppc32_exec_STWU 0xfc000000 0x94000000,
      mk_ppc_tag ''stwux'' ppc32_exec_STWUX 0xfc0007ff 0x7c00016e,
      mk_ppc_tag ''stwx'' ppc32_exec_STWX 0xfc0007ff 0x7c00012e,
      mk_ppc_tag ''stwbrx'' ppc32_exec_STWBRX 0xfc0007ff 0x7c00052c,
      mk_ppc_tag ''stwcx.'' ppc32_exec_STWCX_dot 0xfc0007ff 0x7c00012d,
      mk_ppc_tag ''stfd'' ppc32_exec_STFD 0xfc000000 0xd8000000,
      mk_ppc_tag ''stfdu'' ppc32_exec_STFDU 0xfc000000 0xdc000000,
      mk_ppc_tag ''stfdux'' ppc32_exec_STFDUX 0xfc0007ff 0x7c0005ee,
      mk_ppc_tag ''stfdx'' ppc32_exec_STFDX 0xfc0007ff 0x7c0005ae,
      mk_ppc_tag ''stswi'' ppc32_exec_STSWI 0xfc0007ff 0x7c0005aa,
      mk_ppc_tag ''stswx'' ppc32_exec_STSWX 0xfc0007ff 0x7c00052a,
      mk_ppc_tag ''subf'' ppc32_exec_SUBF 0xfc0007ff 0x7c000050,
      mk_ppc_tag ''subf.'' ppc32_exec_SUBF_dot 0xfc0007ff 0x7c000051,
      mk_ppc_tag ''subfo'' ppc32_exec_SUBFO 0xfc0007ff 0x7c000450,
      mk_ppc_tag ''subfo.'' ppc32_exec_SUBFO_dot 0xfc0007ff 0x7c000451,
      mk_ppc_tag ''subfc'' ppc32_exec_SUBFC 0xfc0007ff 0x7c000010,
      mk_ppc_tag ''subfc.'' ppc32_exec_SUBFC_dot 0xfc0007ff 0x7c000011,
      mk_ppc_tag ''subfe'' ppc32_exec_SUBFE 0xfc0007ff 0x7c000110,
      mk_ppc_tag ''subfic'' ppc32_exec_SUBFIC 0xfc000000 0x20000000,
      mk_ppc_tag ''subfze'' ppc32_exec_SUBFZE 0xfc00ffff 0x7c000190,
      mk_ppc_tag ''subfze.'' ppc32_exec_SUBFZE_dot 0xfc00ffff 0x7c000191,
      mk_ppc_tag ''sync'' ppc32_exec_SYNC 0xffffffff 0x7c0004ac,
      mk_ppc_tag ''tlbia'' ppc32_exec_TLBIA 0xffffffff 0x7c0002e4,
      mk_ppc_tag ''tlbie'' ppc32_exec_TLBIE 0xffff07ff 0x7c000264,
      mk_ppc_tag ''tlbsync'' ppc32_exec_TLBSYNC 0xffffffff 0x7c00046c,
      mk_ppc_tag ''tw'' ppc32_exec_TW 0xfc0007ff 0x7c000008,
      mk_ppc_tag ''twi'' ppc32_exec_TWI 0xfc000000 0x0c000000,
      mk_ppc_tag ''xor'' ppc32_exec_XOR 0xfc0007ff 0x7c000278,
      mk_ppc_tag ''xor.'' ppc32_exec_XOR_dot 0xfc0007ff 0x7c000279,
      mk_ppc_tag ''xori'' ppc32_exec_XORI 0xfc000000 0x68000000,
      mk_ppc_tag ''xoris'' ppc32_exec_XORIS 0xfc000000 0x6c000000,
      mk_ppc_tag ''dccci'' ppc32_exec_DCCCI 0xfc0007ff 0x7c00038c,
      mk_ppc_tag ''iccci'' ppc32_exec_ICCCI 0xfc0007ff 0x7c00078c,
      mk_ppc_tag ''mfdcr'' ppc32_exec_MFDCR 0xfc0007ff 0x7c000286,
      mk_ppc_tag ''mtdcr'' ppc32_exec_MTDCR 0xfc0007ff 0x7c000386,
      mk_ppc_tag ''tlbre'' ppc32_exec_TLBRE 0xfc0007ff 0x7c000764,
      mk_ppc_tag ''tlbwe'' ppc32_exec_TLBWE 0xfc0007ff 0x7c0007a4,
      mk_ppc_tag ''unknown'' ppc32_exec_unknown 0x00000000 0x00000000]"

section \<open>Decoding\<close>

definition ppc32_exec_chk_lo :: "'d ppc32_insn_exec_tag \<Rightarrow> nat \<Rightarrow> bool" where
  "ppc32_exec_chk_lo tag value = (of_nat value AND tag_mask tag = tag_value tag AND 0xFFFF)"

definition ppc32_exec_chk_hi :: "'d ppc32_insn_exec_tag \<Rightarrow> nat \<Rightarrow> bool" where
  "ppc32_exec_chk_hi tag value =
     (of_nat value AND drop_bit 16 (tag_mask tag) = drop_bit 16 (tag_value tag))"

definition ppc32_exec_create_ilt :: "'d ppc32_insn_exec_tag list \<Rightarrow> insn_lookup option" where
  "ppc32_exec_create_ilt tags =
     ilt_create (length tags) (\<lambda>i. ppc32_exec_chk_lo (tags ! i)) (\<lambda>i. ppc32_exec_chk_hi (tags ! i))"

text \<open>\<open>ppc32_exec_get_insn(ilt_lookup(ilt,insn))\<close>; \<open>None\<close> outside the table.\<close>

definition ppc32_exec_get_tag :: "u32 \<Rightarrow> 'd ppc32_insn_exec_tag option" where
  "ppc32_exec_get_tag insn =
     (case ppc32_exec_create_ilt (ppc32_exec_tags :: 'd ppc32_insn_exec_tag list) of
        None \<Rightarrow> None
      | Some ilt \<Rightarrow>
          (let index = ilt_lookup ilt insn in
           if 0 \<le> index \<and> nat index < length (ppc32_exec_tags :: 'd ppc32_insn_exec_tag list)
           then Some (ppc32_exec_tags ! nat index) else None))"

section \<open>Fetch and execution\<close>

text \<open>The page cache of the fetch. The page pointer of an unmapped page is \<open>NULL\<close>, and reading
  through it ends the host program.\<close>

definition ppc32_exec_fetch :: "'d ppc_env \<Rightarrow> u32 \<Rightarrow> 'd ppc_vm \<Rightarrow> (u32, 'd ppc_vm) outcome" where
  "ppc32_exec_fetch env addr c =
     (let exec_page = addr AND NOT PPC32_MIN_PAGE_IMASK in
      obind (if ucast exec_page \<noteq> njm_exec_page c then
               (let c = c\<lparr>njm_exec_page := ucast exec_page\<rparr> in
                obind (ppc32_mem_lookup env exec_page PPC32_MTS_ICACHE c) (\<lambda>h c. Ok () (c\<lparr>njm_exec_ptr := h\<rparr>)))
             else Ok () c)
        (\<lambda>_ c.
           let offset = drop_bit 2 (addr AND PPC32_MIN_PAGE_IMASK) in
           if njm_exec_ptr c = 0 then HostFault
           else Ok (ucast (host_read32 (host_mem (vm_inst c)) (njm_exec_ptr c + ucast (push_bit 2 offset)))) c))"

definition ppc32_exec_single_instruction :: "'d ppc_env \<Rightarrow> u32 \<Rightarrow> 'd ppc_vm \<Rightarrow> (bool, 'd ppc_vm) outcome" where
  "ppc32_exec_single_instruction env insn c =
     (case ppc32_exec_get_tag insn of None \<Rightarrow> HostFault | Some tag \<Rightarrow> tag_exec tag env insn c)"

definition ppc32_exec_single_insn_ext :: "'d ppc_env \<Rightarrow> u32 \<Rightarrow> 'd ppc_vm \<Rightarrow> (bool, 'd ppc_vm) outcome" where
  "ppc32_exec_single_insn_ext env insn c =
     obind (ppc32_exec_single_instruction env insn c)
       (\<lambda>res c. Ok res (if \<not> res then c\<lparr>ia := ia c + 4\<rparr> else c))"

text \<open>\<open>ppc32_exec_page\<close> runs while the instruction address stays in its page; \<open>n\<close> bounds the rounds.\<close>

fun ppc32_exec_page_loop :: "nat \<Rightarrow> 'd ppc_env \<Rightarrow> u32 \<Rightarrow> 'd ppc_vm \<Rightarrow> (unit, 'd ppc_vm) outcome" where
  "ppc32_exec_page_loop 0 env exec_page c = OutOfFuel"
| "ppc32_exec_page_loop (Suc n) env exec_page c =
     (let offset = drop_bit 2 (ia c AND PPC32_MIN_PAGE_IMASK) in
      if njm_exec_ptr c = 0 then HostFault
      else
        (let insn = ucast (host_read32 (host_mem (vm_inst c)) (njm_exec_ptr c + ucast (push_bit 2 offset)))
         in obind (ppc32_exec_single_insn_ext env insn c)
              (\<lambda>_ c. if ia c AND NOT PPC32_MIN_PAGE_IMASK = exec_page then ppc32_exec_page_loop n env exec_page c
                     else Ok () c)))"

definition ppc32_exec_page :: "nat \<Rightarrow> 'd ppc_env \<Rightarrow> 'd ppc_vm \<Rightarrow> (unit, 'd ppc_vm) outcome" where
  "ppc32_exec_page n env c =
     (let exec_page = ia c AND NOT PPC32_MIN_PAGE_IMASK;
          c = c\<lparr>njm_exec_page := ucast exec_page\<rparr>
      in obind (ppc32_mem_lookup env exec_page PPC32_MTS_ICACHE c)
           (\<lambda>h c. ppc32_exec_page_loop n env exec_page (c\<lparr>njm_exec_ptr := h\<rparr>)))"

section \<open>The run loop\<close>

text \<open>The virtual idle loop sleeps when the address is the idle pc; of it only the counter is modelled.\<close>

definition ppc32_exec_idle :: "'d ppc_vm \<Rightarrow> 'd ppc_vm" where
  "ppc32_exec_idle c =
     (if ia c = idle_pc c then
        (let c = c\<lparr>idle_count := idle_count c + 1\<rparr> in
         if idle_count c = idle_max c then c\<lparr>idle_count := 0\<rparr> else c)
      else c)"

text \<open>The virtual clock; \<open>tc\<close> is the local \<open>timer_irq_check\<close>.\<close>

definition ppc32_exec_check_timer :: "'d ppc_env \<Rightarrow> u32 \<Rightarrow> 'd ppc_vm \<Rightarrow> u32 \<times> 'd ppc_vm" where
  "ppc32_exec_check_timer env tc c =
     (let tc = tc + 1 in
      if tc = timer_irq_check_itv c then
        (if timer_irq_pending c \<noteq> 0 \<and> irq_disable c = 0 \<and> msr c AND PPC32_MSR_EE \<noteq> 0 then
           (let c = c\<lparr>timer_irq_armed := 0\<rparr>;
                c = c\<lparr>timer_irq_pending := timer_irq_pending c - 1\<rparr>
            in (0, env_set_irq env 0 c))
         else (0, c))
      else (tc, c))"

text \<open>One round of \<open>for (;;)\<close> for a running CPU.\<close>

definition ppc32_exec_iteration :: "'d ppc_env \<Rightarrow> u32 \<Rightarrow> 'd ppc_vm \<Rightarrow> (u32, 'd ppc_vm) outcome" where
  "ppc32_exec_iteration env tc c =
     (let c = (if irq_check c \<noteq> 0 then ppc32_trigger_irq c else c);
          c = ppc32_exec_idle c;
          (tc, c) = ppc32_exec_check_timer env tc c;
          c = c\<lparr>tb := tb c + 100\<rparr>
      in obind (ppc32_exec_fetch env (ia c) c)
           (\<lambda>insn c. obind (ppc32_exec_single_insn_ext env insn c) (\<lambda>_ c. Ok tc c)))"

text \<open>\<open>m\<close> rounds at most. After a \<open>longjmp\<close> the loop starts again; the value of the local counter is
  then not defined by C, and the argument \<open>tcs\<close> gives it.\<close>

fun ppc32_exec_run_cpu ::
    "nat \<Rightarrow> (nat \<Rightarrow> u32) \<Rightarrow> 'd ppc_env \<Rightarrow> u32 \<Rightarrow> 'd ppc_vm \<Rightarrow> (unit, 'd ppc_vm) outcome" where
  "ppc32_exec_run_cpu 0 tcs env tc c = OutOfFuel"
| "ppc32_exec_run_cpu (Suc m) tcs env tc c =
     (if cpu_state c \<noteq> 0 then Ok () c
      else
        (case ppc32_exec_iteration env tc c of
           Ok tc c \<Rightarrow> ppc32_exec_run_cpu m tcs env tc c
         | LongJmp c \<Rightarrow> ppc32_exec_run_cpu m tcs env (tcs m) c
         | HostFault \<Rightarrow> HostFault
         | OutOfFuel \<Rightarrow> OutOfFuel))"

end
