(* ===== verification/Ppc32Arith.thy ===== *)
theory Ppc32Arith
  imports Ppc32Exec
begin

text \<open>
  What the arithmetic, branch, rotate and exception instructions of the PowerPC interpreter compute
  (\<open>stable/ppc32_exec.c\<close>): the condition register as one 32-bit word, the carry and the
  overflow flag as facts of integer arithmetic, the decision of a conditional branch, rotate-and-mask
  bit by bit, and the return from an exception.
\<close>

section \<open>The condition register\<close>

lemma cr_indices: "[0..<8] = [0,1,2,3,4,5,6,7::nat]" by (simp add: upt_rec)

lemma ex_cr_index: "(\<exists>i<8. P i) \<longleftrightarrow> P 0 \<or> P 1 \<or> P 2 \<or> P 3 \<or> P 4 \<or> P 5 \<or> P 6 \<or> P (7::nat)"
proof -
  have "(\<exists>i<8. P i) \<longleftrightarrow> (\<exists>i\<in>set [0..<8]. P i)" by (auto simp: Bex_def)
  then show ?thesis unfolding cr_indices by simp
qed

lemma bit_low4: "bit (0xF :: u32) n \<longleftrightarrow> n < 4"
  using bit_mask_iff [where 'a = "32 word", of 4 n] by (auto simp: mask_eq_exp_minus_1 min_def)

definition cr_ok :: "'z cpu_ppc_scheme \<Rightarrow> bool" where
  "cr_ok c \<longleftrightarrow> (\<forall>i<8. cr_fields c i < 16)"

lemma bit_lt_16: "(w :: u32) < 16 \<Longrightarrow> bit w n \<Longrightarrow> n < 4"
  by (rule bit_less_pow2 [of w 4 n]) (simp_all add: word_less_nat_alt)

lemma get_cr_bit:
  assumes "cr_ok c" "n < 32"
  shows "bit (ppc32_get_cr c) (31 - n) \<longleftrightarrow> bit (cr_fields c (n div 4)) (3 - n mod 4)"
proof -
  have b: "bit (cr_fields c i) m \<Longrightarrow> m < 4" if "i < 8" for i m
    using assms(1) that bit_lt_16 unfolding cr_ok_def by blast
  have e: "bit (ppc32_get_cr c) m \<longleftrightarrow> m < 32 \<and> (\<exists>i<8. 28 - 4 * i \<le> m \<and>
      bit (cr_fields c i) (m - (28 - 4 * i)))" for m
    unfolding ppc32_get_cr_def cr_indices ex_cr_index by (auto simp: bit_simps dest: bit_imp_le_length)
  define q r where "q = n div 4" and "r = n mod 4"
  then have qr: "n = 4 * q + r" "r < 4" by simp_all
  have q8: "q < 8" using qr assms(2) by linarith
  have idx: "31 - n - (28 - 4 * q) = 3 - r" "28 - 4 * q \<le> 31 - n"
    using qr q8 by linarith+
  have uniq: "q = i" if "i < 8" "28 - 4 * i \<le> 31 - n" "31 - n - (28 - 4 * i) < 4" for i
  proof -
    have "4 * i = 28 - (28 - 4 * i)" "31 - n = 31 - (4 * q + r)" using that(1) qr by simp_all
    then show ?thesis using that qr(2) q8 by linarith
  qed
  have "(\<exists>i<8. 28 - 4 * i \<le> 31 - n \<and> bit (cr_fields c i) (31 - n - (28 - 4 * i))) \<longleftrightarrow>
     bit (cr_fields c (n div 4)) (3 - n mod 4)" (is "?l \<longleftrightarrow> ?r")
  proof
    assume ?l
    then obtain i where i: "i < 8" "28 - 4 * i \<le> 31 - n" "bit (cr_fields c i) (31 - n - (28 - 4 * i))" by blast
    from uniq [OF i(1,2) b [OF i(1,3)]] show ?r using i(3) idx(1) by (simp add: q_def r_def)
  next
    assume ?r
    then show ?l using idx q8 by (intro exI [of _ q]) (simp add: q_def r_def)
  qed
  moreover have "31 - n < 32" by linarith
  ultimately show ?thesis unfolding e by blast
qed

lemma read_cr_bit: "ppc32_read_cr_bit n c = of_bool (bit (cr_fields c (n div 4)) (3 - n mod 4))"
  unfolding ppc32_read_cr_bit_def Let_def ppc32_get_cr_bit_def ppc32_get_cr_field_def
  by (simp only: and_one_eq mod2_eq_if bit_iff_odd_drop_bit) simp

lemma mod_once:
  assumes "0 \<le> x" "x < 2 * M" shows "(x :: int) mod M = (if x < M then x else x - M)"
proof (cases "x < M")
  case False
  have "x mod M = (x - M) mod M" by simp
  also have "\<dots> = x - M" using False assms by (intro mod_pos_pos_trivial) auto
  finally show ?thesis using False by simp
qed (use assms in simp)

section \<open>Carry\<close>

lemma uint_sum: "uint (a + b :: u32) = (if uint a + uint b < 2 ^ 32 then uint a + uint b
    else uint a + uint b - 2 ^ 32)"
  using mod_once [of "uint a + uint b" "2 ^ 32"] uint_bounded [of a] uint_bounded [of b]
  by (simp add: uint_word_ariths)

lemma carry_2: "(a + b :: u32) < a \<longleftrightarrow> 2 ^ 32 \<le> uint a + uint b"
  unfolding word_less_def uint_sum using uint_bounded [of a] uint_bounded [of b] by auto

lemma carry_3:
  assumes "ca = 0 \<or> ca = (1 :: u32)"
  shows "b + ca < b \<or> a + b + ca < a \<longleftrightarrow> 2 ^ 32 \<le> uint a + uint b + uint ca"
proof -
  have c: "uint ca = 0 \<or> uint ca = 1" using assms by auto
  have "(if B + C < M then B + C else B + C - M) < B \<or>
      (if A + (if B + C < M then B + C else B + C - M) < M then A + (if B + C < M then B + C else B + C - M)
       else A + (if B + C < M then B + C else B + C - M) - M) < A \<longleftrightarrow> M \<le> A + B + C"
    if "1 < M" "0 \<le> A" "A < M" "0 \<le> B" "B < M" "C = 0 \<or> C = 1" for A B C M :: int
    using that by (auto split: if_split)
  note main = this
  show ?thesis unfolding word_less_def add.assoc [of a b ca] uint_sum
    by (rule main) (use c uint_bounded [of a] uint_bounded [of b] in simp_all)
qed

lemma uint_not: "uint (NOT a :: u32) = 2 ^ 32 - 1 - uint a"
proof -
  have "uint (NOT a) = uint (- 1 - a)" by (simp only: not_eq_complement diff_conv_add_uminus add.commute)
  also have "\<dots> = (2 ^ 32 - 1 - uint a) mod 2 ^ 32" by (simp add: uint_word_ariths mod_simps)
  also have "\<dots> = 2 ^ 32 - 1 - uint a"
  proof (rule mod_pos_pos_trivial)
    show "0 \<le> 2 ^ 32 - 1 - uint a" using uint_bounded [of a] by simp
    show "2 ^ 32 - 1 - uint a < 2 ^ 32" using uint_ge_0 [of a] by linarith
  qed
  finally show ?thesis .
qed

lemma sint_uint_32: "sint (a :: u32) = uint a - (if 2 ^ 31 \<le> uint a then 2 ^ 32 else 0)"
proof -
  have "uint a < 2 ^ 32" using uint_bounded [of a] by simp
  then show ?thesis
    by (simp add: sint_uint signed_take_bit_eq_take_bit_shift take_bit_eq_mod mod_once)
qed

lemma bit31_uint: "bit (a :: u32) 31 \<longleftrightarrow> 2 ^ 31 \<le> uint a"
  using bit_last_iff [of a] sint_uint_32 [of a] uint_bounded [of a] by (simp split: if_splits)

text \<open>An instruction that puts an unsigned sum in a register and its carry in XER.\<close>

definition sum_result :: "nat \<Rightarrow> int \<Rightarrow> (bool, 'd ppc_vm) outcome \<Rightarrow> bool" where
  "sum_result rd s out \<longleftrightarrow>
     (\<exists>c'. out = Ok False c' \<and> gpr c' rd = word_of_int s \<and> xer_ca c' = of_bool (2 ^ 32 \<le> s))"

lemma sum_resultI:
  "out = Ok False c' \<Longrightarrow> gpr c' rd = word_of_int s \<Longrightarrow> (xer_ca c' = 1 \<longleftrightarrow> 2 ^ 32 \<le> s) \<Longrightarrow> xer_ca c' = 0 \<or>
      xer_ca c' = 1 \<Longrightarrow>
   sum_result rd s out"
  by (auto simp: sum_result_def)

lemma flags_frame [simp]:
  "gpr (ppc32_exec_update_cr0 v c) = gpr c" "xer (ppc32_exec_update_cr0 v c) = xer c"
  "xer_ca (ppc32_exec_update_cr0 v c) = xer_ca c"
  "gpr (ppc32_exec_ov_sum r a b c) = gpr c" "xer_ca (ppc32_exec_ov_sum r a b c) = xer_ca c"
  "gpr (ppc32_exec_ov_sub r a b c) = gpr c" "xer_ca (ppc32_exec_ov_sub r a b c) = xer_ca c"
  "gpr (ppc32_exec_ca_sum r a b c) = gpr c" "xer (ppc32_exec_ca_sum r a b c) = xer c"
  "xer_ca (ppc32_exec_ca_sum r a b c) = (if r < a then 1 else 0)"
  by (simp_all add: ppc32_exec_update_cr0_def ppc32_exec_ov_sum_def ppc32_exec_ov_sub_def
      ppc32_exec_ca_sum_def Let_def)

lemma sum_words:
  "word_of_int (uint a + uint b) = (a + b :: u32)"
  "word_of_int (uint a + uint b + uint d) = (a + b + d :: u32)"
  "word_of_int (uint a + (2 ^ 32 - 1) + uint d) = (a + 0xFFFFFFFF + d :: u32)"
  by simp_all

lemma carry_me: "uint a + (2 ^ 32 - 1) + uint d = uint a + uint (0xFFFFFFFF :: u32) + uint d"
  by simp

lemma carry_ze: "ca = 0 \<or> ca = (1 :: u32) \<Longrightarrow> a + ca < a \<longleftrightarrow> 2 ^ 32 \<le> uint a + uint ca"
  using carry_2 [of a ca] by simp

lemma carry_sub:
  assumes "ca = 0 \<or> ca = (1 :: u32)"
  shows "a + ca < a \<or> b + (a + ca) < a + ca \<longleftrightarrow> 2 ^ 32 \<le> uint b + uint a + uint ca"
proof -
  have "b + (a + ca) < a + ca \<longleftrightarrow> b + (a + ca) < b"
    using carry_2 [of b "a + ca"] carry_2 [of "a + ca" b] by (simp add: add.commute)
  then show ?thesis using carry_3 [OF assms, where b = a and a = b] by (simp only: add.assoc)
qed

lemma carry_sub_1: "a + 1 < a \<or> b + (a + 1) < a + (1 :: u32) \<longleftrightarrow> 2 ^ 32 \<le> uint b + uint a + 1"
  using carry_sub [of 1 a b] by simp

lemma sum_sub: "word_of_int (uint b + uint a + 1) = b + (a + 1 :: u32)"
  "word_of_int (uint b + uint a + uint d) = b + (a + d :: u32)"
  by (simp_all add: add.assoc)


text \<open>\<open>subfze\<close> never clears the flag: a carry that was set stays set, also where the exact sum is below 2^32.\<close>

lemma subfze_keeps_carry:
  assumes "xer_ca c = 1" "gpr c (fld insn 16 20) \<noteq> 0"
  shows "2 ^ 32 - 1 - uint (gpr c (fld insn 16 20)) + 1 < (2 ^ 32 :: int)"
    and "\<exists>c'. ppc32_exec_SUBFZE env insn c = Ok False c' \<and> xer_ca c' = 1"
proof -
  have "0 < uint (gpr c (fld insn 16 20))" 
    using assms(2) uint_0_iff [of "gpr c (fld insn 16 20)"] uint_ge_0 [of "gpr c (fld insn 16 20)"] by linarith
  then show "2 ^ 32 - 1 - uint (gpr c (fld insn 16 20)) + 1 < (2 ^ 32 :: int)" by simp
  show "\<exists>c'. ppc32_exec_SUBFZE env insn c = Ok False c' \<and> xer_ca c' = 1"
    using assms(1) by (simp add: ppc32_exec_SUBFZE_def Let_def)
qed

section \<open>Overflow and the first condition field\<close>

lemma word_bits [simp]:
  "x AND (0x80000000 :: u32) = 0 \<longleftrightarrow> \<not> bit x 31" "x AND (0x40000000 :: u32) = 0 \<longleftrightarrow> \<not> bit x 30"
  "x AND (0x8000 :: u32) = 0 \<longleftrightarrow> \<not> bit x 15" "x AND (0x40 :: u32) = 0 \<longleftrightarrow> \<not> bit x 6"
  "x AND (0x20 :: u32) = 0 \<longleftrightarrow> \<not> bit x 5" "x AND (0x10 :: u32) = 0 \<longleftrightarrow> \<not> bit x 4"
  "x AND (4 :: u32) = 0 \<longleftrightarrow> \<not> bit x 2"
  using and_exp_eq_0_iff_not_bit [of x 31] and_exp_eq_0_iff_not_bit [of x 30] and_exp_eq_0_iff_not_bit [of x 15]
    and_exp_eq_0_iff_not_bit [of x 6] and_exp_eq_0_iff_not_bit [of x 5] and_exp_eq_0_iff_not_bit [of x 4]
    and_exp_eq_0_iff_not_bit [of x 2]
  by simp_all

lemma word_flag_bits [simp]:
  "bit (0x80000000 :: u32) n \<longleftrightarrow> n = 31" "bit (0x40000000 :: u32) n \<longleftrightarrow> n = 30"
  "bit (0xC0000000 :: u32) n \<longleftrightarrow> n = 30 \<or> n = 31"
proof -
  have e: "(0x80000000 :: u32) = push_bit 31 1" "(0x40000000 :: u32) = push_bit 30 1" "(0xC0000000 :: u32) =
      push_bit 30 (mask 2)"
    by (simp_all add: mask_eq_exp_minus_1)
  show "bit (0x80000000 :: u32) n \<longleftrightarrow> n = 31" "bit (0x40000000 :: u32) n \<longleftrightarrow> n = 30"
    "bit (0xC0000000 :: u32) n \<longleftrightarrow> n = 30 \<or> n = 31"
    unfolding e bit_push_bit_iff bit_1_iff bit_mask_iff by auto
qed

definition cr0_of :: "int \<Rightarrow> bool \<Rightarrow> u32" where
  "cr0_of r so = (if r < 0 then 8 else if 0 < r then 4 else 2) OR of_bool so"

lemma update_cr0: "ppc32_exec_update_cr0 v c = set_cr_field 0 (cr0_of (sint v) (bit (xer c) 31)) c"
proof -
  have "0 < v \<longleftrightarrow> v \<noteq> 0" by (simp add: word_gt_0)
  moreover have "0 < sint v \<longleftrightarrow> \<not> sint v < 0 \<and> v \<noteq> 0" using signed_eq_0_iff [where 'a = int, of v] by linarith
  ultimately show ?thesis using bit_last_iff [of v]
    by (auto simp: ppc32_exec_update_cr0_def cr0_of_def Let_def)
qed

definition overflows :: "int \<Rightarrow> bool" where
  "overflows r \<longleftrightarrow> r < - (2 ^ 31) \<or> 2 ^ 31 \<le> r"

lemma sint_of_int: "sint (word_of_int r :: u32) = signed_take_bit 31 r"
  by (simp add: sint_sbintrunc')

lemma overflows_iff: "overflows r \<longleftrightarrow> sint (word_of_int r :: u32) \<noteq> r"
  unfolding sint_of_int overflows_def signed_take_bit_int_eq_self_iff by auto

lemma wrapped_sum:
  assumes "- (2 ^ 32) \<le> r" "r < 2 ^ 32"
  shows "sint (word_of_int r :: u32) = (if r < - (2 ^ 31) then r + 2 ^ 32 else if 2 ^ 31 \<le> r then r - 2 ^ 32
      else r)"
proof -
  have s: "signed_take_bit 31 r = (r + 2 ^ 31) mod 2 ^ 32 - 2 ^ 31"
    by (simp add: signed_take_bit_eq_take_bit_shift take_bit_eq_mod)
  show ?thesis
  proof (cases "r < - (2 ^ 31)")
    case True
    have "(r + 2 ^ 31) mod 2 ^ 32 = (r + 2 ^ 31 + 2 ^ 32) mod 2 ^ 32" by (simp only: mod_add_self2)
    also have "\<dots> = r + 2 ^ 31 + 2 ^ 32" using True assms by (intro mod_pos_pos_trivial) auto
    finally show ?thesis using True unfolding sint_of_int s by simp
  next
    case False
    then show ?thesis using assms unfolding sint_of_int s by (subst mod_once) auto
  qed
qed

lemma sint_range: "- (2 ^ 31) \<le> sint (a :: u32)" "sint (a :: u32) < 2 ^ 31"
  using sint_ge [of a] sint_lt [of a] by simp_all

lemma bit31: "bit (a :: u32) 31 \<longleftrightarrow> sint a < 0"
  using bit_last_iff [of a] by simp

lemma ov_sum_iff:
  fixes a b r :: u32
  assumes "k = 0 \<or> k = 1" "r = word_of_int (sint a + sint b + k)"
  shows "bit (NOT (a XOR b) AND (a XOR r)) 31 \<longleftrightarrow> overflows (sint a + sint b + k)"
proof -
  have "bit (NOT (a XOR b) AND (a XOR r)) 31 \<longleftrightarrow> (sint a < 0 \<longleftrightarrow> sint b < 0) \<and> \<not> (sint a < 0 \<longleftrightarrow> sint r < 0)"
    by (auto simp: bit_simps bit31 [symmetric])
  also have "\<dots> \<longleftrightarrow> overflows (sint a + sint b + k)"
    unfolding assms(2) overflows_def using assms(1) sint_range [of a] sint_range [of b]
    by (subst wrapped_sum) auto
  finally show ?thesis .
qed

lemma ov_sub_iff:
  fixes a b r :: u32
  assumes "r = word_of_int (sint a - sint b)"
  shows "bit ((a XOR b) AND (a XOR r)) 31 \<longleftrightarrow> overflows (sint a - sint b)"
proof -
  have "bit ((a XOR b) AND (a XOR r)) 31 \<longleftrightarrow> \<not> (sint a < 0 \<longleftrightarrow> sint b < 0) \<and> \<not> (sint a < 0 \<longleftrightarrow> sint r < 0)"
    by (auto simp: bit_simps bit31 [symmetric])
  also have "\<dots> \<longleftrightarrow> overflows (sint a - sint b)"
    unfolding assms overflows_def using sint_range [of a] sint_range [of b]
    by (subst wrapped_sum) auto
  finally show ?thesis .
qed

text \<open>The effect on XER of an instruction that checks for overflow.\<close>

definition xer_ov :: "bool \<Rightarrow> u32 \<Rightarrow> u32" where
  "xer_ov ov x = (if ov then x OR 0xC0000000 else x AND NOT 0x40000000)"

lemma xer_ov_bits [simp]:
  "bit (xer_ov ov x) 30 \<longleftrightarrow> ov" "bit (xer_ov ov x) 31 \<longleftrightarrow> bit x 31 \<or> ov"
  by (simp_all add: xer_ov_def bit_simps)

lemma ov_sum:
  assumes "k = 0 \<or> k = 1" "r = word_of_int (sint a + sint b + k)"
  shows "ppc32_exec_ov_sum r a b c = c\<lparr>xer := xer_ov (overflows (sint a + sint b + k)) (xer c)\<rparr>"
  using ov_sum_iff [OF assms] by (simp add: ppc32_exec_ov_sum_def xer_ov_def Let_def and.assoc [symmetric])

lemma ov_sub:
  assumes "r = word_of_int (sint a - sint b)"
  shows "ppc32_exec_ov_sub r a b c = c\<lparr>xer := xer_ov (overflows (sint a - sint b)) (xer c)\<rparr>"
  using ov_sub_iff [OF assms] by (simp add: ppc32_exec_ov_sub_def xer_ov_def Let_def and.assoc [symmetric])

definition ov_result :: "nat \<Rightarrow> int \<Rightarrow> 'd ppc_vm \<Rightarrow> (bool, 'd ppc_vm) outcome \<Rightarrow> bool" where
  "ov_result rd r c out \<longleftrightarrow>
     (\<exists>c'. out = Ok False c' \<and> gpr c' rd = word_of_int r \<and>
           (bit (xer c') 30 \<longleftrightarrow> overflows r) \<and> (bit (xer c') 31 \<longleftrightarrow> bit (xer c) 31 \<or> overflows r) \<and>
           cr_fields c' 0 = cr0_of (sint (gpr c' rd)) (bit (xer c') 31))"

lemma ov_resultI:
  assumes "out = Ok False c'" "gpr c' rd = word_of_int r" "xer c' = xer_ov (overflows r) (xer c)"
    "cr_fields c' 0 = cr0_of (sint (gpr c' rd)) (bit (xer c') 31)"
  shows "ov_result rd r c out"
  unfolding ov_result_def by (intro exI [of _ c'] conjI) (use assms in \<open>simp_all only: xer_ov_bits\<close>)

lemma sum_signed:
  "a + b = (word_of_int (sint a + sint b) :: u32)" "a + b + d = (word_of_int (sint a + sint b + uint d) :: u32)"
  "b - a = (word_of_int (sint b - sint a) :: u32)" "NOT a + 1 = (word_of_int (- sint a) :: u32)"
  by (simp_all add: not_eq_complement)

lemma nego_overflow: "overflows (- sint a) \<longleftrightarrow> NOT a + 1 = (0x80000000 :: u32)"
proof -
  have "overflows (- sint a) \<longleftrightarrow> sint a = - (2 ^ 31)"
    using sint_range [of a] unfolding overflows_def by auto
  also have "\<dots> \<longleftrightarrow> a = 0x80000000"
  proof -
    have "sint (0x80000000 :: u32) = - (2 ^ 31)" by simp
    then show ?thesis using signed_word_eqI [of a "0x80000000"] by metis
  qed
  also have "\<dots> \<longleftrightarrow> NOT a + 1 = 0x80000000"
  proof -
    have "NOT a + 1 = - a" by (simp add: not_eq_complement)
    moreover have "- (0x80000000 :: u32) = 0x80000000" by simp
    ultimately show ?thesis by (metis minus_equation_iff)
  qed
  finally show ?thesis .
qed

lemma mul_64:
  fixes a b :: u32
  defines "t \<equiv> (scast a :: u64) * scast b"
  shows "ucast t = (word_of_int (sint a * sint b) :: u32)" "t \<noteq> scast (ucast t :: u32) \<longleftrightarrow>
      overflows (sint a * sint b)"
proof -
  have w: "t = word_of_int (sint a * sint b)" unfolding t_def by (simp only: scast_eq wi_hom_mult)
  show u: "ucast t = (word_of_int (sint a * sint b) :: u32)"
    unfolding w by (rule ucast_down_wi) (simp add: is_down)
  have "\<bar>sint a * sint b\<bar> \<le> 2 ^ 31 * 2 ^ 31"
    unfolding abs_mult by (rule mult_mono) (use sint_range [of a] sint_range [of b] in auto)
  then have r: "sint t = sint a * sint b"
    unfolding w sint_sbintrunc' by (intro signed_take_bit_int_eq_self) auto
  have "t = scast (ucast t :: u32) \<longleftrightarrow> sint t = sint (scast (ucast t :: u32) :: u64)"
    using signed_word_eqI by metis
  also have "\<dots> \<longleftrightarrow> sint a * sint b = sint (word_of_int (sint a * sint b) :: u32)"
    unfolding r u by (simp add: sint_up_scast is_up)
  finally show "t \<noteq> scast (ucast t :: u32) \<longleftrightarrow> overflows (sint a * sint b)"
    unfolding overflows_iff by auto
qed

lemma xer_ov_clear_set: "x AND - 1073741825 OR 3221225472 = (x OR 3221225472 :: u32)"
proof -
  have "x AND NOT 0x40000000 OR 0xC0000000 = (x OR 0xC0000000 :: u32)"
    by (rule bit_word_eqI) (unfold bit_or_iff bit_and_iff bit_not_iff word_flag_bits, auto)
  then show ?thesis by simp
qed

lemma nego_overflow': "- a = 0x80000000 \<longleftrightarrow> overflows (- sint (a :: u32))"
  using nego_overflow [of a] by (simp add: not_eq_complement)


section \<open>Branches\<close>

lemma bits_5: "bits insn a (a + 4) < 32"
proof -
  have m: "push_bit (a + 4 - a + 1) 1 - 1 = (31 :: u32)" by (simp add: push_bit_eq_mult)
  have "bits insn a (a + 4) \<le> 31" unfolding bits_def m by (rule word_and_le1)
  then show ?thesis by (rule le_less_trans) simp
qed

lemma fld_5: "fld insn a (a + 4) < 32"
  using bits_5 [of insn a] by (simp add: fld_def word_less_nat_alt)

definition branch_ctr :: "u32 \<Rightarrow> 'z cpu_ppc_scheme \<Rightarrow> u32" where
  "branch_ctr bo c = (if bit bo 2 then ctr c else ctr c - 1)"

definition branch_taken :: "u32 \<Rightarrow> nat \<Rightarrow> 'z cpu_ppc_scheme \<Rightarrow> bool" where
  "branch_taken bo bi c \<longleftrightarrow>
     (bit bo 2 \<or> (branch_ctr bo c \<noteq> 0) \<noteq> bit bo 1) \<and>
     (bit bo 4 \<or> bit (ppc32_get_cr c) (31 - bi) = bit bo 3)"

lemma and_1_of_bool: "x AND (1 :: u32) = of_bool (bit x 0)"
  by (simp add: and_one_eq mod2_eq_if bit_0)

lemma check_cond:
  assumes "bo < 32" "bi < 32" "cr_ok c"
  shows "ppc32_check_cond bo bi c = (branch_taken bo bi c, c\<lparr>ctr := branch_ctr bo c\<rparr>)"
proof -
  have b5: "bit bo n \<Longrightarrow> n < 5" for n
    using assms(1) by (intro bit_less_pow2 [of bo 5 n]) (simp_all add: word_less_nat_alt)
  have hi: "drop_bit 4 bo = of_bool (bit bo 4)"
  proof (rule bit_word_eqI)
    fix n assume "n < LENGTH(32)"
    show "bit (drop_bit 4 bo) n \<longleftrightarrow> bit (of_bool (bit bo 4) :: u32) n"
      using b5 [of "4 + n"] by (cases "n = 0") (auto simp: bit_simps)
  qed
  have "ppc32_read_cr_bit bi c = of_bool (bit (ppc32_get_cr c) (31 - bi))"
    using get_cr_bit [OF assms(3,2)] by (simp add: read_cr_bit)
  moreover have "ppc32_read_cr_bit bi (c\<lparr>ctr := v\<rparr>) = ppc32_read_cr_bit bi c" for v
    by (simp add: ppc32_read_cr_bit_def)
  ultimately show ?thesis
    by (auto simp: ppc32_check_cond_def branch_taken_def branch_ctr_def Let_def hi and_1_of_bool bit_simps
        and_exp_eq_0_iff_not_bit [of bo 2, simplified])
qed

text \<open>C39: a conditional branch decrements CTR unless bit 2 of BO is set, and is taken exactly when the
  counter test (skipped by bit 2, sense in bit 1) and the condition test (skipped by bit 4,
  sense in bit 3) on bit BI of the condition register, counted from the left in the 32-bit word that
  \<open>mfcr\<close> reads, both succeed. All eight forms take the same decision; they differ in the target and
  in the link, which is written also when the branch is not taken, and the form through CTR jumps to
  the counter after its decrement.\<close>

theorem ppc_branch_decision:
  assumes "cr_ok c"
    and "bo = bits insn 21 25" and "bi = fld insn 16 20"
        and "d = sign_extend_32 (push_bit 2 (bits insn 2 15)) 16"
    and "c' = c\<lparr>ctr := branch_ctr bo c\<rparr>"
    and "ret = (\<lambda>s t. if branch_taken bo bi c then Ok True (s\<lparr>ia := t\<rparr>) else Ok False s)"
  shows "ppc32_exec_BC env insn c = ret c' (ia c + d) \<and>
         ppc32_exec_BCA env insn c = ret c' d \<and>
         ppc32_exec_BCL env insn c = ret (c'\<lparr>lr := ia c + 4\<rparr>) (ia c + d) \<and>
         ppc32_exec_BCLA env insn c = ret (c'\<lparr>lr := ia c + 4\<rparr>) d \<and>
         ppc32_exec_BCLR env insn c = ret c' (lr c AND NOT 3) \<and>
         ppc32_exec_BCLRL env insn c = ret (c'\<lparr>lr := ia c + 4\<rparr>) (lr c AND NOT 3) \<and>
         ppc32_exec_BCCTR env insn c = ret c' (branch_ctr bo c AND NOT 3) \<and>
         ppc32_exec_BCCTRL env insn c = ret (c'\<lparr>lr := ia c + 4\<rparr>) (branch_ctr bo c AND NOT 3)"
proof -
  have l: "cr_ok (c\<lparr>lr := v\<rparr>)" "branch_ctr bo (c\<lparr>lr := v\<rparr>) = branch_ctr bo c"
    "branch_taken bo bi (c\<lparr>lr := v\<rparr>) = branch_taken bo bi c" for v
    using assms(1) by (simp_all add: cr_ok_def branch_ctr_def branch_taken_def ppc32_get_cr_def)
  have "bo < 32" "bi < 32" using bits_5 [of insn 21] fld_5 [of insn 16] by (simp_all add: assms(2,3))
  note cond = check_cond [OF this assms(1)] check_cond [OF this l(1)]
  show ?thesis
    unfolding assms(5,6) by (intro conjI)
      (simp_all add: ppc32_exec_BC_def ppc32_exec_BCA_def ppc32_exec_BCL_def ppc32_exec_BCLA_def
          ppc32_exec_BCLR_def
        ppc32_exec_BCLRL_def ppc32_exec_BCCTR_def ppc32_exec_BCCTRL_def Let_def cond l
        assms(2) [symmetric] assms(3) [symmetric] assms(4) [symmetric])
qed

section \<open>Rotates\<close>

lemma bit_ones: "bit (0xFFFFFFFF :: u32) n \<longleftrightarrow> n < 32"
proof -
  have "(0xFFFFFFFF :: u32) = - 1" by simp
  then show ?thesis unfolding \<open>0xFFFFFFFF = - 1\<close> bit_minus_1_iff by simp
qed

lemma rotate_mask_bit:
  assumes "mb < 32" "me < 32" "i < 32"
  shows "bit (ppc32_rotate_mask mb me) (31 - i) \<longleftrightarrow> (if mb \<le> me then mb \<le> i \<and> i \<le> me else mb \<le> i \<or> i \<le> me)"
proof -
  have "bit (drop_bit mb (0xFFFFFFFF :: u32)) (31 - i) \<longleftrightarrow> mb \<le> i"
    "bit (drop_bit 1 (drop_bit me (0xFFFFFFFF :: u32))) (31 - i) \<longleftrightarrow> me < i"
    using assms unfolding bit_drop_bit_eq comp_def bit_ones by linarith+
  then show ?thesis
    using assms unfolding ppc32_rotate_mask_def Let_def by (auto simp: bit_xor_iff bit_not_iff)
qed

lemma rotl_bit:
  assumes "sh < 32" "\<And>x. env_ub_shr env x 32 \<in> {0, x}" "n < 32"
  shows "bit (ppc_rotl env s sh) n \<longleftrightarrow> bit s ((n + (32 - unat sh)) mod 32)"
proof -
  have k: "unat sh < 32" using assms(1) by (simp add: word_less_nat_alt)
  show ?thesis
  proof (cases "sh = 0")
    case True
    then show ?thesis using assms(2) [of s] assms(3)
      by (auto simp: ppc_rotl_def ppc_shl32_def ppc_shr32_def or.commute)
  next
    case False
    then have k0: "0 < unat sh" by (simp add: word_gt_0 word_less_nat_alt unat_gt_0)
    have d: "unat (32 - sh) = 32 - unat sh" using assms(1)
        by (simp add: unat_sub word_less_nat_alt word_le_nat_alt)
    then have "32 - sh < 32" using k0 by (simp add: word_less_nat_alt)
    then have e: "bit (ppc_rotl env s sh) n \<longleftrightarrow> unat sh \<le> n \<and> bit s (n - unat sh) \<or> bit s (32 - unat sh + n)"
      using assms(1,3) by (auto simp: ppc_rotl_def ppc_shl32_def ppc_shr32_def d bit_simps)
    show ?thesis
    proof (cases "unat sh \<le> n")
      case True
      then have "(n + (32 - unat sh)) mod 32 = n - unat sh" using k assms(3) by (simp add: mod_if)
      moreover have "\<not> bit s (32 - unat sh + n)" using True k bit_imp_le_length [of s "32 - unat sh + n"]
          by auto
      ultimately show ?thesis using e True by simp
    next
      case False
      then have "(n + (32 - unat sh)) mod 32 = 32 - unat sh + n" using k by (subst mod_less) linarith+
      then show ?thesis using e False by simp
    qed
  qed
qed

text \<open>C30: the rotates, bit by bit, with the bits numbered from the left as in the PowerPC manuals:
  bit \<open>i\<close> of the result is the bit \<open>sh\<close> places to its right in the source (cyclically) where
  the mask from \<open>mb\<close> to \<open>me\<close>, wrapping around when \<open>me < mb\<close>, has bit \<open>i\<close>, and
  elsewhere 0 (\<open>rlwinm\<close>, \<open>rlwnm\<close>) or the old bit of the target (\<open>rlwimi\<close>). A rotation by 0
  shifts a 32-bit value right by 32, which C leaves undefined; the hypothesis is that this gives 0 or the
  value itself, as every processor does.\<close>

theorem ppc_rotate_and_mask:
  fixes env :: "'d ppc_env" and c :: "'d ppc_vm"
  assumes "\<And>x. env_ub_shr env x 32 \<in> {0, x}"
    and "mb = fld insn 6 10" and "me = fld insn 1 5" and "rs = fld insn 21 25" and "ra = fld insn 16 20"
    and "msk = (\<lambda>i. if mb \<le> me then mb \<le> i \<and> i \<le> me else mb \<le> i \<or> i \<le> me)"
    and "rot = (\<lambda>sh i. bit (gpr c rs) ((31 - i + (32 - unat sh)) mod 32))"
  shows "\<exists>v w z. ppc32_exec_RLWINM env insn c = Ok False (set_gpr ra v c) \<and>
                 ppc32_exec_RLWNM env insn c = Ok False (set_gpr ra w c) \<and>
                 ppc32_exec_RLWIMI env insn c = Ok False (set_gpr ra z c) \<and>
                 (\<forall>i<32. (bit v (31 - i) \<longleftrightarrow> msk i \<and> rot (bits insn 11 15) i) \<and>
                         (bit w (31 - i) \<longleftrightarrow> msk i \<and> rot (gpr c (fld insn 11 15) AND 0x1f) i) \<and>
                         (bit z (31 - i) \<longleftrightarrow> (if msk i then rot (bits insn 11 15) i
                             else bit (gpr c ra) (31 - i))))"
proof -
  have m: "mb < 32" "me < 32" using fld_5 [of insn 6] fld_5 [of insn 1] by (simp_all add: assms(2,3))
  have sh: "bits insn 11 15 < 32" using bits_5 [of insn 11] by simp
  have "gpr c (fld insn 11 15) AND 0x1f \<le> 31" by (rule word_and_le1)
  then have sh': "gpr c (fld insn 11 15) AND 0x1f < 32" by (rule le_less_trans) simp
  have r: "bit (ppc_rotl env (gpr c rs) s) (31 - i) \<longleftrightarrow> rot s i" if "s < 32" for s i
    unfolding assms(7) using that assms(1) by (rule rotl_bit) simp
  have k: "bit (ppc32_rotate_mask mb me) (31 - i) \<longleftrightarrow> msk i" if "i < 32" for i
    unfolding assms(6) by (rule rotate_mask_bit [OF m that])
  show ?thesis
    by (intro exI conjI allI impI)
      (unfold ppc32_exec_RLWINM_def ppc32_exec_RLWNM_def ppc32_exec_RLWIMI_def Let_def assms(2-5) [symmetric],
       rule refl, rule refl, rule refl, auto simp: bit_or_iff bit_and_iff bit_not_iff k r sh sh')
qed

section \<open>Exceptions\<close>

lemma rfi_msr:
  "(((m AND NOT 0x0006ef32) AND NOT 0x87c0ff73) OR ((m AND 0xff73) AND 0x87c0ff73)) AND NOT 0x2000 = (m AND
      NOT 0x87c62000 :: u32)"
proof -
  have "((m AND x) OR (m AND y)) AND z = m AND ((x OR y) AND z)" for x y z :: u32
    by (rule bit_word_eqI) (auto simp: bit_simps)
  then show ?thesis by (simp only: and.assoc) simp
qed

text \<open>C37: \<open>rfi\<close> at the end of a handler that kept SRR0, SRR1 and MSR returns to the interrupted
  instruction (after it for a system call), restores the MSR but for the bits 0x87c62000, which are
  cleared, and rearms the interrupt check when interrupts are enabled again and one is pending.\<close>

theorem ppc_exception_return:
  assumes "e = ppc32_trigger_exception vec c"
    and "srr0 h = srr0 e" "srr1 h = srr1 e" "msr h = msr e"
  shows "\<exists>c'. ppc32_exec_RFI env insn h = Ok True c' \<and>
              ia c' = (ia c + (if vec = PPC32_EXC_SYSCALL then 4 else 0)) AND NOT 3 \<and>
              msr c' = msr c AND NOT 0x87c62000 \<and>
              (irq_check c' \<noteq> 0 \<longleftrightarrow> bit (msr c) 15 \<and> irq_pending h \<noteq> 0)"
proof -
  have e: "srr0 e = ia c + (if vec = PPC32_EXC_SYSCALL then 4 else 0)" "srr1 e = msr c AND PPC32_EXC_SRR1_MASK"
    "msr e = msr c AND NOT PPC32_EXC_MSR_MASK"
    by (simp_all add: assms(1) ppc32_trigger_exception_def Let_def)
  have b: "bit (m AND NOT 0x87c62000 :: u32) 15 \<longleftrightarrow> bit m 15" for m by (simp add: bit_simps)
  define m where "m = ((msr h AND NOT PPC32_RFI_MSR_MASK) OR (srr1 h AND PPC32_RFI_MSR_MASK)) AND NOT 0x2000"
  have m: "m = msr c AND NOT 0x87c62000" unfolding m_def assms(3,4) e by (rule rfi_msr)
  have "ppc32_exec_RFI env insn h =
      Ok True (h\<lparr>msr := m, ia := srr0 h AND NOT 3, irq_check := of_bool (m AND PPC32_MSR_EE \<noteq> 0 \<and>
          irq_pending h \<noteq> 0)\<rparr>)"
    by (simp add: ppc32_exec_RFI_def Let_def m_def push_bit_eq_mult)
  then show ?thesis using b [of "msr c"] by (simp add: m assms(2) e)
qed

section \<open>Concrete instances\<close>

text \<open>A CPU after \<open>ppc32_init\<close> in an empty virtual machine, and an environment without device
  handlers whose undefined shifts give 0.\<close>

definition ppc_example :: "unit ppc_vm" where
  "ppc_example =
     \<lparr>ia = 0xFFF00100, gpr = (\<lambda>i. if i = 1 then 0x6000 else 0), irq_pending = 0, irq_check = 0, xer = 0,
      lr = 0, ctr = 0, reserve = 0, xer_ca = 0, cr_fields = (\<lambda>_. 0),
      mts_cache = (\<lambda>_ _. mts32_empty_entry), slow_lookup_405 = False, irq_count = 0, timer_irq_count = 0,
      idle_pc = 0, timer_irq_pending = 0, timer_irq_armed = 0, timer_irq_freq = 250,
      timer_irq_check_itv = 1000, timer_drift = 0, irq_disable = 0, bat = (\<lambda>_ _ _. 0), sr = (\<lambda>_. 0),
      sdr1 = 0, sdr1_hptr = 0, msr = PPC32_MSR_IP, srr0 = 0, srr1 = 0, dsisr = 0, dar = 0,
      sprg = (\<lambda>_. 0), pvr = 0, tb = 0, dec = 0, hid0 = 0, hid1 = 0, sw_pos = 0,
      ppc405_tlb = (\<lambda>_. \<lparr>tlb_hi = 0, tlb_lo = 0, tid = 0\<rparr>), ppc405_pid = 0, mpc860_immr = 0,
      fpu_reg = (\<lambda>_. 0), njm_exec_page = 0, njm_exec_ptr = 0, breakpoints = replicate 8 0,
      breakpoints_enabled = False, cpu_state = 0, idle_count = 0, idle_max = 500,
      vm_inst = empty_vm\<rparr>"

definition ppc_example_env :: "'d ppc_env" where
  "ppc_example_env =
     \<lparr>env_handler = (\<lambda>_ _ _ _ _ d c. Ok (0, d) c), env_undef = None, env_set_irq = (\<lambda>_ c. c),
      env_uninit = (\<lambda>_. 0), env_ub_shl = (\<lambda>_ _. 0), env_ub_shr = (\<lambda>_ _. 0), env_ub_sar = (\<lambda>_ _. 0)\<rparr>"



text \<open>\<open>bdnz\<close> with CTR = 2 branches back by 8 and leaves CTR = 1.\<close>

theorem ppc_branch_decision_witness:
  "ppc32_exec_BC ppc_example_env 0x4200FFF8 (ppc_example\<lparr>ctr := 2\<rparr>) =
     Ok True (ppc_example\<lparr>ctr := 1, ia := 0xFFF000F8\<rparr>)"
proof -
  have "cr_ok (ppc_example\<lparr>ctr := 2\<rparr>)" by (simp add: cr_ok_def ppc_example_def)
  from ppc_branch_decision [where insn = "0x4200FFF8" and env = ppc_example_env, OF this refl refl refl refl refl]
  show ?thesis
    by (simp add: branch_taken_def branch_ctr_def ppc_example_def fld_def bits_def sign_extend_32_def)
qed

text \<open>\<open>rlwinm r3,r1,8,24,31\<close> moves the top byte of r1 to the bottom.\<close>

theorem ppc_rotate_and_mask_witness:
  "\<exists>v. ppc32_exec_RLWINM ppc_example_env 0x5423463E (set_gpr 1 0x80000000 ppc_example) =
         Ok False (set_gpr 3 v (set_gpr 1 0x80000000 ppc_example)) \<and> bit v 7 \<and> \<not> bit v 31"
proof -
  let ?c = "set_gpr 1 0x80000000 ppc_example"
  obtain v where v: "ppc32_exec_RLWINM ppc_example_env 0x5423463E ?c = Ok False (set_gpr 3 v ?c)"
    and b: "\<And>i. i < 32 \<Longrightarrow> bit v (31 - i) \<longleftrightarrow> 24 \<le> i \<and> bit (0x80000000 :: u32) ((31 - i + 24) mod 32)"
    using ppc_rotate_and_mask [where c = ?c and insn = "0x5423463E" and env = ppc_example_env,
        OF _ refl refl refl refl refl refl]
    by (auto simp: ppc_example_env_def fld_def bits_def)
  have "bit v 7" "\<not> bit v 31" using b [of 24] b [of 0] by simp_all
  with v show ?thesis by blast
qed

theorem ppc_exception_return_witness:
  "\<exists>c'. ppc32_exec_RFI ppc_example_env 0x4C000064 (ppc32_trigger_exception PPC32_EXC_SYSCALL ppc_example) = Ok True c' \<and>
        ia c' = 0xFFF00104 \<and> msr c' = PPC32_MSR_IP"
  using ppc_exception_return [where vec = PPC32_EXC_SYSCALL and c = ppc_example and env = ppc_example_env
      and insn = "0x4C000064", OF refl refl refl refl]
  by (auto simp: ppc_example_def)

end
