(* ===== verification/Ppc32Decode.thy ===== *)
theory Ppc32Decode
  imports Ppc32Exec
begin

text \<open>
  Decoding of the PowerPC interpreter: the lookup table that \<open>InsnLookup\<close> compiles from
  \<open>ppc32_exec_tags\<close> gives the first entry that matches the opcode. The interface \<open>insn_decoder\<close>
  is interpreted on the table; the catch-all entry at the end makes the decoder total.
\<close>

section \<open>Decoding\<close>

abbreviation ppc_matches :: "u32 \<Rightarrow> 'd ppc32_insn_exec_tag \<Rightarrow> bool" where
  "ppc_matches insn tag \<equiv> insn AND tag_mask tag = tag_value tag"

abbreviation ppc_tags :: "'d ppc32_insn_exec_tag list" where
  "ppc_tags \<equiv> ppc32_exec_tags"

lemma ppc_chk_halves:
  "ppc32_exec_chk_hi tag (unat (drop_bit 16 insn)) \<and> ppc32_exec_chk_lo tag (unat (insn AND 0xFFFF))
     \<longleftrightarrow> ppc_matches insn tag"
proof -
  have m: "(0xFFFF :: u32) = mask 16" by (simp add: mask_eq_exp_minus_1)
  show ?thesis
    unfolding ppc32_exec_chk_hi_def ppc32_exec_chk_lo_def of_nat_unat ucast_id m by (rule halves_match)
qed

lemma length_ppc_tags: "length (ppc_tags :: 'd ppc32_insn_exec_tag list) = 194"
  by (simp add: ppc32_exec_tags_def)

lemma ppc_create_ilt_spec:
  assumes "length tags + 31 < 2 ^ 32"
  shows "\<exists>t. ppc32_exec_create_ilt tags = Some t \<and>
     (\<forall>insn. ilt_lookup t insn = first_match (length tags) (\<lambda>i. ppc_matches insn (tags ! i)))"
  using ilt_compile_spec [of "\<lparr>nr_insn = length tags,
      cbm_size = unat (normalize_size (of_nat (length tags)) 32 5),
      chk_lo = (\<lambda>i. ppc32_exec_chk_lo (tags ! i)), chk_hi = (\<lambda>i. ppc32_exec_chk_hi (tags ! i)), rfct = []\<rparr>"]
    normalize_size_covers [OF assms]
  by (simp add: ppc32_exec_create_ilt_def ilt_create_def ppc_chk_halves)

definition ppc32_ilt :: "'d ppc32_insn_exec_tag list \<Rightarrow> u32 \<Rightarrow> int" where
  "ppc32_ilt tags insn = ilt_lookup (the (ppc32_exec_create_ilt tags)) insn"

interpretation ppc_decoder: insn_decoder
  "length (ppc_tags :: 'd ppc32_insn_exec_tag list)"
  "\<lambda>i insn. ppc_matches insn (ppc_tags ! i :: 'd ppc32_insn_exec_tag)"
  "ppc32_ilt (ppc_tags :: 'd ppc32_insn_exec_tag list)"
proof
  have "length (ppc_tags :: 'd ppc32_insn_exec_tag list) + 31 < 2 ^ 32" by (simp add: length_ppc_tags)
  from ppc_create_ilt_spec [OF this]
  show "ppc32_ilt (ppc_tags :: 'd ppc32_insn_exec_tag list) insn =
     first_match (length (ppc_tags :: 'd ppc32_insn_exec_tag list))
       (\<lambda>i. ppc_matches insn (ppc_tags ! i :: 'd ppc32_insn_exec_tag))" for insn
    unfolding ppc32_ilt_def by auto
qed

lemma ppc_get_tag_ilt:
  "(ppc32_exec_get_tag insn :: 'd ppc32_insn_exec_tag option) =
     (let index = ppc32_ilt (ppc_tags :: 'd ppc32_insn_exec_tag list) insn in
      if 0 \<le> index \<and> nat index < length (ppc_tags :: 'd ppc32_insn_exec_tag list)
      then Some (ppc_tags ! nat index) else None)"
proof -
  have "length (ppc_tags :: 'd ppc32_insn_exec_tag list) + 31 < 2 ^ 32" by (simp add: length_ppc_tags)
  from ppc_create_ilt_spec [OF this]
  obtain t where "ppc32_exec_create_ilt (ppc_tags :: 'd ppc32_insn_exec_tag list) = Some t" by blast
  then show ?thesis by (simp add: ppc32_exec_get_tag_def ppc32_ilt_def)
qed

text \<open>The catch-all entry makes the decoder total.\<close>

lemma ppc_unknown_last: "ppc_matches insn ((ppc_tags :: 'd ppc32_insn_exec_tag list) ! 193)"
  by (simp add: ppc32_exec_tags_def mk_ppc_tag_def)

lemma ppc_get_tag_index:
  "\<exists>i<194. ppc32_exec_get_tag insn = Some ((ppc_tags :: 'd ppc32_insn_exec_tag list) ! i) \<and>
     ppc_matches insn ((ppc_tags :: 'd ppc32_insn_exec_tag list) ! i) \<and>
     (\<forall>j<i. \<not> ppc_matches insn ((ppc_tags :: 'd ppc32_insn_exec_tag list) ! j))"
proof -
  have "(193::nat) < length (ppc_tags :: 'd ppc32_insn_exec_tag list)" by (simp add: length_ppc_tags)
  from ppc_decoder.lookup_total [OF this ppc_unknown_last]
  obtain i where i: "ppc32_ilt (ppc_tags :: 'd ppc32_insn_exec_tag list) insn = int i" "i \<le> 193" by blast
  then have "ppc32_exec_get_tag insn = Some ((ppc_tags :: 'd ppc32_insn_exec_tag list) ! i)"
    by (simp add: ppc_get_tag_ilt length_ppc_tags)
  with i ppc_decoder.lookup_matches [OF i(1)] show ?thesis by (intro exI [of _ i]) simp
qed

lemma ppc_get_tag_mem:
  assumes "ppc32_exec_get_tag insn = Some (tag :: 'd ppc32_insn_exec_tag)"
  shows "tag \<in> set ppc_tags"
proof -
  obtain i where "i < 194" "ppc32_exec_get_tag insn = Some ((ppc_tags :: 'd ppc32_insn_exec_tag list) ! i)"
    using ppc_get_tag_index [of insn, where 'd = 'd] by blast
  then show ?thesis using assms by (simp add: length_ppc_tags)
qed

lemma ppc_get_tagI:
  assumes "i < 194" "ppc_matches insn ((ppc_tags :: 'd ppc32_insn_exec_tag list) ! i)"
    "\<And>j. j < i \<Longrightarrow> \<not> ppc_matches insn ((ppc_tags :: 'd ppc32_insn_exec_tag list) ! j)"
  shows "ppc32_exec_get_tag insn = Some ((ppc_tags :: 'd ppc32_insn_exec_tag list) ! i)"
proof -
  have "ppc32_ilt (ppc_tags :: 'd ppc32_insn_exec_tag list) insn = int i"
    by (rule ppc_decoder.lookup_eqI) (use assms in \<open>auto simp: length_ppc_tags\<close>)
  then show ?thesis using assms(1) by (simp add: ppc_get_tag_ilt length_ppc_tags)
qed

text \<open>C27: decoding a PowerPC opcode never fails and gives the first entry of \<open>ppc32_exec_tags\<close> whose
  masked bits agree with it, so the short forms listed before a general one win.\<close>

theorem ppc_decode_first_match:
  "ppc32_exec_get_tag insn =
     find (\<lambda>tag. insn AND tag_mask tag = tag_value tag) (ppc32_exec_tags :: 'd ppc32_insn_exec_tag list) \<and>
   ppc32_exec_get_tag insn \<noteq> (None :: 'd ppc32_insn_exec_tag option)"
proof -
  obtain i where i: "i < 194" "ppc32_exec_get_tag insn = Some ((ppc_tags :: 'd ppc32_insn_exec_tag list) ! i)"
    "ppc_matches insn ((ppc_tags :: 'd ppc32_insn_exec_tag list) ! i)"
    "\<And>j. j < i \<Longrightarrow> \<not> ppc_matches insn ((ppc_tags :: 'd ppc32_insn_exec_tag list) ! j)"
    using ppc_get_tag_index [of insn] by blast
  then have "find (\<lambda>tag. ppc_matches insn tag) (ppc_tags :: 'd ppc32_insn_exec_tag list) = Some (ppc_tags ! i)"
    by (auto simp: find_Some_iff length_ppc_tags intro!: exI [of _ i])
  with i(2) show ?thesis by simp
qed

end
