(* ===== verification/Ppc32Types.thy ===== *)
theory Ppc32Types
  imports Ppc32Decode Ppc32Arith
begin

text \<open>
  Well-formed states of the PowerPC processor and their preservation, construct by construct: the flag
  helpers, the memory accesses, the 194 instructions, the interrupts and the run loop. The collection
  \<open>wf_rules\<close> holds one rule per construct, so that the proof for an instruction is a case analysis.
\<close>

section \<open>Well-formed processors\<close>

definition ppc_wf :: "'z cpu_ppc_scheme \<Rightarrow> bool" where
  "ppc_wf c \<longleftrightarrow> cr_ok c \<and> (xer_ca c = 0 \<or> xer_ca c = 1) \<and> \<not> bit (xer c) 29 \<and> sw_pos c \<in> {0, 8, 16, 24}"

lemma ppc_wf_frame [simp]:
  "ppc_wf (c\<lparr>ia := v32\<rparr>) = ppc_wf c" "ppc_wf (c\<lparr>gpr := f32\<rparr>) = ppc_wf c"
  "ppc_wf (c\<lparr>irq_pending := v32\<rparr>) = ppc_wf c" "ppc_wf (c\<lparr>irq_check := v32\<rparr>) = ppc_wf c"
  "ppc_wf (c\<lparr>lr := v32\<rparr>) = ppc_wf c" "ppc_wf (c\<lparr>ctr := v32\<rparr>) = ppc_wf c"
  "ppc_wf (c\<lparr>reserve := v32\<rparr>) = ppc_wf c" "ppc_wf (c\<lparr>mts_cache := cache\<rparr>) = ppc_wf c"
  "ppc_wf (c\<lparr>irq_count := v64\<rparr>) = ppc_wf c" "ppc_wf (c\<lparr>timer_irq_count := v64\<rparr>) = ppc_wf c"
  "ppc_wf (c\<lparr>timer_irq_pending := v32\<rparr>) = ppc_wf c" "ppc_wf (c\<lparr>timer_irq_armed := v32\<rparr>) = ppc_wf c"
  "ppc_wf (c\<lparr>timer_drift := v32\<rparr>) = ppc_wf c"
  "ppc_wf (c\<lparr>bat := bats\<rparr>) = ppc_wf c" "ppc_wf (c\<lparr>sr := f32\<rparr>) = ppc_wf c" "ppc_wf (c\<lparr>sdr1 := v32\<rparr>) = ppc_wf c"
  "ppc_wf (c\<lparr>msr := v32\<rparr>) = ppc_wf c" "ppc_wf (c\<lparr>srr0 := v32\<rparr>) = ppc_wf c" "ppc_wf (c\<lparr>srr1 := v32\<rparr>) = ppc_wf c"
  "ppc_wf (c\<lparr>dsisr := v32\<rparr>) = ppc_wf c" "ppc_wf (c\<lparr>dar := v32\<rparr>) = ppc_wf c" "ppc_wf (c\<lparr>sprg := f32\<rparr>) = ppc_wf c"
  "ppc_wf (c\<lparr>tb := v64\<rparr>) = ppc_wf c" "ppc_wf (c\<lparr>dec := v32\<rparr>) = ppc_wf c"
  "ppc_wf (c\<lparr>hid0 := v32\<rparr>) = ppc_wf c" "ppc_wf (c\<lparr>hid1 := v32\<rparr>) = ppc_wf c"
  "ppc_wf (c\<lparr>ppc405_tlb := t405\<rparr>) = ppc_wf c" "ppc_wf (c\<lparr>ppc405_pid := v32\<rparr>) = ppc_wf c"
  "ppc_wf (c\<lparr>fpu_reg := f64\<rparr>) = ppc_wf c" "ppc_wf (c\<lparr>njm_exec_page := v64\<rparr>) = ppc_wf c"
  "ppc_wf (c\<lparr>njm_exec_ptr := v64\<rparr>) = ppc_wf c" "ppc_wf (c\<lparr>idle_count := v32\<rparr>) = ppc_wf c"
  by (simp_all add: ppc_wf_def cr_ok_def)

lemma ppc_wf_vm [simp]: "ppc_wf ((c :: 'd ppc_vm)\<lparr>vm_inst := vm\<rparr>) = ppc_wf c"
  by (simp add: ppc_wf_def cr_ok_def)

named_theorems wf_rules \<open>what keeps a processor well-formed\<close>

lemma ppc_wf_cr [wf_rules]: "ppc_wf c \<Longrightarrow> v < 16 \<Longrightarrow> ppc_wf (set_cr_field i v c)"
  by (simp add: ppc_wf_def cr_ok_def)

lemma ppc_wf_ca [wf_rules]: "ppc_wf c \<Longrightarrow> v = 0 \<or> v = 1 \<Longrightarrow> ppc_wf (c\<lparr>xer_ca := v\<rparr>)"
  by (simp add: ppc_wf_def cr_ok_def)

lemma ppc_wf_xer [wf_rules]: "ppc_wf c \<Longrightarrow> \<not> bit v 29 \<Longrightarrow> ppc_wf (c\<lparr>xer := v\<rparr>)"
  by (simp add: ppc_wf_def cr_ok_def)

lemma ppc_wf_sw [wf_rules]: "ppc_wf c \<Longrightarrow> v \<in> {0, 8, 16, 24} \<Longrightarrow> ppc_wf (c\<lparr>sw_pos := v\<rparr>)"
  by (simp add: ppc_wf_def cr_ok_def)

lemma ppc_wfD:
  "ppc_wf c \<Longrightarrow> i < 8 \<Longrightarrow> cr_fields c i < 16" "ppc_wf c \<Longrightarrow> \<not> bit (xer c) 29"
  "ppc_wf c \<Longrightarrow> xer_ca c = 0 \<or> xer_ca c = 1" "ppc_wf c \<Longrightarrow> sw_pos c \<in> {0, 8, 16, 24}" "ppc_wf c \<Longrightarrow> cr_ok c"
  by (auto simp: ppc_wf_def cr_ok_def)

definition wf_out :: "('a, 'z cpu_ppc_scheme) outcome \<Rightarrow> bool" where
  "wf_out r \<longleftrightarrow> r \<noteq> OutOfFuel \<and> outcome_all ppc_wf r"

lemma wf_out_simps [simp]:
  "wf_out (Ok a c) \<longleftrightarrow> ppc_wf c" "wf_out (LongJmp c) \<longleftrightarrow> ppc_wf c" "wf_out HostFault" "\<not> wf_out OutOfFuel"
  by (simp_all add: wf_out_def)

lemma wf_out_bind [wf_rules]: "wf_out r \<Longrightarrow> (\<And>a c. ppc_wf c \<Longrightarrow> wf_out (f a c)) \<Longrightarrow> wf_out (obind r f)"
  by (cases r) (auto simp: wf_out_def)

text \<open>Device handlers, the handler of undefined addresses and the platform keep the CPU well-formed.\<close>

definition handlers_keep_wf :: "'d ppc_env \<Rightarrow> bool" where
  "handlers_keep_wf env \<longleftrightarrow>
     (\<forall>h p offset op_size op_type data c. ppc_wf c \<longrightarrow> wf_out (env_handler env h p offset op_size op_type data
         c)) \<and>
     (\<forall>h. env_undef env = Some h \<longrightarrow> (\<forall>va op_size op_type data c. ppc_wf c \<longrightarrow> wf_out (h va op_size op_type data
         c))) \<and>
     (\<forall>irq c. ppc_wf c \<longrightarrow> ppc_wf (env_set_irq env irq c))"

lemma wf_handlers [wf_rules]:
  "handlers_keep_wf env \<Longrightarrow> ppc_wf c \<Longrightarrow> wf_out (env_handler env h p offset op_size op_type data c)"
  "handlers_keep_wf env \<Longrightarrow> env_undef env = Some u \<Longrightarrow> ppc_wf c \<Longrightarrow> wf_out (u va op_size op_type data c)"
  "handlers_keep_wf env \<Longrightarrow> ppc_wf c \<Longrightarrow> ppc_wf (env_set_irq env irq c)"
  by (auto simp: handlers_keep_wf_def)

subsection \<open>Memory accesses\<close>

lemma wf_exception [simp]: "ppc_wf (ppc32_trigger_exception vec c) = ppc_wf c"
  by (simp add: ppc32_trigger_exception_def Let_def)

lemma wf_invalidate [simp]: "ppc_wf (ppc32_mem_invalidate_cache c) = ppc_wf c"
  by (simp add: ppc32_mem_invalidate_cache_def)

lemma wf_set_mts [simp]: "ppc_wf (set_mts cid b e c) = ppc_wf c"
  by (simp add: set_mts_def)

lemma wf_special [wf_rules]:
  "handlers_keep_wf env \<Longrightarrow> ppc_wf c \<Longrightarrow> wf_out (ppc32_access_special env vaddr cid acc op_code op_type op_size
      data c)"
  by (auto simp: ppc32_access_special_def Let_def intro!: wf_rules split: ppc_acc.split option.split)

lemma ppc_sparse_fueled: "dev_sparse_get_host_addr p a op vm \<noteq> OutOfFuel"
  by (simp add: dev_sparse_get_host_addr_def Let_def split_def)

lemma wf_map [wf_rules]: "ppc_wf c \<Longrightarrow> wf_out (ppc32_mem_map env cid op_type m b c)"
  by (auto simp: ppc32_mem_map_def Let_def ppc_sparse_fueled split: option.split outcome.split)

lemma wf_use_xlate [wf_rules]:
  "handlers_keep_wf env \<Longrightarrow> ppc_wf c \<Longrightarrow> wf_out (ppc_use_xlate env vaddr cid op_code op_size op_type data x c)"
  by (auto simp: ppc_use_xlate_def Let_def intro!: wf_rules split: ppc_xlate.split option.split)

lemma wf_slow_lookup [wf_rules]:
  "handlers_keep_wf env \<Longrightarrow> ppc_wf c \<Longrightarrow> wf_out (ppc_mts_slow_lookup env vaddr cid op_code op_size op_type data c)"
  by (simp add: ppc_mts_slow_lookup_def ppc32_slow_lookup_def ppc405_slow_lookup_def wf_use_xlate)

lemma wf_access [wf_rules]:
  "handlers_keep_wf env \<Longrightarrow> ppc_wf c \<Longrightarrow> wf_out (ppc32_mem_access env vaddr cid op_code op_size op_type data c)"
  by (auto simp: ppc32_mem_access_def ppc_dev_access_fast_def Let_def intro!: wf_rules split: option.split)

lemma wf_lookup [wf_rules]: "handlers_keep_wf env \<Longrightarrow> ppc_wf c \<Longrightarrow> wf_out (ppc32_mem_lookup env vaddr cid c)"
  by (auto simp: ppc32_mem_lookup_def intro!: wf_rules)

lemma wf_read [wf_rules]: "handlers_keep_wf env \<Longrightarrow> ppc_wf c \<Longrightarrow> wf_out (ppc_read env rd vaddr op_code op_size c)"
  by (auto simp: ppc_read_def intro!: wf_rules)

lemma wf_write [wf_rules]: "handlers_keep_wf env \<Longrightarrow> ppc_wf c \<Longrightarrow>
    wf_out (ppc_write env wr vaddr op_code op_size data c)"
  by (auto simp: ppc_write_def intro!: wf_rules)

lemmas ppc_memop_defs = ppc32_lbz_def ppc32_lhz_def ppc32_lwz_def ppc32_lwbr_def ppc32_lha_def ppc32_stb_def
  ppc32_sth_def ppc32_stw_def ppc32_stwbr_def ppc32_lsw_def ppc32_stsw_def ppc32_lfd_def ppc32_stfd_def

lemma wf_memops [wf_rules]:
  assumes "handlers_keep_wf env" "ppc_wf c"
  shows "wf_out (ppc32_lbz env vaddr r c)" "wf_out (ppc32_lhz env vaddr r c)" "wf_out (ppc32_lwz env vaddr r c)"
    "wf_out (ppc32_lwbr env vaddr r c)" "wf_out (ppc32_lha env vaddr r c)" "wf_out (ppc32_stb env vaddr r c)"
    "wf_out (ppc32_sth env vaddr r c)" "wf_out (ppc32_stw env vaddr r c)" "wf_out (ppc32_stwbr env vaddr r c)"
    "wf_out (ppc32_lsw env vaddr r c)" "wf_out (ppc32_stsw env vaddr r c)" "wf_out (ppc32_lfd env vaddr r c)"
    "wf_out (ppc32_stfd env vaddr r c)" "wf_out (ppc32_icbi env vaddr r c)"
  using assms by (auto simp: ppc_memop_defs ppc32_icbi_def ppc32_translate_def Let_def intro!: wf_rules)

subsection \<open>Flags and the condition register\<close>

lemma u32_lt_16: "(\<And>n. bit (w :: u32) n \<Longrightarrow> n < 4) \<Longrightarrow> w < 16"
proof -
  assume b: "\<And>n. bit w n \<Longrightarrow> n < 4"
  have "w = take_bit 4 w" by (rule bit_word_eqI) (auto simp: bit_simps dest: b)
  then have "unat w = take_bit 4 (unat w)" by (metis unsigned_take_bit_eq)
  then show "w < 16" by (simp add: word_less_nat_alt take_bit_eq_mod)
qed

lemma cr_or_lt_16: "(v :: u32) < 16 \<Longrightarrow> w < 16 \<Longrightarrow> v OR w < 16"
  by (rule u32_lt_16) (auto simp: bit_or_iff dest: bit_lt_16)

lemma cr_and_lt_16: "(v :: u32) < 16 \<Longrightarrow> v AND w < 16"
  by (rule u32_lt_16) (auto simp: bit_and_iff dest: bit_lt_16)

lemma cr_and_F: "w AND 0xF < (16 :: u32)"
proof -
  have "w AND 0xF \<le> 15" by (rule word_and_le1)
  then show ?thesis by (rule le_less_trans) simp
qed

lemma cr_bit_lt_16: "push_bit (ppc32_get_cr_bit n) 1 < (16 :: u32)"
  by (rule u32_lt_16) (auto simp: bit_simps ppc32_get_cr_bit_def)

lemmas cr_bit_lt_16' = cr_bit_lt_16 [unfolded push_bit_of_1]

lemma wf_update_cr0 [wf_rules]: "ppc_wf c \<Longrightarrow> ppc_wf (ppc32_exec_update_cr0 v c)"
  unfolding update_cr0 cr0_of_def by (auto intro!: wf_rules cr_or_lt_16)

lemma bit29: "\<not> bit (0xC0000000 :: u32) 29" "\<not> bit (0x80000000 :: u32) 29" "\<not> bit (0x40000000 :: u32) 29"
  by simp_all

lemma wf_set_flags [wf_rules]:
  "ppc_wf c \<Longrightarrow> ppc_wf (ppc32_exec_ov_sum r a b c)" "ppc_wf c \<Longrightarrow> ppc_wf (ppc32_exec_ov_sub r a b c)"
  "ppc_wf c \<Longrightarrow> ppc_wf (ppc32_exec_ca_sum r a b c)" "ppc_wf c \<Longrightarrow> ppc_wf (ppc32_exec_ca_sub r a b c)"
  unfolding ppc32_exec_ov_sum_def ppc32_exec_ov_sub_def ppc32_exec_ca_sum_def ppc32_exec_ca_sub_def Let_def
  by (auto intro!: wf_rules simp: bit_or_iff bit_and_iff bit29 ppc_wfD)

lemma wf_cr_bits [wf_rules]:
  assumes "ppc_wf c" "n < 32"
  shows "ppc_wf (ppc32_set_cr_bit n c)" "ppc_wf (ppc32_clear_cr_bit n c)"
proof -
  have "cr_fields c (ppc32_get_cr_field n) < 16"
    using assms by (intro ppc_wfD) (simp_all add: ppc32_get_cr_field_def)
  then show "ppc_wf (ppc32_set_cr_bit n c)" "ppc_wf (ppc32_clear_cr_bit n c)"
    using assms(1) by (auto simp: ppc32_set_cr_bit_def ppc32_clear_cr_bit_def Let_def
        intro!: wf_rules cr_or_lt_16 cr_and_lt_16 cr_bit_lt_16')
qed

lemma cmp_field_lt_16: "ppc_cmp_field lt gt c < 16"
  by (simp add: ppc_cmp_field_def Let_def)

lemma wf_check_cond: "ppc_wf c \<Longrightarrow> ppc_wf (snd (ppc32_check_cond bo bi c))"
  by (auto simp: ppc32_check_cond_def Let_def)

lemma wf_mtcrf:
  "ppc_wf c \<Longrightarrow> ppc_wf (fold (\<lambda>i c. if P i then set_cr_field i (F i c AND 0xF) c else c) is c)"
  by (induction "is" arbitrary: c) (auto intro: ppc_wf_cr cr_and_F)

lemma wf_write_spr [wf_rules]: "ppc_wf c \<Longrightarrow> ppc_wf (ppc_write_spr spr v c)"
  by (auto simp: ppc_write_spr_def Let_def and_1_of_bool bit_simps intro!: wf_rules)

lemma wf_set_bat_spr [simp]: "ppc_wf (ppc32_set_bat_spr spr v c) = ppc_wf c"
  by (auto simp: ppc32_set_bat_spr_def set_bat_reg_def split: option.split)

lemma wf_string_next [wf_rules]: "ppc_wf c \<Longrightarrow> ppc_wf (ppc_string_next c)"
  using ppc_wfD(4) [of c] by (auto simp: ppc_string_next_def Let_def intro!: wf_rules)

lemma wf_loops [wf_rules]:
  assumes "handlers_keep_wf env"
  shows "ppc_wf c \<Longrightarrow> (\<And>v r c. ppc_wf c \<Longrightarrow> wf_out (f env v r c)) \<Longrightarrow> wf_out (ppc_multiple f env rs vaddr c)"
    and "ppc_wf c \<Longrightarrow> wf_out (ppc_load_string env n r vaddr c)"
    and "ppc_wf c \<Longrightarrow> wf_out (ppc_store_string env n r vaddr c)"
proof -
  show "ppc_wf c \<Longrightarrow> (\<And>v r c. ppc_wf c \<Longrightarrow> wf_out (f env v r c)) \<Longrightarrow> wf_out (ppc_multiple f env rs vaddr c)"
    by (induction rs arbitrary: vaddr c) (auto intro: wf_out_bind)
  show "ppc_wf c \<Longrightarrow> wf_out (ppc_load_string env n r vaddr c)"
  proof (induction n arbitrary: r vaddr c)
    case (Suc n)
    then show ?case using assms by (auto simp: Let_def intro!: wf_rules Suc)
  qed simp
  show "ppc_wf c \<Longrightarrow> wf_out (ppc_store_string env n r vaddr c)"
  proof (induction n arbitrary: r vaddr c)
    case (Suc n)
    then show ?case using assms by (auto simp: Let_def intro!: wf_rules Suc)
  qed simp
qed

subsection \<open>Instructions\<close>

lemmas ppc32_insn_defs =
  ppc32_exec_MFLR_def ppc32_exec_MTLR_def ppc32_exec_MFCTR_def ppc32_exec_MTCTR_def ppc32_exec_ADD_def
  ppc32_exec_ADD_dot_def ppc32_exec_ADDO_def ppc32_exec_ADDO_dot_def ppc32_exec_ADDC_def
  ppc32_exec_ADDC_dot_def ppc32_exec_ADDCO_def ppc32_exec_ADDCO_dot_def ppc32_exec_ADDE_def
  ppc32_exec_ADDE_dot_def ppc32_exec_ADDEO_def ppc32_exec_ADDEO_dot_def ppc32_exec_ADDI_def
  ppc32_exec_ADDIC_def ppc32_exec_ADDIC_dot_def ppc32_exec_ADDIS_def ppc32_exec_ADDME_def
  ppc32_exec_ADDME_dot_def ppc32_exec_ADDZE_def ppc32_exec_ADDZE_dot_def ppc32_exec_AND_def
  ppc32_exec_AND_dot_def ppc32_exec_ANDC_def ppc32_exec_ANDC_dot_def ppc32_exec_ANDI_dot_def
  ppc32_exec_ANDIS_dot_def ppc32_exec_B_def ppc32_exec_BA_def ppc32_exec_BL_def ppc32_exec_BLA_def
  ppc32_exec_BC_def ppc32_exec_BCA_def ppc32_exec_BCL_def ppc32_exec_BCLA_def ppc32_exec_BCLR_def
  ppc32_exec_BCLRL_def ppc32_exec_BCCTR_def ppc32_exec_BCCTRL_def ppc32_exec_CMP_def ppc32_exec_CMPI_def
  ppc32_exec_CMPL_def ppc32_exec_CMPLI_def ppc32_exec_CNTLZW_def ppc32_exec_CRAND_def ppc32_exec_CRANDC_def
  ppc32_exec_CREQV_def ppc32_exec_CRNAND_def ppc32_exec_CRNOR_def ppc32_exec_CROR_def ppc32_exec_CRORC_def
  ppc32_exec_CRXOR_def ppc32_exec_DCBF_def ppc32_exec_DCBI_def ppc32_exec_DCBT_def ppc32_exec_DCBST_def
  ppc32_exec_DIVW_def ppc32_exec_DIVW_dot_def ppc32_exec_DIVWU_def ppc32_exec_DIVWU_dot_def
  ppc32_exec_EIEIO_def ppc32_exec_EQV_def ppc32_exec_EXTSB_def ppc32_exec_EXTSB_dot_def
  ppc32_exec_EXTSH_def ppc32_exec_EXTSH_dot_def ppc32_exec_ICBI_def ppc32_exec_ISYNC_def ppc32_exec_LBZ_def
  ppc32_exec_LBZU_def ppc32_exec_LBZUX_def ppc32_exec_LBZX_def ppc32_exec_LHA_def ppc32_exec_LHAU_def
  ppc32_exec_LHAUX_def ppc32_exec_LHAX_def ppc32_exec_LHZ_def ppc32_exec_LHZU_def ppc32_exec_LHZUX_def
  ppc32_exec_LHZX_def ppc32_exec_LMW_def ppc32_exec_LWBRX_def ppc32_exec_LWZ_def ppc32_exec_LWZU_def
  ppc32_exec_LWZUX_def ppc32_exec_LWZX_def ppc32_exec_LWARX_def ppc32_exec_LFD_def ppc32_exec_LFDU_def
  ppc32_exec_LFDUX_def ppc32_exec_LFDX_def ppc32_exec_LSWI_def ppc32_exec_LSWX_def ppc32_exec_MCRF_def
  ppc32_exec_MFCR_def ppc32_exec_MFMSR_def ppc32_exec_MFSPR_def ppc32_exec_MFSR_def ppc32_exec_MFSRIN_def
  ppc32_exec_MFTBL_def ppc32_exec_MFTBU_def ppc32_exec_MTCRF_def ppc32_exec_MTMSR_def ppc32_exec_MTSPR_def
  ppc32_exec_MTSR_def ppc32_exec_MULHW_def ppc32_exec_MULHW_dot_def ppc32_exec_MULHWU_def
  ppc32_exec_MULHWU_dot_def ppc32_exec_MULLI_def ppc32_exec_MULLW_def ppc32_exec_MULLW_dot_def
  ppc32_exec_MULLWO_def ppc32_exec_MULLWO_dot_def ppc32_exec_NAND_def ppc32_exec_NAND_dot_def
  ppc32_exec_NEG_def ppc32_exec_NEG_dot_def ppc32_exec_NEGO_def ppc32_exec_NEGO_dot_def ppc32_exec_NOR_def
  ppc32_exec_NOR_dot_def ppc32_exec_OR_def ppc32_exec_OR_dot_def ppc32_exec_ORC_def ppc32_exec_ORC_dot_def
  ppc32_exec_ORI_def ppc32_exec_ORIS_def ppc32_exec_RFI_def ppc32_exec_RLWIMI_def ppc32_exec_RLWIMI_dot_def
  ppc32_exec_RLWINM_def ppc32_exec_RLWINM_dot_def ppc32_exec_RLWNM_def ppc32_exec_RLWNM_dot_def
  ppc32_exec_SC_def ppc32_exec_SLW_def ppc32_exec_SLW_dot_def ppc32_exec_SRAW_def ppc32_exec_SRAWI_def
  ppc32_exec_SRAWI_dot_def ppc32_exec_SRW_def ppc32_exec_SRW_dot_def ppc32_exec_STB_def ppc32_exec_STBU_def
  ppc32_exec_STBUX_def ppc32_exec_STBX_def ppc32_exec_STH_def ppc32_exec_STHU_def ppc32_exec_STHUX_def
  ppc32_exec_STHX_def ppc32_exec_STMW_def ppc32_exec_STW_def ppc32_exec_STWU_def ppc32_exec_STWUX_def
  ppc32_exec_STWX_def ppc32_exec_STWBRX_def ppc32_exec_STWCX_dot_def ppc32_exec_STFD_def
  ppc32_exec_STFDU_def ppc32_exec_STFDUX_def ppc32_exec_STFDX_def ppc32_exec_STSWI_def ppc32_exec_STSWX_def
  ppc32_exec_SUBF_def ppc32_exec_SUBF_dot_def ppc32_exec_SUBFO_def ppc32_exec_SUBFO_dot_def
  ppc32_exec_SUBFC_def ppc32_exec_SUBFC_dot_def ppc32_exec_SUBFE_def ppc32_exec_SUBFIC_def
  ppc32_exec_SUBFZE_def ppc32_exec_SUBFZE_dot_def ppc32_exec_SYNC_def ppc32_exec_TLBIA_def
  ppc32_exec_TLBIE_def ppc32_exec_TLBSYNC_def ppc32_exec_TW_def ppc32_exec_TWI_def ppc32_exec_XOR_def
  ppc32_exec_XOR_dot_def ppc32_exec_XORI_def ppc32_exec_XORIS_def ppc32_exec_DCCCI_def ppc32_exec_ICCCI_def
  ppc32_exec_MFDCR_def ppc32_exec_MTDCR_def ppc32_exec_TLBRE_def ppc32_exec_TLBWE_def
  ppc32_exec_unknown_def

lemma wf_trap [simp]: "ppc_wf (c\<lparr>srr1 := v\<rparr>) = ppc_wf c" by simp

lemma branch_wf:
  "ppc_wf c \<Longrightarrow> (\<And>ok c. ppc_wf c \<Longrightarrow> wf_out (f ok c)) \<Longrightarrow> wf_out (case ppc32_check_cond bo bi c of (ok, c) \<Rightarrow> f ok c)"
  using wf_check_cond [of c bo bi] by (simp add: split_def)

lemma insn_fields_bound: "fld insn 21 25 < 32" "fld insn 16 20 < 32" "fld insn 11 15 < 32"
  using fld_5 [of insn 21] fld_5 [of insn 16] fld_5 [of insn 11] by simp_all

lemma crf_bound: "fld insn 18 20 < 8"
proof -
  have "bits insn 18 20 \<le> 7" unfolding bits_def
      by (rule order_trans [OF word_and_le1]) (simp add: push_bit_eq_mult)
  then show ?thesis by (simp add: fld_def word_le_nat_alt)
qed

lemma wf_tag:
  assumes "tag \<in> set (ppc_tags :: 'd ppc32_insn_exec_tag list)" "handlers_keep_wf env" "ppc_wf c"
  shows "wf_out (tag_exec tag env insn c)"
  using assms unfolding ppc32_exec_tags_def mk_ppc_tag_def list.set
  by (elim insertE) (auto simp: ppc32_insn_defs Let_def and_1_of_bool bit_simps ppc_wfD insn_fields_bound
      crf_bound cmp_field_lt_16
    intro!: wf_rules branch_wf wf_mtcrf cr_or_lt_16 cr_and_lt_16 cr_bit_lt_16')

subsection \<open>The interpreter\<close>

lemma wf_single [wf_rules]:
  assumes "handlers_keep_wf env" "ppc_wf c"
  shows "wf_out (ppc32_exec_single_instruction env insn c)" "wf_out (ppc32_exec_single_insn_ext env insn c)"
proof -
  obtain tag where "ppc32_exec_get_tag insn = Some tag" "tag \<in> set (ppc_tags :: 'a ppc32_insn_exec_tag list)"
    using ppc_get_tag_index [of insn, where 'd = 'a] by (metis length_ppc_tags nth_mem)
  with wf_tag [OF _ assms] show "wf_out (ppc32_exec_single_instruction env insn c)"
    by (simp add: ppc32_exec_single_instruction_def)
  then show "wf_out (ppc32_exec_single_insn_ext env insn c)"
    by (auto simp: ppc32_exec_single_insn_ext_def intro!: wf_rules)
qed

lemma wf_fetch [wf_rules]:
  "handlers_keep_wf env \<Longrightarrow> ppc_wf c \<Longrightarrow> wf_out (ppc32_exec_fetch env addr c)"
  by (auto simp: ppc32_exec_fetch_def Let_def intro!: wf_rules)

lemma wf_interrupts [simp]:
  "ppc_wf (ppc32_trigger_irq c) = ppc_wf c" "ppc_wf (ppc32_trigger_timer_irq c) = ppc_wf c"
  "ppc_wf (ppc32_timer_irq_tick c) = ppc_wf c" "ppc_wf (ppc32_exec_idle d) = ppc_wf d"
  by (simp_all add: ppc32_trigger_irq_def ppc32_trigger_timer_irq_def ppc32_timer_irq_tick_def
      ppc32_exec_idle_def Let_def)

lemma wf_check_timer: "handlers_keep_wf env \<Longrightarrow> ppc_wf c \<Longrightarrow> ppc_wf (snd (ppc32_exec_check_timer env tc c))"
  by (auto simp: ppc32_exec_check_timer_def Let_def intro!: wf_rules)

lemma wf_reset [simp]: "ppc_wf (ppc32_reset c) = ppc_wf c" "ppc_wf (ppc32_set_pvr v c) = ppc_wf c"
proof -
  have s: "ppc_wf (d\<lparr>slow_lookup_405 := b\<rparr>) = ppc_wf d" "ppc_wf (d\<lparr>pvr := v\<rparr>) = ppc_wf d"
      for d :: "'b cpu_ppc_scheme" and b v
    by (simp_all add: ppc_wf_def cr_ok_def)
  show "ppc_wf (ppc32_reset c) = ppc_wf c" "ppc_wf (ppc32_set_pvr v c) = ppc_wf c"
    by (simp_all add: ppc32_reset_def ppc32_set_pvr_def ppc32_mem_restart_def Let_def s)
qed

lemma wf_iteration [wf_rules]:
  assumes "handlers_keep_wf env" "ppc_wf c" shows "wf_out (ppc32_exec_iteration env tc c)"
proof -
  let ?c = "ppc32_exec_idle (if irq_check c \<noteq> 0 then ppc32_trigger_irq c else c)"
  have "ppc_wf (snd (ppc32_exec_check_timer env tc ?c))"
    using assms by (intro wf_check_timer) simp_all
  with assms(1) show ?thesis
    by (auto simp: ppc32_exec_iteration_def Let_def split_def intro!: wf_rules)
qed

lemma wf_run_cpu:
  "handlers_keep_wf env \<Longrightarrow> ppc_wf c \<Longrightarrow> outcome_all ppc_wf (ppc32_exec_run_cpu m tcs env tc c)"
proof (induction m arbitrary: tc c)
  case (Suc m)
  then have "wf_out (ppc32_exec_iteration env tc c)" by (simp add: wf_iteration)
  with Suc show ?case by (cases "ppc32_exec_iteration env tc c") auto
qed simp

lemma wf_page_loop:
  "handlers_keep_wf env \<Longrightarrow> ppc_wf c \<Longrightarrow> outcome_all ppc_wf (ppc32_exec_page_loop n env p c)"
proof (induction n arbitrary: c)
  case (Suc n)
  have "wf_out (ppc32_exec_single_insn_ext env insn c)" for insn using Suc.prems by (rule wf_single)
  then have "outcome_all ppc_wf (ppc32_exec_single_insn_ext env insn c)" for insn by (simp add: wf_out_def)
  with Suc show ?case by (auto simp: Let_def intro!: outcome_all_bind)
qed simp

text \<open>C4: the processor keeps its state well-formed: every field of the condition register holds four bits,
  the carry flag is 0 or 1 and has no second copy in XER, and the byte position of the string
  instructions is 0, 8, 16 or 24. Every one of the 194 instructions, the memory accesses they make
  (exceptions included), interrupts, the timer and a reset preserve this, for handlers that do, and an
  instruction always ends. So the run loop preserves it as long as it runs.\<close>

theorem ppc_type_preservation:
  assumes "handlers_keep_wf env" "ppc_wf c"
  shows "(\<forall>insn. ppc32_exec_single_insn_ext env insn c \<noteq> OutOfFuel \<and>
                 outcome_all ppc_wf (ppc32_exec_single_insn_ext env insn c)) \<and>
         ppc32_exec_iteration env tc c \<noteq> OutOfFuel \<and>
         outcome_all ppc_wf (ppc32_exec_run_cpu m tcs env tc c) \<and>
         outcome_all ppc_wf (ppc32_exec_page_loop m env p c) \<and>
         ppc_wf (ppc32_timer_irq_tick c) \<and> ppc_wf (ppc32_reset c) \<and> ppc_wf (ppc32_set_pvr v c)"
  using wf_single(2) [OF assms] wf_iteration [OF assms] wf_run_cpu [OF assms] wf_page_loop [OF assms] assms(2)
  by (simp add: wf_out_def)

theorem ppc_type_preservation_witness:
  "outcome_all ppc_wf (ppc32_exec_run_cpu 5 (\<lambda>_. 0) ppc_example_env 0 ppc_example)"
proof -
  have "handlers_keep_wf (ppc_example_env :: unit ppc_env)"
    by (simp add: handlers_keep_wf_def ppc_example_env_def)
  moreover have "ppc_wf ppc_example" by (simp add: ppc_wf_def cr_ok_def ppc_example_def)
  ultimately show ?thesis by (rule ppc_type_preservation [THEN conjunct2, THEN conjunct2, THEN conjunct1])
qed

end
