(* ===== verification/Ppc32PageTable.thy ===== *)
theory Ppc32PageTable
  imports Ppc32Arith
begin

text \<open>
  The hashed page table of the PowerPC (\<open>stable/ppc32_mem.c\<close>): the boot loader of a platform builds it with
  \<open>ppc32_init_page_table\<close> and \<open>ppc32_map_page\<close>, and \<open>ppc32_slow_lookup\<close> walks it. Two groups of eight
  slots, selected by a hash and its complement, can hold the entry of a page; here the table in
  host memory is shown to be a map from pages to physical pages.
\<close>

section \<open>Slots of the page table\<close>

lemma host_read32_frame:
  assumes "p mod 4 = 0" "q mod 4 = 0" "p \<noteq> q" "p + 4 \<le> 2 ^ 64" "q + 4 \<le> 2 ^ 64"
  shows "host_read32 (host_write32 (h + of_nat q) v m) (h + of_nat p) = host_read32 m (h + of_nat p)"
proof -
  have ne: "h + of_nat p + of_nat i \<noteq> h + of_nat q + of_nat j" if "i < 4" "j < 4" for i j
  proof
    assume "h + of_nat p + of_nat i = h + of_nat q + of_nat j"
    then have "(of_nat (p + i) :: u64) = of_nat (q + j)" by (simp add: add.assoc)
    moreover have "p + i < 2 ^ 64" "q + j < 2 ^ 64" using that assms(4,5) by linarith+
    ultimately have "p + i = q + j" unfolding word_of_nat_eq_iff by (simp add: take_bit_nat_eq_self)
    then have "p = q" using assms(1,2) that by presburger
    then show False using assms(3) by blast
  qed
  have "host_write32 (h + of_nat q) v m (h + of_nat p + of_nat i) = m (h + of_nat p + of_nat i)" if "i < 4"
      for i
    using ne [OF that] by (intro cell32.wr_frame_neq) simp
  from this [of 0] this [of 1] this [of 2] this [of 3] show ?thesis by (simp add: host_read32_def)
qed

definition ppc_group_mask :: "'z cpu_ppc_scheme \<Rightarrow> u32" where
  "ppc_group_mask c = 0x3FF OR push_bit 10 (sdr1 c AND 0x1FFF)"

definition ppc_slot :: "'z cpu_ppc_scheme \<Rightarrow> u32 \<Rightarrow> nat \<Rightarrow> nat" where
  "ppc_slot c h i = 64 * unat (h AND ppc_group_mask c) + 8 * i"

lemma bit_3FF: "bit (0x3FF :: u32) n \<longleftrightarrow> n < 10" and bit_1FFF: "bit (0x1FFF :: u32) n \<longleftrightarrow> n < 13"
proof -
  have e: "(0x3FF :: u32) = mask 10" "(0x1FFF :: u32) = mask 13" by (simp_all add: mask_eq_exp_minus_1)
  show "bit (0x3FF :: u32) n \<longleftrightarrow> n < 10" "bit (0x1FFF :: u32) n \<longleftrightarrow> n < 13"
    unfolding e bit_mask_iff by auto
qed

lemma group_bound: "unat (h AND ppc_group_mask c) < 2 ^ 23"
proof -
  have "h AND ppc_group_mask c = take_bit 23 (h AND ppc_group_mask c)"
    unfolding ppc_group_mask_def
    by (rule bit_word_eqI) (unfold bit_take_bit_iff bit_and_iff bit_or_iff bit_push_bit_iff bit_3FF
        bit_1FFF, auto)
  then have "unat (h AND ppc_group_mask c) = take_bit 23 (unat (h AND ppc_group_mask c))"
      by (metis unsigned_take_bit_eq)
  then show ?thesis by (metis take_bit_nat_less_exp)
qed

lemma ppc_pte_addr_slot: "ppc_pte_addr (ppc_pteg h c) i = sdr1_hptr c + of_nat (ppc_slot c h i)"
proof -
  let ?g = "h AND ppc_group_mask c"
  have "push_bit 6 (h AND 0x3FF) OR push_bit 16 (drop_bit 10 h AND (sdr1 c AND 0x1FFF)) = push_bit 6 ?g"
    unfolding ppc_group_mask_def by (rule bit_word_eqI) (auto simp: bit_simps bit_3FF bit_1FFF)
  moreover have "(ucast (push_bit 6 ?g) :: u64) = of_nat (64 * unat ?g)"
  proof -
    have "unat (push_bit 6 ?g) = unat ?g * 64"
      using group_bound [of h c] by (simp add: push_bit_eq_mult unat_word_ariths)
    moreover have "(ucast (push_bit 6 ?g) :: u64) = of_nat (unat (push_bit 6 ?g))"
        by (rule of_nat_unat [symmetric])
    ultimately show ?thesis by (simp only: mult.commute)
  qed
  ultimately show ?thesis by (simp add: ppc_pte_addr_def ppc_pteg_def Let_def ppc_slot_def)
qed

lemma slot_bound: "i < 8 \<Longrightarrow> ppc_slot c h i < 2 ^ 30"
  using group_bound [of h c] by (simp add: ppc_slot_def)

lemma slot_inj: "i < 8 \<Longrightarrow> j < 8 \<Longrightarrow> ppc_slot c h i = ppc_slot c k j \<longleftrightarrow>
    h AND ppc_group_mask c = k AND ppc_group_mask c \<and> i = j"
proof
  assume ij: "i < 8" "j < 8" and "ppc_slot c h i = ppc_slot c k j"
  then have "8 * unat (h AND ppc_group_mask c) + i = 8 * unat (k AND ppc_group_mask c) + j"
    by (simp add: ppc_slot_def)
  with ij have "unat (h AND ppc_group_mask c) = unat (k AND ppc_group_mask c)" "i = j" by presburger+
  then show "h AND ppc_group_mask c = k AND ppc_group_mask c \<and> i = j" by (simp add: word_unat_eq_iff)
qed (simp add: ppc_slot_def)

lemma slot_mod: "ppc_slot c h i mod 4 = 0" by (simp add: ppc_slot_def)

section \<open>Keys\<close>

lemma bit_FFFF: "bit (0xFFFF :: u32) n \<longleftrightarrow> n < 16" and bit_3F: "bit (0x3F :: u32) n \<longleftrightarrow> n < 6"
  and bit_7FFFFF: "bit (0x7FFFFF :: u32) n \<longleftrightarrow> n < 23" and bit_40: "bit (0x40 :: u32) n \<longleftrightarrow> n = 6"
proof -
  have e: "(0xFFFF :: u32) = mask 16" "(0x3F :: u32) = mask 6" "(0x7FFFFF :: u32) = mask 23" "(0x40 :: u32)
      = push_bit 6 1"
    by (simp_all add: mask_eq_exp_minus_1)
  show "bit (0xFFFF :: u32) n \<longleftrightarrow> n < 16" "bit (0x3F :: u32) n \<longleftrightarrow> n < 6" "bit (0x7FFFFF :: u32) n \<longleftrightarrow> n < 23"
    "bit (0x40 :: u32) n \<longleftrightarrow> n = 6"
    unfolding e bit_mask_iff bit_push_bit_iff bit_1_iff by auto
qed

definition pte_side :: "bool \<Rightarrow> u32" where
  "pte_side second = (if second then 0x40 else 0)"

definition pte_hash :: "bool \<Rightarrow> u32 \<Rightarrow> u32 \<Rightarrow> u32" where
  "pte_hash second vsid va = (if second then NOT (ppc_pt_hash vsid va) AND 0x7FFFFF else ppc_pt_hash vsid va)"

lemma pte_side_bit: "bit (pte_side s) n \<longleftrightarrow> s \<and> n = 6"
  by (cases s) (simp_all only: pte_side_def if_True if_False bit_40 simp_thms, simp_all)

lemma pte_hi_bit:
  assumes "v < 0x1000000"
  shows "bit (ppc_pte_hi v (pte_side s) va) n \<longleftrightarrow>
     n = 31 \<or> (7 \<le> n \<and> bit v (n - 7)) \<or> (n = 6 \<and> s) \<or> (n < 6 \<and> bit va (22 + n))"
proof -
  have "n < 24" if "bit v n" for n
    by (rule bit_less_pow2 [of v 24]) (use assms that in \<open>simp_all add: word_less_nat_alt\<close>)
  then have "7 \<le> n \<Longrightarrow> bit v (n - 7) \<Longrightarrow> n < 32" by fastforce
  then show ?thesis unfolding ppc_pte_hi_def ppc_api_def bit_or_iff bit_and_iff bit_push_bit_iff
      bit_drop_bit_eq comp_def
      word_flag_bits pte_side_bit bit_3F by auto
qed

lemma pte_hi_valid: "v < 0x1000000 \<Longrightarrow> \<not> ppc_pte_free (ppc_pte_hi v (pte_side s) va)"
  by (simp add: ppc_pte_free_def pte_hi_bit)

lemma pte_hi_inj:
  assumes "v < 0x1000000" "w < 0x1000000" "ppc_pte_hi v (pte_side s) va = ppc_pte_hi w (pte_side t) wa"
  shows "v = w" "s = t" "n < 6 \<Longrightarrow> bit va (22 + n) = bit wa (22 + n)"
proof -
  have b: "n = 31 \<or> (7 \<le> n \<and> bit v (n - 7)) \<or> (n = 6 \<and> s) \<or> (n < 6 \<and> bit va (22 + n)) \<longleftrightarrow>
      n = 31 \<or> (7 \<le> n \<and> bit w (n - 7)) \<or> (n = 6 \<and> t) \<or> (n < 6 \<and> bit wa (22 + n))" for n
    using pte_hi_bit [OF assms(1), of s va n] pte_hi_bit [OF assms(2), of t wa n] assms(3) by simp
  show "s = t" using b [of 6] by simp
  show "n < 6 \<Longrightarrow> bit va (22 + n) = bit wa (22 + n)" using b [of n] by auto
  have small: "n < 24" if "u < 0x1000000" "bit (u :: u32) n" for u n
    by (rule bit_less_pow2 [of u 24]) (use that in \<open>simp_all add: word_less_nat_alt\<close>)
  show "v = w"
  proof (rule bit_word_eqI)
    fix n
    show "bit v n \<longleftrightarrow> bit w n" using b [of "n + 7"] small [OF assms(1), of n] small [OF assms(2), of n] by auto
  qed
qed

definition page_index :: "u32 \<Rightarrow> u32" where
  "page_index va = drop_bit 12 va AND 0xFFFF"

lemma page_index_bit: "bit (page_index va) n \<longleftrightarrow> n < 16 \<and> bit va (12 + n)"
  unfolding page_index_def bit_and_iff bit_drop_bit_eq comp_def bit_FFFF by auto

lemma pt_hash_bit: "bit (ppc_pt_hash v va) n \<longleftrightarrow> n < 23 \<and> (n < 16 \<and> bit va (12 + n)) \<noteq> bit v n"
  unfolding ppc_pt_hash_def bit_and_iff bit_xor_iff bit_drop_bit_eq comp_def bit_FFFF bit_7FFFFF by auto

text \<open>A key in a group determines the segment and the page.\<close>

lemma page_of_key:
  assumes "v < 0x1000000" "w < 0x1000000" "ppc_pte_hi v (pte_side s) va = ppc_pte_hi w (pte_side t) wa"
    and "pte_hash s v va AND ppc_group_mask c = pte_hash t w wa AND ppc_group_mask c"
  shows "v = w \<and> s = t \<and> page_index va = page_index wa"
proof (intro conjI)
  note inj = pte_hi_inj [OF assms(1-3)]
  show vw: "v = w" and st: "s = t" by (rule inj(1), rule inj(2))
  have low: "bit (ppc_group_mask c) n" if "n < 10" for n
    using that unfolding ppc_group_mask_def bit_or_iff bit_3FF by simp
  have "bit (ppc_pt_hash v va) n = bit (ppc_pt_hash w wa) n" if "n < 10" for n
  proof -
    have "bit (pte_hash s v va AND ppc_group_mask c) n = bit (pte_hash t w wa AND ppc_group_mask c) n"
      using assms(4) by simp
    then show ?thesis using that low [OF that]
      unfolding pte_hash_def st [symmetric]
          by (cases s) (simp_all only: if_True if_False bit_and_iff bit_not_iff bit_7FFFFF, auto)
  qed
  then have lo10: "bit va (12 + n) = bit wa (12 + n)" if "n < 10" for n
    using that vw unfolding pt_hash_bit by auto
  show "page_index va = page_index wa"
  proof (rule bit_word_eqI)
    fix n
    have "bit va (12 + n) = bit wa (12 + n)" if "10 \<le> n" "n < 16"
      using inj(3) [of "n - 10"] that by simp
    then show "bit (page_index va) n = bit (page_index wa) n"
      using lo10 [of n] unfolding page_index_bit by (cases "n < 10") auto
  qed
qed

lemma key_of_page:
  assumes "page_index va = page_index wa"
  shows "pte_hash s v va = pte_hash s v wa" "ppc_pte_hi v h va = ppc_pte_hi v h wa"
proof -
  have b: "bit va (12 + n) = bit wa (12 + n)" if "n < 16" for n
    using assms page_index_bit [of va n] page_index_bit [of wa n] that by simp
  have "ppc_pt_hash v va = ppc_pt_hash v wa"
    by (rule bit_word_eqI) (unfold pt_hash_bit, use b in auto)
  then show "pte_hash s v va = pte_hash s v wa" by (simp add: pte_hash_def)
  have "ppc_api va = ppc_api wa"
  proof (rule bit_word_eqI)
    fix n
    show "bit (ppc_api va) n = bit (ppc_api wa) n"
      using b [of "n + 10"] unfolding ppc_api_def bit_and_iff bit_drop_bit_eq comp_def bit_3F by (auto
          simp: add.commute)
  qed
  then show "ppc_pte_hi v h va = ppc_pte_hi v h wa" by (simp add: ppc_pte_hi_def)
qed

section \<open>Mapping a page\<close>

definition slot_word :: "(u64 \<Rightarrow> u8) \<Rightarrow> 'z cpu_ppc_scheme \<Rightarrow> u32 \<Rightarrow> nat \<Rightarrow> nat \<Rightarrow> u32" where
  "slot_word m c h i k = ppc_pte_word m (sdr1_hptr c + of_nat (ppc_slot c h i + k))"

lemma pteg_find_slot:
  "ppc_pteg_find m (ppc_pteg h c) P =
     map_option (\<lambda>i. sdr1_hptr c + of_nat (ppc_slot c h i)) (find (\<lambda>i. P (slot_word m c h i 0)) [0..<8])"
proof -
  have "find (\<lambda>i. P (ppc_pte_word m (ppc_pte_addr (ppc_pteg h c) i))) [0..<8] =
      find (\<lambda>i. P (slot_word m c h i 0)) [0..<8]"
    by (rule find_cong) (simp_all add: slot_word_def ppc_pte_addr_slot)
  then show ?thesis by (simp add: ppc_pteg_find_def ppc_pte_addr_slot cong: option.map_cong) 
qed

text \<open>The search of a lookup on one side, and the two sides together.\<close>

definition pte_find :: "(u64 \<Rightarrow> u8) \<Rightarrow> 'z cpu_ppc_scheme \<Rightarrow> bool \<Rightarrow> u32 \<Rightarrow> u32 \<Rightarrow> nat option" where
  "pte_find m c s v va =
     find (\<lambda>i. slot_word m c (pte_hash s v va) i 0 = ppc_pte_hi v (pte_side s) va) [0..<8]"

definition va_vsid :: "'z cpu_ppc_scheme \<Rightarrow> u32 \<Rightarrow> u32" where
  "va_vsid c va = sr c (unat (drop_bit 28 va)) AND 0x00FFFFFF"

definition pte_found :: "(u64 \<Rightarrow> u8) \<Rightarrow> 'z cpu_ppc_scheme \<Rightarrow> bool \<Rightarrow> u32 \<Rightarrow> nat \<Rightarrow> ppc_xlate" where
  "pte_found m c s va i =
     Xlate (ppc_map (ucast (va AND NOT PPC32_MIN_PAGE_IMASK))
       (ppc_pte_paddr (slot_word m c (pte_hash s (va_vsid c va) va) i 4)) (va AND PPC32_MIN_PAGE_IMASK))"

lemma pte_lookup:
  assumes "sdr1 c \<noteq> 0" "sdr1_hptr c \<noteq> 0"
  shows "ppc32_pte_lookup m va c =
     (case pte_find m c False (va_vsid c va) va of
        Some i \<Rightarrow> pte_found m c False va i
      | None \<Rightarrow> (case pte_find m c True (va_vsid c va) va of
                   Some i \<Rightarrow> pte_found m c True va i | None \<Rightarrow> NoPte))"
proof -
  have k: "(0x80000000 OR push_bit 7 v) OR ppc_api va = ppc_pte_hi v (pte_side False) va"
    "(0x80000040 OR push_bit 7 v) OR ppc_api va = ppc_pte_hi v (pte_side True) va" for v :: u32
  proof -
    have "0x80000040 = (0x80000000 OR 0x40 :: u32)" by simp
    then show "(0x80000000 OR push_bit 7 v) OR ppc_api va = ppc_pte_hi v (pte_side False) va"
      "(0x80000040 OR push_bit 7 v) OR ppc_api va = ppc_pte_hi v (pte_side True) va"
      by (simp_all only: ppc_pte_hi_def pte_side_def if_True if_False or.left_neutral or.right_neutral
          or.assoc or.left_commute or.commute)
  qed
  have w: "ppc_pte_word m (sdr1_hptr c + of_nat (ppc_slot c h i) + 4) = slot_word m c h i 4" for h i
    by (simp add: slot_word_def add.assoc)
  note f = pte_find_def [of m c False, unfolded pte_hash_def if_False, symmetric]
    pte_find_def [of m c True, unfolded pte_hash_def if_True, symmetric]
  show ?thesis
    unfolding ppc32_pte_lookup_def Let_def k pteg_find_slot f pte_found_def pte_hash_def va_vsid_def if_True
        if_False
    using assms by (cases "pte_find m c False (sr c (unat (drop_bit 28 va)) AND 0x00FFFFFF) va";
        cases "pte_find m c True (sr c (unat (drop_bit 28 va)) AND 0x00FFFFFF) va") (simp_all add: w)
qed

lemma ppc_pte_word_write:
  assumes "p mod 4 = 0" "q mod 4 = 0" "p + 4 \<le> 2 ^ 64" "q + 4 \<le> 2 ^ 64"
  shows "ppc_pte_word (host_write32 (h + of_nat q) (ucast w) m) (h + of_nat p) =
     (if p = q then w else ppc_pte_word m (h + of_nat p))"
proof (cases "p = q")
  case True
  have "(ucast (take_bit 32 (ucast w :: u64)) :: u32) = w" by (rule bit_word_eqI) (simp add: bit_simps)
  then show ?thesis using True by (simp add: ppc_pte_word_def host_read32_write32)
next
  case False
  then show ?thesis using assms by (simp add: ppc_pte_word_def host_read32_frame)
qed

text \<open>The words of the table after an entry was written.\<close>

lemma slot_word_write_pte:
  assumes "i < 8" "j < 8" "k = 0 \<or> k = 4"
    and "m' = host_mem (vm_inst (ppc_write_pte (sdr1_hptr c + of_nat (ppc_slot c h i)) hi lo c))"
  shows "slot_word m' c h' j k =
     (if h' AND ppc_group_mask c = h AND ppc_group_mask c \<and> j = i then if k = 0 then hi else lo
      else slot_word (host_mem (vm_inst c)) c h' j k)"
proof -
  let ?p = "ppc_slot c h' j + k" and ?q = "ppc_slot c h i"
  have b: "?p mod 4 = 0" "(?q + 4) mod 4 = 0" "?q mod 4 = 0" "?p + 4 \<le> 2 ^ 64" "?q + 4 + 4 \<le> 2 ^ 64"
    using slot_mod [of c h' j] slot_mod [of c h i] slot_bound [OF assms(1), of c h] slot_bound [OF assms(2),
        of c h']
      assms(3) by auto
  have m': "m' = host_write32 (sdr1_hptr c + of_nat (?q + 4)) (ucast lo)
      (host_write32 (sdr1_hptr c + of_nat ?q) (ucast hi) (host_mem (vm_inst c)))"
    by (simp add: assms(4) ppc_write_pte_def add.assoc)
  have mod8: "ppc_slot c h' j mod 8 = 0" "?q mod 8 = 0" by (simp_all add: ppc_slot_def)
  have eq: "?p = ?q + 4 \<longleftrightarrow> k = 4 \<and> ppc_slot c h' j = ?q" "?p = ?q \<longleftrightarrow> k = 0 \<and> ppc_slot c h' j = ?q"
    using assms(3) mod8 by presburger+
  show ?thesis
    unfolding slot_word_def m' ppc_pte_word_write [OF b(1,2,4,5)]
    using ppc_pte_word_write [OF b(1,3,4), of "sdr1_hptr c" hi "host_mem (vm_inst c)"] b(5)
    unfolding eq slot_inj [OF assms(2,1)] using assms(3) by auto
qed

lemma find_only: "i \<in> set xs \<Longrightarrow> (\<And>j. j \<in> set xs \<Longrightarrow> P j \<longleftrightarrow> j = i) \<Longrightarrow> find P xs = Some i"
  by (induction xs) auto

lemma bit_C00: "bit (0xC00 :: u32) n \<longleftrightarrow> n = 10 \<or> n = 11" and bit_4: "bit (4 :: u32) n \<longleftrightarrow> n = 2"
  and bit_FFFFF000: "bit (0xFFFFF000 :: u32) n \<longleftrightarrow> 12 \<le> n \<and> n < 32"
  and bit_paddr_mask: "bit (0xDFFFFF000 :: u64) n \<longleftrightarrow> 12 \<le> n \<and> n < 33 \<or> n = 34 \<or> n = 35"
proof -
  have e: "(0xC00 :: u32) = push_bit 10 (mask 2)" "(4 :: u32) = push_bit 2 1" "(0xFFFFF000 :: u32) =
      push_bit 12 (mask 20)"
    "(0xDFFFFF000 :: u64) = push_bit 12 (mask 21) OR push_bit 34 (mask 2)"
    by (simp_all add: mask_eq_exp_minus_1)
  show "bit (0xC00 :: u32) n \<longleftrightarrow> n = 10 \<or> n = 11" "bit (4 :: u32) n \<longleftrightarrow> n = 2"
    "bit (0xFFFFF000 :: u32) n \<longleftrightarrow> 12 \<le> n \<and> n < 32" "bit (0xDFFFFF000 :: u64) n \<longleftrightarrow> 12 \<le> n \<and> n < 33 \<or> n = 34 \<or>
        n = 35"
    unfolding e bit_or_iff bit_mask_iff bit_push_bit_iff bit_1_iff by auto
qed

lemma pte_flags_bit:
  assumes "wimg < 16" "pp < 4"
  shows "bit (push_bit 3 wimg + pp :: u32) n \<longleftrightarrow> 3 \<le> n \<and> bit wimg (n - 3) \<or> bit pp n"
    and "bit wimg k \<Longrightarrow> k < 4" and "bit pp k \<Longrightarrow> k < 2"
proof -
  show p: "bit pp k \<Longrightarrow> k < 2" for k
    by (rule bit_less_pow2 [of pp 2]) (use assms in \<open>simp_all add: word_less_nat_alt\<close>)
  show w: "bit wimg k \<Longrightarrow> k < 4" for k by (rule bit_lt_16 [OF assms(1)])
  have "push_bit 3 wimg + pp = push_bit 3 wimg OR pp"
    by (rule disjunctive_add) (auto simp: bit_simps dest: p)
  then show "bit (push_bit 3 wimg + pp :: u32) n \<longleftrightarrow> 3 \<le> n \<and> bit wimg (n - 3) \<or> bit pp n"
    using w [of "n - 3"] by (auto simp: bit_simps)
qed

text \<open>The round trip through the second word of an entry loses bit 33 of the physical address.\<close>

lemma pte_lo_paddr:
  assumes "wimg < 16" "pp < 4"
  shows "ppc_pte_paddr (ppc_pte_lo paddr wimg pp) = paddr AND 0xDFFFFF000"
proof -
  note flags = pte_flags_bit [OF assms]
  have lo: "bit (ppc_pte_lo paddr wimg pp) n \<longleftrightarrow>
      12 \<le> n \<and> n < 32 \<and> bit paddr n \<or> n = 2 \<and> bit paddr 32 \<or> (n = 10 \<or> n = 11) \<and> bit paddr (n + 24) \<or>
      3 \<le> n \<and> bit wimg (n - 3) \<or> bit pp n" for n
    unfolding ppc_pte_lo_def Let_def bit_or_iff bit_and_iff bit_unsigned_iff bit_drop_bit_eq comp_def
      bit_FFFFF000 bit_4 bit_C00 flags(1)
    by (auto simp: add.commute)
  have part: "bit (ppc_pte_lo paddr wimg pp) n = bit paddr n" if "12 \<le> n" "n < 32" for n
    unfolding lo using that flags(2) [of "n - 3"] flags(3) [of n] by auto
  have parts: "bit (ppc_pte_lo paddr wimg pp) 10 = bit paddr 34" "bit (ppc_pte_lo paddr wimg pp) 11 = bit
      paddr 35"
    "bit (ppc_pte_lo paddr wimg pp) 2 = bit paddr 32"
    unfolding lo using flags(2) [of 7] flags(2) [of 8] flags(3) [of 10] flags(3) [of 11] flags(3) [of 2] by auto
  show ?thesis
  proof (rule bit_word_eqI)
    fix n
    have "bit (ppc_pte_paddr (ppc_pte_lo paddr wimg pp)) n \<longleftrightarrow>
        12 \<le> n \<and> n < 32 \<and> bit (ppc_pte_lo paddr wimg pp) n \<or>
        (n = 34 \<or> n = 35) \<and> bit (ppc_pte_lo paddr wimg pp) (n - 24) \<or> n = 32 \<and> bit (ppc_pte_lo paddr wimg pp) 2"
      unfolding ppc_pte_paddr_def Let_def bit_or_iff bit_and_iff bit_push_bit_iff bit_unsigned_iff
        bit_FFFFF000 bit_4 bit_C00 by auto
    also have "\<dots> \<longleftrightarrow> 12 \<le> n \<and> n < 32 \<and> bit paddr n \<or> (n = 34 \<or> n = 35) \<and> bit paddr n \<or> n = 32 \<and> bit paddr 32"
      using part [of n] parts by (cases "n = 34"; cases "n = 35") auto
    also have "\<dots> \<longleftrightarrow> bit (paddr AND 0xDFFFFF000) n"
      unfolding bit_and_iff bit_paddr_mask by (cases "n = 32") auto
    finally show "bit (ppc_pte_paddr (ppc_pte_lo paddr wimg pp)) n = bit (paddr AND 0xDFFFFF000) n" .
  qed
qed

lemma same_page_hash: "pte_find m c s v va = pte_find m c s v wa" if "page_index va = page_index wa"
  unfolding pte_find_def key_of_page [OF that] ..

text \<open>What writing an entry for one page does to the searches for all pages.\<close>

lemma pte_find_write:
  fixes c :: "'d ppc_vm"
  assumes "vsid < 0x1000000" "i < 8" and free: "ppc_pte_free (slot_word m c (pte_hash t vsid vaddr) i 0)"
    and m: "m = host_mem (vm_inst c)"
    and m': "m' = host_mem (vm_inst (ppc_write_pte (sdr1_hptr c + of_nat (ppc_slot c (pte_hash t vsid vaddr) i))
                    (ppc_pte_hi vsid (pte_side t) vaddr) lo c))"
    and w: "w < 0x1000000"
  shows "w \<noteq> vsid \<or> page_index va \<noteq> page_index vaddr \<or> s \<noteq> t \<Longrightarrow> pte_find m' c s w va = pte_find m c s w va"
    and "w \<noteq> vsid \<or> page_index va \<noteq> page_index vaddr \<or> s \<noteq> t \<Longrightarrow> pte_find m c s w va = Some j \<Longrightarrow>
         slot_word m' c (pte_hash s w va) j 4 = slot_word m c (pte_hash s w va) j 4"
    and "pte_find m c t vsid vaddr = None \<Longrightarrow> pte_find m' c t vsid vaddr = Some i"
    and "slot_word m' c (pte_hash t vsid vaddr) i 4 = lo"
proof -
  note wr = slot_word_write_pte [OF assms(2), where c = c and h = "pte_hash t vsid vaddr"
      and hi = "ppc_pte_hi vsid (pte_side t) vaddr" and lo = lo, OF _ _ m', folded m]
  have old: "slot_word m c (pte_hash t vsid vaddr) i 0 \<noteq> ppc_pte_hi w (pte_side s) va" for s va
    using free pte_hi_valid [OF w] by metis
  have grp: "slot_word m c h j k = slot_word m c (pte_hash t vsid vaddr) j k"
    if "h AND ppc_group_mask c = pte_hash t vsid vaddr AND ppc_group_mask c" for h j k
    using that by (simp add: slot_word_def ppc_slot_def)
  have new: "slot_word m' c (pte_hash s w va) j 0 = ppc_pte_hi w (pte_side s) va \<longleftrightarrow>
      slot_word m c (pte_hash s w va) j 0 = ppc_pte_hi w (pte_side s) va"
    if "w \<noteq> vsid \<or> page_index va \<noteq> page_index vaddr \<or> s \<noteq> t" "j < 8" for j s va
    using page_of_key [OF assms(1) w, of t vaddr s va c] that wr [OF that(2), of 0 "pte_hash s w va"]
      grp [of "pte_hash s w va" j 0] old [of s va] by (auto split: if_splits)
  show f: "pte_find m' c s w va = pte_find m c s w va"
    if "w \<noteq> vsid \<or> page_index va \<noteq> page_index vaddr \<or> s \<noteq> t"
    unfolding pte_find_def by (rule find_cong) (use new [OF that] in auto)
  show "slot_word m' c (pte_hash s w va) j 4 = slot_word m c (pte_hash s w va) j 4"
    if "w \<noteq> vsid \<or> page_index va \<noteq> page_index vaddr \<or> s \<noteq> t" "pte_find m c s w va = Some j"
  proof -
    have j: "j < 8" "slot_word m c (pte_hash s w va) j 0 = ppc_pte_hi w (pte_side s) va"
      using that(2) by (auto simp: pte_find_def find_Some_iff)
    then show ?thesis using wr [OF j(1), of 4 "pte_hash s w va"] grp [of "pte_hash s w va" j 0] old [of s va]
      by auto
  qed
  show "pte_find m' c t vsid vaddr = Some i" if "pte_find m c t vsid vaddr = None"
    unfolding pte_find_def
  proof (rule find_only)
    fix j assume "j \<in> set [0..<8::nat]"
    then show "slot_word m' c (pte_hash t vsid vaddr) j 0 = ppc_pte_hi vsid (pte_side t) vaddr \<longleftrightarrow> j = i"
      using that wr [of j 0 "pte_hash t vsid vaddr"] by (auto simp: pte_find_def find_None_iff)
  qed (use assms(2) in simp)
  show "slot_word m' c (pte_hash t vsid vaddr) i 4 = lo"
    using wr [OF assms(2), of 4 "pte_hash t vsid vaddr"] by simp
qed

lemma va_vsid_bound: "va_vsid c va < 0x1000000"
proof -
  have "va_vsid c va \<le> 0xFFFFFF" unfolding va_vsid_def by (rule word_and_le1)
  then show ?thesis by (rule le_less_trans) simp
qed

text \<open>A successful \<open>ppc32_map_page\<close> writes one free slot on one of the two sides.\<close>

lemma map_page_cases:
  assumes "ppc32_map_page vsid vaddr paddr wimg pp c = Ok r c'"
  obtains (mapped) t i where "r = 0" "i < 8" "sdr1_hptr c \<noteq> 0"
      "ppc_pte_free (slot_word (host_mem (vm_inst c)) c (pte_hash t vsid vaddr) i 0)"
      "c' = ppc_write_pte (sdr1_hptr c + of_nat (ppc_slot c (pte_hash t vsid vaddr) i))
              (ppc_pte_hi vsid (pte_side t) vaddr) (ppc_pte_lo paddr wimg pp) c"
  | (full) "r = -1" "c' = c"
      "\<And>t i. i < 8 \<Longrightarrow> \<not> ppc_pte_free (slot_word (host_mem (vm_inst c)) c (pte_hash t vsid vaddr) i 0)"
proof -
  let ?m = "host_mem (vm_inst c)"
  let ?f = "\<lambda>t. find (\<lambda>i. ppc_pte_free (slot_word ?m c (pte_hash t vsid vaddr) i 0)) [0..<8]"
  have h: "sdr1_hptr c \<noteq> 0" using assms by (auto simp: ppc32_map_page_def)
  then have e: "ppc32_map_page vsid vaddr paddr wimg pp c =
      (case ?f False of
         Some i \<Rightarrow> Ok 0 (ppc_write_pte (sdr1_hptr c + of_nat (ppc_slot c (pte_hash False vsid vaddr) i))
                          (ppc_pte_hi vsid (pte_side False) vaddr) (ppc_pte_lo paddr wimg pp) c)
       | None \<Rightarrow>
           (case ?f True of
              Some i \<Rightarrow> Ok 0 (ppc_write_pte (sdr1_hptr c + of_nat (ppc_slot c (pte_hash True vsid vaddr) i))
                              (ppc_pte_hi vsid (pte_side True) vaddr) (ppc_pte_lo paddr wimg pp) c)
            | None \<Rightarrow> Ok (-1) c))"
    unfolding ppc32_map_page_def Let_def pteg_find_slot pte_hash_def pte_side_def if_True if_False
    by (simp split: option.split)
  show thesis
  proof (cases "?f False")
    case (Some i)
    from Some assms have "r = 0 \<and> c' = ppc_write_pte (sdr1_hptr c + of_nat (ppc_slot c (pte_hash False vsid
        vaddr) i))
        (ppc_pte_hi vsid (pte_side False) vaddr) (ppc_pte_lo paddr wimg pp) c" unfolding e by auto
    with Some h mapped [of i False] show thesis by (auto simp: find_Some_iff)
  next
    case None
    note none = this
    show thesis
    proof (cases "?f True")
      case (Some i)
      from Some none assms have "r = 0 \<and>
          c' = ppc_write_pte (sdr1_hptr c + of_nat (ppc_slot c (pte_hash True vsid vaddr) i))
          (ppc_pte_hi vsid (pte_side True) vaddr) (ppc_pte_lo paddr wimg pp) c" unfolding e by auto
      with Some h mapped [of i True] show thesis by (auto simp: find_Some_iff)
    next
      case None
      have "\<not> ppc_pte_free (slot_word ?m c (pte_hash t vsid vaddr) i 0)" if "i < 8" for t i
        using none None that by (cases t) (auto simp: find_None_iff)
      moreover from None none assms have "r = -1 \<and> c' = c" unfolding e by auto
      ultimately show thesis using full by blast
    qed
  qed
qed

text \<open>C3: the page table of the boot loader is a map from pages to physical pages. A call of
  \<open>ppc32_map_page\<close> for a page without translation either finds both groups full and changes nothing, or
  afterwards every address of that page (in every segment with the same VSID) translates to the given
  physical page and every other address translates as before. Of the physical address, bit 33 is lost,
  because the mask 0xC00 covers two of the three extension bits.\<close>

theorem ppc_map_page_refines_map:
  assumes "ppc32_map_page vsid vaddr paddr wimg pp c = Ok r c'"
    and "vsid < 0x1000000" "wimg < 16" "pp < 4" "sdr1 c \<noteq> 0"
    and "xl = (\<lambda>c va. ppc32_pte_lookup (host_mem (vm_inst c)) va c)"
    and "on_page = (\<lambda>va. sr c (unat (drop_bit 28 va)) AND 0xFFFFFF = vsid \<and>
        drop_bit 12 va AND 0xFFFF = drop_bit 12 vaddr AND 0xFFFF)"
    and "\<And>va. on_page va \<Longrightarrow> xl c va = NoPte"
  shows "(r = -1 \<longrightarrow> c' = c) \<and>
         (r \<noteq> -1 \<longrightarrow> r = 0 \<and>
            (\<forall>va. xl c' va =
                (if on_page va then Xlate (ppc_map (ucast (va AND NOT 0xFFF)) (paddr AND 0xDFFFFF000) (va
                    AND 0xFFF))
                 else xl c va)))"
  using assms(1)
proof (cases rule: map_page_cases)
  case (mapped t i)
  let ?m = "host_mem (vm_inst c)" and ?m' = "host_mem (vm_inst c')"
  have c': "sdr1_hptr c' = sdr1_hptr c" "sdr1 c' = sdr1 c" "sr c' = sr c"
    by (simp_all add: mapped(5) ppc_write_pte_def)
  have swc: "slot_word m c' h j k = slot_word m c h j k" for m h j k
    by (simp add: slot_word_def ppc_slot_def ppc_group_mask_def c')
  have frame: "pte_find m c' s v va = pte_find m c s v va" "va_vsid c' va = va_vsid c va"
    "pte_found m c' s va j = pte_found m c s va j" for m s v va j
    by (simp_all add: pte_find_def swc va_vsid_def pte_found_def c')
  have xl: "xl d va = (case pte_find (host_mem (vm_inst d)) c False (va_vsid c va) va of
        Some i \<Rightarrow> pte_found (host_mem (vm_inst d)) c False va i
      | None \<Rightarrow> (case pte_find (host_mem (vm_inst d)) c True (va_vsid c va) va of
                   Some i \<Rightarrow> pte_found (host_mem (vm_inst d)) c True va i | None \<Rightarrow> NoPte))" if "d = c \<or>
                       d = c'" for d va
    using that assms(5) mapped(3) pte_lookup [of c] pte_lookup [of c'] by (auto
        simp: assms(6) frame c' cong: option.case_cong)
  have page: "on_page va \<longleftrightarrow> va_vsid c va = vsid \<and> page_index va = page_index vaddr" for va
    by (simp add: assms(7) va_vsid_def page_index_def)
  note upd = pte_find_write [OF assms(2) mapped(2,4) refl, where lo = "ppc_pte_lo paddr wimg pp",
      folded mapped(5), OF refl]
  have "xl c' va = (if on_page va then Xlate (ppc_map (ucast (va AND NOT 0xFFF)) (paddr AND 0xDFFFFF000) (va
      AND 0xFFF))
                 else xl c va)" for va
  proof (cases "on_page va")
    case True
    then have p: "va_vsid c va = vsid" "page_index va = page_index vaddr" by (simp_all add: page)
    have none: "pte_find ?m c s vsid va = None" for s
      using assms(8) [OF True] xl [of c va] p(1) by (cases s) (auto simp: pte_found_def split: option.splits)
    have other: "pte_find ?m' c (\<not> t) vsid va = None"
      using upd(1) [OF assms(2), of va "\<not> t"] none [of "\<not> t"] by simp
    have new: "pte_find ?m' c t vsid va = Some i"
      using upd(3) [OF assms(2)] none [of t] unfolding same_page_hash [OF p(2)] by blast
    have "pte_found ?m' c t va i =
        Xlate (ppc_map (ucast (va AND NOT 0xFFF)) (paddr AND 0xDFFFFF000) (va AND 0xFFF))"
      using upd(4) [OF assms(2)] key_of_page(1) [OF p(2)] pte_lo_paddr [OF assms(3,4)]
          by (simp add: pte_found_def p(1))
    then show ?thesis using True new other xl [of c' va] by (cases t) (simp_all add: p(1))
  next
    case False
    then have ne: "va_vsid c va \<noteq> vsid \<or> page_index va \<noteq> page_index vaddr \<or> s \<noteq> t" for s by (auto simp: page)
    note w = upd(1,2) [OF va_vsid_bound ne]
    have "pte_found ?m' c s va j = pte_found ?m c s va j" if "pte_find ?m c s (va_vsid c va) va = Some j"
        for s j
      using w(2) [OF that] by (simp add: pte_found_def)
    with w(1) False show ?thesis by (simp add: xl split: option.split)
  qed
  with mapped(1) show ?thesis by auto
next
  case full
  then show ?thesis by simp
qed

section \<open>An empty page table\<close>

lemma slot_in_table:
  assumes "i < 8" "k \<le> 4"
  shows "ppc_slot c h i + k + 4 \<le> unat (push_bit 16 (1 + (sdr1 c AND 0x1FFF)) :: u32)"
proof -
  let ?s = "sdr1 c AND 0x1FFF"
  have "?s \<le> 0x1FFF" by (rule word_and_le1)
  then have s: "unat ?s \<le> 0x1FFF" by (simp add: word_le_nat_alt)
  have "ppc_group_mask c = 0x3FF + push_bit 10 ?s"
    unfolding ppc_group_mask_def by (rule disjunctive_add [symmetric]) (unfold bit_3FF bit_push_bit_iff, auto)
  then have "unat (ppc_group_mask c) = 0x3FF + 0x400 * unat ?s"
    using s by (simp add: push_bit_eq_mult unat_word_ariths)
  moreover have "unat (h AND ppc_group_mask c) \<le> unat (ppc_group_mask c)"
    by (simp only: word_le_nat_alt [symmetric] word_and_le1)
  moreover have "unat (push_bit 16 (1 + ?s) :: u32) = 0x10000 * (1 + unat ?s)"
    using s by (simp add: push_bit_eq_mult unat_word_ariths)
  ultimately show ?thesis using assms by (simp add: ppc_slot_def)
qed

lemma of_nat_less_ucast:
  assumes "n < unat (w :: u32)" shows "(of_nat n :: u64) < ucast w"
proof -
  have "unat w < 2 ^ LENGTH(32)" by (rule unsigned_less)
  then have "unat (of_nat n :: u64) = n" "unat (ucast w :: u64) = unat w"
    using assms by (simp_all add: unat_of_nat take_bit_nat_eq_self unsigned_ucast_eq)
  then show ?thesis using assms by (simp add: word_less_nat_alt)
qed

lemma slot_word_cleared:
  assumes "i < 8" "k \<le> 4"
  shows "slot_word (host_clear (sdr1_hptr c) (push_bit 16 (1 + (sdr1 c AND 0x1FFF))) m) c h i k = 0"
proof -
  let ?sz = "push_bit 16 (1 + (sdr1 c AND 0x1FFF)) :: u32"
  have "host_clear (sdr1_hptr c) ?sz m (sdr1_hptr c + of_nat (ppc_slot c h i + k) + of_nat j) = 0"
      if "j < 4" for j
  proof -
    have b: "ppc_slot c h i + k + j < unat ?sz" using slot_in_table [OF assms, of c h] that by simp
    have "(of_nat (ppc_slot c h i + k + j) :: u64) < ucast ?sz"
      using b of_nat_less_ucast [of "ppc_slot c h i + k + j" ?sz] by blast
    then show ?thesis by (simp add: host_clear_def add.assoc)
  qed
  from this [of 0] this [of 1] this [of 2] this [of 3]
  show ?thesis by (simp add: slot_word_def ppc_pte_word_def host_read32_def m_ntoh32_def)
qed

text \<open>Initialising the page table leaves it without a translation for any address.\<close>

lemma init_page_table_empty:
  assumes "sdr1_hptr c \<noteq> 0" "ppc32_init_page_table c = (r, c')"
  shows "r = 0 \<and> (\<forall>va. ppc32_pte_lookup (host_mem (vm_inst c')) va c' = NoPte)"
proof -
  let ?m = "host_clear (sdr1_hptr c) (push_bit 16 (1 + (sdr1 c AND 0x1FFF))) (host_mem (vm_inst c))"
  have c': "r = 0" "c' = update_vm (host_mem_update (\<lambda>_. ?m)) c"
    using assms by (auto simp: ppc32_init_page_table_def Let_def)
  have swc: "slot_word m c' h i k = slot_word m c h i k" for m h i k
    by (simp add: c'(2) slot_word_def ppc_slot_def ppc_group_mask_def)
  have none: "pte_find (host_mem (vm_inst c')) c' s (va_vsid c' va) va = None" for s va
  proof -
    have "ppc_pte_hi v (pte_side s) va \<noteq> 0" for v
    proof
      assume "ppc_pte_hi v (pte_side s) va = 0"
      then have "\<not> bit (ppc_pte_hi v (pte_side s) va) 31" by simp
      then show False unfolding ppc_pte_hi_def bit_or_iff word_flag_bits by simp
    qed
    then show ?thesis unfolding pte_find_def find_None_iff using slot_word_cleared [of _ 0 c]
        by (simp add: swc) (simp add: c'(2))
  qed
  have "ppc32_pte_lookup (host_mem (vm_inst c')) va c' = NoPte" for va
  proof (cases "sdr1 c' = 0")
    case False
    then show ?thesis using pte_lookup [OF False, of "host_mem (vm_inst c')" va] assms(1) none
        by (simp add: c'(2))
  qed (simp add: ppc32_pte_lookup_def)
  then show ?thesis using c'(1) by simp
qed

section \<open>A concrete table\<close>

text \<open>The page at 0x2000 of a segment with VSID 5, mapped in a table that has just been initialised.\<close>

lemma map_page_total: "sdr1_hptr c \<noteq> 0 \<Longrightarrow> \<exists>r d. ppc32_map_page vsid va pa wimg pp c = Ok r d"
  by (auto simp: ppc32_map_page_def Let_def split: option.split)

definition ppc_paged :: "unit ppc_vm" where
  "ppc_paged = snd (ppc32_init_page_table (ppc_example\<lparr>sdr1 := 0x10000, sdr1_hptr := 0x800000, sr := (\<lambda>_. 5)\<rparr>))"

theorem ppc_map_page_refines_map_witness:
  "\<exists>d. ppc32_map_page 5 0x2000 0x123000 2 2 ppc_paged = Ok 0 d \<and>
       ppc32_pte_lookup (host_mem (vm_inst d)) 0x2ABC d = Xlate (ppc_map 0x2000 0x123000 0xABC)"
proof -
  let ?c0 = "ppc_example\<lparr>sdr1 := 0x10000, sdr1_hptr := 0x800000, sr := (\<lambda>_. 5)\<rparr>"
  have p: "ppc_paged = update_vm (host_mem_update (\<lambda>_. host_clear (sdr1_hptr ?c0) (push_bit 16 (1 + (sdr1
      ?c0 AND 0x1FFF)))
      (host_mem (vm_inst ?c0)))) ?c0"
    by (simp add: ppc_paged_def ppc32_init_page_table_def Let_def)
  have f: "sdr1 ppc_paged \<noteq> 0" "sdr1_hptr ppc_paged \<noteq> 0" "sr ppc_paged = (\<lambda>_. 5)" unfolding p by simp_all
  have none: "ppc32_pte_lookup (host_mem (vm_inst ppc_paged)) va ppc_paged = NoPte" for va
    using init_page_table_empty [of ?c0] by (simp add: ppc_paged_def) (metis prod.collapse)
  obtain r d where m: "ppc32_map_page 5 0x2000 0x123000 2 2 ppc_paged = Ok r d"
      using map_page_total [OF f(2)] by blast
  have r: "r \<noteq> -1"
  proof
    assume "r = -1"
    with m have "\<not> ppc_pte_free (slot_word (host_mem (vm_inst ppc_paged)) ppc_paged (pte_hash False 5
        0x2000) 0 0)"
      by (cases rule: map_page_cases) auto
    moreover have "slot_word (host_mem (vm_inst ppc_paged)) ppc_paged h 0 0 = 0" for h
      using slot_word_cleared [of 0 0 ?c0 "host_mem (vm_inst ?c0)" h] unfolding p
      by (simp add: slot_word_def ppc_slot_def ppc_group_mask_def)
    ultimately show False by (simp add: ppc_pte_free_def)
  qed
  from ppc_map_page_refines_map [OF m _ _ _ f(1) refl refl none] r
  have "r = 0" "ppc32_pte_lookup (host_mem (vm_inst d)) 0x2ABC d = Xlate (ppc_map 0x2000 0x123000 0xABC)"
    by (simp_all add: f(3))
  with m show ?thesis by blast
qed

end
