(* ===== verification/Ppc32Mmu.thy ===== *)
theory Ppc32Mmu
  imports Ppc32PageTable
begin

text \<open>
  The memory system of the PowerPC (\<open>stable/ppc32_mem.c\<close>) as the interpreter sees it: the two MTS caches
  are transparent while they are coherent (the interface \<open>translation_cache\<close> on their hash, tag and
  entries), what makes them coherent, the data storage exception, and the multiple-word
  transfers \<open>stmw\<close> and \<open>lmw\<close>.
\<close>

section \<open>The MTS caches\<close>

text \<open>The entry an address must have: the translation recomputed from the MSR, the BAT registers, the page
  table in guest memory and the device list, for host memory; devices are not cached.\<close>

definition ppc_entry :: "nat \<Rightarrow> 'd ppc_vm \<Rightarrow> u32 \<Rightarrow> mts_entry option" where
  "ppc_entry cid c va =
     (case ppc32_xlate (host_mem (vm_inst c)) va cid c of
        Xlate m \<Rightarrow>
          (case dev_lookup (map_paddr m + ucast (map_offset m)) (map_cached m) (vm_inst c) of
             None \<Rightarrow> None
           | Some p \<Rightarrow>
               (let dev = vdevs (vm_inst c) p in
                if host_addr dev = 0 \<or> dev_flags dev AND VDEVICE_FLAG_NO_MTS_MMAP \<noteq> 0 then None
                else Some \<lparr>gvpa = low32 (map_vaddr m), gppa = low32 (map_paddr m),
                           hpa = host_addr dev + (map_paddr m - phys_addr dev), mts_flags = 0\<rparr>))
      | _ \<Rightarrow> None)"

text \<open>The lookup of a device uses the full physical address, so a page must not be shared by devices.\<close>

definition whole_pages :: "'d vm_instance \<Rightarrow> bool" where
  "whole_pages vm \<longleftrightarrow>
     (\<forall>p\<in>set (dev_list vm). dev_flags (vdevs vm p) AND VDEVICE_FLAG_SPARSE = 0 \<and>
        (\<forall>a k. a AND 0xFFF = 0 \<longrightarrow> k < 0x1000 \<longrightarrow> dev_accepts (a + k) False (vdevs vm p) = dev_accepts a False
            (vdevs vm p)))"

definition ppc_page :: "u32 \<Rightarrow> u64" where
  "ppc_page va = ucast (va AND PPC32_MIN_PAGE_MASK)"

definition ppc_coherent :: "nat \<Rightarrow> 'd ppc_vm \<Rightarrow> bool" where
  "ppc_coherent cid c \<longleftrightarrow>
     cache_coherent mts32_hash ppc_page gvpa (\<lambda>_. whole_pages (vm_inst c)) (ppc_entry cid c) (mts_cache c cid)"

subsection \<open>Addresses of one page\<close>

lemma ppc_page_bit: "bit (ppc_page va) n \<longleftrightarrow> 12 \<le> n \<and> n < 32 \<and> bit va n"
  unfolding ppc_page_def bit_unsigned_iff bit_and_iff bit_FFFFF000 by auto

lemma ppc_page_same:
  assumes "ppc_page a = ppc_page b"
  shows "12 \<le> n \<Longrightarrow> bit a n = bit b n"
  using ppc_page_bit [of a n] ppc_page_bit [of b n] assms bit_imp_le_length [of a n] bit_imp_le_length [of b
      n] by auto

lemma ppc_page_drop:
  assumes "ppc_page a = ppc_page b" "12 \<le> k" shows "drop_bit k a = drop_bit k b"
  by (rule bit_word_eqI) (use ppc_page_same [OF assms(1)] assms(2) in \<open>simp add: bit_drop_bit_eq\<close>)

lemma ppc_page_masks:
  assumes "ppc_page a = ppc_page b"
  shows "a AND 0xFFFFF000 = b AND 0xFFFFF000" "a AND ppc_bat_mask u = b AND ppc_bat_mask u"
proof -
  show "a AND 0xFFFFF000 = b AND 0xFFFFF000"
    by (rule bit_word_eqI) (unfold bit_and_iff bit_FFFFF000, use ppc_page_same [OF assms] in auto)
  show "a AND ppc_bat_mask u = b AND ppc_bat_mask u"
    by (rule bit_word_eqI) (unfold bit_and_iff ppc_bat_mask_def bit_push_bit_iff,
        use ppc_page_same [OF assms] in auto)
qed

definition map_page :: "ppc_xlate \<Rightarrow> ppc_xlate" where
  "map_page x = (case x of Xlate m \<Rightarrow> Xlate (m\<lparr>map_offset := 0\<rparr>) | _ \<Rightarrow> x)"

lemma not_fff: "NOT 0xFFF = (0xFFFFF000 :: u32)" by simp

lemma ppc_xlate_page:
  assumes "ppc_page a = ppc_page b"
  shows "map_page (ppc32_xlate m a cid c) = map_page (ppc32_xlate m b cid c)"
proof -
  note d = ppc_page_drop [OF assms] and masks = ppc_page_masks [OF assms]
  have h: "ppc_pt_hash v a = ppc_pt_hash v b" "ppc_api a = ppc_api b" for v
    by (simp_all add: ppc_pt_hash_def ppc_api_def d)
  have "map_page (ppc32_pte_lookup m a c) = map_page (ppc32_pte_lookup m b c)"
    unfolding ppc32_pte_lookup_def Let_def h d [of 28, simplified] not_fff masks
    by (simp add: map_page_def ppc_map_def split: option.split)
  moreover have "rel_option (\<lambda>m n. m\<lparr>map_offset := 0\<rparr> = n\<lparr>map_offset := 0\<rparr>)
      (ppc32_bat_lookup a cid c) (ppc32_bat_lookup b cid c)"
    unfolding ppc32_bat_lookup_def ppc_bat_matches_def Let_def masks
    by (simp add: ppc_map_def split: option.split)
  moreover have "(ppc_real_map a)\<lparr>map_offset := 0\<rparr> = (ppc_real_map b)\<lparr>map_offset := 0\<rparr>"
    by (simp add: ppc_real_map_def ppc_map_def masks)
  ultimately show ?thesis
    by (auto simp: ppc32_xlate_def map_page_def split: option.split)
qed

text \<open>What every translation looks like.\<close>

lemma pte_paddr_low: "take_bit 12 (ppc_pte_paddr w) = 0"
proof (rule bit_word_eqI)
  fix n
  show "bit (take_bit 12 (ppc_pte_paddr w)) n = bit (0 :: u64) n"
    unfolding ppc_pte_paddr_def Let_def bit_take_bit_iff bit_or_iff bit_and_iff bit_push_bit_iff
        bit_unsigned_iff
      bit_FFFFF000 by auto
qed

lemma page_low: "take_bit 12 (ppc_page va) = 0"
  by (rule bit_word_eqI) (unfold bit_take_bit_iff ppc_page_bit, auto)

lemma bat_low: "take_bit 12 (ucast (u AND 0xFFFE0000 :: u32) :: u64) = 0"
proof -
  have e: "(0xFFFE0000 :: u32) = push_bit 17 (mask 15)" by (simp add: mask_eq_exp_minus_1)
  show ?thesis by (rule bit_word_eqI) (unfold e bit_take_bit_iff bit_unsigned_iff bit_and_iff
      bit_push_bit_iff, auto)
qed

lemma take_bit_12_sum:
  assumes "take_bit 12 a = 0" "take_bit 12 b = 0" "take_bit 12 d = (0 :: u64)"
  shows "take_bit 12 (a + (b - d)) = 0"
proof -
  have m: "x = drop_bit 12 x * 0x1000" if "take_bit 12 x = 0" for x :: u64
    using bits_ident [of 12 x] that by (simp add: push_bit_eq_mult)
  have "a + (b - d) = push_bit 12 (drop_bit 12 a + (drop_bit 12 b - drop_bit 12 d))"
    using m [OF assms(1)] m [OF assms(2)] m [OF assms(3)] by (simp add: push_bit_eq_mult algebra_simps)
  then show ?thesis by (simp add: take_bit_push_bit)
qed

lemma xlate_shape:
  assumes "ppc32_xlate m va cid c = Xlate x"
  shows "map_vaddr x = ppc_page va" "map_offset x = va AND 0xFFF" "\<not> map_cached x" "take_bit 12 (map_paddr
      x) = 0"
proof -
  have sum: "take_bit 12 (ucast (u AND 0xFFFE0000 :: u32) + (ppc_page va - ucast (v AND 0xFFFE0000 :: u32)))
      = 0" for u v
    by (intro take_bit_12_sum bat_low page_low)
  have "(- 4096 :: u32) = 0xFFFFF000" by simp
  then have neg: "v AND - 4096 = (v AND 0xFFFFF000 :: u32)" for v by (simp only:)
  have "map_vaddr x = ppc_page va \<and> map_offset x = va AND 0xFFF \<and> \<not> map_cached x \<and>
      take_bit 12 (map_paddr x) = 0"
    using assms sum pte_paddr_low page_low [of va] neg
    by (auto simp: ppc32_xlate_def ppc_real_map_def ppc_map_def ppc32_bat_lookup_def Let_def
        ppc32_pte_lookup_def
        ppc_page_def split: if_splits option.splits)
  then show "map_vaddr x = ppc_page va" "map_offset x = va AND 0xFFF" "\<not> map_cached x" "take_bit 12
      (map_paddr x) = 0"
    by simp_all
qed

lemma whole_pages_lookup:
  assumes "whole_pages vm" "take_bit 12 a = 0"
  shows "dev_lookup (a + ucast (va AND 0xFFF :: u32)) False vm = dev_lookup a False vm"
proof -
  have "(ucast (va AND 0xFFF) :: u64) = ucast va AND 0xFFF" by (simp add: unsigned_and_eq)
  also have "\<dots> \<le> 0xFFF" by (rule word_and_le1)
  finally have "(ucast (va AND 0xFFF) :: u64) < 0x1000" by (rule le_less_trans) simp
  moreover have "a AND 0xFFF = 0" using assms(2) by (simp add: take_bit_eq_mask mask_eq_exp_minus_1)
  ultimately show ?thesis
    using assms(1) unfolding dev_lookup_def whole_pages_def by (intro find_cong) auto
qed

text \<open>The interface \<open>translation_cache\<close> on each of the two caches.\<close>

lemma ppc_entry_page:
  assumes "whole_pages (vm_inst c)" "ppc_page a = ppc_page b"
  shows "ppc_entry cid c a = ppc_entry cid c b"
proof -
  let ?x = "\<lambda>v. ppc32_xlate (host_mem (vm_inst c)) v cid c"
  have *: "ppc_entry cid c v =
      (case map_page (?x v) of
         Xlate m \<Rightarrow> (case dev_lookup (map_paddr m) False (vm_inst c) of
             None \<Rightarrow> None
           | Some p \<Rightarrow>
               (let dev = vdevs (vm_inst c) p in
                if host_addr dev = 0 \<or> dev_flags dev AND VDEVICE_FLAG_NO_MTS_MMAP \<noteq> 0 then None
                else Some \<lparr>gvpa = low32 (map_vaddr m), gppa = low32 (map_paddr m),
                           hpa = host_addr dev + (map_paddr m - phys_addr dev), mts_flags = 0\<rparr>))
       | _ \<Rightarrow> None)" for v
  proof (cases "?x v")
    case (Xlate m)
    note shape = xlate_shape [OF Xlate]
    show ?thesis using Xlate whole_pages_lookup [OF assms(1) shape(4), of v] shape(2,3)
      by (simp add: ppc_entry_def map_page_def Let_def split: option.split)
  qed (simp_all add: ppc_entry_def map_page_def)
  show ?thesis unfolding * ppc_xlate_page [OF assms(2)] ..
qed

lemma low32_page: "low32 (ppc_page va) = ppc_page va"
  unfolding low32_def by (rule bit_word_eqI) (auto simp: bit_unsigned_iff ppc_page_bit)

lemma ppc_entry_gvpa: "ppc_entry cid c va = Some e \<Longrightarrow> gvpa e = ppc_page va"
  using xlate_shape(1) [of "host_mem (vm_inst c)" va cid c]
  by (auto simp: ppc_entry_def Let_def low32_page split: ppc_xlate.splits option.splits if_splits)

interpretation ppc_mts: translation_cache mts32_hash ppc_page gvpa "\<lambda>_. whole_pages (vm_inst c)" "ppc_entry
    cid c" for cid c
proof
  fix a b
  assume w: "whole_pages (vm_inst c)" and p: "ppc_page a = ppc_page b"
  have "mts32_hash a = mts32_hash b" by (simp add: mts32_hash_def ppc_page_drop [OF p])
  then show "mts32_hash a = mts32_hash b \<and> ppc_entry cid c a = ppc_entry cid c b"
    using ppc_entry_page [OF w p] by blast
qed (rule ppc_entry_gvpa)

subsection \<open>Transparency\<close>

lemma ppc_entry_cong:
  assumes "vm_inst d = vm_inst c" "msr d = msr c" "bat d = bat c" "sdr1 d = sdr1 c" "sdr1_hptr d = sdr1_hptr
      c" "sr d = sr c"
  shows "ppc_entry cid d = ppc_entry cid c"
proof -
  have "ppc32_xlate m va cid d = ppc32_xlate m va cid c" for m va
    unfolding ppc32_xlate_def ppc_real_mode_def ppc32_bat_lookup_def ppc_bat_pr_def ppc32_pte_lookup_def
      ppc_pteg_def Let_def assms ..
  then show ?thesis by (intro ext) (simp only: ppc_entry_def assms)
qed

lemma slow_lookup_host:
  assumes "ppc_entry cid c va = Some e" "whole_pages (vm_inst c)" "\<not> slow_lookup_405 c"
  shows "ppc_mts_slow_lookup env va cid op n ty data c = Ok (Some e, data) (set_mts cid (mts32_hash va) e c)"
proof -
  obtain m p where x: "ppc32_xlate (host_mem (vm_inst c)) va cid c = Xlate m"
    and p: "dev_lookup (map_paddr m + ucast (map_offset m)) (map_cached m) (vm_inst c) = Some p"
    and d: "host_addr (vdevs (vm_inst c) p) \<noteq> 0" "dev_flags (vdevs (vm_inst c) p) AND 1 = 0"
    and e: "e = \<lparr>gvpa = low32 (map_vaddr m), gppa = low32 (map_paddr m),
              hpa = host_addr (vdevs (vm_inst c) p) + (map_paddr m - phys_addr (vdevs (vm_inst c) p)),
                  mts_flags = 0\<rparr>"
    using assms(1) by (auto simp: ppc_entry_def Let_def split: ppc_xlate.splits option.splits if_splits)
  have "p \<in> set (dev_list (vm_inst c))" using p by (auto simp: dev_lookup_def find_Some_iff)
  then have "dev_flags (vdevs (vm_inst c) p) AND 0x10 = 0" using assms(2) by (simp add: whole_pages_def)
  then show ?thesis using x p d assms(3)
    by (simp add: ppc_mts_slow_lookup_def ppc32_slow_lookup_def ppc_use_xlate_def ppc32_mem_map_def e Let_def)
qed

lemma ppc_coherent_set_mts:
  assumes "ppc_coherent cid c" "ppc_coherent other c" "whole_pages (vm_inst c)" "ppc_entry cid c va = Some e"
  shows "ppc_coherent other (set_mts cid (mts32_hash va) e c)"
proof -
  let ?d = "set_mts cid (mts32_hash va) e c"
  have same: "vm_inst ?d = vm_inst c" "ppc_entry other ?d = ppc_entry other c"
    by (simp add: set_mts_def) (rule ppc_entry_cong; simp add: set_mts_def)
  have "cache_coherent mts32_hash ppc_page gvpa (\<lambda>_. whole_pages (vm_inst c)) (ppc_entry other c) (mts_cache
      ?d other)"
  proof (cases "other = cid")
    case True
    then show ?thesis
      using ppc_mts.fill_coherent [OF assms(1) [unfolded ppc_coherent_def] assms(3,4)]
          by (simp add: set_mts_def)
  next
    case False
    then show ?thesis using assms(2) by (simp add: ppc_coherent_def set_mts_def)
  qed
  then show ?thesis by (simp only: ppc_coherent_def same)
qed

text \<open>C2: the two MTS caches of the PowerPC are transparent. While they are coherent, an access to an address
  that translates to host memory (by the MSR, the BAT registers or the page table, as they are now)
  gives its host address, hit or miss; it changes nothing but its cache, and both caches stay
  coherent. An address without such a translation never hits. This is for the processors other than the
  PowerPC 405, with devices that do not share a page.\<close>

theorem ppc_mts_cache_transparent:
  assumes "ppc_coherent 0 c" "ppc_coherent 1 c" "whole_pages (vm_inst c)" "\<not> slow_lookup_405 c" "cid < 2"
  shows "(\<forall>e. ppc_entry cid c va = Some e \<longrightarrow>
            (\<exists>cache. ppc32_mem_access env va cid op n ty data c =
                       Ok (hpa e + ucast (va AND 0xFFF), data) (c\<lparr>mts_cache := cache\<rparr>) \<and>
                     ppc_coherent 0 (c\<lparr>mts_cache := cache\<rparr>) \<and> ppc_coherent 1 (c\<lparr>mts_cache := cache\<rparr>))) \<and>
         (ppc_entry cid c va = None \<longrightarrow> ucast (va AND 0xFFFFF000) \<noteq> gvpa (mts_cache c cid (mts32_hash va)))"
proof (intro conjI allI impI)
  have coh: "ppc_coherent cid c" using assms(1,2,5) by (auto simp: less_2_cases_iff)
  note coh' = this [unfolded ppc_coherent_def]
  show "ucast (va AND 0xFFFFF000) \<noteq> gvpa (mts_cache c cid (mts32_hash va))" if "ppc_entry cid c va = None"
    using ppc_mts.no_entry_misses [OF coh' assms(3) that] unfolding ppc_page_def by metis
  fix e assume e: "ppc_entry cid c va = Some e"
  have fl: "mts_flags e = 0"
    using e by (auto simp: ppc_entry_def Let_def split: ppc_xlate.splits option.splits if_splits)
  show "\<exists>cache. ppc32_mem_access env va cid op n ty data c =
                       Ok (hpa e + ucast (va AND 0xFFF), data) (c\<lparr>mts_cache := cache\<rparr>) \<and>
                     ppc_coherent 0 (c\<lparr>mts_cache := cache\<rparr>) \<and> ppc_coherent 1 (c\<lparr>mts_cache := cache\<rparr>)"
  proof (cases "gvpa (mts_cache c cid (mts32_hash va)) = ppc_page va")
    case True
    with ppc_mts.hit_correct [OF coh' assms(3)] e have "mts_cache c cid (mts32_hash va) = e" by simp
    then have "ppc32_mem_access env va cid op n ty data c = Ok (hpa e + ucast (va AND 0xFFF), data) c"
      using True fl by (simp add: ppc32_mem_access_def Let_def ppc_page_def)
    moreover have "c\<lparr>mts_cache := mts_cache c\<rparr> = c" by simp
    ultimately show ?thesis using assms(1,2) by metis
  next
    case False
    then have "ppc32_mem_access env va cid op n ty data c =
        Ok (hpa e + ucast (va AND 0xFFF), data) (set_mts cid (mts32_hash va) e c)"
      using slow_lookup_host [OF e assms(3,4)] fl by (auto simp: ppc32_mem_access_def Let_def ppc_page_def)
    then show ?thesis
      using ppc_coherent_set_mts [OF coh _ assms(3) e] assms(1,2) unfolding set_mts_def by blast
  qed
qed

subsection \<open>What makes the caches coherent\<close>

lemma flushed_ppc_coherent:
  assumes "cid < 2" "mts_cache c cid = (\<lambda>_. mts32_empty_entry)"
  shows "ppc_coherent cid c"
proof -
  have b: "bit (0xFFFFFFFF :: u64) 0" by simp
  have "ppc_page a \<noteq> gvpa mts32_empty_entry" for a
    using ppc_page_bit [of a 0] b by (auto simp: mts32_empty_entry_def)
  then show ?thesis
    unfolding ppc_coherent_def assms(2) by (intro ppc_mts.flush_coherent)
qed

lemma invalidate_coherent:
  "ppc_coherent 0 (ppc32_mem_invalidate_cache c)" "ppc_coherent 1 (ppc32_mem_invalidate_cache c)"
  by (rule flushed_ppc_coherent; simp add: ppc32_mem_invalidate_cache_def)+

text \<open>C31: both caches are coherent, whatever they held, after a reset, a change of the PVR, the rebuild that
  follows a change of the device list, \<open>tlbia\<close>, \<open>tlbie\<close>, a write of a segment register, of a BAT
  register or of SDR1.\<close>

theorem ppc_flush_makes_coherent:
  assumes "both = (\<lambda>d. ppc_coherent 0 d \<and> ppc_coherent 1 d)" and "ok = (\<lambda>out. \<exists>d. out = Ok False d \<and> both d)"
  shows "both (ppc32_reset c) \<and> both (ppc32_set_pvr v c) \<and> both (ppc32_mem_rebuild_mts c) \<and>
         ok (ppc32_exec_TLBIA env insn c) \<and> ok (ppc32_exec_TLBIE env insn c) \<and> ok (ppc32_exec_MTSR env insn c) \<and>
         (ppc32_get_bat_spr_ptr spr \<noteq> None \<longrightarrow> both (ppc32_set_bat_spr spr v c)) \<and>
         (bits insn 16 20 = 25 \<and> bits insn 11 15 = 0 \<longrightarrow> ok (ppc32_exec_MTSPR env insn c))"
proof -
  have reset: "both (ppc32_mem_restart d)" for d
    unfolding assms(1) by (intro conjI flushed_ppc_coherent)
      (simp_all add: ppc32_mem_restart_def ppc32_mem_invalidate_cache_def Let_def)
  have flush: "both (ppc32_mem_invalidate_cache d)" for d
    unfolding assms(1) using invalidate_coherent by blast
  show ?thesis
    using reset flush
    by (auto simp: assms(2) ppc32_reset_def ppc32_set_pvr_def ppc32_mem_rebuild_mts_def ppc32_exec_TLBIA_def
        ppc32_exec_TLBIE_def ppc32_exec_MTSR_def ppc32_set_bat_spr_def ppc32_exec_MTSPR_def
            ppc_write_spr_def Let_def)
qed

text \<open>A change of the MSR is not among them: \<open>mtmsr\<close> keeps both caches, so turning the translation of data
  off or on leaves entries of the other mode behind.\<close>

lemma mtmsr_keeps_caches:
  "\<exists>d. ppc32_exec_MTMSR env insn c = Ok False d \<and> mts_cache d = mts_cache c \<and> msr d = gpr c (fld insn 21 25)"
  by (simp add: ppc32_exec_MTMSR_def Let_def)

section \<open>Data storage exceptions\<close>

definition dsi_taken :: "u32 \<Rightarrow> u32 \<Rightarrow> 'd ppc_vm \<Rightarrow> (unit, 'd ppc_vm) outcome \<Rightarrow> bool" where
  "dsi_taken va cause c out \<longleftrightarrow>
     (\<exists>d. out = LongJmp d \<and> dar d = va \<and> dsisr d = cause \<and> srr0 d = ia c \<and>
          ia d = (if bit (msr c) 6 then 0xFFF00300 else 0x300) \<and>
          gpr d = gpr c \<and> vm_inst d = vm_inst c \<and> mts_cache d = mts_cache c)"

lemma dsi_special:
  assumes "op \<noteq> PPC_MEMOP_LOOKUP"
  shows "\<exists>d. ppc32_access_special env va PPC32_MTS_DCACHE MTS_ACC_T op ty n data c = LongJmp d \<and> dar d = va \<and>
          dsisr d = (if ty = MTS_WRITE then 0x42000000 else 0x40000000) \<and> srr0 d = ia c \<and>
          ia d = (if bit (msr c) 6 then 0xFFF00300 else 0x300) \<and>
          gpr d = gpr c \<and> vm_inst d = vm_inst c \<and> mts_cache d = mts_cache c"
proof -
  have "bit (m AND NOT 0x0006ef32 :: u32) 6 = bit m 6" for m by (simp add: bit_and_iff bit_not_iff)
  then have m: "bit (m AND - 454451 :: u32) 6 = bit m 6" for m by simp
  show ?thesis
    using assms by (auto simp: ppc32_access_special_def ppc32_trigger_exception_def Let_def m)
qed


section \<open>Multiple-word transfers\<close>

text \<open>A data access to \<open>va\<close> hits a writable entry, and \<open>ppc_host\<close> is its host address.\<close>

definition ppc_hit :: "'d ppc_vm \<Rightarrow> u32 \<Rightarrow> bool" where
  "ppc_hit c va \<longleftrightarrow>
     gvpa (mts_cache c 1 (mts32_hash va)) = ppc_page va \<and>
     mts_flags (mts_cache c 1 (mts32_hash va)) AND MTS_FLAG_COW = 0"

definition ppc_host :: "'d ppc_vm \<Rightarrow> u32 \<Rightarrow> u64" where
  "ppc_host c va = hpa (mts_cache c 1 (mts32_hash va)) + ucast (va AND 0xFFF)"

lemma access_hit:
  "ppc_hit c va \<Longrightarrow> ppc32_mem_access env va 1 op n ty data c = Ok (ppc_host c va, data) c"
  by (simp add: ppc_hit_def ppc_host_def ppc32_mem_access_def ppc_page_def Let_def)

lemma stw_hit:
  "ppc_hit c va \<Longrightarrow> ppc_host c va \<noteq> 0 \<Longrightarrow>
   ppc32_stw env va r c = Ok () (update_vm (host_mem_update (host_write32 (ppc_host c va) (ucast (gpr c
       r)))) c)"
  using access_hit [of c va env] by (simp add: ppc32_stw_def ppc_write_def)

lemma lwz_hit:
  "ppc_hit c va \<Longrightarrow> ppc_host c va \<noteq> 0 \<Longrightarrow>
   ppc32_lwz env va r c = Ok () (set_gpr r (ucast (host_read32 (host_mem (vm_inst c)) (ppc_host c va))) c)"
  using access_hit [of c va env] by (simp add: ppc32_lwz_def ppc_read_def)

lemma hit_frame [simp]:
  "ppc_hit (update_vm f c) = ppc_hit c" "ppc_host (update_vm f c) = ppc_host c"
  "ppc_hit (set_gpr r v c) = ppc_hit c" "ppc_host (set_gpr r v c) = ppc_host c"
  by (simp_all add: ppc_hit_def ppc_host_def fun_eq_iff)

lemma page_step:
  assumes "unat (va AND 0xFFF) + k < 4096"
  shows "ppc_page (va + of_nat k) = ppc_page va" "(va + of_nat k) AND 0xFFF = (va AND 0xFFF) + of_nat k"
proof -
  have m: "unat (x AND 0xFFF) = unat x mod 4096" for x :: u32
  proof -
    have "x AND 0xFFF = take_bit 12 x" by (simp add: take_bit_eq_mask mask_eq_exp_minus_1)
    then show ?thesis by (simp add: unsigned_take_bit_eq) (simp add: take_bit_eq_mod)
  qed
  define d where "d = unat va div 4096"
  define o' where "o' = unat va mod 4096"
  have va: "unat va = d * 4096 + o'" and o': "o' + k < 4096" using assms by (simp_all add: d_def o'_def m)
  have "unat va < 2 ^ LENGTH(32)" by (rule unsigned_less)
  then have "unat va < 1048576 * 4096" by simp
  then have "d < 1048576" unfolding d_def by (rule less_mult_imp_div_less)
  then have b: "unat va + k < 2 ^ 32" using va o' by simp
  have dm: "(unat va + k) mod 4096 = o' + k" "(unat va + k) div 4096 = d"
    using o' by (simp_all add: va add.assoc)
  have kk: "unat (of_nat k :: u32) = k" using assms by (simp add: unat_of_nat take_bit_nat_eq_self)
  have sum: "unat (va + of_nat k) = unat va + k" using b by (simp add: unat_word_ariths kk)
  have "unat ((va AND 0xFFF) + of_nat k) = o' + k"
    using o' by (simp add: unat_word_ariths kk m o'_def)
  then show "(va + of_nat k) AND 0xFFF = (va AND 0xFFF) + of_nat k"
    by (simp add: word_unat_eq_iff m sum dm)
  have "drop_bit 12 (va + of_nat k) = drop_bit 12 va"
    by (simp add: word_unat_eq_iff unat_drop_bit_eq) (simp add: drop_bit_eq_div sum dm d_def)
  then have bit: "bit (va + of_nat k) (12 + n) = bit va (12 + n)" for n
    by (metis bit_drop_bit_eq comp_apply)
  show "ppc_page (va + of_nat k) = ppc_page va"
  proof (rule bit_word_eqI)
    fix n
    show "bit (ppc_page (va + of_nat k)) n = bit (ppc_page va) n"
      using bit [of "n - 12"] unfolding ppc_page_bit by (cases "12 \<le> n") auto
  qed
qed

lemma hit_step:
  assumes "ppc_hit c va" "unat (va AND 0xFFF) + k < 4096"
  shows "ppc_hit c (va + of_nat k)" "ppc_host c (va + of_nat k) = ppc_host c va + of_nat k"
proof -
  note step = page_step [OF assms(2)]
  have h: "mts32_hash (va + of_nat k) = mts32_hash va" by (simp add: mts32_hash_def ppc_page_drop [OF step(1)])
  then show "ppc_hit c (va + of_nat k)" using assms(1) by (simp only: ppc_hit_def step)
  have "(ucast ((va AND 0xFFF) + of_nat k) :: u64) = ucast (va AND 0xFFF) + of_nat k"
  proof -
    have k: "unat (of_nat k :: u32) = k" "unat (of_nat k :: u64) = k"
      using assms(2) by (simp_all add: unat_of_nat take_bit_nat_eq_self)
    show ?thesis using assms(2) by (simp add: word_unat_eq_iff unat_word_ariths k unsigned_ucast_eq
        take_bit_nat_eq_self)
  qed
  then show "ppc_host c (va + of_nat k) = ppc_host c va + of_nat k"
    by (simp only: ppc_host_def h step(2) add.assoc)
qed

text \<open>The words that \<open>stmw\<close> leaves in memory, and the registers \<open>lmw\<close> reads from them.\<close>

definition host_word :: "'d ppc_vm \<Rightarrow> u64 \<Rightarrow> nat \<Rightarrow> u32" where
  "host_word c h j = ucast (host_read32 (host_mem (vm_inst c)) (h + of_nat (4 * j)))"

definition mem_only :: "'d ppc_vm \<Rightarrow> 'd ppc_vm \<Rightarrow> bool" where
  "mem_only c d \<longleftrightarrow> (\<exists>m. d = update_vm (host_mem_update m) c)"

definition words_at :: "'d ppc_vm \<Rightarrow> u32 \<Rightarrow> u64 \<Rightarrow> nat \<Rightarrow> nat \<Rightarrow> bool" where
  "words_at c va h k n \<longleftrightarrow>
     k + n < 1024 \<and> (\<forall>j<n. ppc_hit c (va + of_nat (4 * j)) \<and>
         ppc_host c (va + of_nat (4 * j)) = h + of_nat (4 * (k + j)) \<and>
             h + of_nat (4 * (k + j)) \<noteq> 0)"

lemma words_at_Suc:
  assumes "words_at c va h k (Suc n)"
  shows "ppc_hit c va" "ppc_host c va = h + of_nat (4 * k)" "ppc_host c va \<noteq> 0" "words_at c (va + 4) h (Suc
      k) n"
proof -
  have a: "k + Suc n < 1024"
    "\<And>j. j < Suc n \<Longrightarrow> ppc_hit c (va + of_nat (4 * j)) \<and>
        ppc_host c (va + of_nat (4 * j)) = h + of_nat (4 * (k + j)) \<and>
       h + of_nat (4 * (k + j)) \<noteq> 0"
    using assms unfolding words_at_def by blast+
  show "ppc_hit c va" "ppc_host c va = h + of_nat (4 * k)" "ppc_host c va \<noteq> 0" using a(2) [of 0] by simp_all
  show "words_at c (va + 4) h (Suc k) n"
    unfolding words_at_def
  proof (intro conjI allI impI)
    fix j assume "j < n"
    then have "Suc j < Suc n" by simp
    from a(2) [OF this]
    show "ppc_hit c (va + 4 + of_nat (4 * j))" "ppc_host c (va + 4 + of_nat (4 * j)) = h + of_nat (4 * (Suc
        k + j))"
      "h + of_nat (4 * (Suc k + j)) \<noteq> 0" by (simp_all add: algebra_simps)
  qed (use a(1) in simp)
qed

lemma stmw_words:
  "words_at c va h k (length rs) \<Longrightarrow>
   \<exists>d. ppc_multiple ppc32_stw env rs va c = Ok () d \<and> mem_only c d \<and>
       (\<forall>j<length rs. host_word d h (k + j) = gpr c (rs ! j)) \<and> (\<forall>j<k. host_word d h j = host_word c h j)"
proof (induction rs arbitrary: c va k)
  case Nil
  have "mem_only c c" unfolding mem_only_def by (intro exI [of _ id]) simp
  then show ?case by simp
next
  case (Cons r rs)
  note w = words_at_Suc [OF Cons.prems [unfolded list.size add_Suc_right add_0_right]]
  let ?c = "update_vm (host_mem_update (host_write32 (h + of_nat (4 * k)) (ucast (gpr c r)))) c"
  have bound: "k + length rs < 1023" using Cons.prems by (simp add: words_at_def)
  have c: "host_word ?c h j = (if j = k then gpr c r else host_word c h j)" if "j < 1024" for j
    using ppc_pte_word_write [of "4 * j" "4 * k" h "gpr c r" "host_mem (vm_inst c)"] that bound
    by (simp add: host_word_def ppc_pte_word_def)
  have "words_at ?c (va + 4) h (Suc k) (length rs)" using w(4) by (simp add: words_at_def)
  from Cons.IH [OF this] obtain d where d: "ppc_multiple ppc32_stw env rs (va + 4) ?c = Ok () d" "mem_only ?c d"
    "\<And>j. j < length rs \<Longrightarrow> host_word d h (Suc k + j) = gpr ?c (rs ! j)"
    "\<And>j. j < Suc k \<Longrightarrow> host_word d h j = host_word ?c h j" by blast
  have "ppc_multiple ppc32_stw env (r # rs) va c = Ok () d"
    using stw_hit [OF w(1,3), of env r] w(2) d(1) by simp
  moreover have "mem_only c d"
  proof -
    obtain m where "d = update_vm (host_mem_update m) ?c" using d(2) unfolding mem_only_def by blast
    then show ?thesis unfolding mem_only_def
      by (intro exI [of _ "m \<circ> host_write32 (h + of_nat (4 * k)) (ucast (gpr c r))"]) simp
  qed
  moreover have "host_word d h (k + j) = gpr c ((r # rs) ! j)" if "j < Suc (length rs)" for j
    using that d(3) [of "j - 1"] d(4) [of k] c [of k] bound by (cases j) auto
  moreover have "host_word d h j = host_word c h j" if "j < k" for j
    using that d(4) [of j] c [of j] bound by simp
  ultimately show ?case by (intro exI [of _ d]) simp
qed

lemma lmw_words:
  "words_at c va h k (length rs) \<Longrightarrow> distinct rs \<Longrightarrow>
   \<exists>f. ppc_multiple ppc32_lwz env rs va c = Ok () (c\<lparr>gpr := f\<rparr>) \<and>
       (\<forall>j<length rs. f (rs ! j) = host_word c h (k + j)) \<and> (\<forall>r. r \<notin> set rs \<longrightarrow> f r = gpr c r)"
proof (induction rs arbitrary: c va k)
  case Nil
  have "c = c\<lparr>gpr := gpr c\<rparr>" by simp
  then show ?case by (intro exI [of _ "gpr c"]) simp
next
  case (Cons r rs)
  note w = words_at_Suc [OF Cons.prems(1) [unfolded list.size add_Suc_right add_0_right]]
  let ?c = "set_gpr r (host_word c h k) c"
  have "words_at ?c (va + 4) h (Suc k) (length rs)" using w(4) by (simp add: words_at_def)
  moreover have "distinct rs" "r \<notin> set rs" using Cons.prems(2) by simp_all
  ultimately obtain f where f: "ppc_multiple ppc32_lwz env rs (va + 4) ?c = Ok () (?c\<lparr>gpr := f\<rparr>)"
    "\<And>j. j < length rs \<Longrightarrow> f (rs ! j) = host_word ?c h (Suc k + j)" "\<And>q. q \<notin> set rs \<Longrightarrow> f q = gpr ?c q"
    using Cons.IH by blast
  have "ppc_multiple ppc32_lwz env (r # rs) va c = Ok () (c\<lparr>gpr := f\<rparr>)"
    using lwz_hit [OF w(1,3), of env r] w(2) f(1) by (simp add: host_word_def)
  moreover have "f ((r # rs) ! j) = host_word c h (k + j)" if "j < Suc (length rs)" for j
    using that f(2) [of "j - 1"] f(3) [OF \<open>r \<notin> set rs\<close>] by (cases j) (auto simp: host_word_def)
  moreover have "f q = gpr c q" if "q \<notin> set (r # rs)" for q using f(3) [of q] that by simp
  ultimately show ?case by (intro exI [of _ f]) simp
qed

lemma words_at_hit:
  assumes "ppc_hit c va" "unat (va AND 0xFFF) + 4 * n \<le> 4096" "n \<le> 32"
    and "\<And>k. k < 4096 \<Longrightarrow> hpa (mts_cache c 1 (mts32_hash va)) + of_nat k \<noteq> 0"
  shows "words_at c va (ppc_host c va) 0 n"
  unfolding words_at_def
proof (intro conjI allI impI)
  show "0 + n < 1024" using assms(3) by simp
  fix j assume "j < n"
  then have k: "unat (va AND 0xFFF) + 4 * j < 4096" using assms(2) by linarith
  note step = hit_step [OF assms(1) k]
  show "ppc_hit c (va + of_nat (4 * j))" by (rule step(1))
  show "ppc_host c (va + of_nat (4 * j)) = ppc_host c va + of_nat (4 * (0 + j))" using step(2) by simp
  have "ucast (va AND 0xFFF) = (of_nat (unat (va AND 0xFFF)) :: u64)" by (rule of_nat_unat [symmetric])
  then have "ppc_host c va + of_nat (4 * j) = hpa (mts_cache c 1 (mts32_hash va)) + of_nat (unat (va AND
      0xFFF) + 4 * j)"
    by (simp only: ppc_host_def of_nat_add add.assoc)
  then show "ppc_host c va + of_nat (4 * (0 + j)) \<noteq> 0" using assms(4) [OF k] by (simp add: add.assoc)
qed

text \<open>C33: \<open>lmw\<close> reads back what \<open>stmw\<close> stored. The store puts register \<open>rs + j\<close> in the big-endian word \<open>j\<close>
  at the
  effective address and changes nothing else of the CPU; a later load from the same address into
  the same registers, in any state with this memory and these caches, restores them and changes
  no other register. The hypotheses: the page of the address is in the data cache for writing and
  the transfer stays inside it.\<close>

theorem ppc_stmw_lmw_roundtrip:
  assumes "rs = fld insn 21 25" and "va = ppc_ea_imm insn c"
    and "ppc_hit c va" and "unat (va AND 0xFFF) + 4 * (32 - rs) \<le> 4096"
    and "\<And>k. k < 4096 \<Longrightarrow> hpa (mts_cache c 1 (mts32_hash va)) + of_nat k \<noteq> 0"
  shows "\<exists>m. ppc32_exec_STMW env insn c = Ok False (update_vm (host_mem_update m) c) \<and>
             (\<forall>d insn'. vm_inst d = host_mem_update m (vm_inst c) \<longrightarrow> mts_cache d = mts_cache c \<longrightarrow>
                fld insn' 21 25 = rs \<longrightarrow> ppc_ea_imm insn' d = va \<longrightarrow>
                (\<exists>f. ppc32_exec_LMW env' insn' d = Ok False (d\<lparr>gpr := f\<rparr>) \<and>
                     (\<forall>r. f r = (if rs \<le> r \<and> r < 32 then gpr c r else gpr d r))))"
proof -
  let ?rs = "[rs..<32]"
  have len: "length ?rs = 32 - rs" by simp
  have w: "words_at c va (ppc_host c va) 0 (length ?rs)"
    unfolding len by (rule words_at_hit [OF assms(3,4) _ assms(5)]) simp_all
  from stmw_words [OF w] obtain d0 where d0: "ppc_multiple ppc32_stw env ?rs va c = Ok () d0" "mem_only c d0"
    "\<And>j. j < 32 - rs \<Longrightarrow> host_word d0 (ppc_host c va) j = gpr c (rs + j)" by auto
  obtain m where m: "d0 = update_vm (host_mem_update m) c" using d0(2) unfolding mem_only_def by blast
  have store: "ppc32_exec_STMW env insn c = Ok False (update_vm (host_mem_update m) c)"
    using d0(1) by (simp add: ppc32_exec_STMW_def Let_def assms(1) [symmetric] assms(2) [symmetric] m)
  have load: "\<exists>f. ppc32_exec_LMW env' insn' d = Ok False (d\<lparr>gpr := f\<rparr>) \<and>
                     (\<forall>r. f r = (if rs \<le> r \<and> r < 32 then gpr c r else gpr d r))"
    if d: "vm_inst d = host_mem_update m (vm_inst c)" "mts_cache d = mts_cache c" "fld insn' 21 25 = rs"
      "ppc_ea_imm insn' d = va" for d insn'
  proof -
    have "words_at d va (ppc_host c va) 0 (length ?rs)"
      using w by (simp add: words_at_def ppc_hit_def ppc_host_def d(2))
    from lmw_words [OF this distinct_upt,
        where env = env'] obtain f where f: "ppc_multiple ppc32_lwz env' ?rs va d = Ok () (d\<lparr>gpr := f\<rparr>)"
      "\<And>j. j < 32 - rs \<Longrightarrow> f (rs + j) = host_word d (ppc_host c va) j" "\<And>r. r \<notin> set ?rs \<Longrightarrow> f r = gpr d r" by auto
    have "f r = gpr c r" if "rs \<le> r" "r < 32" for r
      using f(2) [of "r - rs"] d0(3) [of "r - rs"] that by (simp add: host_word_def d(1) m)
    moreover have "f r = gpr d r" if "\<not> (rs \<le> r \<and> r < 32)" for r using f(3) [of r] that by auto
    ultimately show ?thesis
      using f(1) by (intro exI [of _ f]) (simp add: ppc32_exec_LMW_def Let_def d(3,4))
  qed
  from store load show ?thesis by (intro exI [of _ m]) blast
qed

section \<open>Concrete instances\<close>

text \<open>A processor with 256 MB of RAM at physical address 0, at host address 0x700000.\<close>

definition ppc_ram :: "unit ppc_vm" where
  "ppc_ram = ppc_example\<lparr>vm_inst := empty_vm\<lparr>
     vdevs := (\<lambda>_. dev_init\<lparr>phys_len := 0x10000000, host_addr := 0x700000, dev_flags := 2\<rparr>),
     dev_list := [5]\<rparr>\<rparr>"

lemma example_coherent: "ppc_coherent 0 ppc_example" "ppc_coherent 1 ppc_example" "ppc_coherent 0 ppc_ram"
    "ppc_coherent 1 ppc_ram"
  by (rule flushed_ppc_coherent; simp add: ppc_ram_def ppc_example_def)+

lemma ram_whole_pages: "whole_pages (vm_inst ppc_ram)"
proof -
  have "a + k < 0x10000000 \<longleftrightarrow> a < (0x10000000 :: u64)" if "a AND 0xFFF = 0" "k < 0x1000" for a k
  proof -
    have "take_bit 12 a = 0" using that(1) by (simp add: take_bit_eq_mask mask_eq_exp_minus_1)
    then have "a = push_bit 12 (drop_bit 12 a)" using bits_ident [of 12 a] by simp
    moreover have kb: "bit k n \<Longrightarrow> n < 12" for n
      by (rule bit_less_pow2 [of k 12]) (use that(2) in \<open>simp_all add: word_less_nat_alt\<close>)
    ultimately have "a + k = a OR k"
      by (intro disjunctive_add) (metis bit_push_bit_iff leD)
    moreover have "drop_bit 12 k = 0" by (rule bit_word_eqI) (auto simp: bit_drop_bit_eq dest: kb)
    ultimately have "drop_bit 12 (a + k) = drop_bit 12 a" by (simp add: drop_bit_or)
    then have "unat (drop_bit 12 (a + k)) = unat (drop_bit 12 a)" by simp
    then have d: "unat (a + k) div 4096 = unat a div 4096"
        by (simp add: unat_drop_bit_eq) (simp add: drop_bit_eq_div)
    have "x < 0x10000000 \<longleftrightarrow> x div 4096 < 65536" for x :: nat by (simp add: div_less_iff_less_mult)
    then show ?thesis using d by (simp add: word_less_nat_alt)
  qed
  then show ?thesis
    by (simp add: whole_pages_def ppc_ram_def dev_accepts_def dev_init_def)
qed

theorem ppc_mts_cache_transparent_witness:
  "\<exists>cache. ppc32_mem_access ppc_example_env 0x1004 1 PPC_MEMOP_LWZ 4 MTS_READ 0 ppc_ram =
     Ok (0x701004, 0) (ppc_ram\<lparr>mts_cache := cache\<rparr>)"
proof -
  have e: "ppc_entry 1 ppc_ram 0x1004 = Some \<lparr>gvpa = 0x1000, gppa = 0x1000, hpa = 0x701000, mts_flags = 0\<rparr>"
    by (simp add: ppc_entry_def ppc32_xlate_def ppc_real_mode_def ppc_real_map_def ppc_map_def ppc_ram_def
        ppc_example_def
      dev_lookup_def dev_accepts_def dev_init_def low32_def Let_def)
  have "\<not> slow_lookup_405 ppc_ram" "1 < (2 :: nat)" by (simp_all add: ppc_ram_def ppc_example_def)
  from ppc_mts_cache_transparent [OF example_coherent(3,4) ram_whole_pages this, where va = "0x1004"
      and env = ppc_example_env and op = PPC_MEMOP_LWZ and n = 4 and ty = MTS_READ and data = 0] e
  show ?thesis by auto
qed

theorem ppc_flush_makes_coherent_witness:
  "ppc_coherent 0 (ppc32_reset ppc_ram) \<and> ppc_coherent 1 (ppc32_reset ppc_ram)"
  using ppc_flush_makes_coherent [OF refl refl, where c = ppc_ram] by blast


text \<open>\<open>stmw r30,0x1000(0)\<close> with the page in the data cache.\<close>

theorem ppc_stmw_lmw_roundtrip_witness:
  "\<exists>c m. ppc_hit c 0x1000 \<and>
     ppc32_exec_STMW ppc_example_env 0xBFC01000 c = Ok False (update_vm (host_mem_update m) (c :: unit ppc_vm))"
proof -
  let ?c = "ppc_ram\<lparr>mts_cache := (\<lambda>_ _. \<lparr>gvpa = 0x1000, gppa = 0x1000, hpa = 0x701000, mts_flags = 0\<rparr>)\<rparr>"
  have ea: "0x1000 = ppc_ea_imm 0xBFC01000 ?c" by (simp add: ppc_ea_imm_def fld_def bits_def sign_extend_32_def)
  have hit: "ppc_hit ?c 0x1000" by (simp add: ppc_hit_def ppc_page_def)
  have "(0x701000 :: u64) + of_nat k \<noteq> 0" if "k < 4096" for k
  proof
    assume "(0x701000 :: u64) + of_nat k = 0"
    then have "(of_nat (0x701000 + k) :: u64) = 0" by simp
    then have "unat (of_nat (0x701000 + k) :: u64) = 0" by simp
    then show False using that by (simp only: unat_of_nat take_bit_nat_eq_self) (simp add: take_bit_nat_eq_self)
  qed
  then have "hpa (mts_cache ?c 1 (mts32_hash 0x1000)) + of_nat k \<noteq> 0" if "k < 4096" for k using that by simp
  then obtain c where c: "0x1000 = ppc_ea_imm 0xBFC01000 c" "ppc_hit c 0x1000"
    "\<And>k. k < 4096 \<Longrightarrow> hpa (mts_cache (c :: unit ppc_vm) 1 (mts32_hash 0x1000)) + of_nat k \<noteq> 0"
    using ea hit by blast
  have "unat (0x1000 AND 0xFFF :: u32) + 4 * (32 - fld 0xBFC01000 21 25) \<le> 4096" by (simp add: fld_def bits_def)
  from ppc_stmw_lmw_roundtrip [OF refl c(1,2) this c(3), of ppc_example_env] c(2) show ?thesis by blast
qed

end
