(* ===== verification/DevFlash.thy ===== *)
theory DevFlash
  imports Prelude
begin

text \<open>
  The flash device \<open>common/dev_flash.c\<close>: a command is a sequence of writes to magic addresses, tracked
  by a state number. The memory of the device is a byte list; a store or fill outside it is \<open>None\<close>.
  The handler returns the place to read for an array read, and nothing otherwise.
\<close>

record flash_dev =
  fl_state :: nat
  fl_sector_size :: nat
  fl_mem :: "u8 list"

definition flash_fill :: "nat \<Rightarrow> nat \<Rightarrow> flash_dev \<Rightarrow> flash_dev option" where
  "flash_fill offset n d =
     (if offset + n \<le> length (fl_mem d)
      then Some (d\<lparr>fl_mem := take offset (fl_mem d) @ replicate n 0 @ drop (offset + n) (fl_mem d)\<rparr>)
      else None)"

definition flash_store :: "nat \<Rightarrow> u8 \<Rightarrow> flash_dev \<Rightarrow> flash_dev option" where
  "flash_store offset v d =
     (if offset < length (fl_mem d) then Some (d\<lparr>fl_mem := (fl_mem d)[offset := v]\<rparr>) else None)"

text \<open>The write side of \<open>dev_flash_access\<close>, one branch per state.\<close>

definition flash_cycle1 :: "nat \<Rightarrow> u64 \<Rightarrow> flash_dev \<Rightarrow> flash_dev" where
  "flash_cycle1 offset data d =
     (if offset = 0xAAA then (if data = 0xAA then d\<lparr>fl_state := 1\<rparr> else d)
      else if data = 0xB0 \<or> data = 0x30 then d\<lparr>fl_state := 0\<rparr> else d)"

definition flash_cycle3 :: "nat \<Rightarrow> u64 \<Rightarrow> flash_dev \<Rightarrow> flash_dev" where
  "flash_cycle3 offset data d =
     (let d = d\<lparr>fl_state := 0\<rparr> in
      if offset = 0xAAA then
        if data = 0x80 then d\<lparr>fl_state := 3\<rparr>
        else if data = 0xA0 then d\<lparr>fl_state := 4\<rparr>
        else if data = 0xF0 then d
        else if data = 0xC0 then d\<lparr>fl_state := 5\<rparr>
        else if data = 0x90 then d\<lparr>fl_state := 6\<rparr>
        else if data = 0xD0 then d\<lparr>fl_state := 7\<rparr>
        else d
      else d)"

definition flash_cycle6 :: "nat \<Rightarrow> u64 \<Rightarrow> flash_dev \<Rightarrow> flash_dev option" where
  "flash_cycle6 offset data d =
     (let d = d\<lparr>fl_state := 0\<rparr> in
      if data = 0x10 then flash_fill offset (length (fl_mem d)) d
      else if data = 0x30 then flash_fill offset (fl_sector_size d) d
      else Some d)"

definition dev_flash_write :: "nat \<Rightarrow> u64 \<Rightarrow> flash_dev \<Rightarrow> flash_dev option" where
  "dev_flash_write offset data d =
     (if fl_state d = 0 then Some (flash_cycle1 offset data d)
      else if fl_state d = 1 then
        Some (if offset \<noteq> 0x555 \<and> data \<noteq> 0x55 then d\<lparr>fl_state := 0\<rparr> else d\<lparr>fl_state := 2\<rparr>)
      else if fl_state d = 2 then Some (flash_cycle3 offset data d)
      else if fl_state d = 3 then
        Some (if offset \<noteq> 0xAAA \<and> data \<noteq> 0xAA then d\<lparr>fl_state := 0\<rparr> else d\<lparr>fl_state := 8\<rparr>)
      else if fl_state d = 8 then
        Some (if offset \<noteq> 0x555 \<and> data \<noteq> 0x55 then d\<lparr>fl_state := 0\<rparr> else d\<lparr>fl_state := 9\<rparr>)
      else if fl_state d = 9 then flash_cycle6 offset data d
      else if fl_state d = 4 then flash_store offset (ucast data) (d\<lparr>fl_state := 0\<rparr>)
      else Some d)"

text \<open>The result \<open>Some offset\<close> is the pointer into the array, \<open>None\<close> the null pointer.\<close>

definition dev_flash_access :: "nat \<Rightarrow> bool \<Rightarrow> u64 \<Rightarrow> flash_dev \<Rightarrow> (nat option \<times> flash_dev) option" where
  "dev_flash_access offset is_read data d =
     (if is_read then Some (if fl_state d = 0 then Some offset else None, d)
      else map_option (Pair None) (dev_flash_write offset data d))"

definition dev_flash_copy_data :: "flash_dev option \<Rightarrow> nat \<Rightarrow> u8 list \<Rightarrow> (int \<times> flash_dev option) option" where
  "dev_flash_copy_data obj offset bytes =
     (case obj of None \<Rightarrow> Some (- 1, None)
      | Some d \<Rightarrow>
          if offset + length bytes \<le> length (fl_mem d)
          then Some (0, Some (d\<lparr>fl_mem := take offset (fl_mem d) @ bytes @ drop (offset + length bytes)
              (fl_mem d)\<rparr>))
          else None)"

definition dev_flash_init :: "u8 list \<Rightarrow> flash_dev" where
  "dev_flash_init file_bytes = \<lparr> fl_state = 0, fl_sector_size = 0x4000, fl_mem = file_bytes \<rparr>"

section \<open>Command sequences\<close>

fun flash_run :: "(nat \<times> u64) list \<Rightarrow> flash_dev \<Rightarrow> flash_dev option" where
  "flash_run [] d = Some d"
| "flash_run ((offset, data) # ws) d =
     (case dev_flash_write offset data d of None \<Rightarrow> None | Some d' \<Rightarrow> flash_run ws d')"

lemma flash_run_append:
  "flash_run (xs @ ys) d = (case flash_run xs d of None \<Rightarrow> None | Some d' \<Rightarrow> flash_run ys d')"
  by (induction xs arbitrary: d) (auto split: option.splits)

text \<open>The states the handler leaves; in the others every write is ignored and every read returns nothing.\<close>

definition flash_stuck :: "flash_dev \<Rightarrow> bool" where
  "flash_stuck d \<longleftrightarrow> fl_state d \<notin> {0, 1, 2, 3, 4, 8, 9}"

text \<open>The program command: the three unlock cycles followed by one write store exactly that byte
  and return to the array, from which it can be read.\<close>

theorem flash_program:
  assumes "fl_state d = 0" "a < length (fl_mem d)"
  shows "flash_run [(0xAAA, 0xAA), (0x555, 0x55), (0xAAA, 0xA0), (a, v)] d
           = Some (d\<lparr>fl_mem := (fl_mem d)[a := ucast v]\<rparr>)"
proof -
  have "flash_run [(0xAAA, 0xAA), (0x555, 0x55), (0xAAA, 0xA0)] d = Some (d\<lparr>fl_state := 4\<rparr>)"
    using assms(1) by (simp add: dev_flash_write_def flash_cycle1_def flash_cycle3_def)
  moreover have "d\<lparr>fl_state := 0\<rparr> = d" using assms(1) by simp
  ultimately show ?thesis
    using assms(2) flash_run_append [of "[(0xAAA, 0xAA), (0x555, 0x55), (0xAAA, 0xA0)]" "[(a, v)]" d]
    by (simp add: dev_flash_write_def flash_store_def)
qed

lemma flash_erase_unlock:
  assumes "fl_state d = 0"
  shows "flash_run [(0xAAA, 0xAA), (0x555, 0x55), (0xAAA, 0x80), (0xAAA, 0xAA), (0x555, 0x55)] d
           = Some (d\<lparr>fl_state := 9\<rparr>)"
  using assms by (simp add: dev_flash_write_def flash_cycle1_def flash_cycle3_def)

lemma flash_erase_run:
  assumes "fl_state d = 0"
  shows "flash_run [(0xAAA, 0xAA), (0x555, 0x55), (0xAAA, 0x80), (0xAAA, 0xAA), (0x555, 0x55), (a, v)] d
           = flash_cycle6 a v d"
proof -
  have "flash_run ([(0xAAA, 0xAA), (0x555, 0x55), (0xAAA, 0x80), (0xAAA, 0xAA), (0x555, 0x55)] @ [(a, v)]) d
      = flash_cycle6 a v (d\<lparr>fl_state := 9\<rparr>)"
    unfolding flash_run_append flash_erase_unlock [OF assms]
    by (simp add: dev_flash_write_def split: option.splits)
  also have "\<dots> = flash_cycle6 a v d" by (simp add: flash_cycle6_def Let_def)
  finally show ?thesis by (simp only: append_Cons append_Nil)
qed

text \<open>C35: The erase commands. The chip erase fills from the address of its last cycle, so it stays inside
  the device only at address zero and writes past its end at any other, the documented \<open>0xAAA\<close>
  included; the sector erase clears one sector from the given address.\<close>

theorem flash_erase:
  assumes "fl_state d = 0" and "fl_mem d \<noteq> []"
  shows "flash_run [(0xAAA, 0xAA), (0x555, 0x55), (0xAAA, 0x80), (0xAAA, 0xAA), (0x555, 0x55), (a, 0x30)] d
           = flash_fill a (fl_sector_size d) d
       \<and> flash_run [(0xAAA, 0xAA), (0x555, 0x55), (0xAAA, 0x80), (0xAAA, 0xAA), (0x555, 0x55), (a, 0x10)] d
           = (if a = 0 then Some (d\<lparr>fl_mem := replicate (length (fl_mem d)) 0\<rparr>) else None)"
proof -
  have d: "d\<lparr>fl_state := 0\<rparr> = d" using assms(1) by simp
  have 1: "flash_cycle6 a 0x30 d = flash_fill a (fl_sector_size d) d" by (simp add: flash_cycle6_def d)
  have 2: "flash_cycle6 a 0x10 d = flash_fill a (length (fl_mem d)) d" by (simp add: flash_cycle6_def d)
  show ?thesis
    unfolding flash_erase_run [OF assms(1)] 1 2 using assms(2) by (simp add: flash_fill_def)
qed

theorem flash_erase_witness:
  "flash_run [(0xAAA, 0xAA), (0x555, 0x55), (0xAAA, 0x80), (0xAAA, 0xAA), (0x555, 0x55), (0xAAA, 0x10)]
     (dev_flash_init (replicate 0x1000 0xFF)) = None"
  using flash_erase [of "dev_flash_init (replicate 0x1000 0xFF)" "0xAAA"] by (simp add: dev_flash_init_def)

theorem flash_program_witness:
  "flash_run [(0xAAA, 0xAA), (0x555, 0x55), (0xAAA, 0xA0), (2, 0x41)] (dev_flash_init [1, 2, 3])
     = Some (dev_flash_init [1, 2, 0x41])"
  using flash_program [of "dev_flash_init [1, 2, 3]" 2 "0x41"] by (simp add: dev_flash_init_def)

text \<open>After the commands that select the identification, the protection register or the configuration
  register the device never answers again: whatever is written it stays in that state, and every read
  returns nothing.\<close>

theorem flash_dead_states:
  assumes "flash_stuck d"
  shows "flash_run ws d = Some d \<and> dev_flash_access a True v d = Some (None, d)"
proof -
  have "flash_run ws d = Some d"
    using assms by (induction ws) (auto simp: dev_flash_write_def flash_stuck_def)
  then show ?thesis using assms by (simp add: dev_flash_access_def flash_stuck_def)
qed

theorem flash_dead_states_witness:
  "\<exists>d. flash_run [(0xAAA, 0xAA), (0x555, 0x55), (0xAAA, 0x90)] (dev_flash_init [1, 2, 3]) = Some d
     \<and> flash_run [(0xAAA, 0xF0)] d = Some d \<and> dev_flash_access 0 True 0 d = Some (None, d)"
proof -
  let ?d = "(dev_flash_init [1, 2, 3])\<lparr>fl_state := 6\<rparr>"
  have "flash_run [(0xAAA, 0xAA), (0x555, 0x55), (0xAAA, 0x90)] (dev_flash_init [1, 2, 3]) = Some ?d"
    by (simp add: dev_flash_init_def dev_flash_write_def flash_cycle1_def flash_cycle3_def)
  then show ?thesis using flash_dead_states [of ?d "[(0xAAA, 0xF0)]" 0 0] by (auto simp: flash_stuck_def)
qed

end
