(* ===== verification/Bootflash.thy ===== *)
theory Bootflash
  imports Prelude
begin

text \<open>
  The Intel flash SIMM, \<open>common/dev_bootflash.c\<close>: up to four chips, each a command state machine with a
  write buffer, interleaved byte by byte over one memory. The memory is a byte list shared by the
  chips; an access outside it, or outside the write buffer, is \<open>None\<close>.
\<close>

section \<open>Data\<close>

datatype flash_state = FLASH_CMD_READ_ARRAY | FLASH_CMD_READ_ID | FLASH_CMD_READ_QUERY
  | FLASH_CMD_READ_STATUS | FLASH_CMD_WRITE_BUF_CNT | FLASH_CMD_WRITE_BUF_DATA
  | FLASH_CMD_WRITE_BUF_CONFIRM | FLASH_CMD_WB_PROG | FLASH_CMD_WB_PROG_DONE
  | FLASH_CMD_BLK_ERASE | FLASH_CMD_BLK_ERASE_DONE | FLASH_CMD_CONFIG

datatype flash_mode = FLASH_MODE_BYTE | FLASH_MODE_WORD

definition MAX_FLASH :: nat where "MAX_FLASH = 4"
definition FLASH_BUF_SIZE :: nat where "FLASH_BUF_SIZE = 32"

record flash_model =
  fm_name :: string
  fm_total_size :: nat
  fm_mode :: flash_mode
  fm_nr_flash_bits :: nat
  fm_blk_size :: nat
  fm_id_manufacturer :: u8
  fm_id_device :: u8

record flash_chip =
  fc_mode :: flash_mode
  fc_offset_shift :: nat
  fc_state :: flash_state
  fc_blk_size :: nat
  fc_id_manufacturer :: u8
  fc_id_device :: u8
  fc_status_reg :: u8
  fc_pos :: nat
  wb_offset :: u32
  wb_count :: u32
  wb_remain :: u32
  wbuf :: "u32 list"

record flashset =
  fs_mode :: flash_mode
  fs_nr_flash_bits :: nat
  fs_nr_flash_count :: nat
  fs_flash :: "flash_chip list"
  fs_mem :: "u8 list"

definition flash_models :: "flash_model list" where
  "flash_models =
   [\<lparr> fm_name = ''c1700-bootflash-4mb'', fm_total_size = 4 * 1048576, fm_mode = FLASH_MODE_WORD,
      fm_nr_flash_bits = 0, fm_blk_size = 0x10000, fm_id_manufacturer = 0x89, fm_id_device = 0x14 \<rparr>,
    \<lparr> fm_name = ''c1700-bootflash-8mb'', fm_total_size = 8 * 1048576, fm_mode = FLASH_MODE_WORD,
      fm_nr_flash_bits = 0, fm_blk_size = 0x10000, fm_id_manufacturer = 0x89, fm_id_device = 0x15 \<rparr>,
    \<lparr> fm_name = ''c3600-bootflash-8mb'', fm_total_size = 8 * 1048576, fm_mode = FLASH_MODE_BYTE,
      fm_nr_flash_bits = 2, fm_blk_size = 0x10000, fm_id_manufacturer = 0x89, fm_id_device = 0xA0 \<rparr>,
    \<lparr> fm_name = ''c7200-bootflash-4mb'', fm_total_size = 4 * 1048576, fm_mode = FLASH_MODE_BYTE,
      fm_nr_flash_bits = 2, fm_blk_size = 0x10000, fm_id_manufacturer = 0x89, fm_id_device = 0xA2 \<rparr>,
    \<lparr> fm_name = ''c7200-bootflash-8mb'', fm_total_size = 8 * 1048576, fm_mode = FLASH_MODE_BYTE,
      fm_nr_flash_bits = 2, fm_blk_size = 0x10000, fm_id_manufacturer = 0x89, fm_id_device = 0xA0 \<rparr>,
    \<lparr> fm_name = ''c7200-bootflash-64mb'', fm_total_size = 64 * 1048576, fm_mode = FLASH_MODE_BYTE,
      fm_nr_flash_bits = 2, fm_blk_size = 0x10000, fm_id_manufacturer = 0x89, fm_id_device = 0x18 \<rparr>,
    \<lparr> fm_name = ''c2600-bootflash-8mb'', fm_total_size = 8 * 1048576, fm_mode = FLASH_MODE_BYTE,
      fm_nr_flash_bits = 2, fm_blk_size = 0x10000, fm_id_manufacturer = 0x89, fm_id_device = 0xA0 \<rparr>]"

definition flash_model_find :: "string \<Rightarrow> flash_model option" where
  "flash_model_find name = find (\<lambda>fm. fm_name fm = name) flash_models"

text \<open>The chips of a new set; what \<open>memset\<close> cleared is zero.\<close>

definition flash_new :: "flash_mode \<Rightarrow> nat \<Rightarrow> u8 \<Rightarrow> u8 \<Rightarrow> nat \<Rightarrow> flash_chip" where
  "flash_new mode blk_size manufacturer device i =
     \<lparr> fc_mode = mode, fc_offset_shift = (case mode of FLASH_MODE_BYTE \<Rightarrow> 0 | FLASH_MODE_WORD \<Rightarrow> 1),
       fc_state = FLASH_CMD_READ_ARRAY, fc_blk_size = blk_size, fc_id_manufacturer = manufacturer,
       fc_id_device = device, fc_status_reg = 0, fc_pos = i, wb_offset = 0, wb_count = 0, wb_remain = 0,
       wbuf = replicate FLASH_BUF_SIZE 0 \<rparr>"

definition flashset_init :: "flash_mode \<Rightarrow> nat \<Rightarrow> nat \<Rightarrow> u8 \<Rightarrow> u8 \<Rightarrow> u8 list \<Rightarrow> flashset" where
  "flashset_init mode nr_flash_bits blk_size manufacturer device mem =
     \<lparr> fs_mode = mode, fs_nr_flash_bits = nr_flash_bits, fs_nr_flash_count = 2 ^ nr_flash_bits,
       fs_flash = map (flash_new mode blk_size manufacturer device) [0..<2 ^ nr_flash_bits],
       fs_mem = mem \<rparr>"

definition dev_bootflash_init :: "string \<Rightarrow> u8 list \<Rightarrow> flashset option" where
  "dev_bootflash_init model file_bytes =
     map_option (\<lambda>fm. flashset_init (fm_mode fm) (fm_nr_flash_bits fm) (fm_blk_size fm)
                        (fm_id_manufacturer fm) (fm_id_device fm) file_bytes)
       (flash_model_find model)"

section \<open>One chip\<close>

definition flash_real_offset :: "nat \<Rightarrow> flash_chip \<Rightarrow> u32 \<Rightarrow> u32" where
  "flash_real_offset nb d offset = push_bit nb offset + of_nat (fc_pos d)"

definition mem_get :: "u8 list \<Rightarrow> u32 \<Rightarrow> u8 option" where
  "mem_get mem a = (if unat a < length mem then Some (mem ! unat a) else None)"

definition mem_put :: "u32 \<Rightarrow> u8 \<Rightarrow> u8 list \<Rightarrow> u8 list option" where
  "mem_put a v mem = (if unat a < length mem then Some (mem[unat a := v]) else None)"

definition flash_read :: "nat \<Rightarrow> u8 list \<Rightarrow> flash_chip \<Rightarrow> u32 \<Rightarrow> u32 option" where
  "flash_read nb mem d offset =
     (let r = flash_real_offset nb d offset in
      case fc_mode d of
        FLASH_MODE_BYTE \<Rightarrow> map_option ucast (mem_get mem r)
      | FLASH_MODE_WORD \<Rightarrow>
          (case mem_get mem (push_bit 1 r) of None \<Rightarrow> None
           | Some hi \<Rightarrow> map_option (\<lambda>lo. push_bit 8 (ucast hi) OR ucast lo) (mem_get mem (push_bit 1 r + 1))))"

definition flash_write :: "nat \<Rightarrow> flash_chip \<Rightarrow> u32 \<Rightarrow> u32 \<Rightarrow> u8 list \<Rightarrow> u8 list option" where
  "flash_write nb d offset data mem =
     (let r = flash_real_offset nb d offset in
      case fc_mode d of
        FLASH_MODE_BYTE \<Rightarrow> mem_put r (ucast data) mem
      | FLASH_MODE_WORD \<Rightarrow>
          (case mem_put (push_bit 1 r) (ucast (drop_bit 8 data)) mem of None \<Rightarrow> None
           | Some mem \<Rightarrow> mem_put (push_bit 1 r + 1) (ucast (data AND 0xFF)) mem))"

text \<open>\<open>for (i = 0; i < n; i++) flash_write(d, offset + i, data[i])\<close>.\<close>

fun flash_write_all :: "nat \<Rightarrow> flash_chip \<Rightarrow> u32 \<Rightarrow> u32 list \<Rightarrow> u8 list \<Rightarrow> u8 list option" where
  "flash_write_all nb d offset [] mem = Some mem"
| "flash_write_all nb d offset (v # vs) mem =
     (case flash_write nb d offset v mem of None \<Rightarrow> None
      | Some mem \<Rightarrow> flash_write_all nb d (offset + 1) vs mem)"

definition flash_cmd :: "u32 \<Rightarrow> u32 \<Rightarrow> flash_chip \<Rightarrow> flash_chip" where
  "flash_cmd offset command d =
     (let c = command AND 0xFF in
      if c = 0x40 \<or> c = 0x10 then d\<lparr>fc_state := FLASH_CMD_WB_PROG\<rparr>
      else if c = 0xe8 then
        d\<lparr>fc_state := FLASH_CMD_WRITE_BUF_CNT, wb_offset := offset, wb_count := 0, wb_remain := 0\<rparr>
      else if c = 0x70 then d\<lparr>fc_state := FLASH_CMD_READ_STATUS\<rparr>
      else if c = 0x50 then d\<lparr>fc_status_reg := 0, fc_state := FLASH_CMD_READ_ARRAY\<rparr>
      else if c = 0x90 then d\<lparr>fc_state := FLASH_CMD_READ_ID\<rparr>
      else if c = 0x20 then d\<lparr>fc_state := FLASH_CMD_BLK_ERASE\<rparr>
      else if c = 0xff then d\<lparr>fc_state := FLASH_CMD_READ_ARRAY\<rparr>
      else d)"

text \<open>\<open>flash_access\<close>, the read and the write of each state. A read returns the value left in \<open>*data\<close>,
  which starts as zero.\<close>

definition flash_access_read :: "nat \<Rightarrow> u8 list \<Rightarrow> u32 \<Rightarrow> flash_chip \<Rightarrow> (u32 \<times> flash_chip) option" where
  "flash_access_read nb mem offset0 d =
     (let offset = drop_bit (fc_offset_shift d) offset0 in
      case fc_state d of
        FLASH_CMD_READ_ARRAY \<Rightarrow> map_option (\<lambda>v. (v, d)) (flash_read nb mem d offset)
      | FLASH_CMD_READ_STATUS \<Rightarrow> Some (0x80, d\<lparr>fc_state := FLASH_CMD_READ_ARRAY\<rparr>)
      | FLASH_CMD_READ_ID \<Rightarrow>
          Some (if offset = 0 then ucast (fc_id_manufacturer d)
                else if offset = 1 then ucast (fc_id_device d) else 0, d)
      | FLASH_CMD_WB_PROG \<Rightarrow> Some (0, d)
      | FLASH_CMD_READ_QUERY \<Rightarrow> Some (0, d)
      | FLASH_CMD_CONFIG \<Rightarrow> Some (0, d)
      | _ \<Rightarrow> Some (0x80, d))"

definition flash_buffer_data :: "u32 \<Rightarrow> u32 \<Rightarrow> flash_chip \<Rightarrow> flash_chip option" where
  "flash_buffer_data offset data d =
     (if wb_offset d \<le> offset \<and> offset < wb_offset d + wb_count d then
        if unat (offset - wb_offset d) < length (wbuf d) then
          let d = d\<lparr>wbuf := (wbuf d)[unat (offset - wb_offset d) := data], wb_remain := wb_remain d - 1\<rparr>
          in Some (if wb_remain d = 0 then d\<lparr>fc_state := FLASH_CMD_WRITE_BUF_CONFIRM\<rparr> else d)
        else None
      else Some d)"

definition flash_access_write :: "nat \<Rightarrow> u32 \<Rightarrow> u32 \<Rightarrow> flash_chip \<times> u8 list \<Rightarrow> (flash_chip \<times> u8 list) option" where
  "flash_access_write nb offset0 data s =
     (case s of (d, mem) \<Rightarrow>
      let offset = drop_bit (fc_offset_shift d) offset0 in
      case fc_state d of
        FLASH_CMD_WB_PROG \<Rightarrow>
          map_option (Pair (d\<lparr>fc_state := FLASH_CMD_WB_PROG_DONE\<rparr>)) (flash_write nb d offset data mem)
      | FLASH_CMD_WRITE_BUF_CNT \<Rightarrow>
          (let n = (data AND 0x1F) + 1 in
           Some (d\<lparr>wb_count := n, wb_remain := n, fc_state := FLASH_CMD_WRITE_BUF_DATA\<rparr>, mem))
      | FLASH_CMD_WRITE_BUF_DATA \<Rightarrow> map_option (\<lambda>d. (d, mem)) (flash_buffer_data offset data d)
      | FLASH_CMD_WRITE_BUF_CONFIRM \<Rightarrow>
          map_option (Pair (d\<lparr>fc_state := FLASH_CMD_READ_ARRAY\<rparr>))
            (if data AND 0xFF = 0xD0
             then if unat (wb_count d) \<le> length (wbuf d)
                  then flash_write_all nb d (wb_offset d) (take (unat (wb_count d)) (wbuf d)) mem else None
             else Some mem)
      | FLASH_CMD_READ_STATUS \<Rightarrow> Some (d\<lparr>fc_state := FLASH_CMD_READ_ARRAY\<rparr>, mem)
      | FLASH_CMD_BLK_ERASE \<Rightarrow>
          if data AND 0xFF = 0xD0
          then map_option (Pair (d\<lparr>fc_state := FLASH_CMD_BLK_ERASE_DONE\<rparr>))
                 (flash_write_all nb d offset (replicate (fc_blk_size d) 0xFFFF) mem)
          else Some (d, mem)
      | FLASH_CMD_READ_QUERY \<Rightarrow> Some (d, mem)
      | FLASH_CMD_CONFIG \<Rightarrow> Some (d, mem)
      | _ \<Rightarrow> Some (flash_cmd offset data d, mem))"

section \<open>The set of chips\<close>

definition mode_bytes :: "flash_mode \<Rightarrow> nat" where
  "mode_bytes m = (case m of FLASH_MODE_BYTE \<Rightarrow> 1 | FLASH_MODE_WORD \<Rightarrow> 2)"

definition flash_index :: "flashset \<Rightarrow> u32 \<Rightarrow> nat" where
  "flash_index d offset = unat (offset AND (of_nat (fs_nr_flash_count d) - 1))"

text \<open>The loop \<open>for (i = 0; i < op_size; i += d->mode)\<close>. The shift \<open>d_off\<close> is unsigned; when the access is
  narrower than a word of the chip it wraps to more than the width of the data, which C leaves
  undefined.\<close>

definition flash_d_off :: "nat \<Rightarrow> nat \<Rightarrow> nat \<Rightarrow> nat option" where
  "flash_d_off op_size i m = (if i + m \<le> op_size then Some (8 * (op_size - i - m)) else None)"

fun bootflash_read :: "flashset \<Rightarrow> u32 \<Rightarrow> nat \<Rightarrow> nat list \<Rightarrow> u64 \<Rightarrow> (u64 \<times> flashset) option" where
  "bootflash_read d offset op_size [] data = Some (data, d)"
| "bootflash_read d offset op_size (i # is) data =
     (let a = offset + of_nat i; fi = flash_index d a in
      case flash_access_read (fs_nr_flash_bits d) (fs_mem d) (drop_bit (fs_nr_flash_bits d) a) (fs_flash d !
          fi) of
        None \<Rightarrow> None
      | Some (v, chip) \<Rightarrow>
          (case flash_d_off op_size i (mode_bytes (fs_mode d)) of None \<Rightarrow> None
           | Some sh \<Rightarrow>
               bootflash_read (d\<lparr>fs_flash := (fs_flash d)[fi := chip]\<rparr>) offset op_size is
                 (data OR push_bit sh (ucast v))))"

fun bootflash_write :: "u32 \<Rightarrow> nat \<Rightarrow> nat list \<Rightarrow> u64 \<Rightarrow> flashset \<Rightarrow> flashset option" where
  "bootflash_write offset op_size [] data d = Some d"
| "bootflash_write offset op_size (i # is) data d =
     (let a = offset + of_nat i; fi = flash_index d a in
      case flash_d_off op_size i (mode_bytes (fs_mode d)) of
        None \<Rightarrow> None
      | Some sh \<Rightarrow>
          (case flash_access_write (fs_nr_flash_bits d) (drop_bit (fs_nr_flash_bits d) a)
                  (ucast (drop_bit sh data)) (fs_flash d ! fi, fs_mem d) of
             None \<Rightarrow> None
           | Some (chip, mem) \<Rightarrow>
               bootflash_write offset op_size is data
                 (d\<lparr>fs_flash := (fs_flash d)[fi := chip], fs_mem := mem\<rparr>)))"

definition flash_steps :: "flashset \<Rightarrow> nat \<Rightarrow> nat list" where
  "flash_steps d op_size = map (\<lambda>k. k * mode_bytes (fs_mode d))
     [0..<(op_size + mode_bytes (fs_mode d) - 1) div mode_bytes (fs_mode d)]"

definition dev_bootflash_access ::
  "u32 \<Rightarrow> nat \<Rightarrow> bool \<Rightarrow> u64 \<Rightarrow> flashset \<Rightarrow> (u64 \<times> flashset) option" where
  "dev_bootflash_access offset op_size is_read data d =
     (if is_read then bootflash_read d offset op_size (flash_steps d op_size) 0
      else map_option (Pair data) (bootflash_write offset op_size (flash_steps d op_size) data d))"

end
