(* ===== verification/BootflashProps.thy ===== *)
theory BootflashProps
  imports Bootflash
begin

text \<open>
  Properties of the flash SIMM: the invariant of its chips, the transparency of the interleaving for
  array reads, and the effect of the program and buffered program commands.
\<close>

section \<open>The invariant\<close>

definition chip_ok :: "flash_mode \<Rightarrow> nat \<Rightarrow> flash_chip \<Rightarrow> bool" where
  "chip_ok m i c \<longleftrightarrow> fc_pos c = i \<and> fc_mode c = m \<and> length (wbuf c) = FLASH_BUF_SIZE
     \<and> unat (wb_count c) \<le> FLASH_BUF_SIZE \<and> fc_offset_shift c = mode_bytes m - 1"

definition flashset_ok :: "flashset \<Rightarrow> bool" where
  "flashset_ok d \<longleftrightarrow> fs_nr_flash_count d = 2 ^ fs_nr_flash_bits d \<and> fs_nr_flash_count d \<le> MAX_FLASH
     \<and> length (fs_flash d) = fs_nr_flash_count d
     \<and> (\<forall>i < fs_nr_flash_count d. chip_ok (fs_mode d) i (fs_flash d ! i))"

lemma chip_ok_state [simp]: "chip_ok m i (c\<lparr>fc_state := s\<rparr>) = chip_ok m i c"
  by (simp add: chip_ok_def)

lemma chip_ok_cmd: "chip_ok m i c \<Longrightarrow> chip_ok m i (flash_cmd offset v c)"
  by (simp add: chip_ok_def flash_cmd_def Let_def)

lemma chip_ok_read:
  "chip_ok m i c \<Longrightarrow> flash_access_read nb mem offset c = Some (v, c') \<Longrightarrow> chip_ok m i c'"
  by (auto simp: flash_access_read_def Let_def chip_ok_def split: flash_state.splits)

lemma count_bound: "unat ((v AND 0x1F) + 1 :: u32) \<le> 32"
proof -
  have "unat (v AND 0x1F) < 2 ^ 5"
    using unat_take_bit_less [of 5 v] by (simp add: take_bit_eq_mask mask_eq_exp_minus_1)
  then show ?thesis by (simp add: unat_word_ariths)
qed

lemma buffer_index:
  assumes "wb_offset c \<le> offset" "offset < wb_offset c + wb_count c"
  shows "unat (offset - wb_offset c) < unat (wb_count c)"
proof -
  have a: "unat (wb_offset c) \<le> unat offset" using assms(1) by (simp add: word_le_nat_alt)
  have "unat offset < unat (wb_offset c + wb_count c)" using assms(2) by (simp add: word_less_nat_alt)
  also have "\<dots> \<le> unat (wb_offset c) + unat (wb_count c)" by (simp add: unat_word_ariths)
  finally show ?thesis using a assms(1) by (simp add: unat_sub)
qed

text \<open>The write buffer is never exceeded.\<close>

lemma buffer_data_ok:
  assumes "chip_ok m i c"
  shows "\<exists>c'. flash_buffer_data offset v c = Some c' \<and> chip_ok m i c'"
  using assms buffer_index [of c offset]
  by (auto simp: flash_buffer_data_def chip_ok_def Let_def)

lemma write_length: "flash_write nb c offset v mem = Some mem' \<Longrightarrow> length mem' = length mem"
  by (auto simp: flash_write_def mem_put_def Let_def split: flash_mode.splits if_splits option.splits)

lemma write_all_length: "flash_write_all nb c offset vs mem = Some mem' \<Longrightarrow> length mem' = length mem"
  by (induction vs arbitrary: offset mem) (auto split: option.splits dest: write_length)

lemma access_write_ok:
  assumes "chip_ok m i c" "flash_access_write nb offset v (c, mem) = Some (c', mem')"
  shows "chip_ok m i c' \<and> length mem' = length mem"
proof (cases "fc_state c")
  case FLASH_CMD_WRITE_BUF_DATA
  obtain c1 where "flash_buffer_data (drop_bit (fc_offset_shift c) offset) v c = Some c1" "chip_ok m i c1"
    using buffer_data_ok [OF assms(1)] by blast
  with FLASH_CMD_WRITE_BUF_DATA assms(2) show ?thesis by (auto simp: flash_access_write_def Let_def)
next
  case FLASH_CMD_WRITE_BUF_CNT
  with assms count_bound [of v] show ?thesis
    by (auto simp: flash_access_write_def Let_def chip_ok_def FLASH_BUF_SIZE_def)
qed (use assms in \<open>auto simp: flash_access_write_def Let_def chip_ok_cmd write_length write_all_length
      split: if_splits\<close>)

lemma flash_index_less:
  assumes "flashset_ok d"
  shows "flash_index d a = unat a mod 2 ^ fs_nr_flash_bits d" "flash_index d a < fs_nr_flash_count d"
proof -
  have "of_nat (fs_nr_flash_count d) - 1 = (mask (fs_nr_flash_bits d) :: u32)"
    using assms by (simp add: flashset_ok_def mask_eq_exp_minus_1)
  then have "flash_index d a = unat (take_bit (fs_nr_flash_bits d) a)"
    by (simp add: flash_index_def take_bit_eq_mask)
  also have "\<dots> = take_bit (fs_nr_flash_bits d) (unat a)" by (rule unsigned_take_bit_eq)
  finally show 1: "flash_index d a = unat a mod 2 ^ fs_nr_flash_bits d" by (simp only: take_bit_eq_mod)
  show "flash_index d a < fs_nr_flash_count d" using assms by (simp add: 1 flashset_ok_def)
qed

lemma flashset_ok_update:
  assumes "flashset_ok d" "chip_ok (fs_mode d) fi c"
  shows "flashset_ok (d\<lparr>fs_flash := (fs_flash d)[fi := c], fs_mem := mem\<rparr>)"
    and "flashset_ok (d\<lparr>fs_flash := (fs_flash d)[fi := c]\<rparr>)"
  using assms by (cases "fi < length (fs_flash d)"; auto simp: flashset_ok_def nth_list_update)+

lemma bootflash_read_ok:
  "flashset_ok d \<Longrightarrow> bootflash_read d offset n is data = Some (v, d') \<Longrightarrow>
     flashset_ok d' \<and> fs_mem d' = fs_mem d"
proof (induction "is" arbitrary: d data)
  case (Cons i "is")
  let ?fi = "flash_index d (offset + of_nat i)"
  have c: "chip_ok (fs_mode d) ?fi (fs_flash d ! ?fi)"
    using Cons.prems(1) flash_index_less(2) [OF Cons.prems(1)] by (simp add: flashset_ok_def)
  from Cons.prems(2) obtain v1 chip sh where r:
    "flash_access_read (fs_nr_flash_bits d) (fs_mem d) (drop_bit (fs_nr_flash_bits d) (offset + of_nat i))
       (fs_flash d ! ?fi) = Some (v1, chip)"
    "bootflash_read (d\<lparr>fs_flash := (fs_flash d)[?fi := chip]\<rparr>) offset n is (data OR push_bit sh (ucast v1))
        = Some (v, d')"
    by (auto simp: Let_def split: option.splits)
  from Cons.IH [OF flashset_ok_update(2) [OF Cons.prems(1) chip_ok_read [OF c r(1)]] r(2)] show ?case by simp
qed simp

lemma bootflash_write_ok:
  "flashset_ok d \<Longrightarrow> bootflash_write offset n is data d = Some d' \<Longrightarrow>
     flashset_ok d' \<and> length (fs_mem d') = length (fs_mem d)"
proof (induction "is" arbitrary: d)
  case (Cons i "is")
  let ?fi = "flash_index d (offset + of_nat i)"
  have c: "chip_ok (fs_mode d) ?fi (fs_flash d ! ?fi)"
    using Cons.prems(1) flash_index_less(2) [OF Cons.prems(1)] by (simp add: flashset_ok_def)
  from Cons.prems(2) obtain chip mem sh where r:
    "flash_access_write (fs_nr_flash_bits d) (drop_bit (fs_nr_flash_bits d) (offset + of_nat i))
       (ucast (drop_bit sh data)) (fs_flash d ! ?fi, fs_mem d) = Some (chip, mem)"
    "bootflash_write offset n is data (d\<lparr>fs_flash := (fs_flash d)[?fi := chip], fs_mem := mem\<rparr>) = Some d'"
    by (auto simp: Let_def split: option.splits)
  from access_write_ok [OF c r(1)] have a: "chip_ok (fs_mode d) ?fi chip" "length mem = length (fs_mem d)"
      by auto
  from Cons.IH [OF flashset_ok_update(1) [OF Cons.prems(1) a(1)] r(2)] a(2) show ?case by simp
qed simp

lemma flashset_init_ok:
  assumes "2 ^ nb \<le> MAX_FLASH"
  shows "flashset_ok (flashset_init m nb blk man dev mem)"
  using assms
  by (auto simp: flashset_ok_def flashset_init_def chip_ok_def flash_new_def mode_bytes_def
      FLASH_BUF_SIZE_def split: flash_mode.splits)

section \<open>Reading the array\<close>

fun be_value :: "u64 \<Rightarrow> u8 list \<Rightarrow> u64" where
  "be_value acc [] = acc"
| "be_value acc (b # bs) = be_value (push_bit 8 acc OR ucast b) bs"

definition array_mode :: "flashset \<Rightarrow> bool" where
  "array_mode d \<longleftrightarrow> (\<forall>c \<in> set (fs_flash d). fc_state c = FLASH_CMD_READ_ARRAY)"

lemma real_offset:
  fixes a :: u32
  shows "push_bit nb (drop_bit nb a) + of_nat (unat a mod 2 ^ nb) = a"
proof -
  have "of_nat (unat a mod 2 ^ nb) = take_bit nb (of_nat (unat a) :: u32)"
    by (simp only: take_bit_of_nat) (simp only: take_bit_eq_mod)
  then show ?thesis by (simp add: bits_ident)
qed

lemma array_read:
  assumes ok: "flashset_ok d" and m: "fs_mode d = FLASH_MODE_BYTE" and arr: "array_mode d"
    and a: "unat a < length (fs_mem d)"
  shows "flash_access_read (fs_nr_flash_bits d) (fs_mem d) (drop_bit (fs_nr_flash_bits d) a)
           (fs_flash d ! flash_index d a) = Some (ucast (fs_mem d ! unat a), fs_flash d ! flash_index d a)"
proof -
  note fi = flash_index_less [OF ok, of a]
  let ?c = "fs_flash d ! flash_index d a"
  have c: "chip_ok FLASH_MODE_BYTE (flash_index d a) ?c" "fc_state ?c = FLASH_CMD_READ_ARRAY"
    using ok fi(2) arr m by (auto simp: flashset_ok_def array_mode_def)
  then have "flash_real_offset (fs_nr_flash_bits d) ?c (drop_bit (fs_nr_flash_bits d) a) = a"
    by (simp add: flash_real_offset_def chip_ok_def fi(1) real_offset)
  then show ?thesis
    using c a by (simp add: flash_access_read_def flash_read_def chip_ok_def mode_bytes_def mem_get_def)
qed

lemma be_value_acc: "be_value acc bs = push_bit (8 * length bs) acc OR be_value 0 bs"
proof (induction bs arbitrary: acc)
  case (Cons b bs)
  show ?case
    by (simp add: Cons [of "push_bit 8 acc OR ucast b"] Cons [of "ucast b"] push_bit_or push_bit_push_bit
        or.assoc add.commute)
qed simp

lemma bootflash_read_array:
  assumes ok: "flashset_ok d" and m: "fs_mode d = FLASH_MODE_BYTE" and arr: "array_mode d"
    and len: "length (fs_mem d) \<le> 2 ^ 32" and k: "k \<le> n" "unat a + n \<le> length (fs_mem d)"
  shows "bootflash_read d a n [k..<n] data = Some (data OR be_value 0 (take (n - k) (drop (unat a + k)
      (fs_mem d))), d)"
  using k
proof (induction "n - k" arbitrary: k data)
  case 0
  then show ?case by simp
next
  case (Suc j)
  then have kn: "k < n" by simp
  have u: "unat (a + of_nat k) = unat a + k"
    using kn Suc.prems(2) len by (simp add: unat_word_ariths unat_of_nat)
  let ?b = "fs_mem d ! (unat a + k)"
  have r: "flash_access_read (fs_nr_flash_bits d) (fs_mem d) (drop_bit (fs_nr_flash_bits d) (a + of_nat k))
      (fs_flash d ! flash_index d (a + of_nat k)) = Some (ucast ?b, fs_flash d ! flash_index d (a + of_nat k))"
    using array_read [OF ok m arr, of "a + of_nat k"] kn Suc.prems(2) by (simp add: u)
  have IH: "bootflash_read d a n [Suc k..<n] x
      = Some (x OR be_value 0 (take (n - Suc k) (drop (unat a + Suc k) (fs_mem d))), d)" for x
    using Suc.hyps(1) [of "Suc k" x] Suc.hyps(2) Suc.prems kn by simp
  have t: "take (n - k) (drop (unat a + k) (fs_mem d)) = ?b # take (n - Suc k) (drop (unat a + Suc k)
      (fs_mem d))"
    using kn Suc.prems(2)
    by (simp add: Cons_nth_drop_Suc [symmetric] take_Suc_conv_app_nth Suc_diff_Suc [symmetric])
  let ?t = "take (n - Suc k) (drop (unat a + Suc k) (fs_mem d))"
  have "length ?t = n - Suc k" using Suc.prems(2) kn by simp
  then have acc: "be_value 0 (?b # ?t) = push_bit (8 * (n - Suc k)) (ucast ?b) OR be_value 0 ?t"
    using be_value_acc [of "ucast ?b" ?t] by simp
  have b: "ucast (ucast ?b :: u32) = (ucast ?b :: u64)" by (rule bit_word_eqI) (auto
      simp: bit_simps dest: bit_imp_le_length)
  have "bootflash_read d a n [k..<n] data
      = bootflash_read d a n [Suc k..<n] (data OR push_bit (8 * (n - Suc k)) (ucast ?b))"
    using kn by (simp add: upt_conv_Cons r m mode_bytes_def flash_d_off_def b)
  then show ?case unfolding t acc IH by (simp only: or.assoc)
qed

text \<open>C1: The interleaving of the chips is transparent: while every chip is in the array state, a read of
  \<open>n\<close> bytes returns the \<open>n\<close> bytes of the memory at that place in big-endian order, and changes no
  state.\<close>

theorem bootflash_array_read:
  assumes "flashset_ok d" "fs_mode d = FLASH_MODE_BYTE" "array_mode d"
    and "length (fs_mem d) \<le> 2 ^ 32" "unat a + n \<le> length (fs_mem d)"
  shows "dev_bootflash_access a n True v d = Some (be_value 0 (take n (drop (unat a) (fs_mem d))), d)"
proof -
  have "flash_steps d n = [0..<n]" using assms(2) by (simp add: flash_steps_def mode_bytes_def)
  then show ?thesis
    using bootflash_read_array [OF assms(1-4), of 0 n a 0] assms(5) by (simp add: dev_bootflash_access_def)
qed

section \<open>Programming\<close>

text \<open>Byte accesses of the processor, in sequence.\<close>

fun bootflash_run :: "(u32 \<times> u64) list \<Rightarrow> flashset \<Rightarrow> flashset option" where
  "bootflash_run [] d = Some d"
| "bootflash_run ((a, v) # ws) d =
     (case dev_bootflash_access a 1 False v d of None \<Rightarrow> None | Some (_, d') \<Rightarrow> bootflash_run ws d')"

lemma byte_access:
  assumes "fs_mode d = FLASH_MODE_BYTE"
  shows "dev_bootflash_access a 1 False v d =
    (case flash_access_write (fs_nr_flash_bits d) (drop_bit (fs_nr_flash_bits d) a) (ucast v)
            (fs_flash d ! flash_index d a, fs_mem d) of
       None \<Rightarrow> None
     | Some (c, mem) \<Rightarrow> Some (v, d\<lparr>fs_flash := (fs_flash d)[flash_index d a := c], fs_mem := mem\<rparr>))"
  using assms
  by (simp add: dev_bootflash_access_def flash_steps_def mode_bytes_def flash_d_off_def Let_def
      split: option.splits)

lemma byte_write:
  assumes "chip_ok FLASH_MODE_BYTE (unat a mod 2 ^ nb) c" "unat a < length mem"
  shows "flash_write nb c (drop_bit nb a) v mem = Some (mem[unat a := ucast v])"
proof -
  have "flash_real_offset nb c (drop_bit nb a) = a"
    using assms(1) real_offset [of nb a] by (simp add: flash_real_offset_def chip_ok_def)
  then show ?thesis using assms by (simp add: flash_write_def chip_ok_def mem_put_def)
qed

text \<open>The program command. From the array state, the command, the byte and the command that returns to
  the array leave that byte in the memory and everything else, the states of all chips included, as
  it was.\<close>

theorem bootflash_program:
  assumes "flashset_ok d" "fs_mode d = FLASH_MODE_BYTE" "array_mode d" "unat a < length (fs_mem d)"
  shows "bootflash_run [(a, 0x40), (a, v), (a, 0xFF)] d
           = Some (d\<lparr>fs_mem := (fs_mem d)[unat a := ucast v]\<rparr>)"
proof -
  note fi = flash_index_less [OF assms(1), of a]
  define f where "f = flash_index d a"
  define c where "c = fs_flash d ! f"
  have f: "f < length (fs_flash d)" using fi(2) assms(1) by (simp add: f_def flashset_ok_def)
  have c: "chip_ok FLASH_MODE_BYTE (unat a mod 2 ^ fs_nr_flash_bits d) c" "fc_state c = FLASH_CMD_READ_ARRAY"
    using assms(1-3) fi f by (auto simp: flashset_ok_def array_mode_def c_def f_def)
  have sh: "fc_offset_shift c = 0" using c(1) by (simp add: chip_ok_def mode_bytes_def)
  let ?d1 = "d\<lparr>fs_flash := (fs_flash d)[f := c\<lparr>fc_state := FLASH_CMD_WB_PROG\<rparr>]\<rparr>"
  let ?m = "(fs_mem d)[unat a := ucast v]"
  let ?d2 = "d\<lparr>fs_flash := (fs_flash d)[f := c\<lparr>fc_state := FLASH_CMD_WB_PROG_DONE\<rparr>], fs_mem := ?m\<rparr>"
  have idx: "flash_index ?d1 a = f" "flash_index ?d2 a = f" by (simp_all add: flash_index_def f_def)
  have 1: "dev_bootflash_access a 1 False 0x40 d = Some (0x40, ?d1)"
    unfolding byte_access [OF assms(2)] f_def [symmetric] c_def [symmetric]
    by (simp add: flash_access_write_def c(2) sh flash_cmd_def)
  have w: "flash_write (fs_nr_flash_bits d) (c\<lparr>fc_state := FLASH_CMD_WB_PROG\<rparr>)
      (drop_bit (fs_nr_flash_bits d) a) (ucast v) (fs_mem d) = Some ?m"
  proof -
    have "(ucast (ucast v :: u32) :: u8) = ucast v" by (rule bit_word_eqI) (auto simp: bit_simps)
    then show ?thesis using byte_write [of a "fs_nr_flash_bits d" "c\<lparr>fc_state := FLASH_CMD_WB_PROG\<rparr>" "fs_mem
        d" "ucast v"] c(1) assms(4) by simp
  qed
  have 2: "dev_bootflash_access a 1 False v ?d1 = Some (v, ?d2)"
    using byte_access [of ?d1 a v] assms(2) f idx w
    by (simp add: flash_access_write_def sh)
  have c0: "c\<lparr>fc_state := FLASH_CMD_READ_ARRAY\<rparr> = c" by (simp flip: c(2))
  have 3: "dev_bootflash_access a 1 False 0xFF ?d2 = Some (0xFF, d\<lparr>fs_flash := (fs_flash d)[f := c],
      fs_mem := ?m\<rparr>)"
    using byte_access [of ?d2 a "0xFF"] assms(2) f idx c0
    by (simp add: flash_access_write_def sh flash_cmd_def)
  have "(fs_flash d)[f := c] = fs_flash d" by (simp add: c_def)
  then show ?thesis by (simp add: 1 2 3 del: One_nat_def)
qed

section \<open>Buffered programming\<close>

text \<open>Writes to one chip, at addresses of the chip.\<close>

fun chip_run :: "nat \<Rightarrow> (u32 \<times> u32) list \<Rightarrow> flash_chip \<times> u8 list \<Rightarrow> (flash_chip \<times> u8 list) option" where
  "chip_run nb [] s = Some s"
| "chip_run nb ((offset, v) # ws) s =
     (case flash_access_write nb offset v s of None \<Rightarrow> None | Some s' \<Rightarrow> chip_run nb ws s')"

lemma chip_run_append:
  "chip_run nb (xs @ ys) s = (case chip_run nb xs s of None \<Rightarrow> None | Some s' \<Rightarrow> chip_run nb ys s')"
  by (induction xs arbitrary: s) (auto split: option.splits)

text \<open>The bytes of one chip lie \<open>step\<close> apart.\<close>

fun stride_write :: "nat \<Rightarrow> nat \<Rightarrow> u32 list \<Rightarrow> u8 list \<Rightarrow> u8 list" where
  "stride_write a step [] mem = mem"
| "stride_write a step (v # vs) mem = stride_write (a + step) step vs (mem[a := ucast v])"

definition fill_writes :: "u32 \<Rightarrow> u32 list \<Rightarrow> (u32 \<times> u32) list" where
  "fill_writes offset vs = map (\<lambda>k. (offset + of_nat k, vs ! k)) [0..<length vs]"

text \<open>Filling the write buffer: each write stores one element and the last one asks for confirmation.\<close>

lemma fill_step:
  assumes "fc_state c = FLASH_CMD_WRITE_BUF_DATA" "fc_offset_shift c = 0" "length (wbuf c) = FLASH_BUF_SIZE"
    and "wb_offset c = offset" "wb_count c = of_nat n" "wb_remain c = of_nat (n - k)"
    and "k < n" "n \<le> FLASH_BUF_SIZE" "unat offset + n < 2 ^ 32"
  shows "flash_access_write nb (offset + of_nat k) v (c, mem)
     = Some (c\<lparr>wbuf := (wbuf c)[k := v], wb_remain := of_nat (n - Suc k),
              fc_state := if Suc k = n then FLASH_CMD_WRITE_BUF_CONFIRM else FLASH_CMD_WRITE_BUF_DATA\<rparr>, mem)"
proof -
  have u: "unat (of_nat m :: u32) = m" if "m \<le> 32" for m using that by (simp add: unat_of_nat)
  have n: "n \<le> 32" using assms(8) by (simp add: FLASH_BUF_SIZE_def)
  have uk: "unat (offset + of_nat k) = unat offset + k" and un: "unat (offset + of_nat n) = unat offset + n"
    using assms(7,9) n by (simp_all add: unat_word_ariths u)
  have cond: "offset \<le> offset + of_nat k" "offset + of_nat k < offset + of_nat n"
    using assms(7) by (simp_all add: word_le_nat_alt word_less_nat_alt uk un)
  define w :: u32 where "w = of_nat (n - Suc k)"
  have r: "wb_remain c - 1 = w"
    unfolding assms(6) w_def using assms(7) by (simp add: Suc_diff_Suc [symmetric])
  have "unat w = n - Suc k" unfolding w_def using n by (intro u) simp
  then have z: "w = 0 \<longleftrightarrow> Suc k = n"
    unfolding unat_eq_zero [symmetric] using assms(7) by auto
  have idx: "unat (offset + of_nat k - offset) = k" using assms(7) n by (simp add: u)
  have "flash_buffer_data (offset + of_nat k) v c = Some (c\<lparr>wbuf := (wbuf c)[k := v], wb_remain := w,
      fc_state := if Suc k = n then FLASH_CMD_WRITE_BUF_CONFIRM else FLASH_CMD_WRITE_BUF_DATA\<rparr>)"
    unfolding flash_buffer_data_def assms(4,5) idx using cond assms(1,3,7,8) z by (simp add: r)
  then show ?thesis
    unfolding w_def [symmetric] using assms(1,2) by (simp add: flash_access_write_def)
qed

lemma fill_buffer:
  assumes "fc_state c = FLASH_CMD_WRITE_BUF_DATA" "fc_offset_shift c = 0" "length (wbuf c) = FLASH_BUF_SIZE"
    and "wb_offset c = offset" "wb_count c = of_nat (length vs)" "wb_remain c = of_nat (length vs)"
    and "length vs \<le> FLASH_BUF_SIZE" "unat offset + length vs < 2 ^ 32" "k \<le> length vs" "vs \<noteq> []"
  shows "chip_run nb (take k (fill_writes offset vs)) (c, mem)
     = Some (c\<lparr>wbuf := take k vs @ drop k (wbuf c), wb_remain := of_nat (length vs - k),
              fc_state := if k = length vs then FLASH_CMD_WRITE_BUF_CONFIRM else FLASH_CMD_WRITE_BUF_DATA\<rparr>,
                  mem)"
  using assms(9)
proof (induction k)
  case 0
  have "c = c\<lparr>wbuf := wbuf c, wb_remain := of_nat (length vs), fc_state := FLASH_CMD_WRITE_BUF_DATA\<rparr>"
    using assms(1,6) by simp
  then show ?case using assms(10) by simp
next
  case (Suc k)
  let ?c = "c\<lparr>wbuf := take k vs @ drop k (wbuf c), wb_remain := of_nat (length vs - k),
              fc_state := FLASH_CMD_WRITE_BUF_DATA\<rparr>"
  have k: "k < length vs" using Suc.prems by simp
  have t: "take (Suc k) (fill_writes offset vs) = take k (fill_writes offset vs) @ [(offset + of_nat k,
      vs ! k)]"
    using k by (simp add: fill_writes_def take_Suc_conv_app_nth)
  have IH: "chip_run nb (take k (fill_writes offset vs)) (c, mem) = Some (?c, mem)" using Suc.IH k by simp
  have step: "flash_access_write nb (offset + of_nat k) (vs ! k) (?c, mem)
     = Some (?c\<lparr>wbuf := (wbuf ?c)[k := vs ! k], wb_remain := of_nat (length vs - Suc k),
         fc_state := if Suc k = length vs then FLASH_CMD_WRITE_BUF_CONFIRM else FLASH_CMD_WRITE_BUF_DATA\<rparr>, mem)"
    by (rule fill_step) (use assms k in simp_all)
  have "(wbuf ?c)[k := vs ! k] = take (Suc k) vs @ drop (Suc k) (wbuf c)"
    using k assms(3,7)
    by (simp add: list_update_append take_Suc_conv_app_nth Cons_nth_drop_Suc [symmetric])
  then show ?case unfolding t chip_run_append IH using step by simp
qed

lemma write_all_stride:
  fixes a :: u32
  assumes "chip_ok FLASH_MODE_BYTE (unat a mod 2 ^ nb) c" "length vs \<le> m"
    and "unat a + 2 ^ nb * length vs \<le> length mem" "length mem < 2 ^ 32" "nb < 32"
  shows "flash_write_all nb c (drop_bit nb a) vs mem = Some (stride_write (unat a) (2 ^ nb) vs mem)"
  using assms(1,3,4)
proof (induction vs arbitrary: a mem)
  case (Cons v vs)
  define s :: u32 where "s = of_nat (2 ^ nb)"
  let ?b = "a + s"
  have le: "unat a + 2 ^ nb \<le> length mem" using Cons.prems(2) by (simp add: algebra_simps)
  have "(2 :: nat) ^ nb < 2 ^ 32" using assms(5) by (intro power_strict_increasing) auto
  then have p: "unat s = 2 ^ nb" unfolding s_def by (simp only: unat_of_nat) simp
  have ub: "unat ?b = unat a + 2 ^ nb"
    using le Cons.prems(3) unfolding unat_word_ariths(1) p by simp
  have d: "drop_bit nb ?b = drop_bit nb a + 1"
  proof -
    have e: "unat (drop_bit nb x) = unat x div 2 ^ nb" for x :: u32
    proof -
      have "unat x < 2 ^ LENGTH(32)" by (rule unsigned_less)
      moreover have "unat (drop_bit nb x) = drop_bit nb (take_bit LENGTH(32) (unat x))"
        by (rule unsigned_drop_bit_eq)
      ultimately show ?thesis by (simp add: take_bit_nat_eq_self drop_bit_eq_div)
    qed
    have "unat a div 2 ^ nb + 1 \<le> unat a + 1" by (simp add: div_le_dividend)
    then have "unat (drop_bit nb a + 1) = unat a div 2 ^ nb + 1"
    proof -
      have "1 \<le> (2 :: nat) ^ nb" by simp
      then have "unat a div 2 ^ nb + 1 < 2 ^ 32"
        using le Cons.prems(3) div_le_dividend [of "unat a" "2 ^ nb"] by linarith
      then show ?thesis by (simp add: unat_word_ariths e)
    qed
    moreover have "unat (drop_bit nb ?b) = unat a div 2 ^ nb + 1" unfolding e ub by (simp add: div_add_self2)
    ultimately show ?thesis by (simp only: word_unat_eq_iff)
  qed
  have w: "flash_write nb c (drop_bit nb a) v mem = Some (mem[unat a := ucast v])"
  proof (rule byte_write [OF Cons.prems(1)])
    have "(0 :: nat) < 2 ^ nb" by simp
    then show "unat a < length mem" using le by linarith
  qed
  have "flash_write_all nb c (drop_bit nb ?b) vs (mem[unat a := ucast v])
      = Some (stride_write (unat ?b) (2 ^ nb) vs (mem[unat a := ucast v]))"
    by (rule Cons.IH) (use Cons.prems ub in \<open>simp_all add: algebra_simps\<close>)
  then show ?case by (simp add: w d ub)
qed simp


text \<open>C34: The buffered program command of one chip, at byte address \<open>a\<close> of the set: the command, the number
  of elements less one, the elements at consecutive addresses of the chip and the confirmation store
  the elements \<open>2 ^ nb\<close> bytes apart from \<open>a\<close> on, change nothing else in the memory, and leave the
  chip in the array state.\<close>

theorem bootflash_buffered_write:
  fixes a :: u32
  assumes "chip_ok FLASH_MODE_BYTE (unat a mod 2 ^ nb) c" "fc_state c = FLASH_CMD_READ_ARRAY"
    and "vs \<noteq> []" "length vs \<le> FLASH_BUF_SIZE" "nb < 32"
    and "unat a + 2 ^ nb * length vs \<le> length mem" "length mem < 2 ^ 32"
  defines "o' \<equiv> drop_bit nb a"
  shows "\<exists>c'. chip_run nb ((o', 0xE8) # (o', of_nat (length vs - 1)) # fill_writes o' vs @ [(o', 0xD0)]) (c,
      mem)
                 = Some (c', stride_write (unat a) (2 ^ nb) vs mem)
               \<and> chip_ok FLASH_MODE_BYTE (unat a mod 2 ^ nb) c' \<and> fc_state c' = FLASH_CMD_READ_ARRAY"
proof -
  let ?n = "length vs"
  note ok = assms(1) [unfolded chip_ok_def]
  have sh: "fc_offset_shift c = 0" using ok by (simp add: mode_bytes_def)
  let ?c1 = "c\<lparr>fc_state := FLASH_CMD_WRITE_BUF_CNT, wb_offset := o', wb_count := 0, wb_remain := 0\<rparr>"
  let ?c2 = "?c1\<lparr>wb_count := of_nat ?n, wb_remain := of_nat ?n, fc_state := FLASH_CMD_WRITE_BUF_DATA\<rparr>"
  have 1: "flash_access_write nb o' 0xE8 (c, mem) = Some (?c1, mem)"
    by (simp add: flash_access_write_def assms(2) sh flash_cmd_def)
  have n: "1 \<le> ?n" "?n \<le> 32" using assms(3,4) by (simp_all add: FLASH_BUF_SIZE_def Suc_leI)
  have "(of_nat (?n - 1) :: u32) AND 0x1F = take_bit 5 (of_nat (?n - 1))"
    by (simp add: take_bit_eq_mask mask_eq_exp_minus_1)
  also have "\<dots> = of_nat (?n - 1)"
  proof (rule take_bit_self_of_less)
    have "unat (of_nat (?n - 1) :: u32) = ?n - 1" using n by (simp only: unat_of_nat) simp
    then show "unat (of_nat (?n - 1) :: u32) < 2 ^ 5" using n by simp
  qed
  finally have cnt: "((of_nat (?n - 1) :: u32) AND 0x1F) + 1 = of_nat ?n"
    using n by (metis add.commute le_add_diff_inverse of_nat_1 of_nat_add)
  have 2: "flash_access_write nb o' (of_nat (?n - 1)) (?c1, mem) = Some (?c2, mem)"
    unfolding flash_access_write_def prod.case Let_def cnt by (simp add: sh)
  let ?c3 = "?c2\<lparr>wbuf := vs @ drop ?n (wbuf c), wb_remain := 0, fc_state := FLASH_CMD_WRITE_BUF_CONFIRM\<rparr>"
  have len: "unat o' + ?n < 2 ^ 32"
  proof -
    have "unat o' \<le> unat a"
    proof -
      have "unat (drop_bit nb a) = drop_bit nb (take_bit LENGTH(32) (unat a))" by (rule unsigned_drop_bit_eq)
      moreover have "take_bit LENGTH(32) (unat a) = unat a" by (rule take_bit_nat_eq_self) (rule unsigned_less)
      ultimately show ?thesis by (simp add: o'_def drop_bit_eq_div)
    qed
    moreover have "?n \<le> 2 ^ nb * ?n" by simp
    ultimately show ?thesis using assms(6,7) by linarith
  qed
  have "chip_run nb (take ?n (fill_writes o' vs)) (?c2, mem) = Some
     (?c2\<lparr>wbuf := take ?n vs @ drop ?n (wbuf ?c2), wb_remain := of_nat (?n - ?n),
          fc_state := if ?n = ?n then FLASH_CMD_WRITE_BUF_CONFIRM else FLASH_CMD_WRITE_BUF_DATA\<rparr>, mem)"
    by (rule fill_buffer) (use sh ok assms(3,4) len in simp_all)
  then have 3: "chip_run nb (fill_writes o' vs) (?c2, mem) = Some (?c3, mem)"
    by (simp add: fill_writes_def)
  have u: "unat (of_nat ?n :: u32) = ?n" using n by (simp add: unat_of_nat)
  have ok3: "chip_ok FLASH_MODE_BYTE (unat a mod 2 ^ nb) ?c3"
    using ok assms(4) u by (simp add: chip_ok_def)
  have "flash_write_all nb ?c3 o' vs mem = Some (stride_write (unat a) (2 ^ nb) vs mem)"
    unfolding o'_def by (rule write_all_stride [OF ok3 [unfolded o'_def] order_refl assms(6,7,5)])
  then have 4: "flash_access_write nb o' 0xD0 (?c3, mem)
      = Some (?c3\<lparr>fc_state := FLASH_CMD_READ_ARRAY\<rparr>, stride_write (unat a) (2 ^ nb) vs mem)"
    using sh u ok assms(4) by (simp add: flash_access_write_def)
  have "chip_run nb ((o', 0xE8) # (o', of_nat (?n - 1)) # fill_writes o' vs @ [(o', 0xD0)]) (c, mem)
      = Some (?c3\<lparr>fc_state := FLASH_CMD_READ_ARRAY\<rparr>, stride_write (unat a) (2 ^ nb) vs mem)"
    unfolding chip_run.simps 1 2 option.case chip_run_append 3 4 ..
  moreover have "chip_ok FLASH_MODE_BYTE (unat a mod 2 ^ nb) (?c3\<lparr>fc_state := FLASH_CMD_READ_ARRAY\<rparr>)"
    using ok3 by simp
  moreover have "fc_state (?c3\<lparr>fc_state := FLASH_CMD_READ_ARRAY\<rparr>) = FLASH_CMD_READ_ARRAY" by simp
  ultimately show ?thesis by blast
qed

inductive bootflash_step :: "flashset \<Rightarrow> flashset \<Rightarrow> bool" where
  access: "dev_bootflash_access a n rd v d = Some (w, d') \<Longrightarrow> bootflash_step d d'"

inductive_cases bootflash_stepE: "bootflash_step d d'"

lemma bootflash_reachable:
  assumes "dev_bootflash_init model mem = Some d0" "bootflash_step\<^sup>*\<^sup>* d0 d"
  shows "flashset_ok d \<and> length (fs_mem d) = length mem"
proof -
  have "flashset_ok d0 \<and> length (fs_mem d0) = length mem"
  proof -
    from assms(1) obtain fm where fm: "flash_model_find model = Some fm"
      "d0 = flashset_init (fm_mode fm) (fm_nr_flash_bits fm) (fm_blk_size fm) (fm_id_manufacturer fm)
              (fm_id_device fm) mem"
      by (auto simp: dev_bootflash_init_def)
    then have "fm \<in> set flash_models" by (auto simp: flash_model_find_def find_Some_iff in_set_conv_nth)
    then have "2 ^ fm_nr_flash_bits fm \<le> MAX_FLASH" by (auto simp: flash_models_def MAX_FLASH_def)
    then show ?thesis using flashset_init_ok by (simp add: fm(2)) (simp add: flashset_init_def)
  qed
  with assms(2) show ?thesis
  proof (induction rule: rtranclp_induct)
    case (step d d')
    from step.hyps(2) obtain a n rd v w where "dev_bootflash_access a n rd v d = Some (w, d')"
      by (rule bootflash_stepE)
    with step.IH [OF step.prems] show ?case
      by (auto simp: dev_bootflash_access_def split: if_splits
          dest: bootflash_read_ok bootflash_write_ok)
  qed simp
qed

text \<open>C33: Over any sequence of accesses to a new flash set, of any model, the chips stay well-formed, the
  memory keeps its size, and the next access to any chip never indexes outside its write buffer,
  neither to fill it nor to program it.\<close>

theorem bootflash_invariant:
  assumes "dev_bootflash_init model mem = Some d0" "bootflash_step\<^sup>*\<^sup>* d0 d" "c \<in> set (fs_flash d)"
  shows "flashset_ok d \<and> length (fs_mem d) = length mem
       \<and> flash_buffer_data offset v c \<noteq> None \<and> unat (wb_count c) \<le> length (wbuf c)"
proof -
  have d: "flashset_ok d \<and> length (fs_mem d) = length mem" by (rule bootflash_reachable) (rule assms)+
  then obtain i where "chip_ok (fs_mode d) i c"
    using assms(3) by (auto simp: flashset_ok_def in_set_conv_nth)
  moreover from this have "flash_buffer_data offset v c \<noteq> None" using buffer_data_ok by blast
  ultimately show ?thesis using d by (simp add: chip_ok_def)
qed

section \<open>Instances\<close>

definition demo_flash :: flashset where
  "demo_flash = flashset_init FLASH_MODE_BYTE 1 0x10000 0x89 0xA0 [1, 2, 3, 4, 5, 6, 7, 8]"

lemma demo_flash_facts:
  "flashset_ok demo_flash" "fs_mode demo_flash = FLASH_MODE_BYTE" "array_mode demo_flash"
  "fs_mem demo_flash = [1, 2, 3, 4, 5, 6, 7, 8]"
  unfolding demo_flash_def
  by (simp_all add: flashset_init_ok MAX_FLASH_def)
     (simp_all add: flashset_init_def array_mode_def flash_new_def)

theorem bootflash_array_read_witness:
  "dev_bootflash_access 2 4 True 0 demo_flash = Some (0x03040506, demo_flash)"
  using bootflash_array_read [OF demo_flash_facts(1-3), of 2 4 0]
  by (simp add: demo_flash_facts(4))

theorem bootflash_program_witness:
  "bootflash_run [(5, 0x40), (5, 0xAB), (5, 0xFF)] demo_flash
     = Some (demo_flash\<lparr>fs_mem := [1, 2, 3, 4, 5, 0xAB, 7, 8]\<rparr>)"
  using bootflash_program [OF demo_flash_facts(1-3), of 5 "0xAB"]
  by (simp add: demo_flash_facts(4))

theorem bootflash_buffered_write_witness:
  "\<exists>c'. chip_run 1 [(1, 0xE8), (1, 1), (1, 0xA), (2, 0xB), (1, 0xD0)] (fs_flash demo_flash ! 1,
      fs_mem demo_flash)
           = Some (c', [1, 2, 3, 0xA, 5, 0xB, 7, 8])"
proof -
  let ?c = "fs_flash demo_flash ! 1"
  have c: "?c = flash_new FLASH_MODE_BYTE 0x10000 0x89 0xA0 1"
    unfolding demo_flash_def flashset_init_def by (simp add: upt_rec)
  have "\<exists>c'. chip_run 1 ((drop_bit 1 3, 0xE8) # (drop_bit 1 3, of_nat (length [0xA, 0xB :: u32] - 1))
        # fill_writes (drop_bit 1 3) [0xA, 0xB] @ [(drop_bit 1 3, 0xD0)]) (?c, fs_mem demo_flash)
      = Some (c', stride_write (unat (3 :: u32)) (2 ^ 1) [0xA, 0xB] (fs_mem demo_flash))
      \<and> chip_ok FLASH_MODE_BYTE (unat (3 :: u32) mod 2 ^ 1) c' \<and> fc_state c' = FLASH_CMD_READ_ARRAY"
    by (rule bootflash_buffered_write)
       (unfold c, simp_all add: chip_ok_def flash_new_def FLASH_BUF_SIZE_def mode_bytes_def demo_flash_facts(4))
  moreover have "drop_bit 1 3 = (1 :: u32)" by (simp add: drop_bit_Suc)
  ultimately show ?thesis
    by (auto simp: fill_writes_def demo_flash_facts(4))
qed

theorem bootflash_invariant_witness:
  "\<exists>d0 d. dev_bootflash_init ''c7200-bootflash-8mb'' [1, 2, 3] = Some d0 \<and> bootflash_step d0 d
     \<and> fc_state (fs_flash d ! 0) = FLASH_CMD_WRITE_BUF_CNT \<and> flashset_ok d \<and> length (fs_mem d) = 3"
proof -
  let ?new = "flashset_init FLASH_MODE_BYTE 2 0x10000 0x89 0xA0 [1, 2, 3]"
  let ?c = "(flash_new FLASH_MODE_BYTE 0x10000 0x89 0xA0 0)\<lparr>fc_state := FLASH_CMD_WRITE_BUF_CNT\<rparr>"
  let ?d = "?new\<lparr>fs_flash := (fs_flash ?new)[0 := ?c]\<rparr>"
  have i: "dev_bootflash_init ''c7200-bootflash-8mb'' [1, 2, 3] = Some ?new"
    by (simp add: dev_bootflash_init_def flash_model_find_def flash_models_def)
  have "dev_bootflash_access 0 1 False 0xE8 ?new = Some (0xE8, ?d)"
    by (simp add: dev_bootflash_access_def flash_steps_def mode_bytes_def flash_d_off_def flash_index_def
        flashset_init_def flash_new_def flash_access_write_def flash_cmd_def upt_rec)
  then have s: "bootflash_step ?new ?d" by (rule bootflash_step.access)
  have c: "fs_flash ?d ! 0 = ?c" "?c \<in> set (fs_flash ?d)" by (simp_all add: flashset_init_def upt_rec)
  have "flashset_ok ?d \<and> length (fs_mem ?d) = 3"
    using bootflash_invariant [OF i r_into_rtranclp [of bootflash_step, OF s] c(2), of 0 0] by simp
  moreover have "fc_state (fs_flash ?d ! 0) = FLASH_CMD_WRITE_BUF_CNT" unfolding c(1) by simp
  ultimately show ?thesis using i s by blast
qed

end
