(* ===== verification/PciDev.thy ===== *)
theory PciDev
  imports Device
begin

text \<open>
  PCI buses, bridges and devices (\<open>common/pci_dev.c\<close>, \<open>pci_dev.h\<close>), the configuration space behind the
  address and data registers, and the PCI I/O space (\<open>common/pci_io.c\<close>).

  The structures are records at addresses. A device list or bridge list is the list of the addresses in
  order; \<open>pd_bus\<close> and \<open>br_on\<close> name the bus whose list \<open>pprev\<close> points into. The configuration handlers of
  the devices other than bridges are a parameter and act on a state of their own, \<open>pci_out\<close>. Arguments of
  type \<open>nat option\<close> are the result of \<open>malloc\<close>.
\<close>

section \<open>Data\<close>

type_synonym bus_ptr = nat
type_synonym bridge_ptr = nat
type_synonym pci_ptr = nat

datatype 'h reg_fn = Reg_bridge | Reg_fn 'h

record 'h pci_device =
  pd_name :: string
  vendor_id :: u32
  product_id :: u32
  pd_device :: int
  pd_function :: int
  pd_irq :: int
  pd_priv :: nat
  pd_bus :: bus_ptr
  read_register :: "'h reg_fn option"
  write_register :: "'h reg_fn option"

record pci_bus =
  pb_name :: string
  pci_addr :: u32
  pb_bus :: int
  pb_devs :: "pci_ptr list"
  pb_bridges :: "bridge_ptr list"

record 'h pci_bridge =
  pri_bus :: int
  sec_bus :: int
  sub_bus :: int
  skip_bus_check :: bool
  cfg_reg_bus :: u32
  br_dev :: "pci_ptr option"
  br_bus :: "bus_ptr option"
  fallback_read :: "'h option"
  fallback_write :: "'h option"
  br_on :: bus_ptr

record ('h, 's) pci =
  buses :: "bus_ptr \<Rightarrow> pci_bus"
  bridges :: "bridge_ptr \<Rightarrow> 'h pci_bridge"
  pdevs :: "pci_ptr \<Rightarrow> 'h pci_device"
  pci_out :: 's

record ('h, 's) pci_env =
  pe_init :: "'h \<Rightarrow> pci_ptr \<Rightarrow> 's \<Rightarrow> 's"
  pe_read :: "'h \<Rightarrow> pci_ptr \<Rightarrow> int \<Rightarrow> 's \<Rightarrow> u32 \<times> 's"
  pe_write :: "'h \<Rightarrow> pci_ptr \<Rightarrow> int \<Rightarrow> u32 \<Rightarrow> 's \<Rightarrow> 's"

abbreviation (input) PCI_REG_ID :: int where "PCI_REG_ID \<equiv> 0"

abbreviation set_bus :: "bus_ptr \<Rightarrow> pci_bus \<Rightarrow> ('h, 's) pci \<Rightarrow> ('h, 's) pci" where
  "set_bus p b s \<equiv> s\<lparr>buses := (buses s)(p := b)\<rparr>"

abbreviation set_bridge :: "bridge_ptr \<Rightarrow> 'h pci_bridge \<Rightarrow> ('h, 's) pci \<Rightarrow> ('h, 's) pci" where
  "set_bridge p b s \<equiv> s\<lparr>bridges := (bridges s)(p := b)\<rparr>"

section \<open>Bridges\<close>

definition pci_bridge_set_bus_info :: "bridge_ptr \<Rightarrow> int \<Rightarrow> int \<Rightarrow> int \<Rightarrow> ('h, 's) pci \<Rightarrow> ('h, 's) pci" where
  "pci_bridge_set_bus_info b pri sec sub s =
     (let s = set_bridge b ((bridges s b)\<lparr>pri_bus := pri, sec_bus := sec, sub_bus := sub\<rparr>) s in
      case br_bus (bridges s b) of None \<Rightarrow> s
      | Some q \<Rightarrow> set_bus q ((buses s q)\<lparr>pb_bus := sec_bus (bridges s b)\<rparr>) s)"

definition pci_bridge_map_bus :: "bridge_ptr \<Rightarrow> bus_ptr option \<Rightarrow> ('h, 's) pci \<Rightarrow> ('h, 's) pci" where
  "pci_bridge_map_bus b bus s =
     (let s = set_bridge b ((bridges s b)\<lparr>br_bus := bus\<rparr>) s in
      case bus of None \<Rightarrow> s
      | Some q \<Rightarrow> set_bus q ((buses s q)\<lparr>pb_bus := sec_bus (bridges s b)\<rparr>) s)"

definition pci_bridge_add ::
    "bridge_ptr option \<Rightarrow> bus_ptr option \<Rightarrow> ('h, 's) pci \<Rightarrow> bridge_ptr option \<times> ('h, 's) pci" where
  "pci_bridge_add m bus s =
     (case bus of None \<Rightarrow> (None, s)
      | Some p \<Rightarrow>
      case m of None \<Rightarrow> (None, s)
      | Some b \<Rightarrow>
          (let s = set_bridge b \<lparr>pri_bus = pb_bus (buses s p), sec_bus = - 1, sub_bus = - 1,
                     skip_bus_check = False, cfg_reg_bus = 0, br_dev = None, br_bus = None,
                     fallback_read = None, fallback_write = None, br_on = p\<rparr> s
           in (Some b, set_bus p ((buses s p)\<lparr>pb_bridges := b # pb_bridges (buses s p)\<rparr>) s)))"

definition pci_bridge_remove :: "bridge_ptr \<Rightarrow> ('h, 's) pci \<Rightarrow> ('h, 's) pci" where
  "pci_bridge_remove b s =
     (let p = br_on (bridges s b) in
      set_bus p ((buses s p)\<lparr>pb_bridges := remove1 b (pb_bridges (buses s p))\<rparr>) s)"

section \<open>Lookup\<close>

definition bridge_takes :: "int \<Rightarrow> 'h pci_bridge \<Rightarrow> bool" where
  "bridge_takes bus b \<longleftrightarrow> skip_bus_check b \<or> sec_bus b \<le> bus \<and> bus \<le> sub_bus b"

text \<open>The outer \<open>None\<close>: the search goes round in circles.\<close>

partial_function (option) pci_bus_lookup ::
    "bus_ptr option \<Rightarrow> int \<Rightarrow> ('h, 's) pci \<Rightarrow> (bus_ptr option \<times> ('h, 's) pci) option" where
  "pci_bus_lookup cur bus s =
     (case cur of None \<Rightarrow> Some (None, s)
      | Some p \<Rightarrow>
          if pb_bus (buses s p) = bus then Some (Some p, s)
          else
            (case find (\<lambda>b. bridge_takes bus (bridges s b)) (pb_bridges (buses s p)) of
               None \<Rightarrow> Some (None, s)
             | Some b \<Rightarrow>
                 if skip_bus_check (bridges s b) then
                   (let s = pci_bridge_set_bus_info b (pb_bus (buses s p)) bus bus s;
                        s = set_bridge b ((bridges s b)\<lparr>skip_bus_check := False\<rparr>) s
                    in Some (br_bus (bridges s b), s))
                 else pci_bus_lookup (br_bus (bridges s b)) bus s))"

definition pci_dev_lookup_local :: "bus_ptr \<Rightarrow> int \<Rightarrow> int \<Rightarrow> ('h, 's) pci \<Rightarrow> pci_ptr option" where
  "pci_dev_lookup_local p device function s =
     find (\<lambda>d. pd_device (pdevs s d) = device \<and> pd_function (pdevs s d) = function) (pb_devs (buses s p))"

definition pci_dev_lookup ::
    "bus_ptr \<Rightarrow> int \<Rightarrow> int \<Rightarrow> int \<Rightarrow> ('h, 's) pci \<Rightarrow> (pci_ptr option \<times> ('h, 's) pci) option" where
  "pci_dev_lookup root bus device function s =
     (case pci_bus_lookup (Some root) bus s of None \<Rightarrow> None
      | Some (None, s) \<Rightarrow> Some (None, s)
      | Some (Some p, s) \<Rightarrow> Some (pci_dev_lookup_local p device function s, s))"

section \<open>Devices\<close>

definition pci_dev_add :: "('h, 's) pci_env \<Rightarrow> pci_ptr option \<Rightarrow> bus_ptr option \<Rightarrow> string \<Rightarrow> u32 \<Rightarrow> u32 \<Rightarrow> int \<Rightarrow> int \<Rightarrow>
    int \<Rightarrow> nat \<Rightarrow> 'h option \<Rightarrow> 'h reg_fn option \<Rightarrow> 'h reg_fn option \<Rightarrow> ('h, 's) pci \<Rightarrow>
    pci_ptr option \<times> ('h, 's) pci" where
  "pci_dev_add env m bus name vendor product device function irq priv init rd wr s =
     (case bus of None \<Rightarrow> (None, s)
      | Some p \<Rightarrow>
      if pci_dev_lookup_local p device function s \<noteq> None then (None, s)
      else case m of None \<Rightarrow> (None, s)
      | Some d \<Rightarrow>
          (let s = s\<lparr>pdevs := (pdevs s)(d := \<lparr>pd_name = name, vendor_id = vendor, product_id = product,
                     pd_device = device, pd_function = function, pd_irq = irq, pd_priv = priv, pd_bus = p,
                     read_register = rd, write_register = wr\<rparr>)\<rparr>;
               s = set_bus p ((buses s p)\<lparr>pb_devs := d # pb_devs (buses s p)\<rparr>) s;
               s = (case init of None \<Rightarrow> s | Some h \<Rightarrow> s\<lparr>pci_out := pe_init env h d (pci_out s)\<rparr>)
           in (Some d, s)))"

definition pci_dev_add_basic :: "('h, 's) pci_env \<Rightarrow> pci_ptr option \<Rightarrow> bus_ptr option \<Rightarrow> string \<Rightarrow> u32 \<Rightarrow> u32 \<Rightarrow>
    int \<Rightarrow> int \<Rightarrow> ('h, 's) pci \<Rightarrow> pci_ptr option \<times> ('h, 's) pci" where
  "pci_dev_add_basic env m bus name vendor product device function =
     pci_dev_add env m bus name vendor product device function (- 1) 0 None None None"

definition pci_dev_remove :: "pci_ptr \<Rightarrow> ('h, 's) pci \<Rightarrow> ('h, 's) pci" where
  "pci_dev_remove d s =
     (let p = pd_bus (pdevs s d) in
      set_bus p ((buses s p)\<lparr>pb_devs := remove1 d (pb_devs (buses s p))\<rparr>) s)"

definition pci_dev_remove_by_id ::
    "bus_ptr \<Rightarrow> int \<Rightarrow> int \<Rightarrow> int \<Rightarrow> ('h, 's) pci \<Rightarrow> (int \<times> ('h, 's) pci) option" where
  "pci_dev_remove_by_id root bus device function s =
     (case pci_dev_lookup root bus device function s of None \<Rightarrow> None
      | Some (None, s) \<Rightarrow> Some (- 1, s)
      | Some (Some d, s) \<Rightarrow> Some (0, pci_dev_remove d s))"

fun pci_remove_named :: "string \<Rightarrow> pci_ptr list \<Rightarrow> int \<Rightarrow> ('h, 's) pci \<Rightarrow> int \<times> ('h, 's) pci" where
  "pci_remove_named name [] count s = (count, s)"
| "pci_remove_named name (d # ds) count s =
     (if pd_name (pdevs s d) = name then pci_remove_named name ds (count + 1) (pci_dev_remove d s)
      else pci_remove_named name ds count s)"

definition pci_dev_remove_by_name :: "bus_ptr \<Rightarrow> string \<Rightarrow> ('h, 's) pci \<Rightarrow> int \<times> ('h, 's) pci" where
  "pci_dev_remove_by_name p name s = pci_remove_named name (pb_devs (buses s p)) 0 s"

definition pci_bus_create :: "bus_ptr option \<Rightarrow> string \<Rightarrow> int \<Rightarrow> ('h, 's) pci \<Rightarrow> bus_ptr option \<times> ('h,
    's) pci" where
  "pci_bus_create m name bus s =
     (case m of None \<Rightarrow> (None, s)
      | Some p \<Rightarrow> (Some p, set_bus p \<lparr>pb_name = name, pci_addr = 0, pb_bus = bus, pb_devs = [],
          pb_bridges = []\<rparr> s))"

section \<open>Bridge devices\<close>

definition call_read :: "('h, 's) pci_env \<Rightarrow> 'h \<Rightarrow> pci_ptr \<Rightarrow> int \<Rightarrow> ('h, 's) pci \<Rightarrow> u32 \<times> ('h, 's) pci" where
  "call_read env h d reg s = (case pe_read env h d reg (pci_out s) of (v, out) \<Rightarrow> (v, s\<lparr>pci_out := out\<rparr>))"

definition call_write :: "('h, 's) pci_env \<Rightarrow> 'h \<Rightarrow> pci_ptr \<Rightarrow> int \<Rightarrow> u32 \<Rightarrow> ('h, 's) pci \<Rightarrow> ('h, 's) pci" where
  "call_write env h d reg v s = s\<lparr>pci_out := pe_write env h d reg v (pci_out s)\<rparr>"

definition pci_bridge_read_reg :: "('h, 's) pci_env \<Rightarrow> pci_ptr \<Rightarrow> int \<Rightarrow> ('h, 's) pci \<Rightarrow> u32 \<times> ('h, 's) pci" where
  "pci_bridge_read_reg env d reg s =
     (let b = pd_priv (pdevs s d) in
      if reg = 0x18 then (cfg_reg_bus (bridges s b), s)
      else
        (let (val, s) = (case fallback_read (bridges s b) of None \<Rightarrow> (0, s)
                         | Some h \<Rightarrow> call_read env h d reg s)
         in (if reg = 0x08 \<and> val = 0 then 0x06040000 else val, s)))"

definition pci_bridge_write_reg :: "('h, 's) pci_env \<Rightarrow> pci_ptr \<Rightarrow> int \<Rightarrow> u32 \<Rightarrow> ('h, 's) pci \<Rightarrow> ('h, 's) pci" where
  "pci_bridge_write_reg env d reg val s =
     (let b = pd_priv (pdevs s d) in
      if reg = 0x18 then
        (let s = set_bridge b ((bridges s b)\<lparr>cfg_reg_bus := val\<rparr>) s;
             sub = uint (drop_bit 16 val AND 0xFF);
             sec = uint (drop_bit 8 val AND 0xFF);
             pri = uint (val AND 0xFF)
         in pci_bridge_set_bus_info b pri sec sub s)
      else (case fallback_write (bridges s b) of None \<Rightarrow> s | Some h \<Rightarrow> call_write env h d reg val s))"

text \<open>\<open>mb\<close> and \<open>md\<close> are the addresses for the bridge and for its device.\<close>

definition pci_bridge_create_dev :: "('h, 's) pci_env \<Rightarrow> bridge_ptr option \<Rightarrow> pci_ptr option \<Rightarrow> bus_ptr option \<Rightarrow>
    string \<Rightarrow> u32 \<Rightarrow> u32 \<Rightarrow> int \<Rightarrow> int \<Rightarrow> bus_ptr option \<Rightarrow> 'h option \<Rightarrow> 'h option \<Rightarrow> ('h, 's) pci \<Rightarrow>
    pci_ptr option \<times> ('h, 's) pci" where
  "pci_bridge_create_dev env mb md bus name vendor product device function secondary fb_read fb_write s =
     (case pci_bridge_add mb bus s of (None, s) \<Rightarrow> (None, s)
      | (Some b, s) \<Rightarrow>
          (case pci_dev_add env md bus name vendor product device function (- 1) b None
                  (Some Reg_bridge) (Some Reg_bridge) s of
             (None, s) \<Rightarrow> (None, pci_bridge_remove b s)
           | (Some d, s) \<Rightarrow>
               (let s = set_bridge b ((bridges s b)\<lparr>br_dev := Some d\<rparr>) s;
                    s = set_bridge b ((bridges s b)\<lparr>fallback_read := fb_read, fallback_write := fb_write\<rparr>) s
                in (Some d, pci_bridge_map_bus b secondary s))))"

text \<open>\<open>dev_dec21050_init\<close> and its siblings (\<open>common/dev_dec21x50.c\<close>) differ in name and product.\<close>

definition dec21x50_init :: "string \<Rightarrow> u32 \<Rightarrow> ('h, 's) pci_env \<Rightarrow> bridge_ptr option \<Rightarrow> pci_ptr option \<Rightarrow>
    bus_ptr option \<Rightarrow> int \<Rightarrow> bus_ptr option \<Rightarrow> ('h, 's) pci \<Rightarrow> int \<times> ('h, 's) pci" where
  "dec21x50_init name product env mb md bus device secondary s =
     (case pci_bridge_create_dev env mb md bus name 0x1011 product device 0 secondary None None s of
        (d, s) \<Rightarrow> (if d \<noteq> None then 0 else - 1, s))"

definition dev_dec21050_init where "dev_dec21050_init = dec21x50_init ''dec21050'' 0x0001"
definition dev_dec21052_init where "dev_dec21052_init = dec21x50_init ''dec21052'' 0x0021"
definition dev_dec21150_init where "dev_dec21150_init = dec21x50_init ''dec21150'' 0x0023"
definition dev_dec21152_init where "dev_dec21152_init = dec21x50_init ''dec21152'' 0x0024"
definition dev_dec21154_init where "dev_dec21154_init = dec21x50_init ''dec21154'' 0x0026"

section \<open>Configuration space\<close>

definition pci_swap :: "u32 \<Rightarrow> bool \<Rightarrow> u32" where
  "pci_swap val swap = (if swap then swap32 val else val)"

definition GET_PCI_ADDR :: "u32 \<Rightarrow> nat \<Rightarrow> u32 \<Rightarrow> int" where
  "GET_PCI_ADDR addr offset m = uint (drop_bit offset addr AND m)"

definition pci_dev_addr_handler ::
    "bus_ptr \<Rightarrow> mts_op \<Rightarrow> bool \<Rightarrow> u64 \<Rightarrow> ('h, 's) pci \<Rightarrow> u64 \<times> ('h, 's) pci" where
  "pci_dev_addr_handler p op_type swap data s =
     (case op_type of
        MTS_WRITE \<Rightarrow> (data, set_bus p ((buses s p)\<lparr>pci_addr := pci_swap (ucast data) swap\<rparr>) s)
      | MTS_READ \<Rightarrow> (ucast (pci_swap (pci_addr (buses s p)) swap), s))"

definition pci_dev_write_reg ::
    "('h, 's) pci_env \<Rightarrow> pci_ptr \<Rightarrow> int \<Rightarrow> u32 \<Rightarrow> ('h, 's) pci \<Rightarrow> ('h, 's) pci" where
  "pci_dev_write_reg env d reg val s =
     (case write_register (pdevs s d) of None \<Rightarrow> s
      | Some Reg_bridge \<Rightarrow> pci_bridge_write_reg env d reg val s
      | Some (Reg_fn h) \<Rightarrow> call_write env h d reg val s)"

text \<open>The value of \<open>*data\<close> after the read, which starts as zero.\<close>

definition pci_dev_read_reg ::
    "('h, 's) pci_env \<Rightarrow> pci_ptr \<Rightarrow> int \<Rightarrow> bool \<Rightarrow> ('h, 's) pci \<Rightarrow> u64 \<times> ('h, 's) pci" where
  "pci_dev_read_reg env d reg swap s =
     (if reg = PCI_REG_ID
      then (ucast (pci_swap (push_bit 16 (product_id (pdevs s d)) OR vendor_id (pdevs s d)) swap), s)
      else
        (case read_register (pdevs s d) of None \<Rightarrow> (0, s)
         | Some Reg_bridge \<Rightarrow> (case pci_bridge_read_reg env d reg s of (v, s) \<Rightarrow> (ucast (pci_swap v swap), s))
         | Some (Reg_fn h) \<Rightarrow> (case call_read env h d reg s of (v, s) \<Rightarrow> (ucast (pci_swap v swap), s))))"

definition pci_dev_data_handler :: "('h, 's) pci_env \<Rightarrow> bus_ptr \<Rightarrow> mts_op \<Rightarrow> bool \<Rightarrow> u64 \<Rightarrow> ('h, 's) pci \<Rightarrow>
    (u64 \<times> ('h, 's) pci) option" where
  "pci_dev_data_handler env p op_type swap data s =
     (let a = pci_addr (buses s p);
          bus = GET_PCI_ADDR a 16 0xff;
          device = GET_PCI_ADDR a 11 0x1f;
          function = GET_PCI_ADDR a 8 0x7;
          reg = GET_PCI_ADDR a 0 0xff
      in case pci_dev_lookup p bus device function s of None \<Rightarrow> None
         | Some (None, s) \<Rightarrow>
             Some (if op_type = MTS_READ then (if reg = PCI_REG_ID then 0xffffffff else 0) else data, s)
         | Some (Some d, s) \<Rightarrow>
             (case op_type of
                MTS_WRITE \<Rightarrow> Some (data, pci_dev_write_reg env d reg (pci_swap (ucast data) swap) s)
              | MTS_READ \<Rightarrow> Some (pci_dev_read_reg env d reg swap s)))"

section \<open>Interrupts\<close>

text \<open>The line to change, if the device has one.\<close>

definition pci_dev_trigger_irq :: "(int \<Rightarrow> 's \<Rightarrow> 's) \<Rightarrow> 'h pci_device \<Rightarrow> 's \<Rightarrow> 's" where
  "pci_dev_trigger_irq vm_set_irq d s = (if pd_irq d \<noteq> - 1 then vm_set_irq (pd_irq d) s else s)"

definition pci_dev_clear_irq :: "(int \<Rightarrow> 's \<Rightarrow> 's) \<Rightarrow> 'h pci_device \<Rightarrow> 's \<Rightarrow> 's" where
  "pci_dev_clear_irq vm_clear_irq d s = (if pd_irq d \<noteq> - 1 then vm_clear_irq (pd_irq d) s else s)"

section \<open>PCI I/O space\<close>

record 'f pci_io_device =
  io_start :: u32
  io_end :: u32
  io_dev :: dev_ptr
  io_handler :: 'f

text \<open>The list of the space in order; the handler of a device is the last argument of the access.\<close>

definition pci_io_add :: "u32 \<Rightarrow> u32 \<Rightarrow> dev_ptr \<Rightarrow> 'f \<Rightarrow> 'f pci_io_device list \<Rightarrow> 'f pci_io_device list" where
  "pci_io_add start finish dev handler ds =
     \<lparr>io_start = start, io_end = finish, io_dev = dev, io_handler = handler\<rparr> # ds"

definition pci_io_remove :: "'f pci_io_device \<Rightarrow> 'f pci_io_device list \<Rightarrow> 'f pci_io_device list" where
  "pci_io_remove d ds = remove1 d ds"

definition pci_io_access ::
    "('f \<Rightarrow> dev_ptr \<Rightarrow> u32 \<Rightarrow> nat \<Rightarrow> mts_op \<Rightarrow> u64 \<Rightarrow> 's \<Rightarrow> u64 option \<times> u64 \<times> 's) \<Rightarrow> 'f pci_io_device list \<Rightarrow>
     u32 \<Rightarrow> nat \<Rightarrow> mts_op \<Rightarrow> u64 \<Rightarrow> 's \<Rightarrow> u64 option \<times> u64 \<times> 's" where
  "pci_io_access call ds offset op_size op_type data s =
     (let data = (if op_type = MTS_READ then 0 else data) in
      case find (\<lambda>p. io_start p \<le> offset \<and> offset \<le> io_end p) ds of
        None \<Rightarrow> (None, data, s)
      | Some p \<Rightarrow> call (io_handler p) (io_dev p) (offset - io_start p) op_size op_type data s)"

end
