(* ===== verification/PciProps.thy ===== *)
theory PciProps
  imports PciDev
begin

text \<open>
  Properties of the PCI buses of theory PciDev: the search for a bus in a numbered tree, the routing of
  configuration accesses, the enabling of a bridge by the guest, and the invariant of the device lists.
\<close>

section \<open>Numbered trees\<close>

text \<open>A bridge whose secondary bus number is \<open>-1\<close> has not been configured; nothing behind it is found.\<close>

definition bridge_link :: "('h, 's) pci \<Rightarrow> bus_ptr \<Rightarrow> bus_ptr \<Rightarrow> bool" where
  "bridge_link s p q \<longleftrightarrow>
     (\<exists>b \<in> set (pb_bridges (buses s p)). 0 \<le> sec_bus (bridges s b) \<and> br_bus (bridges s b) = Some q)"

definition bridge_off :: "'h pci_bridge \<Rightarrow> bool" where
  "bridge_off b \<longleftrightarrow> sec_bus b = - 1 \<and> sub_bus b = - 1"

definition ranges_meet :: "'h pci_bridge \<Rightarrow> 'h pci_bridge \<Rightarrow> bool" where
  "ranges_meet b c \<longleftrightarrow> sec_bus b \<le> sub_bus c \<and> sec_bus c \<le> sub_bus b"

definition bridge_numbered :: "('h, 's) pci \<Rightarrow> bus_ptr \<Rightarrow> bridge_ptr \<Rightarrow> bool" where
  "bridge_numbered s p b \<longleftrightarrow>
     \<not> skip_bus_check (bridges s b) \<and>
     (bridge_off (bridges s b) \<or>
      0 \<le> sec_bus (bridges s b) \<and> pb_bus (buses s p) < sec_bus (bridges s b)
      \<and> sec_bus (bridges s b) \<le> sub_bus (bridges s b)
      \<and> (\<forall>c \<in> set (pb_bridges (buses s p)). c \<noteq> b \<longrightarrow> \<not> ranges_meet (bridges s b) (bridges s c))
      \<and> (\<exists>q. br_bus (bridges s b) = Some q \<and> pb_bus (buses s q) = sec_bus (bridges s b)
            \<and> (\<forall>c \<in> set (pb_bridges (buses s q)). sub_bus (bridges s c) \<le> sub_bus (bridges s b))))"

definition pci_numbered :: "('h, 's) pci \<Rightarrow> bus_ptr \<Rightarrow> bool" where
  "pci_numbered s root \<longleftrightarrow>
     (\<forall>p. (bridge_link s)\<^sup>*\<^sup>* root p \<longrightarrow> (\<forall>b \<in> set (pb_bridges (buses s p)). bridge_numbered s p b))"

lemma numbered_link:
  assumes "pci_numbered s p" "bridge_link s p q"
  shows "pci_numbered s q"
  unfolding pci_numbered_def
proof (intro allI impI)
  fix r
  assume "(bridge_link s)\<^sup>*\<^sup>* q r"
  then have "(bridge_link s)\<^sup>*\<^sup>* p r"
      by (rule converse_rtranclp_into_rtranclp [of "bridge_link s", OF assms(2)])
  then show "\<forall>b \<in> set (pb_bridges (buses s r)). bridge_numbered s r b"
    using assms(1) unfolding pci_numbered_def by blast
qed

lemma link_bridge:
  assumes "pci_numbered s p" "bridge_link s p q"
  obtains b where "b \<in> set (pb_bridges (buses s p))" "br_bus (bridges s b) = Some q"
    "pb_bus (buses s p) < sec_bus (bridges s b)" "pb_bus (buses s q) = sec_bus (bridges s b)"
    "sec_bus (bridges s b) \<le> sub_bus (bridges s b)"
    "\<forall>c \<in> set (pb_bridges (buses s q)). sub_bus (bridges s c) \<le> sub_bus (bridges s b)"
    "\<forall>c \<in> set (pb_bridges (buses s p)). c \<noteq> b \<longrightarrow> \<not> ranges_meet (bridges s b) (bridges s c)"
proof -
  from assms(2) obtain b where b: "b \<in> set (pb_bridges (buses s p))" "0 \<le> sec_bus (bridges s b)"
    "br_bus (bridges s b) = Some q" by (auto simp: bridge_link_def)
  have "\<not> bridge_off (bridges s b)" using b(2) by (simp add: bridge_off_def)
  moreover have "bridge_numbered s p b" using assms(1) b(1) by (simp add: pci_numbered_def)
  ultimately show ?thesis using b that [of b] by (auto simp: bridge_numbered_def)
qed

lemma link_up:
  assumes "pci_numbered s p" "bridge_link s p q"
  shows "pb_bus (buses s p) < pb_bus (buses s q)"
  using assms by (rule link_bridge) simp

lemma reach_up:
  assumes "(bridge_link s)\<^sup>*\<^sup>* p q" "pci_numbered s p"
  shows "p = q \<or> pb_bus (buses s p) < pb_bus (buses s q)"
  using assms
proof (induction rule: converse_rtranclp_induct)
  case (step p p')
  then show ?case using link_up [of s p p'] numbered_link [of s p p'] by auto
qed simp

lemma reach_range:
  assumes "(bridge_link s)\<^sup>*\<^sup>* p q" "pci_numbered s p"
    and "lo \<le> pb_bus (buses s p)" "pb_bus (buses s p) \<le> hi"
    and "\<forall>c \<in> set (pb_bridges (buses s p)). sub_bus (bridges s c) \<le> hi"
  shows "lo \<le> pb_bus (buses s q) \<and> pb_bus (buses s q) \<le> hi"
  using assms
proof (induction rule: converse_rtranclp_induct)
  case (step p p')
  note b = link_bridge [OF step.prems(1) step.hyps(1)]
  show ?case
  proof (rule b)
    fix b
    assume b: "b \<in> set (pb_bridges (buses s p))" "pb_bus (buses s p) < sec_bus (bridges s b)"
      "pb_bus (buses s p') = sec_bus (bridges s b)" "sec_bus (bridges s b) \<le> sub_bus (bridges s b)"
      "\<forall>c \<in> set (pb_bridges (buses s p')). sub_bus (bridges s c) \<le> sub_bus (bridges s b)"
    then have "sub_bus (bridges s b) \<le> hi" using step.prems(4) by blast
    with b step.prems(2) numbered_link [OF step.prems(1) step.hyps(1)] show ?thesis
      by (intro step.IH) (auto intro: order_trans)
  qed
qed simp

text \<open>Behind the bridge that takes a number lies every bus with that number.\<close>

lemma reach_through:
  assumes "pci_numbered s p" "b \<in> set (pb_bridges (buses s p))" "bridge_takes n (bridges s b)" "0 \<le> n"
    and "(bridge_link s)\<^sup>*\<^sup>* p q" "pb_bus (buses s q) = n" "pb_bus (buses s p) \<noteq> n"
  shows "\<exists>p'. br_bus (bridges s b) = Some p' \<and> (bridge_link s)\<^sup>*\<^sup>* p' q"
proof -
  from assms(5-7) obtain p' where p': "bridge_link s p p'" "(bridge_link s)\<^sup>*\<^sup>* p' q"
    by (auto elim: converse_rtranclpE)
  obtain c where c: "c \<in> set (pb_bridges (buses s p))" "br_bus (bridges s c) = Some p'"
    and n: "pb_bus (buses s p') = sec_bus (bridges s c)" "sec_bus (bridges s c) \<le> sub_bus (bridges s c)"
    "\<forall>d \<in> set (pb_bridges (buses s p')). sub_bus (bridges s d) \<le> sub_bus (bridges s c)"
    "\<forall>d \<in> set (pb_bridges (buses s p)). d \<noteq> c \<longrightarrow> \<not> ranges_meet (bridges s c) (bridges s d)"
    using assms(1) p'(1) by (rule link_bridge)
  have "sec_bus (bridges s c) \<le> n \<and> n \<le> sub_bus (bridges s c)"
    unfolding assms(6) [symmetric]
    by (rule reach_range [OF p'(2)]) (use numbered_link [OF assms(1) p'(1)] n in auto)
  moreover have "\<not> skip_bus_check (bridges s b)"
    using assms(1,2) by (auto simp: pci_numbered_def bridge_numbered_def)
  then have "sec_bus (bridges s b) \<le> n \<and> n \<le> sub_bus (bridges s b)"
    using assms(3) by (simp add: bridge_takes_def)
  ultimately have "b = c" using n(4) assms(2) by (force simp: ranges_meet_def)
  then show ?thesis using c(2) p'(2) by blast
qed

lemma pci_bus_search:
  assumes "pci_numbered s root" "0 \<le> n"
  shows "\<exists>r. pci_bus_lookup (Some root) n s = Some (r, s)
           \<and> (\<forall>q. r = Some q \<longleftrightarrow> (bridge_link s)\<^sup>*\<^sup>* root q \<and> pb_bus (buses s q) = n)"
  using assms(1)
proof (induction "nat (n - pb_bus (buses s root))" arbitrary: root rule: less_induct)
  case less
  let ?find = "find (\<lambda>b. bridge_takes n (bridges s b)) (pb_bridges (buses s root))"
  have down: "\<exists>b \<in> set (pb_bridges (buses s root)). bridge_takes n (bridges s b)"
    if "(bridge_link s)\<^sup>*\<^sup>* root q" "pb_bus (buses s q) = n" "pb_bus (buses s root) \<noteq> n" for q
  proof -
    from that obtain p' where p': "bridge_link s root p'" "(bridge_link s)\<^sup>*\<^sup>* p' q"
      by (auto elim: converse_rtranclpE)
    obtain b where b: "b \<in> set (pb_bridges (buses s root))"
      and f: "pb_bus (buses s p') = sec_bus (bridges s b)" "sec_bus (bridges s b) \<le> sub_bus (bridges s b)"
      "\<forall>d \<in> set (pb_bridges (buses s p')). sub_bus (bridges s d) \<le> sub_bus (bridges s b)"
      using less.prems p'(1) by (rule link_bridge)
    have "sec_bus (bridges s b) \<le> n \<and> n \<le> sub_bus (bridges s b)"
      unfolding that(2) [symmetric]
      by (rule reach_range [OF p'(2)]) (use numbered_link [OF less.prems p'(1)] f in auto)
    then show ?thesis using b by (auto simp: bridge_takes_def)
  qed
  show ?case
  proof (cases "pb_bus (buses s root) = n")
    case True
    then have "pci_bus_lookup (Some root) n s = Some (Some root, s)" by (simp add: pci_bus_lookup.simps)
    moreover have "q = root" if "(bridge_link s)\<^sup>*\<^sup>* root q" "pb_bus (buses s q) = n" for q
      using reach_up [OF that(1) less.prems] that(2) True by auto
    ultimately show ?thesis using True by auto
  next
    case False
    show ?thesis
    proof (cases ?find)
      case None
      then have "pci_bus_lookup (Some root) n s = Some (None, s)"
        using False by (simp add: pci_bus_lookup.simps)
      moreover have "\<not> ((bridge_link s)\<^sup>*\<^sup>* root q \<and> pb_bus (buses s q) = n)" for q
        using down [of q] None False by (auto simp: find_None_iff)
      ultimately show ?thesis by auto
    next
      case (Some b)
      then have b: "b \<in> set (pb_bridges (buses s root))" "bridge_takes n (bridges s b)"
        by (auto simp: find_Some_iff)
      then have bn: "bridge_numbered s root b" using less.prems by (auto simp: pci_numbered_def)
      then have r: "sec_bus (bridges s b) \<le> n \<and> n \<le> sub_bus (bridges s b)" "\<not> skip_bus_check (bridges s b)"
        using b(2) by (auto simp: bridge_takes_def bridge_numbered_def)
      then have "\<not> bridge_off (bridges s b)" using assms(2) by (auto simp: bridge_off_def)
      then obtain p' where p': "br_bus (bridges s b) = Some p'" "pb_bus (buses s p') = sec_bus (bridges s b)"
        "0 \<le> sec_bus (bridges s b)" "pb_bus (buses s root) < sec_bus (bridges s b)"
        using bn by (auto simp: bridge_numbered_def)
      have link: "bridge_link s root p'" using b(1) p' by (auto simp: bridge_link_def)
      have eq: "pci_bus_lookup (Some root) n s = pci_bus_lookup (Some p') n s"
        using False Some r(2) p'(1) by (subst pci_bus_lookup.simps) simp
      have "\<exists>r. pci_bus_lookup (Some p') n s = Some (r, s)
          \<and> (\<forall>q. r = Some q \<longleftrightarrow> (bridge_link s)\<^sup>*\<^sup>* p' q \<and> pb_bus (buses s q) = n)"
        by (rule less.hyps) (use p' r numbered_link [OF less.prems link] in auto)
      moreover have "(bridge_link s)\<^sup>*\<^sup>* root q \<and> pb_bus (buses s q) = n
          \<longleftrightarrow> (bridge_link s)\<^sup>*\<^sup>* p' q \<and> pb_bus (buses s q) = n" for q
        using reach_through [OF less.prems b assms(2), of q] False p'(1)
          converse_rtranclp_into_rtranclp [of "bridge_link s", OF link] by auto
      ultimately show ?thesis unfolding eq by simp
    qed
  qed
qed

text \<open>C28: In a tree whose bridges are numbered as the PCI rules demand, with nested and separate ranges, the
  search for a bus number ends without changing anything, and finds the bus of that number that can be
  reached through configured bridges, or nothing when there is none.\<close>

theorem pci_bus_lookup_correct:
  assumes "pci_numbered s root" "0 \<le> n"
  shows "\<exists>r. pci_bus_lookup (Some root) n s = Some (r, s)
           \<and> (\<forall>q. r = Some q \<longleftrightarrow> (bridge_link s)\<^sup>*\<^sup>* root q \<and> pb_bus (buses s q) = n)"
  using assms by (rule pci_bus_search)

section \<open>Configuration accesses\<close>

lemma mask_255: "(x AND 255 :: u32) = take_bit 8 x"
  by (simp add: take_bit_eq_mask mask_eq_exp_minus_1)

lemma bit_swap32:
  "bit (swap32 v) n \<longleftrightarrow> n < 32 \<and>
     bit v (if n < 8 then 24 + n else if n < 16 then 8 + n else if n < 24 then n - 8 else n - 24)"
  unfolding swap32_def mask_255 Let_def
  by (auto simp: bit_simps add.commute dest: bit_imp_le_length)

lemma swap32_swap32 [simp]: "swap32 (swap32 v) = v"
  by (rule bit_word_eqI) (auto simp: bit_swap32)

lemma pci_swap_swap [simp]: "pci_swap (pci_swap v swap) swap = v"
  by (simp add: pci_swap_def)

text \<open>What the guest writes to the address register, and an access through the pair of registers.\<close>

definition pci_config_word :: "u32 \<Rightarrow> u32 \<Rightarrow> u32 \<Rightarrow> u32 \<Rightarrow> u32" where
  "pci_config_word bus device func reg =
     push_bit 31 1 OR push_bit 16 bus OR push_bit 11 device OR push_bit 8 func OR reg"

definition config_access :: "('h, 's) pci_env \<Rightarrow> bus_ptr \<Rightarrow> mts_op \<Rightarrow> bool \<Rightarrow> u32 \<Rightarrow> u64 \<Rightarrow> ('h, 's) pci \<Rightarrow>
    (u64 \<times> ('h, 's) pci) option" where
  "config_access env root op_type swap word data s =
     (case pci_dev_addr_handler root MTS_WRITE swap (ucast (pci_swap word swap)) s of
        (_, s) \<Rightarrow> pci_dev_data_handler env root op_type swap data s)"

lemma u32_bit_lt: "take_bit k (w :: u32) = w \<Longrightarrow> bit w n \<Longrightarrow> n < k"
  by (metis bit_take_bit_iff)

lemma config_word_fields:
  assumes "take_bit 8 bus = bus" "take_bit 5 device = device" "take_bit 3 func = func" "take_bit 8 reg = reg"
  shows "GET_PCI_ADDR (pci_config_word bus device func reg) 16 0xff = uint bus"
    "GET_PCI_ADDR (pci_config_word bus device func reg) 11 0x1f = uint device"
    "GET_PCI_ADDR (pci_config_word bus device func reg) 8 0x7 = uint func"
    "GET_PCI_ADDR (pci_config_word bus device func reg) 0 0xff = uint reg"
proof -
  let ?w = "pci_config_word bus device func reg"
  have b: "bit bus n \<Longrightarrow> n < 8" "bit device n \<Longrightarrow> n < 5" "bit func n \<Longrightarrow> n < 3" "bit reg n \<Longrightarrow> n < 8" for n
    using u32_bit_lt assms by blast+
  have m: "(x AND 255 :: u32) = take_bit 8 x" "(x AND 31 :: u32) = take_bit 5 x" "(x AND 7 :: u32) =
      take_bit 3 x" for x
    by (simp_all add: take_bit_eq_mask mask_eq_exp_minus_1)
  have "take_bit 8 (drop_bit 16 ?w) = bus"
    by (rule bit_word_eqI) (auto simp: pci_config_word_def bit_simps dest: b)
  moreover have "take_bit 5 (drop_bit 11 ?w) = device"
    by (rule bit_word_eqI) (auto simp: pci_config_word_def bit_simps dest: b)
  moreover have "take_bit 3 (drop_bit 8 ?w) = func"
    by (rule bit_word_eqI) (auto simp: pci_config_word_def bit_simps dest: b)
  moreover have "take_bit 8 ?w = reg"
    by (rule bit_word_eqI) (auto simp: pci_config_word_def bit_simps dest: b)
  ultimately show "GET_PCI_ADDR ?w 16 0xff = uint bus" "GET_PCI_ADDR ?w 11 0x1f = uint device"
    "GET_PCI_ADDR ?w 8 0x7 = uint func" "GET_PCI_ADDR ?w 0 0xff = uint reg"
    by (simp_all add: GET_PCI_ADDR_def m)
qed

lemma numbered_cong:
  assumes "\<And>p. pb_bus (buses s' p) = pb_bus (buses s p) \<and> pb_bridges (buses s' p) = pb_bridges (buses s p)"
    and "bridges s' = bridges s"
  shows "bridge_link s' = bridge_link s" "pci_numbered s' root = pci_numbered s root"
proof -
  show l: "bridge_link s' = bridge_link s" by (intro ext) (simp add: bridge_link_def assms)
  show "pci_numbered s' root = pci_numbered s root"
    by (simp add: pci_numbered_def bridge_numbered_def l assms)
qed


section \<open>Configuring a bridge\<close>

lemma bridge_write_bus_reg:
  assumes "pd_priv (pdevs s d) = b" "br_bus (bridges s b) = Some q"
  shows "pci_bridge_write_reg env d 0x18 val s =
     s\<lparr>bridges := (bridges s)(b := (bridges s b)\<lparr>cfg_reg_bus := val, pri_bus := uint (val AND 0xFF),
          sec_bus := uint (drop_bit 8 val AND 0xFF), sub_bus := uint (drop_bit 16 val AND 0xFF)\<rparr>),
       buses := (buses s)(q := (buses s q)\<lparr>pb_bus := uint (drop_bit 8 val AND 0xFF)\<rparr>)\<rparr>"
  using assms by (simp add: pci_bridge_write_reg_def pci_bridge_set_bus_info_def Let_def)

text \<open>C27: When the guest writes the bus number register of a bridge that was off, with numbers that respect
  the other bridges, the tree stays numbered: the bus behind the bridge now has the secondary number,
  every bus that could be reached before still can with its number, and the register reads back.\<close>

theorem pci_bridge_enable:
  fixes env :: "('h, 's) pci_env" and val :: u32
  assumes num: "pci_numbered s root" and p: "(bridge_link s)\<^sup>*\<^sup>* root p" "b \<in> set (pb_bridges
      (buses s p))"
    and b: "bridge_off (bridges s b)" "br_bus (bridges s b) = Some q" "pd_priv (pdevs s d) = b"
    and only: "\<forall>r. (bridge_link s)\<^sup>*\<^sup>* root r \<longrightarrow> b \<in> set (pb_bridges (buses s r)) \<longrightarrow> r = p"
    and q: "\<not> (bridge_link s)\<^sup>*\<^sup>* root q" "b \<notin> set (pb_bridges (buses s q))"
      "\<forall>c \<in> set (pb_bridges (buses s q)). bridge_off (bridges s c) \<and> \<not> skip_bus_check (bridges s c)"
    and sec: "sec = uint (drop_bit 8 val AND 0xFF)" "pb_bus (buses s p) < sec"
    and sub: "sub = uint (drop_bit 16 val AND 0xFF)" "sec \<le> sub"
    and apart: "\<forall>c \<in> set (pb_bridges (buses s p)). c \<noteq> b \<longrightarrow> sub < sec_bus (bridges s c) \<or>
        sub_bus (bridges s c) < sec"
    and within: "\<forall>r c. (bridge_link s)\<^sup>*\<^sup>* root r \<longrightarrow> c \<in> set (pb_bridges (buses s r)) \<longrightarrow>
      br_bus (bridges s c) = Some p \<longrightarrow> \<not> bridge_off (bridges s c) \<longrightarrow> sub \<le> sub_bus (bridges s c)"
  defines "s' \<equiv> pci_bridge_write_reg env d 0x18 val s"
  shows "pci_numbered s' root \<and> (bridge_link s')\<^sup>*\<^sup>* root q \<and> pb_bus (buses s' q) = sec
       \<and> (\<forall>r. (bridge_link s)\<^sup>*\<^sup>* root r \<longrightarrow> (bridge_link s')\<^sup>*\<^sup>* root r \<and>
           pb_bus (buses s' r) = pb_bus (buses s r))
       \<and> fst (pci_bridge_read_reg env d 0x18 s') = val"
proof -
  note s' = bridge_write_bus_reg [OF b(3,2), of env val, folded s'_def sec(1) sub(1)]
  have br: "pb_bridges (buses s' r) = pb_bridges (buses s r)" for r by (simp add: s')
  have bn: "pb_bus (buses s' r) = (if r = q then sec else pb_bus (buses s r))" for r by (simp add: s')
  have bb: "br_bus (bridges s' c) = br_bus (bridges s c)" "skip_bus_check (bridges s' c) = skip_bus_check
      (bridges s c)"
    "sec_bus (bridges s' c) = (if c = b then sec else sec_bus (bridges s c))"
    "sub_bus (bridges s' c) = (if c = b then sub else sub_bus (bridges s c))" for c by (simp_all add: s')
  have pos: "0 \<le> sec" by (simp add: sec(1))
  have link_old: "bridge_link s x y \<Longrightarrow> bridge_link s' x y" for x y
    using b(1) by (force simp: bridge_link_def br bb bridge_off_def)
  have link_new: "bridge_link s' x y \<Longrightarrow> bridge_link s x y \<or> b \<in> set (pb_bridges (buses s x)) \<and> y = q" for x y
    using b(2) by (auto simp: bridge_link_def br bb split: if_splits)
  have old: "(bridge_link s')\<^sup>*\<^sup>* root r" if "(bridge_link s)\<^sup>*\<^sup>* root r" for r
    using that by (induction rule: rtranclp_induct) (auto intro: rtranclp.rtrancl_into_rtrancl link_old)
  have new: "(bridge_link s)\<^sup>*\<^sup>* root r \<or> r = q" if "(bridge_link s')\<^sup>*\<^sup>* root r" for r
    using that
  proof (induction rule: rtranclp_induct)
    case (step y z)
    have "\<not> bridge_link s' q z"
      using q(2,3) by (auto simp: bridge_link_def br bb bridge_off_def)
    then have "(bridge_link s)\<^sup>*\<^sup>* root y" using step by auto
    then show ?case using link_new [OF step.hyps(2)] by (auto intro: rtranclp.rtrancl_into_rtrancl)
  qed simp
  have "bridge_link s' p q" using p(2) b(2) pos by (auto simp: bridge_link_def br bb)
  then have reach_q: "(bridge_link s')\<^sup>*\<^sup>* root q" using old [OF p(1)] by auto
  have pq: "p \<noteq> q" using p(1) q(1) by blast
  have num_b: "bridge_numbered s' p b"
  proof -
    have "\<not> skip_bus_check (bridges s b)" using num p by (auto simp: pci_numbered_def bridge_numbered_def)
    moreover have "\<not> ranges_meet (bridges s' b) (bridges s' c)"
      if "c \<in> set (pb_bridges (buses s p))" "c \<noteq> b" for c
      using apart that by (auto simp: ranges_meet_def bb)
    moreover have "sub_bus (bridges s' c) \<le> sub" if "c \<in> set (pb_bridges (buses s q))" for c
      using q(2,3) that sub(2) pos by (auto simp: bb bridge_off_def)
    ultimately show ?thesis using sec(2) sub(2) pos b(2) pq by (auto simp: bridge_numbered_def br bn bb)
  qed
  have num_c: "bridge_numbered s' r c"
    if r: "(bridge_link s)\<^sup>*\<^sup>* root r" and c: "c \<in> set (pb_bridges (buses s r))" "c \<noteq> b" for r c
  proof -
    have old_c: "bridge_numbered s r c" using num r c(1) by (auto simp: pci_numbered_def)
    show ?thesis
    proof (cases "bridge_off (bridges s c)")
      case True
      then show ?thesis using old_c c(2) by (simp add: bridge_numbered_def bb bridge_off_def)
    next
      case False
      with old_c obtain q' where q': "0 \<le> sec_bus (bridges s c)" "br_bus (bridges s c) = Some q'"
        "pb_bus (buses s q') = sec_bus (bridges s c)"
        "\<forall>e \<in> set (pb_bridges (buses s q')). sub_bus (bridges s e) \<le> sub_bus (bridges s c)"
        by (auto simp: bridge_numbered_def)
      then have "bridge_link s r q'" using c(1) by (auto simp: bridge_link_def)
      then have r': "(bridge_link s)\<^sup>*\<^sup>* root q'" using r by auto
      have "\<not> ranges_meet (bridges s' c) (bridges s' e)" if e: "e \<in> set (pb_bridges (buses s r))" "e \<noteq> c" for e
      proof (cases "e = b")
        case True
        then have "r = p" using only r e(1) by blast
        then show ?thesis using apart c True by (auto simp: ranges_meet_def bb)
      next
        case False
        then show ?thesis
          using old_c e c(2) \<open>\<not> bridge_off (bridges s c)\<close> by (auto simp: bridge_numbered_def ranges_meet_def bb)
      qed
      moreover have "sub_bus (bridges s' e) \<le> sub_bus (bridges s c)"
          if e: "e \<in> set (pb_bridges (buses s q'))" for e
      proof (cases "e = b")
        case True
        then have "q' = p" using only r' e by blast
        then show ?thesis using within r c(1) q'(2) False True by (auto simp: bb)
      qed (use q'(4) e in \<open>simp add: bb\<close>)
      moreover have "q' \<noteq> q" "r \<noteq> q" using r' r q(1) by auto
      ultimately show ?thesis
        using old_c False c(2) q' by (auto simp: bridge_numbered_def br bn bb)
    qed
  qed
  have "pci_numbered s' root"
    unfolding pci_numbered_def
  proof (intro allI impI ballI)
    fix r c
    assume r: "(bridge_link s')\<^sup>*\<^sup>* root r" and c: "c \<in> set (pb_bridges (buses s' r))"
    show "bridge_numbered s' r c"
    proof (cases "r = q")
      case True
      then show ?thesis using q(2,3) c by (auto simp: bridge_numbered_def bb br bridge_off_def)
    next
      case False
      then have "(bridge_link s)\<^sup>*\<^sup>* root r" using new [OF r] by blast
      then show ?thesis using num_b num_c [of r c] only c by (cases "c = b") (auto simp: br)
    qed
  qed
  moreover have "fst (pci_bridge_read_reg env d 0x18 s') = val"
    by (simp add: pci_bridge_read_reg_def s' b(3) Let_def)
  ultimately show ?thesis using reach_q old q(1) by (auto simp: bn)
qed

section \<open>Device slots\<close>

text \<open>A device is on the list of its bus, and no two devices of a bus have the same place.\<close>

definition pci_place :: "('h, 's) pci \<Rightarrow> pci_ptr \<Rightarrow> int \<times> int" where
  "pci_place s d = (pd_device (pdevs s d), pd_function (pdevs s d))"

definition pci_ok :: "('h, 's) pci \<Rightarrow> bool" where
  "pci_ok s \<longleftrightarrow> (\<forall>p. distinct (map (pci_place s) (pb_devs (buses s p)))
     \<and> (\<forall>d \<in> set (pb_devs (buses s p)). pd_bus (pdevs s d) = p))"

text \<open>The devices of all buses, by place.\<close>

definition pci_slots :: "('h, 's) pci \<Rightarrow> bus_ptr \<times> int \<times> int \<Rightarrow> pci_ptr option" where
  "pci_slots s = (\<lambda>(p, i, f). pci_dev_lookup_local p i f s)"

lemma find_place:
  assumes "distinct (map k ds)"
  shows "find (\<lambda>d. k d = x) ds = Some d \<longleftrightarrow> d \<in> set ds \<and> k d = x"
  using assms by (induction ds) auto

lemma slots_iff:
  assumes "pci_ok s"
  shows "pci_slots s (p, i, f) = Some d \<longleftrightarrow>
    d \<in> set (pb_devs (buses s p)) \<and> pd_device (pdevs s d) = i \<and> pd_function (pdevs s d) = f"
  using find_place [of "pci_place s" "pb_devs (buses s p)" "(i, f)" d] assms
  by (simp add: pci_slots_def pci_dev_lookup_local_def pci_ok_def pci_place_def)

lemma slots_eqI:
  assumes "pci_ok s" "\<And>p i f d. g (p, i, f) = Some d \<longleftrightarrow>
    d \<in> set (pb_devs (buses s p)) \<and> pd_device (pdevs s d) = i \<and> pd_function (pdevs s d) = f"
  shows "pci_slots s = g"
proof
  fix x :: "bus_ptr \<times> int \<times> int"
  obtain p i f where x: "x = (p, i, f)" by (cases x)
  show "pci_slots s x = g x"
  proof -
    have "pci_slots s (p, i, f) = Some d \<longleftrightarrow> g (p, i, f) = Some d" for d
      unfolding slots_iff [OF assms(1)] assms(2) ..
    then show ?thesis unfolding x by (metis not_None_eq)
  qed
qed

text \<open>The buses are a map from places to devices. Adding a device fails, changing nothing, when its place
  is taken, and otherwise puts it there and calls its initialisation; removing a device empties its place
  and no other. Both keep at most one device in a place.\<close>

theorem pci_slots_refine_map:
  assumes "pci_ok s" "\<forall>p. d \<notin> set (pb_devs (buses s p))"
  shows "(case pci_dev_add env (Some d) (Some p) name vendor product i f irq priv ini rd wr s of
            (r, s') \<Rightarrow> pci_ok s'
              \<and> (if pci_slots s (p, i, f) = None
                 then r = Some d \<and> pci_slots s' = (pci_slots s)((p, i, f) \<mapsto> d)
                   \<and> pci_out s' = (case ini of None \<Rightarrow> pci_out s | Some h \<Rightarrow> pe_init env h d (pci_out s))
                 else r = None \<and> s' = s))
       \<and> (\<forall>x e. pci_slots s x = Some e \<longrightarrow>
            pci_ok (pci_dev_remove e s) \<and> pci_slots (pci_dev_remove e s) = (pci_slots s)(x := None))"
proof (intro conjI allI impI)
  let ?D = "\<lparr>pd_name = name, vendor_id = vendor, product_id = product, pd_device = i, pd_function = f,
      pd_irq = irq,
     pd_priv = priv, pd_bus = p, read_register = rd, write_register = wr\<rparr>"
  show "case pci_dev_add env (Some d) (Some p) name vendor product i f irq priv ini rd wr s of
            (r, s') \<Rightarrow> pci_ok s'
              \<and> (if pci_slots s (p, i, f) = None
                 then r = Some d \<and> pci_slots s' = (pci_slots s)((p, i, f) \<mapsto> d)
                   \<and> pci_out s' = (case ini of None \<Rightarrow> pci_out s | Some h \<Rightarrow> pe_init env h d (pci_out s))
                 else r = None \<and> s' = s)"
  proof (cases "pci_slots s (p, i, f)")
    case (Some e)
    then show ?thesis using assms(1) by (auto simp: pci_dev_add_def pci_slots_def)
  next
    case None
    let ?o = "case ini of None \<Rightarrow> pci_out s | Some h \<Rightarrow> pe_init env h d (pci_out s)"
    let ?s = "s\<lparr>pdevs := (pdevs s)(d := ?D),
        buses := (buses s)(p := (buses s p)\<lparr>pb_devs := d # pb_devs (buses s p)\<rparr>), pci_out := ?o\<rparr>"
    have e: "pci_dev_add env (Some d) (Some p) name vendor product i f irq priv ini rd wr s = (Some d, ?s)"
      using None by (simp add: pci_dev_add_def pci_slots_def Let_def split: option.splits)
    have free: "\<forall>e \<in> set (pb_devs (buses s p)). \<not> (pd_device (pdevs s e) = i \<and> pd_function (pdevs s e) = f)"
      using None slots_iff [OF assms(1), of p i f] by auto
    have key: "pci_place ?s d = (i, f)" "e \<noteq> d \<Longrightarrow> pci_place ?s e = pci_place s e" for e
      by (simp_all add: pci_place_def)
    have same: "map (pci_place ?s) (pb_devs (buses s q)) = map (pci_place s) (pb_devs (buses s q))" for q
      by (intro map_cong refl key(2)) (use assms(2) in blast)
    have "(i, f) \<notin> pci_place s ` set (pb_devs (buses s p))" using free by (auto simp: pci_place_def)
    then have new: "(i, f) \<notin> set (map (pci_place ?s) (pb_devs (buses s p)))" unfolding same by simp
    have ok: "pci_ok ?s"
      unfolding pci_ok_def
    proof (intro allI conjI)
      fix q
      have "distinct (map (pci_place ?s) (pb_devs (buses s r)))" for r
        unfolding same using assms(1) by (simp add: pci_ok_def)
      moreover have "pb_devs (buses ?s q) = (if q = p then d # pb_devs (buses s p)
          else pb_devs (buses s q))" by simp
      ultimately show "distinct (map (pci_place ?s) (pb_devs (buses ?s q)))"
        using new key(1) by (simp del: in_set_conv_nth set_map)
      show "\<forall>e \<in> set (pb_devs (buses ?s q)). pd_bus (pdevs ?s e) = q"
        using assms by (auto simp: pci_ok_def)
    qed
    moreover have "pci_slots ?s = (pci_slots s)((p, i, f) \<mapsto> d)"
      by (rule slots_eqI [OF ok]) (use assms(2) free slots_iff [OF assms(1)] in auto)
    ultimately show ?thesis using None by (simp add: e)
  qed
next
  fix x :: "bus_ptr \<times> int \<times> int" and e
  assume x: "pci_slots s x = Some e"
  obtain q j g where q: "x = (q, j, g)" by (cases x)
  have e: "e \<in> set (pb_devs (buses s q))" "pd_device (pdevs s e) = j" "pd_function (pdevs s e) = g"
    using x slots_iff [OF assms(1)] by (auto simp: q)
  have b: "pd_bus (pdevs s e) = q" using assms(1) e(1) by (auto simp: pci_ok_def)
  let ?s = "pci_dev_remove e s"
  have s': "?s = set_bus q ((buses s q)\<lparr>pb_devs := remove1 e (pb_devs (buses s q))\<rparr>) s"
    by (simp add: pci_dev_remove_def b)
  have place: "pci_place ?s = pci_place s" by (intro ext) (simp add: pci_place_def s')
  have dist: "distinct (map (pci_place s) (pb_devs (buses s r)))" for r
    using assms(1) by (simp add: pci_ok_def)
  then have dist': "distinct (pb_devs (buses s r))" for r by (simp add: distinct_map)
  have one: "d = e" if "d \<in> set (pb_devs (buses s q))" "pd_device (pdevs s d) = j" "pd_function (pdevs s d)
      = g" for d
  proof -
    have "pci_slots s (q, j, g) = Some d" using that slots_iff [OF assms(1)] by blast
    then show ?thesis using x q by simp
  qed
  have sub: "distinct (map k (remove1 e ds))" if "distinct (map k ds)" for k :: "nat \<Rightarrow> int \<times> int" and ds
    using that set_remove1_subset [of e] by (induction ds) fastforce+
  show ok: "pci_ok ?s"
    unfolding pci_ok_def place
  proof (intro allI conjI ballI)
    fix r
    have l: "pb_devs (buses ?s r) = (if r = q then remove1 e (pb_devs (buses s q)) else pb_devs (buses s r))"
      by (simp add: s')
    show "distinct (map (pci_place s) (pb_devs (buses ?s r)))" unfolding l using sub [OF dist] dist by simp
    fix d assume "d \<in> set (pb_devs (buses ?s r))"
    then have "d \<in> set (pb_devs (buses s r))"
      unfolding l using set_remove1_subset [of e "pb_devs (buses s q)"] by (auto split: if_splits)
    then show "pd_bus (pdevs ?s d) = r" using assms(1) by (auto simp: pci_ok_def s')
  qed
  show "pci_slots ?s = (pci_slots s)(x := None)"
  proof (rule slots_eqI [OF ok])
    fix p i f d
    have m: "d \<in> set (pb_devs (buses ?s p)) \<longleftrightarrow> d \<in> set (pb_devs (buses s p)) \<and> (p = q \<longrightarrow> d \<noteq> e)"
      by (simp add: s' dist')
    have f: "pd_device (pdevs ?s d) = pd_device (pdevs s d)" "pd_function (pdevs ?s d) = pd_function (pdevs
        s d)"
      by (simp_all add: s')
    have "((pci_slots s)(x := None)) (p, i, f) = Some d
        \<longleftrightarrow> \<not> (p = q \<and> i = j \<and> f = g) \<and> pci_slots s (p, i, f) = Some d"
      by (simp add: q)
    then show "((pci_slots s)(x := None)) (p, i, f) = Some d \<longleftrightarrow> d \<in> set (pb_devs (buses ?s p))
        \<and> pd_device (pdevs ?s d) = i \<and> pd_function (pdevs ?s d) = f"
      unfolding m f slots_iff [OF assms(1)] using e one by blast
  qed
qed

section \<open>Instances\<close>

text \<open>A root bus with one bridge, another bus behind it and a device there, as the operations build it. The
  device keeps the list of the writes to its registers.\<close>

definition demo_env :: "(unit, (int \<times> u32) list) pci_env" where
  "demo_env = \<lparr>pe_init = (\<lambda>_ _ out. out), pe_read = (\<lambda>_ _ reg out. (of_nat (length out), out)),
     pe_write = (\<lambda>_ _ reg v out. (reg, v) # out)\<rparr>"

definition demo_empty :: "(unit, (int \<times> u32) list) pci" where
  "demo_empty = \<lparr>buses = (\<lambda>_. \<lparr>pb_name = [], pci_addr = 0, pb_bus = - 1, pb_devs = [], pb_bridges = []\<rparr>),
     bridges = (\<lambda>_. \<lparr>pri_bus = 0, sec_bus = - 1, sub_bus = - 1, skip_bus_check = False, cfg_reg_bus = 0,
       br_dev = None, br_bus = None, fallback_read = None, fallback_write = None, br_on = 0\<rparr>),
     pdevs = (\<lambda>_. \<lparr>pd_name = [], vendor_id = 0, product_id = 0, pd_device = 0, pd_function = 0, pd_irq = 0,
       pd_priv = 0, pd_bus = 0, read_register = None, write_register = None\<rparr>), pci_out = []\<rparr>"

definition demo_off :: "(unit, (int \<times> u32) list) pci" where
  "demo_off =
     (let s = snd (pci_bus_create (Some 0) ''root'' 0 demo_empty);
          s = snd (pci_bus_create (Some 1) ''slot'' (- 1) s);
          s = snd (dev_dec21050_init demo_env (Some 0) (Some 0) (Some 0) 1 (Some 1) s)
      in snd (pci_dev_add demo_env (Some 5) (Some 1) ''card'' 0x1137 0x42 3 0 2 0 None
                (Some (Reg_fn ())) (Some (Reg_fn ())) s))"

definition demo_pci :: "(unit, (int \<times> u32) list) pci" where
  "demo_pci = pci_bridge_write_reg demo_env 0 0x18 0x00010100 demo_off"

lemmas demo_defs = demo_env_def demo_empty_def demo_off_def pci_bus_create_def dev_dec21050_init_def
  dec21x50_init_def pci_bridge_create_dev_def pci_bridge_add_def pci_dev_add_def pci_dev_lookup_local_def
  pci_bridge_map_bus_def Let_def

lemma demo_off_facts:
  "pb_bridges (buses demo_off p) = (if p = 0 then [0] else [])"
  "pb_devs (buses demo_off p) = (if p = 0 then [0] else if p = 1 then [5] else [])"
  "pb_bus (buses demo_off p) = (if p = 0 then 0 else - 1)"
  "bridge_off (bridges demo_off b)" "br_bus (bridges demo_off 0) = Some 1" "pd_priv (pdevs demo_off 0) = 0"
  "\<not> skip_bus_check (bridges demo_off b)" "pci_out demo_off = []"
  "pd_device (pdevs demo_off 5) = 3" "pd_function (pdevs demo_off 5) = 0"
  "pd_device (pdevs demo_off 0) = 1" "pd_function (pdevs demo_off 0) = 0"
  "pd_bus (pdevs demo_off 5) = 1" "pd_bus (pdevs demo_off 0) = 0"
  "write_register (pdevs demo_off 5) = Some (Reg_fn ())"
  by (simp_all add: demo_defs bridge_off_def)

lemma demo_off_reach: "(bridge_link demo_off)\<^sup>*\<^sup>* 0 p \<longleftrightarrow> p = 0"
proof
  have no: "\<not> bridge_link demo_off x y" for x y
    using demo_off_facts(4) by (auto simp: bridge_link_def bridge_off_def)
  assume "(bridge_link demo_off)\<^sup>*\<^sup>* 0 p"
  then show "p = 0" by (induction rule: rtranclp_induct) (simp_all add: no)
qed simp

lemma demo_off_numbered: "pci_numbered demo_off 0"
  by (simp add: pci_numbered_def demo_off_reach bridge_numbered_def demo_off_facts)

theorem pci_bridge_enable_witness:
  "pci_numbered demo_pci 0 \<and> (bridge_link demo_pci)\<^sup>*\<^sup>* 0 1 \<and> pb_bus (buses demo_pci 1) = 1"
proof -
  have v: "uint (drop_bit 8 (0x00010100 :: u32) AND 0xFF) = 1" "uint (drop_bit 16 (0x00010100 :: u32) AND
      0xFF) = 1"
    by (simp_all add: drop_bit_eq_div)
  show ?thesis
    unfolding demo_pci_def
    using pci_bridge_enable [of demo_off 0 0 0 1 0 1 "0x00010100" 1 demo_env] demo_off_numbered
    by (simp add: demo_off_reach demo_off_facts v)
qed

lemma demo_pci_lookup: "pci_dev_lookup_local p i f demo_pci = pci_dev_lookup_local p i f demo_off"
  by (simp add: demo_pci_def pci_dev_lookup_local_def bridge_write_bus_reg [OF demo_off_facts(6,5)])

lemma demo_pci_numbered: "pci_numbered demo_pci 0"
  unfolding pci_numbered_def demo_pci_def bridge_write_bus_reg [OF demo_off_facts(6,5)]
  using demo_off_facts(4) [of 0] demo_off_facts(7) [of 0]
  by (auto simp: bridge_numbered_def demo_off_facts drop_bit_eq_div split: if_splits)

theorem pci_bus_lookup_correct_witness:
  "\<exists>r. pci_bus_lookup (Some 0) 1 demo_pci = Some (r, demo_pci)
     \<and> (\<forall>q. r = Some q \<longleftrightarrow> (bridge_link demo_pci)\<^sup>*\<^sup>* 0 q \<and> pb_bus (buses demo_pci q) = 1)"
  by (rule pci_bus_lookup_correct [OF demo_pci_numbered]) simp

lemma demo_pci_behind: "(bridge_link demo_pci)\<^sup>*\<^sup>* 0 1 \<and> pb_bus (buses demo_pci 1) = 1"
proof -
  have "bridge_link demo_pci 0 1"
    by (simp add: bridge_link_def demo_pci_def bridge_write_bus_reg [OF demo_off_facts(6,5)] demo_off_facts
        drop_bit_eq_div)
  then show ?thesis
    by (auto simp: demo_pci_def bridge_write_bus_reg [OF demo_off_facts(6,5)] drop_bit_eq_div)
qed


theorem pci_slots_refine_map_witness:
  "fst (pci_dev_add demo_env (Some 6) (Some 1) ''second'' 1 2 3 0 (- 1) 0 None None None demo_off) = None
   \<and> pci_slots (pci_dev_remove 5 demo_off) = (pci_slots demo_off)((1, 3, 0) := None)"
proof -
  have ok: "pci_ok demo_off" by (auto simp: pci_ok_def pci_place_def demo_off_facts)
  have s: "pci_slots demo_off (1, 3, 0) = Some 5"
    by (simp add: pci_slots_def pci_dev_lookup_local_def demo_off_facts)
  have "\<forall>p. 6 \<notin> set (pb_devs (buses demo_off p))" by (simp add: demo_off_facts)
  note r = pci_slots_refine_map [OF ok this, where env = demo_env and p = 1 and name = "''second''" and
        vendor = 1 and product = 2 and i = 3 and f = 0 and irq = "- 1" and priv = 0 and ini = None and rd = None
        and wr = None]
  show ?thesis
    using r s by (simp add: split_def)
qed

end
