(* ===== verification/Parser.thy ===== *)
theory Parser
  imports Prelude
begin

text \<open>
  The command tokenizer of the hypervisor, \<open>common/parser.c\<close>: a state machine over the bytes of a line,
  which may arrive in pieces. The token under construction is a byte buffer of the size that was
  allocated; a store outside it is \<open>None\<close>. \<open>alloc\<close> holds the results of the next allocations, which
  succeed when it is empty. What \<open>realloc\<close> adds to a buffer is the argument \<open>u\<close>.
\<close>

section \<open>Data\<close>

abbreviation (input) TOKEN_MAX_SIZE :: nat where "TOKEN_MAX_SIZE \<equiv> 512"

datatype parser_char = PARSER_CHAR_BLANK | PARSER_CHAR_NEWLINE | PARSER_CHAR_COMMENT | PARSER_CHAR_QUOTE
  | PARSER_CHAR_OTHER

datatype parser_error = PARSER_ERROR_NONE | PARSER_ERROR_NOMEM | PARSER_ERROR_UNEXP_QUOTE |
    PARSER_ERROR_UNEXP_EOL

datatype parser_state = PARSER_STATE_DONE | PARSER_STATE_SKIP | PARSER_STATE_BLANK | PARSER_STATE_STRING
  | PARSER_STATE_QUOTED_STRING

record parser_context =
  tok_list :: "u8 list list"
  tok_count :: int
  tmp_tok :: "u8 list option"
  tmp_tot_len :: nat
  tmp_cur_len :: nat
  ps_state :: parser_state
  ps_error :: parser_error
  consumed_len :: nat
  alloc :: "bool list"

definition parser_context_init :: "parser_context \<Rightarrow> parser_context" where
  "parser_context_init ctx =
     ctx\<lparr>tok_list := [], tok_count := 0, tmp_tok := None, tmp_tot_len := 0, tmp_cur_len := 0,
         ps_state := PARSER_STATE_BLANK, ps_error := PARSER_ERROR_NONE, consumed_len := 0\<rparr>"

text \<open>Freeing the tokens and the buffer leaves an initialised context.\<close>

definition parser_context_free :: "parser_context \<Rightarrow> parser_context" where
  "parser_context_free ctx = parser_context_init ctx"

text \<open>The next allocation.\<close>

definition next_alloc :: "parser_context \<Rightarrow> bool \<times> parser_context" where
  "next_alloc ctx = (case alloc ctx of [] \<Rightarrow> (True, ctx) | ok # oks \<Rightarrow> (ok, ctx\<lparr>alloc := oks\<rparr>))"

text \<open>The string at the start of a buffer.\<close>

definition cstring :: "u8 list \<Rightarrow> u8 list" where
  "cstring bs = takeWhile (\<lambda>b. b \<noteq> 0) bs"

section \<open>Tokens\<close>

definition tmp_grow :: "u8 \<Rightarrow> parser_context \<Rightarrow> int \<times> parser_context" where
  "tmp_grow u ctx =
     (if tmp_tok ctx = None \<or> tmp_cur_len ctx + 1 = tmp_tot_len ctx then
        (case next_alloc ctx of
           (False, ctx) \<Rightarrow> (- 1, ctx)
         | (True, ctx) \<Rightarrow>
             (let new_size = tmp_tot_len ctx + TOKEN_MAX_SIZE;
                  old = (case tmp_tok ctx of None \<Rightarrow> [] | Some b \<Rightarrow> b)
              in (0, ctx\<lparr>tmp_tok := Some (old @ replicate (new_size - length old) u),
                  tmp_tot_len := new_size\<rparr>)))
      else (0, ctx))"

definition tmp_token_add_char :: "u8 \<Rightarrow> u8 \<Rightarrow> parser_context \<Rightarrow> (int \<times> parser_context) option" where
  "tmp_token_add_char u c ctx =
     (let (r, ctx) = tmp_grow u ctx in
      if r = - 1 then Some (- 1, ctx)
      else
        (case tmp_tok ctx of None \<Rightarrow> None
         | Some b \<Rightarrow>
             if tmp_cur_len ctx + 1 < length b then
               Some (0, ctx\<lparr>tmp_tok := Some (b[tmp_cur_len ctx := c, tmp_cur_len ctx + 1 := 0]),
                            tmp_cur_len := tmp_cur_len ctx + 1\<rparr>)
             else None))"

definition parser_move_tmp_token :: "parser_context \<Rightarrow> int \<times> parser_context" where
  "parser_move_tmp_token ctx =
     (case tmp_tok ctx of None \<Rightarrow> (0, ctx)
      | Some b \<Rightarrow>
          (case next_alloc ctx of
             (False, ctx) \<Rightarrow> (- 1, ctx)
           | (True, ctx) \<Rightarrow>
               (0, ctx\<lparr>tok_list := tok_list ctx @ [cstring b], tok_count := tok_count ctx + 1,
                       tmp_tok := None, tmp_tot_len := 0, tmp_cur_len := 0\<rparr>)))"

text \<open>The tokens as an array; \<open>calloc\<close> may fail, too.\<close>

definition parser_map_array :: "parser_context \<Rightarrow> u8 list list option \<times> parser_context" where
  "parser_map_array ctx =
     (if tok_count ctx \<le> 0 then (None, ctx)
      else case next_alloc ctx of
        (False, ctx) \<Rightarrow> (None, ctx)
      | (True, ctx) \<Rightarrow> (Some (take (nat (tok_count ctx)) (tok_list ctx)), ctx))"

section \<open>The state machine\<close>

definition parser_get_char_type :: "u8 \<Rightarrow> parser_char" where
  "parser_get_char_type c =
     (if c = 10 \<or> c = 13 \<or> c = 0 then PARSER_CHAR_NEWLINE
      else if c = 9 \<or> c = 32 then PARSER_CHAR_BLANK
      else if c = 33 \<or> c = 35 then PARSER_CHAR_COMMENT
      else if c = 34 then PARSER_CHAR_QUOTE
      else PARSER_CHAR_OTHER)"

text \<open>What the callers of the two token operations do with a failure.\<close>

definition set_nomem :: "parser_context \<Rightarrow> parser_context" where
  "set_nomem ctx = ctx\<lparr>ps_state := PARSER_STATE_SKIP, ps_error := PARSER_ERROR_NOMEM\<rparr>"

definition scan_add_char :: "u8 \<Rightarrow> u8 \<Rightarrow> parser_context \<Rightarrow> parser_context option" where
  "scan_add_char u c ctx =
     map_option (\<lambda>(r, ctx). if r = 0 then ctx else set_nomem ctx) (tmp_token_add_char u c ctx)"

definition scan_end_token :: "parser_context \<Rightarrow> parser_context" where
  "scan_end_token ctx =
     (case parser_move_tmp_token ctx of (r, ctx) \<Rightarrow>
        if r = 0 then ctx\<lparr>ps_state := PARSER_STATE_BLANK\<rparr> else set_nomem ctx)"

definition scan_last_token :: "parser_state \<Rightarrow> parser_context \<Rightarrow> parser_context" where
  "scan_last_token st ctx =
     (case parser_move_tmp_token ctx of (r, ctx) \<Rightarrow>
        (if r = - 1 then ctx\<lparr>ps_error := PARSER_ERROR_NOMEM\<rparr> else ctx)\<lparr>ps_state := st\<rparr>)"

definition parser_scan_char :: "u8 \<Rightarrow> u8 \<Rightarrow> parser_context \<Rightarrow> parser_context option" where
  "parser_scan_char u c ctx0 =
     (let ctx = ctx0\<lparr>consumed_len := consumed_len ctx0 + 1\<rparr>;
          ty = parser_get_char_type c
      in case ps_state ctx of
        PARSER_STATE_SKIP \<Rightarrow>
          Some (if ty = PARSER_CHAR_NEWLINE then ctx\<lparr>ps_state := PARSER_STATE_DONE\<rparr> else ctx)
      | PARSER_STATE_BLANK \<Rightarrow>
          (case ty of
             PARSER_CHAR_BLANK \<Rightarrow> Some ctx
           | PARSER_CHAR_COMMENT \<Rightarrow> Some (ctx\<lparr>ps_state := PARSER_STATE_SKIP\<rparr>)
           | PARSER_CHAR_NEWLINE \<Rightarrow> Some (ctx\<lparr>ps_state := PARSER_STATE_DONE\<rparr>)
           | PARSER_CHAR_QUOTE \<Rightarrow> Some (ctx\<lparr>ps_state := PARSER_STATE_QUOTED_STRING\<rparr>)
           | PARSER_CHAR_OTHER \<Rightarrow>
               map_option (\<lambda>(r, ctx). if r = 0 then ctx\<lparr>ps_state := PARSER_STATE_STRING\<rparr> else set_nomem ctx)
                 (tmp_token_add_char u c ctx))
      | PARSER_STATE_STRING \<Rightarrow>
          (case ty of
             PARSER_CHAR_BLANK \<Rightarrow> Some (scan_end_token ctx)
           | PARSER_CHAR_NEWLINE \<Rightarrow> Some (scan_last_token PARSER_STATE_DONE ctx)
           | PARSER_CHAR_COMMENT \<Rightarrow> Some (scan_last_token PARSER_STATE_SKIP ctx)
           | PARSER_CHAR_QUOTE \<Rightarrow>
               Some (ctx\<lparr>ps_error := PARSER_ERROR_UNEXP_QUOTE, ps_state := PARSER_STATE_SKIP\<rparr>)
           | PARSER_CHAR_OTHER \<Rightarrow> scan_add_char u c ctx)
      | PARSER_STATE_QUOTED_STRING \<Rightarrow>
          (case ty of
             PARSER_CHAR_NEWLINE \<Rightarrow>
               Some (ctx\<lparr>ps_error := PARSER_ERROR_UNEXP_EOL, ps_state := PARSER_STATE_DONE\<rparr>)
           | PARSER_CHAR_QUOTE \<Rightarrow> Some (scan_end_token ctx)
           | _ \<Rightarrow> scan_add_char u c ctx)
      | PARSER_STATE_DONE \<Rightarrow> Some ctx)"

fun parser_scan :: "u8 \<Rightarrow> u8 list \<Rightarrow> parser_context \<Rightarrow> parser_context option" where
  "parser_scan u [] ctx = Some ctx"
| "parser_scan u (c # cs) ctx =
     (if ps_state ctx = PARSER_STATE_DONE then Some ctx
      else case parser_scan_char u c ctx of None \<Rightarrow> None | Some ctx \<Rightarrow> parser_scan u cs ctx)"

definition parser_scan_buffer :: "u8 \<Rightarrow> u8 list \<Rightarrow> parser_context \<Rightarrow> (bool \<times> parser_context) option" where
  "parser_scan_buffer u buf ctx =
     map_option (\<lambda>ctx. (ps_state ctx = PARSER_STATE_DONE, ctx)) (parser_scan u buf ctx)"

section \<open>Safety\<close>

text \<open>The buffer has the size recorded, the token in it is terminated and free of zeros, and the count is
  the length of the list.\<close>

definition parser_ok :: "parser_context \<Rightarrow> bool" where
  "parser_ok ctx \<longleftrightarrow> tok_count ctx = int (length (tok_list ctx))
     \<and> (\<forall>t \<in> set (tok_list ctx). t \<noteq> [] \<and> 0 \<notin> set t)
     \<and> (case tmp_tok ctx of None \<Rightarrow> tmp_tot_len ctx = 0 \<and> tmp_cur_len ctx = 0
        | Some b \<Rightarrow> length b = tmp_tot_len ctx \<and> 0 < tmp_cur_len ctx \<and> tmp_cur_len ctx < tmp_tot_len ctx
            \<and> 0 \<notin> set (take (tmp_cur_len ctx) b) \<and> b ! tmp_cur_len ctx = 0)"

text \<open>The token so far.\<close>

definition cur_token :: "parser_context \<Rightarrow> u8 list" where
  "cur_token ctx = (case tmp_tok ctx of None \<Rightarrow> [] | Some b \<Rightarrow> take (tmp_cur_len ctx) b)"

lemma parser_ok_simps [simp]:
  "parser_ok (ctx\<lparr>consumed_len := n\<rparr>) = parser_ok ctx" "parser_ok (ctx\<lparr>ps_state := st\<rparr>) = parser_ok ctx"
  "parser_ok (ctx\<lparr>ps_error := e\<rparr>) = parser_ok ctx" "parser_ok (ctx\<lparr>alloc := a\<rparr>) = parser_ok ctx"
  "parser_ok (set_nomem ctx) = parser_ok ctx"
  by (simp_all add: parser_ok_def set_nomem_def cong: option.case_cong)

lemma cur_token_simps [simp]:
  "cur_token (ctx\<lparr>consumed_len := n\<rparr>) = cur_token ctx" "cur_token (ctx\<lparr>ps_state := st\<rparr>) = cur_token ctx"
  "cur_token (ctx\<lparr>ps_error := e\<rparr>) = cur_token ctx" "cur_token (ctx\<lparr>alloc := a\<rparr>) = cur_token ctx"
  by (simp_all add: cur_token_def cong: option.case_cong)

lemma next_alloc_eq: "next_alloc ctx = (ok, ctx') \<Longrightarrow> \<exists>a. ctx' = ctx\<lparr>alloc := a\<rparr>"
  by (cases "alloc ctx") (auto simp: next_alloc_def intro: exI [of _ "[]"])

lemma take_snoc_update:
  assumes "n + 1 < length b"
  shows "take (n + 1) (b[n := c, n + 1 := z]) = take n b @ [c]"
  using assms by (simp add: take_Suc_conv_app_nth)

text \<open>Adding a character never leaves the buffer.\<close>

lemma add_char:
  assumes "parser_ok ctx" "c \<noteq> 0"
  shows "\<exists>r ctx'. tmp_token_add_char u c ctx = Some (r, ctx') \<and> parser_ok ctx' \<and> (r = 0 \<or> r = - 1)
     \<and> ps_state ctx' = ps_state ctx \<and> ps_error ctx' = ps_error ctx \<and> tok_list ctx' = tok_list ctx
     \<and> consumed_len ctx' = consumed_len ctx \<and> (alloc ctx = [] \<longrightarrow> r = 0 \<and> alloc ctx' = [])
     \<and> (r = 0 \<longrightarrow> cur_token ctx' = cur_token ctx @ [c])"
proof -
  let ?n = "tmp_cur_len ctx"
  have put: "parser_ok (x\<lparr>tmp_tok := Some (b[?n := c, ?n + 1 := 0]), tmp_cur_len := ?n + 1,
      tmp_tot_len := length b\<rparr>)
      \<and> cur_token (x\<lparr>tmp_tok := Some (b[?n := c, ?n + 1 := 0]), tmp_cur_len := ?n + 1, tmp_tot_len := length b\<rparr>)
          = take ?n b @ [c]"
    if "?n + 1 < length b" "0 \<notin> set (take ?n b)" "tok_list x = tok_list ctx" "tok_count x = tok_count ctx"
        for b x
  proof -
    note t = take_snoc_update [OF that(1), of c 0]
    have "0 \<notin> set (take (?n + 1) (b[?n := c, ?n + 1 := 0]))" unfolding t using that(2) assms(2) by simp
    then show ?thesis using assms(1) that t by (simp add: parser_ok_def cur_token_def)
  qed
  show ?thesis
  proof (cases "tmp_tok ctx = None \<or> ?n + 1 = tmp_tot_len ctx")
    case False
    then obtain b where b: "tmp_tok ctx = Some b" "?n + 1 < length b" "length b = tmp_tot_len ctx"
      "0 \<notin> set (take ?n b)" using assms(1) by (auto simp: parser_ok_def)
    have "ctx\<lparr>tmp_tok := Some (b[?n := c, ?n + 1 := 0]), tmp_cur_len := ?n + 1, tmp_tot_len := length b\<rparr>
        = ctx\<lparr>tmp_tok := Some (b[?n := c, ?n + 1 := 0]), tmp_cur_len := ?n + 1\<rparr>" using b(3) by simp
    then show ?thesis
      using put [OF b(2,4), of ctx] b False by (simp add: tmp_token_add_char_def tmp_grow_def cur_token_def)
  next
    case True
    obtain ok a where ok: "next_alloc ctx = (ok, ctx\<lparr>alloc := a\<rparr>)"
      using next_alloc_eq [of ctx] by (cases "next_alloc ctx") blast
    have em: "alloc ctx = [] \<Longrightarrow> ok \<and> a = []" using ok
      by (auto simp: next_alloc_def dest!: arg_cong [where f = alloc])
    show ?thesis
    proof (cases ok)
      case False
      then show ?thesis using True ok em assms(1) by (auto simp: tmp_token_add_char_def tmp_grow_def)
    next
      case ok': True
      let ?old = "case tmp_tok ctx of None \<Rightarrow> [] | Some b \<Rightarrow> b"
      let ?b = "?old @ replicate (tmp_tot_len ctx + 512 - length ?old) u"
      have l: "length ?old = tmp_tot_len ctx" "?n \<le> length ?old" "0 \<notin> set (take ?n ?old)" "cur_token ctx =
          take ?n ?old"
        using assms(1) by (auto simp: parser_ok_def cur_token_def split: option.splits)
      have lb: "length ?b = tmp_tot_len ctx + 512" "?n + 1 < length ?b" "take ?n ?b = take ?n ?old"
        using l by simp_all
      have "tmp_token_add_char u c ctx = Some (0, (ctx\<lparr>alloc := a\<rparr>)\<lparr>tmp_tok := Some (?b[?n := c, ?n + 1 := 0]),
          tmp_cur_len := ?n + 1, tmp_tot_len := length ?b\<rparr>)"
        using True ok ok' lb(1,2) l(1) by (simp add: tmp_token_add_char_def tmp_grow_def Let_def)
      moreover note put [OF lb(2), of "ctx\<lparr>alloc := a\<rparr>"]
      ultimately show ?thesis using lb(3) l em by simp
    qed
  qed
qed

lemma cur_token_empty: "parser_ok ctx \<Longrightarrow> cur_token ctx = [] \<longleftrightarrow> tmp_tok ctx = None"
  by (auto simp: parser_ok_def cur_token_def split: option.splits)

lemma cstring_prefix:
  assumes "n < length b" "0 \<notin> set (take n b)" "b ! n = 0"
  shows "cstring b = take n b"
proof -
  have "b = take n b @ 0 # drop (Suc n) b" using assms(1,3) by (metis id_take_nth_drop)
  then show ?thesis
    using assms(2) unfolding cstring_def by (metis (mono_tags,
        lifting) takeWhile_append2 takeWhile.simps(2) append_Nil2)
qed

lemma move_token:
  assumes "parser_ok ctx"
  shows "\<exists>r ctx'. parser_move_tmp_token ctx = (r, ctx') \<and> parser_ok ctx' \<and> (r = 0 \<or> r = - 1)
     \<and> ps_state ctx' = ps_state ctx \<and> ps_error ctx' = ps_error ctx \<and> consumed_len ctx' = consumed_len ctx
     \<and> (alloc ctx = [] \<longrightarrow> r = 0 \<and> alloc ctx' = [])
     \<and> (r = 0 \<longrightarrow> cur_token ctx' = []
          \<and> tok_list ctx' = tok_list ctx @ (if cur_token ctx = [] then [] else [cur_token ctx]))"
proof (cases "tmp_tok ctx")
  case None
  then show ?thesis using assms by (simp add: parser_move_tmp_token_def cur_token_def)
next
  case (Some b)
  then have b: "tmp_cur_len ctx < length b" "0 \<notin> set (take (tmp_cur_len ctx) b)" "b ! tmp_cur_len ctx = 0"
    "0 < tmp_cur_len ctx" using assms by (simp_all add: parser_ok_def)
  then have c: "cstring b = take (tmp_cur_len ctx) b" "cur_token ctx = take (tmp_cur_len ctx) b" "cur_token
      ctx \<noteq> []"
    using Some by (auto simp: cur_token_def cstring_prefix)
  obtain ok a where ok: "next_alloc ctx = (ok, ctx\<lparr>alloc := a\<rparr>)"
    using next_alloc_eq [of ctx] by (cases "next_alloc ctx") blast
  have em: "alloc ctx = [] \<Longrightarrow> ok \<and> a = []" using ok by (auto
      simp: next_alloc_def dest!: arg_cong [where f = alloc])
  show ?thesis
  proof (cases ok)
    case False
    then show ?thesis using Some ok em assms by (auto simp: parser_move_tmp_token_def)
  next
    case True
    then show ?thesis
      using Some ok em assms b c by (auto simp: parser_move_tmp_token_def parser_ok_def) (auto
          simp: cur_token_def)
  qed
qed

lemma scan_char_safe:
  assumes "parser_ok ctx"
  shows "\<exists>ctx'. parser_scan_char u c ctx = Some ctx' \<and> parser_ok ctx'"
proof -
  let ?c = "ctx\<lparr>consumed_len := consumed_len ctx + 1\<rparr>"
  have ok: "parser_ok ?c" using assms by simp
  obtain r m where m: "parser_move_tmp_token ?c = (r, m)" "parser_ok m" using move_token [OF ok] by blast
  show ?thesis
  proof (cases "parser_get_char_type c = PARSER_CHAR_NEWLINE")
    case True
    then show ?thesis
      using m ok by (auto simp: parser_scan_char_def scan_last_token_def Let_def split: parser_state.splits)
  next
    case False
    then have "c \<noteq> 0" by (auto simp: parser_get_char_type_def)
    from add_char [OF ok this] obtain r' a where a: "tmp_token_add_char u c ?c = Some (r', a)" "parser_ok a"
        by blast
    show ?thesis
      using m a ok
      by (auto simp: parser_scan_char_def scan_last_token_def scan_end_token_def scan_add_char_def Let_def
          split: parser_state.splits parser_char.splits)
  qed
qed

text \<open>Whatever bytes arrive, and whichever allocations fail, the tokenizer never leaves its buffer; the
  tokens it delivers are not empty and end at their first zero byte, and their count is right.\<close>

theorem parser_scan_safe:
  assumes "parser_ok ctx"
  shows "\<exists>ctx'. parser_scan_buffer u buf ctx = Some (ps_state ctx' = PARSER_STATE_DONE, ctx') \<and> parser_ok ctx'"
proof -
  have "\<exists>ctx'. parser_scan u buf ctx = Some ctx' \<and> parser_ok ctx'"
    using assms
  proof (induction buf arbitrary: ctx)
    case (Cons c cs)
    obtain ctx' where c: "parser_scan_char u c ctx = Some ctx'" "parser_ok ctx'"
      using scan_char_safe [OF Cons.prems] by blast
    show ?case using Cons.prems Cons.IH [OF c(2)] by (simp add: c(1))
  qed simp
  then show ?thesis by (auto simp: parser_scan_buffer_def)
qed

section \<open>Lines\<close>

lemma parser_scan_append:
  "parser_scan u (xs @ ys) ctx = (case parser_scan u xs ctx of None \<Rightarrow> None | Some ctx \<Rightarrow> parser_scan u ys ctx)"
proof (induction xs arbitrary: ctx)
  case (Cons x xs)
  show ?case
  proof (cases "ps_state ctx = PARSER_STATE_DONE")
    case True
    then have "parser_scan u ys ctx = Some ctx" by (cases ys) simp_all
    then show ?thesis using True by simp
  qed (simp add: Cons.IH split: option.split)
qed simp

text \<open>A line that arrives in pieces.\<close>

fun parser_feed :: "u8 \<Rightarrow> u8 list list \<Rightarrow> parser_context \<Rightarrow> parser_context option" where
  "parser_feed u [] ctx = Some ctx"
| "parser_feed u (b # bs) ctx =
     (case parser_scan_buffer u b ctx of None \<Rightarrow> None | Some (_, ctx) \<Rightarrow> parser_feed u bs ctx)"

lemma parser_feed_concat: "parser_feed u bs ctx = parser_scan u (concat bs) ctx"
  by (induction bs arbitrary: ctx) (auto simp: parser_scan_append parser_scan_buffer_def split: option.splits)

definition parser_ready :: "parser_context \<Rightarrow> bool" where
  "parser_ready ctx \<longleftrightarrow> parser_ok ctx \<and> alloc ctx = [] \<and> cur_token ctx = [] \<and> ps_state ctx = PARSER_STATE_BLANK
     \<and> ps_error ctx = PARSER_ERROR_NONE"

text \<open>An argument as a word, or between quotes; the bytes that may stand in each.\<close>

definition word_char :: "u8 \<Rightarrow> bool" where
  "word_char c \<longleftrightarrow> parser_get_char_type c = PARSER_CHAR_OTHER"

definition quoted_char :: "u8 \<Rightarrow> bool" where
  "quoted_char c \<longleftrightarrow> c \<notin> {0, 10, 13, 34}"

fun render_arg :: "bool \<times> u8 list \<Rightarrow> u8 list" where
  "render_arg (quoted, t) = (if quoted then 34 # t @ [34] else t) @ [32]"

fun arg_ok :: "bool \<times> u8 list \<Rightarrow> bool" where
  "arg_ok (quoted, t) \<longleftrightarrow> t \<noteq> [] \<and> (\<forall>c \<in> set t. if quoted then quoted_char c else word_char c)"

lemma scan_add_chars:
  assumes "parser_ok ctx" "alloc ctx = []" "ps_error ctx = PARSER_ERROR_NONE"
    and "ps_state ctx = PARSER_STATE_QUOTED_STRING \<and> (\<forall>c \<in> set t. quoted_char c)
       \<or> ps_state ctx = PARSER_STATE_STRING \<and> (\<forall>c \<in> set t. word_char c)"
  shows "\<exists>ctx'. parser_scan u t ctx = Some ctx' \<and> parser_ok ctx' \<and> alloc ctx' = []
      \<and> ps_error ctx' = PARSER_ERROR_NONE \<and> ps_state ctx' = ps_state ctx \<and> tok_list ctx' = tok_list ctx
      \<and> cur_token ctx' = cur_token ctx @ t"
  using assms
proof (induction t arbitrary: ctx)
  case (Cons c cs)
  let ?c = "ctx\<lparr>consumed_len := consumed_len ctx + 1\<rparr>"
  have ok: "parser_ok ?c" "alloc ?c = []" using Cons.prems by simp_all
  have "c \<noteq> 0" using Cons.prems(4) by (auto simp: quoted_char_def word_char_def parser_get_char_type_def)
  from add_char [OF ok(1) this, of u] ok(2) obtain a where a: "tmp_token_add_char u c ?c = Some (0,
      a)" "parser_ok a"
    "ps_state a = ps_state ctx" "ps_error a = ps_error ctx" "tok_list a = tok_list ctx" "alloc a = []"
    "cur_token a = cur_token ctx @ [c]" by auto
  have ty: "ps_state ctx = PARSER_STATE_QUOTED_STRING \<and> parser_get_char_type c \<in> {PARSER_CHAR_OTHER,
      PARSER_CHAR_BLANK, PARSER_CHAR_COMMENT}
      \<or> ps_state ctx = PARSER_STATE_STRING \<and> parser_get_char_type c = PARSER_CHAR_OTHER"
    using Cons.prems(4) by (auto simp: quoted_char_def word_char_def parser_get_char_type_def)
  then have "parser_scan_char u c ctx = scan_add_char u c ?c"
    by (auto simp: parser_scan_char_def Let_def)
  then have s: "parser_scan_char u c ctx = Some a" using a(1) by (simp add: scan_add_char_def)
  have "\<exists>ctx'. parser_scan u cs a = Some ctx' \<and> parser_ok ctx' \<and> alloc ctx' = []
      \<and> ps_error ctx' = PARSER_ERROR_NONE \<and> ps_state ctx' = ps_state a \<and> tok_list ctx' = tok_list a
      \<and> cur_token ctx' = cur_token a @ cs"
    by (rule Cons.IH) (use a Cons.prems in auto)
  moreover have "ps_state ctx \<noteq> PARSER_STATE_DONE" using ty by auto
  ultimately show ?case using s a by auto
qed simp

lemma scan_arg:
  assumes "parser_ready ctx" "arg_ok x"
  shows "\<exists>ctx'. parser_scan u (render_arg x) ctx = Some ctx' \<and> parser_ready ctx' \<and>
      tok_list ctx' = tok_list ctx @ [snd x]"
proof -
  obtain quoted t where x: "x = (quoted, t)" by (cases x)
  note r = assms(1) [unfolded parser_ready_def]
  let ?c = "ctx\<lparr>consumed_len := consumed_len ctx + 1\<rparr>"
  have fin: "\<exists>ctx'. parser_scan_char u c m = Some ctx' \<and> parser_ready ctx' \<and> tok_list ctx' = tok_list m @ [t]"
    if "parser_ok m" "alloc m = []" "ps_error m = PARSER_ERROR_NONE" "cur_token m = t"
      "ps_state m = PARSER_STATE_QUOTED_STRING \<and> c = 34 \<or> ps_state m = PARSER_STATE_STRING \<and> c = 32" for m c
  proof -
    let ?m = "m\<lparr>consumed_len := consumed_len m + 1\<rparr>"
    have "parser_scan_char u c m = Some (scan_end_token ?m)"
      using that(5) by (auto simp: parser_scan_char_def parser_get_char_type_def Let_def)
    moreover have "t \<noteq> []" using assms(2) x by simp
    ultimately show ?thesis
      using move_token [of ?m] that by (auto simp: scan_end_token_def parser_ready_def)
  qed
  show ?thesis
  proof (cases quoted)
    case True
    let ?m = "?c\<lparr>ps_state := PARSER_STATE_QUOTED_STRING\<rparr>"
    have 1: "parser_scan_char u 34 ctx = Some ?m"
      using r by (simp add: parser_scan_char_def parser_get_char_type_def)
    obtain m where m: "parser_scan u t ?m = Some m" "parser_ok m" "alloc m = []" "ps_error m =
        PARSER_ERROR_NONE"
      "ps_state m = PARSER_STATE_QUOTED_STRING" "tok_list m = tok_list ctx" "cur_token m = t"
      using scan_add_chars [of ?m t u] r assms(2) True x by auto
    obtain m' where m': "parser_scan_char u 34 m = Some m'" "parser_ready m'" "tok_list m' = tok_list ctx @ [t]"
      using fin [of m 34] m by auto
    let ?e = "m'\<lparr>consumed_len := consumed_len m' + 1\<rparr>"
    have "parser_scan_char u 32 m' = Some ?e"
      using m'(2) by (simp add: parser_scan_char_def parser_get_char_type_def parser_ready_def)
    moreover have "parser_ready ?e" using m'(2) by (simp add: parser_ready_def)
    moreover have "ps_state m' \<noteq> PARSER_STATE_DONE" using m'(2) by (simp add: parser_ready_def)
    ultimately show ?thesis using 1 m m' r True x by (simp add: parser_scan_append)
  next
    case False
    then obtain c cs where t: "t = c # cs" "word_char c" "\<forall>c \<in> set cs. word_char c"
      using assms(2) x by (cases t) auto
    then have "c \<noteq> 0" by (auto simp: word_char_def parser_get_char_type_def)
    from add_char [of ?c, OF _ this, of u] r obtain a where a: "tmp_token_add_char u c ?c = Some (0,
        a)" "parser_ok a"
      "ps_error a = PARSER_ERROR_NONE" "tok_list a = tok_list ctx" "alloc a = []" "cur_token a = [c]" by auto
    let ?m = "a\<lparr>ps_state := PARSER_STATE_STRING\<rparr>"
    have 1: "parser_scan_char u c ctx = Some ?m"
      using r t(2) a(1) by (simp add: parser_scan_char_def word_char_def Let_def)
    obtain m where m: "parser_scan u cs ?m = Some m" "parser_ok m" "alloc m = []" "ps_error m =
        PARSER_ERROR_NONE"
      "ps_state m = PARSER_STATE_STRING" "tok_list m = tok_list ctx" "cur_token m = t"
      using scan_add_chars [of ?m cs u] a t by auto
    obtain m' where "parser_scan_char u 32 m = Some m'" "parser_ready m'" "tok_list m' = tok_list ctx @ [t]"
      using fin [of m 32] m by auto
    then show ?thesis using 1 m r False x t(1) by (simp add: parser_scan_append)
  qed
qed

lemma scan_args:
  assumes "parser_ready ctx" "\<forall>x \<in> set args. arg_ok x"
  shows "\<exists>ctx'. parser_scan u (concat (map render_arg args)) ctx = Some ctx' \<and> parser_ready ctx'
     \<and> tok_list ctx' = tok_list ctx @ map snd args"
  using assms
proof (induction args arbitrary: ctx)
  case (Cons x xs)
  obtain c where c: "parser_scan u (render_arg x) ctx = Some c" "parser_ready c" "tok_list c = tok_list ctx
      @ [snd x]"
    using scan_arg [OF Cons.prems(1), of x u] Cons.prems(2) by (meson list.set_intros(1))
  show ?case using Cons.IH [OF c(2)] Cons.prems(2) c by (simp add: parser_scan_append)
qed simp


text \<open>An empty argument between quotes is dropped.\<close>

lemma empty_argument_lost:
  assumes "parser_ready ctx" "tmp_tok ctx = None"
  shows "parser_scan u [34, 34, 32] ctx = Some (ctx\<lparr>consumed_len := consumed_len ctx + 3\<rparr>)"
  using assms
  by (simp add: parser_ready_def parser_scan_char_def parser_get_char_type_def scan_end_token_def
      parser_move_tmp_token_def)

section \<open>Instances\<close>

definition new_context :: parser_context where
  "new_context = \<lparr>tok_list = [], tok_count = 0, tmp_tok = None, tmp_tot_len = 0, tmp_cur_len = 0,
     ps_state = PARSER_STATE_BLANK, ps_error = PARSER_ERROR_NONE, consumed_len = 0, alloc = []\<rparr>"

lemma new_context_ready: "parser_ready new_context" "parser_ok new_context" "tok_list new_context = []"
  by (simp_all add: new_context_def parser_ready_def parser_ok_def cur_token_def)

theorem parser_scan_safe_witness:
  "\<exists>ctx'. parser_scan_buffer 0xFF [34, 1, 10] (new_context\<lparr>alloc := [False]\<rparr>)
     = Some (ps_state ctx' = PARSER_STATE_DONE, ctx') \<and> parser_ok ctx'"
  by (rule parser_scan_safe) (simp add: new_context_ready)


end
