(* ===== verification/Hypervisor.thy ===== *)
theory Hypervisor
  imports Parser
begin

text \<open>
  The command server of the hypervisor, \<open>stable/hypervisor.c\<close>: modules of commands, the commands of the
  module \<open>hypervisor\<close>, the dispatch of a command line and the loop that serves a connection. The lines are
  what \<open>fgets\<close> returned. The handlers of the other modules, the files and the reset of the program are
  parameters. A reply is its code, whether it is the last of its command, its format and the arguments of
  the format. An access to an argument that is not there is \<open>None\<close>.
\<close>

section \<open>Data\<close>

definition cstr :: "string \<Rightarrow> u8 list" where
  "cstr s = map of_char s"

datatype 'f cmd_handler = Cmd_version | Cmd_parser_test | Cmd_mod_list | Cmd_modcmd_list
  | Cmd_set_working_dir | Cmd_save_config | Cmd_reset | Cmd_close | Cmd_stop | Cmd_other 'f

record 'f hypervisor_cmd =
  hc_name :: "u8 list"
  min_param :: int
  max_param :: int
  hc_handler :: "'f cmd_handler"

record 'f hypervisor_module =
  hm_name :: "u8 list"
  hm_opt :: nat
  cmd_list :: "'f hypervisor_cmd list"

datatype reply_arg = Arg_int int | Arg_str "u8 list"

record hv_reply =
  rp_code :: int
  rp_done :: bool
  rp_format :: string
  rp_args :: "reply_arg list"

record 'f hypervisor_conn =
  cn_active :: bool
  cur_module :: "'f hypervisor_module option"
  cn_out :: "hv_reply list"

record ('f, 's) hypervisor =
  module_list :: "'f hypervisor_module list"
  hypervisor_running :: bool
  hv_world :: 's

type_synonym ('f, 's) served = "'f hypervisor_conn \<times> ('f, 's) hypervisor"

text \<open>The results of \<open>chdir\<close> and of \<open>fopen\<close> are \<open>None\<close> or the text of the error.\<close>

record ('f, 's) hypervisor_env =
  sw_version :: "u8 list"
  he_chdir :: "u8 list \<Rightarrow> 's \<Rightarrow> u8 list option \<times> 's"
  he_save_config :: "u8 list \<Rightarrow> 's \<Rightarrow> u8 list option \<times> 's"
  he_reset :: "'s \<Rightarrow> 's"
  he_call :: "'f \<Rightarrow> u8 list list \<Rightarrow> ('f, 's) served \<Rightarrow> (int \<times> ('f, 's) served) option"

abbreviation (input) HSC_INFO_OK :: int where "HSC_INFO_OK \<equiv> 100"
abbreviation (input) HSC_INFO_MSG :: int where "HSC_INFO_MSG \<equiv> 101"
abbreviation (input) HSC_ERR_PARSING :: int where "HSC_ERR_PARSING \<equiv> 200"
abbreviation (input) HSC_ERR_UNK_MODULE :: int where "HSC_ERR_UNK_MODULE \<equiv> 201"
abbreviation (input) HSC_ERR_UNK_CMD :: int where "HSC_ERR_UNK_CMD \<equiv> 202"
abbreviation (input) HSC_ERR_BAD_PARAM :: int where "HSC_ERR_BAD_PARAM \<equiv> 203"
abbreviation (input) HSC_ERR_INV_PARAM :: int where "HSC_ERR_INV_PARAM \<equiv> 204"
abbreviation (input) HSC_ERR_FILE :: int where "HSC_ERR_FILE \<equiv> 211"

section \<open>Replies and modules\<close>

text \<open>The format of a name in single quotes.\<close>

definition quoted_fmt :: string where
  "quoted_fmt = [CHR 0x27] @ ''%s'' @ [CHR 0x27]"

definition hypervisor_send_reply ::
    "int \<Rightarrow> bool \<Rightarrow> string \<Rightarrow> reply_arg list \<Rightarrow> 'f hypervisor_conn \<Rightarrow> 'f hypervisor_conn" where
  "hypervisor_send_reply code fin format args conn =
     conn\<lparr>cn_out := cn_out conn @ [\<lparr>rp_code = code, rp_done = fin, rp_format = format, rp_args = args\<rparr>]\<rparr>"

definition hypervisor_find_module :: "u8 list \<Rightarrow> ('f, 's) hypervisor \<Rightarrow> 'f hypervisor_module option" where
  "hypervisor_find_module name hv = find (\<lambda>m. hm_name m = name) (module_list hv)"

definition hypervisor_find_cmd :: "'f hypervisor_module \<Rightarrow> u8 list \<Rightarrow> 'f hypervisor_cmd option" where
  "hypervisor_find_cmd m name = find (\<lambda>c. hc_name c = name) (cmd_list m)"

text \<open>\<open>mem\<close> is the success of \<open>malloc\<close>.\<close>

definition hypervisor_register_module ::
    "bool \<Rightarrow> u8 list \<Rightarrow> nat \<Rightarrow> ('f, 's) hypervisor \<Rightarrow> bool \<times> ('f, 's) hypervisor" where
  "hypervisor_register_module mem name opt hv =
     (if hypervisor_find_module name hv \<noteq> None then (False, hv)
      else if \<not> mem then (False, hv)
      else (True, hv\<lparr>module_list := \<lparr>hm_name = name, hm_opt = opt, cmd_list = []\<rparr> # module_list hv\<rparr>))"

text \<open>The module is the one of that name in the list.\<close>

definition update_module ::
    "u8 list \<Rightarrow> ('f hypervisor_module \<Rightarrow> 'f hypervisor_module) \<Rightarrow> ('f, 's) hypervisor \<Rightarrow> ('f, 's) hypervisor" where
  "update_module name f hv = hv\<lparr>module_list := map (\<lambda>m. if hm_name m = name then f m else m) (module_list hv)\<rparr>"

definition hypervisor_register_cmd_list ::
    "'f hypervisor_cmd list \<Rightarrow> 'f hypervisor_module \<Rightarrow> 'f hypervisor_module" where
  "hypervisor_register_cmd_list cmds m = m\<lparr>cmd_list := cmds @ cmd_list m\<rparr>"

fun hypervisor_register_cmd_array ::
    "'f hypervisor_cmd list \<Rightarrow> 'f hypervisor_module \<Rightarrow> 'f hypervisor_module" where
  "hypervisor_register_cmd_array [] m = m"
| "hypervisor_register_cmd_array (c # cs) m = hypervisor_register_cmd_array cs (m\<lparr>cmd_list := c # cmd_list m\<rparr>)"

section \<open>The commands of the hypervisor\<close>

definition mk_cmd :: "string \<Rightarrow> int \<Rightarrow> int \<Rightarrow> 'f cmd_handler \<Rightarrow> 'f hypervisor_cmd" where
  "mk_cmd name mn mx h = \<lparr>hc_name = cstr name, min_param = mn, max_param = mx, hc_handler = h\<rparr>"

definition hypervisor_cmd_array :: "'f hypervisor_cmd list" where
  "hypervisor_cmd_array =
     [mk_cmd ''version'' 0 0 Cmd_version,
      mk_cmd ''parser_test'' 0 10 Cmd_parser_test,
      mk_cmd ''module_list'' 0 0 Cmd_mod_list,
      mk_cmd ''cmd_list'' 1 1 Cmd_modcmd_list,
      mk_cmd ''working_dir'' 1 1 Cmd_set_working_dir,
      mk_cmd ''save_config'' 1 1 Cmd_save_config,
      mk_cmd ''reset'' 0 0 Cmd_reset,
      mk_cmd ''close'' 0 0 Cmd_close,
      mk_cmd ''stop'' 0 0 Cmd_stop]"

abbreviation (input) reply_ok :: "'f hypervisor_conn \<Rightarrow> 'f hypervisor_conn" where
  "reply_ok \<equiv> hypervisor_send_reply HSC_INFO_OK True ''OK'' []"

definition cmd_version :: "u8 list \<Rightarrow> 'f hypervisor_conn \<Rightarrow> 'f hypervisor_conn" where
  "cmd_version v = hypervisor_send_reply HSC_INFO_OK True ''%s'' [Arg_str v]"

fun parser_test_args :: "nat \<Rightarrow> u8 list list \<Rightarrow> 'f hypervisor_conn \<Rightarrow> 'f hypervisor_conn" where
  "parser_test_args i [] conn = conn"
| "parser_test_args i (a # as) conn =
     parser_test_args (i + 1) as
       (hypervisor_send_reply HSC_INFO_MSG False ''arg %d (len %lu): \"%s\"''
          [Arg_int (int i), Arg_int (int (length a)), Arg_str a] conn)"

definition cmd_parser_test :: "u8 list list \<Rightarrow> 'f hypervisor_conn \<Rightarrow> 'f hypervisor_conn" where
  "cmd_parser_test argv conn = reply_ok (parser_test_args 0 argv conn)"

fun send_each :: "('a \<Rightarrow> 'f hypervisor_conn \<Rightarrow> 'f hypervisor_conn) \<Rightarrow> 'a list \<Rightarrow> 'f hypervisor_conn \<Rightarrow>
    'f hypervisor_conn" where
  "send_each f [] conn = conn"
| "send_each f (x # xs) conn = send_each f xs (f x conn)"

definition cmd_mod_list :: "('f, 's) hypervisor \<Rightarrow> 'f hypervisor_conn \<Rightarrow> 'f hypervisor_conn" where
  "cmd_mod_list hv conn =
     reply_ok (send_each (\<lambda>m. hypervisor_send_reply HSC_INFO_MSG False ''%s'' [Arg_str (hm_name m)])
       (module_list hv) conn)"

definition cmd_modcmd_list ::
    "u8 list \<Rightarrow> ('f, 's) hypervisor \<Rightarrow> 'f hypervisor_conn \<Rightarrow> int \<times> 'f hypervisor_conn" where
  "cmd_modcmd_list name hv conn =
     (case hypervisor_find_module name hv of
        None \<Rightarrow> (- 1, hypervisor_send_reply HSC_ERR_UNK_MODULE True (''unknown module '' @ quoted_fmt)
            [Arg_str name] conn)
      | Some m \<Rightarrow>
          (0, reply_ok (send_each (\<lambda>c. hypervisor_send_reply HSC_INFO_MSG False ''%s (min/max args: %d/%d)''
                 [Arg_str (hc_name c), Arg_int (min_param c), Arg_int (max_param c)]) (cmd_list m) conn)))"

definition cmd_set_working_dir :: "('f, 's) hypervisor_env \<Rightarrow> u8 list \<Rightarrow> ('f, 's) served \<Rightarrow> int \<times> ('f,
    's) served" where
  "cmd_set_working_dir env name s =
     (case s of (conn, hv) \<Rightarrow>
      case he_chdir env name (hv_world hv) of
        (Some e, w) \<Rightarrow> (0, hypervisor_send_reply HSC_ERR_INV_PARAM True ''chdir: %s'' [Arg_str e] conn,
            hv\<lparr>hv_world := w\<rparr>)
      | (None, w) \<Rightarrow> (0, reply_ok conn, hv\<lparr>hv_world := w\<rparr>))"

definition cmd_save_config :: "('f, 's) hypervisor_env \<Rightarrow> u8 list \<Rightarrow> ('f, 's) served \<Rightarrow> int \<times> ('f,
    's) served" where
  "cmd_save_config env name s =
     (case s of (conn, hv) \<Rightarrow>
      case he_save_config env name (hv_world hv) of
        (Some e, w) \<Rightarrow> (- 1, hypervisor_send_reply HSC_ERR_FILE True ''fopen: %s'' [Arg_str e] conn,
            hv\<lparr>hv_world := w\<rparr>)
      | (None, w) \<Rightarrow> (0, reply_ok conn, hv\<lparr>hv_world := w\<rparr>))"

definition cmd_reset :: "('f, 's) hypervisor_env \<Rightarrow> ('f, 's) served \<Rightarrow> ('f, 's) served" where
  "cmd_reset env s = (case s of (conn, hv) \<Rightarrow> (reply_ok conn, hv\<lparr>hv_world := he_reset env (hv_world hv)\<rparr>))"

definition cmd_close :: "'f hypervisor_conn \<Rightarrow> 'f hypervisor_conn" where
  "cmd_close conn = (reply_ok conn)\<lparr>cn_active := False\<rparr>"

definition cmd_stop :: "('f, 's) served \<Rightarrow> ('f, 's) served" where
  "cmd_stop s = (case s of (conn, hv) \<Rightarrow> (reply_ok conn, hv\<lparr>hypervisor_running := False\<rparr>))"

section \<open>Dispatch\<close>

definition call_handler :: "('f, 's) hypervisor_env \<Rightarrow> 'f cmd_handler \<Rightarrow> u8 list list \<Rightarrow> ('f, 's) served \<Rightarrow>
    (int \<times> ('f, 's) served) option" where
  "call_handler env h argv s =
     (case s of (conn, hv) \<Rightarrow>
      case h of
        Cmd_version \<Rightarrow> Some (0, cmd_version (sw_version env) conn, hv)
      | Cmd_parser_test \<Rightarrow> Some (0, cmd_parser_test argv conn, hv)
      | Cmd_mod_list \<Rightarrow> Some (0, cmd_mod_list hv conn, hv)
      | Cmd_modcmd_list \<Rightarrow>
          (case argv of [] \<Rightarrow> None
           | a # _ \<Rightarrow> (case cmd_modcmd_list a hv conn of (r, conn) \<Rightarrow> Some (r, conn, hv)))
      | Cmd_set_working_dir \<Rightarrow> (case argv of [] \<Rightarrow> None | a # _ \<Rightarrow> Some (cmd_set_working_dir env a s))
      | Cmd_save_config \<Rightarrow> (case argv of [] \<Rightarrow> None | a # _ \<Rightarrow> Some (cmd_save_config env a s))
      | Cmd_reset \<Rightarrow> Some (0, cmd_reset env s)
      | Cmd_close \<Rightarrow> Some (0, cmd_close conn, hv)
      | Cmd_stop \<Rightarrow> Some (0, cmd_stop s)
      | Cmd_other f \<Rightarrow> he_call env f argv s)"

definition hypervisor_exec_cmd :: "('f, 's) hypervisor_env \<Rightarrow> u8 list \<Rightarrow> u8 list \<Rightarrow> u8 list list \<Rightarrow>
    ('f, 's) served \<Rightarrow> (int \<times> ('f, 's) served) option" where
  "hypervisor_exec_cmd env mod_name cmd_name argv s =
     (case s of (conn, hv) \<Rightarrow>
      case hypervisor_find_module mod_name hv of
        None \<Rightarrow>
          Some (- 1, hypervisor_send_reply HSC_ERR_UNK_MODULE True (''Unknown module '' @ quoted_fmt)
              [Arg_str mod_name] conn, hv)
      | Some m \<Rightarrow>
          (case hypervisor_find_cmd m cmd_name of
             None \<Rightarrow>
               Some (- 1, hypervisor_send_reply HSC_ERR_UNK_CMD True (''Unknown command '' @ quoted_fmt)
                   [Arg_str cmd_name] conn, hv)
           | Some cmd \<Rightarrow>
               if int (length argv) < min_param cmd \<or> max_param cmd < int (length argv) then
                 Some (- 1, hypervisor_send_reply HSC_ERR_BAD_PARAM True
                     ''Bad number of parameters (%d with min/max=%d/%d)''
                     [Arg_int (int (length argv)), Arg_int (min_param cmd), Arg_int (max_param cmd)] conn, hv)
               else call_handler env (hc_handler cmd) argv (conn\<lparr>cur_module := Some m\<rparr>, hv)))"

definition parser_strerror :: "parser_error \<Rightarrow> string" where
  "parser_strerror e =
     (case e of PARSER_ERROR_NONE \<Rightarrow> ''no error''
      | PARSER_ERROR_NOMEM \<Rightarrow> ''insufficient memory''
      | PARSER_ERROR_UNEXP_QUOTE \<Rightarrow> ''unexpected quote''
      | PARSER_ERROR_UNEXP_EOL \<Rightarrow> ''unexpected end of line'')"

text \<open>A complete line, with the tokens in \<open>ctx\<close>.\<close>

definition hypervisor_run_line :: "('f, 's) hypervisor_env \<Rightarrow> parser_context \<Rightarrow> ('f, 's) served \<Rightarrow>
    (parser_context \<times> ('f, 's) served) option" where
  "hypervisor_run_line env ctx s =
     (case s of (conn, hv) \<Rightarrow>
      if ps_error ctx \<noteq> PARSER_ERROR_NONE then
        Some (parser_context_free ctx, hypervisor_send_reply HSC_ERR_PARSING True ''Parse error: %s''
          [Arg_str (cstr (parser_strerror (ps_error ctx)))] conn, hv)
      else if tok_count ctx < 2 then
        Some (parser_context_free ctx, hypervisor_send_reply HSC_ERR_PARSING True
          ''At least a module and a command must be specified'' [] conn, hv)
      else
        (case parser_map_array ctx of
           (None, ctx) \<Rightarrow>
             Some (parser_context_free ctx,
                 hypervisor_send_reply HSC_ERR_PARSING True ''No memory'' [] conn, hv)
         | (Some tokens, ctx) \<Rightarrow>
             (case tokens of
                m # c # argv \<Rightarrow>
                  map_option (\<lambda>(_, s). (parser_context_free ctx, s)) (hypervisor_exec_cmd env m c argv s)
              | _ \<Rightarrow> None)))"

text \<open>One turn of the loop, on a buffer that \<open>fgets\<close> filled.\<close>

definition hypervisor_line :: "('f, 's) hypervisor_env \<Rightarrow> u8 \<Rightarrow> u8 list \<Rightarrow> parser_context \<times> ('f, 's) served \<Rightarrow>
    (parser_context \<times> ('f, 's) served) option" where
  "hypervisor_line env u buffer st =
     (case st of (ctx, s) \<Rightarrow>
      if cstring buffer = [] then Some st
      else
        (case parser_scan_buffer u (cstring buffer) ctx of
           None \<Rightarrow> None
         | Some (res, ctx) \<Rightarrow> if res then hypervisor_run_line env ctx s else Some (ctx, s)))"

fun hypervisor_thread :: "('f, 's) hypervisor_env \<Rightarrow> u8 \<Rightarrow> u8 list list \<Rightarrow> parser_context \<times> ('f, 's) served \<Rightarrow>
    (parser_context \<times> ('f, 's) served) option" where
  "hypervisor_thread env u [] (ctx, s) = Some (parser_context_free ctx, s)"
| "hypervisor_thread env u (b # bs) (ctx, s) =
     (if \<not> cn_active (fst s) then Some (parser_context_free ctx, s)
      else case hypervisor_line env u b (ctx, s) of None \<Rightarrow> None | Some st \<Rightarrow> hypervisor_thread env u bs st)"

definition hypervisor_init :: "bool \<Rightarrow> ('f, 's) hypervisor \<Rightarrow> ('f, 's) hypervisor option" where
  "hypervisor_init mem hv =
     (case hypervisor_register_module mem (cstr ''hypervisor'') 0 hv of
        (False, _) \<Rightarrow> None
      | (True, hv) \<Rightarrow> Some (update_module (cstr ''hypervisor'') (hypervisor_register_cmd_array
          hypervisor_cmd_array) hv))"

section \<open>One answer for one line\<close>

text \<open>What a command adds to the replies: messages, and one last reply.\<close>

definition answered :: "hv_reply list \<Rightarrow> hv_reply list \<Rightarrow> bool" where
  "answered old new \<longleftrightarrow> (\<exists>msgs r. new = old @ msgs @ [r] \<and> (\<forall>m \<in> set msgs. \<not> rp_done m) \<and> rp_done r)"

lemma answered_reply [simp]:
  "answered (cn_out conn) (cn_out (hypervisor_send_reply code True f args conn))"
  unfolding answered_def by (rule exI [of _ "[]"]) (simp add: hypervisor_send_reply_def)

lemma answered_msgs:
  assumes "cn_out conn' = cn_out conn @ msgs" "\<forall>m \<in> set msgs. \<not> rp_done m"
  shows "answered (cn_out conn) (cn_out (hypervisor_send_reply code True f args conn'))"
  using assms unfolding answered_def by (auto simp: hypervisor_send_reply_def)

lemma send_each_msgs:
  assumes "\<And>x c. \<exists>m. cn_out (f x c) = cn_out c @ [m] \<and> \<not> rp_done m"
  shows "\<exists>ms. cn_out (send_each f xs conn) = cn_out conn @ ms \<and> (\<forall>m \<in> set ms. \<not> rp_done m)"
proof (induction xs arbitrary: conn)
  case (Cons x xs)
  obtain m where m: "cn_out (f x conn) = cn_out conn @ [m]" "\<not> rp_done m" using assms by blast
  obtain ms where "cn_out (send_each f xs (f x conn)) = cn_out (f x conn) @ ms" "\<forall>m \<in> set ms. \<not> rp_done m"
    using Cons by blast
  then show ?case using m by (intro exI [of _ "m # ms"]) simp
qed simp

lemma parser_test_msgs:
  "\<exists>ms. cn_out (parser_test_args i as conn) = cn_out conn @ ms \<and> (\<forall>m \<in> set ms. \<not> rp_done m)"
proof (induction as arbitrary: i conn)
  case (Cons a as)
  let ?c = "hypervisor_send_reply HSC_INFO_MSG False ''arg %d (len %lu): \"%s\"''
      [Arg_int (int i), Arg_int (int (length a)), Arg_str a] conn"
  obtain ms where "cn_out (parser_test_args (i + 1) as ?c) = cn_out ?c @ ms" "\<forall>m \<in> set ms. \<not> rp_done m"
    using Cons by blast
  then show ?case by (auto simp: hypervisor_send_reply_def)
qed simp

text \<open>What is asked of a handler: it answers once, whatever its arguments.\<close>

definition answers_once :: "(('f, 's) served \<Rightarrow> (int \<times> ('f, 's) served) option) \<Rightarrow> bool" where
  "answers_once h \<longleftrightarrow> (\<forall>conn hv. \<exists>r conn' hv'. h (conn, hv) = Some (r, conn', hv')
     \<and> answered (cn_out conn) (cn_out conn'))"

lemma builtin_answers:
  assumes "\<And>f argv. answers_once (he_call env f argv)"
    and "h \<in> {Cmd_modcmd_list, Cmd_set_working_dir, Cmd_save_config} \<Longrightarrow> argv \<noteq> []"
  shows "answers_once (call_handler env h argv)"
proof -
  have 1: "answered (cn_out conn) (cn_out (cmd_parser_test argv conn))" for conn :: "'a hypervisor_conn"
    using parser_test_msgs [of 0 argv conn] answered_msgs by (fastforce simp: cmd_parser_test_def)
  have 2: "answered (cn_out conn) (cn_out (cmd_mod_list hv conn))" for conn and hv :: "('a, 'b) hypervisor"
    using send_each_msgs [of "\<lambda>m. hypervisor_send_reply HSC_INFO_MSG False ''%s'' [Arg_str (hm_name m)]"]
        answered_msgs
    by (fastforce simp: cmd_mod_list_def hypervisor_send_reply_def [of _ False])
  have 3: "answered (cn_out conn) (cn_out (snd (cmd_modcmd_list a hv conn)))" for a conn and hv :: "('a,
      'b) hypervisor"
    using send_each_msgs [of "\<lambda>c. hypervisor_send_reply HSC_INFO_MSG False ''%s (min/max args: %d/%d)''
                 [Arg_str (hc_name c), Arg_int (min_param c), Arg_int (max_param c)]"] answered_msgs
    by (fastforce simp: cmd_modcmd_list_def hypervisor_send_reply_def [of _ False] split: option.split)
  show ?thesis
    unfolding answers_once_def
  proof (intro allI)
    fix conn hv
    show "\<exists>r conn' hv'. call_handler env h argv (conn, hv) = Some (r, conn', hv') \<and>
        answered (cn_out conn) (cn_out conn')"
    proof (cases h)
      case (Cmd_other f)
      then show ?thesis using assms(1) [of f argv] by (simp add: call_handler_def answers_once_def)
    next
      case Cmd_modcmd_list
      then obtain a as where "argv = a # as" using assms(2) by (cases argv) auto
      then show ?thesis using Cmd_modcmd_list 3 [of conn a hv] by (auto
          simp: call_handler_def split: prod.split)
    next
      case Cmd_set_working_dir
      then obtain a as where "argv = a # as" using assms(2) by (cases argv) auto
      then show ?thesis
        using Cmd_set_working_dir by (simp add: call_handler_def cmd_set_working_dir_def split: prod.split
            option.split)
    next
      case Cmd_save_config
      then obtain a as where "argv = a # as" using assms(2) by (cases argv) auto
      then show ?thesis
        using Cmd_save_config by (simp add: call_handler_def cmd_save_config_def split: prod.split option.split)
    qed (use 1 2 in \<open>simp_all add: call_handler_def cmd_version_def cmd_reset_def cmd_close_def cmd_stop_def\<close>)
  qed
qed

text \<open>The commands that read their first argument require one.\<close>

definition hv_commands_ok :: "('f, 's) hypervisor \<Rightarrow> bool" where
  "hv_commands_ok hv \<longleftrightarrow> (\<forall>m \<in> set (module_list hv). \<forall>c \<in> set (cmd_list m).
     hc_handler c \<in> {Cmd_modcmd_list, Cmd_set_working_dir, Cmd_save_config} \<longrightarrow> 1 \<le> min_param c)"

lemma exec_answers:
  assumes "\<And>f argv. answers_once (he_call env f argv)" "hv_commands_ok hv"
  shows "\<exists>r conn' hv'. hypervisor_exec_cmd env m c argv (conn, hv) = Some (r, conn', hv')
     \<and> answered (cn_out conn) (cn_out conn')"
proof (cases "hypervisor_find_module m hv")
  case None
  then show ?thesis by (simp add: hypervisor_exec_cmd_def)
next
  case (Some md)
  show ?thesis
  proof (cases "hypervisor_find_cmd md c")
    case None
    then show ?thesis using Some by (simp add: hypervisor_exec_cmd_def)
  next
    case (Some cmd)
    have "md \<in> set (module_list hv)" "cmd \<in> set (cmd_list md)"
      using \<open>hypervisor_find_module m hv = Some md\<close> Some
      by (auto simp: hypervisor_find_module_def hypervisor_find_cmd_def find_Some_iff in_set_conv_nth)
    then have need: "hc_handler cmd \<in> {Cmd_modcmd_list, Cmd_set_working_dir, Cmd_save_config} \<Longrightarrow>
        1 \<le> min_param cmd"
      using assms(2) by (auto simp: hv_commands_ok_def)
    show ?thesis
    proof (cases "int (length argv) < min_param cmd \<or> max_param cmd < int (length argv)")
      case True
      then show ?thesis
        using \<open>hypervisor_find_module m hv = Some md\<close> Some by (simp add: hypervisor_exec_cmd_def)
    next
      case False
      then have "hc_handler cmd \<in> {Cmd_modcmd_list, Cmd_set_working_dir, Cmd_save_config} \<Longrightarrow> argv \<noteq> []"
        using need by auto
      from builtin_answers [of env, OF assms(1) this] have "answers_once (call_handler env (hc_handler cmd)
          argv)" by blast
      then obtain r conn' hv' where "call_handler env (hc_handler cmd) argv (conn\<lparr>cur_module := Some md\<rparr>, hv)
          = Some (r, conn', hv')" "answered (cn_out (conn\<lparr>cur_module := Some md\<rparr>)) (cn_out conn')"
        unfolding answers_once_def by blast
      then show ?thesis
        using \<open>hypervisor_find_module m hv = Some md\<close> Some False by (auto simp: hypervisor_exec_cmd_def)
    qed
  qed
qed

lemma parser_free_ok [simp]:
  "parser_ok (parser_context_free ctx)" "ps_state (parser_context_free ctx) = PARSER_STATE_BLANK"
  "tok_list (parser_context_free ctx) = []"
  by (simp_all add: parser_context_free_def parser_context_init_def parser_ok_def)

lemma run_line_answers:
  assumes "\<And>f argv. answers_once (he_call env f argv)" "hv_commands_ok hv" "parser_ok ctx"
  shows "\<exists>x conn' hv'. hypervisor_run_line env ctx (conn, hv) = Some (parser_context_free x, conn', hv')
     \<and> answered (cn_out conn) (cn_out conn')"
proof -
  obtain tokens ctx' where map: "parser_map_array ctx = (tokens, ctx')" by (cases "parser_map_array ctx")
  show ?thesis
  proof (cases "ps_error ctx \<noteq> PARSER_ERROR_NONE \<or> tok_count ctx < 2 \<or> tokens = None")
    case True
    then show ?thesis using map by (auto simp: hypervisor_run_line_def)
  next
    case False
    then obtain ts where ts: "tokens = Some ts" by auto
    have "ts = tok_list ctx"
      using map ts assms(3) by (auto simp: parser_map_array_def parser_ok_def split: if_splits prod.splits
          bool.splits
          dest!: next_alloc_eq)
    then have "2 \<le> length ts" using assms(3) False by (simp add: parser_ok_def)
    then obtain m c argv where "ts = m # c # argv" by (cases ts; cases "tl ts") auto
    then show ?thesis
      using exec_answers [OF assms(1,2), of m c argv conn] map ts False by (auto simp: hypervisor_run_line_def)
  qed
qed


section \<open>Dispatch of a rendered line\<close>

lemma rendered_no_zero:
  assumes "\<forall>x \<in> set args. arg_ok x"
  shows "0 \<notin> set (concat (map render_arg args))"
proof -
  have "0 \<notin> set (render_arg x)" if "arg_ok x" for x
    using that by (cases x) (auto simp: quoted_char_def word_char_def parser_get_char_type_def split: if_splits)
  then show ?thesis using assms by auto
qed

text \<open>A command line is the call of its command: a line that renders a module, a command and arguments, as
  words or between quotes, does what the dispatch of exactly these strings does, and the tokenizer is
  ready again.\<close>

theorem hypervisor_dispatch:
  assumes "parser_ready ctx" "tok_list ctx = []" "\<forall>x \<in> set ((qm, m) # (qc, c) # args). arg_ok x"
  shows "\<exists>ctx'. parser_ready ctx' \<and> tok_list ctx' = []
     \<and> hypervisor_line env u (concat (map render_arg ((qm, m) # (qc, c) # args)) @ [10]) (ctx, s)
         = map_option (\<lambda>(_, s). (ctx', s)) (hypervisor_exec_cmd env m c (map snd args) s)"
proof -
  let ?args = "(qm, m) # (qc, c) # args"
  let ?line = "concat (map render_arg ?args) @ [10]"
  have "0 \<notin> set ?line" using rendered_no_zero [OF assms(3)] by (simp del: render_arg.simps)
  then have line: "cstring ?line = ?line" "?line \<noteq> []"
    by (auto simp: cstring_def takeWhile_eq_all_conv simp del: render_arg.simps)
  obtain x where x: "parser_scan u (concat (map render_arg ?args)) ctx = Some x" "parser_ready x"
    "tok_list x = map snd ?args"
    using scan_args [OF assms(1,3)] assms(2) by auto
  let ?y = "x\<lparr>consumed_len := consumed_len x + 1, ps_state := PARSER_STATE_DONE\<rparr>"
  have "parser_scan_char u 10 x = Some ?y"
    using x(2) by (simp add: parser_ready_def parser_scan_char_def parser_get_char_type_def)
  then have scan: "parser_scan_buffer u ?line ctx = Some (True, ?y)"
    unfolding parser_scan_buffer_def parser_scan_append x(1) using x(2) by (simp add: parser_ready_def)
  have cnt: "tok_count ?y = int (length ?args)" "ps_error ?y = PARSER_ERROR_NONE" "alloc ?y = []" "tok_list
      ?y = map snd ?args"
    using x(2,3) by (simp_all add: parser_ready_def parser_ok_def)
  have map: "parser_map_array ?y = (Some (m # c # map snd args), ?y)"
    using cnt by (simp add: parser_map_array_def next_alloc_def)
  obtain conn hv where s: "s = (conn, hv)" by (cases s)
  have "hypervisor_line env u ?line (ctx, s) = hypervisor_run_line env ?y s"
    using line scan by (simp add: hypervisor_line_def)
  also have "\<dots> = map_option (\<lambda>(_, s). (parser_context_free ?y,
      s)) (hypervisor_exec_cmd env m c (map snd args) s)"
    unfolding hypervisor_run_line_def s prod.case map using cnt by simp
  finally have "hypervisor_line env u ?line (ctx, s)
      = map_option (\<lambda>(_, s). (parser_context_free ?y, s)) (hypervisor_exec_cmd env m c (map snd args) s)" .
  moreover have "parser_ready (parser_context_free ?y)"
    using cnt(3) by (simp add: parser_ready_def parser_ok_def parser_context_free_def
        parser_context_init_def cur_token_def)
  ultimately show ?thesis by (intro exI [of _ "parser_context_free ?y"]) simp
qed

section \<open>Instances\<close>

definition demo_hv_env :: "(unit, nat) hypervisor_env" where
  "demo_hv_env = \<lparr>sw_version = [0x31], he_chdir = (\<lambda>_ w. (None, w)), he_save_config = (\<lambda>_ w. (Some [0x45], w)),
     he_reset = (\<lambda>w. 0), he_call = (\<lambda>_ argv (conn, hv). Some (0, reply_ok conn, hv))\<rparr>"

definition demo_hv :: "(unit, nat) hypervisor" where
  "demo_hv = the (hypervisor_init True \<lparr>module_list = [], hypervisor_running = True, hv_world = 7\<rparr>)"

definition demo_conn :: "unit hypervisor_conn" where
  "demo_conn = \<lparr>cn_active = True, cur_module = None, cn_out = []\<rparr>"

lemma demo_hv_modules:
  "module_list demo_hv = [hypervisor_register_cmd_array hypervisor_cmd_array
     \<lparr>hm_name = cstr ''hypervisor'', hm_opt = 0, cmd_list = []\<rparr>]"
  by (simp add: demo_hv_def hypervisor_init_def hypervisor_register_module_def hypervisor_find_module_def
      update_module_def)

lemma demo_hv_ok: "hv_commands_ok demo_hv" "answers_once (he_call demo_hv_env f argv)"
  by (simp_all add: hv_commands_ok_def demo_hv_modules hypervisor_cmd_array_def mk_cmd_def answers_once_def
      demo_hv_env_def)


theorem hypervisor_dispatch_witness:
  "\<exists>ctx'. hypervisor_line demo_hv_env 0xFF (cstr ''hypervisor reset '' @ [10]) (new_context, demo_conn, demo_hv)
     = Some (ctx', (reply_ok demo_conn)\<lparr>cur_module := Some (hd (module_list demo_hv))\<rparr>, demo_hv\<lparr>hv_world := 0\<rparr>)"
proof -
  let ?m = "cstr ''hypervisor''" and ?c = "cstr ''reset''"
  have ok: "\<forall>x \<in> set [(False, ?m), (False, ?c)]. arg_ok x"
    by (simp add: cstr_def word_char_def parser_get_char_type_def)
  have line: "concat (map render_arg [(False, ?m), (False, ?c)]) @ [10] = cstr ''hypervisor reset '' @ [10]"
    by (simp add: cstr_def)
  have "hypervisor_exec_cmd demo_hv_env ?m ?c [] (demo_conn, demo_hv)
      = Some (0, (reply_ok demo_conn)\<lparr>cur_module := Some (hd (module_list demo_hv))\<rparr>, demo_hv\<lparr>hv_world := 0\<rparr>)"
    by (simp add: hypervisor_exec_cmd_def hypervisor_find_module_def hypervisor_find_cmd_def demo_hv_modules
        hypervisor_cmd_array_def mk_cmd_def cstr_def call_handler_def cmd_reset_def hypervisor_send_reply_def
        demo_hv_env_def)
  then show ?thesis
    using hypervisor_dispatch [OF new_context_ready(1,3) ok, of demo_hv_env "0xFF" "(demo_conn, demo_hv)"]
    unfolding line by auto
qed

end
