(* ===== verification/PhysMem.thy ===== *)
theory PhysMem
  imports Device Memory
begin

text \<open>
  Physical memory as the devices see it, \<open>common/memory.c\<close>: the host pointer for a guest physical
  address, the copies of bytes, words and blocks between the guest and the host, transfers inside the
  guest and the search for bytes. Blocks are byte lists. A device handler is an argument and gets the
  identifier of the handler of the device; its result is a host pointer, 0 for none, and the new data.
\<close>

type_synonym 'd phys_handler =
  "nat \<Rightarrow> dev_ptr \<Rightarrow> u32 \<Rightarrow> nat \<Rightarrow> mts_op \<Rightarrow> u64 \<Rightarrow> 'd vm_instance \<Rightarrow> (u64 \<times> u64, 'd vm_instance) outcome"

abbreviation (input) VM_PAGE_IMASK :: u64 where "VM_PAGE_IMASK \<equiv> 0xfff"
abbreviation (input) MEMLOG_COUNT :: nat where "MEMLOG_COUNT \<equiv> 16"

section \<open>Host pointers\<close>

text \<open>The result is the pointer and the data.\<close>

definition physmem_get_hptr :: "'d phys_handler \<Rightarrow> u64 \<Rightarrow> nat \<Rightarrow> mts_op \<Rightarrow> u64 \<Rightarrow> 'd vm_instance \<Rightarrow>
    (u64 \<times> u64, 'd vm_instance) outcome" where
  "physmem_get_hptr h paddr op_size op_type data vm =
     (case dev_lookup paddr False vm of None \<Rightarrow> Ok (0, data) vm
      | Some p \<Rightarrow>
          (let dev = vdevs vm p in
           if dev_flags dev AND VDEVICE_FLAG_SPARSE \<noteq> 0 then
             obind (dev_sparse_get_host_addr p paddr op_type vm)
               (\<lambda>(ptr, cow) vm. Ok (if ptr = 0 then 0 else ptr + (paddr AND VM_PAGE_IMASK), data) vm)
           else if host_addr dev \<noteq> 0 \<and> dev_flags dev AND VDEVICE_FLAG_NO_MTS_MMAP = 0 then
             Ok (host_addr dev + (paddr - phys_addr dev), data) vm
           else if op_size = 0 then Ok (0, data) vm
           else h (dev_handler dev) p (ucast (paddr - phys_addr dev)) op_size op_type data vm))"

section \<open>Words\<close>

definition physmem_copy_u32_from_vm :: "'d phys_handler \<Rightarrow> u64 \<Rightarrow> 'd vm_instance \<Rightarrow> (u32,
    'd vm_instance) outcome" where
  "physmem_copy_u32_from_vm h paddr vm =
     obind (physmem_get_hptr h paddr 4 MTS_READ 0 vm)
       (\<lambda>(ptr, tmp) vm. Ok (ucast (if ptr \<noteq> 0 then host_read32 (host_mem vm) ptr else tmp)) vm)"

definition physmem_copy_u16_from_vm :: "'d phys_handler \<Rightarrow> u64 \<Rightarrow> 'd vm_instance \<Rightarrow> (u16,
    'd vm_instance) outcome" where
  "physmem_copy_u16_from_vm h paddr vm =
     obind (physmem_get_hptr h paddr 2 MTS_READ 0 vm)
       (\<lambda>(ptr, tmp) vm. Ok (ucast (if ptr \<noteq> 0 then host_read16 (host_mem vm) ptr else tmp)) vm)"

definition physmem_copy_u8_from_vm :: "'d phys_handler \<Rightarrow> u64 \<Rightarrow> 'd vm_instance \<Rightarrow> (u8,
    'd vm_instance) outcome" where
  "physmem_copy_u8_from_vm h paddr vm =
     obind (physmem_get_hptr h paddr 1 MTS_READ 0 vm)
       (\<lambda>(ptr, tmp) vm. Ok (ucast (if ptr \<noteq> 0 then host_read8 (host_mem vm) ptr else tmp)) vm)"

abbreviation set_mem :: "((u64 \<Rightarrow> u8) \<Rightarrow> (u64 \<Rightarrow> u8)) \<Rightarrow> 'd vm_instance \<Rightarrow> 'd vm_instance" where
  "set_mem f vm \<equiv> vm\<lparr>host_mem := f (host_mem vm)\<rparr>"

definition physmem_copy_u32_to_vm :: "'d phys_handler \<Rightarrow> u64 \<Rightarrow> u32 \<Rightarrow> 'd vm_instance \<Rightarrow> (unit,
    'd vm_instance) outcome" where
  "physmem_copy_u32_to_vm h paddr val vm =
     obind (physmem_get_hptr h paddr 4 MTS_WRITE (ucast val) vm)
       (\<lambda>(ptr, tmp) vm. Ok () (if ptr \<noteq> 0 then set_mem (host_write32 ptr (ucast val)) vm else vm))"

definition physmem_copy_u16_to_vm :: "'d phys_handler \<Rightarrow> u64 \<Rightarrow> u16 \<Rightarrow> 'd vm_instance \<Rightarrow> (unit,
    'd vm_instance) outcome" where
  "physmem_copy_u16_to_vm h paddr val vm =
     obind (physmem_get_hptr h paddr 2 MTS_WRITE (ucast val) vm)
       (\<lambda>(ptr, tmp) vm. Ok () (if ptr \<noteq> 0 then set_mem (host_write16 ptr (ucast val)) vm else vm))"

definition physmem_copy_u8_to_vm :: "'d phys_handler \<Rightarrow> u64 \<Rightarrow> u8 \<Rightarrow> 'd vm_instance \<Rightarrow> (unit,
    'd vm_instance) outcome" where
  "physmem_copy_u8_to_vm h paddr val vm =
     obind (physmem_get_hptr h paddr 1 MTS_WRITE (ucast val) vm)
       (\<lambda>(ptr, tmp) vm. Ok () (if ptr \<noteq> 0 then set_mem (host_write8 ptr (ucast val)) vm else vm))"

section \<open>Blocks\<close>

text \<open>\<open>memcpy\<close> from and to host memory.\<close>

definition read_block :: "(u64 \<Rightarrow> u8) \<Rightarrow> u64 \<Rightarrow> nat \<Rightarrow> u8 list" where
  "read_block m a n = map (\<lambda>i. m (a + of_nat i)) [0..<n]"

definition write_block :: "u64 \<Rightarrow> u8 list \<Rightarrow> (u64 \<Rightarrow> u8) \<Rightarrow> (u64 \<Rightarrow> u8)" where
  "write_block a bs m = (\<lambda>x. if unat (x - a) < length bs then bs ! unat (x - a) else m x)"

definition page_rest :: "u64 \<Rightarrow> nat" where
  "page_rest paddr = 4096 - unat (paddr AND VM_PAGE_IMASK)"

text \<open>The part of at most four bytes that goes through the handler of a device. The switch has no case for
  three bytes: they stay what they were.\<close>

definition copy_part_from_vm :: "'d phys_handler \<Rightarrow> u8 list \<Rightarrow> u64 \<Rightarrow> 'd vm_instance \<Rightarrow>
    (u8 list, 'd vm_instance) outcome" where
  "copy_part_from_vm h part paddr vm =
     (if length part = 4 then obind (physmem_copy_u32_from_vm h paddr vm) (\<lambda>v vm. Ok (m_hton32 v) vm)
      else if length part = 2 then obind (physmem_copy_u16_from_vm h paddr vm) (\<lambda>v vm. Ok (m_hton16 v) vm)
      else if length part = 1 then obind (physmem_copy_u8_from_vm h paddr vm) (\<lambda>v vm. Ok [v] vm)
      else Ok part vm)"

definition copy_part_to_vm :: "'d phys_handler \<Rightarrow> u8 list \<Rightarrow> u64 \<Rightarrow> 'd vm_instance \<Rightarrow>
    (unit, 'd vm_instance) outcome" where
  "copy_part_to_vm h part paddr vm =
     (if length part = 4 then
        physmem_copy_u32_to_vm h paddr (m_ntoh32 (part ! 0) (part ! 1) (part ! 2) (part ! 3)) vm
      else if length part = 2 then physmem_copy_u16_to_vm h paddr (m_ntoh16 (part ! 0) (part ! 1)) vm
      else if length part = 1 then physmem_copy_u8_to_vm h paddr (part ! 0) vm
      else Ok () vm)"

lemma page_rest_pos [simp]: "0 < page_rest a"
proof -
  have "unat (a AND 0xfff) < 2 ^ 12"
    using unat_take_bit_less [of 12 a] by (simp add: take_bit_eq_mask mask_eq_exp_minus_1)
  then show ?thesis by (simp add: page_rest_def)
qed

text \<open>The result is the contents of the buffer, which holds \<open>buf\<close> at first.\<close>

function physmem_copy_from_vm :: "'d phys_handler \<Rightarrow> u8 list \<Rightarrow> u64 \<Rightarrow> 'd vm_instance \<Rightarrow>
    (u8 list, 'd vm_instance) outcome" where
  "physmem_copy_from_vm h buf paddr vm =
     (if buf = [] then Ok [] vm
      else
        (let r = min (page_rest paddr) (length buf);
             q = min (length buf) 4
         in obind (physmem_get_hptr h paddr 0 MTS_READ 0 vm)
              (\<lambda>(ptr, dummy) vm.
                 if ptr \<noteq> 0 then
                   obind (physmem_copy_from_vm h (drop r buf) (paddr + of_nat r) vm)
                     (\<lambda>rest vm'. Ok (read_block (host_mem vm) ptr r @ rest) vm')
                 else
                   obind (copy_part_from_vm h (take q buf) paddr vm)
                     (\<lambda>part vm. obind (physmem_copy_from_vm h (drop q buf) (paddr + of_nat q) vm)
                        (\<lambda>rest vm. Ok (part @ rest) vm)))))"
  by pat_completeness auto
termination
  by (relation "measure (\<lambda>(h, buf, paddr, vm). length buf)") auto

function physmem_copy_to_vm :: "'d phys_handler \<Rightarrow> u8 list \<Rightarrow> u64 \<Rightarrow> 'd vm_instance \<Rightarrow>
    (unit, 'd vm_instance) outcome" where
  "physmem_copy_to_vm h buf paddr vm =
     (if buf = [] then Ok () vm
      else
        (let r = min (page_rest paddr) (length buf);
             q = min (length buf) 4
         in obind (physmem_get_hptr h paddr 0 MTS_WRITE 0 vm)
              (\<lambda>(ptr, dummy) vm.
                 if ptr \<noteq> 0 then
                   physmem_copy_to_vm h (drop r buf) (paddr + of_nat r) (set_mem (write_block ptr (take r
                       buf)) vm)
                 else
                   obind (copy_part_to_vm h (take q buf) paddr vm)
                     (\<lambda>_ vm. physmem_copy_to_vm h (drop q buf) (paddr + of_nat q) vm))))"
  by pat_completeness auto
termination
  by (relation "measure (\<lambda>(h, buf, paddr, vm). length buf)") auto

text \<open>The transfer stops at the first page without memory of its own.\<close>

function physmem_dma_transfer :: "'d phys_handler \<Rightarrow> u64 \<Rightarrow> u64 \<Rightarrow> nat \<Rightarrow> 'd vm_instance \<Rightarrow>
    (unit, 'd vm_instance) outcome" where
  "physmem_dma_transfer h src dst n vm =
     (if n = 0 then Ok () vm
      else
        obind (physmem_get_hptr h src 0 MTS_READ 0 vm)
          (\<lambda>(sptr, dummy) vm. obind (physmem_get_hptr h dst 0 MTS_WRITE 0 vm)
             (\<lambda>(dptr, dummy) vm.
                if sptr = 0 \<or> dptr = 0 then Ok () vm
                else
                  (let clen = min (min (page_rest src) (page_rest dst)) n
                   in physmem_dma_transfer h (src + of_nat clen) (dst + of_nat clen) (n - clen)
                        (set_mem (write_block dptr (read_block (host_mem vm) sptr clen)) vm)))))"
  by pat_completeness auto
termination
  by (relation "measure (\<lambda>(h, src, dst, n, vm). n)") auto

declare physmem_copy_from_vm.simps [simp del] physmem_copy_to_vm.simps [simp del] physmem_dma_transfer.simps
    [simp del]

section \<open>Strings and search\<close>

definition physmem_strnlen :: "u64 \<Rightarrow> nat \<Rightarrow> 'd vm_instance \<Rightarrow> nat" where
  "physmem_strnlen paddr maxlen vm =
     (case dev_lookup paddr True vm of None \<Rightarrow> 0
      | Some p \<Rightarrow>
          (let d = vdevs vm p in
           if host_addr d = 0 then 0
           else
             (let ptr = host_addr d + (paddr - phys_addr d);
                  m = min maxlen (unat (ucast (phys_len d) - (paddr - phys_addr d)))
              in length (takeWhile (\<lambda>b. b \<noteq> 0) (read_block (host_mem vm) ptr m)))))"

text \<open>The search keeps the last \<open>len\<close> bytes in a ring that starts at \<open>i\<close>.\<close>

definition ring_match :: "u8 list \<Rightarrow> nat \<Rightarrow> u8 list \<Rightarrow> bool" where
  "ring_match ring i bytes \<longleftrightarrow>
     (let n = length bytes in
      (i = 0 \<or> take i ring = drop (n - i) bytes) \<and> take (n - i) (drop i ring) = take (n - i) bytes)"

text \<open>Filling: the loop over \<open>buflen\<close>.\<close>

fun cfind_fill :: "'d phys_handler \<Rightarrow> nat \<Rightarrow> u64 \<Rightarrow> u64 \<Rightarrow> nat \<Rightarrow> u8 list \<Rightarrow> 'd vm_instance \<Rightarrow>
    (u8 list \<times> nat, 'd vm_instance) outcome" where
  "cfind_fill h 0 first last_addr buflen ring vm = Ok (ring, buflen) vm"
| "cfind_fill h (Suc k) first last_addr buflen ring vm =
     (if first + of_nat buflen \<le> last_addr then
        obind (physmem_copy_u8_from_vm h (first + of_nat buflen) vm)
          (\<lambda>b vm. cfind_fill h k first last_addr (buflen + 1) (ring[buflen := b]) vm)
      else Ok (ring, buflen) vm)"

text \<open>Testing: the inner \<open>while\<close>; the fuel is the number of addresses left. The result is the match, if any,
  with \<open>first\<close>, \<open>i\<close> and the ring.\<close>

fun cfind_scan :: "'d phys_handler \<Rightarrow> u8 list \<Rightarrow> nat \<Rightarrow> u64 \<Rightarrow> u64 \<Rightarrow> nat \<Rightarrow> u8 list \<Rightarrow> 'd vm_instance \<Rightarrow>
    (bool \<times> u64 \<times> nat \<times> u8 list, 'd vm_instance) outcome" where
  "cfind_scan h bytes 0 first last_addr i ring vm = Ok (False, first, i, ring) vm"
| "cfind_scan h bytes (Suc k) first last_addr i ring vm =
     (if first + of_nat (length bytes) \<le> last_addr then
        (let i = (if length bytes \<le> i then 0 else i) in
         if ring_match ring i bytes then Ok (True, first, i, ring) vm
         else
           obind (physmem_copy_u8_from_vm h (first + of_nat (length bytes)) vm)
             (\<lambda>b vm. cfind_scan h bytes k (first + 1) last_addr (i + 1) (ring[i := b]) vm))
      else Ok (False, first, i, ring) vm)"

fun cfind_devs :: "'d phys_handler \<Rightarrow> u8 list \<Rightarrow> u64 \<Rightarrow> dev_ptr list \<Rightarrow> u64 \<Rightarrow> nat \<Rightarrow> nat \<Rightarrow> u8 list \<Rightarrow>
    'd vm_instance \<Rightarrow> (u64 option, 'd vm_instance) outcome" where
  "cfind_devs h bytes lim [] first i buflen ring vm = Ok None vm"
| "cfind_devs h bytes lim (p # ps) first i buflen ring vm =
     (let dev = vdevs vm p in
      if lim < phys_addr dev then Ok None vm
      else if dev_flags dev AND VDEVICE_FLAG_CACHING = 0 then cfind_devs h bytes lim ps first i buflen ring vm
      else
        (let again = (first + of_nat buflen \<noteq> phys_addr dev);
             i = (if again then 0 else i);
             buflen = (if again then 0 else buflen);
             end_addr = phys_addr dev + ucast (phys_len dev) - 1;
             last_addr = (if lim < end_addr then lim else end_addr)
         in obind (cfind_fill h (length bytes - buflen) first last_addr buflen ring vm)
              (\<lambda>(ring, buflen) vm.
                 if buflen < length bytes then cfind_devs h bytes lim ps first i buflen ring vm
                 else
                   obind (cfind_scan h bytes (unat (last_addr - first) + 1) first last_addr i ring vm)
                     (\<lambda>(found, first, i, ring) vm.
                        if found then Ok (Some first) vm
                        else cfind_devs h bytes lim ps first i buflen ring vm))))"

text \<open>\<open>ring\<close> is the memory \<open>malloc\<close> returned, \<open>None\<close> when it failed; the result is the address found.\<close>

definition physmem_cfind :: "'d phys_handler \<Rightarrow> u8 list option \<Rightarrow> u8 list \<Rightarrow> u64 \<Rightarrow> u64 \<Rightarrow> 'd vm_instance \<Rightarrow>
    (u64 option, 'd vm_instance) outcome" where
  "physmem_cfind h ring bytes first lim vm =
     (if bytes = [] \<or> lim < first \<or> lim - first < of_nat (length bytes) + 1 then Ok None vm
      else case ring of None \<Rightarrow> Ok None vm
      | Some ring \<Rightarrow> cfind_devs h bytes lim (dev_list vm) first 0 0 ring vm)"

section \<open>The log of accesses\<close>

record memlog_access =
  ml_iaddr :: u64
  ml_vaddr :: u64
  ml_data :: u64
  ml_data_valid :: bool
  ml_op_size :: u32
  ml_op_type :: mts_op

record memlog =
  memlog_array :: "memlog_access list"
  memlog_pos :: nat

definition memlog_rec_access :: "u64 \<Rightarrow> u64 \<Rightarrow> u64 \<Rightarrow> u32 \<Rightarrow> mts_op \<Rightarrow> memlog \<Rightarrow> memlog" where
  "memlog_rec_access pc vaddr data op_size op_type l =
     l\<lparr>memlog_array := (memlog_array l)[memlog_pos l :=
          \<lparr>ml_iaddr = pc, ml_vaddr = vaddr, ml_data = data, ml_data_valid = (op_type = MTS_WRITE),
           ml_op_size = op_size, ml_op_type = op_type\<rparr>],
       memlog_pos := (memlog_pos l + 1) mod MEMLOG_COUNT\<rparr>"

text \<open>A recorded read is completed from the host address once it is known.\<close>

definition memlog_update_read :: "u64 \<Rightarrow> (u64 \<Rightarrow> u8) \<Rightarrow> memlog \<Rightarrow> memlog" where
  "memlog_update_read raddr m l =
     (let k = (memlog_pos l + MEMLOG_COUNT - 1) mod MEMLOG_COUNT;
          acc = memlog_array l ! k
      in if ml_op_type acc = MTS_READ then
           (let acc = (if ml_op_size acc = 1 then acc\<lparr>ml_data := host_read8 m raddr\<rparr>
                       else if ml_op_size acc = 2 then acc\<lparr>ml_data := host_read16 m raddr\<rparr>
                       else if ml_op_size acc = 4 then acc\<lparr>ml_data := host_read32 m raddr\<rparr>
                       else if ml_op_size acc = 8 then acc\<lparr>ml_data := host_read64 m raddr\<rparr>
                       else acc)
            in l\<lparr>memlog_array := (memlog_array l)[k := acc\<lparr>ml_data_valid := True\<rparr>]\<rparr>)
         else l)"

text \<open>The position stays inside the log, and recording a read and completing it leaves one entry with its data.\<close>

definition memlog_ok :: "memlog \<Rightarrow> bool" where
  "memlog_ok l \<longleftrightarrow> length (memlog_array l) = MEMLOG_COUNT \<and> memlog_pos l < MEMLOG_COUNT"

lemma memlog_ok_kept [simp]:
  "memlog_ok l \<Longrightarrow> memlog_ok (memlog_rec_access pc va data sz op l)"
  "memlog_ok l \<Longrightarrow> memlog_ok (memlog_update_read raddr m l)"
  by (simp_all add: memlog_ok_def memlog_rec_access_def memlog_update_read_def Let_def)

lemma memlog_read_recorded:
  assumes "memlog_ok l"
  shows "memlog_array (memlog_update_read raddr m (memlog_rec_access pc va data 4 MTS_READ l))
    = (memlog_array l)[memlog_pos l := \<lparr>ml_iaddr = pc, ml_vaddr = va, ml_data = host_read32 m raddr,
         ml_data_valid = True, ml_op_size = 4, ml_op_type = MTS_READ\<rparr>]"
proof -
  have "((memlog_pos l + 1) mod 16 + 16 - 1) mod 16 = memlog_pos l"
    using assms by (cases "memlog_pos l = 15") (auto simp: memlog_ok_def)
  then show ?thesis using assms by (simp add: memlog_ok_def memlog_rec_access_def memlog_update_read_def
      Let_def)
qed

section \<open>Blocks inside one memory device\<close>

definition host_at :: "'d vm_instance \<Rightarrow> dev_ptr \<Rightarrow> u64 \<Rightarrow> u64" where
  "host_at vm p a = host_addr (vdevs vm p) + (a - phys_addr (vdevs vm p))"

definition ram_block :: "'d vm_instance \<Rightarrow> dev_ptr \<Rightarrow> u64 \<Rightarrow> nat \<Rightarrow> bool" where
  "ram_block vm p a n \<longleftrightarrow> n < 2 ^ 32
     \<and> dev_flags (vdevs vm p) AND VDEVICE_FLAG_SPARSE = 0 \<and> host_addr (vdevs vm p) \<noteq> 0
     \<and> dev_flags (vdevs vm p) AND VDEVICE_FLAG_NO_MTS_MMAP = 0
     \<and> (\<forall>i<n. dev_lookup (a + of_nat i) False vm = Some p \<and> host_at vm p (a + of_nat i) \<noteq> 0)"

lemma ram_block_hptr:
  "ram_block vm p a n \<Longrightarrow> 0 < n \<Longrightarrow> physmem_get_hptr h a sz op data vm = Ok (host_at vm p a, data) vm \<and>
      host_at vm p a \<noteq> 0"
  by (auto simp: ram_block_def physmem_get_hptr_def Let_def host_at_def dest!: spec [of _ 0])

lemma ram_block_drop:
  assumes "ram_block vm p a n" "r \<le> n"
  shows "ram_block vm p (a + of_nat r) (n - r)"
proof -
  have "dev_lookup (a + of_nat r + of_nat i) False vm = Some p \<and> host_at vm p (a + of_nat r + of_nat i) \<noteq> 0"
    if "i < n - r" for i
  proof -
    have "r + i < n" using that by simp
    then show ?thesis using assms(1) by (simp add: ram_block_def add.assoc flip: of_nat_add)
  qed
  then show ?thesis using assms by (auto simp: ram_block_def)
qed

lemma ram_block_mem [simp]:
  "ram_block (vm\<lparr>host_mem := m\<rparr>) p a n = ram_block vm p a n" "host_at (vm\<lparr>host_mem := m\<rparr>) p a = host_at vm p a"
  by (simp_all add: ram_block_def host_at_def dev_lookup_def)

lemma host_at_add: "host_at vm p (a + x) = host_at vm p a + x"
  by (simp add: host_at_def)

lemma read_block_append: "r \<le> n \<Longrightarrow> read_block m a r @ read_block m (a + of_nat r) (n - r) = read_block m a n"
proof -
  assume r: "r \<le> n"
  have "map (\<lambda>i. m (a + of_nat r + of_nat i)) [0..<n - r] = map (\<lambda>i. m (a + of_nat i)) [r..<n]"
    using r by (intro nth_equalityI) (simp_all add: add.assoc)
  moreover have "[0..<n] = [0..<r] @ [r..<n]" using upt_add_eq_append [of 0 r "n - r"] r by simp
  ultimately show ?thesis by (simp add: read_block_def)
qed

lemma length_read_block [simp]: "length (read_block m a n) = n"
  by (simp add: read_block_def)

lemma unat_shift:
  fixes x :: u64
  assumes "r < 2 ^ 32"
  shows "unat (x - of_nat r) = (if r \<le> unat x then unat x - r else 2 ^ 64 + unat x - r)"
proof -
  have u: "unat (of_nat r :: u64) = r" using assms by (simp add: unat_of_nat)
  show ?thesis
  proof (cases "r \<le> unat x")
    case True
    then have "of_nat r \<le> x" by (simp add: word_le_nat_alt u)
    then show ?thesis using True by (simp add: unat_sub u)
  next
    case False
    then have "\<not> of_nat r \<le> x" by (simp add: word_le_nat_alt u)
    then show ?thesis using False by (simp add: unat_sub_if' u)
  qed
qed

lemma write_block_append:
  assumes "length xs + length ys < 2 ^ 32"
  shows "write_block (a + of_nat (length xs)) ys (write_block a xs m) = write_block a (xs @ ys) m"
proof
  fix x
  have "x - (a + of_nat (length xs)) = (x - a) - of_nat (length xs)" by simp
  moreover have "length xs < 2 ^ 32" using assms by simp
  ultimately have u: "unat (x - (a + of_nat (length xs)))
      = (if length xs \<le> unat (x - a) then unat (x - a) - length xs else 2 ^ 64 + unat (x - a) - length xs)"
    by (simp only: unat_shift)
  show "write_block (a + of_nat (length xs)) ys (write_block a xs m) x = write_block a (xs @ ys) m x"
  proof (cases "length xs \<le> unat (x - a)")
    case True
    then show ?thesis unfolding write_block_def u by (auto simp: nth_append)
  next
    case False
    then have "\<not> 2 ^ 64 + unat (x - a) - length xs < length ys" using assms by simp
    then show ?thesis unfolding write_block_def u using False by (auto simp: nth_append)
  qed
qed

lemma copy_to_ram:
  assumes "ram_block vm p a (length bs)"
  shows "physmem_copy_to_vm h bs a vm = Ok () (set_mem (write_block (host_at vm p a) bs) vm)"
  using assms
proof (induction "length bs" arbitrary: bs a vm rule: less_induct)
  case less
  show ?case
  proof (cases "bs = []")
    case True
    have "write_block b [] m = m" for b m by (simp add: write_block_def)
    then show ?thesis using True by (simp add: physmem_copy_to_vm.simps)
  next
    case False
    let ?r = "min (page_rest a) (length bs)"
    have r: "0 < ?r" "?r \<le> length bs" using False by auto
    let ?vm = "set_mem (write_block (host_at vm p a) (take ?r bs)) vm"
    have "ram_block ?vm p (a + of_nat ?r) (length (drop ?r bs))"
      using ram_block_drop [OF less.prems r(2)] by simp
    then have IH: "physmem_copy_to_vm h (drop ?r bs) (a + of_nat ?r) ?vm
        = Ok () (set_mem (write_block (host_at ?vm p (a + of_nat ?r)) (drop ?r bs)) ?vm)"
      using r(1) False by (intro less.hyps) auto
    have "write_block (host_at vm p (a + of_nat ?r)) (drop ?r bs) (write_block (host_at vm p a) (take ?r bs) m)
        = write_block (host_at vm p a) bs m" for m
      using write_block_append [of "take ?r bs" "drop ?r bs" "host_at vm p a" m] less.prems r(2)
      by (simp add: host_at_add ram_block_def min_absorb2)
    then show ?thesis
      using ram_block_hptr [OF less.prems, of h 0 MTS_WRITE 0] False IH
      by (subst physmem_copy_to_vm.simps) (simp add: Let_def)
  qed
qed

lemma copy_from_ram:
  assumes "ram_block vm p a (length buf)"
  shows "physmem_copy_from_vm h buf a vm = Ok (read_block (host_mem vm) (host_at vm p a) (length buf)) vm"
  using assms
proof (induction "length buf" arbitrary: buf a rule: less_induct)
  case less
  show ?case
  proof (cases "buf = []")
    case True
    then show ?thesis by (simp add: physmem_copy_from_vm.simps read_block_def)
  next
    case False
    let ?r = "min (page_rest a) (length buf)"
    have r: "0 < ?r" "?r \<le> length buf" using False by auto
    have "ram_block vm p (a + of_nat ?r) (length (drop ?r buf))"
      using ram_block_drop [OF less.prems r(2)] by simp
    then have IH: "physmem_copy_from_vm h (drop ?r buf) (a + of_nat ?r) vm
        = Ok (read_block (host_mem vm) (host_at vm p (a + of_nat ?r)) (length (drop ?r buf))) vm"
      using r(1) False by (intro less.hyps) auto
    show ?thesis
      using ram_block_hptr [OF less.prems, of h 0 MTS_READ 0] False IH read_block_append [OF r(2)]
      by (subst physmem_copy_from_vm.simps) (simp add: Let_def host_at_add)
  qed
qed

lemma read_write_block: "length bs < 2 ^ 32 \<Longrightarrow> read_block (write_block a bs m) a (length bs) = bs"
  by (rule nth_equalityI) (simp_all add: read_block_def write_block_def unat_of_nat)

text \<open>C31: A block written to guest memory inside one memory device is what is read back, across any page
  boundaries; nothing else in the virtual machine changes.\<close>

theorem physmem_copy_roundtrip:
  assumes "ram_block vm p a (length bs)" "length buf = length bs"
  shows "\<exists>m. physmem_copy_to_vm h bs a vm = Ok () (vm\<lparr>host_mem := m\<rparr>)
     \<and> physmem_copy_from_vm h buf a (vm\<lparr>host_mem := m\<rparr>) = Ok bs (vm\<lparr>host_mem := m\<rparr>)
     \<and> (\<forall>x. length bs \<le> unat (x - host_at vm p a) \<longrightarrow> m x = host_mem vm x)"
proof -
  let ?m = "write_block (host_at vm p a) bs (host_mem vm)"
  have "ram_block (vm\<lparr>host_mem := ?m\<rparr>) p a (length buf)" using assms by simp
  then have "physmem_copy_from_vm h buf a (vm\<lparr>host_mem := ?m\<rparr>) = Ok bs (vm\<lparr>host_mem := ?m\<rparr>)"
    using copy_from_ram [of "vm\<lparr>host_mem := ?m\<rparr>" p a buf h] assms read_write_block [of bs "host_at vm p a"
        "host_mem vm"]
    by (simp add: ram_block_def)
  moreover have "physmem_copy_to_vm h bs a vm = Ok () (vm\<lparr>host_mem := ?m\<rparr>)" using copy_to_ram [OF assms(1)]
      by simp
  moreover have "?m x = host_mem vm x" if "length bs \<le> unat (x - host_at vm p a)" for x
    using that by (simp add: write_block_def)
  ultimately show ?thesis by blast
qed

text \<open>C32: A transfer between two blocks of memory devices that do not overlap copies the source to the
  destination and changes nothing else.\<close>

theorem physmem_dma_copies:
  assumes "ram_block vm sp src n" "ram_block vm dp dst n"
    and "\<forall>i<n. \<forall>j<n. host_at vm sp src + of_nat i \<noteq> host_at vm dp dst + of_nat j"
  shows "physmem_dma_transfer h src dst n vm
    = Ok () (set_mem (\<lambda>m. write_block (host_at vm dp dst) (read_block m (host_at vm sp src) n) m) vm)"
  using assms
proof (induction n arbitrary: src dst vm rule: less_induct)
  case (less n)
  show ?case
  proof (cases "n = 0")
    case True
    have "write_block b [] m = m" for b m by (simp add: write_block_def)
    then show ?thesis using True by (simp add: physmem_dma_transfer.simps read_block_def)
  next
    case False
    let ?r = "min (min (page_rest src) (page_rest dst)) n"
    have r: "0 < ?r" "?r \<le> n" using False by auto
    let ?s = "host_at vm sp src" and ?d = "host_at vm dp dst"
    define bs where "bs = read_block (host_mem vm) ?s ?r"
    let ?vm = "set_mem (write_block ?d bs) vm"
    have n: "n < 2 ^ 32" using less.prems(1) by (simp add: ram_block_def)
    have apart: "?s + of_nat i \<noteq> ?d + of_nat j" if "i < n" "j < n" for i j using less.prems(3) that by blast
    have keep: "write_block ?d bs m (?s + of_nat i) = m (?s + of_nat i)" if "i < n" for i m
    proof -
      have "\<not> unat (?s + of_nat i - ?d) < length bs"
      proof
        assume j: "unat (?s + of_nat i - ?d) < length bs"
        have "?s + of_nat i = ?d + of_nat (unat (?s + of_nat i - ?d))" by simp
        moreover have "unat (?s + of_nat i - ?d) < n" using j r(2) by (simp add: bs_def)
        ultimately show False using apart that by blast
      qed
      then show ?thesis by (simp add: write_block_def)
    qed
    have IH: "physmem_dma_transfer h (src + of_nat ?r) (dst + of_nat ?r) (n - ?r) ?vm
        = Ok () (set_mem (\<lambda>m. write_block (host_at ?vm dp (dst + of_nat ?r))
                   (read_block m (host_at ?vm sp (src + of_nat ?r)) (n - ?r)) m) ?vm)"
    proof (rule less.IH)
      show "ram_block ?vm sp (src + of_nat ?r) (n - ?r)" using ram_block_drop [OF less.prems(1) r(2)] by simp
      show "ram_block ?vm dp (dst + of_nat ?r) (n - ?r)" using ram_block_drop [OF less.prems(2) r(2)] by simp
      have "?s + of_nat ?r + of_nat i \<noteq> ?d + of_nat ?r + of_nat j" if "i < n - ?r" "j < n - ?r" for i j
        using apart [of i j] that by simp
      then show "\<forall>i<n - ?r. \<forall>j<n - ?r. host_at ?vm sp (src + of_nat ?r) + of_nat i
          \<noteq> host_at ?vm dp (dst + of_nat ?r) + of_nat j"
        by (simp add: host_at_add)
    qed (use r False in auto)
    have rd: "read_block (write_block ?d bs m) (?s + of_nat ?r) (n - ?r) = read_block m (?s + of_nat ?r) (n
        - ?r)" for m
    proof -
      have "write_block ?d bs m (?s + of_nat ?r + of_nat i) = m (?s + of_nat ?r + of_nat i)" if "i < n - ?r"
          for i
      proof -
        have "?r + i < n" using that by simp
        from keep [OF this, of m] show ?thesis by (simp add: add.assoc)
      qed
      then show ?thesis by (simp add: read_block_def)
    qed
    have "write_block (?d + of_nat ?r) (read_block (host_mem vm) (?s + of_nat ?r) (n - ?r)) (write_block ?d
        bs (host_mem vm))
        = write_block ?d (bs @ read_block (host_mem vm) (?s + of_nat ?r) (n - ?r)) (host_mem vm)"
      using write_block_append [of bs "read_block (host_mem vm) (?s + of_nat ?r) (n - ?r)" ?d "host_mem vm"]
          n r(2)
      by (simp add: bs_def)
    also have "bs @ read_block (host_mem vm) (?s + of_nat ?r) (n - ?r) = read_block (host_mem vm) ?s n"
      unfolding bs_def by (rule read_block_append [OF r(2)])
    finally have fin: "write_block (?d + of_nat ?r) (read_block (host_mem vm) (?s + of_nat ?r) (n - ?r))
        (write_block ?d bs (host_mem vm))
        = write_block ?d (read_block (host_mem vm) ?s n) (host_mem vm)" .
    have "physmem_dma_transfer h src dst n vm
        = physmem_dma_transfer h (src + of_nat ?r) (dst + of_nat ?r) (n - ?r) ?vm"
      using ram_block_hptr [OF less.prems(1), of h 0 MTS_READ 0] ram_block_hptr [OF less.prems(2),
          of h 0 MTS_WRITE 0] False
      by (subst physmem_dma_transfer.simps) (simp add: Let_def bs_def)
    then show ?thesis unfolding IH by (simp add: host_at_add rd fin)
  qed
qed

lemma three_bytes_lost: "length part = 3 \<Longrightarrow> copy_part_to_vm h part a vm = Ok () vm"
  by (simp add: copy_part_to_vm_def)

section \<open>Instances\<close>

text \<open>A machine with 12 KB of memory at address 0.\<close>

definition demo_ram :: "unit vm_instance" where
  "demo_ram = empty_vm\<lparr>vdevs := (\<lambda>_. dev_init\<lparr>phys_len := 0x3000, host_addr := 0x10000,
     dev_flags := VDEVICE_FLAG_CACHING\<rparr>), dev_list := [5]\<rparr>"

definition no_handler :: "unit phys_handler" where
  "no_handler = (\<lambda>_ _ _ _ _ data vm. Ok (0, data) vm)"

lemma demo_ram_block:
  assumes "unat a + n \<le> 0x3000"
  shows "ram_block demo_ram 5 a n"
proof -
  have "dev_lookup (a + of_nat i) False demo_ram = Some 5 \<and> host_at demo_ram 5 (a + of_nat i) \<noteq> 0"
      if i: "i < n" for i
  proof -
    have u: "unat (a + of_nat i) = unat a + i" using i assms by (simp add: unat_word_ariths unat_of_nat)
    then have "a + of_nat i < 0x3000" using i assms by (simp add: word_less_nat_alt)
    moreover have "unat (0x10000 + (a + of_nat i)) = 0x10000 + (unat a + i)"
      using i assms by (simp add: unat_word_ariths(1) [of "0x10000"] u)
    then have "0x10000 + (a + of_nat i) \<noteq> 0" by (metis add_is_0 unat_0 zero_neq_numeral)
    ultimately show ?thesis by (simp add: demo_ram_def dev_lookup_def dev_accepts_def dev_init_def host_at_def)
  qed
  then show ?thesis using assms by (simp add: ram_block_def demo_ram_def dev_init_def)
qed

theorem physmem_copy_roundtrip_witness:
  "\<exists>m. physmem_copy_to_vm no_handler [1, 2, 3, 4] 0xFFE demo_ram = Ok () (demo_ram\<lparr>host_mem := m\<rparr>)
     \<and> physmem_copy_from_vm no_handler [0, 0, 0, 0] 0xFFE (demo_ram\<lparr>host_mem := m\<rparr>)
         = Ok [1, 2, 3, 4] (demo_ram\<lparr>host_mem := m\<rparr>)"
proof -
  have "ram_block demo_ram 5 0xFFE (length [1, 2, 3, 4 :: u8])" by (rule demo_ram_block) simp
  from physmem_copy_roundtrip [OF this, of "[0, 0, 0, 0]" no_handler] show ?thesis by auto
qed

theorem physmem_dma_copies_witness:
  "physmem_dma_transfer no_handler 0xFFE 0x1FFD 2 demo_ram
    = Ok () (set_mem (\<lambda>m. write_block 0x11FFD (read_block m 0x10FFE 2) m) demo_ram)"
proof -
  have "host_at demo_ram 5 a = 0x10000 + a" for a by (simp add: host_at_def demo_ram_def dev_init_def)
  moreover have "\<forall>i<2. \<forall>j<2. (0x10FFE :: u64) + of_nat i \<noteq> 0x11FFD + of_nat (j :: nat)"
    by (auto dest!: less_2_cases)
  ultimately show ?thesis
    using physmem_dma_copies [of demo_ram 5 "0xFFE" 2 5 "0x1FFD" no_handler]
      demo_ram_block [of "0xFFE" 2] demo_ram_block [of "0x1FFD" 2] by simp
qed

text \<open>The search misses a match that ends at the last address of its interval.\<close>

lemma demo_read:
  "a < 0x3000 \<Longrightarrow> physmem_copy_u8_from_vm no_handler a (demo_ram\<lparr>host_mem := m\<rparr>)
     = Ok (m (0x10000 + a)) (demo_ram\<lparr>host_mem := m\<rparr>)"
proof -
  assume a: "a < 0x3000"
  then have "unat a + 1 \<le> 0x3000" by (simp add: word_less_nat_alt)
  then have "ram_block (demo_ram\<lparr>host_mem := m\<rparr>) 5 a 1" using demo_ram_block by simp
  moreover have "ucast (ucast b :: u64) = b" for b :: u8 by (rule bit_word_eqI) (auto simp: bit_simps)
  ultimately show ?thesis
    using ram_block_hptr [of "demo_ram\<lparr>host_mem := m\<rparr>" 5 a 1 no_handler 1 MTS_READ 0]
    by (simp add: physmem_copy_u8_from_vm_def host_read8_def host_at_def demo_ram_def dev_init_def)
qed

lemma cfind_numeral:
  "cfind_fill h (numeral k) first lim buflen ring vm =
     (if first + of_nat buflen \<le> lim then
        obind (physmem_copy_u8_from_vm h (first + of_nat buflen) vm)
          (\<lambda>b vm. cfind_fill h (pred_numeral k) first lim (buflen + 1) (ring[buflen := b]) vm)
      else Ok (ring, buflen) vm)"
  "cfind_scan h bytes (numeral k) first lim i ring vm =
     (if first + of_nat (length bytes) \<le> lim then
        (let i = (if length bytes \<le> i then 0 else i) in
         if ring_match ring i bytes then Ok (True, first, i, ring) vm
         else
           obind (physmem_copy_u8_from_vm h (first + of_nat (length bytes)) vm)
             (\<lambda>b vm. cfind_scan h bytes (pred_numeral k) (first + 1) lim (i + 1) (ring[i := b]) vm))
      else Ok (False, first, i, ring) vm)"
  by (simp_all add: numeral_eq_Suc)

lemma cfind_misses_last:
  fixes m :: "u64 \<Rightarrow> u8"
  defines "m \<equiv> (\<lambda>_. 0)(0x10003 := 1, 0x10004 := 2)"
  shows "physmem_cfind no_handler (Some [0, 0]) [1,
      2] 0 4 (demo_ram\<lparr>host_mem := m\<rparr>) = Ok None (demo_ram\<lparr>host_mem := m\<rparr>)"
    "physmem_cfind no_handler (Some [0, 0]) [1,
        2] 0 5 (demo_ram\<lparr>host_mem := m\<rparr>) = Ok (Some 3) (demo_ram\<lparr>host_mem := m\<rparr>)"
proof -
  have l: "dev_list (demo_ram\<lparr>host_mem := m\<rparr>) = [5]"
    "phys_addr (vdevs (demo_ram\<lparr>host_mem := m\<rparr>) 5) = 0" "phys_len (vdevs (demo_ram\<lparr>host_mem := m\<rparr>) 5) = 0x3000"
    "dev_flags (vdevs (demo_ram\<lparr>host_mem := m\<rparr>) 5) = 2"
    by (simp_all add: demo_ram_def dev_init_def)
  show "physmem_cfind no_handler (Some [0, 0]) [1,
      2] 0 4 (demo_ram\<lparr>host_mem := m\<rparr>) = Ok None (demo_ram\<lparr>host_mem := m\<rparr>)"
    "physmem_cfind no_handler (Some [0, 0]) [1,
        2] 0 5 (demo_ram\<lparr>host_mem := m\<rparr>) = Ok (Some 3) (demo_ram\<lparr>host_mem := m\<rparr>)"
    unfolding physmem_cfind_def l cfind_devs.simps Let_def
    by (simp_all add: l cfind_numeral demo_read ring_match_def m_def Let_def)
qed

end
